(* ===== verification/Prelude.thy ===== *)
theory Prelude
  imports "HOL-Library.Word"
begin

text \<open>
  Shared vocabulary of the development: the machine integers and byte strings the
  programs exchange, the result type with its early return, little-endian integers,
  fixed-offset writes and segments of a byte image with their read-over-write laws, and
  the contract \<open>image_codec\<close> that every fixed-width account image of the repository
  keeps. The component theories only add their layouts to the collections declared here.
\<close>

unbundle bit_operations_syntax

named_theorems image_simps \<open>read-over-write laws of fixed-offset byte images\<close>
named_theorems layout_defs \<open>magic values, versions and byte counts of the account layouts\<close>

type_synonym u8 = "8 word"
type_synonym u16 = "16 word"
type_synonym u32 = "32 word"
type_synonym u64 = "64 word"
type_synonym u128 = "128 word"
type_synonym bytes = "u8 list"

section \<open>Results with early return\<close>

text \<open>
  A Rust \<^verbatim>\<open>Result<T, E>\<close> is a value of \<open>'e + 'a\<close>; \<open>bindE\<close> is the question mark
  operator and \<open>map_err\<close> the method of the same name.
\<close>

definition bindE :: "'e + 'a \<Rightarrow> ('a \<Rightarrow> 'e + 'b) \<Rightarrow> 'e + 'b" where
  "bindE x f = (case x of Inl e \<Rightarrow> Inl e | Inr y \<Rightarrow> f y)"

definition map_err :: "('e \<Rightarrow> 'f) \<Rightarrow> 'e + 'a \<Rightarrow> 'f + 'a" where
  "map_err g x = (case x of Inl e \<Rightarrow> Inl (g e) | Inr y \<Rightarrow> Inr y)"

definition ok_or :: "'e \<Rightarrow> 'a option \<Rightarrow> 'e + 'a" where
  "ok_or e x = (case x of None \<Rightarrow> Inl e | Some y \<Rightarrow> Inr y)"

definition is_ok :: "'e + 'a \<Rightarrow> bool" where
  "is_ok x = (case x of Inl _ \<Rightarrow> False | Inr _ \<Rightarrow> True)"

lemma bindE_simps [simp]: "bindE (Inl e) f = Inl e" "bindE (Inr y) f = f y"
  by (simp_all add: bindE_def)

lemma map_err_simps [simp]: "map_err g (Inl e) = Inl (g e)" "map_err g (Inr y) = Inr y"
  by (simp_all add: map_err_def)

lemma ok_or_simps [simp]: "ok_or e None = Inl e" "ok_or e (Some y) = Inr y"
  by (simp_all add: ok_or_def)

lemma is_ok_simps [simp]: "\<not> is_ok (Inl e)" "is_ok (Inr y)"
  by (simp_all add: is_ok_def)

lemma bindE_eq_Inr [simp]: "bindE x f = Inr z \<longleftrightarrow> (\<exists>y. x = Inr y \<and> f y = Inr z)"
  by (cases x) auto

lemma bindE_eq_Inl: "bindE x f = Inl e \<longleftrightarrow> x = Inl e \<or> (\<exists>y. x = Inr y \<and> f y = Inl e)"
  by (cases x) auto

lemma map_err_eq_Inr [simp]: "map_err g x = Inr y \<longleftrightarrow> x = Inr y"
  by (cases x) auto

lemma ok_or_eq_Inr [simp]: "ok_or e x = Inr y \<longleftrightarrow> x = Some y"
  by (cases x) auto

lemma is_ok_iff: "is_ok x \<longleftrightarrow> (\<exists>y. x = Inr y)"
  by (cases x) auto

lemma if_Inl_eq_Inr [simp]: "(if c then Inl e else x) = Inr y \<longleftrightarrow> \<not> c \<and> x = Inr y"
  by simp

text \<open>A loop over a list that stops at the first error.\<close>

primrec mapE :: "('a \<Rightarrow> 'e + 'b) \<Rightarrow> 'a list \<Rightarrow> 'e + 'b list" where
  "mapE f [] = Inr []"
| "mapE f (x # xs) = bindE (f x) (\<lambda>y. bindE (mapE f xs) (\<lambda>ys. Inr (y # ys)))"

lemma mapE_eq_Inr: "mapE f xs = Inr ys \<longleftrightarrow> list_all2 (\<lambda>x y. f x = Inr y) xs ys"
  by (induction xs arbitrary: ys) (auto simp: list_all2_Cons1)

lemma mapE_Inl: "mapE f xs = Inl e \<Longrightarrow> \<exists>x \<in> set xs. f x = Inl e"
  by (induction xs) (auto simp: bindE_eq_Inl)

lemma mapE_cong [fundef_cong]: "(\<And>x. x \<in> set xs \<Longrightarrow> f x = g x) \<Longrightarrow> mapE f xs = mapE g xs"
  by (induction xs) simp_all

section \<open>Checked arithmetic\<close>

definition checked_add :: "'a::len word \<Rightarrow> 'a word \<Rightarrow> 'a word option" where
  "checked_add a b = (if unat a + unat b < 2 ^ LENGTH('a) then Some (a + b) else None)"

definition checked_mul :: "'a::len word \<Rightarrow> 'a word \<Rightarrow> 'a word option" where
  "checked_mul a b = (if unat a * unat b < 2 ^ LENGTH('a) then Some (a * b) else None)"

definition checked_sub :: "'a::len word \<Rightarrow> 'a word \<Rightarrow> 'a word option" where
  "checked_sub a b = (if b \<le> a then Some (a - b) else None)"

lemma unat_bound: "unat (w :: 'a::len word) < 2 ^ LENGTH('a)"
  by (rule unsigned_less)

lemma checked_add_eq_Some:
  "checked_add a b = Some (c::'a::len word) \<longleftrightarrow> unat c = unat a + unat b"
proof -
  have "unat (a + b) = unat a + unat b" if "unat a + unat b < 2 ^ LENGTH('a)"
    using that by (simp add: unat_word_ariths)
  then show ?thesis
    using unat_bound [of c] by (auto simp: checked_add_def word_unat_eq_iff simp del: unsigned_less)
qed

lemma checked_mul_eq_Some:
  "checked_mul a b = Some (c::'a::len word) \<longleftrightarrow> unat c = unat a * unat b"
proof -
  have "unat (a * b) = unat a * unat b" if "unat a * unat b < 2 ^ LENGTH('a)"
    using that by (simp add: unat_word_ariths)
  then show ?thesis
    using unat_bound [of c] by (auto simp: checked_mul_def word_unat_eq_iff simp del: unsigned_less)
qed

lemma checked_sub_eq_Some:
  "checked_sub a b = Some c \<longleftrightarrow> b \<le> a \<and> c = a - b"
  by (auto simp: checked_sub_def)

section \<open>Little-endian integers\<close>

definition to_le :: "nat \<Rightarrow> 'a::len word \<Rightarrow> bytes" where
  "to_le n w = map (\<lambda>i. ucast (drop_bit (8 * i) w)) [0..<n]"

fun from_le :: "bytes \<Rightarrow> 'a::len word" where
  "from_le [] = 0"
| "from_le (b # bs) = ucast b OR push_bit 8 (from_le bs)"

lemma length_to_le [simp]: "length (to_le n w) = n"
  by (simp add: to_le_def)

lemma bit_from_le:
  "bit (from_le bs :: 'a::len word) i \<longleftrightarrow>
     i < LENGTH('a) \<and> i div 8 < length bs \<and> bit (bs ! (i div 8)) (i mod 8)"
proof (induction bs arbitrary: i)
  case Nil
  then show ?case by simp
next
  case (Cons b bs)
  show ?case
  proof (cases "i < 8")
    case True
    then show ?thesis
      by (auto simp: bit_or_iff bit_push_bit_iff bit_ucast_iff dest: bit_imp_le_length)
  next
    case False
    then have "\<not> bit b i"
      by (auto dest: bit_imp_le_length)
    moreover have "i div 8 = Suc ((i - 8) div 8)" "i mod 8 = (i - 8) mod 8"
      using False by (simp_all add: le_div_geq le_mod_geq)
    ultimately show ?thesis
      using False by (auto simp: bit_or_iff bit_push_bit_iff bit_ucast_iff Cons.IH)
  qed
qed

lemma from_le_to_le: "LENGTH('a) = 8 * n \<Longrightarrow> from_le (to_le n (w :: 'a::len word)) = w"
  by (rule bit_word_eqI) (auto simp: bit_from_le to_le_def bit_ucast_iff bit_drop_bit_eq)

lemma to_le_from_le:
  assumes "length bs = n" and "LENGTH('a) = 8 * n"
  shows "to_le n (from_le bs :: 'a::len word) = bs"
proof (rule nth_equalityI)
  show "length (to_le n (from_le bs :: 'a word)) = length bs"
    using assms by simp
next
  fix i assume "i < length (to_le n (from_le bs :: 'a word))"
  then have i: "i < n" by simp
  have div_eq: "(8 * i + j) div 8 = i" "(8 * i + j) mod 8 = j" if "j < 8" for j
    using that by simp_all
  show "to_le n (from_le bs :: 'a word) ! i = bs ! i"
    using i assms
    by (intro bit_word_eqI)
      (auto simp: to_le_def bit_ucast_iff bit_drop_bit_eq bit_from_le div_eq)
qed

lemma from_le_u64 [simp]: "from_le (to_le 8 (w::u64)) = w"
  by (rule from_le_to_le) simp

lemma to_le_u64 [simp]: "length bs = 8 \<Longrightarrow> to_le 8 (from_le bs :: u64) = bs"
  by (rule to_le_from_le) simp_all

lemma from_le_u32 [simp]: "from_le (to_le 4 (w::u32)) = w"
  by (rule from_le_to_le) simp

lemma to_le_u32 [simp]: "length bs = 4 \<Longrightarrow> to_le 4 (from_le bs :: u32) = bs"
  by (rule to_le_from_le) simp_all

lemma from_le_u16 [simp]: "from_le (to_le 2 (w::u16)) = w"
  by (rule from_le_to_le) simp

lemma to_le_u16 [simp]: "length bs = 2 \<Longrightarrow> to_le 2 (from_le bs :: u16) = bs"
  by (rule to_le_from_le) simp_all

section \<open>Fixed-offset images\<close>

text \<open>
  \<open>seg a b bs\<close> is \<^verbatim>\<open>bs[a..b]\<close> and \<open>put a xs bs\<close> is
  \<^verbatim>\<open>bs[a..a + xs.len()].copy_from_slice(xs)\<close>. Both panic out of range in Rust; every use
  in the modelled code is below a length check or on an array of fixed size, which is
  where the length side conditions of the laws below come from.
\<close>

definition seg :: "nat \<Rightarrow> nat \<Rightarrow> 'a list \<Rightarrow> 'a list" where
  "seg a b xs = take (b - a) (drop a xs)"

definition put :: "nat \<Rightarrow> 'a list \<Rightarrow> 'a list \<Rightarrow> 'a list" where
  "put a ys xs = take a xs @ ys @ drop (a + length ys) xs"

definition zeros :: "nat \<Rightarrow> bytes" where
  "zeros n = replicate n 0"

lemma length_seg [simp]: "length (seg a b xs) = min (b - a) (length xs - a)"
  by (simp add: seg_def)

lemma length_zeros [simp]: "length (zeros n) = n"
  by (simp add: zeros_def)

text \<open>
  Stated with the length of the target as a variable, the law computes the length of a chain of
  writes in one pass.
\<close>

lemma length_put [simp]: "length xs = n \<Longrightarrow> a + length ys \<le> n \<Longrightarrow> length (put a ys xs) = n"
  by (auto simp: put_def)

lemma drop_eq_seg: "length xs = n \<Longrightarrow> drop k xs = seg k n xs"
  by (simp add: seg_def)

lemma seg_put_same [image_simps]:
  "b = a + length ys \<Longrightarrow> a + length ys \<le> length xs \<Longrightarrow> seg a b (put a ys xs) = ys"
  by (simp add: seg_def put_def)

lemma nth_seg: "i < b - a \<Longrightarrow> b \<le> length xs \<Longrightarrow> seg a b xs ! i = xs ! (a + i)"
  by (simp add: seg_def)

lemma nth_put:
  "a + length ys \<le> length xs \<Longrightarrow> i < length xs \<Longrightarrow>
   put a ys xs ! i = (if i < a then xs ! i else if i < a + length ys then ys ! (i - a) else xs ! i)"
  by (auto simp: put_def nth_append)

lemma seg_eqI:
  assumes "length xs = length ys"
    and "\<And>i. a \<le> i \<Longrightarrow> i < b \<Longrightarrow> i < length xs \<Longrightarrow> xs ! i = ys ! i"
  shows "seg a b xs = seg a b ys"
proof (rule nth_equalityI)
  show "length (seg a b xs) = length (seg a b ys)"
    using assms(1) by simp
next
  fix i assume "i < length (seg a b xs)"
  then have "i < b - a" "a + i < length xs" by auto
  with assms show "seg a b xs ! i = seg a b ys ! i"
    by (simp add: seg_def)
qed

lemma seg_put_before [image_simps]:
  "b \<le> c \<Longrightarrow> c + length ys \<le> length xs \<Longrightarrow> seg a b (put c ys xs) = seg a b xs"
  by (rule seg_eqI) (auto simp: nth_put)

lemma seg_put_after [image_simps]:
  "c + length ys \<le> a \<Longrightarrow> c + length ys \<le> length xs \<Longrightarrow> seg a b (put c ys xs) = seg a b xs"
  by (rule seg_eqI) (auto simp: nth_put)

lemma seg_update_before [image_simps]: "b \<le> i \<Longrightarrow> seg a b (xs[i := v]) = seg a b xs"
  by (rule seg_eqI) auto

lemma seg_update_after [image_simps]: "i < a \<Longrightarrow> seg a b (xs[i := v]) = seg a b xs"
  by (rule seg_eqI) auto

lemma nth_put_before [image_simps]:
  "i < c \<Longrightarrow> c + length ys \<le> length xs \<Longrightarrow> put c ys xs ! i = xs ! i"
  by (simp add: nth_put)

lemma nth_put_after [image_simps]:
  "c + length ys \<le> i \<Longrightarrow> i < length xs \<Longrightarrow> put c ys xs ! i = xs ! i"
  by (simp add: nth_put)

lemma seg_zeros [image_simps]: "b \<le> n \<Longrightarrow> seg a b (zeros n) = zeros (b - a)"
  by (simp add: seg_def zeros_def min_def)

lemma nth_zeros [image_simps]: "i < n \<Longrightarrow> zeros n ! i = 0"
  by (simp add: zeros_def)

lemma seg_one: "b = Suc a \<Longrightarrow> a < length xs \<Longrightarrow> seg a b xs = [xs ! a]"
  by (simp add: seg_def take_Suc_conv_app_nth)

lemma seg_all: "seg 0 (length xs) xs = xs"
  by (simp add: seg_def)

lemma seg_seg: "b \<le> d - c \<Longrightarrow> seg a b (seg c d xs) = seg (c + a) (c + b) xs"
  by (simp add: seg_def drop_take min_def add.commute diff_right_commute)

text \<open>Two images agree when they agree on consecutive fields that cover them.\<close>

fun agree_on :: "nat list \<Rightarrow> 'a list \<Rightarrow> 'a list \<Rightarrow> bool" where
  "agree_on (a # b # cs) xs ys \<longleftrightarrow> seg a b xs = seg a b ys \<and> agree_on (b # cs) xs ys"
| "agree_on _ xs ys \<longleftrightarrow> True"

lemma agree_on_drop:
  "agree_on (a # cs) xs ys \<Longrightarrow> sorted (a # cs) \<Longrightarrow> length xs = length ys \<Longrightarrow>
   last (a # cs) \<ge> length xs \<Longrightarrow> drop a xs = drop a ys"
proof (induction cs arbitrary: a)
  case Nil
  then show ?case by simp
next
  case (Cons b cs)
  from Cons have rest: "drop b xs = drop b ys" and field: "seg a b xs = seg a b ys"
    and le: "a \<le> b"
    by auto
  have split: "drop a zs = seg a b zs @ drop b zs" for zs :: "'a list"
    using le by (metis append_take_drop_id drop_drop le_add_diff_inverse2 seg_def)
  show ?case
    using rest field by (simp add: split)
qed

lemma agree_on_eq:
  assumes "agree_on (0 # cs) xs ys" "sorted (0 # cs)" "length xs = n" "length ys = n"
    and "last (0 # cs) = n"
  shows "xs = ys"
  using agree_on_drop [of 0 cs xs ys] assms by simp

section \<open>Arrays of fixed-width items\<close>

text \<open>
  \<open>put_each s k f xs\<close> writes the \<open>k\<close>-byte images of \<open>xs\<close> one after the other from offset \<open>s\<close>,
  and \<open>read_each\<close> decodes \<open>n\<close> of them, stopping at the first error.
\<close>

definition put_each :: "nat \<Rightarrow> nat \<Rightarrow> ('a \<Rightarrow> 'b list) \<Rightarrow> 'a list \<Rightarrow> 'b list \<Rightarrow> 'b list" where
  "put_each s k f xs out = fold (\<lambda>(i, x) out. put (s + i * k) (f x) out) (enumerate 0 xs) out"

definition read_each :: "nat \<Rightarrow> nat \<Rightarrow> (bytes \<Rightarrow> 'e + 'a) \<Rightarrow> nat \<Rightarrow> bytes \<Rightarrow> 'e + 'a list" where
  "read_each s k dec n bytes = mapE (\<lambda>i. dec (seg (s + i * k) (s + i * k + k) bytes)) [0..<n]"

lemma put_put: "b = a + length xs \<Longrightarrow> b + length ys \<le> length zs \<Longrightarrow> put b ys (put a xs zs) = put a (xs @ ys) zs"
  by (simp add: put_def add.assoc add.commute add.left_commute)

lemma put_Nil [simp]: "put a [] zs = zs"
  by (simp add: put_def)

lemma put_each_eq:
  assumes "\<And>x. x \<in> set xs \<Longrightarrow> length (f x) = k" "s + length xs * k \<le> length out"
  shows "put_each s k f xs out = put s (concat (map f xs)) out"
proof -
  have "fold (\<lambda>(i, x) out. put (s + i * k) (f x) out) (enumerate n ys) (put s zs out) = put s (zs @ concat (map f ys)) out"
    if "length zs = n * k" "\<forall>y \<in> set ys. length (f y) = k" "s + (n + length ys) * k \<le> length out" for n ys zs
    using that
  proof (induction ys arbitrary: n zs)
    case (Cons y ys)
    have "put (s + n * k) (f y) (put s zs out) = put s (zs @ f y) out"
      using Cons.prems by (intro put_put) (simp_all add: algebra_simps)
    with Cons.IH [of "zs @ f y" "Suc n"] Cons.prems show ?case by (simp add: algebra_simps)
  qed simp
  from this [of "[]" 0 xs] assms show ?thesis by (simp add: put_each_def)
qed

lemma length_concat_const: "(\<And>x. x \<in> set xs \<Longrightarrow> length (f x) = k) \<Longrightarrow> length (concat (map f xs)) = length xs * k"
  by (induction xs) simp_all

lemma length_put_each [simp]:
  assumes "\<And>x. x \<in> set xs \<Longrightarrow> length (f x) = k" "s + length xs * k \<le> length out"
  shows "length (put_each s k f xs out) = length out"
  using assms length_concat_const [of xs f k] by (subst put_each_eq) simp_all

lemma seg_concat_const:
  assumes "\<And>x. x \<in> set xs \<Longrightarrow> length (f x) = k" "i < length xs"
  shows "seg (i * k) (i * k + k) (concat (map f xs)) = f (xs ! i)"
  using assms
proof (induction xs arbitrary: i)
  case (Cons x xs)
  have x: "length (f x) = k" using Cons.prems by simp
  show ?case
  proof (cases i)
    case 0
    then show ?thesis using x by (simp add: seg_def)
  next
    case (Suc j)
    then show ?thesis using Cons x by (simp add: seg_def)
  qed
qed simp

lemma concat_segs:
  assumes "length xs = n * k"
  shows "concat (map (\<lambda>i. seg (i * k) (i * k + k) xs) [0..<n]) = xs"
proof -
  have "concat (map (\<lambda>i. seg (i * k) (i * k + k) xs) [0..<m]) = take (m * k) xs" if "m \<le> n" for m
    using that
  proof (induction m)
    case (Suc m)
    have "take (m * k + k) xs = take (m * k) xs @ take k (drop (m * k) xs)" by (rule take_add)
    with Suc show ?case by (simp add: seg_def add.commute)
  qed simp
  from this [of n] assms show ?thesis by simp
qed

lemma read_each_eq_Inr:
  assumes codec: "\<And>b x. length b = k \<Longrightarrow> dec b = Inr x \<longleftrightarrow> ok x \<and> f x = b"
    and len: "\<And>x. ok x \<Longrightarrow> length (f x) = k" and fits: "s + n * k \<le> length bytes"
  shows "read_each s k dec n bytes = Inr xs \<longleftrightarrow>
    length xs = n \<and> list_all ok xs \<and> concat (map f xs) = seg s (s + n * k) bytes"
proof -
  let ?b = "seg s (s + n * k) bytes"
  have field: "seg (s + i * k) (s + i * k + k) bytes = seg (i * k) (i * k + k) ?b" if "i < n" for i
  proof -
    have "i * k + k \<le> n * k" using that by (metis Suc_leI add.commute mult_Suc mult_le_mono1)
    then show ?thesis by (subst seg_seg) (simp_all add: add.assoc)
  qed
  have lenf: "length (seg (i * k) (i * k + k) ?b) = k" if "i < n" for i
  proof -
    have "i * k + k \<le> n * k" using that by (metis Suc_leI add.commute mult_Suc mult_le_mono1)
    then show ?thesis using fits by simp
  qed
  have "read_each s k dec n bytes = Inr xs \<longleftrightarrow> length xs = n \<and> (\<forall>i<n. dec (seg (i * k) (i * k + k) ?b) = Inr (xs ! i))"
    unfolding read_each_def mapE_eq_Inr list_all2_conv_all_nth using field by auto
  also have "\<dots> \<longleftrightarrow> length xs = n \<and> (\<forall>i<n. ok (xs ! i) \<and> f (xs ! i) = seg (i * k) (i * k + k) ?b)"
    using codec lenf by auto
  also have "\<dots> \<longleftrightarrow> length xs = n \<and> list_all ok xs \<and> concat (map f xs) = ?b"
  proof (intro conj_cong refl iffI)
    assume n: "length xs = n" and all: "\<forall>i<n. ok (xs ! i) \<and> f (xs ! i) = seg (i * k) (i * k + k) ?b"
    have "map f xs = map (\<lambda>i. seg (i * k) (i * k + k) ?b) [0..<n]"
      using n all by (intro nth_equalityI) simp_all
    then show "list_all ok xs \<and> concat (map f xs) = ?b"
      using n all fits concat_segs [of ?b n k] by (simp add: list_all_length)
  next
    assume n: "length xs = n" and all: "list_all ok xs \<and> concat (map f xs) = ?b"
    have "length (f x) = k" if "x \<in> set xs" for x using all that len by (simp add: list_all_iff)
    from seg_concat_const [of xs f k, OF this] all n
    show "\<forall>i<n. ok (xs ! i) \<and> f (xs ! i) = seg (i * k) (i * k + k) ?b" by (simp add: list_all_length)
  qed
  finally show ?thesis .
qed

section \<open>The contract of a wire format\<close>

text \<open>
  Every account image and instruction wire of the repository promises the same: an
  encoded value decodes to itself, and only canonical bytes are accepted, so a value has
  exactly one accepted image. \<open>wf\<close> is the Rust type of the value (array lengths and
  canonical limbs), which HOL lists do not carry. Account images have a fixed width besides.
\<close>

locale canonical_codec =
  fixes enc :: "'a \<Rightarrow> 'e + bytes"
    and dec :: "bytes \<Rightarrow> 'e + 'a"
    and wf :: "'a \<Rightarrow> bool"
  assumes dec_enc: "wf x \<Longrightarrow> enc x = Inr b \<Longrightarrow> dec b = Inr x"
    and enc_dec: "dec b = Inr x \<Longrightarrow> enc x = Inr b"
    and wf_dec: "dec b = Inr x \<Longrightarrow> wf x"
begin

lemma accepts_iff: "wf x \<Longrightarrow> dec b = Inr x \<longleftrightarrow> enc x = Inr b"
  using dec_enc enc_dec by blast

lemma unique_image: "dec b = Inr x \<Longrightarrow> dec c = Inr x \<Longrightarrow> b = c"
  by (auto dest!: enc_dec)

lemma enc_inj: "wf x \<Longrightarrow> wf y \<Longrightarrow> enc x = Inr b \<Longrightarrow> enc y = Inr b \<Longrightarrow> x = y"
  by (auto dest!: dec_enc)

lemma rejects_other: "dec b = Inr x \<Longrightarrow> c \<noteq> b \<Longrightarrow> dec c \<noteq> Inr x"
  using unique_image by blast

end

locale image_codec = canonical_codec enc dec wf
  for enc :: "'a \<Rightarrow> 'e + bytes" and dec :: "bytes \<Rightarrow> 'e + 'a" and wf :: "'a \<Rightarrow> bool" +
  fixes size_of :: nat
  assumes length_dec: "dec b = Inr x \<Longrightarrow> length b = size_of"
begin

lemma length_enc: "wf x \<Longrightarrow> enc x = Inr b \<Longrightarrow> length b = size_of"
  by (rule length_dec [OF dec_enc])

end

text \<open>
  The usual shape of a codec: a check followed by fixed-offset writes, and a decoder that reads the
  fields back and runs the same check. Agreement on the fields is enough.
\<close>

lemma image_codecI:
  assumes enc: "\<And>x. enc x = bindE (check x) (\<lambda>_. Inr (img x))"
    and len: "\<And>x. ok x \<Longrightarrow> length (img x) = n"
    and decoded: "\<And>x. ok x \<Longrightarrow> check x = Inr () \<Longrightarrow> dec (img x) = Inr x"
    and cuts: "sorted (0 # cs)" "last (0 # cs) = n"
    and read: "\<And>b x. dec b = Inr x \<Longrightarrow> length b = n \<and> ok x \<and> check x = Inr ()"
    and fields: "\<And>b x. dec b = Inr x \<Longrightarrow> length b = n \<Longrightarrow> ok x \<Longrightarrow> agree_on (0 # cs) (img x) b"
  shows "image_codec enc dec ok n"
proof unfold_locales
  fix x b
  show "dec b = Inr x" if "ok x" "enc x = Inr b"
    using that decoded [of x] by (cases "check x") (auto simp: enc)
  assume dec: "dec b = Inr x"
  then show ok: "ok x" and n: "length b = n" using read by auto
  from dec n ok have "agree_on (0 # cs) (img x) b" by (rule fields)
  then have "img x = b" using cuts(1) len [OF ok] n cuts(2) by (rule agree_on_eq)
  with read [OF dec] show "enc x = Inr b" by (simp add: enc)
qed

end
