(* ===== verification/PrimeField.thy ===== *)
theory PrimeField
  imports Prelude "HOL-Library.Numeral_Type"
begin

text \<open>
  The mathematical side of the field tower of \<open>crates/aspis-core/src/field.rs\<close>: the prime
  field with \<open>2^31 - 1\<close> elements, its extension by \<open>i\<close> with \<open>i * i = - 1\<close>, and the
  extension of that by \<open>u\<close> with \<open>u * u = 2 + i\<close>. All three are instances of the class
  \<open>field\<close>, so the library's ring and field automation serves the component proofs.
  Primality is not assumed: that \<open>7\<close> generates the nonzero residues is checked by
  computation, and Fermat's theorem follows from it.
\<close>

section \<open>The ring of residues\<close>

abbreviation p31 :: int where "p31 \<equiv> 2147483647"

typedef gf = "{0..<p31}" morphisms rep_gf abs_gf
  by (rule exI [of _ 0]) simp

instantiation gf :: "{zero, one, plus, times, uminus, minus}"
begin
definition "0 = abs_gf 0"
definition "1 = abs_gf 1"
definition "x + y = abs_gf ((rep_gf x + rep_gf y) mod p31)"
definition "x * y = abs_gf ((rep_gf x * rep_gf y) mod p31)"
definition "x - y = abs_gf ((rep_gf x - rep_gf y) mod p31)"
definition "- x = abs_gf ((- rep_gf x) mod p31)"
instance ..
end

interpretation gf: mod_type p31 rep_gf abs_gf
  by (rule mod_type.intro [OF type_definition_gf])
    (simp_all add: zero_gf_def one_gf_def plus_gf_def times_gf_def minus_gf_def uminus_gf_def)

instance gf :: comm_ring_1
  by (rule gf.comm_ring_1)

interpretation gf: mod_ring p31 rep_gf abs_gf ..

lemma of_int_gf_eq_iff: "(of_int a :: gf) = of_int b \<longleftrightarrow> a mod p31 = b mod p31"
  by (simp add: gf.of_int_eq gf.Rep_inject_sym gf.Rep_Abs_mod)

lemma of_nat_gf_eq_iff: "(of_nat a :: gf) = of_nat b \<longleftrightarrow> a mod 2147483647 = b mod 2147483647"
proof -
  have "(of_nat a :: gf) = of_nat b \<longleftrightarrow> int a mod p31 = int b mod p31"
    using of_int_gf_eq_iff [of "int a" "int b"] by simp
  also have "\<dots> \<longleftrightarrow> int (a mod 2147483647) = int (b mod 2147483647)"
    by (simp add: zmod_int)
  finally show ?thesis by simp
qed

lemma of_nat_gf_mod [simp]: "(of_nat (n mod 2147483647) :: gf) = of_nat n"
  by (simp add: of_nat_gf_eq_iff)

lemma finite_gf [simp]: "finite (UNIV :: gf set)"
  by (metis finite_atLeastLessThan_int finite_imageI gf.UNIV_eq)

lemma card_gf: "card (UNIV :: gf set) = 2147483647"
  using gf.CARD_eq by simp

section \<open>Fermat's theorem from a primitive root\<close>

text \<open>Square-and-multiply on residues, run by the kernel on the cofactors of \<open>2^31 - 2\<close>.\<close>

function powmod :: "int \<Rightarrow> int \<Rightarrow> int \<Rightarrow> int" where
  "powmod b e acc =
     (if e \<le> 0 then acc
      else powmod (b * b mod p31) (e div 2) (if odd e then acc * b mod p31 else acc))"
  by auto
termination by (relation "measure (\<lambda>(b, e, acc). nat e)") auto

declare powmod.simps [simp del]

lemma of_int_gf_mod [simp]: "(of_int (n mod p31) :: gf) = of_int n"
  by (simp add: of_int_gf_eq_iff)

lemma powmod_correct: "(of_int (powmod b e acc) :: gf) = of_int acc * of_int b ^ nat e"
proof (induction b e acc rule: powmod.induct)
  case (1 b e acc)
  show ?case
  proof (cases "e \<le> 0")
    case True
    then show ?thesis by (subst powmod.simps) simp
  next
    case False
    have half: "nat e = nat (e div 2) * 2 + (if odd e then 1 else 0)"
      using False by (cases "odd e") (auto elim!: oddE evenE simp: nat_add_distrib nat_mult_distrib)
    have sq: "x ^ (k * 2) = (x * x) ^ k" for x :: gf and k
      by (metis mult.commute power2_eq_square power_mult)
    have "(of_int b :: gf) ^ nat e = (of_int b * of_int b) ^ nat (e div 2) * (if odd e then of_int b else 1)"
      by (subst half) (simp add: power_add sq)
    then show ?thesis
      using 1 False by (subst powmod.simps) (simp add: algebra_simps)
  qed
qed

lemma gf_power_eq_1_iff: "(of_int b :: gf) ^ nat e = 1 \<longleftrightarrow> powmod b e 1 mod p31 = 1"
  using powmod_correct [of b e 1] of_int_gf_eq_iff [of "powmod b e 1" 1] by simp

text \<open>The prime factors of \<open>2^31 - 2\<close> and the cofactors that certify the order of \<open>7\<close>.\<close>

lemma gf_numeral_power_eq_1_iff:
  "(numeral b :: gf) ^ numeral e = 1 \<longleftrightarrow> powmod (numeral b) (numeral e) 1 mod p31 = 1"
  using gf_power_eq_1_iff [of "numeral b" "numeral e"] by (simp only: of_int_numeral nat_numeral)

lemma generator_order: "(7 :: gf) ^ 2147483646 = 1"
proof -
  have "powmod 7 2147483646 1 mod p31 = 1" by code_simp
  then show ?thesis by (simp only: gf_numeral_power_eq_1_iff)
qed

lemma generator_cofactors_run:
  "list_all (\<lambda>k. powmod 7 k 1 mod p31 \<noteq> 1)
     [1073741823, 715827882, 306783378, 195225786, 69273666, 14221746, 6487866]"
  by code_simp

lemma generator_cofactors:
  assumes "q \<in> {2, 3, 7, 11, 31, 151, 331}" and "2147483646 = q * k"
  shows "(7 :: gf) ^ k \<noteq> 1"
proof -
  have "k = 2147483646 div q"
    using assms by (metis nonzero_mult_div_cancel_left mult_eq_0_iff zero_neq_numeral)
  with assms(1) have "int k \<in> set [1073741823, 715827882, 306783378, 195225786, 69273666, 14221746, 6487866]"
    by (elim insertE emptyE) simp_all
  then have "powmod 7 (int k) 1 mod p31 \<noteq> 1"
    using generator_cofactors_run unfolding list_all_iff by (rule bspec [rotated])
  then have "(of_int 7 :: gf) ^ nat (int k) \<noteq> 1"
    by (simp only: gf_power_eq_1_iff not_False_eq_True)
  then show ?thesis by (simp only: of_int_numeral nat_int not_False_eq_True)
qed

text \<open>A divisor of \<open>2^31 - 2\<close> that avoids its seven prime factors is \<open>1\<close>.\<close>

lemma no_small_divisors:
  "list_all (\<lambda>q. list_all (\<lambda>d. q mod d \<noteq> 0) [2..q - 1]) [2, 3, 7, 11, 31, 151, 331 :: int]"
  by code_simp

lemma coprime_or_dvd:
  fixes q :: nat
  assumes "q \<in> {2, 3, 7, 11, 31, 151, 331}" and "\<not> q dvd e"
  shows "coprime q e"
proof -
  define g where "g = gcd q e"
  have g: "g dvd q" "g dvd e" by (simp_all add: g_def)
  have "g \<noteq> q" using g(2) assms(2) by auto
  moreover have "0 < q" using assms(1) by auto
  ultimately have lt: "g < q" "0 < g" using g(1) by (auto dest: dvd_imp_le intro: Nat.gr0I)
  have "int q mod d \<noteq> 0" if "d \<in> {2..int q - 1}" for d
  proof -
    have "int q \<in> set [2, 3, 7, 11, 31, 151, 331]" using assms(1) by auto
    with no_small_divisors have "\<forall>d \<in> {2..int q - 1}. int q mod d \<noteq> 0"
      unfolding list_all_iff set_upto by (rule bspec)
    with that show ?thesis by (rule bspec [rotated])
  qed
  from this [of "int g"] g(1) lt have "g = 1"
    by (cases "g = 1") (auto simp: zmod_int [symmetric] mod_eq_0_iff_dvd)
  then show ?thesis by (simp add: g_def coprime_iff_gcd_eq_1)
qed

lemma dvd_group_order:
  fixes e :: nat
  assumes "e dvd 2147483646" and "\<And>q. q \<in> {2, 3, 7, 11, 31, 151, 331} \<Longrightarrow> \<not> q dvd e"
  shows "e = 1"
proof -
  have "coprime 2 e" "coprime 3 e" "coprime 7 e" "coprime 11 e" "coprime 31 e" "coprime 151 e"
    "coprime 331 e"
    using coprime_or_dvd assms(2) by blast+
  then have "coprime (2 * 3 * 3 * 7 * 11 * 31 * 151 * 331) e"
    unfolding coprime_mult_left_iff by blast
  then have "coprime 2147483646 e" by simp
  with assms(1) show ?thesis by (metis coprime_absorb_left coprime_commute nat_dvd_1_iff_1)
qed


lemma power_inj_of_order:
  fixes g :: "'a::comm_ring_1"
  assumes "0 < n" and one: "g ^ n = 1"
    and proper: "\<And>d. d dvd n \<Longrightarrow> 0 < d \<Longrightarrow> d < n \<Longrightarrow> g ^ d \<noteq> 1"
  shows "inj_on (\<lambda>i. g ^ i) {..<n}"
proof -
  define d where "d = (LEAST d. 0 < d \<and> g ^ d = 1)"
  have d: "0 < d" "g ^ d = 1"
    using LeastI [of "\<lambda>d. 0 < d \<and> g ^ d = 1" n] assms unfolding d_def by auto
  have least: "d \<le> k" if "0 < k" "g ^ k = 1" for k
    unfolding d_def using that by (intro Least_le) simp
  have multiple: "d dvd k" if "g ^ k = 1" for k
  proof -
    have "g ^ k = (g ^ d) ^ (k div d) * g ^ (k mod d)"
      by (simp flip: power_mult power_add)
    then have "g ^ (k mod d) = 1" using that d(2) by simp
    then show ?thesis using least [of "k mod d"] mod_less_divisor [OF d(1), of k]
      by (auto simp: dvd_eq_mod_eq_0)
  qed
  have "d dvd n" using multiple one by simp
  then have "d = n"
    using proper [of d] d least [of n] assms(1,2) by fastforce
  have cancel: "x = y" if "g ^ i * x = g ^ i * y" "i < n" for x y i
  proof -
    have "g ^ (n - i) * g ^ i = 1" using one that(2) by (simp flip: power_add)
    then show ?thesis using that(1) by (metis mult.assoc mult_1)
  qed
  have step: "i = j" if "i \<le> j" "j < n" "g ^ i = g ^ j" for i j
  proof -
    have "g ^ i * 1 = g ^ i * g ^ (j - i)"
      using that by (metis le_add_diff_inverse mult_1_right power_add)
    then have "g ^ (j - i) = 1" using cancel that(1,2) by (metis le_less_trans)
    then show ?thesis using least [of "j - i"] \<open>d = n\<close> that by fastforce
  qed
  show ?thesis
    by (rule inj_onI) (metis lessThan_iff nle_le step)
qed

lemma generator_proper:
  assumes d: "d dvd 2147483646" "0 < d" "d < 2147483646"
  shows "(7 :: gf) ^ d \<noteq> 1"
proof
  assume one: "(7 :: gf) ^ d = 1"
  obtain e where e: "2147483646 = d * e" using d(1) by (rule dvdE)
  have "\<not> q dvd e" if "q \<in> {2, 3, 7, 11, 31, 151, 331}" for q
  proof
    assume "q dvd e"
    then obtain k where "e = q * k" by (rule dvdE)
    then have "2147483646 = q * (d * k)" using e by (simp only: mult.left_commute)
    then have "(7 :: gf) ^ (d * k) \<noteq> 1" by (rule generator_cofactors [OF that])
    then show False by (simp only: power_mult one power_one simp_thms)
  qed
  moreover have "e dvd 2147483646" using e by (rule dvdI [OF trans, OF _ mult.commute])
  ultimately have "e = 1" using dvd_group_order by blast
  with e d(3) show False by simp
qed

lemma generator_inj: "inj_on (\<lambda>i. (7 :: gf) ^ i) {..<2147483646}"
  by (rule power_inj_of_order [OF _ generator_order generator_proper]) simp

lemma unit_powers_cover:
  fixes g :: "'a::comm_ring_1"
  assumes "finite (UNIV :: 'a set)" and "card (UNIV :: 'a set) = Suc n" and "inj_on (\<lambda>i. g ^ i) {..<n}"
    and "g ^ n = 1" and "(x :: 'a) \<noteq> 0"
  shows "x ^ n = 1"
proof -
  have nz: "g ^ i \<noteq> 0" if "i < n" for i
  proof
    assume "g ^ i = 0"
    then have "g ^ (i + (n - i)) = 0" by (simp only: power_add mult_zero_left)
    then show False using that assms(4) by simp
  qed
  have "(\<lambda>i. g ^ i) ` {..<n} = UNIV - {0}"
  proof (rule card_subset_eq)
    show "finite (UNIV - {0 :: 'a})" using assms(1) by simp
    show "(\<lambda>i. g ^ i) ` {..<n} \<subseteq> UNIV - {0}" using nz by auto
    show "card ((\<lambda>i. g ^ i) ` {..<n}) = card (UNIV - {0 :: 'a})"
      using assms(1-3) by (simp add: card_image card_Diff_subset)
  qed
  with assms(5) obtain i where "x = g ^ i" by auto
  then have "x ^ n = (g ^ n) ^ i" by (simp flip: power_mult add: mult.commute)
  with assms(4) show ?thesis by simp
qed

theorem gf_fermat: "x \<noteq> 0 \<Longrightarrow> (x :: gf) ^ 2147483646 = 1"
  using finite_gf _ generator_inj generator_order
  by (rule unit_powers_cover) (simp only: card_gf Suc_numeral, simp)

section \<open>The prime field\<close>

instantiation gf :: field
begin
definition inverse_gf :: "gf \<Rightarrow> gf" where "inverse_gf x = x ^ 2147483645"
definition divide_gf :: "gf \<Rightarrow> gf \<Rightarrow> gf" where "divide_gf x y = x * inverse y"
instance
proof
  fix a b :: gf
  show "inverse a * a = 1" if "a \<noteq> 0"
  proof -
    have "inverse a * a = a ^ Suc 2147483645" by (simp only: inverse_gf_def power_Suc2)
    then show ?thesis using gf_fermat [OF that] by (simp only: Suc_numeral) simp
  qed
  show "a div b = a * inverse b" by (simp only: divide_gf_def inverse_gf_def)
  show "inverse (0 :: gf) = 0" by (simp only: inverse_gf_def) (rule zero_power, simp)
qed
end

text \<open>\<open>- 1\<close> and \<open>5\<close> are not squares: Euler's criterion, evaluated.\<close>

lemma gf_numeral_eq_iff: "(numeral a :: gf) = numeral b \<longleftrightarrow> (numeral a :: int) mod p31 = numeral b mod p31"
  using of_int_gf_eq_iff [of "numeral a" "numeral b"] by simp

lemma gf_half_power:
  fixes x :: gf
  assumes "x \<noteq> 0" shows "(x * x) ^ 1073741823 = 1"
proof -
  have "(x * x) ^ 1073741823 = x ^ (2 * 1073741823)"
    by (simp only: power_mult power2_eq_square)
  also have "(2 * 1073741823 :: nat) = 2147483646" by simp
  finally show ?thesis using gf_fermat [OF assms] by (simp only:)
qed

lemma gf_two_nonzero [simp]: "(2 :: gf) \<noteq> 0"
  using of_int_gf_eq_iff [of 2 0] by simp

lemma gf_neg_one_nonsquare: "(x :: gf) * x \<noteq> - 1"
proof
  assume sq: "x * x = - 1"
  then have "x \<noteq> 0" by auto
  from gf_half_power [OF this] have "(- 1 :: gf) ^ 1073741823 = 1" by (simp only: sq)
  moreover have "(- 1 :: gf) ^ 1073741823 = - 1" by (rule neg_one_odd_power) simp
  ultimately have "(- 1 :: gf) = 1" by (rule trans [OF sym, rotated])
  then have "(2 :: gf) = 0" by (metis add.right_inverse one_add_one)
  then show False by simp
qed

lemma gf_five_nonsquare: "(x :: gf) * x \<noteq> 5"
proof
  assume sq: "x * x = 5"
  have "(5 :: gf) \<noteq> 0" using of_int_gf_eq_iff [of 5 0] by simp
  with sq have "x \<noteq> 0" by auto
  from gf_half_power [OF this] have "(5 :: gf) ^ 1073741823 = 1" by (simp only: sq)
  then have "powmod 5 1073741823 1 mod p31 = 1" by (simp only: gf_numeral_power_eq_1_iff)
  moreover have "powmod 5 1073741823 1 mod p31 \<noteq> 1" by code_simp
  ultimately show False by contradiction
qed


section \<open>The complex extension\<close>

datatype cgf = Cgf (cre: gf) (cim: gf)

instantiation cgf :: comm_ring_1
begin
definition "0 = Cgf 0 0"
definition "1 = Cgf 1 0"
definition "x + y = Cgf (cre x + cre y) (cim x + cim y)"
definition "x - y = Cgf (cre x - cre y) (cim x - cim y)"
definition "- x = Cgf (- cre x) (- cim x)"
definition "x * y = Cgf (cre x * cre y - cim x * cim y) (cre x * cim y + cim x * cre y)"
instance
  by standard
    (auto simp: zero_cgf_def one_cgf_def plus_cgf_def minus_cgf_def uminus_cgf_def times_cgf_def
      algebra_simps intro: cgf.expand)
end

lemmas cgf_ops = zero_cgf_def one_cgf_def plus_cgf_def minus_cgf_def uminus_cgf_def times_cgf_def

lemma cgf_sel [simp]:
  "cre 0 = 0" "cim 0 = 0" "cre 1 = 1" "cim 1 = 0"
  "cre (x + y) = cre x + cre y" "cim (x + y) = cim x + cim y"
  "cre (x - y) = cre x - cre y" "cim (x - y) = cim x - cim y"
  "cre (- x) = - cre x" "cim (- x) = - cim x"
  "cre (x * y) = cre x * cre y - cim x * cim y" "cim (x * y) = cre x * cim y + cim x * cre y"
  by (simp_all add: cgf_ops)

lemma cgf_eq_iff: "x = y \<longleftrightarrow> cre x = cre y \<and> cim x = cim y"
  by (cases x; cases y) simp

lemma cgf_of_nat_sel [simp]: "cre (of_nat n) = of_nat n" "cim (of_nat n) = 0"
  by (induction n) simp_all

lemma cgf_numeral_sel [simp]: "cre (numeral n) = numeral n" "cim (numeral n) = 0"
  using cgf_of_nat_sel [of "numeral n"] by simp_all

definition cnorm :: "cgf \<Rightarrow> gf" where
  "cnorm x = cre x * cre x + cim x * cim x"

lemma cnorm_eq_0_iff [simp]: "cnorm x = 0 \<longleftrightarrow> x = 0"
proof
  assume eq: "cnorm x = 0"
  show "x = 0"
  proof (cases "cim x = 0")
    case True
    with eq show ?thesis by (simp add: cnorm_def cgf_eq_iff)
  next
    case False
    have "cre x * cre x = - (cim x * cim x)" using eq by (simp add: cnorm_def add_eq_0_iff2)
    then have "cre x / cim x * (cre x / cim x) = - 1" using False by simp
    then show ?thesis using gf_neg_one_nonsquare by blast
  qed
qed (simp add: cnorm_def)

instantiation cgf :: field
begin
definition inverse_cgf :: "cgf \<Rightarrow> cgf" where
  "inverse_cgf x = Cgf (cre x * inverse (cnorm x)) (- cim x * inverse (cnorm x))"
definition divide_cgf :: "cgf \<Rightarrow> cgf \<Rightarrow> cgf" where "divide_cgf x y = x * inverse y"
instance
proof
  fix a b :: cgf
  show "inverse a * a = 1" if "a \<noteq> 0"
  proof -
    have nz: "cnorm a \<noteq> 0" using that by simp
    have "cre (inverse a * a) = cnorm a * inverse (cnorm a)"
      by (simp add: inverse_cgf_def cnorm_def algebra_simps)
    then show ?thesis using nz by (simp add: cgf_eq_iff inverse_cgf_def algebra_simps)
  qed
  show "a div b = a * inverse b" by (simp add: divide_cgf_def)
  show "inverse (0 :: cgf) = 0" by (simp add: inverse_cgf_def cgf_eq_iff)
qed
end

section \<open>The quartic extension\<close>

definition cgf_R :: cgf where "cgf_R = Cgf 2 1"

lemma cgf_R_sel [simp]: "cre cgf_R = 2" "cim cgf_R = 1"
  by (simp_all add: cgf_R_def)

lemma cgf_R_nonsquare: "x * x \<noteq> cgf_R"
proof
  assume "x * x = cgf_R"
  then have "cre x * cre x - cim x * cim x = 2" "cre x * cim x + cim x * cre x = 1"
    by (simp_all add: cgf_eq_iff)
  then have "(cre x * cre x - cim x * cim x) * (cre x * cre x - cim x * cim x)
      + (cre x * cim x + cim x * cre x) * (cre x * cim x + cim x * cre x) = 2 * 2 + 1 * 1"
    by (simp only:)
  then have "cnorm x * cnorm x = 5" by (simp add: cnorm_def algebra_simps)
  then show False using gf_five_nonsquare by blast
qed

datatype qgf = Qgf (qc0: cgf) (qc1: cgf)

instantiation qgf :: comm_ring_1
begin
definition "0 = Qgf 0 0"
definition "1 = Qgf 1 0"
definition "x + y = Qgf (qc0 x + qc0 y) (qc1 x + qc1 y)"
definition "x - y = Qgf (qc0 x - qc0 y) (qc1 x - qc1 y)"
definition "- x = Qgf (- qc0 x) (- qc1 x)"
definition "x * y = Qgf (qc0 x * qc0 y + cgf_R * (qc1 x * qc1 y)) (qc0 x * qc1 y + qc1 x * qc0 y)"
instance
  by standard
    (auto simp: zero_qgf_def one_qgf_def plus_qgf_def minus_qgf_def uminus_qgf_def times_qgf_def
      algebra_simps intro: qgf.expand)
end

lemmas qgf_ops = zero_qgf_def one_qgf_def plus_qgf_def minus_qgf_def uminus_qgf_def times_qgf_def

lemma qgf_sel [simp]:
  "qc0 0 = 0" "qc1 0 = 0" "qc0 1 = 1" "qc1 1 = 0"
  "qc0 (x + y) = qc0 x + qc0 y" "qc1 (x + y) = qc1 x + qc1 y"
  "qc0 (x - y) = qc0 x - qc0 y" "qc1 (x - y) = qc1 x - qc1 y"
  "qc0 (- x) = - qc0 x" "qc1 (- x) = - qc1 x"
  "qc0 (x * y) = qc0 x * qc0 y + cgf_R * (qc1 x * qc1 y)" "qc1 (x * y) = qc0 x * qc1 y + qc1 x * qc0 y"
  by (simp_all add: qgf_ops)

lemma qgf_eq_iff: "x = y \<longleftrightarrow> qc0 x = qc0 y \<and> qc1 x = qc1 y"
  by (cases x; cases y) simp

definition qnorm :: "qgf \<Rightarrow> cgf" where
  "qnorm x = qc0 x * qc0 x - cgf_R * (qc1 x * qc1 x)"

lemma qnorm_eq_0_iff [simp]: "qnorm x = 0 \<longleftrightarrow> x = 0"
proof
  assume eq: "qnorm x = 0"
  show "x = 0"
  proof (cases "qc1 x = 0")
    case True
    with eq show ?thesis by (simp add: qnorm_def qgf_eq_iff)
  next
    case False
    have "qc0 x * qc0 x = cgf_R * (qc1 x * qc1 x)" using eq by (simp add: qnorm_def)
    then have "qc0 x / qc1 x * (qc0 x / qc1 x) = cgf_R" using False by simp
    then show ?thesis using cgf_R_nonsquare by blast
  qed
qed (simp add: qnorm_def)

instantiation qgf :: field
begin
definition inverse_qgf :: "qgf \<Rightarrow> qgf" where
  "inverse_qgf x = Qgf (qc0 x * inverse (qnorm x)) (- qc1 x * inverse (qnorm x))"
definition divide_qgf :: "qgf \<Rightarrow> qgf \<Rightarrow> qgf" where "divide_qgf x y = x * inverse y"
instance
proof
  fix a b :: qgf
  show "inverse a * a = 1" if "a \<noteq> 0"
  proof -
    have nz: "qnorm a \<noteq> 0" using that by simp
    have "qc0 (inverse a * a) = qnorm a * inverse (qnorm a)"
      by (simp add: inverse_qgf_def qnorm_def algebra_simps)
    then show ?thesis using nz by (simp add: qgf_eq_iff inverse_qgf_def algebra_simps)
  qed
  show "a div b = a * inverse b" by (simp add: divide_qgf_def)
  show "inverse (0 :: qgf) = 0" by (simp add: inverse_qgf_def qgf_eq_iff)
qed
end

end
