(* ===== verification/Field.thy ===== *)
theory Field
  imports PrimeField
begin

text \<open>
  The field tower of \<open>crates/aspis-core/src/field.rs\<close>: \<open>M31\<close>, \<open>CM31\<close> and \<open>QM31\<close> with every
  method of their \<open>impl\<close> blocks, on 32-bit limbs and 64- and 128-bit accumulators. Integer
  operations wrap as in a release build; a panic is the value \<open>None\<close>. \<open>canon\<close>,
  \<open>ccanon\<close> and \<open>qcanon\<close> say that every limb is below the modulus, \<open>gval\<close>, \<open>cval\<close> and
  \<open>qval\<close> read an element of the mathematical fields of \<open>PrimeField\<close>, and the lemmas show
  each method canonical and a homomorphism, so that two canonical results are equal as
  soon as their values are.
\<close>

section \<open>Constants and the base field\<close>

definition M31_P :: u32 where "M31_P = 0x7fffffff"

datatype m31 = M31 (limb: u32)

definition M31_ZERO :: m31 where "M31_ZERO = M31 0"
definition M31_ONE :: m31 where "M31_ONE = M31 1"
definition M31_HALF :: m31 where "M31_HALF = M31 0x40000000"
definition M31_QUARTER :: m31 where "M31_QUARTER = M31 0x20000000"

definition u64_from :: "m31 \<Rightarrow> u64" where "u64_from x = ucast (limb x)"

definition reduce_u64 :: "u64 \<Rightarrow> u32" where
  "reduce_u64 x =
     (let x = (x AND ucast M31_P) + drop_bit 31 x;
          x = (x AND ucast M31_P) + drop_bit 31 x;
          y = ucast x :: u32
      in if M31_P \<le> y then y - M31_P else y)"

definition m31_reduce_u64 :: "u64 \<Rightarrow> m31" where
  "m31_reduce_u64 value = M31 (reduce_u64 value)"

definition m31_reduce_u62 :: "u64 \<Rightarrow> m31" where
  "m31_reduce_u62 value = M31 (reduce_u64 value)"

definition m31_reduce_u128 :: "u128 \<Rightarrow> m31" where
  "m31_reduce_u128 value =
     (let mask = ucast M31_P;
          value = (value AND mask) + drop_bit 31 value;
          value = (value AND mask) + drop_bit 31 value;
          value = (value AND mask) + drop_bit 31 value;
          value = (value AND mask) + drop_bit 31 value;
          value = (ucast value :: u32)
      in M31 (if M31_P \<le> value then value - M31_P else value))"

definition m31_add :: "m31 \<Rightarrow> m31 \<Rightarrow> m31" where
  "m31_add self rhs =
     (let s = limb self + limb rhs in M31 (if M31_P \<le> s then s - M31_P else s))"

definition m31_sub :: "m31 \<Rightarrow> m31 \<Rightarrow> m31" where
  "m31_sub self rhs =
     (let s = limb self + M31_P - limb rhs in M31 (if M31_P \<le> s then s - M31_P else s))"

definition m31_neg :: "m31 \<Rightarrow> m31" where
  "m31_neg self = (if limb self = 0 then M31 0 else M31 (M31_P - limb self))"

definition m31_mul :: "m31 \<Rightarrow> m31 \<Rightarrow> m31" where
  "m31_mul self rhs = M31 (reduce_u64 (u64_from self * u64_from rhs))"

definition m31_mul_pow2 :: "m31 \<Rightarrow> u8 \<Rightarrow> m31" where
  "m31_mul_pow2 self shift = M31 (reduce_u64 (push_bit (unat shift) (u64_from self)))"

definition m31_double :: "m31 \<Rightarrow> m31" where
  "m31_double self = m31_add self self"

definition m31_half :: "m31 \<Rightarrow> m31" where
  "m31_half self = M31 (drop_bit 1 (limb self) OR push_bit 30 (limb self AND 1))"

primrec square_n :: "m31 \<Rightarrow> nat \<Rightarrow> m31" where
  "square_n value 0 = value"
| "square_n value (Suc count) = square_n (m31_mul value value) count"

function m31_pow_loop :: "m31 \<Rightarrow> m31 \<Rightarrow> u64 \<Rightarrow> m31" where
  "m31_pow_loop base acc exp =
     (if 0 < exp
      then m31_pow_loop (m31_mul base base) (if exp AND 1 = 1 then m31_mul acc base else acc)
             (drop_bit 1 exp)
      else acc)"
  by auto

lemma unat_drop_bit_1: "unat (drop_bit (Suc 0) (w :: 'a::len word)) = unat w div 2"
  unfolding unat_drop_bit_eq by (simp add: drop_bit_Suc)

termination m31_pow_loop
  by (relation "measure (\<lambda>(base, acc, exp). unat exp)") (auto simp: unat_drop_bit_1 word_less_nat_alt)

declare m31_pow_loop.simps [simp del]

definition m31_pow :: "m31 \<Rightarrow> u64 \<Rightarrow> m31" where
  "m31_pow self exp = m31_pow_loop self M31_ONE exp"

definition m31_is_zero :: "m31 \<Rightarrow> bool" where
  "m31_is_zero self \<longleftrightarrow> limb self = 0"

definition m31_inv :: "m31 \<Rightarrow> m31 option" where
  "m31_inv self =
     (if limb self = 0 then None
      else let t2 = m31_mul (m31_mul self self) self;
               t4 = m31_mul (square_n t2 2) t2;
               t8 = m31_mul (square_n t4 4) t4;
               t16 = m31_mul (square_n t8 8) t8;
               t24 = m31_mul (square_n t16 8) t8;
               t28 = m31_mul (square_n t24 4) t4;
               t29 = m31_mul (m31_mul t28 t28) self;
               t30 = m31_mul t29 t29
           in Some (m31_mul (m31_mul t30 t30) self))"

definition m31_from_le_bytes :: "bytes \<Rightarrow> m31 option" where
  "m31_from_le_bytes bytes =
     (let v = from_le bytes :: u32 in if M31_P \<le> v then None else Some (M31 v))"

definition m31_to_le_bytes :: "m31 \<Rightarrow> bytes" where
  "m31_to_le_bytes self = to_le 4 (limb self)"

subsection \<open>Reduction is the remainder\<close>

definition fold31 :: "nat \<Rightarrow> nat" where
  "fold31 n = n mod 2147483648 + n div 2147483648"

lemma fold31_mod: "fold31 n mod 2147483647 = n mod 2147483647"
proof -
  have "n = fold31 n + 2147483647 * (n div 2147483648)"
    using div_mult_mod_eq [of n 2147483648] unfolding fold31_def by linarith
  then show ?thesis by (metis mod_mult_self2)
qed

lemma fold31_le: "n < b \<Longrightarrow> fold31 n < 2147483648 + b div 2147483648 + 1"
  unfolding fold31_def
  using div_le_mono [of n b 2147483648] mod_less_divisor [of 2147483648 n] by linarith

lemma unat_M31_P [simp]: "unat M31_P = 2147483647"
  by (simp add: M31_P_def)

lemma unat_fold_word:
  fixes x :: "'a::len word"
  assumes "33 \<le> LENGTH('a)"
  shows "unat ((x AND ucast M31_P) + drop_bit 31 x) = fold31 (unat x)"
proof -
  have "(ucast M31_P :: 'a word) = mask 31"
    using assms by (intro bit_word_eqI) (auto simp: M31_P_def bit_ucast_iff bit_mask_iff mask_eq_exp_minus_1 simp flip: mask_eq_decr_exp)
  then have masked: "x AND ucast M31_P = take_bit 31 x" by (simp add: take_bit_eq_mask)
  have low: "unat (x AND ucast M31_P) = unat x mod 2147483648"
    unfolding masked unsigned_take_bit_eq by (simp add: take_bit_eq_mod)
  have high: "unat (drop_bit 31 x) = unat x div 2147483648"
    unfolding unat_drop_bit_eq by (simp add: drop_bit_eq_div)
  obtain k where k: "LENGTH('a) = k + 33" using assms by (metis le_Suc_ex add.commute)
  have "unat x < 2 ^ LENGTH('a)" by (rule unat_bound)
  then have "unat x < 2147483648 * (4 * 2 ^ k)" by (simp add: k power_add)
  then have "unat x div 2147483648 < 4 * 2 ^ k" by (simp add: less_mult_imp_div_less mult.commute)
  moreover have "(1 :: nat) \<le> 2 ^ k" by simp
  ultimately have "unat x mod 2147483648 + unat x div 2147483648 < 2 ^ LENGTH('a)"
    using mod_less_divisor [of 2147483648 "unat x"] unfolding k power_add by simp
  then show ?thesis by (simp add: unat_word_ariths low high fold31_def)
qed

lemma unat_final_reduce:
  fixes x :: "'a::len word"
  assumes "unat x < 2147483747"
  shows "unat (let y = ucast x :: u32 in if M31_P \<le> y then y - M31_P else y) = unat x mod 2147483647"
proof -
  have y: "unat (ucast x :: u32) = unat x"
    using assms by (simp add: unsigned_ucast_eq take_bit_eq_mod)
  show ?thesis
    using assms by (auto simp: Let_def word_le_nat_alt y unat_sub mod_if)
qed

lemma unat_reduce_u64: "unat (reduce_u64 x) = unat x mod 2147483647"
proof -
  have "unat x < 2 ^ 64" using unat_bound [of x] by simp
  then have "fold31 (unat x) < 10737418242" using fold31_le by fastforce
  then have "fold31 (fold31 (unat x)) < 2147483747" using fold31_le by fastforce
  then show ?thesis
    by (subst reduce_u64_def) (simp add: Let_def unat_fold_word fold31_mod
      unat_final_reduce [unfolded Let_def])
qed

lemma unat_reduce_u128: "unat (limb (m31_reduce_u128 x)) = unat x mod 2147483647"
proof -
  have "unat x < 2 ^ 128" using unat_bound [of x] by simp
  then have "fold31 (unat x) < 2147483648 + 2 ^ 128 div 2147483648 + 1" by (rule fold31_le)
  then have "fold31 (fold31 (unat x)) < 73786976304838213633" using fold31_le by fastforce
  then have "fold31 (fold31 (fold31 (unat x))) < 36507222033" using fold31_le by fastforce
  then have "fold31 (fold31 (fold31 (fold31 (unat x)))) < 2147483747" using fold31_le by fastforce
  then show ?thesis
    by (subst m31_reduce_u128_def) (simp add: Let_def unat_fold_word fold31_mod
      unat_final_reduce [unfolded Let_def])
qed


subsection \<open>The base field as the residues\<close>

lemma gf_numeral_eq_0_iff [simp]: "(numeral n :: gf) = 0 \<longleftrightarrow> (numeral n :: int) mod p31 = 0"
  using of_int_gf_eq_iff [of "numeral n" 0] by simp

definition canon :: "m31 \<Rightarrow> bool" where
  "canon x \<longleftrightarrow> limb x < M31_P"

definition wval :: "'a::len word \<Rightarrow> gf" where
  "wval w = of_nat (unat w)"

definition gval :: "m31 \<Rightarrow> gf" where
  "gval x = wval (limb x)"

lemma canon_unat: "canon x \<longleftrightarrow> unat (limb x) < 2147483647"
  by (simp add: canon_def word_less_nat_alt)

lemma wval_mod: "unat v mod 2147483647 = n mod 2147483647 \<Longrightarrow> wval v = of_nat n"
  unfolding wval_def of_nat_gf_eq_iff .

lemma gval_inject:
  assumes "canon x" "canon y"
  shows "gval x = gval y \<longleftrightarrow> x = y"
proof
  assume "gval x = gval y"
  with assms have "unat (limb x) = unat (limb y)"
    unfolding gval_def wval_def of_nat_gf_eq_iff canon_unat by simp
  then show "x = y" by (metis m31.expand word_unat_eq_iff)
qed simp

lemma gval_of_nat: "unat (limb x) = n mod 2147483647 \<Longrightarrow> canon x \<and> gval x = of_nat n"
  unfolding gval_def by (simp add: canon_unat wval_mod)

lemma m31_reduce_u64_val [simp]: "canon (M31 (reduce_u64 w))" "gval (M31 (reduce_u64 w)) = wval w"
  using gval_of_nat [of "M31 (reduce_u64 w)" "unat w"] unfolding wval_def by (simp_all only: unat_reduce_u64 m31.sel)

lemma m31_reduce_u64_canon [simp]: "canon (m31_reduce_u64 w)" "gval (m31_reduce_u64 w) = wval w"
  by (simp_all add: m31_reduce_u64_def)

lemma m31_reduce_u62_canon [simp]: "canon (m31_reduce_u62 w)" "gval (m31_reduce_u62 w) = wval w"
  by (simp_all add: m31_reduce_u62_def)

lemma m31_reduce_u128_val [simp]: "canon (m31_reduce_u128 w)" "gval (m31_reduce_u128 w) = wval w"
  using gval_of_nat [of "m31_reduce_u128 w" "unat w"] unfolding wval_def by (simp_all only: unat_reduce_u128)

lemma m31_const_val [simp]:
  "canon M31_ZERO" "canon M31_ONE" "gval M31_ZERO = 0" "gval M31_ONE = 1"
  by (simp_all add: M31_ZERO_def M31_ONE_def canon_unat gval_def wval_def)

lemma unat_limb_add: "canon x \<Longrightarrow> canon y \<Longrightarrow> unat (limb x + limb y) = unat (limb x) + unat (limb y)"
  by (simp add: canon_unat unat_word_ariths)

lemma m31_add_val [simp]:
  assumes "canon x" "canon y"
  shows "canon (m31_add x y)" "gval (m31_add x y) = gval x + gval y"
proof -
  have "unat (limb (m31_add x y)) = (unat (limb x) + unat (limb y)) mod 2147483647"
    using assms by (auto simp: m31_add_def Let_def word_le_nat_alt unat_sub unat_limb_add canon_unat mod_if)
  from gval_of_nat [OF this] show "canon (m31_add x y)" "gval (m31_add x y) = gval x + gval y"
    by (simp_all only: gval_def wval_def of_nat_add)
qed

lemma m31_sub_val [simp]:
  assumes "canon x" "canon y"
  shows "canon (m31_sub x y)" "gval (m31_sub x y) = gval x - gval y"
proof -
  define s where "s = limb x + M31_P - limb y"
  have P: "unat (limb x + M31_P) = unat (limb x) + 2147483647"
    using assms by (simp add: canon_unat unat_word_ariths)
  have s: "unat s = unat (limb x) + 2147483647 - unat (limb y)"
    using assms P unfolding s_def
    by (subst unat_sub) (simp_all add: canon_unat word_le_nat_alt)
  have "unat (limb (m31_sub x y)) = (unat (limb x) + 2147483647 - unat (limb y)) mod 2147483647"
    using assms s unfolding m31_sub_def s_def [symmetric]
    by (auto simp: Let_def word_le_nat_alt unat_sub canon_unat mod_if)
  from gval_of_nat [OF this] assms
  show "canon (m31_sub x y)" "gval (m31_sub x y) = gval x - gval y"
    by (simp_all add: gval_def wval_def canon_unat of_nat_diff)
qed

lemma m31_neg_val [simp]:
  assumes "canon x"
  shows "canon (m31_neg x)" "gval (m31_neg x) = - gval x"
proof -
  have "unat (limb (m31_neg x)) = (2147483647 - unat (limb x)) mod 2147483647"
  proof (cases "limb x = 0")
    case False
    then have "0 < unat (limb x)" by (simp add: unat_gt_0)
    with False assms show ?thesis by (simp add: m31_neg_def canon_unat word_le_nat_alt unat_sub)
  qed (simp add: m31_neg_def)
  from gval_of_nat [OF this] assms show "canon (m31_neg x)" "gval (m31_neg x) = - gval x"
    by (simp_all add: gval_def wval_def canon_unat of_nat_diff)
qed

lemma unat_u64_from [simp]: "unat (u64_from x) = unat (limb x)"
  using unat_bound [of "limb x"] by (simp add: u64_from_def unsigned_ucast_eq take_bit_eq_mod)

lemma wval_u64_from [simp]: "wval (u64_from x) = gval x"
  unfolding gval_def wval_def unat_u64_from ..

lemma unat_raw_product:
  "canon x \<Longrightarrow> canon y \<Longrightarrow> unat (u64_from x * u64_from y) = unat (limb x) * unat (limb y)"
proof -
  assume "canon x" "canon y"
  then have "unat (limb x) * unat (limb y) \<le> 2147483646 * 2147483646"
    by (intro mult_le_mono) (simp_all add: canon_unat)
  then show ?thesis by (simp add: unat_word_ariths)
qed

lemma raw_product_le:
  "canon x \<Longrightarrow> canon y \<Longrightarrow> unat (u64_from x * u64_from y) \<le> 4611686009837453316"
  using mult_le_mono [of "unat (limb x)" 2147483646 "unat (limb y)" 2147483646]
  by (simp add: unat_raw_product canon_unat)

lemma wval_raw_product [simp]:
  "canon x \<Longrightarrow> canon y \<Longrightarrow> wval (u64_from x * u64_from y) = gval x * gval y"
  unfolding gval_def wval_def by (simp only: unat_raw_product of_nat_mult)

lemma m31_mul_val [simp]:
  "canon (m31_mul x y)"
  "canon x \<Longrightarrow> canon y \<Longrightarrow> gval (m31_mul x y) = gval x * gval y"
  by (simp_all add: m31_mul_def)

lemma m31_double_val [simp]:
  "canon x \<Longrightarrow> canon (m31_double x)" "canon x \<Longrightarrow> gval (m31_double x) = 2 * gval x"
  by (simp_all add: m31_double_def)

lemma m31_mul_pow2_val:
  assumes "canon x" "unat shift \<le> 30"
  shows "canon (m31_mul_pow2 x shift)" "gval (m31_mul_pow2 x shift) = 2 ^ unat shift * gval x"
proof -
  have "(2 :: nat) ^ unat shift \<le> 2 ^ 30" using assms(2) by (intro power_increasing) simp_all
  then have "2 ^ unat shift * unat (limb x) \<le> 2 ^ 30 * 2147483646"
    using assms(1) by (intro mult_le_mono) (simp_all add: canon_unat)
  then have "unat (push_bit (unat shift) (u64_from x)) = 2 ^ unat shift * unat (limb x)"
    unfolding unsigned_push_bit_eq by (simp add: push_bit_eq_mult take_bit_eq_mod mult.commute)
  then show "gval (m31_mul_pow2 x shift) = 2 ^ unat shift * gval x"
    unfolding m31_mul_pow2_def m31_reduce_u64_val
    by (simp only: gval_def wval_def of_nat_mult of_nat_power of_nat_numeral)
  show "canon (m31_mul_pow2 x shift)" by (simp add: m31_mul_pow2_def)
qed

lemma square_n_val [simp]:
  "canon x \<Longrightarrow> canon (square_n x n)" "canon x \<Longrightarrow> gval (square_n x n) = gval x ^ 2 ^ n"
  by (induction n arbitrary: x) (simp_all add: power_mult power2_eq_square [symmetric] flip: power_mult)


lemma unat_bit0: "unat ((w :: 'a::len word) AND 1) = unat w mod 2"
  unfolding unsigned_and_eq by (simp add: and_one_eq)

lemma word_odd_iff: "(w :: 'a::len word) AND 1 = 1 \<longleftrightarrow> odd (unat w)"
  by (simp add: word_unat_eq_iff unat_bit0 odd_iff_mod_2_eq_one)

lemma power_binary_step:
  "(b :: 'a::comm_monoid_mult) ^ n = (b * b) ^ (n div 2) * (if odd n then b else 1)"
  by (cases "even n") (auto elim!: evenE oddE simp: power_mult power_mult_distrib power2_eq_square mult.commute)

lemma m31_pow_loop_val:
  "canon base \<Longrightarrow> canon acc \<Longrightarrow>
   canon (m31_pow_loop base acc exp) \<and> gval (m31_pow_loop base acc exp) = gval acc * gval base ^ unat exp"
proof (induction base acc exp rule: m31_pow_loop.induct)
  case (1 base acc exp)
  show ?case
  proof (cases "0 < exp")
    case True
    have "gval base ^ unat exp
        = (gval base * gval base) ^ (unat exp div 2) * (if odd (unat exp) then gval base else 1)"
      by (rule power_binary_step)
    with 1 True show ?thesis
      by (subst (1 2) m31_pow_loop.simps)
        (simp add: unat_drop_bit_1 word_odd_iff mult.commute mult.left_commute)
  next
    case False
    then have "exp = 0" by (simp add: word_gt_0)
    with 1 show ?thesis by (simp add: m31_pow_loop.simps)
  qed
qed

lemma m31_pow_val:
  "canon x \<Longrightarrow> canon (m31_pow x e)" "canon x \<Longrightarrow> gval (m31_pow x e) = gval x ^ unat e"
  using m31_pow_loop_val [of x M31_ONE e] by (simp_all add: m31_pow_def)

lemma m31_is_zero_val: "canon x \<Longrightarrow> m31_is_zero x \<longleftrightarrow> gval x = 0"
  using gval_inject [of x M31_ZERO] by (cases x) (simp add: m31_is_zero_def, simp add: M31_ZERO_def)

lemma m31_inv_val:
  assumes "canon x" "m31_inv x = Some y"
  shows "canon y" "gval y = inverse (gval x)"
proof -
  show "canon y" using assms(2) by (auto simp: m31_inv_def Let_def split: if_splits)
  define g where "g = gval x"
  have y: "gval y = ((((((((g * g * g) ^ 4 * (g * g * g)) ^ 16 * ((g * g * g) ^ 4 * (g * g * g))) ^ 256
      * (((g * g * g) ^ 4 * (g * g * g)) ^ 16 * ((g * g * g) ^ 4 * (g * g * g)))) ^ 256
      * (((g * g * g) ^ 4 * (g * g * g)) ^ 16 * ((g * g * g) ^ 4 * (g * g * g)))) ^ 16
      * ((g * g * g) ^ 4 * (g * g * g))) ^ 2 * g) ^ 2) ^ 2 * g"
    using assms by (auto simp: m31_inv_def Let_def g_def power2_eq_square split: if_splits)
  have cube: "g * g * g = g ^ 3" by (simp add: power3_eq_cube)
  have "gval y = g ^ 2147483645"
    unfolding y cube by (simp flip: power_mult power_add power_Suc2)
  then show "gval y = inverse (gval x)" by (simp only: g_def inverse_gf_def)
qed

lemma m31_inv_Some: "canon x \<Longrightarrow> x \<noteq> M31_ZERO \<Longrightarrow> \<exists>y. m31_inv x = Some y"
  by (cases x) (simp add: m31_inv_def Let_def M31_ZERO_def)

lemma m31_half_val [simp]:
  assumes "canon x"
  shows "canon (m31_half x)" "gval (m31_half x) = gval x / 2"
proof -
  define n where "n = unat (limb x)"
  have n: "n < 2 ^ 31" using assms by (simp add: canon_unat n_def)
  have "\<not> bit n m" if "31 \<le> m" for m
  proof -
    have "n < 2 ^ m" using n that by (meson less_le_trans one_le_numeral power_increasing)
    then show ?thesis by (simp add: bit_iff_odd)
  qed
  then have top: "\<not> bit (limb x) m" if "31 \<le> m" for m
    using that by (auto simp: n_def bit_unsigned_iff dest: bit_imp_le_length)
  have "drop_bit 1 (limb x) AND push_bit 30 (limb x AND 1) = 0"
    by (rule bit_word_eqI) (auto simp: bit_and_iff bit_drop_bit_eq bit_push_bit_iff top)
  then have "limb (m31_half x) = push_bit 30 (limb x AND 1) + drop_bit 1 (limb x)"
    by (simp add: m31_half_def disjunctive_add_eq_or add.commute)
  moreover have "unat (push_bit 30 (limb x AND 1)) = n mod 2 * 1073741824"
    unfolding unsigned_push_bit_eq unat_bit0 by (simp add: push_bit_eq_mult take_bit_eq_mod n_def)
  moreover have "n mod 2 * 1073741824 + n div 2 < 4294967296" using n by auto
  ultimately have half: "unat (limb (m31_half x)) = n mod 2 * 1073741824 + n div 2"
    by (simp add: unat_word_ariths unat_drop_bit_1 n_def)
  moreover have split: "n = 2 * (n div 2) + n mod 2" "n mod 2 < 2" "n < 2147483647"
    using assms by (simp_all add: n_def canon_unat)
  then have "n mod 2 * 1073741824 + n div 2 < 2147483647" by linarith
  ultimately show "canon (m31_half x)" by (simp add: canon_unat)
  have "2 * (n mod 2 * 1073741824 + n div 2) = n + 2147483647 * (n mod 2)"
  proof -
    obtain q r where qr: "n div 2 = q" "n mod 2 = r" by simp
    have "n = 2 * q + r" using split(1) unfolding qr .
    then show ?thesis unfolding qr by (simp add: algebra_simps)
  qed
  then have "(of_nat (2 * (n mod 2 * 1073741824 + n div 2)) :: gf) = of_nat (n + 2147483647 * (n mod 2))"
    by (rule arg_cong)
  also have "\<dots> = of_nat n" unfolding of_nat_gf_eq_iff by simp
  finally have "(of_nat (2 * (n mod 2 * 1073741824 + n div 2)) :: gf) = of_nat n" .
  then have "2 * gval (m31_half x) = gval x"
    by (simp only: gval_def wval_def half n_def of_nat_mult of_nat_numeral)
  then show "gval (m31_half x) = gval x / 2" by (simp add: field_simps)
qed

lemma m31_bytes_round_trip: "canon x \<Longrightarrow> m31_from_le_bytes (m31_to_le_bytes x) = Some x"
  by (simp add: m31_from_le_bytes_def m31_to_le_bytes_def canon_def Let_def)

lemma m31_from_le_bytes_Some:
  "length bs = 4 \<Longrightarrow> m31_from_le_bytes bs = Some x \<longleftrightarrow> canon x \<and> m31_to_le_bytes x = bs"
  by (auto simp: m31_from_le_bytes_def m31_to_le_bytes_def canon_def Let_def)

lemma length_m31_to_le_bytes [simp]: "length (m31_to_le_bytes x) = 4"
  by (simp add: m31_to_le_bytes_def)

lemma m31_from_le_bytes_canon: "m31_from_le_bytes bs = Some x \<Longrightarrow> canon x"
  by (auto simp: m31_from_le_bytes_def canon_def Let_def split: if_splits)


section \<open>The complex extension\<close>

datatype cm31 = CM31 (cm_a: m31) (cm_b: m31)

definition CM31_ZERO :: cm31 where "CM31_ZERO = CM31 (M31 0) (M31 0)"
definition CM31_ONE :: cm31 where "CM31_ONE = CM31 (M31 1) (M31 0)"

definition cm31_new :: "m31 \<Rightarrow> m31 \<Rightarrow> cm31" where
  "cm31_new a b = CM31 a b"

definition cm31_from_m31 :: "m31 \<Rightarrow> cm31" where
  "cm31_from_m31 a = CM31 a M31_ZERO"

definition cm31_add :: "cm31 \<Rightarrow> cm31 \<Rightarrow> cm31" where
  "cm31_add self rhs = CM31 (m31_add (cm_a self) (cm_a rhs)) (m31_add (cm_b self) (cm_b rhs))"

definition cm31_sub :: "cm31 \<Rightarrow> cm31 \<Rightarrow> cm31" where
  "cm31_sub self rhs = CM31 (m31_sub (cm_a self) (cm_a rhs)) (m31_sub (cm_b self) (cm_b rhs))"

definition cm31_neg :: "cm31 \<Rightarrow> cm31" where
  "cm31_neg self = CM31 (m31_neg (cm_a self)) (m31_neg (cm_b self))"

definition cm31_mul :: "cm31 \<Rightarrow> cm31 \<Rightarrow> cm31" where
  "cm31_mul self rhs =
     (let m0 = m31_mul (cm_a self) (cm_a rhs);
          m1 = m31_mul (cm_b self) (cm_b rhs);
          m2 = m31_reduce_u64 ((u64_from (cm_a self) + u64_from (cm_b self))
                 * (u64_from (cm_a rhs) + u64_from (cm_b rhs)))
      in CM31 (m31_sub m0 m1) (m31_sub (m31_sub m2 m0) m1))"

definition cm31_square :: "cm31 \<Rightarrow> cm31" where
  "cm31_square self =
     CM31 (m31_reduce_u64 ((u64_from (cm_a self) + u64_from (cm_b self))
             * (u64_from (cm_a self) + ucast M31_P - u64_from (cm_b self))))
          (m31_double (m31_mul (cm_a self) (cm_b self)))"

definition cm31_mul_m31 :: "cm31 \<Rightarrow> m31 \<Rightarrow> cm31" where
  "cm31_mul_m31 self rhs = CM31 (m31_mul (cm_a self) rhs) (m31_mul (cm_b self) rhs)"

definition cm31_double :: "cm31 \<Rightarrow> cm31" where
  "cm31_double self = cm31_add self self"

definition cm31_half :: "cm31 \<Rightarrow> cm31" where
  "cm31_half self = CM31 (m31_half (cm_a self)) (m31_half (cm_b self))"

definition cm31_conjugate :: "cm31 \<Rightarrow> cm31" where
  "cm31_conjugate self = CM31 (cm_a self) (m31_neg (cm_b self))"

definition cm31_mul_i :: "cm31 \<Rightarrow> cm31" where
  "cm31_mul_i self = CM31 (m31_neg (cm_b self)) (cm_a self)"

function cm31_pow_loop :: "cm31 \<Rightarrow> cm31 \<Rightarrow> u64 \<Rightarrow> cm31" where
  "cm31_pow_loop base acc exp =
     (if 0 < exp
      then cm31_pow_loop (cm31_square base) (if exp AND 1 = 1 then cm31_mul acc base else acc)
             (drop_bit 1 exp)
      else acc)"
  by auto
termination cm31_pow_loop
  by (relation "measure (\<lambda>(base, acc, exp). unat exp)") (auto simp: unat_drop_bit_1 word_less_nat_alt)

declare cm31_pow_loop.simps [simp del]

definition cm31_pow :: "cm31 \<Rightarrow> u64 \<Rightarrow> cm31" where
  "cm31_pow self exp = cm31_pow_loop self CM31_ONE exp"

definition cm31_inv_with :: "cm31 \<Rightarrow> (m31 \<Rightarrow> m31 option) \<Rightarrow> cm31 option" where
  "cm31_inv_with self inverse_fn =
     (let norm = m31_add (m31_mul (cm_a self) (cm_a self)) (m31_mul (cm_b self) (cm_b self))
      in map_option (\<lambda>inv_norm. CM31 (m31_mul (cm_a self) inv_norm) (m31_mul (m31_neg (cm_b self)) inv_norm))
           (inverse_fn norm))"

definition cm31_inv :: "cm31 \<Rightarrow> cm31 option" where
  "cm31_inv self = cm31_inv_with self m31_inv"

definition cm31_is_zero :: "cm31 \<Rightarrow> bool" where
  "cm31_is_zero self \<longleftrightarrow> m31_is_zero (cm_a self) \<and> m31_is_zero (cm_b self)"

definition cm31_from_le_bytes :: "bytes \<Rightarrow> cm31 option" where
  "cm31_from_le_bytes bytes =
     Option.bind (m31_from_le_bytes (seg 0 4 bytes)) (\<lambda>a.
     Option.bind (m31_from_le_bytes (seg 4 8 bytes)) (\<lambda>b. Some (CM31 a b)))"

definition cm31_write_le_bytes :: "cm31 \<Rightarrow> bytes \<Rightarrow> bytes" where
  "cm31_write_le_bytes self out =
     put 4 (m31_to_le_bytes (cm_b self)) (put 0 (m31_to_le_bytes (cm_a self)) out)"

definition ccanon :: "cm31 \<Rightarrow> bool" where
  "ccanon x \<longleftrightarrow> canon (cm_a x) \<and> canon (cm_b x)"

definition cval :: "cm31 \<Rightarrow> cgf" where
  "cval x = Cgf (gval (cm_a x)) (gval (cm_b x))"

lemma ccanon_CM31 [simp]: "ccanon (CM31 a b) \<longleftrightarrow> canon a \<and> canon b"
  by (simp add: ccanon_def)

lemma cval_CM31 [simp]: "cval (CM31 a b) = Cgf (gval a) (gval b)"
  by (simp add: cval_def)

lemma ccanonD [simp]: "ccanon x \<Longrightarrow> canon (cm_a x)" "ccanon x \<Longrightarrow> canon (cm_b x)"
  by (simp_all add: ccanon_def)

lemma cval_sel [simp]: "cre (cval x) = gval (cm_a x)" "cim (cval x) = gval (cm_b x)"
  by (simp_all add: cval_def)

lemma cval_inject: "ccanon x \<Longrightarrow> ccanon y \<Longrightarrow> cval x = cval y \<longleftrightarrow> x = y"
  by (cases x; cases y) (simp add: gval_inject)

lemma cm31_const_val [simp]:
  "ccanon CM31_ZERO" "ccanon CM31_ONE" "cval CM31_ZERO = 0" "cval CM31_ONE = 1"
  using m31_const_val by (simp_all add: CM31_ZERO_def CM31_ONE_def M31_ZERO_def M31_ONE_def cgf_ops)

lemma raw_sum_product:
  assumes "unat a \<le> 4294967295" "unat b \<le> 4294967295"
  shows "wval ((a :: u64) * b) = wval a * wval b"
proof -
  have "unat a * unat b \<le> 4294967295 * 4294967295" using assms by (intro mult_le_mono)
  then have "unat (a * b) = unat a * unat b" by (simp add: unat_word_ariths)
  then show ?thesis by (simp only: wval_def of_nat_mult)
qed

lemma raw_sum:
  assumes "canon x" "canon y"
  shows "unat (u64_from x + u64_from y) \<le> 4294967295"
    and "wval (u64_from x + u64_from y) = gval x + gval y"
proof -
  have "unat (u64_from x + u64_from y) = unat (limb x) + unat (limb y)"
    using assms by (simp add: canon_unat unat_word_ariths)
  then show "unat (u64_from x + u64_from y) \<le> 4294967295"
    "wval (u64_from x + u64_from y) = gval x + gval y"
    using assms by (simp add: canon_unat) (simp only: wval_def gval_def \<open>unat _ = _\<close> of_nat_add)
qed

lemma raw_difference:
  assumes "canon x" "canon y"
  shows "unat (u64_from x + ucast M31_P - u64_from y) \<le> 4294967295"
    and "wval (u64_from x + ucast M31_P - u64_from y) = gval x - gval y"
proof -
  have P: "unat (ucast M31_P :: u64) = 2147483647" by (simp add: M31_P_def)
  have "unat (u64_from x + ucast M31_P) = unat (limb x) + 2147483647"
    using assms by (simp add: canon_unat unat_word_ariths P)
  then have eq: "unat (u64_from x + ucast M31_P - u64_from y) = unat (limb x) + 2147483647 - unat (limb y)"
    using assms by (subst unat_sub) (simp_all add: canon_unat word_le_nat_alt)
  show "unat (u64_from x + ucast M31_P - u64_from y) \<le> 4294967295"
    using assms unfolding eq canon_unat by simp
  have "wval (u64_from x + ucast M31_P - u64_from y) = of_nat (unat (limb x) + 2147483647 - unat (limb y))"
    unfolding wval_def eq ..
  also have "\<dots> = gval x - gval y"
    using assms by (subst of_nat_diff) (simp_all add: canon_unat gval_def wval_def)
  finally show "wval (u64_from x + ucast M31_P - u64_from y) = gval x - gval y" .
qed

lemma cm31_linear_val [simp]:
  "ccanon x \<Longrightarrow> ccanon y \<Longrightarrow> ccanon (cm31_add x y)"
  "ccanon x \<Longrightarrow> ccanon y \<Longrightarrow> cval (cm31_add x y) = cval x + cval y"
  "ccanon x \<Longrightarrow> ccanon y \<Longrightarrow> ccanon (cm31_sub x y)"
  "ccanon x \<Longrightarrow> ccanon y \<Longrightarrow> cval (cm31_sub x y) = cval x - cval y"
  "ccanon x \<Longrightarrow> ccanon (cm31_neg x)" "ccanon x \<Longrightarrow> cval (cm31_neg x) = - cval x"
  "ccanon x \<Longrightarrow> ccanon (cm31_double x)" "ccanon x \<Longrightarrow> cval (cm31_double x) = 2 * cval x"
  by (simp_all add: cm31_add_def cm31_sub_def cm31_neg_def cm31_double_def cgf_eq_iff)

lemma cm31_mul_val [simp]:
  "ccanon (cm31_mul x y)"
  "ccanon x \<Longrightarrow> ccanon y \<Longrightarrow> cval (cm31_mul x y) = cval x * cval y"
  by (simp_all add: cm31_mul_def Let_def cgf_eq_iff raw_sum raw_sum_product)
    (simp add: algebra_simps)

lemma cm31_square_val [simp]:
  "ccanon x \<Longrightarrow> ccanon (cm31_square x)"
  "ccanon x \<Longrightarrow> cval (cm31_square x) = cval x * cval x"
  by (simp_all add: cm31_square_def cgf_eq_iff raw_sum raw_difference raw_sum_product)
    (simp add: algebra_simps)

lemma cm31_scale_val [simp]:
  "ccanon (cm31_mul_m31 x c)"
  "ccanon x \<Longrightarrow> canon c \<Longrightarrow> cval (cm31_mul_m31 x c) = cval x * cval (cm31_from_m31 c)"
  "ccanon x \<Longrightarrow> ccanon (cm31_half x)" "ccanon x \<Longrightarrow> cval (cm31_half x) = cval x / 2"
  "ccanon x \<Longrightarrow> ccanon (cm31_mul_i x)" "ccanon x \<Longrightarrow> cval (cm31_mul_i x) = Cgf 0 1 * cval x"
  "ccanon x \<Longrightarrow> ccanon (cm31_conjugate x)"
  by (simp_all add: cm31_mul_m31_def cm31_from_m31_def cm31_half_def cm31_mul_i_def
      cm31_conjugate_def cgf_eq_iff)
    (simp add: divide_cgf_def inverse_cgf_def cnorm_def field_simps)

lemma cm31_conjugate_val: "ccanon x \<Longrightarrow> cval x * cval (cm31_conjugate x) = Cgf (cnorm (cval x)) 0"
  by (simp add: cm31_conjugate_def cgf_eq_iff cnorm_def)


lemma cm31_pow_loop_val:
  "ccanon base \<Longrightarrow> ccanon acc \<Longrightarrow>
   ccanon (cm31_pow_loop base acc exp) \<and> cval (cm31_pow_loop base acc exp) = cval acc * cval base ^ unat exp"
proof (induction base acc exp rule: cm31_pow_loop.induct)
  case (1 base acc exp)
  show ?case
  proof (cases "0 < exp")
    case True
    have "cval base ^ unat exp
        = (cval base * cval base) ^ (unat exp div 2) * (if odd (unat exp) then cval base else 1)"
      by (rule power_binary_step)
    with 1 True show ?thesis
      by (subst (1 2) cm31_pow_loop.simps)
        (simp add: unat_drop_bit_1 word_odd_iff mult.commute mult.left_commute)
  next
    case False
    then have "exp = 0" by (simp add: word_gt_0)
    with 1 show ?thesis by (simp add: cm31_pow_loop.simps)
  qed
qed

lemma cm31_pow_val:
  "ccanon x \<Longrightarrow> ccanon (cm31_pow x e)" "ccanon x \<Longrightarrow> cval (cm31_pow x e) = cval x ^ unat e"
  using cm31_pow_loop_val [of x CM31_ONE e] by (simp_all add: cm31_pow_def)

lemma cm31_is_zero_val: "ccanon x \<Longrightarrow> cm31_is_zero x \<longleftrightarrow> cval x = 0"
  by (simp add: cm31_is_zero_def m31_is_zero_val cgf_eq_iff)

text \<open>
  An inversion backend is any function that inverts the nonzero canonical elements; the
  caller of \<open>cm31_inv_with\<close> supplies it, and \<open>m31_inv\<close> is the one of this file.
\<close>

definition inverts :: "(m31 \<Rightarrow> m31 option) \<Rightarrow> bool" where
  "inverts f \<longleftrightarrow> (\<forall>x. canon x \<and> x \<noteq> M31_ZERO \<longrightarrow> (\<exists>y. f x = Some y \<and> canon y \<and> gval y = inverse (gval x)))"

lemma inverts_m31_inv: "inverts m31_inv"
  unfolding inverts_def by (metis m31_inv_Some m31_inv_val)

lemma cm31_norm_val:
  assumes "ccanon x"
  shows "gval (m31_add (m31_mul (cm_a x) (cm_a x)) (m31_mul (cm_b x) (cm_b x))) = cnorm (cval x)"
  using assms by (simp add: cnorm_def)

lemma cm31_inv_with_val:
  assumes "ccanon x" "cval x \<noteq> 0" "inverts f"
  shows "\<exists>y. cm31_inv_with x f = Some y \<and> ccanon y \<and> cval y = inverse (cval x)"
proof -
  define norm where "norm = m31_add (m31_mul (cm_a x) (cm_a x)) (m31_mul (cm_b x) (cm_b x))"
  have val: "gval norm = cnorm (cval x)" and c: "canon norm"
    unfolding norm_def using cm31_norm_val [OF assms(1)] by simp_all
  have "norm \<noteq> M31_ZERO" using val assms(2) m31_const_val(3) by (metis cnorm_eq_0_iff)
  with c assms(3) obtain i where "f norm = Some i" "canon i" "gval i = inverse (cnorm (cval x))"
    unfolding inverts_def val [symmetric] by blast
  then show ?thesis
    using assms(1) unfolding cm31_inv_with_def Let_def norm_def [symmetric]
    by (simp add: inverse_cgf_def)
qed

lemma cm31_inv_val:
  "ccanon x \<Longrightarrow> cval x \<noteq> 0 \<Longrightarrow> \<exists>y. cm31_inv x = Some y \<and> ccanon y \<and> cval y = inverse (cval x)"
  unfolding cm31_inv_def by (rule cm31_inv_with_val [OF _ _ inverts_m31_inv])

lemma cm31_inv_zero: "cm31_inv CM31_ZERO = None"
  by (simp add: cm31_inv_def cm31_inv_with_def CM31_ZERO_def Let_def m31_inv_def m31_is_zero_val
    flip: m31_is_zero_def) (simp add: m31_is_zero_val flip: M31_ZERO_def)

lemma cm31_from_le_bytes_canon: "cm31_from_le_bytes bs = Some x \<Longrightarrow> ccanon x"
  by (auto simp: cm31_from_le_bytes_def bind_eq_Some_conv dest: m31_from_le_bytes_canon)

lemma cm31_bytes_round_trip:
  "ccanon x \<Longrightarrow> length out = 8 \<Longrightarrow> cm31_from_le_bytes (cm31_write_le_bytes x out) = Some x"
  by (simp add: cm31_from_le_bytes_def cm31_write_le_bytes_def image_simps m31_bytes_round_trip)

lemma length_cm31_write [simp]: "8 \<le> length out \<Longrightarrow> length (cm31_write_le_bytes x out) = length out"
  by (simp add: cm31_write_le_bytes_def)

lemma cm31_bytes_unique:
  assumes "length bs = 8" "length out = 8" "cm31_from_le_bytes bs = Some x"
  shows "cm31_write_le_bytes x out = bs"
proof (rule agree_on_eq [where cs = "[4, 8]"])
  show "agree_on [0, 4, 8] (cm31_write_le_bytes x out) bs"
    using assms by (auto simp: cm31_from_le_bytes_def cm31_write_le_bytes_def bind_eq_Some_conv
        m31_from_le_bytes_Some image_simps)
qed (use assms in simp_all)

section \<open>The quartic extension\<close>

datatype qm31 = QM31 (qm_c0: cm31) (qm_c1: cm31)

definition mul_by_r :: "cm31 \<Rightarrow> cm31" where
  "mul_by_r x = CM31 (m31_sub (m31_double (cm_a x)) (cm_b x)) (m31_add (cm_a x) (m31_double (cm_b x)))"

definition QM31_ZERO :: qm31 where
  "QM31_ZERO = QM31 (CM31 (M31 0) (M31 0)) (CM31 (M31 0) (M31 0))"
definition QM31_ONE :: qm31 where
  "QM31_ONE = QM31 (CM31 (M31 1) (M31 0)) (CM31 (M31 0) (M31 0))"

definition qm31_from_cm31 :: "cm31 \<Rightarrow> qm31" where
  "qm31_from_cm31 c0 = QM31 c0 CM31_ZERO"

definition qm31_add :: "qm31 \<Rightarrow> qm31 \<Rightarrow> qm31" where
  "qm31_add self rhs = QM31 (cm31_add (qm_c0 self) (qm_c0 rhs)) (cm31_add (qm_c1 self) (qm_c1 rhs))"

definition qm31_sub :: "qm31 \<Rightarrow> qm31 \<Rightarrow> qm31" where
  "qm31_sub self rhs = QM31 (cm31_sub (qm_c0 self) (qm_c0 rhs)) (cm31_sub (qm_c1 self) (qm_c1 rhs))"

definition qm31_neg :: "qm31 \<Rightarrow> qm31" where
  "qm31_neg self = QM31 (cm31_neg (qm_c0 self)) (cm31_neg (qm_c1 self))"

definition qm31_half :: "qm31 \<Rightarrow> qm31" where
  "qm31_half self = QM31 (cm31_half (qm_c0 self)) (cm31_half (qm_c1 self))"

definition qm31_mul :: "qm31 \<Rightarrow> qm31 \<Rightarrow> qm31" where
  "qm31_mul self rhs =
     (let m0 = cm31_mul (qm_c0 self) (qm_c0 rhs);
          m1 = cm31_mul (qm_c1 self) (qm_c1 rhs);
          m2 = cm31_mul (cm31_add (qm_c0 self) (qm_c1 self)) (cm31_add (qm_c0 rhs) (qm_c1 rhs))
      in QM31 (cm31_add m0 (mul_by_r m1)) (cm31_sub (cm31_sub m2 m0) m1))"

definition qm31_square :: "qm31 \<Rightarrow> qm31" where
  "qm31_square self =
     (let c0_square = cm31_square (qm_c0 self);
          c1_square = cm31_square (qm_c1 self)
      in QM31 (cm31_add c0_square (mul_by_r c1_square))
           (cm31_double (cm31_mul (qm_c0 self) (qm_c1 self))))"

definition qm31_mul_cm31 :: "qm31 \<Rightarrow> cm31 \<Rightarrow> qm31" where
  "qm31_mul_cm31 self rhs = QM31 (cm31_mul (qm_c0 self) rhs) (cm31_mul (qm_c1 self) rhs)"

definition qm31_mul_m31 :: "qm31 \<Rightarrow> m31 \<Rightarrow> qm31" where
  "qm31_mul_m31 self rhs = QM31 (cm31_mul_m31 (qm_c0 self) rhs) (cm31_mul_m31 (qm_c1 self) rhs)"

definition qm31_is_zero :: "qm31 \<Rightarrow> bool" where
  "qm31_is_zero self \<longleftrightarrow> cm31_is_zero (qm_c0 self) \<and> cm31_is_zero (qm_c1 self)"

function qm31_pow_loop :: "qm31 \<Rightarrow> qm31 \<Rightarrow> u64 \<Rightarrow> qm31" where
  "qm31_pow_loop base acc exp =
     (if 0 < exp
      then qm31_pow_loop (qm31_square base) (if exp AND 1 = 1 then qm31_mul acc base else acc)
             (drop_bit 1 exp)
      else acc)"
  by auto
termination qm31_pow_loop
  by (relation "measure (\<lambda>(base, acc, exp). unat exp)") (auto simp: unat_drop_bit_1 word_less_nat_alt)

declare qm31_pow_loop.simps [simp del]

definition qm31_pow :: "qm31 \<Rightarrow> u64 \<Rightarrow> qm31" where
  "qm31_pow self exp = qm31_pow_loop self QM31_ONE exp"

definition qm31_try_inv :: "qm31 \<Rightarrow> qm31 option option" where
  "qm31_try_inv self =
     (if qm31_is_zero self then Some None
      else let norm = cm31_sub (cm31_square (qm_c0 self)) (mul_by_r (cm31_square (qm_c1 self)))
           in map_option (\<lambda>inverse_norm. Some (QM31 (cm31_mul (qm_c0 self) inverse_norm)
                (cm31_mul (cm31_neg (qm_c1 self)) inverse_norm))) (cm31_inv norm))"

definition qm31_inv :: "qm31 \<Rightarrow> qm31 option" where
  "qm31_inv self = (case qm31_try_inv self of Some (Some y) \<Rightarrow> Some y | _ \<Rightarrow> None)"

definition qm31_from_le_bytes :: "bytes \<Rightarrow> qm31 option" where
  "qm31_from_le_bytes bytes =
     Option.bind (cm31_from_le_bytes (seg 0 8 bytes)) (\<lambda>c0.
     Option.bind (cm31_from_le_bytes (seg 8 16 bytes)) (\<lambda>c1. Some (QM31 c0 c1)))"

definition qm31_write_le_bytes :: "qm31 \<Rightarrow> bytes \<Rightarrow> bytes" where
  "qm31_write_le_bytes self out =
     (let out = put 0 (cm31_write_le_bytes (qm_c0 self) (seg 0 8 out)) out
      in put 8 (cm31_write_le_bytes (qm_c1 self) (seg 8 16 out)) out)"


definition qcanon :: "qm31 \<Rightarrow> bool" where
  "qcanon x \<longleftrightarrow> ccanon (qm_c0 x) \<and> ccanon (qm_c1 x)"

definition qval :: "qm31 \<Rightarrow> qgf" where
  "qval x = Qgf (cval (qm_c0 x)) (cval (qm_c1 x))"

lemma qcanon_QM31 [simp]: "qcanon (QM31 a b) \<longleftrightarrow> ccanon a \<and> ccanon b"
  by (simp add: qcanon_def)

lemma qval_QM31 [simp]: "qval (QM31 a b) = Qgf (cval a) (cval b)"
  by (simp add: qval_def)

lemma qcanonD [simp]: "qcanon x \<Longrightarrow> ccanon (qm_c0 x)" "qcanon x \<Longrightarrow> ccanon (qm_c1 x)"
  by (simp_all add: qcanon_def)

lemma qval_sel [simp]: "qc0 (qval x) = cval (qm_c0 x)" "qc1 (qval x) = cval (qm_c1 x)"
  by (simp_all add: qval_def)

lemma qval_inject: "qcanon x \<Longrightarrow> qcanon y \<Longrightarrow> qval x = qval y \<longleftrightarrow> x = y"
  by (cases x; cases y) (simp add: cval_inject)

lemma qm31_const_val [simp]:
  "qcanon QM31_ZERO" "qcanon QM31_ONE" "qval QM31_ZERO = 0" "qval QM31_ONE = 1"
  using cm31_const_val by (simp_all add: QM31_ZERO_def QM31_ONE_def qgf_ops flip: CM31_ZERO_def CM31_ONE_def)

lemma mul_by_r_val [simp]:
  "ccanon x \<Longrightarrow> ccanon (mul_by_r x)" "ccanon x \<Longrightarrow> cval (mul_by_r x) = cgf_R * cval x"
  by (simp_all add: mul_by_r_def cgf_eq_iff)

lemma qm31_linear_val [simp]:
  "qcanon x \<Longrightarrow> qcanon y \<Longrightarrow> qcanon (qm31_add x y)"
  "qcanon x \<Longrightarrow> qcanon y \<Longrightarrow> qval (qm31_add x y) = qval x + qval y"
  "qcanon x \<Longrightarrow> qcanon y \<Longrightarrow> qcanon (qm31_sub x y)"
  "qcanon x \<Longrightarrow> qcanon y \<Longrightarrow> qval (qm31_sub x y) = qval x - qval y"
  "qcanon x \<Longrightarrow> qcanon (qm31_neg x)" "qcanon x \<Longrightarrow> qval (qm31_neg x) = - qval x"
  by (simp_all add: qm31_add_def qm31_sub_def qm31_neg_def qgf_eq_iff)

lemma qm31_mul_val [simp]:
  "qcanon x \<Longrightarrow> qcanon y \<Longrightarrow> qcanon (qm31_mul x y)"
  "qcanon x \<Longrightarrow> qcanon y \<Longrightarrow> qval (qm31_mul x y) = qval x * qval y"
  by (simp_all add: qm31_mul_def Let_def qgf_eq_iff algebra_simps)

lemma qm31_square_val [simp]:
  "qcanon x \<Longrightarrow> qcanon (qm31_square x)"
  "qcanon x \<Longrightarrow> qval (qm31_square x) = qval x * qval x"
  by (simp_all add: qm31_square_def Let_def qgf_eq_iff algebra_simps)

definition q_of_c :: "cgf \<Rightarrow> qgf" where "q_of_c c = Qgf c 0"
definition q_of_g :: "gf \<Rightarrow> qgf" where "q_of_g g = Qgf (Cgf g 0) 0"

lemma qm31_lift_val [simp]:
  "ccanon c \<Longrightarrow> qcanon (qm31_from_cm31 c)" "qval (qm31_from_cm31 c) = q_of_c (cval c)"
  "qcanon (qm31_mul_cm31 x c)"
  "qcanon x \<Longrightarrow> ccanon c \<Longrightarrow> qval (qm31_mul_cm31 x c) = qval x * q_of_c (cval c)"
  "qcanon (qm31_mul_m31 x g)"
  "qcanon x \<Longrightarrow> canon g \<Longrightarrow> qval (qm31_mul_m31 x g) = qval x * q_of_g (gval g)"
  "qcanon x \<Longrightarrow> qcanon (qm31_half x)"
  by (simp_all add: qm31_from_cm31_def qm31_mul_cm31_def qm31_mul_m31_def qm31_half_def
      q_of_c_def q_of_g_def cm31_from_m31_def qgf_eq_iff algebra_simps)

lemma qgf_of_nat_sel [simp]: "qc0 (of_nat n) = of_nat n" "qc1 (of_nat n) = 0"
  by (induction n) simp_all

lemma qgf_numeral_sel [simp]: "qc0 (numeral n) = numeral n" "qc1 (numeral n) = 0"
  using qgf_of_nat_sel [of "numeral n"] by simp_all

lemma two_nonzero [simp]: "(2 :: cgf) \<noteq> 0" "(2 :: qgf) \<noteq> 0"
  by (simp_all add: cgf_eq_iff qgf_eq_iff)

lemma half_add_half: "(2 :: 'a::field) \<noteq> 0 \<Longrightarrow> z / 2 + z / 2 = (z :: 'a)"
  by (metis add_divide_distrib mult_2 nonzero_mult_div_cancel_left)

lemma qm31_half_val [simp]:
  assumes "qcanon x" shows "qval (qm31_half x) = qval x / 2"
proof -
  have "qval (qm31_half x) + qval (qm31_half x) = qval x"
    using assms by (simp add: qm31_half_def qgf_eq_iff half_add_half)
  then have "2 * qval (qm31_half x) = qval x" by (simp only: mult_2)
  then show ?thesis by (metis nonzero_mult_div_cancel_left two_nonzero(2))
qed

lemma qm31_is_zero_val: "qcanon x \<Longrightarrow> qm31_is_zero x \<longleftrightarrow> qval x = 0"
  by (simp add: qm31_is_zero_def cm31_is_zero_val qgf_eq_iff)

lemma qm31_pow_loop_val:
  "qcanon base \<Longrightarrow> qcanon acc \<Longrightarrow>
   qcanon (qm31_pow_loop base acc exp) \<and> qval (qm31_pow_loop base acc exp) = qval acc * qval base ^ unat exp"
proof (induction base acc exp rule: qm31_pow_loop.induct)
  case (1 base acc exp)
  show ?case
  proof (cases "0 < exp")
    case True
    have "qval base ^ unat exp
        = (qval base * qval base) ^ (unat exp div 2) * (if odd (unat exp) then qval base else 1)"
      by (rule power_binary_step)
    with 1 True show ?thesis
      by (subst (1 2) qm31_pow_loop.simps)
        (simp add: unat_drop_bit_1 word_odd_iff mult.commute mult.left_commute)
  next
    case False
    then have "exp = 0" by (simp add: word_gt_0)
    with 1 show ?thesis by (simp add: qm31_pow_loop.simps)
  qed
qed

lemma qm31_pow_val:
  "qcanon x \<Longrightarrow> qcanon (qm31_pow x e)" "qcanon x \<Longrightarrow> qval (qm31_pow x e) = qval x ^ unat e"
  using qm31_pow_loop_val [of x QM31_ONE e] by (simp_all add: qm31_pow_def)

lemma qm31_try_inv_zero: "qcanon x \<Longrightarrow> qval x = 0 \<Longrightarrow> qm31_try_inv x = Some None"
  by (simp add: qm31_try_inv_def qm31_is_zero_val)

lemma qm31_try_inv_val:
  assumes "qcanon x" "qval x \<noteq> 0"
  shows "\<exists>y. qm31_try_inv x = Some (Some y) \<and> qcanon y \<and> qval y = inverse (qval x)"
proof -
  define norm where "norm = cm31_sub (cm31_square (qm_c0 x)) (mul_by_r (cm31_square (qm_c1 x)))"
  have val: "cval norm = qnorm (qval x)" and c: "ccanon norm"
    unfolding norm_def qnorm_def using assms(1) by simp_all
  then have "cval norm \<noteq> 0" using assms(2) by simp
  from cm31_inv_val [OF c this] obtain i where
    "cm31_inv norm = Some i" "ccanon i" "cval i = inverse (qnorm (qval x))"
    unfolding val by blast
  then show ?thesis
    using assms unfolding qm31_try_inv_def Let_def norm_def [symmetric]
    by (simp add: qm31_is_zero_val inverse_qgf_def)
qed

lemma qm31_bytes_round_trip:
  "qcanon x \<Longrightarrow> length out = 16 \<Longrightarrow> qm31_from_le_bytes (qm31_write_le_bytes x out) = Some x"
  by (simp add: qm31_from_le_bytes_def qm31_write_le_bytes_def image_simps Let_def cm31_bytes_round_trip)

lemma qm31_bytes_unique:
  assumes "length bs = 16" "length out = 16" "qm31_from_le_bytes bs = Some x"
  shows "qm31_write_le_bytes x out = bs"
proof (rule agree_on_eq [where cs = "[8, 16]"])
  show "agree_on [0, 8, 16] (qm31_write_le_bytes x out) bs"
    using assms by (auto simp: qm31_from_le_bytes_def qm31_write_le_bytes_def bind_eq_Some_conv
        Let_def image_simps intro!: cm31_bytes_unique)
qed (use assms in \<open>simp_all add: qm31_write_le_bytes_def Let_def\<close>)

lemma qm31_from_le_bytes_canon: "qm31_from_le_bytes bs = Some x \<Longrightarrow> qcanon x"
  by (auto simp: qm31_from_le_bytes_def bind_eq_Some_conv dest: cm31_from_le_bytes_canon)

section \<open>Inversion as multiplication to one\<close>

lemma m31_inv_correct:
  assumes "canon x"
  shows "if x = M31_ZERO then m31_inv x = None
    else \<exists>y. m31_inv x = Some y \<and> canon y \<and> m31_mul x y = M31_ONE"
proof (cases "x = M31_ZERO")
  case True
  then show ?thesis by (simp add: m31_inv_def M31_ZERO_def)
next
  case False
  from m31_inv_Some [OF assms this] obtain y where y: "m31_inv x = Some y" by blast
  from m31_inv_val [OF assms this] have val: "canon y" "gval y = inverse (gval x)" .
  have "gval x \<noteq> 0" using False assms gval_inject [of x M31_ZERO] by simp
  then have "gval (m31_mul x y) = gval M31_ONE" using val assms by simp
  then have "m31_mul x y = M31_ONE" using gval_inject [of "m31_mul x y" M31_ONE] by simp
  with False y val show ?thesis by simp
qed

lemma qm31_inv_correct:
  assumes "qcanon x"
  shows "if qm31_is_zero x then qm31_try_inv x = Some None
    else \<exists>y. qm31_try_inv x = Some (Some y) \<and> qcanon y \<and> qm31_mul x y = QM31_ONE"
proof (cases "qm31_is_zero x")
  case True
  with assms qm31_try_inv_zero show ?thesis by (simp add: qm31_is_zero_val)
next
  case False
  then have nz: "qval x \<noteq> 0" using assms by (simp add: qm31_is_zero_val)
  from qm31_try_inv_val [OF assms nz] obtain y where
    y: "qm31_try_inv x = Some (Some y)" "qcanon y" "qval y = inverse (qval x)" by blast
  then have "qval (qm31_mul x y) = qval QM31_ONE" using assms nz by simp
  then have "qm31_mul x y = QM31_ONE" using assms y qval_inject [of "qm31_mul x y" QM31_ONE] by simp
  with False y show ?thesis by simp
qed

end
