(* ===== verification/FieldKernels.thy ===== *)
theory FieldKernels
  imports Field
begin

text \<open>
  The fixed-arity kernels of \<open>crates/aspis-core/src/field.rs\<close>: prepared multiplication, the
  sums of up to seven products that reduce nine Karatsuba channels once, packing against
  the tower basis, power tables, the two evaluators of a degree-72 polynomial, the
  normalised circle fold and Montgomery batch inversion. Fixed-size Rust arrays are lists;
  the \<open>+=\<close> of an accumulator wraps at 64 bits, and \<open>chans_ok\<close> carries the bound that shows it
  never does on canonical inputs. Each kernel is shown equal in value to the sum of
  products, polynomial or inverse it stands for.
\<close>

section \<open>Karatsuba channels\<close>

definition karatsuba_limbs :: "cm31 \<Rightarrow> m31 list" where
  "karatsuba_limbs c = [cm_a c, cm_b c, m31_add (cm_a c) (cm_b c)]"

definition karatsuba_components :: "qm31 \<Rightarrow> m31 list list" where
  "karatsuba_components x =
     (let sum = cm31_add (qm_c0 x) (qm_c1 x)
      in [karatsuba_limbs (qm_c0 x), karatsuba_limbs (qm_c1 x), karatsuba_limbs sum])"

record prepared_qm31_multiplier =
  components :: "m31 list list"

definition prepared_new :: "qm31 \<Rightarrow> prepared_qm31_multiplier" where
  "prepared_new value =
     \<lparr> components = [karatsuba_limbs (qm_c0 value), karatsuba_limbs (qm_c1 value),
                     karatsuba_limbs (cm31_add (qm_c0 value) (qm_c1 value))] \<rparr>"

definition karatsuba_cm31 :: "m31 \<Rightarrow> m31 \<Rightarrow> m31 \<Rightarrow> cm31" where
  "karatsuba_cm31 m0 m1 m2 = CM31 (m31_sub m0 m1) (m31_sub (m31_sub m2 m0) m1)"

definition karatsuba_qm31 :: "cm31 \<Rightarrow> cm31 \<Rightarrow> cm31 \<Rightarrow> qm31" where
  "karatsuba_qm31 m0 m1 m2 = QM31 (cm31_add m0 (mul_by_r m1)) (cm31_sub (cm31_sub m2 m0) m1)"

definition prepared_multiply :: "m31 list \<Rightarrow> cm31 \<Rightarrow> cm31" where
  "prepared_multiply left right =
     karatsuba_cm31 (m31_mul (left ! 0) (cm_a right)) (m31_mul (left ! 1) (cm_b right))
       (m31_mul (left ! 2) (m31_add (cm_a right) (cm_b right)))"

definition prepared_mul :: "prepared_qm31_multiplier \<Rightarrow> qm31 \<Rightarrow> qm31" where
  "prepared_mul self rhs =
     karatsuba_qm31 (prepared_multiply (components self ! 0) (qm_c0 rhs))
       (prepared_multiply (components self ! 1) (qm_c1 rhs))
       (prepared_multiply (components self ! 2) (cm31_add (qm_c0 rhs) (qm_c1 rhs)))"

type_synonym channels = "u64 list list"

definition zero_channels :: channels where
  "zero_channels = replicate 3 (replicate 3 0)"

definition qm31_from_karatsuba_channel_sums :: "channels \<Rightarrow> qm31" where
  "qm31_from_karatsuba_channel_sums sums =
     (let reconstruct = (\<lambda>channels. karatsuba_cm31 (m31_reduce_u64 (channels ! 0))
            (m31_reduce_u64 (channels ! 1)) (m31_reduce_u64 (channels ! 2)))
      in karatsuba_qm31 (reconstruct (sums ! 0)) (reconstruct (sums ! 1)) (reconstruct (sums ! 2)))"

definition accumulate_channels :: "channels \<Rightarrow> m31 list list \<Rightarrow> m31 list list \<Rightarrow> channels" where
  "accumulate_channels sums left right =
     map (\<lambda>component. map (\<lambda>channel. sums ! component ! channel
            + u64_from (left ! component ! channel) * u64_from (right ! component ! channel))
          [0..<3]) [0..<3]"

definition qm31_accumulate_product_channels :: "channels \<Rightarrow> qm31 \<Rightarrow> qm31 \<Rightarrow> channels" where
  "qm31_accumulate_product_channels sums left right =
     accumulate_channels sums (karatsuba_components left) (karatsuba_components right)"

definition qm31_sum_products_small :: "qm31 list \<Rightarrow> qm31 list \<Rightarrow> qm31" where
  "qm31_sum_products_small left right =
     qm31_from_karatsuba_channel_sums
       (fold (\<lambda>index sums. qm31_accumulate_product_channels sums (left ! index) (right ! index))
          [0..<length left] zero_channels)"

definition qm31_sum_products_prepared :: "nat \<Rightarrow> prepared_qm31_multiplier list \<Rightarrow> qm31 list \<Rightarrow> channels" where
  "qm31_sum_products_prepared n left right =
     fold (\<lambda>index sums. accumulate_channels sums (components (left ! index))
             (karatsuba_components (right ! index)))
       [0..<n] zero_channels"

definition qm31_sum_products2_prepared :: "prepared_qm31_multiplier list \<Rightarrow> qm31 list \<Rightarrow> qm31" where
  "qm31_sum_products2_prepared left right =
     qm31_from_karatsuba_channel_sums (qm31_sum_products_prepared 2 left right)"

definition qm31_sum_products3_prepared :: "prepared_qm31_multiplier list \<Rightarrow> qm31 list \<Rightarrow> qm31" where
  "qm31_sum_products3_prepared left right =
     qm31_from_karatsuba_channel_sums (qm31_sum_products_prepared 3 left right)"

definition bump :: "nat \<Rightarrow> nat \<Rightarrow> u64 \<Rightarrow> channels \<Rightarrow> channels" where
  "bump i j v sums = sums[i := (sums ! i)[j := sums ! i ! j + v]]"

definition add_constant_channels :: "qm31 \<Rightarrow> channels \<Rightarrow> channels" where
  "add_constant_channels constant sums =
     (let a0 = u64_from (cm_a (qm_c0 constant)); b0 = u64_from (cm_b (qm_c0 constant));
          a1 = u64_from (cm_a (qm_c1 constant)); b1 = u64_from (cm_b (qm_c1 constant));
          sums = bump 0 0 a0 sums;
          sums = bump 0 2 (a0 + b0) sums;
          sums = bump 2 0 (a0 + a1) sums
      in bump 2 2 (a0 + a1 + b0 + b1) sums)"

definition qm31_add_sum_products3_prepared ::
  "qm31 \<Rightarrow> prepared_qm31_multiplier list \<Rightarrow> qm31 list \<Rightarrow> qm31" where
  "qm31_add_sum_products3_prepared constant left right =
     qm31_from_karatsuba_channel_sums
       (add_constant_channels constant (qm31_sum_products_prepared 3 left right))"

definition qm31_dot_prepared_groups ::
  "nat \<Rightarrow> nat \<Rightarrow> prepared_qm31_multiplier list \<Rightarrow> qm31 list \<Rightarrow> u64 list list list" where
  "qm31_dot_prepared_groups n width weights values =
     fold (\<lambda>index sums.
            let rhs_components = karatsuba_components (values ! index); group = index div width
            in map (\<lambda>component. map (\<lambda>channel.
                  (sums ! component ! channel)[group := sums ! component ! channel ! group
                     + u64_from (components (weights ! index) ! component ! channel)
                       * u64_from (rhs_components ! component ! channel)]) [0..<3]) [0..<3])
       [0..<n] (replicate 3 (replicate 3 (replicate 2 0)))"

definition qm31_from_grouped_sums :: "u64 list list list \<Rightarrow> qm31" where
  "qm31_from_grouped_sums sums =
     (let reduce_groups = (\<lambda>groups. m31_add (m31_reduce_u64 (groups ! 0)) (m31_reduce_u64 (groups ! 1)));
          reconstruct = (\<lambda>channels. karatsuba_cm31 (reduce_groups (channels ! 0))
            (reduce_groups (channels ! 1)) (reduce_groups (channels ! 2)))
      in karatsuba_qm31 (reconstruct (sums ! 0)) (reconstruct (sums ! 1)) (reconstruct (sums ! 2)))"

definition qm31_dot6_prepared :: "prepared_qm31_multiplier list \<Rightarrow> qm31 list \<Rightarrow> qm31" where
  "qm31_dot6_prepared weights values =
     qm31_from_grouped_sums (qm31_dot_prepared_groups 6 3 weights values)"

definition qm31_dot7_prepared :: "prepared_qm31_multiplier list \<Rightarrow> qm31 list \<Rightarrow> qm31" where
  "qm31_dot7_prepared weights values =
     qm31_from_grouped_sums (qm31_dot_prepared_groups 7 4 weights values)"

definition qm31_m31_sum_products3 :: "qm31 list \<Rightarrow> m31 list \<Rightarrow> qm31" where
  "qm31_m31_sum_products3 left right =
     (let dot = (\<lambda>a b c. m31_reduce_u64 (u64_from a * u64_from (right ! 0)
            + u64_from b * u64_from (right ! 1) + u64_from c * u64_from (right ! 2)));
          c0 = (\<lambda>k. qm_c0 (left ! k)); c1 = (\<lambda>k. qm_c1 (left ! k))
      in QM31 (CM31 (dot (cm_a (c0 0)) (cm_a (c0 1)) (cm_a (c0 2)))
                    (dot (cm_b (c0 0)) (cm_b (c0 1)) (cm_b (c0 2))))
              (CM31 (dot (cm_a (c1 0)) (cm_a (c1 1)) (cm_a (c1 2)))
                    (dot (cm_b (c1 0)) (cm_b (c1 1)) (cm_b (c1 2)))))"

definition qm31_pack_base4 :: "qm31 list \<Rightarrow> qm31 option" where
  "qm31_pack_base4 values =
     (if 4 < length values then None
      else let padded = put 0 values (replicate 4 QM31_ZERO);
               v0 = padded ! 0; v1 = padded ! 1; v2 = padded ! 2; v3 = padded ! 3;
               p = ucast M31_P :: u64;
               c0_a = u64_from (cm_a (qm_c0 v0)) + (p - u64_from (cm_b (qm_c0 v1)))
                 + 2 * u64_from (cm_a (qm_c1 v2)) + (p - u64_from (cm_b (qm_c1 v2)))
                 + (p - u64_from (cm_a (qm_c1 v3))) + (2 * p - 2 * u64_from (cm_b (qm_c1 v3)));
               c0_b = u64_from (cm_b (qm_c0 v0)) + u64_from (cm_a (qm_c0 v1))
                 + u64_from (cm_a (qm_c1 v2)) + 2 * u64_from (cm_b (qm_c1 v2))
                 + 2 * u64_from (cm_a (qm_c1 v3)) + (p - u64_from (cm_b (qm_c1 v3)));
               c1_a = u64_from (cm_a (qm_c1 v0)) + (p - u64_from (cm_b (qm_c1 v1)))
                 + u64_from (cm_a (qm_c0 v2)) + (p - u64_from (cm_b (qm_c0 v3)));
               c1_b = u64_from (cm_b (qm_c1 v0)) + u64_from (cm_a (qm_c1 v1))
                 + u64_from (cm_b (qm_c0 v2)) + u64_from (cm_a (qm_c0 v3))
           in Some (QM31 (cm31_new (m31_reduce_u64 c0_a) (m31_reduce_u64 c0_b))
                         (cm31_new (m31_reduce_u64 c1_a) (m31_reduce_u64 c1_b))))"

definition qm31_power_table :: "nat \<Rightarrow> qm31 \<Rightarrow> qm31 list" where
  "qm31_power_table n gamma =
     (let prepared_gamma = prepared_new gamma
      in fst (fold (\<lambda>index (table, power).
             (table[index := power],
              if index + 1 \<noteq> n then prepared_mul prepared_gamma power else power))
           [0..<n] (replicate n QM31_ZERO, QM31_ONE)))"

definition qm31_evaluate_degree72_horner :: "qm31 list \<Rightarrow> qm31 \<Rightarrow> qm31" where
  "qm31_evaluate_degree72_horner coefficients x =
     (let prepared_x = prepared_new x
      in fold (\<lambda>coefficient accumulator. qm31_add (prepared_mul prepared_x accumulator) coefficient)
           (rev (take 72 coefficients)) (coefficients ! 72))"

definition qm31_evaluate_degree72_radix8 :: "qm31 list \<Rightarrow> qm31 \<Rightarrow> qm31" where
  "qm31_evaluate_degree72_radix8 coefficients x =
     (let prepared_x = prepared_new x;
          x2 = qm31_square x;
          x3 = prepared_mul prepared_x x2;
          x4 = qm31_square x2;
          x5 = prepared_mul prepared_x x4;
          x6 = qm31_square x3;
          x7 = prepared_mul prepared_x x6;
          x8 = qm31_square x4;
          prepared_powers = map prepared_new [x, x2, x3, x4, x5, x6, x7];
          prepared_x8 = prepared_new x8
      in fold (\<lambda>block accumulator.
             let start = 8 * block;
                 values = map (\<lambda>offset. coefficients ! (start + 1 + offset)) [0..<7];
                 block_value = qm31_add (coefficients ! start) (qm31_dot7_prepared prepared_powers values)
             in qm31_add (prepared_mul prepared_x8 accumulator) block_value)
           (rev [0..<9]) (coefficients ! 72))"

definition qm31_circle_to_line_fold4 :: "qm31 list \<Rightarrow> qm31 \<Rightarrow> m31 \<Rightarrow> m31 \<Rightarrow> qm31" where
  "qm31_circle_to_line_fold4 values alpha inv_2x inv_2y =
     (let positive = qm31_add (qm31_half (qm31_add (values ! 0) (values ! 1)))
            (qm31_mul alpha (qm31_mul_m31 (qm31_sub (values ! 0) (values ! 1)) inv_2y));
          negative = qm31_add (qm31_half (qm31_add (values ! 2) (values ! 3)))
            (qm31_mul alpha (qm31_mul_m31 (qm31_sub (values ! 2) (values ! 3)) (m31_sub M31_ZERO inv_2y)))
      in qm31_add (qm31_half (qm31_add positive negative))
           (qm31_mul (qm31_square alpha) (qm31_mul_m31 (qm31_sub positive negative) inv_2x)))"

section \<open>Batch inversion\<close>

definition batch_prefix :: "('a \<Rightarrow> 'a \<Rightarrow> 'a) \<Rightarrow> 'a list \<Rightarrow> 'a list \<times> 'a \<Rightarrow> 'a list \<times> 'a" where
  "batch_prefix mul values =
     fold (\<lambda>index (out, accumulator). (out[index := accumulator], mul accumulator (values ! index)))
       [0..<length values]"

definition batch_suffix :: "('a \<Rightarrow> 'a \<Rightarrow> 'a) \<Rightarrow> 'a list \<Rightarrow> 'a list \<times> 'a \<Rightarrow> 'a list \<times> 'a" where
  "batch_suffix mul values =
     fold (\<lambda>index (out, inverse). (out[index := mul (out ! index) inverse], mul inverse (values ! index)))
       (rev [0..<length values])"

definition m31_batch_inverse_with :: "m31 list \<Rightarrow> m31 list \<Rightarrow> (m31 \<Rightarrow> m31 option) \<Rightarrow> m31 list option" where
  "m31_batch_inverse_with values out inverse_fn =
     (if length values \<noteq> length out then None
      else if values = [] then Some out
      else let (out, accumulator) = batch_prefix m31_mul values (out, M31_ONE)
           in map_option (\<lambda>inverse. fst (batch_suffix m31_mul values (out, inverse))) (inverse_fn accumulator))"

definition m31_batch_inverse :: "m31 list \<Rightarrow> m31 list \<Rightarrow> m31 list option" where
  "m31_batch_inverse values out = m31_batch_inverse_with values out m31_inv"

definition cm31_batch_inverse_with :: "cm31 list \<Rightarrow> cm31 list \<Rightarrow> (m31 \<Rightarrow> m31 option) \<Rightarrow> cm31 list option" where
  "cm31_batch_inverse_with values out inverse_fn =
     (if length values \<noteq> length out then None
      else if values = [] then Some out
      else let (out, acc) = batch_prefix cm31_mul values (out, CM31_ONE)
           in map_option (\<lambda>inv. fst (batch_suffix cm31_mul values (out, inv))) (cm31_inv_with acc inverse_fn))"

definition cm31_batch_inverse :: "cm31 list \<Rightarrow> cm31 list \<Rightarrow> cm31 list option" where
  "cm31_batch_inverse values out = cm31_batch_inverse_with values out m31_inv"

subsection \<open>Reconstruction is linear and multiplicative\<close>

definition kcm :: "(nat \<Rightarrow> gf) \<Rightarrow> cgf" where
  "kcm f = Cgf (f 0 - f 1) (f 2 - f 0 - f 1)"

definition kqm :: "(nat \<Rightarrow> nat \<Rightarrow> gf) \<Rightarrow> qgf" where
  "kqm f = Qgf (kcm (f 0) + cgf_R * kcm (f 1)) (kcm (f 2) - kcm (f 0) - kcm (f 1))"

lemma kcm_add: "kcm (\<lambda>j. f j + g j) = kcm f + kcm g"
  by (simp add: kcm_def cgf_eq_iff algebra_simps)

lemma kqm_add: "kqm (\<lambda>i j. f i j + g i j) = kqm f + kqm g"
  by (simp add: kqm_def kcm_add qgf_eq_iff algebra_simps)

lemma kqm_zero: "kqm (\<lambda>i j. 0) = 0"
  by (simp add: kqm_def kcm_def qgf_eq_iff cgf_eq_iff)

lemma kqm_sum: "kqm (\<lambda>i j. \<Sum>k\<in>A. f k i j) = (\<Sum>k\<in>A. kqm (f k))"
  by (induction A rule: infinite_finite_induct) (simp_all add: kqm_zero kqm_add)

lemma kqm_cong:
  "(\<And>i j. i < 3 \<Longrightarrow> j < 3 \<Longrightarrow> f i j = g i j) \<Longrightarrow> kqm f = kqm g"
  by (simp add: kqm_def kcm_def)

lemma karatsuba_cm31_val [simp]:
  assumes "canon m0" "canon m1" "canon m2"
  shows "ccanon (karatsuba_cm31 m0 m1 m2)"
    and "cval (karatsuba_cm31 m0 m1 m2) = Cgf (gval m0 - gval m1) (gval m2 - gval m0 - gval m1)"
  using assms by (simp_all add: karatsuba_cm31_def)

lemma karatsuba_qm31_val [simp]:
  assumes "ccanon m0" "ccanon m1" "ccanon m2"
  shows "qcanon (karatsuba_qm31 m0 m1 m2)"
    and "qval (karatsuba_qm31 m0 m1 m2) = Qgf (cval m0 + cgf_R * cval m1) (cval m2 - cval m0 - cval m1)"
  using assms by (simp_all add: karatsuba_qm31_def)

lemma less_3_cases: "i < 3 \<Longrightarrow> i = 0 \<or> i = 1 \<or> i = (2 :: nat)"
  by auto

lemma components_canon:
  "qcanon x \<Longrightarrow> i < 3 \<Longrightarrow> j < 3 \<Longrightarrow> canon (karatsuba_components x ! i ! j)"
  by (auto simp: karatsuba_components_def karatsuba_limbs_def Let_def dest!: less_3_cases)

lemma components_product:
  assumes "qcanon x" "qcanon y"
  shows "kqm (\<lambda>i j. gval (karatsuba_components x ! i ! j) * gval (karatsuba_components y ! i ! j))
    = qval x * qval y"
  using assms
  by (simp add: kqm_def kcm_def karatsuba_components_def karatsuba_limbs_def Let_def qgf_eq_iff cgf_eq_iff
      cm31_add_def) (simp add: algebra_simps)

lemma prepared_components [simp]: "components (prepared_new x) = karatsuba_components x"
  by (simp add: prepared_new_def karatsuba_components_def Let_def)

lemma prepared_multiply_val:
  assumes "canon (l ! 0)" "canon (l ! 1)" "canon (l ! 2)" "ccanon r"
  shows "ccanon (prepared_multiply l r)"
    and "cval (prepared_multiply l r) = kcm (\<lambda>j. gval (l ! j) * gval (karatsuba_limbs r ! j))"
  using assms by (simp_all add: prepared_multiply_def kcm_def karatsuba_limbs_def)

lemma prepared_mul_val [simp]:
  assumes "qcanon x" "qcanon y"
  shows "qcanon (prepared_mul (prepared_new x) y)"
    and "qval (prepared_mul (prepared_new x) y) = qval x * qval y"
proof -
  show "qcanon (prepared_mul (prepared_new x) y)"
    using assms by (simp add: prepared_mul_def prepared_multiply_val components_canon)
  show "qval (prepared_mul (prepared_new x) y) = qval x * qval y"
    using assms components_product [OF assms]
    by (simp add: prepared_mul_def prepared_multiply_val components_canon kqm_def)
      (simp add: karatsuba_components_def Let_def)
qed


subsection \<open>Unreduced channels\<close>

abbreviation max_product :: nat where "max_product \<equiv> 4611686009837453316"

definition chans_ok :: "channels \<Rightarrow> (nat \<Rightarrow> nat \<Rightarrow> gf) \<Rightarrow> nat \<Rightarrow> bool" where
  "chans_ok S f b \<longleftrightarrow> length S = 3 \<and> (\<forall>i<3. length (S ! i) = 3) \<and>
     (\<forall>i<3. \<forall>j<3. unat (S ! i ! j) \<le> b \<and> wval (S ! i ! j) = f i j)"

lemma wval_0 [simp]: "wval 0 = 0"
  by (simp add: wval_def)

lemma unat_add_small: "unat (a :: u64) + unat b < 2 ^ 64 \<Longrightarrow> unat (a + b) = unat a + unat b"
  by (simp add: unat_word_ariths)

lemma wval_add_small: "unat (a :: u64) + unat b < 2 ^ 64 \<Longrightarrow> wval (a + b) = wval a + wval b"
  by (simp only: wval_def unat_add_small of_nat_add)

lemma accumulate_step:
  assumes "unat (s :: u64) \<le> b" "canon x" "canon y" "b + max_product < 2 ^ 64"
  shows "unat (s + u64_from x * u64_from y) \<le> b + max_product"
    and "wval (s + u64_from x * u64_from y) = wval s + gval x * gval y"
proof -
  have le: "unat (u64_from x * u64_from y) \<le> max_product" using assms(2,3) by (rule raw_product_le)
  then have "unat s + unat (u64_from x * u64_from y) < 2 ^ 64" using assms(1,4) by linarith
  from unat_add_small [OF this] wval_add_small [OF this] le assms
  show "unat (s + u64_from x * u64_from y) \<le> b + max_product"
    "wval (s + u64_from x * u64_from y) = wval s + gval x * gval y"
    by (simp_all only: wval_raw_product)
qed

lemma chans_ok_accumulate:
  assumes "chans_ok S f b" "b + max_product < 2 ^ 64"
    and "\<And>i j. i < 3 \<Longrightarrow> j < 3 \<Longrightarrow> canon (L ! i ! j) \<and> canon (R ! i ! j)"
  shows "chans_ok (accumulate_channels S L R) (\<lambda>i j. f i j + gval (L ! i ! j) * gval (R ! i ! j)) (b + max_product)"
  unfolding chans_ok_def accumulate_channels_def
proof (intro conjI allI impI)
  fix i j :: nat assume ij: "i < 3" "j < 3"
  define A where "A = map (\<lambda>i. map (\<lambda>j. S ! i ! j + u64_from (L ! i ! j) * u64_from (R ! i ! j)) [0..<3]) [0..<3]"
  have A: "A ! i ! j = S ! i ! j + u64_from (L ! i ! j) * u64_from (R ! i ! j)"
    using ij by (simp add: A_def del: upt_Suc)
  have s: "unat (S ! i ! j) \<le> b" "wval (S ! i ! j) = f i j"
    using assms(1) ij by (simp_all add: chans_ok_def)
  show "unat (A ! i ! j) \<le> b + max_product"
    and "wval (A ! i ! j) = f i j + gval (L ! i ! j) * gval (R ! i ! j)"
    using accumulate_step [OF s(1) _ _ assms(2)] assms(3) [OF ij] s(2) unfolding A by simp_all
qed (simp_all del: upt_Suc)

lemma chans_ok_zero: "chans_ok zero_channels (\<lambda>i j. 0) 0"
  by (simp add: chans_ok_def zero_channels_def)

lemma chans_ok_fold:
  assumes "\<And>k. k < n \<Longrightarrow> qcanon (x k) \<and> qcanon (y k)" and "n \<le> 4"
  shows "chans_ok (fold (\<lambda>k S. accumulate_channels S (karatsuba_components (x k)) (karatsuba_components (y k)))
      [0..<n] zero_channels)
    (\<lambda>i j. \<Sum>k<n. gval (karatsuba_components (x k) ! i ! j) * gval (karatsuba_components (y k) ! i ! j))
    (n * max_product)"
  using assms
proof (induction n)
  case 0
  then show ?case using chans_ok_zero by simp
next
  case (Suc n)
  then have bound: "n * max_product + max_product < 2 ^ 64" by simp
  have "chans_ok (fold (\<lambda>k S. accumulate_channels S (karatsuba_components (x k)) (karatsuba_components (y k)))
      [0..<n] zero_channels)
    (\<lambda>i j. \<Sum>k<n. gval (karatsuba_components (x k) ! i ! j) * gval (karatsuba_components (y k) ! i ! j))
    (n * max_product)" using Suc by simp
  from chans_ok_accumulate [OF this bound, of "karatsuba_components (x n)" "karatsuba_components (y n)"] Suc.prems
  show ?case by (simp add: components_canon add.commute)
qed

lemma from_channels_val:
  assumes "chans_ok S f b"
  shows "qcanon (qm31_from_karatsuba_channel_sums S)"
    and "qval (qm31_from_karatsuba_channel_sums S) = kqm f"
proof -
  have "wval (S ! i ! j) = f i j" if "i < 3" "j < 3" for i j
    using assms that by (simp add: chans_ok_def)
  then show "qcanon (qm31_from_karatsuba_channel_sums S)"
    "qval (qm31_from_karatsuba_channel_sums S) = kqm f"
    by (simp_all add: qm31_from_karatsuba_channel_sums_def Let_def kqm_def kcm_def)
qed

lemma product_sum_val:
  assumes "\<And>k. k < n \<Longrightarrow> qcanon (x k) \<and> qcanon (y k)" and "n \<le> 4"
  defines "S \<equiv> fold (\<lambda>k S. accumulate_channels S (karatsuba_components (x k)) (karatsuba_components (y k)))
      [0..<n] zero_channels"
  shows "qcanon (qm31_from_karatsuba_channel_sums S)"
    and "qval (qm31_from_karatsuba_channel_sums S) = (\<Sum>k<n. qval (x k) * qval (y k))"
proof -
  have ok: "chans_ok S (\<lambda>i j. \<Sum>k<n. gval (karatsuba_components (x k) ! i ! j)
      * gval (karatsuba_components (y k) ! i ! j)) (n * max_product)"
    unfolding S_def using assms(1,2) by (rule chans_ok_fold)
  show "qcanon (qm31_from_karatsuba_channel_sums S)" by (rule from_channels_val(1) [OF ok])
  show "qval (qm31_from_karatsuba_channel_sums S) = (\<Sum>k<n. qval (x k) * qval (y k))"
    using assms(1) by (simp add: from_channels_val [OF ok] kqm_sum components_product)
qed

lemma qm31_sum_products_small_val:
  assumes "length left = length right" "length left \<le> 4" "list_all qcanon left" "list_all qcanon right"
  shows "qcanon (qm31_sum_products_small left right)"
    and "qval (qm31_sum_products_small left right) = (\<Sum>k<length left. qval (left ! k) * qval (right ! k))"
  using product_sum_val [of "length left" "(!) left" "(!) right"] assms
  by (simp_all add: qm31_sum_products_small_def qm31_accumulate_product_channels_def list_all_length)

lemma fold_upt_cong:
  "(\<And>k s. k < n \<Longrightarrow> f k s = g k s) \<Longrightarrow> fold f [0..<n] s = fold g [0..<n] s"
  by (rule fold_cong) auto

lemma qm31_sum_products_prepared_eq:
  assumes "n \<le> length xs"
  shows "qm31_sum_products_prepared n (map prepared_new xs) ys =
    fold (\<lambda>k S. accumulate_channels S (karatsuba_components (xs ! k)) (karatsuba_components (ys ! k)))
      [0..<n] zero_channels"
  unfolding qm31_sum_products_prepared_def using assms by (intro fold_upt_cong) simp

lemma qm31_sum_products2_prepared_val:
  assumes "length xs = 2" "length ys = 2" "list_all qcanon xs" "list_all qcanon ys"
  shows "qm31_sum_products2_prepared (map prepared_new xs) ys = qm31_sum_products_small xs ys"
  using assms by (simp add: qm31_sum_products2_prepared_def qm31_sum_products_prepared_eq
      qm31_sum_products_small_def qm31_accumulate_product_channels_def)

lemma qm31_sum_products3_prepared_val:
  assumes "length xs = 3" "length ys = 3" "list_all qcanon xs" "list_all qcanon ys"
  shows "qm31_sum_products3_prepared (map prepared_new xs) ys = qm31_sum_products_small xs ys"
  using assms by (simp add: qm31_sum_products3_prepared_def qm31_sum_products_prepared_eq
      qm31_sum_products_small_def qm31_accumulate_product_channels_def)


lemma chans_ok_bump:
  assumes "chans_ok S f b" "i < 3" "j < 3" "unat v \<le> c" "b + c < 2 ^ 64"
  shows "chans_ok (bump i j v S) (f(i := (f i)(j := f i j + wval v))) (b + c)"
proof -
  have "unat (S ! i ! j) \<le> b" "wval (S ! i ! j) = f i j"
    using assms(1-3) by (simp_all add: chans_ok_def)
  then have "unat (S ! i ! j + v) \<le> b + c" "wval (S ! i ! j + v) = f i j + wval v"
    using assms(4,5) by (simp_all add: unat_add_small wval_add_small)
  then show ?thesis
    using assms(1-3) by (auto simp: chans_ok_def bump_def nth_list_update trans_le_add1)
qed

lemma limb_sums:
  assumes "canon a" "canon b" "canon c" "canon d"
  shows "unat (u64_from a) \<le> 8589934592" "unat (u64_from a + u64_from b) \<le> 8589934592"
    "unat (u64_from a + u64_from b + u64_from c + u64_from d) \<le> 8589934592"
    "wval (u64_from a + u64_from b + u64_from c + u64_from d) = gval a + gval b + gval c + gval d"
proof -
  have 1: "unat (u64_from a + u64_from b) = unat (limb a) + unat (limb b)"
    using assms by (subst unat_add_small) (simp_all add: canon_unat)
  have 2: "unat (u64_from a + u64_from b + u64_from c) = unat (limb a) + unat (limb b) + unat (limb c)"
    using assms 1 by (subst unat_add_small) (simp_all add: canon_unat)
  have 3: "unat (u64_from a + u64_from b + u64_from c + u64_from d)
      = unat (limb a) + unat (limb b) + unat (limb c) + unat (limb d)"
    using assms 2 by (subst unat_add_small) (simp_all add: canon_unat)
  show "unat (u64_from a) \<le> 8589934592" "unat (u64_from a + u64_from b) \<le> 8589934592"
    "unat (u64_from a + u64_from b + u64_from c + u64_from d) \<le> 8589934592"
    using assms 1 3 by (simp_all add: canon_unat)
  show "wval (u64_from a + u64_from b + u64_from c + u64_from d) = gval a + gval b + gval c + gval d"
    unfolding gval_def wval_def 3 of_nat_add ..
qed

lemma add_constant_channels_ok:
  assumes "chans_ok S f (3 * max_product)" "qcanon c"
  shows "\<exists>g. chans_ok (add_constant_channels c S) g (3 * max_product + 4 * 8589934592) \<and> kqm g = kqm f + qval c"
proof -
  define a0 b0 a1 b1 where "a0 = cm_a (qm_c0 c)" "b0 = cm_b (qm_c0 c)" "a1 = cm_a (qm_c1 c)" "b1 = cm_b (qm_c1 c)"
  note defs = a0_b0_a1_b1_def
  have can: "canon a0" "canon b0" "canon a1" "canon b1" using assms(2) by (simp_all add: defs)
  let ?g = "f(0 := (f 0)(0 := f 0 0 + gval a0, 2 := f 0 2 + (gval a0 + gval b0)),
              2 := (f 2)(0 := f 2 0 + (gval a0 + gval a1), 2 := f 2 2 + (gval a0 + gval a1 + gval b0 + gval b1)))"
  from chans_ok_bump [OF assms(1), of 0 0 "u64_from a0" 8589934592] limb_sums(1) [OF can]
  have "chans_ok (bump 0 0 (u64_from a0) S) (f(0 := (f 0)(0 := f 0 0 + gval a0)))
      (3 * max_product + 8589934592)" by simp
  from chans_ok_bump [OF this, of 0 2 "u64_from a0 + u64_from b0" 8589934592] limb_sums(2) [OF can]
  have "chans_ok (bump 0 2 (u64_from a0 + u64_from b0) (bump 0 0 (u64_from a0) S))
      (f(0 := (f 0)(0 := f 0 0 + gval a0, 2 := f 0 2 + (gval a0 + gval b0)))) (3 * max_product + 2 * 8589934592)"
    using raw_sum(2) [OF can(1,2)] by (simp add: fun_upd_upd)
  from chans_ok_bump [OF this, of 2 0 "u64_from a0 + u64_from a1" 8589934592]
    limb_sums(2) [OF can(1,3,2,4)]
  have "chans_ok (bump 2 0 (u64_from a0 + u64_from a1) (bump 0 2 (u64_from a0 + u64_from b0) (bump 0 0 (u64_from a0) S)))
      (f(0 := (f 0)(0 := f 0 0 + gval a0, 2 := f 0 2 + (gval a0 + gval b0)),
         2 := (f 2)(0 := f 2 0 + (gval a0 + gval a1)))) (3 * max_product + 3 * 8589934592)"
    using raw_sum(2) [OF can(1,3)] by simp
  from chans_ok_bump [OF this, of 2 2 "u64_from a0 + u64_from a1 + u64_from b0 + u64_from b1" 8589934592]
    limb_sums(3,4) [OF can(1,3,2,4)]
  have "chans_ok (add_constant_channels c S) ?g (3 * max_product + 4 * 8589934592)"
    by (simp add: add_constant_channels_def Let_def fun_upd_upd fun_upd_twist flip: defs)
  moreover have "qval c = Qgf (Cgf (gval a0) (gval b0)) (Cgf (gval a1) (gval b1))"
    by (simp add: defs qval_def cval_def)
  then have "kqm ?g = kqm f + qval c"
    by (simp add: kqm_def kcm_def qgf_eq_iff cgf_eq_iff algebra_simps)
  ultimately show ?thesis by blast
qed

lemma qm31_add_sum_products3_prepared_val:
  assumes "length xs = 3" "length ys = 3" "list_all qcanon xs" "list_all qcanon ys" "qcanon c"
  shows "qcanon (qm31_add_sum_products3_prepared c (map prepared_new xs) ys)
    \<and> qval (qm31_add_sum_products3_prepared c (map prepared_new xs) ys)
      = qval c + (\<Sum>k<3. qval (xs ! k) * qval (ys ! k))"
proof -
  have xs: "k < 3 \<Longrightarrow> qcanon (xs ! k) \<and> qcanon (ys ! k)" for k
    using assms by (simp add: list_all_length)
  from add_constant_channels_ok [OF chans_ok_fold [where n = 3 and x = "(!) xs" and y = "(!) ys"] assms(5)]
  obtain g b where
    ok: "chans_ok (add_constant_channels c (qm31_sum_products_prepared 3 (map prepared_new xs) ys)) g b"
    and g: "kqm g = (\<Sum>k<3. qval (xs ! k) * qval (ys ! k)) + qval c"
    using assms(1) xs by (auto simp: qm31_sum_products_prepared_eq kqm_sum components_product)
  show ?thesis
    using from_channels_val [OF ok] g by (simp add: qm31_add_sum_products3_prepared_def add.commute)
qed

section \<open>Lazy accumulation\<close>

text \<open>
  Every loop below updates a fixed row of accumulators entry by entry, so the whole loop is
  one scalar loop per entry.
\<close>

lemma fold_pointwise:
  "fold (\<lambda>x acc. map (\<lambda>c. f x c (acc ! c)) [0..<n]) xs (map g [0..<n])
    = map (\<lambda>c. fold (\<lambda>x. f x c) xs (g c)) [0..<n]"
proof (induction xs arbitrary: g)
  case (Cons x xs)
  have step: "map (\<lambda>c. f x c (map g [0..<n] ! c)) [0..<n] = map (\<lambda>c. f x c (g c)) [0..<n]"
    by (rule map_cong) auto
  show ?case using Cons [of "\<lambda>c. f x c (g c)"] by (simp only: fold.simps o_apply step)
qed simp

lemma fold_pointwise2:
  "fold (\<lambda>x acc. map (\<lambda>i. map (\<lambda>j. f x i j (acc ! i ! j)) [0..<m]) [0..<n]) xs
      (map (\<lambda>i. map (g i) [0..<m]) [0..<n])
    = map (\<lambda>i. map (\<lambda>j. fold (\<lambda>x. f x i j) xs (g i j)) [0..<m]) [0..<n]"
proof -
  have row: "fold (\<lambda>x row. map (\<lambda>j. f x i j (row ! j)) [0..<m]) xs (map (g i) [0..<m])
      = map (\<lambda>j. fold (\<lambda>x. f x i j) xs (g i j)) [0..<m]" for i
    by (rule fold_pointwise)
  show ?thesis
    unfolding fold_pointwise [where f = "\<lambda>x i row. map (\<lambda>j. f x i j (row ! j)) [0..<m]"] row ..
qed

lemma replicate_map: "replicate n v = map (\<lambda>c. v) [0..<n]"
  by (simp add: map_replicate_const)

definition word_sum :: "(nat \<Rightarrow> u64) \<Rightarrow> nat list \<Rightarrow> u64" where
  "word_sum t is = fold (\<lambda>i r. r + t i) is 0"

lemma word_sum_val:
  assumes "\<And>i. i \<in> set is \<Longrightarrow> unat (t i) \<le> B" and "length is * B < 2 ^ 64"
  shows "unat (word_sum t is) \<le> length is * B \<and> wval (word_sum t is) = (\<Sum>i\<leftarrow>is. wval (t i))"
  using assms
proof (induction "is" rule: rev_induct)
  case (snoc i "is")
  then have IH: "unat (word_sum t is) \<le> length is * B" "wval (word_sum t is) = (\<Sum>i\<leftarrow>is. wval (t i))"
    and i: "unat (t i) \<le> B" by simp_all
  have "unat (word_sum t is) + unat (t i) < 2 ^ 64" using IH i snoc.prems(2) by simp
  from unat_add_small [OF this] wval_add_small [OF this] IH i show ?case
    by (simp add: word_sum_def)
qed (simp add: word_sum_def)

lemma product_word_sum_val:
  assumes "\<And>i. i \<in> set is \<Longrightarrow> canon (x i) \<and> canon (y i)" and "length is \<le> 4"
  shows "wval (word_sum (\<lambda>i. u64_from (x i) * u64_from (y i)) is) = (\<Sum>i\<leftarrow>is. gval (x i) * gval (y i))"
proof -
  have "length is * max_product < 2 ^ 64" using assms(2) by simp
  then have "wval (word_sum (\<lambda>i. u64_from (x i) * u64_from (y i)) is) = (\<Sum>i\<leftarrow>is. wval (u64_from (x i) * u64_from (y i)))"
    using word_sum_val [of "is" "\<lambda>i. u64_from (x i) * u64_from (y i)" max_product] assms(1) raw_product_le by blast
  also have "\<dots> = (\<Sum>i\<leftarrow>is. gval (x i) * gval (y i))"
    using assms(1) by (intro arg_cong [of _ _ sum_list] map_cong) auto
  finally show ?thesis .
qed


lemma grouped_channel:
  assumes "i < 3" "j < 3"
  shows "qm31_dot_prepared_groups n width weights values ! i ! j =
    fold (\<lambda>index g. g[index div width := g ! (index div width)
        + u64_from (components (weights ! index) ! i ! j) * u64_from (karatsuba_components (values ! index) ! i ! j)])
      [0..<n] [0, 0]"
proof -
  have two: "replicate 2 (0 :: u64) = [0, 0]" by (simp add: numeral_2_eq_2)
  show ?thesis
    using assms fold_pointwise2 [where f = "\<lambda>index i j g. g[index div width := g ! (index div width)
        + u64_from (components (weights ! index) ! i ! j) * u64_from (karatsuba_components (values ! index) ! i ! j)]"
        and g = "\<lambda>i j. [0, 0]" and n = 3 and m = 3 and xs = "[0..<n]"]
    unfolding qm31_dot_prepared_groups_def Let_def two
    by (simp only: replicate_map) (simp del: upt_Suc)
qed

lemma from_grouped_sums_val:
  assumes "\<And>i j. i < 3 \<Longrightarrow> j < 3 \<Longrightarrow> wval (S ! i ! j ! 0) + wval (S ! i ! j ! 1) = f i j"
  shows "qcanon (qm31_from_grouped_sums S)" and "qval (qm31_from_grouped_sums S) = kqm f"
  using assms by (simp_all add: qm31_from_grouped_sums_def Let_def kqm_def kcm_def flip: One_nat_def)

lemma grouped_dot_val:
  assumes "n \<le> 8" "length xs = n" "length ys = n" "list_all qcanon xs" "list_all qcanon ys"
    and "\<And>i j. i < 3 \<Longrightarrow> j < 3 \<Longrightarrow> qm31_dot_prepared_groups n w (map prepared_new xs) ys ! i ! j =
      [word_sum (\<lambda>k. u64_from (karatsuba_components (xs ! k) ! i ! j) * u64_from (karatsuba_components (ys ! k) ! i ! j)) [0..<w],
       word_sum (\<lambda>k. u64_from (karatsuba_components (xs ! k) ! i ! j) * u64_from (karatsuba_components (ys ! k) ! i ! j)) [w..<n]]"
    and "w \<le> 4" "w \<le> n" "n \<le> w + 4"
  shows "qcanon (qm31_from_grouped_sums (qm31_dot_prepared_groups n w (map prepared_new xs) ys))
    \<and> qval (qm31_from_grouped_sums (qm31_dot_prepared_groups n w (map prepared_new xs) ys))
      = (\<Sum>k<n. qval (xs ! k) * qval (ys ! k))"
proof -
  let ?p = "\<lambda>i j k. gval (karatsuba_components (xs ! k) ! i ! j) * gval (karatsuba_components (ys ! k) ! i ! j)"
  have can: "k < n \<Longrightarrow> qcanon (xs ! k) \<and> qcanon (ys ! k)" for k
    using assms by (simp add: list_all_length)
  have sums: "wval (qm31_dot_prepared_groups n w (map prepared_new xs) ys ! i ! j ! 0)
      + wval (qm31_dot_prepared_groups n w (map prepared_new xs) ys ! i ! j ! 1) = (\<Sum>k<n. ?p i j k)"
    if ij: "i < 3" "j < 3" for i j
  proof -
    have c: "k < n \<Longrightarrow> canon (karatsuba_components (xs ! k) ! i ! j) \<and> canon (karatsuba_components (ys ! k) ! i ! j)" for k
      using can ij by (simp add: components_canon)
    have "wval (qm31_dot_prepared_groups n w (map prepared_new xs) ys ! i ! j ! 0)
      + wval (qm31_dot_prepared_groups n w (map prepared_new xs) ys ! i ! j ! 1)
      = (\<Sum>k\<leftarrow>[0..<w]. ?p i j k) + (\<Sum>k\<leftarrow>[w..<n]. ?p i j k)"
      unfolding assms(6) [OF ij] nth_Cons_0 One_nat_def nth_Cons_Suc using assms(7-9) c
      by (intro arg_cong2 [of _ _ _ _ "(+)"] product_word_sum_val) auto
    also have "\<dots> = (\<Sum>k\<leftarrow>[0..<w] @ [w..<n]. ?p i j k)" by (simp del: upt_Suc)
    also have "[0..<w] @ [w..<n] = [0..<n]" using assms(8) by (metis le0 le_add_diff_inverse upt_add_eq_append)
    finally show ?thesis by (simp add: interv_sum_list_conv_sum_set_nat atLeast0LessThan)
  qed
  from from_grouped_sums_val [OF this] can show ?thesis by (simp add: kqm_sum components_product)
qed

lemma small_ranges:
  "[0..<3] = [0, 1, 2]" "[3..<6] = [3, 4, 5]" "[0..<6] = [0, 1, 2, 3, 4, 5]"
  "[0..<4] = [0, 1, 2, 3]" "[4..<7] = [4, 5, 6]" "[0..<7] = [0, 1, 2, 3, 4, 5, 6]"
  by (simp_all add: upt_rec)

lemma qm31_dot6_prepared_val:
  assumes "length xs = 6" "length ys = 6" "list_all qcanon xs" "list_all qcanon ys"
  shows "qcanon (qm31_dot6_prepared (map prepared_new xs) ys)
    \<and> qval (qm31_dot6_prepared (map prepared_new xs) ys) = (\<Sum>k<6. qval (xs ! k) * qval (ys ! k))"
  unfolding qm31_dot6_prepared_def
proof (rule grouped_dot_val)
  fix i j :: nat assume "i < 3" "j < 3"
  with assms show "qm31_dot_prepared_groups 6 3 (map prepared_new xs) ys ! i ! j =
      [word_sum (\<lambda>k. u64_from (karatsuba_components (xs ! k) ! i ! j) * u64_from (karatsuba_components (ys ! k) ! i ! j)) [0..<3],
       word_sum (\<lambda>k. u64_from (karatsuba_components (xs ! k) ! i ! j) * u64_from (karatsuba_components (ys ! k) ! i ! j)) [3..<6]]"
    by (simp add: grouped_channel word_sum_def small_ranges)
qed (use assms in simp_all)

lemma qm31_dot7_prepared_val:
  assumes "length xs = 7" "length ys = 7" "list_all qcanon xs" "list_all qcanon ys"
  shows "qcanon (qm31_dot7_prepared (map prepared_new xs) ys)
    \<and> qval (qm31_dot7_prepared (map prepared_new xs) ys) = (\<Sum>k<7. qval (xs ! k) * qval (ys ! k))"
  unfolding qm31_dot7_prepared_def
proof (rule grouped_dot_val)
  fix i j :: nat assume "i < 3" "j < 3"
  with assms show "qm31_dot_prepared_groups 7 4 (map prepared_new xs) ys ! i ! j =
      [word_sum (\<lambda>k. u64_from (karatsuba_components (xs ! k) ! i ! j) * u64_from (karatsuba_components (ys ! k) ! i ! j)) [0..<4],
       word_sum (\<lambda>k. u64_from (karatsuba_components (xs ! k) ! i ! j) * u64_from (karatsuba_components (ys ! k) ! i ! j)) [4..<7]]"
    by (simp add: grouped_channel word_sum_def small_ranges)
qed (use assms in simp_all)


lemma qm31_m31_sum_products3_val:
  assumes "length xs = 3" "length ys = 3" "list_all qcanon xs" "list_all canon ys"
  shows "qcanon (qm31_m31_sum_products3 xs ys)
    \<and> qval (qm31_m31_sum_products3 xs ys) = (\<Sum>k<3. qval (xs ! k) * q_of_g (gval (ys ! k)))"
proof -
  have dot: "wval (u64_from a * u64_from (ys ! 0) + u64_from b * u64_from (ys ! 1) + u64_from c * u64_from (ys ! 2))
      = gval a * gval (ys ! 0) + gval b * gval (ys ! 1) + gval c * gval (ys ! 2)"
    if "canon a" "canon b" "canon c" for a b c
  proof -
    have "i \<in> set [0..<3] \<Longrightarrow> canon ([a, b, c] ! i) \<and> canon (ys ! i)" for i
      using that assms by (auto simp: list_all_length nth_Cons split: nat.split)
    from product_word_sum_val [of "[0..<3]" "(!) [a, b, c]" "(!) ys", OF this] show ?thesis by (simp add: word_sum_def small_ranges add.assoc)
  qed
  have "qcanon (xs ! k)" "canon (ys ! k)" if "k < 3" for k using assms that by (simp_all add: list_all_length)
  note can = this [of 0] this [of 1] this [of 2]
  have "{..<3} = {0, 1, 2 :: nat}" by auto
  with can show ?thesis
    by (simp add: qm31_m31_sum_products3_def Let_def dot [unfolded One_nat_def] qgf_eq_iff cgf_eq_iff q_of_g_def)
qed

section \<open>Polynomial evaluation\<close>

fun horner :: "'a::comm_ring_1 list \<Rightarrow> 'a \<Rightarrow> 'a" where
  "horner [] x = 0"
| "horner (c # cs) x = c + x * horner cs x"

lemma horner_append: "horner (cs @ ds) x = horner cs x + x ^ length cs * horner ds x"
  by (induction cs) (simp_all add: algebra_simps)

lemma fold_horner:
  assumes "list_all qcanon cs" "qcanon x" "qcanon acc"
  shows "qcanon (fold (\<lambda>c acc. qm31_add (prepared_mul (prepared_new x) acc) c) (rev cs) acc)
    \<and> qval (fold (\<lambda>c acc. qm31_add (prepared_mul (prepared_new x) acc) c) (rev cs) acc)
      = horner (map qval (cs @ [acc])) (qval x)"
  using assms
proof (induction cs)
  case (Cons c cs)
  then show ?case by (simp add: add.commute)
qed simp

lemma qm31_evaluate_degree72_horner_val:
  assumes "length cs = 73" "list_all qcanon cs" "qcanon x"
  shows "qcanon (qm31_evaluate_degree72_horner cs x)
    \<and> qval (qm31_evaluate_degree72_horner cs x) = horner (map qval cs) (qval x)"
proof -
  have "cs = take 72 cs @ [cs ! 72]"
    using assms(1) take_Suc_conv_app_nth [of 72 cs] by simp
  moreover have "list_all qcanon (take 72 cs)" "qcanon (cs ! 72)"
    using assms by (auto simp: list_all_length)
  ultimately show ?thesis
    using fold_horner [of "take 72 cs" x "cs ! 72"] assms(3)
    by (simp add: qm31_evaluate_degree72_horner_def)
qed


definition radix8_step :: "qm31 list \<Rightarrow> qm31 \<Rightarrow> nat \<Rightarrow> qm31 \<Rightarrow> qm31" where
  "radix8_step cs x block acc =
     qm31_add (prepared_mul (prepared_new (qm31_square (qm31_square (qm31_square x)))) acc)
       (qm31_add (cs ! (8 * block)) (qm31_dot7_prepared
          (map prepared_new [x, qm31_square x, prepared_mul (prepared_new x) (qm31_square x),
             qm31_square (qm31_square x), prepared_mul (prepared_new x) (qm31_square (qm31_square x)),
             qm31_square (prepared_mul (prepared_new x) (qm31_square x)),
             prepared_mul (prepared_new x) (qm31_square (prepared_mul (prepared_new x) (qm31_square x)))])
          (map (\<lambda>offset. cs ! (8 * block + 1 + offset)) [0..<7])))"

lemma radix8_unfold:
  "qm31_evaluate_degree72_radix8 cs x = fold (radix8_step cs x) (rev [0..<9]) (cs ! 72)"
  unfolding qm31_evaluate_degree72_radix8_def Let_def radix8_step_def ..

lemma take_8_drop:
  assumes "n + 8 \<le> length xs"
  shows "take 8 (drop n xs) = xs ! n # map (\<lambda>k. xs ! (n + 1 + k)) [0..<7]"
proof (rule nth_equalityI)
  fix i assume "i < length (take 8 (drop n xs))"
  then have "i < 8" using assms by simp
  with assms show "take 8 (drop n xs) ! i = (xs ! n # map (\<lambda>k. xs ! (n + 1 + k)) [0..<7]) ! i"
    by (cases i) (simp_all del: upt_Suc)
qed (use assms in simp)

lemma lessThan_7: "{..<7} = {0, 1, 2, 3, 4, 5, 6 :: nat}"
  by auto

lemma radix8_step_val:
  assumes "8 * block + 8 \<le> length cs" "list_all qcanon cs" "qcanon x" "qcanon acc"
  shows "qcanon (radix8_step cs x block acc) \<and> qval (radix8_step cs x block acc)
    = horner (map qval (take 8 (drop (8 * block) cs))) (qval x) + qval x ^ 8 * qval acc"
proof -
  define ps where "ps = [x, qm31_square x, prepared_mul (prepared_new x) (qm31_square x),
     qm31_square (qm31_square x), prepared_mul (prepared_new x) (qm31_square (qm31_square x)),
     qm31_square (prepared_mul (prepared_new x) (qm31_square x)),
     prepared_mul (prepared_new x) (qm31_square (prepared_mul (prepared_new x) (qm31_square x)))]"
  define vs where "vs = map (\<lambda>offset. cs ! (8 * block + 1 + offset)) [0..<7]"
  have ps: "length ps = 7" "list_all qcanon ps" using assms(3) by (simp_all add: ps_def)
  have nth: "qcanon (cs ! k)" if "k < length cs" for k using assms(2) that by (simp add: list_all_length)
  have vs: "length vs = 7" "list_all qcanon vs"
    using assms(1) nth by (auto simp: vs_def list_all_length)
  have can: "qcanon (cs ! (8 * block))" using nth assms(1) by simp
  have "qval (qm31_dot7_prepared (map prepared_new ps) vs) = (\<Sum>k<7. qval (ps ! k) * qval (vs ! k))"
    and dot: "qcanon (qm31_dot7_prepared (map prepared_new ps) vs)"
    using qm31_dot7_prepared_val [OF ps(1) vs(1) ps(2) vs(2)] by simp_all
  then have val: "qval (radix8_step cs x block acc) = qval x ^ 8 * qval acc +
      (qval (cs ! (8 * block)) + (\<Sum>k<7. qval (ps ! k) * qval (vs ! k)))"
    unfolding radix8_step_def ps_def [symmetric] vs_def [symmetric]
    using assms(3,4) can by (simp add: numeral_eq_Suc mult.assoc)
  have "qcanon (radix8_step cs x block acc)"
    unfolding radix8_step_def ps_def [symmetric] vs_def [symmetric]
    using assms(3,4) can dot by simp
  moreover have "take 8 (drop (8 * block) cs) = cs ! (8 * block) # vs"
    using take_8_drop [OF assms(1)] by (simp add: vs_def del: upt_Suc)
  ultimately show ?thesis
    unfolding val lessThan_7 using assms(3)
    by (simp add: ps_def vs_def small_ranges algebra_simps)
qed

lemma radix8_loop_val:
  assumes "length cs = 73" "list_all qcanon cs" "qcanon x" "m \<le> 9"
  shows "qcanon (fold (radix8_step cs x) (rev [m..<9]) (cs ! 72))
    \<and> qval (fold (radix8_step cs x) (rev [m..<9]) (cs ! 72)) = horner (map qval (drop (8 * m) cs)) (qval x)"
  using assms(4)
proof (induction rule: inc_induct)
  case base
  have "drop 72 cs = [cs ! 72]" using assms(1) Cons_nth_drop_Suc [of 72 cs] by simp
  then show ?case using assms by (simp add: list_all_length)
next
  case (step m)
  let ?acc = "fold (radix8_step cs x) (rev [Suc m..<9]) (cs ! 72)"
  have "fold (radix8_step cs x) (rev [m..<9]) (cs ! 72) = radix8_step cs x m ?acc"
    using step.hyps by (simp add: upt_conv_Cons)
  moreover have "drop (8 * m) cs = take 8 (drop (8 * m) cs) @ drop (8 * Suc m) cs"
    by (simp add: add.commute flip: drop_drop)
  then have parts: "map qval (drop (8 * m) cs) = map qval (take 8 (drop (8 * m) cs)) @ map qval (drop (8 * Suc m) cs)"
    by (metis map_append)
  have "horner (map qval (drop (8 * m) cs)) (qval x) =
      horner (map qval (take 8 (drop (8 * m) cs))) (qval x) + qval x ^ 8 * horner (map qval (drop (8 * Suc m) cs)) (qval x)"
    unfolding parts horner_append using assms(1) step.hyps by simp
  ultimately show ?case
    using radix8_step_val [of m cs x ?acc] step assms by simp
qed

lemma radix8_is_horner:
  assumes "length cs = 73" "list_all qcanon cs" "qcanon x"
  shows "qm31_evaluate_degree72_radix8 cs x = qm31_evaluate_degree72_horner cs x"
proof -
  note h = qm31_evaluate_degree72_horner_val [OF assms]
  note r = radix8_loop_val [OF assms, of 0]
  from h r show ?thesis
    by (subst qval_inject [symmetric]) (simp_all add: radix8_unfold)
qed


section \<open>Packing, power tables, folding\<close>

lemma power_table_loop:
  assumes "k \<le> n" "qcanon g"
  defines "r \<equiv> fold (\<lambda>index (table, power). (table[index := power],
       if index + 1 \<noteq> n then prepared_mul (prepared_new g) power else power))
     [0..<k] (replicate n QM31_ZERO, QM31_ONE)"
  shows "length (fst r) = n \<and> (\<forall>i<k. qcanon (fst r ! i) \<and> qval (fst r ! i) = qval g ^ i)
    \<and> qcanon (snd r) \<and> (k < n \<longrightarrow> qval (snd r) = qval g ^ k)"
  unfolding r_def using assms(1)
proof (induction k)
  case (Suc k)
  then show ?case
    using assms(2) by (auto simp: case_prod_unfold nth_list_update less_Suc_eq)
qed simp

lemma qm31_power_table_val:
  assumes "qcanon g" "i < n"
  shows "qcanon (qm31_power_table n g ! i)" and "qval (qm31_power_table n g ! i) = qval g ^ i"
  using power_table_loop [of n n g] assms by (simp_all add: qm31_power_table_def Let_def)

lemma length_qm31_power_table: "qcanon g \<Longrightarrow> length (qm31_power_table n g) = n"
  using power_table_loop [of n n g] by (simp add: qm31_power_table_def Let_def)

definition qgf_i :: qgf where "qgf_i = Qgf (Cgf 0 1) 0"
definition qgf_u :: qgf where "qgf_u = Qgf 0 1"

lemma P_minus:
  assumes "canon x"
  shows "unat (ucast M31_P - u64_from x :: u64) = 2147483647 - unat (limb x)"
    and "unat (2 * ucast M31_P - 2 * u64_from x :: u64) = 2 * (2147483647 - unat (limb x))"
    and "unat (2 * u64_from x) = 2 * unat (limb x)"
proof -
  have P: "unat (ucast M31_P :: u64) = 2147483647" "unat (2 * ucast M31_P :: u64) = 4294967294"
    by (simp_all add: M31_P_def)
  show double: "unat (2 * u64_from x) = 2 * unat (limb x)"
    using assms by (simp add: unat_word_ariths canon_unat)
  show "unat (ucast M31_P - u64_from x :: u64) = 2147483647 - unat (limb x)"
    using assms P by (subst unat_sub) (simp_all add: word_le_nat_alt canon_unat)
  show "unat (2 * ucast M31_P - 2 * u64_from x :: u64) = 2 * (2147483647 - unat (limb x))"
    using assms P double by (subst unat_sub) (simp_all add: word_le_nat_alt canon_unat)
qed

lemma P_minus_val:
  assumes "canon x"
  shows "(of_nat (2147483647 - unat (limb x)) :: gf) = - gval x"
  using assms by (simp add: of_nat_diff canon_unat gval_def wval_def)

text \<open>The sum of a list of small words, as the accumulators of the packing map form it.\<close>

fun chain :: "u64 \<Rightarrow> u64 list \<Rightarrow> u64" where
  "chain a [] = a"
| "chain a (w # ws) = chain (a + w) ws"

lemma chain_val:
  assumes "unat a \<le> b" "\<And>w. w \<in> set ws \<Longrightarrow> unat w \<le> 4294967294" "b + length ws * 4294967294 < 2 ^ 64"
  shows "wval (chain a ws) = wval a + (\<Sum>w\<leftarrow>ws. wval w)"
  using assms
proof (induction ws arbitrary: a b)
  case (Cons w ws)
  then have "unat a + unat w < 2 ^ 64" "unat w \<le> 4294967294" by force+
  then have "unat (a + w) \<le> b + 4294967294" "wval (a + w) = wval a + wval w"
    using Cons.prems(1) by (simp_all add: unat_add_small wval_add_small)
  with Cons.IH [of "a + w" "b + 4294967294"] Cons.prems show ?case by (simp add: add.assoc)
qed simp


lemma packing_terms:
  assumes "canon x"
  shows "unat (u64_from x) \<le> 4294967294" "wval (u64_from x) = gval x"
    and "unat (2 * u64_from x) \<le> 4294967294" "wval (2 * u64_from x) = 2 * gval x"
    and "unat (ucast M31_P - u64_from x :: u64) \<le> 4294967294" "wval (ucast M31_P - u64_from x :: u64) = - gval x"
    and "unat (2 * ucast M31_P - 2 * u64_from x :: u64) \<le> 4294967294"
        "wval (2 * ucast M31_P - 2 * u64_from x :: u64) = - (2 * gval x)"
proof -
  note P = P_minus [OF assms] P_minus_val [OF assms]
  show "unat (u64_from x) \<le> 4294967294" "unat (2 * u64_from x) \<le> 4294967294"
    "unat (ucast M31_P - u64_from x :: u64) \<le> 4294967294"
    "unat (2 * ucast M31_P - 2 * u64_from x :: u64) \<le> 4294967294" "wval (u64_from x) = gval x"
    using assms P(1-3) by (simp_all add: canon_unat)
  show "wval (2 * u64_from x) = 2 * gval x" "wval (ucast M31_P - u64_from x :: u64) = - gval x"
    "wval (2 * ucast M31_P - 2 * u64_from x :: u64) = - (2 * gval x)"
    unfolding wval_def P(1-3) of_nat_mult of_nat_numeral P(4) gval_def by (simp_all add: wval_def)
qed

lemma small_word_sums:
  assumes "unat a \<le> 4294967294" "unat b \<le> 4294967294" "unat c \<le> 4294967294" "unat d \<le> 4294967294"
  shows "unat e \<le> 4294967294 \<Longrightarrow> unat f \<le> 4294967294 \<Longrightarrow>
      wval (a + b + c + d + e + f :: u64) = wval a + wval b + wval c + wval d + wval e + wval f"
    and "wval (a + b + c + d :: u64) = wval a + wval b + wval c + wval d"
  using chain_val [of a 4294967294 "[b, c, d, e, f]"] chain_val [of a 4294967294 "[b, c, d]"] assms
  by (auto simp: add.assoc)

lemma packing_sums:
  assumes "canon a" "canon b" "canon c" "canon d" "canon e" "canon f"
  shows "wval (u64_from a + (ucast M31_P - u64_from b) + 2 * u64_from c + (ucast M31_P - u64_from d)
      + (ucast M31_P - u64_from e) + (2 * ucast M31_P - 2 * u64_from f))
      = gval a - gval b + 2 * gval c - gval d - gval e - 2 * gval f" (is ?c0a)
    and "wval (u64_from a + u64_from b + u64_from c + 2 * u64_from d + 2 * u64_from e
      + (ucast M31_P - u64_from f)) = gval a + gval b + gval c + 2 * gval d + 2 * gval e - gval f" (is ?c0b)
    and "wval (u64_from a + (ucast M31_P - u64_from b) + u64_from c + (ucast M31_P - u64_from d))
      = gval a - gval b + gval c - gval d" (is ?c1a)
    and "wval (u64_from a + u64_from b + u64_from c + u64_from d) = gval a + gval b + gval c + gval d" (is ?c1b)
proof -
  note t = packing_terms [OF assms(1)] packing_terms [OF assms(2)] packing_terms [OF assms(3)]
    packing_terms [OF assms(4)] packing_terms [OF assms(5)] packing_terms [OF assms(6)]
  show ?c0a
    unfolding small_word_sums(1) [OF t(1) t(13) t(19) t(29) t(37) t(47)] t(2) t(14) t(20) t(30) t(38) t(48)
    by simp
  show ?c0b
    unfolding small_word_sums(1) [OF t(1) t(9) t(17) t(27) t(35) t(45)] t(2) t(10) t(18) t(28) t(36) t(46)
    by simp
  show ?c1a
    unfolding small_word_sums(2) [OF t(1) t(13) t(17) t(29)] t(2) t(14) t(18) t(30)
    by simp
  show ?c1b by (rule limb_sums(4) [OF assms(1-4)])
qed

lemma qm31_pack_base4_val:
  assumes "length vs \<le> 4" "list_all qcanon vs"
  shows "\<exists>z. qm31_pack_base4 vs = Some z \<and> qcanon z
    \<and> qval z = (\<Sum>k<length vs. [1, qgf_i, qgf_u, qgf_i * qgf_u] ! k * qval (vs ! k))"
proof -
  define p where "p = put 0 vs (replicate 4 QM31_ZERO)"
  have nth: "p ! k = (if k < length vs then vs ! k else QM31_ZERO)" if "k < 4" for k
    using that assms(1) by (simp add: p_def nth_put)
  have can: "qcanon (p ! k)" if "k < 4" for k
    using nth [OF that] assms(2) by (simp add: list_all_length)
  define p' :: u64 where "p' = ucast M31_P"
  define A where "A = u64_from (cm_a (qm_c0 (p ! 0))) + (p' - u64_from (cm_b (qm_c0 (p ! 1))))
     + 2 * u64_from (cm_a (qm_c1 (p ! 2))) + (p' - u64_from (cm_b (qm_c1 (p ! 2))))
     + (p' - u64_from (cm_a (qm_c1 (p ! 3)))) + (2 * p' - 2 * u64_from (cm_b (qm_c1 (p ! 3))))"
  define B where "B = u64_from (cm_b (qm_c0 (p ! 0))) + u64_from (cm_a (qm_c0 (p ! 1)))
     + u64_from (cm_a (qm_c1 (p ! 2))) + 2 * u64_from (cm_b (qm_c1 (p ! 2)))
     + 2 * u64_from (cm_a (qm_c1 (p ! 3))) + (p' - u64_from (cm_b (qm_c1 (p ! 3))))"
  define C where "C = u64_from (cm_a (qm_c1 (p ! 0))) + (p' - u64_from (cm_b (qm_c1 (p ! 1))))
     + u64_from (cm_a (qm_c0 (p ! 2))) + (p' - u64_from (cm_b (qm_c0 (p ! 3))))"
  define D where "D = u64_from (cm_b (qm_c1 (p ! 0))) + u64_from (cm_a (qm_c1 (p ! 1)))
     + u64_from (cm_b (qm_c0 (p ! 2))) + u64_from (cm_a (qm_c0 (p ! 3)))"
  define z where "z = QM31 (CM31 (m31_reduce_u64 A) (m31_reduce_u64 B)) (CM31 (m31_reduce_u64 C) (m31_reduce_u64 D))"
  have pack: "qm31_pack_base4 vs = Some z"
    unfolding qm31_pack_base4_def Let_def z_def A_def B_def C_def D_def p_def p'_def cm31_new_def
    using assms(1) by (simp only: not_less [symmetric] if_False)
  have c: "canon (cm_a (qm_c0 (p ! k)))" "canon (cm_b (qm_c0 (p ! k)))" "canon (cm_a (qm_c1 (p ! k)))"
    "canon (cm_b (qm_c1 (p ! k)))" if "k < 4" for k
    using can [OF that] by simp_all
  have sums: "wval A = gval (cm_a (qm_c0 (p ! 0))) - gval (cm_b (qm_c0 (p ! 1))) + 2 * gval (cm_a (qm_c1 (p ! 2)))
      - gval (cm_b (qm_c1 (p ! 2))) - gval (cm_a (qm_c1 (p ! 3))) - 2 * gval (cm_b (qm_c1 (p ! 3)))"
    "wval B = gval (cm_b (qm_c0 (p ! 0))) + gval (cm_a (qm_c0 (p ! 1))) + gval (cm_a (qm_c1 (p ! 2)))
      + 2 * gval (cm_b (qm_c1 (p ! 2))) + 2 * gval (cm_a (qm_c1 (p ! 3))) - gval (cm_b (qm_c1 (p ! 3)))"
    "wval C = gval (cm_a (qm_c1 (p ! 0))) - gval (cm_b (qm_c1 (p ! 1))) + gval (cm_a (qm_c0 (p ! 2))) - gval (cm_b (qm_c0 (p ! 3)))"
    "wval D = gval (cm_b (qm_c1 (p ! 0))) + gval (cm_a (qm_c1 (p ! 1))) + gval (cm_b (qm_c0 (p ! 2))) + gval (cm_a (qm_c0 (p ! 3)))"
    unfolding A_def B_def C_def D_def p'_def
    subgoal by (rule packing_sums(1)) (simp_all add: c)
    subgoal by (rule packing_sums(2)) (simp_all add: c)
    subgoal by (rule packing_sums(3) [of _ _ _ _ M31_ZERO M31_ZERO]) (simp_all add: c)
    subgoal by (rule packing_sums(4) [of _ _ _ _ M31_ZERO M31_ZERO]) (simp_all add: c)
    done
  have "qcanon z \<and> qval z = qval (p ! 0) + qgf_i * qval (p ! 1) + qgf_u * qval (p ! 2) + qgf_i * qgf_u * qval (p ! 3)"
    by (simp add: z_def qgf_eq_iff cgf_eq_iff qgf_i_def qgf_u_def sums algebra_simps)
  moreover have "qval (p ! 0) + qgf_i * qval (p ! 1) + qgf_u * qval (p ! 2) + qgf_i * qgf_u * qval (p ! 3)
      = (\<Sum>k<4. [1, qgf_i, qgf_u, qgf_i * qgf_u] ! k * qval (p ! k))"
    by (simp add: numeral_eq_Suc)
  moreover have "\<dots> = (\<Sum>k<length vs. [1, qgf_i, qgf_u, qgf_i * qgf_u] ! k * qval (vs ! k))"
    using assms(1) by (intro sum.mono_neutral_cong_right) (auto simp: nth)
  ultimately show ?thesis using pack by metis
qed


lemma q_of_g_hom [simp]:
  "q_of_g (a + b) = q_of_g a + q_of_g b" "q_of_g (a - b) = q_of_g a - q_of_g b"
  "q_of_g (a * b) = q_of_g a * q_of_g b" "q_of_g (- a) = - q_of_g a"
  "q_of_g 0 = 0" "q_of_g 1 = 1" "q_of_g 2 = 2"
  by (simp_all add: q_of_g_def qgf_eq_iff cgf_eq_iff)

lemma half_of_double: "z + z = w \<Longrightarrow> w / 2 = (z :: qgf)"
  by (metis mult_2 nonzero_mult_div_cancel_left two_nonzero(2))

lemma qm31_circle_to_line_fold4_canon:
  assumes "length vs = 4" "list_all qcanon vs" "qcanon alpha" "canon inv_2x" "canon inv_2y"
  shows "qcanon (qm31_circle_to_line_fold4 vs alpha inv_2x inv_2y)"
  using assms by (simp add: qm31_circle_to_line_fold4_def Let_def list_all_length)

lemma qm31_circle_to_line_fold4_val:
  fixes c0 c1 c2 c3 :: qgf and x y :: gf
  assumes "length vs = 4" "list_all qcanon vs" "qcanon alpha" "canon inv_2x" "canon inv_2y"
    and inv: "gval inv_2x * (2 * x) = 1" "gval inv_2y * (2 * y) = 1"
    and v: "qval (vs ! 0) = c0 + q_of_g y * c1 + q_of_g x * c2 + q_of_g (x * y) * c3"
      "qval (vs ! 1) = c0 - q_of_g y * c1 + q_of_g x * c2 - q_of_g (x * y) * c3"
      "qval (vs ! 2) = c0 - q_of_g y * c1 - q_of_g x * c2 + q_of_g (x * y) * c3"
      "qval (vs ! 3) = c0 + q_of_g y * c1 - q_of_g x * c2 - q_of_g (x * y) * c3"
  shows "qval (qm31_circle_to_line_fold4 vs alpha inv_2x inv_2y)
    = c0 + qval alpha * c1 + qval alpha ^ 2 * c2 + qval alpha ^ 3 * c3"
proof -
  let ?x = "q_of_g x" and ?y = "q_of_g y" and ?ix = "q_of_g (gval inv_2x)" and ?iy = "q_of_g (gval inv_2y)"
  let ?a = "qval alpha"
  note v' = v [unfolded One_nat_def]
  have can: "qcanon (vs ! 0)" "qcanon (vs ! 1)" "qcanon (vs ! 2)" "qcanon (vs ! 3)"
    using assms(1,2) by (simp_all add: list_all_length)
  have ix: "?x * ?ix + ?x * ?ix = 1" and iy: "?y * ?iy + ?y * ?iy = 1"
    using arg_cong [OF inv(1), of q_of_g] arg_cong [OF inv(2), of q_of_g] by (simp_all add: algebra_simps)
  have half: "(qval (vs ! 0) + qval (vs ! 1)) / 2 = c0 + ?x * c2"
    "(qval (vs ! 2) + qval (vs ! 3)) / 2 = c0 - ?x * c2"
    by (rule half_of_double, simp add: v' algebra_simps)+
  have "(qval (vs ! 0) - qval (vs ! 1)) * ?iy = (?y * ?iy + ?y * ?iy) * (c1 + ?x * c3)"
    by (simp add: v' algebra_simps)
  moreover have "(qval (vs ! 2) - qval (vs ! 3)) * - ?iy = (?y * ?iy + ?y * ?iy) * (c1 - ?x * c3)"
    by (simp add: v' algebra_simps)
  ultimately have diff: "(qval (vs ! 0) - qval (vs ! 1)) * ?iy = c1 + ?x * c3"
    "(qval (vs ! 2) - qval (vs ! 3)) * - ?iy = c1 - ?x * c3"
    unfolding iy by simp_all
  define p where "p = c0 + ?x * c2 + ?a * (c1 + ?x * c3)"
  define n where "n = c0 - ?x * c2 + ?a * (c1 - ?x * c3)"
  have "(p + n) / 2 = c0 + ?a * c1" by (rule half_of_double) (simp add: p_def n_def algebra_simps)
  moreover have "(p - n) * ?ix = (?x * ?ix + ?x * ?ix) * (c2 + ?a * c3)"
    by (simp add: p_def n_def algebra_simps)
  then have "(p - n) * ?ix = c2 + ?a * c3" unfolding ix by simp
  moreover have "qval (qm31_circle_to_line_fold4 vs alpha inv_2x inv_2y) =
      ((qval (vs ! 0) + qval (vs ! 1)) / 2 + ?a * ((qval (vs ! 0) - qval (vs ! 1)) * ?iy)
       + ((qval (vs ! 2) + qval (vs ! 3)) / 2 + ?a * ((qval (vs ! 2) - qval (vs ! 3)) * - ?iy))) / 2
      + ?a * ?a * (((qval (vs ! 0) + qval (vs ! 1)) / 2 + ?a * ((qval (vs ! 0) - qval (vs ! 1)) * ?iy)
       - ((qval (vs ! 2) + qval (vs ! 3)) / 2 + ?a * ((qval (vs ! 2) - qval (vs ! 3)) * - ?iy))) * ?ix)"
    using assms(3-5) can by (simp add: qm31_circle_to_line_fold4_def Let_def flip: One_nat_def)
  then have "qval (qm31_circle_to_line_fold4 vs alpha inv_2x inv_2y) = (p + n) / 2 + ?a * ?a * ((p - n) * ?ix)"
    unfolding half diff p_def n_def .
  ultimately show ?thesis by (simp add: algebra_simps power2_eq_square power3_eq_cube)
qed

section \<open>Batch inversion\<close>

text \<open>
  Montgomery's trick needs from its element type only a product that computes in a field.
\<close>

locale montgomery =
  fixes mul :: "'a \<Rightarrow> 'a \<Rightarrow> 'a" and one :: 'a and good :: "'a \<Rightarrow> bool" and value_of :: "'a \<Rightarrow> 'f::field"
  assumes good_one: "good one" and value_one: "value_of one = 1"
    and good_mul: "good x \<Longrightarrow> good y \<Longrightarrow> good (mul x y)"
    and value_mul: "good x \<Longrightarrow> good y \<Longrightarrow> value_of (mul x y) = value_of x * value_of y"
begin

lemma prefix_loop:
  assumes "length out = length vs" "list_all good vs" "k \<le> length vs"
  defines "r \<equiv> fold (\<lambda>i (out, acc). (out[i := acc], mul acc (vs ! i))) [0..<k] (out, one)"
  shows "length (fst r) = length vs \<and> good (snd r) \<and> value_of (snd r) = (\<Prod>j<k. value_of (vs ! j))
    \<and> (\<forall>i<k. good (fst r ! i) \<and> value_of (fst r ! i) = (\<Prod>j<i. value_of (vs ! j)))"
  unfolding r_def using assms(3)
proof (induction k)
  case 0
  then show ?case using assms(1) by (simp add: good_one value_one)
next
  case (Suc k)
  then show ?case
    using assms(2) by (auto simp: case_prod_unfold nth_list_update less_Suc_eq list_all_length good_mul value_mul)
qed

lemma suffix_loop:
  assumes "length out = length vs" "list_all good vs" "good iv"
    and nz: "\<And>i. i < length vs \<Longrightarrow> value_of (vs ! i) \<noteq> 0"
    and out: "\<And>i. i < length vs \<Longrightarrow> good (out ! i) \<and> value_of (out ! i) = (\<Prod>j<i. value_of (vs ! j))"
    and inv: "value_of iv = inverse (\<Prod>j<length vs. value_of (vs ! j))"
    and "m \<le> length vs"
  defines "r \<equiv> \<lambda>m. fold (\<lambda>i (out, inv). (out[i := mul (out ! i) inv], mul inv (vs ! i))) (rev [m..<length vs]) (out, iv)"
  shows "length (fst (r m)) = length vs \<and> good (snd (r m)) \<and> value_of (snd (r m)) = inverse (\<Prod>j<m. value_of (vs ! j))
    \<and> (\<forall>i<m. fst (r m) ! i = out ! i)
    \<and> (\<forall>i. m \<le> i \<and> i < length vs \<longrightarrow> good (fst (r m) ! i) \<and> value_of (fst (r m) ! i) = inverse (value_of (vs ! i)))"
  using assms(7)
proof (induction rule: inc_induct)
  case base
  then show ?case using assms(1,3) inv by (auto simp: r_def)
next
  case (step m)
  have split: "r m = (\<lambda>(out, inv). (out[m := mul (out ! m) inv], mul inv (vs ! m))) (r (Suc m))"
    using step.hyps by (simp add: r_def upt_conv_Cons)
  have m: "m < length vs" using step.hyps by simp
  have v: "good (vs ! m)" "value_of (vs ! m) \<noteq> 0" using assms(2) nz m by (auto simp: list_all_length)
  note IH = step.IH
  have "value_of (fst (r m) ! m) = inverse (value_of (vs ! m))" "good (fst (r m) ! m)"
    using IH out [OF m] v m nz
    by (simp_all add: split case_prod_unfold good_mul value_mul field_simps)
  moreover have "value_of (snd (r m)) = inverse (\<Prod>j<m. value_of (vs ! j))" "good (snd (r m))"
    using IH v by (simp_all add: split case_prod_unfold good_mul value_mul field_simps)
  moreover have "fst (r m) ! i = (if i = m then fst (r m) ! m else fst (r (Suc m)) ! i)" for i
    using IH by (simp add: split case_prod_unfold nth_list_update)
  moreover have "length (fst (r m)) = length vs" using IH by (simp add: split case_prod_unfold)
  ultimately show ?case using IH by (metis Suc_leI le_neq_implies_less less_SucI less_irrefl)
qed

theorem batch_correct:
  assumes "length out = length vs" "list_all good vs"
    and nz: "\<And>i. i < length vs \<Longrightarrow> value_of (vs ! i) \<noteq> 0"
    and prefix: "batch_prefix mul vs (out, one) = (out', acc)"
    and iv: "good iv" "value_of iv = inverse (value_of acc)"
  shows "length (fst (batch_suffix mul vs (out', iv))) = length vs
    \<and> (\<forall>i<length vs. good (fst (batch_suffix mul vs (out', iv)) ! i)
         \<and> value_of (fst (batch_suffix mul vs (out', iv)) ! i) = inverse (value_of (vs ! i)))"
proof -
  have p: "length out' = length vs" "value_of acc = (\<Prod>j<length vs. value_of (vs ! j))"
    "\<And>i. i < length vs \<Longrightarrow> good (out' ! i) \<and> value_of (out' ! i) = (\<Prod>j<i. value_of (vs ! j))"
    using prefix_loop [OF assms(1,2), of "length vs"] prefix unfolding batch_prefix_def by simp_all
  show ?thesis
    using suffix_loop [OF p(1) assms(2) iv(1) nz p(3) iv(2) [unfolded p(2)], of 0]
    unfolding batch_suffix_def by simp
qed

lemma prefix_product:
  assumes "length out = length vs" "list_all good vs" "batch_prefix mul vs (out, one) = (out', acc)"
  shows "good acc \<and> value_of acc = (\<Prod>j<length vs. value_of (vs ! j))"
  using prefix_loop [OF assms(1,2), of "length vs"] assms(3) unfolding batch_prefix_def by simp

end

interpretation m31_batch: montgomery m31_mul M31_ONE canon gval
  by unfold_locales simp_all

interpretation cm31_batch: montgomery cm31_mul CM31_ONE ccanon cval
  by unfold_locales simp_all

lemma m31_batch_inverse_with_val:
  assumes "length out = length vs" "list_all canon vs" "\<And>i. i < length vs \<Longrightarrow> gval (vs ! i) \<noteq> 0" "inverts f"
  shows "\<exists>r. m31_batch_inverse_with vs out f = Some r \<and> length r = length vs
    \<and> (\<forall>i<length vs. canon (r ! i) \<and> gval (r ! i) = inverse (gval (vs ! i)))"
proof (cases "vs = []")
  case True
  then show ?thesis using assms(1) by (simp add: m31_batch_inverse_with_def)
next
  case False
  obtain out' acc where p: "batch_prefix m31_mul vs (out, M31_ONE) = (out', acc)" by fastforce
  then have acc: "canon acc" "gval acc = (\<Prod>j<length vs. gval (vs ! j))"
    using m31_batch.prefix_product [OF assms(1,2)] by simp_all
  then have "acc \<noteq> M31_ZERO" using assms(3) by auto
  with acc(1) assms(4) obtain iv where iv: "f acc = Some iv" "canon iv" "gval iv = inverse (gval acc)"
    unfolding inverts_def by blast
  show ?thesis
    using m31_batch.batch_correct [OF assms(1-3) p iv(2,3)] False assms(1) iv(1) p
    by (auto simp: m31_batch_inverse_with_def)
qed

lemma m31_batch_inverse_zero:
  assumes "length out = length vs" "list_all canon vs" "i < length vs" "gval (vs ! i) = 0"
  shows "m31_batch_inverse vs out = None"
proof -
  obtain out' acc where p: "batch_prefix m31_mul vs (out, M31_ONE) = (out', acc)" by fastforce
  then have acc: "canon acc" "gval acc = (\<Prod>j<length vs. gval (vs ! j))"
    using m31_batch.prefix_product [OF assms(1,2)] by simp_all
  then have "gval acc = 0" using assms(3,4) by auto
  then have "m31_inv acc = None" using acc(1) m31_is_zero_val by (simp add: m31_inv_def m31_is_zero_def)
  then show ?thesis
    using assms(1,3) p by (auto simp: m31_batch_inverse_def m31_batch_inverse_with_def)
qed

lemma cm31_batch_inverse_with_val:
  assumes "length out = length vs" "list_all ccanon vs" "\<And>i. i < length vs \<Longrightarrow> cval (vs ! i) \<noteq> 0" "inverts f"
  shows "\<exists>r. cm31_batch_inverse_with vs out f = Some r \<and> length r = length vs
    \<and> (\<forall>i<length vs. ccanon (r ! i) \<and> cval (r ! i) = inverse (cval (vs ! i)))"
proof (cases "vs = []")
  case True
  then show ?thesis using assms(1) by (simp add: cm31_batch_inverse_with_def)
next
  case False
  obtain out' acc where p: "batch_prefix cm31_mul vs (out, CM31_ONE) = (out', acc)" by fastforce
  then have acc: "ccanon acc" "cval acc = (\<Prod>j<length vs. cval (vs ! j))"
    using cm31_batch.prefix_product [OF assms(1,2)] by simp_all
  then have "cval acc \<noteq> 0" using assms(3) by auto
  from cm31_inv_with_val [OF acc(1) this assms(4)] obtain iv where
    iv: "cm31_inv_with acc f = Some iv" "ccanon iv" "cval iv = inverse (cval acc)" by blast
  show ?thesis
    using cm31_batch.batch_correct [OF assms(1-3) p iv(2,3)] False assms(1) iv(1) p
    by (auto simp: cm31_batch_inverse_with_def)
qed

end
