(* ===== verification/FieldDots.thy ===== *)
theory FieldDots
  imports FieldKernels
begin

text \<open>
  The variable-length dot products of \<open>crates/aspis-core/src/field.rs\<close>: weights in \<open>QM31\<close>
  against columns in \<open>CM31\<close>, \<open>M31\<close> or \<open>QM31\<close>, over values or directly over their wire bytes.
  The loops they share (four products per reduction, windows of 256 columns) are the row
  and matrix loops of the first section; a kernel is such a loop over its product terms,
  finished by its reconstruction. The \<open>invalid\<close> flag of a byte kernel is collected over the
  same traversal. Every kernel is shown equal to the plain sum of products, and the
  specialised ones to the general one.
\<close>

section \<open>Block and window loops\<close>

definition steps :: "nat \<Rightarrow> nat \<Rightarrow> nat \<Rightarrow> nat list" where
  "steps a b k = map (\<lambda>i. a + i * k) [0..<(b - a + k - 1) div k]"

definition block_row :: "nat \<Rightarrow> (nat \<Rightarrow> nat \<Rightarrow> u64) \<Rightarrow> nat \<Rightarrow> nat \<Rightarrow> u64 list" where
  "block_row n product start stop =
     fold (\<lambda>index raw. map (\<lambda>c. raw ! c + product index c) [0..<n]) [start..<stop] (replicate n 0)"

definition block_rows :: "nat \<Rightarrow> nat \<Rightarrow> (nat \<Rightarrow> nat \<Rightarrow> nat \<Rightarrow> u64) \<Rightarrow> nat \<Rightarrow> nat \<Rightarrow> u64 list list" where
  "block_rows m n product start stop =
     fold (\<lambda>index raw. map (\<lambda>slot. map (\<lambda>c. raw ! slot ! c + product index slot c) [0..<n]) [0..<m])
       [start..<stop] (replicate m (replicate n 0))"

definition eager_row :: "nat \<Rightarrow> (nat \<Rightarrow> nat \<Rightarrow> u64) \<Rightarrow> nat \<Rightarrow> m31 list" where
  "eager_row n product len =
     fold (\<lambda>start sums. let raw = block_row n product start (min (start + 4) len)
            in map (\<lambda>c. m31_add (sums ! c) (m31_reduce_u64 (raw ! c))) [0..<n])
       (steps 0 len 4) (replicate n M31_ZERO)"

definition lazy_row :: "nat \<Rightarrow> (nat \<Rightarrow> nat \<Rightarrow> u64) \<Rightarrow> nat \<Rightarrow> nat \<Rightarrow> u64 list" where
  "lazy_row n product first stop =
     fold (\<lambda>start sums. let raw = block_row n product start (min (start + 4) stop)
            in map (\<lambda>c. sums ! c + u64_from (m31_reduce_u64 (raw ! c))) [0..<n])
       (steps first stop 4) (replicate n 0)"

definition lazy_rows :: "nat \<Rightarrow> nat \<Rightarrow> (nat \<Rightarrow> nat \<Rightarrow> nat \<Rightarrow> u64) \<Rightarrow> nat \<Rightarrow> nat \<Rightarrow> u64 list list" where
  "lazy_rows m n product first stop =
     fold (\<lambda>start outer. let raw = block_rows m n product start (min (start + 4) stop)
            in map (\<lambda>slot. map (\<lambda>c. outer ! slot ! c + u64_from (m31_reduce_u64 (raw ! slot ! c))) [0..<n]) [0..<m])
       (steps first stop 4) (replicate m (replicate n 0))"

definition OUTER_COLUMNS :: nat where "OUTER_COLUMNS = 256"

definition window_row :: "nat \<Rightarrow> (nat \<Rightarrow> nat \<Rightarrow> u64) \<Rightarrow> nat \<Rightarrow> m31 list" where
  "window_row n product len =
     fold (\<lambda>outer_start sums. let outer = lazy_row n product outer_start (min (outer_start + OUTER_COLUMNS) len)
            in map (\<lambda>c. m31_add (sums ! c) (m31_reduce_u64 (outer ! c))) [0..<n])
       (steps 0 len OUTER_COLUMNS) (replicate n M31_ZERO)"

definition window_rows :: "nat \<Rightarrow> nat \<Rightarrow> (nat \<Rightarrow> nat \<Rightarrow> nat \<Rightarrow> u64) \<Rightarrow> nat \<Rightarrow> m31 list list" where
  "window_rows m n product len =
     fold (\<lambda>outer_start sums. let outer = lazy_rows m n product outer_start (min (outer_start + OUTER_COLUMNS) len)
            in map (\<lambda>slot. map (\<lambda>c. m31_add (sums ! slot ! c) (m31_reduce_u64 (outer ! slot ! c))) [0..<n]) [0..<m])
       (steps 0 len OUTER_COLUMNS) (replicate m (replicate n M31_ZERO))"

definition window_sums :: "nat \<Rightarrow> nat \<Rightarrow> (nat \<Rightarrow> nat \<Rightarrow> nat \<Rightarrow> u64) \<Rightarrow> nat \<Rightarrow> u64 list list" where
  "window_sums m n product len =
     fold (\<lambda>outer_start sums. let outer = lazy_rows m n product outer_start (min (outer_start + OUTER_COLUMNS) len)
            in map (\<lambda>slot. map (\<lambda>c. sums ! slot ! c + u64_from (m31_reduce_u64 (outer ! slot ! c))) [0..<n]) [0..<m])
       (steps 0 len OUTER_COLUMNS) (replicate m (replicate n 0))"

section \<open>QM31 by CM31\<close>

definition prepared_weight_components :: "qm31 \<Rightarrow> m31 list" where
  "prepared_weight_components weight =
     [cm_a (qm_c0 weight), cm_b (qm_c0 weight), m31_add (cm_a (qm_c0 weight)) (cm_b (qm_c0 weight)),
      cm_a (qm_c1 weight), cm_b (qm_c1 weight), m31_add (cm_a (qm_c1 weight)) (cm_b (qm_c1 weight))]"

definition cm31_product :: "m31 list \<Rightarrow> cm31 \<Rightarrow> nat \<Rightarrow> u64" where
  "cm31_product weight value c = u64_from (weight ! c) * u64_from (karatsuba_limbs value ! (c mod 3))"

definition finish_cm31 :: "m31 list \<Rightarrow> qm31" where
  "finish_cm31 sums =
     (let component = (\<lambda>offset. karatsuba_cm31 (sums ! offset) (sums ! (offset + 1)) (sums ! (offset + 2)))
      in QM31 (component 0) (component 3))"

definition finish_qm31_cm31_dot4 :: "m31 list list \<Rightarrow> qm31 list" where
  "finish_qm31_cm31_dot4 sums = map (\<lambda>slot. finish_cm31 (sums ! slot)) [0..<4]"

definition qm31_cm31_dot :: "qm31 list \<Rightarrow> cm31 list \<Rightarrow> qm31 option" where
  "qm31_cm31_dot weights values =
     (if length weights \<noteq> length values then None
      else Some (finish_cm31 (eager_row 6
        (\<lambda>index. cm31_product (prepared_weight_components (weights ! index)) (values ! index)) (length weights))))"

definition qm31_cm31_dot4 :: "qm31 list \<Rightarrow> cm31 list list \<Rightarrow> qm31 list option" where
  "qm31_cm31_dot4 weights values =
     (if \<exists>slot \<in> set values. length weights \<noteq> length slot then None
      else Some (finish_qm31_cm31_dot4 (window_rows 4 6
        (\<lambda>index slot. cm31_product (prepared_weight_components (weights ! index)) (values ! slot ! index))
        (length weights))))"

record prepared_qm31_cm31_weights =
  weight_components :: "m31 list list"

definition prepared_weights_new :: "nat \<Rightarrow> qm31 list \<Rightarrow> prepared_qm31_cm31_weights option" where
  "prepared_weights_new n weights =
     (if length weights \<noteq> n then None
      else Some \<lparr> weight_components = map (\<lambda>index. prepared_weight_components (weights ! index)) [0..<n] \<rparr>)"

definition prepared_weights_geometric :: "nat \<Rightarrow> qm31 \<Rightarrow> prepared_qm31_cm31_weights \<times> qm31" where
  "prepared_weights_geometric n gamma =
     (let (components, power) = fold (\<lambda>_ (components, power).
            (components @ [prepared_weight_components power], qm31_mul power gamma)) [0..<n] ([], QM31_ONE)
      in (\<lparr> weight_components = components \<rparr>, power))"

definition qm31_cm31_dot4_prepared :: "nat \<Rightarrow> prepared_qm31_cm31_weights \<Rightarrow> cm31 list list \<Rightarrow> qm31 list" where
  "qm31_cm31_dot4_prepared n weights values =
     finish_qm31_cm31_dot4 (window_rows 4 6
       (\<lambda>index slot. cm31_product (weight_components weights ! index) (values ! slot ! index)) n)"

definition wire_offset :: "nat \<Rightarrow> nat \<Rightarrow> nat \<Rightarrow> nat \<Rightarrow> nat" where
  "wire_offset n width slot index = (slot * n + index) * width"

definition u32_at :: "bytes \<Rightarrow> nat \<Rightarrow> u32" where
  "u32_at bytes offset = from_le (seg offset (offset + 4) bytes)"

text \<open>
  The reject flag of a byte kernel: one bit for each limb it reads, ORed in the order of its loops. The lists below are the offsets
  each loop nest reads.
\<close>

definition flag_at :: "bytes \<Rightarrow> nat \<Rightarrow> u32" where
  "flag_at bytes offset = (if M31_P \<le> u32_at bytes offset then 1 else 0)"

definition invalid_flag :: "bytes \<Rightarrow> nat list \<Rightarrow> u32" where
  "invalid_flag bytes offsets = fold (\<lambda>offset invalid. invalid OR flag_at bytes offset) offsets 0"

definition window_offsets :: "nat \<Rightarrow> nat list" where
  "window_offsets n = concat (map (\<lambda>outer_start. let outer_end = min (outer_start + OUTER_COLUMNS) n
     in concat (map (\<lambda>start. let stop = min (start + 4) outer_end
     in concat (map (\<lambda>index. concat (map (\<lambda>slot. let offset = wire_offset n 8 slot index in [offset, offset + 4]) [0..<4])) [start..<stop]))
       (steps outer_start outer_end 4))) (steps 0 n OUTER_COLUMNS))"

definition qm31_cm31_dot4_prepared_bytes :: "nat \<Rightarrow> prepared_qm31_cm31_weights \<Rightarrow> bytes \<Rightarrow> qm31 list option" where
  "qm31_cm31_dot4_prepared_bytes n weights bytes =
     (if length bytes \<noteq> 4 * n * 8 then None
      else let invalid = invalid_flag bytes (window_offsets n);
               sums = window_rows 4 6 (\<lambda>index slot.
                 let offset = wire_offset n 8 slot index;
                     value_a = M31 (u32_at bytes offset AND M31_P);
                     value_b = M31 (u32_at bytes (offset + 4) AND M31_P)
                 in cm31_product (weight_components weights ! index) (CM31 value_a value_b)) n
           in if invalid = 0 then Some (finish_qm31_cm31_dot4 sums) else None)"

section \<open>QM31 by M31\<close>

definition qm31_limbs :: "qm31 \<Rightarrow> m31 list" where
  "qm31_limbs w = [cm_a (qm_c0 w), cm_b (qm_c0 w), cm_a (qm_c1 w), cm_b (qm_c1 w)]"

definition m31_product :: "m31 list \<Rightarrow> m31 \<Rightarrow> nat \<Rightarrow> u64" where
  "m31_product limbs value c = u64_from (limbs ! c) * u64_from value"

definition qm31_of_limbs :: "m31 list \<Rightarrow> qm31" where
  "qm31_of_limbs l = QM31 (cm31_new (l ! 0) (l ! 1)) (cm31_new (l ! 2) (l ! 3))"

definition finish_m31 :: "u64 list \<Rightarrow> qm31" where
  "finish_m31 sums = qm31_of_limbs (map m31_reduce_u64 sums)"

definition qm31_m31_dot_eager_outer :: "qm31 list \<Rightarrow> m31 list \<Rightarrow> qm31 option" where
  "qm31_m31_dot_eager_outer weights values =
     (if length weights \<noteq> length values then None
      else Some (qm31_of_limbs (eager_row 4
        (\<lambda>index. m31_product (qm31_limbs (weights ! index)) (values ! index)) (length weights))))"

definition qm31_m31_dot :: "qm31 list \<Rightarrow> m31 list \<Rightarrow> qm31 option" where
  "qm31_m31_dot weights values =
     (if length weights \<noteq> length values then None
      else let product = (\<lambda>index. m31_product (qm31_limbs (weights ! index)) (values ! index))
           in if length weights \<le> 4 then Some (finish_m31 (block_row 4 product 0 (length weights)))
              else Some (finish_m31 (lazy_row 4 product 0 (length weights))))"

definition finish_qm31_m31_dot4 :: "u64 list list \<Rightarrow> qm31 list" where
  "finish_qm31_m31_dot4 sums = map (\<lambda>slot. finish_m31 (sums ! slot)) [0..<4]"

definition qm31_m31_dot4 :: "qm31 list \<Rightarrow> m31 list list \<Rightarrow> qm31 list option" where
  "qm31_m31_dot4 weights values =
     (if \<exists>slot \<in> set values. length weights \<noteq> length slot then None
      else Some (finish_qm31_m31_dot4 (window_sums 4 4
        (\<lambda>index slot. m31_product (qm31_limbs (weights ! index)) (values ! slot ! index))
        (length weights))))"

definition wire_product :: "nat \<Rightarrow> u32 list list \<Rightarrow> bytes \<Rightarrow> nat \<Rightarrow> nat \<Rightarrow> nat \<Rightarrow> u64" where
  "wire_product n weight_limbs bytes slot index c =
     ucast (weight_limbs ! index ! c) * ucast (u32_at bytes (wire_offset n 4 slot index) AND M31_P)"

definition row_offsets :: "nat \<Rightarrow> nat list" where
  "row_offsets n = concat (map (\<lambda>slot. concat (map (\<lambda>start. map (wire_offset n 4 slot) [start..<min (start + 4) n]) (steps 0 n 4))) [0..<4])"

definition block_offsets :: "nat \<Rightarrow> nat \<Rightarrow> nat \<Rightarrow> nat list" where
  "block_offsets n blocks slot = concat (map (\<lambda>block. let start = block * 4 in map (wire_offset n 4 slot) [start..<start + 4]) [0..<blocks])"

definition qm31_m31_dot4_prepared_limbs_bytes :: "nat \<Rightarrow> u32 list list \<Rightarrow> bytes \<Rightarrow> qm31 list option" where
  "qm31_m31_dot4_prepared_limbs_bytes n weight_limbs bytes =
     (if length bytes \<noteq> 4 * n * 4 then None
      else let result = map (\<lambda>slot. finish_m31 (lazy_row 4 (wire_product n weight_limbs bytes slot) 0 n)) [0..<4]
           in if invalid_flag bytes (row_offsets n) = 0 then Some result else None)"

definition qm31_m31_dot4_prepared_bytes :: "nat \<Rightarrow> qm31 list \<Rightarrow> bytes \<Rightarrow> qm31 list option" where
  "qm31_m31_dot4_prepared_bytes n weights bytes =
     (let limbs = map (\<lambda>weight. map limb (qm31_limbs weight)) weights
      in qm31_m31_dot4_prepared_limbs_bytes n limbs bytes)"

definition exact_blocks :: "nat \<Rightarrow> (nat \<Rightarrow> nat \<Rightarrow> u64) \<Rightarrow> u64 list" where
  "exact_blocks blocks product =
     fold (\<lambda>block sums. let start = block * 4; raw = block_row 4 product start (start + 4)
            in map (\<lambda>c. sums ! c + u64_from (m31_reduce_u64 (raw ! c))) [0..<4])
       [0..<blocks] (replicate 4 0)"

definition qm31_m31_dot4_prepared_limbs_4b1_bytes :: "nat \<Rightarrow> u32 list list \<Rightarrow> bytes \<Rightarrow> qm31 list option" where
  "qm31_m31_dot4_prepared_limbs_4b1_bytes n weight_limbs bytes =
     (if n = 0 \<or> n mod 4 \<noteq> 1 \<or> length bytes \<noteq> 4 * n * 4 then None
      else let invalid = invalid_flag bytes (concat (map (\<lambda>slot. block_offsets n (n div 4) slot @ [wire_offset n 4 slot (n - 1)]) [0..<4]));
               result = map (\<lambda>slot.
                 let product = wire_product n weight_limbs bytes slot;
                     sums = exact_blocks (n div 4) product;
                     tail = n - 1
                 in finish_m31 (map (\<lambda>c. sums ! c + u64_from (m31_reduce_u64 (product tail c))) [0..<4])) [0..<4]
           in if invalid = 0 then Some result else None)"

definition qm31_m31_dot4_prepared_limbs_4b_bytes :: "nat \<Rightarrow> u32 list list \<Rightarrow> bytes \<Rightarrow> qm31 list option" where
  "qm31_m31_dot4_prepared_limbs_4b_bytes n weight_limbs bytes =
     (if n = 0 \<or> n mod 4 \<noteq> 0 \<or> length bytes \<noteq> 4 * n * 4 then None
      else let invalid = invalid_flag bytes (concat (map (\<lambda>slot. block_offsets n (n div 4) slot) [0..<4]));
               result = map (\<lambda>slot. finish_m31 (exact_blocks (n div 4) (wire_product n weight_limbs bytes slot))) [0..<4]
           in if invalid = 0 then Some result else None)"

definition qm31_m31_dot4_prepared_limbs_4b2_bytes :: "nat \<Rightarrow> u32 list list \<Rightarrow> bytes \<Rightarrow> qm31 list option" where
  "qm31_m31_dot4_prepared_limbs_4b2_bytes n weight_limbs bytes =
     (if n < 2 \<or> n mod 4 \<noteq> 2 \<or> length bytes \<noteq> 4 * n * 4 then None
      else let invalid = invalid_flag bytes
                 (concat (map (\<lambda>slot. block_offsets n (n div 4) slot @ map (wire_offset n 4 slot) [n - 2..<n]) [0..<4]));
               result = map (\<lambda>slot.
                 let product = wire_product n weight_limbs bytes slot;
                     sums = exact_blocks (n div 4) product;
                     tail = n - 2;
                     raw = block_row 4 product tail n
                 in finish_m31 (map (\<lambda>c. sums ! c + u64_from (m31_reduce_u64 (raw ! c))) [0..<4])) [0..<4]
           in if invalid = 0 then Some result else None)"

definition qm31_m31_dot4_prepared_limbs49_bytes :: "u32 list list \<Rightarrow> bytes \<Rightarrow> qm31 list option" where
  "qm31_m31_dot4_prepared_limbs49_bytes weight_limbs bytes =
     (if length bytes \<noteq> 4 * 49 * 4 then None
      else let invalid = invalid_flag bytes (concat (map (\<lambda>slot. block_offsets 49 12 slot @ [wire_offset 49 4 slot 48]) [0..<4]));
               result = map (\<lambda>slot.
                 let product = wire_product 49 weight_limbs bytes slot;
                     sums = exact_blocks 12 product
                 in finish_m31 (map (\<lambda>c. sums ! c + u64_from (m31_reduce_u64 (product 48 c))) [0..<4])) [0..<4]
           in if invalid = 0 then Some result else None)"

definition exact_block_rows :: "nat \<Rightarrow> nat \<Rightarrow> (nat \<Rightarrow> nat \<Rightarrow> nat \<Rightarrow> u64) \<Rightarrow> u64 list list" where
  "exact_block_rows m blocks product =
     fold (\<lambda>block sums. let start = block * 4; raw = block_rows m 4 product start (start + 4)
            in map (\<lambda>row. map (\<lambda>c. sums ! row ! c + u64_from (m31_reduce_u64 (raw ! row ! c))) [0..<4]) [0..<m])
       [0..<blocks] (replicate m (replicate 4 0))"

definition qm31_m31_dot4_prepared_limbs49_bytes_two_rows :: "u32 list list \<Rightarrow> bytes \<Rightarrow> qm31 list option" where
  "qm31_m31_dot4_prepared_limbs49_bytes_two_rows weight_limbs bytes =
     (if length bytes \<noteq> 4 * 49 * 4 then None
      else let invalid = invalid_flag bytes (concat (map (\<lambda>pair.
                   concat (map (\<lambda>block. let start = block * 4
                     in concat (map (\<lambda>index. map (\<lambda>row. wire_offset 49 4 (2 * pair + row) index) [0..<2]) [start..<start + 4])) [0..<12])
                   @ map (\<lambda>row. wire_offset 49 4 (2 * pair + row) 48) [0..<2]) [0..<2]));
               result = concat (map (\<lambda>pair.
                 let first_slot = 2 * pair;
                     product = (\<lambda>index row. wire_product 49 weight_limbs bytes (first_slot + row) index);
                     sums = exact_block_rows 2 12 product
                 in map (\<lambda>row. finish_m31 (map (\<lambda>c. sums ! row ! c
                      + u64_from (m31_reduce_u64 (product 48 row c))) [0..<4])) [0..<2]) [0..<2])
           in if invalid = 0 then Some result else None)"

definition qm31_m31_dot_u128 :: "qm31 list \<Rightarrow> m31 list \<Rightarrow> qm31 option" where
  "qm31_m31_dot_u128 weights values =
     (if length weights \<noteq> length values then None
      else let sums = fold (\<lambda>(weight, value) sums.
                 map (\<lambda>c. sums ! c + ucast (limb (qm31_limbs weight ! c)) * ucast (limb value)) [0..<4])
               (zip weights values) (replicate 4 (0 :: u128))
           in Some (qm31_of_limbs (map m31_reduce_u128 sums)))"

section \<open>QM31 by QM31\<close>

definition qm31_product :: "qm31 \<Rightarrow> qm31 \<Rightarrow> nat \<Rightarrow> u64" where
  "qm31_product weight value c =
     u64_from (karatsuba_components weight ! (c div 3) ! (c mod 3))
       * u64_from (karatsuba_components value ! (c div 3) ! (c mod 3))"

definition finish_qm31 :: "m31 list \<Rightarrow> qm31" where
  "finish_qm31 sums =
     (let component = (\<lambda>offset. karatsuba_cm31 (sums ! offset) (sums ! (offset + 1)) (sums ! (offset + 2)))
      in karatsuba_qm31 (component 0) (component 3) (component 6))"

definition qm31_dot :: "qm31 list \<Rightarrow> qm31 list \<Rightarrow> qm31 option" where
  "qm31_dot weights values =
     (if length weights \<noteq> length values then None
      else let product = (\<lambda>index. qm31_product (weights ! index) (values ! index))
           in Some (finish_qm31 (if length weights \<le> 16 then eager_row 9 product (length weights)
                else window_row 9 product (length weights))))"

definition qm31_dot3 :: "qm31 list \<Rightarrow> qm31 list list \<Rightarrow> qm31 list option" where
  "qm31_dot3 weights values =
     (if \<exists>row \<in> set values. length weights \<noteq> length row then None
      else let sums = window_rows 3 9 (\<lambda>index row. qm31_product (weights ! index) (values ! row ! index)) (length weights)
           in Some (map (\<lambda>row. finish_qm31 (sums ! row)) [0..<3]))"

section \<open>The loops as sums\<close>

lemma steps_sum:
  fixes f :: "nat \<Rightarrow> 'a::comm_monoid_add"
  assumes "0 < k" "a \<le> b"
  shows "(\<Sum>s\<leftarrow>steps a b k. \<Sum>x=s..<min (s + k) b. f x) = (\<Sum>x=a..<b. f x)"
proof -
  have partial: "(\<Sum>s\<leftarrow>map (\<lambda>i. a + i * k) [0..<n]. \<Sum>x=s..<min (s + k) b. f x) = (\<Sum>x=a..<min (a + n * k) b. f x)" for n
  proof (induction n)
    case 0
    then show ?case using assms(2) by simp
  next
    case (Suc n)
    have "(\<Sum>x=a..<min (a + n * k) b. f x) + (\<Sum>x=a + n * k..<min (a + n * k + k) b. f x)
        = (\<Sum>x=a..<min (a + n * k + k) b. f x)"
    proof (cases "a + n * k \<le> b")
      case True
      then show ?thesis by (simp add: sum.atLeastLessThan_concat)
    next
      case False
      then show ?thesis by simp
    qed
    then show ?case using Suc by (simp add: add.assoc add.commute add.left_commute)
  qed
  have "b - a \<le> (b - a + k - 1) div k * k"
    using div_mult_mod_eq [of "b - a + k - 1" k] mod_less_divisor [OF assms(1), of "b - a + k - 1"] assms(1)
    by linarith
  then have "min (a + (b - a + k - 1) div k * k) b = b" by simp
  then show ?thesis using partial unfolding steps_def by metis
qed


lemma length_steps: "length (steps a b k) = (b - a + k - 1) div k"
  by (simp add: steps_def)

lemma block_row_nth: "c < n \<Longrightarrow> block_row n t s e ! c = word_sum (\<lambda>x. t x c) [s..<e]"
  using fold_pointwise [where f = "\<lambda>x c r. r + t x c" and g = "\<lambda>c. 0" and n = n and xs = "[s..<e]"]
  unfolding block_row_def word_sum_def replicate_map by simp

lemma block_rows_nth: "i < m \<Longrightarrow> c < n \<Longrightarrow> block_rows m n t s e ! i ! c = word_sum (\<lambda>x. t x i c) [s..<e]"
  using fold_pointwise2 [where f = "\<lambda>x i c r. r + t x i c" and g = "\<lambda>i c. 0" and m = n and n = m and xs = "[s..<e]"]
  unfolding block_rows_def word_sum_def by (simp only: replicate_map) simp

definition lazy_sum :: "(nat \<Rightarrow> u64) \<Rightarrow> nat \<Rightarrow> nat \<Rightarrow> u64" where
  "lazy_sum t a b = word_sum (\<lambda>s. u64_from (m31_reduce_u64 (word_sum t [s..<min (s + 4) b]))) (steps a b 4)"

definition m31_sum :: "(nat \<Rightarrow> m31) \<Rightarrow> nat list \<Rightarrow> m31" where
  "m31_sum f xs = fold (\<lambda>x s. m31_add s (f x)) xs M31_ZERO"

lemma lazy_row_nth: "c < n \<Longrightarrow> lazy_row n t a b ! c = lazy_sum (\<lambda>x. t x c) a b"
  using fold_pointwise [where f = "\<lambda>s c r. r + u64_from (m31_reduce_u64 (block_row n t s (min (s + 4) b) ! c))"
      and g = "\<lambda>c. 0" and n = n and xs = "steps a b 4"]
  unfolding lazy_row_def lazy_sum_def word_sum_def [of _ "steps a b 4"] Let_def replicate_map
  by (simp add: block_row_nth)

lemma lazy_rows_nth: "i < m \<Longrightarrow> c < n \<Longrightarrow> lazy_rows m n t a b ! i ! c = lazy_sum (\<lambda>x. t x i c) a b"
  using fold_pointwise2 [where f = "\<lambda>s i c r. r + u64_from (m31_reduce_u64 (block_rows m n t s (min (s + 4) b) ! i ! c))"
      and g = "\<lambda>i c. 0" and m = n and n = m and xs = "steps a b 4"]
  unfolding lazy_rows_def lazy_sum_def word_sum_def [of _ "steps a b 4"] Let_def
  by (simp only: replicate_map) (simp add: block_rows_nth)

lemma eager_row_nth:
  "c < n \<Longrightarrow> eager_row n t len ! c
     = m31_sum (\<lambda>s. m31_reduce_u64 (word_sum (\<lambda>x. t x c) [s..<min (s + 4) len])) (steps 0 len 4)"
  using fold_pointwise [where f = "\<lambda>s c r. m31_add r (m31_reduce_u64 (block_row n t s (min (s + 4) len) ! c))"
      and g = "\<lambda>c. M31_ZERO" and n = n and xs = "steps 0 len 4"]
  unfolding eager_row_def m31_sum_def Let_def replicate_map by (simp add: block_row_nth)

lemma window_row_nth:
  "c < n \<Longrightarrow> window_row n t len ! c
     = m31_sum (\<lambda>s. m31_reduce_u64 (lazy_sum (\<lambda>x. t x c) s (min (s + OUTER_COLUMNS) len))) (steps 0 len OUTER_COLUMNS)"
  using fold_pointwise [where f = "\<lambda>s c r. m31_add r (m31_reduce_u64 (lazy_row n t s (min (s + OUTER_COLUMNS) len) ! c))"
      and g = "\<lambda>c. M31_ZERO" and n = n and xs = "steps 0 len OUTER_COLUMNS"]
  unfolding window_row_def m31_sum_def Let_def replicate_map by (simp add: lazy_row_nth)

lemma window_rows_nth:
  "i < m \<Longrightarrow> c < n \<Longrightarrow> window_rows m n t len ! i ! c
     = m31_sum (\<lambda>s. m31_reduce_u64 (lazy_sum (\<lambda>x. t x i c) s (min (s + OUTER_COLUMNS) len))) (steps 0 len OUTER_COLUMNS)"
  using fold_pointwise2 [where f = "\<lambda>s i c r. m31_add r (m31_reduce_u64 (lazy_rows m n t s (min (s + OUTER_COLUMNS) len) ! i ! c))"
      and g = "\<lambda>i c. M31_ZERO" and m = n and n = m and xs = "steps 0 len OUTER_COLUMNS"]
  unfolding window_rows_def m31_sum_def Let_def by (simp only: replicate_map) (simp add: lazy_rows_nth)

lemma window_sums_nth:
  "i < m \<Longrightarrow> c < n \<Longrightarrow> window_sums m n t len ! i ! c
     = word_sum (\<lambda>s. u64_from (m31_reduce_u64 (lazy_sum (\<lambda>x. t x i c) s (min (s + OUTER_COLUMNS) len)))) (steps 0 len OUTER_COLUMNS)"
  using fold_pointwise2 [where f = "\<lambda>s i c r. r + u64_from (m31_reduce_u64 (lazy_rows m n t s (min (s + OUTER_COLUMNS) len) ! i ! c))"
      and g = "\<lambda>i c. 0" and m = n and n = m and xs = "steps 0 len OUTER_COLUMNS"]
  unfolding window_sums_def word_sum_def [of _ "steps 0 len OUTER_COLUMNS"] Let_def by (simp only: replicate_map) (simp add: lazy_rows_nth)

lemma m31_sum_val:
  assumes "\<And>x. canon (f x)"
  shows "canon (m31_sum f xs)" and "gval (m31_sum f xs) = (\<Sum>x\<leftarrow>xs. gval (f x))"
proof -
  have "canon (m31_sum f xs) \<and> gval (m31_sum f xs) = (\<Sum>x\<leftarrow>xs. gval (f x))"
    unfolding m31_sum_def using assms by (induction xs rule: rev_induct) simp_all
  then show "canon (m31_sum f xs)" "gval (m31_sum f xs) = (\<Sum>x\<leftarrow>xs. gval (f x))" by simp_all
qed

text \<open>A product row is small when each entry is the product of two canonical limbs.\<close>

definition small_products :: "(nat \<Rightarrow> u64) \<Rightarrow> nat \<Rightarrow> bool" where
  "small_products t len \<longleftrightarrow> (\<forall>x<len. unat (t x) \<le> max_product)"

lemma block_sum_val:
  assumes "small_products t len" "e \<le> len" "e - s \<le> 4"
  shows "wval (word_sum t [s..<e]) = (\<Sum>x=s..<e. wval (t x))"
proof -
  have "length [s..<e] * max_product < 2 ^ 64" using assms(3) by simp
  then have "wval (word_sum t [s..<e]) = (\<Sum>x\<leftarrow>[s..<e]. wval (t x))"
    using word_sum_val [of "[s..<e]" t max_product] assms(1,2) by (auto simp: small_products_def)
  then show ?thesis by (simp add: interv_sum_list_conv_sum_set_nat)
qed

lemma reduced_word_sum_val:
  assumes "length xs \<le> 4294967296"
  shows "wval (word_sum (\<lambda>s. u64_from (m31_reduce_u64 (w s))) xs) = (\<Sum>s\<leftarrow>xs. wval (w s))"
proof -
  have "unat (u64_from (m31_reduce_u64 (w s))) \<le> 2147483646" for s
    using m31_reduce_u64_canon(1) [of "w s"] by (simp add: canon_unat)
  then show ?thesis
    using word_sum_val [of xs "\<lambda>s. u64_from (m31_reduce_u64 (w s))" 2147483646] assms by simp
qed

lemma lazy_sum_val:
  assumes "small_products t len" "b \<le> len" "a \<le> b" "b - a \<le> 17179869184"
  shows "wval (lazy_sum t a b) = (\<Sum>x=a..<b. wval (t x))"
proof -
  have "(b - a + 4 - 1) div 4 \<le> 4294967296" using assms(4) by simp
  then have "wval (lazy_sum t a b) = (\<Sum>s\<leftarrow>steps a b 4. wval (word_sum t [s..<min (s + 4) b]))"
    unfolding lazy_sum_def by (intro reduced_word_sum_val) (simp add: length_steps)
  also have "\<dots> = (\<Sum>s\<leftarrow>steps a b 4. \<Sum>x=s..<min (s + 4) b. wval (t x))"
    using assms(1,2) by (intro arg_cong [of _ _ sum_list] map_cong refl block_sum_val) auto
  also have "\<dots> = (\<Sum>x=a..<b. wval (t x))" using assms(3) by (intro steps_sum) simp_all
  finally show ?thesis .
qed

lemma lazy_row_val:
  assumes "c < n" "small_products (\<lambda>x. t x c) len" "len \<le> 17179869184"
  shows "wval (lazy_row n t 0 len ! c) = (\<Sum>x<len. wval (t x c))"
  using lazy_sum_val [OF assms(2), of len 0] assms by (simp add: lazy_row_nth atLeast0LessThan)

lemma eager_row_val:
  assumes "c < n" "small_products (\<lambda>x. t x c) len"
  shows "canon (eager_row n t len ! c)" and "gval (eager_row n t len ! c) = (\<Sum>x<len. wval (t x c))"
proof -
  show "canon (eager_row n t len ! c)" using assms(1) by (simp add: eager_row_nth m31_sum_val)
  have "gval (eager_row n t len ! c) = (\<Sum>s\<leftarrow>steps 0 len 4. wval (word_sum (\<lambda>x. t x c) [s..<min (s + 4) len]))"
    using assms(1) by (simp add: eager_row_nth m31_sum_val)
  also have "\<dots> = (\<Sum>s\<leftarrow>steps 0 len 4. \<Sum>x=s..<min (s + 4) len. wval (t x c))"
    using assms(2) by (intro arg_cong [of _ _ sum_list] map_cong refl block_sum_val) auto
  also have "\<dots> = (\<Sum>x=0..<len. wval (t x c))" by (intro steps_sum) simp_all
  finally show "gval (eager_row n t len ! c) = (\<Sum>x<len. wval (t x c))" by (simp add: atLeast0LessThan)
qed

lemma window_blocks_val:
  assumes "small_products t len"
  shows "(\<Sum>s\<leftarrow>steps 0 len OUTER_COLUMNS. wval (lazy_sum t s (min (s + OUTER_COLUMNS) len))) = (\<Sum>x<len. wval (t x))"
proof -
  have "s < len" if "s \<in> set (steps 0 len 256)" for s
    using that by (auto simp: steps_def less_mult_imp_div_less)
  then have "(\<Sum>s\<leftarrow>steps 0 len 256. wval (lazy_sum t s (min (s + 256) len)))
      = (\<Sum>s\<leftarrow>steps 0 len 256. \<Sum>x=s..<min (s + 256) len. wval (t x))"
    using assms by (intro arg_cong [of _ _ sum_list] map_cong refl lazy_sum_val) (auto simp: less_imp_le)
  also have "\<dots> = (\<Sum>x=0..<len. wval (t x))" by (intro steps_sum) simp_all
  finally show ?thesis by (simp add: OUTER_COLUMNS_def atLeast0LessThan)
qed


lemma window_row_val:
  assumes "c < n" "small_products (\<lambda>x. t x c) len"
  shows "canon (window_row n t len ! c)" and "gval (window_row n t len ! c) = (\<Sum>x<len. wval (t x c))"
  using assms window_blocks_val [OF assms(2)] by (simp_all add: window_row_nth m31_sum_val)

lemma window_rows_val:
  assumes "i < m" "c < n" "small_products (\<lambda>x. t x i c) len"
  shows "canon (window_rows m n t len ! i ! c)" and "gval (window_rows m n t len ! i ! c) = (\<Sum>x<len. wval (t x i c))"
  using assms window_blocks_val [OF assms(3)] by (simp_all add: window_rows_nth m31_sum_val)

lemma window_sums_val:
  assumes "i < m" "c < n" "small_products (\<lambda>x. t x i c) len" "len \<le> 17179869184"
  shows "wval (window_sums m n t len ! i ! c) = (\<Sum>x<len. wval (t x i c))"
proof -
  have "length (steps 0 len OUTER_COLUMNS) \<le> 4294967296"
    using assms(4) by (simp add: length_steps OUTER_COLUMNS_def)
  then show ?thesis
    using assms window_blocks_val [OF assms(3)] by (simp add: window_sums_nth reduced_word_sum_val)
qed

section \<open>The dot products\<close>

lemma kcm_sum: "kcm (\<lambda>j. \<Sum>k\<in>A. f k j) = (\<Sum>k\<in>A. kcm (f k))"
proof (induction A rule: infinite_finite_induct)
  case (insert x F)
  then show ?case by (simp add: kcm_add)
qed (simp_all add: kcm_def cgf_eq_iff)

lemma kcm_product:
  "ccanon a \<Longrightarrow> ccanon b \<Longrightarrow> kcm (\<lambda>j. gval (karatsuba_limbs a ! j) * gval (karatsuba_limbs b ! j)) = cval a * cval b"
  by (simp add: kcm_def karatsuba_limbs_def cgf_eq_iff) (simp add: algebra_simps)

lemma weight_components_nth:
  "j < 3 \<Longrightarrow> prepared_weight_components w ! j = karatsuba_limbs (qm_c0 w) ! j"
  "j < 3 \<Longrightarrow> prepared_weight_components w ! (3 + j) = karatsuba_limbs (qm_c1 w) ! j"
  by (auto simp: prepared_weight_components_def karatsuba_limbs_def dest!: less_3_cases)

lemma karatsuba_limbs_canon: "ccanon a \<Longrightarrow> j < 3 \<Longrightarrow> canon (karatsuba_limbs a ! j)"
  by (auto simp: karatsuba_limbs_def dest!: less_3_cases)

lemma less_6_cases: "c < 6 \<Longrightarrow> c < 3 \<or> (\<exists>j<3. c = 3 + (j :: nat))"
  by presburger

lemma kcm_cong: "(\<And>j. j < 3 \<Longrightarrow> f j = g j) \<Longrightarrow> kcm f = kcm g"
  by (simp add: kcm_def)

lemma component_val:
  assumes "canon (s ! k)" "canon (s ! (k + 1))" "canon (s ! (k + 2))"
  shows "ccanon (karatsuba_cm31 (s ! k) (s ! (k + 1)) (s ! (k + 2)))"
    and "cval (karatsuba_cm31 (s ! k) (s ! (k + 1)) (s ! (k + 2))) = kcm (\<lambda>j. gval (s ! (k + j)))"
  using assms by (simp_all add: kcm_def)

lemma qgf_sum_sel: "qc0 (\<Sum>k\<in>A. f k) = (\<Sum>k\<in>A. qc0 (f k))" "qc1 (\<Sum>k\<in>A. f k) = (\<Sum>k\<in>A. qc1 (f k))"
  by (induction A rule: infinite_finite_induct) simp_all

lemma cm31_product_val:
  assumes "qcanon w" "ccanon v" "c < 6"
  shows "unat (cm31_product (prepared_weight_components w) v c) \<le> max_product"
    and "wval (cm31_product (prepared_weight_components w) v c)
      = gval (prepared_weight_components w ! c) * gval (karatsuba_limbs v ! (c mod 3))"
proof -
  have "canon (prepared_weight_components w ! c)" "canon (karatsuba_limbs v ! (c mod 3))"
    using assms less_6_cases [OF assms(3)] by (auto simp: weight_components_nth karatsuba_limbs_canon)
  then show "unat (cm31_product (prepared_weight_components w) v c) \<le> max_product"
    "wval (cm31_product (prepared_weight_components w) v c)
      = gval (prepared_weight_components w ! c) * gval (karatsuba_limbs v ! (c mod 3))"
    unfolding cm31_product_def by (simp_all add: raw_product_le)
qed

lemma finish_cm31_val:
  assumes ws: "\<And>k. k < n \<Longrightarrow> qcanon (w k) \<and> ccanon (v k)"
    and s: "\<And>c. c < 6 \<Longrightarrow> canon (s ! c) \<and> gval (s ! c)
      = (\<Sum>k<n. wval (cm31_product (prepared_weight_components (w k)) (v k) c))"
  shows "qcanon (finish_cm31 s) \<and> qval (finish_cm31 s) = (\<Sum>k<n. qval (w k) * q_of_c (cval (v k)))"
proof -
  have val: "gval (s ! c) = (\<Sum>k<n. gval (prepared_weight_components (w k) ! c) * gval (karatsuba_limbs (v k) ! (c mod 3)))"
    if "c < 6" for c
    using s [OF that] ws that by (simp add: cm31_product_val)
  have low: "gval (s ! j) = (\<Sum>k<n. gval (karatsuba_limbs (qm_c0 (w k)) ! j) * gval (karatsuba_limbs (v k) ! j))"
    and high: "gval (s ! (3 + j)) = (\<Sum>k<n. gval (karatsuba_limbs (qm_c1 (w k)) ! j) * gval (karatsuba_limbs (v k) ! j))"
    if "j < 3" for j
    using val [of j] val [of "3 + j"] that by (simp_all add: weight_components_nth)
  have comp: "ccanon (karatsuba_cm31 (s ! 0) (s ! (0 + 1)) (s ! (0 + 2)))"
    "ccanon (karatsuba_cm31 (s ! 3) (s ! (3 + 1)) (s ! (3 + 2)))"
    "cval (karatsuba_cm31 (s ! 0) (s ! (0 + 1)) (s ! (0 + 2))) = kcm (\<lambda>j. gval (s ! (0 + j)))"
    "cval (karatsuba_cm31 (s ! 3) (s ! (3 + 1)) (s ! (3 + 2))) = kcm (\<lambda>j. gval (s ! (3 + j)))"
    by (rule component_val; use s in simp)+
  have "kcm (\<lambda>j. gval (s ! (0 + j))) = (\<Sum>k<n. cval (qm_c0 (w k)) * cval (v k))"
    using ws kcm_cong [OF low] by (simp add: kcm_sum kcm_product)
  moreover have "kcm (\<lambda>j. gval (s ! (3 + j))) = (\<Sum>k<n. cval (qm_c1 (w k)) * cval (v k))"
    using ws kcm_cong [OF high] by (simp add: kcm_sum kcm_product)
  ultimately show ?thesis
    unfolding finish_cm31_def Let_def qcanon_QM31 qval_QM31 comp
    using comp by (simp add: qgf_eq_iff qgf_sum_sel q_of_c_def)
qed

lemma qm31_cm31_dot_val:
  assumes "length ws = length vs" "list_all qcanon ws" "list_all ccanon vs"
  shows "\<exists>z. qm31_cm31_dot ws vs = Some z \<and> qcanon z
    \<and> qval z = (\<Sum>k<length ws. qval (ws ! k) * q_of_c (cval (vs ! k)))"
proof -
  define t where "t = (\<lambda>k. cm31_product (prepared_weight_components (ws ! k)) (vs ! k))"
  have can: "k < length ws \<Longrightarrow> qcanon (ws ! k) \<and> ccanon (vs ! k)" for k
    using assms by (simp add: list_all_length)
  have "small_products (\<lambda>x. t x c) (length ws)" if "c < 6" for c
    using can that by (simp add: small_products_def t_def cm31_product_val)
  then have "canon (eager_row 6 t (length ws) ! c) \<and> gval (eager_row 6 t (length ws) ! c) = (\<Sum>k<length ws. wval (t k c))"
    if "c < 6" for c using that by (simp add: eager_row_val)
  from finish_cm31_val [OF can this [unfolded t_def]] show ?thesis
    using assms(1) by (simp add: qm31_cm31_dot_def)
qed

lemma cm31_rows_val:
  assumes "slot < 4" "\<And>k. k < n \<Longrightarrow> qcanon (w k) \<and> ccanon (v slot k)"
  defines "r \<equiv> finish_qm31_cm31_dot4 (window_rows 4 6 (\<lambda>k slot. cm31_product (prepared_weight_components (w k)) (v slot k)) n) ! slot"
  shows "qcanon r \<and> qval r = (\<Sum>k<n. qval (w k) * q_of_c (cval (v slot k)))"
proof -
  define t where "t = (\<lambda>k slot. cm31_product (prepared_weight_components (w k)) (v slot k))"
  have "small_products (\<lambda>x. t x slot c) n" if "c < 6" for c
    using assms(2) that by (simp add: small_products_def t_def cm31_product_val)
  then have "canon (window_rows 4 6 t n ! slot ! c) \<and> gval (window_rows 4 6 t n ! slot ! c) = (\<Sum>k<n. wval (t k slot c))"
    if "c < 6" for c using assms(1) that by (simp add: window_rows_val)
  from finish_cm31_val [OF assms(2) this [unfolded t_def]] show ?thesis
    using assms(1) by (simp add: r_def finish_qm31_cm31_dot4_def)
qed


lemma qm31_cm31_dot4_val:
  assumes "length vs = 4" "list_all (\<lambda>row. length row = length ws \<and> list_all ccanon row) vs" "list_all qcanon ws"
  shows "\<exists>zs. qm31_cm31_dot4 ws vs = Some zs \<and> map Some zs = map (qm31_cm31_dot ws) vs"
proof -
  have row: "length (vs ! i) = length ws" "list_all ccanon (vs ! i)" if "i < 4" for i
    using assms(1,2) that by (simp_all add: list_all_length)
  define zs where "zs = finish_qm31_cm31_dot4 (window_rows 4 6
      (\<lambda>k slot. cm31_product (prepared_weight_components (ws ! k)) (vs ! slot ! k)) (length ws))"
  have len: "length zs = 4" by (simp add: zs_def finish_qm31_cm31_dot4_def)
  have "Some (zs ! i) = qm31_cm31_dot ws (vs ! i)" if i: "i < 4" for i
  proof -
    have "k < length ws \<Longrightarrow> qcanon (ws ! k) \<and> ccanon (vs ! i ! k)" for k
      using assms(3) row [OF i] by (simp add: list_all_length)
    from cm31_rows_val [where v = "\<lambda>i k. vs ! i ! k", OF i this]
    have "qcanon (zs ! i) \<and> qval (zs ! i) = (\<Sum>k<length ws. qval (ws ! k) * q_of_c (cval (vs ! i ! k)))"
      by (simp add: zs_def)
    moreover obtain z where "qm31_cm31_dot ws (vs ! i) = Some z \<and> qcanon z
        \<and> qval z = (\<Sum>k<length ws. qval (ws ! k) * q_of_c (cval (vs ! i ! k)))"
      using qm31_cm31_dot_val [of ws "vs ! i"] assms(3) row [OF i] by auto
    ultimately show ?thesis by (metis qval_inject)
  qed
  then have "map Some zs = map (qm31_cm31_dot ws) vs"
    using len assms(1) by (intro nth_equalityI) simp_all
  moreover have "qm31_cm31_dot4 ws vs = Some zs"
    using assms(2) by (auto simp: qm31_cm31_dot4_def zs_def list_all_iff)
  ultimately show ?thesis by blast
qed

lemma fold_pointwise_cong:
  assumes "\<And>x. x \<in> set xs \<Longrightarrow> f x = g x"
  shows "fold f xs s = fold g xs s"
  using assms by (intro fold_cong) auto

lemma window_rows_cong:
  assumes "\<And>x i. x < n' \<Longrightarrow> i < m \<Longrightarrow> t x i = u x i"
  shows "window_rows m n t n' = window_rows m n u n'"
proof -
  have block: "block_rows m n t s e = block_rows m n u s e" if "e \<le> n'" for s e
    unfolding block_rows_def using assms that
    by (intro fold_pointwise_cong ext map_cong refl) auto
  have lazy: "lazy_rows m n t a b = lazy_rows m n u a b" if "b \<le> n'" for a b
    unfolding lazy_rows_def using that by (simp add: block Let_def)
  show ?thesis unfolding window_rows_def by (simp add: lazy Let_def)
qed

lemma qm31_cm31_dot4_prepared_val:
  assumes "prepared_weights_new n ws = Some pw" "length vs = 4" "list_all (\<lambda>row. length row = n) vs"
  shows "qm31_cm31_dot4 ws vs = Some (qm31_cm31_dot4_prepared n pw vs)"
proof -
  have n: "length ws = n" and pw: "weight_components pw = map (\<lambda>k. prepared_weight_components (ws ! k)) [0..<n]"
    using assms(1) by (auto simp: prepared_weights_new_def split: if_splits)
  have "window_rows 4 6 (\<lambda>k slot. cm31_product (weight_components pw ! k) (vs ! slot ! k)) n
      = window_rows 4 6 (\<lambda>k slot. cm31_product (prepared_weight_components (ws ! k)) (vs ! slot ! k)) n"
    by (rule window_rows_cong) (simp add: pw)
  then show ?thesis
    using assms(2,3) n by (auto simp: qm31_cm31_dot4_def qm31_cm31_dot4_prepared_def list_all_iff)
qed

lemma geometric_loop:
  assumes "qcanon g"
  defines "r \<equiv> \<lambda>n. fold (\<lambda>_ (components, power). (components @ [prepared_weight_components power], qm31_mul power g))
      [0..<n] ([], QM31_ONE)"
  shows "qcanon (snd (r n)) \<and> qval (snd (r n)) = qval g ^ n
    \<and> fst (r n) = map prepared_weight_components (qm31_power_table n g)"
proof (induction n)
  case 0
  then show ?case by (simp add: r_def qm31_power_table_def)
next
  case (Suc n)
  have step: "r (Suc n) = (fst (r n) @ [prepared_weight_components (snd (r n))], qm31_mul (snd (r n)) g)"
    by (simp add: r_def case_prod_unfold)
  have "qm31_power_table (Suc n) g = qm31_power_table n g @ [snd (r n)]"
  proof (rule nth_equalityI)
    fix i assume "i < length (qm31_power_table (Suc n) g)"
    then have i: "i < Suc n" using assms(1) by (simp add: length_qm31_power_table)
    have r: "qcanon (snd (r n))" "qval (snd (r n)) = qval g ^ n" using Suc by simp_all
    show "qm31_power_table (Suc n) g ! i = (qm31_power_table n g @ [snd (r n)]) ! i"
      using i r assms(1) qm31_power_table_val [OF assms(1)]
      by (subst qval_inject [symmetric]) (auto simp: nth_append length_qm31_power_table less_Suc_eq)
  qed (use assms(1) in \<open>simp add: length_qm31_power_table\<close>)
  then show ?case using Suc assms(1) by (simp add: step mult.commute)
qed

lemma prepared_weights_geometric_val:
  assumes "qcanon g"
  shows "Some (fst (prepared_weights_geometric n g)) = prepared_weights_new n (qm31_power_table n g)"
    and "qval (snd (prepared_weights_geometric n g)) = qval g ^ n"
proof -
  have list: "map (\<lambda>i. prepared_weight_components (qm31_power_table n g ! i)) [0..<n]
      = map prepared_weight_components (qm31_power_table n g)"
    using assms by (intro nth_equalityI) (simp_all add: length_qm31_power_table)
  show "Some (fst (prepared_weights_geometric n g)) = prepared_weights_new n (qm31_power_table n g)"
    "qval (snd (prepared_weights_geometric n g)) = qval g ^ n"
    using geometric_loop [OF assms, of n] assms
    by (simp_all add: prepared_weights_geometric_def prepared_weights_new_def case_prod_unfold
        length_qm31_power_table list)
qed

section \<open>The wire of the byte kernels\<close>

text \<open>Four slots one after the other, each the images of its columns one after the other.\<close>

definition slot_major :: "('a \<Rightarrow> bytes) \<Rightarrow> 'a list list \<Rightarrow> bytes" where
  "slot_major wire rows = concat (map (\<lambda>row. concat (map wire row)) rows)"

definition cm31_wire :: "u32 \<times> u32 \<Rightarrow> bytes" where
  "cm31_wire v = to_le 4 (fst v) @ to_le 4 (snd v)"

lemma slot_major_seg:
  assumes "length rows = 4" "\<forall>row \<in> set rows. length row = n" "\<And>v. length (wire v) = k" "slot < 4" "index < n"
  shows "seg (wire_offset n k slot index) (wire_offset n k slot index + k) (slot_major wire rows) = wire (rows ! slot ! index)"
proof -
  have flat: "slot_major wire rows = concat (map wire (concat rows))" unfolding slot_major_def by (induction rows) simp_all
  have len: "length (concat rows) = 4 * n" using length_concat_const [of rows id n] assms(1,2) by simp
  have pos: "slot * n + index < 4 * n"
  proof -
    have "slot * n \<le> 3 * n" using assms(4) by (intro mult_le_mono1) simp
    then show ?thesis using assms(5) by linarith
  qed
  have "seg (slot * n) (slot * n + n) (concat rows) = rows ! slot" using seg_concat_const [of rows id n slot] assms(1,2,4) by simp
  moreover have "slot * n + n \<le> 4 * n" using assms(4) mult_le_mono1 [of "Suc slot" 4 n] by simp
  ultimately have "concat rows ! (slot * n + index) = rows ! slot ! index" using nth_seg [of index "slot * n + n" "slot * n" "concat rows"] assms(5) len by simp
  then show ?thesis
    unfolding wire_offset_def flat using seg_concat_const [of "concat rows" wire k "slot * n + index"] assms(3) pos len by simp
qed

lemma length_slot_major:
  assumes "length rows = 4" "\<forall>row \<in> set rows. length row = n" "\<And>v. length (wire v) = k"
  shows "length (slot_major wire rows) = 4 * n * k"
  unfolding slot_major_def using length_concat_const [of rows "\<lambda>row. concat (map wire row)" "n * k"] length_concat_const [where f = wire and k = k] assms by simp

lemma fold_or_zero: "fold (\<lambda>x acc. acc OR f x) xs a = 0 \<longleftrightarrow> a = 0 \<and> (\<forall>x \<in> set xs. f x = (0 :: u32))"
  by (induction xs arbitrary: a) (auto simp: or_eq_0_iff)

lemma invalid_flag_zero: "invalid_flag bytes offsets = 0 \<longleftrightarrow> (\<forall>offset \<in> set offsets. \<not> M31_P \<le> u32_at bytes offset)"
  by (simp add: invalid_flag_def fold_or_zero flag_at_def)

lemma steps_cover:
  assumes "0 < k"
  shows "(\<Union>start \<in> set (steps a b k). {start..<min (start + k) b}) = {a..<b}"
proof (intro equalityI subsetI)
  fix x assume x: "x \<in> {a..<b}"
  let ?i = "(x - a) div k"
  have "?i + 1 = (x - a + k) div k" using assms by (simp add: div_add_self2)
  also have "\<dots> \<le> (b - a + k - 1) div k" using x by (intro div_le_mono) auto
  finally have "?i < (b - a + k - 1) div k" by simp
  moreover have "a + ?i * k \<le> x" "x < a + ?i * k + k"
    using x div_mult_mod_eq [of "x - a" k] mod_less_divisor [OF assms, of "x - a"] unfolding atLeastLessThan_iff by linarith+
  ultimately show "x \<in> (\<Union>start \<in> set (steps a b k). {start..<min (start + k) b})" using x by (auto simp: steps_def)
qed (auto simp: steps_def)

lemma m31_mask: "\<not> M31_P \<le> v \<Longrightarrow> v AND M31_P = v"
proof -
  assume "\<not> M31_P \<le> v"
  then have "unat v < 2 ^ 31" by (simp add: word_le_nat_alt)
  then have "take_bit 31 v = v"
    unfolding word_unat_eq_iff unsigned_take_bit_eq by (simp add: take_bit_eq_mod)
  moreover have "M31_P = mask 31" by (simp add: M31_P_def mask_eq_exp_minus_1)
  ultimately show ?thesis by (simp add: take_bit_eq_mask)
qed

lemma u32_at_seg:
  assumes "seg offset (offset + n) bytes = xs" "d + 4 \<le> n"
  shows "u32_at bytes (offset + d) = from_le (seg d (d + 4) xs)"
  using assms(2) by (simp add: u32_at_def seg_seg add.assoc flip: assms(1))

lemma cm31_wire_limbs:
  assumes "length rows = 4" "\<forall>row \<in> set rows. length row = n" "slot < 4" "index < n"
  shows "u32_at (slot_major cm31_wire rows) (wire_offset n 8 slot index) = fst (rows ! slot ! index)"
    "u32_at (slot_major cm31_wire rows) (wire_offset n 8 slot index + 4) = snd (rows ! slot ! index)"
proof -
  have len: "length (cm31_wire v) = 8" for v by (simp add: cm31_wire_def)
  note s = slot_major_seg [where wire = cm31_wire and k = 8, OF assms(1,2) len assms(3,4)]
  show "u32_at (slot_major cm31_wire rows) (wire_offset n 8 slot index) = fst (rows ! slot ! index)"
    using u32_at_seg [OF s, of 0] by (simp add: cm31_wire_def seg_def)
  show "u32_at (slot_major cm31_wire rows) (wire_offset n 8 slot index + 4) = snd (rows ! slot ! index)"
    using u32_at_seg [OF s, of 4] by (simp add: cm31_wire_def seg_def)
qed

lemma UN_steps:
  assumes "0 < k"
  shows "(\<Union>start \<in> set (steps a b k). \<Union>x \<in> {start..<min (start + k) b}. F x) = (\<Union>x \<in> {a..<b}. F x)"
  using arg_cong [OF steps_cover [OF assms, where a = a and b = b], of "\<lambda>A. \<Union>x \<in> A. F x"] by (simp only: UN_UN_flatten)

lemma set_window_offsets:
  "set (window_offsets n) = (\<Union>index \<in> {0..<n}. \<Union>slot \<in> {0..<4}. {wire_offset n 8 slot index, wire_offset n 8 slot index + 4})"
  by (simp add: window_offsets_def Let_def UN_steps OUTER_COLUMNS_def)

text \<open>What four dot products return: nothing for a rejected wire, and else the four values in canonical form.\<close>

definition dot_result :: "bool \<Rightarrow> (nat \<Rightarrow> qgf) \<Rightarrow> qm31 list option \<Rightarrow> bool" where
  "dot_result accepted value r \<longleftrightarrow> (case r of None \<Rightarrow> \<not> accepted
     | Some zs \<Rightarrow> accepted \<and> length zs = 4 \<and> (\<forall>slot < 4. qcanon (zs ! slot) \<and> qval (zs ! slot) = value slot))"

definition cm31_pair :: "u32 \<times> u32 \<Rightarrow> cm31" where
  "cm31_pair v = CM31 (M31 (fst v)) (M31 (snd v))"

lemma cm31_bytes_val:
  assumes rows: "length rows = 4" "\<forall>row \<in> set rows. length row = n" and ws: "prepared_weights_new n ws = Some pw" "list_all qcanon ws"
  shows "dot_result (\<forall>row \<in> set rows. \<forall>v \<in> set row. fst v < M31_P \<and> snd v < M31_P)
    (\<lambda>slot. \<Sum>k<n. qval (ws ! k) * q_of_c (cval (cm31_pair (rows ! slot ! k)))) (qm31_cm31_dot4_prepared_bytes n pw (slot_major cm31_wire rows))"
proof -
  let ?b = "slot_major cm31_wire rows"
  let ?v = "\<lambda>slot k. cm31_pair (rows ! slot ! k)"
  note limbs = cm31_wire_limbs [OF rows]
  have all: "(\<forall>row \<in> set rows. \<forall>v \<in> set row. P v) \<longleftrightarrow> (\<forall>k < n. \<forall>slot < 4. P (rows ! slot ! k))" for P
    using rows by (auto simp: all_set_conv_all_nth)
  have flag: "invalid_flag ?b (window_offsets n) = 0 \<longleftrightarrow> (\<forall>row \<in> set rows. \<forall>v \<in> set row. fst v < M31_P \<and> snd v < M31_P)"
    unfolding invalid_flag_zero set_window_offsets all by (auto simp: limbs not_le)
  have len: "length ?b = 4 * n * 8" using rows by (rule length_slot_major) (simp add: cm31_wire_def)
  have pw: "length ws = n" "k < n \<Longrightarrow> weight_components pw ! k = prepared_weight_components (ws ! k)" for k
    using ws(1) by (auto simp: prepared_weights_new_def split: if_splits)
  show ?thesis
  proof (cases "\<forall>row \<in> set rows. \<forall>v \<in> set row. fst v < M31_P \<and> snd v < M31_P")
    case True
    have sums: "window_rows 4 6 (\<lambda>index slot. let offset = wire_offset n 8 slot index;
            value_a = M31 (u32_at ?b offset AND M31_P); value_b = M31 (u32_at ?b (offset + 4) AND M31_P)
          in cm31_product (weight_components pw ! index) (CM31 value_a value_b)) n
      = window_rows 4 6 (\<lambda>k slot. cm31_product (prepared_weight_components (ws ! k)) (?v slot k)) n"
      using True [unfolded all] by (intro window_rows_cong) (simp add: limbs pw m31_mask not_le cm31_pair_def Let_def)
    have "qcanon (ws ! k) \<and> ccanon (?v slot k)" if "k < n" "slot < 4" for k slot
      using ws(2) pw(1) True [unfolded all] that by (simp add: list_all_length cm31_pair_def canon_def)
    note cm31_rows_val [where w = "\<lambda>k. ws ! k" and v = ?v, OF _ this]
    then show ?thesis
      using len flag True sums by (simp add: dot_result_def qm31_cm31_dot4_prepared_bytes_def finish_qm31_cm31_dot4_def)
  qed (use len flag in \<open>auto simp: dot_result_def qm31_cm31_dot4_prepared_bytes_def\<close>)
qed

section \<open>Base-field columns\<close>

lemma length_qm31_limbs: "length (qm31_limbs w) = 4"
  by (simp add: qm31_limbs_def)

lemma qm31_limbs_canon: "qcanon w \<Longrightarrow> c < 4 \<Longrightarrow> canon (qm31_limbs w ! c)"
  by (auto simp: qm31_limbs_def less_Suc_eq numeral_eq_Suc)

lemma m31_product_val:
  assumes "qcanon w" "canon v" "c < 4"
  shows "unat (m31_product (qm31_limbs w) v c) \<le> max_product"
    and "wval (m31_product (qm31_limbs w) v c) = gval (qm31_limbs w ! c) * gval v"
  using assms qm31_limbs_canon [OF assms(1,3)] unfolding m31_product_def by (simp_all add: raw_product_le)

lemma cgf_sum_sel: "cre (\<Sum>k\<in>A. f k) = (\<Sum>k\<in>A. cre (f k))" "cim (\<Sum>k\<in>A. f k) = (\<Sum>k\<in>A. cim (f k))"
  by (induction A rule: infinite_finite_induct) simp_all

lemma qm31_of_limbs_val:
  assumes ws: "\<And>k. k < n \<Longrightarrow> qcanon (w k) \<and> canon (v k)"
    and s: "\<And>c. c < 4 \<Longrightarrow> canon (s ! c) \<and> gval (s ! c) = (\<Sum>k<n. wval (m31_product (qm31_limbs (w k)) (v k) c))"
  shows "qcanon (qm31_of_limbs s) \<and> qval (qm31_of_limbs s) = (\<Sum>k<n. qval (w k) * q_of_g (gval (v k)))"
proof -
  have "gval (s ! c) = (\<Sum>k<n. gval (qm31_limbs (w k) ! c) * gval (v k))" if "c < 4" for c
    using s [OF that] ws that by (simp add: m31_product_val)
  from this [of 0] this [of 1] this [of 2] this [of 3] s [of 0] s [of 1] s [of 2] s [of 3]
  show ?thesis
    by (simp add: qm31_of_limbs_def cm31_new_def qgf_eq_iff cgf_eq_iff qgf_sum_sel cgf_sum_sel q_of_g_def qm31_limbs_def)
qed

lemma m31_small:
  assumes "\<And>k. k < n \<Longrightarrow> qcanon (w k) \<and> canon (v k)" "c < 4"
  shows "small_products (\<lambda>k. m31_product (qm31_limbs (w k)) (v k) c) n"
  using assms by (simp add: small_products_def m31_product_val)

lemma finish_m31_val:
  assumes ws: "\<And>k. k < n \<Longrightarrow> qcanon (w k) \<and> canon (v k)" and len: "length s = 4"
    and s: "\<And>c. c < 4 \<Longrightarrow> wval (s ! c) = (\<Sum>k<n. wval (m31_product (qm31_limbs (w k)) (v k) c))"
  shows "qcanon (finish_m31 s) \<and> qval (finish_m31 s) = (\<Sum>k<n. qval (w k) * q_of_g (gval (v k)))"
  unfolding finish_m31_def by (rule qm31_of_limbs_val [OF ws]) (simp_all add: s len)

lemma length_rows [simp]:
  "length (block_row n t a b) = n" "length (lazy_row n t a b) = n"
proof -
  have "length (fold (\<lambda>x acc. map (f x acc) [0..<n]) xs (replicate n v)) = n" for f :: "nat \<Rightarrow> u64 list \<Rightarrow> nat \<Rightarrow> u64" and xs v
    by (induction xs rule: rev_induct) simp_all
  then show "length (block_row n t a b) = n" "length (lazy_row n t a b) = n"
    by (simp_all add: block_row_def lazy_row_def Let_def)
qed

lemma qm31_m31_dot_val:
  assumes "length ws = length vs" "list_all qcanon ws" "list_all canon vs" "length ws \<le> 17179869184"
  shows "\<exists>z. qm31_m31_dot ws vs = Some z \<and> qcanon z
    \<and> qval z = (\<Sum>k<length ws. qval (ws ! k) * q_of_g (gval (vs ! k)))"
proof -
  define t where "t = (\<lambda>k. m31_product (qm31_limbs (ws ! k)) (vs ! k))"
  have can: "k < length ws \<Longrightarrow> qcanon (ws ! k) \<and> canon (vs ! k)" for k
    using assms by (simp add: list_all_length)
  have small: "small_products (\<lambda>x. t x c) (length ws)" if "c < 4" for c
    unfolding t_def using can that by (intro m31_small)
  have "wval (lazy_row 4 t 0 (length ws) ! c) = (\<Sum>k<length ws. wval (t k c))" if "c < 4" for c
    using that small [OF that] assms(4) by (intro lazy_row_val)
  note long = finish_m31_val [OF can _ this [unfolded t_def], folded t_def]
  have "wval (block_row 4 t 0 (length ws) ! c) = (\<Sum>k<length ws. wval (t k c))" if "c < 4" "length ws \<le> 4" for c
    using block_sum_val [OF small [OF that(1)], of "length ws" 0] that by (simp add: block_row_nth atLeast0LessThan)
  note short = finish_m31_val [OF can _ this [unfolded t_def], folded t_def]
  show ?thesis
    using assms(1) long short by (auto simp: qm31_m31_dot_def Let_def simp flip: t_def)
qed


lemma qm31_m31_dot_eager_outer_val:
  assumes "length ws = length vs" "list_all qcanon ws" "list_all canon vs"
  shows "\<exists>z. qm31_m31_dot_eager_outer ws vs = Some z \<and> qcanon z
    \<and> qval z = (\<Sum>k<length ws. qval (ws ! k) * q_of_g (gval (vs ! k)))"
proof -
  define t where "t = (\<lambda>k. m31_product (qm31_limbs (ws ! k)) (vs ! k))"
  have can: "k < length ws \<Longrightarrow> qcanon (ws ! k) \<and> canon (vs ! k)" for k
    using assms by (simp add: list_all_length)
  have "small_products (\<lambda>x. t x c) (length ws)" if "c < 4" for c
    unfolding t_def using can that by (intro m31_small)
  then have "canon (eager_row 4 t (length ws) ! c) \<and> gval (eager_row 4 t (length ws) ! c) = (\<Sum>k<length ws. wval (t k c))"
    if "c < 4" for c using that by (simp add: eager_row_val)
  from qm31_of_limbs_val [OF can this [unfolded t_def]] show ?thesis
    using assms(1) by (simp add: qm31_m31_dot_eager_outer_def)
qed

lemma length_fold_rows:
  "i < m \<Longrightarrow> length (fold (\<lambda>x acc. map (\<lambda>i. map (f x acc i) [0..<n]) [0..<m]) xs (replicate m (replicate n v)) ! i) = n"
  by (induction xs rule: rev_induct) simp_all

lemma qm31_m31_dot4_val:
  assumes "length vs = 4" "list_all (\<lambda>row. length row = length ws \<and> list_all canon row) vs"
    "list_all qcanon ws" "length ws \<le> 17179869184"
  shows "\<exists>zs. qm31_m31_dot4 ws vs = Some zs \<and> map Some zs = map (qm31_m31_dot ws) vs"
proof -
  have row: "length (vs ! i) = length ws" "list_all canon (vs ! i)" if "i < 4" for i
    using assms(1,2) that by (simp_all add: list_all_length)
  define t where "t = (\<lambda>k slot. m31_product (qm31_limbs (ws ! k)) (vs ! slot ! k))"
  define zs where "zs = finish_qm31_m31_dot4 (window_sums 4 4 t (length ws))"
  have len: "length zs = 4" by (simp add: zs_def finish_qm31_m31_dot4_def)
  have "Some (zs ! i) = qm31_m31_dot ws (vs ! i)" if i: "i < 4" for i
  proof -
    have can: "k < length ws \<Longrightarrow> qcanon (ws ! k) \<and> canon (vs ! i ! k)" for k
      using assms(3) row [OF i] by (simp add: list_all_length)
    have rowlen: "length (window_sums 4 4 t (length ws) ! i) = 4"
      unfolding window_sums_def Let_def by (rule length_fold_rows [OF i])
    have "small_products (\<lambda>x. t x i c) (length ws)" if "c < 4" for c
      unfolding t_def using can that by (intro m31_small)
    then have "wval (window_sums 4 4 t (length ws) ! i ! c) = (\<Sum>k<length ws. wval (t k i c))" if "c < 4" for c
      using that i assms(4) by (simp add: window_sums_val)
    from finish_m31_val [OF can rowlen [unfolded t_def] this [unfolded t_def], folded t_def]
    have "qcanon (zs ! i) \<and> qval (zs ! i) = (\<Sum>k<length ws. qval (ws ! k) * q_of_g (gval (vs ! i ! k)))"
      using i by (simp add: zs_def finish_qm31_m31_dot4_def)
    moreover obtain z where "qm31_m31_dot ws (vs ! i) = Some z \<and> qcanon z
        \<and> qval z = (\<Sum>k<length ws. qval (ws ! k) * q_of_g (gval (vs ! i ! k)))"
      using qm31_m31_dot_val [of ws "vs ! i"] assms(3,4) row [OF i] by auto
    ultimately show ?thesis by (metis qval_inject)
  qed
  then have "map Some zs = map (qm31_m31_dot ws) vs"
    using len assms(1) by (intro nth_equalityI) simp_all
  moreover have "qm31_m31_dot4 ws vs = Some zs"
    using assms(2) by (auto simp: qm31_m31_dot4_def zs_def t_def list_all_iff)
  ultimately show ?thesis by blast
qed

section \<open>The byte kernels agree\<close>

lemma set_row_offsets: "set (row_offsets n) = (\<Union>slot \<in> {0..<4}. wire_offset n 4 slot ` {0..<n})"
proof -
  have "(\<Union>start \<in> set (steps 0 n 4). wire_offset n 4 slot ` {start..<min (start + 4) n}) = wire_offset n 4 slot ` {0..<n}" for slot
    by (simp only: steps_cover flip: image_UN zero_less_numeral)
  then show ?thesis by (simp add: row_offsets_def)
qed

lemma set_block_offsets: "set (block_offsets n blocks slot) = wire_offset n 4 slot ` {0..<4 * blocks}"
proof -
  have "(\<Union>block \<in> {0..<blocks}. {block * 4..<block * 4 + 4}) = {0..<4 * blocks}"
  proof (intro equalityI subsetI)
    fix x assume "x \<in> {0..<4 * blocks}"
    then have "x div 4 \<in> {0..<blocks}" "x \<in> {x div 4 * 4..<x div 4 * 4 + 4}" by auto
    then show "x \<in> (\<Union>block \<in> {0..<blocks}. {block * 4..<block * 4 + 4})" by blast
  qed auto
  then show ?thesis by (simp add: block_offsets_def Let_def flip: image_UN)
qed

lemma flag_cong: "set xs = set ys \<Longrightarrow> invalid_flag b xs = 0 \<longleftrightarrow> invalid_flag b ys = 0"
  by (simp add: invalid_flag_zero)

text \<open>The blocks and the tail of a fixed width read what the general loops read.\<close>

lemma flag_blocks:
  assumes "4 * blocks \<le> n" "\<And>slot. set (tail slot) = wire_offset n 4 slot ` {4 * blocks..<n}"
  shows "invalid_flag b (concat (map (\<lambda>slot. block_offsets n blocks slot @ tail slot) [0..<4])) = 0 \<longleftrightarrow> invalid_flag b (row_offsets n) = 0"
proof (rule flag_cong)
  have "wire_offset n 4 slot ` {0..<4 * blocks} \<union> wire_offset n 4 slot ` {4 * blocks..<n} = wire_offset n 4 slot ` {0..<n}" for slot
    using assms(1) ivl_disj_un_two(3) [of 0 "4 * blocks" n] by (simp flip: image_Un)
  then show "set (concat (map (\<lambda>slot. block_offsets n blocks slot @ tail slot) [0..<4])) = set (row_offsets n)"
    by (simp add: set_row_offsets set_block_offsets assms(2))
qed

lemma steps_blocks: "r < 4 \<Longrightarrow> steps 0 (4 * b + r) 4 = map (\<lambda>i. i * 4) [0..<b] @ (if r = 0 then [] else [b * 4])"
proof (cases "r = 0")
  case False
  assume "r < 4"
  with False have "(3 + (4 * b + r)) div 4 = Suc b" by (intro div_nat_eqI) simp_all
  with False show ?thesis by (simp add: steps_def)
qed (simp add: steps_def)

lemma lazy_row_blocks:
  assumes "r < 4"
  shows "lazy_row 4 t 0 (4 * b + r) = (if r = 0 then exact_blocks b t
     else map (\<lambda>c. exact_blocks b t ! c + u64_from (m31_reduce_u64 (block_row 4 t (b * 4) (b * 4 + r) ! c))) [0..<4])"
proof -
  let ?step = "\<lambda>start sums. map (\<lambda>c. sums ! c + u64_from (m31_reduce_u64 (block_row 4 t start (min (start + 4) (4 * b + r)) ! c))) [0..<4]"
  have "fold ?step (map (\<lambda>i. i * 4) [0..<b]) (replicate 4 0) = exact_blocks b t"
    unfolding exact_blocks_def Let_def fold_map comp_def
    by (intro fold_pointwise_cong ext) (auto simp: min_def)
  then show ?thesis
    using assms unfolding lazy_row_def Let_def steps_blocks [OF assms] by (simp add: min_def mult.commute)
qed

lemma block_row_single: "c < 4 \<Longrightarrow> block_row 4 t k (k + 1) ! c = t k c"
  by (simp add: block_row_nth word_sum_def)

lemma limbs_4b1_eq:
  "qm31_m31_dot4_prepared_limbs_4b1_bytes n w b
     = (if n mod 4 = 1 then qm31_m31_dot4_prepared_limbs_bytes n w b else None)"
proof (cases "n mod 4 = 1")
  case True
  then have n: "n = 4 * (n div 4) + 1" by presburger
  have "map (\<lambda>c. exact_blocks (n div 4) t ! c + u64_from (m31_reduce_u64 (t (n - 1) c))) [0..<4] = lazy_row 4 t 0 n" for t
  proof -
    have "lazy_row 4 t 0 (4 * (n div 4) + 1) = map (\<lambda>c. exact_blocks (n div 4) t ! c
        + u64_from (m31_reduce_u64 (block_row 4 t (n div 4 * 4) (n div 4 * 4 + 1) ! c))) [0..<4]"
      by (subst lazy_row_blocks) simp_all
    moreover have "n - 1 = n div 4 * 4" using n by simp
    ultimately show ?thesis using n by (metis (no_types, lifting) atLeastLessThan_iff block_row_single map_cong set_upt)
  qed
  moreover have "4 * (n div 4) \<le> n" "{4 * (n div 4)..<n} = {n - 1}" using n by auto
  ultimately show ?thesis
    using True flag_blocks [of "n div 4" n "\<lambda>slot. [wire_offset n 4 slot (n - 1)]" b]
    by (auto simp: qm31_m31_dot4_prepared_limbs_4b1_bytes_def qm31_m31_dot4_prepared_limbs_bytes_def Let_def)
qed (simp add: qm31_m31_dot4_prepared_limbs_4b1_bytes_def)

lemma limbs_4b_eq:
  "qm31_m31_dot4_prepared_limbs_4b_bytes n w b
     = (if n \<noteq> 0 \<and> n mod 4 = 0 then qm31_m31_dot4_prepared_limbs_bytes n w b else None)"
proof (cases "n \<noteq> 0 \<and> n mod 4 = 0")
  case True
  then have n: "n = 4 * (n div 4) + 0" by presburger
  then have "exact_blocks (n div 4) t = lazy_row 4 t 0 n" for t
    using lazy_row_blocks [of 0 t "n div 4"] by simp
  moreover have "4 * (n div 4) \<le> n" "{4 * (n div 4)..<n} = {}" using n by auto
  ultimately show ?thesis
    using True flag_blocks [of "n div 4" n "\<lambda>slot. []" b]
    by (auto simp: qm31_m31_dot4_prepared_limbs_4b_bytes_def qm31_m31_dot4_prepared_limbs_bytes_def Let_def)
qed (auto simp: qm31_m31_dot4_prepared_limbs_4b_bytes_def)

lemma limbs_4b2_eq:
  "qm31_m31_dot4_prepared_limbs_4b2_bytes n w b
     = (if n mod 4 = 2 then qm31_m31_dot4_prepared_limbs_bytes n w b else None)"
proof (cases "n mod 4 = 2")
  case True
  then have n: "4 * (n div 4) + 2 = n" by presburger
  then have tail: "n - 2 = n div 4 * 4" "n div 4 * 4 + 2 = n" by simp_all
  have "map (\<lambda>c. exact_blocks (n div 4) t ! c + u64_from (m31_reduce_u64 (block_row 4 t (n - 2) n ! c))) [0..<4] = lazy_row 4 t 0 n" for t
    using lazy_row_blocks [of 2 t "n div 4"] unfolding n tail by simp
  moreover have "\<not> n < 2" using True by (cases "n < 2") auto
  moreover have "4 * (n div 4) \<le> n" "{4 * (n div 4)..<n} = {n - 2..<n}" using tail by (auto simp: mult.commute)
  ultimately show ?thesis
    using True flag_blocks [of "n div 4" n "\<lambda>slot. map (wire_offset n 4 slot) [n - 2..<n]" b]
    by (auto simp: qm31_m31_dot4_prepared_limbs_4b2_bytes_def qm31_m31_dot4_prepared_limbs_bytes_def Let_def)
qed (auto simp: qm31_m31_dot4_prepared_limbs_4b2_bytes_def)

lemma limbs49_eq:
  "qm31_m31_dot4_prepared_limbs49_bytes w b = qm31_m31_dot4_prepared_limbs_bytes 49 w b"
proof -
  have "qm31_m31_dot4_prepared_limbs49_bytes w b = qm31_m31_dot4_prepared_limbs_4b1_bytes 49 w b"
    by (simp add: qm31_m31_dot4_prepared_limbs49_bytes_def qm31_m31_dot4_prepared_limbs_4b1_bytes_def)
  then show ?thesis by (simp add: limbs_4b1_eq)
qed

lemma exact_blocks_nth:
  "c < 4 \<Longrightarrow> exact_blocks blocks t ! c
     = word_sum (\<lambda>s. u64_from (m31_reduce_u64 (word_sum (\<lambda>x. t x c) [s * 4..<s * 4 + 4]))) [0..<blocks]"
  using fold_pointwise [where f = "\<lambda>s c r. r + u64_from (m31_reduce_u64 (block_row 4 t (s * 4) (s * 4 + 4) ! c))"
      and g = "\<lambda>c. 0" and n = 4 and xs = "[0..<blocks]"]
  unfolding exact_blocks_def word_sum_def [of _ "[0..<blocks]"] Let_def replicate_map
  by (simp add: block_row_nth del: upt_Suc)

lemma exact_block_rows_nth:
  assumes "i < m" "c < 4"
  shows "exact_block_rows m blocks t ! i ! c = exact_blocks blocks (\<lambda>x. t x i) ! c"
  using assms fold_pointwise2 [where f = "\<lambda>s i c r. r + u64_from (m31_reduce_u64 (block_rows m 4 t (s * 4) (s * 4 + 4) ! i ! c))"
      and g = "\<lambda>i c. 0" and m = 4 and n = m and xs = "[0..<blocks]"]
  unfolding exact_block_rows_def exact_blocks_nth [OF assms(2)] word_sum_def [of _ "[0..<blocks]"] Let_def
  by (simp only: replicate_map) (simp add: block_rows_nth del: upt_Suc)

lemma limbs49_two_rows_eq:
  "qm31_m31_dot4_prepared_limbs49_bytes_two_rows w b = qm31_m31_dot4_prepared_limbs49_bytes w b"
proof -
  have row: "finish_m31 (map (\<lambda>c. exact_block_rows 2 12 (\<lambda>index row. wire_product 49 w b (2 * pair + row) index) ! row ! c
       + u64_from (m31_reduce_u64 (wire_product 49 w b (2 * pair + row) 48 c))) [0..<4])
    = finish_m31 (map (\<lambda>c. exact_blocks 12 (wire_product 49 w b (2 * pair + row)) ! c
       + u64_from (m31_reduce_u64 (wire_product 49 w b (2 * pair + row) 48 c))) [0..<4])" if "row < 2" for pair row
    using that by (intro arg_cong [of _ _ finish_m31] map_cong refl) (simp add: exact_block_rows_nth)
  have upt: "[0..<2] = [0, 1 :: nat]" "[0..<4] = [0, 1, 2, 3 :: nat]" by (simp_all add: upt_rec)
  have flag: "invalid_flag b (concat (map (\<lambda>pair. concat (map (\<lambda>block. concat (map (\<lambda>index. map (\<lambda>row. wire_offset 49 4 (2 * pair + row) index) [0..<2])
        [block * 4..<block * 4 + 4])) [0..<12]) @ map (\<lambda>row. wire_offset 49 4 (2 * pair + row) 48) [0..<2]) [0..<2])) = 0
      \<longleftrightarrow> invalid_flag b (concat (map (\<lambda>slot. block_offsets 49 12 slot @ [wire_offset 49 4 slot 48]) [0..<4])) = 0"
    by (rule flag_cong) (auto simp: block_offsets_def Let_def upt)
  show ?thesis
    using row [of 0 0] row [of 1 0] row [of 0 1] row [of 1 1] upt flag
    unfolding qm31_m31_dot4_prepared_limbs49_bytes_two_rows_def qm31_m31_dot4_prepared_limbs49_bytes_def Let_def
    by simp
qed

lemma lazy_row_cong:
  assumes "\<And>x c. x < b \<Longrightarrow> c < n \<Longrightarrow> t x c = u x c"
  shows "lazy_row n t a b = lazy_row n u a b"
proof (rule nth_equalityI)
  fix c assume "c < length (lazy_row n t a b)"
  then have c: "c < n" by simp
  have "word_sum (\<lambda>x. t x c) [s..<min (s + 4) b] = word_sum (\<lambda>x. u x c) [s..<min (s + 4) b]" for s
    unfolding word_sum_def using assms c by (intro fold_pointwise_cong ext) auto
  then show "lazy_row n t a b ! c = lazy_row n u a b ! c" using c by (simp add: lazy_row_nth lazy_sum_def)
qed simp

lemma m31_bytes_val:
  assumes rows: "length rows = 4" "\<forall>row \<in> set rows. length row = n" and ws: "length ws = n" "list_all qcanon ws" "n \<le> 17179869184"
  shows "dot_result (\<forall>row \<in> set rows. \<forall>v \<in> set row. v < M31_P)
    (\<lambda>slot. \<Sum>k<n. qval (ws ! k) * q_of_g (gval (M31 (rows ! slot ! k)))) (qm31_m31_dot4_prepared_bytes n ws (slot_major (to_le 4) rows))"
proof -
  let ?b = "slot_major (to_le 4) rows" and ?limbs = "map (\<lambda>w. map limb (qm31_limbs w)) ws"
  let ?v = "\<lambda>slot k. M31 (rows ! slot ! k)"
  have limb: "u32_at ?b (wire_offset n 4 slot index) = rows ! slot ! index" if "slot < 4" "index < n" for slot index
    using slot_major_seg [OF rows _ that, of "to_le 4" 4] by (simp add: u32_at_def)
  have all: "(\<forall>row \<in> set rows. \<forall>v \<in> set row. P v) \<longleftrightarrow> (\<forall>slot < 4. \<forall>k < n. P (rows ! slot ! k))" for P
    using rows by (auto simp: all_set_conv_all_nth)
  have flag: "invalid_flag ?b (row_offsets n) = 0 \<longleftrightarrow> (\<forall>row \<in> set rows. \<forall>v \<in> set row. v < M31_P)"
    unfolding invalid_flag_zero set_row_offsets all by (auto simp: limb not_le)
  have len: "length ?b = 4 * n * 4" using rows by (rule length_slot_major) simp
  show ?thesis
  proof (cases "\<forall>row \<in> set rows. \<forall>v \<in> set row. v < M31_P")
    case True
    have "qcanon (finish_m31 (lazy_row 4 (wire_product n ?limbs ?b slot) 0 n)) \<and> qval (finish_m31 (lazy_row 4 (wire_product n ?limbs ?b slot) 0 n))
        = (\<Sum>k<n. qval (ws ! k) * q_of_g (gval (?v slot k)))" if slot: "slot < 4" for slot
    proof -
      have can: "qcanon (ws ! k) \<and> canon (?v slot k)" if "k < n" for k
        using ws(1,2) True [unfolded all] slot that by (simp add: list_all_length canon_def)
      have eq: "lazy_row 4 (wire_product n ?limbs ?b slot) 0 n = lazy_row 4 (\<lambda>k. m31_product (qm31_limbs (ws ! k)) (?v slot k)) 0 n"
        using ws(1) True [unfolded all] slot
        by (intro lazy_row_cong) (simp add: wire_product_def m31_product_def limb m31_mask not_le u64_from_def length_qm31_limbs)
      have "wval (lazy_row 4 (\<lambda>k. m31_product (qm31_limbs (ws ! k)) (?v slot k)) 0 n ! c)
          = (\<Sum>k<n. wval (m31_product (qm31_limbs (ws ! k)) (?v slot k) c))" if "c < 4" for c
        using that can ws(3) by (intro lazy_row_val m31_small)
      from finish_m31_val [OF can _ this] show ?thesis by (simp add: eq)
    qed
    then show ?thesis
      using len flag True by (simp add: dot_result_def qm31_m31_dot4_prepared_bytes_def qm31_m31_dot4_prepared_limbs_bytes_def)
  qed (use len flag in \<open>auto simp: dot_result_def qm31_m31_dot4_prepared_bytes_def qm31_m31_dot4_prepared_limbs_bytes_def\<close>)
qed

section \<open>The full dot product\<close>

lemma less_9_split: "c < 9 \<Longrightarrow> c div 3 < 3 \<and> c mod 3 < (3 :: nat)"
  by auto

lemma qm31_product_val:
  assumes "qcanon w" "qcanon v" "c < 9"
  shows "unat (qm31_product w v c) \<le> max_product"
    and "wval (qm31_product w v c)
      = gval (karatsuba_components w ! (c div 3) ! (c mod 3)) * gval (karatsuba_components v ! (c div 3) ! (c mod 3))"
  using components_canon [OF assms(1)] components_canon [OF assms(2)] less_9_split [OF assms(3)]
  unfolding qm31_product_def by (simp_all add: raw_product_le)

lemma finish_qm31_val:
  assumes ws: "\<And>k. k < n \<Longrightarrow> qcanon (w k) \<and> qcanon (v k)"
    and s: "\<And>c. c < 9 \<Longrightarrow> canon (s ! c) \<and> gval (s ! c) = (\<Sum>k<n. wval (qm31_product (w k) (v k) c))"
  shows "qcanon (finish_qm31 s) \<and> qval (finish_qm31 s) = (\<Sum>k<n. qval (w k) * qval (v k))"
proof -
  have entry: "gval (s ! (3 * i + j)) = (\<Sum>k<n. gval (karatsuba_components (w k) ! i ! j) * gval (karatsuba_components (v k) ! i ! j))"
    if "i < 3" "j < 3" for i j
    using s [of "3 * i + j"] that ws by (simp add: qm31_product_val)
  have comp: "ccanon (karatsuba_cm31 (s ! k) (s ! (k + 1)) (s ! (k + 2)))"
    "cval (karatsuba_cm31 (s ! k) (s ! (k + 1)) (s ! (k + 2))) = kcm (\<lambda>j. gval (s ! (k + j)))" if "k < 7" for k
    by (rule component_val; use s that in simp)+
  have can: "qcanon (finish_qm31 s)"
    unfolding finish_qm31_def Let_def using comp [of 0] comp [of 3] comp [of 6] by simp
  have "qval (finish_qm31 s) = kqm (\<lambda>i j. gval (s ! (3 * i + j)))"
    unfolding finish_qm31_def Let_def kqm_def using comp [of 0] comp [of 3] comp [of 6] by simp
  also have "kqm (\<lambda>i j. gval (s ! (3 * i + j))) = kqm (\<lambda>i j. \<Sum>k<n. gval (karatsuba_components (w k) ! i ! j) * gval (karatsuba_components (v k) ! i ! j))"
    using entry by (rule kqm_cong)
  also have "\<dots> = (\<Sum>k<n. qval (w k) * qval (v k))" using ws by (simp add: kqm_sum components_product)
  finally show ?thesis using can by simp
qed

lemma qm31_dot_val:
  assumes "length ws = length vs" "list_all qcanon ws" "list_all qcanon vs"
  shows "\<exists>z. qm31_dot ws vs = Some z \<and> qcanon z \<and> qval z = (\<Sum>k<length ws. qval (ws ! k) * qval (vs ! k))"
proof -
  define t where "t = (\<lambda>k. qm31_product (ws ! k) (vs ! k))"
  have can: "k < length ws \<Longrightarrow> qcanon (ws ! k) \<and> qcanon (vs ! k)" for k
    using assms by (simp add: list_all_length)
  have small: "small_products (\<lambda>x. t x c) (length ws)" if "c < 9" for c
    using can that by (simp add: small_products_def t_def qm31_product_val)
  have "canon (eager_row 9 t (length ws) ! c) \<and> gval (eager_row 9 t (length ws) ! c) = (\<Sum>k<length ws. wval (t k c))"
    if "c < 9" for c using that small by (simp add: eager_row_val)
  note short = finish_qm31_val [OF can this [unfolded t_def], folded t_def]
  have "canon (window_row 9 t (length ws) ! c) \<and> gval (window_row 9 t (length ws) ! c) = (\<Sum>k<length ws. wval (t k c))"
    if "c < 9" for c using that small by (simp add: window_row_val)
  note long = finish_qm31_val [OF can this [unfolded t_def], folded t_def]
  from short long assms(1) show ?thesis by (auto simp: qm31_dot_def Let_def simp flip: t_def)
qed

lemma qm31_dot3_val:
  assumes "length vs = 3" "list_all (\<lambda>row. length row = length ws \<and> list_all qcanon row) vs" "list_all qcanon ws"
  shows "\<exists>zs. qm31_dot3 ws vs = Some zs \<and> map Some zs = map (qm31_dot ws) vs"
proof -
  have row: "length (vs ! i) = length ws" "list_all qcanon (vs ! i)" if "i < 3" for i
    using assms(1,2) that by (simp_all add: list_all_length)
  define t where "t = (\<lambda>k i. qm31_product (ws ! k) (vs ! i ! k))"
  define zs where "zs = map (\<lambda>i. finish_qm31 (window_rows 3 9 t (length ws) ! i)) [0..<3]"
  have "Some (zs ! i) = qm31_dot ws (vs ! i)" if i: "i < 3" for i
  proof -
    have can: "k < length ws \<Longrightarrow> qcanon (ws ! k) \<and> qcanon (vs ! i ! k)" for k
      using assms(3) row [OF i] by (simp add: list_all_length)
    have "small_products (\<lambda>x. t x i c) (length ws)" if "c < 9" for c
      using can that by (simp add: small_products_def t_def qm31_product_val)
    then have "canon (window_rows 3 9 t (length ws) ! i ! c) \<and> gval (window_rows 3 9 t (length ws) ! i ! c) = (\<Sum>k<length ws. wval (t k i c))"
      if "c < 9" for c using i that by (simp add: window_rows_val)
    from finish_qm31_val [OF can this [unfolded t_def], folded t_def]
    have "qcanon (zs ! i) \<and> qval (zs ! i) = (\<Sum>k<length ws. qval (ws ! k) * qval (vs ! i ! k))"
      using i by (simp add: zs_def del: upt_Suc)
    moreover obtain z where "qm31_dot ws (vs ! i) = Some z \<and> qcanon z
        \<and> qval z = (\<Sum>k<length ws. qval (ws ! k) * qval (vs ! i ! k))"
      using qm31_dot_val [of ws "vs ! i"] assms(3) row [OF i] by auto
    ultimately show ?thesis by (metis qval_inject)
  qed
  then have "map Some zs = map (qm31_dot ws) vs"
    using assms(1) by (intro nth_equalityI) (simp_all add: zs_def)
  moreover have "qm31_dot3 ws vs = Some zs"
    using assms(2) by (auto simp: qm31_dot3_def zs_def t_def list_all_iff)
  ultimately show ?thesis by blast
qed


lemma u128_sum_val:
  fixes t :: "'b \<Rightarrow> u128"
  assumes "\<And>x. x \<in> set xs \<Longrightarrow> unat (t x) \<le> max_product" "length xs \<le> 17179869184"
  shows "unat (fold (\<lambda>x s. s + t x) xs 0) \<le> length xs * max_product
    \<and> wval (fold (\<lambda>x s. s + t x) xs 0) = (\<Sum>x\<leftarrow>xs. wval (t x))"
  using assms
proof (induction xs rule: rev_induct)
  case (snoc x xs)
  let ?s = "fold (\<lambda>x s. s + t x) xs 0"
  from snoc have IH: "unat ?s \<le> length xs * max_product" "wval ?s = (\<Sum>x\<leftarrow>xs. wval (t x))"
    and x: "unat (t x) \<le> max_product" by simp_all
  have "length xs * max_product \<le> 17179869184 * max_product"
    using snoc.prems(2) by (intro mult_le_mono1) simp
  then have "unat ?s + unat (t x) \<le> 17179869184 * max_product + max_product" using IH(1) x by linarith
  also have "\<dots> < 2 ^ 128" by simp
  finally have "unat ?s + unat (t x) < 2 ^ 128" .
  then have "unat (?s + t x) = unat ?s + unat (t x)" by (simp add: unat_word_ariths)
  then show ?case using IH x by (simp add: wval_def)
qed simp

lemma u128_product_val:
  assumes "canon x" "canon y"
  shows "unat (ucast (limb x) * ucast (limb y) :: u128) \<le> max_product"
    and "wval (ucast (limb x) * ucast (limb y) :: u128) = gval x * gval y"
proof -
  have u: "unat (ucast (limb z) :: u128) = unat (limb z)" for z
    using unat_bound [of "limb z"] by (simp add: unsigned_ucast_eq take_bit_eq_mod)
  have le: "unat (limb x) * unat (limb y) \<le> 2147483646 * 2147483646"
    using assms by (intro mult_le_mono) (simp_all add: canon_unat)
  then have eq: "unat (ucast (limb x) * ucast (limb y) :: u128) = unat (limb x) * unat (limb y)"
    by (simp add: unat_word_ariths u)
  show "unat (ucast (limb x) * ucast (limb y) :: u128) \<le> max_product" using eq le by simp
  show "wval (ucast (limb x) * ucast (limb y) :: u128) = gval x * gval y"
    unfolding wval_def eq gval_def by simp
qed

lemma qm31_m31_dot_u128_val:
  assumes "length ws = length vs" "list_all qcanon ws" "list_all canon vs" "length ws \<le> 17179869184"
  shows "qm31_m31_dot_u128 ws vs = qm31_m31_dot ws vs"
proof -
  let ?n = "length ws"
  define u where "u = (\<lambda>c (w, v). ucast (limb (qm31_limbs w ! c)) * ucast (limb v) :: u128)"
  define s where "s = fold (\<lambda>x sums. map (\<lambda>c. sums ! c + u c x) [0..<4]) (zip ws vs) (replicate 4 (0 :: u128))"
  have can: "qcanon (ws ! k) \<and> canon (vs ! k)" if "k < ?n" for k
    using assms that by (simp add: list_all_length)
  have s: "s = map (\<lambda>c. fold (\<lambda>x s. s + u c x) (zip ws vs) 0) [0..<4]"
    unfolding s_def replicate_map using fold_pointwise [where f = "\<lambda>x c r. r + u c x" and g = "\<lambda>c. 0"] .
  have entry: "wval (s ! c) = (\<Sum>k<?n. wval (m31_product (qm31_limbs (ws ! k)) (vs ! k) c))" if c: "c < 4" for c
  proof -
    have small: "unat (u c x) \<le> max_product" "wval (u c x) = gval (qm31_limbs (fst x) ! c) * gval (snd x)"
      if x: "x \<in> set (zip ws vs)" for x
    proof -
      obtain w v where "x = (w, v)" "w \<in> set ws" "v \<in> set vs"
        using x by (metis prod.collapse set_zip_leftD set_zip_rightD)
      then have "canon (qm31_limbs w ! c)" "canon v" "x = (w, v)"
        using assms(2,3) c by (auto simp: list_all_iff qm31_limbs_canon)
      then show "unat (u c x) \<le> max_product" "wval (u c x) = gval (qm31_limbs (fst x) ! c) * gval (snd x)"
        using u128_product_val by (simp_all add: u_def)
    qed
    have "wval (s ! c) = (\<Sum>x\<leftarrow>zip ws vs. wval (u c x))"
      using c u128_sum_val [of "zip ws vs" "u c"] small(1) assms(1,4) by (simp add: s del: upt_Suc)
    also have "\<dots> = (\<Sum>k<?n. wval (u c (ws ! k, vs ! k)))"
      using assms(1) by (simp add: sum_list_sum_nth atLeast0LessThan)
    also have "\<dots> = (\<Sum>k<?n. wval (m31_product (qm31_limbs (ws ! k)) (vs ! k) c))"
      using can c assms(1) by (intro sum.cong refl) (simp add: u_def u128_product_val m31_product_val qm31_limbs_canon)
    finally show ?thesis .
  qed
  have "canon (map m31_reduce_u128 s ! c) \<and> gval (map m31_reduce_u128 s ! c)
      = (\<Sum>k<?n. wval (m31_product (qm31_limbs (ws ! k)) (vs ! k) c))" if "c < 4" for c
    using entry [OF that] that by (simp add: s del: upt_Suc)
  from qm31_of_limbs_val [OF can this]
  have "qcanon (qm31_of_limbs (map m31_reduce_u128 s))
    \<and> qval (qm31_of_limbs (map m31_reduce_u128 s)) = (\<Sum>k<?n. qval (ws ! k) * q_of_g (gval (vs ! k)))" .
  moreover have "qm31_m31_dot_u128 ws vs = Some (qm31_of_limbs (map m31_reduce_u128 s))"
    using assms(1) by (simp add: qm31_m31_dot_u128_def s_def u_def case_prod_unfold)
  ultimately show ?thesis using qm31_m31_dot_val [OF assms] by (metis qval_inject)
qed

end
