(* ===== verification/Poseidon2.thy ===== *)
theory Poseidon2
  imports FieldKernels
begin

text \<open>
  The Poseidon2 permutation over \<open>M31\<close> at width 16 and the hashes built on it, from
  \<open>crates/aspis-statement/src/poseidon2.rs\<close>: the canonical permutation, the one with lazy
  linear layers and its trace of 22 round transitions, the length-committing sponge, its
  typed wrappers and the fixed-arity Merkle node compression. A state is a list of sixteen
  elements; the callback that receives transitions is the list of transitions it receives.
  The lazy layers are shown equal to the canonical ones on canonical states, so the two
  permutations agree, the trace is the chain of states, and the sponge computes its specification over the integers.
\<close>

section \<open>Parameters\<close>

definition POSEIDON2_WIDTH :: nat where "POSEIDON2_WIDTH = 16"
definition RATE :: nat where "RATE = 8"
definition DIGEST_ELEMS :: nat where "DIGEST_ELEMS = 8"
definition POSEIDON2_ROUNDS :: nat where "POSEIDON2_ROUNDS = 22"

type_synonym state16 = "m31 list"
type_synonym digest = "m31 list"

datatype round_kind = ExternalInitial u8 | Internal u8 | ExternalFinal u8

record round_transition =
  tr_round :: u8
  tr_kind :: round_kind
  tr_input :: state16
  tr_output :: state16

definition EXTERNAL_INITIAL :: "u32 list list" where
  "EXTERNAL_INITIAL =
   [[0x768bab52, 0x70e0ab7d, 0x3d266c8a, 0x6da42045, 0x600fef22, 0x41dace6b, 0x64f9bdd4, 0x5d42d4fe,
     0x76b1516d, 0x6fc9a717, 0x70ac4fb6, 0x00194ef6, 0x22b644e2, 0x1f7916d5, 0x47581be2, 0x2710a123],
    [0x6284e867, 0x018d3afe, 0x5df99ef3, 0x4c1e467b, 0x566f6abc, 0x2994e427, 0x538a6d42, 0x5d7bf2cf,
     0x7fda2dab, 0x0fd854c4, 0x46922fca, 0x3d7763a1, 0x19fd05ca, 0x0a4bbb43, 0x15075851, 0x3d903d76],
    [0x2d290ff7, 0x40809fa0, 0x59dac6ec, 0x127927a2, 0x6bbf0ea0, 0x0294140f, 0x24742976, 0x6e84c081,
     0x22484f4a, 0x354cae59, 0x0453ffe1, 0x3f47a3cc, 0x0088204e, 0x6066e109, 0x3b7c4b80, 0x6b55665d],
    [0x3bc4b897, 0x735bf378, 0x508daf42, 0x1884fc2b, 0x7214f24c, 0x7498be0a, 0x1a60e640, 0x3303f928,
     0x29b46376, 0x5c96bb68, 0x65d097a5, 0x1d358e9f, 0x4a9a9017, 0x4724cf76, 0x347af70f, 0x1e77e59a]]"

definition EXTERNAL_FINAL :: "u32 list list" where
  "EXTERNAL_FINAL =
   [[0x57090613, 0x1fa42108, 0x17bbef50, 0x1ff7e11c, 0x047b24ca, 0x4e140275, 0x4fa086f5, 0x079b309c,
     0x1159bd47, 0x6d37e4e5, 0x075d8dce, 0x12121ca0, 0x7f6a7c40, 0x68e182ba, 0x5493201b, 0x0444a80e],
    [0x0064f4c6, 0x6467abe6, 0x66975762, 0x2af68f9b, 0x345b33be, 0x1b70d47f, 0x053db717, 0x381189cb,
     0x43b915f8, 0x20df3694, 0x0f459d26, 0x77a0e97b, 0x2f73e739, 0x1876c2f9, 0x65a0e29a, 0x4cabefbe],
    [0x5abd1268, 0x4d34a760, 0x12771799, 0x69a0c9ac, 0x39091e55, 0x7f611cd0, 0x3af055da, 0x7ac0bbdf,
     0x6e0f3a24, 0x41e3b6f7, 0x49b3756d, 0x568bc538, 0x20c079d8, 0x1701c72c, 0x7670dc6c, 0x5a439035],
    [0x7c93e00e, 0x561fbb4d, 0x1178907b, 0x02737406, 0x32fb24f1, 0x6323b60a, 0x6ab12418, 0x42c99cea,
     0x155a0b97, 0x53d1c6aa, 0x2bd20347, 0x279b3d73, 0x4f5f3c70, 0x0245af6c, 0x238359d3, 0x49966a59]]"

definition INTERNAL :: "u32 list" where
  "INTERNAL =
    [0x7f7ec4bf, 0x0421926f, 0x5198e669, 0x34db3148, 0x4368bafd, 0x66685c7f, 0x78d3249a, 0x60187881,
     0x76dad67a, 0x0690b437, 0x1ea95311, 0x40e5369a, 0x38f103fc, 0x1d226a21]"

definition INTERNAL_SHIFTS :: "nat list" where
  "INTERNAL_SHIFTS = [0, 1, 2, 3, 4, 5, 6, 7, 8, 10, 12, 13, 14, 15, 16]"

section \<open>Linear layers and rounds\<close>

definition pow5 :: "m31 \<Rightarrow> m31" where
  "pow5 value = (let square = m31_mul value value in m31_mul (m31_mul square square) value)"

definition apply_mat4 :: "m31 list \<Rightarrow> m31 list" where
  "apply_mat4 values =
     (let t01 = m31_add (values ! 0) (values ! 1);
          t23 = m31_add (values ! 2) (values ! 3);
          t0123 = m31_add t01 t23;
          t01123 = m31_add t0123 (values ! 1);
          t01233 = m31_add t0123 (values ! 3);
          out3 = m31_add t01233 (m31_double (values ! 0));
          out1 = m31_add t01123 (m31_double (values ! 2));
          out0 = m31_add t01123 t01;
          out2 = m31_add t01233 t23
      in [out0, out1, out2, out3])"

definition mat4_chunks :: "(m31 list \<Rightarrow> m31 list) \<Rightarrow> state16 \<Rightarrow> state16" where
  "mat4_chunks f state = concat (map (\<lambda>k. f (seg (4 * k) (4 * k + 4) state)) [0..<4])"

definition external_linear :: "state16 \<Rightarrow> state16" where
  "external_linear state =
     (let state = mat4_chunks apply_mat4 state;
          sums = map (\<lambda>column. fold (\<lambda>row sum. m31_add sum (state ! (row * 4 + column))) [0..<4] M31_ZERO) [0..<4]
      in map (\<lambda>index. m31_add (state ! index) (sums ! (index mod 4))) [0..<16])"

definition apply_mat4_lazy :: "m31 list \<Rightarrow> m31 list" where
  "apply_mat4_lazy values =
     (let a = u64_from (values ! 0); b = u64_from (values ! 1);
          c = u64_from (values ! 2); d = u64_from (values ! 3)
      in [m31_reduce_u62 (2 * a + 3 * b + c + d), m31_reduce_u62 (a + 2 * b + 3 * c + d),
          m31_reduce_u62 (a + b + 2 * c + 3 * d), m31_reduce_u62 (3 * a + b + c + 2 * d)])"

definition external_linear_lazy :: "state16 \<Rightarrow> state16" where
  "external_linear_lazy state =
     (let state = mat4_chunks apply_mat4_lazy state;
          sums = map (\<lambda>column. fold (\<lambda>row sum. sum + u64_from (state ! (row * 4 + column))) [0..<4] 0) [0..<4]
      in map (\<lambda>index. m31_reduce_u62 (u64_from (state ! index) + sums ! (index mod 4))) [0..<16])"

definition add_constants_pow5 :: "state16 \<Rightarrow> u32 list \<Rightarrow> state16" where
  "add_constants_pow5 state constants =
     map (\<lambda>index. pow5 (m31_add (state ! index) (M31 (constants ! index)))) [0..<16]"

definition full_round :: "state16 \<Rightarrow> u32 list \<Rightarrow> state16" where
  "full_round state constants = external_linear (add_constants_pow5 state constants)"

definition internal_linear :: "state16 \<Rightarrow> state16" where
  "internal_linear state =
     (let part_sum = fold (\<lambda>value part_sum. m31_add part_sum value) (drop 1 state) M31_ZERO;
          full_sum = m31_add part_sum (state ! 0)
      in m31_sub part_sum (state ! 0)
         # map (\<lambda>index. m31_add full_sum
              (m31_mul (state ! index) (M31 (push_bit (INTERNAL_SHIFTS ! (index - 1)) 1)))) [1..<16])"

definition internal_linear_lazy :: "state16 \<Rightarrow> state16" where
  "internal_linear_lazy state =
     (let part_sum = fold (\<lambda>value part_sum. part_sum + u64_from value) (drop 1 state) 0;
          full_sum = part_sum + u64_from (state ! 0)
      in m31_reduce_u62 (part_sum + ucast M31_P - u64_from (state ! 0))
         # map (\<lambda>index. m31_reduce_u62 (full_sum
              + push_bit (INTERNAL_SHIFTS ! (index - 1)) (u64_from (state ! index)))) [1..<16])"

definition partial_pow5 :: "state16 \<Rightarrow> u32 \<Rightarrow> state16" where
  "partial_pow5 state constant = state[0 := pow5 (m31_add (state ! 0) (M31 constant))]"

definition permute :: "state16 \<Rightarrow> state16" where
  "permute state =
     (let state = external_linear state;
          state = fold (\<lambda>constants state. full_round state constants) EXTERNAL_INITIAL state;
          state = fold (\<lambda>constant state. internal_linear (partial_pow5 state constant)) INTERNAL state
      in fold (\<lambda>constants state. full_round state constants) EXTERNAL_FINAL state)"


section \<open>The optimised permutation and its trace\<close>

record trace_state =
  ts_round :: u8
  ts_input :: state16
  ts_state :: state16
  ts_trace :: "round_transition list"

definition emit :: "round_kind \<Rightarrow> state16 \<Rightarrow> trace_state \<Rightarrow> trace_state" where
  "emit kind state ts =
     \<lparr> ts_round = ts_round ts + 1, ts_input = state, ts_state = state,
       ts_trace = ts_trace ts @ [\<lparr> tr_round = ts_round ts, tr_kind = kind,
         tr_input = ts_input ts, tr_output = state \<rparr>] \<rparr>"

definition permute_optimized_with_trace :: "state16 \<Rightarrow> state16 \<times> round_transition list" where
  "permute_optimized_with_trace state =
     (let ts = \<lparr> ts_round = 0, ts_input = state, ts_state = external_linear_lazy state, ts_trace = [] \<rparr>;
          ts = fold (\<lambda>(index, constants) ts. emit (ExternalInitial (of_nat index))
                 (external_linear_lazy (add_constants_pow5 (ts_state ts) constants)) ts)
               (enumerate 0 EXTERNAL_INITIAL) ts;
          ts = fold (\<lambda>(index, constant) ts. emit (Internal (of_nat index))
                 (internal_linear_lazy (partial_pow5 (ts_state ts) constant)) ts)
               (enumerate 0 INTERNAL) ts;
          ts = fold (\<lambda>(index, constants) ts. emit (ExternalFinal (of_nat index))
                 (external_linear_lazy (add_constants_pow5 (ts_state ts) constants)) ts)
               (enumerate 0 EXTERNAL_FINAL) ts
      in (ts_state ts, ts_trace ts))"

definition permute_optimized :: "state16 \<Rightarrow> state16" where
  "permute_optimized state = fst (permute_optimized_with_trace state)"

definition apply_round_by_index :: "state16 \<Rightarrow> nat \<Rightarrow> state16 option" where
  "apply_round_by_index state round =
     (if round < length EXTERNAL_INITIAL
      then Some (external_linear_lazy (add_constants_pow5 state (EXTERNAL_INITIAL ! round)))
      else if round < length EXTERNAL_INITIAL + length INTERNAL
      then Some (internal_linear_lazy (partial_pow5 state (INTERNAL ! (round - length EXTERNAL_INITIAL))))
      else if round < POSEIDON2_ROUNDS
      then Some (external_linear_lazy (add_constants_pow5 state
             (EXTERNAL_FINAL ! (round - length EXTERNAL_INITIAL - length INTERNAL))))
      else None)"

definition evaluate_trace_round_pair :: "state16 \<Rightarrow> nat \<Rightarrow> (state16 \<times> state16) option" where
  "evaluate_trace_round_pair state local_row =
     (if POSEIDON2_ROUNDS div 2 \<le> local_row then None
      else let state = (if local_row = 0 then external_linear_lazy state else state);
               first_round = 2 * local_row
           in Option.bind (apply_round_by_index state first_round) (\<lambda>first.
              Option.bind (apply_round_by_index first (first_round + 1)) (\<lambda>state.
              Some (first, state))))"

definition evaluate_trace_round :: "state16 \<Rightarrow> nat \<Rightarrow> bool \<Rightarrow> state16 option" where
  "evaluate_trace_round state round apply_leading_external =
     (let state = (if apply_leading_external then external_linear_lazy state else state)
      in apply_round_by_index state round)"

definition trace_round_descriptor :: "nat \<Rightarrow> (state16 \<times> bool) option" where
  "trace_round_descriptor round =
     (if round < length EXTERNAL_INITIAL then Some (map M31 (EXTERNAL_INITIAL ! round), True)
      else if round < length EXTERNAL_INITIAL + length INTERNAL
      then Some ((replicate POSEIDON2_WIDTH M31_ZERO)[0 := M31 (INTERNAL ! (round - length EXTERNAL_INITIAL))], False)
      else if round < POSEIDON2_ROUNDS
      then Some (map M31 (EXTERNAL_FINAL ! (round - length EXTERNAL_INITIAL - length INTERNAL)), True)
      else None)"

definition trace_round_constant :: "nat \<Rightarrow> nat \<Rightarrow> (m31 \<times> bool) option" where
  "trace_round_constant round lane =
     (if POSEIDON2_WIDTH \<le> lane then None
      else if round < length EXTERNAL_INITIAL then Some (M31 (EXTERNAL_INITIAL ! round ! lane), True)
      else if round < length EXTERNAL_INITIAL + length INTERNAL
      then Some (if lane = 0 then M31 (INTERNAL ! (round - length EXTERNAL_INITIAL)) else M31_ZERO, False)
      else if round < POSEIDON2_ROUNDS
      then Some (M31 (EXTERNAL_FINAL ! (round - length EXTERNAL_INITIAL - length INTERNAL) ! lane), True)
      else None)"

section \<open>The sponge and the node compression\<close>

function chunks :: "nat \<Rightarrow> 'a list \<Rightarrow> 'a list list" where
  "chunks n xs = (if n = 0 \<or> xs = [] then [] else take n xs # chunks n (drop n xs))"
  by auto
termination by (relation "measure (\<lambda>(n, xs). length xs)") auto

declare chunks.simps [simp del]

definition absorb :: "m31 list \<Rightarrow> state16 \<Rightarrow> state16" where
  "absorb chunk state =
     fold (\<lambda>(index, value) state. state[index := m31_add (state ! index) value]) (enumerate 0 chunk) state"

definition sponge_start :: "m31 \<Rightarrow> m31 list \<Rightarrow> state16" where
  "sponge_start domain input =
     (replicate 16 M31_ZERO)[RATE := domain, RATE + 1 := M31 (of_nat (length input))]"

definition hash_fields_with_trace :: "m31 \<Rightarrow> m31 list \<Rightarrow> digest \<times> (nat \<times> round_transition) list" where
  "hash_fields_with_trace domain input =
     (let state = sponge_start domain input;
          (state, trace) =
            (if input = []
             then let (state, transitions) = permute_optimized_with_trace state
                  in (state, map (Pair 0) transitions)
             else fold (\<lambda>(permutation, chunk) (state, trace).
                    let (state, transitions) = permute_optimized_with_trace (absorb chunk state)
                    in (state, trace @ map (Pair permutation) transitions))
                  (enumerate 0 (chunks RATE input)) (state, []))
      in (map (\<lambda>index. state ! index) [0..<DIGEST_ELEMS], trace))"

definition hash_fields :: "m31 \<Rightarrow> m31 list \<Rightarrow> digest" where
  "hash_fields domain input = fst (hash_fields_with_trace domain input)"

definition DOMAIN_OWNER_KEY :: m31 where "DOMAIN_OWNER_KEY = M31 0x41530001"
definition DOMAIN_NULLIFIER :: m31 where "DOMAIN_NULLIFIER = M31 0x41530002"
definition DOMAIN_NOTE :: m31 where "DOMAIN_NOTE = M31 0x41530003"
definition DOMAIN_MERKLE_NODE :: m31 where "DOMAIN_MERKLE_NODE = M31 0x41530005"
definition MERKLE_NODE_DOMAIN_V2 :: m31 where "MERKLE_NODE_DOMAIN_V2 = M31 0x41530005"
definition MERKLE_NODE_COMPRESSION_V3_TWEAK :: m31 where "MERKLE_NODE_COMPRESSION_V3_TWEAK = M31 0x41531005"

definition hash_owner_key :: "m31 list \<Rightarrow> digest" where
  "hash_owner_key input = hash_fields DOMAIN_OWNER_KEY input"
definition hash_nullifier :: "m31 list \<Rightarrow> digest" where
  "hash_nullifier input = hash_fields DOMAIN_NULLIFIER input"
definition hash_note_commitment :: "m31 list \<Rightarrow> digest" where
  "hash_note_commitment input = hash_fields DOMAIN_NOTE input"
definition hash_merkle_node_sponge :: "m31 list \<Rightarrow> digest" where
  "hash_merkle_node_sponge input = hash_fields DOMAIN_MERKLE_NODE input"

definition merkle_node_sponge_v2 :: "digest \<Rightarrow> digest \<Rightarrow> digest" where
  "merkle_node_sponge_v2 left right =
     hash_fields MERKLE_NODE_DOMAIN_V2
       (put DIGEST_ELEMS right (put 0 left (replicate (DIGEST_ELEMS * 2) M31_ZERO)))"

definition merkle_node_compress_v3 :: "digest \<Rightarrow> digest \<Rightarrow> digest" where
  "merkle_node_compress_v3 left right =
     (let state = put DIGEST_ELEMS right (put 0 left (replicate POSEIDON2_WIDTH M31_ZERO));
          state = state[POSEIDON2_WIDTH - 1 :=
            m31_add (state ! (POSEIDON2_WIDTH - 1)) MERKLE_NODE_COMPRESSION_V3_TWEAK];
          state = fst (permute_optimized_with_trace state)
      in map (\<lambda>index. state ! index) [0..<DIGEST_ELEMS])"

section \<open>The permutation on integers\<close>

text \<open>
  The reference the two implementations are measured against: the textbook matrices and
  the fifth power on integers modulo \<open>2^31 - 1\<close>, with no index arithmetic and no lazy
  accumulation.
\<close>

fun mat4_spec :: "int list \<Rightarrow> int list" where
  "mat4_spec [a, b, c, d] =
     [(2 * a + 3 * b + c + d) mod p31, (a + 2 * b + 3 * c + d) mod p31,
      (a + b + 2 * c + 3 * d) mod p31, (3 * a + b + c + 2 * d) mod p31]"
| "mat4_spec _ = []"

fun rows_of_4 :: "'a list \<Rightarrow> 'a list list" where
  "rows_of_4 (a # b # c # d # xs) = [a, b, c, d] # rows_of_4 xs"
| "rows_of_4 _ = []"

definition external_spec :: "int list \<Rightarrow> int list" where
  "external_spec s =
     (let rows = map mat4_spec (rows_of_4 s);
          sums = foldr (map2 (+)) rows [0, 0, 0, 0]
      in concat (map (\<lambda>row. map2 (\<lambda>x y. (x + y) mod p31) row sums) rows))"

definition pow5_spec :: "int \<Rightarrow> int" where
  "pow5_spec x = (let y = x * x mod p31 in y * y mod p31 * x mod p31)"

definition internal_spec :: "int list \<Rightarrow> int list" where
  "internal_spec s =
     (let sum = sum_list s
      in (sum - 2 * hd s) mod p31
         # map2 (\<lambda>x m. (sum + m * x) mod p31) (tl s)
             [1, 2, 4, 8, 16, 32, 64, 128, 256, 1024, 4096, 8192, 16384, 32768, 65536])"

definition full_round_spec :: "int list \<Rightarrow> int list \<Rightarrow> int list" where
  "full_round_spec constants s = external_spec (map2 (\<lambda>x c. pow5_spec ((x + c) mod p31)) s constants)"

definition partial_round_spec :: "int \<Rightarrow> int list \<Rightarrow> int list" where
  "partial_round_spec c s = internal_spec (pow5_spec ((hd s + c) mod p31) # tl s)"

definition permute_spec :: "int list \<Rightarrow> int list" where
  "permute_spec s =
     fold full_round_spec (map (map uint) EXTERNAL_FINAL)
       (fold partial_round_spec (map uint INTERNAL)
         (fold full_round_spec (map (map uint) EXTERNAL_INITIAL) (external_spec s)))"


section \<open>Lazy layers\<close>

definition canon16 :: "state16 \<Rightarrow> bool" where
  "canon16 s \<longleftrightarrow> length s = 16 \<and> list_all canon s"

lemma canon16_nth: "canon16 s \<Longrightarrow> i < 16 \<Longrightarrow> canon (s ! i)"
  by (simp add: canon16_def list_all_length)

lemma scaled_limb:
  assumes "canon x" "unat (k :: u64) \<le> 3"
  shows "unat (k * u64_from x) \<le> 6442450938" "wval (k * u64_from x) = wval k * gval x"
proof -
  have le: "unat k * unat (limb x) \<le> 3 * 2147483646"
    using assms by (intro mult_le_mono) (simp_all add: canon_unat)
  then have eq: "unat (k * u64_from x) = unat k * unat (limb x)" by (simp add: unat_word_ariths)
  show "unat (k * u64_from x) \<le> 6442450938" using eq le by simp
  show "wval (k * u64_from x) = wval k * gval x" unfolding wval_def eq gval_def by simp
qed

lemma linear_combination4:
  fixes k1 k2 k3 k4 :: u64
  assumes "canon a" "canon b" "canon c" "canon d" "unat k1 \<le> 3" "unat k2 \<le> 3" "unat k3 \<le> 3" "unat k4 \<le> 3"
  shows "wval (k1 * u64_from a + k2 * u64_from b + k3 * u64_from c + k4 * u64_from d)
    = wval k1 * gval a + wval k2 * gval b + wval k3 * gval c + wval k4 * gval d"
proof -
  note s = scaled_limb [OF assms(1,5)] scaled_limb [OF assms(2,6)] scaled_limb [OF assms(3,7)] scaled_limb [OF assms(4,8)]
  have 1: "unat (k1 * u64_from a + k2 * u64_from b) \<le> 12884901876"
    "wval (k1 * u64_from a + k2 * u64_from b) = wval k1 * gval a + wval k2 * gval b"
    using s by (simp_all add: unat_add_small wval_add_small)
  have 2: "unat (k1 * u64_from a + k2 * u64_from b + k3 * u64_from c) \<le> 19327352814"
    "wval (k1 * u64_from a + k2 * u64_from b + k3 * u64_from c) = wval k1 * gval a + wval k2 * gval b + wval k3 * gval c"
    using s 1 by (simp_all add: unat_add_small wval_add_small)
  show ?thesis using s 2 by (simp add: wval_add_small)
qed

lemma wval_small [simp]: "wval (1 :: u64) = 1" "wval (2 :: u64) = 2" "wval (3 :: u64) = 3"
  by (simp_all add: wval_def)

lemma mat4_lazy_val:
  assumes "canon (v ! 0)" "canon (v ! 1)" "canon (v ! 2)" "canon (v ! 3)"
  shows "apply_mat4_lazy v = apply_mat4 v"
proof -
  note lin = linear_combination4 [OF assms]
  note lins = lin [of 2 3 1 1, simplified] lin [of 1 2 3 1, simplified]
    lin [of 1 1 2 3, simplified] lin [of 3 1 1 2, simplified]
  show ?thesis
    using assms unfolding apply_mat4_lazy_def apply_mat4_def Let_def
    by (simp add: gval_inject [symmetric] lins)
qed


lemma chunk_nth: "canon16 s \<Longrightarrow> k < 4 \<Longrightarrow> j < 4 \<Longrightarrow> canon (seg (4 * k) (4 * k + 4) s ! j)"
  by (simp add: canon16_def nth_seg list_all_length)

lemma mat4_chunks_lazy: "canon16 s \<Longrightarrow> mat4_chunks apply_mat4_lazy s = mat4_chunks apply_mat4 s"
  unfolding mat4_chunks_def using mat4_lazy_val chunk_nth
  by (intro arg_cong [of _ _ concat] map_cong refl) simp

lemma apply_mat4_canon:
  assumes "canon (v ! 0)" "canon (v ! 1)" "canon (v ! 2)" "canon (v ! 3)"
  shows "list_all canon (apply_mat4 v)" "length (apply_mat4 v) = 4"
  using assms by (simp_all add: apply_mat4_def Let_def)

lemma range_4: "[0..<4] = [0, 1, 2, 3]"
  by (simp add: upt_rec)

lemma mat4_chunks_canon: "canon16 s \<Longrightarrow> canon16 (mat4_chunks apply_mat4 s)"
  using chunk_nth [of s 0] chunk_nth [of s 1] chunk_nth [of s 2] chunk_nth [of s 3] apply_mat4_canon
  unfolding mat4_chunks_def range_4 by (subst canon16_def) simp

lemma column_sums:
  assumes "canon16 t" "column < 4"
  defines "e \<equiv> fold (\<lambda>row sum. m31_add sum (t ! (row * 4 + column))) [0..<4] M31_ZERO"
    and "w \<equiv> fold (\<lambda>row sum. sum + u64_from (t ! (row * 4 + column))) [0..<4] 0"
  shows "canon e" "unat w \<le> 8589934592" "wval w = gval e"
proof -
  have c: "canon (t ! column)" "canon (t ! (4 + column))" "canon (t ! (8 + column))" "canon (t ! (12 + column))"
    using assms(1,2) by (auto intro!: canon16_nth)
  show "canon e" "unat w \<le> 8589934592" "wval w = gval e"
    unfolding e_def w_def range_4 using c limb_sums [OF c] by (simp_all add: add.commute)
qed

lemma external_linear_lazy_eq:
  assumes "canon16 s"
  shows "external_linear_lazy s = external_linear s" and "canon16 (external_linear s)"
proof -
  let ?t = "mat4_chunks apply_mat4 s"
  have t: "canon16 ?t" using assms by (rule mat4_chunks_canon)
  define e where "e = (\<lambda>column. fold (\<lambda>row sum. m31_add sum (?t ! (row * 4 + column))) [0..<4] M31_ZERO)"
  define w where "w = (\<lambda>column. fold (\<lambda>row sum. sum + u64_from (?t ! (row * 4 + column))) [0..<4] 0)"
  have sums: "canon (e column)" "unat (w column) \<le> 8589934592" "wval (w column) = gval (e column)"
    if "column < 4" for column
    unfolding e_def w_def by (rule column_sums [OF t that])+
  have lane: "m31_reduce_u62 (u64_from (?t ! i) + w (i mod 4)) = m31_add (?t ! i) (e (i mod 4))"
    "canon (m31_add (?t ! i) (e (i mod 4)))" if "i < 16" for i
  proof -
    have c: "canon (?t ! i)" "canon (e (i mod 4))" using canon16_nth [OF t that] sums(1) by simp_all
    then show "canon (m31_add (?t ! i) (e (i mod 4)))" by simp
    have "wval (u64_from (?t ! i) + w (i mod 4)) = gval (?t ! i) + gval (e (i mod 4))"
      using c sums(2,3) [of "i mod 4"] limb_sums(1) [OF c(1,1,1,1)] by (simp add: wval_add_small)
    with c show "m31_reduce_u62 (u64_from (?t ! i) + w (i mod 4)) = m31_add (?t ! i) (e (i mod 4))"
      by (subst gval_inject [symmetric]) simp_all
  qed
  have eager: "external_linear s = map (\<lambda>i. m31_add (?t ! i) (e (i mod 4))) [0..<16]"
    unfolding external_linear_def Let_def e_def by (intro map_cong refl) (simp del: upt_Suc)
  moreover have "external_linear_lazy s = map (\<lambda>i. m31_reduce_u62 (u64_from (?t ! i) + w (i mod 4))) [0..<16]"
    unfolding external_linear_lazy_def Let_def mat4_chunks_lazy [OF assms] w_def
    by (intro map_cong refl) (simp del: upt_Suc)
  ultimately show "external_linear_lazy s = external_linear s"
    using lane(1) by (auto intro: map_cong simp del: upt_Suc)
  show "canon16 (external_linear s)" unfolding eager canon16_def list_all_iff using lane(2) by auto
qed

lemma limb_sum_list:
  assumes "list_all canon xs" "length xs \<le> 100"
  defines "e \<equiv> fold (\<lambda>v p. m31_add p v) xs M31_ZERO" and "w \<equiv> fold (\<lambda>v p. p + u64_from v) xs 0"
  shows "canon e" "unat w \<le> 100 * 2147483646" "wval w = gval e"
proof -
  have "canon e \<and> unat w \<le> length xs * 2147483646 \<and> wval w = gval e"
    unfolding e_def w_def using assms(1,2)
  proof (induction xs rule: rev_induct)
    case (snoc v xs)
    let ?w = "fold (\<lambda>v p. p + u64_from v) xs 0"
    have IH: "canon (fold (\<lambda>v p. m31_add p v) xs M31_ZERO)" "unat ?w \<le> length xs * 2147483646"
      "wval ?w = gval (fold (\<lambda>v p. m31_add p v) xs M31_ZERO)" and v: "unat (u64_from v) \<le> 2147483646" "canon v"
      using snoc by (simp_all add: canon_unat)
    have "length xs * 2147483646 \<le> 100 * 2147483646" using snoc.prems(2) by (intro mult_le_mono1) simp
    then have "unat ?w + unat (u64_from v) < 2 ^ 64" using IH(2) v(1) by simp
    then show ?case using IH v by (simp add: unat_add_small wval_add_small)
  qed simp
  moreover have "length xs * 2147483646 \<le> 100 * 2147483646" using assms(2) by (intro mult_le_mono1)
  ultimately show "canon e" "unat w \<le> 100 * 2147483646" "wval w = gval e" by linarith+
qed

lemma shift_bound: "i < 15 \<Longrightarrow> INTERNAL_SHIFTS ! i \<le> 16"
  by (auto simp: INTERNAL_SHIFTS_def less_Suc_eq numeral_eq_Suc)

lemma shifted_limb:
  assumes "canon x" "k \<le> 16"
  shows "unat (push_bit k (u64_from x)) \<le> 140737488289792" "wval (push_bit k (u64_from x)) = 2 ^ k * gval x"
    and "canon (M31 (push_bit k 1))" "gval (M31 (push_bit k 1)) = 2 ^ k"
proof -
  have k: "(2 :: nat) ^ k \<le> 2 ^ 16" using assms(2) by (intro power_increasing) simp_all
  then have le: "2 ^ k * unat (limb x) \<le> 2 ^ 16 * 2147483646"
    using assms(1) by (intro mult_le_mono) (simp_all add: canon_unat)
  then have eq: "unat (push_bit k (u64_from x)) = 2 ^ k * unat (limb x)"
    unfolding unsigned_push_bit_eq by (simp add: push_bit_eq_mult take_bit_eq_mod mult.commute)
  show "unat (push_bit k (u64_from x)) \<le> 140737488289792" using eq le by simp
  show "wval (push_bit k (u64_from x)) = 2 ^ k * gval x" unfolding wval_def eq gval_def by simp
  have one: "unat (push_bit k 1 :: u32) = 2 ^ k"
    unfolding unsigned_push_bit_eq using k by (simp add: push_bit_eq_mult take_bit_eq_mod)
  show "canon (M31 (push_bit k 1))" unfolding canon_unat m31.sel one using k by simp
  show "gval (M31 (push_bit k 1)) = 2 ^ k" unfolding gval_def wval_def m31.sel one by simp
qed

lemma internal_linear_lazy_eq:
  assumes "canon16 s"
  shows "internal_linear_lazy s = internal_linear s" and "canon16 (internal_linear s)"
proof -
  define e where "e = fold (\<lambda>v p. m31_add p v) (drop 1 s) M31_ZERO"
  define w where "w = fold (\<lambda>v p. p + u64_from v) (drop 1 s) 0"
  have c: "canon (s ! i)" if "i < 16" for i using assms that by (rule canon16_nth)
  have sums: "canon e" "unat w \<le> 100 * 2147483646" "wval w = gval e"
    unfolding e_def w_def using assms
    by (intro limb_sum_list; auto simp: canon16_def list_all_iff dest: in_set_dropD)+
  have full: "unat (w + u64_from (s ! 0)) \<le> 101 * 2147483646" "wval (w + u64_from (s ! 0)) = gval e + gval (s ! 0)"
    using sums c [of 0] by (simp_all add: unat_add_small wval_add_small canon_unat)
  have P: "unat (w + ucast M31_P) = unat w + 2147483647"
    using sums(2) by (subst unat_add_small) (simp_all add: M31_P_def)
  have head: "wval (w + ucast M31_P - u64_from (s ! 0)) = gval e - gval (s ! 0)"
  proof -
    have s0: "unat (limb (s ! 0)) < 2147483647" using c [of 0] by (simp add: canon_unat)
    then have "unat (w + ucast M31_P - u64_from (s ! 0)) = unat w + 2147483647 - unat (limb (s ! 0))"
      using P by (subst unat_sub) (simp_all add: word_le_nat_alt)
    then have "wval (w + ucast M31_P - u64_from (s ! 0)) = of_nat (unat w + 2147483647 - unat (limb (s ! 0)))"
      by (simp only: wval_def)
    also have "\<dots> = wval w - gval (s ! 0)"
      using s0 by (subst of_nat_diff) (simp_all add: wval_def gval_def)
    finally show ?thesis by (simp add: sums(3))
  qed
  have lane: "wval (w + u64_from (s ! 0) + push_bit (INTERNAL_SHIFTS ! (i - 1)) (u64_from (s ! i)))
      = gval e + gval (s ! 0) + 2 ^ (INTERNAL_SHIFTS ! (i - 1)) * gval (s ! i)"
    if "1 \<le> i" "i < 16" for i
  proof -
    have "i - 1 < 15" using that by simp
    note sh = shifted_limb(1,2) [OF c [OF that(2)] shift_bound [OF this]]
    show ?thesis using full sh by (subst wval_add_small) simp_all
  qed
  have tl: "m31_reduce_u62 (w + u64_from (s ! 0) + push_bit (INTERNAL_SHIFTS ! (i - 1)) (u64_from (s ! i)))
      = m31_add (m31_add e (s ! 0)) (m31_mul (s ! i) (M31 (push_bit (INTERNAL_SHIFTS ! (i - 1)) 1)))"
    if i: "i \<in> set [1..<16]" for i
  proof -
    have "i - 1 < 15" using i by auto
    note sh = shifted_limb(3,4) [OF sums(1) shift_bound [OF this]]
    show ?thesis
      using lane [of i] sh c [of 0] c [of i] sums(1) i
      by (subst gval_inject [symmetric]) (simp_all add: mult.commute)
  qed
  show "internal_linear_lazy s = internal_linear s"
    unfolding internal_linear_lazy_def internal_linear_def Let_def e_def [symmetric] w_def [symmetric]
  proof (rule arg_cong2 [of _ _ _ _ Cons])
    show "m31_reduce_u62 (w + ucast M31_P - u64_from (s ! 0)) = m31_sub e (s ! 0)"
      using head sums(1) c [of 0] by (subst gval_inject [symmetric]) simp_all
  qed (rule map_cong [OF refl tl])
  show "canon16 (internal_linear s)"
    unfolding internal_linear_def Let_def e_def [symmetric] canon16_def
    using sums(1) c by (auto simp: list_all_iff)
qed

lemma pow5_val: "canon x \<Longrightarrow> canon (pow5 x)" "canon x \<Longrightarrow> gval (pow5 x) = gval x ^ 5"
  by (simp_all add: pow5_def Let_def power_numeral_reduce algebra_simps)

lemma round_constants_canon:
  "list_all (list_all (\<lambda>c. c < M31_P)) EXTERNAL_INITIAL" "list_all (list_all (\<lambda>c. c < M31_P)) EXTERNAL_FINAL"
  "list_all (\<lambda>c. c < M31_P) INTERNAL"
  "list_all (\<lambda>c. length c = 16) EXTERNAL_INITIAL" "list_all (\<lambda>c. length c = 16) EXTERNAL_FINAL"
  by (simp_all add: EXTERNAL_INITIAL_def EXTERNAL_FINAL_def INTERNAL_def M31_P_def)

lemma canon_M31: "canon (M31 c) \<longleftrightarrow> c < M31_P"
  by (simp add: canon_def)

lemma add_constants_pow5_canon:
  "canon16 s \<Longrightarrow> list_all (\<lambda>c. c < M31_P) k \<Longrightarrow> length k = 16 \<Longrightarrow> canon16 (add_constants_pow5 s k)"
  by (simp add: canon16_def add_constants_pow5_def list_all_length pow5_val canon_M31)

lemma partial_pow5_canon: "canon16 s \<Longrightarrow> c < M31_P \<Longrightarrow> canon16 (partial_pow5 s c)"
  by (simp add: canon16_def partial_pow5_def list_all_length nth_list_update pow5_val canon_M31)


section \<open>The two permutations agree\<close>

text \<open>
  The permutation is one chain of 22 rounds after the leading linear layer; \<open>round_fn\<close> is
  the canonical round of a descriptor, and both implementations fold the same chain.
\<close>

datatype round_step = Full "u32 list" | Partial u32

definition schedule :: "round_step list" where
  "schedule = map Full EXTERNAL_INITIAL @ map Partial INTERNAL @ map Full EXTERNAL_FINAL"

fun round_fn :: "round_step \<Rightarrow> state16 \<Rightarrow> state16" where
  "round_fn (Full constants) s = full_round s constants"
| "round_fn (Partial constant) s = internal_linear (partial_pow5 s constant)"

fun lazy_round_fn :: "round_step \<Rightarrow> state16 \<Rightarrow> state16" where
  "lazy_round_fn (Full constants) s = external_linear_lazy (add_constants_pow5 s constants)"
| "lazy_round_fn (Partial constant) s = internal_linear_lazy (partial_pow5 s constant)"

fun step_ok :: "round_step \<Rightarrow> bool" where
  "step_ok (Full constants) \<longleftrightarrow> list_all (\<lambda>c. c < M31_P) constants \<and> length constants = 16"
| "step_ok (Partial constant) \<longleftrightarrow> constant < M31_P"

lemma schedule_ok: "step \<in> set schedule \<Longrightarrow> step_ok step"
  using round_constants_canon by (auto simp: schedule_def list_all_iff)

lemma length_schedule: "length schedule = 22"
  by (simp add: schedule_def EXTERNAL_INITIAL_def INTERNAL_def EXTERNAL_FINAL_def)

lemma round_fn_val:
  assumes "step_ok step" "canon16 s"
  shows "lazy_round_fn step s = round_fn step s" and "canon16 (round_fn step s)"
  using assms
  by (cases step; simp add: full_round_def external_linear_lazy_eq internal_linear_lazy_eq
      add_constants_pow5_canon partial_pow5_canon)+

lemma fold_rounds:
  assumes "\<forall>step \<in> set steps. step_ok step" "canon16 s"
  shows "fold lazy_round_fn steps s = fold round_fn steps s" and "canon16 (fold round_fn steps s)"
  using assms by (induction steps arbitrary: s) (simp_all add: round_fn_val)

lemma permute_as_schedule: "permute s = fold round_fn schedule (external_linear s)"
proof -
  have "(\<lambda>constants. round_fn (Full constants)) = (\<lambda>constants s. full_round s constants)"
    "(\<lambda>constant. round_fn (Partial constant)) = (\<lambda>constant s. internal_linear (partial_pow5 s constant))"
    by (intro ext, simp)+
  then show ?thesis by (simp add: permute_def Let_def schedule_def fold_map comp_def)
qed

lemma permute_canon: "canon16 s \<Longrightarrow> canon16 (permute s)"
  unfolding permute_as_schedule
  by (rule fold_rounds(2)) (auto simp: schedule_ok external_linear_lazy_eq)

text \<open>The loop of the traced permutation over any list of rounds.\<close>

definition run_round :: "(nat \<Rightarrow> round_kind) \<Rightarrow> nat \<times> round_step \<Rightarrow> trace_state \<Rightarrow> trace_state" where
  "run_round kind = (\<lambda>(index, step) ts. emit (kind index) (lazy_round_fn step (ts_state ts)) ts)"

fun states_of :: "round_step list \<Rightarrow> state16 \<Rightarrow> state16 list" where
  "states_of [] s = []"
| "states_of (step # steps) s = lazy_round_fn step s # states_of steps (lazy_round_fn step s)"


lemma states_of_snoc: "states_of (past @ [step]) s = states_of past s @ [lazy_round_fn step (fold lazy_round_fn past s)]"
  by (induction past arbitrary: s) simp_all

lemma length_states_of [simp]: "length (states_of steps s) = length steps"
  by (induction steps arbitrary: s) simp_all

definition trace_inv :: "state16 \<Rightarrow> round_step list \<Rightarrow> trace_state \<Rightarrow> bool" where
  "trace_inv s past ts \<longleftrightarrow>
     ts_state ts = fold lazy_round_fn past (external_linear_lazy s)
   \<and> ts_round ts = of_nat (length past)
   \<and> ts_input ts = last (s # states_of past (external_linear_lazy s))
   \<and> map tr_output (ts_trace ts) = states_of past (external_linear_lazy s)
   \<and> map tr_input (ts_trace ts) = butlast (s # states_of past (external_linear_lazy s))
   \<and> map tr_round (ts_trace ts) = map of_nat [0..<length past]"

lemma trace_inv_emit:
  "trace_inv s past ts \<Longrightarrow> trace_inv s (past @ [step]) (emit kind (lazy_round_fn step (ts_state ts)) ts)"
  by (auto simp: trace_inv_def emit_def states_of_snoc butlast_append)

lemma trace_inv_fold:
  "trace_inv s past ts \<Longrightarrow> trace_inv s (past @ steps) (fold (run_round kind) (enumerate n steps) ts)"
proof (induction steps arbitrary: past ts n)
  case (Cons step steps)
  from Cons.IH [OF trace_inv_emit [OF Cons.prems, of step "kind n"], of "Suc n"] show ?case
    by (simp add: run_round_def)
qed simp

lemma run_round_map:
  "fold (\<lambda>(i, c) ts. emit (kind i) (external_linear_lazy (add_constants_pow5 (ts_state ts) c)) ts) (enumerate n cs) ts
     = fold (run_round kind) (enumerate n (map Full cs)) ts"
  "fold (\<lambda>(i, c) ts. emit (kind i) (internal_linear_lazy (partial_pow5 (ts_state ts) c)) ts) (enumerate n ds) ts
     = fold (run_round kind) (enumerate n (map Partial ds)) ts"
  by (induction cs arbitrary: n ts, simp_all add: run_round_def)
    (induction ds arbitrary: n ts, simp_all add: run_round_def)

lemma permute_trace_inv:
  "\<exists>ts. trace_inv s schedule ts \<and> permute_optimized_with_trace s = (ts_state ts, ts_trace ts)"
proof -
  have start: "trace_inv s [] \<lparr> ts_round = 0, ts_input = s, ts_state = external_linear_lazy s, ts_trace = [] \<rparr>"
    by (simp add: trace_inv_def)
  note 1 = trace_inv_fold [OF start, of "map Full EXTERNAL_INITIAL" "\<lambda>i. ExternalInitial (of_nat i)" 0]
  note 2 = trace_inv_fold [OF 1, of "map Partial INTERNAL" "\<lambda>i. Internal (of_nat i)" 0]
  note 3 = trace_inv_fold [OF 2, of "map Full EXTERNAL_FINAL" "\<lambda>i. ExternalFinal (of_nat i)" 0]
  show ?thesis
    using 3 unfolding permute_optimized_with_trace_def Let_def run_round_map schedule_def by auto
qed

lemma permute_optimized_as_schedule: "permute_optimized s = fold lazy_round_fn schedule (external_linear_lazy s)"
  using permute_trace_inv [of s] by (auto simp: permute_optimized_def trace_inv_def)

lemma permute_optimized_eq: "canon16 s \<Longrightarrow> permute_optimized s = permute s"
  unfolding permute_optimized_as_schedule permute_as_schedule
  by (simp add: external_linear_lazy_eq fold_rounds schedule_ok)

lemma permute_trace_chain:
  assumes "permute_optimized_with_trace s = (out, trace)"
  shows "out = permute_optimized s" and "map tr_round trace = map of_nat [0..<22]"
    and "map tr_input trace @ [out] = s # map tr_output trace"
    and "map tr_output trace = states_of schedule (external_linear_lazy s)"
proof -
  obtain ts where ts: "trace_inv s schedule ts" "out = ts_state ts" "trace = ts_trace ts"
    using permute_trace_inv [of s] assms by auto
  show "out = permute_optimized s" using assms by (simp add: permute_optimized_def)
  show "map tr_round trace = map of_nat [0..<22]" using ts by (simp add: trace_inv_def length_schedule)
  show out: "map tr_output trace = states_of schedule (external_linear_lazy s)"
    using ts by (simp add: trace_inv_def)
  obtain steps step where sch: "schedule = steps @ [step]"
    using length_schedule by (metis append_butlast_last_id list.size(3) zero_neq_numeral)
  have "ts_state ts = last (s # states_of schedule (external_linear_lazy s))"
    using ts(1) unfolding trace_inv_def sch states_of_snoc by simp
  moreover have "map tr_input trace = butlast (s # states_of schedule (external_linear_lazy s))"
    using ts by (simp add: trace_inv_def)
  ultimately show "map tr_input trace @ [out] = s # map tr_output trace"
    unfolding out ts(2) by (metis append_butlast_last_id list.distinct(1))
qed


section \<open>Refinement to the integers\<close>

definition ival :: "m31 \<Rightarrow> int" where
  "ival x = uint (limb x)"

lemma gval_ival: "gval x = of_int (ival x)"
  unfolding ival_def gval_def wval_def by (metis int_nat_eq of_int_of_nat_eq uint_nat)

lemma ival_range: "canon x \<Longrightarrow> 0 \<le> ival x \<and> ival x < p31"
  unfolding canon_unat ival_def uint_nat by linarith

lemma ivalI: "canon x \<Longrightarrow> gval x = of_int k \<Longrightarrow> ival x = k mod p31"
  using ival_range [of x] by (simp add: gval_ival of_int_gf_eq_iff)

lemma list4E:
  assumes "length s = 4" obtains a b c d where "s = [a, b, c, d]"
  using assms by (auto simp: length_Suc_conv numeral_eq_Suc)

lemma list16E:
  assumes "length s = 16"
  obtains a b c d where "s = a @ b @ c @ d" "length a = 4" "length b = 4" "length c = 4" "length d = 4"
proof
  show "s = take 4 s @ take 4 (drop 4 s) @ take 4 (drop 8 s) @ drop 12 s"
    using append_take_drop_id [of 4 s] append_take_drop_id [of 4 "drop 4 s"] append_take_drop_id [of 4 "drop 8 s"]
    by simp
qed (use assms in simp_all)

lemma rows_of_4_append: "length a = 4 \<Longrightarrow> rows_of_4 (a @ xs) = a # rows_of_4 xs"
  by (elim list4E) simp

lemma mat4_ival:
  assumes "length v = 4" "list_all canon v"
  shows "map ival (apply_mat4 v) = mat4_spec (map ival v)"
  using assms
  by (elim list4E) (auto simp: apply_mat4_def Let_def algebra_simps simp flip: gval_ival intro!: ivalI)

lemma mat4_chunks_append:
  assumes "length a = 4" "length b = 4" "length c = 4" "length d = 4"
  shows "mat4_chunks f (a @ b @ c @ d) = f a @ f b @ f c @ f d"
  using assms by (simp add: mat4_chunks_def range_4 seg_def)

lemma length_mat4_spec: "length v = 4 \<Longrightarrow> length (mat4_spec v) = 4"
  by (elim list4E) simp

lemma external_ival:
  assumes "canon16 s"
  shows "map ival (external_linear s) = external_spec (map ival s)"
proof -
  obtain a b c d where s: "s = a @ b @ c @ d" and len: "length a = 4" "length b = 4" "length c = 4" "length d = 4"
    using assms by (auto simp: canon16_def elim: list16E)
  have can: "list_all canon a" "list_all canon b" "list_all canon c" "list_all canon d"
    using assms by (simp_all add: s canon16_def)
  define t where "t = mat4_chunks apply_mat4 s"
  have t: "t = apply_mat4 a @ apply_mat4 b @ apply_mat4 c @ apply_mat4 d"
    by (simp add: t_def s mat4_chunks_append len)
  have tc: "canon16 t" unfolding t_def using assms by (rule mat4_chunks_canon)
  have rows: "map mat4_spec (rows_of_4 (map ival s)) = map (map ival) [apply_mat4 a, apply_mat4 b, apply_mat4 c, apply_mat4 d]"
    by (simp add: s rows_of_4_append len mat4_ival can)
      (use rows_of_4_append [of "map ival d" "[]"] len in simp)
  obtain a0 a1 a2 a3 where A: "apply_mat4 a = [a0, a1, a2, a3]" by (simp add: apply_mat4_def Let_def)
  obtain b0 b1 b2 b3 where B: "apply_mat4 b = [b0, b1, b2, b3]" by (simp add: apply_mat4_def Let_def)
  obtain c0 c1 c2 c3 where C: "apply_mat4 c = [c0, c1, c2, c3]" by (simp add: apply_mat4_def Let_def)
  obtain d0 d1 d2 d3 where D: "apply_mat4 d = [d0, d1, d2, d3]" by (simp add: apply_mat4_def Let_def)
  have can_t: "list_all canon [a0, a1, a2, a3, b0, b1, b2, b3, c0, c1, c2, c3, d0, d1, d2, d3]"
    using tc by (simp add: t A B C D canon16_def)
  have r16: "[0..<16] = [0, 1, 2, 3, 4, 5, 6, 7, 8, 9, 10, 11, 12, 13, 14, 15 :: nat]" by (simp add: upt_rec)
  show ?thesis
    using can_t
    unfolding external_linear_def external_spec_def rows Let_def t_def [symmetric] t A B C D range_4 r16
    by (simp, intro conjI ivalI; simp add: add_ac flip: gval_ival)
qed

lemma pow5_ival: "canon x \<Longrightarrow> ival (pow5 x) = pow5_spec (ival x)"
  unfolding pow5_spec_def Let_def
  by (rule ivalI) (simp_all add: pow5_val power_numeral_reduce mult.assoc flip: gval_ival)


lemma internal_shift_mults:
  "map (\<lambda>i. 2 ^ (INTERNAL_SHIFTS ! (i - 1))) [1..<16] =
     [1, 2, 4, 8, 16, 32, 64, 128, 256, 1024, 4096, 8192, 16384, 32768, 65536 :: int]"
  by (simp add: upt_rec INTERNAL_SHIFTS_def)

lemma fold_m31_add_val:
  "list_all canon xs \<Longrightarrow> canon a \<Longrightarrow>
   canon (fold (\<lambda>v p. m31_add p v) xs a) \<and> gval (fold (\<lambda>v p. m31_add p v) xs a) = gval a + (\<Sum>v\<leftarrow>xs. gval v)"
  by (induction xs arbitrary: a) (simp_all add: add.assoc)

lemma of_int_sum_ival: "(\<Sum>v\<leftarrow>xs. gval v) = of_int (\<Sum>v\<leftarrow>xs. ival v)"
  by (induction xs) (simp_all add: gval_ival)

lemma internal_ival:
  assumes "canon16 s"
  shows "map ival (internal_linear s) = internal_spec (map ival s)"
proof -
  have len: "length s = 16" and can: "\<And>i. i < 16 \<Longrightarrow> canon (s ! i)"
    using assms canon16_nth by (simp_all add: canon16_def)
  define part where "part = fold (\<lambda>v p. m31_add p v) (drop 1 s) M31_ZERO"
  define total where "total = (\<Sum>v\<leftarrow>s. ival v)"
  have s: "s = s ! 0 # drop 1 s" using len by (metis Cons_nth_drop_Suc One_nat_def drop0 zero_less_numeral)
  have "list_all canon (drop 1 s)" using assms by (auto simp: canon16_def list_all_iff dest: in_set_dropD)
  then have part: "canon part" "gval part = of_int (\<Sum>v\<leftarrow>drop 1 s. ival v)"
    using fold_m31_add_val [of "drop 1 s" M31_ZERO] by (simp_all add: part_def of_int_sum_ival)
  have tot: "(\<Sum>v\<leftarrow>drop 1 s. ival v) = total - ival (s ! 0)"
    unfolding total_def by (subst (2) s) simp
  have head: "ival (m31_sub part (s ! 0)) = (total - 2 * ival (s ! 0)) mod p31"
    using part(1) part(2) [unfolded tot] can [of 0] by (intro ivalI) (simp_all add: gval_ival [of "s ! 0"])
  have lane: "ival (m31_add (m31_add part (s ! 0)) (m31_mul (s ! i) (M31 (push_bit (INTERNAL_SHIFTS ! (i - 1)) 1))))
      = (total + 2 ^ (INTERNAL_SHIFTS ! (i - 1)) * ival (s ! i)) mod p31" if i: "i \<in> set [1..<16]" for i
  proof -
    have "i - 1 < 15" "i < 16" using i by auto
    note sh = shifted_limb(3,4) [OF part(1) shift_bound [OF this(1)]]
    show ?thesis using part(1) part(2) [unfolded tot] can [of 0] can [OF \<open>i < 16\<close>] sh
      by (intro ivalI) (simp_all add: gval_ival [of "s ! 0"] gval_ival [of "s ! i"])
  qed
  have "map ival (internal_linear s) = (total - 2 * ival (s ! 0)) mod p31
      # map (\<lambda>i. (total + 2 ^ (INTERNAL_SHIFTS ! (i - 1)) * ival (s ! i)) mod p31) [1..<16]"
    unfolding internal_linear_def Let_def part_def [symmetric] list.map map_map head
    using lane by (intro arg_cong [of _ _ "(#) _"] map_cong refl) (simp add: comp_def)
  also have "map (\<lambda>i. (total + 2 ^ (INTERNAL_SHIFTS ! (i - 1)) * ival (s ! i)) mod p31) [1..<16]
      = map2 (\<lambda>x m. (total + m * x) mod p31) (tl (map ival s)) (map (\<lambda>i. 2 ^ (INTERNAL_SHIFTS ! (i - 1))) [1..<16])"
    using len by (intro nth_equalityI) (simp_all add: nth_tl del: upt_Suc)
  also have "(total - 2 * ival (s ! 0)) mod p31 # \<dots> = internal_spec (map ival s)"
    unfolding internal_spec_def Let_def internal_shift_mults total_def
    using len by (cases s) simp_all
  finally show ?thesis .
qed

lemma full_round_ival:
  assumes "canon16 s" "step_ok (Full k)"
  shows "map ival (full_round s k) = full_round_spec (map uint k) (map ival s)"
proof -
  have k: "length k = 16" "list_all (\<lambda>c. c < M31_P) k" and len: "length s = 16"
    using assms by (simp_all add: canon16_def)
  have "map ival (add_constants_pow5 s k) = map2 (\<lambda>x c. pow5_spec ((x + c) mod p31)) (map ival s) (map uint k)"
  proof (rule nth_equalityI)
    fix i assume "i < length (map ival (add_constants_pow5 s k))"
    then have i: "i < 16" by (simp add: add_constants_pow5_def)
    have c: "canon (s ! i)" "canon (M31 (k ! i))" using assms(1) i k by (auto simp: canon16_nth list_all_length canon_M31)
    then have "ival (m31_add (s ! i) (M31 (k ! i))) = (ival (s ! i) + uint (k ! i)) mod p31"
      by (intro ivalI) (simp_all add: gval_ival [of "s ! i"] gval_ival [of "M31 (k ! i)"] ival_def)
    with c i k len show "map ival (add_constants_pow5 s k) ! i
        = map2 (\<lambda>x c. pow5_spec ((x + c) mod p31)) (map ival s) (map uint k) ! i"
      by (simp add: add_constants_pow5_def pow5_ival del: upt_Suc)
  qed (simp add: add_constants_pow5_def k len)
  moreover have "canon16 (add_constants_pow5 s k)" using assms k by (simp add: add_constants_pow5_canon)
  ultimately show ?thesis by (simp add: full_round_def full_round_spec_def external_ival)
qed

lemma partial_round_ival:
  assumes "canon16 s" "c < M31_P"
  shows "map ival (internal_linear (partial_pow5 s c)) = partial_round_spec (uint c) (map ival s)"
proof -
  have len: "length s = 16" "s \<noteq> []" and c: "canon (s ! 0)" "canon (M31 c)"
    using assms by (auto simp: canon16_def canon_M31 list_all_length)
  have "ival (m31_add (s ! 0) (M31 c)) = (ival (s ! 0) + uint c) mod p31"
    using c by (intro ivalI) (simp_all add: gval_ival [of "s ! 0"] gval_ival [of "M31 c"] ival_def)
  then have "map ival (partial_pow5 s c) = pow5_spec ((ival (s ! 0) + uint c) mod p31) # tl (map ival s)"
    using c len by (cases s) (simp_all add: partial_pow5_def pow5_ival)
  then show ?thesis
    using len by (simp add: internal_ival partial_pow5_canon assms partial_round_spec_def hd_map hd_conv_nth)
qed

lemma permute_ival:
  assumes "canon16 s"
  shows "map ival (permute s) = permute_spec (map ival s)"
proof -
  have full: "map ival (fold (\<lambda>k s. full_round s k) ks s) = fold full_round_spec (map (map uint) ks) (map ival s)
      \<and> canon16 (fold (\<lambda>k s. full_round s k) ks s)"
    if "canon16 s" "\<forall>k \<in> set ks. step_ok (Full k)" for ks s
    using that
  proof (induction ks arbitrary: s)
    case (Cons k ks)
    have "canon16 (full_round s k)" using round_fn_val(2) [of "Full k" s] Cons.prems by simp
    with Cons show ?case by (simp add: full_round_ival)
  qed simp
  have partial: "map ival (fold (\<lambda>c s. internal_linear (partial_pow5 s c)) cs s) = fold partial_round_spec (map uint cs) (map ival s)
      \<and> canon16 (fold (\<lambda>c s. internal_linear (partial_pow5 s c)) cs s)"
    if "canon16 s" "\<forall>c \<in> set cs. c < M31_P" for cs s
    using that
  proof (induction cs arbitrary: s)
    case (Cons c cs)
    have "canon16 (internal_linear (partial_pow5 s c))" using round_fn_val(2) [of "Partial c" s] Cons.prems by simp
    with Cons show ?case by (simp add: partial_round_ival)
  qed simp
  note round_cs = round_constants_canon [unfolded list_all_iff]
  show ?thesis
    unfolding permute_def permute_spec_def Let_def
    using assms round_cs by (simp add: full partial external_ival external_linear_lazy_eq list_all_iff)
qed


section \<open>Rounds by index and trace rows\<close>

lemma table_lengths: "length EXTERNAL_INITIAL = 4" "length INTERNAL = 14" "length EXTERNAL_FINAL = 4"
  by (simp_all add: EXTERNAL_INITIAL_def EXTERNAL_FINAL_def INTERNAL_def)

lemma apply_round_by_index_eq:
  "apply_round_by_index s r = (if r < 22 then Some (lazy_round_fn (schedule ! r) s) else None)"
  by (auto simp: apply_round_by_index_def schedule_def nth_append POSEIDON2_ROUNDS_def table_lengths)

lemma states_of_nth:
  "k < length steps \<Longrightarrow> states_of steps s ! k = lazy_round_fn (steps ! k) (if k = 0 then s else states_of steps s ! (k - 1))"
proof (induction steps arbitrary: s k)
  case (Cons step steps)
  then show ?case by (cases k) (auto simp: nth_Cons')
qed simp

lemma trace_inputs:
  assumes "permute_optimized_with_trace s = (out, trace)" "k < 22"
  shows "length trace = 22" and "tr_input (trace ! k) = (if k = 0 then s else tr_output (trace ! (k - 1)))"
    and "tr_output (trace ! k) = lazy_round_fn (schedule ! k) (if k = 0 then external_linear_lazy s else tr_input (trace ! k))"
proof -
  note chain = permute_trace_chain [OF assms(1)]
  show len: "length trace = 22" using chain(2) by (metis length_map length_upt diff_zero)
  have "(map tr_input trace @ [out]) ! k = (s # map tr_output trace) ! k" using chain(3) by simp
  then show input: "tr_input (trace ! k) = (if k = 0 then s else tr_output (trace ! (k - 1)))"
    using assms(2) len by (simp add: nth_append nth_Cons')
  have out: "tr_output (trace ! j) = states_of schedule (external_linear_lazy s) ! j" if "j < 22" for j
    using chain(4) len that by (metis nth_map)
  show "tr_output (trace ! k) = lazy_round_fn (schedule ! k) (if k = 0 then external_linear_lazy s else tr_input (trace ! k))"
    using out [OF assms(2)] out [of "k - 1"] states_of_nth [of k schedule] assms(2) input
    by (simp add: length_schedule)
qed

lemma trace_row_replay:
  assumes "permute_optimized_with_trace s = (out, trace)" "row < 11"
  shows "evaluate_trace_round_pair (tr_input (trace ! (2 * row))) row
    = Some (tr_output (trace ! (2 * row)), tr_output (trace ! (2 * row + 1)))"
proof -
  have k: "2 * row < 22" "2 * row + 1 < 22" using assms(2) by simp_all
  note first = trace_inputs(2,3) [OF assms(1) k(1)] and second = trace_inputs(2,3) [OF assms(1) k(2)]
  show ?thesis
    using first second assms(2)
    by (auto simp: evaluate_trace_round_pair_def apply_round_by_index_eq POSEIDON2_ROUNDS_def Let_def)
qed

lemma trace_round_constant_eq:
  "trace_round_constant r lane = (if lane < 16 then map_option (\<lambda>(d, full). (d ! lane, full)) (trace_round_descriptor r) else None)"
proof -
  have len: "r < length EXTERNAL_INITIAL \<Longrightarrow> length (EXTERNAL_INITIAL ! r) = 16"
    "r < length EXTERNAL_FINAL \<Longrightarrow> length (EXTERNAL_FINAL ! r) = 16" for r
    using round_constants_canon(4,5) by (simp_all add: list_all_length)
  show ?thesis
    using len(1) [of r] len(2) [of "r - 4 - 14"]
    by (auto simp: trace_round_constant_def trace_round_descriptor_def POSEIDON2_WIDTH_def POSEIDON2_ROUNDS_def nth_list_update table_lengths)
qed

section \<open>The sponge\<close>

definition sponge_ref :: "m31 \<Rightarrow> m31 list \<Rightarrow> digest" where
  "sponge_ref domain input =
     take 8 (fold (\<lambda>chunk state. permute (absorb chunk state))
       (if input = [] then [[]] else chunks 8 input) (sponge_start domain input))"

lemma absorb_canon:
  assumes "canon16 s" "list_all canon chunk" "length chunk \<le> 16"
  shows "canon16 (absorb chunk s)"
proof -
  have "canon16 (fold (\<lambda>(i, v) s. s[i := m31_add (s ! i) v]) (enumerate n chunk) s)" if "n + length chunk \<le> 16" for n
    using assms(1,2) that
  proof (induction chunk arbitrary: n s)
    case (Cons v chunk)
    have "canon16 (s[n := m31_add (s ! n) v])"
      using Cons.prems by (auto simp: canon16_def list_all_length nth_list_update)
    with Cons show ?case by simp
  qed simp
  from this [of 0] assms(3) show ?thesis by (simp add: absorb_def)
qed

lemma chunks_canon: "list_all canon xs \<Longrightarrow> \<forall>c \<in> set (chunks n xs). list_all canon c \<and> length c \<le> n"
proof (induction n xs rule: chunks.induct)
  case (1 n xs)
  have "list_all canon (take n xs)" "list_all canon (drop n xs)"
    using "1.prems" by (auto simp: list_all_iff dest: in_set_takeD in_set_dropD)
  note parts = this
  show ?case
  proof (cases "n = 0 \<or> xs = []")
    case True
    then have "chunks n xs = []" by (subst chunks.simps) (simp only: if_True)
    then show ?thesis by simp
  next
    case False
    then have "chunks n xs = take n xs # chunks n (drop n xs)" by (subst chunks.simps) (simp only: if_False)
    moreover have "\<forall>c \<in> set (chunks n (drop n xs)). list_all canon c \<and> length c \<le> n"
      using "1.IH" [OF False parts(2)] .
    ultimately show ?thesis using parts(1) by simp
  qed
qed

lemma sponge_start_canon: "canon d \<Longrightarrow> length input < 2147483647 \<Longrightarrow> canon16 (sponge_start d input)"
proof -
  assume d: "canon d" and len: "length input < 2147483647"
  have "unat (of_nat (length input) :: u32) = length input"
    using len by (simp add: unat_of_nat)
  then have "canon (M31 (of_nat (length input)))" unfolding canon_unat m31.sel using len by simp
  then have "canon ((replicate 16 M31_ZERO)[8 := d, 9 := M31 (of_nat (length input))] ! i)" if "i < 16" for i
    using d that by (simp add: nth_list_update)
  then show ?thesis by (simp add: canon16_def sponge_start_def RATE_def list_all_length)
qed

lemma sponge_loop:
  assumes "canon16 s" "\<forall>c \<in> set cs. list_all canon c \<and> length c \<le> 8"
  shows "fst (fold (\<lambda>(i, c) (s, tr). let (s, ts) = permute_optimized_with_trace (absorb c s) in (s, tr @ map (Pair i) ts))
      (enumerate n cs) (s, tr)) = fold (\<lambda>c s. permute (absorb c s)) cs s
    \<and> canon16 (fold (\<lambda>c s. permute (absorb c s)) cs s)"
  using assms
proof (induction cs arbitrary: n s tr)
  case (Cons c cs)
  have a: "canon16 (absorb c s)" using Cons.prems by (intro absorb_canon) auto
  then have p: "fst (permute_optimized_with_trace (absorb c s)) = permute (absorb c s)" "canon16 (permute (absorb c s))"
    using permute_optimized_eq [OF a] permute_canon [OF a] by (simp_all add: permute_optimized_def)
  show ?case
    using Cons.IH [of "permute (absorb c s)" "Suc n"] Cons.prems p by (simp add: case_prod_unfold Let_def)
qed simp

lemma hash_fields_eq:
  assumes "canon d" "list_all canon input" "length input < 2147483647"
  shows "hash_fields d input = sponge_ref d input" and "length (hash_fields d input) = 8"
    and "list_all canon (hash_fields d input)"
proof -
  let ?s = "sponge_start d input"
  let ?cs = "if input = [] then [[]] else chunks 8 input"
  have s: "canon16 ?s" using assms by (intro sponge_start_canon)
  have cs: "\<forall>c \<in> set ?cs. list_all canon c \<and> length c \<le> 8" using chunks_canon [OF assms(2)] by simp
  let ?final = "fold (\<lambda>c s. permute (absorb c s)) ?cs ?s"
  have final: "canon16 ?final" using sponge_loop [OF s cs] by blast
  have take8: "map ((!) t) [0..<8] = take 8 t" if "canon16 t" for t
    using that by (intro nth_equalityI) (simp_all add: canon16_def del: upt_Suc)
  have "hash_fields d input = map ((!) ?final) [0..<8]"
  proof (cases "input = []")
    case True
    have "absorb [] ?s = ?s" by (simp add: absorb_def)
    with True s show ?thesis
      using permute_optimized_eq [OF s]
      by (simp add: hash_fields_def hash_fields_with_trace_def Let_def case_prod_unfold DIGEST_ELEMS_def
          permute_optimized_def)
  next
    case False
    then show ?thesis
      using sponge_loop [OF s cs, of 0 "[]"]
      by (simp add: hash_fields_def hash_fields_with_trace_def Let_def case_prod_unfold DIGEST_ELEMS_def RATE_def)
  qed
  then show eq: "hash_fields d input = sponge_ref d input"
    by (simp only: take8 [OF final] sponge_ref_def)
  show "length (hash_fields d input) = 8" "list_all canon (hash_fields d input)"
    using final unfolding eq sponge_ref_def by (auto simp: canon16_def list_all_iff dest: in_set_takeD)
qed

lemma merkle_node_compress_v3_val:
  assumes "length l = 8" "length r = 8" "list_all canon l" "list_all canon r"
  shows "merkle_node_compress_v3 l r = take 8 (permute (l @ r[7 := m31_add (r ! 7) MERKLE_NODE_COMPRESSION_V3_TWEAK]))"
    and "length (merkle_node_compress_v3 l r) = 8" and "list_all canon (merkle_node_compress_v3 l r)"
proof -
  let ?s = "l @ r[7 := m31_add (r ! 7) MERKLE_NODE_COMPRESSION_V3_TWEAK]"
  have tweak: "canon MERKLE_NODE_COMPRESSION_V3_TWEAK"
    by (simp add: MERKLE_NODE_COMPRESSION_V3_TWEAK_def canon_M31 M31_P_def)
  then have s: "canon16 ?s"
    using assms by (auto simp: canon16_def list_all_iff dest!: set_update_subset_insert [THEN subsetD])
  have state: "put DIGEST_ELEMS r (put 0 l (replicate POSEIDON2_WIDTH M31_ZERO)) = l @ r"
    using assms by (simp add: put_def DIGEST_ELEMS_def POSEIDON2_WIDTH_def)
  have upd: "(l @ r)[15 := m31_add ((l @ r) ! 15) t] = l @ r[7 := m31_add (r ! 7) t]" for t
    using assms by (simp add: list_update_append nth_append)
  have p: "fst (permute_optimized_with_trace ?s) = permute ?s" "canon16 (permute ?s)"
    using permute_optimized_eq [OF s] permute_canon [OF s] by (simp_all add: permute_optimized_def)
  show eq: "merkle_node_compress_v3 l r = take 8 (permute ?s)"
    using p(2) unfolding merkle_node_compress_v3_def Let_def state
    by (intro nth_equalityI) (simp_all add: DIGEST_ELEMS_def POSEIDON2_WIDTH_def upd p(1) canon16_def del: upt_Suc)
  show "length (merkle_node_compress_v3 l r) = 8" "list_all canon (merkle_node_compress_v3 l r)"
    using p(2) unfolding eq by (auto simp: canon16_def list_all_iff dest: in_set_takeD)
qed

text \<open>
  The sponge on integers, written down without the implementation's state, absorption or
  chunking: rate eight, the domain and the input's length in the first two capacity lanes,
  and one permutation for each started block of eight, at least one.
\<close>

definition add_block_spec :: "int list \<Rightarrow> int list \<Rightarrow> int list" where
  "add_block_spec block s = map (\<lambda>i. (s ! i + (if i < length block then block ! i else 0)) mod p31) [0..<16]"

function sponge_rounds_spec :: "int list \<Rightarrow> int list \<Rightarrow> int list" where
  "sponge_rounds_spec input s =
     (let s = permute_spec (add_block_spec (take 8 input) s)
      in if length input \<le> 8 then s else sponge_rounds_spec (drop 8 input) s)"
  by auto
termination by (relation "measure (\<lambda>(input, s). length input)") auto

declare sponge_rounds_spec.simps [simp del]

definition sponge_spec :: "int \<Rightarrow> int list \<Rightarrow> int list" where
  "sponge_spec domain input =
     take 8 (sponge_rounds_spec input [0, 0, 0, 0, 0, 0, 0, 0, domain, int (length input), 0, 0, 0, 0, 0, 0])"

lemma absorb_nth:
  assumes "length chunk \<le> length s"
  shows "absorb chunk s = map (\<lambda>i. if i < length chunk then m31_add (s ! i) (chunk ! i) else s ! i) [0..<length s]"
proof -
  have "fold (\<lambda>(i, v) s. s[i := m31_add (s ! i) v]) (enumerate n chunk) s
      = map (\<lambda>i. if n \<le> i \<and> i < n + length chunk then m31_add (s ! i) (chunk ! (i - n)) else s ! i) [0..<length s]"
    if "n + length chunk \<le> length s" for n
    using that
  proof (induction chunk arbitrary: n s)
    case (Cons v chunk)
    then show ?case
      by (auto intro!: nth_equalityI simp: nth_list_update nth_Cons' simp del: upt_Suc)
  qed (auto intro!: nth_equalityI)
  from this [of 0] assms show ?thesis by (simp add: absorb_def)
qed

lemma absorb_ival:
  assumes "canon16 s" "list_all canon chunk" "length chunk \<le> 8"
  shows "map ival (absorb chunk s) = add_block_spec (map ival chunk) (map ival s)"
proof -
  have len: "length s = 16" using assms by (simp add: canon16_def)
  have lane: "ival (if i < length chunk then m31_add (s ! i) (chunk ! i) else s ! i)
      = (ival (s ! i) + (if i < length chunk then ival (chunk ! i) else 0)) mod p31" if "i < 16" for i
    using that assms canon16_nth [OF assms(1) that]
    by (intro ivalI) (auto simp: list_all_length gval_ival [of "s ! i"] gval_ival [of "chunk ! i"])
  show ?thesis
    using assms(3) len lane by (simp add: absorb_nth add_block_spec_def)
qed

lemma chunks_Cons: "0 < n \<Longrightarrow> xs \<noteq> [] \<Longrightarrow> chunks n xs = take n xs # chunks n (drop n xs)"
  by (subst chunks.simps) simp

lemma chunks_Nil [simp]: "chunks n [] = []"
  by (subst chunks.simps) simp

lemma sponge_rounds_ival:
  assumes "canon16 s" "list_all canon input"
  shows "map ival (fold (\<lambda>c s. permute (absorb c s)) (if input = [] then [[]] else chunks 8 input) s)
    = sponge_rounds_spec (map ival input) (map ival s)"
  using assms
proof (induction "length input" arbitrary: input s rule: less_induct)
  case less
  let ?s = "permute (absorb (take 8 input) s)"
  have parts: "list_all canon (take 8 input)" "list_all canon (drop 8 input)"
    using less.prems(2) by (auto simp: list_all_iff dest: in_set_takeD in_set_dropD)
  have abs: "canon16 (absorb (take 8 input) s)" using less.prems(1) parts(1) by (intro absorb_canon) auto
  then have s: "map ival ?s = permute_spec (add_block_spec (take 8 (map ival input)) (map ival s))" "canon16 ?s"
    using parts(1) less.prems(1) by (simp_all add: permute_ival absorb_ival permute_canon take_map)
  show ?case
  proof (cases "length input \<le> 8")
    case True
    then have "(if input = [] then [[]] else chunks 8 input) = [take 8 input]" by (auto simp: chunks_Cons)
    with True s(1) show ?thesis by (subst sponge_rounds_spec.simps) (simp add: Let_def)
  next
    case False
    then have "input \<noteq> []" "drop 8 input \<noteq> []" by auto
    with False less.hyps [OF _ s(2) parts(2)] s(1) show ?thesis
      by (subst sponge_rounds_spec.simps) (simp add: Let_def chunks_Cons drop_map)
  qed
qed

lemma hash_fields_ival:
  assumes "canon d" "list_all canon input" "length input < 2147483647"
  shows "map ival (hash_fields d input) = sponge_spec (ival d) (map ival input)"
proof -
  have lanes: "replicate 16 z = [z, z, z, z, z, z, z, z, z, z, z, z, z, z, z, z]" for z :: m31
    by (simp add: numeral_eq_Suc)
  have "ival (M31 (of_nat (length input))) = int (length input)"
    using assms(3) by (simp add: ival_def uint_nat unat_of_nat)
  then have "map ival (sponge_start d input) = [0, 0, 0, 0, 0, 0, 0, 0, ival d, int (length input), 0, 0, 0, 0, 0, 0]"
    by (simp add: sponge_start_def RATE_def lanes) (simp add: ival_def M31_ZERO_def)
  with sponge_rounds_ival [OF sponge_start_canon [OF assms(1,3)] assms(2)] show ?thesis
    by (simp add: hash_fields_eq(1) [OF assms] sponge_ref_def sponge_spec_def flip: take_map)
qed

end
