(* ===== verification/PoseidonEval.thy ===== *)
theory PoseidonEval
  imports Poseidon2
begin

text \<open>
  Fast kernel evaluation of the reference permutation. Reduction modulo \<open>2^31 - 1\<close> folds the high bits onto
  the low ones instead of dividing and squares use the squaring of binary numerals; the equations replace the
  defining ones of the reference in evaluation, so that \<open>code_simp\<close> runs one permutation in seconds.
\<close>

section \<open>Reduction by folding\<close>

fun low_num :: "unit list \<Rightarrow> num \<Rightarrow> int" where
  "low_num [] n = 0"
| "low_num (u # us) num.One = 1"
| "low_num (u # us) (num.Bit0 n) = Int.dup (low_num us n)"
| "low_num (u # us) (num.Bit1 n) = Int.dup (low_num us n) + 1"

fun high_num :: "unit list \<Rightarrow> num \<Rightarrow> int" where
  "high_num [] n = Int.Pos n"
| "high_num (u # us) num.One = 0"
| "high_num (u # us) (num.Bit0 n) = high_num us n"
| "high_num (u # us) (num.Bit1 n) = high_num us n"

lemma double_split:
  fixes a k :: int
  shows "(2 * a) mod (2 * k) = 2 * (a mod k)" "(2 * a) div (2 * k) = a div k"
    "0 < k \<Longrightarrow> (2 * a + 1) mod (2 * k) = 2 * (a mod k) + 1" "0 < k \<Longrightarrow> (2 * a + 1) div (2 * k) = a div k"
  by (simp_all add: zmod_zmult2_eq zdiv_zmult2_eq)

lemma num_twice:
  "(numeral (num.Bit0 n) :: int) = 2 * numeral n" "(numeral (num.Bit1 n) :: int) = 2 * numeral n + 1"
  by (rule numeral_Bit0 [THEN trans], rule mult_2 [symmetric]) (rule numeral_Bit1 [THEN trans], simp only: mult_2)

lemma low_num_eq: "low_num us n = numeral n mod 2 ^ length us"
proof (induction us n rule: low_num.induct)
  case (2 u us)
  show ?case using one_less_power [of "2 :: int" "Suc (length us)"] by simp
next
  case (3 u us n)
  show ?case unfolding low_num.simps 3 num_twice [of n] length_Cons power_Suc double_split(1) Int.dup_def by (rule mult_2 [symmetric])
next
  case (4 u us n)
  show ?case unfolding low_num.simps 4 num_twice [of n] length_Cons power_Suc Int.dup_def
    by (subst double_split(3)) simp_all
qed simp_all

lemma high_num_eq: "high_num us n = numeral n div 2 ^ length us"
proof (induction us n rule: high_num.induct)
  case (2 u us)
  show ?case using one_less_power [of "2 :: int" "Suc (length us)"] by simp
next
  case (3 u us n)
  show ?case unfolding high_num.simps 3 num_twice [of n] length_Cons power_Suc double_split(2) ..
next
  case (4 u us n)
  show ?case unfolding high_num.simps 4 num_twice [of n] length_Cons power_Suc by (subst double_split(4)) simp_all
qed simp_all

definition ticks31 :: "unit list" where
  "ticks31 = [(), (), (), (), (), (), (), (), (), (), (), (), (), (), (), (), (), (), (), (), (), (), (), (), (), (), (), (), (), (), ()]"

definition p31_fold :: "num \<Rightarrow> int" where
  "p31_fold n = (let s = low_num ticks31 n + high_num ticks31 n
     in if s < p31 then s else let t = s - p31 in if t < p31 then t else numeral n mod p31)"

definition p31_mod :: "int \<Rightarrow> int" where "p31_mod z = z mod p31"
definition p31_sqr :: "int \<Rightarrow> int" where "p31_sqr z = z * z"

lemma mersenne_fold: "(x mod 2 ^ 31 + x div 2 ^ 31) mod p31 = (x :: int) mod p31"
proof -
  have "x mod 2147483648 + 2147483648 * (x div 2147483648) = x" by (rule mod_mult_div_eq)
  then have "x mod 2147483648 + x div 2147483648 + p31 * (x div 2147483648) = x" by linarith
  then have "(x mod 2147483648 + x div 2147483648) mod p31 = x mod p31" by (metis mod_mult_self2)
  then show ?thesis by simp
qed

lemma p31_reduce_sum:
  fixes s x :: int
  assumes "0 \<le> s" "s mod p31 = x mod p31"
  shows "(if s < p31 then s else let t = s - p31 in if t < p31 then t else x mod p31) = x mod p31"
proof -
  have "s - p31 = s mod p31" if "p31 \<le> s" "s - p31 < p31"
    using that by (metis diff_ge_0_iff_ge minus_mod_self2 mod_pos_pos_trivial)
  with assms show ?thesis by (auto simp: Let_def)
qed

lemma p31_fold_eq: "p31_fold n = numeral n mod p31"
proof -
  define x :: int where "x = numeral n"
  have "0 \<le> x" by (simp add: x_def)
  then have nonneg: "0 \<le> x mod 2 ^ 31 + x div 2 ^ 31" by (simp add: pos_imp_zdiv_nonneg_iff)
  have "length ticks31 = 31" by (simp add: ticks31_def)
  then show ?thesis
    using p31_reduce_sum [OF nonneg mersenne_fold]
    by (simp only: p31_fold_def low_num_eq high_num_eq x_def [symmetric] Let_def)
qed

lemma p31_mod_code [code]:
  "p31_mod 0 = 0" "p31_mod (Int.Pos n) = p31_fold n" "p31_mod (Int.Neg n) = Int.Neg n mod p31"
  by (simp_all add: p31_mod_def p31_fold_eq)

lemma p31_sqr_code [code]:
  "p31_sqr 0 = 0" "p31_sqr (Int.Pos n) = Int.Pos (Num.sqr n)" "p31_sqr (Int.Neg n) = Int.Pos (Num.sqr n)"
  by (simp_all add: p31_sqr_def Num.sqr_conv_mult numeral_mult del: semiring_norm arith_simps)

section \<open>The permutation\<close>

lemma mat4_spec_code [code]:
  "mat4_spec [a, b, c, d] =
     (let t = a + b + c + d in [p31_mod (t + a + Int.dup b), p31_mod (t + b + Int.dup c),
      p31_mod (t + c + Int.dup d), p31_mod (t + d + Int.dup a)])"
  by (simp add: p31_mod_def Let_def Int.dup_def algebra_simps)

lemma external_spec_code [code]:
  "external_spec s =
     (let rows = map mat4_spec (rows_of_4 s);
          sums = foldr (map2 (+)) rows [0, 0, 0, 0]
      in concat (map (\<lambda>row. map2 (\<lambda>x y. p31_mod (x + y)) row sums) rows))"
  by (simp add: external_spec_def p31_mod_def)

lemma pow5_spec_code [code]:
  "pow5_spec x = (let y = p31_mod (p31_sqr x) in p31_mod (p31_mod (p31_sqr y) * x))"
  by (simp add: pow5_spec_def p31_mod_def p31_sqr_def Let_def)

lemma internal_spec_code [code]:
  "internal_spec s =
     (let sum = sum_list s; h = hd s
      in p31_mod (sum - h - h)
         # map2 (\<lambda>x m. p31_mod (sum + m * x)) (tl s)
             [1, 2, 4, 8, 16, 32, 64, 128, 256, 1024, 4096, 8192, 16384, 32768, 65536])"
  by (simp add: internal_spec_def p31_mod_def Let_def)

lemma full_round_spec_code [code]:
  "full_round_spec constants s = external_spec (map2 (\<lambda>x c. pow5_spec (p31_mod (x + c))) s constants)"
  by (simp add: full_round_spec_def p31_mod_def)

lemma partial_round_spec_code [code]:
  "partial_round_spec c s = internal_spec (pow5_spec (p31_mod (hd s + c)) # tl s)"
  by (simp add: partial_round_spec_def p31_mod_def)

section \<open>The node compression on integers\<close>

definition node_spec :: "int list \<Rightarrow> int list \<Rightarrow> int list" where
  "node_spec left right = take 8 (permute_spec (left @ right[7 := (right ! 7 + 0x41531005) mod p31]))"

lemma ival_inject: "ival x = ival y \<longleftrightarrow> x = y"
  by (cases x; cases y) (simp add: ival_def word_uint_eq_iff)

lemma map_ival_inject: "map ival xs = map ival ys \<longleftrightarrow> xs = ys"
  by (rule inj_map_eq_map) (simp add: inj_def ival_inject)

lemma ival_m31_add: "canon x \<Longrightarrow> canon y \<Longrightarrow> ival (m31_add x y) = (ival x + ival y) mod p31"
  by (intro ivalI) (simp_all add: gval_ival [of x] gval_ival [of y])

lemma node_compress_ival:
  assumes "length l = 8" "length r = 8" "list_all canon l" "list_all canon r"
  shows "map ival (merkle_node_compress_v3 l r) = node_spec (map ival l) (map ival r)"
proof -
  let ?s = "l @ r[7 := m31_add (r ! 7) MERKLE_NODE_COMPRESSION_V3_TWEAK]"
  have tweak: "canon MERKLE_NODE_COMPRESSION_V3_TWEAK" "ival MERKLE_NODE_COMPRESSION_V3_TWEAK = 0x41531005"
    by (simp_all add: MERKLE_NODE_COMPRESSION_V3_TWEAK_def canon_def M31_P_def ival_def)
  moreover have r7: "canon (r ! 7)" using assms by (simp add: list_all_length)
  ultimately have "canon16 ?s" using assms by (auto simp: canon16_def list_all_length nth_append nth_list_update)
  moreover have "map ival ?s = map ival l @ (map ival r)[7 := (map ival r ! 7 + 0x41531005) mod p31]"
    using tweak r7 assms by (simp add: map_update ival_m31_add)
  ultimately show ?thesis
    using merkle_node_compress_v3_val(1) [of l r] assms by (simp add: node_spec_def take_map [symmetric] permute_ival)
qed

end
