(* ===== verification/Formats.thy ===== *)
theory Formats
  imports Poseidon2
begin

text \<open>
  The canonical digest encoding of \<open>crates/aspis-statement/src/atomic_statement.rs\<close> and the
  semantic formats of \<open>pool_v1/format.rs\<close>: the pool identity and the verifier policy, each a
  fixed-width image. Both are instances of the contract \<open>image_codec\<close>: the encoder and the
  decoder are inverse to each other and only canonical bytes are accepted.
\<close>

section \<open>Canonical digests\<close>

datatype atomic_statement_error =
  NonCanonicalDigest | NonCanonicalAssetId | FeeOutOfRange | PathDepthMismatch
  | InsertionIndexOutOfRange | CurrentAnchorMismatch | OutputAnchorMismatch

definition encode_digest_canonical :: "digest \<Rightarrow> bytes" where
  "encode_digest_canonical digest = put_each 0 4 m31_to_le_bytes digest (zeros 32)"

definition decode_digest_canonical :: "bytes \<Rightarrow> atomic_statement_error + digest" where
  "decode_digest_canonical bytes =
     read_each 0 4 (\<lambda>b. ok_or NonCanonicalDigest (m31_from_le_bytes b)) DIGEST_ELEMS bytes"

definition decode_asset_id_canonical :: "u32 \<Rightarrow> atomic_statement_error + m31" where
  "decode_asset_id_canonical value = (if M31_P \<le> value then Inl NonCanonicalAssetId else Inr (M31 value))"

definition digest_ok :: "digest \<Rightarrow> bool" where
  "digest_ok d \<longleftrightarrow> length d = 8 \<and> list_all canon d"

lemma encode_digest_eq: "length d = 8 \<Longrightarrow> encode_digest_canonical d = concat (map m31_to_le_bytes d)"
  unfolding encode_digest_canonical_def
  by (subst put_each_eq) (simp_all add: put_def length_concat_const [of d _ 4])

lemma length_encode_digest [simp]: "length d = 8 \<Longrightarrow> length (encode_digest_canonical d) = 32"
  by (simp add: encode_digest_eq length_concat_const [of d _ 4])

lemma decode_digest_eq_Inr:
  "length b = 32 \<Longrightarrow> decode_digest_canonical b = Inr d \<longleftrightarrow> digest_ok d \<and> encode_digest_canonical d = b"
  unfolding decode_digest_canonical_def DIGEST_ELEMS_def
  by (subst read_each_eq_Inr [where ok = canon and f = m31_to_le_bytes])
    (auto simp: m31_from_le_bytes_Some digest_ok_def encode_digest_eq seg_def)

interpretation digest_codec: image_codec "\<lambda>d. Inr (encode_digest_canonical d)"
  "\<lambda>b. if length b = 32 then decode_digest_canonical b else Inl NonCanonicalDigest" digest_ok 32
  by unfold_locales (auto simp: decode_digest_eq_Inr digest_ok_def split: if_splits)

lemma digest_round_trip [simp]: "digest_ok d \<Longrightarrow> decode_digest_canonical (encode_digest_canonical d) = Inr d"
  using digest_codec.dec_enc [of d "encode_digest_canonical d"] by (simp add: digest_ok_def)

lemma decode_digest_error: "decode_digest_canonical b = Inl e \<Longrightarrow> e = NonCanonicalDigest"
  unfolding decode_digest_canonical_def read_each_def
  by (drule mapE_Inl) (auto simp: ok_or_def split: option.splits)

section \<open>Format constants\<close>

definition POOL_V1_FORMAT_VERSION :: u8 where [layout_defs]: "POOL_V1_FORMAT_VERSION = 2"
definition POOL_V1_NOTE_COMMITMENT_VERSION :: u8 where [layout_defs]: "POOL_V1_NOTE_COMMITMENT_VERSION = 2"
definition POOL_V1_NULLIFIER_FORMAT_VERSION :: u8 where [layout_defs]: "POOL_V1_NULLIFIER_FORMAT_VERSION = 1"
definition POOL_V1_TREE_HASH_VERSION :: u8 where [layout_defs]: "POOL_V1_TREE_HASH_VERSION = 3"
definition POOL_V1_DIGEST_ENCODING_VERSION :: u8 where [layout_defs]: "POOL_V1_DIGEST_ENCODING_VERSION = 1"
definition POOL_V1_TREE_DEPTH :: nat where "POOL_V1_TREE_DEPTH = 20"
definition POOL_V1_IDENTITY_VERSION :: u8 where [layout_defs]: "POOL_V1_IDENTITY_VERSION = 1"
definition POOL_V1_VERIFIER_POLICY_VERSION :: u8 where [layout_defs]: "POOL_V1_VERIFIER_POLICY_VERSION = 1"

definition POOL_V1_IDENTITY_MAGIC :: bytes where [layout_defs]: "POOL_V1_IDENTITY_MAGIC = [0x41, 0x53, 0x50, 0x49]"
definition POOL_V1_IDENTITY_BYTES :: nat where [layout_defs]: "POOL_V1_IDENTITY_BYTES = 144"
definition POOL_V1_VERIFIER_POLICY_MAGIC :: bytes where [layout_defs]: "POOL_V1_VERIFIER_POLICY_MAGIC = [0x41, 0x53, 0x50, 0x50]"
definition POOL_V1_VERIFIER_POLICY_BYTES :: nat where [layout_defs]: "POOL_V1_VERIFIER_POLICY_BYTES = 104"
definition POLICY_FLAG_IMMUTABLE_REGISTRY :: u8 where "POLICY_FLAG_IMMUTABLE_REGISTRY = 1"
definition POLICY_FLAG_IMMUTABLE_DEPLOYMENT :: u8 where "POLICY_FLAG_IMMUTABLE_DEPLOYMENT = 2"
definition POLICY_FLAGS_MASK :: u8 where
  "POLICY_FLAGS_MASK = POLICY_FLAG_IMMUTABLE_REGISTRY OR POLICY_FLAG_IMMUTABLE_DEPLOYMENT"

datatype format_error =
  FWrongLength | FWrongMagic | FWrongVersion | FNonZeroReserved | FNonCanonicalAssetId
  | FUnsupportedFlags | FZeroRequiredBinding | FInvalidAuthorityMode

record pool_identity =
  id_pool :: bytes
  id_asset_mint :: bytes
  id_token_program :: bytes
  id_asset_id :: m31
  id_deployment_domain :: bytes

record verifier_policy =
  vp_flags :: u8
  vp_registry_program :: bytes
  vp_registry_authority :: bytes
  vp_policy_binding :: bytes

definition encode_pool_identity_v1 :: "pool_identity \<Rightarrow> bytes" where
  "encode_pool_identity_v1 identity =
     (let output = zeros POOL_V1_IDENTITY_BYTES;
          output = put 0 POOL_V1_IDENTITY_MAGIC output;
          output = output[4 := POOL_V1_IDENTITY_VERSION];
          output = put 8 (id_pool identity) output;
          output = put 40 (id_asset_mint identity) output;
          output = put 72 (id_token_program identity) output;
          output = put 104 (m31_to_le_bytes (id_asset_id identity)) output
      in put 112 (id_deployment_domain identity) output)"

definition decode_pool_identity_v1 :: "bytes \<Rightarrow> format_error + pool_identity" where
  "decode_pool_identity_v1 bytes =
     (if length bytes \<noteq> POOL_V1_IDENTITY_BYTES then Inl FWrongLength
      else if seg 0 4 bytes \<noteq> POOL_V1_IDENTITY_MAGIC then Inl FWrongMagic
      else if bytes ! 4 \<noteq> POOL_V1_IDENTITY_VERSION then Inl FWrongVersion
      else if seg 5 8 bytes \<noteq> zeros 3 \<or> seg 108 112 bytes \<noteq> zeros 4 then Inl FNonZeroReserved
      else let raw_asset_id = from_le (seg 104 108 bytes) :: u32
           in if M31_P \<le> raw_asset_id then Inl FNonCanonicalAssetId
              else Inr \<lparr> id_pool = seg 8 40 bytes, id_asset_mint = seg 40 72 bytes,
                         id_token_program = seg 72 104 bytes, id_asset_id = M31 raw_asset_id,
                         id_deployment_domain = seg 112 144 bytes \<rparr>)"

definition validate_verifier_policy_v1 :: "verifier_policy \<Rightarrow> format_error + unit" where
  "validate_verifier_policy_v1 policy =
     (if vp_flags policy AND NOT POLICY_FLAGS_MASK \<noteq> 0 then Inl FUnsupportedFlags
      else if vp_registry_program policy = zeros 32 \<or> vp_policy_binding policy = zeros 32
      then Inl FZeroRequiredBinding
      else let immutable = (vp_flags policy AND POLICY_FLAG_IMMUTABLE_REGISTRY \<noteq> 0);
               immutable_deployment = (vp_flags policy AND POLICY_FLAG_IMMUTABLE_DEPLOYMENT \<noteq> 0)
           in if immutable_deployment \<and> \<not> immutable then Inl FInvalidAuthorityMode
              else if immutable \<noteq> (vp_registry_authority policy = zeros 32) then Inl FInvalidAuthorityMode
              else Inr ())"

definition verifier_policy_v1_image :: "verifier_policy \<Rightarrow> bytes" where
  "verifier_policy_v1_image policy =
     (let output = zeros POOL_V1_VERIFIER_POLICY_BYTES;
          output = put 0 POOL_V1_VERIFIER_POLICY_MAGIC output;
          output = output[4 := POOL_V1_VERIFIER_POLICY_VERSION];
          output = output[5 := vp_flags policy];
          output = put 8 (vp_registry_program policy) output;
          output = put 40 (vp_registry_authority policy) output
      in put 72 (vp_policy_binding policy) output)"

definition encode_verifier_policy_v1 :: "verifier_policy \<Rightarrow> format_error + bytes" where
  "encode_verifier_policy_v1 policy =
     bindE (validate_verifier_policy_v1 policy) (\<lambda>_. Inr (verifier_policy_v1_image policy))"

definition decode_verifier_policy_v1 :: "bytes \<Rightarrow> format_error + verifier_policy" where
  "decode_verifier_policy_v1 bytes =
     (if length bytes \<noteq> POOL_V1_VERIFIER_POLICY_BYTES then Inl FWrongLength
      else if seg 0 4 bytes \<noteq> POOL_V1_VERIFIER_POLICY_MAGIC then Inl FWrongMagic
      else if bytes ! 4 \<noteq> POOL_V1_VERIFIER_POLICY_VERSION then Inl FWrongVersion
      else if seg 6 8 bytes \<noteq> zeros 2 then Inl FNonZeroReserved
      else let policy = \<lparr> vp_flags = bytes ! 5, vp_registry_program = seg 8 40 bytes,
                  vp_registry_authority = seg 40 72 bytes, vp_policy_binding = seg 72 104 bytes \<rparr>
           in bindE (validate_verifier_policy_v1 policy) (\<lambda>_. Inr policy))"

section \<open>Images\<close>

definition identity_ok :: "pool_identity \<Rightarrow> bool" where
  "identity_ok i \<longleftrightarrow> length (id_pool i) = 32 \<and> length (id_asset_mint i) = 32
     \<and> length (id_token_program i) = 32 \<and> canon (id_asset_id i) \<and> length (id_deployment_domain i) = 32"

definition policy_ok :: "verifier_policy \<Rightarrow> bool" where
  "policy_ok p \<longleftrightarrow> length (vp_registry_program p) = 32 \<and> length (vp_registry_authority p) = 32
     \<and> length (vp_policy_binding p) = 32"

interpretation identity_codec: image_codec "\<lambda>i. Inr (encode_pool_identity_v1 i)" decode_pool_identity_v1
  identity_ok POOL_V1_IDENTITY_BYTES
proof (rule image_codecI [where check = "\<lambda>_. Inr ()" and img = encode_pool_identity_v1
      and cs = "[4, 5, 8, 40, 72, 104, 108, 112, 144]"])
  fix i assume "identity_ok i"
  then show "length (encode_pool_identity_v1 i) = POOL_V1_IDENTITY_BYTES"
    "decode_pool_identity_v1 (encode_pool_identity_v1 i) = Inr i"
    by (simp_all add: decode_pool_identity_v1_def encode_pool_identity_v1_def identity_ok_def Let_def layout_defs
        image_simps canon_def m31_to_le_bytes_def not_le)
next
  fix b i assume dec: "decode_pool_identity_v1 b = Inr i"
  then show "length b = POOL_V1_IDENTITY_BYTES \<and> identity_ok i \<and> Inr () = Inr ()"
    by (auto simp: decode_pool_identity_v1_def identity_ok_def Let_def layout_defs canon_def not_le)
  assume "length b = POOL_V1_IDENTITY_BYTES" "identity_ok i"
  with dec show "agree_on [0, 4, 5, 8, 40, 72, 104, 108, 112, 144] (encode_pool_identity_v1 i) b"
    by (auto simp: decode_pool_identity_v1_def encode_pool_identity_v1_def Let_def layout_defs image_simps seg_one m31_to_le_bytes_def)
qed (simp_all add: layout_defs)

interpretation policy_codec: image_codec encode_verifier_policy_v1 decode_verifier_policy_v1
  policy_ok POOL_V1_VERIFIER_POLICY_BYTES
proof (rule image_codecI [where check = validate_verifier_policy_v1 and img = verifier_policy_v1_image
      and cs = "[4, 5, 6, 8, 40, 72, 104]"])
  fix p assume "policy_ok p"
  then show "length (verifier_policy_v1_image p) = POOL_V1_VERIFIER_POLICY_BYTES"
    "validate_verifier_policy_v1 p = Inr () \<Longrightarrow> decode_verifier_policy_v1 (verifier_policy_v1_image p) = Inr p"
    by (cases p; simp add: decode_verifier_policy_v1_def verifier_policy_v1_image_def policy_ok_def Let_def layout_defs image_simps)+
next
  fix b p assume dec: "decode_verifier_policy_v1 b = Inr p"
  then show "length b = POOL_V1_VERIFIER_POLICY_BYTES \<and> policy_ok p \<and> validate_verifier_policy_v1 p = Inr ()"
    by (auto simp: decode_verifier_policy_v1_def policy_ok_def Let_def layout_defs)
  assume "length b = POOL_V1_VERIFIER_POLICY_BYTES" "policy_ok p"
  with dec show "agree_on [0, 4, 5, 6, 8, 40, 72, 104] (verifier_policy_v1_image p) b"
    by (auto simp: decode_verifier_policy_v1_def verifier_policy_v1_image_def Let_def layout_defs image_simps seg_one)
qed (simp_all add: layout_defs encode_verifier_policy_v1_def)

section \<open>The tree hash\<close>

definition pool_v1_tree_parent :: "digest \<Rightarrow> digest \<Rightarrow> digest" where
  "pool_v1_tree_parent left right = merkle_node_compress_v3 left right"

end
