(* ===== verification/RootHistory.thy ===== *)
theory RootHistory
  imports Formats
begin

text \<open>
  The retained-root pages of \<open>crates/aspis-statement/src/pool_v1/root_history.rs\<close>. A root sequence
  number has exactly one page and one slot; a page holds 256 roots behind a 64-byte header. The
  on-chain code works in place on the account bytes (\<open>validate/initialize/append/read_root_history_page\<close>),
  the host code on the record \<open>root_history_page\<close>; both are shown to be the same append-only log,
  stated once as the locale \<open>sequenced_page\<close>.
\<close>

section \<open>Layout and locations\<close>

definition POOL_V1_ROOT_HISTORY_PAGE_MAGIC :: bytes where [layout_defs]: "POOL_V1_ROOT_HISTORY_PAGE_MAGIC = [0x41, 0x53, 0x50, 0x52]"
definition POOL_V1_ROOT_HISTORY_PAGE_VERSION :: u8 where [layout_defs]: "POOL_V1_ROOT_HISTORY_PAGE_VERSION = 1"
definition POOL_V1_ROOT_HISTORY_CAPACITY_LOG2 :: u8 where [layout_defs]: "POOL_V1_ROOT_HISTORY_CAPACITY_LOG2 = 8"
definition POOL_V1_ROOT_HISTORY_CAPACITY :: nat where [layout_defs]: "POOL_V1_ROOT_HISTORY_CAPACITY = 256"
definition POOL_V1_ROOT_HISTORY_PAGE_HEADER_BYTES :: nat where [layout_defs]: "POOL_V1_ROOT_HISTORY_PAGE_HEADER_BYTES = 64"
definition POOL_V1_ROOT_HISTORY_PAGE_ACCOUNT_BYTES :: nat where [layout_defs]: "POOL_V1_ROOT_HISTORY_PAGE_ACCOUNT_BYTES = 8256"

datatype root_history_error =
  SequenceOverflow | PageNumberOverflow | WrongPage | OutOfOrder | PageFull | HWrongLength | HWrongMagic
  | HWrongVersion | HWrongCapacity | HNonZeroReserved | InvalidFilled | InvalidFirstSequence
  | HNonCanonicalDigest | NonCanonicalUnusedRoot

record root_history_location =
  loc_page_number :: u64
  loc_slot :: u16

record root_history_page_header =
  hd_pool :: bytes
  hd_page_number :: u64
  hd_first_sequence :: u64
  hd_filled :: u16

record root_history_page =
  pg_pool :: bytes
  pg_page_number :: u64
  pg_first_sequence :: u64
  pg_filled :: u16
  pg_roots :: "digest list"

record root_history_page_address =
  addr_pool :: bytes
  addr_page_number :: u64

definition page_first_sequence :: "u64 \<Rightarrow> root_history_error + u64" where
  "page_first_sequence page_number = ok_or PageNumberOverflow (checked_mul page_number 256)"

definition location_first_sequence :: "root_history_location \<Rightarrow> root_history_error + u64" where
  "location_first_sequence l = page_first_sequence (loc_page_number l)"

definition root_history_location :: "u64 \<Rightarrow> root_history_location" where
  "root_history_location sequence = \<lparr> loc_page_number = sequence div 256, loc_slot = ucast (sequence mod 256) \<rparr>"

definition address_for_sequence :: "bytes \<Rightarrow> u64 \<Rightarrow> root_history_page_address" where
  "address_for_sequence pool sequence =
     \<lparr> addr_pool = pool, addr_page_number = loc_page_number (root_history_location sequence) \<rparr>"

definition page_number_seed :: "root_history_page_address \<Rightarrow> bytes" where
  "page_number_seed a = to_le 8 (addr_page_number a)"

definition ZERO_DIGEST :: digest where
  "ZERO_DIGEST = replicate 8 (M31 0)"

section \<open>Pages as account bytes\<close>

definition validate_root_history_page_prefix_v1 :: "bytes \<Rightarrow> root_history_error + root_history_page_header" where
  "validate_root_history_page_prefix_v1 bytes =
     (if length bytes \<noteq> POOL_V1_ROOT_HISTORY_PAGE_ACCOUNT_BYTES then Inl HWrongLength
      else if seg 0 4 bytes \<noteq> POOL_V1_ROOT_HISTORY_PAGE_MAGIC then Inl HWrongMagic
      else if bytes ! 4 \<noteq> POOL_V1_ROOT_HISTORY_PAGE_VERSION \<or> bytes ! 6 \<noteq> POOL_V1_DIGEST_ENCODING_VERSION
      then Inl HWrongVersion
      else if bytes ! 5 \<noteq> POOL_V1_ROOT_HISTORY_CAPACITY_LOG2 then Inl HWrongCapacity
      else if bytes ! 7 \<noteq> 0 \<or> seg 58 64 bytes \<noteq> zeros 6 then Inl HNonZeroReserved
      else let filled = from_le (seg 56 58 bytes)
           in if POOL_V1_ROOT_HISTORY_CAPACITY < unat filled then Inl InvalidFilled
              else Inr \<lparr> hd_pool = seg 8 40 bytes, hd_page_number = from_le (seg 40 48 bytes),
                         hd_first_sequence = from_le (seg 48 56 bytes), hd_filled = filled \<rparr>)"

definition page_slot :: "bytes \<Rightarrow> nat \<Rightarrow> root_history_error + digest" where
  "page_slot bytes slot =
     (let start = POOL_V1_ROOT_HISTORY_PAGE_HEADER_BYTES + slot * 32
      in map_err (\<lambda>_. HNonCanonicalDigest) (decode_digest_canonical (seg start (start + 32) bytes)))"

primrec scan_roots :: "bytes \<Rightarrow> u16 \<Rightarrow> nat list \<Rightarrow> bool \<Rightarrow> root_history_error + bool" where
  "scan_roots bytes filled [] nonzero_unused_root = Inr nonzero_unused_root"
| "scan_roots bytes filled (slot # slots) nonzero_unused_root =
     bindE (page_slot bytes slot) (\<lambda>root.
       scan_roots bytes filled slots (nonzero_unused_root \<or> unat filled \<le> slot \<and> root \<noteq> ZERO_DIGEST))"

definition validate_root_history_page_bytes_v1 :: "bytes \<Rightarrow> root_history_error + root_history_page_header" where
  "validate_root_history_page_bytes_v1 bytes =
     bindE (validate_root_history_page_prefix_v1 bytes) (\<lambda>header.
     bindE (scan_roots bytes (hd_filled header) [0..<POOL_V1_ROOT_HISTORY_CAPACITY] False) (\<lambda>nonzero_unused_root.
     bindE (page_first_sequence (hd_page_number header)) (\<lambda>expected_first.
       if hd_first_sequence header \<noteq> expected_first then Inl InvalidFirstSequence
       else if nonzero_unused_root then Inl NonCanonicalUnusedRoot
       else Inr header)))"

definition write_page_header :: "bytes \<Rightarrow> u64 \<Rightarrow> u64 \<Rightarrow> u16 \<Rightarrow> bytes" where
  "write_page_header pool page_number first_sequence filled =
     (let bytes = zeros POOL_V1_ROOT_HISTORY_PAGE_ACCOUNT_BYTES;
          bytes = put 0 POOL_V1_ROOT_HISTORY_PAGE_MAGIC bytes;
          bytes = bytes[4 := POOL_V1_ROOT_HISTORY_PAGE_VERSION];
          bytes = bytes[5 := POOL_V1_ROOT_HISTORY_CAPACITY_LOG2];
          bytes = bytes[6 := POOL_V1_DIGEST_ENCODING_VERSION];
          bytes = put 8 pool bytes;
          bytes = put 40 (to_le 8 page_number) bytes;
          bytes = put 48 (to_le 8 first_sequence) bytes
      in put 56 (to_le 2 filled) bytes)"

definition initialize_root_history_page_bytes_v1 ::
  "bytes \<Rightarrow> bytes \<Rightarrow> u64 \<Rightarrow> digest list \<Rightarrow> root_history_error + bytes \<times> root_history_page_header" where
  "initialize_root_history_page_bytes_v1 bytes pool page_number roots =
     (if length bytes \<noteq> POOL_V1_ROOT_HISTORY_PAGE_ACCOUNT_BYTES then Inl HWrongLength
      else if POOL_V1_ROOT_HISTORY_CAPACITY < length roots then Inl PageFull
      else bindE (page_first_sequence page_number) (\<lambda>first_sequence.
        let filled = of_nat (length roots);
            bytes = write_page_header pool page_number first_sequence filled;
            bytes = put_each POOL_V1_ROOT_HISTORY_PAGE_HEADER_BYTES 32 encode_digest_canonical roots bytes
        in Inr (bytes, \<lparr> hd_pool = pool, hd_page_number = page_number,
                         hd_first_sequence = first_sequence, hd_filled = filled \<rparr>)))"

definition append_root_history_page_bytes_v1 ::
  "bytes \<Rightarrow> u64 \<Rightarrow> digest \<Rightarrow> root_history_error + bytes \<times> root_history_location" where
  "append_root_history_page_bytes_v1 bytes sequence root =
     bindE (validate_root_history_page_bytes_v1 bytes) (\<lambda>header.
       if unat (hd_filled header) = POOL_V1_ROOT_HISTORY_CAPACITY then Inl PageFull
       else let location = root_history_location sequence
         in if loc_page_number location \<noteq> hd_page_number header then Inl WrongPage
            else bindE (ok_or SequenceOverflow (checked_add (hd_first_sequence header) (ucast (hd_filled header))))
              (\<lambda>expected_sequence.
                if sequence \<noteq> expected_sequence then Inl OutOfOrder
                else let start = POOL_V1_ROOT_HISTORY_PAGE_HEADER_BYTES + unat (loc_slot location) * 32;
                         bytes = put start (encode_digest_canonical root) bytes;
                         bytes = put 56 (to_le 2 (hd_filled header + 1)) bytes
                     in Inr (bytes, location)))"

definition read_root_history_page_root_v1 :: "bytes \<Rightarrow> u64 \<Rightarrow> root_history_error + digest" where
  "read_root_history_page_root_v1 bytes sequence =
     bindE (validate_root_history_page_bytes_v1 bytes) (\<lambda>header.
       let location = root_history_location sequence
       in if loc_page_number location \<noteq> hd_page_number header \<or> hd_filled header \<le> loc_slot location
          then Inl WrongPage
          else page_slot bytes (unat (loc_slot location)))"

section \<open>Pages as host values\<close>

definition page_new :: "bytes \<Rightarrow> u64 \<Rightarrow> root_history_error + root_history_page" where
  "page_new pool page_number =
     bindE (page_first_sequence page_number) (\<lambda>first_sequence.
       Inr \<lparr> pg_pool = pool, pg_page_number = page_number, pg_first_sequence = first_sequence,
              pg_filled = 0, pg_roots = replicate POOL_V1_ROOT_HISTORY_CAPACITY ZERO_DIGEST \<rparr>)"

definition page_is_full :: "root_history_page \<Rightarrow> bool" where
  "page_is_full p \<longleftrightarrow> unat (pg_filled p) = POOL_V1_ROOT_HISTORY_CAPACITY"

definition page_next_sequence :: "root_history_page \<Rightarrow> root_history_error + u64" where
  "page_next_sequence p = ok_or SequenceOverflow (checked_add (pg_first_sequence p) (ucast (pg_filled p)))"

definition page_validate_metadata :: "root_history_page \<Rightarrow> root_history_error + unit" where
  "page_validate_metadata p =
     (if POOL_V1_ROOT_HISTORY_CAPACITY < unat (pg_filled p) then Inl InvalidFilled
      else bindE (page_first_sequence (pg_page_number p)) (\<lambda>expected_first.
        if pg_first_sequence p \<noteq> expected_first then Inl InvalidFirstSequence else Inr ()))"

definition page_push :: "root_history_page \<Rightarrow> u64 \<Rightarrow> digest \<Rightarrow> root_history_error + root_history_page \<times> root_history_location" where
  "page_push p sequence root =
     bindE (page_validate_metadata p) (\<lambda>_.
       if page_is_full p then Inl PageFull
       else let location = root_history_location sequence
         in if loc_page_number location \<noteq> pg_page_number p then Inl WrongPage
            else bindE (page_next_sequence p) (\<lambda>next_sequence.
              if sequence \<noteq> next_sequence then Inl OutOfOrder
              else Inr (p\<lparr> pg_roots := (pg_roots p)[unat (loc_slot location) := root],
                           pg_filled := pg_filled p + 1 \<rparr>, location)))"

definition page_genesis :: "bytes \<Rightarrow> digest \<Rightarrow> root_history_error + root_history_page" where
  "page_genesis pool empty_root =
     bindE (page_new pool 0) (\<lambda>page. bindE (page_push page 0 empty_root) (\<lambda>(page, _). Inr page))"

definition page_get :: "root_history_page \<Rightarrow> u64 \<Rightarrow> digest option" where
  "page_get p sequence =
     (let location = root_history_location sequence
      in if loc_page_number location \<noteq> pg_page_number p \<or> pg_filled p \<le> loc_slot location then None
         else if unat (loc_slot location) < length (pg_roots p) then Some (pg_roots p ! unat (loc_slot location))
         else None)"

definition page_roots :: "root_history_page \<Rightarrow> digest list" where
  "page_roots p = take (unat (pg_filled p)) (pg_roots p)"

definition page_encode_into :: "root_history_page \<Rightarrow> bytes \<Rightarrow> root_history_error + bytes" where
  "page_encode_into p output =
     (if length output \<noteq> POOL_V1_ROOT_HISTORY_PAGE_ACCOUNT_BYTES then Inl HWrongLength
      else bindE (page_validate_metadata p) (\<lambda>_.
        if list_ex (\<lambda>root. root \<noteq> ZERO_DIGEST) (drop (unat (pg_filled p)) (pg_roots p)) then Inl NonCanonicalUnusedRoot
        else let output = write_page_header (pg_pool p) (pg_page_number p) (pg_first_sequence p) (pg_filled p)
             in Inr (put_each POOL_V1_ROOT_HISTORY_PAGE_HEADER_BYTES 32 encode_digest_canonical (pg_roots p) output)))"

definition page_encode :: "root_history_page \<Rightarrow> root_history_error + bytes" where
  "page_encode p = page_encode_into p (zeros POOL_V1_ROOT_HISTORY_PAGE_ACCOUNT_BYTES)"

definition page_decode :: "bytes \<Rightarrow> root_history_error + root_history_page" where
  "page_decode bytes =
     bindE (validate_root_history_page_bytes_v1 bytes) (\<lambda>header.
     bindE (mapE (page_slot bytes) [0..<unat (hd_filled header)]) (\<lambda>roots.
       Inr \<lparr> pg_pool = hd_pool header, pg_page_number = hd_page_number header,
              pg_first_sequence = hd_first_sequence header, pg_filled = hd_filled header,
              pg_roots = roots @ replicate (POOL_V1_ROOT_HISTORY_CAPACITY - length roots) ZERO_DIGEST \<rparr>))"

section \<open>Sequence numbers\<close>

lemma loc_page_number_location [simp]: "loc_page_number (root_history_location q) = q div 256"
  by (simp add: root_history_location_def)

lemma unat_loc_slot [simp]: "unat (loc_slot (root_history_location q)) = unat q mod 256"
  by (simp add: root_history_location_def unsigned_ucast_eq unat_mod_distrib take_bit_eq_mod)

lemma page_first_sequence_eq: "page_first_sequence n = Inr f \<longleftrightarrow> unat f = unat n * 256"
  by (simp add: page_first_sequence_def checked_mul_eq_Some)

lemma word_eq_div256: "n = q div 256 \<longleftrightarrow> unat (n::u64) = unat q div 256"
  by (simp add: word_unat_eq_iff unat_div_distrib)

lemma root_history_location_inj: "root_history_location q = root_history_location r \<longleftrightarrow> q = r"
proof
  assume "root_history_location q = root_history_location r"
  then have "unat q div 256 = unat r div 256" "unat q mod 256 = unat r mod 256"
    using unat_loc_slot [of q] unat_loc_slot [of r]
    by (simp_all add: root_history_location_def word_eq_div256 unat_div_distrib)
  then have "unat q = unat r" by (metis div_mult_mod_eq)
  then show "q = r" by (simp only: word_unat_eq_iff)
qed simp

section \<open>Canonical page images\<close>

text \<open>
  \<open>page_image h roots\<close> is the one image of a page with header \<open>h\<close> and retained roots \<open>roots\<close>;
  unused slots hold the zero digest.
\<close>

definition page_image :: "root_history_page_header \<Rightarrow> digest list \<Rightarrow> bytes" where
  "page_image h roots = put_each 64 32 encode_digest_canonical roots
     (write_page_header (hd_pool h) (hd_page_number h) (hd_first_sequence h) (hd_filled h))"

definition page_ok :: "root_history_page_header \<Rightarrow> digest list \<Rightarrow> bool" where
  "page_ok h roots \<longleftrightarrow> length (hd_pool h) = 32 \<and> unat (hd_first_sequence h) = unat (hd_page_number h) * 256
     \<and> unat (hd_filled h) = length roots \<and> length roots \<le> 256 \<and> list_all digest_ok roots"

lemma digest_ok_zero [simp]: "digest_ok ZERO_DIGEST"
  by (simp add: digest_ok_def ZERO_DIGEST_def canon_def M31_P_def list_all_iff)

lemma digest_ok_length [simp]: "digest_ok d \<Longrightarrow> length (encode_digest_canonical d) = 32"
  by (simp add: digest_ok_def)

lemma encode_zero_digest [simp]: "encode_digest_canonical ZERO_DIGEST = zeros 32"
  by (code_simp)

lemma concat_zero_digests: "concat (replicate k (zeros 32)) = zeros (k * 32)"
  by (induction k) (simp_all add: zeros_def replicate_add [symmetric])

lemma drop_zeros: "drop k (zeros n) = zeros (n - k)"
  by (simp add: zeros_def)

lemma length_write_page_header [simp]: "length pool = 32 \<Longrightarrow> length (write_page_header pool n f k) = 8256"
  by (simp add: write_page_header_def layout_defs)

lemma write_page_header_fields:
  assumes "length pool = 32"
  shows "seg 0 4 (write_page_header pool n f k) = POOL_V1_ROOT_HISTORY_PAGE_MAGIC"
    "write_page_header pool n f k ! 4 = POOL_V1_ROOT_HISTORY_PAGE_VERSION"
    "write_page_header pool n f k ! 5 = POOL_V1_ROOT_HISTORY_CAPACITY_LOG2"
    "write_page_header pool n f k ! 6 = POOL_V1_DIGEST_ENCODING_VERSION"
    "write_page_header pool n f k ! 7 = 0"
    "seg 8 40 (write_page_header pool n f k) = pool"
    "seg 40 48 (write_page_header pool n f k) = to_le 8 n"
    "seg 48 56 (write_page_header pool n f k) = to_le 8 f"
    "seg 56 58 (write_page_header pool n f k) = to_le 2 k"
    "seg 58 64 (write_page_header pool n f k) = zeros 6"
    "seg 64 8256 (write_page_header pool n f k) = zeros 8192"
  using assms by (simp_all add: write_page_header_def Let_def layout_defs image_simps)

lemma page_image_put: "page_ok h roots \<Longrightarrow> page_image h roots = put 64 (concat (map encode_digest_canonical roots))
   (write_page_header (hd_pool h) (hd_page_number h) (hd_first_sequence h) (hd_filled h))"
  unfolding page_image_def by (rule put_each_eq) (auto simp: page_ok_def list_all_iff)

lemma length_roots_bytes: "list_all digest_ok roots \<Longrightarrow> length (concat (map encode_digest_canonical roots)) = length roots * 32"
  by (rule length_concat_const) (simp add: list_all_iff)

lemma length_page_image [simp]: "page_ok h roots \<Longrightarrow> length (page_image h roots) = 8256"
  by (simp add: page_image_put page_ok_def length_roots_bytes)

lemma page_image_payload:
  assumes "page_ok h roots"
  shows "seg 64 8256 (page_image h roots)
    = concat (map encode_digest_canonical (roots @ replicate (256 - length roots) ZERO_DIGEST))"
proof -
  have skip: "drop (64 + k) w = drop k (drop 64 w)" for k and w :: bytes
    by (simp add: add.commute)
  have "seg 64 8256 (page_image h roots)
      = concat (map encode_digest_canonical roots) @ drop (length roots * 32) (zeros 8192)"
    using assms length_roots_bytes [of roots] write_page_header_fields(11) [of "hd_pool h" "hd_page_number h" "hd_first_sequence h" "hd_filled h"]
    by (simp add: page_image_put page_ok_def put_def seg_def skip del: drop_drop)
  also have "drop (length roots * 32) (zeros 8192) = zeros ((256 - length roots) * 32)"
    using assms by (simp add: zeros_def page_ok_def)
  finally show ?thesis by (simp add: concat_zero_digests)
qed

lemma page_image_fields:
  assumes "page_ok h roots"
  shows "seg 0 4 (page_image h roots) = POOL_V1_ROOT_HISTORY_PAGE_MAGIC"
    "page_image h roots ! 4 = POOL_V1_ROOT_HISTORY_PAGE_VERSION"
    "page_image h roots ! 5 = POOL_V1_ROOT_HISTORY_CAPACITY_LOG2"
    "page_image h roots ! 6 = POOL_V1_DIGEST_ENCODING_VERSION"
    "page_image h roots ! 7 = 0"
    "seg 8 40 (page_image h roots) = hd_pool h"
    "seg 40 48 (page_image h roots) = to_le 8 (hd_page_number h)"
    "seg 48 56 (page_image h roots) = to_le 8 (hd_first_sequence h)"
    "seg 56 58 (page_image h roots) = to_le 2 (hd_filled h)"
    "seg 58 64 (page_image h roots) = zeros 6"
  using assms length_roots_bytes [of roots]
  by (simp_all add: page_image_put page_ok_def image_simps write_page_header_fields)

lemma prefix_page_image: "page_ok h roots \<Longrightarrow> validate_root_history_page_prefix_v1 (page_image h roots) = Inr h"
  using page_image_fields [of h roots]
  by (cases h) (auto simp: validate_root_history_page_prefix_v1_def layout_defs page_ok_def)

lemma page_slots_eq:
  assumes "length b = 8256"
  shows "mapE (page_slot b) [0..<256] = Inr all \<longleftrightarrow>
    length all = 256 \<and> list_all digest_ok all \<and> concat (map encode_digest_canonical all) = seg 64 8256 b"
proof -
  have "mapE (page_slot b) [0..<256] = read_each 64 32 (\<lambda>b. map_err (\<lambda>_. HNonCanonicalDigest) (decode_digest_canonical b)) 256 b"
    by (simp add: read_each_def page_slot_def [abs_def] Let_def layout_defs)
  then show ?thesis
    using assms by (subst \<open>mapE _ _ = _\<close>, subst read_each_eq_Inr [where ok = digest_ok and f = encode_digest_canonical])
      (auto simp: decode_digest_eq_Inr)
qed

lemma scan_roots_eq:
  "scan_roots b filled slots flag = bindE (mapE (page_slot b) slots) (\<lambda>roots.
     Inr (flag \<or> (\<exists>(slot, root) \<in> set (zip slots roots). unat filled \<le> slot \<and> root \<noteq> ZERO_DIGEST)))"
proof (induction slots arbitrary: flag)
  case (Cons slot slots)
  then show ?case by (cases "page_slot b slot"; cases "mapE (page_slot b) slots") auto
qed simp

lemma scan_page_image:
  assumes "page_ok h roots"
  shows "scan_roots (page_image h roots) (hd_filled h) [0..<256] False = Inr False"
proof -
  let ?all = "roots @ replicate (256 - length roots) ZERO_DIGEST"
  have "mapE (page_slot (page_image h roots)) [0..<256] = Inr ?all"
    using assms by (subst page_slots_eq) (auto simp: page_image_payload page_ok_def list_all_iff)
  then show ?thesis
    using assms by (auto simp: scan_roots_eq in_set_zip nth_append page_ok_def)
qed

lemma validate_page_image: "page_ok h roots \<Longrightarrow> validate_root_history_page_bytes_v1 (page_image h roots) = Inr h"
  by (auto simp: validate_root_history_page_bytes_v1_def prefix_page_image scan_page_image layout_defs
      page_ok_def page_first_sequence_eq [THEN iffD2])

text \<open>Conversely, an accepted account is the image of its header and of the roots in its filled slots.\<close>

lemma validate_page_eq_Inr:
  "validate_root_history_page_bytes_v1 b = Inr h \<longleftrightarrow> (\<exists>roots. page_ok h roots \<and> b = page_image h roots)"
proof
  assume valid: "validate_root_history_page_bytes_v1 b = Inr h"
  then have pre: "validate_root_history_page_prefix_v1 b = Inr h"
    and scan: "scan_roots b (hd_filled h) [0..<256] False = Inr False"
    and first: "unat (hd_first_sequence h) = unat (hd_page_number h) * 256"
    by (auto simp: validate_root_history_page_bytes_v1_def layout_defs page_first_sequence_eq)
  have len: "length b = 8256" using pre by (simp add: validate_root_history_page_prefix_v1_def layout_defs)
  let ?k = "unat (hd_filled h)"
  have k: "?k \<le> 256" using pre by (auto simp: validate_root_history_page_prefix_v1_def layout_defs Let_def)
  from scan obtain all where slots: "mapE (page_slot b) [0..<256] = Inr all"
    and zip: "\<forall>(slot, root) \<in> set (zip [0..<256] all). ?k \<le> slot \<longrightarrow> root = ZERO_DIGEST"
    by (auto simp: scan_roots_eq)
  from slots len have all: "length all = 256" "list_all digest_ok all"
    and payload: "concat (map encode_digest_canonical all) = seg 64 8256 b"
    by (simp_all add: page_slots_eq)
  have unused: "all ! i = ZERO_DIGEST" if "?k \<le> i" "i < 256" for i
  proof -
    from that all(1) have "(i, all ! i) \<in> set (zip [0..<256] all)"
      using nth_mem [of i "zip [0..<256] all"] by simp
    with zip that show ?thesis by auto
  qed
  have "drop ?k all = replicate (256 - ?k) ZERO_DIGEST"
    using unused all(1) by (simp add: list_eq_iff_nth_eq)
  then have split: "all = take ?k all @ replicate (256 - ?k) ZERO_DIGEST" by (metis append_take_drop_id)
  have ok: "page_ok h (take ?k all)"
    using pre first k all by (auto simp: page_ok_def list_all_iff dest: in_set_takeD
        simp: validate_root_history_page_prefix_v1_def layout_defs Let_def)
  have "page_image h (take ?k all) = b"
  proof (rule agree_on_eq [where cs = "[4, 5, 6, 7, 8, 40, 48, 56, 58, 64, 8256]"])
    have "seg 64 8256 (page_image h (take ?k all)) = seg 64 8256 b"
      using page_image_payload [OF ok] split payload k all(1) by (simp add: min_def)
    then show "agree_on [0, 4, 5, 6, 7, 8, 40, 48, 56, 58, 64, 8256] (page_image h (take ?k all)) b"
      using pre len page_image_fields [OF ok] length_page_image [OF ok]
      by (auto simp: validate_root_history_page_prefix_v1_def layout_defs Let_def seg_one)
  qed (use ok len in simp_all)
  with ok show "\<exists>roots. page_ok h roots \<and> b = page_image h roots" by auto
next
  assume "\<exists>roots. page_ok h roots \<and> b = page_image h roots"
  then show "validate_root_history_page_bytes_v1 b = Inr h" by (auto simp: validate_page_image)
qed

lemma page_image_inject:
  assumes "page_ok h roots" "page_ok h' roots'" "page_image h roots = page_image h' roots'"
  shows "h = h' \<and> roots = roots'"
proof -
  have h: "h = h'" using assms validate_page_image by (metis sum.inject(2))
  have "mapE (page_slot (page_image h roots)) [0..<256] = Inr (roots @ replicate (256 - length roots) ZERO_DIGEST)"
    if "page_ok h roots" for h roots
    using that by (subst page_slots_eq) (auto simp: page_image_payload page_ok_def list_all_iff)
  from this [OF assms(1)] this [OF assms(2)]
  have "roots @ replicate (256 - length roots) ZERO_DIGEST = roots' @ replicate (256 - length roots') ZERO_DIGEST"
    unfolding assms(3) by simp
  moreover have "length roots = length roots'" using assms h by (simp add: page_ok_def)
  ultimately show ?thesis using h by simp
qed

lemma page_slot_image:
  assumes "page_ok h roots" "i < length roots"
  shows "page_slot (page_image h roots) i = Inr (roots ! i)"
proof -
  have "list_all2 (\<lambda>x y. page_slot (page_image h roots) x = Inr y) [0..<256] (roots @ replicate (256 - length roots) ZERO_DIGEST)"
    unfolding mapE_eq_Inr [symmetric]
    using assms by (subst page_slots_eq) (auto simp: page_image_payload page_ok_def list_all_iff)
  then show ?thesis
    using assms by (auto simp: list_all2_conv_all_nth nth_append page_ok_def dest!: spec [of _ i])
qed

lemma initialize_page_eq:
  assumes "length pool = 32" "list_all digest_ok roots"
  shows "initialize_root_history_page_bytes_v1 b pool n roots = Inr (b', h) \<longleftrightarrow>
    length b = 8256 \<and> page_ok h roots \<and> hd_pool h = pool \<and> hd_page_number h = n \<and> b' = page_image h roots"
proof -
  have filled: "unat k = length roots \<longleftrightarrow> k = of_nat (length roots)" if "length roots \<le> 256" for k :: u16
    using that by (auto simp: unat_of_nat word_unat_eq_iff)
  show ?thesis
  proof (cases "length roots \<le> 256")
    case True
    with assms show ?thesis
      unfolding initialize_root_history_page_bytes_v1_def
      by (cases h) (auto simp: layout_defs Let_def page_first_sequence_eq page_ok_def page_image_def filled)
  qed (simp add: initialize_root_history_page_bytes_v1_def layout_defs page_ok_def)
qed

lemma append_page_images:
  assumes ok: "page_ok h roots" and room: "length roots + length new \<le> 256" and new: "list_all digest_ok new"
  defines "h' \<equiv> h\<lparr>hd_filled := hd_filled h + of_nat (length new)\<rparr>"
  shows "page_ok h' (roots @ new)"
    and "put 56 (to_le 2 (hd_filled h + of_nat (length new)))
        (put (64 + length roots * 32) (concat (map encode_digest_canonical new)) (page_image h roots))
      = page_image h' (roots @ new)"
proof -
  have "unat (hd_filled h + of_nat (length new)) = length roots + length new"
    using ok room by (subst unat_word_ariths) (simp add: page_ok_def unat_of_nat)
  then show ok': "page_ok h' (roots @ new)"
    using ok room new by (simp add: page_ok_def h'_def)
  let ?w = "\<lambda>h. write_page_header (hd_pool h) (hd_page_number h) (hd_first_sequence h) (hd_filled h)"
  let ?c = "concat (map encode_digest_canonical (roots @ new))"
  have c: "length ?c = (length roots + length new) * 32"
    using ok' by (subst length_roots_bytes) (simp_all add: page_ok_def)
  have len: "length (hd_pool h) = 32" "length (concat (map encode_digest_canonical roots)) = length roots * 32"
    using ok by (simp_all add: page_ok_def length_roots_bytes)
  have header: "put 56 (to_le 2 (hd_filled h + of_nat (length new))) (?w h) = ?w h'"
    using len by (simp add: write_page_header_def Let_def h'_def put_put layout_defs) (simp add: put_def)
  have "put (64 + length roots * 32) (concat (map encode_digest_canonical new)) (page_image h roots) = put 64 ?c (?w h)"
    using ok new room len by (simp add: page_image_put put_put length_roots_bytes)
  moreover have "put 56 (to_le 2 (hd_filled h + of_nat (length new))) (put 64 ?c (?w h))
      = put 64 ?c (put 56 (to_le 2 (hd_filled h + of_nat (length new))) (?w h))"
    using len c room by (intro nth_equalityI) (auto simp: nth_put)
  ultimately show "put 56 (to_le 2 (hd_filled h + of_nat (length new)))
        (put (64 + length roots * 32) (concat (map encode_digest_canonical new)) (page_image h roots))
      = page_image h' (roots @ new)"
    by (simp only: header page_image_put [OF ok'])
qed

lemma append_page_image:
  assumes "page_ok h roots" "length roots < 256" "digest_ok root"
  shows "page_ok (h\<lparr>hd_filled := hd_filled h + 1\<rparr>) (roots @ [root])"
    and "put 56 (to_le 2 (hd_filled h + 1)) (put (64 + length roots * 32) (encode_digest_canonical root) (page_image h roots))
      = page_image (h\<lparr>hd_filled := hd_filled h + 1\<rparr>) (roots @ [root])"
  using append_page_images [of h roots "[root]"] assms by simp_all

section \<open>The contract of an append-only page\<close>

text \<open>
  A page numbered \<open>n\<close> with contents \<open>rs\<close> accepts exactly sequence \<open>256 n + length rs\<close> next, and a
  lookup returns exactly the root that was appended under a sequence.
\<close>

locale sequenced_page =
  fixes valid :: "'s \<Rightarrow> bool"
    and number :: "'s \<Rightarrow> u64"
    and contents :: "'s \<Rightarrow> digest list"
    and append_root :: "'s \<Rightarrow> u64 \<Rightarrow> digest \<Rightarrow> 'e + 's \<times> root_history_location"
    and lookup_root :: "'s \<Rightarrow> u64 \<Rightarrow> digest option"
  assumes append_iff: "valid s \<Longrightarrow> digest_ok r \<Longrightarrow> (\<exists>s' l. append_root s q r = Inr (s', l)) \<longleftrightarrow>
      length (contents s) < 256 \<and> unat q = unat (number s) * 256 + length (contents s)"
    and append_result: "valid s \<Longrightarrow> digest_ok r \<Longrightarrow> append_root s q r = Inr (s', l) \<Longrightarrow>
      valid s' \<and> number s' = number s \<and> contents s' = contents s @ [r] \<and> l = root_history_location q"
    and lookup_eq: "valid s \<Longrightarrow> lookup_root s q =
      (if unat q div 256 = unat (number s) \<and> unat q mod 256 < length (contents s)
       then Some (contents s ! (unat q mod 256)) else None)"
begin

lemma lookup_appended:
  assumes "valid s" "digest_ok r" "append_root s q r = Inr (s', l)"
  shows "lookup_root s' q = Some r"
proof -
  have q: "length (contents s) < 256" "unat q = unat (number s) * 256 + length (contents s)"
    using assms append_iff [of s r q] by auto
  then have "unat q div 256 = unat (number s)" "unat q mod 256 = length (contents s)" by simp_all
  with append_result [OF assms] show ?thesis by (simp add: lookup_eq)
qed

lemma lookup_retained:
  assumes "valid s" "digest_ok r" "append_root s q r = Inr (s', l)" "lookup_root s k = Some x"
  shows "lookup_root s' k = Some x"
  using append_result [OF assms(1-3)] assms(1,4) by (auto simp: lookup_eq nth_append split: if_splits)

lemma append_fresh:
  assumes "valid s" "digest_ok r" "append_root s q r = Inr (s', l)"
  shows "lookup_root s q = None"
proof -
  have "length (contents s) < 256" "unat q = unat (number s) * 256 + length (contents s)"
    using assms append_iff [of s r q] by auto
  then show ?thesis using assms(1) by (simp add: lookup_eq)
qed

lemma no_second_append:
  assumes "valid s" "digest_ok r" "append_root s q r = Inr (s', l)" "digest_ok x"
  shows "\<not> (\<exists>s'' l'. append_root s' q x = Inr (s'', l'))"
  using append_result [OF assms(1-3)] append_iff [of s r q] append_iff [of s' x q] assms by auto

end

section \<open>Account bytes meet the contract\<close>

definition page_valid :: "bytes \<Rightarrow> bool" where
  "page_valid b = is_ok (validate_root_history_page_bytes_v1 b)"

definition page_number :: "bytes \<Rightarrow> u64" where
  "page_number b = (case validate_root_history_page_bytes_v1 b of Inl _ \<Rightarrow> 0 | Inr h \<Rightarrow> hd_page_number h)"

definition page_contents :: "bytes \<Rightarrow> digest list" where
  "page_contents b = (case page_decode b of Inl _ \<Rightarrow> [] | Inr p \<Rightarrow> page_roots p)"

definition page_lookup :: "bytes \<Rightarrow> u64 \<Rightarrow> digest option" where
  "page_lookup b q = (case read_root_history_page_root_v1 b q of Inl _ \<Rightarrow> None | Inr r \<Rightarrow> Some r)"

lemma page_valid_iff: "page_valid b \<longleftrightarrow> (\<exists>h roots. page_ok h roots \<and> b = page_image h roots)"
  by (simp add: page_valid_def is_ok_iff validate_page_eq_Inr)

lemma page_decode_image:
  assumes "page_ok h roots"
  shows "page_decode (page_image h roots) = Inr \<lparr> pg_pool = hd_pool h, pg_page_number = hd_page_number h,
    pg_first_sequence = hd_first_sequence h, pg_filled = hd_filled h,
    pg_roots = roots @ replicate (256 - length roots) ZERO_DIGEST \<rparr>"
proof -
  have "mapE (page_slot (page_image h roots)) [0..<unat (hd_filled h)] = Inr roots"
    using assms page_slot_image by (auto simp: mapE_eq_Inr list_all2_conv_all_nth page_ok_def)
  then show ?thesis by (simp add: page_decode_def validate_page_image assms layout_defs)
qed

lemma page_image_view:
  assumes "page_ok h roots"
  shows "page_valid (page_image h roots)" "page_number (page_image h roots) = hd_page_number h"
    "page_contents (page_image h roots) = roots"
  using assms
  by (auto simp: page_valid_def page_number_def page_contents_def validate_page_image page_decode_image
      page_roots_def page_ok_def)

lemma append_page_eq:
  assumes "page_ok h roots" "digest_ok r"
  shows "append_root_history_page_bytes_v1 (page_image h roots) q r = Inr (b', l) \<longleftrightarrow>
    length roots < 256 \<and> unat q = unat (hd_page_number h) * 256 + length roots \<and> l = root_history_location q
    \<and> b' = page_image (h\<lparr>hd_filled := hd_filled h + 1\<rparr>) (roots @ [r])"
proof -
  have len: "unat (ucast (hd_filled h) :: u64) = length roots"
    using assms by (simp add: page_ok_def unsigned_ucast_eq take_bit_eq_mod)
  have seq: "checked_add (hd_first_sequence h) (ucast (hd_filled h)) = Some e \<longleftrightarrow>
      unat e = unat (hd_page_number h) * 256 + length roots" for e
    using assms len by (simp add: checked_add_eq_Some page_ok_def)
  show ?thesis
    using assms append_page_image [OF assms(1) _ assms(2)]
    by (auto simp: append_root_history_page_bytes_v1_def validate_page_image layout_defs Let_def seq
        page_ok_def word_unat_eq_iff unat_div_distrib)
qed

lemma read_page_eq:
  assumes "page_ok h roots"
  shows "page_lookup (page_image h roots) q = (if unat q div 256 = unat (hd_page_number h) \<and> unat q mod 256 < length roots
    then Some (roots ! (unat q mod 256)) else None)"
  using assms page_slot_image [OF assms]
  by (auto simp: page_lookup_def read_root_history_page_root_v1_def validate_page_image Let_def
      word_le_nat_alt page_ok_def word_unat_eq_iff unat_div_distrib)

interpretation account_page: sequenced_page page_valid page_number page_contents
  append_root_history_page_bytes_v1 page_lookup
proof unfold_locales
  fix s r q assume "page_valid s" and r: "digest_ok r"
  then obtain h roots where s: "page_ok h roots" "s = page_image h roots" by (auto simp: page_valid_iff)
  show "(\<exists>s' l. append_root_history_page_bytes_v1 s q r = Inr (s', l)) \<longleftrightarrow>
      length (page_contents s) < 256 \<and> unat q = unat (page_number s) * 256 + length (page_contents s)"
    using s r by (simp add: append_page_eq page_image_view)
  show "page_valid s' \<and> page_number s' = page_number s \<and> page_contents s' = page_contents s @ [r]
      \<and> l = root_history_location q" if "append_root_history_page_bytes_v1 s q r = Inr (s', l)" for s' l
    using that s r append_page_image(1) [OF s(1) _ r] by (auto simp: append_page_eq page_image_view)
next
  fix s q assume "page_valid s"
  then obtain h roots where s: "page_ok h roots" "s = page_image h roots" by (auto simp: page_valid_iff)
  then show "page_lookup s q =
      (if unat q div 256 = unat (page_number s) \<and> unat q mod 256 < length (page_contents s)
       then Some (page_contents s ! (unat q mod 256)) else None)"
    by (simp add: read_page_eq page_image_view)
qed

section \<open>Host values meet the contract\<close>

definition page_value :: "root_history_page_header \<Rightarrow> digest list \<Rightarrow> root_history_page" where
  "page_value h roots = \<lparr> pg_pool = hd_pool h, pg_page_number = hd_page_number h,
     pg_first_sequence = hd_first_sequence h, pg_filled = hd_filled h,
     pg_roots = roots @ replicate (256 - length roots) ZERO_DIGEST \<rparr>"

definition page_header_of :: "root_history_page \<Rightarrow> root_history_page_header" where
  "page_header_of p = \<lparr> hd_pool = pg_pool p, hd_page_number = pg_page_number p,
     hd_first_sequence = pg_first_sequence p, hd_filled = pg_filled p \<rparr>"

definition pg_ok :: "root_history_page \<Rightarrow> bool" where
  "pg_ok p \<longleftrightarrow> page_ok (page_header_of p) (page_roots p) \<and> length (pg_roots p) = 256
     \<and> drop (unat (pg_filled p)) (pg_roots p) = replicate (256 - unat (pg_filled p)) ZERO_DIGEST"

lemma pg_ok_iff: "pg_ok p \<longleftrightarrow> (\<exists>h roots. page_ok h roots \<and> p = page_value h roots)"
proof
  assume p: "pg_ok p"
  then have len: "length (page_roots p) = unat (pg_filled p)"
    by (simp add: pg_ok_def page_ok_def page_header_of_def)
  have "pg_roots p = page_roots p @ replicate (256 - length (page_roots p)) ZERO_DIGEST"
    using p append_take_drop_id [of "unat (pg_filled p)" "pg_roots p"]
    by (simp add: len pg_ok_def) (simp add: page_roots_def)
  then have "p = page_value (page_header_of p) (page_roots p)"
    by (simp add: page_value_def page_header_of_def)
  with p show "\<exists>h roots. page_ok h roots \<and> p = page_value h roots" by (auto simp: pg_ok_def)
next
  assume "\<exists>h roots. page_ok h roots \<and> p = page_value h roots"
  then show "pg_ok p"
    by (auto simp: pg_ok_def page_value_def page_header_of_def page_roots_def page_ok_def)
qed

lemma page_value_simps [simp]:
  "pg_page_number (page_value h roots) = hd_page_number h" "pg_filled (page_value h roots) = hd_filled h"
  "pg_first_sequence (page_value h roots) = hd_first_sequence h"
  by (simp_all add: page_value_def)

lemma page_decode_value: "page_ok h roots \<Longrightarrow> page_decode (page_image h roots) = Inr (page_value h roots)"
  by (simp add: page_decode_image page_value_def)

lemma page_roots_value: "page_ok h roots \<Longrightarrow> page_roots (page_value h roots) = roots"
  by (simp add: page_roots_def page_value_def page_ok_def)

lemma page_validate_metadata_value: "page_ok h roots \<Longrightarrow> page_validate_metadata (page_value h roots) = Inr ()"
  by (simp add: page_validate_metadata_def page_value_def page_ok_def layout_defs page_first_sequence_eq [THEN iffD2])

lemma page_encode_value:
  assumes "page_ok h roots" shows "page_encode (page_value h roots) = Inr (page_image h roots)"
proof -
  let ?w = "write_page_header (hd_pool h) (hd_page_number h) (hd_first_sequence h) (hd_filled h)"
  let ?all = "roots @ replicate (256 - length roots) ZERO_DIGEST"
  have skip: "drop (64 + k) w = drop k (drop 64 w)" for k and w :: bytes by (simp add: add.commute)
  have ok: "list_all digest_ok ?all" "length ?all = 256" "length (hd_pool h) = 32"
    using assms by (auto simp: page_ok_def list_all_iff)
  have tail: "drop 64 ?w = zeros 8192"
    using ok(3) write_page_header_fields(11) [OF ok(3)] by (simp add: seg_def)
  have "put_each 64 32 encode_digest_canonical ?all ?w = put 64 (concat (map encode_digest_canonical ?all)) ?w"
    using ok by (intro put_each_eq) (auto simp: list_all_iff)
  also have "\<dots> = put 64 (concat (map encode_digest_canonical roots)) ?w"
    using assms ok length_roots_bytes [OF ok(1)] length_roots_bytes [of roots] tail
    by (simp add: put_def skip page_ok_def drop_zeros del: drop_drop map_append)
      (simp add: concat_zero_digests diff_mult_distrib)
  also have "\<dots> = page_image h roots" using assms by (simp add: page_image_put)
  finally show ?thesis
    using assms page_validate_metadata_value [OF assms]
    by (simp add: page_encode_def page_encode_into_def layout_defs Let_def)
      (simp add: page_value_def page_ok_def list_ex_iff)
qed

lemma page_decode_eq: "page_decode b = Inr p \<longleftrightarrow> (\<exists>h roots. page_ok h roots \<and> b = page_image h roots \<and> p = page_value h roots)"
proof
  assume dec: "page_decode b = Inr p"
  then obtain h where "validate_root_history_page_bytes_v1 b = Inr h" by (auto simp: page_decode_def)
  then obtain roots where "page_ok h roots" "b = page_image h roots" by (auto simp: validate_page_eq_Inr)
  with dec show "\<exists>h roots. page_ok h roots \<and> b = page_image h roots \<and> p = page_value h roots"
    by (auto simp: page_decode_value)
qed (auto simp: page_decode_value)

interpretation page_codec: image_codec page_encode page_decode pg_ok POOL_V1_ROOT_HISTORY_PAGE_ACCOUNT_BYTES
proof unfold_locales
  fix x b assume "pg_ok x" "page_encode x = Inr b"
  then show "page_decode b = Inr x" by (auto simp: pg_ok_iff page_encode_value page_decode_value)
next
  fix x b assume "page_decode b = Inr x"
  then show "page_encode x = Inr b" "pg_ok x" "length b = POOL_V1_ROOT_HISTORY_PAGE_ACCOUNT_BYTES"
    by (auto simp: pg_ok_iff page_encode_value page_decode_eq layout_defs)
qed

lemma page_push_value:
  assumes "page_ok h roots" "digest_ok r"
  shows "page_push (page_value h roots) q r = Inr (p', l) \<longleftrightarrow>
    length roots < 256 \<and> unat q = unat (hd_page_number h) * 256 + length roots \<and> l = root_history_location q
    \<and> p' = page_value (h\<lparr>hd_filled := hd_filled h + 1\<rparr>) (roots @ [r])"
proof -
  have len: "unat (ucast (hd_filled h) :: u64) = length roots"
    using assms by (simp add: page_ok_def unsigned_ucast_eq take_bit_eq_mod)
  have seq: "checked_add (hd_first_sequence h) (ucast (hd_filled h)) = Some e \<longleftrightarrow>
      unat e = unat (hd_page_number h) * 256 + length roots" for e
    using assms len by (simp add: checked_add_eq_Some page_ok_def)
  have slot: "(roots @ replicate (256 - length roots) ZERO_DIGEST)[length roots := r]
      = roots @ r # replicate (255 - length roots) ZERO_DIGEST" if "length roots < 256"
  proof -
    have "256 - length roots = Suc (255 - length roots)" using that by simp
    then show ?thesis by (simp only: replicate_Suc list_update_length)
  qed
  have upd: "(page_value h roots)\<lparr>pg_roots := (pg_roots (page_value h roots))[length roots := r], pg_filled := hd_filled h + 1\<rparr>
      = page_value (h\<lparr>hd_filled := hd_filled h + 1\<rparr>) (roots @ [r])" if "length roots < 256"
    using slot [OF that] by (simp add: page_value_def)
  show ?thesis
    using assms page_validate_metadata_value [OF assms(1)]
    unfolding page_push_def page_is_full_def page_next_sequence_def
    by (auto simp: layout_defs Let_def seq page_ok_def word_unat_eq_iff unat_div_distrib upd)
qed

lemma page_get_value:
  assumes "page_ok h roots"
  shows "page_get (page_value h roots) q = (if unat q div 256 = unat (hd_page_number h) \<and> unat q mod 256 < length roots
    then Some (roots ! (unat q mod 256)) else None)"
  using assms
  by (auto simp: page_get_def page_value_def Let_def word_le_nat_alt page_ok_def word_unat_eq_iff unat_div_distrib nth_append)

text \<open>The account operation simulates the host operation, step by step and error by error.\<close>

lemma page_push_bytes:
  assumes "pg_ok p" "digest_ok r" "page_encode p = Inr b"
  shows "append_root_history_page_bytes_v1 b q r =
    bindE (page_push p q r) (\<lambda>(p', l). bindE (page_encode p') (\<lambda>b'. Inr (b', l)))"
proof -
  obtain h roots where p: "page_ok h roots" "p = page_value h roots" using assms(1) by (auto simp: pg_ok_iff)
  then have b: "b = page_image h roots" using assms(3) by (simp add: page_encode_value)
  show ?thesis
  proof (cases "page_push p q r")
    case (Inl e)
    then have "append_root_history_page_bytes_v1 b q r = Inl e"
      using p assms(2) page_validate_metadata_value [OF p(1)]
      unfolding b append_root_history_page_bytes_v1_def page_push_def page_is_full_def page_next_sequence_def
      by (auto simp: validate_page_image page_value_def Let_def layout_defs bindE_eq_Inl split: if_splits)
    with Inl show ?thesis by simp
  next
    case (Inr y)
    then obtain p' l where y: "page_push p q r = Inr (p', l)" by (cases y) auto
    with p assms(2) have room: "length roots < 256"
      and p': "p' = page_value (h\<lparr>hd_filled := hd_filled h + 1\<rparr>) (roots @ [r])"
      and app: "append_root_history_page_bytes_v1 b q r = Inr (page_image (h\<lparr>hd_filled := hd_filled h + 1\<rparr>) (roots @ [r]), l)"
      unfolding b by (simp_all add: page_push_value append_page_eq)
    show ?thesis
      unfolding y app p' using page_encode_value [OF append_page_image(1) [OF p(1) room assms(2)]] by simp
  qed
qed

interpretation host_page: sequenced_page pg_ok pg_page_number page_roots page_push page_get
proof unfold_locales
  fix s r q assume "pg_ok s" and r: "digest_ok r"
  then obtain h roots where s: "page_ok h roots" "s = page_value h roots" by (auto simp: pg_ok_iff)
  show "(\<exists>s' l. page_push s q r = Inr (s', l)) \<longleftrightarrow>
      length (page_roots s) < 256 \<and> unat q = unat (pg_page_number s) * 256 + length (page_roots s)"
    using s r by (simp add: page_push_value page_roots_value)
  show "pg_ok s' \<and> pg_page_number s' = pg_page_number s \<and> page_roots s' = page_roots s @ [r]
      \<and> l = root_history_location q" if "page_push s q r = Inr (s', l)" for s' l
    using that s r append_page_image(1) [OF s(1) _ r] by (auto simp: page_push_value page_roots_value pg_ok_iff)
next
  fix s q assume "pg_ok s"
  then obtain h roots where s: "page_ok h roots" "s = page_value h roots" by (auto simp: pg_ok_iff)
  then show "page_get s q =
      (if unat q div 256 = unat (pg_page_number s) \<and> unat q mod 256 < length (page_roots s)
       then Some (page_roots s ! (unat q mod 256)) else None)"
    by (simp add: page_get_value page_roots_value)
qed

lemma page_genesis_eq:
  assumes "length pool = 32" "digest_ok r"
  shows "\<exists>p. page_genesis pool r = Inr p \<and> pg_ok p \<and> pg_page_number p = 0 \<and> page_roots p = [r]"
proof -
  let ?h = "\<lparr> hd_pool = pool, hd_page_number = 0, hd_first_sequence = 0, hd_filled = 0 \<rparr>"
  have ok: "page_ok ?h []" using assms by (simp add: page_ok_def)
  have "page_new pool 0 = Inr (page_value ?h [])"
    by (simp add: page_new_def page_value_def page_first_sequence_eq [THEN iffD2, of _ 0] layout_defs)
  moreover have "page_push (page_value ?h []) 0 r = Inr (page_value (?h\<lparr>hd_filled := 1\<rparr>) [r], root_history_location 0)"
    using page_push_value [OF ok assms(2), of 0] by simp
  moreover have "page_ok (?h\<lparr>hd_filled := 1\<rparr>) [r]" using assms by (simp add: page_ok_def)
  ultimately show ?thesis
    by (auto simp: page_genesis_def pg_ok_iff page_roots_value simp del: root_history_page_header.update_convs)
qed

end
