(* ===== verification/IncrementalMerkle.thy ===== *)
theory IncrementalMerkle
  imports RootHistory
begin

text \<open>
  The append-only note tree of \<open>crates/aspis-statement/src/pool_v1/incremental_merkle.rs\<close>: a binary
  carry frontier of depth 20. The specification is the root \<open>subtree_root\<close> of the full binary tree
  over the list of all appended leaves, padded with zero digests; the frontier is shown to hold
  exactly the roots of the completed blocks of that list, and every append to move the
  represented list by one leaf.
\<close>

section \<open>State and images\<close>

definition POOL_V1_TREE_STATE_MAGIC :: bytes where [layout_defs]: "POOL_V1_TREE_STATE_MAGIC = [0x41, 0x53, 0x50, 0x54]"
definition POOL_V1_TREE_STATE_VERSION :: u8 where [layout_defs]: "POOL_V1_TREE_STATE_VERSION = 1"
definition POOL_V1_LEAF_CAPACITY :: u64 where "POOL_V1_LEAF_CAPACITY = push_bit POOL_V1_TREE_DEPTH 1"
definition POOL_V1_TREE_STATE_HEADER_BYTES :: nat where [layout_defs]: "POOL_V1_TREE_STATE_HEADER_BYTES = 48"
definition POOL_V1_TREE_STATE_ACCOUNT_BYTES :: nat where [layout_defs]: "POOL_V1_TREE_STATE_ACCOUNT_BYTES = 688"

datatype tree_error =
  TreeFull | InsufficientCapacity | IndexOutOfRange | RootMismatch | NonCanonicalFrontier | TWrongLength
  | TWrongMagic | TWrongVersion | WrongDepth | WrongTreeHash | WrongDigestEncoding | TNonCanonicalDigest
  | TNonZeroReserved

record append_one_receipt =
  ao_leaf_index :: u64
  ao_root_sequence :: u64
  ao_root :: digest
  ao_history :: root_history_location

record append_two_receipt =
  at_first :: append_one_receipt
  at_second :: append_one_receipt

record incremental_merkle_tree =
  next_leaf_index :: u64
  tree_root :: digest
  frontier :: "digest list"

record validated_merkle_tree =
  vt_inner :: incremental_merkle_tree
  vt_empty :: "digest list"

definition pool_v1_empty_roots :: "digest list" where
  "pool_v1_empty_roots =
     fold (\<lambda>level roots. roots[level + 1 := pool_v1_tree_parent (roots ! level) (roots ! level)])
       [0..<POOL_V1_TREE_DEPTH] (replicate (POOL_V1_TREE_DEPTH + 1) ZERO_DIGEST)"

definition level_bit :: "u64 \<Rightarrow> nat \<Rightarrow> bool" where
  "level_bit index level \<longleftrightarrow> drop_bit level index AND 1 = 1"

definition decode_tree_image_unvalidated :: "bytes \<Rightarrow> tree_error + incremental_merkle_tree" where
  "decode_tree_image_unvalidated bytes =
     (if length bytes \<noteq> POOL_V1_TREE_STATE_ACCOUNT_BYTES then Inl TWrongLength
      else if seg 0 4 bytes \<noteq> POOL_V1_TREE_STATE_MAGIC then Inl TWrongMagic
      else if bytes ! 4 \<noteq> POOL_V1_TREE_STATE_VERSION then Inl TWrongVersion
      else if bytes ! 5 \<noteq> of_nat POOL_V1_TREE_DEPTH then Inl WrongDepth
      else if bytes ! 6 \<noteq> POOL_V1_TREE_HASH_VERSION then Inl WrongTreeHash
      else if bytes ! 7 \<noteq> POOL_V1_DIGEST_ENCODING_VERSION then Inl WrongDigestEncoding
      else bindE (map_err (\<lambda>_. TNonCanonicalDigest) (decode_digest_canonical (seg 16 48 bytes))) (\<lambda>root.
        bindE (read_each POOL_V1_TREE_STATE_HEADER_BYTES 32
                 (\<lambda>b. map_err (\<lambda>_. TNonCanonicalDigest) (decode_digest_canonical b)) POOL_V1_TREE_DEPTH bytes)
          (\<lambda>nodes. Inr \<lparr> next_leaf_index = from_le (seg 8 16 bytes), tree_root = root, frontier = nodes \<rparr>)))"

section \<open>Validation\<close>

primrec reconstruct_loop :: "u64 \<Rightarrow> digest list \<Rightarrow> digest list \<Rightarrow> nat list \<Rightarrow> digest \<Rightarrow> digest" where
  "reconstruct_loop index front empties [] node = node"
| "reconstruct_loop index front empties (level # levels) node =
     reconstruct_loop index front empties levels
       (if \<not> level_bit index level then pool_v1_tree_parent node (empties ! level)
        else pool_v1_tree_parent (front ! level) node)"

definition reconstruct_nonfull_root_from_level ::
  "incremental_merkle_tree \<Rightarrow> digest list \<Rightarrow> nat \<Rightarrow> tree_error + digest" where
  "reconstruct_nonfull_root_from_level t empties start_level =
     (if POOL_V1_LEAF_CAPACITY \<le> next_leaf_index t then Inl TreeFull
      else if POOL_V1_TREE_DEPTH < start_level then Inl IndexOutOfRange
      else Inr (reconstruct_loop (next_leaf_index t) (frontier t) empties
                  [start_level..<POOL_V1_TREE_DEPTH] (empties ! start_level)))"

definition reconstruct_nonfull_root :: "incremental_merkle_tree \<Rightarrow> digest list \<Rightarrow> tree_error + digest" where
  "reconstruct_nonfull_root t empties = reconstruct_nonfull_root_from_level t empties 0"

definition validate_with_empty_roots :: "incremental_merkle_tree \<Rightarrow> digest list \<Rightarrow> tree_error + unit" where
  "validate_with_empty_roots t empties =
     (if POOL_V1_LEAF_CAPACITY < next_leaf_index t then Inl IndexOutOfRange
      else if \<exists>level \<in> set [0..<POOL_V1_TREE_DEPTH].
           \<not> level_bit (next_leaf_index t) level \<and> frontier t ! level \<noteq> empties ! level
      then Inl NonCanonicalFrontier
      else if next_leaf_index t = 0
      then (if tree_root t = empties ! POOL_V1_TREE_DEPTH then Inr () else Inl RootMismatch)
      else if next_leaf_index t < POOL_V1_LEAF_CAPACITY
      then bindE (reconstruct_nonfull_root t empties) (\<lambda>r. if r \<noteq> tree_root t then Inl RootMismatch else Inr ())
      else Inr ())"

definition tree_validate :: "incremental_merkle_tree \<Rightarrow> tree_error + unit" where
  "tree_validate t = validate_with_empty_roots t pool_v1_empty_roots"

definition remaining_capacity :: "incremental_merkle_tree \<Rightarrow> tree_error + u64" where
  "remaining_capacity t = ok_or IndexOutOfRange (checked_sub POOL_V1_LEAF_CAPACITY (next_leaf_index t))"

definition validate_terminal_root_against_history_with_empty_roots ::
  "incremental_merkle_tree \<Rightarrow> digest \<Rightarrow> digest list \<Rightarrow> tree_error + unit" where
  "validate_terminal_root_against_history_with_empty_roots t retained_root empties =
     bindE (validate_with_empty_roots t empties) (\<lambda>_.
       if next_leaf_index t \<noteq> POOL_V1_LEAF_CAPACITY then Inl IndexOutOfRange
       else if tree_root t \<noteq> retained_root then Inl RootMismatch
       else Inr ())"

definition validate_terminal_root_against_history :: "incremental_merkle_tree \<Rightarrow> digest \<Rightarrow> tree_error + unit" where
  "validate_terminal_root_against_history t retained_root =
     validate_terminal_root_against_history_with_empty_roots t retained_root pool_v1_empty_roots"

definition validated_from_parts :: "u64 \<Rightarrow> digest \<Rightarrow> digest list \<Rightarrow> digest list \<Rightarrow> tree_error + validated_merkle_tree" where
  "validated_from_parts index root front empties =
     (let inner = \<lparr> next_leaf_index = index, tree_root = root, frontier = front \<rparr>
      in bindE (validate_with_empty_roots inner empties) (\<lambda>_. Inr \<lparr> vt_inner = inner, vt_empty = empties \<rparr>))"

definition validated_empty :: "digest list \<Rightarrow> tree_error + validated_merkle_tree" where
  "validated_empty empties =
     validated_from_parts 0 (empties ! POOL_V1_TREE_DEPTH) (map (\<lambda>level. empties ! level) [0..<POOL_V1_TREE_DEPTH]) empties"

definition validated_decode :: "bytes \<Rightarrow> digest list \<Rightarrow> tree_error + validated_merkle_tree" where
  "validated_decode bytes empties =
     bindE (decode_tree_image_unvalidated bytes) (\<lambda>inner.
       validated_from_parts (next_leaf_index inner) (tree_root inner) (frontier inner) empties)"

section \<open>Appending\<close>

function carry_loop :: "u64 \<Rightarrow> digest list \<Rightarrow> nat \<Rightarrow> digest \<Rightarrow> digest list \<Rightarrow> nat \<times> digest \<times> digest list" where
  "carry_loop leaf_index empties carry_level carry front =
     (if carry_level < POOL_V1_TREE_DEPTH \<and> level_bit leaf_index carry_level
      then carry_loop leaf_index empties (carry_level + 1)
             (pool_v1_tree_parent (front ! carry_level) carry) (front[carry_level := empties ! carry_level])
      else (carry_level, carry, front))"
  by pat_completeness auto
termination
  by (relation "measure (\<lambda>(_, _, carry_level, _). POOL_V1_TREE_DEPTH - carry_level)") auto

definition validated_append_one ::
  "validated_merkle_tree \<Rightarrow> digest \<Rightarrow> tree_error + validated_merkle_tree \<times> append_one_receipt" where
  "validated_append_one v leaf =
     (if next_leaf_index (vt_inner v) = POOL_V1_LEAF_CAPACITY then Inl TreeFull
      else let leaf_index = next_leaf_index (vt_inner v);
               (carry_level, carry, front) = carry_loop leaf_index (vt_empty v) 0 leaf (frontier (vt_inner v));
               next = leaf_index + 1;
               step = (if carry_level = POOL_V1_TREE_DEPTH then Inr (carry, front)
                       else let front = front[carry_level := carry];
                                provisional = \<lparr> next_leaf_index = next, tree_root = ZERO_DIGEST, frontier = front \<rparr>
                            in bindE (reconstruct_nonfull_root_from_level provisional (vt_empty v) carry_level)
                                 (\<lambda>root. Inr (root, front)))
           in bindE step (\<lambda>(root, front).
                Inr (\<lparr> vt_inner = \<lparr> next_leaf_index = next, tree_root = root, frontier = front \<rparr>,
                        vt_empty = vt_empty v \<rparr>,
                     \<lparr> ao_leaf_index = leaf_index, ao_root_sequence = next, ao_root = root,
                        ao_history = root_history_location next \<rparr>)))"

definition validated_append_two ::
  "validated_merkle_tree \<Rightarrow> digest \<Rightarrow> digest \<Rightarrow> tree_error + validated_merkle_tree \<times> append_two_receipt" where
  "validated_append_two v first_leaf second_leaf =
     bindE (remaining_capacity (vt_inner v)) (\<lambda>remaining.
       if remaining < 2 then Inl InsufficientCapacity
       else bindE (validated_append_one v first_leaf) (\<lambda>(after_first, first).
            bindE (validated_append_one after_first second_leaf) (\<lambda>(after_second, second).
              Inr (after_second, \<lparr> at_first = first, at_second = second \<rparr>))))"

definition tree_empty :: incremental_merkle_tree where
  "tree_empty = (let empties = pool_v1_empty_roots in
     \<lparr> next_leaf_index = 0, tree_root = empties ! POOL_V1_TREE_DEPTH,
       frontier = map (\<lambda>level. empties ! level) [0..<POOL_V1_TREE_DEPTH] \<rparr>)"

definition tree_from_parts_with_empty_roots :: "u64 \<Rightarrow> digest \<Rightarrow> digest list \<Rightarrow> digest list \<Rightarrow> tree_error + incremental_merkle_tree" where
  "tree_from_parts_with_empty_roots index root front empties =
     bindE (validated_from_parts index root front empties) (\<lambda>v. Inr (vt_inner v))"

definition tree_from_parts :: "u64 \<Rightarrow> digest \<Rightarrow> digest list \<Rightarrow> tree_error + incremental_merkle_tree" where
  "tree_from_parts index root front = tree_from_parts_with_empty_roots index root front pool_v1_empty_roots"

definition append_one_with_empty_roots ::
  "incremental_merkle_tree \<Rightarrow> digest \<Rightarrow> digest list \<Rightarrow> tree_error + incremental_merkle_tree \<times> append_one_receipt" where
  "append_one_with_empty_roots t leaf empties =
     bindE (validated_from_parts (next_leaf_index t) (tree_root t) (frontier t) empties) (\<lambda>validated.
     bindE (validated_append_one validated leaf) (\<lambda>(next, receipt). Inr (vt_inner next, receipt)))"

definition tree_append_one :: "incremental_merkle_tree \<Rightarrow> digest \<Rightarrow> tree_error + incremental_merkle_tree \<times> append_one_receipt" where
  "tree_append_one t leaf = append_one_with_empty_roots t leaf pool_v1_empty_roots"

definition append_two_with_empty_roots ::
  "incremental_merkle_tree \<Rightarrow> digest \<Rightarrow> digest \<Rightarrow> digest list \<Rightarrow> tree_error + incremental_merkle_tree \<times> append_two_receipt" where
  "append_two_with_empty_roots t first_leaf second_leaf empties =
     bindE (validated_from_parts (next_leaf_index t) (tree_root t) (frontier t) empties) (\<lambda>validated.
     bindE (validated_append_two validated first_leaf second_leaf) (\<lambda>(next, receipts). Inr (vt_inner next, receipts)))"

definition tree_append_two ::
  "incremental_merkle_tree \<Rightarrow> digest \<Rightarrow> digest \<Rightarrow> tree_error + incremental_merkle_tree \<times> append_two_receipt" where
  "tree_append_two t first_leaf second_leaf = append_two_with_empty_roots t first_leaf second_leaf pool_v1_empty_roots"

definition tree_encode_with_empty_roots :: "incremental_merkle_tree \<Rightarrow> digest list \<Rightarrow> tree_error + bytes" where
  "tree_encode_with_empty_roots t empties =
     bindE (validate_with_empty_roots t empties) (\<lambda>_.
       let output = zeros POOL_V1_TREE_STATE_ACCOUNT_BYTES;
           output = put 0 POOL_V1_TREE_STATE_MAGIC output;
           output = output[4 := POOL_V1_TREE_STATE_VERSION];
           output = output[5 := of_nat POOL_V1_TREE_DEPTH];
           output = output[6 := POOL_V1_TREE_HASH_VERSION];
           output = output[7 := POOL_V1_DIGEST_ENCODING_VERSION];
           output = put 8 (to_le 8 (next_leaf_index t)) output;
           output = put 16 (encode_digest_canonical (tree_root t)) output
       in Inr (put_each POOL_V1_TREE_STATE_HEADER_BYTES 32 encode_digest_canonical (frontier t) output))"

definition tree_encode :: "incremental_merkle_tree \<Rightarrow> tree_error + bytes" where
  "tree_encode t = tree_encode_with_empty_roots t pool_v1_empty_roots"

definition tree_decode_with_empty_roots :: "bytes \<Rightarrow> digest list \<Rightarrow> tree_error + incremental_merkle_tree" where
  "tree_decode_with_empty_roots bytes empties = bindE (validated_decode bytes empties) (\<lambda>v. Inr (vt_inner v))"

definition tree_decode :: "bytes \<Rightarrow> tree_error + incremental_merkle_tree" where
  "tree_decode bytes = tree_decode_with_empty_roots bytes pool_v1_empty_roots"

section \<open>The specification: the full tree over all leaves\<close>

fun subtree_root :: "nat \<Rightarrow> digest list \<Rightarrow> digest" where
  "subtree_root 0 leaves = (case leaves of [] \<Rightarrow> ZERO_DIGEST | leaf # _ \<Rightarrow> leaf)"
| "subtree_root (Suc d) leaves =
     pool_v1_tree_parent (subtree_root d (take (2 ^ d) leaves)) (subtree_root d (drop (2 ^ d) leaves))"

definition block_root :: "nat \<Rightarrow> nat \<Rightarrow> digest list \<Rightarrow> digest" where
  "block_root level offset leaves = subtree_root level (take (2 ^ level) (drop offset leaves))"

definition block_start :: "nat \<Rightarrow> nat \<Rightarrow> nat" where
  "block_start n level = (n div 2 ^ level) * 2 ^ level"

definition frontier_of :: "digest list \<Rightarrow> digest list" where
  "frontier_of leaves = map (\<lambda>level.
     if odd (length leaves div 2 ^ level) then block_root level (block_start (length leaves) (Suc level)) leaves
     else subtree_root level []) [0..<POOL_V1_TREE_DEPTH]"

definition tree_of :: "digest list \<Rightarrow> incremental_merkle_tree" where
  "tree_of leaves = \<lparr> next_leaf_index = of_nat (length leaves),
     tree_root = subtree_root POOL_V1_TREE_DEPTH leaves, frontier = frontier_of leaves \<rparr>"

declare carry_loop.simps [simp del]

lemma level_bit_iff: "level_bit w level \<longleftrightarrow> odd (unat w div 2 ^ level)"
proof -
  have "level_bit w level \<longleftrightarrow> bit w level"
    by (simp add: level_bit_def and_one_eq bit_iff_odd_drop_bit mod_2_eq_odd)
  also have "\<dots> \<longleftrightarrow> bit (unat w) level"
    by (simp add: bit_unsigned_iff)
  finally show ?thesis by (simp add: bit_iff_odd)
qed

lemma capacity_eq: "unat POOL_V1_LEAF_CAPACITY = 2 ^ 20"
  by (simp add: POOL_V1_LEAF_CAPACITY_def POOL_V1_TREE_DEPTH_def push_bit_eq_mult)

lemma depth_eq: "POOL_V1_TREE_DEPTH = 20"
  by (simp add: POOL_V1_TREE_DEPTH_def)

lemma subtree_root_short: "length leaves \<le> 2 ^ d \<Longrightarrow>
   subtree_root (Suc d) leaves = pool_v1_tree_parent (subtree_root d leaves) (subtree_root d [])"
  by simp

lemma empty_roots_eq: "pool_v1_empty_roots = map (\<lambda>level. subtree_root level []) [0..<POOL_V1_TREE_DEPTH + 1]"
proof -
  let ?step = "\<lambda>level roots. roots[level + 1 := pool_v1_tree_parent (roots ! level) (roots ! level)]"
  have "fold ?step [0..<k] (replicate 21 ZERO_DIGEST)
      = map (\<lambda>level. if level \<le> k then subtree_root level [] else ZERO_DIGEST) [0..<21]" if "k \<le> 20" for k
    using that
  proof (induction k)
    case 0
    then show ?case by (intro nth_equalityI [of "fold _ _ _"]) simp_all
  next
    case (Suc k)
    have split: "[0..<Suc k] = [0..<k] @ [k]" by simp
    let ?roots = "\<lambda>k. map (\<lambda>level. if level \<le> k then subtree_root level [] else ZERO_DIGEST) [0..<21]"
    have "?step k (?roots k) = ?roots (Suc k)"
      using Suc.prems by (intro nth_equalityI [of "?step k _"]) (auto simp: nth_list_update le_Suc_eq simp del: upt_Suc)
    with Suc show ?case unfolding split fold_append by (simp del: upt_Suc)
  qed
  from this [of 20] show ?thesis
    by (simp add: pool_v1_empty_roots_def depth_eq del: upt_Suc)
qed

lemma empty_roots_nth [simp]: "level \<le> 20 \<Longrightarrow> pool_v1_empty_roots ! level = subtree_root level []"
  by (simp add: empty_roots_eq depth_eq del: upt_Suc)

section \<open>Blocks\<close>

lemma block_start_even: "even (n div 2 ^ level) \<Longrightarrow> block_start n (Suc level) = block_start n level"
proof -
  assume "even (n div 2 ^ level)"
  moreover have "n div 2 ^ Suc level = n div 2 ^ level div 2" by (simp add: div_mult2_eq [symmetric] mult.commute)
  ultimately have "n div 2 ^ level = 2 * (n div 2 ^ Suc level)" by simp
  then show ?thesis unfolding block_start_def by (simp add: algebra_simps)
qed

lemma block_start_odd: "odd (n div 2 ^ level) \<Longrightarrow> block_start n level = block_start n (Suc level) + 2 ^ level"
proof -
  assume "odd (n div 2 ^ level)"
  moreover have "n div 2 ^ Suc level = n div 2 ^ level div 2" by (simp add: div_mult2_eq [symmetric] mult.commute)
  ultimately have "n div 2 ^ level = 2 * (n div 2 ^ Suc level) + 1" by (metis odd_two_times_div_two_succ)
  then show ?thesis unfolding block_start_def by (simp add: algebra_simps)
qed

lemma block_start_le: "block_start n level \<le> n" "n < block_start n level + 2 ^ level"
proof -
  have "n mod 2 ^ level < 2 ^ level" by simp
  then show "block_start n level \<le> n" "n < block_start n level + 2 ^ level"
    using div_mult_mod_eq [of n "2 ^ level"] unfolding block_start_def by linarith+
qed

lemma block_root_append:
  assumes "odd (length leaves div 2 ^ level)"
  shows "block_root level (block_start (length leaves) (Suc level)) (leaves @ ys)
    = block_root level (block_start (length leaves) (Suc level)) leaves"
  using block_start_odd [OF assms] block_start_le(1) [of "length leaves" level] by (simp add: block_root_def)

text \<open>Folding the frontier from any level whose lower bits are clear gives the root of the whole list.\<close>

lemma reconstruct_loop_eq:
  assumes "unat index = length leaves"
    and "\<And>level. start \<le> level \<Longrightarrow> level < stop \<Longrightarrow> odd (length leaves div 2 ^ level) \<Longrightarrow>
      front ! level = block_root level (block_start (length leaves) (Suc level)) leaves"
    and "start \<le> stop" "stop \<le> 20"
  shows "reconstruct_loop index front pool_v1_empty_roots [start..<stop]
      (subtree_root start (drop (block_start (length leaves) start) leaves))
    = subtree_root stop (drop (block_start (length leaves) stop) leaves)"
  using assms
proof (induction "stop - start" arbitrary: start)
  case 0
  then show ?case by simp
next
  case (Suc k)
  let ?n = "length leaves"
  let ?rest = "drop (block_start ?n start) leaves"
  from Suc have lt: "start < stop" by simp
  have step: "(if \<not> level_bit index start then pool_v1_tree_parent (subtree_root start ?rest) (pool_v1_empty_roots ! start)
      else pool_v1_tree_parent (front ! start) (subtree_root start ?rest))
    = subtree_root (Suc start) (drop (block_start ?n (Suc start)) leaves)"
  proof (cases "odd (?n div 2 ^ start)")
    case True
    then have "front ! start = block_root start (block_start ?n (Suc start)) leaves"
      using Suc.prems lt by simp
    with True Suc.prems(1) show ?thesis
      by (simp add: level_bit_iff block_start_odd block_root_def add.commute)
  next
    case False
    have "length ?rest \<le> 2 ^ start" using block_start_le(2) [of ?n start] by simp
    with False Suc.prems lt show ?thesis
      by (simp add: level_bit_iff block_start_even subtree_root_short del: subtree_root.simps)
  qed
  have "reconstruct_loop index front pool_v1_empty_roots [Suc start..<stop]
      (subtree_root (Suc start) (drop (block_start ?n (Suc start)) leaves))
    = subtree_root stop (drop (block_start ?n stop) leaves)"
    using Suc.hyps(2) Suc.prems lt by (intro Suc.hyps(1)) simp_all
  with lt show ?case by (simp add: upt_conv_Cons step del: subtree_root.simps)
qed

text \<open>The arithmetic of a binary carry.\<close>

lemma div_of_dvd_Suc: "2 ^ k dvd Suc n \<Longrightarrow> Suc n div 2 ^ k = Suc (n div 2 ^ k)"
  by (simp add: div_Suc dvd_eq_mod_eq_0)

lemma carry_step:
  assumes "2 ^ k dvd Suc n" "odd (n div 2 ^ k)"
  shows "2 ^ Suc k dvd Suc n" "block_start n (Suc k) + 2 ^ Suc k = Suc n"
proof -
  obtain a where a: "Suc n = 2 ^ k * a" using assms(1) by (auto elim: dvdE)
  then have q: "n div 2 ^ k = a - 1" using div_of_dvd_Suc [OF assms(1)] by simp
  with assms(2) have "even a" by (cases a) auto
  then obtain b where b: "a = 2 * b" by (elim evenE)
  with a show "2 ^ Suc k dvd Suc n" by simp
  have "b \<noteq> 0" using a b by (cases b) auto
  moreover have "n div 2 ^ Suc k = b - 1"
    using q b by (simp add: div_mult2_eq mult.commute [of 2])
  ultimately show "block_start n (Suc k) + 2 ^ Suc k = Suc n"
    using a b by (cases b) (simp_all add: block_start_def algebra_simps)
qed

lemma carry_stop:
  assumes "2 ^ k dvd Suc n" "even (n div 2 ^ k)"
  shows "odd (Suc n div 2 ^ k)" "k < l \<Longrightarrow> Suc n div 2 ^ l = n div 2 ^ l"
proof -
  show odd: "odd (Suc n div 2 ^ k)" using assms by (simp add: div_of_dvd_Suc)
  assume "k < l"
  then have l: "2 ^ l = 2 ^ k * (2::nat) * 2 ^ (l - Suc k)"
    by (metis Suc_leI le_add_diff_inverse power_add power_Suc2)
  have "Suc n div 2 ^ k div 2 = n div 2 ^ k div 2"
    using assms by (simp add: div_of_dvd_Suc)
  then show "Suc n div 2 ^ l = n div 2 ^ l" unfolding l by (simp only: div_mult2_eq)
qed

lemma div_lower_even: "2 ^ k dvd m \<Longrightarrow> l < k \<Longrightarrow> even (m div 2 ^ l)"
  for m :: nat
  by (metis dvd_div_mult_self dvd_mult_div_cancel dvd_trans even_mult_iff le_imp_power_dvd less_imp_le nonzero_mult_div_cancel_left
      power_Suc Suc_leI dvd_mult_imp_div dvd_triv_left)

lemma block_start_dvd: "2 ^ k dvd m \<Longrightarrow> block_start m k = m"
  by (simp add: block_start_def)

definition carried :: "nat \<Rightarrow> digest list \<Rightarrow> digest list" where
  "carried k leaves = map (\<lambda>l. if l < k then subtree_root l [] else frontier_of leaves ! l) [0..<20]"

lemma carry_loop_eq:
  assumes "2 ^ k dvd Suc (length leaves)" "k \<le> 20" "unat index = length leaves"
    and "carry_loop index pool_v1_empty_roots k
      (subtree_root k (drop (Suc (length leaves) - 2 ^ k) (leaves @ [leaf]))) (carried k leaves) = (l, carry, front)"
  shows "2 ^ l dvd Suc (length leaves)" "l \<le> 20" "front = carried l leaves"
    "carry = subtree_root l (drop (Suc (length leaves) - 2 ^ l) (leaves @ [leaf]))"
    "l < 20 \<Longrightarrow> even (length leaves div 2 ^ l)"
proof -
  let ?n = "length leaves" and ?xs = "leaves @ [leaf]"
  let ?carry = "\<lambda>k. subtree_root k (drop (Suc ?n - 2 ^ k) ?xs)"
  have "2 ^ l dvd Suc ?n \<and> l \<le> 20 \<and> front = carried l leaves \<and> carry = ?carry l \<and> (l < 20 \<longrightarrow> even (?n div 2 ^ l))"
    using assms
  proof (induction "20 - k" arbitrary: k)
    case 0
    then have "k = 20" by simp
    with 0 show ?case by (simp add: carry_loop.simps [of _ _ 20] depth_eq)
  next
    case (Suc d)
    then have lt: "k < 20" by simp
    show ?case
    proof (cases "odd (?n div 2 ^ k)")
      case True
      note step = carry_step [OF Suc.prems(1) True]
      have start: "block_start ?n (Suc k) = Suc ?n - 2 ^ Suc k" using step(2) by simp
      have fit: "2 ^ Suc k \<le> Suc ?n" using step(1) by (simp add: dvd_imp_le)
      have "frontier_of leaves ! k = block_root k (block_start ?n (Suc k)) leaves"
        using True lt by (simp add: frontier_of_def depth_eq del: upt_Suc)
      also have "\<dots> = subtree_root k (take (2 ^ k) (drop (Suc ?n - 2 ^ Suc k) ?xs))"
        using block_root_append [OF True, of "[leaf]"] by (simp add: block_root_def start)
      finally have "pool_v1_tree_parent (carried k leaves ! k) (?carry k) = ?carry (Suc k)"
        using lt fit by (simp add: carried_def del: upt_Suc power_Suc) (simp add: add.commute)
      moreover have "(carried k leaves)[k := pool_v1_empty_roots ! k] = carried (Suc k) leaves"
        using lt by (intro nth_equalityI) (auto simp: carried_def nth_list_update simp del: upt_Suc)
      ultimately have "carry_loop index pool_v1_empty_roots (Suc k) (?carry (Suc k)) (carried (Suc k) leaves) = (l, carry, front)"
        using Suc.prems True lt by (subst (asm) carry_loop.simps) (simp add: level_bit_iff depth_eq)
      moreover have "d = 20 - Suc k" "Suc k \<le> 20" using Suc.hyps(2) lt by simp_all
      ultimately show ?thesis using Suc.hyps(1) step(1) Suc.prems(3) by blast
    next
      case False
      with Suc.prems lt show ?thesis
        by (subst (asm) carry_loop.simps) (auto simp: level_bit_iff depth_eq)
    qed
  qed
  then show "2 ^ l dvd Suc ?n" "l \<le> 20" "front = carried l leaves" "carry = ?carry l" "l < 20 \<Longrightarrow> even (?n div 2 ^ l)"
    by auto
qed

section \<open>Every append moves the represented list by one leaf\<close>

lemma frontier_of_snoc:
  assumes "2 ^ k dvd Suc (length leaves)" "k < 20" "even (length leaves div 2 ^ k)"
  shows "(carried k leaves)[k := subtree_root k (drop (Suc (length leaves) - 2 ^ k) (leaves @ [leaf]))] = frontier_of (leaves @ [leaf])"
proof (rule nth_equalityI)
  let ?n = "length leaves" and ?xs = "leaves @ [leaf]"
  note stop = carry_stop [OF assms(1) assms(3)]
  fix l assume "l < length ((carried k leaves)[k := subtree_root k (drop (Suc (length leaves) - 2 ^ k) (leaves @ [leaf]))])"
  then have l: "l < 20" by (simp add: carried_def)
  have new: "frontier_of ?xs ! l = (if odd (Suc ?n div 2 ^ l) then block_root l (block_start (Suc ?n) (Suc l)) ?xs else subtree_root l [])"
    using l by (simp add: frontier_of_def depth_eq del: upt_Suc)
  consider "l < k" | "l = k" | "k < l" by linarith
  then show "(carried k leaves)[k := subtree_root k (drop (Suc ?n - 2 ^ k) ?xs)] ! l = frontier_of ?xs ! l"
  proof cases
    case 1
    with l new div_lower_even [OF assms(1) 1] show ?thesis by (simp add: carried_def del: upt_Suc)
  next
    case 2
    have "Suc ?n = block_start (Suc ?n) (Suc k) + 2 ^ k"
      using block_start_odd [OF stop(1)] block_start_dvd [OF assms(1)] by simp
    then have "block_start (Suc ?n) (Suc k) = Suc ?n - 2 ^ k" "2 ^ k \<le> Suc ?n" by linarith+
    with 2 l new stop(1) show ?thesis by (simp add: carried_def block_root_def del: upt_Suc)
  next
    case 3
    with stop(2) [of l] stop(2) [of "Suc l"] have "block_start (Suc ?n) (Suc l) = block_start ?n (Suc l)"
      by (simp add: block_start_def)
    with 3 l new stop(2) [of l] block_root_append [of leaves l "[leaf]"] show ?thesis
      by (simp add: carried_def frontier_of_def depth_eq del: upt_Suc)
  qed
qed (simp add: carried_def frontier_of_def depth_eq)

lemma frontier_of_full:
  assumes "2 ^ 20 dvd length leaves"
  shows "frontier_of leaves = map (\<lambda>l. subtree_root l []) [0..<20]"
  using div_lower_even [OF assms] by (simp add: frontier_of_def depth_eq del: upt_Suc)

lemma carried_0: "carried 0 leaves = frontier_of leaves"
  by (rule nth_equalityI) (simp_all add: carried_def frontier_of_def depth_eq del: upt_Suc)

lemma carried_20: "carried 20 leaves = map (\<lambda>l. subtree_root l []) [0..<20]"
  by (rule nth_equalityI) (simp_all add: carried_def del: upt_Suc)

lemma unat_length: "length leaves \<le> 2 ^ 20 \<Longrightarrow> unat (of_nat (length leaves) :: u64) = length leaves"
  by (simp add: unat_of_nat)

lemma reconstruct_tree_of:
  assumes len: "length leaves < 2 ^ 20" and dvd: "2 ^ k dvd length leaves" and k: "k \<le> 20"
    and index: "next_leaf_index t = of_nat (length leaves)" and front: "frontier t = frontier_of leaves"
  shows "reconstruct_nonfull_root_from_level t pool_v1_empty_roots k = Inr (subtree_root 20 leaves)"
proof -
  have n: "unat (next_leaf_index t) = length leaves" using len index unat_length [of leaves] by simp
  have "reconstruct_loop (next_leaf_index t) (frontier t) pool_v1_empty_roots [k..<20]
      (subtree_root k (drop (block_start (length leaves) k) leaves))
    = subtree_root 20 (drop (block_start (length leaves) 20) leaves)"
    using n k front by (intro reconstruct_loop_eq) (simp_all add: frontier_of_def depth_eq del: upt_Suc)
  moreover have "block_start (length leaves) 20 = 0" using len by (simp add: block_start_def)
  moreover have "\<not> POOL_V1_LEAF_CAPACITY \<le> next_leaf_index t"
    using len n by (simp add: word_le_nat_alt capacity_eq)
  ultimately show ?thesis
    using k by (simp add: reconstruct_nonfull_root_from_level_def depth_eq block_start_dvd [OF dvd])
qed

definition receipt_of :: "digest list \<Rightarrow> append_one_receipt" where
  "receipt_of leaves = \<lparr> ao_leaf_index = of_nat (length leaves - 1), ao_root_sequence = of_nat (length leaves),
     ao_root = subtree_root 20 leaves, ao_history = root_history_location (of_nat (length leaves)) \<rparr>"

definition sealed :: "digest list \<Rightarrow> validated_merkle_tree" where
  "sealed leaves = \<lparr> vt_inner = tree_of leaves, vt_empty = pool_v1_empty_roots \<rparr>"

lemma validated_append_one_sealed:
  assumes len: "length leaves < 2 ^ 20"
  shows "validated_append_one (sealed leaves) leaf = Inr (sealed (leaves @ [leaf]), receipt_of (leaves @ [leaf]))"
proof -
  let ?n = "length leaves" and ?xs = "leaves @ [leaf]"
  have n: "unat (of_nat ?n :: u64) = ?n" using len by (simp add: unat_length)
  have room: "(of_nat ?n :: u64) \<noteq> POOL_V1_LEAF_CAPACITY" using n len capacity_eq by auto
  obtain l carry front where
    run: "carry_loop (of_nat ?n) pool_v1_empty_roots 0 leaf (frontier_of leaves) = (l, carry, front)"
    by (metis prod_cases3)
  have "subtree_root 0 (drop (Suc ?n - 2 ^ 0) ?xs) = leaf" by simp
  with run have "carry_loop (of_nat ?n) pool_v1_empty_roots 0
      (subtree_root 0 (drop (Suc ?n - 2 ^ 0) ?xs)) (carried 0 leaves) = (l, carry, front)"
    by (simp only: carried_0)
  from carry_loop_eq [OF _ _ n this]
  have dvd: "2 ^ l dvd Suc ?n" and l: "l \<le> 20" and front: "front = carried l leaves"
    and carry: "carry = subtree_root l (drop (Suc ?n - 2 ^ l) ?xs)" and stop: "l < 20 \<Longrightarrow> even (?n div 2 ^ l)"
    by simp_all
  note defs = validated_append_one_def sealed_def tree_of_def receipt_of_def depth_eq
  have "of_nat (length ?xs) = (of_nat ?n + 1 :: u64)" "length ?xs - 1 = ?n" by (simp_all add: add.commute)
  note evaluate = this Let_def incremental_merkle_tree.simps validated_merkle_tree.simps prod.case if_False if_True refl bindE_simps
  show ?thesis
  proof (cases "l = 20")
    case True
    with dvd len have full: "Suc ?n = 2 ^ 20" by (metis Suc_leI dvd_imp_le le_antisym zero_less_Suc)
    then have "carry = subtree_root 20 ?xs"
      unfolding carry True by (simp only: diff_self_eq_0 drop_0)
    moreover have "frontier_of ?xs = map (\<lambda>l. subtree_root l []) [0..<20]"
      by (rule frontier_of_full) (simp only: length_append_singleton full dvd_refl)
    ultimately have "carry_loop (of_nat ?n) pool_v1_empty_roots 0 leaf (frontier_of leaves) = (20, subtree_root 20 ?xs, frontier_of ?xs)"
      unfolding run front True by (simp only: carried_20)
    with room show ?thesis unfolding defs by (simp only: evaluate)
  next
    case False
    with l have lt: "l < 20" by simp
    from carry_stop(1) [OF dvd stop [OF lt]] have "Suc ?n \<noteq> 2 ^ 20"
      using div_lower_even [of 20 "2 ^ 20" l] lt by auto
    with len have len': "length ?xs < 2 ^ 20" by simp
    have new: "front[l := carry] = frontier_of ?xs"
      unfolding front carry by (rule frontier_of_snoc [OF dvd lt stop [OF lt]])
    have "reconstruct_nonfull_root_from_level
        \<lparr> next_leaf_index = of_nat ?n + 1, tree_root = ZERO_DIGEST, frontier = front[l := carry] \<rparr> pool_v1_empty_roots l
      = Inr (subtree_root 20 ?xs)"
      using len' dvd l by (intro reconstruct_tree_of) (simp_all add: new add.commute)
    with False run room new show ?thesis unfolding defs by (simp only: evaluate)
  qed
qed

lemma validated_append_one_full:
  "length leaves = 2 ^ 20 \<Longrightarrow> validated_append_one (sealed leaves) leaf = Inl TreeFull"
  by (simp add: validated_append_one_def sealed_def tree_of_def POOL_V1_LEAF_CAPACITY_def depth_eq push_bit_eq_mult)

lemma validate_tree_of:
  assumes "length leaves \<le> 2 ^ 20"
  shows "validate_with_empty_roots (tree_of leaves) pool_v1_empty_roots = Inr ()"
proof -
  have n: "unat (next_leaf_index (tree_of leaves)) = length leaves"
    using assms by (simp add: tree_of_def unat_length)
  have "\<not> POOL_V1_LEAF_CAPACITY < next_leaf_index (tree_of leaves)"
    using assms n by (simp add: word_less_nat_alt capacity_eq)
  moreover have "frontier (tree_of leaves) ! level = pool_v1_empty_roots ! level"
    if "level < 20" "\<not> level_bit (next_leaf_index (tree_of leaves)) level" for level
    using that n by (simp add: level_bit_iff tree_of_def frontier_of_def depth_eq del: upt_Suc)
  then have "\<not> (\<exists>level \<in> set [0..<20]. \<not> level_bit (next_leaf_index (tree_of leaves)) level
      \<and> frontier (tree_of leaves) ! level \<noteq> pool_v1_empty_roots ! level)" by (metis atLeastLessThan_iff set_upt)
  moreover have "tree_root (tree_of leaves) = pool_v1_empty_roots ! 20" if "next_leaf_index (tree_of leaves) = 0"
  proof -
    from that n have "leaves = []" by (simp del: length_greater_0_conv)
    then show ?thesis by (simp add: tree_of_def depth_eq)
  qed
  moreover have "reconstruct_nonfull_root (tree_of leaves) pool_v1_empty_roots = Inr (tree_root (tree_of leaves))"
    if "next_leaf_index (tree_of leaves) < POOL_V1_LEAF_CAPACITY"
    using that n unfolding reconstruct_nonfull_root_def
    by (subst reconstruct_tree_of [where leaves = leaves]) (simp_all add: tree_of_def word_less_nat_alt capacity_eq depth_eq)
  ultimately show ?thesis unfolding validate_with_empty_roots_def depth_eq by simp
qed

lemma validated_tree_of:
  "length leaves \<le> 2 ^ 20 \<Longrightarrow> validated_from_parts (next_leaf_index (tree_of leaves)) (tree_root (tree_of leaves))
     (frontier (tree_of leaves)) pool_v1_empty_roots = Inr (sealed leaves)"
  using validate_tree_of [of leaves] by (simp add: validated_from_parts_def sealed_def tree_of_def)

lemma tree_empty_eq: "tree_empty = tree_of []"
  by (simp add: tree_empty_def tree_of_def frontier_of_def depth_eq block_start_def del: upt_Suc)

lemma tree_append_one_eq:
  assumes "length leaves \<le> 2 ^ 20"
  shows "tree_append_one (tree_of leaves) leaf =
    (if length leaves = 2 ^ 20 then Inl TreeFull else Inr (tree_of (leaves @ [leaf]), receipt_of (leaves @ [leaf])))"
proof (cases "length leaves = 2 ^ 20")
  case True
  then show ?thesis
    unfolding tree_append_one_def append_one_with_empty_roots_def validated_tree_of [OF assms]
    by (simp add: validated_append_one_full)
next
  case False
  with assms have "length leaves < 2 ^ 20" by simp
  with False show ?thesis
    unfolding tree_append_one_def append_one_with_empty_roots_def validated_tree_of [OF assms]
    by (simp add: validated_append_one_sealed) (simp add: sealed_def)
qed

lemma remaining_capacity_tree_of:
  assumes "length leaves \<le> 2 ^ 20"
  shows "\<exists>r. remaining_capacity (tree_of leaves) = Inr r \<and> unat r = 2 ^ 20 - length leaves"
proof -
  have n: "unat (next_leaf_index (tree_of leaves)) = length leaves"
    using assms by (simp add: tree_of_def unat_length)
  then have "next_leaf_index (tree_of leaves) \<le> POOL_V1_LEAF_CAPACITY"
    using assms by (simp add: word_le_nat_alt capacity_eq)
  with n show ?thesis by (simp add: remaining_capacity_def checked_sub_def unat_sub capacity_eq)
qed

lemma tree_append_two_eq:
  assumes "length leaves \<le> 2 ^ 20"
  shows "tree_append_two (tree_of leaves) a b =
    (if 2 ^ 20 < length leaves + 2 then Inl InsufficientCapacity
     else Inr (tree_of (leaves @ [a, b]),
               \<lparr> at_first = receipt_of (leaves @ [a]), at_second = receipt_of (leaves @ [a, b]) \<rparr>))"
proof -
  obtain r where r: "remaining_capacity (tree_of leaves) = Inr r" "unat r = 2 ^ 20 - length leaves"
    using remaining_capacity_tree_of [OF assms] by auto
  have few: "r < 2 \<longleftrightarrow> 2 ^ 20 < length leaves + 2"
    using r(2) assms by (auto simp: word_less_nat_alt)
  have inner: "vt_inner (sealed xs) = tree_of xs" for xs by (simp add: sealed_def)
  note defs = tree_append_two_def append_two_with_empty_roots_def validated_tree_of [OF assms] validated_append_two_def
  show ?thesis
  proof (cases "2 ^ 20 < length leaves + 2")
    case True
    with few show ?thesis unfolding defs by (simp add: r inner)
  next
    case False
    then have "length leaves < 2 ^ 20" "length (leaves @ [a]) < 2 ^ 20" by simp_all
    from this(2) have second: "validated_append_one (sealed (leaves @ [a])) b = Inr (sealed (leaves @ [a, b]), receipt_of (leaves @ [a, b]))"
      using validated_append_one_sealed [of "leaves @ [a]" b] by simp
    from False few second show ?thesis
      unfolding defs by (simp add: r inner validated_append_one_sealed [OF \<open>length leaves < 2 ^ 20\<close>])
  qed
qed

section \<open>The contract of an append-only log\<close>

text \<open>
  Both interfaces of the code, the checked one that validates its argument and the sealed one that
  does not, are logs: their states are the images of lists and an append adds one element until
  the capacity is reached.
\<close>

primrec append_all :: "('s \<Rightarrow> 'l \<Rightarrow> 'e + 's \<times> 'r) \<Rightarrow> 's \<Rightarrow> 'l list \<Rightarrow> 'e + 's" where
  "append_all app s [] = Inr s"
| "append_all app s (x # xs) = bindE (app s x) (\<lambda>(s', _). append_all app s' xs)"

locale append_log =
  fixes state_of :: "'l list \<Rightarrow> 's"
    and append_leaf :: "'s \<Rightarrow> 'l \<Rightarrow> 'e + 's \<times> 'r"
    and receipt :: "'l list \<Rightarrow> 'r"
    and capacity :: nat
    and full_error :: 'e
  assumes append_room: "length xs < capacity \<Longrightarrow> append_leaf (state_of xs) x = Inr (state_of (xs @ [x]), receipt (xs @ [x]))"
    and append_full: "length xs = capacity \<Longrightarrow> append_leaf (state_of xs) x = Inl full_error"
begin

lemma append_all_eq:
  "length xs \<le> capacity \<Longrightarrow> append_all append_leaf (state_of xs) ys =
     (if length xs + length ys \<le> capacity then Inr (state_of (xs @ ys)) else Inl full_error)"
proof (induction ys arbitrary: xs)
  case (Cons y ys)
  show ?case
  proof (cases "length xs < capacity")
    case True
    with Cons.IH [of "xs @ [y]"] show ?thesis by (simp add: append_room)
  next
    case False
    with Cons.prems show ?thesis by (simp add: append_full)
  qed
qed simp

lemma append_all_split:
  assumes "length xs + length ys + length zs \<le> capacity"
  shows "append_all append_leaf (state_of xs) (ys @ zs) =
    bindE (append_all append_leaf (state_of xs) ys) (\<lambda>s. append_all append_leaf s zs)"
  using assms by (simp add: append_all_eq)

end

interpretation checked_tree: append_log tree_of tree_append_one receipt_of "2 ^ 20" TreeFull
  by unfold_locales (simp_all add: tree_append_one_eq)

interpretation sealed_tree: append_log sealed validated_append_one receipt_of "2 ^ 20" TreeFull
  by unfold_locales (simp_all add: validated_append_one_sealed validated_append_one_full)

section \<open>Validated states stay valid\<close>

lemma carry_loop_shape:
  assumes "carry_loop index empties k carry front = (l, carry', front')" "2 ^ k dvd Suc (unat index)" "k \<le> 20"
  shows "k \<le> l \<and> l \<le> 20 \<and> 2 ^ l dvd Suc (unat index) \<and> (l < 20 \<longrightarrow> even (unat index div 2 ^ l))
    \<and> length front' = length front
    \<and> (\<forall>i < length front. front' ! i = (if k \<le> i \<and> i < l then empties ! i else front ! i))"
  using assms
proof (induction index empties k carry front rule: carry_loop.induct)
  case (1 index empties k carry front)
  show ?case
  proof (cases "k < 20 \<and> level_bit index k")
    case True
    have run: "carry_loop index empties (k + 1) (pool_v1_tree_parent (front ! k) carry) (front[k := empties ! k]) = (l, carry', front')"
      using "1.prems"(1) True by (subst (asm) carry_loop.simps) (simp add: depth_eq)
    have "2 ^ (k + 1) dvd Suc (unat index)"
      using True carry_step(1) [OF "1.prems"(2)] by (simp add: level_bit_iff)
    from "1.IH" [OF _ run this] True show ?thesis by (auto simp: depth_eq nth_list_update not_less_eq_eq dest: le_antisym)
  next
    case False
    then show ?thesis
      using "1.prems" by (subst (asm) carry_loop.simps) (auto simp: depth_eq level_bit_iff)
  qed
qed

lemma reconstruct_loop_clear:
  assumes "k \<le> 20" "\<And>i. i < k \<Longrightarrow> \<not> level_bit index i"
  shows "reconstruct_loop index front pool_v1_empty_roots [0..<k] (subtree_root 0 []) = subtree_root k []"
proof -
  have snoc: "reconstruct_loop index front empties (ls @ [k]) node =
      (if \<not> level_bit index k then pool_v1_tree_parent (reconstruct_loop index front empties ls node) (empties ! k)
       else pool_v1_tree_parent (front ! k) (reconstruct_loop index front empties ls node))" for k ls empties node
    by (induction ls arbitrary: node) simp_all
  show ?thesis
    using assms
  proof (induction k)
    case (Suc k)
    then show ?case by (simp add: snoc)
  qed simp
qed

lemma reconstruct_loop_append:
  "reconstruct_loop index front empties (ks @ ls) node =
   reconstruct_loop index front empties ls (reconstruct_loop index front empties ks node)"
  by (induction ks arbitrary: node) simp_all

lemma reconstruct_from_clear_level:
  assumes "k \<le> 20" "\<And>i. i < k \<Longrightarrow> \<not> level_bit (next_leaf_index t) i"
  shows "reconstruct_nonfull_root_from_level t pool_v1_empty_roots 0 = reconstruct_nonfull_root_from_level t pool_v1_empty_roots k"
proof -
  have "[0..<20] = [0..<k] @ [k..<20]" using assms(1) by (metis le_add_diff_inverse upt_add_eq_append zero_le)
  then have "reconstruct_loop (next_leaf_index t) (frontier t) pool_v1_empty_roots [0..<20] (subtree_root 0 [])
      = reconstruct_loop (next_leaf_index t) (frontier t) pool_v1_empty_roots [k..<20] (subtree_root k [])"
    using reconstruct_loop_clear [OF assms] by (simp only: reconstruct_loop_append)
  then show ?thesis
    using assms(1) by (simp add: reconstruct_nonfull_root_from_level_def depth_eq del: subtree_root.simps upt_Suc)
qed

lemma validated_append_one_valid:
  assumes valid: "validate_with_empty_roots (vt_inner v) pool_v1_empty_roots = Inr ()"
    and seal: "vt_empty v = pool_v1_empty_roots" and len: "length (frontier (vt_inner v)) = 20"
    and app: "validated_append_one v leaf = Inr (v', receipt)"
  shows "validate_with_empty_roots (vt_inner v') pool_v1_empty_roots = Inr ()"
    and "vt_empty v' = pool_v1_empty_roots" and "length (frontier (vt_inner v')) = 20"
proof -
  let ?t = "vt_inner v" and ?t' = "vt_inner v'"
  let ?n = "unat (next_leaf_index ?t)"
  obtain l carry front where run: "carry_loop (next_leaf_index ?t) pool_v1_empty_roots 0 leaf (frontier ?t) = (l, carry, front)"
    by (metis prod_cases3)
  from carry_loop_shape [OF this] len
  have l: "l \<le> 20" "2 ^ l dvd Suc ?n" and stop: "l < 20 \<Longrightarrow> even (?n div 2 ^ l)" and len': "length front = 20"
    and front: "\<And>i. i < 20 \<Longrightarrow> front ! i = (if i < l then subtree_root i [] else frontier ?t ! i)"
    by auto
  have room: "?n < 2 ^ 20" and live: "\<And>i. i < 20 \<Longrightarrow> even (?n div 2 ^ i) \<Longrightarrow> frontier ?t ! i = subtree_root i []"
    using valid app capacity_eq
    by (auto simp: validate_with_empty_roots_def validated_append_one_def depth_eq word_less_nat_alt word_unat_eq_iff
        level_bit_iff split: if_splits)
  from app have v': "next_leaf_index ?t' = next_leaf_index ?t + 1" "vt_empty v' = vt_empty v"
    "frontier ?t' = (if l = 20 then front else front[l := carry])"
    and root: "l \<noteq> 20 \<Longrightarrow> reconstruct_nonfull_root_from_level
        \<lparr> next_leaf_index = next_leaf_index ?t + 1, tree_root = ZERO_DIGEST, frontier = front[l := carry] \<rparr> pool_v1_empty_roots l
      = Inr (tree_root ?t')"
    by (auto simp: validated_append_one_def run seal depth_eq Let_def split: if_splits)
  show "vt_empty v' = pool_v1_empty_roots" using v'(2) seal by simp
  show "length (frontier ?t') = 20" using v'(3) len' by simp
  have n': "unat (next_leaf_index ?t') = Suc ?n"
    using room unfolding v'(1) by (subst unat_word_ariths) simp
  have clear: "\<not> level_bit (next_leaf_index ?t') i" if "i < l" for i
    using div_lower_even [OF l(2) that] by (simp add: level_bit_iff n')
  have same: "Suc ?n div 2 ^ i = ?n div 2 ^ i" "odd (Suc ?n div 2 ^ l)" if "l < 20" "l < i" for i
    using carry_stop [OF l(2) stop [OF that(1)]] that(2) by auto
  have canonical: "frontier ?t' ! i = subtree_root i []" if i: "i < 20" "\<not> level_bit (next_leaf_index ?t') i" for i
  proof -
    consider "i < l" | "i = l" "l < 20" | "l < i" "l < 20" using i(1) by linarith
    then show ?thesis
    proof cases
      case 1
      then show ?thesis using front [OF i(1)] v'(3) by simp
    next
      case 2
      then show ?thesis using i carry_stop(1) [OF l(2) stop [OF 2(2)]] by (simp add: level_bit_iff n')
    next
      case 3
      then show ?thesis using i same(1) [OF 3(2) 3(1)] live [OF i(1)] front [OF i(1)] v'(3) by (simp add: level_bit_iff n')
    qed
  qed
  have "reconstruct_nonfull_root ?t' pool_v1_empty_roots = Inr (tree_root ?t')" if "next_leaf_index ?t' < POOL_V1_LEAF_CAPACITY"
  proof -
    have "l \<noteq> 20" using that l n' room by (auto simp: word_less_nat_alt capacity_eq dest: dvd_imp_le)
    moreover have "reconstruct_nonfull_root_from_level \<lparr> next_leaf_index = i, tree_root = r, frontier = f \<rparr> e k
        = reconstruct_nonfull_root_from_level \<lparr> next_leaf_index = i, tree_root = r', frontier = f \<rparr> e k" for i r r' f e k
      by (simp add: reconstruct_nonfull_root_from_level_def)
    ultimately show ?thesis
      using root reconstruct_from_clear_level [OF l(1) clear] v'(1,3) unfolding reconstruct_nonfull_root_def
      by (metis (full_types) incremental_merkle_tree.surjective old.unit.exhaust)
  qed
  moreover have "next_leaf_index ?t' \<noteq> 0" using n' by auto
  moreover have "\<not> POOL_V1_LEAF_CAPACITY < next_leaf_index ?t'" using n' room by (simp add: word_less_nat_alt capacity_eq)
  moreover have "\<not> (\<exists>i \<in> set [0..<20]. \<not> level_bit (next_leaf_index ?t') i \<and> frontier ?t' ! i \<noteq> pool_v1_empty_roots ! i)"
    using canonical by (metis atLeastLessThan_iff empty_roots_nth less_imp_le set_upt)
  ultimately show "validate_with_empty_roots ?t' pool_v1_empty_roots = Inr ()"
    unfolding validate_with_empty_roots_def depth_eq by simp
qed

section \<open>Canonical images\<close>

definition tree_ok :: "incremental_merkle_tree \<Rightarrow> bool" where
  "tree_ok t \<longleftrightarrow> digest_ok (tree_root t) \<and> length (frontier t) = 20 \<and> list_all digest_ok (frontier t)"

definition tree_image :: "incremental_merkle_tree \<Rightarrow> bytes" where
  "tree_image t = put_each 48 32 encode_digest_canonical (frontier t)
     (put 16 (encode_digest_canonical (tree_root t)) (put 8 (to_le 8 (next_leaf_index t))
       ((put 0 POOL_V1_TREE_STATE_MAGIC (zeros 688))[4 := POOL_V1_TREE_STATE_VERSION, 5 := 20,
          6 := POOL_V1_TREE_HASH_VERSION, 7 := POOL_V1_DIGEST_ENCODING_VERSION])))"

lemma tree_image_fields:
  assumes "tree_ok t"
  shows "length (tree_image t) = 688"
    "seg 0 4 (tree_image t) = POOL_V1_TREE_STATE_MAGIC" "tree_image t ! 4 = POOL_V1_TREE_STATE_VERSION"
    "tree_image t ! 5 = 20" "tree_image t ! 6 = POOL_V1_TREE_HASH_VERSION"
    "tree_image t ! 7 = POOL_V1_DIGEST_ENCODING_VERSION" "seg 8 16 (tree_image t) = to_le 8 (next_leaf_index t)"
    "seg 16 48 (tree_image t) = encode_digest_canonical (tree_root t)"
    "seg 48 688 (tree_image t) = concat (map encode_digest_canonical (frontier t))"
proof -
  have root: "length (encode_digest_canonical (tree_root t)) = 32"
    and nodes: "length (concat (map encode_digest_canonical (frontier t))) = 640"
    using assms length_roots_bytes [of "frontier t"] by (simp_all add: tree_ok_def)
  have image: "tree_image t = put 48 (concat (map encode_digest_canonical (frontier t)))
     (put 16 (encode_digest_canonical (tree_root t)) (put 8 (to_le 8 (next_leaf_index t))
       ((put 0 POOL_V1_TREE_STATE_MAGIC (zeros 688))[4 := POOL_V1_TREE_STATE_VERSION, 5 := 20,
          6 := POOL_V1_TREE_HASH_VERSION, 7 := POOL_V1_DIGEST_ENCODING_VERSION])))"
    unfolding tree_image_def using assms root
    by (intro put_each_eq) (auto simp: tree_ok_def list_all_iff layout_defs)
  show "length (tree_image t) = 688"
    "seg 0 4 (tree_image t) = POOL_V1_TREE_STATE_MAGIC" "tree_image t ! 4 = POOL_V1_TREE_STATE_VERSION"
    "tree_image t ! 5 = 20" "tree_image t ! 6 = POOL_V1_TREE_HASH_VERSION"
    "tree_image t ! 7 = POOL_V1_DIGEST_ENCODING_VERSION" "seg 8 16 (tree_image t) = to_le 8 (next_leaf_index t)"
    "seg 16 48 (tree_image t) = encode_digest_canonical (tree_root t)"
    "seg 48 688 (tree_image t) = concat (map encode_digest_canonical (frontier t))"
    unfolding image using root nodes by (simp_all add: layout_defs image_simps)
qed

lemma tree_encode_eq: "tree_encode t = bindE (tree_validate t) (\<lambda>_. Inr (tree_image t))"
  by (simp add: tree_encode_def tree_encode_with_empty_roots_def tree_validate_def tree_image_def layout_defs depth_eq Let_def)

lemma decode_tree_image_eq:
  "decode_tree_image_unvalidated b = Inr t \<longleftrightarrow> tree_ok t \<and> b = tree_image t"
proof
  assume dec: "decode_tree_image_unvalidated b = Inr t"
  then have len: "length b = 688" by (simp add: decode_tree_image_unvalidated_def layout_defs)
  let ?d = "\<lambda>b. map_err (\<lambda>_. TNonCanonicalDigest) (decode_digest_canonical b)"
  have nodes: "read_each 48 32 ?d 20 b = Inr xs \<longleftrightarrow>
      length xs = 20 \<and> list_all digest_ok xs \<and> concat (map encode_digest_canonical xs) = seg 48 688 b" for xs
    using len by (subst read_each_eq_Inr [where ok = digest_ok and f = encode_digest_canonical]) (auto simp: decode_digest_eq_Inr)
  from dec len have t: "next_leaf_index t = from_le (seg 8 16 b)" "read_each 48 32 ?d 20 b = Inr (frontier t)"
    "decode_digest_canonical (seg 16 48 b) = Inr (tree_root t)"
    and hd: "seg 0 4 b = POOL_V1_TREE_STATE_MAGIC" "b ! 4 = POOL_V1_TREE_STATE_VERSION" "b ! 5 = 20"
      "b ! 6 = POOL_V1_TREE_HASH_VERSION" "b ! 7 = POOL_V1_DIGEST_ENCODING_VERSION"
    by (auto simp: decode_tree_image_unvalidated_def layout_defs depth_eq)
  from t len have ok: "tree_ok t" and root: "encode_digest_canonical (tree_root t) = seg 16 48 b"
    by (auto simp: tree_ok_def nodes decode_digest_eq_Inr)
  have "tree_image t = b"
  proof (rule agree_on_eq [where cs = "[4, 5, 6, 7, 8, 16, 48, 688]"])
    show "agree_on [0, 4, 5, 6, 7, 8, 16, 48, 688] (tree_image t) b"
      using hd t(1,2) root len tree_image_fields [OF ok] by (auto simp: seg_one nodes)
  qed (use len tree_image_fields(1) [OF ok] in simp_all)
  with ok show "tree_ok t \<and> b = tree_image t" by simp
next
  assume "tree_ok t \<and> b = tree_image t"
  then have ok: "tree_ok t" and b: "b = tree_image t" by simp_all
  have "read_each 48 32 (\<lambda>b. map_err (\<lambda>_. TNonCanonicalDigest) (decode_digest_canonical b)) 20 b = Inr (frontier t)"
    using ok tree_image_fields [OF ok] unfolding b
    by (subst read_each_eq_Inr [where ok = digest_ok and f = encode_digest_canonical])
      (auto simp: decode_digest_eq_Inr tree_ok_def)
  then show "decode_tree_image_unvalidated b = Inr t"
    using ok tree_image_fields [OF ok] unfolding b
    by (simp add: decode_tree_image_unvalidated_def layout_defs depth_eq tree_ok_def)
qed

lemma validated_from_parts_eta:
  "validated_from_parts (next_leaf_index t) (tree_root t) (frontier t) empties
     = bindE (validate_with_empty_roots t empties) (\<lambda>_. Inr \<lparr> vt_inner = t, vt_empty = empties \<rparr>)"
  for t :: incremental_merkle_tree
  by (cases t) (simp add: validated_from_parts_def Let_def)

lemma tree_decode_eq: "tree_decode b = Inr t \<longleftrightarrow> tree_ok t \<and> tree_validate t = Inr () \<and> b = tree_image t"
  unfolding tree_decode_def tree_decode_with_empty_roots_def validated_decode_def validated_from_parts_eta tree_validate_def
  using decode_tree_image_eq [of b t] by (cases "decode_tree_image_unvalidated b") auto

interpretation tree_codec: image_codec tree_encode tree_decode tree_ok POOL_V1_TREE_STATE_ACCOUNT_BYTES
  by unfold_locales (auto simp: tree_encode_eq tree_decode_eq tree_image_fields layout_defs)

end
