(* ===== verification/EmptyRoots.thy ===== *)
theory EmptyRoots
  imports PoseidonEval IncrementalMerkle
begin

text \<open>
  The tables of \<open>programs/aspis-pool/src/empty_roots.rs\<close>: the recursive roots of empty subtrees the pool binary
  pins. Every level is evaluated in the kernel, so the tables are shown to be the recursive construction of
  \<open>pool_v1_empty_roots\<close> and its shift by one level.
\<close>

section \<open>The pinned tables\<close>

definition POOL_V1_EMPTY_ROOTS :: "digest list" where
  "POOL_V1_EMPTY_ROOTS =
   [replicate DIGEST_ELEMS M31_ZERO,
    [M31 1438900896, M31 782233260, M31 1544844157, M31 891350894,
     M31 986827501, M31 300047813, M31 266092546, M31 1155026732],
    [M31 141619947, M31 1448060902, M31 524379093, M31 1944458907,
     M31 1832113773, M31 579270723, M31 752346270, M31 1038346536],
    [M31 1119858538, M31 128294437, M31 939091034, M31 659145897,
     M31 1933666768, M31 903679201, M31 1182639487, M31 1398246146],
    [M31 1057897051, M31 1132946363, M31 794377079, M31 1971564389,
     M31 1255722275, M31 926653737, M31 2031728153, M31 2024887573],
    [M31 1410054462, M31 673771449, M31 940847521, M31 274330358,
     M31 1719505495, M31 1690439941, M31 203201419, M31 1855504616],
    [M31 1442759752, M31 1540325866, M31 188964047, M31 101815282,
     M31 1883549730, M31 1774537487, M31 1306717763, M31 561084592],
    [M31 244193611, M31 984304317, M31 1467689208, M31 2063463197,
     M31 1766003332, M31 1300835127, M31 1578947755, M31 745931587],
    [M31 673192756, M31 38070812, M31 1453532835, M31 1340577407,
     M31 368420458, M31 1834405704, M31 270061815, M31 711700631],
    [M31 27092219, M31 1272373356, M31 998194489, M31 1458413288,
     M31 887470405, M31 1204987730, M31 864453460, M31 553704718],
    [M31 1972918328, M31 1234090299, M31 977162835, M31 1704494754,
     M31 1617603773, M31 1819200880, M31 906453206, M31 1653526885],
    [M31 418360492, M31 472096212, M31 871749117, M31 98906847,
     M31 2026788776, M31 1504737042, M31 407274798, M31 1800828893],
    [M31 986339640, M31 660349625, M31 1012157959, M31 454024326,
     M31 987656904, M31 622864739, M31 1150440730, M31 1280042062],
    [M31 2118470693, M31 1706590589, M31 2128512933, M31 167263577,
     M31 409542414, M31 1323179656, M31 1880070613, M31 2053396184],
    [M31 260546973, M31 1375125357, M31 1584234519, M31 1097072342,
     M31 1685367984, M31 1070989054, M31 2113798037, M31 958210542],
    [M31 1239966481, M31 992485427, M31 1397515674, M31 466658549,
     M31 2071909237, M31 712995354, M31 2047452742, M31 1680224983],
    [M31 1796237568, M31 1862343136, M31 1954463912, M31 1190686266,
     M31 364700025, M31 46960257, M31 671215600, M31 1214723477],
    [M31 1127845264, M31 662862400, M31 84021756, M31 995080286,
     M31 1419670571, M31 1966281459, M31 837284626, M31 2083375353],
    [M31 1321679286, M31 782621548, M31 1415820264, M31 74436574,
     M31 776350425, M31 323154748, M31 429051705, M31 1299980413],
    [M31 1519171444, M31 1235587172, M31 1671492368, M31 1449613582,
     M31 547369941, M31 1621086153, M31 266860322, M31 450526803],
    [M31 19381883, M31 1308966873, M31 251977766, M31 474343397,
     M31 2069732268, M31 1863820229, M31 152153379, M31 665567443]]"

definition POOL_V1_PAIR_EMPTY_ROOTS :: "digest list" where
  "POOL_V1_PAIR_EMPTY_ROOTS =
   [POOL_V1_EMPTY_ROOTS ! 1, POOL_V1_EMPTY_ROOTS ! 2, POOL_V1_EMPTY_ROOTS ! 3, POOL_V1_EMPTY_ROOTS ! 4, POOL_V1_EMPTY_ROOTS ! 5,
    POOL_V1_EMPTY_ROOTS ! 6, POOL_V1_EMPTY_ROOTS ! 7, POOL_V1_EMPTY_ROOTS ! 8, POOL_V1_EMPTY_ROOTS ! 9, POOL_V1_EMPTY_ROOTS ! 10,
    POOL_V1_EMPTY_ROOTS ! 11, POOL_V1_EMPTY_ROOTS ! 12, POOL_V1_EMPTY_ROOTS ! 13, POOL_V1_EMPTY_ROOTS ! 14, POOL_V1_EMPTY_ROOTS ! 15,
    POOL_V1_EMPTY_ROOTS ! 16, POOL_V1_EMPTY_ROOTS ! 17, POOL_V1_EMPTY_ROOTS ! 18, POOL_V1_EMPTY_ROOTS ! 19, POOL_V1_EMPTY_ROOTS ! 20,
    [M31 1201428963, M31 1296676114, M31 441891487, M31 1910121140,
     M31 602621674, M31 1294160489, M31 1878016864, M31 855887413]]"

section \<open>Evaluation, level by level\<close>

definition pinned_row :: "nat \<Rightarrow> int list" where
  "pinned_row level = map ival ((POOL_V1_EMPTY_ROOTS @ drop 20 POOL_V1_PAIR_EMPTY_ROOTS) ! level)"

definition level_pinned :: "nat \<Rightarrow> bool" where
  "level_pinned level \<longleftrightarrow> node_spec (pinned_row level) (pinned_row level) = pinned_row (level + 1)"

lemma pinned_0: "level_pinned 0"
  by code_simp

lemma pinned_1: "level_pinned 1"
  by code_simp

lemma pinned_2: "level_pinned 2"
  by code_simp

lemma pinned_3: "level_pinned 3"
  by code_simp

lemma pinned_4: "level_pinned 4"
  by code_simp

lemma pinned_5: "level_pinned 5"
  by code_simp

lemma pinned_6: "level_pinned 6"
  by code_simp

lemma pinned_7: "level_pinned 7"
  by code_simp

lemma pinned_8: "level_pinned 8"
  by code_simp

lemma pinned_9: "level_pinned 9"
  by code_simp

lemma pinned_10: "level_pinned 10"
  by code_simp

lemma pinned_11: "level_pinned 11"
  by code_simp

lemma pinned_12: "level_pinned 12"
  by code_simp

lemma pinned_13: "level_pinned 13"
  by code_simp

lemma pinned_14: "level_pinned 14"
  by code_simp

lemma pinned_15: "level_pinned 15"
  by code_simp

lemma pinned_16: "level_pinned 16"
  by code_simp

lemma pinned_17: "level_pinned 17"
  by code_simp

lemma pinned_18: "level_pinned 18"
  by code_simp

lemma pinned_19: "level_pinned 19"
  by code_simp

lemma pinned_20: "level_pinned 20"
  by code_simp

lemmas pinned_levels = pinned_0 pinned_1 pinned_2 pinned_3 pinned_4 pinned_5 pinned_6 pinned_7 pinned_8 pinned_9 pinned_10
  pinned_11 pinned_12 pinned_13 pinned_14 pinned_15 pinned_16 pinned_17 pinned_18 pinned_19 pinned_20

lemma level_pinned_le: "level \<le> 20 \<Longrightarrow> level_pinned level"
proof -
  have "\<forall>level \<in> {..20}. level_pinned level" by (simp add: atMost_nat_numeral atMost_Suc atMost_0 pinned_levels pinned_levels(2) [unfolded One_nat_def])
  then show "level \<le> 20 \<Longrightarrow> level_pinned level" by simp
qed

section \<open>The tables are the recursive construction\<close>

lemma pinned_shape: "length POOL_V1_EMPTY_ROOTS = 21" "length POOL_V1_PAIR_EMPTY_ROOTS = 21"
  "list_all digest_ok POOL_V1_EMPTY_ROOTS" "digest_ok (POOL_V1_PAIR_EMPTY_ROOTS ! 20)" "POOL_V1_EMPTY_ROOTS ! 0 = ZERO_DIGEST"
  by code_simp+

lemma pinned_roots: "level \<le> 21 \<Longrightarrow>
  (POOL_V1_EMPTY_ROOTS @ drop 20 POOL_V1_PAIR_EMPTY_ROOTS) ! level = subtree_root level []"
proof (induction level)
  case 0
  then show ?case using pinned_shape by (simp add: nth_append)
next
  case (Suc k)
  let ?T = "POOL_V1_EMPTY_ROOTS @ drop 20 POOL_V1_PAIR_EMPTY_ROOTS"
  have "digest_ok (?T ! k)" using Suc.prems pinned_shape by (simp add: nth_append list_all_length)
  then have "map ival (pool_v1_tree_parent (?T ! k) (?T ! k)) = node_spec (pinned_row k) (pinned_row k)"
    unfolding pool_v1_tree_parent_def pinned_row_def by (intro node_compress_ival) (simp_all add: digest_ok_def)
  also have "\<dots> = map ival (?T ! Suc k)"
    using level_pinned_le [of k] Suc.prems by (simp add: level_pinned_def pinned_row_def)
  finally show ?case using Suc by (simp add: map_ival_inject)
qed

lemma pinned_empty_roots: "POOL_V1_EMPTY_ROOTS = pool_v1_empty_roots"
proof (rule nth_equalityI)
  show "length POOL_V1_EMPTY_ROOTS = length pool_v1_empty_roots" by (simp add: pinned_shape empty_roots_eq depth_eq del: upt_Suc)
  fix level assume "level < length POOL_V1_EMPTY_ROOTS"
  then show "POOL_V1_EMPTY_ROOTS ! level = pool_v1_empty_roots ! level"
    using pinned_roots [of level] by (simp add: pinned_shape nth_append)
qed

lemma pair_empty_roots: "level \<le> 20 \<Longrightarrow> POOL_V1_PAIR_EMPTY_ROOTS ! level = subtree_root (level + 1) []"
proof (cases "level = 20")
  case True
  then show ?thesis using pinned_roots [of 21] by (simp add: nth_append pinned_shape)
next
  case False
  assume "level \<le> 20"
  with False have "POOL_V1_PAIR_EMPTY_ROOTS ! level = POOL_V1_EMPTY_ROOTS ! (level + 1)"
    by (simp add: POOL_V1_PAIR_EMPTY_ROOTS_def nth_Cons numeral_eq_Suc less_Suc_eq split: nat.split)
  with False \<open>level \<le> 20\<close> show ?thesis by (simp add: pinned_empty_roots)
qed

end
