(* ===== verification/VerifierRegistry.thy ===== *)
theory VerifierRegistry
  imports Prelude
begin

text \<open>
  The account images of the verifier registry, \<open>crates/aspis-statement/src/pool_v1/verifier_registry.rs\<close>:
  the registry and its release entries, each in a V1 and a V2 layout, with their validation and the
  activity predicates. Each layout is an instance of \<open>image_codec\<close>.
\<close>

definition POOL_V1_VERIFIER_REGISTRY_MAGIC :: bytes where [layout_defs]: "POOL_V1_VERIFIER_REGISTRY_MAGIC = [0x41, 0x53, 0x52, 0x47]"
definition POOL_V1_VERIFIER_REGISTRY_VERSION :: u8 where [layout_defs]: "POOL_V1_VERIFIER_REGISTRY_VERSION = 1"
definition POOL_V1_VERIFIER_REGISTRY_BYTES :: nat where [layout_defs]: "POOL_V1_VERIFIER_REGISTRY_BYTES = 128"
definition POOL_V1_VERIFIER_REGISTRY_FLAG_PAUSED :: u8 where "POOL_V1_VERIFIER_REGISTRY_FLAG_PAUSED = 1"
definition POOL_V1_VERIFIER_REGISTRY_FLAG_IMMUTABLE :: u8 where "POOL_V1_VERIFIER_REGISTRY_FLAG_IMMUTABLE = 2"
definition POOL_V1_VERIFIER_REGISTRY_FLAGS_MASK :: u8 where
  "POOL_V1_VERIFIER_REGISTRY_FLAGS_MASK = POOL_V1_VERIFIER_REGISTRY_FLAG_PAUSED OR POOL_V1_VERIFIER_REGISTRY_FLAG_IMMUTABLE"
definition POOL_V1_VERIFIER_ENTRY_MAGIC :: bytes where [layout_defs]: "POOL_V1_VERIFIER_ENTRY_MAGIC = [0x41, 0x53, 0x52, 0x45]"
definition POOL_V1_VERIFIER_ENTRY_VERSION :: u8 where [layout_defs]: "POOL_V1_VERIFIER_ENTRY_VERSION = 1"
definition POOL_V1_VERIFIER_ENTRY_BYTES :: nat where [layout_defs]: "POOL_V1_VERIFIER_ENTRY_BYTES = 192"
definition POOL_V1_VERIFIER_ENTRY_NO_RETIREMENT_SLOT :: u64 where "POOL_V1_VERIFIER_ENTRY_NO_RETIREMENT_SLOT = 0xFFFFFFFFFFFFFFFF"
definition POOL_V1_VERIFIER_REGISTRY_V2_MAGIC :: bytes where [layout_defs]: "POOL_V1_VERIFIER_REGISTRY_V2_MAGIC = [0x41, 0x53, 0x52, 0x32]"
definition POOL_V1_VERIFIER_REGISTRY_V2_VERSION :: u8 where [layout_defs]: "POOL_V1_VERIFIER_REGISTRY_V2_VERSION = 2"
definition POOL_V1_VERIFIER_REGISTRY_V2_BYTES :: nat where [layout_defs]: "POOL_V1_VERIFIER_REGISTRY_V2_BYTES = 256"
definition POOL_V1_VERIFIER_ENTRY_V2_MAGIC :: bytes where [layout_defs]: "POOL_V1_VERIFIER_ENTRY_V2_MAGIC = [0x41, 0x53, 0x45, 0x32]"
definition POOL_V1_VERIFIER_ENTRY_V2_VERSION :: u8 where [layout_defs]: "POOL_V1_VERIFIER_ENTRY_V2_VERSION = 2"
definition POOL_V1_VERIFIER_ENTRY_V2_BYTES :: nat where [layout_defs]: "POOL_V1_VERIFIER_ENTRY_V2_BYTES = 320"
definition POOL_V1_VERIFIER_DEPLOYMENT_MODE_IMMUTABLE_LOADER_V3 :: u8 where [layout_defs]:
  "POOL_V1_VERIFIER_DEPLOYMENT_MODE_IMMUTABLE_LOADER_V3 = 1"

datatype registry_format_error =
  RFWrongLength | RFWrongMagic | RFWrongVersion | RFNonZeroReserved | RFUnsupportedFlags | RFInvalidStatus
  | RFInvalidAuthorityMode | RFZeroRequiredBinding | RFInvalidActivationDelay | RFInvalidStatementVersion
  | RFInvalidRetirementSlot | RFInvalidDeploymentMode

datatype verifier_entry_status = Pending | Active | Paused | Retired

definition status_byte :: "verifier_entry_status \<Rightarrow> u8" where
  "status_byte s = (case s of Pending \<Rightarrow> 0 | Active \<Rightarrow> 1 | Paused \<Rightarrow> 2 | Retired \<Rightarrow> 3)"

definition status_try_from :: "u8 \<Rightarrow> registry_format_error + verifier_entry_status" where
  "status_try_from value =
     (if value = 0 then Inr Pending else if value = 1 then Inr Active else if value = 2 then Inr Paused
      else if value = 3 then Inr Retired else Inl RFInvalidStatus)"

record verifier_registry_v1 =
  r1_flags :: u8
  r1_pool :: bytes
  r1_authority :: bytes
  r1_policy_binding :: bytes
  r1_generation :: u64
  r1_minimum_activation_delay_slots :: u64

record verifier_registry_entry_v1 =
  e1_status :: verifier_entry_status
  e1_statement_version :: u8
  e1_pool :: bytes
  e1_verifier_program :: bytes
  e1_profile_binding :: bytes
  e1_release_binding :: bytes
  e1_activation_slot :: u64
  e1_retirement_slot :: u64
  e1_policy_binding :: bytes

record verifier_registry_v2 =
  r2_flags :: u8
  r2_pool :: bytes
  r2_authority :: bytes
  r2_policy_binding :: bytes
  r2_generation :: u64
  r2_minimum_activation_delay_slots :: u64
  r2_registry_program :: bytes
  r2_loader_program :: bytes
  r2_programdata_address :: bytes
  r2_executable_hash :: bytes

record verifier_registry_entry_v2 =
  e2_status :: verifier_entry_status
  e2_statement_version :: u8
  e2_pool :: bytes
  e2_verifier_program :: bytes
  e2_profile_binding :: bytes
  e2_release_binding :: bytes
  e2_loader_program :: bytes
  e2_programdata_address :: bytes
  e2_executable_hash :: bytes
  e2_expected_upgrade_authority :: bytes
  e2_activation_slot :: u64
  e2_retirement_slot :: u64
  e2_policy_binding :: bytes

definition r1_is_paused :: "verifier_registry_v1 \<Rightarrow> bool" where
  "r1_is_paused r \<longleftrightarrow> r1_flags r AND POOL_V1_VERIFIER_REGISTRY_FLAG_PAUSED \<noteq> 0"

definition r1_is_immutable :: "verifier_registry_v1 \<Rightarrow> bool" where
  "r1_is_immutable r \<longleftrightarrow> r1_flags r AND POOL_V1_VERIFIER_REGISTRY_FLAG_IMMUTABLE \<noteq> 0"

definition r2_is_paused :: "verifier_registry_v2 \<Rightarrow> bool" where
  "r2_is_paused r \<longleftrightarrow> r2_flags r AND POOL_V1_VERIFIER_REGISTRY_FLAG_PAUSED \<noteq> 0"

definition r2_is_immutable :: "verifier_registry_v2 \<Rightarrow> bool" where
  "r2_is_immutable r \<longleftrightarrow> r2_flags r AND POOL_V1_VERIFIER_REGISTRY_FLAG_IMMUTABLE \<noteq> 0"

definition e1_has_no_retirement_slot :: "verifier_registry_entry_v1 \<Rightarrow> bool" where
  "e1_has_no_retirement_slot e \<longleftrightarrow> e1_retirement_slot e = POOL_V1_VERIFIER_ENTRY_NO_RETIREMENT_SLOT"

definition e1_is_active_at :: "verifier_registry_entry_v1 \<Rightarrow> u64 \<Rightarrow> bool" where
  "e1_is_active_at e slot \<longleftrightarrow> e1_status e = Active \<and> e1_activation_slot e \<le> slot
     \<and> (e1_has_no_retirement_slot e \<or> slot < e1_retirement_slot e)"

definition e1_is_exact_compatible_replacement_for ::
  "verifier_registry_entry_v1 \<Rightarrow> verifier_registry_entry_v1 \<Rightarrow> u64 \<Rightarrow> bool" where
  "e1_is_exact_compatible_replacement_for e retiring slot \<longleftrightarrow>
     e1_pool e = e1_pool retiring \<and> e1_policy_binding e = e1_policy_binding retiring
     \<and> e1_profile_binding e = e1_profile_binding retiring
     \<and> e1_statement_version e = e1_statement_version retiring
     \<and> e1_release_binding e \<noteq> e1_release_binding retiring \<and> e1_is_active_at e slot"

definition e2_has_no_retirement_slot :: "verifier_registry_entry_v2 \<Rightarrow> bool" where
  "e2_has_no_retirement_slot e \<longleftrightarrow> e2_retirement_slot e = POOL_V1_VERIFIER_ENTRY_NO_RETIREMENT_SLOT"

definition e2_is_active_at :: "verifier_registry_entry_v2 \<Rightarrow> u64 \<Rightarrow> bool" where
  "e2_is_active_at e slot \<longleftrightarrow> e2_status e = Active \<and> e2_activation_slot e \<le> slot
     \<and> (e2_has_no_retirement_slot e \<or> slot < e2_retirement_slot e)"

definition e2_is_exact_compatible_replacement_for ::
  "verifier_registry_entry_v2 \<Rightarrow> verifier_registry_entry_v2 \<Rightarrow> u64 \<Rightarrow> bool" where
  "e2_is_exact_compatible_replacement_for e retiring slot \<longleftrightarrow>
     e2_pool e = e2_pool retiring \<and> e2_policy_binding e = e2_policy_binding retiring
     \<and> e2_profile_binding e = e2_profile_binding retiring
     \<and> e2_statement_version e = e2_statement_version retiring
     \<and> e2_release_binding e \<noteq> e2_release_binding retiring \<and> e2_is_active_at e slot"

definition required_binding_is_zero :: "bytes \<Rightarrow> bool" where
  "required_binding_is_zero value \<longleftrightarrow> value = zeros 32"

section \<open>Registry images\<close>

definition validate_verifier_registry_v1 :: "verifier_registry_v1 \<Rightarrow> registry_format_error + unit" where
  "validate_verifier_registry_v1 registry =
     (if r1_flags registry AND NOT POOL_V1_VERIFIER_REGISTRY_FLAGS_MASK \<noteq> 0 then Inl RFUnsupportedFlags
      else if required_binding_is_zero (r1_pool registry) \<or> required_binding_is_zero (r1_policy_binding registry)
      then Inl RFZeroRequiredBinding
      else if r1_is_immutable registry \<noteq> required_binding_is_zero (r1_authority registry) then Inl RFInvalidAuthorityMode
      else if r1_minimum_activation_delay_slots registry = 0 then Inl RFInvalidActivationDelay
      else Inr ())"

definition verifier_registry_v1_image :: "verifier_registry_v1 \<Rightarrow> bytes" where
  "verifier_registry_v1_image registry =
     (let output = zeros POOL_V1_VERIFIER_REGISTRY_BYTES;
          output = put 0 POOL_V1_VERIFIER_REGISTRY_MAGIC output;
          output = output[4 := POOL_V1_VERIFIER_REGISTRY_VERSION];
          output = output[5 := r1_flags registry];
          output = put 8 (r1_pool registry) output;
          output = put 40 (r1_authority registry) output;
          output = put 72 (r1_policy_binding registry) output;
          output = put 104 (to_le 8 (r1_generation registry)) output
      in put 112 (to_le 8 (r1_minimum_activation_delay_slots registry)) output)"

definition encode_verifier_registry_v1 :: "verifier_registry_v1 \<Rightarrow> registry_format_error + bytes" where
  "encode_verifier_registry_v1 registry =
     bindE (validate_verifier_registry_v1 registry) (\<lambda>_. Inr (verifier_registry_v1_image registry))"

definition decode_verifier_registry_v1 :: "bytes \<Rightarrow> registry_format_error + verifier_registry_v1" where
  "decode_verifier_registry_v1 bytes =
     (if length bytes \<noteq> POOL_V1_VERIFIER_REGISTRY_BYTES then Inl RFWrongLength
      else if seg 0 4 bytes \<noteq> POOL_V1_VERIFIER_REGISTRY_MAGIC then Inl RFWrongMagic
      else if bytes ! 4 \<noteq> POOL_V1_VERIFIER_REGISTRY_VERSION then Inl RFWrongVersion
      else if seg 6 8 bytes \<noteq> zeros 2 \<or> seg 120 128 bytes \<noteq> zeros 8 then Inl RFNonZeroReserved
      else let registry = \<lparr> r1_flags = bytes ! 5, r1_pool = seg 8 40 bytes, r1_authority = seg 40 72 bytes,
                 r1_policy_binding = seg 72 104 bytes, r1_generation = from_le (seg 104 112 bytes),
                 r1_minimum_activation_delay_slots = from_le (seg 112 120 bytes) \<rparr>
           in bindE (validate_verifier_registry_v1 registry) (\<lambda>_. Inr registry))"

definition validate_verifier_registry_v2 :: "verifier_registry_v2 \<Rightarrow> registry_format_error + unit" where
  "validate_verifier_registry_v2 registry =
     (if r2_flags registry AND NOT POOL_V1_VERIFIER_REGISTRY_FLAGS_MASK \<noteq> 0 then Inl RFUnsupportedFlags
      else if required_binding_is_zero (r2_pool registry) \<or> required_binding_is_zero (r2_policy_binding registry)
        \<or> required_binding_is_zero (r2_registry_program registry) \<or> required_binding_is_zero (r2_loader_program registry)
        \<or> required_binding_is_zero (r2_programdata_address registry) \<or> required_binding_is_zero (r2_executable_hash registry)
      then Inl RFZeroRequiredBinding
      else if r2_is_immutable registry \<noteq> required_binding_is_zero (r2_authority registry) then Inl RFInvalidAuthorityMode
      else if r2_minimum_activation_delay_slots registry = 0 then Inl RFInvalidActivationDelay
      else Inr ())"

definition verifier_registry_v2_image :: "verifier_registry_v2 \<Rightarrow> bytes" where
  "verifier_registry_v2_image registry =
     (let output = zeros POOL_V1_VERIFIER_REGISTRY_V2_BYTES;
          output = put 0 POOL_V1_VERIFIER_REGISTRY_V2_MAGIC output;
          output = output[4 := POOL_V1_VERIFIER_REGISTRY_V2_VERSION];
          output = output[5 := r2_flags registry];
          output = output[6 := POOL_V1_VERIFIER_DEPLOYMENT_MODE_IMMUTABLE_LOADER_V3];
          output = put 8 (r2_pool registry) output;
          output = put 40 (r2_authority registry) output;
          output = put 72 (r2_policy_binding registry) output;
          output = put 104 (to_le 8 (r2_generation registry)) output;
          output = put 112 (to_le 8 (r2_minimum_activation_delay_slots registry)) output;
          output = put 120 (r2_registry_program registry) output;
          output = put 152 (r2_loader_program registry) output;
          output = put 184 (r2_programdata_address registry) output
      in put 216 (r2_executable_hash registry) output)"

definition encode_verifier_registry_v2 :: "verifier_registry_v2 \<Rightarrow> registry_format_error + bytes" where
  "encode_verifier_registry_v2 registry =
     bindE (validate_verifier_registry_v2 registry) (\<lambda>_. Inr (verifier_registry_v2_image registry))"

definition decode_verifier_registry_v2 :: "bytes \<Rightarrow> registry_format_error + verifier_registry_v2" where
  "decode_verifier_registry_v2 bytes =
     (if length bytes \<noteq> POOL_V1_VERIFIER_REGISTRY_V2_BYTES then Inl RFWrongLength
      else if seg 0 4 bytes \<noteq> POOL_V1_VERIFIER_REGISTRY_V2_MAGIC then Inl RFWrongMagic
      else if bytes ! 4 \<noteq> POOL_V1_VERIFIER_REGISTRY_V2_VERSION then Inl RFWrongVersion
      else if bytes ! 6 \<noteq> POOL_V1_VERIFIER_DEPLOYMENT_MODE_IMMUTABLE_LOADER_V3 then Inl RFInvalidDeploymentMode
      else if bytes ! 7 \<noteq> 0 \<or> seg 248 256 bytes \<noteq> zeros 8 then Inl RFNonZeroReserved
      else let registry = \<lparr> r2_flags = bytes ! 5, r2_pool = seg 8 40 bytes, r2_authority = seg 40 72 bytes,
                 r2_policy_binding = seg 72 104 bytes, r2_generation = from_le (seg 104 112 bytes),
                 r2_minimum_activation_delay_slots = from_le (seg 112 120 bytes),
                 r2_registry_program = seg 120 152 bytes, r2_loader_program = seg 152 184 bytes,
                 r2_programdata_address = seg 184 216 bytes, r2_executable_hash = seg 216 248 bytes \<rparr>
           in bindE (validate_verifier_registry_v2 registry) (\<lambda>_. Inr registry))"

section \<open>Entry images\<close>

definition validate_verifier_registry_entry_v1 :: "verifier_registry_entry_v1 \<Rightarrow> registry_format_error + unit" where
  "validate_verifier_registry_entry_v1 entry =
     (if e1_statement_version entry = 0 then Inl RFInvalidStatementVersion
      else if required_binding_is_zero (e1_pool entry) \<or> required_binding_is_zero (e1_verifier_program entry)
        \<or> required_binding_is_zero (e1_profile_binding entry) \<or> required_binding_is_zero (e1_release_binding entry)
        \<or> required_binding_is_zero (e1_policy_binding entry)
      then Inl RFZeroRequiredBinding
      else if \<not> e1_has_no_retirement_slot entry \<and> e1_retirement_slot entry \<le> e1_activation_slot entry
      then Inl RFInvalidRetirementSlot
      else Inr ())"

definition verifier_registry_entry_v1_image :: "verifier_registry_entry_v1 \<Rightarrow> bytes" where
  "verifier_registry_entry_v1_image entry =
     (let output = zeros POOL_V1_VERIFIER_ENTRY_BYTES;
          output = put 0 POOL_V1_VERIFIER_ENTRY_MAGIC output;
          output = output[4 := POOL_V1_VERIFIER_ENTRY_VERSION];
          output = output[5 := status_byte (e1_status entry)];
          output = output[6 := e1_statement_version entry];
          output = put 8 (e1_pool entry) output;
          output = put 40 (e1_verifier_program entry) output;
          output = put 72 (e1_profile_binding entry) output;
          output = put 104 (e1_release_binding entry) output;
          output = put 136 (to_le 8 (e1_activation_slot entry)) output;
          output = put 144 (to_le 8 (e1_retirement_slot entry)) output
      in put 152 (e1_policy_binding entry) output)"

definition encode_verifier_registry_entry_v1 :: "verifier_registry_entry_v1 \<Rightarrow> registry_format_error + bytes" where
  "encode_verifier_registry_entry_v1 entry =
     bindE (validate_verifier_registry_entry_v1 entry) (\<lambda>_. Inr (verifier_registry_entry_v1_image entry))"

definition decode_verifier_registry_entry_v1 :: "bytes \<Rightarrow> registry_format_error + verifier_registry_entry_v1" where
  "decode_verifier_registry_entry_v1 bytes =
     (if length bytes \<noteq> POOL_V1_VERIFIER_ENTRY_BYTES then Inl RFWrongLength
      else if seg 0 4 bytes \<noteq> POOL_V1_VERIFIER_ENTRY_MAGIC then Inl RFWrongMagic
      else if bytes ! 4 \<noteq> POOL_V1_VERIFIER_ENTRY_VERSION then Inl RFWrongVersion
      else if bytes ! 7 \<noteq> 0 \<or> seg 184 192 bytes \<noteq> zeros 8 then Inl RFNonZeroReserved
      else bindE (status_try_from (bytes ! 5)) (\<lambda>status.
        let entry = \<lparr> e1_status = status, e1_statement_version = bytes ! 6, e1_pool = seg 8 40 bytes,
              e1_verifier_program = seg 40 72 bytes, e1_profile_binding = seg 72 104 bytes,
              e1_release_binding = seg 104 136 bytes, e1_activation_slot = from_le (seg 136 144 bytes),
              e1_retirement_slot = from_le (seg 144 152 bytes), e1_policy_binding = seg 152 184 bytes \<rparr>
        in bindE (validate_verifier_registry_entry_v1 entry) (\<lambda>_. Inr entry)))"

definition validate_verifier_registry_entry_v2 :: "verifier_registry_entry_v2 \<Rightarrow> registry_format_error + unit" where
  "validate_verifier_registry_entry_v2 entry =
     (if e2_statement_version entry = 0 then Inl RFInvalidStatementVersion
      else if required_binding_is_zero (e2_pool entry) \<or> required_binding_is_zero (e2_verifier_program entry)
        \<or> required_binding_is_zero (e2_profile_binding entry) \<or> required_binding_is_zero (e2_release_binding entry)
        \<or> required_binding_is_zero (e2_loader_program entry) \<or> required_binding_is_zero (e2_programdata_address entry)
        \<or> required_binding_is_zero (e2_executable_hash entry) \<or> required_binding_is_zero (e2_policy_binding entry)
      then Inl RFZeroRequiredBinding
      else if e2_expected_upgrade_authority entry \<noteq> zeros 32 then Inl RFInvalidAuthorityMode
      else if \<not> e2_has_no_retirement_slot entry \<and> e2_retirement_slot entry \<le> e2_activation_slot entry
      then Inl RFInvalidRetirementSlot
      else Inr ())"

definition verifier_registry_entry_v2_image :: "verifier_registry_entry_v2 \<Rightarrow> bytes" where
  "verifier_registry_entry_v2_image entry =
     (let output = zeros POOL_V1_VERIFIER_ENTRY_V2_BYTES;
          output = put 0 POOL_V1_VERIFIER_ENTRY_V2_MAGIC output;
          output = output[4 := POOL_V1_VERIFIER_ENTRY_V2_VERSION];
          output = output[5 := status_byte (e2_status entry)];
          output = output[6 := e2_statement_version entry];
          output = output[7 := POOL_V1_VERIFIER_DEPLOYMENT_MODE_IMMUTABLE_LOADER_V3];
          output = put 8 (e2_pool entry) output;
          output = put 40 (e2_verifier_program entry) output;
          output = put 72 (e2_profile_binding entry) output;
          output = put 104 (e2_release_binding entry) output;
          output = put 136 (e2_loader_program entry) output;
          output = put 168 (e2_programdata_address entry) output;
          output = put 200 (e2_executable_hash entry) output;
          output = put 232 (e2_expected_upgrade_authority entry) output;
          output = put 264 (to_le 8 (e2_activation_slot entry)) output;
          output = put 272 (to_le 8 (e2_retirement_slot entry)) output
      in put 280 (e2_policy_binding entry) output)"

definition encode_verifier_registry_entry_v2 :: "verifier_registry_entry_v2 \<Rightarrow> registry_format_error + bytes" where
  "encode_verifier_registry_entry_v2 entry =
     bindE (validate_verifier_registry_entry_v2 entry) (\<lambda>_. Inr (verifier_registry_entry_v2_image entry))"

definition decode_verifier_registry_entry_v2 :: "bytes \<Rightarrow> registry_format_error + verifier_registry_entry_v2" where
  "decode_verifier_registry_entry_v2 bytes =
     (if length bytes \<noteq> POOL_V1_VERIFIER_ENTRY_V2_BYTES then Inl RFWrongLength
      else if seg 0 4 bytes \<noteq> POOL_V1_VERIFIER_ENTRY_V2_MAGIC then Inl RFWrongMagic
      else if bytes ! 4 \<noteq> POOL_V1_VERIFIER_ENTRY_V2_VERSION then Inl RFWrongVersion
      else if bytes ! 7 \<noteq> POOL_V1_VERIFIER_DEPLOYMENT_MODE_IMMUTABLE_LOADER_V3 then Inl RFInvalidDeploymentMode
      else if seg 312 320 bytes \<noteq> zeros 8 then Inl RFNonZeroReserved
      else bindE (status_try_from (bytes ! 5)) (\<lambda>status.
        let entry = \<lparr> e2_status = status, e2_statement_version = bytes ! 6, e2_pool = seg 8 40 bytes,
              e2_verifier_program = seg 40 72 bytes, e2_profile_binding = seg 72 104 bytes,
              e2_release_binding = seg 104 136 bytes, e2_loader_program = seg 136 168 bytes,
              e2_programdata_address = seg 168 200 bytes, e2_executable_hash = seg 200 232 bytes,
              e2_expected_upgrade_authority = seg 232 264 bytes, e2_activation_slot = from_le (seg 264 272 bytes),
              e2_retirement_slot = from_le (seg 272 280 bytes), e2_policy_binding = seg 280 312 bytes \<rparr>
        in bindE (validate_verifier_registry_entry_v2 entry) (\<lambda>_. Inr entry)))"

section \<open>Codecs\<close>

lemma status_try_from_byte [simp]: "status_try_from (status_byte s) = Inr s"
  by (cases s) (simp_all add: status_try_from_def status_byte_def)

lemma status_try_from_eq [simp]: "status_try_from b = Inr s \<longleftrightarrow> status_byte s = b"
  by (cases s) (auto simp: status_try_from_def status_byte_def split: if_splits)

definition r1_ok :: "verifier_registry_v1 \<Rightarrow> bool" where
  "r1_ok r \<longleftrightarrow> length (r1_pool r) = 32 \<and> length (r1_authority r) = 32 \<and> length (r1_policy_binding r) = 32"

definition e1_ok :: "verifier_registry_entry_v1 \<Rightarrow> bool" where
  "e1_ok e \<longleftrightarrow> length (e1_pool e) = 32 \<and> length (e1_verifier_program e) = 32 \<and> length (e1_profile_binding e) = 32
     \<and> length (e1_release_binding e) = 32 \<and> length (e1_policy_binding e) = 32"

definition r2_ok :: "verifier_registry_v2 \<Rightarrow> bool" where
  "r2_ok r \<longleftrightarrow> length (r2_pool r) = 32 \<and> length (r2_authority r) = 32 \<and> length (r2_policy_binding r) = 32
     \<and> length (r2_registry_program r) = 32 \<and> length (r2_loader_program r) = 32
     \<and> length (r2_programdata_address r) = 32 \<and> length (r2_executable_hash r) = 32"

definition e2_ok :: "verifier_registry_entry_v2 \<Rightarrow> bool" where
  "e2_ok e \<longleftrightarrow> length (e2_pool e) = 32 \<and> length (e2_verifier_program e) = 32 \<and> length (e2_profile_binding e) = 32
     \<and> length (e2_release_binding e) = 32 \<and> length (e2_loader_program e) = 32 \<and> length (e2_programdata_address e) = 32
     \<and> length (e2_executable_hash e) = 32 \<and> length (e2_expected_upgrade_authority e) = 32
     \<and> length (e2_policy_binding e) = 32"

lemma registry_v1_image_fields:
  assumes "r1_ok r"
  shows "length (verifier_registry_v1_image r) = POOL_V1_VERIFIER_REGISTRY_BYTES"
    "seg 0 4 (verifier_registry_v1_image r) = POOL_V1_VERIFIER_REGISTRY_MAGIC"
    "verifier_registry_v1_image r ! 4 = POOL_V1_VERIFIER_REGISTRY_VERSION"
    "verifier_registry_v1_image r ! 5 = r1_flags r"
    "seg 6 8 (verifier_registry_v1_image r) = zeros 2"
    "seg 8 40 (verifier_registry_v1_image r) = r1_pool r"
    "seg 40 72 (verifier_registry_v1_image r) = r1_authority r"
    "seg 72 104 (verifier_registry_v1_image r) = r1_policy_binding r"
    "seg 104 112 (verifier_registry_v1_image r) = to_le 8 (r1_generation r)"
    "seg 112 120 (verifier_registry_v1_image r) = to_le 8 (r1_minimum_activation_delay_slots r)"
    "seg 120 128 (verifier_registry_v1_image r) = zeros 8"
  using assms by (simp_all add: verifier_registry_v1_image_def r1_ok_def Let_def layout_defs image_simps)

interpretation registry_v1_codec: image_codec encode_verifier_registry_v1 decode_verifier_registry_v1 r1_ok POOL_V1_VERIFIER_REGISTRY_BYTES
proof (rule image_codecI [where check = validate_verifier_registry_v1 and img = verifier_registry_v1_image
      and cs = "[4, 5, 6, 8, 40, 72, 104, 112, 120, 128]"])
  fix r assume "r1_ok r"
  from registry_v1_image_fields [OF this] show "length (verifier_registry_v1_image r) = POOL_V1_VERIFIER_REGISTRY_BYTES"
    "validate_verifier_registry_v1 r = Inr () \<Longrightarrow> decode_verifier_registry_v1 (verifier_registry_v1_image r) = Inr r"
    by (cases r; simp add: decode_verifier_registry_v1_def Let_def layout_defs)+
next
  fix b r assume dec: "decode_verifier_registry_v1 b = Inr r"
  then show "length b = POOL_V1_VERIFIER_REGISTRY_BYTES \<and> r1_ok r \<and> validate_verifier_registry_v1 r = Inr ()"
    by (auto simp: decode_verifier_registry_v1_def r1_ok_def Let_def layout_defs)
  from dec have hd: "seg 0 4 b = POOL_V1_VERIFIER_REGISTRY_MAGIC" "b ! 4 = POOL_V1_VERIFIER_REGISTRY_VERSION" "seg 6 8 b = zeros 2" "seg 120 128 b = zeros 8"
    by (auto simp: decode_verifier_registry_v1_def Let_def)
  from dec have fields: "r1_flags r = b ! 5" "r1_pool r = seg 8 40 b" "r1_authority r = seg 40 72 b"
    "r1_policy_binding r = seg 72 104 b" "r1_generation r = from_le (seg 104 112 b)" "r1_minimum_activation_delay_slots r = from_le (seg 112 120 b)"
    by (auto simp: decode_verifier_registry_v1_def Let_def)
  assume len: "length b = POOL_V1_VERIFIER_REGISTRY_BYTES" and ok: "r1_ok r"
  show "agree_on [0, 4, 5, 6, 8, 40, 72, 104, 112, 120, 128] (verifier_registry_v1_image r) b"
    using registry_v1_image_fields [OF ok] hd fields len by (simp add: seg_one layout_defs)
qed (simp_all add: layout_defs encode_verifier_registry_v1_def)

lemma entry_v1_image_fields:
  assumes "e1_ok e"
  shows "length (verifier_registry_entry_v1_image e) = POOL_V1_VERIFIER_ENTRY_BYTES"
    "seg 0 4 (verifier_registry_entry_v1_image e) = POOL_V1_VERIFIER_ENTRY_MAGIC"
    "verifier_registry_entry_v1_image e ! 4 = POOL_V1_VERIFIER_ENTRY_VERSION"
    "verifier_registry_entry_v1_image e ! 5 = status_byte (e1_status e)"
    "verifier_registry_entry_v1_image e ! 6 = e1_statement_version e"
    "verifier_registry_entry_v1_image e ! 7 = 0"
    "seg 8 40 (verifier_registry_entry_v1_image e) = e1_pool e"
    "seg 40 72 (verifier_registry_entry_v1_image e) = e1_verifier_program e"
    "seg 72 104 (verifier_registry_entry_v1_image e) = e1_profile_binding e"
    "seg 104 136 (verifier_registry_entry_v1_image e) = e1_release_binding e"
    "seg 136 144 (verifier_registry_entry_v1_image e) = to_le 8 (e1_activation_slot e)"
    "seg 144 152 (verifier_registry_entry_v1_image e) = to_le 8 (e1_retirement_slot e)"
    "seg 152 184 (verifier_registry_entry_v1_image e) = e1_policy_binding e"
    "seg 184 192 (verifier_registry_entry_v1_image e) = zeros 8"
  using assms by (simp_all add: verifier_registry_entry_v1_image_def e1_ok_def Let_def layout_defs image_simps)

interpretation entry_v1_codec: image_codec encode_verifier_registry_entry_v1 decode_verifier_registry_entry_v1 e1_ok POOL_V1_VERIFIER_ENTRY_BYTES
proof (rule image_codecI [where check = validate_verifier_registry_entry_v1 and img = verifier_registry_entry_v1_image
      and cs = "[4, 5, 6, 7, 8, 40, 72, 104, 136, 144, 152, 184, 192]"])
  fix e assume "e1_ok e"
  from entry_v1_image_fields [OF this] show "length (verifier_registry_entry_v1_image e) = POOL_V1_VERIFIER_ENTRY_BYTES"
    "validate_verifier_registry_entry_v1 e = Inr () \<Longrightarrow> decode_verifier_registry_entry_v1 (verifier_registry_entry_v1_image e) = Inr e"
    by (cases e; simp add: decode_verifier_registry_entry_v1_def Let_def layout_defs)+
next
  fix b e assume dec: "decode_verifier_registry_entry_v1 b = Inr e"
  then show "length b = POOL_V1_VERIFIER_ENTRY_BYTES \<and> e1_ok e \<and> validate_verifier_registry_entry_v1 e = Inr ()"
    by (auto simp: decode_verifier_registry_entry_v1_def e1_ok_def Let_def layout_defs)
  from dec have hd: "seg 0 4 b = POOL_V1_VERIFIER_ENTRY_MAGIC" "b ! 4 = POOL_V1_VERIFIER_ENTRY_VERSION" "b ! 7 = 0" "seg 184 192 b = zeros 8"
    by (auto simp: decode_verifier_registry_entry_v1_def Let_def)
  from dec have fields: "status_byte (e1_status e) = b ! 5" "e1_statement_version e = b ! 6" "e1_pool e = seg 8 40 b"
    "e1_verifier_program e = seg 40 72 b" "e1_profile_binding e = seg 72 104 b" "e1_release_binding e = seg 104 136 b"
    "e1_activation_slot e = from_le (seg 136 144 b)" "e1_retirement_slot e = from_le (seg 144 152 b)" "e1_policy_binding e = seg 152 184 b"
    by (auto simp: decode_verifier_registry_entry_v1_def Let_def)
  assume len: "length b = POOL_V1_VERIFIER_ENTRY_BYTES" and ok: "e1_ok e"
  show "agree_on [0, 4, 5, 6, 7, 8, 40, 72, 104, 136, 144, 152, 184, 192] (verifier_registry_entry_v1_image e) b"
    using entry_v1_image_fields [OF ok] hd fields len by (simp add: seg_one layout_defs)
qed (simp_all add: layout_defs encode_verifier_registry_entry_v1_def)

lemma registry_v2_image_fields:
  assumes "r2_ok r"
  shows "length (verifier_registry_v2_image r) = POOL_V1_VERIFIER_REGISTRY_V2_BYTES"
    "seg 0 4 (verifier_registry_v2_image r) = POOL_V1_VERIFIER_REGISTRY_V2_MAGIC"
    "verifier_registry_v2_image r ! 4 = POOL_V1_VERIFIER_REGISTRY_V2_VERSION"
    "verifier_registry_v2_image r ! 5 = r2_flags r"
    "verifier_registry_v2_image r ! 6 = POOL_V1_VERIFIER_DEPLOYMENT_MODE_IMMUTABLE_LOADER_V3"
    "verifier_registry_v2_image r ! 7 = 0"
    "seg 8 40 (verifier_registry_v2_image r) = r2_pool r"
    "seg 40 72 (verifier_registry_v2_image r) = r2_authority r"
    "seg 72 104 (verifier_registry_v2_image r) = r2_policy_binding r"
    "seg 104 112 (verifier_registry_v2_image r) = to_le 8 (r2_generation r)"
    "seg 112 120 (verifier_registry_v2_image r) = to_le 8 (r2_minimum_activation_delay_slots r)"
    "seg 120 152 (verifier_registry_v2_image r) = r2_registry_program r"
    "seg 152 184 (verifier_registry_v2_image r) = r2_loader_program r"
    "seg 184 216 (verifier_registry_v2_image r) = r2_programdata_address r"
    "seg 216 248 (verifier_registry_v2_image r) = r2_executable_hash r"
    "seg 248 256 (verifier_registry_v2_image r) = zeros 8"
  using assms by (simp_all add: verifier_registry_v2_image_def r2_ok_def Let_def layout_defs image_simps)

interpretation registry_v2_codec: image_codec encode_verifier_registry_v2 decode_verifier_registry_v2 r2_ok POOL_V1_VERIFIER_REGISTRY_V2_BYTES
proof (rule image_codecI [where check = validate_verifier_registry_v2 and img = verifier_registry_v2_image
      and cs = "[4, 5, 6, 7, 8, 40, 72, 104, 112, 120, 152, 184, 216, 248, 256]"])
  fix r assume "r2_ok r"
  from registry_v2_image_fields [OF this] show "length (verifier_registry_v2_image r) = POOL_V1_VERIFIER_REGISTRY_V2_BYTES"
    "validate_verifier_registry_v2 r = Inr () \<Longrightarrow> decode_verifier_registry_v2 (verifier_registry_v2_image r) = Inr r"
    by (cases r; simp add: decode_verifier_registry_v2_def Let_def layout_defs)+
next
  fix b r assume dec: "decode_verifier_registry_v2 b = Inr r"
  then show "length b = POOL_V1_VERIFIER_REGISTRY_V2_BYTES \<and> r2_ok r \<and> validate_verifier_registry_v2 r = Inr ()"
    by (auto simp: decode_verifier_registry_v2_def r2_ok_def Let_def layout_defs)
  from dec have hd: "seg 0 4 b = POOL_V1_VERIFIER_REGISTRY_V2_MAGIC" "b ! 4 = POOL_V1_VERIFIER_REGISTRY_V2_VERSION" "b ! 6 = POOL_V1_VERIFIER_DEPLOYMENT_MODE_IMMUTABLE_LOADER_V3" "b ! 7 = 0" "seg 248 256 b = zeros 8"
    by (auto simp: decode_verifier_registry_v2_def Let_def)
  from dec have fields: "r2_flags r = b ! 5" "r2_pool r = seg 8 40 b" "r2_authority r = seg 40 72 b"
    "r2_policy_binding r = seg 72 104 b" "r2_generation r = from_le (seg 104 112 b)" "r2_minimum_activation_delay_slots r = from_le (seg 112 120 b)"
    "r2_registry_program r = seg 120 152 b" "r2_loader_program r = seg 152 184 b" "r2_programdata_address r = seg 184 216 b"
    "r2_executable_hash r = seg 216 248 b"
    by (auto simp: decode_verifier_registry_v2_def Let_def)
  assume len: "length b = POOL_V1_VERIFIER_REGISTRY_V2_BYTES" and ok: "r2_ok r"
  show "agree_on [0, 4, 5, 6, 7, 8, 40, 72, 104, 112, 120, 152, 184, 216, 248, 256] (verifier_registry_v2_image r) b"
    using registry_v2_image_fields [OF ok] hd fields len by (simp add: seg_one layout_defs)
qed (simp_all add: layout_defs encode_verifier_registry_v2_def)

lemma entry_v2_image_fields:
  assumes "e2_ok e"
  shows "length (verifier_registry_entry_v2_image e) = POOL_V1_VERIFIER_ENTRY_V2_BYTES"
    "seg 0 4 (verifier_registry_entry_v2_image e) = POOL_V1_VERIFIER_ENTRY_V2_MAGIC"
    "verifier_registry_entry_v2_image e ! 4 = POOL_V1_VERIFIER_ENTRY_V2_VERSION"
    "verifier_registry_entry_v2_image e ! 5 = status_byte (e2_status e)"
    "verifier_registry_entry_v2_image e ! 6 = e2_statement_version e"
    "verifier_registry_entry_v2_image e ! 7 = POOL_V1_VERIFIER_DEPLOYMENT_MODE_IMMUTABLE_LOADER_V3"
    "seg 8 40 (verifier_registry_entry_v2_image e) = e2_pool e"
    "seg 40 72 (verifier_registry_entry_v2_image e) = e2_verifier_program e"
    "seg 72 104 (verifier_registry_entry_v2_image e) = e2_profile_binding e"
    "seg 104 136 (verifier_registry_entry_v2_image e) = e2_release_binding e"
    "seg 136 168 (verifier_registry_entry_v2_image e) = e2_loader_program e"
    "seg 168 200 (verifier_registry_entry_v2_image e) = e2_programdata_address e"
    "seg 200 232 (verifier_registry_entry_v2_image e) = e2_executable_hash e"
    "seg 232 264 (verifier_registry_entry_v2_image e) = e2_expected_upgrade_authority e"
    "seg 264 272 (verifier_registry_entry_v2_image e) = to_le 8 (e2_activation_slot e)"
    "seg 272 280 (verifier_registry_entry_v2_image e) = to_le 8 (e2_retirement_slot e)"
    "seg 280 312 (verifier_registry_entry_v2_image e) = e2_policy_binding e"
    "seg 312 320 (verifier_registry_entry_v2_image e) = zeros 8"
  using assms by (simp_all add: verifier_registry_entry_v2_image_def e2_ok_def Let_def layout_defs image_simps)

interpretation entry_v2_codec: image_codec encode_verifier_registry_entry_v2 decode_verifier_registry_entry_v2 e2_ok POOL_V1_VERIFIER_ENTRY_V2_BYTES
proof (rule image_codecI [where check = validate_verifier_registry_entry_v2 and img = verifier_registry_entry_v2_image
      and cs = "[4, 5, 6, 7, 8, 40, 72, 104, 136, 168, 200, 232, 264, 272, 280, 312, 320]"])
  fix e assume "e2_ok e"
  from entry_v2_image_fields [OF this] show "length (verifier_registry_entry_v2_image e) = POOL_V1_VERIFIER_ENTRY_V2_BYTES"
    "validate_verifier_registry_entry_v2 e = Inr () \<Longrightarrow> decode_verifier_registry_entry_v2 (verifier_registry_entry_v2_image e) = Inr e"
    by (cases e; simp add: decode_verifier_registry_entry_v2_def Let_def layout_defs)+
next
  fix b e assume dec: "decode_verifier_registry_entry_v2 b = Inr e"
  then show "length b = POOL_V1_VERIFIER_ENTRY_V2_BYTES \<and> e2_ok e \<and> validate_verifier_registry_entry_v2 e = Inr ()"
    by (auto simp: decode_verifier_registry_entry_v2_def e2_ok_def Let_def layout_defs)
  from dec have hd: "seg 0 4 b = POOL_V1_VERIFIER_ENTRY_V2_MAGIC" "b ! 4 = POOL_V1_VERIFIER_ENTRY_V2_VERSION"
    "b ! 7 = POOL_V1_VERIFIER_DEPLOYMENT_MODE_IMMUTABLE_LOADER_V3" "seg 312 320 b = zeros 8"
    and st: "status_byte (e2_status e) = b ! 5" "e2_statement_version e = b ! 6"
    by (auto simp: decode_verifier_registry_entry_v2_def Let_def)
  from dec have bindings: "e2_pool e = seg 8 40 b" "e2_verifier_program e = seg 40 72 b" "e2_profile_binding e = seg 72 104 b"
    "e2_release_binding e = seg 104 136 b" "e2_loader_program e = seg 136 168 b" "e2_programdata_address e = seg 168 200 b"
    "e2_executable_hash e = seg 200 232 b" "e2_expected_upgrade_authority e = seg 232 264 b" "e2_policy_binding e = seg 280 312 b"
    "e2_activation_slot e = from_le (seg 264 272 b)" "e2_retirement_slot e = from_le (seg 272 280 b)"
    by (auto simp: decode_verifier_registry_entry_v2_def Let_def)
  assume len: "length b = POOL_V1_VERIFIER_ENTRY_V2_BYTES" and ok: "e2_ok e"
  show "agree_on [0, 4, 5, 6, 7, 8, 40, 72, 104, 136, 168, 200, 232, 264, 272, 280, 312, 320] (verifier_registry_entry_v2_image e) b"
    using entry_v2_image_fields [OF ok] hd st bindings len by (simp add: seg_one layout_defs)
qed (simp_all add: layout_defs encode_verifier_registry_entry_v2_def)

end
