(* ===== verification/Runtime.thy ===== *)
theory Runtime
  imports Prelude
begin

text \<open>
  What the on-chain programs see of the Solana runtime: accounts, program errors, and the functions they call
  outside the repository (address derivation, SHA-256, the loader state codec, rent, clock and the system
  program), collected in the record \<open>solana\<close> that is a parameter of every definition using them.
\<close>

section \<open>Accounts\<close>

record account =
  ac_key :: bytes
  ac_is_signer :: bool
  ac_is_writable :: bool
  ac_executable :: bool
  ac_owner :: bytes
  ac_lamports :: u64
  ac_data :: bytes

text \<open>
  The errors a program returns: a code of its own, the runtime errors the two programs name, and every other
  runtime error by its code.
\<close>

datatype program_error =
  Custom u32
  | InvalidArgument | InvalidInstructionData | InvalidAccountData | InsufficientFunds | IncorrectProgramId
  | NotEnoughAccountKeys | InvalidSeeds
  | Builtin u64

section \<open>The environment\<close>

text \<open>The states of the upgradeable loader and the system instructions the program builds.\<close>

datatype loader_state =
  LoaderUninitialized
  | LoaderBuffer "bytes option"
  | LoaderProgram bytes
  | LoaderProgramData u64 "bytes option"

datatype system_instruction =
  CreateAccount bytes bytes u64 u64 bytes
  | Transfer bytes bytes u64
  | Allocate bytes u64
  | Assign bytes bytes

type_synonym infos = "account \<times> account \<times> account"

record solana =
  find_program_address :: "bytes list \<Rightarrow> bytes \<Rightarrow> bytes \<times> u8"
  sha256 :: "bytes \<Rightarrow> bytes"
  loader_deserialize :: "bytes \<Rightarrow> loader_state option"
  size_of_program :: nat
  size_of_programdata_metadata :: nat
  rent_get :: "program_error + (nat \<Rightarrow> u64)"
  clock_get :: "program_error + u64"
  system_program_id :: bytes
  native_loader_id :: bytes
  bpf_loader_id :: bytes
  bpf_loader_upgradeable_id :: bytes
  loader_v4_id :: bytes
  cpi_invoke :: "system_instruction \<Rightarrow> infos \<Rightarrow> program_error + infos"
  cpi_invoke_signed :: "system_instruction \<Rightarrow> infos \<Rightarrow> bytes list list \<Rightarrow> program_error + infos"

end
