(* ===== verification/PoolState.thy ===== *)
theory PoolState
  imports EmptyRoots VerifierRegistry Runtime
begin

text \<open>
  The pool state account of \<open>programs/aspis-pool/src/state.rs\<close>: one 1000-byte image with a header, the pool
  identity, the verifier policy and the note tree. Two decoders read it: the full one recomputes the depth-20
  root, the other one checks everything except that relation and trusts the writes of the program for it. The
  theory shows that both accept images of the one encoder only and that the relation between root and frontier
  is the only difference.
\<close>

section \<open>Errors\<close>

datatype pool_v1_program_error =
  InvalidAccountType | InvalidRootPageAddress | StateHistoryMismatch | PoolTreeFull | InsufficientTreeCapacity
  | UnexpectedRootPage | NonCanonicalLeaf | ArithmeticOverflow | InvalidPoolStateAddress
  | InvalidVerifierRegistryAddress | InvalidVerifierEntryAddress | InvalidVerifierRegistry
  | InvalidVerifierEntry | VerifierRegistryPaused | VerifierEntryInactive | VerifierEntryNotActiveYet
  | VerifierEntryRetired | VerifierSelectionMismatch | InvalidTokenProgram | InvalidMint | InvalidTokenAccount
  | InvalidVaultAuthority | InvalidVaultTokenAddress | InvalidDepositAmount | InsufficientDepositFunds
  | UnsupportedTokenConfiguration | InvalidEncryptedNotePayload | TokenBalanceDeltaMismatch
  | InvalidSourceAuthority | InvalidHistoricalAnchorEnvelope | HistoricalAnchorIdentityMismatch
  | HistoricalAnchorSelectionMismatch | HistoricalAnchorInFuture | InvalidHistoricalAnchorPage
  | HistoricalAnchorRootMismatch | InvalidNullifierMarkerAddress | InvalidNullifierMarkerAccount
  | NullifierAlreadyConsumed | InvalidVerifierProgramAccount | InvalidVerifierProofAccount
  | VerifierProofBindingMismatch | InvalidVerifierDispatchEnvelope | VerifierDispatchIdentityMismatch
  | InvalidVerifierReturnProgram | InvalidVerifierReturnData | VerifierResultBindingMismatch
  | MissingVerifierReturnData | InvalidWithdrawalAmount | InsufficientVaultFunds
  | InvalidDestinationTokenAccount | PoolInvalidSystemProgram | PoolInvalidPayer | PoolInvalidFreshAccount
  | CpiInvocationForbidden

definition pool_error_code :: "pool_v1_program_error \<Rightarrow> u32" where
  "pool_error_code e = (case e of
     InvalidAccountType \<Rightarrow> 0x41532001 | InvalidRootPageAddress \<Rightarrow> 0x41532002
     | StateHistoryMismatch \<Rightarrow> 0x41532003 | PoolTreeFull \<Rightarrow> 0x41532004
     | InsufficientTreeCapacity \<Rightarrow> 0x41532005 | UnexpectedRootPage \<Rightarrow> 0x41532006
     | NonCanonicalLeaf \<Rightarrow> 0x41532007 | ArithmeticOverflow \<Rightarrow> 0x41532008
     | InvalidPoolStateAddress \<Rightarrow> 0x41532009 | InvalidVerifierRegistryAddress \<Rightarrow> 0x4153200A
     | InvalidVerifierEntryAddress \<Rightarrow> 0x4153200B | InvalidVerifierRegistry \<Rightarrow> 0x4153200C
     | InvalidVerifierEntry \<Rightarrow> 0x4153200D | VerifierRegistryPaused \<Rightarrow> 0x4153200E
     | VerifierEntryInactive \<Rightarrow> 0x4153200F | VerifierEntryNotActiveYet \<Rightarrow> 0x41532010
     | VerifierEntryRetired \<Rightarrow> 0x41532011 | VerifierSelectionMismatch \<Rightarrow> 0x41532012
     | InvalidTokenProgram \<Rightarrow> 0x41532013 | InvalidMint \<Rightarrow> 0x41532014
     | InvalidTokenAccount \<Rightarrow> 0x41532015 | InvalidVaultAuthority \<Rightarrow> 0x41532016
     | InvalidVaultTokenAddress \<Rightarrow> 0x41532017 | InvalidDepositAmount \<Rightarrow> 0x41532018
     | InsufficientDepositFunds \<Rightarrow> 0x41532019 | UnsupportedTokenConfiguration \<Rightarrow> 0x4153201A
     | InvalidEncryptedNotePayload \<Rightarrow> 0x4153201B | TokenBalanceDeltaMismatch \<Rightarrow> 0x4153201C
     | InvalidSourceAuthority \<Rightarrow> 0x4153201D | InvalidHistoricalAnchorEnvelope \<Rightarrow> 0x4153201E
     | HistoricalAnchorIdentityMismatch \<Rightarrow> 0x4153201F | HistoricalAnchorSelectionMismatch \<Rightarrow> 0x41532020
     | HistoricalAnchorInFuture \<Rightarrow> 0x41532021 | InvalidHistoricalAnchorPage \<Rightarrow> 0x41532022
     | HistoricalAnchorRootMismatch \<Rightarrow> 0x41532023 | InvalidNullifierMarkerAddress \<Rightarrow> 0x41532024
     | InvalidNullifierMarkerAccount \<Rightarrow> 0x41532025 | NullifierAlreadyConsumed \<Rightarrow> 0x41532026
     | InvalidVerifierProgramAccount \<Rightarrow> 0x41532027 | InvalidVerifierProofAccount \<Rightarrow> 0x41532028
     | VerifierProofBindingMismatch \<Rightarrow> 0x41532029 | InvalidVerifierDispatchEnvelope \<Rightarrow> 0x4153202A
     | VerifierDispatchIdentityMismatch \<Rightarrow> 0x4153202B | InvalidVerifierReturnProgram \<Rightarrow> 0x4153202C
     | InvalidVerifierReturnData \<Rightarrow> 0x4153202D | VerifierResultBindingMismatch \<Rightarrow> 0x4153202E
     | MissingVerifierReturnData \<Rightarrow> 0x4153202F | InvalidWithdrawalAmount \<Rightarrow> 0x41532030
     | InsufficientVaultFunds \<Rightarrow> 0x41532031 | InvalidDestinationTokenAccount \<Rightarrow> 0x41532032
     | PoolInvalidSystemProgram \<Rightarrow> 0x41532033 | PoolInvalidPayer \<Rightarrow> 0x41532034
     | PoolInvalidFreshAccount \<Rightarrow> 0x41532035 | CpiInvocationForbidden \<Rightarrow> 0x41532036)"

definition pool_error :: "pool_v1_program_error \<Rightarrow> program_error" where
  "pool_error e = Custom (pool_error_code e)"

definition pool_fail :: "pool_v1_program_error \<Rightarrow> program_error + 'a" where
  "pool_fail e = Inl (pool_error e)"

section \<open>Constants\<close>

definition POOL_V1_ROOT_HISTORY_VERSION :: u8 where [layout_defs]: "POOL_V1_ROOT_HISTORY_VERSION = 1"

definition POOL_V1_FORMAT_BINDING :: bytes where
  "POOL_V1_FORMAT_BINDING =
    [0x41, 0x53, 0x50, 0x50, 0x4F, 0x4F, 0x4C, 0x31, POOL_V1_FORMAT_VERSION, POOL_V1_NOTE_COMMITMENT_VERSION,
     POOL_V1_NULLIFIER_FORMAT_VERSION, POOL_V1_TREE_HASH_VERSION, POOL_V1_DIGEST_ENCODING_VERSION,
     of_nat POOL_V1_TREE_DEPTH, 8, POOL_V1_IDENTITY_VERSION, POOL_V1_VERIFIER_POLICY_VERSION,
     POOL_V1_VERIFIER_REGISTRY_VERSION, POOL_V1_VERIFIER_ENTRY_VERSION, 1, POOL_V1_ROOT_HISTORY_VERSION,
     0, 0, 0, 0, 0, 0, 0, 0, 0, 0, 0]"

definition LEGACY_SPL_TOKEN_PROGRAM_ID :: bytes where
  "LEGACY_SPL_TOKEN_PROGRAM_ID =
    [0x06, 0xDD, 0xF6, 0xE1, 0xD7, 0x65, 0xA1, 0x93, 0xD9, 0xCB, 0xE1, 0x46, 0xCE, 0xEB, 0x79, 0xAC,
     0x1C, 0xB4, 0x85, 0xED, 0x5F, 0x5B, 0x37, 0x91, 0x3A, 0x8C, 0xF5, 0x85, 0x7E, 0xFF, 0x00, 0xA9]"

definition POOL_V1_STATE_ACCOUNT_MAGIC :: bytes where [layout_defs]: "POOL_V1_STATE_ACCOUNT_MAGIC = [0x41, 0x53, 0x50, 0x4B]"
definition POOL_V1_STATE_ACCOUNT_VERSION :: u8 where [layout_defs]: "POOL_V1_STATE_ACCOUNT_VERSION = 2"
definition POOL_V1_STATE_SEED :: bytes where
  "POOL_V1_STATE_SEED = [0x61, 0x73, 0x70, 0x69, 0x73, 0x2D, 0x70, 0x6F, 0x6F, 0x6C, 0x2D, 0x73, 0x74, 0x61,
     0x74, 0x65, 0x2D, 0x76, 0x31]"
definition POOL_V1_STATE_HEADER_BYTES :: nat where [layout_defs]: "POOL_V1_STATE_HEADER_BYTES = 64"
definition POOL_V1_STATE_IDENTITY_OFFSET :: nat where [layout_defs]: "POOL_V1_STATE_IDENTITY_OFFSET = POOL_V1_STATE_HEADER_BYTES"
definition POOL_V1_STATE_POLICY_OFFSET :: nat where [layout_defs]:
  "POOL_V1_STATE_POLICY_OFFSET = POOL_V1_STATE_IDENTITY_OFFSET + POOL_V1_IDENTITY_BYTES"
definition POOL_V1_STATE_TREE_OFFSET :: nat where [layout_defs]:
  "POOL_V1_STATE_TREE_OFFSET = POOL_V1_STATE_POLICY_OFFSET + POOL_V1_VERIFIER_POLICY_BYTES"
definition POOL_V1_STATE_ACCOUNT_BYTES :: nat where [layout_defs]:
  "POOL_V1_STATE_ACCOUNT_BYTES = POOL_V1_STATE_TREE_OFFSET + POOL_V1_TREE_STATE_ACCOUNT_BYTES"
definition STATE_SEQUENCE_OFFSET :: nat where [layout_defs]: "STATE_SEQUENCE_OFFSET = 40"
definition STATE_PAGE_OFFSET :: nat where [layout_defs]: "STATE_PAGE_OFFSET = 48"
definition STATE_SLOT_OFFSET :: nat where [layout_defs]: "STATE_SLOT_OFFSET = 56"

definition exact_state_array :: "nat \<Rightarrow> bytes \<Rightarrow> program_error + bytes" where
  "exact_state_array n bytes = (if length bytes = n then Inr bytes else Inl InvalidAccountData)"

definition pool_v1_state_address :: "solana \<Rightarrow> bytes \<Rightarrow> bytes \<Rightarrow> bytes \<times> u8" where
  "pool_v1_state_address env program_id asset_mint =
     find_program_address env [POOL_V1_STATE_SEED, asset_mint] program_id"

section \<open>State\<close>

record pool_initialization =
  pi_asset_mint :: bytes
  pi_token_program :: bytes
  pi_asset_id :: m31
  pi_deployment_domain :: bytes
  pi_verifier_policy :: verifier_policy

record pool_state =
  ps_identity :: pool_identity
  ps_verifier_policy :: verifier_policy
  ps_tree :: incremental_merkle_tree

datatype canonical_tree_evidence = Reconstructed validated_merkle_tree | ProgramInvariant

record canonical_pool_state =
  cp_program_id :: bytes
  cp_pool :: bytes
  cp_state :: pool_state
  cp_tree_evidence :: canonical_tree_evidence

definition current_root_sequence :: "pool_state \<Rightarrow> u64" where
  "current_root_sequence s = next_leaf_index (ps_tree s)"

definition pool_genesis :: "bytes \<Rightarrow> pool_initialization \<Rightarrow> program_error + pool_state" where
  "pool_genesis pool initialization =
     (if M31_P \<le> limb (pi_asset_id initialization) then Inl InvalidInstructionData
      else if pi_token_program initialization \<noteq> LEGACY_SPL_TOKEN_PROGRAM_ID then pool_fail InvalidTokenProgram
      else bindE (map_err (\<lambda>_. InvalidInstructionData)
                   (validate_verifier_policy_v1 (pi_verifier_policy initialization))) (\<lambda>_.
        let tree = \<lparr> next_leaf_index = 0, tree_root = POOL_V1_EMPTY_ROOTS ! POOL_V1_TREE_DEPTH,
                     frontier = map (\<lambda>level. POOL_V1_EMPTY_ROOTS ! level) [0..<POOL_V1_TREE_DEPTH] \<rparr>
        in Inr \<lparr> ps_identity = \<lparr> id_pool = pool, id_asset_mint = pi_asset_mint initialization,
                    id_token_program = pi_token_program initialization, id_asset_id = pi_asset_id initialization,
                    id_deployment_domain = pi_deployment_domain initialization \<rparr>,
                  ps_verifier_policy = pi_verifier_policy initialization, ps_tree = tree \<rparr>))"

definition validate_encoding :: "pool_state \<Rightarrow> program_error + unit" where
  "validate_encoding s =
     bindE (if next_leaf_index (ps_tree s) = 0
            then if tree_root (ps_tree s) \<noteq> POOL_V1_EMPTY_ROOTS ! POOL_V1_TREE_DEPTH
                   \<or> (\<exists>(level, node) \<in> set (enumerate 0 (frontier (ps_tree s))). node \<noteq> POOL_V1_EMPTY_ROOTS ! level)
                 then Inl InvalidAccountData else Inr ()
            else map_err (\<lambda>_. InvalidAccountData) (validate_with_empty_roots (ps_tree s) POOL_V1_EMPTY_ROOTS))
       (\<lambda>_. map_err (\<lambda>_. InvalidAccountData) (validate_verifier_policy_v1 (ps_verifier_policy s)))"

definition write_encoding_prevalidated :: "pool_state \<Rightarrow> bytes" where
  "write_encoding_prevalidated s =
     (let output = zeros POOL_V1_STATE_ACCOUNT_BYTES;
          output = put 0 POOL_V1_STATE_ACCOUNT_MAGIC output;
          output = output[4 := POOL_V1_STATE_ACCOUNT_VERSION];
          output = output[5 := POOL_V1_FORMAT_VERSION];
          output = output[6 := of_nat POOL_V1_TREE_DEPTH];
          output = output[7 := POOL_V1_ROOT_HISTORY_CAPACITY_LOG2];
          output = put 8 POOL_V1_FORMAT_BINDING output;
          sequence = current_root_sequence s;
          location = root_history_location sequence;
          output = put STATE_SEQUENCE_OFFSET (to_le 8 sequence) output;
          output = put STATE_PAGE_OFFSET (to_le 8 (loc_page_number location)) output;
          output = put STATE_SLOT_OFFSET (to_le 2 (loc_slot location)) output;
          output = put POOL_V1_STATE_IDENTITY_OFFSET (encode_pool_identity_v1 (ps_identity s)) output;
          policy = seg POOL_V1_STATE_POLICY_OFFSET POOL_V1_STATE_TREE_OFFSET output;
          policy = put 0 POOL_V1_VERIFIER_POLICY_MAGIC policy;
          policy = policy[4 := POOL_V1_VERIFIER_POLICY_VERSION];
          policy = policy[5 := vp_flags (ps_verifier_policy s)];
          policy = put 8 (vp_registry_program (ps_verifier_policy s)) policy;
          policy = put 40 (vp_registry_authority (ps_verifier_policy s)) policy;
          policy = put 72 (vp_policy_binding (ps_verifier_policy s)) policy;
          output = put POOL_V1_STATE_POLICY_OFFSET policy output;
          tree = drop POOL_V1_STATE_TREE_OFFSET output;
          tree = put 0 POOL_V1_TREE_STATE_MAGIC tree;
          tree = tree[4 := POOL_V1_TREE_STATE_VERSION];
          tree = tree[5 := of_nat POOL_V1_TREE_DEPTH];
          tree = tree[6 := POOL_V1_TREE_HASH_VERSION];
          tree = tree[7 := POOL_V1_DIGEST_ENCODING_VERSION];
          tree = put 8 (to_le 8 (next_leaf_index (ps_tree s))) tree;
          tree = put 16 (encode_digest_canonical (tree_root (ps_tree s))) tree;
          tree = put_each 48 32 encode_digest_canonical (frontier (ps_tree s)) tree
      in put POOL_V1_STATE_TREE_OFFSET tree output)"

definition state_encode :: "pool_state \<Rightarrow> program_error + bytes" where
  "state_encode s = bindE (validate_encoding s) (\<lambda>_. Inr (write_encoding_prevalidated s))"

section \<open>Decoders\<close>

definition state_header_rejected :: "bytes \<Rightarrow> bool" where
  "state_header_rejected data \<longleftrightarrow>
     length data \<noteq> POOL_V1_STATE_ACCOUNT_BYTES \<or> seg 0 4 data \<noteq> POOL_V1_STATE_ACCOUNT_MAGIC
     \<or> data ! 4 \<noteq> POOL_V1_STATE_ACCOUNT_VERSION \<or> data ! 5 \<noteq> POOL_V1_FORMAT_VERSION
     \<or> data ! 6 \<noteq> of_nat POOL_V1_TREE_DEPTH \<or> data ! 7 \<noteq> POOL_V1_ROOT_HISTORY_CAPACITY_LOG2
     \<or> seg 8 40 data \<noteq> POOL_V1_FORMAT_BINDING \<or> seg 58 64 data \<noteq> zeros 6"

definition check_state_cursor :: "bytes \<Rightarrow> incremental_merkle_tree \<Rightarrow> program_error + unit" where
  "check_state_cursor data tree =
     bindE (exact_state_array 8 (seg STATE_SEQUENCE_OFFSET STATE_PAGE_OFFSET data)) (\<lambda>sequence.
     bindE (exact_state_array 8 (seg STATE_PAGE_OFFSET STATE_SLOT_OFFSET data)) (\<lambda>page_number.
     bindE (exact_state_array 2 (seg STATE_SLOT_OFFSET 58 data)) (\<lambda>slot.
     let expected_location = root_history_location (next_leaf_index tree)
     in if from_le sequence \<noteq> next_leaf_index tree \<or> from_le page_number \<noteq> loc_page_number expected_location
          \<or> from_le slot \<noteq> loc_slot expected_location
        then pool_fail StateHistoryMismatch else Inr ())))"

definition decode_with_validated_tree :: "bytes \<Rightarrow> bytes \<Rightarrow> program_error + pool_state \<times> validated_merkle_tree" where
  "decode_with_validated_tree data expected_pool =
     (if state_header_rejected data then pool_fail InvalidAccountType
      else bindE (map_err (\<lambda>_. InvalidAccountData)
                   (decode_pool_identity_v1 (seg POOL_V1_STATE_IDENTITY_OFFSET POOL_V1_STATE_POLICY_OFFSET data))) (\<lambda>identity.
      if id_pool identity \<noteq> expected_pool then pool_fail StateHistoryMismatch
      else bindE (map_err (\<lambda>_. InvalidAccountData)
                   (decode_verifier_policy_v1 (seg POOL_V1_STATE_POLICY_OFFSET POOL_V1_STATE_TREE_OFFSET data))) (\<lambda>policy.
      bindE (map_err (\<lambda>_. InvalidAccountData)
              (validated_decode (drop POOL_V1_STATE_TREE_OFFSET data) POOL_V1_EMPTY_ROOTS)) (\<lambda>validated_tree.
      bindE (check_state_cursor data (vt_inner validated_tree)) (\<lambda>_.
      Inr (\<lparr> ps_identity = identity, ps_verifier_policy = policy, ps_tree = vt_inner validated_tree \<rparr>, validated_tree))))))"

definition decode_frontier_from_program_invariant :: "u64 \<Rightarrow> bytes \<Rightarrow> program_error + digest list" where
  "decode_frontier_from_program_invariant index tree_bytes =
     mapE (\<lambda>level.
       let start = 48 + level * 32
       in bindE (exact_state_array 32 (seg start (start + 32) tree_bytes)) (\<lambda>b.
          bindE (map_err (\<lambda>_. InvalidAccountData) (decode_digest_canonical b)) (\<lambda>node.
          if \<not> level_bit index level \<and> node \<noteq> POOL_V1_EMPTY_ROOTS ! level then Inl InvalidAccountData else Inr node)))
       [0..<POOL_V1_TREE_DEPTH]"

definition decode_tree_from_program_invariant :: "bytes \<Rightarrow> program_error + incremental_merkle_tree" where
  "decode_tree_from_program_invariant tree_bytes =
     (if length tree_bytes \<noteq> POOL_V1_TREE_STATE_ACCOUNT_BYTES \<or> seg 0 4 tree_bytes \<noteq> POOL_V1_TREE_STATE_MAGIC
        \<or> tree_bytes ! 4 \<noteq> POOL_V1_TREE_STATE_VERSION \<or> tree_bytes ! 5 \<noteq> of_nat POOL_V1_TREE_DEPTH
        \<or> tree_bytes ! 6 \<noteq> POOL_V1_TREE_HASH_VERSION \<or> tree_bytes ! 7 \<noteq> POOL_V1_DIGEST_ENCODING_VERSION
      then Inl InvalidAccountData
      else bindE (exact_state_array 8 (seg 8 16 tree_bytes)) (\<lambda>index.
      if POOL_V1_LEAF_CAPACITY < from_le index then Inl InvalidAccountData
      else bindE (exact_state_array 32 (seg 16 48 tree_bytes)) (\<lambda>root.
      bindE (map_err (\<lambda>_. InvalidAccountData) (decode_digest_canonical root)) (\<lambda>root.
      bindE (decode_frontier_from_program_invariant (from_le index) tree_bytes) (\<lambda>nodes.
      if from_le index = (0 :: u64) \<and> root \<noteq> POOL_V1_EMPTY_ROOTS ! POOL_V1_TREE_DEPTH then Inl InvalidAccountData
      else Inr \<lparr> next_leaf_index = from_le index, tree_root = root, frontier = nodes \<rparr>)))))"

definition decode_from_program_invariant :: "bytes \<Rightarrow> bytes \<Rightarrow> program_error + pool_state" where
  "decode_from_program_invariant data expected_pool =
     (if state_header_rejected data then pool_fail InvalidAccountType
      else bindE (map_err (\<lambda>_. InvalidAccountData)
                   (decode_pool_identity_v1 (seg POOL_V1_STATE_IDENTITY_OFFSET POOL_V1_STATE_POLICY_OFFSET data))) (\<lambda>identity.
      if id_pool identity \<noteq> expected_pool then pool_fail StateHistoryMismatch
      else bindE (map_err (\<lambda>_. InvalidAccountData)
                   (decode_verifier_policy_v1 (seg POOL_V1_STATE_POLICY_OFFSET POOL_V1_STATE_TREE_OFFSET data))) (\<lambda>policy.
      bindE (decode_tree_from_program_invariant (drop POOL_V1_STATE_TREE_OFFSET data)) (\<lambda>tree.
      bindE (check_state_cursor data tree) (\<lambda>_.
      Inr \<lparr> ps_identity = identity, ps_verifier_policy = policy, ps_tree = tree \<rparr>)))))"

definition state_decode :: "bytes \<Rightarrow> bytes \<Rightarrow> program_error + pool_state" where
  "state_decode data expected_pool = bindE (decode_with_validated_tree data expected_pool) (\<lambda>(state, _). Inr state)"

section \<open>The canonical account token\<close>

definition require_program_account :: "account \<Rightarrow> bytes \<Rightarrow> bool \<Rightarrow> program_error + unit" where
  "require_program_account account program_id writable =
     (if ac_owner account \<noteq> program_id then Inl IncorrectProgramId
      else if ac_executable account \<or> ac_is_writable account \<noteq> writable then Inl InvalidAccountData
      else Inr ())"

definition decode_account :: "solana \<Rightarrow> bytes \<Rightarrow> account \<Rightarrow> program_error + canonical_pool_state" where
  "decode_account env program_id pool_account =
     bindE (require_program_account pool_account program_id True) (\<lambda>_.
     if ac_is_signer pool_account then Inl InvalidAccountData
     else bindE (decode_with_validated_tree (ac_data pool_account) (ac_key pool_account)) (\<lambda>(state, validated_tree).
     if ac_key pool_account \<noteq> fst (pool_v1_state_address env program_id (id_asset_mint (ps_identity state)))
     then pool_fail InvalidPoolStateAddress
     else Inr \<lparr> cp_program_id = program_id, cp_pool = ac_key pool_account, cp_state = state,
                 cp_tree_evidence = Reconstructed validated_tree \<rparr>))"

definition decode_account_from_program_invariant :: "solana \<Rightarrow> bytes \<Rightarrow> account \<Rightarrow> program_error + canonical_pool_state" where
  "decode_account_from_program_invariant env program_id pool_account =
     bindE (require_program_account pool_account program_id True) (\<lambda>_.
     if ac_is_signer pool_account then Inl InvalidAccountData
     else bindE (decode_from_program_invariant (ac_data pool_account) (ac_key pool_account)) (\<lambda>state.
     if ac_key pool_account \<noteq> fst (pool_v1_state_address env program_id (id_asset_mint (ps_identity state)))
     then pool_fail InvalidPoolStateAddress
     else Inr \<lparr> cp_program_id = program_id, cp_pool = ac_key pool_account, cp_state = state,
                 cp_tree_evidence = ProgramInvariant \<rparr>))"

definition require_same_writable_account :: "canonical_pool_state \<Rightarrow> bytes \<Rightarrow> account \<Rightarrow> program_error + unit" where
  "require_same_writable_account c program_id pool_account =
     bindE (require_program_account pool_account program_id True) (\<lambda>_.
     if ac_is_signer pool_account \<or> cp_program_id c \<noteq> program_id \<or> cp_pool c \<noteq> ac_key pool_account
        \<or> id_pool (ps_identity (cp_state c)) \<noteq> ac_key pool_account
     then Inl InvalidAccountData else Inr ())"

definition reconstructed_tree :: "canonical_pool_state \<Rightarrow> validated_merkle_tree option" where
  "reconstructed_tree c = (case cp_tree_evidence c of Reconstructed tree \<Rightarrow> Some tree | ProgramInvariant \<Rightarrow> None)"

section \<open>Images\<close>

lemma pool_fail_simps [simp]: "pool_fail e \<noteq> Inr y" "(if c then pool_fail e else x) = Inr y \<longleftrightarrow> \<not> c \<and> x = Inr y"
  by (simp_all add: pool_fail_def)

definition state_ok :: "pool_state \<Rightarrow> bool" where
  "state_ok s \<longleftrightarrow> identity_ok (ps_identity s) \<and> policy_ok (ps_verifier_policy s) \<and> tree_ok (ps_tree s)"

lemma length_format_binding [simp]: "length POOL_V1_FORMAT_BINDING = 32"
  by (simp add: POOL_V1_FORMAT_BINDING_def)

lemma length_identity_image: "identity_ok i \<Longrightarrow> length (encode_pool_identity_v1 i) = 144"
  using identity_codec.length_enc [of i] by (simp add: layout_defs)

lemma length_policy_image: "policy_ok p \<Longrightarrow> length (verifier_policy_v1_image p) = 104"
  by (simp add: verifier_policy_v1_image_def policy_ok_def layout_defs Let_def)

lemma state_image_eq:
  assumes "state_ok s"
  shows "write_encoding_prevalidated s =
    put 312 (tree_image (ps_tree s)) (put 208 (verifier_policy_v1_image (ps_verifier_policy s))
      (put 64 (encode_pool_identity_v1 (ps_identity s))
        (put 56 (to_le 2 (loc_slot (root_history_location (current_root_sequence s))))
          (put 48 (to_le 8 (loc_page_number (root_history_location (current_root_sequence s))))
            (put 40 (to_le 8 (current_root_sequence s)) (put 8 POOL_V1_FORMAT_BINDING
              ((put 0 POOL_V1_STATE_ACCOUNT_MAGIC (zeros 1000))[4 := POOL_V1_STATE_ACCOUNT_VERSION,
                 5 := POOL_V1_FORMAT_VERSION, 6 := 20, 7 := POOL_V1_ROOT_HISTORY_CAPACITY_LOG2])))))))"
proof -
  have id: "length (encode_pool_identity_v1 (ps_identity s)) = 144"
    using assms length_identity_image by (simp add: state_ok_def)
  have policy: "length (verifier_policy_v1_image (ps_verifier_policy s)) = 104"
    using assms length_policy_image by (simp add: state_ok_def)
  let ?head = "\<lambda>out. put 64 (encode_pool_identity_v1 (ps_identity s))
        (put 56 (to_le 2 (loc_slot (root_history_location (current_root_sequence s))))
          (put 48 (to_le 8 (loc_page_number (root_history_location (current_root_sequence s))))
            (put 40 (to_le 8 (current_root_sequence s)) (put 8 POOL_V1_FORMAT_BINDING
              ((put 0 POOL_V1_STATE_ACCOUNT_MAGIC out)[4 := POOL_V1_STATE_ACCOUNT_VERSION,
                 5 := POOL_V1_FORMAT_VERSION, 6 := 20, 7 := POOL_V1_ROOT_HISTORY_CAPACITY_LOG2])))))"
  let ?out = "?head (zeros 1000)"
  have out: "length ?out = 1000" "seg 208 312 ?out = zeros 104" "seg 312 1000 ?out = zeros 688"
    using id by (simp_all add: layout_defs image_simps)
  have mid: "length (put 208 (verifier_policy_v1_image (ps_verifier_policy s)) ?out) = 1000"
    using policy out(1) by simp
  have tail: "drop 312 (put 208 (verifier_policy_v1_image (ps_verifier_policy s)) ?out) = zeros 688"
    unfolding drop_eq_seg [OF mid] using policy out by (subst seg_put_after) simp_all
  show ?thesis
    using out(2) tail
    unfolding write_encoding_prevalidated_def tree_image_def verifier_policy_v1_image_def Let_def layout_defs depth_eq
    by simp
qed

lemma state_image_fields:
  assumes "state_ok s"
  shows "length (write_encoding_prevalidated s) = 1000"
    "seg 0 4 (write_encoding_prevalidated s) = POOL_V1_STATE_ACCOUNT_MAGIC"
    "write_encoding_prevalidated s ! 4 = POOL_V1_STATE_ACCOUNT_VERSION"
    "write_encoding_prevalidated s ! 5 = POOL_V1_FORMAT_VERSION"
    "write_encoding_prevalidated s ! 6 = 20"
    "write_encoding_prevalidated s ! 7 = POOL_V1_ROOT_HISTORY_CAPACITY_LOG2"
    "seg 8 40 (write_encoding_prevalidated s) = POOL_V1_FORMAT_BINDING"
    "seg 40 48 (write_encoding_prevalidated s) = to_le 8 (current_root_sequence s)"
    "seg 48 56 (write_encoding_prevalidated s) = to_le 8 (loc_page_number (root_history_location (current_root_sequence s)))"
    "seg 56 58 (write_encoding_prevalidated s) = to_le 2 (loc_slot (root_history_location (current_root_sequence s)))"
    "seg 58 64 (write_encoding_prevalidated s) = zeros 6"
    "seg 64 208 (write_encoding_prevalidated s) = encode_pool_identity_v1 (ps_identity s)"
    "seg 208 312 (write_encoding_prevalidated s) = verifier_policy_v1_image (ps_verifier_policy s)"
    "seg 312 1000 (write_encoding_prevalidated s) = tree_image (ps_tree s)"
  using assms length_identity_image [of "ps_identity s"] length_policy_image [of "ps_verifier_policy s"]
    tree_image_fields(1) [of "ps_tree s"]
  unfolding state_image_eq [OF assms] state_ok_def by (simp_all add: layout_defs image_simps)

lemma exact_state_array_eq [simp]: "exact_state_array n b = Inr c \<longleftrightarrow> length b = n \<and> c = b"
  by (auto simp: exact_state_array_def)

definition tree_inherited :: "incremental_merkle_tree \<Rightarrow> bool" where
  "tree_inherited t \<longleftrightarrow> \<not> POOL_V1_LEAF_CAPACITY < next_leaf_index t
     \<and> (\<forall>level < 20. \<not> level_bit (next_leaf_index t) level \<longrightarrow> frontier t ! level = POOL_V1_EMPTY_ROOTS ! level)
     \<and> (next_leaf_index t = 0 \<longrightarrow> tree_root t = POOL_V1_EMPTY_ROOTS ! 20)"

lemma decode_frontier_eq:
  assumes "length b = 688"
  shows "decode_frontier_from_program_invariant index b = Inr nodes \<longleftrightarrow>
    read_each 48 32 (\<lambda>b. map_err (\<lambda>_. TNonCanonicalDigest) (decode_digest_canonical b)) 20 b = Inr nodes
    \<and> (\<forall>level < 20. \<not> level_bit index level \<longrightarrow> nodes ! level = POOL_V1_EMPTY_ROOTS ! level)"
  using assms
  by (auto simp: decode_frontier_from_program_invariant_def read_each_def mapE_eq_Inr list_all2_conv_all_nth Let_def depth_eq
      simp del: upt_Suc)

lemma decode_tree_inherited_eq:
  "decode_tree_from_program_invariant b = Inr t \<longleftrightarrow> tree_ok t \<and> tree_inherited t \<and> b = tree_image t"
proof -
  have "decode_tree_from_program_invariant b = Inr t \<longleftrightarrow> decode_tree_image_unvalidated b = Inr t \<and> tree_inherited t"
    by (auto simp: decode_tree_from_program_invariant_def decode_tree_image_unvalidated_def tree_inherited_def
        decode_frontier_eq layout_defs depth_eq)
  then show ?thesis by (auto simp: decode_tree_image_eq)
qed

lemma validate_split:
  "validate_with_empty_roots t POOL_V1_EMPTY_ROOTS = Inr () \<longleftrightarrow> tree_inherited t
     \<and> (0 < next_leaf_index t \<and> next_leaf_index t < POOL_V1_LEAF_CAPACITY \<longrightarrow>
        reconstruct_nonfull_root t POOL_V1_EMPTY_ROOTS = Inr (tree_root t))"
  by (auto simp: validate_with_empty_roots_def tree_inherited_def depth_eq word_gt_0 is_ok_iff
      reconstruct_nonfull_root_def reconstruct_nonfull_root_from_level_def)

lemma decode_identity_eq: "decode_pool_identity_v1 b = Inr i \<longleftrightarrow> identity_ok i \<and> b = encode_pool_identity_v1 i"
  using identity_codec.accepts_iff identity_codec.wf_dec by fastforce

lemma decode_policy_eq:
  "decode_verifier_policy_v1 b = Inr p \<longleftrightarrow>
     policy_ok p \<and> validate_verifier_policy_v1 p = Inr () \<and> b = verifier_policy_v1_image p"
  using policy_codec.accepts_iff [of p b] policy_codec.wf_dec [of b p] by (auto simp: encode_verifier_policy_v1_def)

lemma check_state_cursor_eq:
  assumes "length b = 1000"
  shows "check_state_cursor b t = Inr () \<longleftrightarrow> seg 40 48 b = to_le 8 (next_leaf_index t)
    \<and> seg 48 56 b = to_le 8 (loc_page_number (root_history_location (next_leaf_index t)))
    \<and> seg 56 58 b = to_le 2 (loc_slot (root_history_location (next_leaf_index t)))"
proof -
  have le8: "from_le c = (w :: u64) \<longleftrightarrow> c = to_le 8 w" if "length c = 8" for c w using that by auto
  have le2: "from_le c = (w :: u16) \<longleftrightarrow> c = to_le 2 w" if "length c = 2" for c w using that by auto
  show ?thesis using assms by (auto simp: check_state_cursor_def layout_defs Let_def le8 le2)
qed

lemma state_bytes_eq: "POOL_V1_STATE_ACCOUNT_BYTES = 1000"
  by (simp add: layout_defs)

lemma state_parts_eq:
  "\<not> state_header_rejected b \<and> decode_pool_identity_v1 (seg 64 208 b) = Inr (ps_identity s)
     \<and> decode_verifier_policy_v1 (seg 208 312 b) = Inr (ps_verifier_policy s)
     \<and> tree_ok (ps_tree s) \<and> drop 312 b = tree_image (ps_tree s) \<and> check_state_cursor b (ps_tree s) = Inr ()
   \<longleftrightarrow> state_ok s \<and> validate_verifier_policy_v1 (ps_verifier_policy s) = Inr () \<and> b = write_encoding_prevalidated s"
  (is "?L \<longleftrightarrow> ?R")
proof
  assume L: ?L
  then have len: "length b = 1000" by (simp add: state_header_rejected_def layout_defs)
  from L have ok: "state_ok s" "validate_verifier_policy_v1 (ps_verifier_policy s) = Inr ()"
    by (simp_all add: state_ok_def decode_identity_eq decode_policy_eq)
  have "write_encoding_prevalidated s = b"
  proof (rule agree_on_eq [where cs = "[4, 5, 6, 7, 8, 40, 48, 56, 58, 64, 208, 312, 1000]"])
    show "agree_on [0, 4, 5, 6, 7, 8, 40, 48, 56, 58, 64, 208, 312, 1000] (write_encoding_prevalidated s) b"
      using L len state_image_fields [OF ok(1)] unfolding drop_eq_seg [OF len]
      by (simp add: seg_one state_header_rejected_def decode_identity_eq decode_policy_eq check_state_cursor_eq
          current_root_sequence_def depth_eq state_bytes_eq)
  qed (use len state_image_fields(1) [OF ok(1)] in simp_all)
  with ok show ?R by simp
next
  assume R: ?R
  then have ok: "state_ok s" and b: "b = write_encoding_prevalidated s" by simp_all
  note f = state_image_fields [OF ok]
  show ?L
    using R f unfolding b drop_eq_seg [OF f(1)]
    by (simp add: state_header_rejected_def decode_identity_eq decode_policy_eq check_state_cursor_eq state_ok_def
        current_root_sequence_def depth_eq layout_defs)
qed

lemma decode_from_program_invariant_eq:
  "decode_from_program_invariant b pool = Inr s \<longleftrightarrow> state_ok s \<and> id_pool (ps_identity s) = pool
     \<and> validate_verifier_policy_v1 (ps_verifier_policy s) = Inr () \<and> tree_inherited (ps_tree s)
     \<and> b = write_encoding_prevalidated s"
proof -
  have "decode_from_program_invariant b pool = Inr s \<longleftrightarrow> id_pool (ps_identity s) = pool \<and> tree_inherited (ps_tree s)
     \<and> (\<not> state_header_rejected b \<and> decode_pool_identity_v1 (seg 64 208 b) = Inr (ps_identity s)
       \<and> decode_verifier_policy_v1 (seg 208 312 b) = Inr (ps_verifier_policy s)
       \<and> tree_ok (ps_tree s) \<and> drop 312 b = tree_image (ps_tree s) \<and> check_state_cursor b (ps_tree s) = Inr ())"
    by (cases s) (auto simp: decode_from_program_invariant_def layout_defs decode_tree_inherited_eq)
  then show ?thesis unfolding state_parts_eq by blast
qed

lemma validated_decode_eq:
  "validated_decode b POOL_V1_EMPTY_ROOTS = Inr v \<longleftrightarrow> vt_empty v = POOL_V1_EMPTY_ROOTS \<and> tree_ok (vt_inner v)
     \<and> validate_with_empty_roots (vt_inner v) POOL_V1_EMPTY_ROOTS = Inr () \<and> b = tree_image (vt_inner v)"
  by (cases v) (auto simp: validated_decode_def validated_from_parts_eta decode_tree_image_eq)

lemma decode_with_validated_tree_eq:
  "decode_with_validated_tree b pool = Inr (s, v) \<longleftrightarrow> state_ok s \<and> id_pool (ps_identity s) = pool
     \<and> validate_verifier_policy_v1 (ps_verifier_policy s) = Inr ()
     \<and> validate_with_empty_roots (ps_tree s) POOL_V1_EMPTY_ROOTS = Inr ()
     \<and> v = \<lparr> vt_inner = ps_tree s, vt_empty = POOL_V1_EMPTY_ROOTS \<rparr> \<and> b = write_encoding_prevalidated s"
proof -
  have "decode_with_validated_tree b pool = Inr (s, v) \<longleftrightarrow> id_pool (ps_identity s) = pool
     \<and> validate_with_empty_roots (ps_tree s) POOL_V1_EMPTY_ROOTS = Inr ()
     \<and> v = \<lparr> vt_inner = ps_tree s, vt_empty = POOL_V1_EMPTY_ROOTS \<rparr>
     \<and> (\<not> state_header_rejected b \<and> decode_pool_identity_v1 (seg 64 208 b) = Inr (ps_identity s)
       \<and> decode_verifier_policy_v1 (seg 208 312 b) = Inr (ps_verifier_policy s)
       \<and> tree_ok (ps_tree s) \<and> drop 312 b = tree_image (ps_tree s) \<and> check_state_cursor b (ps_tree s) = Inr ())"
    by (cases s; cases v)
      (auto simp: decode_with_validated_tree_def layout_defs validated_decode_eq)
  then show ?thesis unfolding state_parts_eq by blast
qed

lemma validate_encoding_eq:
  assumes "length (frontier (ps_tree s)) = 20"
  shows "validate_encoding s = Inr () \<longleftrightarrow> validate_with_empty_roots (ps_tree s) POOL_V1_EMPTY_ROOTS = Inr ()
    \<and> validate_verifier_policy_v1 (ps_verifier_policy s) = Inr ()"
proof -
  have bits: "\<not> level_bit 0 level" for level by (simp add: level_bit_def)
  have "(\<exists>(level, node) \<in> set (enumerate 0 (frontier (ps_tree s))). node \<noteq> POOL_V1_EMPTY_ROOTS ! level)
      \<longleftrightarrow> (\<exists>level < 20. frontier (ps_tree s) ! level \<noteq> POOL_V1_EMPTY_ROOTS ! level)"
    using assms by (force simp: in_set_enumerate_eq)
  then show ?thesis
    unfolding validate_encoding_def validate_split
    by (cases "next_leaf_index (ps_tree s) = 0") (simp_all add: depth_eq tree_inherited_def bits validate_split word_gt_0, blast)
qed

lemma state_decode_eq:
  "state_decode b pool = Inr s \<longleftrightarrow> state_ok s \<and> id_pool (ps_identity s) = pool \<and> validate_encoding s = Inr ()
     \<and> b = write_encoding_prevalidated s"
proof -
  have "state_decode b pool = Inr s \<longleftrightarrow> (\<exists>v. decode_with_validated_tree b pool = Inr (s, v))"
    by (auto simp: state_decode_def)
  then show ?thesis
    by (auto simp: decode_with_validated_tree_eq validate_encoding_eq state_ok_def tree_ok_def)
qed

interpretation state_codec: image_codec state_encode "\<lambda>b. state_decode b pool"
  "\<lambda>s. state_ok s \<and> id_pool (ps_identity s) = pool" POOL_V1_STATE_ACCOUNT_BYTES
  for pool
  by unfold_locales (auto simp: state_encode_def state_decode_eq state_image_fields state_bytes_eq)

text \<open>
  The decoder that trusts the program accepts a byte string with the same result as the full one exactly when
  the stored root is the root its frontier stands for; for the genesis and the full tree there is nothing left
  to trust.
\<close>

definition root_relation :: "incremental_merkle_tree \<Rightarrow> bool" where
  "root_relation t \<longleftrightarrow> (0 < next_leaf_index t \<and> next_leaf_index t < POOL_V1_LEAF_CAPACITY \<longrightarrow>
     reconstruct_nonfull_root t pool_v1_empty_roots = Inr (tree_root t))"

lemma decode_omits_root_relation:
  "state_decode b pool = Inr s \<longleftrightarrow> decode_from_program_invariant b pool = Inr s \<and> root_relation (ps_tree s)"
  unfolding state_decode_eq decode_from_program_invariant_eq
  by (auto simp: validate_encoding_eq validate_split root_relation_def pinned_empty_roots [symmetric] state_ok_def tree_ok_def)

section \<open>The token program\<close>

text \<open>The source writes the address of the token program in base 58; its bytes have the same value.\<close>

definition base58_value :: "string \<Rightarrow> int" where
  "base58_value s = fold (\<lambda>c n. 58 * n + int (length (takeWhile (\<lambda>d. d \<noteq> c)
     ''123456789ABCDEFGHJKLMNPQRSTUVWXYZabcdefghijkmnopqrstuvwxyz''))) s 0"

lemma token_program_base58:
  "base58_value ''TokenkegQfeZyiNwAJbNbGKPFXCWuBvf9Ss623VQ5DA''
     = fold (\<lambda>b n. 256 * n + uint b) LEGACY_SPL_TOKEN_PROGRAM_ID 0"
  by code_simp

section \<open>States that represent a list of leaves\<close>

lemma digest_ok_parent: "digest_ok l \<Longrightarrow> digest_ok r \<Longrightarrow> digest_ok (pool_v1_tree_parent l r)"
  using merkle_node_compress_v3_val [of l r] by (simp add: digest_ok_def pool_v1_tree_parent_def)

lemma digest_ok_subtree: "list_all digest_ok leaves \<Longrightarrow> digest_ok (subtree_root d leaves)"
proof (induction d arbitrary: leaves)
  case 0
  then show ?case by (cases leaves) simp_all
next
  case (Suc d)
  then have "list_all digest_ok (take (2 ^ d) leaves)" "list_all digest_ok (drop (2 ^ d) leaves)"
    by (auto simp: list_all_iff dest: in_set_takeD in_set_dropD)
  with Suc show ?case by (simp add: digest_ok_parent)
qed

lemma tree_ok_tree_of: "list_all digest_ok leaves \<Longrightarrow> tree_ok (tree_of leaves)"
proof -
  assume ok: "list_all digest_ok leaves"
  then have "digest_ok (block_root level offset leaves)" for level offset
    unfolding block_root_def by (intro digest_ok_subtree) (auto simp: list_all_iff dest: in_set_takeD in_set_dropD)
  with ok show ?thesis
    by (simp add: tree_ok_def tree_of_def frontier_of_def depth_eq digest_ok_subtree list_all_length)
qed

definition pool_represents :: "pool_state \<Rightarrow> digest list \<Rightarrow> bool" where
  "pool_represents s leaves \<longleftrightarrow> identity_ok (ps_identity s) \<and> policy_ok (ps_verifier_policy s)
     \<and> validate_verifier_policy_v1 (ps_verifier_policy s) = Inr ()
     \<and> list_all digest_ok leaves \<and> length leaves \<le> 2 ^ 20 \<and> ps_tree s = tree_of leaves"

lemma represents_state_ok: "pool_represents s leaves \<Longrightarrow> state_ok s"
  by (simp add: pool_represents_def state_ok_def tree_ok_tree_of)

lemma represents_decodes:
  assumes "pool_represents s leaves"
  shows "state_decode (write_encoding_prevalidated s) (id_pool (ps_identity s)) = Inr s"
    and "decode_from_program_invariant (write_encoding_prevalidated s) (id_pool (ps_identity s)) = Inr s"
proof -
  show *: "state_decode (write_encoding_prevalidated s) (id_pool (ps_identity s)) = Inr s"
    using assms represents_state_ok [OF assms] validate_tree_of [of leaves]
    by (auto simp: state_decode_eq validate_encoding_eq pool_represents_def state_ok_def tree_ok_def pinned_empty_roots)
  then show "decode_from_program_invariant (write_encoding_prevalidated s) (id_pool (ps_identity s)) = Inr s"
    using decode_omits_root_relation by blast
qed

lemma pool_genesis_represents:
  assumes "pool_genesis pool init = Inr s" "length pool = 32" "length (pi_asset_mint init) = 32"
    "length (pi_deployment_domain init) = 32" "policy_ok (pi_verifier_policy init)"
  shows "pool_represents s [] \<and> id_pool (ps_identity s) = pool \<and> id_asset_mint (ps_identity s) = pi_asset_mint init
    \<and> id_asset_id (ps_identity s) = pi_asset_id init \<and> id_token_program (ps_identity s) = LEGACY_SPL_TOKEN_PROGRAM_ID
    \<and> id_deployment_domain (ps_identity s) = pi_deployment_domain init \<and> ps_verifier_policy s = pi_verifier_policy init"
proof -
  have "length LEGACY_SPL_TOKEN_PROGRAM_ID = 32" by (simp add: LEGACY_SPL_TOKEN_PROGRAM_ID_def)
  moreover have "\<lparr> next_leaf_index = 0, tree_root = POOL_V1_EMPTY_ROOTS ! POOL_V1_TREE_DEPTH,
      frontier = map (\<lambda>level. POOL_V1_EMPTY_ROOTS ! level) [0..<POOL_V1_TREE_DEPTH] \<rparr> = tree_of []"
    unfolding tree_empty_eq [symmetric] tree_empty_def pinned_empty_roots Let_def ..
  ultimately show ?thesis
    using assms by (auto simp: pool_genesis_def pool_represents_def identity_ok_def canon_def Let_def)
qed

text \<open>The array lengths of an initialization.\<close>

definition initialization_ok :: "pool_initialization \<Rightarrow> bool" where
  "initialization_ok init \<longleftrightarrow> length (pi_asset_mint init) = 32 \<and> length (pi_deployment_domain init) = 32
     \<and> policy_ok (pi_verifier_policy init)"

end
