(* ===== verification/PoolHistory.thy ===== *)
theory PoolHistory
  imports PoolState
begin

text \<open>
  The root pages as the pool program handles them, \<open>programs/aspis-pool/src/history.rs\<close>: address and ownership
  checks, the page validator bound to a pool and a page number, the read of a retained root, and the two
  unchecked writers used after validation. The validator is shown to accept what the host validator of
  \<open>root_history.rs\<close> accepts, and each writer to produce the one image of the extended page.
\<close>

section \<open>Checks\<close>

definition POOL_V1_ROOT_HISTORY_PAGE_SEED :: bytes where
  "POOL_V1_ROOT_HISTORY_PAGE_SEED = [0x61, 0x73, 0x70, 0x69, 0x73, 0x2D, 0x70, 0x6F, 0x6F, 0x6C, 0x2D, 0x72, 0x6F, 0x6F, 0x74,
     0x2D, 0x70, 0x61, 0x67, 0x65, 0x2D, 0x76, 0x31]"
definition PAGE_POOL_OFFSET :: nat where [layout_defs]: "PAGE_POOL_OFFSET = 8"
definition PAGE_NUMBER_OFFSET :: nat where [layout_defs]: "PAGE_NUMBER_OFFSET = 40"
definition PAGE_FIRST_SEQUENCE_OFFSET :: nat where [layout_defs]: "PAGE_FIRST_SEQUENCE_OFFSET = 48"
definition PAGE_FILLED_OFFSET :: nat where [layout_defs]: "PAGE_FILLED_OFFSET = 56"
definition PAGE_ROOTS_OFFSET :: nat where [layout_defs]: "PAGE_ROOTS_OFFSET = 64"

type_synonym root_page_header = root_history_page_header

definition pool_v1_root_page_address :: "solana \<Rightarrow> bytes \<Rightarrow> bytes \<Rightarrow> u64 \<Rightarrow> bytes \<times> u8" where
  "pool_v1_root_page_address env program_id pool number =
     find_program_address env [POOL_V1_ROOT_HISTORY_PAGE_SEED, pool, to_le 8 number] program_id"

definition digest_is_canonical :: "digest \<Rightarrow> bool" where
  "digest_is_canonical digest \<longleftrightarrow> (\<forall>element \<in> set digest. limb element < M31_P)"

definition require_program_owned :: "account \<Rightarrow> bytes \<Rightarrow> program_error + unit" where
  "require_program_owned account program_id =
     (if ac_owner account \<noteq> program_id then Inl IncorrectProgramId
      else if ac_executable account then Inl InvalidAccountData
      else Inr ())"

definition require_root_page_address :: "solana \<Rightarrow> bytes \<Rightarrow> bytes \<Rightarrow> u64 \<Rightarrow> account \<Rightarrow> program_error + unit" where
  "require_root_page_address env program_id pool number account =
     (if ac_key account \<noteq> fst (pool_v1_root_page_address env program_id pool number)
      then pool_fail InvalidRootPageAddress else Inr ())"

definition page_root_at :: "bytes \<Rightarrow> nat \<Rightarrow> program_error + digest" where
  "page_root_at data slot =
     (let start = PAGE_ROOTS_OFFSET + slot * 32
      in map_err (\<lambda>_. InvalidAccountData) (decode_digest_canonical (seg start (start + 32) data)))"

definition page_header_rejected :: "bytes \<Rightarrow> bool" where
  "page_header_rejected data \<longleftrightarrow>
     length data \<noteq> POOL_V1_ROOT_HISTORY_PAGE_ACCOUNT_BYTES \<or> seg 0 4 data \<noteq> POOL_V1_ROOT_HISTORY_PAGE_MAGIC
     \<or> data ! 4 \<noteq> POOL_V1_ROOT_HISTORY_PAGE_VERSION \<or> data ! 5 \<noteq> POOL_V1_ROOT_HISTORY_CAPACITY_LOG2
     \<or> data ! 6 \<noteq> POOL_V1_DIGEST_ENCODING_VERSION \<or> data ! 7 \<noteq> 0 \<or> seg 58 64 data \<noteq> zeros 6"

definition validate_root_page_bytes_from_program_invariant ::
  "bytes \<Rightarrow> bytes \<Rightarrow> u64 \<Rightarrow> program_error + root_page_header" where
  "validate_root_page_bytes_from_program_invariant data expected_pool expected_page_number =
     (if page_header_rejected data then pool_fail InvalidAccountType
      else let pool = seg PAGE_POOL_OFFSET PAGE_NUMBER_OFFSET data;
               number = from_le (seg PAGE_NUMBER_OFFSET PAGE_FIRST_SEQUENCE_OFFSET data);
               first_sequence = from_le (seg PAGE_FIRST_SEQUENCE_OFFSET PAGE_FILLED_OFFSET data);
               filled = from_le (seg PAGE_FILLED_OFFSET 58 data)
      in bindE (ok_or (pool_error ArithmeticOverflow) (checked_mul number (of_nat POOL_V1_ROOT_HISTORY_CAPACITY)))
        (\<lambda>expected_first.
        if pool \<noteq> expected_pool \<or> number \<noteq> expected_page_number \<or> first_sequence \<noteq> expected_first
           \<or> POOL_V1_ROOT_HISTORY_CAPACITY < unat filled
        then pool_fail StateHistoryMismatch
        else Inr \<lparr> hd_pool = pool, hd_page_number = number, hd_first_sequence = first_sequence, hd_filled = filled \<rparr>))"

definition validate_root_page_bytes :: "bytes \<Rightarrow> bytes \<Rightarrow> u64 \<Rightarrow> program_error + root_page_header" where
  "validate_root_page_bytes data expected_pool expected_page_number =
     (if page_header_rejected data then pool_fail InvalidAccountType
      else let pool = seg PAGE_POOL_OFFSET PAGE_NUMBER_OFFSET data;
               number = from_le (seg PAGE_NUMBER_OFFSET PAGE_FIRST_SEQUENCE_OFFSET data);
               first_sequence = from_le (seg PAGE_FIRST_SEQUENCE_OFFSET PAGE_FILLED_OFFSET data);
               filled = from_le (seg PAGE_FILLED_OFFSET 58 data)
      in bindE (ok_or (pool_error ArithmeticOverflow) (checked_mul number (of_nat POOL_V1_ROOT_HISTORY_CAPACITY)))
        (\<lambda>expected_first.
        if pool \<noteq> expected_pool \<or> number \<noteq> expected_page_number \<or> first_sequence \<noteq> expected_first
           \<or> POOL_V1_ROOT_HISTORY_CAPACITY < unat filled
        then pool_fail StateHistoryMismatch
        else bindE (mapE (page_root_at data) [0..<unat filled]) (\<lambda>_.
          let unused_start = PAGE_ROOTS_OFFSET + unat filled * 32
          in if \<exists>byte \<in> set (drop unused_start data). byte \<noteq> 0 then Inl InvalidAccountData
             else Inr \<lparr> hd_pool = pool, hd_page_number = number, hd_first_sequence = first_sequence,
                         hd_filled = filled \<rparr>)))"

definition read_retained_root :: "bytes \<Rightarrow> root_page_header \<Rightarrow> u64 \<Rightarrow> program_error + digest" where
  "read_retained_root data header sequence =
     (let location = root_history_location sequence
      in if loc_page_number location \<noteq> hd_page_number header \<or> hd_filled header \<le> loc_slot location
         then pool_fail StateHistoryMismatch
         else page_root_at data (unat (loc_slot location)))"

section \<open>Writers\<close>

definition write_new_page_unchecked :: "bytes \<Rightarrow> bytes \<Rightarrow> u64 \<Rightarrow> u64 \<Rightarrow> digest list \<Rightarrow> bytes" where
  "write_new_page_unchecked data pool number first_sequence roots =
     (let data = zeros (length data);
          data = put 0 POOL_V1_ROOT_HISTORY_PAGE_MAGIC data;
          data = data[4 := POOL_V1_ROOT_HISTORY_PAGE_VERSION];
          data = data[5 := POOL_V1_ROOT_HISTORY_CAPACITY_LOG2];
          data = data[6 := POOL_V1_DIGEST_ENCODING_VERSION];
          data = put PAGE_POOL_OFFSET pool data;
          data = put PAGE_NUMBER_OFFSET (to_le 8 number) data;
          data = put PAGE_FIRST_SEQUENCE_OFFSET (to_le 8 first_sequence) data;
          data = put PAGE_FILLED_OFFSET (to_le 2 (of_nat (length roots) :: u16)) data
      in put_each PAGE_ROOTS_OFFSET 32 encode_digest_canonical roots data)"

definition append_roots_unchecked :: "bytes \<Rightarrow> root_page_header \<Rightarrow> digest list \<Rightarrow> bytes" where
  "append_roots_unchecked data header roots =
     (let data = put_each (PAGE_ROOTS_OFFSET + unat (hd_filled header) * 32) 32 encode_digest_canonical roots data;
          filled = hd_filled header + of_nat (length roots)
      in put PAGE_FILLED_OFFSET (to_le 2 filled) data)"

definition validate_new_page_account :: "solana \<Rightarrow> bytes \<Rightarrow> bytes \<Rightarrow> u64 \<Rightarrow> account \<Rightarrow> program_error + unit" where
  "validate_new_page_account env program_id pool number account =
     bindE (require_program_account account program_id True) (\<lambda>_.
     bindE (require_root_page_address env program_id pool number account) (\<lambda>_.
     if length (ac_data account) \<noteq> POOL_V1_ROOT_HISTORY_PAGE_ACCOUNT_BYTES \<or> (\<exists>byte \<in> set (ac_data account). byte \<noteq> 0)
     then Inl InvalidAccountData else Inr ()))"

section \<open>The validator accepts exactly the page images\<close>

lemma seg_split: "a \<le> m \<Longrightarrow> m \<le> n \<Longrightarrow> n \<le> length xs \<Longrightarrow> seg a n xs = seg a m xs @ seg m n xs"
  by (rule nth_equalityI) (auto simp: nth_append nth_seg add.commute)

lemma all_zero_iff: "(\<forall>byte \<in> set b. byte = (0 :: u8)) \<longleftrightarrow> b = zeros (length b)"
proof
  assume "b = zeros (length b)"
  then have "set b \<subseteq> {0}" by (metis set_replicate_conv_if zeros_def empty_subsetI order_refl)
  then show "\<forall>byte \<in> set b. byte = 0" by auto
qed (simp add: zeros_def replicate_length_same)

lemma digest_is_canonical_iff: "length d = 8 \<Longrightarrow> digest_is_canonical d \<longleftrightarrow> digest_ok d"
  by (simp add: digest_is_canonical_def digest_ok_def canon_def list_all_iff)

lemma page_roots_read:
  assumes "length b = 8256" "k \<le> 256"
  shows "mapE (page_root_at b) [0..<k] = Inr roots \<longleftrightarrow> length roots = k \<and> list_all digest_ok roots
    \<and> concat (map encode_digest_canonical roots) = seg 64 (64 + k * 32) b"
proof -
  have "mapE (page_root_at b) [0..<k] = read_each 64 32 (\<lambda>b. map_err (\<lambda>_. InvalidAccountData) (decode_digest_canonical b)) k b"
    by (simp add: read_each_def page_root_at_def [abs_def] Let_def layout_defs)
  then show ?thesis
    using assms by (subst \<open>mapE _ _ = _\<close>, subst read_each_eq_Inr [where ok = digest_ok and f = encode_digest_canonical])
      (auto simp: decode_digest_eq_Inr)
qed

lemma hot_page_header_eq:
  "validate_root_page_bytes_from_program_invariant b pool n = Inr h \<longleftrightarrow>
     \<not> page_header_rejected b \<and> hd_pool h = pool \<and> hd_page_number h = n
     \<and> seg 8 40 b = hd_pool h \<and> seg 40 48 b = to_le 8 (hd_page_number h) \<and> seg 48 56 b = to_le 8 (hd_first_sequence h)
     \<and> seg 56 58 b = to_le 2 (hd_filled h) \<and> unat (hd_first_sequence h) = unat (hd_page_number h) * 256
     \<and> unat (hd_filled h) \<le> 256"
proof (cases "page_header_rejected b")
  case True
  then show ?thesis by (simp add: validate_root_page_bytes_from_program_invariant_def)
next
  case False
  then have len: "length b = 8256" by (simp add: page_header_rejected_def layout_defs)
  have le8: "from_le c = (w :: u64) \<longleftrightarrow> c = to_le 8 w" if "length c = 8" for c w using that by auto
  have le2: "from_le c = (w :: u16) \<longleftrightarrow> c = to_le 2 w" if "length c = 2" for c w using that by auto
  have inj: "to_le 8 v = to_le 8 w \<longleftrightarrow> v = w" for v w :: u64 by (metis from_le_u64)
  show ?thesis
    using False len
    by (cases h) (auto simp: validate_root_page_bytes_from_program_invariant_def layout_defs checked_mul_eq_Some Let_def le8 le2 inj not_less)
qed

lemma validate_root_page_bytes_split:
  "validate_root_page_bytes b pool n = Inr h \<longleftrightarrow> validate_root_page_bytes_from_program_invariant b pool n = Inr h
     \<and> is_ok (mapE (page_root_at b) [0..<unat (hd_filled h)]) \<and> drop (64 + unat (hd_filled h) * 32) b = zeros (length b - (64 + unat (hd_filled h) * 32))"
  by (auto simp: validate_root_page_bytes_def validate_root_page_bytes_from_program_invariant_def Let_def is_ok_iff
      all_zero_iff layout_defs split: if_splits)

lemma page_image_unused:
  assumes "page_ok h roots"
  shows "drop (64 + length roots * 32) (page_image h roots) = zeros (8256 - (64 + length roots * 32))"
    and "seg 64 (64 + length roots * 32) (page_image h roots) = concat (map encode_digest_canonical roots)"
proof -
  let ?b = "page_image h roots" and ?c = "concat (map encode_digest_canonical roots)"
  have k: "length roots \<le> 256" and c: "length ?c = length roots * 32"
    using assms by (simp_all add: page_ok_def length_roots_bytes)
  have "seg 64 (64 + length roots * 32) ?b @ seg (64 + length roots * 32) 8256 ?b = ?c @ zeros ((256 - length roots) * 32)"
    using page_image_payload [OF assms] seg_split [of 64 "64 + length roots * 32" 8256 ?b] assms k
    by (simp add: concat_zero_digests)
  then show "seg 64 (64 + length roots * 32) ?b = ?c"
    and "drop (64 + length roots * 32) ?b = zeros (8256 - (64 + length roots * 32))"
    using k c assms drop_eq_seg [OF length_page_image [OF assms], of "64 + length roots * 32"]
    by (auto simp: append_eq_append_conv diff_mult_distrib)
qed

lemma validate_root_page_bytes_eq:
  "validate_root_page_bytes b pool n = Inr h \<longleftrightarrow>
     hd_pool h = pool \<and> hd_page_number h = n \<and> (\<exists>roots. page_ok h roots \<and> b = page_image h roots)"
proof
  assume L: "validate_root_page_bytes b pool n = Inr h"
  let ?k = "unat (hd_filled h)"
  from L have len: "length b = 8256" and k: "?k \<le> 256" and head: "hd_pool h = pool" "hd_page_number h = n"
    by (simp_all add: validate_root_page_bytes_split hot_page_header_eq page_header_rejected_def layout_defs)
  from L obtain roots where roots: "length roots = ?k" "list_all digest_ok roots"
      "concat (map encode_digest_canonical roots) = seg 64 (64 + ?k * 32) b"
    by (auto simp: validate_root_page_bytes_split is_ok_iff page_roots_read [OF len k])
  have "length (seg 8 40 b) = 32" using len by simp
  with L k roots have ok: "page_ok h roots"
    by (auto simp: page_ok_def validate_root_page_bytes_split hot_page_header_eq page_header_rejected_def layout_defs)
  have "page_image h roots = b"
  proof (rule agree_on_eq [where cs = "[4, 5, 6, 7, 8, 40, 48, 56, 58, 64, 64 + ?k * 32, 8256]"])
    show "agree_on [0, 4, 5, 6, 7, 8, 40, 48, 56, 58, 64, 64 + ?k * 32, 8256] (page_image h roots) b"
      using L len page_image_fields [OF ok] page_image_unused [OF ok] roots
        drop_eq_seg [OF len, of "64 + ?k * 32"] drop_eq_seg [OF length_page_image [OF ok], of "64 + ?k * 32"] ok
      by (simp add: validate_root_page_bytes_split hot_page_header_eq page_header_rejected_def seg_one
          POOL_V1_ROOT_HISTORY_PAGE_ACCOUNT_BYTES_def)
  qed (use ok len k in simp_all)
  with ok head show "hd_pool h = pool \<and> hd_page_number h = n \<and> (\<exists>roots. page_ok h roots \<and> b = page_image h roots)" by auto
next
  assume "hd_pool h = pool \<and> hd_page_number h = n \<and> (\<exists>roots. page_ok h roots \<and> b = page_image h roots)"
  then obtain roots where ok: "page_ok h roots" and b: "b = page_image h roots" "hd_pool h = pool" "hd_page_number h = n"
    by auto
  then have filled: "unat (hd_filled h) = length roots" "length roots \<le> 256" "length b = 8256" by (simp_all add: page_ok_def)
  have "mapE (page_root_at b) [0..<length roots] = Inr roots"
    using ok page_image_unused(2) [OF ok] by (subst page_roots_read) (simp_all add: b page_ok_def)
  then show "validate_root_page_bytes b pool n = Inr h"
    using ok page_image_fields [OF ok] page_image_unused(1) [OF ok] filled b
    by (simp add: validate_root_page_bytes_split hot_page_header_eq page_header_rejected_def layout_defs page_ok_def)
qed

lemma read_retained_root_eq:
  assumes "page_ok h roots"
  shows "read_retained_root (page_image h roots) h q = Inr r \<longleftrightarrow>
    unat q div 256 = unat (hd_page_number h) \<and> unat q mod 256 < length roots \<and> r = roots ! (unat q mod 256)"
proof -
  have "page_root_at (page_image h roots) i = Inr (roots ! i)" if "i < length roots" for i
    using page_slot_image [OF assms that] by (simp add: page_slot_def page_root_at_def layout_defs Let_def)
  then show ?thesis
    using assms by (auto simp: read_retained_root_def Let_def word_le_nat_alt not_le page_ok_def word_unat_eq_iff unat_div_distrib)
qed

section \<open>The writers produce page images\<close>

lemma write_new_page_eq:
  assumes "length data = 8256" "length pool = 32" "list_all digest_ok roots" "length roots \<le> 256"
    "unat first = unat n * 256"
  defines "h \<equiv> \<lparr> hd_pool = pool, hd_page_number = n, hd_first_sequence = first, hd_filled = of_nat (length roots) \<rparr>"
  shows "page_ok h roots" "write_new_page_unchecked data pool n first roots = page_image h roots"
  using assms
  by (simp_all add: page_ok_def write_new_page_unchecked_def page_image_def write_page_header_def layout_defs Let_def unat_of_nat)

lemma append_roots_eq:
  assumes "page_ok h roots" "length roots + length new \<le> 256" "list_all digest_ok new"
  shows "page_ok (h\<lparr>hd_filled := hd_filled h + of_nat (length new)\<rparr>) (roots @ new)"
    "append_roots_unchecked (page_image h roots) h new
      = page_image (h\<lparr>hd_filled := hd_filled h + of_nat (length new)\<rparr>) (roots @ new)"
proof -
  have "put_each (64 + length roots * 32) 32 encode_digest_canonical new (page_image h roots)
      = put (64 + length roots * 32) (concat (map encode_digest_canonical new)) (page_image h roots)"
    using assms by (intro put_each_eq) (auto simp: list_all_iff)
  then show "append_roots_unchecked (page_image h roots) h new
      = page_image (h\<lparr>hd_filled := hd_filled h + of_nat (length new)\<rparr>) (roots @ new)"
    using assms append_page_images(2) [OF assms] by (simp add: append_roots_unchecked_def layout_defs Let_def page_ok_def)
qed (rule append_page_images(1) [OF assms])

end
