(* ===== verification/PoolTransition.thy ===== *)
theory PoolTransition
  imports PoolHistory
begin

text \<open>
  The atomic tree and history transitions of \<open>programs/aspis-pool/src/transition.rs\<close>: initialization of the
  state account and page zero, and the authorized append of one or two leaves with the page it rolls over to.
  A transition takes the accounts it may write and returns them as it leaves them, or the error that reverts
  the instruction. The closure run before the writes (a token transfer or nothing) is its result, a parameter.
  The code refuses equal keys before it writes, so distinct arguments stand for distinct accounts.
\<close>

section \<open>Requests and sealed evidence\<close>

datatype authorized_append = AuthorizedOne digest | AuthorizedTwo digest digest

record authorized_append_receipt =
  ar_first :: append_one_receipt
  ar_second :: "append_one_receipt option"

record prevalidated_current_history =
  ph_program_id :: bytes
  ph_pool :: bytes
  ph_history_page :: bytes
  ph_sequence :: u64
  ph_root :: digest
  ph_header :: root_page_header

record prevalidated_new_history_page =
  pn_program_id :: bytes
  pn_pool :: bytes
  pn_page :: bytes
  pn_page_number :: u64

record prepared_authorized_append =
  pa_next_state :: pool_state
  pa_receipt :: authorized_append_receipt

record prepared_authorized_append_images =
  pm_next_state_image :: bytes
  pm_receipt :: authorized_append_receipt

datatype authorized_source_state = Canonical canonical_pool_state | Standalone pool_state

definition append_count :: "authorized_append \<Rightarrow> u64" where
  "append_count request = (case request of AuthorizedOne _ \<Rightarrow> 1 | AuthorizedTwo _ _ \<Rightarrow> 2)"

definition validate_leaves :: "authorized_append \<Rightarrow> program_error + unit" where
  "validate_leaves request =
     (let valid = (case request of
             AuthorizedOne leaf \<Rightarrow> digest_is_canonical leaf
           | AuthorizedTwo first second \<Rightarrow> digest_is_canonical first \<and> digest_is_canonical second)
      in if \<not> valid then pool_fail NonCanonicalLeaf else Inr ())"

definition new_page_require_matches ::
  "prevalidated_new_history_page \<Rightarrow> bytes \<Rightarrow> bytes \<Rightarrow> u64 \<Rightarrow> account \<Rightarrow> program_error + unit" where
  "new_page_require_matches e program_id pool number page =
     (if pn_program_id e \<noteq> program_id \<or> pn_pool e \<noteq> pool \<or> pn_page e \<noteq> ac_key page \<or> pn_page_number e \<noteq> number
      then pool_fail StateHistoryMismatch else Inr ())"

definition prevalidate_new_history_page_v1 ::
  "solana \<Rightarrow> bytes \<Rightarrow> bytes \<Rightarrow> u64 \<Rightarrow> account \<Rightarrow> program_error + prevalidated_new_history_page" where
  "prevalidate_new_history_page_v1 env program_id pool number page =
     bindE (validate_new_page_account env program_id pool number page) (\<lambda>_.
     Inr \<lparr> pn_program_id = program_id, pn_pool = pool, pn_page = ac_key page, pn_page_number = number \<rparr>)"

definition history_require_matches ::
  "solana \<Rightarrow> prevalidated_current_history \<Rightarrow> bytes \<Rightarrow> account \<Rightarrow> account \<Rightarrow> pool_state \<Rightarrow> program_error + root_page_header" where
  "history_require_matches env e program_id pool_account history_account state =
     bindE (require_program_owned history_account program_id) (\<lambda>_.
     let location = root_history_location (current_root_sequence state)
     in bindE (require_root_page_address env program_id (ac_key pool_account) (loc_page_number location) history_account) (\<lambda>_.
     if ph_program_id e \<noteq> program_id \<or> ph_pool e \<noteq> ac_key pool_account \<or> ph_history_page e \<noteq> ac_key history_account
        \<or> ph_sequence e \<noteq> current_root_sequence state \<or> ph_root e \<noteq> tree_root (ps_tree state)
        \<or> hd_pool (ph_header e) \<noteq> ac_key pool_account \<or> hd_page_number (ph_header e) \<noteq> loc_page_number location
        \<or> hd_filled (ph_header e) \<noteq> loc_slot location + 1
     then pool_fail StateHistoryMismatch else Inr (ph_header e)))"

section \<open>Preparing the next state\<close>

definition map_tree_error :: "tree_error \<Rightarrow> program_error" where
  "map_tree_error error = (case error of
     TreeFull \<Rightarrow> pool_error PoolTreeFull
   | InsufficientCapacity \<Rightarrow> pool_error InsufficientTreeCapacity
   | _ \<Rightarrow> InvalidAccountData)"

definition source_state :: "authorized_source_state \<Rightarrow> pool_state" where
  "source_state source = (case source of Canonical state \<Rightarrow> cp_state state | Standalone state \<Rightarrow> state)"

definition validate_inherited_state_and_cursor ::
  "prepared_authorized_append \<Rightarrow> pool_state \<Rightarrow> authorized_append \<Rightarrow> program_error + unit" where
  "validate_inherited_state_and_cursor prepared source request =
     bindE (ok_or (pool_error ArithmeticOverflow) (checked_add (current_root_sequence source) 1)) (\<lambda>first_sequence.
     bindE (ok_or (pool_error ArithmeticOverflow) (checked_add (current_root_sequence source) (append_count request))) (\<lambda>final_sequence.
     let next_state = pa_next_state prepared; receipt = pa_receipt prepared;
         receipt_shape_is_exact = (ao_leaf_index (ar_first receipt) = current_root_sequence source
           \<and> ao_root_sequence (ar_first receipt) = first_sequence
           \<and> (case (request, ar_second receipt) of
                (AuthorizedOne _, None) \<Rightarrow> ao_root (ar_first receipt) = tree_root (ps_tree next_state)
              | (AuthorizedTwo _ _, Some second) \<Rightarrow> ao_leaf_index second = first_sequence
                  \<and> ao_root_sequence second = final_sequence \<and> ao_root second = tree_root (ps_tree next_state)
              | _ \<Rightarrow> False))
     in if ps_identity next_state \<noteq> ps_identity source \<or> ps_verifier_policy next_state \<noteq> ps_verifier_policy source
           \<or> current_root_sequence next_state \<noteq> final_sequence \<or> \<not> receipt_shape_is_exact
        then Inl InvalidAccountData else Inr ()))"

definition prepare_checked_append :: "pool_state \<Rightarrow> authorized_append \<Rightarrow> program_error + prepared_authorized_append" where
  "prepare_checked_append state request =
     bindE (case request of
         AuthorizedOne leaf \<Rightarrow>
           bindE (map_err map_tree_error (append_one_with_empty_roots (ps_tree state) leaf POOL_V1_EMPTY_ROOTS)) (\<lambda>(tree, receipt).
           Inr (tree, \<lparr> ar_first = receipt, ar_second = None \<rparr>))
       | AuthorizedTwo first second \<Rightarrow>
           bindE (map_err map_tree_error (append_two_with_empty_roots (ps_tree state) first second POOL_V1_EMPTY_ROOTS)) (\<lambda>(tree, receipts).
           Inr (tree, \<lparr> ar_first = at_first receipts, ar_second = Some (at_second receipts) \<rparr>)))
     (\<lambda>(tree, receipt). Inr \<lparr> pa_next_state = state\<lparr> ps_tree := tree \<rparr>, pa_receipt = receipt \<rparr>)"

definition append_one_from_program_invariant ::
  "incremental_merkle_tree \<Rightarrow> digest \<Rightarrow> program_error + incremental_merkle_tree \<times> append_one_receipt" where
  "append_one_from_program_invariant source leaf =
     (if next_leaf_index source = POOL_V1_LEAF_CAPACITY then pool_fail PoolTreeFull
      else let leaf_index = next_leaf_index source;
               (carry_level, carry, front) = carry_loop leaf_index POOL_V1_EMPTY_ROOTS 0 leaf (frontier source)
      in bindE (ok_or (pool_error ArithmeticOverflow) (checked_add leaf_index 1)) (\<lambda>next_index.
         let (root, front) =
               (if carry_level = POOL_V1_TREE_DEPTH then (carry, front)
                else let front = front[carry_level := carry]
                     in (fold (\<lambda>level node.
                            if \<not> level_bit next_index level then pool_v1_tree_parent node (POOL_V1_EMPTY_ROOTS ! level)
                            else pool_v1_tree_parent (front ! level) node)
                          [carry_level..<POOL_V1_TREE_DEPTH] (POOL_V1_EMPTY_ROOTS ! carry_level), front))
         in Inr (\<lparr> next_leaf_index = next_index, tree_root = root, frontier = front \<rparr>,
                 \<lparr> ao_leaf_index = leaf_index, ao_root_sequence = next_index, ao_root = root,
                    ao_history = root_history_location next_index \<rparr>)))"

definition prepare_append_from_canonical_state ::
  "canonical_pool_state \<Rightarrow> authorized_append \<Rightarrow> program_error + prepared_authorized_append" where
  "prepare_append_from_canonical_state state request =
     bindE (case reconstructed_tree state of
         Some validated \<Rightarrow>
           if ps_tree (cp_state state) \<noteq> vt_inner validated then Inl InvalidAccountData
           else (case request of
               AuthorizedOne leaf \<Rightarrow>
                 bindE (map_err map_tree_error (validated_append_one validated leaf)) (\<lambda>(tree, receipt).
                 Inr (vt_inner tree, \<lparr> ar_first = receipt, ar_second = None \<rparr>))
             | AuthorizedTwo first second \<Rightarrow>
                 bindE (map_err map_tree_error (validated_append_two validated first second)) (\<lambda>(tree, receipts).
                 Inr (vt_inner tree, \<lparr> ar_first = at_first receipts, ar_second = Some (at_second receipts) \<rparr>)))
       | None \<Rightarrow> (case request of
             AuthorizedOne leaf \<Rightarrow>
               bindE (append_one_from_program_invariant (ps_tree (cp_state state)) leaf) (\<lambda>(tree, receipt).
               Inr (tree, \<lparr> ar_first = receipt, ar_second = None \<rparr>))
           | AuthorizedTwo first second \<Rightarrow>
               bindE (append_one_from_program_invariant (ps_tree (cp_state state)) first) (\<lambda>(after_first, first_receipt).
               bindE (append_one_from_program_invariant after_first second) (\<lambda>(after_second, second_receipt).
               Inr (after_second, \<lparr> ar_first = first_receipt, ar_second = Some second_receipt \<rparr>)))))
     (\<lambda>(tree, receipt). Inr \<lparr> pa_next_state = (cp_state state)\<lparr> ps_tree := tree \<rparr>, pa_receipt = receipt \<rparr>)"

definition source_prepare :: "authorized_source_state \<Rightarrow> authorized_append \<Rightarrow> program_error + prepared_authorized_append" where
  "source_prepare source request =
     bindE (case source of
         Canonical state \<Rightarrow> prepare_append_from_canonical_state state request
       | Standalone state \<Rightarrow>
           bindE (prepare_checked_append state request) (\<lambda>prepared.
           bindE (validate_encoding (pa_next_state prepared)) (\<lambda>_. Inr prepared)))
     (\<lambda>prepared. bindE (validate_inherited_state_and_cursor prepared (source_state source) request) (\<lambda>_. Inr prepared))"

definition prepare_authorized_append_images_v1 ::
  "canonical_pool_state \<Rightarrow> authorized_append \<Rightarrow> program_error + prepared_authorized_append_images" where
  "prepare_authorized_append_images_v1 state request =
     bindE (validate_leaves request) (\<lambda>_.
     bindE (source_prepare (Canonical state) request) (\<lambda>prepared.
     Inr \<lparr> pm_next_state_image = write_encoding_prevalidated (pa_next_state prepared), pm_receipt = pa_receipt prepared \<rparr>))"

section \<open>The current page\<close>

definition check_retained_current_root :: "bytes \<Rightarrow> root_page_header \<Rightarrow> pool_state \<Rightarrow> program_error + unit" where
  "check_retained_current_root data header state =
     (let sequence = current_root_sequence state
      in bindE (read_retained_root data header sequence) (\<lambda>retained.
         if retained \<noteq> tree_root (ps_tree state) then pool_fail StateHistoryMismatch
         else if sequence = POOL_V1_LEAF_CAPACITY
         then map_err map_tree_error
                (validate_terminal_root_against_history_with_empty_roots (ps_tree state) retained POOL_V1_EMPTY_ROOTS)
         else Inr ()))"

definition validate_current_history ::
  "solana \<Rightarrow> bytes \<Rightarrow> account \<Rightarrow> account \<Rightarrow> pool_state \<Rightarrow> program_error + root_page_header" where
  "validate_current_history env program_id pool_account history_account state =
     (let location = root_history_location (current_root_sequence state)
      in bindE (require_program_owned history_account program_id) (\<lambda>_.
         bindE (require_root_page_address env program_id (ac_key pool_account) (loc_page_number location) history_account) (\<lambda>_.
         bindE (validate_root_page_bytes (ac_data history_account) (ac_key pool_account) (loc_page_number location)) (\<lambda>header.
         if hd_filled header \<noteq> loc_slot location + 1 then pool_fail StateHistoryMismatch
         else bindE (check_retained_current_root (ac_data history_account) header state) (\<lambda>_. Inr header)))))"

section \<open>Initialization\<close>

definition initialize_pool_accounts_v1 ::
  "solana \<Rightarrow> bytes \<Rightarrow> account list \<Rightarrow> pool_initialization \<Rightarrow> program_error + account list" where
  "initialize_pool_accounts_v1 env program_id accounts initialization = (case accounts of
     [pool_account, page_zero_account] \<Rightarrow>
       bindE (require_program_account pool_account program_id True) (\<lambda>_.
       if ac_key pool_account \<noteq> fst (pool_v1_state_address env program_id (pi_asset_mint initialization))
       then pool_fail InvalidPoolStateAddress
       else bindE (validate_new_page_account env program_id (ac_key pool_account) 0 page_zero_account) (\<lambda>_.
       if ac_key pool_account = ac_key page_zero_account then Inl InvalidAccountData
       else if length (ac_data pool_account) \<noteq> POOL_V1_STATE_ACCOUNT_BYTES \<or> (\<exists>byte \<in> set (ac_data pool_account). byte \<noteq> 0)
       then Inl InvalidAccountData
       else bindE (pool_genesis (ac_key pool_account) initialization) (\<lambda>state.
       bindE (validate_encoding state) (\<lambda>_.
       Inr [pool_account\<lparr> ac_data := write_encoding_prevalidated state \<rparr>,
            page_zero_account\<lparr> ac_data := write_new_page_unchecked (ac_data page_zero_account) (ac_key pool_account) 0 0
              [POOL_V1_EMPTY_ROOTS ! POOL_V1_TREE_DEPTH] \<rparr>]))))
   | _ \<Rightarrow> Inl NotEnoughAccountKeys)"

section \<open>The authorized append\<close>

definition plan_next_page ::
  "solana \<Rightarrow> bytes \<Rightarrow> account \<Rightarrow> account \<Rightarrow> account option \<Rightarrow> u64 \<Rightarrow> nat \<Rightarrow> program_error + (account \<times> u64 \<times> u64) option" where
  "plan_next_page env program_id pool_account current_page_account supplied_next_page current_page_number roots_in_next =
     (case (roots_in_next \<noteq> 0, supplied_next_page) of
        (False, None) \<Rightarrow> Inr None
      | (True, Some next_account) \<Rightarrow>
          bindE (ok_or (pool_error ArithmeticOverflow) (checked_add current_page_number 1)) (\<lambda>next_page_number.
          bindE (ok_or (pool_error ArithmeticOverflow)
                  (checked_mul next_page_number (of_nat POOL_V1_ROOT_HISTORY_CAPACITY))) (\<lambda>first_sequence.
          bindE (validate_new_page_account env program_id (ac_key pool_account) next_page_number next_account) (\<lambda>_.
          if ac_key next_account = ac_key pool_account \<or> ac_key next_account = ac_key current_page_account
          then Inl InvalidAccountData
          else Inr (Some (next_account, next_page_number, first_sequence)))))
      | _ \<Rightarrow> pool_fail UnexpectedRootPage)"

definition place_roots ::
  "nat \<Rightarrow> digest \<Rightarrow> digest option \<Rightarrow> program_error + digest list \<times> digest list" where
  "place_roots roots_in_current first second =
     (let current_roots = replicate 2 (replicate DIGEST_ELEMS M31_ZERO);
          next_roots = replicate 2 (replicate DIGEST_ELEMS M31_ZERO)
      in if roots_in_current = 0
         then Inr (current_roots, (let next_roots = next_roots[0 := first]
                    in case second of None \<Rightarrow> next_roots | Some root \<Rightarrow> next_roots[1 := root]))
         else let current_roots = current_roots[0 := first]
              in if roots_in_current = 2
                 then bindE (ok_or InvalidAccountData second) (\<lambda>root. Inr (current_roots[1 := root], next_roots))
                 else Inr (current_roots, (case second of None \<Rightarrow> next_roots | Some root \<Rightarrow> next_roots[0 := root])))"

definition apply_authorized_append_after_checked_state_v1 ::
  "solana \<Rightarrow> bytes \<Rightarrow> account \<Rightarrow> account \<Rightarrow> account option \<Rightarrow> authorized_source_state \<Rightarrow> prevalidated_current_history option
     \<Rightarrow> authorized_append \<Rightarrow> program_error + unit
     \<Rightarrow> program_error + (account \<times> account \<times> account option) \<times> authorized_append_receipt" where
  "apply_authorized_append_after_checked_state_v1 env program_id pool_account current_page_account supplied_next_page
       source prevalidated_history request before_persist =
     (let state = source_state source
      in bindE (case prevalidated_history of
             Some history \<Rightarrow> history_require_matches env history program_id pool_account current_page_account state
           | None \<Rightarrow> validate_current_history env program_id pool_account current_page_account state) (\<lambda>current_header.
         let count = append_count request
         in bindE (ok_or (pool_error StateHistoryMismatch) (checked_sub POOL_V1_LEAF_CAPACITY (current_root_sequence state))) (\<lambda>remaining.
         if remaining = 0 then pool_fail PoolTreeFull
         else if remaining < count then pool_fail InsufficientTreeCapacity
         else
         let first_location = root_history_location (current_root_sequence state + 1);
             last_location = root_history_location (current_root_sequence state + count);
             current_page_number = hd_page_number current_header
         in if loc_page_number first_location < current_page_number \<or> current_page_number + 1 < loc_page_number last_location
            then pool_fail StateHistoryMismatch
            else
            let roots_in_current = (if loc_page_number first_location = current_page_number
                  then (if loc_page_number last_location = current_page_number then unat count else 1) else 0);
                roots_in_next = unat count - roots_in_current;
                mutate_current = (roots_in_current \<noteq> 0)
            in if ac_is_writable current_page_account \<noteq> mutate_current then Inl InvalidAccountData
               else bindE (plan_next_page env program_id pool_account current_page_account supplied_next_page
                       current_page_number roots_in_next) (\<lambda>next_page.
               if ac_key pool_account = ac_key current_page_account then Inl InvalidAccountData
               else bindE (source_prepare source request) (\<lambda>plan.
               bindE (place_roots roots_in_current (ao_root (ar_first (pa_receipt plan)))
                       (map_option ao_root (ar_second (pa_receipt plan)))) (\<lambda>(current_roots, next_roots).
               if POOL_V1_ROOT_HISTORY_CAPACITY < unat (hd_filled current_header) + roots_in_current
               then pool_fail StateHistoryMismatch
               else if length (ac_data pool_account) \<noteq> POOL_V1_STATE_ACCOUNT_BYTES then Inl InvalidAccountData
               else bindE before_persist (\<lambda>_.
               Inr ((pool_account\<lparr> ac_data := write_encoding_prevalidated (pa_next_state plan) \<rparr>,
                     (if mutate_current
                      then current_page_account\<lparr> ac_data := append_roots_unchecked (ac_data current_page_account)
                             current_header (take roots_in_current current_roots) \<rparr>
                      else current_page_account),
                     (case next_page of
                        Some (next_account, next_page_number, first_sequence) \<Rightarrow>
                          Some (next_account\<lparr> ac_data := write_new_page_unchecked (ac_data next_account) (ac_key pool_account)
                             next_page_number first_sequence (take roots_in_next next_roots) \<rparr>)
                      | None \<Rightarrow> supplied_next_page)),
                    pa_receipt plan))))))))"

definition split_append_accounts :: "account list \<Rightarrow> program_error + account \<times> account \<times> account option" where
  "split_append_accounts accounts = (case accounts of
     [pool_account, current] \<Rightarrow> Inr (pool_account, current, None)
   | [pool_account, current, next_account] \<Rightarrow> Inr (pool_account, current, Some next_account)
   | _ \<Rightarrow> Inl NotEnoughAccountKeys)"

definition apply_authorized_append_after_prevalidated_v1 ::
  "solana \<Rightarrow> bytes \<Rightarrow> account list \<Rightarrow> canonical_pool_state \<Rightarrow> authorized_append \<Rightarrow> program_error + unit
     \<Rightarrow> program_error + (account \<times> account \<times> account option) \<times> authorized_append_receipt" where
  "apply_authorized_append_after_prevalidated_v1 env program_id accounts state request before_persist =
     bindE (split_append_accounts accounts) (\<lambda>(pool_account, current_page_account, supplied_next_page).
     bindE (require_same_writable_account state program_id pool_account) (\<lambda>_.
     bindE (validate_leaves request) (\<lambda>_.
     apply_authorized_append_after_checked_state_v1 env program_id pool_account current_page_account supplied_next_page
       (Canonical state) None request before_persist)))"

definition apply_authorized_append_after_prevalidated_history_v1 ::
  "solana \<Rightarrow> bytes \<Rightarrow> account list \<Rightarrow> canonical_pool_state \<Rightarrow> prevalidated_current_history \<Rightarrow> authorized_append
     \<Rightarrow> program_error + unit \<Rightarrow> program_error + (account \<times> account \<times> account option) \<times> authorized_append_receipt" where
  "apply_authorized_append_after_prevalidated_history_v1 env program_id accounts state history request before_persist =
     bindE (split_append_accounts accounts) (\<lambda>(pool_account, current_page_account, supplied_next_page).
     bindE (require_same_writable_account state program_id pool_account) (\<lambda>_.
     bindE (validate_leaves request) (\<lambda>_.
     apply_authorized_append_after_checked_state_v1 env program_id pool_account current_page_account supplied_next_page
       (Canonical state) (Some history) request before_persist)))"

definition apply_authorized_append_after_v1 ::
  "solana \<Rightarrow> bytes \<Rightarrow> account list \<Rightarrow> authorized_append \<Rightarrow> program_error + unit
     \<Rightarrow> program_error + (account \<times> account \<times> account option) \<times> authorized_append_receipt" where
  "apply_authorized_append_after_v1 env program_id accounts request before_persist =
     bindE (split_append_accounts accounts) (\<lambda>(pool_account, current_page_account, supplied_next_page).
     bindE (require_program_account pool_account program_id True) (\<lambda>_.
     bindE (validate_leaves request) (\<lambda>_.
     bindE (state_decode (ac_data pool_account) (ac_key pool_account)) (\<lambda>state.
     if ac_key pool_account \<noteq> fst (pool_v1_state_address env program_id (id_asset_mint (ps_identity state)))
     then pool_fail InvalidPoolStateAddress
     else apply_authorized_append_after_checked_state_v1 env program_id pool_account current_page_account supplied_next_page
            (Standalone state) None request before_persist))))"

end
