(* ===== verification/TransitionCorrect.thy ===== *)
theory TransitionCorrect
  imports PoolTransition
begin

text \<open>
  What the transitions of \<open>transition.rs\<close> do to a pool whose state represents a list of leaves. The append that
  trusts the stored root computes the same as the sealed append; preparing a request gives the state of the
  extended list with its receipts; and the whole transition is one equation: which errors it reports, and on
  success the image of the next state and the page images of the extended history.
\<close>

section \<open>The append that trusts the program\<close>

lemma reconstruct_loop_fold:
  "reconstruct_loop index front empties levels node = fold (\<lambda>level node.
     if \<not> level_bit index level then pool_v1_tree_parent node (empties ! level)
     else pool_v1_tree_parent (front ! level) node) levels node"
  by (induction levels arbitrary: node) simp_all

lemma map_tree_error_simps [simp]:
  "map_tree_error TreeFull = pool_error PoolTreeFull" "map_tree_error InsufficientCapacity = pool_error InsufficientTreeCapacity"
  by (simp_all add: map_tree_error_def)

lemma carry_stops_below_capacity:
  assumes "2 ^ l dvd Suc n" "l < 20" "even (n div 2 ^ l)" "n < 2 ^ 20"
  shows "Suc n < 2 ^ 20"
proof (rule ccontr)
  assume "\<not> Suc n < 2 ^ 20"
  with assms(4) have "Suc n = 2 ^ 20" by simp
  moreover have "(2 :: nat) ^ 20 = 2 ^ l * 2 ^ (20 - l)" using assms(2) by (simp flip: power_add)
  ultimately have "Suc n = 2 ^ l * 2 ^ (20 - l)" by (rule trans)
  then have "Suc n div 2 ^ l = 2 ^ (20 - l)" by simp
  moreover have "odd (Suc n div 2 ^ l)" using carry_stop(1) [OF assms(1,3)] .
  ultimately show False using assms(2) by simp
qed

lemma program_invariant_append_eq:
  assumes "\<not> POOL_V1_LEAF_CAPACITY < next_leaf_index t"
  shows "append_one_from_program_invariant t leaf =
    map_err map_tree_error (bindE (validated_append_one \<lparr> vt_inner = t, vt_empty = POOL_V1_EMPTY_ROOTS \<rparr> leaf)
      (\<lambda>(v, receipt). Inr (vt_inner v, receipt)))"
proof (cases "next_leaf_index t = POOL_V1_LEAF_CAPACITY")
  case True
  then show ?thesis
    by (simp add: append_one_from_program_invariant_def validated_append_one_def pool_fail_def)
next
  case False
  let ?n = "unat (next_leaf_index t)"
  have room: "?n < 2 ^ 20"
    using assms False capacity_eq by (metis linorder_neqE_nat word_less_nat_alt word_unat_eq_iff)
  obtain l carry front where run: "carry_loop (next_leaf_index t) POOL_V1_EMPTY_ROOTS 0 leaf (frontier t) = (l, carry, front)"
    by (metis prod_cases3)
  from carry_loop_shape [OF this] have l: "l \<le> 20" "2 ^ l dvd Suc ?n" "l < 20 \<Longrightarrow> even (?n div 2 ^ l)" by auto
  have "unat (next_leaf_index t + 1) = Suc ?n" using room by (subst unat_word_ariths) simp
  moreover from this have "checked_add (next_leaf_index t) 1 = Some (next_leaf_index t + 1)"
    by (simp add: checked_add_eq_Some)
  moreover have "\<not> POOL_V1_LEAF_CAPACITY \<le> next_leaf_index t + 1" if "l \<noteq> 20"
    using carry_stops_below_capacity [OF l(2) _ l(3) room] that l(1) calculation(1) capacity_eq
    by (simp add: word_le_nat_alt)
  ultimately show ?thesis
    using False l(1)
    by (simp add: append_one_from_program_invariant_def validated_append_one_def run Let_def depth_eq
        reconstruct_nonfull_root_from_level_def reconstruct_loop_fold)
qed

interpretation inherited_tree: append_log tree_of append_one_from_program_invariant receipt_of "2 ^ 20" "pool_error PoolTreeFull"
proof
  fix xs :: "digest list" and x
  have index: "\<not> POOL_V1_LEAF_CAPACITY < next_leaf_index (tree_of xs)" if "length xs \<le> 2 ^ 20"
    using that capacity_eq by (simp add: tree_of_def word_less_nat_alt unat_length)
  show "append_one_from_program_invariant (tree_of xs) x = Inr (tree_of (xs @ [x]), receipt_of (xs @ [x]))" if "length xs < 2 ^ 20"
    using that index validated_append_one_sealed [OF that, of x]
    by (simp add: program_invariant_append_eq pinned_empty_roots sealed_def)
  show "append_one_from_program_invariant (tree_of xs) x = Inl (pool_error PoolTreeFull)" if "length xs = 2 ^ 20"
    using that index validated_append_one_full [OF that, of x]
    by (simp add: program_invariant_append_eq pinned_empty_roots sealed_def)
qed

section \<open>Preparing an append of a represented state\<close>

definition new_leaves :: "authorized_append \<Rightarrow> digest list" where
  "new_leaves request = (case request of AuthorizedOne leaf \<Rightarrow> [leaf] | AuthorizedTwo first second \<Rightarrow> [first, second])"

definition append_receipt :: "digest list \<Rightarrow> authorized_append \<Rightarrow> authorized_append_receipt" where
  "append_receipt leaves request = (case request of
     AuthorizedOne leaf \<Rightarrow> \<lparr> ar_first = receipt_of (leaves @ [leaf]), ar_second = None \<rparr>
   | AuthorizedTwo first second \<Rightarrow> \<lparr> ar_first = receipt_of (leaves @ [first]), ar_second = Some (receipt_of (leaves @ [first, second])) \<rparr>)"

definition source_sound :: "authorized_source_state \<Rightarrow> bool" where
  "source_sound source \<longleftrightarrow> (case source of
     Canonical c \<Rightarrow> cp_tree_evidence c = ProgramInvariant
       \<or> cp_tree_evidence c = Reconstructed \<lparr> vt_inner = ps_tree (cp_state c), vt_empty = POOL_V1_EMPTY_ROOTS \<rparr>
   | Standalone _ \<Rightarrow> True)"

lemma length_new_leaves: "length (new_leaves request) = unat (append_count request)" "length (new_leaves request) \<in> {1, 2}"
  by (simp_all add: new_leaves_def append_count_def split: authorized_append.split)

lemma sealed_pinned: "\<lparr> vt_inner = tree_of leaves, vt_empty = POOL_V1_EMPTY_ROOTS \<rparr> = sealed leaves"
  by (simp add: sealed_def pinned_empty_roots)

lemma inner_sealed: "vt_inner (sealed leaves) = tree_of leaves"
  by (simp add: sealed_def)

lemma validated_append_two_sealed:
  assumes "length leaves + 2 \<le> 2 ^ 20"
  shows "validated_append_two (sealed leaves) a b = Inr (sealed (leaves @ [a, b]),
    \<lparr> at_first = receipt_of (leaves @ [a]), at_second = receipt_of (leaves @ [a, b]) \<rparr>)"
proof -
  obtain r where r: "remaining_capacity (tree_of leaves) = Inr r" "unat r = 2 ^ 20 - length leaves"
    using remaining_capacity_tree_of [of leaves] assms by auto
  then have "\<not> r < 2" using assms by (simp add: word_less_nat_alt)
  with r validated_append_one_sealed [of leaves a] validated_append_one_sealed [of "leaves @ [a]" b] assms show ?thesis
    by (simp add: validated_append_two_def sealed_def)
qed

lemma checked_add_of_nat:
  "n + k < 2 ^ 64 \<Longrightarrow> checked_add (of_nat n :: u64) (of_nat k) = Some (of_nat (n + k))"
  by (simp add: checked_add_eq_Some unat_of_nat flip: of_nat_add)

lemma represents_next:
  assumes "pool_represents s leaves" "list_all digest_ok new" "length leaves + length new \<le> 2 ^ 20"
  shows "pool_represents (s\<lparr> ps_tree := tree_of (leaves @ new) \<rparr>) (leaves @ new)"
  using assms by (simp add: pool_represents_def)

lemma prepare_represented:
  assumes rep: "pool_represents s leaves" and src: "source_sound source" "source_state source = s"
    and new: "list_all digest_ok (new_leaves request)" and room: "length leaves + length (new_leaves request) \<le> 2 ^ 20"
  shows "source_prepare source request = Inr \<lparr> pa_next_state = s\<lparr> ps_tree := tree_of (leaves @ new_leaves request) \<rparr>,
    pa_receipt = append_receipt leaves request \<rparr>"
proof -
  let ?p = "\<lparr> pa_next_state = s\<lparr> ps_tree := tree_of (leaves @ new_leaves request) \<rparr>, pa_receipt = append_receipt leaves request \<rparr>"
  have tree: "ps_tree s = tree_of leaves" using rep by (simp add: pool_represents_def)
  have one: "append_one_from_program_invariant (tree_of xs) x = Inr (tree_of (xs @ [x]), receipt_of (xs @ [x]))"
    "validated_append_one (sealed xs) x = Inr (sealed (xs @ [x]), receipt_of (xs @ [x]))" if "length xs < 2 ^ 20" for xs x
    using that inherited_tree.append_room validated_append_one_sealed by simp_all
  have canonical: "prepare_append_from_canonical_state c request = Inr ?p" if "source = Canonical c" for c
  proof -
    have c: "cp_state c = s" using src(2) that by (simp add: source_state_def)
    have ev: "cp_tree_evidence c = ProgramInvariant \<or> cp_tree_evidence c = Reconstructed (sealed leaves)"
      using src(1) that by (simp add: source_sound_def c tree sealed_pinned)
    show ?thesis
      using ev room
      by (cases request)
        (auto simp: prepare_append_from_canonical_state_def reconstructed_tree_def c tree new_leaves_def append_receipt_def
          one validated_append_two_sealed inner_sealed)
  qed
  have checked: "prepare_checked_append s request = Inr ?p"
    using room tree_append_one_eq [of leaves] tree_append_two_eq [of leaves]
    by (cases request)
      (auto simp: prepare_checked_append_def tree pinned_empty_roots tree_append_one_def tree_append_two_def
        new_leaves_def append_receipt_def)
  have valid: "validate_encoding (pa_next_state ?p) = Inr ()"
    using represents_decodes(1) [OF represents_next [OF rep new room]] by (simp add: state_decode_eq)
  have cursor: "validate_inherited_state_and_cursor ?p s request = Inr ()"
    using room checked_add_of_nat [of "length leaves" 1] checked_add_of_nat [of "length leaves" 2]
    by (cases request)
      (auto simp: validate_inherited_state_and_cursor_def current_root_sequence_def tree tree_of_def append_count_def
        new_leaves_def append_receipt_def receipt_of_def depth_eq Let_def)
  show ?thesis
    using src(2) checked valid cursor canonical
    by (cases source) (auto simp: source_prepare_def source_state_def)
qed

section \<open>The history a list of leaves stands for\<close>

text \<open>
  Sequence \<open>q\<close> of the history is the root after the first \<open>q\<close> leaves; page \<open>p\<close> holds the sequences
  \<open>256 p\<close> to \<open>256 p + 255\<close> that exist.
\<close>

definition root_after :: "digest list \<Rightarrow> nat \<Rightarrow> digest" where
  "root_after leaves q = subtree_root 20 (take q leaves)"

definition history_roots :: "digest list \<Rightarrow> nat \<Rightarrow> digest list" where
  "history_roots leaves p = map (root_after leaves) [256 * p..<min (256 * p + 256) (Suc (length leaves))]"

definition history_header :: "bytes \<Rightarrow> digest list \<Rightarrow> nat \<Rightarrow> root_page_header" where
  "history_header pool leaves p = \<lparr> hd_pool = pool, hd_page_number = of_nat p, hd_first_sequence = of_nat (256 * p),
     hd_filled = of_nat (length (history_roots leaves p)) \<rparr>"

definition history_page :: "bytes \<Rightarrow> digest list \<Rightarrow> nat \<Rightarrow> bytes" where
  "history_page pool leaves p = page_image (history_header pool leaves p) (history_roots leaves p)"

lemma length_history_roots: "length (history_roots leaves p) = min 256 (Suc (length leaves) - 256 * p)"
  by (auto simp: history_roots_def min_def)

lemma root_after_append: "q \<le> length leaves \<Longrightarrow> root_after (leaves @ new) q = root_after leaves q"
  by (simp add: root_after_def)

lemma digest_ok_root_after: "list_all digest_ok leaves \<Longrightarrow> digest_ok (root_after leaves q)"
  unfolding root_after_def by (intro digest_ok_subtree) (auto simp: list_all_iff dest: in_set_takeD)

lemma history_page_ok:
  assumes "list_all digest_ok leaves" "length leaves \<le> 2 ^ 20" "length pool = 32" "p \<le> 2 ^ 20"
  shows "page_ok (history_header pool leaves p) (history_roots leaves p)"
proof -
  have "unat (of_nat (256 * p) :: u64) = unat (of_nat p :: u64) * 256"
    using assms(4) unfolding unat_of_nat by simp
  then show ?thesis
    using assms(1,3) digest_ok_root_after [OF assms(1)]
    by (simp add: page_ok_def history_header_def length_history_roots unat_of_nat del: of_nat_mult)
      (auto simp: history_roots_def list_all_iff)
qed

lemma history_roots_grow:
  assumes "256 * p \<le> length leaves"
  shows "history_roots (leaves @ new) p = history_roots leaves p
    @ map (root_after (leaves @ new)) [Suc (length leaves)..<min (256 * p + 256) (Suc (length leaves + length new))]"
proof (cases "256 * p + 256 \<le> Suc (length leaves)")
  case True
  then show ?thesis by (auto simp: history_roots_def root_after_append min_def)
next
  case False
  let ?m = "min (256 * p + 256) (Suc (length leaves + length new))"
  have "[256 * p..<?m] = [256 * p..<Suc (length leaves)] @ [Suc (length leaves)..<?m]"
    using False assms upt_add_eq_append [of "256 * p" "Suc (length leaves)" "?m - Suc (length leaves)"] by simp
  moreover have "map (root_after (leaves @ new)) [256 * p..<Suc (length leaves)] = map (root_after leaves) [256 * p..<Suc (length leaves)]"
    by (rule map_cong) (auto simp: root_after_append)
  ultimately show ?thesis using False by (simp add: history_roots_def del: upt_Suc)
qed

lemma history_roots_old:
  "256 * p + 256 \<le> Suc (length leaves) \<Longrightarrow> history_roots (leaves @ new) p = history_roots leaves p"
  by (auto simp: history_roots_def root_after_append min_def)

lemma history_page_old:
  "256 * p + 256 \<le> Suc (length leaves) \<Longrightarrow> history_page pool (leaves @ new) p = history_page pool leaves p"
  by (simp add: history_page_def history_header_def history_roots_old)

lemma history_page_appended:
  assumes "list_all digest_ok (leaves @ new)" "length (leaves @ new) \<le> 2 ^ 20" "length pool = 32" "256 * p \<le> length leaves"
  shows "append_roots_unchecked (history_page pool leaves p) (history_header pool leaves p)
      (map (root_after (leaves @ new)) [Suc (length leaves)..<min (256 * p + 256) (Suc (length leaves + length new))])
    = history_page pool (leaves @ new) p"
proof -
  let ?new = "map (root_after (leaves @ new)) [Suc (length leaves)..<min (256 * p + 256) (Suc (length leaves + length new))]"
  have ok: "page_ok (history_header pool leaves p) (history_roots leaves p)"
    using assms by (intro history_page_ok) auto
  have grow: "history_roots (leaves @ new) p = history_roots leaves p @ ?new"
    by (rule history_roots_grow [OF assms(4)])
  then have len: "length (history_roots leaves p) + length ?new \<le> 256"
    using length_history_roots [of "leaves @ new" p] by (metis length_append min.cobounded1)
  have "list_all digest_ok ?new" using assms(1) by (auto simp: list_all_iff intro!: digest_ok_root_after)
  from append_roots_eq(2) [OF ok len this] show ?thesis
    by (simp add: history_page_def grow history_header_def)
qed

lemma history_page_fresh:
  assumes "list_all digest_ok leaves" "length leaves \<le> 2 ^ 20" "length pool = 32" "p \<le> 2 ^ 20" "length data = 8256"
    "unat number = p" "unat first = 256 * p"
  shows "write_new_page_unchecked data pool number first (history_roots leaves p) = history_page pool leaves p"
proof -
  have "number = of_nat p" "first = of_nat (256 * p)" using assms(4,6,7) unfolding word_unat_eq_iff unat_of_nat by simp_all
  then show ?thesis
    using assms write_new_page_eq(2) [of data pool "history_roots leaves p" first number]
    by (simp add: history_page_def history_header_def length_history_roots history_roots_def list_all_iff digest_ok_root_after)
qed

lemma history_page_read:
  assumes "list_all digest_ok leaves" "length leaves \<le> 2 ^ 20" "length pool = 32" "unat q \<le> length leaves"
  shows "read_retained_root (history_page pool leaves (unat q div 256)) (history_header pool leaves (unat q div 256)) q
    = Inr (root_after leaves (unat q))"
proof -
  let ?p = "unat q div 256"
  have "page_ok (history_header pool leaves ?p) (history_roots leaves ?p)" using assms by (intro history_page_ok) auto
  moreover have "unat q mod 256 < length (history_roots leaves ?p)"
    using assms(4) mult_div_mod_eq [of 256 "unat q"] by (simp add: length_history_roots less_diff_conv)
  moreover have "history_roots leaves ?p ! (unat q mod 256) = root_after leaves (unat q)"
    using calculation(2) by (simp add: history_roots_def nth_upt less_diff_conv add.commute)
  ultimately show ?thesis
    using assms by (simp add: history_page_def read_retained_root_eq history_header_def unat_of_nat)
qed

lemma history_page_valid:
  assumes "list_all digest_ok leaves" "length leaves \<le> 2 ^ 20" "length pool = 32" "p \<le> 2 ^ 20" "n = of_nat p"
  shows "validate_root_page_bytes (history_page pool leaves p) pool n = Inr (history_header pool leaves p)"
  using assms history_page_ok [of leaves pool p]
  by (auto simp: validate_root_page_bytes_eq history_page_def history_header_def)

section \<open>The authorized append on a represented pool\<close>

definition roots_in_current_page :: "nat \<Rightarrow> nat \<Rightarrow> nat" where
  "roots_in_current_page n k =
     (if (n + 1) div 256 = n div 256 then (if (n + k) div 256 = n div 256 then k else 1) else 0)"

lemma roots_in_current_eq:
  assumes "k \<in> {1, 2}"
  shows "Suc n + roots_in_current_page n k = min (256 * (n div 256) + 256) (Suc n + k)" "roots_in_current_page n k \<le> k"
    "(roots_in_current_page n k \<noteq> 0) \<longleftrightarrow> (n + 1) div 256 = n div 256"
    "(k - roots_in_current_page n k \<noteq> 0) \<longleftrightarrow> (n + k) div 256 = n div 256 + 1"
    "roots_in_current_page n k < k \<Longrightarrow> Suc n + roots_in_current_page n k = 256 * (n div 256 + 1)"
proof -
  obtain q r where n: "n = 256 * q + r" "r < 256"
    using mult_div_mod_eq [of 256 n] mod_less_divisor [of 256 n] by (metis zero_less_numeral)
  then have q: "n div 256 = q" by simp
  have one: "(n + 1) div 256 = (if r = 255 then q + 1 else q)" "(n + 2) div 256 = (if 254 \<le> r then q + 1 else q)"
    using n by (auto intro!: div_nat_eqI)
  show "Suc n + roots_in_current_page n k = min (256 * (n div 256) + 256) (Suc n + k)" "roots_in_current_page n k \<le> k"
    "(roots_in_current_page n k \<noteq> 0) \<longleftrightarrow> (n + 1) div 256 = n div 256"
    "(k - roots_in_current_page n k \<noteq> 0) \<longleftrightarrow> (n + k) div 256 = n div 256 + 1"
    "roots_in_current_page n k < k \<Longrightarrow> Suc n + roots_in_current_page n k = 256 * (n div 256 + 1)"
    using assms n(2) one unfolding roots_in_current_page_def q by (auto simp: n(1) min_def)
qed

lemma place_roots_eq:
  assumes "length rs \<in> {1, 2}" "rc \<le> length rs" "first = rs ! 0" "second = (if length rs = 2 then Some (rs ! 1) else None)"
  shows "\<exists>c nx. place_roots rc first second = Inr (c, nx) \<and> take rc c = take rc rs \<and> take (length rs - rc) nx = drop rc rs"
proof -
  consider r where "rs = [r]" | r1 r2 where "rs = [r1, r2]"
    using assms(1) by (auto simp: length_Suc_conv numeral_2_eq_2)
  then show ?thesis
  proof cases
    case 1
    then show ?thesis using assms by (cases "rc = 0") (auto simp: place_roots_def Let_def numeral_2_eq_2 le_Suc_eq)
  next
    case 2
    then consider "rc = 0" | "rc = 1" | "rc = 2" using assms by (auto simp: le_Suc_eq numeral_2_eq_2)
    then show ?thesis using assms 2 by cases (auto simp: place_roots_def Let_def numeral_2_eq_2)
  qed
qed

lemma append_receipt_roots:
  fixes leaves request
  defines "rs \<equiv> map (root_after (leaves @ new_leaves request)) [Suc (length leaves)..<Suc (length leaves) + length (new_leaves request)]"
  shows "length rs = length (new_leaves request)" "ao_root (ar_first (append_receipt leaves request)) = rs ! 0"
    "map_option ao_root (ar_second (append_receipt leaves request)) = (if length rs = 2 then Some (rs ! 1) else None)"
  by (simp_all add: rs_def append_receipt_def new_leaves_def receipt_of_def root_after_def split: authorized_append.split)

lemma represents_sequence:
  assumes "pool_represents s leaves"
  shows "unat (current_root_sequence s) = length leaves" "current_root_sequence s = of_nat (length leaves)"
  using assms by (simp_all add: pool_represents_def current_root_sequence_def tree_of_def unat_length)

lemma length_current_roots: "length (history_roots leaves (length leaves div 256)) = Suc (length leaves mod 256)"
  using minus_mult_div_eq_mod [of "length leaves" 256] mod_less_divisor [of 256 "length leaves"]
    div_times_less_eq_dividend [of "length leaves" 256]
  by (simp add: length_history_roots Suc_diff_le mult.commute)

lemma page_of_sequence:
  assumes "unat w = m" "m < 2 ^ 64"
  shows "(w :: u64) div 256 = of_nat (m div 256)"
  using assms unfolding word_unat_eq_iff unat_of_nat by (simp add: unat_div_distrib)

lemma seq_page: "loc_page_number (root_history_location q) = of_nat (unat q div 256)"
  by (simp add: page_of_sequence [OF refl] unat_bound [where 'a = 64, simplified])

lemma retained_current_root:
  assumes rep: "pool_represents s leaves" and len: "length pool = 32"
  shows "check_retained_current_root (history_page pool leaves (length leaves div 256))
    (history_header pool leaves (length leaves div 256)) s = Inr ()"
proof -
  have leaves: "list_all digest_ok leaves" "length leaves \<le> 2 ^ 20" and tree: "ps_tree s = tree_of leaves"
    using rep by (simp_all add: pool_represents_def)
  note seq = represents_sequence [OF rep]
  show ?thesis
    using history_page_read [OF leaves len, of "current_root_sequence s"] seq validate_tree_of [OF leaves(2)]
    by (simp add: check_retained_current_root_def tree root_after_def tree_of_def depth_eq
        validate_terminal_root_against_history_with_empty_roots_def pinned_empty_roots) (intro impI, simp)
qed

lemma current_page_slot:
  assumes "pool_represents s leaves"
  shows "hd_filled (history_header pool leaves (length leaves div 256))
    = loc_slot (root_history_location (current_root_sequence s)) + 1"
  by (simp add: length_current_roots history_header_def represents_sequence(1) [OF assms] word_unat_eq_iff unat_word_ariths unat_of_nat)

lemma current_history_eq:
  assumes rep: "pool_represents s leaves" and len: "length (ac_key pool_account) = 32"
    and data: "ac_data current = history_page (ac_key pool_account) leaves (length leaves div 256)"
  shows "validate_current_history env program_id pool_account current s =
    bindE (require_program_owned current program_id) (\<lambda>_.
    bindE (require_root_page_address env program_id (ac_key pool_account) (of_nat (length leaves div 256)) current) (\<lambda>_.
    Inr (history_header (ac_key pool_account) leaves (length leaves div 256))))"
proof -
  let ?n = "length leaves" and ?key = "ac_key pool_account"
  have leaves: "list_all digest_ok leaves" "?n \<le> 2 ^ 20" using rep by (simp_all add: pool_represents_def)
  have "loc_page_number (root_history_location (current_root_sequence s)) = of_nat (?n div 256)"
    using represents_sequence(1) [OF rep] by (simp add: seq_page del: loc_page_number_location)
  moreover have "validate_root_page_bytes (ac_data current) ?key (of_nat (?n div 256)) = Inr (history_header ?key leaves (?n div 256))"
    unfolding data using leaves len by (intro history_page_valid) auto
  ultimately show ?thesis
    using retained_current_root [OF rep len] current_page_slot [OF rep, of ?key]
    by (simp add: validate_current_history_def Let_def data del: loc_page_number_location)
qed

definition appended_pool :: "account \<Rightarrow> pool_state \<Rightarrow> digest list \<Rightarrow> account" where
  "appended_pool pool_account s leaves = pool_account\<lparr> ac_data := write_encoding_prevalidated (s\<lparr> ps_tree := tree_of leaves \<rparr>) \<rparr>"

definition with_history_page :: "bytes \<Rightarrow> digest list \<Rightarrow> nat \<Rightarrow> account \<Rightarrow> account" where
  "with_history_page pool leaves p account = account\<lparr> ac_data := history_page pool leaves p \<rparr>"

lemma plan_next_page_eq:
  assumes "p < 2 ^ 20"
  shows "plan_next_page env program_id pool_account current next_account (of_nat p) k =
    (case next_account of
       None \<Rightarrow> if k = 0 then Inr None else pool_fail UnexpectedRootPage
     | Some page \<Rightarrow> if k = 0 then pool_fail UnexpectedRootPage
         else bindE (validate_new_page_account env program_id (ac_key pool_account) (of_nat (p + 1)) page) (\<lambda>_.
           if ac_key page = ac_key pool_account \<or> ac_key page = ac_key current then Inl InvalidAccountData
           else Inr (Some (page, of_nat (p + 1), of_nat (256 * (p + 1))))))"
proof -
  have "checked_add (of_nat p :: u64) 1 = Some (of_nat (p + 1))" using checked_add_of_nat [of p 1] assms by simp
  moreover have "checked_mul (of_nat (p + 1) :: u64) 256 = Some (of_nat (256 * (p + 1)))"
    using assms unfolding checked_mul_eq_Some unat_of_nat by simp
  ultimately show ?thesis
    by (auto simp: plan_next_page_def layout_defs split: option.split simp del: of_nat_mult of_nat_add of_nat_Suc)
qed

lemma plan_next_page_cong:
  "(j \<noteq> 0) = (k \<noteq> (0 :: nat)) \<Longrightarrow>
   plan_next_page env program_id pool_account current next_account number j
     = plan_next_page env program_id pool_account current next_account number k"
  by (simp add: plan_next_page_def)

lemma appended_current_page:
  assumes ok: "list_all digest_ok (leaves @ new)" "length (leaves @ new) \<le> 2 ^ 20" "length pool = 32"
    and k: "length new \<in> {1, 2}" and data: "ac_data current = history_page pool leaves (length leaves div 256)"
    and rc: "rc = roots_in_current_page (length leaves) (length new)"
    and roots: "roots = take rc (map (root_after (leaves @ new)) [Suc (length leaves)..<Suc (length leaves) + length new])"
  shows "(if rc \<noteq> 0 then current\<lparr> ac_data := append_roots_unchecked (ac_data current)
      (history_header pool leaves (length leaves div 256)) roots \<rparr> else current)
    = with_history_page pool (leaves @ new) (length leaves div 256) current"
proof -
  let ?n = "length leaves"
  note rc_eq = roots_in_current_eq [OF k, of ?n, folded rc]
  have "take rc [Suc ?n..<Suc ?n + length new] = [Suc ?n..<Suc ?n + rc]" using rc_eq(2) by (simp del: upt_Suc)
  then have roots: "roots = map (root_after (leaves @ new)) [Suc ?n..<min (256 * (?n div 256) + 256) (Suc (?n + length new))]"
    using rc_eq(1) by (simp add: roots take_map del: upt_Suc)
  show ?thesis
  proof (cases "rc = 0")
    case True
    then have "256 * (?n div 256) + 256 \<le> Suc ?n" using rc_eq(1) k by (auto simp: min_def split: if_splits)
    with True show ?thesis by (simp add: with_history_page_def history_page_old data [symmetric])
  next
    case False
    then show ?thesis
      using history_page_appended [OF ok, of "?n div 256"] by (simp add: with_history_page_def data roots)
  qed
qed

lemma appended_next_page:
  assumes ok: "list_all digest_ok (leaves @ new)" "length (leaves @ new) \<le> 2 ^ 20" "length pool = 32"
    and k: "length new \<in> {1, 2}" and rc: "rc = roots_in_current_page (length leaves) (length new)" "rc < length new"
    and roots: "roots = drop rc (map (root_after (leaves @ new)) [Suc (length leaves)..<Suc (length leaves) + length new])"
    and data: "length data = 8256"
  shows "write_new_page_unchecked data pool (of_nat (length leaves div 256 + 1)) (of_nat (256 * (length leaves div 256 + 1))) roots
    = history_page pool (leaves @ new) (length leaves div 256 + 1)"
proof -
  let ?n = "length leaves" and ?p = "length leaves div 256 + 1"
  have "Suc ?n + rc = 256 * ?p" using roots_in_current_eq(5) [OF k, of ?n] rc by simp
  moreover have "min (256 * ?p + 256) (Suc (?n + length new)) = Suc ?n + length new"
    using k mult_div_mod_eq [of 256 ?n] mod_less_divisor [of 256 ?n] by auto
  ultimately have "roots = history_roots (leaves @ new) ?p"
    by (simp add: roots history_roots_def drop_map del: upt_Suc)
  moreover have "?p \<le> 2 ^ 20" using ok(2) by simp
  moreover from this have "unat (of_nat ?p :: u64) = ?p" "unat (of_nat (256 * ?p) :: u64) = 256 * ?p"
    unfolding unat_of_nat by simp_all
  ultimately show ?thesis using history_page_fresh [OF ok, of ?p data "of_nat ?p" "of_nat (256 * ?p)"] data by simp
qed

lemma history_page_room:
  assumes "Suc (length leaves) + rc = min (256 * (length leaves div 256) + 256) m"
  shows "\<not> 256 < unat (hd_filled (history_header pool leaves (length leaves div 256))) + rc"
proof -
  have "unat (hd_filled (history_header pool leaves (length leaves div 256))) = Suc (length leaves mod 256)"
    unfolding history_header_def root_history_page_header.simps length_current_roots unat_of_nat by simp
  moreover have "Suc (length leaves) + rc \<le> 256 * (length leaves div 256) + 256" using assms by simp
  ultimately show ?thesis using mult_div_mod_eq [of 256 "length leaves"] by linarith
qed

lemma remaining_leaves:
  assumes "unat w = n" "n \<le> 2 ^ 20"
  shows "checked_sub POOL_V1_LEAF_CAPACITY w = Some (POOL_V1_LEAF_CAPACITY - w)"
    "POOL_V1_LEAF_CAPACITY - w = 0 \<longleftrightarrow> n = 2 ^ 20"
    "POOL_V1_LEAF_CAPACITY - w < c \<longleftrightarrow> 2 ^ 20 < n + unat c"
proof -
  have le: "w \<le> POOL_V1_LEAF_CAPACITY" using assms capacity_eq by (simp add: word_le_nat_alt)
  then have left: "unat (POOL_V1_LEAF_CAPACITY - w) = 2 ^ 20 - n" using assms(1) capacity_eq by (simp add: unat_sub)
  show "checked_sub POOL_V1_LEAF_CAPACITY w = Some (POOL_V1_LEAF_CAPACITY - w)" using le by (simp add: checked_sub_eq_Some)
  show "POOL_V1_LEAF_CAPACITY - w = 0 \<longleftrightarrow> n = 2 ^ 20" using left assms(2) by (simp add: word_unat_eq_iff)
  show "POOL_V1_LEAF_CAPACITY - w < c \<longleftrightarrow> 2 ^ 20 < n + unat c" using left assms(2) by (auto simp: word_less_nat_alt)
qed

lemma append_window:
  assumes "unat w = n" "unat c = k" "k \<in> {1, 2}" "n + k \<le> 2 ^ 20"
  shows "\<not> (w + 1) div 256 < of_nat (n div 256)" "\<not> of_nat (n div 256) + 1 < (w + c) div (256 :: u64)"
    "(if (w + 1) div 256 = of_nat (n div 256) then if (w + c) div 256 = of_nat (n div 256) then k else 1 else 0)
      = roots_in_current_page n k"
proof -
  let ?p = "n div 256"
  have "unat (w + 1) = n + 1" "unat (w + c) = n + k" using assms by (subst unat_word_ariths; auto)+
  then have pages: "(w + 1) div 256 = of_nat ((n + 1) div 256)" "(w + c) div 256 = of_nat ((n + k) div 256)"
    using assms by (auto simp: page_of_sequence)
  have small: "unat (of_nat m :: u64) = m" if "m \<le> 2 ^ 21" for m using that unfolding unat_of_nat by simp
  have bounds: "(n + 1) div 256 \<le> 2 ^ 20" "(n + k) div 256 \<le> 2 ^ 20" "?p < 2 ^ 20" "?p \<le> (n + 1) div 256" "(n + k) div 256 \<le> ?p + 1"
    using assms by (auto intro: div_le_mono le_trans [OF div_le_dividend])
  have suc: "unat ((of_nat ?p :: u64) + 1) = ?p + 1" using small [of "?p + 1"] bounds by (simp add: add.commute)
  have cmp: "\<not> of_nat ((n + 1) div 256) < (of_nat ?p :: u64)" "\<not> (of_nat ?p :: u64) + 1 < of_nat ((n + k) div 256)"
    "of_nat ((n + 1) div 256) = (of_nat ?p :: u64) \<longleftrightarrow> (n + 1) div 256 = ?p"
    "of_nat ((n + k) div 256) = (of_nat ?p :: u64) \<longleftrightarrow> (n + k) div 256 = ?p"
    using bounds suc by (simp_all add: word_less_nat_alt word_unat_eq_iff small)
  show "\<not> (w + 1) div 256 < of_nat ?p" "\<not> of_nat ?p + 1 < (w + c) div 256"
    "(if (w + 1) div 256 = of_nat ?p then if (w + c) div 256 = of_nat ?p then k else 1 else 0) = roots_in_current_page n k"
    unfolding pages by (simp_all only: cmp roots_in_current_page_def not_False_eq_True)
qed

lemma planned_next_page:
  assumes ok: "list_all digest_ok (leaves @ new)" "length (leaves @ new) \<le> 2 ^ 20" "length (ac_key pool_account) = 32"
    and k: "length new \<in> {1, 2}" and rc: "rc = roots_in_current_page (length leaves) (length new)"
    and roots: "roots = drop rc (map (root_after (leaves @ new)) [Suc (length leaves)..<Suc (length leaves) + length new])"
    and plan: "plan_next_page env program_id pool_account current next_account (of_nat (length leaves div 256)) (length new - rc)
      = Inr next_page"
  shows "(case next_page of Some (page, number, first) \<Rightarrow>
      Some (page\<lparr> ac_data := write_new_page_unchecked (ac_data page) (ac_key pool_account) number first roots \<rparr>)
    | None \<Rightarrow> next_account)
    = map_option (with_history_page (ac_key pool_account) (leaves @ new) (length leaves div 256 + 1)) next_account"
proof (cases next_account)
  case None
  with plan ok(2) show ?thesis by (simp add: plan_next_page_eq split: if_splits)
next
  case (Some page)
  let ?p = "length leaves div 256"
  have "?p < 2 ^ 20" using ok(2) by simp
  with plan Some have next_page: "next_page = Some (page, of_nat (?p + 1), of_nat (256 * (?p + 1)))" "rc < length new"
    and "validate_new_page_account env program_id (ac_key pool_account) (of_nat (?p + 1)) page = Inr ()"
    by (auto simp: plan_next_page_eq split: if_splits)
  then have "length (ac_data page) = 8256" by (simp add: validate_new_page_account_def layout_defs)
  with next_page show ?thesis
    using appended_next_page [OF ok k rc next_page(2) roots] Some by (simp add: with_history_page_def)
qed

lemma apply_append_eq:
  assumes rep: "pool_represents s leaves" and len: "length (ac_key pool_account) = 32"
    and pool_data: "length (ac_data pool_account) = POOL_V1_STATE_ACCOUNT_BYTES"
    and data: "ac_data current = history_page (ac_key pool_account) leaves (length leaves div 256)"
    and src: "source_sound source" "source_state source = s" and new: "list_all digest_ok (new_leaves request)"
    and history: "(case evidence of None \<Rightarrow> validate_current_history env program_id pool_account current s
      | Some e \<Rightarrow> history_require_matches env e program_id pool_account current s)
      = Inr (history_header (ac_key pool_account) leaves (length leaves div 256))"
  shows "apply_authorized_append_after_checked_state_v1 env program_id pool_account current next_account source evidence
      request before_persist =
    (let n = length leaves; k = length (new_leaves request); p = n div 256; after = leaves @ new_leaves request
     in if n = 2 ^ 20 then pool_fail PoolTreeFull
        else if 2 ^ 20 < n + k then pool_fail InsufficientTreeCapacity
        else if ac_is_writable current \<noteq> ((n + 1) div 256 = p) then Inl InvalidAccountData
        else bindE (plan_next_page env program_id pool_account current next_account (of_nat p) ((n + k) div 256 - p)) (\<lambda>_.
          if ac_key pool_account = ac_key current then Inl InvalidAccountData
          else bindE before_persist (\<lambda>_.
            Inr ((appended_pool pool_account s after, with_history_page (ac_key pool_account) after p current,
                  map_option (with_history_page (ac_key pool_account) after (p + 1)) next_account),
                 append_receipt leaves request))))"
proof -
  let ?n = "length leaves" and ?k = "length (new_leaves request)" and ?after = "leaves @ new_leaves request"
  let ?p = "?n div 256" and ?key = "ac_key pool_account" and ?rc = "roots_in_current_page ?n ?k"
  let ?rs = "map (root_after ?after) [Suc ?n..<Suc ?n + ?k]"
  have n: "?n \<le> 2 ^ 20" and leaves: "list_all digest_ok leaves" using rep by (simp_all add: pool_represents_def)
  have k: "?k \<in> {1, 2}" "unat (append_count request) = ?k" using length_new_leaves by simp_all
  note seq = represents_sequence(1) [OF rep]
  note left = remaining_leaves [OF seq n]
  note rc = roots_in_current_eq [OF k(1), of ?n]
  have number: "hd_page_number (history_header ?key leaves ?p) = of_nat ?p" by (simp add: history_header_def)
  show ?thesis
  proof (cases "?n + ?k \<le> 2 ^ 20")
    case False
    then show ?thesis
      using history src(2) left k
      by (auto simp: apply_authorized_append_after_checked_state_v1_def Let_def split: option.splits)
  next
    case room: True
    note window = append_window [OF seq k(2,1) room]
    have ok: "list_all digest_ok ?after" "length ?after \<le> 2 ^ 20" using leaves new room by simp_all
    have rs: "length ?rs = ?k" by (simp del: upt_Suc)
    obtain c nx where place: "place_roots ?rc (ao_root (ar_first (append_receipt leaves request)))
          (map_option ao_root (ar_second (append_receipt leaves request))) = Inr (c, nx)"
        "take ?rc c = take ?rc ?rs" "take (?k - ?rc) nx = drop ?rc ?rs"
      using place_roots_eq [OF _ _ append_receipt_roots(2,3) [of leaves request], of ?rc, unfolded rs, OF k(1) rc(2)] by blast
    have plan: "plan_next_page env program_id pool_account current next_account (of_nat ?p) (?k - ?rc)
        = plan_next_page env program_id pool_account current next_account (of_nat ?p) ((?n + ?k) div 256 - ?p)"
      using rc(4) k(1) by (intro plan_next_page_cong) auto
    note next_page = planned_next_page [where env = env and program_id = program_id and current = current
        and next_account = next_account, OF ok len k(1) refl place(3), unfolded plan]
    show ?thesis
      using room left k(1) window(1,2) history_page_room [OF rc(1)] appended_current_page [OF ok len k(1) data refl place(2)]
        next_page pool_data prepare_represented [OF rep src new room] place(1)
      unfolding apply_authorized_append_after_checked_state_v1_def Let_def src(2) history bindE_simps left(1) ok_or_simps
        loc_page_number_location k(2) number window(3) rc(3) plan
      by (cases "plan_next_page env program_id pool_account current next_account (of_nat ?p) ((?n + ?k) div 256 - ?p)")
        (auto simp: POOL_V1_ROOT_HISTORY_CAPACITY_def appended_pool_def k(2))
  qed
qed

section \<open>Initialization\<close>

lemma initialize_eq:
  assumes "initialize_pool_accounts_v1 env program_id accounts init = Inr accounts'" "initialization_ok init"
    "\<forall>a \<in> set accounts. length (ac_key a) = 32"
  obtains pool_account page s where "accounts = [pool_account, page]" "pool_represents s []"
    "id_pool (ps_identity s) = ac_key pool_account" "id_asset_mint (ps_identity s) = pi_asset_mint init"
    "id_asset_id (ps_identity s) = pi_asset_id init" "id_deployment_domain (ps_identity s) = pi_deployment_domain init"
    "ps_verifier_policy s = pi_verifier_policy init"
    "ac_key pool_account = fst (pool_v1_state_address env program_id (pi_asset_mint init))"
    "ac_key page = fst (pool_v1_root_page_address env program_id (ac_key pool_account) 0)"
    "ac_key pool_account \<noteq> ac_key page" "ac_owner pool_account = program_id" "ac_owner page = program_id"
    "\<not> ac_executable pool_account" "\<not> ac_executable page"
    "ac_data pool_account = zeros 1000" "ac_data page = zeros 8256"
    "accounts' = [appended_pool pool_account s [], with_history_page (ac_key pool_account) [] 0 page]"
proof -
  obtain pool_account page where accs: "accounts = [pool_account, page]"
    using assms(1) by (auto simp: initialize_pool_accounts_v1_def split: list.splits)
  have key: "length (ac_key pool_account) = 32" using assms(3) accs by simp
  from assms(1) obtain s where s: "pool_genesis (ac_key pool_account) init = Inr s"
    and out: "accounts' = [pool_account\<lparr> ac_data := write_encoding_prevalidated s \<rparr>,
        page\<lparr> ac_data := write_new_page_unchecked (ac_data page) (ac_key pool_account) 0 0
          [POOL_V1_EMPTY_ROOTS ! POOL_V1_TREE_DEPTH] \<rparr>]"
    and guards: "ac_key pool_account = fst (pool_v1_state_address env program_id (pi_asset_mint init))"
      "ac_key pool_account \<noteq> ac_key page" "ac_owner pool_account = program_id" "ac_owner page = program_id"
      "\<not> ac_executable pool_account" "\<not> ac_executable page"
      "ac_key page = fst (pool_v1_root_page_address env program_id (ac_key pool_account) 0)"
    and data: "length (ac_data pool_account) = 1000" "length (ac_data page) = 8256"
      "\<forall>byte \<in> set (ac_data pool_account). byte = 0" "\<forall>byte \<in> set (ac_data page). byte = 0"
    unfolding accs
    by (auto simp: initialize_pool_accounts_v1_def validate_new_page_account_def require_program_account_def
        require_root_page_address_def layout_defs)
  have rep: "pool_represents s [] \<and> id_pool (ps_identity s) = ac_key pool_account
      \<and> id_asset_mint (ps_identity s) = pi_asset_mint init \<and> id_asset_id (ps_identity s) = pi_asset_id init
      \<and> id_deployment_domain (ps_identity s) = pi_deployment_domain init \<and> ps_verifier_policy s = pi_verifier_policy init"
    using pool_genesis_represents [OF s key] assms(2) by (simp add: initialization_ok_def)
  have "[POOL_V1_EMPTY_ROOTS ! POOL_V1_TREE_DEPTH] = history_roots [] 0"
    by (simp add: history_roots_def root_after_def pinned_empty_roots depth_eq)
  then have "write_new_page_unchecked (ac_data page) (ac_key pool_account) 0 0 [POOL_V1_EMPTY_ROOTS ! POOL_V1_TREE_DEPTH]
      = history_page (ac_key pool_account) [] 0"
    using history_page_fresh [of "[]" "ac_key pool_account" 0 "ac_data page" 0 0] key data by simp
  moreover have "s\<lparr> ps_tree := tree_of [] \<rparr> = s" using rep by (simp add: pool_represents_def)
  ultimately have "accounts' = [appended_pool pool_account s [], with_history_page (ac_key pool_account) [] 0 page]"
    using out by (simp add: appended_pool_def with_history_page_def)
  moreover have "ac_data pool_account = zeros 1000" "ac_data page = zeros 8256"
    using data all_zero_iff [of "ac_data pool_account"] all_zero_iff [of "ac_data page"] by simp_all
  ultimately show ?thesis using that rep guards accs by blast
qed

end
