(* ===== verification/SpendFormats.thy ===== *)
theory SpendFormats
  imports IncrementalMerkle
begin

text \<open>
  The two fixed images of a spend in \<open>crates/aspis-statement/src/pool_v1\<close>: the historical-anchor envelope of
  \<open>historical_anchor.rs\<close>, which names a retained root, a nullifier and a verifier release, and the marker of
  \<open>nullifier_marker.rs\<close>, the account that records the consumed nullifier. Both are instances of \<open>image_codec\<close>,
  and a marker made from an envelope keeps every field.
\<close>

section \<open>The historical-anchor envelope\<close>

definition POOL_V1_HISTORICAL_ANCHOR_MAGIC :: bytes where [layout_defs]: "POOL_V1_HISTORICAL_ANCHOR_MAGIC = [0x41, 0x53, 0x50, 0x41]"
definition POOL_V1_HISTORICAL_ANCHOR_VERSION :: u8 where [layout_defs]: "POOL_V1_HISTORICAL_ANCHOR_VERSION = 1"
definition POOL_V1_HISTORICAL_ANCHOR_ENVELOPE_BYTES :: nat where [layout_defs]: "POOL_V1_HISTORICAL_ANCHOR_ENVELOPE_BYTES = 208"
definition ENVELOPE_POOL_OFFSET :: nat where [layout_defs]: "ENVELOPE_POOL_OFFSET = 8"
definition ENVELOPE_DEPLOYMENT_DOMAIN_OFFSET :: nat where [layout_defs]: "ENVELOPE_DEPLOYMENT_DOMAIN_OFFSET = 40"
definition ENVELOPE_SEQUENCE_OFFSET :: nat where [layout_defs]: "ENVELOPE_SEQUENCE_OFFSET = 72"
definition ENVELOPE_ROOT_OFFSET :: nat where [layout_defs]: "ENVELOPE_ROOT_OFFSET = 80"
definition ENVELOPE_NULLIFIER_OFFSET :: nat where [layout_defs]: "ENVELOPE_NULLIFIER_OFFSET = 112"
definition ENVELOPE_PROFILE_OFFSET :: nat where [layout_defs]: "ENVELOPE_PROFILE_OFFSET = 144"
definition ENVELOPE_RELEASE_OFFSET :: nat where [layout_defs]: "ENVELOPE_RELEASE_OFFSET = 176"

datatype transition_kind = PrivateTransfer | Withdrawal

datatype anchor_format_error =
  AWrongLength | AWrongMagic | AWrongVersion | AWrongDigestEncoding | ANonZeroReserved | AInvalidTransitionKind
  | AZeroRequiredBinding | AInvalidAnchorSequence | ANonCanonicalDigest

record anchor_envelope =
  ae_transition_kind :: transition_kind
  ae_pool :: bytes
  ae_deployment_domain :: bytes
  ae_anchor_sequence :: u64
  ae_anchor_root :: digest
  ae_nullifier :: digest
  ae_verifier_profile :: bytes
  ae_verifier_release :: bytes

definition transition_kind_byte :: "transition_kind \<Rightarrow> u8" where
  "transition_kind_byte kind = (case kind of PrivateTransfer \<Rightarrow> 1 | Withdrawal \<Rightarrow> 2)"

definition decode_transition_kind :: "u8 \<Rightarrow> anchor_format_error + transition_kind" where
  "decode_transition_kind value =
     (if value = 1 then Inr PrivateTransfer else if value = 2 then Inr Withdrawal else Inl AInvalidTransitionKind)"

definition canonical_digest :: "digest \<Rightarrow> bool" where
  "canonical_digest digest \<longleftrightarrow> (\<forall>element \<in> set digest. limb element < M31_P)"

definition validate_historical_anchor_envelope_v1 :: "anchor_envelope \<Rightarrow> anchor_format_error + unit" where
  "validate_historical_anchor_envelope_v1 envelope =
     (if ae_pool envelope = zeros 32 \<or> ae_deployment_domain envelope = zeros 32
         \<or> ae_verifier_profile envelope = zeros 32 \<or> ae_verifier_release envelope = zeros 32
      then Inl AZeroRequiredBinding
      else if POOL_V1_LEAF_CAPACITY < ae_anchor_sequence envelope then Inl AInvalidAnchorSequence
      else if \<not> canonical_digest (ae_anchor_root envelope) \<or> \<not> canonical_digest (ae_nullifier envelope)
      then Inl ANonCanonicalDigest
      else Inr ())"

definition anchor_envelope_image :: "anchor_envelope \<Rightarrow> bytes" where
  "anchor_envelope_image envelope =
     (let output = zeros POOL_V1_HISTORICAL_ANCHOR_ENVELOPE_BYTES;
          output = put 0 POOL_V1_HISTORICAL_ANCHOR_MAGIC output;
          output = output[4 := POOL_V1_HISTORICAL_ANCHOR_VERSION];
          output = output[5 := transition_kind_byte (ae_transition_kind envelope)];
          output = output[6 := POOL_V1_DIGEST_ENCODING_VERSION];
          output = put ENVELOPE_POOL_OFFSET (ae_pool envelope) output;
          output = put ENVELOPE_DEPLOYMENT_DOMAIN_OFFSET (ae_deployment_domain envelope) output;
          output = put ENVELOPE_SEQUENCE_OFFSET (to_le 8 (ae_anchor_sequence envelope)) output;
          output = put ENVELOPE_ROOT_OFFSET (encode_digest_canonical (ae_anchor_root envelope)) output;
          output = put ENVELOPE_NULLIFIER_OFFSET (encode_digest_canonical (ae_nullifier envelope)) output;
          output = put ENVELOPE_PROFILE_OFFSET (ae_verifier_profile envelope) output
      in put ENVELOPE_RELEASE_OFFSET (ae_verifier_release envelope) output)"

definition encode_historical_anchor_envelope_v1 :: "anchor_envelope \<Rightarrow> anchor_format_error + bytes" where
  "encode_historical_anchor_envelope_v1 envelope =
     bindE (validate_historical_anchor_envelope_v1 envelope) (\<lambda>_. Inr (anchor_envelope_image envelope))"

definition decode_historical_anchor_envelope_v1 :: "bytes \<Rightarrow> anchor_format_error + anchor_envelope" where
  "decode_historical_anchor_envelope_v1 bytes =
     (if length bytes \<noteq> POOL_V1_HISTORICAL_ANCHOR_ENVELOPE_BYTES then Inl AWrongLength
      else if seg 0 4 bytes \<noteq> POOL_V1_HISTORICAL_ANCHOR_MAGIC then Inl AWrongMagic
      else if bytes ! 4 \<noteq> POOL_V1_HISTORICAL_ANCHOR_VERSION then Inl AWrongVersion
      else bindE (decode_transition_kind (bytes ! 5)) (\<lambda>kind.
      if bytes ! 6 \<noteq> POOL_V1_DIGEST_ENCODING_VERSION then Inl AWrongDigestEncoding
      else if bytes ! 7 \<noteq> 0 then Inl ANonZeroReserved
      else bindE (map_err (\<lambda>_. ANonCanonicalDigest)
                   (decode_digest_canonical (seg ENVELOPE_ROOT_OFFSET ENVELOPE_NULLIFIER_OFFSET bytes))) (\<lambda>anchor_root.
      bindE (map_err (\<lambda>_. ANonCanonicalDigest)
              (decode_digest_canonical (seg ENVELOPE_NULLIFIER_OFFSET ENVELOPE_PROFILE_OFFSET bytes))) (\<lambda>nullifier.
      let envelope = \<lparr> ae_transition_kind = kind,
            ae_pool = seg ENVELOPE_POOL_OFFSET ENVELOPE_DEPLOYMENT_DOMAIN_OFFSET bytes,
            ae_deployment_domain = seg ENVELOPE_DEPLOYMENT_DOMAIN_OFFSET ENVELOPE_SEQUENCE_OFFSET bytes,
            ae_anchor_sequence = from_le (seg ENVELOPE_SEQUENCE_OFFSET ENVELOPE_ROOT_OFFSET bytes),
            ae_anchor_root = anchor_root, ae_nullifier = nullifier,
            ae_verifier_profile = seg ENVELOPE_PROFILE_OFFSET ENVELOPE_RELEASE_OFFSET bytes,
            ae_verifier_release = drop ENVELOPE_RELEASE_OFFSET bytes \<rparr>
      in bindE (validate_historical_anchor_envelope_v1 envelope) (\<lambda>_. Inr envelope)))))"

section \<open>The nullifier marker\<close>

definition POOL_V1_NULLIFIER_MARKER_MAGIC :: bytes where [layout_defs]: "POOL_V1_NULLIFIER_MARKER_MAGIC = [0x41, 0x53, 0x4E, 0x4D]"
definition POOL_V1_NULLIFIER_MARKER_VERSION :: u8 where [layout_defs]: "POOL_V1_NULLIFIER_MARKER_VERSION = 1"
definition POOL_V1_NULLIFIER_MARKER_ACCOUNT_BYTES :: nat where [layout_defs]: "POOL_V1_NULLIFIER_MARKER_ACCOUNT_BYTES = 208"
definition POOL_V1_NULLIFIER_MARKER_SEED :: bytes where
  "POOL_V1_NULLIFIER_MARKER_SEED = [0x61, 0x73, 0x70, 0x69, 0x73, 0x2D, 0x70, 0x6F, 0x6F, 0x6C, 0x2D, 0x6E, 0x75, 0x6C, 0x6C, 0x69, 0x66, 0x69, 0x65, 0x72, 0x2D, 0x76, 0x31]"
definition MARKER_POOL_OFFSET :: nat where [layout_defs]: "MARKER_POOL_OFFSET = 8"
definition MARKER_DEPLOYMENT_DOMAIN_OFFSET :: nat where [layout_defs]: "MARKER_DEPLOYMENT_DOMAIN_OFFSET = 40"
definition MARKER_NULLIFIER_OFFSET :: nat where [layout_defs]: "MARKER_NULLIFIER_OFFSET = 72"
definition MARKER_ANCHOR_SEQUENCE_OFFSET :: nat where [layout_defs]: "MARKER_ANCHOR_SEQUENCE_OFFSET = 104"
definition MARKER_ANCHOR_ROOT_OFFSET :: nat where [layout_defs]: "MARKER_ANCHOR_ROOT_OFFSET = 112"
definition MARKER_PROFILE_OFFSET :: nat where [layout_defs]: "MARKER_PROFILE_OFFSET = 144"
definition MARKER_RELEASE_OFFSET :: nat where [layout_defs]: "MARKER_RELEASE_OFFSET = 176"

datatype marker_format_error =
  MWrongLength | MWrongMagic | MWrongVersion | MWrongDigestEncoding | MNonZeroReserved | MInvalidTransitionKind
  | MZeroRequiredBinding | MInvalidAnchorSequence | MNonCanonicalDigest

record nullifier_marker =
  nm_transition_kind :: transition_kind
  nm_pool :: bytes
  nm_deployment_domain :: bytes
  nm_nullifier :: digest
  nm_retained_anchor_sequence :: u64
  nm_retained_anchor_root :: digest
  nm_verifier_profile :: bytes
  nm_verifier_release :: bytes

definition from_historical_anchor :: "anchor_envelope \<Rightarrow> nullifier_marker" where
  "from_historical_anchor envelope =
     \<lparr> nm_transition_kind = ae_transition_kind envelope, nm_pool = ae_pool envelope,
       nm_deployment_domain = ae_deployment_domain envelope, nm_nullifier = ae_nullifier envelope,
       nm_retained_anchor_sequence = ae_anchor_sequence envelope, nm_retained_anchor_root = ae_anchor_root envelope,
       nm_verifier_profile = ae_verifier_profile envelope, nm_verifier_release = ae_verifier_release envelope \<rparr>"

definition canonical_nullifier_encoding :: "nullifier_marker \<Rightarrow> bytes" where
  "canonical_nullifier_encoding marker = encode_digest_canonical (nm_nullifier marker)"

definition validate_pool_v1_nullifier_marker :: "nullifier_marker \<Rightarrow> marker_format_error + unit" where
  "validate_pool_v1_nullifier_marker marker =
     (if nm_pool marker = zeros 32 \<or> nm_deployment_domain marker = zeros 32
         \<or> nm_verifier_profile marker = zeros 32 \<or> nm_verifier_release marker = zeros 32
      then Inl MZeroRequiredBinding
      else if POOL_V1_LEAF_CAPACITY < nm_retained_anchor_sequence marker then Inl MInvalidAnchorSequence
      else if \<not> canonical_digest (nm_nullifier marker) \<or> \<not> canonical_digest (nm_retained_anchor_root marker)
      then Inl MNonCanonicalDigest
      else Inr ())"

definition nullifier_marker_image :: "nullifier_marker \<Rightarrow> bytes" where
  "nullifier_marker_image marker =
     (let output = zeros POOL_V1_NULLIFIER_MARKER_ACCOUNT_BYTES;
          output = put 0 POOL_V1_NULLIFIER_MARKER_MAGIC output;
          output = output[4 := POOL_V1_NULLIFIER_MARKER_VERSION];
          output = output[5 := transition_kind_byte (nm_transition_kind marker)];
          output = output[6 := POOL_V1_DIGEST_ENCODING_VERSION];
          output = put MARKER_POOL_OFFSET (nm_pool marker) output;
          output = put MARKER_DEPLOYMENT_DOMAIN_OFFSET (nm_deployment_domain marker) output;
          output = put MARKER_NULLIFIER_OFFSET (encode_digest_canonical (nm_nullifier marker)) output;
          output = put MARKER_ANCHOR_SEQUENCE_OFFSET (to_le 8 (nm_retained_anchor_sequence marker)) output;
          output = put MARKER_ANCHOR_ROOT_OFFSET (encode_digest_canonical (nm_retained_anchor_root marker)) output;
          output = put MARKER_PROFILE_OFFSET (nm_verifier_profile marker) output
      in put MARKER_RELEASE_OFFSET (nm_verifier_release marker) output)"

definition encode_pool_v1_nullifier_marker :: "nullifier_marker \<Rightarrow> marker_format_error + bytes" where
  "encode_pool_v1_nullifier_marker marker =
     bindE (validate_pool_v1_nullifier_marker marker) (\<lambda>_. Inr (nullifier_marker_image marker))"

definition decode_pool_v1_nullifier_marker :: "bytes \<Rightarrow> marker_format_error + nullifier_marker" where
  "decode_pool_v1_nullifier_marker bytes =
     (if length bytes \<noteq> POOL_V1_NULLIFIER_MARKER_ACCOUNT_BYTES then Inl MWrongLength
      else if seg 0 4 bytes \<noteq> POOL_V1_NULLIFIER_MARKER_MAGIC then Inl MWrongMagic
      else if bytes ! 4 \<noteq> POOL_V1_NULLIFIER_MARKER_VERSION then Inl MWrongVersion
      else bindE (if bytes ! 5 = 1 then Inr PrivateTransfer else if bytes ! 5 = 2 then Inr Withdrawal
                  else Inl MInvalidTransitionKind) (\<lambda>kind.
      if bytes ! 6 \<noteq> POOL_V1_DIGEST_ENCODING_VERSION then Inl MWrongDigestEncoding
      else if bytes ! 7 \<noteq> 0 then Inl MNonZeroReserved
      else bindE (map_err (\<lambda>_. MNonCanonicalDigest)
                   (decode_digest_canonical (seg MARKER_NULLIFIER_OFFSET MARKER_ANCHOR_SEQUENCE_OFFSET bytes))) (\<lambda>nullifier.
      bindE (map_err (\<lambda>_. MNonCanonicalDigest)
              (decode_digest_canonical (seg MARKER_ANCHOR_ROOT_OFFSET MARKER_PROFILE_OFFSET bytes))) (\<lambda>anchor_root.
      let marker = \<lparr> nm_transition_kind = kind,
            nm_pool = seg MARKER_POOL_OFFSET MARKER_DEPLOYMENT_DOMAIN_OFFSET bytes,
            nm_deployment_domain = seg MARKER_DEPLOYMENT_DOMAIN_OFFSET MARKER_NULLIFIER_OFFSET bytes,
            nm_nullifier = nullifier,
            nm_retained_anchor_sequence = from_le (seg MARKER_ANCHOR_SEQUENCE_OFFSET MARKER_ANCHOR_ROOT_OFFSET bytes),
            nm_retained_anchor_root = anchor_root,
            nm_verifier_profile = seg MARKER_PROFILE_OFFSET MARKER_RELEASE_OFFSET bytes,
            nm_verifier_release = drop MARKER_RELEASE_OFFSET bytes \<rparr>
      in bindE (validate_pool_v1_nullifier_marker marker) (\<lambda>_. Inr marker)))))"

section \<open>Images\<close>

definition envelope_ok :: "anchor_envelope \<Rightarrow> bool" where
  "envelope_ok e \<longleftrightarrow> length (ae_pool e) = 32 \<and> length (ae_deployment_domain e) = 32 \<and> length (ae_anchor_root e) = 8
     \<and> length (ae_nullifier e) = 8 \<and> length (ae_verifier_profile e) = 32 \<and> length (ae_verifier_release e) = 32"

definition marker_ok :: "nullifier_marker \<Rightarrow> bool" where
  "marker_ok m \<longleftrightarrow> length (nm_pool m) = 32 \<and> length (nm_deployment_domain m) = 32 \<and> length (nm_nullifier m) = 8
     \<and> length (nm_retained_anchor_root m) = 8 \<and> length (nm_verifier_profile m) = 32 \<and> length (nm_verifier_release m) = 32"

lemma canonical_digest_iff: "length d = 8 \<Longrightarrow> canonical_digest d \<longleftrightarrow> digest_ok d"
  by (simp add: canonical_digest_def digest_ok_def canon_def list_all_iff)

lemma transition_kind_byte_eq:
  "transition_kind_byte k = b \<longleftrightarrow> decode_transition_kind b = Inr k" "decode_transition_kind (transition_kind_byte k) = Inr k"
  by (cases k; auto simp: transition_kind_byte_def decode_transition_kind_def)+

lemma marker_kind_eq:
  "(if b = 1 then Inr PrivateTransfer else if b = 2 then Inr Withdrawal else Inl MInvalidTransitionKind) = Inr k
     \<longleftrightarrow> transition_kind_byte k = b"
  by (cases k) (auto simp: transition_kind_byte_def)

interpretation envelope_codec: image_codec encode_historical_anchor_envelope_v1 decode_historical_anchor_envelope_v1
  envelope_ok POOL_V1_HISTORICAL_ANCHOR_ENVELOPE_BYTES
proof (rule image_codecI [where check = validate_historical_anchor_envelope_v1 and img = anchor_envelope_image
      and cs = "[4, 5, 6, 7, 8, 40, 72, 80, 112, 144, 176, 208]"])
  fix e assume ok: "envelope_ok e"
  have len: "length (encode_digest_canonical (ae_anchor_root e)) = 32" "length (encode_digest_canonical (ae_nullifier e)) = 32"
    using ok by (simp_all add: envelope_ok_def)
  show "length (anchor_envelope_image e) = POOL_V1_HISTORICAL_ANCHOR_ENVELOPE_BYTES"
    using ok len by (simp add: anchor_envelope_image_def envelope_ok_def Let_def layout_defs)
  assume check: "validate_historical_anchor_envelope_v1 e = Inr ()"
  then have "digest_ok (ae_anchor_root e)" "digest_ok (ae_nullifier e)"
    using ok by (simp_all add: validate_historical_anchor_envelope_v1_def envelope_ok_def canonical_digest_iff)
  then show "decode_historical_anchor_envelope_v1 (anchor_envelope_image e) = Inr e"
    using ok len check
    by (cases e) (simp add: decode_historical_anchor_envelope_v1_def anchor_envelope_image_def envelope_ok_def Let_def
        layout_defs image_simps transition_kind_byte_eq drop_eq_seg [of _ 208])
next
  fix b e assume dec: "decode_historical_anchor_envelope_v1 b = Inr e"
  then show "length b = POOL_V1_HISTORICAL_ANCHOR_ENVELOPE_BYTES \<and> envelope_ok e \<and> validate_historical_anchor_envelope_v1 e = Inr ()"
    by (auto simp: decode_historical_anchor_envelope_v1_def envelope_ok_def Let_def layout_defs decode_digest_eq_Inr digest_ok_def)
  assume "length b = POOL_V1_HISTORICAL_ANCHOR_ENVELOPE_BYTES" "envelope_ok e"
  with dec show "agree_on [0, 4, 5, 6, 7, 8, 40, 72, 80, 112, 144, 176, 208] (anchor_envelope_image e) b"
    by (auto simp: decode_historical_anchor_envelope_v1_def anchor_envelope_image_def Let_def layout_defs image_simps seg_one
        decode_digest_eq_Inr transition_kind_byte_eq digest_ok_def drop_eq_seg [of _ 208])
qed (simp_all add: layout_defs encode_historical_anchor_envelope_v1_def)

interpretation marker_codec: image_codec encode_pool_v1_nullifier_marker decode_pool_v1_nullifier_marker
  marker_ok POOL_V1_NULLIFIER_MARKER_ACCOUNT_BYTES
proof (rule image_codecI [where check = validate_pool_v1_nullifier_marker and img = nullifier_marker_image
      and cs = "[4, 5, 6, 7, 8, 40, 72, 104, 112, 144, 176, 208]"])
  fix m assume ok: "marker_ok m"
  have len: "length (encode_digest_canonical (nm_nullifier m)) = 32" "length (encode_digest_canonical (nm_retained_anchor_root m)) = 32"
    using ok by (simp_all add: marker_ok_def)
  show "length (nullifier_marker_image m) = POOL_V1_NULLIFIER_MARKER_ACCOUNT_BYTES"
    using ok len by (simp add: nullifier_marker_image_def marker_ok_def Let_def layout_defs)
  assume check: "validate_pool_v1_nullifier_marker m = Inr ()"
  then have "digest_ok (nm_nullifier m)" "digest_ok (nm_retained_anchor_root m)"
    using ok by (simp_all add: validate_pool_v1_nullifier_marker_def marker_ok_def canonical_digest_iff)
  then show "decode_pool_v1_nullifier_marker (nullifier_marker_image m) = Inr m"
    using ok len check
    by (cases m) (simp add: decode_pool_v1_nullifier_marker_def nullifier_marker_image_def marker_ok_def Let_def
        layout_defs image_simps drop_eq_seg [of _ 208], simp add: transition_kind_byte_def split: transition_kind.split)
next
  fix b m assume dec: "decode_pool_v1_nullifier_marker b = Inr m"
  then show "length b = POOL_V1_NULLIFIER_MARKER_ACCOUNT_BYTES \<and> marker_ok m \<and> validate_pool_v1_nullifier_marker m = Inr ()"
    by (auto simp: decode_pool_v1_nullifier_marker_def marker_ok_def Let_def layout_defs decode_digest_eq_Inr digest_ok_def)
  assume "length b = POOL_V1_NULLIFIER_MARKER_ACCOUNT_BYTES" "marker_ok m"
  with dec show "agree_on [0, 4, 5, 6, 7, 8, 40, 72, 104, 112, 144, 176, 208] (nullifier_marker_image m) b"
    by (auto simp: decode_pool_v1_nullifier_marker_def nullifier_marker_image_def Let_def layout_defs image_simps seg_one
        decode_digest_eq_Inr marker_kind_eq digest_ok_def drop_eq_seg [of _ 208])
qed (simp_all add: layout_defs encode_pool_v1_nullifier_marker_def)

lemma marker_from_anchor:
  assumes "decode_historical_anchor_envelope_v1 b = Inr e"
  shows "marker_ok (from_historical_anchor e)"
    "encode_pool_v1_nullifier_marker (from_historical_anchor e) = Inr (nullifier_marker_image (from_historical_anchor e))"
proof -
  from assms have "envelope_ok e" "validate_historical_anchor_envelope_v1 e = Inr ()"
    using envelope_codec.wf_dec envelope_codec.enc_dec by (auto simp: encode_historical_anchor_envelope_v1_def)
  then show "marker_ok (from_historical_anchor e)"
    "encode_pool_v1_nullifier_marker (from_historical_anchor e) = Inr (nullifier_marker_image (from_historical_anchor e))"
    by (auto simp: marker_ok_def envelope_ok_def from_historical_anchor_def encode_pool_v1_nullifier_marker_def
        validate_historical_anchor_envelope_v1_def validate_pool_v1_nullifier_marker_def)
qed

lemma marker_not_zero: "decode_pool_v1_nullifier_marker b = Inr m \<Longrightarrow> \<exists>byte \<in> set b. byte \<noteq> 0"
proof (rule ccontr)
  assume dec: "decode_pool_v1_nullifier_marker b = Inr m" and "\<not> (\<exists>byte \<in> set b. byte \<noteq> 0)"
  then have "b ! 0 = 0" "seg 0 4 b = POOL_V1_NULLIFIER_MARKER_MAGIC" "length b = 208"
    by (auto simp: decode_pool_v1_nullifier_marker_def layout_defs)
  moreover have "seg 0 4 b ! 0 = b ! 0" using calculation(3) by (simp add: nth_seg)
  ultimately show False by (simp add: layout_defs)
qed

end
