(* ===== verification/PoolAnchor.thy ===== *)
theory PoolAnchor
  imports TransitionCorrect SpendFormats
begin

text \<open>
  The read-only checks a spend makes before any write: the historical anchor of \<open>programs/aspis-pool/src/anchor.rs\<close>,
  the reuse of its page validation for the current page in \<open>transition.rs\<close>, and the plan for the nullifier marker of
  \<open>nullifier.rs\<close>. On a pool that represents a list of leaves an authenticated anchor is the root after its
  sequence of leaves, the reused page evidence is the one a full validation returns, and a consumed nullifier
  is refused.
\<close>

section \<open>Historical anchors\<close>

record anchor_authorization =
  aa_transition_kind :: transition_kind
  aa_verifier_profile :: bytes
  aa_verifier_release :: bytes

record authenticated_anchor =
  au_pool :: bytes
  au_deployment_domain :: bytes
  au_anchor_sequence :: u64
  au_anchor_root :: digest
  au_nullifier :: digest
  au_transition_kind :: transition_kind
  au_verifier_profile :: bytes
  au_verifier_release :: bytes

record prevalidated_anchor =
  pv_authenticated :: authenticated_anchor
  pv_history_page :: bytes
  pv_header :: root_page_header

definition load_canonical_pool_state :: "solana \<Rightarrow> bytes \<Rightarrow> account \<Rightarrow> program_error + pool_state" where
  "load_canonical_pool_state env program_id pool_account =
     bindE (require_program_owned pool_account program_id) (\<lambda>_.
     if ac_is_signer pool_account then Inl InvalidAccountData
     else bindE (state_decode (ac_data pool_account) (ac_key pool_account)) (\<lambda>state.
     if ac_key pool_account \<noteq> fst (pool_v1_state_address env program_id (id_asset_mint (ps_identity state)))
     then pool_fail InvalidPoolStateAddress else Inr state))"

definition bind_envelope_to_state_and_selection ::
  "account \<Rightarrow> pool_state \<Rightarrow> anchor_envelope \<Rightarrow> anchor_authorization \<Rightarrow> program_error + unit" where
  "bind_envelope_to_state_and_selection pool_account state envelope expected =
     (if ae_pool envelope \<noteq> ac_key pool_account \<or> ae_pool envelope \<noteq> id_pool (ps_identity state)
         \<or> ae_deployment_domain envelope \<noteq> id_deployment_domain (ps_identity state)
      then pool_fail HistoricalAnchorIdentityMismatch
      else if ae_transition_kind envelope \<noteq> aa_transition_kind expected
         \<or> ae_verifier_profile envelope \<noteq> aa_verifier_profile expected
         \<or> ae_verifier_release envelope \<noteq> aa_verifier_release expected
      then pool_fail HistoricalAnchorSelectionMismatch
      else if current_root_sequence state < ae_anchor_sequence envelope then pool_fail HistoricalAnchorInFuture
      else Inr ())"

definition require_history_page_privileges :: "account \<Rightarrow> u64 \<Rightarrow> u64 \<Rightarrow> program_error + unit" where
  "require_history_page_privileges history_page_account anchor_page_number current_page_number =
     (if ac_is_signer history_page_account
         \<or> anchor_page_number \<noteq> current_page_number \<and> ac_is_writable history_page_account
      then pool_fail InvalidHistoricalAnchorPage else Inr ())"

definition authenticate_historical_anchor_against_state_v1 ::
  "solana \<Rightarrow> bytes \<Rightarrow> account \<Rightarrow> account \<Rightarrow> bytes \<Rightarrow> anchor_authorization \<Rightarrow> pool_state \<Rightarrow> program_error + prevalidated_anchor" where
  "authenticate_historical_anchor_against_state_v1 env program_id pool_account history_page_account envelope_bytes expected state =
     bindE (map_err (\<lambda>_. pool_error InvalidHistoricalAnchorEnvelope) (decode_historical_anchor_envelope_v1 envelope_bytes)) (\<lambda>envelope.
     bindE (bind_envelope_to_state_and_selection pool_account state envelope expected) (\<lambda>_.
     let location = root_history_location (ae_anchor_sequence envelope);
         current_location = root_history_location (current_root_sequence state)
     in bindE (require_program_owned history_page_account program_id) (\<lambda>_.
     bindE (require_history_page_privileges history_page_account (loc_page_number location) (loc_page_number current_location)) (\<lambda>_.
     bindE (require_root_page_address env program_id (ac_key pool_account) (loc_page_number location) history_page_account) (\<lambda>_.
     bindE (map_err (\<lambda>_. pool_error InvalidHistoricalAnchorPage)
             (validate_root_page_bytes (ac_data history_page_account) (ac_key pool_account) (loc_page_number location))) (\<lambda>header.
     bindE (map_err (\<lambda>_. pool_error InvalidHistoricalAnchorPage)
             (read_retained_root (ac_data history_page_account) header (ae_anchor_sequence envelope))) (\<lambda>retained_root.
     if retained_root \<noteq> ae_anchor_root envelope then pool_fail HistoricalAnchorRootMismatch
     else Inr \<lparr> pv_authenticated = \<lparr> au_pool = ae_pool envelope, au_deployment_domain = ae_deployment_domain envelope,
                  au_anchor_sequence = ae_anchor_sequence envelope, au_anchor_root = ae_anchor_root envelope,
                  au_nullifier = ae_nullifier envelope, au_transition_kind = ae_transition_kind envelope,
                  au_verifier_profile = ae_verifier_profile envelope, au_verifier_release = ae_verifier_release envelope \<rparr>,
                 pv_history_page = ac_key history_page_account, pv_header = header \<rparr>)))))))"

definition authenticate_historical_anchor_after_prevalidated_state_v1 ::
  "solana \<Rightarrow> bytes \<Rightarrow> account \<Rightarrow> account \<Rightarrow> bytes \<Rightarrow> anchor_authorization \<Rightarrow> canonical_pool_state \<Rightarrow> program_error + prevalidated_anchor" where
  "authenticate_historical_anchor_after_prevalidated_state_v1 env program_id pool_account history_page_account envelope_bytes expected state =
     bindE (require_same_writable_account state program_id pool_account) (\<lambda>_.
     authenticate_historical_anchor_against_state_v1 env program_id pool_account history_page_account envelope_bytes expected
       (cp_state state))"

definition authenticate_historical_anchor_v1 ::
  "solana \<Rightarrow> bytes \<Rightarrow> account \<Rightarrow> account \<Rightarrow> bytes \<Rightarrow> anchor_authorization \<Rightarrow> program_error + authenticated_anchor" where
  "authenticate_historical_anchor_v1 env program_id pool_account history_page_account envelope_bytes expected =
     bindE (load_canonical_pool_state env program_id pool_account) (\<lambda>state.
     bindE (authenticate_historical_anchor_against_state_v1 env program_id pool_account history_page_account envelope_bytes
              expected state) (\<lambda>p. Inr (pv_authenticated p)))"

section \<open>The current page after the anchor\<close>

definition reuse_anchor_page ::
  "solana \<Rightarrow> bytes \<Rightarrow> account \<Rightarrow> account \<Rightarrow> pool_state \<Rightarrow> prevalidated_anchor \<Rightarrow> program_error + root_page_header" where
  "reuse_anchor_page env program_id pool_account history_account state anchor =
     (let location = root_history_location (current_root_sequence state)
      in bindE (require_program_owned history_account program_id) (\<lambda>_.
         bindE (require_root_page_address env program_id (ac_key pool_account) (loc_page_number location) history_account) (\<lambda>_.
         let header = pv_header anchor
         in if hd_pool header \<noteq> ac_key pool_account \<or> hd_filled header \<noteq> loc_slot location + 1
            then pool_fail StateHistoryMismatch
            else bindE (check_retained_current_root (ac_data history_account) header state) (\<lambda>_. Inr header))))"

definition validate_current_history_after_prevalidated_anchor_v1 ::
  "solana \<Rightarrow> bytes \<Rightarrow> account \<Rightarrow> account \<Rightarrow> canonical_pool_state \<Rightarrow> prevalidated_anchor
     \<Rightarrow> program_error + prevalidated_current_history" where
  "validate_current_history_after_prevalidated_anchor_v1 env program_id pool_account history_account state anchor =
     bindE (require_same_writable_account state program_id pool_account) (\<lambda>_.
     let sequence = current_root_sequence (cp_state state);
         location = root_history_location sequence;
         authenticated = pv_authenticated anchor
     in if au_pool authenticated \<noteq> ac_key pool_account \<or> au_pool authenticated \<noteq> id_pool (ps_identity (cp_state state))
           \<or> sequence < au_anchor_sequence authenticated
        then pool_fail StateHistoryMismatch
        else bindE (if pv_history_page anchor = ac_key history_account
                       \<and> hd_page_number (pv_header anchor) = loc_page_number location
                    then reuse_anchor_page env program_id pool_account history_account (cp_state state) anchor
                    else validate_current_history env program_id pool_account history_account (cp_state state)) (\<lambda>header.
        Inr \<lparr> ph_program_id = program_id, ph_pool = ac_key pool_account, ph_history_page = ac_key history_account,
               ph_sequence = sequence, ph_root = tree_root (ps_tree (cp_state state)), ph_header = header \<rparr>))"

section \<open>Nullifier markers\<close>

datatype nullifier_marker_preparation = MarkerCreateOrAllocateSystemOwned | MarkerPopulateProgramOwnedZeroed

record planned_nullifier_marker =
  pl_preparation :: nullifier_marker_preparation
  pl_address_bump :: u8
  pl_marker :: nullifier_marker
  pl_encoded_marker :: bytes

definition pool_v1_nullifier_marker_address :: "solana \<Rightarrow> bytes \<Rightarrow> bytes \<Rightarrow> bytes \<Rightarrow> program_error + bytes \<times> u8" where
  "pool_v1_nullifier_marker_address env program_id pool canonical_nullifier =
     bindE (map_err (\<lambda>_. pool_error InvalidNullifierMarkerAccount) (decode_digest_canonical canonical_nullifier)) (\<lambda>_.
     Inr (find_program_address env [POOL_V1_NULLIFIER_MARKER_SEED, pool, canonical_nullifier] program_id))"

definition plan_nullifier_marker_consumption_v1 ::
  "solana \<Rightarrow> bytes \<Rightarrow> account \<Rightarrow> nullifier_marker \<Rightarrow> program_error + planned_nullifier_marker" where
  "plan_nullifier_marker_consumption_v1 env program_id marker_account marker =
     bindE (map_err (\<lambda>_. pool_error InvalidNullifierMarkerAccount) (encode_pool_v1_nullifier_marker marker)) (\<lambda>encoded_marker.
     bindE (pool_v1_nullifier_marker_address env program_id (nm_pool marker) (canonical_nullifier_encoding marker))
       (\<lambda>(expected_address, address_bump).
     if ac_key marker_account \<noteq> expected_address \<or> ac_key marker_account = nm_pool marker
     then pool_fail InvalidNullifierMarkerAddress
     else if ac_executable marker_account \<or> ac_is_signer marker_account \<or> \<not> ac_is_writable marker_account
     then pool_fail InvalidNullifierMarkerAccount
     else bindE (if ac_owner marker_account = program_id
                 then let data = ac_data marker_account
                      in if length data \<noteq> POOL_V1_NULLIFIER_MARKER_ACCOUNT_BYTES then pool_fail InvalidNullifierMarkerAccount
                         else if \<forall>byte \<in> set data. byte = 0 then Inr MarkerPopulateProgramOwnedZeroed
                         else if is_ok (decode_pool_v1_nullifier_marker data) then pool_fail NullifierAlreadyConsumed
                         else pool_fail InvalidNullifierMarkerAccount
                 else if ac_owner marker_account = system_program_id env \<and> ac_data marker_account = []
                 then Inr MarkerCreateOrAllocateSystemOwned
                 else pool_fail InvalidNullifierMarkerAccount) (\<lambda>preparation.
     Inr \<lparr> pl_preparation = preparation, pl_address_bump = address_bump, pl_marker = marker,
            pl_encoded_marker = encoded_marker \<rparr>)))"

section \<open>Anchors name retained roots\<close>

text \<open>
  The page account of sequence \<open>q\<close> as the pool's own writes left it. Only the account at the derived address
  passes the address check, so this is what the check reads.
\<close>

definition page_account_current :: "bytes \<Rightarrow> digest list \<Rightarrow> u64 \<Rightarrow> account \<Rightarrow> bool" where
  "page_account_current pool leaves q account \<longleftrightarrow>
     (unat q \<le> length leaves \<longrightarrow> ac_data account = history_page pool leaves (unat q div 256))"

definition anchor_of :: "anchor_envelope \<Rightarrow> authenticated_anchor" where
  "anchor_of envelope = \<lparr> au_pool = ae_pool envelope, au_deployment_domain = ae_deployment_domain envelope,
     au_anchor_sequence = ae_anchor_sequence envelope, au_anchor_root = ae_anchor_root envelope,
     au_nullifier = ae_nullifier envelope, au_transition_kind = ae_transition_kind envelope,
     au_verifier_profile = ae_verifier_profile envelope, au_verifier_release = ae_verifier_release envelope \<rparr>"

lemma authenticate_anchor_eq:
  assumes rep: "pool_represents s leaves" and len: "length (ac_key pool_account) = 32"
    and dec: "decode_historical_anchor_envelope_v1 envelope_bytes = Inr e"
    and data: "page_account_current (ac_key pool_account) leaves (ae_anchor_sequence e) page"
  shows "authenticate_historical_anchor_against_state_v1 env program_id pool_account page envelope_bytes expected s =
    bindE (bind_envelope_to_state_and_selection pool_account s e expected) (\<lambda>_.
    let q = unat (ae_anchor_sequence e)
    in bindE (require_program_owned page program_id) (\<lambda>_.
       bindE (require_history_page_privileges page (of_nat (q div 256)) (of_nat (length leaves div 256))) (\<lambda>_.
       bindE (require_root_page_address env program_id (ac_key pool_account) (of_nat (q div 256)) page) (\<lambda>_.
       if root_after leaves q \<noteq> ae_anchor_root e then pool_fail HistoricalAnchorRootMismatch
       else Inr \<lparr> pv_authenticated = anchor_of e, pv_history_page = ac_key page,
                   pv_header = history_header (ac_key pool_account) leaves (q div 256) \<rparr>))))"
proof (cases "bind_envelope_to_state_and_selection pool_account s e expected")
  case (Inl err)
  then show ?thesis by (simp add: authenticate_historical_anchor_against_state_v1_def dec)
next
  case (Inr u)
  let ?q = "unat (ae_anchor_sequence e)" and ?key = "ac_key pool_account"
  have leaves: "list_all digest_ok leaves" "length leaves \<le> 2 ^ 20" using rep by (simp_all add: pool_represents_def)
  note seq = represents_sequence(1) [OF rep]
  have q: "?q \<le> length leaves"
    using Inr seq by (auto simp: bind_envelope_to_state_and_selection_def word_less_nat_alt split: if_splits)
  then have page: "ac_data page = history_page ?key leaves (?q div 256)" using data by (simp add: page_account_current_def)
  have valid: "validate_root_page_bytes (ac_data page) ?key (of_nat (?q div 256)) = Inr (history_header ?key leaves (?q div 256))"
    unfolding page using leaves len q by (intro history_page_valid) auto
  have read: "read_retained_root (ac_data page) (history_header ?key leaves (?q div 256)) (ae_anchor_sequence e) = Inr (root_after leaves ?q)"
    unfolding page using leaves len q by (rule history_page_read)
  show ?thesis
    using Inr by (simp add: authenticate_historical_anchor_against_state_v1_def dec Let_def seq_page seq valid read anchor_of_def
        del: loc_page_number_location)
qed

lemma authenticated_anchor_retained:
  assumes "pool_represents s leaves" "length (ac_key pool_account) = 32"
    "\<And>e. decode_historical_anchor_envelope_v1 envelope_bytes = Inr e \<Longrightarrow>
      page_account_current (ac_key pool_account) leaves (ae_anchor_sequence e) page"
    "authenticate_historical_anchor_against_state_v1 env program_id pool_account page envelope_bytes expected s = Inr p"
  obtains e where "decode_historical_anchor_envelope_v1 envelope_bytes = Inr e" "pv_authenticated p = anchor_of e"
    "unat (ae_anchor_sequence e) \<le> length leaves" "ae_anchor_root e = root_after leaves (unat (ae_anchor_sequence e))"
    "pv_history_page p = ac_key page"
    "pv_header p = history_header (ac_key pool_account) leaves (unat (ae_anchor_sequence e) div 256)"
    "ae_pool e = ac_key pool_account" "ae_deployment_domain e = id_deployment_domain (ps_identity s)"
proof -
  from assms(4) obtain e where dec: "decode_historical_anchor_envelope_v1 envelope_bytes = Inr e"
    by (auto simp: authenticate_historical_anchor_against_state_v1_def)
  show ?thesis
    using assms(4) represents_sequence(1) [OF assms(1)]
    unfolding authenticate_anchor_eq [OF assms(1,2) dec assms(3) [OF dec]]
    by (intro that [OF dec]) (auto simp: bind_envelope_to_state_and_selection_def Let_def word_less_nat_alt split: if_splits)
qed

section \<open>Reused page evidence\<close>

lemma reused_history_eq:
  assumes rep: "pool_represents s leaves" and len: "length (ac_key pool_account) = 32" and c: "cp_state c = s"
    and data: "ac_data current = history_page (ac_key pool_account) leaves (length leaves div 256)"
    and header: "\<exists>q. pv_header anchor = history_header (ac_key pool_account) leaves q \<and> q \<le> 2 ^ 20"
    and run: "validate_current_history_after_prevalidated_anchor_v1 env program_id pool_account current c anchor = Inr e"
  shows "validate_current_history env program_id pool_account current s = Inr (ph_header e)"
    and "history_require_matches env e program_id pool_account current s = Inr (ph_header e)"
    and "ph_header e = history_header (ac_key pool_account) leaves (length leaves div 256)"
proof -
  let ?h = "history_header (ac_key pool_account) leaves (length leaves div 256)"
  note full = current_history_eq [OF rep len data, of env program_id]
  note seq = represents_sequence(1) [OF rep]
  have page: "loc_page_number (root_history_location (current_root_sequence s)) = of_nat (length leaves div 256)"
    using seq by (simp add: seq_page del: loc_page_number_location)
  have fits: "length leaves div 256 \<le> 2 ^ 20" using rep by (intro le_trans [OF div_le_dividend]) (simp add: pool_represents_def)
  have same: "pv_header anchor = ?h" if "hd_page_number (pv_header anchor) = of_nat (length leaves div 256)"
  proof -
    obtain q where q: "pv_header anchor = history_header (ac_key pool_account) leaves q" "q \<le> 2 ^ 20" using header by blast
    with that fits have "q = length leaves div 256"
      by (simp add: history_header_def word_unat_eq_iff unat_of_nat)
    with q show ?thesis by simp
  qed
  from run have ok: "require_program_owned current program_id = Inr ()"
      "require_root_page_address env program_id (ac_key pool_account) (of_nat (length leaves div 256)) current = Inr ()"
      "ph_header e = ?h"
    and e: "ph_program_id e = program_id" "ph_pool e = ac_key pool_account" "ph_history_page e = ac_key current"
      "ph_sequence e = current_root_sequence s" "ph_root e = tree_root (ps_tree s)"
    using same full
    by (auto simp: validate_current_history_after_prevalidated_anchor_v1_def reuse_anchor_page_def Let_def c page
        simp del: loc_page_number_location split: if_splits)
  then show "validate_current_history env program_id pool_account current s = Inr (ph_header e)" using full by simp
  show "ph_header e = ?h" by (rule ok(3))
  show "history_require_matches env e program_id pool_account current s = Inr (ph_header e)"
    using ok e by (simp add: history_require_matches_def Let_def page current_page_slot [OF rep, of "ac_key pool_account"]
        del: loc_page_number_location) (simp add: history_header_def)
qed

section \<open>A nullifier is consumed once\<close>

lemma planned_marker:
  assumes "plan_nullifier_marker_consumption_v1 env program_id account m = Inr p"
  shows "pl_marker p = m" "encode_pool_v1_nullifier_marker m = Inr (pl_encoded_marker p)"
    "ac_key account = fst (find_program_address env [POOL_V1_NULLIFIER_MARKER_SEED, nm_pool m, canonical_nullifier_encoding m] program_id)"
    "ac_key account \<noteq> nm_pool m" "ac_owner account = program_id \<Longrightarrow> ac_data account = zeros 208"
proof -
  obtain a b where ab: "find_program_address env [POOL_V1_NULLIFIER_MARKER_SEED, nm_pool m, canonical_nullifier_encoding m] program_id = (a, b)"
    by (cases "find_program_address env [POOL_V1_NULLIFIER_MARKER_SEED, nm_pool m, canonical_nullifier_encoding m] program_id")
  note run = assms [unfolded plan_nullifier_marker_consumption_v1_def pool_v1_nullifier_marker_address_def]
  have zero: "\<forall>byte \<in> set (ac_data account). byte = 0 \<Longrightarrow> ac_data account = zeros (length (ac_data account))"
    using all_zero_iff [of "ac_data account"] by blast
  show "pl_marker p = m" "encode_pool_v1_nullifier_marker m = Inr (pl_encoded_marker p)"
    "ac_key account = fst (find_program_address env [POOL_V1_NULLIFIER_MARKER_SEED, nm_pool m, canonical_nullifier_encoding m] program_id)"
    "ac_key account \<noteq> nm_pool m"
    using run by (auto simp: ab split: if_splits)
  show "ac_data account = zeros 208" if "ac_owner account = program_id"
    using run that zero by (auto simp: ab layout_defs Let_def split: if_splits)
qed

lemma occupied_marker_refused:
  assumes "decode_pool_v1_nullifier_marker (ac_data account) = Inr old" "ac_owner account = program_id"
    "ac_key account = fst (find_program_address env [POOL_V1_NULLIFIER_MARKER_SEED, nm_pool m, canonical_nullifier_encoding m] program_id)"
    "ac_key account \<noteq> nm_pool m" "\<not> ac_executable account" "\<not> ac_is_signer account" "ac_is_writable account"
    "marker_ok m" "validate_pool_v1_nullifier_marker m = Inr ()"
  shows "plan_nullifier_marker_consumption_v1 env program_id account m = Inl (pool_error NullifierAlreadyConsumed)"
proof -
  obtain a b where ab: "find_program_address env [POOL_V1_NULLIFIER_MARKER_SEED, nm_pool m, canonical_nullifier_encoding m] program_id = (a, b)"
    by (cases "find_program_address env [POOL_V1_NULLIFIER_MARKER_SEED, nm_pool m, canonical_nullifier_encoding m] program_id")
  have "digest_ok (nm_nullifier m)"
    using assms(8,9) by (simp add: marker_ok_def validate_pool_v1_nullifier_marker_def canonical_digest_iff)
  then have canonical: "decode_digest_canonical (canonical_nullifier_encoding m) = Inr (nm_nullifier m)"
    by (simp add: canonical_nullifier_encoding_def)
  have len: "length (ac_data account) = 208" using marker_codec.length_dec [OF assms(1)] by (simp add: layout_defs)
  have nonzero: "\<not> (\<forall>byte \<in> set (ac_data account). byte = 0)" using marker_not_zero [OF assms(1)] by blast
  show ?thesis
    using assms(2-7) unfolding plan_nullifier_marker_consumption_v1_def pool_v1_nullifier_marker_address_def Let_def if_not_P [OF nonzero]
    by (simp add: ab assms(1,9) canonical len encode_pool_v1_nullifier_marker_def layout_defs) (simp add: pool_fail_def)
qed

end
