(* ===== verification/RegistryInstruction.thy ===== *)
theory RegistryInstruction
  imports VerifierRegistry
begin

text \<open>
  The instruction wires of the registry program, \<open>programs/aspis-registry/src/instruction.rs\<close>, in
  their two versions. Both wires are instances of \<open>canonical_codec\<close>: every instruction has exactly
  one accepted byte string, whose length is fixed by its opcode.
\<close>

section \<open>Errors and opcodes\<close>

datatype registry_program_error =
  InvalidInstruction | InvalidAccountCount | DuplicateAccount | InvalidRegistryAddress | InvalidRegistryAccount
  | InvalidEntryAddress | InvalidEntryAccount | InvalidAuthority | InvalidPayer | InvalidSystemProgram
  | InvalidFreshAccount | GenerationMismatch | GenerationOverflow | RegistryFrozen | RegistryAlreadyPaused
  | RegistryNotPaused | ActivationDelayOverflow | ActivationDelayNotElapsed | EntryNotPending | EntryNotActive
  | InvalidEntryState | ReplacementNotActive | IncompatibleReplacement | InvalidRetirementSlot
  | InvalidVerifierProgram | InvalidProgramData | VerifierNotImmutable | ExecutableHashMismatch

definition REGISTRY_MUTATION_INSTRUCTION_MAGIC :: bytes where [layout_defs]: "REGISTRY_MUTATION_INSTRUCTION_MAGIC = [0x41, 0x53, 0x52, 0x4D]"
definition REGISTRY_MUTATION_INSTRUCTION_VERSION :: u8 where [layout_defs]: "REGISTRY_MUTATION_INSTRUCTION_VERSION = 1"
definition REGISTRY_MUTATION_INSTRUCTION_VERSION_V2 :: u8 where [layout_defs]: "REGISTRY_MUTATION_INSTRUCTION_VERSION_V2 = 2"
definition REGISTRY_INITIALIZE_INSTRUCTION_BYTES :: nat where [layout_defs]: "REGISTRY_INITIALIZE_INSTRUCTION_BYTES = 80"
definition REGISTRY_INITIALIZE_V2_INSTRUCTION_BYTES :: nat where [layout_defs]: "REGISTRY_INITIALIZE_V2_INSTRUCTION_BYTES = 112"
definition REGISTRY_SCHEDULE_INSTRUCTION_BYTES :: nat where [layout_defs]: "REGISTRY_SCHEDULE_INSTRUCTION_BYTES = 128"
definition REGISTRY_SCHEDULE_V2_INSTRUCTION_BYTES :: nat where [layout_defs]: "REGISTRY_SCHEDULE_V2_INSTRUCTION_BYTES = 160"
definition REGISTRY_SIMPLE_MUTATION_INSTRUCTION_BYTES :: nat where [layout_defs]: "REGISTRY_SIMPLE_MUTATION_INSTRUCTION_BYTES = 16"

datatype registry_opcode =
  OpInitialize | OpScheduleProfile | OpPause | OpUnpause | OpActivate | OpRetire | OpFreeze

definition opcode_byte :: "registry_opcode \<Rightarrow> u8" where
  "opcode_byte opcode = (case opcode of OpInitialize \<Rightarrow> 0 | OpScheduleProfile \<Rightarrow> 1 | OpPause \<Rightarrow> 2 | OpUnpause \<Rightarrow> 3
     | OpActivate \<Rightarrow> 4 | OpRetire \<Rightarrow> 5 | OpFreeze \<Rightarrow> 6)"

definition opcode_try_from :: "u8 \<Rightarrow> registry_program_error + registry_opcode" where
  "opcode_try_from value =
     (if value = 0 then Inr OpInitialize else if value = 1 then Inr OpScheduleProfile
      else if value = 2 then Inr OpPause else if value = 3 then Inr OpUnpause
      else if value = 4 then Inr OpActivate else if value = 5 then Inr OpRetire
      else if value = 6 then Inr OpFreeze else Inl InvalidInstruction)"

record initialize_args =
  in_pool :: bytes
  in_policy_binding :: bytes
  in_minimum_activation_delay_slots :: u64

record schedule_args =
  sc_expected_generation :: u64
  sc_verifier_program :: bytes
  sc_profile_binding :: bytes
  sc_release_binding :: bytes
  sc_statement_version :: u8
  sc_activation_slot :: u64

datatype registry_instruction_v1 =
  Initialize1 initialize_args | ScheduleProfile1 schedule_args
  | Pause1 u64 | Unpause1 u64 | Activate1 u64 | Retire1 u64 | Freeze1 u64

datatype registry_instruction_v2 =
  Initialize2 initialize_args (in_expected_executable_hash: bytes)
  | ScheduleProfile2 schedule_args (sc_expected_executable_hash: bytes)
  | Pause2 u64 | Unpause2 u64 | Activate2 u64 | Retire2 u64 | Freeze2 u64

datatype decoded_registry_instruction = V1 registry_instruction_v1 | V2 registry_instruction_v2

definition v1_requires_clock :: "registry_instruction_v1 \<Rightarrow> bool" where
  "v1_requires_clock i = (case i of ScheduleProfile1 _ \<Rightarrow> True | Activate1 _ \<Rightarrow> True | Retire1 _ \<Rightarrow> True | _ \<Rightarrow> False)"

definition v2_requires_clock :: "registry_instruction_v2 \<Rightarrow> bool" where
  "v2_requires_clock i = (case i of ScheduleProfile2 _ _ \<Rightarrow> True | Activate2 _ \<Rightarrow> True | Retire2 _ \<Rightarrow> True | _ \<Rightarrow> False)"

definition requires_clock :: "decoded_registry_instruction \<Rightarrow> bool" where
  "requires_clock i = (case i of V1 j \<Rightarrow> v1_requires_clock j | V2 j \<Rightarrow> v2_requires_clock j)"

section \<open>Decoding\<close>

definition check_header :: "u8 \<Rightarrow> bytes \<Rightarrow> registry_program_error + registry_opcode" where
  "check_header version bytes =
     (if length bytes < 8 \<or> seg 0 4 bytes \<noteq> REGISTRY_MUTATION_INSTRUCTION_MAGIC \<or> bytes ! 4 \<noteq> version
         \<or> seg 6 8 bytes \<noteq> zeros 2
      then Inl InvalidInstruction else opcode_try_from (bytes ! 5))"

definition require_header :: "bytes \<Rightarrow> registry_program_error + registry_opcode" where
  "require_header bytes = check_header REGISTRY_MUTATION_INSTRUCTION_VERSION bytes"

definition require_header_v2 :: "bytes \<Rightarrow> registry_program_error + registry_opcode" where
  "require_header_v2 bytes = check_header REGISTRY_MUTATION_INSTRUCTION_VERSION_V2 bytes"

definition read_initialize :: "bytes \<Rightarrow> initialize_args" where
  "read_initialize bytes = \<lparr> in_pool = seg 8 40 bytes, in_policy_binding = seg 40 72 bytes,
     in_minimum_activation_delay_slots = from_le (seg 72 80 bytes) \<rparr>"

definition read_schedule :: "bytes \<Rightarrow> schedule_args" where
  "read_schedule bytes = \<lparr> sc_expected_generation = from_le (seg 8 16 bytes), sc_verifier_program = seg 16 48 bytes,
     sc_profile_binding = seg 48 80 bytes, sc_release_binding = seg 80 112 bytes, sc_statement_version = bytes ! 112,
     sc_activation_slot = from_le (seg 120 128 bytes) \<rparr>"

definition decode_registry_instruction_v1 :: "bytes \<Rightarrow> registry_program_error + registry_instruction_v1" where
  "decode_registry_instruction_v1 bytes =
     bindE (require_header bytes) (\<lambda>opcode.
       case opcode of
         OpInitialize \<Rightarrow>
           if length bytes \<noteq> REGISTRY_INITIALIZE_INSTRUCTION_BYTES then Inl InvalidInstruction
           else Inr (Initialize1 (read_initialize bytes))
       | OpScheduleProfile \<Rightarrow>
           if length bytes \<noteq> REGISTRY_SCHEDULE_INSTRUCTION_BYTES \<or> seg 113 120 bytes \<noteq> zeros 7 then Inl InvalidInstruction
           else Inr (ScheduleProfile1 (read_schedule bytes))
       | _ \<Rightarrow>
           if length bytes \<noteq> REGISTRY_SIMPLE_MUTATION_INSTRUCTION_BYTES then Inl InvalidInstruction
           else let expected_generation = from_le (seg 8 16 bytes)
                in (case opcode of
                      OpPause \<Rightarrow> Inr (Pause1 expected_generation)
                    | OpUnpause \<Rightarrow> Inr (Unpause1 expected_generation)
                    | OpActivate \<Rightarrow> Inr (Activate1 expected_generation)
                    | OpRetire \<Rightarrow> Inr (Retire1 expected_generation)
                    | OpFreeze \<Rightarrow> Inr (Freeze1 expected_generation)
                    | _ \<Rightarrow> Inl InvalidInstruction))"

definition decode_registry_instruction_v2 :: "bytes \<Rightarrow> registry_program_error + registry_instruction_v2" where
  "decode_registry_instruction_v2 bytes =
     bindE (require_header_v2 bytes) (\<lambda>opcode.
       case opcode of
         OpInitialize \<Rightarrow>
           if length bytes \<noteq> REGISTRY_INITIALIZE_V2_INSTRUCTION_BYTES then Inl InvalidInstruction
           else Inr (Initialize2 (read_initialize bytes) (seg 80 112 bytes))
       | OpScheduleProfile \<Rightarrow>
           if length bytes \<noteq> REGISTRY_SCHEDULE_V2_INSTRUCTION_BYTES
              \<or> bytes ! 113 \<noteq> POOL_V1_VERIFIER_DEPLOYMENT_MODE_IMMUTABLE_LOADER_V3 \<or> seg 114 120 bytes \<noteq> zeros 6
           then Inl InvalidInstruction
           else Inr (ScheduleProfile2 (read_schedule bytes) (seg 128 160 bytes))
       | _ \<Rightarrow>
           if length bytes \<noteq> REGISTRY_SIMPLE_MUTATION_INSTRUCTION_BYTES then Inl InvalidInstruction
           else let expected_generation = from_le (seg 8 16 bytes)
                in (case opcode of
                      OpPause \<Rightarrow> Inr (Pause2 expected_generation)
                    | OpUnpause \<Rightarrow> Inr (Unpause2 expected_generation)
                    | OpActivate \<Rightarrow> Inr (Activate2 expected_generation)
                    | OpRetire \<Rightarrow> Inr (Retire2 expected_generation)
                    | OpFreeze \<Rightarrow> Inr (Freeze2 expected_generation)
                    | _ \<Rightarrow> Inl InvalidInstruction))"

definition decode_registry_instruction :: "bytes \<Rightarrow> registry_program_error + decoded_registry_instruction" where
  "decode_registry_instruction bytes =
     (if 4 < length bytes \<and> bytes ! 4 = REGISTRY_MUTATION_INSTRUCTION_VERSION
      then bindE (decode_registry_instruction_v1 bytes) (\<lambda>i. Inr (V1 i))
      else if 4 < length bytes \<and> bytes ! 4 = REGISTRY_MUTATION_INSTRUCTION_VERSION_V2
      then bindE (decode_registry_instruction_v2 bytes) (\<lambda>i. Inr (V2 i))
      else Inl InvalidInstruction)"

section \<open>Encoding\<close>

definition instruction_header :: "u8 \<Rightarrow> registry_opcode \<Rightarrow> bytes" where
  "instruction_header version opcode =
     (let output = zeros 8;
          output = put 0 REGISTRY_MUTATION_INSTRUCTION_MAGIC output;
          output = output[4 := version]
      in output[5 := opcode_byte opcode])"

definition encode_initialize_registry_v1 :: "bytes \<Rightarrow> bytes \<Rightarrow> u64 \<Rightarrow> bytes" where
  "encode_initialize_registry_v1 pool policy_binding minimum_activation_delay_slots =
     (let output = zeros REGISTRY_INITIALIZE_INSTRUCTION_BYTES;
          output = put 0 (instruction_header REGISTRY_MUTATION_INSTRUCTION_VERSION OpInitialize) output;
          output = put 8 pool output;
          output = put 40 policy_binding output
      in put 72 (to_le 8 minimum_activation_delay_slots) output)"

definition encode_schedule_profile_v1 :: "u64 \<Rightarrow> bytes \<Rightarrow> bytes \<Rightarrow> bytes \<Rightarrow> u8 \<Rightarrow> u64 \<Rightarrow> bytes" where
  "encode_schedule_profile_v1 expected_generation verifier_program profile_binding release_binding statement_version activation_slot =
     (let output = zeros REGISTRY_SCHEDULE_INSTRUCTION_BYTES;
          output = put 0 (instruction_header REGISTRY_MUTATION_INSTRUCTION_VERSION OpScheduleProfile) output;
          output = put 8 (to_le 8 expected_generation) output;
          output = put 16 verifier_program output;
          output = put 48 profile_binding output;
          output = put 80 release_binding output;
          output = output[112 := statement_version]
      in put 120 (to_le 8 activation_slot) output)"

definition encode_simple_mutation :: "u8 \<Rightarrow> registry_opcode \<Rightarrow> u64 \<Rightarrow> registry_program_error + bytes" where
  "encode_simple_mutation version opcode expected_generation =
     (if opcode = OpInitialize \<or> opcode = OpScheduleProfile then Inl InvalidInstruction
      else let output = zeros REGISTRY_SIMPLE_MUTATION_INSTRUCTION_BYTES;
               output = put 0 (instruction_header version opcode) output
           in Inr (put 8 (to_le 8 expected_generation) output))"

definition encode_simple_mutation_v1 :: "registry_opcode \<Rightarrow> u64 \<Rightarrow> registry_program_error + bytes" where
  "encode_simple_mutation_v1 = encode_simple_mutation REGISTRY_MUTATION_INSTRUCTION_VERSION"

definition encode_initialize_registry_v2 :: "bytes \<Rightarrow> bytes \<Rightarrow> u64 \<Rightarrow> bytes \<Rightarrow> bytes" where
  "encode_initialize_registry_v2 pool policy_binding minimum_activation_delay_slots expected_registry_executable_hash =
     (let output = zeros REGISTRY_INITIALIZE_V2_INSTRUCTION_BYTES;
          output = put 0 (instruction_header REGISTRY_MUTATION_INSTRUCTION_VERSION_V2 OpInitialize) output;
          output = put 8 pool output;
          output = put 40 policy_binding output;
          output = put 72 (to_le 8 minimum_activation_delay_slots) output
      in put 80 expected_registry_executable_hash output)"

definition encode_schedule_profile_v2 :: "u64 \<Rightarrow> bytes \<Rightarrow> bytes \<Rightarrow> bytes \<Rightarrow> u8 \<Rightarrow> u64 \<Rightarrow> bytes \<Rightarrow> bytes" where
  "encode_schedule_profile_v2 expected_generation verifier_program profile_binding release_binding statement_version
       activation_slot expected_executable_hash =
     (let output = zeros REGISTRY_SCHEDULE_V2_INSTRUCTION_BYTES;
          output = put 0 (instruction_header REGISTRY_MUTATION_INSTRUCTION_VERSION_V2 OpScheduleProfile) output;
          output = put 8 (to_le 8 expected_generation) output;
          output = put 16 verifier_program output;
          output = put 48 profile_binding output;
          output = put 80 release_binding output;
          output = output[112 := statement_version];
          output = output[113 := POOL_V1_VERIFIER_DEPLOYMENT_MODE_IMMUTABLE_LOADER_V3];
          output = put 120 (to_le 8 activation_slot) output
      in put 128 expected_executable_hash output)"

definition encode_simple_mutation_v2 :: "registry_opcode \<Rightarrow> u64 \<Rightarrow> registry_program_error + bytes" where
  "encode_simple_mutation_v2 = encode_simple_mutation REGISTRY_MUTATION_INSTRUCTION_VERSION_V2"

section \<open>Every instruction has one wire\<close>

text \<open>The client side of the wire: which encoder produces an instruction.\<close>

definition wire_v1 :: "registry_instruction_v1 \<Rightarrow> registry_program_error + bytes" where
  "wire_v1 i = (case i of
     Initialize1 a \<Rightarrow> Inr (encode_initialize_registry_v1 (in_pool a) (in_policy_binding a) (in_minimum_activation_delay_slots a))
   | ScheduleProfile1 a \<Rightarrow> Inr (encode_schedule_profile_v1 (sc_expected_generation a) (sc_verifier_program a)
       (sc_profile_binding a) (sc_release_binding a) (sc_statement_version a) (sc_activation_slot a))
   | Pause1 g \<Rightarrow> encode_simple_mutation_v1 OpPause g
   | Unpause1 g \<Rightarrow> encode_simple_mutation_v1 OpUnpause g
   | Activate1 g \<Rightarrow> encode_simple_mutation_v1 OpActivate g
   | Retire1 g \<Rightarrow> encode_simple_mutation_v1 OpRetire g
   | Freeze1 g \<Rightarrow> encode_simple_mutation_v1 OpFreeze g)"

definition wire_v2 :: "registry_instruction_v2 \<Rightarrow> registry_program_error + bytes" where
  "wire_v2 i = (case i of
     Initialize2 a h \<Rightarrow> Inr (encode_initialize_registry_v2 (in_pool a) (in_policy_binding a) (in_minimum_activation_delay_slots a) h)
   | ScheduleProfile2 a h \<Rightarrow> Inr (encode_schedule_profile_v2 (sc_expected_generation a) (sc_verifier_program a)
       (sc_profile_binding a) (sc_release_binding a) (sc_statement_version a) (sc_activation_slot a) h)
   | Pause2 g \<Rightarrow> encode_simple_mutation_v2 OpPause g
   | Unpause2 g \<Rightarrow> encode_simple_mutation_v2 OpUnpause g
   | Activate2 g \<Rightarrow> encode_simple_mutation_v2 OpActivate g
   | Retire2 g \<Rightarrow> encode_simple_mutation_v2 OpRetire g
   | Freeze2 g \<Rightarrow> encode_simple_mutation_v2 OpFreeze g)"

definition initialize_ok :: "initialize_args \<Rightarrow> bool" where
  "initialize_ok a \<longleftrightarrow> length (in_pool a) = 32 \<and> length (in_policy_binding a) = 32"

definition schedule_ok :: "schedule_args \<Rightarrow> bool" where
  "schedule_ok a \<longleftrightarrow> length (sc_verifier_program a) = 32 \<and> length (sc_profile_binding a) = 32 \<and> length (sc_release_binding a) = 32"

definition instruction_ok_v1 :: "registry_instruction_v1 \<Rightarrow> bool" where
  "instruction_ok_v1 i = (case i of Initialize1 a \<Rightarrow> initialize_ok a | ScheduleProfile1 a \<Rightarrow> schedule_ok a | _ \<Rightarrow> True)"

definition instruction_ok_v2 :: "registry_instruction_v2 \<Rightarrow> bool" where
  "instruction_ok_v2 i = (case i of Initialize2 a h \<Rightarrow> initialize_ok a \<and> length h = 32
     | ScheduleProfile2 a h \<Rightarrow> schedule_ok a \<and> length h = 32 | _ \<Rightarrow> True)"

lemma opcode_try_from_byte [simp]: "opcode_try_from (opcode_byte opcode) = Inr opcode"
  by (cases opcode) (simp_all add: opcode_try_from_def opcode_byte_def)

lemma opcode_try_from_eq: "opcode_try_from b = Inr opcode \<longleftrightarrow> opcode_byte opcode = b"
  by (cases opcode) (auto simp: opcode_try_from_def opcode_byte_def split: if_splits)

lemma length_instruction_header [simp]: "length (instruction_header version opcode) = 8"
  by (simp add: instruction_header_def layout_defs Let_def)

lemma instruction_header_fields:
  "seg 0 4 (instruction_header version opcode) = REGISTRY_MUTATION_INSTRUCTION_MAGIC"
  "instruction_header version opcode ! 4 = version" "instruction_header version opcode ! 5 = opcode_byte opcode"
  "seg 6 8 (instruction_header version opcode) = zeros 2"
  by (simp_all add: instruction_header_def layout_defs Let_def image_simps)

lemma check_header_eq:
  "check_header version b = Inr opcode \<longleftrightarrow> 8 \<le> length b \<and> seg 0 8 b = instruction_header version opcode"
proof
  assume req: "check_header version b = Inr opcode"
  then have len: "8 \<le> length b" and fields: "seg 0 4 b = REGISTRY_MUTATION_INSTRUCTION_MAGIC" "b ! 4 = version"
    "b ! 5 = opcode_byte opcode" "seg 6 8 b = zeros 2"
    by (auto simp: check_header_def opcode_try_from_eq)
  have "seg 0 8 b = instruction_header version opcode"
  proof (rule agree_on_eq [where cs = "[4, 5, 6, 8]" and n = 8])
    show "agree_on [0, 4, 5, 6, 8] (seg 0 8 b) (instruction_header version opcode)"
      using fields len instruction_header_fields [of version opcode] by (simp add: seg_seg seg_one nth_seg)
  qed (use len in simp_all)
  with len show "8 \<le> length b \<and> seg 0 8 b = instruction_header version opcode" by simp
next
  assume h: "8 \<le> length b \<and> seg 0 8 b = instruction_header version opcode"
  then have "seg 0 4 b = seg 0 4 (instruction_header version opcode)" "seg 6 8 b = seg 6 8 (instruction_header version opcode)"
    "b ! 4 = instruction_header version opcode ! 4" "b ! 5 = instruction_header version opcode ! 5"
    by (auto simp: seg_seg nth_seg simp flip: h [THEN conjunct2])
  then show "check_header version b = Inr opcode"
    using h by (simp add: check_header_def instruction_header_fields)
qed

lemma initialize_v1_fields:
  assumes "length pool = 32" "length policy = 32"
  shows "length (encode_initialize_registry_v1 pool policy d) = 80"
    "seg 0 8 (encode_initialize_registry_v1 pool policy d) = instruction_header REGISTRY_MUTATION_INSTRUCTION_VERSION OpInitialize"
    "seg 8 40 (encode_initialize_registry_v1 pool policy d) = pool"
    "seg 40 72 (encode_initialize_registry_v1 pool policy d) = policy"
    "seg 72 80 (encode_initialize_registry_v1 pool policy d) = to_le 8 d"
  using assms by (simp_all add: encode_initialize_registry_v1_def Let_def layout_defs image_simps)

lemma initialize_v2_fields:
  assumes "length pool = 32" "length policy = 32" "length h = 32"
  shows "length (encode_initialize_registry_v2 pool policy d h) = 112"
    "seg 0 8 (encode_initialize_registry_v2 pool policy d h) = instruction_header REGISTRY_MUTATION_INSTRUCTION_VERSION_V2 OpInitialize"
    "seg 8 40 (encode_initialize_registry_v2 pool policy d h) = pool"
    "seg 40 72 (encode_initialize_registry_v2 pool policy d h) = policy"
    "seg 72 80 (encode_initialize_registry_v2 pool policy d h) = to_le 8 d"
    "seg 80 112 (encode_initialize_registry_v2 pool policy d h) = h"
  using assms by (simp_all add: encode_initialize_registry_v2_def Let_def layout_defs image_simps)

lemma schedule_v1_fields:
  assumes "length v = 32" "length p = 32" "length r = 32"
  shows "length (encode_schedule_profile_v1 g v p r s a) = 128"
    "seg 0 8 (encode_schedule_profile_v1 g v p r s a) = instruction_header REGISTRY_MUTATION_INSTRUCTION_VERSION OpScheduleProfile"
    "seg 8 16 (encode_schedule_profile_v1 g v p r s a) = to_le 8 g"
    "seg 16 48 (encode_schedule_profile_v1 g v p r s a) = v"
    "seg 48 80 (encode_schedule_profile_v1 g v p r s a) = p"
    "seg 80 112 (encode_schedule_profile_v1 g v p r s a) = r"
    "encode_schedule_profile_v1 g v p r s a ! 112 = s"
    "seg 113 120 (encode_schedule_profile_v1 g v p r s a) = zeros 7"
    "seg 120 128 (encode_schedule_profile_v1 g v p r s a) = to_le 8 a"
  using assms by (simp_all add: encode_schedule_profile_v1_def Let_def layout_defs image_simps)

lemma schedule_v2_fields:
  assumes "length v = 32" "length p = 32" "length r = 32" "length h = 32"
  shows "length (encode_schedule_profile_v2 g v p r s a h) = 160"
    "seg 0 8 (encode_schedule_profile_v2 g v p r s a h) = instruction_header REGISTRY_MUTATION_INSTRUCTION_VERSION_V2 OpScheduleProfile"
    "seg 8 16 (encode_schedule_profile_v2 g v p r s a h) = to_le 8 g"
    "seg 16 48 (encode_schedule_profile_v2 g v p r s a h) = v"
    "seg 48 80 (encode_schedule_profile_v2 g v p r s a h) = p"
    "seg 80 112 (encode_schedule_profile_v2 g v p r s a h) = r"
    "encode_schedule_profile_v2 g v p r s a h ! 112 = s"
    "encode_schedule_profile_v2 g v p r s a h ! 113 = POOL_V1_VERIFIER_DEPLOYMENT_MODE_IMMUTABLE_LOADER_V3"
    "seg 114 120 (encode_schedule_profile_v2 g v p r s a h) = zeros 6"
    "seg 120 128 (encode_schedule_profile_v2 g v p r s a h) = to_le 8 a"
    "seg 128 160 (encode_schedule_profile_v2 g v p r s a h) = h"
  using assms by (simp_all add: encode_schedule_profile_v2_def Let_def layout_defs image_simps)

lemma simple_mutation_eq:
  "encode_simple_mutation version opcode g = Inr b \<longleftrightarrow> opcode \<noteq> OpInitialize \<and> opcode \<noteq> OpScheduleProfile
     \<and> length b = 16 \<and> seg 0 8 b = instruction_header version opcode \<and> seg 8 16 b = to_le 8 g"
proof -
  let ?out = "put 8 (to_le 8 g) (put 0 (instruction_header version opcode) (zeros 16))"
  have out: "length ?out = 16" "seg 0 8 ?out = instruction_header version opcode" "seg 8 16 ?out = to_le 8 g"
    by (simp_all add: image_simps)
  have "?out = b" if "length b = 16" "seg 0 8 b = instruction_header version opcode" "seg 8 16 b = to_le 8 g"
    using that out by (intro agree_on_eq [where cs = "[8, 16]" and n = 16]) simp_all
  then show ?thesis using out by (auto simp: encode_simple_mutation_def layout_defs Let_def)
qed

lemma initialize_v1_eq:
  "encode_initialize_registry_v1 pool policy d = b \<and> length pool = 32 \<and> length policy = 32 \<longleftrightarrow>
     length b = 80 \<and> seg 0 8 b = instruction_header REGISTRY_MUTATION_INSTRUCTION_VERSION OpInitialize
     \<and> pool = seg 8 40 b \<and> policy = seg 40 72 b \<and> d = from_le (seg 72 80 b)"
proof (intro iffI)
  assume r: "length b = 80 \<and> seg 0 8 b = instruction_header REGISTRY_MUTATION_INSTRUCTION_VERSION OpInitialize
     \<and> pool = seg 8 40 b \<and> policy = seg 40 72 b \<and> d = from_le (seg 72 80 b)"
  then have len: "length pool = 32" "length policy = 32" by simp_all
  with r initialize_v1_fields [OF len, of d] have "encode_initialize_registry_v1 pool policy d = b"
    by (intro agree_on_eq [where cs = "[8, 40, 72, 80]" and n = 80]) simp_all
  with len show "encode_initialize_registry_v1 pool policy d = b \<and> length pool = 32 \<and> length policy = 32" by simp
qed (use initialize_v1_fields [of pool policy d] in auto)

lemma initialize_v2_eq:
  "encode_initialize_registry_v2 pool policy d h = b \<and> length pool = 32 \<and> length policy = 32 \<and> length h = 32 \<longleftrightarrow>
     length b = 112 \<and> seg 0 8 b = instruction_header REGISTRY_MUTATION_INSTRUCTION_VERSION_V2 OpInitialize
     \<and> pool = seg 8 40 b \<and> policy = seg 40 72 b \<and> d = from_le (seg 72 80 b) \<and> h = seg 80 112 b"
proof (intro iffI)
  assume r: "length b = 112 \<and> seg 0 8 b = instruction_header REGISTRY_MUTATION_INSTRUCTION_VERSION_V2 OpInitialize
     \<and> pool = seg 8 40 b \<and> policy = seg 40 72 b \<and> d = from_le (seg 72 80 b) \<and> h = seg 80 112 b"
  then have len: "length pool = 32" "length policy = 32" "length h = 32" by simp_all
  with r initialize_v2_fields [OF len, of d] have "encode_initialize_registry_v2 pool policy d h = b"
    by (intro agree_on_eq [where cs = "[8, 40, 72, 80, 112]" and n = 112]) simp_all
  with len show "encode_initialize_registry_v2 pool policy d h = b \<and> length pool = 32 \<and> length policy = 32 \<and> length h = 32" by simp
qed (use initialize_v2_fields [of pool policy h d] in auto)

lemma schedule_v1_eq:
  "encode_schedule_profile_v1 g v p r s a = b \<and> length v = 32 \<and> length p = 32 \<and> length r = 32 \<longleftrightarrow>
     length b = 128 \<and> seg 0 8 b = instruction_header REGISTRY_MUTATION_INSTRUCTION_VERSION OpScheduleProfile
     \<and> seg 113 120 b = zeros 7 \<and> g = from_le (seg 8 16 b) \<and> v = seg 16 48 b \<and> p = seg 48 80 b \<and> r = seg 80 112 b
     \<and> s = b ! 112 \<and> a = from_le (seg 120 128 b)" (is "?l \<longleftrightarrow> ?r")
proof (intro iffI)
  assume r: ?r
  then have len: "length v = 32" "length p = 32" "length r = 32" by simp_all
  with r schedule_v1_fields [OF len, of g s a] have "encode_schedule_profile_v1 g v p r s a = b"
    by (intro agree_on_eq [where cs = "[8, 16, 48, 80, 112, 113, 120, 128]" and n = 128]) (simp_all add: seg_one)
  with len show ?l by simp
qed (use schedule_v1_fields [of v p r g s a] in auto)

lemma schedule_v2_eq:
  "encode_schedule_profile_v2 g v p r s a h = b \<and> length v = 32 \<and> length p = 32 \<and> length r = 32 \<and> length h = 32 \<longleftrightarrow>
     length b = 160 \<and> seg 0 8 b = instruction_header REGISTRY_MUTATION_INSTRUCTION_VERSION_V2 OpScheduleProfile
     \<and> b ! 113 = POOL_V1_VERIFIER_DEPLOYMENT_MODE_IMMUTABLE_LOADER_V3 \<and> seg 114 120 b = zeros 6
     \<and> g = from_le (seg 8 16 b) \<and> v = seg 16 48 b \<and> p = seg 48 80 b \<and> r = seg 80 112 b
     \<and> s = b ! 112 \<and> a = from_le (seg 120 128 b) \<and> h = seg 128 160 b" (is "?l \<longleftrightarrow> ?r")
proof (intro iffI)
  assume r: ?r
  then have len: "length v = 32" "length p = 32" "length r = 32" "length h = 32" by simp_all
  with r schedule_v2_fields [OF len, of g s a] have "encode_schedule_profile_v2 g v p r s a h = b"
    by (intro agree_on_eq [where cs = "[8, 16, 48, 80, 112, 113, 114, 120, 128, 160]" and n = 160]) (simp_all add: seg_one)
  with len show ?l by simp
qed (use schedule_v2_fields [of v p r h g s a] in auto)

lemma read_initialize_eq:
  "read_initialize b = a \<longleftrightarrow> in_pool a = seg 8 40 b \<and> in_policy_binding a = seg 40 72 b
     \<and> in_minimum_activation_delay_slots a = from_le (seg 72 80 b)"
  by (cases a) (auto simp: read_initialize_def)

lemma read_schedule_eq:
  "read_schedule b = a \<longleftrightarrow> sc_expected_generation a = from_le (seg 8 16 b) \<and> sc_verifier_program a = seg 16 48 b
     \<and> sc_profile_binding a = seg 48 80 b \<and> sc_release_binding a = seg 80 112 b \<and> sc_statement_version a = b ! 112
     \<and> sc_activation_slot a = from_le (seg 120 128 b)"
  by (cases a) (auto simp: read_schedule_def)

lemma to_le_eq: "length b = 8 \<Longrightarrow> b = to_le 8 g \<longleftrightarrow> from_le b = (g :: u64)"
  by auto

lemma ex_opcode:
  "(\<exists>opcode. P opcode) \<longleftrightarrow> P OpInitialize \<or> P OpScheduleProfile \<or> P OpPause \<or> P OpUnpause \<or> P OpActivate \<or> P OpRetire \<or> P OpFreeze"
  by (metis registry_opcode.exhaust)

lemma decode_v1_cases:
  "decode_registry_instruction_v1 b = Inr (Initialize1 a) \<longleftrightarrow>
     length b = 80 \<and> seg 0 8 b = instruction_header REGISTRY_MUTATION_INSTRUCTION_VERSION OpInitialize \<and> read_initialize b = a"
  "decode_registry_instruction_v1 b = Inr (ScheduleProfile1 c) \<longleftrightarrow>
     length b = 128 \<and> seg 0 8 b = instruction_header REGISTRY_MUTATION_INSTRUCTION_VERSION OpScheduleProfile
     \<and> seg 113 120 b = zeros 7 \<and> read_schedule b = c"
  "decode_registry_instruction_v1 b = Inr (Pause1 g) \<longleftrightarrow> encode_simple_mutation_v1 OpPause g = Inr b"
  "decode_registry_instruction_v1 b = Inr (Unpause1 g) \<longleftrightarrow> encode_simple_mutation_v1 OpUnpause g = Inr b"
  "decode_registry_instruction_v1 b = Inr (Activate1 g) \<longleftrightarrow> encode_simple_mutation_v1 OpActivate g = Inr b"
  "decode_registry_instruction_v1 b = Inr (Retire1 g) \<longleftrightarrow> encode_simple_mutation_v1 OpRetire g = Inr b"
  "decode_registry_instruction_v1 b = Inr (Freeze1 g) \<longleftrightarrow> encode_simple_mutation_v1 OpFreeze g = Inr b"
  by (auto simp: decode_registry_instruction_v1_def require_header_def check_header_eq layout_defs
      encode_simple_mutation_v1_def simple_mutation_eq Let_def to_le_eq ex_opcode)

lemma decode_v2_cases:
  "decode_registry_instruction_v2 b = Inr (Initialize2 a h) \<longleftrightarrow>
     length b = 112 \<and> seg 0 8 b = instruction_header REGISTRY_MUTATION_INSTRUCTION_VERSION_V2 OpInitialize
     \<and> read_initialize b = a \<and> h = seg 80 112 b"
  "decode_registry_instruction_v2 b = Inr (ScheduleProfile2 c h) \<longleftrightarrow>
     length b = 160 \<and> seg 0 8 b = instruction_header REGISTRY_MUTATION_INSTRUCTION_VERSION_V2 OpScheduleProfile
     \<and> b ! 113 = POOL_V1_VERIFIER_DEPLOYMENT_MODE_IMMUTABLE_LOADER_V3 \<and> seg 114 120 b = zeros 6
     \<and> read_schedule b = c \<and> h = seg 128 160 b"
  "decode_registry_instruction_v2 b = Inr (Pause2 g) \<longleftrightarrow> encode_simple_mutation_v2 OpPause g = Inr b"
  "decode_registry_instruction_v2 b = Inr (Unpause2 g) \<longleftrightarrow> encode_simple_mutation_v2 OpUnpause g = Inr b"
  "decode_registry_instruction_v2 b = Inr (Activate2 g) \<longleftrightarrow> encode_simple_mutation_v2 OpActivate g = Inr b"
  "decode_registry_instruction_v2 b = Inr (Retire2 g) \<longleftrightarrow> encode_simple_mutation_v2 OpRetire g = Inr b"
  "decode_registry_instruction_v2 b = Inr (Freeze2 g) \<longleftrightarrow> encode_simple_mutation_v2 OpFreeze g = Inr b"
  by (auto simp: decode_registry_instruction_v2_def require_header_v2_def check_header_eq layout_defs
      encode_simple_mutation_v2_def simple_mutation_eq Let_def to_le_eq ex_opcode)

lemma decode_v1_eq: "decode_registry_instruction_v1 b = Inr i \<longleftrightarrow> instruction_ok_v1 i \<and> wire_v1 i = Inr b"
proof (cases i)
  case (Initialize1 a)
  show ?thesis
    unfolding Initialize1 decode_v1_cases read_initialize_eq instruction_ok_v1_def initialize_ok_def wire_v1_def
    using initialize_v1_eq [of "in_pool a" "in_policy_binding a" "in_minimum_activation_delay_slots a" b] by auto
next
  case (ScheduleProfile1 a)
  show ?thesis
    unfolding ScheduleProfile1 decode_v1_cases read_schedule_eq instruction_ok_v1_def schedule_ok_def wire_v1_def
    using schedule_v1_eq [of "sc_expected_generation a" "sc_verifier_program a" "sc_profile_binding a"
        "sc_release_binding a" "sc_statement_version a" "sc_activation_slot a" b] by auto
qed (simp_all add: decode_v1_cases instruction_ok_v1_def wire_v1_def)

lemma decode_v2_eq: "decode_registry_instruction_v2 b = Inr i \<longleftrightarrow> instruction_ok_v2 i \<and> wire_v2 i = Inr b"
proof (cases i)
  case (Initialize2 a h)
  show ?thesis
    unfolding Initialize2 decode_v2_cases read_initialize_eq instruction_ok_v2_def initialize_ok_def wire_v2_def
    using initialize_v2_eq [of "in_pool a" "in_policy_binding a" "in_minimum_activation_delay_slots a" h b] by auto
next
  case (ScheduleProfile2 a h)
  show ?thesis
    unfolding ScheduleProfile2 decode_v2_cases read_schedule_eq instruction_ok_v2_def schedule_ok_def wire_v2_def
    using schedule_v2_eq [of "sc_expected_generation a" "sc_verifier_program a" "sc_profile_binding a"
        "sc_release_binding a" "sc_statement_version a" "sc_activation_slot a" h b] by auto
qed (simp_all add: decode_v2_cases instruction_ok_v2_def wire_v2_def)

interpretation instruction_v1: canonical_codec wire_v1 decode_registry_instruction_v1 instruction_ok_v1
  by unfold_locales (simp_all add: decode_v1_eq)

interpretation instruction_v2: canonical_codec wire_v2 decode_registry_instruction_v2 instruction_ok_v2
  by unfold_locales (simp_all add: decode_v2_eq)

text \<open>The dispatcher accepts the union of the two wires.\<close>

definition wire :: "decoded_registry_instruction \<Rightarrow> registry_program_error + bytes" where
  "wire i = (case i of V1 j \<Rightarrow> wire_v1 j | V2 j \<Rightarrow> wire_v2 j)"

definition instruction_ok :: "decoded_registry_instruction \<Rightarrow> bool" where
  "instruction_ok i = (case i of V1 j \<Rightarrow> instruction_ok_v1 j | V2 j \<Rightarrow> instruction_ok_v2 j)"

lemma decode_version:
  "decode_registry_instruction_v1 b = Inr i \<Longrightarrow> 4 < length b \<and> b ! 4 = REGISTRY_MUTATION_INSTRUCTION_VERSION"
  "decode_registry_instruction_v2 b = Inr j \<Longrightarrow> 4 < length b \<and> b ! 4 = REGISTRY_MUTATION_INSTRUCTION_VERSION_V2"
  by (auto simp: decode_registry_instruction_v1_def decode_registry_instruction_v2_def require_header_def
      require_header_v2_def check_header_def split: if_splits)

lemma decode_registry_instruction_eq: "decode_registry_instruction b = Inr i \<longleftrightarrow> instruction_ok i \<and> wire i = Inr b"
proof (cases i)
  case (V1 j)
  have "decode_registry_instruction b = Inr (V1 j) \<longleftrightarrow> decode_registry_instruction_v1 b = Inr j"
    using decode_version(1) [of b j] by (auto simp: decode_registry_instruction_def)
  then show ?thesis by (simp add: V1 instruction_ok_def wire_def decode_v1_eq)
next
  case (V2 j)
  have "decode_registry_instruction b = Inr (V2 j) \<longleftrightarrow> decode_registry_instruction_v2 b = Inr j"
    using decode_version(2) [of b j] by (auto simp: decode_registry_instruction_def layout_defs)
  then show ?thesis by (simp add: V2 instruction_ok_def wire_def decode_v2_eq)
qed

interpretation instruction: canonical_codec wire decode_registry_instruction instruction_ok
  by unfold_locales (simp_all add: decode_registry_instruction_eq)

end
