(* ===== verification/RegistryProcessor.thy ===== *)
theory RegistryProcessor
  imports RegistryInstruction Runtime
begin

text \<open>
  The governance program of the verifier registry, \<open>programs/aspis-registry/src/processor.rs\<close>. A handler
  takes the account list of the call and returns the list as it leaves it, or the error that reverts the
  transaction.
\<close>

section \<open>Errors\<close>

definition error_code :: "registry_program_error \<Rightarrow> u32" where
  "error_code e = (case e of
     InvalidInstruction \<Rightarrow> 0x41533001 | InvalidAccountCount \<Rightarrow> 0x41533002 | DuplicateAccount \<Rightarrow> 0x41533003
   | InvalidRegistryAddress \<Rightarrow> 0x41533004 | InvalidRegistryAccount \<Rightarrow> 0x41533005 | InvalidEntryAddress \<Rightarrow> 0x41533006
   | InvalidEntryAccount \<Rightarrow> 0x41533007 | InvalidAuthority \<Rightarrow> 0x41533008 | InvalidPayer \<Rightarrow> 0x41533009
   | InvalidSystemProgram \<Rightarrow> 0x4153300A | InvalidFreshAccount \<Rightarrow> 0x4153300B | GenerationMismatch \<Rightarrow> 0x4153300C
   | GenerationOverflow \<Rightarrow> 0x4153300D | RegistryFrozen \<Rightarrow> 0x4153300E | RegistryAlreadyPaused \<Rightarrow> 0x4153300F
   | RegistryNotPaused \<Rightarrow> 0x41533010 | ActivationDelayOverflow \<Rightarrow> 0x41533011 | ActivationDelayNotElapsed \<Rightarrow> 0x41533012
   | EntryNotPending \<Rightarrow> 0x41533013 | EntryNotActive \<Rightarrow> 0x41533014 | InvalidEntryState \<Rightarrow> 0x41533015
   | ReplacementNotActive \<Rightarrow> 0x41533016 | IncompatibleReplacement \<Rightarrow> 0x41533017 | InvalidRetirementSlot \<Rightarrow> 0x41533018
   | InvalidVerifierProgram \<Rightarrow> 0x41533019 | InvalidProgramData \<Rightarrow> 0x4153301A | VerifierNotImmutable \<Rightarrow> 0x4153301B
   | ExecutableHashMismatch \<Rightarrow> 0x4153301C)"

definition fail :: "registry_program_error \<Rightarrow> program_error + 'a" where
  "fail e = Inl (Custom (error_code e))"

section \<open>Addresses\<close>

definition POOL_V1_VERIFIER_REGISTRY_SEED :: bytes where
  "POOL_V1_VERIFIER_REGISTRY_SEED = [0x61, 0x73, 0x70, 0x69, 0x73, 0x2D, 0x76, 0x65, 0x72, 0x69, 0x66, 0x69, 0x65, 0x72,
     0x2D, 0x72, 0x65, 0x67, 0x69, 0x73, 0x74, 0x72, 0x79, 0x2D, 0x76, 0x31]"

definition POOL_V1_VERIFIER_ENTRY_SEED :: bytes where
  "POOL_V1_VERIFIER_ENTRY_SEED = [0x61, 0x73, 0x70, 0x69, 0x73, 0x2D, 0x76, 0x65, 0x72, 0x69, 0x66, 0x69, 0x65, 0x72,
     0x2D, 0x65, 0x6E, 0x74, 0x72, 0x79, 0x2D, 0x76, 0x31]"

definition POOL_V1_VERIFIER_REGISTRY_V2_SEED :: bytes where
  "POOL_V1_VERIFIER_REGISTRY_V2_SEED = [0x61, 0x73, 0x70, 0x69, 0x73, 0x2D, 0x76, 0x65, 0x72, 0x69, 0x66, 0x69, 0x65, 0x72,
     0x2D, 0x72, 0x65, 0x67, 0x69, 0x73, 0x74, 0x72, 0x79, 0x2D, 0x76, 0x32]"

definition POOL_V1_VERIFIER_ENTRY_V2_SEED :: bytes where
  "POOL_V1_VERIFIER_ENTRY_V2_SEED = [0x61, 0x73, 0x70, 0x69, 0x73, 0x2D, 0x76, 0x65, 0x72, 0x69, 0x66, 0x69, 0x65, 0x72,
     0x2D, 0x65, 0x6E, 0x74, 0x72, 0x79, 0x2D, 0x76, 0x32]"

definition pool_v1_verifier_registry_address :: "solana \<Rightarrow> bytes \<Rightarrow> bytes \<Rightarrow> bytes \<times> u8" where
  "pool_v1_verifier_registry_address env registry_program pool =
     find_program_address env [POOL_V1_VERIFIER_REGISTRY_SEED, pool] registry_program"

definition pool_v1_verifier_entry_address :: "solana \<Rightarrow> bytes \<Rightarrow> bytes \<Rightarrow> bytes \<Rightarrow> bytes \<Rightarrow> bytes \<times> u8" where
  "pool_v1_verifier_entry_address env registry_program pool profile_binding release_binding =
     find_program_address env [POOL_V1_VERIFIER_ENTRY_SEED, pool, profile_binding, release_binding] registry_program"

definition pool_v1_verifier_registry_v2_address :: "solana \<Rightarrow> bytes \<Rightarrow> bytes \<Rightarrow> bytes \<times> u8" where
  "pool_v1_verifier_registry_v2_address env registry_program pool =
     find_program_address env [POOL_V1_VERIFIER_REGISTRY_V2_SEED, pool] registry_program"

definition pool_v1_verifier_entry_v2_address :: "solana \<Rightarrow> bytes \<Rightarrow> bytes \<Rightarrow> bytes \<Rightarrow> bytes \<Rightarrow> bytes \<times> u8" where
  "pool_v1_verifier_entry_v2_address env registry_program pool profile_binding release_binding =
     find_program_address env [POOL_V1_VERIFIER_ENTRY_V2_SEED, pool, profile_binding, release_binding] registry_program"

section \<open>Guards\<close>

fun require_unique_accounts :: "account list \<Rightarrow> program_error + unit" where
  "require_unique_accounts [] = Inr ()"
| "require_unique_accounts (left # accounts) =
     (if \<exists>right \<in> set accounts. ac_key left = ac_key right then fail DuplicateAccount
      else require_unique_accounts accounts)"

definition require_authority :: "verifier_registry_v1 \<Rightarrow> account \<Rightarrow> program_error + unit" where
  "require_authority registry authority =
     (if r1_is_immutable registry then fail RegistryFrozen
      else if ac_key authority \<noteq> r1_authority registry \<or> \<not> ac_is_signer authority \<or> ac_is_writable authority
        \<or> ac_executable authority
      then fail InvalidAuthority else Inr ())"

definition require_initial_authority :: "account \<Rightarrow> program_error + unit" where
  "require_initial_authority authority =
     (if ac_key authority = zeros 32 \<or> \<not> ac_is_signer authority \<or> ac_is_writable authority \<or> ac_executable authority
      then fail InvalidAuthority else Inr ())"

definition require_payer_and_system_program :: "solana \<Rightarrow> account \<Rightarrow> account \<Rightarrow> program_error + unit" where
  "require_payer_and_system_program env payer system_program_account =
     (if \<not> ac_is_signer payer \<or> \<not> ac_is_writable payer \<or> ac_executable payer \<or> ac_owner payer \<noteq> system_program_id env
      then fail InvalidPayer
      else if ac_key system_program_account \<noteq> system_program_id env
        \<or> ac_owner system_program_account \<noteq> native_loader_id env \<or> \<not> ac_executable system_program_account
        \<or> ac_is_signer system_program_account \<or> ac_is_writable system_program_account
      then fail InvalidSystemProgram else Inr ())"

record immutable_deployment =
  dp_programdata_address :: bytes
  dp_executable_hash :: bytes

definition linked_programdata :: "solana \<Rightarrow> account \<Rightarrow> program_error + bytes" where
  "linked_programdata env program_account =
     (if length (ac_data program_account) \<noteq> size_of_program env then fail InvalidVerifierProgram
      else case loader_deserialize env (ac_data program_account) of
             Some (LoaderProgram programdata_address) \<Rightarrow> Inr programdata_address
           | _ \<Rightarrow> fail InvalidVerifierProgram)"

definition executable_hash_of :: "solana \<Rightarrow> account \<Rightarrow> program_error + bytes" where
  "executable_hash_of env programdata_account =
     (let data = ac_data programdata_account; metadata_bytes = size_of_programdata_metadata env
      in if length data \<le> metadata_bytes then fail InvalidProgramData
         else case loader_deserialize env (take metadata_bytes data) of
                Some (LoaderProgramData _ None) \<Rightarrow> Inr (sha256 env (drop metadata_bytes data))
              | Some (LoaderProgramData _ (Some _)) \<Rightarrow> fail VerifierNotImmutable
              | _ \<Rightarrow> fail InvalidProgramData)"

definition authenticate_immutable_loader_v3_deployment_v2 ::
  "solana \<Rightarrow> bytes \<Rightarrow> account \<Rightarrow> account \<Rightarrow> program_error + immutable_deployment" where
  "authenticate_immutable_loader_v3_deployment_v2 env expected_program program_account programdata_account =
     (let loader = bpf_loader_upgradeable_id env
      in if ac_key program_account \<noteq> expected_program \<or> ac_owner program_account \<noteq> loader
           \<or> \<not> ac_executable program_account \<or> ac_is_signer program_account \<or> ac_is_writable program_account
         then fail InvalidVerifierProgram
         else if ac_owner programdata_account \<noteq> loader \<or> ac_executable programdata_account
           \<or> ac_is_signer programdata_account \<or> ac_is_writable programdata_account
         then fail InvalidProgramData
         else bindE (linked_programdata env program_account) (\<lambda>linked.
           let derived_programdata = fst (find_program_address env [expected_program] loader)
           in if linked \<noteq> ac_key programdata_account \<or> linked \<noteq> derived_programdata then fail InvalidProgramData
              else bindE (executable_hash_of env programdata_account) (\<lambda>executable_hash.
                if executable_hash = zeros 32 then fail InvalidProgramData
                else Inr \<lparr> dp_programdata_address = linked, dp_executable_hash = executable_hash \<rparr>)))"

section \<open>Fresh accounts\<close>

datatype fresh_pda_preparation = CreateOrAllocateSystemOwned | ProgramOwnedZeroed

definition plan_fresh_program_pda ::
  "solana \<Rightarrow> account \<Rightarrow> bytes \<Rightarrow> bytes \<Rightarrow> nat \<Rightarrow> program_error + fresh_pda_preparation" where
  "plan_fresh_program_pda env account program_id expected_address exact_bytes =
     (if ac_key account \<noteq> expected_address \<or> ac_executable account \<or> ac_is_signer account \<or> \<not> ac_is_writable account
      then fail InvalidFreshAccount
      else if ac_owner account = program_id
      then if length (ac_data account) \<noteq> exact_bytes \<or> (\<exists>byte \<in> set (ac_data account). byte \<noteq> 0)
           then fail InvalidFreshAccount else Inr ProgramOwnedZeroed
      else if ac_owner account = system_program_id env \<and> ac_data account = []
      then Inr CreateOrAllocateSystemOwned
      else fail InvalidFreshAccount)"

definition saturating_sub :: "u64 \<Rightarrow> u64 \<Rightarrow> u64" where
  "saturating_sub a b = (if b \<le> a then a - b else 0)"

definition create_or_allocate_pda ::
  "solana \<Rightarrow> account \<Rightarrow> account \<Rightarrow> account \<Rightarrow> nat \<Rightarrow> bytes \<Rightarrow> bytes list \<Rightarrow> program_error + infos" where
  "create_or_allocate_pda env payer account system_program_account exact_bytes owner signer_seeds =
     (if ac_owner account \<noteq> system_program_id env \<or> ac_data account \<noteq> [] then fail InvalidFreshAccount
      else bindE (rent_get env) (\<lambda>minimum_balance.
        let required_lamports = max (minimum_balance exact_bytes) 1;
            infos = (payer, account, system_program_account);
            signer_seed_sets = [signer_seeds]
        in if ac_lamports account = 0
           then cpi_invoke_signed env
                  (CreateAccount (ac_key payer) (ac_key account) required_lamports (of_nat exact_bytes) owner)
                  infos signer_seed_sets
           else let deficit = saturating_sub required_lamports (ac_lamports account)
                in bindE (if deficit \<noteq> 0 then cpi_invoke env (Transfer (ac_key payer) (ac_key account) deficit) infos
                          else Inr infos) (\<lambda>infos.
                   bindE (cpi_invoke_signed env (Allocate (ac_key account) (of_nat exact_bytes)) infos signer_seed_sets) (\<lambda>infos.
                   cpi_invoke_signed env (Assign (ac_key account) owner) infos signer_seed_sets))))"

definition require_zero_program_account :: "account \<Rightarrow> bytes \<Rightarrow> nat \<Rightarrow> program_error + unit" where
  "require_zero_program_account account program_id exact_bytes =
     (if ac_owner account \<noteq> program_id \<or> ac_executable account \<or> ac_is_signer account \<or> \<not> ac_is_writable account
      then fail InvalidFreshAccount
      else if length (ac_data account) \<noteq> exact_bytes \<or> (\<exists>byte \<in> set (ac_data account). byte \<noteq> 0)
      then fail InvalidFreshAccount else Inr ())"

text \<open>
  The tail the four creating handlers share: plan, create through the system program unless the program already
  owns a zeroed account, and check the account again after the call.
\<close>

definition prepare_fresh_pda ::
  "solana \<Rightarrow> account \<Rightarrow> account \<Rightarrow> account \<Rightarrow> nat \<Rightarrow> bytes \<Rightarrow> bytes \<times> u8 \<Rightarrow> bytes list \<Rightarrow> program_error + infos" where
  "prepare_fresh_pda env payer account system_program_account exact_bytes program_id address seeds =
     bindE (plan_fresh_program_pda env account program_id (fst address) exact_bytes) (\<lambda>preparation.
       if preparation = CreateOrAllocateSystemOwned
       then bindE (create_or_allocate_pda env payer account system_program_account exact_bytes program_id
                    (seeds @ [[snd address]])) (\<lambda>(payer, account, system_program_account).
            bindE (require_zero_program_account account program_id exact_bytes) (\<lambda>_.
            Inr (payer, account, system_program_account)))
       else Inr (payer, account, system_program_account))"

section \<open>Loading and committing\<close>

definition load_registry :: "solana \<Rightarrow> bytes \<Rightarrow> account \<Rightarrow> program_error + verifier_registry_v1" where
  "load_registry env program_id account =
     (if ac_owner account \<noteq> program_id \<or> ac_executable account \<or> ac_is_signer account \<or> \<not> ac_is_writable account
      then fail InvalidRegistryAccount
      else bindE (map_err (\<lambda>_. Custom (error_code InvalidRegistryAccount)) (decode_verifier_registry_v1 (ac_data account)))
        (\<lambda>registry.
          if ac_key account \<noteq> fst (pool_v1_verifier_registry_address env program_id (r1_pool registry))
          then fail InvalidRegistryAddress else Inr registry))"

definition load_entry :: "solana \<Rightarrow> bytes \<Rightarrow> account \<Rightarrow> bool \<Rightarrow> program_error + verifier_registry_entry_v1" where
  "load_entry env program_id account writable =
     (if ac_owner account \<noteq> program_id \<or> ac_executable account \<or> ac_is_signer account \<or> ac_is_writable account \<noteq> writable
      then fail InvalidEntryAccount
      else bindE (map_err (\<lambda>_. Custom (error_code InvalidEntryAccount)) (decode_verifier_registry_entry_v1 (ac_data account)))
        (\<lambda>entry.
          if ac_key account \<noteq> fst (pool_v1_verifier_entry_address env program_id (e1_pool entry)
               (e1_profile_binding entry) (e1_release_binding entry))
          then fail InvalidEntryAddress else Inr entry))"

definition load_registry_v2 :: "solana \<Rightarrow> bytes \<Rightarrow> account \<Rightarrow> program_error + verifier_registry_v2" where
  "load_registry_v2 env program_id account =
     (if ac_owner account \<noteq> program_id \<or> ac_executable account \<or> ac_is_signer account \<or> \<not> ac_is_writable account
      then fail InvalidRegistryAccount
      else bindE (map_err (\<lambda>_. Custom (error_code InvalidRegistryAccount)) (decode_verifier_registry_v2 (ac_data account)))
        (\<lambda>registry.
          let loader = bpf_loader_upgradeable_id env;
              expected_programdata = fst (find_program_address env [program_id] loader)
          in if ac_key account \<noteq> fst (pool_v1_verifier_registry_v2_address env program_id (r2_pool registry))
               \<or> r2_registry_program registry \<noteq> program_id \<or> r2_loader_program registry \<noteq> loader
               \<or> r2_programdata_address registry \<noteq> expected_programdata
             then fail InvalidRegistryAddress else Inr registry))"

definition load_entry_v2 :: "solana \<Rightarrow> bytes \<Rightarrow> account \<Rightarrow> bool \<Rightarrow> program_error + verifier_registry_entry_v2" where
  "load_entry_v2 env program_id account writable =
     (if ac_owner account \<noteq> program_id \<or> ac_executable account \<or> ac_is_signer account \<or> ac_is_writable account \<noteq> writable
      then fail InvalidEntryAccount
      else bindE (map_err (\<lambda>_. Custom (error_code InvalidEntryAccount)) (decode_verifier_registry_entry_v2 (ac_data account)))
        (\<lambda>entry.
          let loader = bpf_loader_upgradeable_id env;
              expected_programdata = fst (find_program_address env [e2_verifier_program entry] loader)
          in if ac_key account \<noteq> fst (pool_v1_verifier_entry_v2_address env program_id (e2_pool entry)
                  (e2_profile_binding entry) (e2_release_binding entry))
               \<or> e2_loader_program entry \<noteq> loader \<or> e2_programdata_address entry \<noteq> expected_programdata
               \<or> e2_expected_upgrade_authority entry \<noteq> zeros 32
             then fail InvalidEntryAddress else Inr entry))"

definition require_entry_registry_match :: "verifier_registry_v1 \<Rightarrow> verifier_registry_entry_v1 \<Rightarrow> program_error + unit" where
  "require_entry_registry_match registry entry =
     (if e1_pool entry \<noteq> r1_pool registry \<or> e1_policy_binding entry \<noteq> r1_policy_binding registry
      then fail InvalidEntryAccount else Inr ())"

definition require_entry_registry_match_v2 :: "verifier_registry_v2 \<Rightarrow> verifier_registry_entry_v2 \<Rightarrow> program_error + unit" where
  "require_entry_registry_match_v2 registry entry =
     (if e2_pool entry \<noteq> r2_pool registry \<or> e2_policy_binding entry \<noteq> r2_policy_binding registry
      then fail InvalidEntryAccount else Inr ())"

definition require_generation :: "verifier_registry_v1 \<Rightarrow> u64 \<Rightarrow> program_error + unit" where
  "require_generation registry expected = (if r1_generation registry \<noteq> expected then fail GenerationMismatch else Inr ())"

definition incremented_registry :: "verifier_registry_v1 \<Rightarrow> program_error + verifier_registry_v1" where
  "incremented_registry registry =
     bindE (ok_or (Custom (error_code GenerationOverflow)) (checked_add (r1_generation registry) 1)) (\<lambda>generation.
       Inr (registry \<lparr> r1_generation := generation \<rparr>))"

definition require_authority_v2 :: "verifier_registry_v2 \<Rightarrow> account \<Rightarrow> program_error + unit" where
  "require_authority_v2 registry authority =
     (if r2_is_immutable registry then fail RegistryFrozen
      else if ac_key authority \<noteq> r2_authority registry \<or> \<not> ac_is_signer authority \<or> ac_is_writable authority
        \<or> ac_executable authority
      then fail InvalidAuthority else Inr ())"

definition require_generation_v2 :: "verifier_registry_v2 \<Rightarrow> u64 \<Rightarrow> program_error + unit" where
  "require_generation_v2 registry expected = (if r2_generation registry \<noteq> expected then fail GenerationMismatch else Inr ())"

definition incremented_registry_v2 :: "verifier_registry_v2 \<Rightarrow> program_error + verifier_registry_v2" where
  "incremented_registry_v2 registry =
     bindE (ok_or (Custom (error_code GenerationOverflow)) (checked_add (r2_generation registry) 1)) (\<lambda>generation.
       Inr (registry \<lparr> r2_generation := generation \<rparr>))"

definition registry_image :: "verifier_registry_v1 \<Rightarrow> program_error + bytes" where
  "registry_image registry = map_err (\<lambda>_. Custom (error_code InvalidRegistryAccount)) (encode_verifier_registry_v1 registry)"

definition entry_image :: "verifier_registry_entry_v1 \<Rightarrow> program_error + bytes" where
  "entry_image entry = map_err (\<lambda>_. Custom (error_code InvalidEntryAccount)) (encode_verifier_registry_entry_v1 entry)"

definition registry_image_v2 :: "verifier_registry_v2 \<Rightarrow> program_error + bytes" where
  "registry_image_v2 registry = map_err (\<lambda>_. Custom (error_code InvalidRegistryAccount)) (encode_verifier_registry_v2 registry)"

definition entry_image_v2 :: "verifier_registry_entry_v2 \<Rightarrow> program_error + bytes" where
  "entry_image_v2 entry = map_err (\<lambda>_. Custom (error_code InvalidEntryAccount)) (encode_verifier_registry_entry_v2 entry)"

definition commit_registry :: "account \<Rightarrow> bytes \<Rightarrow> program_error + account" where
  "commit_registry registry_account registry =
     (if length (ac_data registry_account) \<noteq> length registry then fail InvalidRegistryAccount
      else Inr (registry_account \<lparr> ac_data := registry \<rparr>))"

definition commit_registry_and_entry :: "account \<Rightarrow> bytes \<Rightarrow> account \<Rightarrow> bytes \<Rightarrow> program_error + account \<times> account" where
  "commit_registry_and_entry registry_account registry entry_account entry =
     (if length (ac_data registry_account) \<noteq> length registry \<or> length (ac_data entry_account) \<noteq> length entry
      then fail InvalidAccountCount
      else Inr (registry_account \<lparr> ac_data := registry \<rparr>, entry_account \<lparr> ac_data := entry \<rparr>))"

section \<open>Version 1 handlers\<close>

definition process_initialize ::
  "solana \<Rightarrow> bytes \<Rightarrow> account list \<Rightarrow> bytes \<Rightarrow> bytes \<Rightarrow> u64 \<Rightarrow> program_error + account list" where
  "process_initialize env program_id accounts pool policy_binding minimum_activation_delay_slots = (case accounts of
     [registry_account, authority, payer, system_program_account] \<Rightarrow>
       bindE (require_unique_accounts accounts) (\<lambda>_.
       bindE (require_initial_authority authority) (\<lambda>_.
       bindE (require_payer_and_system_program env payer system_program_account) (\<lambda>_.
       let registry = \<lparr> r1_flags = 0, r1_pool = pool, r1_authority = ac_key authority, r1_policy_binding = policy_binding,
             r1_generation = 0, r1_minimum_activation_delay_slots = minimum_activation_delay_slots \<rparr>
       in bindE (map_err (\<lambda>_. Custom (error_code InvalidInstruction)) (registry_image registry)) (\<lambda>image.
       bindE (prepare_fresh_pda env payer registry_account system_program_account POOL_V1_VERIFIER_REGISTRY_BYTES program_id
                (pool_v1_verifier_registry_address env program_id pool) [POOL_V1_VERIFIER_REGISTRY_SEED, pool])
         (\<lambda>(payer, registry_account, system_program_account).
       bindE (commit_registry registry_account image) (\<lambda>registry_account.
       Inr [registry_account, authority, payer, system_program_account]))))))
   | _ \<Rightarrow> fail InvalidAccountCount)"

definition process_schedule ::
  "solana \<Rightarrow> bytes \<Rightarrow> account list \<Rightarrow> u64 \<Rightarrow> bytes \<Rightarrow> bytes \<Rightarrow> bytes \<Rightarrow> u8 \<Rightarrow> u64 \<Rightarrow> u64 \<Rightarrow> program_error + account list" where
  "process_schedule env program_id accounts expected_generation verifier_program profile_binding release_binding
       statement_version activation_slot current_slot = (case accounts of
     [registry_account, entry_account, authority, payer, system_program_account] \<Rightarrow>
       bindE (require_unique_accounts accounts) (\<lambda>_.
       bindE (load_registry env program_id registry_account) (\<lambda>registry.
       bindE (require_authority registry authority) (\<lambda>_.
       bindE (require_generation registry expected_generation) (\<lambda>_.
       bindE (require_payer_and_system_program env payer system_program_account) (\<lambda>_.
       bindE (ok_or (Custom (error_code ActivationDelayOverflow))
                (checked_add current_slot (r1_minimum_activation_delay_slots registry))) (\<lambda>earliest.
       if activation_slot < earliest then fail ActivationDelayNotElapsed
       else
       let entry = \<lparr> e1_status = Pending, e1_statement_version = statement_version, e1_pool = r1_pool registry,
             e1_verifier_program = verifier_program, e1_profile_binding = profile_binding,
             e1_release_binding = release_binding, e1_activation_slot = activation_slot,
             e1_retirement_slot = POOL_V1_VERIFIER_ENTRY_NO_RETIREMENT_SLOT,
             e1_policy_binding = r1_policy_binding registry \<rparr>
       in bindE (map_err (\<lambda>_. Custom (error_code InvalidInstruction)) (entry_image entry)) (\<lambda>encoded_entry.
       bindE (incremented_registry registry) (\<lambda>next_registry.
       bindE (registry_image next_registry) (\<lambda>encoded_registry.
       bindE (prepare_fresh_pda env payer entry_account system_program_account POOL_V1_VERIFIER_ENTRY_BYTES program_id
                (pool_v1_verifier_entry_address env program_id (r1_pool registry) profile_binding release_binding)
                [POOL_V1_VERIFIER_ENTRY_SEED, r1_pool registry, profile_binding, release_binding])
         (\<lambda>(payer, entry_account, system_program_account).
       bindE (commit_registry_and_entry registry_account encoded_registry entry_account encoded_entry)
         (\<lambda>(registry_account, entry_account).
       Inr [registry_account, entry_account, authority, payer, system_program_account])))))))))))
   | _ \<Rightarrow> fail InvalidAccountCount)"

definition process_pause_change ::
  "solana \<Rightarrow> bytes \<Rightarrow> account list \<Rightarrow> u64 \<Rightarrow> bool \<Rightarrow> program_error + account list" where
  "process_pause_change env program_id accounts expected_generation paused = (case accounts of
     [registry_account, authority] \<Rightarrow>
       bindE (require_unique_accounts accounts) (\<lambda>_.
       bindE (load_registry env program_id registry_account) (\<lambda>registry.
       bindE (require_authority registry authority) (\<lambda>_.
       bindE (require_generation registry expected_generation) (\<lambda>_.
       if r1_is_paused registry = paused then (if paused then fail RegistryAlreadyPaused else fail RegistryNotPaused)
       else
       bindE (incremented_registry registry) (\<lambda>next.
       let next = (if paused then next \<lparr> r1_flags := r1_flags next OR POOL_V1_VERIFIER_REGISTRY_FLAG_PAUSED \<rparr>
                   else next \<lparr> r1_flags := r1_flags next AND NOT POOL_V1_VERIFIER_REGISTRY_FLAG_PAUSED \<rparr>)
       in bindE (registry_image next) (\<lambda>image.
       bindE (commit_registry registry_account image) (\<lambda>registry_account.
       Inr [registry_account, authority])))))))
   | _ \<Rightarrow> fail InvalidAccountCount)"

definition process_activate ::
  "solana \<Rightarrow> bytes \<Rightarrow> account list \<Rightarrow> u64 \<Rightarrow> u64 \<Rightarrow> program_error + account list" where
  "process_activate env program_id accounts expected_generation current_slot = (case accounts of
     [registry_account, entry_account, authority] \<Rightarrow>
       bindE (require_unique_accounts accounts) (\<lambda>_.
       bindE (load_registry env program_id registry_account) (\<lambda>registry.
       bindE (require_authority registry authority) (\<lambda>_.
       bindE (require_generation registry expected_generation) (\<lambda>_.
       bindE (load_entry env program_id entry_account True) (\<lambda>entry.
       bindE (require_entry_registry_match registry entry) (\<lambda>_.
       if e1_status entry \<noteq> Pending then fail EntryNotPending
       else if \<not> e1_has_no_retirement_slot entry then fail InvalidEntryState
       else if current_slot < e1_activation_slot entry then fail ActivationDelayNotElapsed
       else
       let next_entry = entry \<lparr> e1_status := Active \<rparr>
       in bindE (incremented_registry registry) (\<lambda>next_registry.
       bindE (registry_image next_registry) (\<lambda>encoded_registry.
       bindE (entry_image next_entry) (\<lambda>encoded_entry.
       bindE (commit_registry_and_entry registry_account encoded_registry entry_account encoded_entry)
         (\<lambda>(registry_account, entry_account).
       Inr [registry_account, entry_account, authority]))))))))))
   | _ \<Rightarrow> fail InvalidAccountCount)"

definition process_retire ::
  "solana \<Rightarrow> bytes \<Rightarrow> account list \<Rightarrow> u64 \<Rightarrow> u64 \<Rightarrow> program_error + account list" where
  "process_retire env program_id accounts expected_generation current_slot = (case accounts of
     [registry_account, retiring_account, replacement_account, authority] \<Rightarrow>
       bindE (require_unique_accounts accounts) (\<lambda>_.
       bindE (load_registry env program_id registry_account) (\<lambda>registry.
       bindE (require_authority registry authority) (\<lambda>_.
       bindE (require_generation registry expected_generation) (\<lambda>_.
       bindE (load_entry env program_id retiring_account True) (\<lambda>retiring.
       bindE (load_entry env program_id replacement_account False) (\<lambda>replacement.
       bindE (require_entry_registry_match registry retiring) (\<lambda>_.
       bindE (require_entry_registry_match registry replacement) (\<lambda>_.
       if \<not> e1_is_active_at retiring current_slot then fail EntryNotActive
       else if \<not> e1_has_no_retirement_slot retiring then fail InvalidEntryState
       else if \<not> e1_is_active_at replacement current_slot then fail ReplacementNotActive
       else if \<not> e1_is_exact_compatible_replacement_for replacement retiring current_slot then fail IncompatibleReplacement
       else if current_slot \<le> e1_activation_slot retiring then fail InvalidRetirementSlot
       else
       let next_entry = retiring \<lparr> e1_status := Retired, e1_retirement_slot := current_slot \<rparr>
       in bindE (incremented_registry registry) (\<lambda>next_registry.
       bindE (registry_image next_registry) (\<lambda>encoded_registry.
       bindE (entry_image next_entry) (\<lambda>encoded_entry.
       bindE (commit_registry_and_entry registry_account encoded_registry retiring_account encoded_entry)
         (\<lambda>(registry_account, retiring_account).
       Inr [registry_account, retiring_account, replacement_account, authority]))))))))))))
   | _ \<Rightarrow> fail InvalidAccountCount)"

definition process_freeze :: "solana \<Rightarrow> bytes \<Rightarrow> account list \<Rightarrow> u64 \<Rightarrow> program_error + account list" where
  "process_freeze env program_id accounts expected_generation = (case accounts of
     [registry_account, authority] \<Rightarrow>
       bindE (require_unique_accounts accounts) (\<lambda>_.
       bindE (load_registry env program_id registry_account) (\<lambda>registry.
       bindE (require_authority registry authority) (\<lambda>_.
       bindE (require_generation registry expected_generation) (\<lambda>_.
       bindE (incremented_registry registry) (\<lambda>next.
       let next = next \<lparr> r1_flags := r1_flags next OR POOL_V1_VERIFIER_REGISTRY_FLAG_IMMUTABLE, r1_authority := zeros 32 \<rparr>
       in bindE (registry_image next) (\<lambda>image.
       bindE (commit_registry registry_account image) (\<lambda>registry_account.
       Inr [registry_account, authority])))))))
   | _ \<Rightarrow> fail InvalidAccountCount)"

section \<open>Version 2 handlers\<close>

definition process_initialize_v2 ::
  "solana \<Rightarrow> bytes \<Rightarrow> account list \<Rightarrow> bytes \<Rightarrow> bytes \<Rightarrow> u64 \<Rightarrow> bytes \<Rightarrow> program_error + account list" where
  "process_initialize_v2 env program_id accounts pool policy_binding minimum_activation_delay_slots
       expected_registry_executable_hash = (case accounts of
     [registry_account, authority, payer, system_program_account, registry_program_account, registry_programdata_account] \<Rightarrow>
       bindE (require_unique_accounts accounts) (\<lambda>_.
       bindE (require_initial_authority authority) (\<lambda>_.
       bindE (require_payer_and_system_program env payer system_program_account) (\<lambda>_.
       bindE (authenticate_immutable_loader_v3_deployment_v2 env program_id registry_program_account
                registry_programdata_account) (\<lambda>deployment.
       if dp_executable_hash deployment \<noteq> expected_registry_executable_hash then fail ExecutableHashMismatch
       else
       let registry = \<lparr> r2_flags = 0, r2_pool = pool, r2_authority = ac_key authority, r2_policy_binding = policy_binding,
             r2_generation = 0, r2_minimum_activation_delay_slots = minimum_activation_delay_slots,
             r2_registry_program = program_id, r2_loader_program = bpf_loader_upgradeable_id env,
             r2_programdata_address = dp_programdata_address deployment,
             r2_executable_hash = dp_executable_hash deployment \<rparr>
       in bindE (map_err (\<lambda>_. Custom (error_code InvalidInstruction)) (registry_image_v2 registry)) (\<lambda>image.
       bindE (prepare_fresh_pda env payer registry_account system_program_account POOL_V1_VERIFIER_REGISTRY_V2_BYTES program_id
                (pool_v1_verifier_registry_v2_address env program_id pool) [POOL_V1_VERIFIER_REGISTRY_V2_SEED, pool])
         (\<lambda>(payer, registry_account, system_program_account).
       bindE (commit_registry registry_account image) (\<lambda>registry_account.
       Inr [registry_account, authority, payer, system_program_account, registry_program_account,
            registry_programdata_account])))))))
   | _ \<Rightarrow> fail InvalidAccountCount)"

definition process_schedule_v2 ::
  "solana \<Rightarrow> bytes \<Rightarrow> account list \<Rightarrow> u64 \<Rightarrow> bytes \<Rightarrow> bytes \<Rightarrow> bytes \<Rightarrow> u8 \<Rightarrow> u64 \<Rightarrow> bytes \<Rightarrow> u64
     \<Rightarrow> program_error + account list" where
  "process_schedule_v2 env program_id accounts expected_generation verifier_program profile_binding release_binding
       statement_version activation_slot expected_executable_hash current_slot = (case accounts of
     [registry_account, entry_account, authority, payer, system_program_account, verifier_program_account,
      verifier_programdata_account] \<Rightarrow>
       bindE (require_unique_accounts accounts) (\<lambda>_.
       bindE (load_registry_v2 env program_id registry_account) (\<lambda>registry.
       bindE (require_authority_v2 registry authority) (\<lambda>_.
       bindE (require_generation_v2 registry expected_generation) (\<lambda>_.
       bindE (require_payer_and_system_program env payer system_program_account) (\<lambda>_.
       bindE (ok_or (Custom (error_code ActivationDelayOverflow))
                (checked_add current_slot (r2_minimum_activation_delay_slots registry))) (\<lambda>earliest.
       if activation_slot < earliest then fail ActivationDelayNotElapsed
       else
       bindE (authenticate_immutable_loader_v3_deployment_v2 env verifier_program verifier_program_account
                verifier_programdata_account) (\<lambda>deployment.
       if dp_executable_hash deployment \<noteq> expected_executable_hash then fail ExecutableHashMismatch
       else
       let entry = \<lparr> e2_status = Pending, e2_statement_version = statement_version, e2_pool = r2_pool registry,
             e2_verifier_program = verifier_program, e2_profile_binding = profile_binding,
             e2_release_binding = release_binding, e2_loader_program = bpf_loader_upgradeable_id env,
             e2_programdata_address = dp_programdata_address deployment,
             e2_executable_hash = dp_executable_hash deployment, e2_expected_upgrade_authority = zeros 32,
             e2_activation_slot = activation_slot, e2_retirement_slot = POOL_V1_VERIFIER_ENTRY_NO_RETIREMENT_SLOT,
             e2_policy_binding = r2_policy_binding registry \<rparr>
       in bindE (map_err (\<lambda>_. Custom (error_code InvalidInstruction)) (entry_image_v2 entry)) (\<lambda>encoded_entry.
       bindE (incremented_registry_v2 registry) (\<lambda>next_registry.
       bindE (registry_image_v2 next_registry) (\<lambda>encoded_registry.
       bindE (prepare_fresh_pda env payer entry_account system_program_account POOL_V1_VERIFIER_ENTRY_V2_BYTES program_id
                (pool_v1_verifier_entry_v2_address env program_id (r2_pool registry) profile_binding release_binding)
                [POOL_V1_VERIFIER_ENTRY_V2_SEED, r2_pool registry, profile_binding, release_binding])
         (\<lambda>(payer, entry_account, system_program_account).
       bindE (commit_registry_and_entry registry_account encoded_registry entry_account encoded_entry)
         (\<lambda>(registry_account, entry_account).
       Inr [registry_account, entry_account, authority, payer, system_program_account, verifier_program_account,
            verifier_programdata_account]))))))))))))
   | _ \<Rightarrow> fail InvalidAccountCount)"

definition process_pause_change_v2 ::
  "solana \<Rightarrow> bytes \<Rightarrow> account list \<Rightarrow> u64 \<Rightarrow> bool \<Rightarrow> program_error + account list" where
  "process_pause_change_v2 env program_id accounts expected_generation paused = (case accounts of
     [registry_account, authority] \<Rightarrow>
       bindE (require_unique_accounts accounts) (\<lambda>_.
       bindE (load_registry_v2 env program_id registry_account) (\<lambda>registry.
       bindE (require_authority_v2 registry authority) (\<lambda>_.
       bindE (require_generation_v2 registry expected_generation) (\<lambda>_.
       if r2_is_paused registry = paused then (if paused then fail RegistryAlreadyPaused else fail RegistryNotPaused)
       else
       bindE (incremented_registry_v2 registry) (\<lambda>next.
       let next = (if paused then next \<lparr> r2_flags := r2_flags next OR POOL_V1_VERIFIER_REGISTRY_FLAG_PAUSED \<rparr>
                   else next \<lparr> r2_flags := r2_flags next AND NOT POOL_V1_VERIFIER_REGISTRY_FLAG_PAUSED \<rparr>)
       in bindE (registry_image_v2 next) (\<lambda>image.
       bindE (commit_registry registry_account image) (\<lambda>registry_account.
       Inr [registry_account, authority])))))))
   | _ \<Rightarrow> fail InvalidAccountCount)"

definition process_activate_v2 ::
  "solana \<Rightarrow> bytes \<Rightarrow> account list \<Rightarrow> u64 \<Rightarrow> u64 \<Rightarrow> program_error + account list" where
  "process_activate_v2 env program_id accounts expected_generation current_slot = (case accounts of
     [registry_account, entry_account, authority] \<Rightarrow>
       bindE (require_unique_accounts accounts) (\<lambda>_.
       bindE (load_registry_v2 env program_id registry_account) (\<lambda>registry.
       bindE (require_authority_v2 registry authority) (\<lambda>_.
       bindE (require_generation_v2 registry expected_generation) (\<lambda>_.
       bindE (load_entry_v2 env program_id entry_account True) (\<lambda>entry.
       bindE (require_entry_registry_match_v2 registry entry) (\<lambda>_.
       if e2_status entry \<noteq> Pending then fail EntryNotPending
       else if \<not> e2_has_no_retirement_slot entry then fail InvalidEntryState
       else if current_slot < e2_activation_slot entry then fail ActivationDelayNotElapsed
       else
       let next_entry = entry \<lparr> e2_status := Active \<rparr>
       in bindE (incremented_registry_v2 registry) (\<lambda>next_registry.
       bindE (registry_image_v2 next_registry) (\<lambda>encoded_registry.
       bindE (entry_image_v2 next_entry) (\<lambda>encoded_entry.
       bindE (commit_registry_and_entry registry_account encoded_registry entry_account encoded_entry)
         (\<lambda>(registry_account, entry_account).
       Inr [registry_account, entry_account, authority]))))))))))
   | _ \<Rightarrow> fail InvalidAccountCount)"

definition process_retire_v2 ::
  "solana \<Rightarrow> bytes \<Rightarrow> account list \<Rightarrow> u64 \<Rightarrow> u64 \<Rightarrow> program_error + account list" where
  "process_retire_v2 env program_id accounts expected_generation current_slot = (case accounts of
     [registry_account, retiring_account, replacement_account, authority] \<Rightarrow>
       bindE (require_unique_accounts accounts) (\<lambda>_.
       bindE (load_registry_v2 env program_id registry_account) (\<lambda>registry.
       bindE (require_authority_v2 registry authority) (\<lambda>_.
       bindE (require_generation_v2 registry expected_generation) (\<lambda>_.
       bindE (load_entry_v2 env program_id retiring_account True) (\<lambda>retiring.
       bindE (load_entry_v2 env program_id replacement_account False) (\<lambda>replacement.
       bindE (require_entry_registry_match_v2 registry retiring) (\<lambda>_.
       bindE (require_entry_registry_match_v2 registry replacement) (\<lambda>_.
       if \<not> e2_is_active_at retiring current_slot then fail EntryNotActive
       else if \<not> e2_has_no_retirement_slot retiring then fail InvalidEntryState
       else if \<not> e2_is_active_at replacement current_slot then fail ReplacementNotActive
       else if \<not> e2_is_exact_compatible_replacement_for replacement retiring current_slot then fail IncompatibleReplacement
       else if current_slot \<le> e2_activation_slot retiring then fail InvalidRetirementSlot
       else
       let next_entry = retiring \<lparr> e2_status := Retired, e2_retirement_slot := current_slot \<rparr>
       in bindE (incremented_registry_v2 registry) (\<lambda>next_registry.
       bindE (registry_image_v2 next_registry) (\<lambda>encoded_registry.
       bindE (entry_image_v2 next_entry) (\<lambda>encoded_entry.
       bindE (commit_registry_and_entry registry_account encoded_registry retiring_account encoded_entry)
         (\<lambda>(registry_account, retiring_account).
       Inr [registry_account, retiring_account, replacement_account, authority]))))))))))))
   | _ \<Rightarrow> fail InvalidAccountCount)"

definition process_freeze_v2 :: "solana \<Rightarrow> bytes \<Rightarrow> account list \<Rightarrow> u64 \<Rightarrow> program_error + account list" where
  "process_freeze_v2 env program_id accounts expected_generation = (case accounts of
     [registry_account, authority] \<Rightarrow>
       bindE (require_unique_accounts accounts) (\<lambda>_.
       bindE (load_registry_v2 env program_id registry_account) (\<lambda>registry.
       bindE (require_authority_v2 registry authority) (\<lambda>_.
       bindE (require_generation_v2 registry expected_generation) (\<lambda>_.
       bindE (incremented_registry_v2 registry) (\<lambda>next.
       let next = next \<lparr> r2_flags := r2_flags next OR POOL_V1_VERIFIER_REGISTRY_FLAG_IMMUTABLE, r2_authority := zeros 32 \<rparr>
       in bindE (registry_image_v2 next) (\<lambda>image.
       bindE (commit_registry registry_account image) (\<lambda>registry_account.
       Inr [registry_account, authority])))))))
   | _ \<Rightarrow> fail InvalidAccountCount)"

section \<open>Dispatch\<close>

definition process_decoded_instruction ::
  "solana \<Rightarrow> bytes \<Rightarrow> account list \<Rightarrow> registry_instruction_v1 \<Rightarrow> u64 \<Rightarrow> program_error + account list" where
  "process_decoded_instruction env program_id accounts instruction current_slot = (case instruction of
     Initialize1 a \<Rightarrow> process_initialize env program_id accounts (in_pool a) (in_policy_binding a)
       (in_minimum_activation_delay_slots a)
   | ScheduleProfile1 a \<Rightarrow> process_schedule env program_id accounts (sc_expected_generation a) (sc_verifier_program a)
       (sc_profile_binding a) (sc_release_binding a) (sc_statement_version a) (sc_activation_slot a) current_slot
   | Pause1 expected_generation \<Rightarrow> process_pause_change env program_id accounts expected_generation True
   | Unpause1 expected_generation \<Rightarrow> process_pause_change env program_id accounts expected_generation False
   | Activate1 expected_generation \<Rightarrow> process_activate env program_id accounts expected_generation current_slot
   | Retire1 expected_generation \<Rightarrow> process_retire env program_id accounts expected_generation current_slot
   | Freeze1 expected_generation \<Rightarrow> process_freeze env program_id accounts expected_generation)"

definition process_decoded_instruction_v2 ::
  "solana \<Rightarrow> bytes \<Rightarrow> account list \<Rightarrow> registry_instruction_v2 \<Rightarrow> u64 \<Rightarrow> program_error + account list" where
  "process_decoded_instruction_v2 env program_id accounts instruction current_slot = (case instruction of
     Initialize2 a expected_registry_executable_hash \<Rightarrow> process_initialize_v2 env program_id accounts (in_pool a)
       (in_policy_binding a) (in_minimum_activation_delay_slots a) expected_registry_executable_hash
   | ScheduleProfile2 a expected_executable_hash \<Rightarrow> process_schedule_v2 env program_id accounts (sc_expected_generation a)
       (sc_verifier_program a) (sc_profile_binding a) (sc_release_binding a) (sc_statement_version a)
       (sc_activation_slot a) expected_executable_hash current_slot
   | Pause2 expected_generation \<Rightarrow> process_pause_change_v2 env program_id accounts expected_generation True
   | Unpause2 expected_generation \<Rightarrow> process_pause_change_v2 env program_id accounts expected_generation False
   | Activate2 expected_generation \<Rightarrow> process_activate_v2 env program_id accounts expected_generation current_slot
   | Retire2 expected_generation \<Rightarrow> process_retire_v2 env program_id accounts expected_generation current_slot
   | Freeze2 expected_generation \<Rightarrow> process_freeze_v2 env program_id accounts expected_generation)"

definition process_decoded_instruction_any ::
  "solana \<Rightarrow> bytes \<Rightarrow> account list \<Rightarrow> decoded_registry_instruction \<Rightarrow> u64 \<Rightarrow> program_error + account list" where
  "process_decoded_instruction_any env program_id accounts instruction current_slot = (case instruction of
     V1 i \<Rightarrow> process_decoded_instruction env program_id accounts i current_slot
   | V2 i \<Rightarrow> process_decoded_instruction_v2 env program_id accounts i current_slot)"

definition process_instruction :: "solana \<Rightarrow> bytes \<Rightarrow> account list \<Rightarrow> bytes \<Rightarrow> program_error + account list" where
  "process_instruction env program_id accounts instruction_data =
     bindE (map_err (\<lambda>_. Custom (error_code InvalidInstruction)) (decode_registry_instruction instruction_data)) (\<lambda>instruction.
     bindE (if requires_clock instruction then clock_get env else Inr 0) (\<lambda>current_slot.
     process_decoded_instruction_any env program_id accounts instruction current_slot))"

end
