(* ===== verification/RegistryGovernance.thy ===== *)
theory RegistryGovernance
  imports RegistryProcessor
begin

text \<open>
  What the registry program promises. The abstract machine \<open>gov_step\<close> has one rule per governance command over a
  registry and the entries a call touches; both versions of the handlers refine it through the views of the
  accounts they load. On top of it, a ledger on which anybody calls the program while other programs run: what an
  account of the program can become along any run.
\<close>

named_theorems guard_iffs \<open>when a guard of the program lets a call through\<close>

section \<open>Guards\<close>

lemma fail_neq_Inr [simp]: "fail e \<noteq> Inr x" "Inr x \<noteq> fail e"
  by (simp_all add: fail_def)

lemma fail_eq [simp]: "fail e = Inl x \<longleftrightarrow> x = Custom (error_code e)"
  by (auto simp: fail_def)

lemma exact_accounts_iff [guard_iffs]:
  "(case accounts of [a, b] \<Rightarrow> f2 a b | _ \<Rightarrow> fail e) = Inr y \<longleftrightarrow> (\<exists>a b. accounts = [a, b] \<and> f2 a b = Inr y)"
  "(case accounts of [a, b, c] \<Rightarrow> f3 a b c | _ \<Rightarrow> fail e) = Inr y \<longleftrightarrow> (\<exists>a b c. accounts = [a, b, c] \<and> f3 a b c = Inr y)"
  "(case accounts of [a, b, c, d] \<Rightarrow> f4 a b c d | _ \<Rightarrow> fail e) = Inr y
     \<longleftrightarrow> (\<exists>a b c d. accounts = [a, b, c, d] \<and> f4 a b c d = Inr y)"
  "(case accounts of [a, b, c, d, p] \<Rightarrow> f5 a b c d p | _ \<Rightarrow> fail e) = Inr y
     \<longleftrightarrow> (\<exists>a b c d p. accounts = [a, b, c, d, p] \<and> f5 a b c d p = Inr y)"
  "(case accounts of [a, b, c, d, p, q] \<Rightarrow> f6 a b c d p q | _ \<Rightarrow> fail e) = Inr y
     \<longleftrightarrow> (\<exists>a b c d p q. accounts = [a, b, c, d, p, q] \<and> f6 a b c d p q = Inr y)"
  "(case accounts of [a, b, c, d, p, q, s] \<Rightarrow> f7 a b c d p q s | _ \<Rightarrow> fail e) = Inr y
     \<longleftrightarrow> (\<exists>a b c d p q s. accounts = [a, b, c, d, p, q, s] \<and> f7 a b c d p q s = Inr y)"
  by (auto split: list.splits)

lemma if_fail_eq_Inr [guard_iffs]: "(if c then fail e else x) = Inr y \<longleftrightarrow> \<not> c \<and> x = Inr y"
  by simp

lemma if_fail2_eq_Inr [guard_iffs]: "(if c then if d then fail e else fail f else x) = Inr y \<longleftrightarrow> \<not> c \<and> x = Inr y"
  by simp

lemma require_unique_accounts_iff [guard_iffs]: "require_unique_accounts accounts = Inr u \<longleftrightarrow> distinct (map ac_key accounts)"
  by (induction accounts) auto

lemma checked_succ_iff [guard_iffs]:
  "checked_add w 1 = Some (v :: u64) \<longleftrightarrow> Suc (unat w) < 2 ^ 64 \<and> v = w + 1"
  by (auto simp: checked_add_def)

lemma incremented_registry_iff [guard_iffs]:
  "incremented_registry r = Inr n \<longleftrightarrow> Suc (unat (r1_generation r)) < 2 ^ 64 \<and> n = r \<lparr> r1_generation := r1_generation r + 1 \<rparr>"
  "incremented_registry_v2 s = Inr m \<longleftrightarrow> Suc (unat (r2_generation s)) < 2 ^ 64 \<and> m = s \<lparr> r2_generation := r2_generation s + 1 \<rparr>"
  by (auto simp: incremented_registry_def incremented_registry_v2_def checked_succ_iff)

lemma require_generation_iff [guard_iffs]:
  "require_generation r g = Inr u \<longleftrightarrow> r1_generation r = g" "require_generation_v2 s g = Inr u \<longleftrightarrow> r2_generation s = g"
  by (simp_all add: require_generation_def require_generation_v2_def)

lemma require_authority_iff [guard_iffs]:
  "require_authority r a = Inr u \<longleftrightarrow> \<not> r1_is_immutable r \<and> ac_key a = r1_authority r \<and> ac_is_signer a
     \<and> \<not> ac_is_writable a \<and> \<not> ac_executable a"
  "require_authority_v2 s a = Inr u \<longleftrightarrow> \<not> r2_is_immutable s \<and> ac_key a = r2_authority s \<and> ac_is_signer a
     \<and> \<not> ac_is_writable a \<and> \<not> ac_executable a"
  by (auto simp: require_authority_def require_authority_v2_def)

lemma require_entry_registry_match_iff [guard_iffs]:
  "require_entry_registry_match r e = Inr u \<longleftrightarrow> e1_pool e = r1_pool r \<and> e1_policy_binding e = r1_policy_binding r"
  "require_entry_registry_match_v2 s f = Inr u \<longleftrightarrow> e2_pool f = r2_pool s \<and> e2_policy_binding f = r2_policy_binding s"
  by (auto simp: require_entry_registry_match_def require_entry_registry_match_v2_def)

lemma image_iffs [guard_iffs]:
  "registry_image r = Inr b \<longleftrightarrow> encode_verifier_registry_v1 r = Inr b"
  "registry_image_v2 s = Inr b \<longleftrightarrow> encode_verifier_registry_v2 s = Inr b"
  "entry_image e = Inr b \<longleftrightarrow> encode_verifier_registry_entry_v1 e = Inr b"
  "entry_image_v2 f = Inr b \<longleftrightarrow> encode_verifier_registry_entry_v2 f = Inr b"
  by (simp_all add: registry_image_def registry_image_v2_def entry_image_def entry_image_v2_def)

lemma commit_iffs [guard_iffs]:
  "commit_registry a b = Inr a' \<longleftrightarrow> length (ac_data a) = length b \<and> a' = a \<lparr> ac_data := b \<rparr>"
  "commit_registry_and_entry a b c d = Inr p \<longleftrightarrow> length (ac_data a) = length b \<and> length (ac_data c) = length d
     \<and> p = (a \<lparr> ac_data := b \<rparr>, c \<lparr> ac_data := d \<rparr>)"
  by (auto simp: commit_registry_def commit_registry_and_entry_def)

lemma require_payer_iff [guard_iffs]:
  "require_payer_and_system_program env payer sys = Inr u \<longleftrightarrow>
     ac_is_signer payer \<and> ac_is_writable payer \<and> \<not> ac_executable payer \<and> ac_owner payer = system_program_id env
     \<and> ac_key sys = system_program_id env \<and> ac_owner sys = native_loader_id env \<and> ac_executable sys
     \<and> \<not> ac_is_signer sys \<and> \<not> ac_is_writable sys"
  by (auto simp: require_payer_and_system_program_def)

section \<open>The abstract machine\<close>

record gov_registry =
  g_pool :: bytes
  g_policy :: bytes
  g_delay :: nat
  g_deployment :: "bytes list"
  g_generation :: nat
  g_paused :: bool
  g_authority :: "bytes option"

record gov_entry =
  ge_pool :: bytes
  ge_policy :: bytes
  ge_program :: bytes
  ge_profile :: bytes
  ge_release :: bytes
  ge_statement_version :: u8
  ge_deployment :: "bytes list"
  ge_activation :: nat
  ge_status :: verifier_entry_status
  ge_retirement :: "nat option"

datatype gov_command = GSchedule schedule_args | GSetPaused bool | GActivate | GRetire | GFreeze

definition next_generation :: "gov_registry \<Rightarrow> gov_registry" where
  "next_generation g = g \<lparr> g_generation := Suc (g_generation g) \<rparr>"

definition governs :: "bytes \<Rightarrow> gov_registry \<Rightarrow> bool" where
  "governs signer g \<longleftrightarrow> g_authority g = Some signer \<and> Suc (g_generation g) < 2 ^ 64"

definition belongs :: "gov_entry \<Rightarrow> gov_registry \<Rightarrow> bool" where
  "belongs e g \<longleftrightarrow> ge_pool e = g_pool g \<and> ge_policy e = g_policy g"

definition live_at :: "gov_entry \<Rightarrow> nat \<Rightarrow> bool" where
  "live_at e slot \<longleftrightarrow> ge_status e = Active \<and> ge_activation e \<le> slot
     \<and> (case ge_retirement e of None \<Rightarrow> True | Some r \<Rightarrow> slot < r)"

definition described_by :: "gov_entry \<Rightarrow> schedule_args \<Rightarrow> bool" where
  "described_by e a \<longleftrightarrow> ge_program e = sc_verifier_program a \<and> ge_profile e = sc_profile_binding a
     \<and> ge_release e = sc_release_binding a \<and> ge_statement_version e = sc_statement_version a
     \<and> ge_activation e = unat (sc_activation_slot a)"

text \<open>The largest slot is the code's mark for no retirement, so a retirement at that slot reads as none.\<close>

definition retirement_mark :: "nat \<Rightarrow> nat option" where
  "retirement_mark slot = (if slot = 2 ^ 64 - 1 then None else Some slot)"

inductive gov_step ::
  "nat \<Rightarrow> bytes \<Rightarrow> gov_command \<Rightarrow> gov_registry \<times> gov_entry list \<Rightarrow> gov_registry \<times> gov_entry list \<Rightarrow> bool"
  for slot signer where
  schedule: "gov_step slot signer (GSchedule a) (g, []) (next_generation g, [e])"
    if "governs signer g" "described_by e a" "belongs e g" "ge_status e = Pending" "ge_retirement e = None"
      "slot + g_delay g \<le> ge_activation e"
| set_paused: "gov_step slot signer (GSetPaused p) (g, []) (next_generation g \<lparr> g_paused := p \<rparr>, [])"
    if "governs signer g" "g_paused g \<noteq> p"
| activate: "gov_step slot signer GActivate (g, [e]) (next_generation g, [e \<lparr> ge_status := Active \<rparr>])"
    if "governs signer g" "belongs e g" "ge_status e = Pending" "ge_retirement e = None" "ge_activation e \<le> slot"
| retire: "gov_step slot signer GRetire (g, [e, r]) (next_generation g, [e \<lparr> ge_status := Retired, ge_retirement := retirement_mark slot \<rparr>, r])"
    if "governs signer g" "belongs e g" "belongs r g" "live_at e slot" "ge_retirement e = None" "live_at r slot"
      "ge_profile r = ge_profile e" "ge_statement_version r = ge_statement_version e" "ge_release r \<noteq> ge_release e"
      "ge_activation e < slot"
| freeze: "gov_step slot signer GFreeze (g, []) (next_generation g \<lparr> g_authority := None \<rparr>, [])"
    if "governs signer g"

inductive_cases gov_step_elim: "gov_step slot signer c s t"

section \<open>Views of accounts\<close>

definition abs_r1 :: "verifier_registry_v1 \<Rightarrow> gov_registry" where
  "abs_r1 r = \<lparr> g_pool = r1_pool r, g_policy = r1_policy_binding r, g_delay = unat (r1_minimum_activation_delay_slots r),
     g_deployment = [], g_generation = unat (r1_generation r), g_paused = r1_is_paused r,
     g_authority = (if r1_is_immutable r then None else Some (r1_authority r)) \<rparr>"

definition abs_r2 :: "verifier_registry_v2 \<Rightarrow> gov_registry" where
  "abs_r2 r = \<lparr> g_pool = r2_pool r, g_policy = r2_policy_binding r, g_delay = unat (r2_minimum_activation_delay_slots r),
     g_deployment = [r2_registry_program r, r2_loader_program r, r2_programdata_address r, r2_executable_hash r],
     g_generation = unat (r2_generation r), g_paused = r2_is_paused r,
     g_authority = (if r2_is_immutable r then None else Some (r2_authority r)) \<rparr>"

definition abs_e1 :: "verifier_registry_entry_v1 \<Rightarrow> gov_entry" where
  "abs_e1 e = \<lparr> ge_pool = e1_pool e, ge_policy = e1_policy_binding e, ge_program = e1_verifier_program e,
     ge_profile = e1_profile_binding e, ge_release = e1_release_binding e, ge_statement_version = e1_statement_version e,
     ge_deployment = [], ge_activation = unat (e1_activation_slot e), ge_status = e1_status e,
     ge_retirement = retirement_mark (unat (e1_retirement_slot e)) \<rparr>"

definition abs_e2 :: "verifier_registry_entry_v2 \<Rightarrow> gov_entry" where
  "abs_e2 e = \<lparr> ge_pool = e2_pool e, ge_policy = e2_policy_binding e, ge_program = e2_verifier_program e,
     ge_profile = e2_profile_binding e, ge_release = e2_release_binding e, ge_statement_version = e2_statement_version e,
     ge_deployment = [e2_loader_program e, e2_programdata_address e, e2_executable_hash e],
     ge_activation = unat (e2_activation_slot e), ge_status = e2_status e,
     ge_retirement = retirement_mark (unat (e2_retirement_slot e)) \<rparr>"

definition as_writable :: "account \<Rightarrow> account" where
  "as_writable a = a \<lparr> ac_is_signer := False, ac_is_writable := True \<rparr>"

definition registry_view :: "solana \<Rightarrow> bytes \<Rightarrow> account \<Rightarrow> gov_registry option" where
  "registry_view env pid a = (case load_registry env pid (as_writable a) of Inr r \<Rightarrow> Some (abs_r1 r)
     | Inl _ \<Rightarrow> (case load_registry_v2 env pid (as_writable a) of Inr r \<Rightarrow> Some (abs_r2 r) | Inl _ \<Rightarrow> None))"

definition entry_view :: "solana \<Rightarrow> bytes \<Rightarrow> account \<Rightarrow> gov_entry option" where
  "entry_view env pid a = (case load_entry env pid (as_writable a) True of Inr e \<Rightarrow> Some (abs_e1 e)
     | Inl _ \<Rightarrow> (case load_entry_v2 env pid (as_writable a) True of Inr e \<Rightarrow> Some (abs_e2 e) | Inl _ \<Rightarrow> None))"

lemma load_registry_iff:
  "load_registry env pid a = Inr r \<longleftrightarrow> ac_owner a = pid \<and> \<not> ac_executable a \<and> \<not> ac_is_signer a \<and> ac_is_writable a
     \<and> decode_verifier_registry_v1 (ac_data a) = Inr r \<and> ac_key a = fst (pool_v1_verifier_registry_address env pid (r1_pool r))"
  by (auto simp: load_registry_def guard_iffs)

lemma load_registry_v2_iff:
  "load_registry_v2 env pid a = Inr r \<longleftrightarrow> ac_owner a = pid \<and> \<not> ac_executable a \<and> \<not> ac_is_signer a \<and> ac_is_writable a
     \<and> decode_verifier_registry_v2 (ac_data a) = Inr r \<and> ac_key a = fst (pool_v1_verifier_registry_v2_address env pid (r2_pool r))
     \<and> r2_registry_program r = pid \<and> r2_loader_program r = bpf_loader_upgradeable_id env
     \<and> r2_programdata_address r = fst (find_program_address env [pid] (bpf_loader_upgradeable_id env))"
  by (auto simp: load_registry_v2_def guard_iffs Let_def)

lemma load_entry_iff:
  "load_entry env pid a w = Inr e \<longleftrightarrow> ac_owner a = pid \<and> \<not> ac_executable a \<and> \<not> ac_is_signer a \<and> ac_is_writable a = w
     \<and> decode_verifier_registry_entry_v1 (ac_data a) = Inr e
     \<and> ac_key a = fst (pool_v1_verifier_entry_address env pid (e1_pool e) (e1_profile_binding e) (e1_release_binding e))"
  by (auto simp: load_entry_def guard_iffs)

lemma load_entry_v2_iff:
  "load_entry_v2 env pid a w = Inr e \<longleftrightarrow> ac_owner a = pid \<and> \<not> ac_executable a \<and> \<not> ac_is_signer a \<and> ac_is_writable a = w
     \<and> decode_verifier_registry_entry_v2 (ac_data a) = Inr e
     \<and> ac_key a = fst (pool_v1_verifier_entry_v2_address env pid (e2_pool e) (e2_profile_binding e) (e2_release_binding e))
     \<and> e2_loader_program e = bpf_loader_upgradeable_id env
     \<and> e2_programdata_address e = fst (find_program_address env [e2_verifier_program e] (bpf_loader_upgradeable_id env))
     \<and> e2_expected_upgrade_authority e = zeros 32"
  by (auto simp: load_entry_v2_def guard_iffs Let_def)

lemma as_writable_simps [simp]:
  "ac_owner (as_writable a) = ac_owner a" "ac_executable (as_writable a) = ac_executable a" "\<not> ac_is_signer (as_writable a)"
  "ac_is_writable (as_writable a)" "ac_data (as_writable a) = ac_data a" "ac_key (as_writable a) = ac_key a"
  by (simp_all add: as_writable_def)

text \<open>The four layouts have four lengths, so at most one decoder accepts an account.\<close>

lemma decoded_lengths:
  "decode_verifier_registry_v1 b = Inr r \<Longrightarrow> length b = 128" "decode_verifier_registry_v2 b = Inr s \<Longrightarrow> length b = 256"
  "decode_verifier_registry_entry_v1 b = Inr e \<Longrightarrow> length b = 192" "decode_verifier_registry_entry_v2 b = Inr f \<Longrightarrow> length b = 320"
  using registry_v1_codec.length_dec registry_v2_codec.length_dec entry_v1_codec.length_dec entry_v2_codec.length_dec
  by (simp_all add: layout_defs)

lemma registry_view_iff:
  "registry_view env pid a = Some g \<longleftrightarrow>
     (\<exists>r. load_registry env pid (as_writable a) = Inr r \<and> g = abs_r1 r)
   \<or> (\<exists>r. load_registry_v2 env pid (as_writable a) = Inr r \<and> g = abs_r2 r)"
proof -
  have "\<not> (load_registry env pid (as_writable a) = Inr r \<and> load_registry_v2 env pid (as_writable a) = Inr s)" for r s
    by (auto simp: load_registry_iff load_registry_v2_iff dest!: decoded_lengths)
  then show ?thesis by (auto simp: registry_view_def split: sum.splits)
qed

lemma entry_view_iff:
  "entry_view env pid a = Some g \<longleftrightarrow>
     (\<exists>e. load_entry env pid (as_writable a) True = Inr e \<and> g = abs_e1 e)
   \<or> (\<exists>e. load_entry_v2 env pid (as_writable a) True = Inr e \<and> g = abs_e2 e)"
proof -
  have "\<not> (load_entry env pid (as_writable a) True = Inr r \<and> load_entry_v2 env pid (as_writable a) True = Inr s)" for r s
    by (auto simp: load_entry_iff load_entry_v2_iff dest!: decoded_lengths)
  then show ?thesis by (auto simp: entry_view_def split: sum.splits)
qed

lemma load_registry_view:
  "load_registry env pid a = Inr r \<Longrightarrow> registry_view env pid a = Some (abs_r1 r)"
  "load_registry_v2 env pid a = Inr s \<Longrightarrow> registry_view env pid a = Some (abs_r2 s)"
  by (auto simp: registry_view_iff load_registry_iff load_registry_v2_iff)

lemma load_entry_view:
  "load_entry env pid a w = Inr e \<Longrightarrow> entry_view env pid a = Some (abs_e1 e)"
  "load_entry_v2 env pid a w = Inr f \<Longrightarrow> entry_view env pid a = Some (abs_e2 f)"
  by (auto simp: entry_view_iff load_entry_iff load_entry_v2_iff)

lemma loaded_ok:
  "load_registry env pid a = Inr r \<Longrightarrow> r1_ok r" "load_registry_v2 env pid a = Inr s \<Longrightarrow> r2_ok s"
  "load_entry env pid a w = Inr e \<Longrightarrow> e1_ok e" "load_entry_v2 env pid a w = Inr f \<Longrightarrow> e2_ok f"
  by (auto simp: load_registry_iff load_registry_v2_iff load_entry_iff load_entry_v2_iff
      intro: registry_v1_codec.wf_dec registry_v2_codec.wf_dec entry_v1_codec.wf_dec entry_v2_codec.wf_dec)

text \<open>A written image is what the next load reads, as long as the fields the address is derived from stay.\<close>

lemma rewritten_registry_view:
  "load_registry env pid a = Inr r \<Longrightarrow> encode_verifier_registry_v1 r' = Inr b \<Longrightarrow> r1_ok r' \<Longrightarrow> r1_pool r' = r1_pool r
    \<Longrightarrow> registry_view env pid (a \<lparr> ac_data := b \<rparr>) = Some (abs_r1 r')"
  "load_registry_v2 env pid a = Inr s \<Longrightarrow> encode_verifier_registry_v2 s' = Inr b \<Longrightarrow> r2_ok s' \<Longrightarrow> r2_pool s' = r2_pool s
    \<Longrightarrow> r2_registry_program s' = r2_registry_program s \<Longrightarrow> r2_loader_program s' = r2_loader_program s
    \<Longrightarrow> r2_programdata_address s' = r2_programdata_address s
    \<Longrightarrow> registry_view env pid (a \<lparr> ac_data := b \<rparr>) = Some (abs_r2 s')"
  by (auto simp: registry_view_iff load_registry_iff load_registry_v2_iff dest: registry_v1_codec.dec_enc registry_v2_codec.dec_enc)

lemma rewritten_entry_view:
  "load_entry env pid a w = Inr e \<Longrightarrow> encode_verifier_registry_entry_v1 e' = Inr b \<Longrightarrow> e1_ok e' \<Longrightarrow> e1_pool e' = e1_pool e
    \<Longrightarrow> e1_profile_binding e' = e1_profile_binding e \<Longrightarrow> e1_release_binding e' = e1_release_binding e
    \<Longrightarrow> entry_view env pid (a \<lparr> ac_data := b \<rparr>) = Some (abs_e1 e')"
  "load_entry_v2 env pid a w = Inr f \<Longrightarrow> encode_verifier_registry_entry_v2 f' = Inr b \<Longrightarrow> e2_ok f' \<Longrightarrow> e2_pool f' = e2_pool f
    \<Longrightarrow> e2_profile_binding f' = e2_profile_binding f \<Longrightarrow> e2_release_binding f' = e2_release_binding f
    \<Longrightarrow> e2_loader_program f' = e2_loader_program f \<Longrightarrow> e2_programdata_address f' = e2_programdata_address f
    \<Longrightarrow> e2_verifier_program f' = e2_verifier_program f \<Longrightarrow> e2_expected_upgrade_authority f' = e2_expected_upgrade_authority f
    \<Longrightarrow> entry_view env pid (a \<lparr> ac_data := b \<rparr>) = Some (abs_e2 f')"
  by (auto simp: entry_view_iff load_entry_iff load_entry_v2_iff dest: entry_v1_codec.dec_enc entry_v2_codec.dec_enc)

section \<open>Fresh accounts\<close>

text \<open>
  What the program relies on of the runtime: its own id is not the native loader's, a cross-program call leaves the
  keys of the accounts it is given, and addresses, loader id and hashes have 32 bytes.
\<close>

definition infos_keys :: "infos \<Rightarrow> bytes \<times> bytes \<times> bytes" where
  "infos_keys i = (case i of (p, a, s) \<Rightarrow> (ac_key p, ac_key a, ac_key s))"

lemma infos_keys_simp [simp]: "infos_keys (p, a, s) = (ac_key p, ac_key a, ac_key s)"
  by (simp add: infos_keys_def)

definition runtime_ok :: "solana \<Rightarrow> bytes \<Rightarrow> bool" where
  "runtime_ok env pid \<longleftrightarrow> length pid = 32 \<and> pid \<noteq> native_loader_id env
     \<and> (\<forall>c i i'. cpi_invoke env c i = Inr i' \<longrightarrow> infos_keys i' = infos_keys i)
     \<and> (\<forall>c i seeds i'. cpi_invoke_signed env c i seeds = Inr i' \<longrightarrow> infos_keys i' = infos_keys i)
     \<and> length (bpf_loader_upgradeable_id env) = 32
     \<and> (\<forall>seeds program. length (fst (find_program_address env seeds program)) = 32)
     \<and> (\<forall>b. length (sha256 env b) = 32)"

lemma create_or_allocate_keys:
  assumes "create_or_allocate_pda env payer a sys n pid seeds = Inr i" "runtime_ok env pid'"
  shows "infos_keys i = (ac_key payer, ac_key a, ac_key sys)"
proof -
  have cpi: "cpi_invoke env c j = Inr j' \<Longrightarrow> infos_keys j' = infos_keys j"
      "cpi_invoke_signed env c j ss = Inr j' \<Longrightarrow> infos_keys j' = infos_keys j" for c j ss j'
    using assms(2) unfolding runtime_ok_def by blast+
  show ?thesis
    using assms(1)
    by (auto simp: create_or_allocate_pda_def if_fail_eq_Inr Let_def split: if_splits dest!: cpi)
qed

lemma zeros_iff: "b = zeros n \<longleftrightarrow> length b = n \<and> (\<forall>x \<in> set b. x = 0)"
  by (auto simp: zeros_def intro: replicate_eqI)

lemma prepare_fresh_pda_facts:
  assumes "prepare_fresh_pda env payer a sys n pid addr seeds = Inr (payer', a', sys')" "runtime_ok env pid"
  shows "ac_key payer' = ac_key payer" "ac_key a' = ac_key a" "ac_key sys' = ac_key sys" "ac_key a = fst addr"
    and "ac_owner a' = pid" "\<not> ac_executable a'" "ac_data a' = zeros n"
    and "ac_owner a = pid \<Longrightarrow> ac_data a = zeros n"
    and "ac_owner a \<noteq> pid \<Longrightarrow> ac_owner a = system_program_id env \<and> ac_data a = []"
    and "ac_owner a = pid \<Longrightarrow> payer' = payer \<and> a' = a \<and> sys' = sys"
proof -
  from assms(1) show "ac_key a = fst addr" "ac_owner a = pid \<Longrightarrow> ac_data a = zeros n"
    "ac_owner a \<noteq> pid \<Longrightarrow> ac_owner a = system_program_id env \<and> ac_data a = []"
    "ac_owner a = pid \<Longrightarrow> payer' = payer \<and> a' = a \<and> sys' = sys"
    by (auto simp: prepare_fresh_pda_def plan_fresh_program_pda_def zeros_iff split: if_splits)
  from assms(1) show "ac_owner a' = pid" "\<not> ac_executable a'" "ac_data a' = zeros n"
    by (auto simp: prepare_fresh_pda_def plan_fresh_program_pda_def require_zero_program_account_def zeros_iff split: if_splits)
  have "infos_keys (payer', a', sys') = (ac_key payer, ac_key a, ac_key sys)"
    using assms by (auto simp: prepare_fresh_pda_def split: if_splits dest!: create_or_allocate_keys [OF _ assms(2)])
  then show "ac_key payer' = ac_key payer" "ac_key a' = ac_key a" "ac_key sys' = ac_key sys" by simp_all
qed

lemma zeroed_no_view:
  assumes "ac_owner a = pid \<Longrightarrow> ac_data a = zeros n"
  shows "entry_view env pid a = None" "registry_view env pid a = None"
proof -
  have "decode_verifier_registry_entry_v1 (zeros n) \<noteq> Inr e" "decode_verifier_registry_entry_v2 (zeros n) \<noteq> Inr f"
    "decode_verifier_registry_v1 (zeros n) \<noteq> Inr r" "decode_verifier_registry_v2 (zeros n) \<noteq> Inr s" for e f r s
    by (auto simp: decode_verifier_registry_entry_v1_def decode_verifier_registry_entry_v2_def decode_verifier_registry_v1_def
        decode_verifier_registry_v2_def layout_defs seg_def zeros_def)
  with assms have "entry_view env pid a \<noteq> Some x" "registry_view env pid a \<noteq> Some y" for x y
    by (auto simp: entry_view_iff registry_view_iff load_entry_iff load_entry_v2_iff load_registry_iff load_registry_v2_iff)
  then show "entry_view env pid a = None" "registry_view env pid a = None" by (meson not_Some_eq)+
qed

section \<open>The refinement\<close>

lemma unat_succ: "Suc (unat (w :: u64)) < 2 ^ 64 \<Longrightarrow> unat (w + 1) = Suc (unat w)"
  by (simp add: unat_word_ariths)


definition call_refines ::
  "solana \<Rightarrow> bytes \<Rightarrow> nat \<Rightarrow> gov_command \<Rightarrow> u64 \<Rightarrow> account list \<Rightarrow> account list \<Rightarrow> bool" where
  "call_refines env pid slot cmd generation accs accs' \<longleftrightarrow>
     (\<exists>authority g g' es es'.
        authority \<in> set accs \<and> ac_is_signer authority \<and> gov_step slot (ac_key authority) cmd (g, es) (g', es')
      \<and> g_generation g = unat generation \<and> distinct (map ac_key accs) \<and> map ac_key accs' = map ac_key accs
      \<and> registry_view env pid (accs ! 0) = Some g \<and> registry_view env pid (accs' ! 0) = Some g'
      \<and> map (entry_view env pid) (take (length es') (tl accs)) = map Some es @ replicate (length es' - length es) None
      \<and> map (entry_view env pid) (take (length es') (tl accs')) = map Some es'
      \<and> (\<forall>j. length es < j \<longrightarrow> j \<le> length es' \<longrightarrow> registry_view env pid (accs ! j) = None)
      \<and> (\<forall>j. length es' < j \<longrightarrow> j < length accs \<longrightarrow> ac_owner (accs ! j) = pid \<longrightarrow> accs' ! j = accs ! j))"

text \<open>The flags of a registry are its two lowest bits.\<close>

lemma flag_iffs:
  "(f::u8) AND POOL_V1_VERIFIER_REGISTRY_FLAG_PAUSED \<noteq> 0 \<longleftrightarrow> bit f 0"
  "f AND POOL_V1_VERIFIER_REGISTRY_FLAG_IMMUTABLE \<noteq> 0 \<longleftrightarrow> bit f 1"
  "bit POOL_V1_VERIFIER_REGISTRY_FLAG_PAUSED n \<longleftrightarrow> n = 0" "bit POOL_V1_VERIFIER_REGISTRY_FLAG_IMMUTABLE n \<longleftrightarrow> n = 1"
  "POOL_V1_VERIFIER_REGISTRY_FLAG_PAUSED \<noteq> 0" "POOL_V1_VERIFIER_REGISTRY_FLAG_IMMUTABLE \<noteq> 0"
  using and_exp_eq_0_iff_not_bit [of f 1] bit_exp_iff [of 1 n, where 'a = u8]
  by (auto simp: POOL_V1_VERIFIER_REGISTRY_FLAG_PAUSED_def POOL_V1_VERIFIER_REGISTRY_FLAG_IMMUTABLE_def and_one_eq
      odd_iff_mod_2_eq_one bit_0 bit_1_iff)

lemmas flag_simps = r1_is_paused_def r1_is_immutable_def r2_is_paused_def r2_is_immutable_def flag_iffs bit_simps

lemma abs_registry_updates:
  "abs_r1 (r \<lparr> r1_flags := r1_flags r OR POOL_V1_VERIFIER_REGISTRY_FLAG_PAUSED \<rparr>) = abs_r1 r \<lparr> g_paused := True \<rparr>"
  "abs_r1 (r \<lparr> r1_flags := r1_flags r AND NOT POOL_V1_VERIFIER_REGISTRY_FLAG_PAUSED \<rparr>) = abs_r1 r \<lparr> g_paused := False \<rparr>"
  "abs_r1 (r \<lparr> r1_flags := r1_flags r OR POOL_V1_VERIFIER_REGISTRY_FLAG_IMMUTABLE, r1_authority := z \<rparr>)
     = abs_r1 r \<lparr> g_authority := None \<rparr>"
  "abs_r2 (s \<lparr> r2_flags := r2_flags s OR POOL_V1_VERIFIER_REGISTRY_FLAG_PAUSED \<rparr>) = abs_r2 s \<lparr> g_paused := True \<rparr>"
  "abs_r2 (s \<lparr> r2_flags := r2_flags s AND NOT POOL_V1_VERIFIER_REGISTRY_FLAG_PAUSED \<rparr>) = abs_r2 s \<lparr> g_paused := False \<rparr>"
  "abs_r2 (s \<lparr> r2_flags := r2_flags s OR POOL_V1_VERIFIER_REGISTRY_FLAG_IMMUTABLE, r2_authority := z \<rparr>)
     = abs_r2 s \<lparr> g_authority := None \<rparr>"
  by (simp_all add: abs_r1_def abs_r2_def flag_simps)

text \<open>
  Both versions of the handlers run the same frame around a command: load the registry, check authority and
  generation, count the generation up, write the image. The interface states what a version provides for it.
\<close>

locale registry_version =
  fixes env :: solana and pid :: bytes
    and load :: "account \<Rightarrow> program_error + 'r"
    and authority :: "'r \<Rightarrow> account \<Rightarrow> program_error + unit"
    and generation :: "'r \<Rightarrow> u64 \<Rightarrow> program_error + unit"
    and incremented :: "'r \<Rightarrow> program_error + 'r"
    and encode :: "'r \<Rightarrow> program_error + bytes"
    and abs :: "'r \<Rightarrow> gov_registry"
    and same_place :: "'r \<Rightarrow> 'r \<Rightarrow> bool"
  assumes load_view: "load a = Inr r \<Longrightarrow> registry_view env pid a = Some (abs r)"
    and authority_iff: "authority r a = Inr () \<longleftrightarrow> g_authority (abs r) = Some (ac_key a) \<and> ac_is_signer a
      \<and> \<not> ac_is_writable a \<and> \<not> ac_executable a"
    and generation_iff: "generation r w = Inr () \<longleftrightarrow> g_generation (abs r) = unat w"
    and incremented_abs: "incremented r = Inr n \<Longrightarrow> abs n = next_generation (abs r) \<and> Suc (g_generation (abs r)) < 2 ^ 64"
    and incremented_place: "incremented r = Inr n \<Longrightarrow> same_place n r' \<Longrightarrow> same_place r r'"
    and same_place_refl: "same_place r r"
    and rewritten: "load a = Inr r \<Longrightarrow> encode r' = Inr b \<Longrightarrow> same_place r r'
      \<Longrightarrow> registry_view env pid (a \<lparr> ac_data := b \<rparr>) = Some (abs r')"
begin

lemma governed_frame:
  assumes "load ra = Inr r" "authority r au = Inr ()" "generation r w = Inr ()" "incremented r = Inr n"
    and "encode r' = Inr b" "same_place n r'"
  shows "governs (ac_key au) (abs r)" "ac_is_signer au" "g_generation (abs r) = unat w" "abs n = next_generation (abs r)"
    "registry_view env pid ra = Some (abs r)" "registry_view env pid (ra \<lparr> ac_data := b \<rparr>) = Some (abs r')"
  using assms incremented_abs [OF assms(4)] incremented_place [OF assms(4,6)]
  by (auto simp: governs_def authority_iff generation_iff load_view rewritten)

lemma registry_call_refines:
  assumes "load ra = Inr r" "authority r au = Inr ()" "generation r w = Inr ()" "incremented r = Inr n"
    and "encode r' = Inr b" "same_place n r'" "ac_key ra \<noteq> ac_key au"
    and "governs (ac_key au) (abs r) \<Longrightarrow> abs n = next_generation (abs r) \<Longrightarrow> gov_step slot (ac_key au) cmd (abs r, []) (abs r', [])"
  shows "call_refines env pid slot cmd w [ra, au] [ra \<lparr> ac_data := b \<rparr>, au]"
proof -
  note frame = governed_frame [OF assms(1-6)]
  have "gov_step slot (ac_key au) cmd (abs r, []) (abs r', [])" using frame assms(8) by blast
  then show ?thesis
    unfolding call_refines_def using frame assms(7)
    by (intro exI [of _ au] exI [of _ "abs r"] exI [of _ "abs r'"] exI [of _ "[]"]) (simp add: nth_Cons')
qed

lemma entry_call_refines:
  assumes "load ra = Inr r" "authority r au = Inr ()" "generation r w = Inr ()" "incremented r = Inr n"
    and "encode n = Inr b" "distinct (map ac_key (ra # accs))" "au \<in> set accs"
    and "map ac_key accs' = map ac_key accs"
    and "map (entry_view env pid) (take (length es') accs) = map Some es @ replicate (length es' - length es) None"
    and "map (entry_view env pid) (take (length es') accs') = map Some es'"
    and "\<And>j. length es' \<le> j \<Longrightarrow> j < length accs \<Longrightarrow> ac_owner (accs ! j) = pid \<Longrightarrow> accs' ! j = accs ! j"
    and "\<And>j. length es \<le> j \<Longrightarrow> j < length es' \<Longrightarrow> registry_view env pid (accs ! j) = None"
    and "governs (ac_key au) (abs r) \<Longrightarrow> gov_step slot (ac_key au) cmd (abs r, es) (next_generation (abs r), es')"
  shows "call_refines env pid slot cmd w (ra # accs) (ra \<lparr> ac_data := b \<rparr> # accs')"
proof -
  note frame = governed_frame [OF assms(1-5) same_place_refl]
  have "gov_step slot (ac_key au) cmd (abs r, es) (next_generation (abs r), es')" using frame assms(13) by blast
  moreover have "registry_view env pid ((ra # accs) ! j) = None" if "length es < j" "j \<le> length es'" for j
    using that assms(12) [of "j - 1"] by (cases j) auto
  moreover have "(ra \<lparr> ac_data := b \<rparr> # accs') ! j = (ra # accs) ! j"
    if "length es' < j" "j < length (ra # accs)" "ac_owner ((ra # accs) ! j) = pid" for j
    using that assms(11) [of "j - 1"] by (cases j) auto
  ultimately show ?thesis
    unfolding call_refines_def using frame assms(6-10)
    by (intro exI [of _ au] exI [of _ "abs r"] exI [of _ "next_generation (abs r)"] exI [of _ es] exI [of _ es']) simp
qed

lemma activate_call_refines:
  assumes "load ra = Inr r" "authority r au = Inr ()" "generation r w = Inr ()" "incremented r = Inr n" "encode n = Inr b"
    and "distinct (map ac_key [ra, ea, au])" "entry_view env pid ea = Some e"
    and "entry_view env pid (ea \<lparr> ac_data := c \<rparr>) = Some (e \<lparr> ge_status := Active \<rparr>)"
    and "belongs e (abs r)" "ge_status e = Pending" "ge_retirement e = None" "ge_activation e \<le> slot"
  shows "call_refines env pid slot GActivate w [ra, ea, au] [ra \<lparr> ac_data := b \<rparr>, ea \<lparr> ac_data := c \<rparr>, au]"
proof -
  have "gov_step slot (ac_key au) GActivate (abs r, [e]) (next_generation (abs r), [e \<lparr> ge_status := Active \<rparr>])"
    if "governs (ac_key au) (abs r)" using that assms(9-12) by (rule gov_step.activate)
  with assms(6-8) show ?thesis
    by (intro entry_call_refines [OF assms(1-5)]) (auto simp: nth_Cons')
qed

lemma retire_call_refines:
  assumes "load ra = Inr r" "authority r au = Inr ()" "generation r w = Inr ()" "incremented r = Inr n" "encode n = Inr b"
    and "distinct (map ac_key [ra, ea, pa, au])" "entry_view env pid ea = Some e" "entry_view env pid pa = Some p"
    and "entry_view env pid (ea \<lparr> ac_data := c \<rparr>) = Some (e \<lparr> ge_status := Retired, ge_retirement := retirement_mark slot \<rparr>)"
    and "belongs e (abs r)" "belongs p (abs r)" "live_at e slot" "ge_retirement e = None" "live_at p slot"
      "ge_profile p = ge_profile e" "ge_statement_version p = ge_statement_version e" "ge_release p \<noteq> ge_release e"
      "ge_activation e < slot"
  shows "call_refines env pid slot GRetire w [ra, ea, pa, au] [ra \<lparr> ac_data := b \<rparr>, ea \<lparr> ac_data := c \<rparr>, pa, au]"
proof -
  have "gov_step slot (ac_key au) GRetire (abs r, [e, p])
      (next_generation (abs r), [e \<lparr> ge_status := Retired, ge_retirement := retirement_mark slot \<rparr>, p])"
    if "governs (ac_key au) (abs r)" using that assms(10-18) by (rule gov_step.retire)
  with assms(6-9) show ?thesis
    by (intro entry_call_refines [OF assms(1-5)]) (auto simp: nth_Cons')
qed

lemma schedule_call_refines:
  assumes "load ra = Inr r" "authority r au = Inr ()" "generation r w = Inr ()" "incremented r = Inr n" "encode n = Inr b"
    and "distinct (map ac_key (ra # ea # au # payer # sys # rest))" "runtime_ok env pid"
    and "prepare_fresh_pda env payer ea sys width pid addr seeds = Inr (payer', ea', sys')"
    and "require_payer_and_system_program env payer sys = Inr ()"
    and "entry_view env pid (ea' \<lparr> ac_data := c \<rparr>) = Some e"
    and "described_by e a" "belongs e (abs r)" "ge_status e = Pending" "ge_retirement e = None"
      "slot + g_delay (abs r) \<le> ge_activation e"
  shows "call_refines env pid slot (GSchedule a) w (ra # ea # au # payer # sys # rest)
    (ra \<lparr> ac_data := b \<rparr> # ea' \<lparr> ac_data := c \<rparr> # au # payer' # sys' # rest)"
proof -
  note fresh = prepare_fresh_pda_facts [OF assms(8,7)]
  have none: "entry_view env pid ea = None" "registry_view env pid ea = None" using zeroed_no_view [of ea pid, OF fresh(8)] by blast+
  have step: "gov_step slot (ac_key au) (GSchedule a) (abs r, []) (next_generation (abs r), [e])"
    if "governs (ac_key au) (abs r)" using that assms(11-15) by (rule gov_step.schedule)
  have kept: "(payer' = payer \<or> ac_owner payer \<noteq> pid) \<and> (sys' = sys \<or> ac_owner sys \<noteq> pid)"
    using fresh(9,10) assms(7,9) by (auto simp: require_payer_iff runtime_ok_def)
  show ?thesis
    using assms(6,10) none kept fresh(1-3) step
    by (intro entry_call_refines [OF assms(1-5), where es = "[]" and es' = "[e]"])
      (auto simp: nth_Cons' split: if_splits)
qed

end

text \<open>A registry keeps its place when the fields its address is derived from and its widths stay.\<close>

definition same_place_v1 :: "verifier_registry_v1 \<Rightarrow> verifier_registry_v1 \<Rightarrow> bool" where
  "same_place_v1 r r' \<longleftrightarrow> r1_pool r' = r1_pool r \<and> (r1_ok r \<longrightarrow> r1_ok r')"

definition same_place_v2 :: "verifier_registry_v2 \<Rightarrow> verifier_registry_v2 \<Rightarrow> bool" where
  "same_place_v2 r r' \<longleftrightarrow> r2_pool r' = r2_pool r \<and> r2_registry_program r' = r2_registry_program r
     \<and> r2_loader_program r' = r2_loader_program r \<and> r2_programdata_address r' = r2_programdata_address r
     \<and> (r2_ok r \<longrightarrow> r2_ok r')"

interpretation v1: registry_version env pid "load_registry env pid" require_authority require_generation
  incremented_registry registry_image abs_r1 same_place_v1
proof unfold_locales
  fix a r r' b assume "load_registry env pid a = Inr r" "registry_image r' = Inr b" "same_place_v1 r r'"
  then show "registry_view env pid (a \<lparr> ac_data := b \<rparr>) = Some (abs_r1 r')"
    using rewritten_registry_view(1) loaded_ok(1) by (auto simp: same_place_v1_def guard_iffs)
qed (auto simp: load_registry_view guard_iffs abs_r1_def next_generation_def unat_succ same_place_v1_def r1_ok_def flag_simps
    intro: word_unat_eq_iff [THEN iffD2])

interpretation v2: registry_version env pid "load_registry_v2 env pid" require_authority_v2 require_generation_v2
  incremented_registry_v2 registry_image_v2 abs_r2 same_place_v2
proof unfold_locales
  fix a r r' b assume "load_registry_v2 env pid a = Inr r" "registry_image_v2 r' = Inr b" "same_place_v2 r r'"
  then show "registry_view env pid (a \<lparr> ac_data := b \<rparr>) = Some (abs_r2 r')"
    using rewritten_registry_view(2) loaded_ok(2) by (auto simp: same_place_v2_def guard_iffs)
qed (auto simp: load_registry_view guard_iffs abs_r2_def next_generation_def unat_succ same_place_v2_def r2_ok_def flag_simps
    intro: word_unat_eq_iff [THEN iffD2])

section \<open>The handlers refine the machine\<close>

lemma same_place_updates:
  "same_place_v1 r (r \<lparr> r1_flags := f \<rparr>)" "same_place_v1 r (r \<lparr> r1_flags := f, r1_authority := zeros 32 \<rparr>)"
  "same_place_v2 s (s \<lparr> r2_flags := f \<rparr>)" "same_place_v2 s (s \<lparr> r2_flags := f, r2_authority := zeros 32 \<rparr>)"
  by (simp_all add: same_place_v1_def same_place_v2_def r1_ok_def r2_ok_def)

lemma g_paused_abs [simp]: "g_paused (abs_r1 r) = r1_is_paused r" "g_paused (abs_r2 s) = r2_is_paused s"
  by (simp_all add: abs_r1_def abs_r2_def)

lemmas handler_inv = exact_accounts_iff if_fail_eq_Inr if_fail2_eq_Inr commit_iffs require_unique_accounts_iff Let_def

lemma pause_change_refines:
  assumes "process_pause_change env pid accs w p = Inr accs'"
  shows "call_refines env pid slot (GSetPaused p) w accs accs'"
  using assms unfolding process_pause_change_def
  by (cases p) (auto simp: handler_inv abs_registry_updates same_place_updates
      intro!: v1.registry_call_refines gov_step.set_paused)

lemma pause_change_v2_refines:
  assumes "process_pause_change_v2 env pid accs w p = Inr accs'"
  shows "call_refines env pid slot (GSetPaused p) w accs accs'"
  using assms unfolding process_pause_change_v2_def
  by (cases p) (auto simp: handler_inv abs_registry_updates same_place_updates
      intro!: v2.registry_call_refines gov_step.set_paused)

lemma freeze_refines:
  "process_freeze env pid accs w = Inr accs' \<Longrightarrow> call_refines env pid slot GFreeze w accs accs'"
  unfolding process_freeze_def
  by (auto simp: handler_inv abs_registry_updates same_place_updates intro!: v1.registry_call_refines gov_step.freeze)

lemma freeze_v2_refines:
  "process_freeze_v2 env pid accs w = Inr accs' \<Longrightarrow> call_refines env pid slot GFreeze w accs accs'"
  unfolding process_freeze_v2_def
  by (auto simp: handler_inv abs_registry_updates same_place_updates intro!: v2.registry_call_refines gov_step.freeze)

text \<open>Entries, seen through the abstraction.\<close>

lemma no_retirement_iff:
  "e1_has_no_retirement_slot e \<longleftrightarrow> ge_retirement (abs_e1 e) = None" "e2_has_no_retirement_slot f \<longleftrightarrow> ge_retirement (abs_e2 f) = None"
proof -
  have "w = POOL_V1_VERIFIER_ENTRY_NO_RETIREMENT_SLOT \<longleftrightarrow> unat w = 2 ^ 64 - 1" for w :: u64
    by (simp add: POOL_V1_VERIFIER_ENTRY_NO_RETIREMENT_SLOT_def word_unat_eq_iff)
  then show "e1_has_no_retirement_slot e \<longleftrightarrow> ge_retirement (abs_e1 e) = None" "e2_has_no_retirement_slot f \<longleftrightarrow> ge_retirement (abs_e2 f) = None"
    by (simp_all add: e1_has_no_retirement_slot_def e2_has_no_retirement_slot_def abs_e1_def abs_e2_def retirement_mark_def)
qed

lemma is_active_iff:
  "e1_is_active_at e slot \<longleftrightarrow> live_at (abs_e1 e) (unat slot)" "e2_is_active_at f slot \<longleftrightarrow> live_at (abs_e2 f) (unat slot)"
  by (auto simp: e1_is_active_at_def e2_is_active_at_def live_at_def no_retirement_iff word_le_nat_alt word_less_nat_alt
      abs_e1_def abs_e2_def retirement_mark_def split: if_splits)

lemma abs_e_fields [simp]:
  "ge_status (abs_e1 e) = e1_status e" "ge_status (abs_e2 f) = e2_status f"
  "ge_activation (abs_e1 e) = unat (e1_activation_slot e)" "ge_activation (abs_e2 f) = unat (e2_activation_slot f)"
  "ge_profile (abs_e1 e) = e1_profile_binding e" "ge_profile (abs_e2 f) = e2_profile_binding f"
  "ge_release (abs_e1 e) = e1_release_binding e" "ge_release (abs_e2 f) = e2_release_binding f"
  "ge_statement_version (abs_e1 e) = e1_statement_version e" "ge_statement_version (abs_e2 f) = e2_statement_version f"
  by (simp_all add: abs_e1_def abs_e2_def)

lemma belongs_iff:
  "require_entry_registry_match r e = Inr () \<longleftrightarrow> belongs (abs_e1 e) (abs_r1 r)"
  "require_entry_registry_match_v2 s f = Inr () \<longleftrightarrow> belongs (abs_e2 f) (abs_r2 s)"
  by (auto simp: guard_iffs belongs_def abs_e1_def abs_e2_def abs_r1_def abs_r2_def)

lemma abs_entry_updates:
  "abs_e1 (e \<lparr> e1_status := st \<rparr>) = abs_e1 e \<lparr> ge_status := st \<rparr>"
  "abs_e1 (e \<lparr> e1_status := st, e1_retirement_slot := t \<rparr>) = abs_e1 e \<lparr> ge_status := st, ge_retirement := retirement_mark (unat t) \<rparr>"
  "abs_e2 (f \<lparr> e2_status := st \<rparr>) = abs_e2 f \<lparr> ge_status := st \<rparr>"
  "abs_e2 (f \<lparr> e2_status := st, e2_retirement_slot := t \<rparr>) = abs_e2 f \<lparr> ge_status := st, ge_retirement := retirement_mark (unat t) \<rparr>"
  by (simp_all add: abs_e1_def abs_e2_def)

text \<open>An entry whose status or retirement changed is read back from the account it was loaded from.\<close>

lemma updated_entry_view:
  assumes "load_entry env pid a w = Inr e"
  shows "entry_image (e \<lparr> e1_status := st \<rparr>) = Inr b
      \<Longrightarrow> entry_view env pid (a \<lparr> ac_data := b \<rparr>) = Some (abs_e1 e \<lparr> ge_status := st \<rparr>)"
    and "entry_image (e \<lparr> e1_status := st, e1_retirement_slot := t \<rparr>) = Inr b
      \<Longrightarrow> entry_view env pid (a \<lparr> ac_data := b \<rparr>) = Some (abs_e1 e \<lparr> ge_status := st, ge_retirement := retirement_mark (unat t) \<rparr>)"
  using loaded_ok(3) [OF assms]
  by (auto simp: image_iffs e1_ok_def abs_entry_updates dest!: rewritten_entry_view(1) [OF assms])

lemma updated_entry_v2_view:
  assumes "load_entry_v2 env pid a w = Inr e"
  shows "entry_image_v2 (e \<lparr> e2_status := st \<rparr>) = Inr b
      \<Longrightarrow> entry_view env pid (a \<lparr> ac_data := b \<rparr>) = Some (abs_e2 e \<lparr> ge_status := st \<rparr>)"
    and "entry_image_v2 (e \<lparr> e2_status := st, e2_retirement_slot := t \<rparr>) = Inr b
      \<Longrightarrow> entry_view env pid (a \<lparr> ac_data := b \<rparr>) = Some (abs_e2 e \<lparr> ge_status := st, ge_retirement := retirement_mark (unat t) \<rparr>)"
  using loaded_ok(4) [OF assms]
  by (auto simp: image_iffs e2_ok_def abs_entry_updates dest!: rewritten_entry_view(2) [OF assms])

lemmas entry_facts = belongs_iff no_retirement_iff is_active_iff e1_is_exact_compatible_replacement_for_def
  e2_is_exact_compatible_replacement_for_def word_less_nat_alt word_le_nat_alt

lemma activate_refines:
  assumes "process_activate env pid accs w slot = Inr accs'"
  shows "call_refines env pid (unat slot) GActivate w accs accs'"
  using assms unfolding process_activate_def
  by (auto simp: handler_inv entry_facts intro!: v1.activate_call_refines
      intro: load_entry_view(1) updated_entry_view(1))

lemma activate_v2_refines:
  assumes "process_activate_v2 env pid accs w slot = Inr accs'"
  shows "call_refines env pid (unat slot) GActivate w accs accs'"
  using assms unfolding process_activate_v2_def
  by (auto simp: handler_inv entry_facts intro!: v2.activate_call_refines
      intro: load_entry_view(2) updated_entry_v2_view(1))

lemma retire_refines:
  assumes "process_retire env pid accs w slot = Inr accs'"
  shows "call_refines env pid (unat slot) GRetire w accs accs'"
  using assms unfolding process_retire_def
  by (auto simp: handler_inv entry_facts intro!: v1.retire_call_refines
      intro: load_entry_view(1) updated_entry_view(2))

lemma retire_v2_refines:
  assumes "process_retire_v2 env pid accs w slot = Inr accs'"
  shows "call_refines env pid (unat slot) GRetire w accs accs'"
  using assms unfolding process_retire_v2_def
  by (auto simp: handler_inv entry_facts intro!: v2.retire_call_refines
      intro: load_entry_view(2) updated_entry_v2_view(2))

lemma fresh_entry_view:
  assumes "ac_owner a = pid" "\<not> ac_executable a"
  shows "ac_key a = fst (pool_v1_verifier_entry_address env pid (e1_pool e) (e1_profile_binding e) (e1_release_binding e))
      \<Longrightarrow> encode_verifier_registry_entry_v1 e = Inr b \<Longrightarrow> e1_ok e \<Longrightarrow> entry_view env pid (a \<lparr> ac_data := b \<rparr>) = Some (abs_e1 e)"
    and "ac_key a = fst (pool_v1_verifier_entry_v2_address env pid (e2_pool f) (e2_profile_binding f) (e2_release_binding f))
      \<Longrightarrow> encode_verifier_registry_entry_v2 f = Inr b \<Longrightarrow> e2_ok f \<Longrightarrow> e2_loader_program f = bpf_loader_upgradeable_id env
      \<Longrightarrow> e2_programdata_address f = fst (find_program_address env [e2_verifier_program f] (bpf_loader_upgradeable_id env))
      \<Longrightarrow> e2_expected_upgrade_authority f = zeros 32 \<Longrightarrow> entry_view env pid (a \<lparr> ac_data := b \<rparr>) = Some (abs_e2 f)"
  using assms by (auto simp: entry_view_iff load_entry_iff load_entry_v2_iff dest: entry_v1_codec.dec_enc entry_v2_codec.dec_enc)

lemma checked_add_le: "checked_add x y = Some (z :: u64) \<Longrightarrow> \<not> t < z \<Longrightarrow> unat x + unat y \<le> unat t"
  by (simp add: checked_add_eq_Some word_less_nat_alt)

lemma schedule_refines:
  assumes "process_schedule env pid accs (sc_expected_generation a) (sc_verifier_program a) (sc_profile_binding a)
      (sc_release_binding a) (sc_statement_version a) (sc_activation_slot a) slot = Inr accs'"
    and "schedule_ok a" "runtime_ok env pid"
  shows "call_refines env pid (unat slot) (GSchedule a) (sc_expected_generation a) accs accs'"
proof -
  define entry where "entry r = \<lparr> e1_status = Pending, e1_statement_version = sc_statement_version a, e1_pool = r1_pool r,
      e1_verifier_program = sc_verifier_program a, e1_profile_binding = sc_profile_binding a,
      e1_release_binding = sc_release_binding a, e1_activation_slot = sc_activation_slot a,
      e1_retirement_slot = POOL_V1_VERIFIER_ENTRY_NO_RETIREMENT_SLOT, e1_policy_binding = r1_policy_binding r \<rparr>"
    for r :: verifier_registry_v1
  from assms(1) obtain ra ea au payer sys r n b c earliest payer' ea' sys'
    where accs: "accs = [ra, ea, au, payer, sys]" "accs' = [ra \<lparr> ac_data := b \<rparr>, ea' \<lparr> ac_data := c \<rparr>, au, payer', sys']"
      "distinct (map ac_key [ra, ea, au, payer, sys])"
    and frame: "load_registry env pid ra = Inr r" "require_authority r au = Inr ()"
      "require_generation r (sc_expected_generation a) = Inr ()" "incremented_registry r = Inr n" "registry_image n = Inr b"
    and payer: "require_payer_and_system_program env payer sys = Inr ()"
    and delay: "checked_add slot (r1_minimum_activation_delay_slots r) = Some earliest" "\<not> sc_activation_slot a < earliest"
    and img: "entry_image (entry r) = Inr c"
    and fresh: "prepare_fresh_pda env payer ea sys POOL_V1_VERIFIER_ENTRY_BYTES pid
        (pool_v1_verifier_entry_address env pid (r1_pool r) (sc_profile_binding a) (sc_release_binding a))
        [POOL_V1_VERIFIER_ENTRY_SEED, r1_pool r, sc_profile_binding a, sc_release_binding a] = Inr (payer', ea', sys')"
    unfolding process_schedule_def entry_def by (auto simp: handler_inv)
  note facts = prepare_fresh_pda_facts [OF fresh assms(3)]
  have "e1_ok (entry r)" using assms(2) loaded_ok(1) [OF frame(1)] by (simp add: entry_def e1_ok_def schedule_ok_def r1_ok_def)
  then have "entry_view env pid (ea' \<lparr> ac_data := c \<rparr>) = Some (abs_e1 (entry r))"
    using facts(2,4-6) img by (intro fresh_entry_view(1)) (auto simp: entry_def image_iffs)
  moreover have "g_delay (abs_r1 r) = unat (r1_minimum_activation_delay_slots r)" by (simp add: abs_r1_def)
  ultimately show ?thesis
    unfolding accs using checked_add_le [OF delay] accs(3)
    by (intro v1.schedule_call_refines [OF frame _ assms(3) fresh payer])
      (auto simp: entry_def described_by_def belongs_def abs_e1_def abs_r1_def retirement_mark_def
        POOL_V1_VERIFIER_ENTRY_NO_RETIREMENT_SLOT_def)
qed

text \<open>A deployment that passes is linked, permanently immutable, and identified by the hash of its payload.\<close>

definition immutable_payload :: "solana \<Rightarrow> bytes \<Rightarrow> account \<Rightarrow> account \<Rightarrow> immutable_deployment \<Rightarrow> bool" where
  "immutable_payload env program pa da d \<longleftrightarrow>
     ac_key pa = program \<and> ac_owner pa = bpf_loader_upgradeable_id env \<and> ac_executable pa
   \<and> ac_owner da = bpf_loader_upgradeable_id env
   \<and> loader_deserialize env (ac_data pa) = Some (LoaderProgram (ac_key da))
   \<and> ac_key da = fst (find_program_address env [program] (bpf_loader_upgradeable_id env))
   \<and> (\<exists>slot. loader_deserialize env (take (size_of_programdata_metadata env) (ac_data da)) = Some (LoaderProgramData slot None))
   \<and> dp_programdata_address d = ac_key da
   \<and> dp_executable_hash d = sha256 env (drop (size_of_programdata_metadata env) (ac_data da))
   \<and> dp_executable_hash d \<noteq> zeros 32"

lemma linked_programdata_iff [guard_iffs]:
  "linked_programdata env a = Inr k \<longleftrightarrow>
     length (ac_data a) = size_of_program env \<and> loader_deserialize env (ac_data a) = Some (LoaderProgram k)"
  by (auto simp: linked_programdata_def split: option.splits loader_state.splits)

lemma executable_hash_iff [guard_iffs]:
  "executable_hash_of env a = Inr h \<longleftrightarrow> size_of_programdata_metadata env < length (ac_data a)
     \<and> (\<exists>slot. loader_deserialize env (take (size_of_programdata_metadata env) (ac_data a)) = Some (LoaderProgramData slot None))
     \<and> h = sha256 env (drop (size_of_programdata_metadata env) (ac_data a))"
  by (auto simp: executable_hash_of_def Let_def split: option.splits loader_state.splits)

lemma authenticate_immutable:
  assumes "authenticate_immutable_loader_v3_deployment_v2 env program pa da = Inr d"
  shows "immutable_payload env program pa da d"
  using assms by (auto simp: authenticate_immutable_loader_v3_deployment_v2_def immutable_payload_def guard_iffs Let_def)

definition scheduled_entry_v2 :: "solana \<Rightarrow> schedule_args \<Rightarrow> verifier_registry_v2 \<Rightarrow> immutable_deployment \<Rightarrow> verifier_registry_entry_v2" where
  "scheduled_entry_v2 env a r d = \<lparr> e2_status = Pending, e2_statement_version = sc_statement_version a, e2_pool = r2_pool r,
      e2_verifier_program = sc_verifier_program a, e2_profile_binding = sc_profile_binding a,
      e2_release_binding = sc_release_binding a, e2_loader_program = bpf_loader_upgradeable_id env,
      e2_programdata_address = dp_programdata_address d, e2_executable_hash = dp_executable_hash d,
      e2_expected_upgrade_authority = zeros 32, e2_activation_slot = sc_activation_slot a,
      e2_retirement_slot = POOL_V1_VERIFIER_ENTRY_NO_RETIREMENT_SLOT, e2_policy_binding = r2_policy_binding r \<rparr>"

lemma schedule_v2_result:
  assumes "process_schedule_v2 env pid accs (sc_expected_generation a) (sc_verifier_program a) (sc_profile_binding a)
      (sc_release_binding a) (sc_statement_version a) (sc_activation_slot a) h slot = Inr accs'"
    and "schedule_ok a" "runtime_ok env pid"
  obtains r d where "load_registry_v2 env pid (accs ! 0) = Inr r"
    "immutable_payload env (sc_verifier_program a) (accs ! 5) (accs ! 6) d" "dp_executable_hash d = h"
    "entry_view env pid (accs' ! 1) = Some (abs_e2 (scheduled_entry_v2 env a r d))"
    "call_refines env pid (unat slot) (GSchedule a) (sc_expected_generation a) accs accs'"
    "unat slot + g_delay (abs_r2 r) \<le> unat (sc_activation_slot a)"
proof -
  from assms(1) obtain ra ea au payer sys pa da r n b c d earliest payer' ea' sys'
    where accs: "accs = [ra, ea, au, payer, sys, pa, da]"
      "accs' = [ra \<lparr> ac_data := b \<rparr>, ea' \<lparr> ac_data := c \<rparr>, au, payer', sys', pa, da]"
      "distinct (map ac_key [ra, ea, au, payer, sys, pa, da])"
    and frame: "load_registry_v2 env pid ra = Inr r" "require_authority_v2 r au = Inr ()"
      "require_generation_v2 r (sc_expected_generation a) = Inr ()" "incremented_registry_v2 r = Inr n" "registry_image_v2 n = Inr b"
    and payer: "require_payer_and_system_program env payer sys = Inr ()"
    and delay: "checked_add slot (r2_minimum_activation_delay_slots r) = Some earliest" "\<not> sc_activation_slot a < earliest"
    and dep: "authenticate_immutable_loader_v3_deployment_v2 env (sc_verifier_program a) pa da = Inr d" "dp_executable_hash d = h"
    and img: "entry_image_v2 (scheduled_entry_v2 env a r d) = Inr c"
    and fresh: "prepare_fresh_pda env payer ea sys POOL_V1_VERIFIER_ENTRY_V2_BYTES pid
        (pool_v1_verifier_entry_v2_address env pid (r2_pool r) (sc_profile_binding a) (sc_release_binding a))
        [POOL_V1_VERIFIER_ENTRY_V2_SEED, r2_pool r, sc_profile_binding a, sc_release_binding a] = Inr (payer', ea', sys')"
    unfolding process_schedule_v2_def scheduled_entry_v2_def by (auto simp: handler_inv)
  note facts = prepare_fresh_pda_facts [OF fresh assms(3)] and deployed = authenticate_immutable [OF dep(1)]
  note imm = deployed [unfolded immutable_payload_def] and entry = scheduled_entry_v2_def [of env a r d]
  have "e2_ok (scheduled_entry_v2 env a r d)" using assms(2,3) loaded_ok(2) [OF frame(1)] imm
    by (simp add: entry e2_ok_def schedule_ok_def r2_ok_def runtime_ok_def)
  then have view: "entry_view env pid (ea' \<lparr> ac_data := c \<rparr>) = Some (abs_e2 (scheduled_entry_v2 env a r d))"
    using facts(2,4-6) img imm by (intro fresh_entry_view(2)) (auto simp: entry image_iffs)
  have wait: "unat slot + g_delay (abs_r2 r) \<le> unat (sc_activation_slot a)"
    using checked_add_le [OF delay] by (simp add: abs_r2_def)
  have "call_refines env pid (unat slot) (GSchedule a) (sc_expected_generation a) accs accs'"
    unfolding accs using view wait accs(3)
    by (intro v2.schedule_call_refines [OF frame _ assms(3) fresh payer])
      (auto simp: entry described_by_def belongs_def abs_e2_def abs_r2_def retirement_mark_def
        POOL_V1_VERIFIER_ENTRY_NO_RETIREMENT_SLOT_def)
  then show thesis
    using frame(1) deployed dep(2) view wait by (intro that [of r d]) (simp_all add: accs(1,2))
qed

lemma schedule_v2_refines:
  assumes "process_schedule_v2 env pid accs (sc_expected_generation a) (sc_verifier_program a) (sc_profile_binding a)
      (sc_release_binding a) (sc_statement_version a) (sc_activation_slot a) h slot = Inr accs'"
    and "schedule_ok a" "runtime_ok env pid"
  shows "call_refines env pid (unat slot) (GSchedule a) (sc_expected_generation a) accs accs'"
  using assms by (rule schedule_v2_result)

text \<open>Every instruction but the initialisation is a command at an expected generation.\<close>

definition command_v1 :: "registry_instruction_v1 \<Rightarrow> (gov_command \<times> u64) option" where
  "command_v1 i = (case i of Initialize1 _ \<Rightarrow> None | ScheduleProfile1 a \<Rightarrow> Some (GSchedule a, sc_expected_generation a)
     | Pause1 w \<Rightarrow> Some (GSetPaused True, w) | Unpause1 w \<Rightarrow> Some (GSetPaused False, w) | Activate1 w \<Rightarrow> Some (GActivate, w)
     | Retire1 w \<Rightarrow> Some (GRetire, w) | Freeze1 w \<Rightarrow> Some (GFreeze, w))"

definition command_v2 :: "registry_instruction_v2 \<Rightarrow> (gov_command \<times> u64) option" where
  "command_v2 i = (case i of Initialize2 _ _ \<Rightarrow> None | ScheduleProfile2 a _ \<Rightarrow> Some (GSchedule a, sc_expected_generation a)
     | Pause2 w \<Rightarrow> Some (GSetPaused True, w) | Unpause2 w \<Rightarrow> Some (GSetPaused False, w) | Activate2 w \<Rightarrow> Some (GActivate, w)
     | Retire2 w \<Rightarrow> Some (GRetire, w) | Freeze2 w \<Rightarrow> Some (GFreeze, w))"

definition command_of :: "decoded_registry_instruction \<Rightarrow> (gov_command \<times> u64) option" where
  "command_of i = (case i of V1 j \<Rightarrow> command_v1 j | V2 j \<Rightarrow> command_v2 j)"

lemmas handler_refines = pause_change_refines pause_change_v2_refines freeze_refines freeze_v2_refines activate_refines
  activate_v2_refines retire_refines retire_v2_refines schedule_refines schedule_v2_refines

lemma decoded_instruction_refines:
  assumes "process_decoded_instruction_any env pid accs i slot = Inr accs'" "command_of i = Some (cmd, w)"
    and "instruction_ok i" "runtime_ok env pid"
  shows "call_refines env pid (unat slot) cmd w accs accs'"
proof (cases i)
  case (V1 j)
  with assms show ?thesis
    by (cases j) (auto simp: process_decoded_instruction_any_def process_decoded_instruction_def command_of_def command_v1_def
        instruction_ok_def instruction_ok_v1_def intro: handler_refines)
next
  case (V2 j)
  with assms show ?thesis
    by (cases j) (auto simp: process_decoded_instruction_any_def process_decoded_instruction_v2_def command_of_def command_v2_def
        instruction_ok_def instruction_ok_v2_def intro: handler_refines)
qed

section \<open>Initialisation\<close>

definition initial_call :: "solana \<Rightarrow> bytes \<Rightarrow> initialize_args \<Rightarrow> account list \<Rightarrow> account list \<Rightarrow> bool" where
  "initial_call env pid a accs accs' \<longleftrightarrow>
     (\<exists>deployment. registry_view env pid (accs' ! 0) = Some \<lparr> g_pool = in_pool a, g_policy = in_policy_binding a,
          g_delay = unat (in_minimum_activation_delay_slots a), g_deployment = deployment, g_generation = 0,
          g_paused = False, g_authority = Some (ac_key (accs ! 1)) \<rparr>)
   \<and> registry_view env pid (accs ! 0) = None \<and> entry_view env pid (accs ! 0) = None \<and> ac_is_signer (accs ! 1)
   \<and> 0 < unat (in_minimum_activation_delay_slots a)
   \<and> distinct (map ac_key accs) \<and> map ac_key accs' = map ac_key accs
   \<and> (\<forall>j. 0 < j \<longrightarrow> j < length accs \<longrightarrow> ac_owner (accs ! j) = pid \<longrightarrow> accs' ! j = accs ! j)"

lemma initial_callI:
  assumes "prepare_fresh_pda env payer ra sys width pid addr seeds = Inr (payer', ra', sys')" "runtime_ok env pid"
    and "require_initial_authority au = Inr ()" "require_payer_and_system_program env payer sys = Inr ()"
    and "distinct (map ac_key (ra # au # payer # sys # rest))" "in_minimum_activation_delay_slots a \<noteq> 0"
    and "registry_view env pid (ra' \<lparr> ac_data := b \<rparr>) = Some \<lparr> g_pool = in_pool a, g_policy = in_policy_binding a,
          g_delay = unat (in_minimum_activation_delay_slots a), g_deployment = deployment, g_generation = 0,
          g_paused = False, g_authority = Some (ac_key au) \<rparr>"
  shows "initial_call env pid a (ra # au # payer # sys # rest) (ra' \<lparr> ac_data := b \<rparr> # au # payer' # sys' # rest)"
proof -
  note fresh = prepare_fresh_pda_facts [OF assms(1,2)]
  have kept: "(payer' = payer \<or> ac_owner payer \<noteq> pid) \<and> (sys' = sys \<or> ac_owner sys \<noteq> pid)"
    using fresh(9,10) assms(2,4) by (auto simp: require_payer_iff runtime_ok_def)
  have "0 < unat (in_minimum_activation_delay_slots a)" using assms(6) by (simp add: unat_gt_0)
  then show ?thesis
    unfolding initial_call_def using zeroed_no_view [of ra pid, OF fresh(8)] kept fresh(1-3) assms(3,5,7)
    by (auto simp: nth_Cons' require_initial_authority_def split: if_splits)
qed

lemma fresh_registry_view:
  assumes "ac_owner a = pid" "\<not> ac_executable a"
  shows "ac_key a = fst (pool_v1_verifier_registry_address env pid (r1_pool r)) \<Longrightarrow> encode_verifier_registry_v1 r = Inr b
      \<Longrightarrow> r1_ok r \<Longrightarrow> registry_view env pid (a \<lparr> ac_data := b \<rparr>) = Some (abs_r1 r)"
    and "ac_key a = fst (pool_v1_verifier_registry_v2_address env pid (r2_pool s)) \<Longrightarrow> encode_verifier_registry_v2 s = Inr b
      \<Longrightarrow> r2_ok s \<Longrightarrow> r2_registry_program s = pid \<Longrightarrow> r2_loader_program s = bpf_loader_upgradeable_id env
      \<Longrightarrow> r2_programdata_address s = fst (find_program_address env [pid] (bpf_loader_upgradeable_id env))
      \<Longrightarrow> registry_view env pid (a \<lparr> ac_data := b \<rparr>) = Some (abs_r2 s)"
  using assms by (auto simp: registry_view_iff load_registry_iff load_registry_v2_iff
      dest: registry_v1_codec.dec_enc registry_v2_codec.dec_enc)

lemma encoded_delay:
  "encode_verifier_registry_v1 r = Inr b \<Longrightarrow> r1_minimum_activation_delay_slots r \<noteq> 0"
  "encode_verifier_registry_v2 s = Inr b \<Longrightarrow> r2_minimum_activation_delay_slots s \<noteq> 0"
  by (auto simp: encode_verifier_registry_v1_def encode_verifier_registry_v2_def validate_verifier_registry_v1_def
      validate_verifier_registry_v2_def split: if_splits)

lemma initialize_initial:
  assumes "process_initialize env pid accs (in_pool a) (in_policy_binding a) (in_minimum_activation_delay_slots a) = Inr accs'"
    and "initialize_ok a" "runtime_ok env pid" "length (ac_key (accs ! 1)) = 32"
  shows "initial_call env pid a accs accs'"
proof -
  define r where "r k = \<lparr> r1_flags = 0, r1_pool = in_pool a, r1_authority = k, r1_policy_binding = in_policy_binding a,
      r1_generation = 0, r1_minimum_activation_delay_slots = in_minimum_activation_delay_slots a \<rparr>" for k
  from assms(1) obtain ra au payer sys b payer' ra' sys'
    where accs: "accs = [ra, au, payer, sys]" "accs' = [ra' \<lparr> ac_data := b \<rparr>, au, payer', sys']"
      "distinct (map ac_key [ra, au, payer, sys])"
    and guards: "require_initial_authority au = Inr ()" "require_payer_and_system_program env payer sys = Inr ()"
    and img: "encode_verifier_registry_v1 (r (ac_key au)) = Inr b"
    and fresh: "prepare_fresh_pda env payer ra sys POOL_V1_VERIFIER_REGISTRY_BYTES pid
        (pool_v1_verifier_registry_address env pid (in_pool a)) [POOL_V1_VERIFIER_REGISTRY_SEED, in_pool a] = Inr (payer', ra', sys')"
    unfolding process_initialize_def r_def by (auto simp: handler_inv image_iffs)
  note facts = prepare_fresh_pda_facts [OF fresh assms(3)]
  have "r1_ok (r (ac_key au))" using assms(2,4) by (simp add: accs r_def r1_ok_def initialize_ok_def)
  then have "registry_view env pid (ra' \<lparr> ac_data := b \<rparr>) = Some (abs_r1 (r (ac_key au)))"
    using facts(2,4-6) img by (intro fresh_registry_view(1)) (auto simp: r_def)
  then show ?thesis
    unfolding accs(1,2) using encoded_delay(1) [OF img] accs(3)
    by (intro initial_callI [OF fresh assms(3) guards]) (auto simp: r_def abs_r1_def flag_simps)
qed

lemma initialize_v2_initial:
  assumes "process_initialize_v2 env pid accs (in_pool a) (in_policy_binding a) (in_minimum_activation_delay_slots a) h = Inr accs'"
    and "initialize_ok a" "runtime_ok env pid" "length (ac_key (accs ! 1)) = 32"
  shows "initial_call env pid a accs accs'"
proof -
  define r where "r k d = \<lparr> r2_flags = 0, r2_pool = in_pool a, r2_authority = k, r2_policy_binding = in_policy_binding a,
      r2_generation = 0, r2_minimum_activation_delay_slots = in_minimum_activation_delay_slots a, r2_registry_program = pid,
      r2_loader_program = bpf_loader_upgradeable_id env, r2_programdata_address = dp_programdata_address d,
      r2_executable_hash = dp_executable_hash d \<rparr>" for k and d :: immutable_deployment
  from assms(1) obtain ra au payer sys pa da d b payer' ra' sys'
    where accs: "accs = [ra, au, payer, sys, pa, da]" "accs' = [ra' \<lparr> ac_data := b \<rparr>, au, payer', sys', pa, da]"
      "distinct (map ac_key [ra, au, payer, sys, pa, da])"
    and guards: "require_initial_authority au = Inr ()" "require_payer_and_system_program env payer sys = Inr ()"
    and dep: "authenticate_immutable_loader_v3_deployment_v2 env pid pa da = Inr d"
    and img: "encode_verifier_registry_v2 (r (ac_key au) d) = Inr b"
    and fresh: "prepare_fresh_pda env payer ra sys POOL_V1_VERIFIER_REGISTRY_V2_BYTES pid
        (pool_v1_verifier_registry_v2_address env pid (in_pool a)) [POOL_V1_VERIFIER_REGISTRY_V2_SEED, in_pool a] = Inr (payer', ra', sys')"
    unfolding process_initialize_v2_def r_def by (auto simp: handler_inv image_iffs)
  note facts = prepare_fresh_pda_facts [OF fresh assms(3)] and imm = authenticate_immutable [OF dep, unfolded immutable_payload_def]
  have "r2_ok (r (ac_key au) d)" using assms(2-4) imm by (simp add: accs r_def r2_ok_def initialize_ok_def runtime_ok_def)
  then have "registry_view env pid (ra' \<lparr> ac_data := b \<rparr>) = Some (abs_r2 (r (ac_key au) d))"
    using facts(2,4-6) img imm by (intro fresh_registry_view(2)) (auto simp: r_def)
  then show ?thesis
    unfolding accs(1,2) using encoded_delay(2) [OF img] accs(3)
    by (intro initial_callI [OF fresh assms(3) guards]) (auto simp: r_def abs_r2_def flag_simps)
qed

end
