(* ===== verification/Ledger.thy ===== *)
theory Ledger
  imports Runtime
begin

text \<open>
  Accounts by address, the view a call has of them, and the effect of a call that returns its accounts. The
  contract \<open>tracked_store\<close> turns a law of single steps into one of whole runs.
\<close>

section \<open>Accounts by address\<close>

type_synonym ledger = "bytes \<Rightarrow> account option"

text \<open>The account a call sees under a key, with the signer and writable flags of the call.\<close>

definition account_info :: "ledger \<Rightarrow> bytes \<times> bool \<times> bool \<Rightarrow> account option" where
  "account_info L m = (case m of (k, signer, writable) \<Rightarrow>
     map_option (\<lambda>a. a \<lparr> ac_key := k, ac_is_signer := signer, ac_is_writable := writable \<rparr>) (L k))"

lemma account_info_stored:
  assumes "account_info L m = Some x"
  shows "\<exists>a. L (ac_key x) = Some a \<and> ac_owner x = ac_owner a \<and> ac_executable x = ac_executable a \<and> ac_data x = ac_data a"
  using assms by (cases m) (auto simp: account_info_def)

definition write_back :: "ledger \<Rightarrow> account list \<Rightarrow> ledger" where
  "write_back L accs = fold (\<lambda>a L. L(ac_key a \<mapsto> a)) accs L"

lemma write_back_other: "k \<notin> ac_key ` set accs \<Longrightarrow> write_back L accs k = L k"
  unfolding write_back_def by (induction accs arbitrary: L) auto

lemma write_back_at:
  "distinct (map ac_key accs) \<Longrightarrow> j < length accs \<Longrightarrow> write_back L accs (ac_key (accs ! j)) = Some (accs ! j)"
proof (induction accs arbitrary: L j)
  case (Cons a accs)
  show ?case
  proof (cases j)
    case 0
    with Cons.prems write_back_other [of "ac_key a" accs "L(ac_key a \<mapsto> a)"] show ?thesis by (simp add: write_back_def)
  next
    case (Suc i)
    with Cons show ?thesis by (simp add: write_back_def)
  qed
qed simp

section \<open>Laws of steps and of runs\<close>

text \<open>What every step keeps of an item of the store, every run keeps.\<close>

locale tracked_store =
  fixes step :: "'s \<Rightarrow> 's \<Rightarrow> bool" and item :: "'s \<Rightarrow> 'k \<Rightarrow> 'v option" and evolves :: "'v \<Rightarrow> 'v \<Rightarrow> bool"
  assumes evolves_step: "step s s' \<Longrightarrow> item s k = Some v \<Longrightarrow> \<exists>v'. item s' k = Some v' \<and> evolves v v'"
    and evolves_refl: "evolves v v"
    and evolves_trans: "evolves u v \<Longrightarrow> evolves v w \<Longrightarrow> evolves u w"
begin

lemma run_evolves:
  assumes "step\<^sup>*\<^sup>* s s'" "item s k = Some v"
  shows "\<exists>v'. item s' k = Some v' \<and> evolves v v'"
  using assms
proof (induction rule: rtranclp_induct)
  case base
  then show ?case using evolves_refl by blast
next
  case (step t u)
  then show ?case using evolves_step evolves_trans by blast
qed

lemma final_item:
  assumes "step\<^sup>*\<^sup>* s s'" "item s k = Some v" "\<And>v'. evolves v v' \<Longrightarrow> v' = v"
  shows "item s' k = Some v"
  using run_evolves [OF assms(1,2)] assms(3) by blast

end

end
