(* ===== verification/RegistryLedger.thy ===== *)
theory RegistryLedger
  imports RegistryGovernance Ledger
begin

text \<open>
  The registry program on a ledger. A step is a successful call of the program on any accounts of the ledger, with
  any flags and at any slot, or a transaction of other programs, which the runtime keeps from changing accounts the
  registry program owns.
\<close>

section \<open>Single calls\<close>

definition registry_evolves :: "gov_registry \<Rightarrow> gov_registry \<Rightarrow> bool" where
  "registry_evolves g g' \<longleftrightarrow> g' = g \<or>
     g_generation g < g_generation g' \<and> g_authority g \<noteq> None \<and> (g_authority g' = g_authority g \<or> g_authority g' = None)
   \<and> g_pool g' = g_pool g \<and> g_policy g' = g_policy g \<and> g_delay g' = g_delay g \<and> g_deployment g' = g_deployment g"

text \<open>A pending release may become active, a pending or active one retired, and nothing else of an entry ever changes.\<close>

definition entry_evolves :: "gov_entry \<Rightarrow> gov_entry \<Rightarrow> bool" where
  "entry_evolves e e' \<longleftrightarrow> e' = e
   \<or> ge_status e = Pending \<and> ge_retirement e = None \<and> e' = e \<lparr> ge_status := Active \<rparr>
   \<or> ge_status e \<in> {Pending, Active} \<and> ge_retirement e = None
     \<and> (\<exists>slot. ge_activation e < slot \<and> e' = e \<lparr> ge_status := Retired, ge_retirement := retirement_mark slot \<rparr>)"

lemma entry_evolves_intros:
  "entry_evolves e e"
  "ge_status e = Pending \<Longrightarrow> ge_retirement e = None \<Longrightarrow> entry_evolves e (e \<lparr> ge_status := Active \<rparr>)"
  "ge_status e \<in> {Pending, Active} \<Longrightarrow> ge_retirement e = None \<Longrightarrow> ge_activation e < slot \<Longrightarrow>
     entry_evolves e (e \<lparr> ge_status := Retired, ge_retirement := retirement_mark slot \<rparr>)"
  unfolding entry_evolves_def by blast+

lemma entry_evolves_cases:
  assumes "entry_evolves e e'"
  obtains "e' = e" | "ge_status e = Pending" "ge_retirement e = None" "e' = e \<lparr> ge_status := Active \<rparr>"
  | slot where "ge_status e \<in> {Pending, Active}" "ge_retirement e = None" "ge_activation e < slot"
      "e' = e \<lparr> ge_status := Retired, ge_retirement := retirement_mark slot \<rparr>"
  using assms unfolding entry_evolves_def by (elim disjE conjE exE) metis+

lemma gov_step_evolves:
  assumes "gov_step slot signer c (g, es) (g', es')"
  shows "registry_evolves g g'" "length es \<le> length es'"
    and "j < length es \<Longrightarrow> entry_evolves (es ! j) (es' ! j)"
  using assms
  by (auto elim!: gov_step_elim simp: entry_evolves_intros registry_evolves_def next_generation_def governs_def live_at_def less_Suc_eq)

lemma views_exclusive: "registry_view env pid a = Some g \<Longrightarrow> entry_view env pid a = None"
  by (rule ccontr) (auto simp: registry_view_iff entry_view_iff load_registry_iff load_registry_v2_iff load_entry_iff
      load_entry_v2_iff dest!: decoded_lengths)

text \<open>What one call does to one account it is given.\<close>

definition account_evolves :: "solana \<Rightarrow> bytes \<Rightarrow> account \<Rightarrow> account \<Rightarrow> bool" where
  "account_evolves env pid a a' \<longleftrightarrow>
     (\<forall>g. registry_view env pid a = Some g \<longrightarrow> (\<exists>g'. registry_view env pid a' = Some g' \<and> registry_evolves g g'))
   \<and> (\<forall>e. entry_view env pid a = Some e \<longrightarrow> (\<exists>e'. entry_view env pid a' = Some e' \<and> entry_evolves e e'))"

lemma evolves_refl [simp]: "registry_evolves g g" "entry_evolves e e" "account_evolves env pid a a"
  by (simp_all add: registry_evolves_def entry_evolves_intros account_evolves_def)

lemma owner_of_view:
  "registry_view env pid a = Some g \<Longrightarrow> ac_owner a = pid" "entry_view env pid a = Some e \<Longrightarrow> ac_owner a = pid"
  by (auto simp: registry_view_iff entry_view_iff load_registry_iff load_registry_v2_iff load_entry_iff load_entry_v2_iff)

lemma foreign_account_evolves:
  assumes "ac_owner a = pid \<Longrightarrow> a' = a"
  shows "account_evolves env pid a a'"
  using assms owner_of_view [of env pid a] by (auto simp: account_evolves_def)

lemma call_account_evolves:
  assumes "call_refines env pid slot c w accs accs'" "j < length accs"
  shows "account_evolves env pid (accs ! j) (accs' ! j)"
proof -
  from assms(1) obtain signer g g' es es' where step: "gov_step slot signer c (g, es) (g', es')"
    and len: "length accs' = length accs"
    and reg: "registry_view env pid (accs ! 0) = Some g" "registry_view env pid (accs' ! 0) = Some g'"
    and before: "map (entry_view env pid) (take (length es') (tl accs)) = map Some es @ replicate (length es' - length es) None"
    and after: "map (entry_view env pid) (take (length es') (tl accs')) = map Some es'"
    and fresh: "\<And>i. length es < i \<Longrightarrow> i \<le> length es' \<Longrightarrow> registry_view env pid (accs ! i) = None"
    and rest: "\<And>i. length es' < i \<Longrightarrow> i < length accs \<Longrightarrow> ac_owner (accs ! i) = pid \<Longrightarrow> accs' ! i = accs ! i"
    unfolding call_refines_def by (metis length_map)
  note evolves = gov_step_evolves [OF step]
  consider (registry) "j = 0" | (entry) i where "j = Suc i" "i < length es'" | (other) "length es' < j"
    by (metis not0_implies_Suc not_less_eq)
  then show ?thesis
  proof cases
    case registry
    then show ?thesis using reg evolves(1) views_exclusive [OF reg(1)] by (auto simp: account_evolves_def)
  next
    case (entry i)
    have pos: "i < length (take (length es') (tl accs))" "i < length (take (length es') (tl accs'))" using entry assms(2) len by simp_all
    have e': "entry_view env pid (accs' ! j) = Some (es' ! i)"
      using arg_cong [OF after, of "\<lambda>xs. xs ! i"] pos entry by (simp add: nth_tl)
    have e: "entry_view env pid (accs ! j) = (if i < length es then Some (es ! i) else None)"
      using arg_cong [OF before, of "\<lambda>xs. xs ! i"] pos entry evolves(2) by (auto simp: nth_tl nth_append)
    have none: "registry_view env pid (accs ! j) = None"
      using fresh [of j] entry e views_exclusive [of env pid "accs ! j"] by (cases "i < length es") fastforce+
    show ?thesis using e e' none evolves(3) [of i] by (auto simp: account_evolves_def split: if_splits)
  next
    case other
    then show ?thesis using rest [of j] assms(2) by (intro foreign_account_evolves) simp
  qed
qed

lemma initial_account_evolves:
  assumes "initial_call env pid a accs accs'" "j < length accs"
  shows "account_evolves env pid (accs ! j) (accs' ! j)"
proof (cases j)
  case 0
  with assms show ?thesis by (simp add: initial_call_def account_evolves_def)
next
  case (Suc i)
  with assms show ?thesis by (intro foreign_account_evolves) (simp add: initial_call_def)
qed

lemma call_keys:
  "call_refines env pid s c w accs accs' \<Longrightarrow> distinct (map ac_key accs) \<and> map ac_key accs' = map ac_key accs"
  by (auto simp: call_refines_def)

lemma initial_keys:
  "initial_call env pid a accs accs' \<Longrightarrow> distinct (map ac_key accs) \<and> map ac_key accs' = map ac_key accs"
  by (simp add: initial_call_def)

lemma instruction_evolves:
  assumes "process_instruction env pid accs data = Inr accs'" "runtime_ok env pid" "\<forall>a \<in> set accs. length (ac_key a) = 32"
  shows "distinct (map ac_key accs)" "map ac_key accs' = map ac_key accs"
    and "j < length accs \<Longrightarrow> account_evolves env pid (accs ! j) (accs' ! j)"
proof -
  from assms(1) obtain i slot where dec: "decode_registry_instruction data = Inr i"
    and run: "process_decoded_instruction_any env pid accs i slot = Inr accs'"
    by (auto simp: process_instruction_def)
  have ok: "instruction_ok i" using dec by (rule instruction.wf_dec)
  have "(\<exists>a. initial_call env pid a accs accs') \<or> (\<exists>s c w. call_refines env pid s c w accs accs')"
  proof (cases "command_of i")
    case None
    have key: "1 < length accs \<Longrightarrow> length (ac_key (accs ! 1)) = 32" using assms(3) by simp
    from None consider a where "i = V1 (Initialize1 a)" | a h where "i = V2 (Initialize2 a h)"
      by (cases i) (auto simp: command_of_def command_v1_def command_v2_def split: registry_instruction_v1.splits registry_instruction_v2.splits)
    then show ?thesis
    proof cases
      case (1 a)
      with run have "process_initialize env pid accs (in_pool a) (in_policy_binding a) (in_minimum_activation_delay_slots a) = Inr accs'"
        by (simp add: process_decoded_instruction_any_def process_decoded_instruction_def)
      moreover from this have "1 < length accs" by (auto simp: process_initialize_def exact_accounts_iff)
      ultimately show ?thesis
        using initialize_initial [OF _ _ assms(2) key] ok 1 by (auto simp: instruction_ok_def instruction_ok_v1_def)
    next
      case (2 a h)
      with run have "process_initialize_v2 env pid accs (in_pool a) (in_policy_binding a) (in_minimum_activation_delay_slots a) h = Inr accs'"
        by (simp add: process_decoded_instruction_any_def process_decoded_instruction_v2_def)
      moreover from this have "1 < length accs" by (auto simp: process_initialize_v2_def exact_accounts_iff)
      ultimately show ?thesis
        using initialize_v2_initial [OF _ _ assms(2) key] ok 2 by (auto simp: instruction_ok_def instruction_ok_v2_def)
    qed
  next
    case (Some p)
    then show ?thesis using decoded_instruction_refines [OF run _ ok assms(2)] by (cases p) blast
  qed
  then show "distinct (map ac_key accs)" "map ac_key accs' = map ac_key accs"
    "j < length accs \<Longrightarrow> account_evolves env pid (accs ! j) (accs' ! j)"
    by (blast intro: call_account_evolves initial_account_evolves dest: call_keys initial_keys)+
qed

section \<open>Runs\<close>

inductive ledger_step :: "solana \<Rightarrow> bytes \<Rightarrow> ledger \<Rightarrow> ledger \<Rightarrow> bool" for env pid where
  call: "ledger_step env pid L (write_back L accs')"
    if "runtime_ok env pid" "list_all2 (\<lambda>m a. account_info L m = Some a) metas accs" "\<forall>m \<in> set metas. length (fst m) = 32"
      "process_instruction (env \<lparr> clock_get := clock \<rparr>) pid accs data = Inr accs'"
| other_programs: "ledger_step env pid L L'"
    if "\<And>k a. L k = Some a \<Longrightarrow> ac_owner a = pid \<Longrightarrow> \<exists>a'. L' k = Some a' \<and> ac_owner a' = pid \<and> ac_data a' = ac_data a
      \<and> ac_executable a' = ac_executable a"

definition registry_at :: "solana \<Rightarrow> bytes \<Rightarrow> ledger \<Rightarrow> bytes \<Rightarrow> gov_registry option" where
  "registry_at env pid L k = Option.bind (L k) (\<lambda>a. registry_view env pid (a \<lparr> ac_key := k \<rparr>))"

definition entry_at :: "solana \<Rightarrow> bytes \<Rightarrow> ledger \<Rightarrow> bytes \<Rightarrow> gov_entry option" where
  "entry_at env pid L k = Option.bind (L k) (\<lambda>a. entry_view env pid (a \<lparr> ac_key := k \<rparr>))"

lemma view_cong:
  assumes "ac_key a = ac_key b" "ac_owner a = ac_owner b" "ac_executable a = ac_executable b" "ac_data a = ac_data b"
  shows "registry_view (env \<lparr> clock_get := c \<rparr>) pid a = registry_view env pid b"
    and "entry_view (env \<lparr> clock_get := c \<rparr>) pid a = entry_view env pid b"
    and "registry_view env pid a = registry_view env pid b" "entry_view env pid a = entry_view env pid b"
proof -
  have "load_registry (env \<lparr> clock_get := c \<rparr>) pid (as_writable a) = load_registry env pid (as_writable b)"
    "load_registry_v2 (env \<lparr> clock_get := c \<rparr>) pid (as_writable a) = load_registry_v2 env pid (as_writable b)"
    "load_entry (env \<lparr> clock_get := c \<rparr>) pid (as_writable a) True = load_entry env pid (as_writable b) True"
    "load_entry_v2 (env \<lparr> clock_get := c \<rparr>) pid (as_writable a) True = load_entry_v2 env pid (as_writable b) True"
    "load_registry env pid (as_writable a) = load_registry env pid (as_writable b)"
    "load_registry_v2 env pid (as_writable a) = load_registry_v2 env pid (as_writable b)"
    "load_entry env pid (as_writable a) True = load_entry env pid (as_writable b) True"
    "load_entry_v2 env pid (as_writable a) True = load_entry_v2 env pid (as_writable b) True"
    using assms by (simp_all add: load_registry_def load_registry_v2_def load_entry_def load_entry_v2_def
        pool_v1_verifier_registry_address_def pool_v1_verifier_registry_v2_address_def pool_v1_verifier_entry_address_def
        pool_v1_verifier_entry_v2_address_def)
  then show "registry_view (env \<lparr> clock_get := c \<rparr>) pid a = registry_view env pid b"
    "entry_view (env \<lparr> clock_get := c \<rparr>) pid a = entry_view env pid b"
    "registry_view env pid a = registry_view env pid b" "entry_view env pid a = entry_view env pid b"
    by (simp_all add: registry_view_def entry_view_def split: sum.split)
qed

lemma runtime_ok_clock: "runtime_ok (env \<lparr> clock_get := c \<rparr>) pid = runtime_ok env pid"
  by (simp add: runtime_ok_def)

lemma registry_evolves_trans: "registry_evolves f g \<Longrightarrow> registry_evolves g h \<Longrightarrow> registry_evolves f h"
  by (auto simp: registry_evolves_def)

lemma entry_evolves_trans: "entry_evolves d e \<Longrightarrow> entry_evolves e f \<Longrightarrow> entry_evolves d f"
  by (erule entry_evolves_cases; erule entry_evolves_cases) (simp_all add: entry_evolves_intros)

text \<open>One ledger step, at one key.\<close>

lemma ledger_step_account:
  assumes "ledger_step env pid L L'" "L k = Some a" "ac_owner a = pid"
  shows "\<exists>a'. L' k = Some a' \<and> account_evolves env pid (a \<lparr> ac_key := k \<rparr>) (a' \<lparr> ac_key := k \<rparr>)"
  using assms(1)
proof cases
  case (call metas accs clock data accs')
  let ?env = "env \<lparr> clock_get := clock \<rparr>"
  have keys: "map ac_key accs = map fst metas"
    using call(3) by (induction rule: list_all2_induct) (auto simp: account_info_def)
  have "\<forall>x \<in> set accs. length (ac_key x) = 32"
    using call(4) keys by (metis (no_types, lifting) imageE imageI list.set_map)
  note run = instruction_evolves [OF call(5) _ this, unfolded runtime_ok_clock, OF call(2)]
  have len: "length accs' = length accs" using run(2) by (metis length_map)
  show ?thesis
  proof (cases "k \<in> ac_key ` set accs'")
    case False
    then show ?thesis using assms(2) call(1) by (simp add: write_back_other)
  next
    case True
    then obtain j where j: "j < length accs" "ac_key (accs' ! j) = k" by (auto simp: in_set_conv_nth len)
    then have k: "ac_key (accs ! j) = k" using run(2) by (metis len nth_map)
    have "account_info L (metas ! j) = Some (accs ! j)" using call(3) j by (simp add: list_all2_conv_all_nth)
    then have a: "ac_owner (accs ! j) = ac_owner a" "ac_executable (accs ! j) = ac_executable a" "ac_data (accs ! j) = ac_data a"
      using k assms(2) by (auto dest!: account_info_stored)
    have "L' k = Some (accs' ! j)"
      using call(1) j write_back_at [of accs' j L] run(1,2) len by simp
    moreover have "account_evolves env pid (a \<lparr> ac_key := k \<rparr>) ((accs' ! j) \<lparr> ac_key := k \<rparr>)"
      using run(3) [OF j(1)] view_cong(1,2) [of "accs ! j" "a \<lparr> ac_key := k \<rparr>" clock env pid]
        view_cong(1,2) [of "accs' ! j" "(accs' ! j) \<lparr> ac_key := k \<rparr>" clock env pid] a k j(2)
      by (simp add: account_evolves_def)
    ultimately show ?thesis by blast
  qed
next
  case other_programs
  with assms(2,3) obtain a' where a': "L' k = Some a'" "ac_owner a' = ac_owner a" "ac_data a' = ac_data a"
      "ac_executable a' = ac_executable a" by metis
  then show ?thesis
    using view_cong(3,4) [of "a' \<lparr> ac_key := k \<rparr>" "a \<lparr> ac_key := k \<rparr>" env pid] by (simp add: account_evolves_def)
qed

interpretation registries: tracked_store "ledger_step env pid" "registry_at env pid" registry_evolves
proof unfold_locales
  fix L L' k g assume step: "ledger_step env pid L L'" and "registry_at env pid L k = Some g"
  then obtain a where a: "L k = Some a" "registry_view env pid (a \<lparr> ac_key := k \<rparr>) = Some g"
    by (auto simp: registry_at_def bind_eq_Some_conv)
  then show "\<exists>g'. registry_at env pid L' k = Some g' \<and> registry_evolves g g'"
    using ledger_step_account [OF step a(1)] owner_of_view(1) [OF a(2)] by (auto simp: registry_at_def account_evolves_def)
qed (auto intro: registry_evolves_trans)

interpretation entries: tracked_store "ledger_step env pid" "entry_at env pid" entry_evolves
proof unfold_locales
  fix L L' k e assume step: "ledger_step env pid L L'" and "entry_at env pid L k = Some e"
  then obtain a where a: "L k = Some a" "entry_view env pid (a \<lparr> ac_key := k \<rparr>) = Some e"
    by (auto simp: entry_at_def bind_eq_Some_conv)
  then show "\<exists>e'. entry_at env pid L' k = Some e' \<and> entry_evolves e e'"
    using ledger_step_account [OF step a(1)] owner_of_view(2) [OF a(2)] by (auto simp: entry_at_def account_evolves_def)
qed (auto intro: entry_evolves_trans)

lemma frozen_final: "g_authority g = None \<Longrightarrow> registry_evolves g g' \<Longrightarrow> g' = g"
  by (auto simp: registry_evolves_def)

lemma retired_final: "ge_status e = Retired \<Longrightarrow> entry_evolves e e' \<Longrightarrow> e' = e"
  by (erule entry_evolves_cases) simp_all

lemma same_generation_same_registry: "registry_evolves g g' \<Longrightarrow> g_generation g' = g_generation g \<Longrightarrow> g' = g"
  by (auto simp: registry_evolves_def)

end
