(* ===== verification/VerifierSelection.thy ===== *)
theory VerifierSelection
  imports PoolState RegistryLedger
begin

text \<open>
  The pool's read-only check of the verifier registry, \<open>programs/aspis-pool/src/registry.rs\<close>: a spend names a
  verifier release, and the check accepts it from the registry and entry accounts of the registry program. The
  address functions of that file are the registry program's, modelled with it. An accepted selection is a
  live release of an unpaused registry in the sense of the registry's abstract machine, so what is proved of the
  registry along runs holds of the selections a pool can accept.
\<close>

section \<open>Selections\<close>

record verifier_selection =
  vs_verifier_program :: bytes
  vs_profile_binding :: bytes
  vs_release_binding :: bytes
  vs_statement_version :: u8

record authenticated_verifier_selection =
  as_policy :: verifier_policy
  as_pool :: bytes
  as_verifier_program :: bytes
  as_profile_binding :: bytes
  as_release_binding :: bytes
  as_statement_version :: u8
  as_registry_generation :: u64
  as_expected_verifier_loader :: "bytes option"
  as_authenticated_at_slot :: u64

definition matches_policy :: "authenticated_verifier_selection \<Rightarrow> verifier_policy \<Rightarrow> bool" where
  "matches_policy self policy \<longleftrightarrow> as_policy self = policy"

definition selection_matches :: "authenticated_verifier_selection \<Rightarrow> bytes \<Rightarrow> bytes \<Rightarrow> bytes \<Rightarrow> bytes \<Rightarrow> u8 \<Rightarrow> bool" where
  "selection_matches self pool verifier_program profile_binding release_binding statement_version \<longleftrightarrow>
     as_pool self = pool \<and> as_verifier_program self = verifier_program \<and> as_profile_binding self = profile_binding
     \<and> as_release_binding self = release_binding \<and> as_statement_version self = statement_version"

definition matches_verifier_owner :: "authenticated_verifier_selection \<Rightarrow> bytes \<Rightarrow> bool" where
  "matches_verifier_owner self owner =
     (case as_expected_verifier_loader self of Some expected \<Rightarrow> owner = expected | None \<Rightarrow> True)"

definition require_readonly_registry_account :: "account \<Rightarrow> bytes \<Rightarrow> pool_v1_program_error \<Rightarrow> program_error + unit" where
  "require_readonly_registry_account account registry_program invalid =
     (if ac_owner account \<noteq> registry_program \<or> ac_executable account \<or> ac_is_writable account \<or> ac_is_signer account
      then pool_fail invalid else Inr ())"

definition authenticate_verifier_selection_v2 ::
  "solana \<Rightarrow> bytes \<Rightarrow> verifier_policy \<Rightarrow> account list \<Rightarrow> verifier_selection \<Rightarrow> u64
     \<Rightarrow> program_error + authenticated_verifier_selection" where
  "authenticate_verifier_selection_v2 env pool policy accounts selection current_slot = (case accounts of
     [registry_account, entry_account] \<Rightarrow>
       let registry_program = vp_registry_program policy;
           loader = bpf_loader_upgradeable_id env;
           expected_registry_programdata = fst (find_program_address env [registry_program] loader)
       in bindE (require_readonly_registry_account registry_account registry_program InvalidVerifierRegistry) (\<lambda>_.
       if ac_key registry_account \<noteq> fst (pool_v1_verifier_registry_v2_address env registry_program pool)
       then pool_fail InvalidVerifierRegistryAddress
       else bindE (map_err (\<lambda>_. pool_error InvalidVerifierRegistry) (decode_verifier_registry_v2 (ac_data registry_account))) (\<lambda>registry.
       if r2_pool registry \<noteq> pool \<or> r2_authority registry \<noteq> vp_registry_authority policy
          \<or> r2_policy_binding registry \<noteq> vp_policy_binding policy \<or> \<not> r2_is_immutable registry
          \<or> r2_registry_program registry \<noteq> vp_registry_program policy \<or> r2_loader_program registry \<noteq> loader
          \<or> r2_programdata_address registry \<noteq> expected_registry_programdata
       then pool_fail InvalidVerifierRegistry
       else if r2_is_paused registry then pool_fail VerifierRegistryPaused
       else bindE (require_readonly_registry_account entry_account registry_program InvalidVerifierEntry) (\<lambda>_.
       if ac_key entry_account \<noteq> fst (pool_v1_verifier_entry_v2_address env registry_program pool
            (vs_profile_binding selection) (vs_release_binding selection))
       then pool_fail InvalidVerifierEntryAddress
       else bindE (map_err (\<lambda>_. pool_error InvalidVerifierEntry) (decode_verifier_registry_entry_v2 (ac_data entry_account))) (\<lambda>entry.
       let expected_verifier_programdata = fst (find_program_address env [vs_verifier_program selection] loader)
       in if e2_pool entry \<noteq> pool \<or> e2_policy_binding entry \<noteq> vp_policy_binding policy
          \<or> e2_verifier_program entry \<noteq> vs_verifier_program selection
          \<or> e2_profile_binding entry \<noteq> vs_profile_binding selection
          \<or> e2_release_binding entry \<noteq> vs_release_binding selection
          \<or> e2_statement_version entry \<noteq> vs_statement_version selection
          \<or> e2_loader_program entry \<noteq> loader \<or> e2_programdata_address entry \<noteq> expected_verifier_programdata
          \<or> e2_expected_upgrade_authority entry \<noteq> zeros 32
       then pool_fail VerifierSelectionMismatch
       else if e2_status entry \<noteq> Active then pool_fail VerifierEntryInactive
       else if current_slot < e2_activation_slot entry then pool_fail VerifierEntryNotActiveYet
       else if e2_retirement_slot entry \<noteq> POOL_V1_VERIFIER_ENTRY_NO_RETIREMENT_SLOT \<and> e2_retirement_slot entry \<le> current_slot
       then pool_fail VerifierEntryRetired
       else Inr \<lparr> as_policy = policy, as_pool = e2_pool entry, as_verifier_program = e2_verifier_program entry,
                   as_profile_binding = e2_profile_binding entry, as_release_binding = e2_release_binding entry,
                   as_statement_version = e2_statement_version entry, as_registry_generation = r2_generation registry,
                   as_expected_verifier_loader = Some loader, as_authenticated_at_slot = current_slot \<rparr>))))
   | _ \<Rightarrow> Inl (if length accounts < 2 then NotEnoughAccountKeys else InvalidArgument))"

definition authenticate_verifier_selection_v1 ::
  "solana \<Rightarrow> bytes \<Rightarrow> verifier_policy \<Rightarrow> account list \<Rightarrow> verifier_selection \<Rightarrow> u64
     \<Rightarrow> program_error + authenticated_verifier_selection" where
  "authenticate_verifier_selection_v1 env pool policy accounts selection current_slot =
     bindE (map_err (\<lambda>_. pool_error InvalidVerifierRegistry) (validate_verifier_policy_v1 policy)) (\<lambda>_.
     if vp_flags policy AND POLICY_FLAG_IMMUTABLE_DEPLOYMENT \<noteq> 0
     then authenticate_verifier_selection_v2 env pool policy accounts selection current_slot
     else (case accounts of
       [registry_account, entry_account] \<Rightarrow>
         let registry_program = vp_registry_program policy
         in bindE (require_readonly_registry_account registry_account registry_program InvalidVerifierRegistry) (\<lambda>_.
         if ac_key registry_account \<noteq> fst (pool_v1_verifier_registry_address env registry_program pool)
         then pool_fail InvalidVerifierRegistryAddress
         else bindE (map_err (\<lambda>_. pool_error InvalidVerifierRegistry) (decode_verifier_registry_v1 (ac_data registry_account))) (\<lambda>registry.
         let policy_requires_immutable = (vp_flags policy AND POLICY_FLAG_IMMUTABLE_REGISTRY \<noteq> 0)
         in if r1_pool registry \<noteq> pool \<or> r1_authority registry \<noteq> vp_registry_authority policy
            \<or> r1_policy_binding registry \<noteq> vp_policy_binding policy \<or> r1_is_immutable registry \<noteq> policy_requires_immutable
         then pool_fail InvalidVerifierRegistry
         else if r1_is_paused registry then pool_fail VerifierRegistryPaused
         else bindE (require_readonly_registry_account entry_account registry_program InvalidVerifierEntry) (\<lambda>_.
         let expected_entry = fst (pool_v1_verifier_entry_address env registry_program pool
               (vs_profile_binding selection) (vs_release_binding selection))
         in if ac_key entry_account \<noteq> expected_entry then pool_fail InvalidVerifierEntryAddress
         else bindE (map_err (\<lambda>_. pool_error InvalidVerifierEntry) (decode_verifier_registry_entry_v1 (ac_data entry_account))) (\<lambda>entry.
         if e1_pool entry \<noteq> pool \<or> e1_policy_binding entry \<noteq> vp_policy_binding policy
            \<or> e1_verifier_program entry \<noteq> vs_verifier_program selection
            \<or> e1_profile_binding entry \<noteq> vs_profile_binding selection
            \<or> e1_release_binding entry \<noteq> vs_release_binding selection
            \<or> e1_statement_version entry \<noteq> vs_statement_version selection
         then pool_fail VerifierSelectionMismatch
         else if e1_status entry \<noteq> Active then pool_fail VerifierEntryInactive
         else if current_slot < e1_activation_slot entry then pool_fail VerifierEntryNotActiveYet
         else if e1_retirement_slot entry \<noteq> POOL_V1_VERIFIER_ENTRY_NO_RETIREMENT_SLOT \<and> e1_retirement_slot entry \<le> current_slot
         then pool_fail VerifierEntryRetired
         else Inr \<lparr> as_policy = policy, as_pool = e1_pool entry, as_verifier_program = e1_verifier_program entry,
                     as_profile_binding = e1_profile_binding entry, as_release_binding = e1_release_binding entry,
                     as_statement_version = e1_statement_version entry, as_registry_generation = r1_generation registry,
                     as_expected_verifier_loader = None, as_authenticated_at_slot = current_slot \<rparr>))))
     | _ \<Rightarrow> Inl (if length accounts < 2 then NotEnoughAccountKeys else InvalidArgument)))"

section \<open>Selections are live releases\<close>

lemma readonly_iff [simp]:
  "require_readonly_registry_account a p e = Inr u \<longleftrightarrow> ac_owner a = p \<and> \<not> ac_executable a \<and> \<not> ac_is_writable a \<and> \<not> ac_is_signer a"
  by (auto simp: require_readonly_registry_account_def)

lemma account_pair_iff:
  "(case accounts of [a, b] \<Rightarrow> f a b | _ \<Rightarrow> Inl (if length accounts < 2 then x else y)) = Inr r
     \<longleftrightarrow> (\<exists>a b. accounts = [a, b] \<and> f a b = Inr r)"
  by (auto split: list.splits)

text \<open>What an authenticated selection says of the views of its two accounts.\<close>

definition selects :: "gov_registry \<Rightarrow> gov_entry \<Rightarrow> verifier_policy \<Rightarrow> authenticated_verifier_selection \<Rightarrow> bool" where
  "selects g e policy s \<longleftrightarrow> belongs e g \<and> \<not> g_paused g \<and> live_at e (unat (as_authenticated_at_slot s))
     \<and> g_pool g = as_pool s \<and> g_policy g = vp_policy_binding policy
     \<and> g_authority g = (if vp_flags policy AND POLICY_FLAGS_MASK = 0 then Some (vp_registry_authority policy) else None)
     \<and> g_generation g = unat (as_registry_generation s) \<and> ge_program e = as_verifier_program s
     \<and> ge_profile e = as_profile_binding s \<and> ge_release e = as_release_binding s
     \<and> ge_statement_version e = as_statement_version s"

lemma live_entry:
  "live_at (abs_e1 e) (unat slot) \<longleftrightarrow> e1_status e = Active \<and> \<not> slot < e1_activation_slot e
     \<and> \<not> (e1_retirement_slot e \<noteq> POOL_V1_VERIFIER_ENTRY_NO_RETIREMENT_SLOT \<and> e1_retirement_slot e \<le> slot)"
  "live_at (abs_e2 f) (unat slot) \<longleftrightarrow> e2_status f = Active \<and> \<not> slot < e2_activation_slot f
     \<and> \<not> (e2_retirement_slot f \<noteq> POOL_V1_VERIFIER_ENTRY_NO_RETIREMENT_SLOT \<and> e2_retirement_slot f \<le> slot)"
  by (auto simp: live_at_def abs_e1_def abs_e2_def retirement_mark_def POOL_V1_VERIFIER_ENTRY_NO_RETIREMENT_SLOT_def
      word_le_nat_alt word_less_nat_alt word_unat_eq_iff)

lemma policy_flags_valid:
  assumes "validate_verifier_policy_v1 policy = Inr u"
  shows "vp_flags policy AND POLICY_FLAG_IMMUTABLE_DEPLOYMENT \<noteq> 0 \<Longrightarrow> vp_flags policy AND POLICY_FLAGS_MASK \<noteq> 0"
    "vp_flags policy AND POLICY_FLAG_IMMUTABLE_DEPLOYMENT = 0 \<Longrightarrow>
      vp_flags policy AND POLICY_FLAGS_MASK = 0 \<longleftrightarrow> vp_flags policy AND POLICY_FLAG_IMMUTABLE_REGISTRY = 0"
  by (auto simp: POLICY_FLAGS_MASK_def bit.conj_disj_distrib or_eq_0_iff)

lemma authenticated_selection_views:
  assumes run: "authenticate_verifier_selection_v1 env pool policy accounts selection slot = Inr s"
  obtains registry entry g e where "accounts = [registry, entry]"
    "registry_view env (vp_registry_program policy) registry = Some g" "entry_view env (vp_registry_program policy) entry = Some e"
    "selects g e policy s" "as_pool s = pool" "as_policy s = policy" "as_authenticated_at_slot s = slot"
    "as_verifier_program s = vs_verifier_program selection" "as_release_binding s = vs_release_binding selection"
proof -
  have valid: "validate_verifier_policy_v1 policy = Inr ()" using run by (auto simp: authenticate_verifier_selection_v1_def)
  show ?thesis
  proof (cases "vp_flags policy AND POLICY_FLAG_IMMUTABLE_DEPLOYMENT \<noteq> 0")
    case True
    then have "authenticate_verifier_selection_v2 env pool policy accounts selection slot = Inr s"
      using run valid by (simp add: authenticate_verifier_selection_v1_def)
    then obtain ra ea r e where accs: "accounts = [ra, ea]"
      and r: "load_registry_v2 env (vp_registry_program policy) (as_writable ra) = Inr r" "r2_is_immutable r" "\<not> r2_is_paused r"
        "r2_policy_binding r = vp_policy_binding policy" "r2_pool r = pool" "r2_generation r = as_registry_generation s"
      and e: "load_entry_v2 env (vp_registry_program policy) (as_writable ea) True = Inr e" "live_at (abs_e2 e) (unat slot)"
        "e2_pool e = pool" "e2_policy_binding e = vp_policy_binding policy"
        "e2_verifier_program e = as_verifier_program s" "e2_profile_binding e = as_profile_binding s"
        "e2_release_binding e = as_release_binding s" "e2_statement_version e = as_statement_version s"
      and s: "as_pool s = pool" "as_policy s = policy" "as_authenticated_at_slot s = slot"
        "as_verifier_program s = vs_verifier_program selection" "as_release_binding s = vs_release_binding selection"
      unfolding authenticate_verifier_selection_v2_def account_pair_iff Let_def
      by (auto simp: load_registry_v2_iff load_entry_v2_iff live_entry)
    have "selects (abs_r2 r) (abs_e2 e) policy s"
      using r e s True policy_flags_valid(1) [OF valid] by (auto simp: selects_def abs_r2_def abs_e2_def belongs_def)
    moreover have "registry_view env (vp_registry_program policy) ra = Some (abs_r2 r)"
      "entry_view env (vp_registry_program policy) ea = Some (abs_e2 e)"
      using r(1) e(1) by (auto simp: registry_view_iff entry_view_iff)
    ultimately show ?thesis using that accs s by blast
  next
    case False
    then obtain ra ea r e where accs: "accounts = [ra, ea]"
      and r: "load_registry env (vp_registry_program policy) (as_writable ra) = Inr r" "\<not> r1_is_paused r"
        "r1_is_immutable r \<longleftrightarrow> vp_flags policy AND POLICY_FLAG_IMMUTABLE_REGISTRY \<noteq> 0"
        "r1_authority r = vp_registry_authority policy"
        "r1_policy_binding r = vp_policy_binding policy" "r1_pool r = pool" "r1_generation r = as_registry_generation s"
      and e: "load_entry env (vp_registry_program policy) (as_writable ea) True = Inr e" "live_at (abs_e1 e) (unat slot)"
        "e1_pool e = pool" "e1_policy_binding e = vp_policy_binding policy"
        "e1_verifier_program e = as_verifier_program s" "e1_profile_binding e = as_profile_binding s"
        "e1_release_binding e = as_release_binding s" "e1_statement_version e = as_statement_version s"
      and s: "as_pool s = pool" "as_policy s = policy" "as_authenticated_at_slot s = slot"
        "as_verifier_program s = vs_verifier_program selection" "as_release_binding s = vs_release_binding selection"
      using run valid unfolding authenticate_verifier_selection_v1_def Let_def
      by (auto simp: account_pair_iff load_registry_iff load_entry_iff live_entry) blast+
    have "selects (abs_r1 r) (abs_e1 e) policy s"
      using r e s False policy_flags_valid(2) [OF valid] by (auto simp: selects_def abs_r1_def abs_e1_def belongs_def)
    moreover have "registry_view env (vp_registry_program policy) ra = Some (abs_r1 r)"
      "entry_view env (vp_registry_program policy) ea = Some (abs_e1 e)"
      using r(1) e(1) by (auto simp: registry_view_iff entry_view_iff)
    ultimately show ?thesis using that accs s by blast
  qed
qed

section \<open>Selections along runs of the registry program\<close>

lemma stored_views:
  assumes "account_info L m = Some a"
  shows "registry_view env pid a = registry_at env pid L (fst m)" "entry_view env pid a = entry_at env pid L (fst m)"
proof -
  obtain k sg w b where m: "m = (k, sg, w)" and b: "L k = Some b" "a = b \<lparr> ac_key := k, ac_is_signer := sg, ac_is_writable := w \<rparr>"
    using assms by (cases m) (auto simp: account_info_def)
  then show "registry_view env pid a = registry_at env pid L (fst m)" "entry_view env pid a = entry_at env pid L (fst m)"
    using view_cong(3,4) [of a "b \<lparr> ac_key := k \<rparr>" env pid] by (simp_all add: registry_at_def entry_at_def)
qed

definition selected_at ::
  "solana \<Rightarrow> bytes \<Rightarrow> verifier_policy \<Rightarrow> ledger \<Rightarrow> bytes \<Rightarrow> bytes \<Rightarrow> verifier_selection \<Rightarrow> u64 \<Rightarrow> authenticated_verifier_selection \<Rightarrow> bool" where
  "selected_at env pool policy L rk ek selection slot s \<longleftrightarrow> (\<exists>registry entry.
     account_info L (rk, False, False) = Some registry \<and> account_info L (ek, False, False) = Some entry
     \<and> authenticate_verifier_selection_v1 env pool policy [registry, entry] selection slot = Inr s)"

lemma selected_views:
  assumes "selected_at env pool policy L rk ek selection slot s"
  obtains g e where "registry_at env (vp_registry_program policy) L rk = Some g"
    "entry_at env (vp_registry_program policy) L ek = Some e" "selects g e policy s" "as_authenticated_at_slot s = slot"
    "as_pool s = pool" "as_verifier_program s = vs_verifier_program selection" "as_release_binding s = vs_release_binding selection"
proof -
  from assms obtain registry entry where infos: "account_info L (rk, False, False) = Some registry"
      "account_info L (ek, False, False) = Some entry"
    and run: "authenticate_verifier_selection_v1 env pool policy [registry, entry] selection slot = Inr s"
    by (auto simp: selected_at_def)
  show ?thesis
    by (rule authenticated_selection_views [OF run])
      (use that stored_views(1) [OF infos(1)] stored_views(2) [OF infos(2)] in simp)
qed

lemma retired_never_selected:
  assumes "(ledger_step env (vp_registry_program policy))\<^sup>*\<^sup>* L L'" "entry_at env (vp_registry_program policy) L ek = Some e"
    "ge_status e = Retired"
  shows "\<not> selected_at env pool policy L' rk ek selection slot s"
proof
  assume "selected_at env pool policy L' rk ek selection slot s"
  then obtain g e' where "entry_at env (vp_registry_program policy) L' ek = Some e'" "selects g e' policy s"
    by (rule selected_views)
  moreover have "entry_at env (vp_registry_program policy) L' ek = Some e"
    using assms(1,2) retired_final [OF assms(3)] by (rule entries.final_item)
  ultimately show False using assms(3) by (simp add: selects_def live_at_def)
qed

lemma same_generation_same_selection:
  assumes "(ledger_step env (vp_registry_program policy))\<^sup>*\<^sup>* L L'"
    "selected_at env pool policy L rk ek selection slot s" "selected_at env pool policy L' rk ek selection' slot' s'"
  obtains g e e' where "registry_at env (vp_registry_program policy) L rk = Some g" "entry_at env (vp_registry_program policy) L ek = Some e"
    "entry_at env (vp_registry_program policy) L' ek = Some e'" "e' = e"
    "as_registry_generation s \<le> as_registry_generation s'"
    "as_registry_generation s' = as_registry_generation s \<Longrightarrow> registry_at env (vp_registry_program policy) L' rk = Some g"
proof -
  let ?pid = "vp_registry_program policy"
  obtain g e where v: "registry_at env ?pid L rk = Some g" "entry_at env ?pid L ek = Some e" "selects g e policy s"
    using assms(2) by (rule selected_views)
  obtain g' e' where v': "registry_at env ?pid L' rk = Some g'" "entry_at env ?pid L' ek = Some e'" "selects g' e' policy s'"
    using assms(3) by (rule selected_views)
  have g: "registry_evolves g g'" using registries.run_evolves [OF assms(1) v(1)] v'(1) by auto
  have "entry_evolves e e'" using entries.run_evolves [OF assms(1) v(2)] v'(2) by auto
  then have "e' = e" using v(3) v'(3) by (cases rule: entry_evolves_cases) (auto simp: selects_def live_at_def)
  moreover have "as_registry_generation s \<le> as_registry_generation s'"
    using g v(3) v'(3) by (auto simp: registry_evolves_def selects_def word_le_nat_alt)
  moreover have "as_registry_generation s' = as_registry_generation s \<Longrightarrow> g' = g"
    using g v(3) v'(3) by (intro same_generation_same_registry) (auto simp: selects_def)
  ultimately show ?thesis using that v v' by blast
qed

end
