(* ===== verification/DispatchFormats.thy ===== *)
theory DispatchFormats
  imports SpendFormats
begin

text \<open>
  The contract between the pool and a verifier program, \<open>crates/aspis-statement/src/pool_v1/verifier_dispatch.rs\<close>:
  the request a spend sends and the one result that answers it, both around the same 384-byte binding. The hash is
  a parameter, from the list of its inputs to 32 bytes. Requests and results are canonical for every hash.
\<close>

section \<open>Layout\<close>

definition POOL_V1_VERIFIER_DISPATCH_REQUEST_MAGIC :: bytes where [layout_defs]: "POOL_V1_VERIFIER_DISPATCH_REQUEST_MAGIC = [0x41, 0x53, 0x56, 0x51]"
definition POOL_V1_VERIFIER_DISPATCH_RESULT_MAGIC :: bytes where [layout_defs]: "POOL_V1_VERIFIER_DISPATCH_RESULT_MAGIC = [0x41, 0x53, 0x56, 0x53]"
definition POOL_V1_VERIFIER_DISPATCH_VERSION :: u8 where [layout_defs]: "POOL_V1_VERIFIER_DISPATCH_VERSION = 1"
definition POOL_V1_VERIFIER_DISPATCH_HASH_SHA256 :: u8 where [layout_defs]: "POOL_V1_VERIFIER_DISPATCH_HASH_SHA256 = 1"
definition POOL_V1_VERIFIER_STATEMENT_DIGEST_VERSION :: u8 where [layout_defs]: "POOL_V1_VERIFIER_STATEMENT_DIGEST_VERSION = 1"
definition POOL_V1_VERIFIER_DISPATCH_VERIFY_CODE :: u32 where [layout_defs]: "POOL_V1_VERIFIER_DISPATCH_VERIFY_CODE = 1"
definition POOL_V1_VERIFIER_DISPATCH_SUCCESS_CODE :: u32 where [layout_defs]: "POOL_V1_VERIFIER_DISPATCH_SUCCESS_CODE = 0x41530001"
definition POOL_V1_VERIFIER_DISPATCH_BINDING_PREFIX_BYTES :: nat where [layout_defs]: "POOL_V1_VERIFIER_DISPATCH_BINDING_PREFIX_BYTES = 384"
definition POOL_V1_VERIFIER_STATEMENT_PAYLOAD_MAX_BYTES :: nat where [layout_defs]: "POOL_V1_VERIFIER_STATEMENT_PAYLOAD_MAX_BYTES = 640"
definition POOL_V1_VERIFIER_DISPATCH_REQUEST_MAX_BYTES :: nat where [layout_defs]:
  "POOL_V1_VERIFIER_DISPATCH_REQUEST_MAX_BYTES = POOL_V1_VERIFIER_DISPATCH_BINDING_PREFIX_BYTES + POOL_V1_VERIFIER_STATEMENT_PAYLOAD_MAX_BYTES"
definition POOL_V1_VERIFIER_DISPATCH_RESULT_BYTES :: nat where [layout_defs]: "POOL_V1_VERIFIER_DISPATCH_RESULT_BYTES = 384"
definition POOL_V1_VERIFIER_PROOF_ACCOUNT_MAGIC :: bytes where [layout_defs]: "POOL_V1_VERIFIER_PROOF_ACCOUNT_MAGIC = [0x41, 0x53, 0x50, 0x55]"
definition POOL_V1_VERIFIER_PROOF_ACCOUNT_HEADER_BYTES :: nat where [layout_defs]: "POOL_V1_VERIFIER_PROOF_ACCOUNT_HEADER_BYTES = 40"

definition POOL_V1_HISTORICAL_ANCHOR_ENVELOPE_DIGEST_DOMAIN :: bytes where
  "POOL_V1_HISTORICAL_ANCHOR_ENVELOPE_DIGEST_DOMAIN = [0x61, 0x73, 0x70, 0x69, 0x73, 0x2F, 0x70, 0x6F, 0x6F, 0x6C, 0x2D, 0x76, 0x31, 0x2F, 0x68, 0x69, 0x73, 0x74, 0x6F, 0x72,
     0x69, 0x63, 0x61, 0x6C, 0x2D, 0x61, 0x6E, 0x63, 0x68, 0x6F, 0x72, 0x2D, 0x65, 0x6E, 0x76, 0x65, 0x6C, 0x6F, 0x70, 0x65,
     0x2D, 0x64, 0x69, 0x67, 0x65, 0x73, 0x74, 0x2F, 0x76, 0x31]"

definition POOL_V1_VERIFIER_STATEMENT_PAYLOAD_DIGEST_DOMAIN :: bytes where
  "POOL_V1_VERIFIER_STATEMENT_PAYLOAD_DIGEST_DOMAIN = [0x61, 0x73, 0x70, 0x69, 0x73, 0x2F, 0x70, 0x6F, 0x6F, 0x6C, 0x2D, 0x76, 0x31, 0x2F, 0x70, 0x72, 0x6F, 0x66, 0x69, 0x6C,
     0x65, 0x2D, 0x73, 0x74, 0x61, 0x74, 0x65, 0x6D, 0x65, 0x6E, 0x74, 0x2D, 0x70, 0x61, 0x79, 0x6C, 0x6F, 0x61, 0x64, 0x2D,
     0x64, 0x69, 0x67, 0x65, 0x73, 0x74, 0x2F, 0x76, 0x31]"

definition DISPATCH_VERIFIER_PROGRAM_OFFSET :: nat where [layout_defs]: "DISPATCH_VERIFIER_PROGRAM_OFFSET = 16"
definition DISPATCH_PROFILE_OFFSET :: nat where [layout_defs]: "DISPATCH_PROFILE_OFFSET = 48"
definition DISPATCH_RELEASE_OFFSET :: nat where [layout_defs]: "DISPATCH_RELEASE_OFFSET = 80"
definition DISPATCH_POOL_OFFSET :: nat where [layout_defs]: "DISPATCH_POOL_OFFSET = 112"
definition DISPATCH_DEPLOYMENT_DOMAIN_OFFSET :: nat where [layout_defs]: "DISPATCH_DEPLOYMENT_DOMAIN_OFFSET = 144"
definition DISPATCH_ANCHOR_SEQUENCE_OFFSET :: nat where [layout_defs]: "DISPATCH_ANCHOR_SEQUENCE_OFFSET = 176"
definition DISPATCH_ANCHOR_ROOT_OFFSET :: nat where [layout_defs]: "DISPATCH_ANCHOR_ROOT_OFFSET = 184"
definition DISPATCH_NULLIFIER_OFFSET :: nat where [layout_defs]: "DISPATCH_NULLIFIER_OFFSET = 216"
definition DISPATCH_STATEMENT_DIGEST_OFFSET :: nat where [layout_defs]: "DISPATCH_STATEMENT_DIGEST_OFFSET = 248"
definition DISPATCH_ENVELOPE_DIGEST_OFFSET :: nat where [layout_defs]: "DISPATCH_ENVELOPE_DIGEST_OFFSET = 280"
definition DISPATCH_PROOF_ACCOUNT_OFFSET :: nat where [layout_defs]: "DISPATCH_PROOF_ACCOUNT_OFFSET = 312"
definition DISPATCH_PROOF_BODY_DIGEST_OFFSET :: nat where [layout_defs]: "DISPATCH_PROOF_BODY_DIGEST_OFFSET = 344"
definition DISPATCH_PROOF_BODY_LENGTH_OFFSET :: nat where [layout_defs]: "DISPATCH_PROOF_BODY_LENGTH_OFFSET = 376"
definition DISPATCH_STATEMENT_PAYLOAD_LENGTH_OFFSET :: nat where [layout_defs]: "DISPATCH_STATEMENT_PAYLOAD_LENGTH_OFFSET = 380"

type_synonym hash_fn = "bytes list \<Rightarrow> bytes"

datatype dispatch_format_error =
  VWrongLength | VWrongMagic | VWrongVersion | VWrongStatementVersion | VWrongHashAlgorithm
  | VWrongStatementDigestVersion | VWrongVerifyCode | VWrongSuccessCode | VNonZeroReserved | VInvalidTransitionKind
  | VZeroRequiredBinding | VInvalidAnchorSequence | VInvalidProofBodyLength | VInvalidStatementPayloadLength
  | VStatementPayloadDigestMismatch | VNonCanonicalDigest

record dispatch_binding =
  vb_statement_version :: u8
  vb_transition_kind :: transition_kind
  vb_verifier_program :: bytes
  vb_profile_binding :: bytes
  vb_release_binding :: bytes
  vb_pool :: bytes
  vb_deployment_domain :: bytes
  vb_anchor_sequence :: u64
  vb_anchor_root :: digest
  vb_nullifier :: digest
  vb_statement_digest :: bytes
  vb_envelope_digest :: bytes
  vb_proof_account :: bytes
  vb_proof_body_digest :: bytes
  vb_proof_body_length :: u32
  vb_statement_payload_length :: u32

record dispatch_request =
  dq_binding :: dispatch_binding
  dq_statement_payload :: bytes

record dispatch_result =
  ds_success_code :: u32
  ds_binding :: dispatch_binding

section \<open>Bindings\<close>

definition validate_verifier_dispatch_binding_v1 :: "dispatch_binding \<Rightarrow> dispatch_format_error + unit" where
  "validate_verifier_dispatch_binding_v1 binding =
     (if vb_statement_version binding \<noteq> POOL_V1_HISTORICAL_ANCHOR_VERSION then Inl VWrongStatementVersion
      else if vb_verifier_program binding = zeros 32 \<or> vb_profile_binding binding = zeros 32
         \<or> vb_release_binding binding = zeros 32 \<or> vb_pool binding = zeros 32 \<or> vb_deployment_domain binding = zeros 32
         \<or> vb_proof_account binding = zeros 32
      then Inl VZeroRequiredBinding
      else if POOL_V1_LEAF_CAPACITY < vb_anchor_sequence binding then Inl VInvalidAnchorSequence
      else if vb_proof_body_length binding = 0 then Inl VInvalidProofBodyLength
      else if vb_statement_payload_length binding = 0
         \<or> POOL_V1_VERIFIER_STATEMENT_PAYLOAD_MAX_BYTES < unat (vb_statement_payload_length binding)
      then Inl VInvalidStatementPayloadLength
      else if \<not> canonical_digest (vb_anchor_root binding) \<or> \<not> canonical_digest (vb_nullifier binding)
      then Inl VNonCanonicalDigest
      else Inr ())"

definition historical_anchor_envelope_digest_v1 :: "anchor_envelope \<Rightarrow> hash_fn \<Rightarrow> dispatch_format_error + bytes" where
  "historical_anchor_envelope_digest_v1 envelope hash =
     bindE (map_err (\<lambda>_. VNonCanonicalDigest) (encode_historical_anchor_envelope_v1 envelope)) (\<lambda>encoded.
     Inr (hash [POOL_V1_HISTORICAL_ANCHOR_ENVELOPE_DIGEST_DOMAIN, encoded]))"

definition verifier_proof_body_digest_v1 :: "bytes \<Rightarrow> hash_fn \<Rightarrow> bytes" where
  "verifier_proof_body_digest_v1 proof_body hash = hash [proof_body]"

definition verifier_statement_payload_digest_v1 ::
  "u8 \<Rightarrow> bytes \<Rightarrow> bytes \<Rightarrow> bytes \<Rightarrow> hash_fn \<Rightarrow> dispatch_format_error + bytes" where
  "verifier_statement_payload_digest_v1 statement_version profile_binding release_binding statement_payload hash =
     (if statement_version \<noteq> POOL_V1_HISTORICAL_ANCHOR_VERSION then Inl VWrongStatementVersion
      else if statement_payload = [] \<or> POOL_V1_VERIFIER_STATEMENT_PAYLOAD_MAX_BYTES < length statement_payload
         \<or> profile_binding = zeros 32 \<or> release_binding = zeros 32
      then Inl VInvalidStatementPayloadLength
      else let digest_version = [POOL_V1_VERIFIER_STATEMENT_DIGEST_VERSION];
               payload_length = to_le 4 (of_nat (length statement_payload) :: u32)
      in Inr (hash [POOL_V1_VERIFIER_STATEMENT_PAYLOAD_DIGEST_DOMAIN, digest_version, [statement_version],
               profile_binding, release_binding, payload_length, statement_payload]))"

definition verifier_dispatch_binding_from_envelope_v1 ::
  "bytes \<Rightarrow> anchor_envelope \<Rightarrow> bytes \<Rightarrow> bytes \<Rightarrow> bytes \<Rightarrow> u32 \<Rightarrow> hash_fn \<Rightarrow> dispatch_format_error + dispatch_binding" where
  "verifier_dispatch_binding_from_envelope_v1 verifier_program envelope statement_payload proof_account proof_body_digest
       proof_body_length hash =
     bindE (verifier_statement_payload_digest_v1 POOL_V1_HISTORICAL_ANCHOR_VERSION (ae_verifier_profile envelope)
         (ae_verifier_release envelope) statement_payload hash) (\<lambda>statement_digest.
     bindE (historical_anchor_envelope_digest_v1 envelope hash) (\<lambda>envelope_digest.
     let binding = \<lparr> vb_statement_version = POOL_V1_HISTORICAL_ANCHOR_VERSION, vb_transition_kind = ae_transition_kind envelope,
           vb_verifier_program = verifier_program, vb_profile_binding = ae_verifier_profile envelope,
           vb_release_binding = ae_verifier_release envelope, vb_pool = ae_pool envelope,
           vb_deployment_domain = ae_deployment_domain envelope, vb_anchor_sequence = ae_anchor_sequence envelope,
           vb_anchor_root = ae_anchor_root envelope, vb_nullifier = ae_nullifier envelope,
           vb_statement_digest = statement_digest, vb_envelope_digest = envelope_digest, vb_proof_account = proof_account,
           vb_proof_body_digest = proof_body_digest, vb_proof_body_length = proof_body_length,
           vb_statement_payload_length = of_nat (length statement_payload) \<rparr>
     in bindE (validate_verifier_dispatch_binding_v1 binding) (\<lambda>_. Inr binding)))"

definition encode_binding_fields :: "bytes \<Rightarrow> dispatch_binding \<Rightarrow> bytes" where
  "encode_binding_fields output binding =
     (let output = output[4 := POOL_V1_VERIFIER_DISPATCH_VERSION];
          output = output[5 := vb_statement_version binding];
          output = output[6 := transition_kind_byte (vb_transition_kind binding)];
          output = output[7 := POOL_V1_VERIFIER_DISPATCH_HASH_SHA256];
          output = output[12 := POOL_V1_VERIFIER_STATEMENT_DIGEST_VERSION];
          output = put DISPATCH_VERIFIER_PROGRAM_OFFSET (vb_verifier_program binding) output;
          output = put DISPATCH_PROFILE_OFFSET (vb_profile_binding binding) output;
          output = put DISPATCH_RELEASE_OFFSET (vb_release_binding binding) output;
          output = put DISPATCH_POOL_OFFSET (vb_pool binding) output;
          output = put DISPATCH_DEPLOYMENT_DOMAIN_OFFSET (vb_deployment_domain binding) output;
          output = put DISPATCH_ANCHOR_SEQUENCE_OFFSET (to_le 8 (vb_anchor_sequence binding)) output;
          output = put DISPATCH_ANCHOR_ROOT_OFFSET (encode_digest_canonical (vb_anchor_root binding)) output;
          output = put DISPATCH_NULLIFIER_OFFSET (encode_digest_canonical (vb_nullifier binding)) output;
          output = put DISPATCH_STATEMENT_DIGEST_OFFSET (vb_statement_digest binding) output;
          output = put DISPATCH_ENVELOPE_DIGEST_OFFSET (vb_envelope_digest binding) output;
          output = put DISPATCH_PROOF_ACCOUNT_OFFSET (vb_proof_account binding) output;
          output = put DISPATCH_PROOF_BODY_DIGEST_OFFSET (vb_proof_body_digest binding) output;
          output = put DISPATCH_PROOF_BODY_LENGTH_OFFSET (to_le 4 (vb_proof_body_length binding)) output
      in put DISPATCH_STATEMENT_PAYLOAD_LENGTH_OFFSET (to_le 4 (vb_statement_payload_length binding)) output)"

definition decode_dispatch_transition_kind :: "u8 \<Rightarrow> dispatch_format_error + transition_kind" where
  "decode_dispatch_transition_kind value =
     (if value = 1 then Inr PrivateTransfer else if value = 2 then Inr Withdrawal else Inl VInvalidTransitionKind)"

definition decode_binding_fields :: "bytes \<Rightarrow> dispatch_format_error + dispatch_binding" where
  "decode_binding_fields bytes =
     (if bytes ! 4 \<noteq> POOL_V1_VERIFIER_DISPATCH_VERSION then Inl VWrongVersion
      else if bytes ! 5 \<noteq> POOL_V1_HISTORICAL_ANCHOR_VERSION then Inl VWrongStatementVersion
      else bindE (decode_dispatch_transition_kind (bytes ! 6)) (\<lambda>kind.
      if bytes ! 7 \<noteq> POOL_V1_VERIFIER_DISPATCH_HASH_SHA256 then Inl VWrongHashAlgorithm
      else if bytes ! 12 \<noteq> POOL_V1_VERIFIER_STATEMENT_DIGEST_VERSION then Inl VWrongStatementDigestVersion
      else if seg 13 16 bytes \<noteq> zeros 3 then Inl VNonZeroReserved
      else bindE (map_err (\<lambda>_. VNonCanonicalDigest)
                   (decode_digest_canonical (seg DISPATCH_ANCHOR_ROOT_OFFSET DISPATCH_NULLIFIER_OFFSET bytes))) (\<lambda>anchor_root.
      bindE (map_err (\<lambda>_. VNonCanonicalDigest)
              (decode_digest_canonical (seg DISPATCH_NULLIFIER_OFFSET DISPATCH_STATEMENT_DIGEST_OFFSET bytes))) (\<lambda>nullifier.
      let binding = \<lparr> vb_statement_version = bytes ! 5, vb_transition_kind = kind,
            vb_verifier_program = seg DISPATCH_VERIFIER_PROGRAM_OFFSET DISPATCH_PROFILE_OFFSET bytes,
            vb_profile_binding = seg DISPATCH_PROFILE_OFFSET DISPATCH_RELEASE_OFFSET bytes,
            vb_release_binding = seg DISPATCH_RELEASE_OFFSET DISPATCH_POOL_OFFSET bytes,
            vb_pool = seg DISPATCH_POOL_OFFSET DISPATCH_DEPLOYMENT_DOMAIN_OFFSET bytes,
            vb_deployment_domain = seg DISPATCH_DEPLOYMENT_DOMAIN_OFFSET DISPATCH_ANCHOR_SEQUENCE_OFFSET bytes,
            vb_anchor_sequence = from_le (seg DISPATCH_ANCHOR_SEQUENCE_OFFSET DISPATCH_ANCHOR_ROOT_OFFSET bytes),
            vb_anchor_root = anchor_root, vb_nullifier = nullifier,
            vb_statement_digest = seg DISPATCH_STATEMENT_DIGEST_OFFSET DISPATCH_ENVELOPE_DIGEST_OFFSET bytes,
            vb_envelope_digest = seg DISPATCH_ENVELOPE_DIGEST_OFFSET DISPATCH_PROOF_ACCOUNT_OFFSET bytes,
            vb_proof_account = seg DISPATCH_PROOF_ACCOUNT_OFFSET DISPATCH_PROOF_BODY_DIGEST_OFFSET bytes,
            vb_proof_body_digest = seg DISPATCH_PROOF_BODY_DIGEST_OFFSET DISPATCH_PROOF_BODY_LENGTH_OFFSET bytes,
            vb_proof_body_length = from_le (seg DISPATCH_PROOF_BODY_LENGTH_OFFSET DISPATCH_STATEMENT_PAYLOAD_LENGTH_OFFSET bytes),
            vb_statement_payload_length = from_le (drop DISPATCH_STATEMENT_PAYLOAD_LENGTH_OFFSET bytes) \<rparr>
      in bindE (validate_verifier_dispatch_binding_v1 binding) (\<lambda>_. Inr binding)))))"

section \<open>Requests and results\<close>

definition encode_verifier_dispatch_request_v1 :: "dispatch_request \<Rightarrow> hash_fn \<Rightarrow> dispatch_format_error + bytes" where
  "encode_verifier_dispatch_request_v1 request hash =
     (let binding = dq_binding request; payload = dq_statement_payload request
      in bindE (validate_verifier_dispatch_binding_v1 binding) (\<lambda>_.
      if length payload \<noteq> unat (vb_statement_payload_length binding) then Inl VInvalidStatementPayloadLength
      else bindE (verifier_statement_payload_digest_v1 (vb_statement_version binding) (vb_profile_binding binding)
             (vb_release_binding binding) payload hash) (\<lambda>expected_digest.
      if expected_digest \<noteq> vb_statement_digest binding then Inl VStatementPayloadDigestMismatch
      else let total_length = POOL_V1_VERIFIER_DISPATCH_BINDING_PREFIX_BYTES + length payload
      in if POOL_V1_VERIFIER_DISPATCH_REQUEST_MAX_BYTES < total_length then Inl VInvalidStatementPayloadLength
      else let prefix = zeros POOL_V1_VERIFIER_DISPATCH_BINDING_PREFIX_BYTES;
               prefix = put 0 POOL_V1_VERIFIER_DISPATCH_REQUEST_MAGIC prefix;
               prefix = put 8 (to_le 4 POOL_V1_VERIFIER_DISPATCH_VERIFY_CODE) prefix;
               prefix = encode_binding_fields prefix binding
      in Inr (prefix @ payload))))"

definition decode_verifier_dispatch_request_v1 :: "bytes \<Rightarrow> hash_fn \<Rightarrow> dispatch_format_error + dispatch_request" where
  "decode_verifier_dispatch_request_v1 bytes hash =
     (if length bytes < POOL_V1_VERIFIER_DISPATCH_BINDING_PREFIX_BYTES
         \<or> POOL_V1_VERIFIER_DISPATCH_REQUEST_MAX_BYTES < length bytes
      then Inl VWrongLength
      else let prefix = take POOL_V1_VERIFIER_DISPATCH_BINDING_PREFIX_BYTES bytes
      in if seg 0 4 prefix \<noteq> POOL_V1_VERIFIER_DISPATCH_REQUEST_MAGIC then Inl VWrongMagic
      else if from_le (seg 8 12 prefix) \<noteq> POOL_V1_VERIFIER_DISPATCH_VERIFY_CODE then Inl VWrongVerifyCode
      else bindE (decode_binding_fields prefix) (\<lambda>binding.
      let payload = drop POOL_V1_VERIFIER_DISPATCH_BINDING_PREFIX_BYTES bytes
      in if length payload \<noteq> unat (vb_statement_payload_length binding) then Inl VInvalidStatementPayloadLength
      else bindE (verifier_statement_payload_digest_v1 (vb_statement_version binding) (vb_profile_binding binding)
             (vb_release_binding binding) payload hash) (\<lambda>digest.
      if digest \<noteq> vb_statement_digest binding then Inl VStatementPayloadDigestMismatch
      else Inr \<lparr> dq_binding = binding, dq_statement_payload = payload \<rparr>)))"

definition encode_verifier_dispatch_result_v1 :: "dispatch_result \<Rightarrow> dispatch_format_error + bytes" where
  "encode_verifier_dispatch_result_v1 result =
     (if ds_success_code result \<noteq> POOL_V1_VERIFIER_DISPATCH_SUCCESS_CODE then Inl VWrongSuccessCode
      else bindE (validate_verifier_dispatch_binding_v1 (ds_binding result)) (\<lambda>_.
      let output = zeros POOL_V1_VERIFIER_DISPATCH_RESULT_BYTES;
          output = put 0 POOL_V1_VERIFIER_DISPATCH_RESULT_MAGIC output;
          output = put 8 (to_le 4 (ds_success_code result)) output
      in Inr (encode_binding_fields output (ds_binding result))))"

definition decode_verifier_dispatch_result_v1 :: "bytes \<Rightarrow> dispatch_format_error + dispatch_result" where
  "decode_verifier_dispatch_result_v1 bytes =
     (if length bytes \<noteq> POOL_V1_VERIFIER_DISPATCH_RESULT_BYTES then Inl VWrongLength
      else if seg 0 4 bytes \<noteq> POOL_V1_VERIFIER_DISPATCH_RESULT_MAGIC then Inl VWrongMagic
      else let success_code = from_le (seg 8 12 bytes)
      in if success_code \<noteq> POOL_V1_VERIFIER_DISPATCH_SUCCESS_CODE then Inl VWrongSuccessCode
      else bindE (decode_binding_fields bytes) (\<lambda>binding.
      Inr \<lparr> ds_success_code = success_code, ds_binding = binding \<rparr>))"

section \<open>Requests and results are canonical\<close>

definition binding_ok :: "dispatch_binding \<Rightarrow> bool" where
  "binding_ok b \<longleftrightarrow> length (vb_verifier_program b) = 32 \<and> length (vb_profile_binding b) = 32 \<and> length (vb_release_binding b) = 32
     \<and> length (vb_pool b) = 32 \<and> length (vb_deployment_domain b) = 32 \<and> length (vb_anchor_root b) = 8 \<and> length (vb_nullifier b) = 8
     \<and> length (vb_statement_digest b) = 32 \<and> length (vb_envelope_digest b) = 32 \<and> length (vb_proof_account b) = 32
     \<and> length (vb_proof_body_digest b) = 32"

lemma dispatch_kind_eq: "decode_dispatch_transition_kind b = Inr k \<longleftrightarrow> transition_kind_byte k = b"
  by (cases k) (auto simp: decode_dispatch_transition_kind_def transition_kind_byte_def)

text \<open>The prefix of a request or a result: magic, code and binding.\<close>

definition binding_image :: "bytes \<Rightarrow> bytes \<Rightarrow> dispatch_binding \<Rightarrow> bytes" where
  "binding_image magic code b = encode_binding_fields (put 8 code (put 0 magic (zeros 384))) b"

lemma binding_image_fields:
  assumes "length magic = 4" "length code = 4" "binding_ok b"
  shows "length (binding_image magic code b) = 384" "seg 0 4 (binding_image magic code b) = magic"
    "binding_image magic code b ! 4 = POOL_V1_VERIFIER_DISPATCH_VERSION"
    "binding_image magic code b ! 5 = vb_statement_version b"
    "binding_image magic code b ! 6 = transition_kind_byte (vb_transition_kind b)"
    "binding_image magic code b ! 7 = POOL_V1_VERIFIER_DISPATCH_HASH_SHA256"
    "seg 8 12 (binding_image magic code b) = code"
    "binding_image magic code b ! 12 = POOL_V1_VERIFIER_STATEMENT_DIGEST_VERSION"
    "seg 13 16 (binding_image magic code b) = zeros 3"
    "seg 16 48 (binding_image magic code b) = vb_verifier_program b"
    "seg 48 80 (binding_image magic code b) = vb_profile_binding b"
    "seg 80 112 (binding_image magic code b) = vb_release_binding b"
    "seg 112 144 (binding_image magic code b) = vb_pool b"
    "seg 144 176 (binding_image magic code b) = vb_deployment_domain b"
    "seg 176 184 (binding_image magic code b) = to_le 8 (vb_anchor_sequence b)"
    "seg 184 216 (binding_image magic code b) = encode_digest_canonical (vb_anchor_root b)"
    "seg 216 248 (binding_image magic code b) = encode_digest_canonical (vb_nullifier b)"
    "seg 248 280 (binding_image magic code b) = vb_statement_digest b"
    "seg 280 312 (binding_image magic code b) = vb_envelope_digest b"
    "seg 312 344 (binding_image magic code b) = vb_proof_account b"
    "seg 344 376 (binding_image magic code b) = vb_proof_body_digest b"
    "seg 376 380 (binding_image magic code b) = to_le 4 (vb_proof_body_length b)"
    "seg 380 384 (binding_image magic code b) = to_le 4 (vb_statement_payload_length b)"
  using assms by (simp_all add: binding_image_def encode_binding_fields_def binding_ok_def Let_def layout_defs image_simps)

lemma binding_image_decodes:
  assumes "length magic = 4" "length code = 4" "binding_ok b" "validate_verifier_dispatch_binding_v1 b = Inr ()"
  shows "decode_binding_fields (binding_image magic code b) = Inr b"
proof -
  have "digest_ok (vb_anchor_root b)" "digest_ok (vb_nullifier b)" "vb_statement_version b = POOL_V1_HISTORICAL_ANCHOR_VERSION"
    using assms(3,4) canonical_digest_iff [of "vb_anchor_root b"] canonical_digest_iff [of "vb_nullifier b"]
    by (auto simp: validate_verifier_dispatch_binding_v1_def binding_ok_def split: if_splits)
  moreover have "decode_dispatch_transition_kind (transition_kind_byte k) = Inr k" for k by (simp add: dispatch_kind_eq)
  ultimately show ?thesis
    using assms by (cases b) (simp add: decode_binding_fields_def Let_def layout_defs drop_eq_seg [of _ 384]
        binding_image_fields [OF assms(1,2)])
qed

lemma decode_binding_fields_eq:
  assumes len: "length t = 384"
  shows "decode_binding_fields t = Inr b \<longleftrightarrow> binding_ok b \<and> validate_verifier_dispatch_binding_v1 b = Inr ()
    \<and> binding_image (seg 0 4 t) (seg 8 12 t) b = t"
proof
  have lens: "length (seg 0 4 t) = 4" "length (seg 8 12 t) = 4" using len by simp_all
  {
    assume dec: "decode_binding_fields t = Inr b"
    then have ok: "binding_ok b" "validate_verifier_dispatch_binding_v1 b = Inr ()"
      using len by (auto simp: decode_binding_fields_def Let_def layout_defs binding_ok_def decode_digest_eq_Inr digest_ok_def split: if_splits)
    have fields: "t ! 4 = POOL_V1_VERIFIER_DISPATCH_VERSION" "t ! 5 = vb_statement_version b" "t ! 6 = transition_kind_byte (vb_transition_kind b)"
        "t ! 7 = POOL_V1_VERIFIER_DISPATCH_HASH_SHA256" "t ! 12 = POOL_V1_VERIFIER_STATEMENT_DIGEST_VERSION" "seg 13 16 t = zeros 3"
        "seg 16 48 t = vb_verifier_program b" "seg 48 80 t = vb_profile_binding b" "seg 80 112 t = vb_release_binding b"
        "seg 112 144 t = vb_pool b" "seg 144 176 t = vb_deployment_domain b" "seg 176 184 t = to_le 8 (vb_anchor_sequence b)"
        "seg 184 216 t = encode_digest_canonical (vb_anchor_root b)" "seg 216 248 t = encode_digest_canonical (vb_nullifier b)"
        "seg 248 280 t = vb_statement_digest b" "seg 280 312 t = vb_envelope_digest b" "seg 312 344 t = vb_proof_account b"
        "seg 344 376 t = vb_proof_body_digest b" "seg 376 380 t = to_le 4 (vb_proof_body_length b)"
        "seg 380 384 t = to_le 4 (vb_statement_payload_length b)"
      using dec len
      by (auto simp: decode_binding_fields_def Let_def layout_defs decode_digest_eq_Inr dispatch_kind_eq drop_eq_seg [of _ 384] split: if_splits)
    have "binding_image (seg 0 4 t) (seg 8 12 t) b = t"
    proof (rule agree_on_eq [where cs = "[4, 5, 6, 7, 8, 12, 13, 16, 48, 80, 112, 144, 176, 184, 216, 248, 280, 312, 344, 376, 380, 384]"])
      show "agree_on [0, 4, 5, 6, 7, 8, 12, 13, 16, 48, 80, 112, 144, 176, 184, 216, 248, 280, 312, 344, 376, 380, 384]
          (binding_image (seg 0 4 t) (seg 8 12 t) b) t"
        using len by (simp add: binding_image_fields [OF lens ok(1)] fields seg_one)
    qed (use len binding_image_fields(1) [OF lens ok(1)] in simp_all)
    with ok show "binding_ok b \<and> validate_verifier_dispatch_binding_v1 b = Inr () \<and> binding_image (seg 0 4 t) (seg 8 12 t) b = t" by blast
  }
  assume b: "binding_ok b \<and> validate_verifier_dispatch_binding_v1 b = Inr () \<and> binding_image (seg 0 4 t) (seg 8 12 t) b = t"
  then show "decode_binding_fields t = Inr b" using binding_image_decodes [OF lens] by metis
qed

interpretation result_codec: image_codec encode_verifier_dispatch_result_v1 decode_verifier_dispatch_result_v1
  "\<lambda>r. binding_ok (ds_binding r)" POOL_V1_VERIFIER_DISPATCH_RESULT_BYTES
proof unfold_locales
  fix r b
  show "decode_verifier_dispatch_result_v1 b = Inr r" if ok: "binding_ok (ds_binding r)" and "encode_verifier_dispatch_result_v1 r = Inr b"
  proof -
    from that have b: "b = binding_image POOL_V1_VERIFIER_DISPATCH_RESULT_MAGIC (to_le 4 (ds_success_code r)) (ds_binding r)"
      and valid: "validate_verifier_dispatch_binding_v1 (ds_binding r) = Inr ()" "ds_success_code r = POOL_V1_VERIFIER_DISPATCH_SUCCESS_CODE"
      by (auto simp: encode_verifier_dispatch_result_v1_def binding_image_def Let_def layout_defs split: if_splits)
    have len: "length POOL_V1_VERIFIER_DISPATCH_RESULT_MAGIC = 4" "length (to_le 4 (ds_success_code r)) = 4" by (simp_all add: layout_defs)
    show ?thesis
      using binding_image_fields(1,2,7) [OF len ok] binding_image_decodes [OF len ok valid(1)] valid(2)
      by (cases r) (simp add: decode_verifier_dispatch_result_v1_def b Let_def POOL_V1_VERIFIER_DISPATCH_RESULT_BYTES_def)
  qed
  assume dec: "decode_verifier_dispatch_result_v1 b = Inr r"
  then show len: "length b = POOL_V1_VERIFIER_DISPATCH_RESULT_BYTES"
    by (auto simp: decode_verifier_dispatch_result_v1_def split: if_splits)
  from dec have r: "decode_binding_fields b = Inr (ds_binding r)" "seg 0 4 b = POOL_V1_VERIFIER_DISPATCH_RESULT_MAGIC"
      "ds_success_code r = POOL_V1_VERIFIER_DISPATCH_SUCCESS_CODE" "ds_success_code r = from_le (seg 8 12 b)"
    by (auto simp: decode_verifier_dispatch_result_v1_def Let_def split: if_splits)
  have img: "binding_ok (ds_binding r)" "validate_verifier_dispatch_binding_v1 (ds_binding r) = Inr ()"
      "binding_image (seg 0 4 b) (seg 8 12 b) (ds_binding r) = b"
    using r(1) decode_binding_fields_eq [of b "ds_binding r"] len by (auto simp: layout_defs)
  show "binding_ok (ds_binding r)" by (rule img)
  have code: "to_le 4 (ds_success_code r) = seg 8 12 b" unfolding r(4) using len by (simp add: layout_defs)
  show "encode_verifier_dispatch_result_v1 r = Inr b"
    using img r(3) unfolding encode_verifier_dispatch_result_v1_def code Let_def
    by (simp add: binding_image_def r(2) POOL_V1_VERIFIER_DISPATCH_RESULT_BYTES_def)
qed

definition dispatch_request_ok :: "dispatch_request \<Rightarrow> bool" where
  "dispatch_request_ok q \<longleftrightarrow> binding_ok (dq_binding q)"

lemma request_codec:
  "canonical_codec (\<lambda>q. encode_verifier_dispatch_request_v1 q hash) (\<lambda>b. decode_verifier_dispatch_request_v1 b hash) dispatch_request_ok"
proof unfold_locales
  fix q b
  let ?m = POOL_V1_VERIFIER_DISPATCH_REQUEST_MAGIC and ?c = "to_le 4 POOL_V1_VERIFIER_DISPATCH_VERIFY_CODE"
  have len: "length ?m = 4" "length ?c = 4" by (simp_all add: layout_defs)
  show "decode_verifier_dispatch_request_v1 b hash = Inr q" if ok: "dispatch_request_ok q" and "encode_verifier_dispatch_request_v1 q hash = Inr b"
  proof -
    let ?b = "dq_binding q" and ?p = "dq_statement_payload q"
    from that have b: "b = binding_image ?m ?c ?b @ ?p"
      and valid: "validate_verifier_dispatch_binding_v1 ?b = Inr ()" "length ?p = unat (vb_statement_payload_length ?b)"
        "verifier_statement_payload_digest_v1 (vb_statement_version ?b) (vb_profile_binding ?b) (vb_release_binding ?b) ?p hash
          = Inr (vb_statement_digest ?b)" "length ?p \<le> 640"
      by (auto simp: encode_verifier_dispatch_request_v1_def binding_image_def Let_def POOL_V1_VERIFIER_DISPATCH_BINDING_PREFIX_BYTES_def
          POOL_V1_VERIFIER_DISPATCH_REQUEST_MAX_BYTES_def POOL_V1_VERIFIER_STATEMENT_PAYLOAD_MAX_BYTES_def split: if_splits)
    have bok: "binding_ok ?b" using ok by (simp add: dispatch_request_ok_def)
    show ?thesis
      using binding_image_fields(1,2,7) [OF len bok] binding_image_decodes [OF len bok valid(1)] valid(2-)
      by (cases q) (simp add: decode_verifier_dispatch_request_v1_def b Let_def POOL_V1_VERIFIER_DISPATCH_BINDING_PREFIX_BYTES_def
          POOL_V1_VERIFIER_DISPATCH_REQUEST_MAX_BYTES_def POOL_V1_VERIFIER_STATEMENT_PAYLOAD_MAX_BYTES_def)
  qed
  assume dec: "decode_verifier_dispatch_request_v1 b hash = Inr q"
  let ?t = "take 384 b"
  from dec have r: "384 \<le> length b" "length b \<le> 1024" "decode_binding_fields ?t = Inr (dq_binding q)" "seg 0 4 ?t = ?m"
      "from_le (seg 8 12 ?t) = POOL_V1_VERIFIER_DISPATCH_VERIFY_CODE" "dq_statement_payload q = drop 384 b"
      "length (drop 384 b) = unat (vb_statement_payload_length (dq_binding q))"
      "verifier_statement_payload_digest_v1 (vb_statement_version (dq_binding q)) (vb_profile_binding (dq_binding q))
        (vb_release_binding (dq_binding q)) (drop 384 b) hash = Inr (vb_statement_digest (dq_binding q))"
    by (auto simp: decode_verifier_dispatch_request_v1_def Let_def POOL_V1_VERIFIER_DISPATCH_BINDING_PREFIX_BYTES_def
        POOL_V1_VERIFIER_DISPATCH_REQUEST_MAX_BYTES_def POOL_V1_VERIFIER_STATEMENT_PAYLOAD_MAX_BYTES_def not_less split: if_splits)
  have lt: "length ?t = 384" using r(1) by simp
  have img: "binding_ok (dq_binding q)" "validate_verifier_dispatch_binding_v1 (dq_binding q) = Inr ()"
      "binding_image (seg 0 4 ?t) (seg 8 12 ?t) (dq_binding q) = ?t"
    using r(3) decode_binding_fields_eq [OF lt] by auto
  show "dispatch_request_ok q" using img(1) by (simp add: dispatch_request_ok_def)
  have code: "seg 8 12 ?t = ?c" unfolding r(5) [symmetric] using lt by simp
  have total: "\<not> 1024 < 384 + length (drop 384 b)" using r(1,2) by simp
  have prefix: "encode_binding_fields (put 8 ?c (put 0 ?m (zeros 384))) (dq_binding q) = ?t"
    using img(3) unfolding code r(4) binding_image_def .
  have "encode_verifier_dispatch_request_v1 q hash = Inr (?t @ drop 384 b)"
    using img(2) r(7,8) total unfolding encode_verifier_dispatch_request_v1_def Let_def r(6)
    by (simp add: prefix POOL_V1_VERIFIER_DISPATCH_BINDING_PREFIX_BYTES_def POOL_V1_VERIFIER_DISPATCH_REQUEST_MAX_BYTES_def
        POOL_V1_VERIFIER_STATEMENT_PAYLOAD_MAX_BYTES_def)
  then show "encode_verifier_dispatch_request_v1 q hash = Inr b" by simp
qed

interpretation request_wire: canonical_codec "\<lambda>q. encode_verifier_dispatch_request_v1 q hash"
  "\<lambda>b. decode_verifier_dispatch_request_v1 b hash" dispatch_request_ok for hash
  by (rule request_codec)

text \<open>A binding made from an envelope keeps every field of it and the digests of the statement and the proof.\<close>

lemma binding_from_envelope:
  assumes "verifier_dispatch_binding_from_envelope_v1 program e payload proof digest len hash = Inr b"
  shows "vb_transition_kind b = ae_transition_kind e" "vb_pool b = ae_pool e" "vb_deployment_domain b = ae_deployment_domain e"
    "vb_anchor_sequence b = ae_anchor_sequence e" "vb_anchor_root b = ae_anchor_root e" "vb_nullifier b = ae_nullifier e"
    "vb_verifier_program b = program" "vb_proof_account b = proof" "vb_proof_body_digest b = digest" "vb_proof_body_length b = len"
    "verifier_statement_payload_digest_v1 1 (ae_verifier_profile e) (ae_verifier_release e) payload hash = Inr (vb_statement_digest b)"
    "validate_verifier_dispatch_binding_v1 b = Inr ()"
  using assms by (auto simp: verifier_dispatch_binding_from_envelope_v1_def Let_def POOL_V1_HISTORICAL_ANCHOR_VERSION_def)

end
