(* ===== verification/Vault.thy ===== *)
theory Vault
  imports PoolState
begin

text \<open>
  The vault of \<open>programs/aspis-pool/src/vault.rs\<close>: its addresses, the strict parse of token mints and accounts, the
  plans of a deposit and of a withdrawal transfer, and the re-reading of both balances after the transfer. The
  token program is not part of the repository; what the pool knows of a transfer is what these checks establish.
\<close>

section \<open>Instructions\<close>

text \<open>The instructions the pool builds for other programs, as the runtime defines them.\<close>

record account_meta =
  am_pubkey :: bytes
  am_is_signer :: bool
  am_is_writable :: bool

record instruction =
  ix_program_id :: bytes
  ix_accounts :: "account_meta list"
  ix_data :: bytes

definition meta_new :: "bytes \<Rightarrow> bool \<Rightarrow> account_meta" where
  "meta_new key is_signer = \<lparr> am_pubkey = key, am_is_signer = is_signer, am_is_writable = True \<rparr>"

definition meta_new_readonly :: "bytes \<Rightarrow> bool \<Rightarrow> account_meta" where
  "meta_new_readonly key is_signer = \<lparr> am_pubkey = key, am_is_signer = is_signer, am_is_writable = False \<rparr>"

section \<open>Constants and addresses\<close>

definition LEGACY_SPL_TOKEN_MINT_ACCOUNT_BYTES :: nat where [layout_defs]: "LEGACY_SPL_TOKEN_MINT_ACCOUNT_BYTES = 82"
definition LEGACY_SPL_TOKEN_ACCOUNT_BYTES :: nat where [layout_defs]: "LEGACY_SPL_TOKEN_ACCOUNT_BYTES = 165"
definition POOL_V1_VAULT_AUTHORITY_SEED :: bytes where
  "POOL_V1_VAULT_AUTHORITY_SEED = [0x61, 0x73, 0x70, 0x69, 0x73, 0x2D, 0x70, 0x6F, 0x6F, 0x6C, 0x2D, 0x76, 0x61, 0x75, 0x6C, 0x74, 0x2D, 0x61, 0x75, 0x74, 0x68, 0x6F, 0x72, 0x69, 0x74, 0x79, 0x2D, 0x76, 0x31]"
definition POOL_V1_VAULT_TOKEN_ACCOUNT_SEED :: bytes where
  "POOL_V1_VAULT_TOKEN_ACCOUNT_SEED = [0x61, 0x73, 0x70, 0x69, 0x73, 0x2D, 0x70, 0x6F, 0x6F, 0x6C, 0x2D, 0x76, 0x61, 0x75, 0x6C, 0x74, 0x2D, 0x74, 0x6F, 0x6B, 0x65, 0x6E, 0x2D, 0x76, 0x31]"
definition TOKEN_ACCOUNT_MINT_OFFSET :: nat where [layout_defs]: "TOKEN_ACCOUNT_MINT_OFFSET = 0"
definition TOKEN_ACCOUNT_AUTHORITY_OFFSET :: nat where [layout_defs]: "TOKEN_ACCOUNT_AUTHORITY_OFFSET = 32"
definition TOKEN_ACCOUNT_AMOUNT_OFFSET :: nat where [layout_defs]: "TOKEN_ACCOUNT_AMOUNT_OFFSET = 64"
definition TOKEN_ACCOUNT_DELEGATE_OFFSET :: nat where [layout_defs]: "TOKEN_ACCOUNT_DELEGATE_OFFSET = 72"
definition TOKEN_ACCOUNT_STATE_OFFSET :: nat where [layout_defs]: "TOKEN_ACCOUNT_STATE_OFFSET = 108"
definition TOKEN_ACCOUNT_IS_NATIVE_OFFSET :: nat where [layout_defs]: "TOKEN_ACCOUNT_IS_NATIVE_OFFSET = 109"
definition TOKEN_ACCOUNT_DELEGATED_AMOUNT_OFFSET :: nat where [layout_defs]: "TOKEN_ACCOUNT_DELEGATED_AMOUNT_OFFSET = 121"
definition TOKEN_ACCOUNT_CLOSE_AUTHORITY_OFFSET :: nat where [layout_defs]: "TOKEN_ACCOUNT_CLOSE_AUTHORITY_OFFSET = 129"
definition TOKEN_MINT_SUPPLY_OFFSET :: nat where [layout_defs]: "TOKEN_MINT_SUPPLY_OFFSET = 36"
definition TOKEN_MINT_DECIMALS_OFFSET :: nat where [layout_defs]: "TOKEN_MINT_DECIMALS_OFFSET = 44"
definition TOKEN_MINT_INITIALIZED_OFFSET :: nat where [layout_defs]: "TOKEN_MINT_INITIALIZED_OFFSET = 45"
definition TOKEN_MINT_FREEZE_AUTHORITY_OFFSET :: nat where [layout_defs]: "TOKEN_MINT_FREEZE_AUTHORITY_OFFSET = 46"
definition SPL_TOKEN_ACCOUNT_STATE_INITIALIZED :: u8 where [layout_defs]: "SPL_TOKEN_ACCOUNT_STATE_INITIALIZED = 1"
definition SPL_TOKEN_TRANSFER_CHECKED_DISCRIMINANT :: u8 where [layout_defs]: "SPL_TOKEN_TRANSFER_CHECKED_DISCRIMINANT = 12"

definition pool_v1_vault_authority_address :: "solana \<Rightarrow> bytes \<Rightarrow> bytes \<Rightarrow> bytes \<times> u8" where
  "pool_v1_vault_authority_address env program_id pool = find_program_address env [POOL_V1_VAULT_AUTHORITY_SEED, pool] program_id"

definition pool_v1_vault_token_account_address :: "solana \<Rightarrow> bytes \<Rightarrow> bytes \<Rightarrow> bytes \<times> u8" where
  "pool_v1_vault_token_account_address env program_id pool =
     find_program_address env [POOL_V1_VAULT_TOKEN_ACCOUNT_SEED, pool] program_id"

section \<open>Token accounts\<close>

record legacy_mint =
  lm_supply :: u64
  lm_decimals :: u8

record legacy_token_account =
  ta_mint :: bytes
  ta_authority :: bytes
  ta_amount :: u64
  ta_has_delegate :: bool
  ta_is_native :: bool
  ta_delegated_amount :: u64
  ta_has_close_authority :: bool

record deposit_transfer_plan =
  dp_instruction :: instruction
  dp_source :: bytes
  dp_mint :: bytes
  dp_vault :: bytes
  dp_authority :: bytes
  dp_amount :: u64
  dp_source_before :: u64
  dp_source_after :: u64
  dp_vault_before :: u64
  dp_vault_after :: u64
  dp_decimals :: u8

record withdrawal_transfer_plan =
  wp_instruction :: instruction
  wp_mint :: bytes
  wp_vault :: bytes
  wp_destination :: bytes
  wp_authority :: bytes
  wp_amount :: u64
  wp_vault_before :: u64
  wp_vault_after :: u64
  wp_destination_before :: u64
  wp_destination_after :: u64
  wp_decimals :: u8
  wp_authority_bump :: u8

definition require_zero :: "bytes \<Rightarrow> program_error + unit" where
  "require_zero bytes = (if \<exists>byte \<in> set bytes. byte \<noteq> 0 then pool_fail UnsupportedTokenConfiguration else Inr ())"

definition token_array :: "nat \<Rightarrow> bytes \<Rightarrow> program_error + bytes" where
  "token_array n bytes = (if length bytes = n then Inr bytes else pool_fail InvalidTokenAccount)"

definition parse_coption_pubkey :: "bytes \<Rightarrow> program_error + bytes option" where
  "parse_coption_pubkey bytes =
     (if length bytes \<noteq> 36 then pool_fail InvalidTokenAccount
      else bindE (token_array 4 (take 4 bytes)) (\<lambda>tag_bytes.
      let tag = from_le tag_bytes :: u32
      in if tag = 0 then bindE (require_zero (drop 4 bytes)) (\<lambda>_. Inr None)
         else if tag = 1 then bindE (token_array 32 (drop 4 bytes)) (\<lambda>key. Inr (Some key))
         else pool_fail InvalidTokenAccount))"

definition parse_coption_u64 :: "bytes \<Rightarrow> program_error + u64 option" where
  "parse_coption_u64 bytes =
     (if length bytes \<noteq> 12 then pool_fail InvalidTokenAccount
      else bindE (token_array 4 (take 4 bytes)) (\<lambda>tag_bytes.
      let tag = from_le tag_bytes :: u32
      in if tag = 0 then bindE (require_zero (drop 4 bytes)) (\<lambda>_. Inr None)
         else if tag = 1 then bindE (token_array 8 (drop 4 bytes)) (\<lambda>b. Inr (Some (from_le b)))
         else pool_fail InvalidTokenAccount))"

definition parse_legacy_mint_v1 :: "bytes \<Rightarrow> program_error + legacy_mint" where
  "parse_legacy_mint_v1 data =
     (if length data \<noteq> LEGACY_SPL_TOKEN_MINT_ACCOUNT_BYTES then pool_fail UnsupportedTokenConfiguration
      else bindE (parse_coption_pubkey (take 36 data)) (\<lambda>_.
      bindE (parse_coption_pubkey (drop TOKEN_MINT_FREEZE_AUTHORITY_OFFSET data)) (\<lambda>_.
      if data ! TOKEN_MINT_INITIALIZED_OFFSET \<noteq> 1 then pool_fail InvalidMint
      else bindE (token_array 8 (seg TOKEN_MINT_SUPPLY_OFFSET TOKEN_MINT_DECIMALS_OFFSET data)) (\<lambda>supply.
      Inr \<lparr> lm_supply = from_le supply, lm_decimals = data ! TOKEN_MINT_DECIMALS_OFFSET \<rparr>))))"

definition parse_legacy_token_account_v1 :: "bytes \<Rightarrow> program_error + legacy_token_account" where
  "parse_legacy_token_account_v1 data =
     (if length data \<noteq> LEGACY_SPL_TOKEN_ACCOUNT_BYTES then pool_fail UnsupportedTokenConfiguration
      else bindE (parse_coption_pubkey (seg TOKEN_ACCOUNT_DELEGATE_OFFSET TOKEN_ACCOUNT_STATE_OFFSET data)) (\<lambda>delegate.
      if data ! TOKEN_ACCOUNT_STATE_OFFSET \<noteq> SPL_TOKEN_ACCOUNT_STATE_INITIALIZED then pool_fail InvalidTokenAccount
      else bindE (parse_coption_u64 (seg TOKEN_ACCOUNT_IS_NATIVE_OFFSET TOKEN_ACCOUNT_DELEGATED_AMOUNT_OFFSET data)) (\<lambda>is_native.
      bindE (parse_coption_pubkey (drop TOKEN_ACCOUNT_CLOSE_AUTHORITY_OFFSET data)) (\<lambda>close_authority.
      bindE (token_array 32 (seg TOKEN_ACCOUNT_MINT_OFFSET TOKEN_ACCOUNT_AUTHORITY_OFFSET data)) (\<lambda>mint.
      bindE (token_array 32 (seg TOKEN_ACCOUNT_AUTHORITY_OFFSET TOKEN_ACCOUNT_AMOUNT_OFFSET data)) (\<lambda>authority.
      bindE (token_array 8 (seg TOKEN_ACCOUNT_AMOUNT_OFFSET TOKEN_ACCOUNT_DELEGATE_OFFSET data)) (\<lambda>amount.
      bindE (token_array 8 (seg TOKEN_ACCOUNT_DELEGATED_AMOUNT_OFFSET TOKEN_ACCOUNT_CLOSE_AUTHORITY_OFFSET data)) (\<lambda>delegated.
      Inr \<lparr> ta_mint = mint, ta_authority = authority, ta_amount = from_le amount, ta_has_delegate = (delegate \<noteq> None),
             ta_is_native = (is_native \<noteq> None), ta_delegated_amount = from_le delegated,
             ta_has_close_authority = (close_authority \<noteq> None) \<rparr>))))))))"

definition require_token_owned_account :: "account \<Rightarrow> bool \<Rightarrow> program_error + unit" where
  "require_token_owned_account account writable =
     (if ac_owner account \<noteq> LEGACY_SPL_TOKEN_PROGRAM_ID \<or> ac_executable account \<or> ac_is_signer account
         \<or> ac_is_writable account \<noteq> writable
      then pool_fail InvalidTokenAccount else Inr ())"

section \<open>Deposits\<close>

text \<open>The five accounts of a transfer, as a tuple in the order of the caller.\<close>

type_synonym five_accounts = "account \<times> account \<times> account \<times> account \<times> account"

definition exact_five_accounts :: "account list \<Rightarrow> program_error + five_accounts" where
  "exact_five_accounts accounts = (case accounts of
     [mint, source, authority, vault, token_program] \<Rightarrow>
       if \<not> distinct (map ac_key accounts) then pool_fail InvalidTokenAccount
       else Inr (mint, source, authority, vault, token_program)
   | _ \<Rightarrow> Inl (if length accounts < 5 then NotEnoughAccountKeys else InvalidArgument))"

definition token_program_rejected :: "pool_identity \<Rightarrow> account \<Rightarrow> bool" where
  "token_program_rejected identity token_program \<longleftrightarrow>
     id_token_program identity \<noteq> LEGACY_SPL_TOKEN_PROGRAM_ID \<or> ac_key token_program \<noteq> LEGACY_SPL_TOKEN_PROGRAM_ID
     \<or> \<not> ac_executable token_program \<or> ac_is_signer token_program \<or> ac_is_writable token_program"

definition transfer_checked_data :: "u64 \<Rightarrow> u8 \<Rightarrow> bytes" where
  "transfer_checked_data amount decimals = [SPL_TOKEN_TRANSFER_CHECKED_DISCRIMINANT] @ to_le 8 amount @ [decimals]"

definition plan_legacy_deposit_transfer_from_identity_v1 ::
  "solana \<Rightarrow> bytes \<Rightarrow> bytes \<Rightarrow> pool_identity \<Rightarrow> account list \<Rightarrow> u32 \<Rightarrow> program_error + deposit_transfer_plan" where
  "plan_legacy_deposit_transfer_from_identity_v1 env program_id pool identity accounts amount =
     bindE (exact_five_accounts accounts) (\<lambda>(mint_account, source_account, source_authority, vault_account, token_program).
     if token_program_rejected identity token_program then pool_fail InvalidTokenProgram
     else let expected_mint = id_asset_mint identity
     in if ac_key mint_account \<noteq> expected_mint then pool_fail InvalidMint
     else bindE (require_token_owned_account mint_account False) (\<lambda>_.
     bindE (parse_legacy_mint_v1 (ac_data mint_account)) (\<lambda>mint.
     bindE (require_token_owned_account source_account True) (\<lambda>_.
     bindE (require_token_owned_account vault_account True) (\<lambda>_.
     if \<not> ac_is_signer source_authority \<or> ac_is_writable source_authority \<or> ac_executable source_authority
     then pool_fail InvalidSourceAuthority
     else bindE (parse_legacy_token_account_v1 (ac_data source_account)) (\<lambda>source.
     bindE (parse_legacy_token_account_v1 (ac_data vault_account)) (\<lambda>vault.
     if ta_mint source \<noteq> expected_mint \<or> ta_mint vault \<noteq> expected_mint \<or> ta_authority source \<noteq> ac_key source_authority
     then pool_fail InvalidTokenAccount
     else if ac_key vault_account \<noteq> fst (pool_v1_vault_token_account_address env program_id pool)
     then pool_fail InvalidVaultTokenAddress
     else if ta_authority vault \<noteq> fst (pool_v1_vault_authority_address env program_id pool) then pool_fail InvalidVaultAuthority
     else if ta_has_delegate vault \<or> ta_is_native vault \<or> ta_delegated_amount vault \<noteq> 0 \<or> ta_has_close_authority vault
     then pool_fail UnsupportedTokenConfiguration
     else let amount = ucast amount :: u64
     in bindE (ok_or (pool_error InsufficientDepositFunds) (checked_sub (ta_amount source) amount)) (\<lambda>source_after.
     bindE (ok_or (pool_error ArithmeticOverflow) (checked_add (ta_amount vault) amount)) (\<lambda>vault_after.
     let instruction = \<lparr> ix_program_id = LEGACY_SPL_TOKEN_PROGRAM_ID,
           ix_accounts = [meta_new (ac_key source_account) False, meta_new_readonly (ac_key mint_account) False,
             meta_new (ac_key vault_account) False, meta_new_readonly (ac_key source_authority) True],
           ix_data = transfer_checked_data amount (lm_decimals mint) \<rparr>
     in Inr \<lparr> dp_instruction = instruction, dp_source = ac_key source_account, dp_mint = ac_key mint_account,
               dp_vault = ac_key vault_account, dp_authority = ac_key source_authority, dp_amount = amount,
               dp_source_before = ta_amount source, dp_source_after = source_after, dp_vault_before = ta_amount vault,
               dp_vault_after = vault_after, dp_decimals = lm_decimals mint \<rparr>)))))))))"

definition plan_legacy_deposit_transfer_v1 ::
  "solana \<Rightarrow> bytes \<Rightarrow> bytes \<Rightarrow> pool_state \<Rightarrow> account list \<Rightarrow> u32 \<Rightarrow> program_error + deposit_transfer_plan" where
  "plan_legacy_deposit_transfer_v1 env program_id pool state accounts amount =
     plan_legacy_deposit_transfer_from_identity_v1 env program_id pool (ps_identity state) accounts amount"

definition exact_transfer_account_infos_v1 :: "account list \<Rightarrow> program_error + five_accounts" where
  "exact_transfer_account_infos_v1 accounts =
     bindE (exact_five_accounts accounts) (\<lambda>(mint, source, authority, vault, token_program).
     Inr (source, mint, vault, authority, token_program))"

definition validate_exact_deposit_delta_v1 :: "account list \<Rightarrow> deposit_transfer_plan \<Rightarrow> program_error + unit" where
  "validate_exact_deposit_delta_v1 accounts plan =
     bindE (exact_five_accounts accounts) (\<lambda>(mint_account, source_account, source_authority, vault_account, token_program).
     if ac_key mint_account \<noteq> dp_mint plan \<or> ac_key source_account \<noteq> dp_source plan
        \<or> ac_key source_authority \<noteq> dp_authority plan \<or> ac_key vault_account \<noteq> dp_vault plan
        \<or> ac_key token_program \<noteq> LEGACY_SPL_TOKEN_PROGRAM_ID
     then pool_fail TokenBalanceDeltaMismatch
     else bindE (parse_legacy_token_account_v1 (ac_data source_account)) (\<lambda>source.
     bindE (parse_legacy_token_account_v1 (ac_data vault_account)) (\<lambda>vault.
     if ta_mint source \<noteq> dp_mint plan \<or> ta_mint vault \<noteq> dp_mint plan \<or> ta_authority source \<noteq> dp_authority plan
        \<or> ta_amount source \<noteq> dp_source_after plan \<or> ta_amount vault \<noteq> dp_vault_after plan
     then pool_fail TokenBalanceDeltaMismatch else Inr ())))"

section \<open>Withdrawals\<close>

definition exact_five_withdrawal_accounts :: "account list \<Rightarrow> program_error + five_accounts" where
  "exact_five_withdrawal_accounts accounts = (case accounts of
     [mint, vault, destination, vault_authority, token_program] \<Rightarrow>
       if \<not> distinct (map ac_key accounts) then pool_fail InvalidTokenAccount
       else Inr (mint, vault, destination, vault_authority, token_program)
   | _ \<Rightarrow> Inl (if length accounts < 5 then NotEnoughAccountKeys else InvalidArgument))"

definition plan_legacy_withdrawal_transfer_from_identity_v1 ::
  "solana \<Rightarrow> bytes \<Rightarrow> bytes \<Rightarrow> pool_identity \<Rightarrow> account list \<Rightarrow> bytes \<Rightarrow> u32 \<Rightarrow> program_error + withdrawal_transfer_plan" where
  "plan_legacy_withdrawal_transfer_from_identity_v1 env program_id pool identity accounts destination amount =
     bindE (exact_five_withdrawal_accounts accounts) (\<lambda>(mint_account, vault_account, destination_account, vault_authority, token_program).
     if amount = 0 then pool_fail InvalidWithdrawalAmount
     else if token_program_rejected identity token_program then pool_fail InvalidTokenProgram
     else let expected_mint = id_asset_mint identity
     in if ac_key mint_account \<noteq> expected_mint then pool_fail InvalidMint
     else bindE (require_token_owned_account mint_account False) (\<lambda>_.
     bindE (parse_legacy_mint_v1 (ac_data mint_account)) (\<lambda>mint.
     bindE (require_token_owned_account vault_account True) (\<lambda>_.
     bindE (require_token_owned_account destination_account True) (\<lambda>_.
     let (expected_authority, authority_bump) = pool_v1_vault_authority_address env program_id pool
     in if ac_key vault_authority \<noteq> expected_authority \<or> ac_owner vault_authority \<noteq> system_program_id env
        \<or> ac_executable vault_authority \<or> ac_is_signer vault_authority \<or> ac_is_writable vault_authority
        \<or> ac_data vault_authority \<noteq> []
     then pool_fail InvalidVaultAuthority
     else if ac_key destination_account \<noteq> destination then pool_fail InvalidDestinationTokenAccount
     else bindE (parse_legacy_token_account_v1 (ac_data vault_account)) (\<lambda>vault.
     bindE (parse_legacy_token_account_v1 (ac_data destination_account)) (\<lambda>destination_state.
     if ac_key vault_account \<noteq> fst (pool_v1_vault_token_account_address env program_id pool)
     then pool_fail InvalidVaultTokenAddress
     else if ta_mint vault \<noteq> expected_mint \<or> ta_mint destination_state \<noteq> expected_mint \<or> ta_authority vault \<noteq> expected_authority
     then pool_fail InvalidTokenAccount
     else if ta_has_delegate vault \<or> ta_is_native vault \<or> ta_delegated_amount vault \<noteq> 0 \<or> ta_has_close_authority vault
        \<or> ta_is_native destination_state
     then pool_fail UnsupportedTokenConfiguration
     else let amount = ucast amount :: u64
     in bindE (ok_or (pool_error InsufficientVaultFunds) (checked_sub (ta_amount vault) amount)) (\<lambda>vault_after.
     bindE (ok_or (pool_error ArithmeticOverflow) (checked_add (ta_amount destination_state) amount)) (\<lambda>destination_after.
     let instruction = \<lparr> ix_program_id = LEGACY_SPL_TOKEN_PROGRAM_ID,
           ix_accounts = [meta_new (ac_key vault_account) False, meta_new_readonly (ac_key mint_account) False,
             meta_new (ac_key destination_account) False, meta_new_readonly (ac_key vault_authority) True],
           ix_data = transfer_checked_data amount (lm_decimals mint) \<rparr>
     in Inr \<lparr> wp_instruction = instruction, wp_mint = ac_key mint_account, wp_vault = ac_key vault_account,
               wp_destination = ac_key destination_account, wp_authority = ac_key vault_authority, wp_amount = amount,
               wp_vault_before = ta_amount vault, wp_vault_after = vault_after,
               wp_destination_before = ta_amount destination_state, wp_destination_after = destination_after,
               wp_decimals = lm_decimals mint, wp_authority_bump = authority_bump \<rparr>)))))))))"

definition plan_legacy_withdrawal_transfer_v1 ::
  "solana \<Rightarrow> bytes \<Rightarrow> bytes \<Rightarrow> pool_state \<Rightarrow> account list \<Rightarrow> bytes \<Rightarrow> u32 \<Rightarrow> program_error + withdrawal_transfer_plan" where
  "plan_legacy_withdrawal_transfer_v1 env program_id pool state accounts destination amount =
     plan_legacy_withdrawal_transfer_from_identity_v1 env program_id pool (ps_identity state) accounts destination amount"

definition exact_withdrawal_transfer_account_infos_v1 :: "account list \<Rightarrow> program_error + five_accounts" where
  "exact_withdrawal_transfer_account_infos_v1 accounts =
     bindE (exact_five_withdrawal_accounts accounts) (\<lambda>(mint, vault, destination, vault_authority, token_program).
     Inr (vault, mint, destination, vault_authority, token_program))"

definition validate_exact_withdrawal_delta_v1 :: "account list \<Rightarrow> withdrawal_transfer_plan \<Rightarrow> program_error + unit" where
  "validate_exact_withdrawal_delta_v1 accounts plan =
     bindE (exact_five_withdrawal_accounts accounts) (\<lambda>(mint_account, vault_account, destination_account, vault_authority, token_program).
     if ac_key mint_account \<noteq> wp_mint plan \<or> ac_key vault_account \<noteq> wp_vault plan
        \<or> ac_key destination_account \<noteq> wp_destination plan \<or> ac_key vault_authority \<noteq> wp_authority plan
        \<or> ac_key token_program \<noteq> LEGACY_SPL_TOKEN_PROGRAM_ID
     then pool_fail TokenBalanceDeltaMismatch
     else bindE (parse_legacy_token_account_v1 (ac_data vault_account)) (\<lambda>vault.
     bindE (parse_legacy_token_account_v1 (ac_data destination_account)) (\<lambda>destination.
     if ta_mint vault \<noteq> wp_mint plan \<or> ta_mint destination \<noteq> wp_mint plan \<or> ta_authority vault \<noteq> wp_authority plan
        \<or> ta_amount vault \<noteq> wp_vault_after plan \<or> ta_amount destination \<noteq> wp_destination_after plan
     then pool_fail TokenBalanceDeltaMismatch else Inr ())))"

section \<open>Transfers keep the sum\<close>

lemma five_accounts_iff:
  "exact_five_accounts accounts = Inr (m, s, a, v, p) \<longleftrightarrow> accounts = [m, s, a, v, p] \<and> distinct (map ac_key accounts)"
  "exact_five_withdrawal_accounts accounts = Inr (m, s, a, v, p) \<longleftrightarrow> accounts = [m, s, a, v, p] \<and> distinct (map ac_key accounts)"
  by (auto simp: exact_five_accounts_def exact_five_withdrawal_accounts_def split: list.splits if_splits)

lemma unat_amount: "unat (ucast (amount :: u32) :: u64) = unat amount"
  using unsigned_less [of amount, where 'a = nat] by (simp add: unsigned_ucast_eq take_bit_eq_mod)

text \<open>The balance of a token account, read the way the pool reads it.\<close>

definition token_balance :: "account \<Rightarrow> nat option" where
  "token_balance account = (case parse_legacy_token_account_v1 (ac_data account) of Inr t \<Rightarrow> Some (unat (ta_amount t)) | Inl _ \<Rightarrow> None)"

definition vault_account_ok :: "solana \<Rightarrow> bytes \<Rightarrow> bytes \<Rightarrow> bytes \<Rightarrow> account \<Rightarrow> bool" where
  "vault_account_ok env program_id pool mint account \<longleftrightarrow>
     ac_key account = fst (pool_v1_vault_token_account_address env program_id pool) \<and> ac_owner account = LEGACY_SPL_TOKEN_PROGRAM_ID
     \<and> (\<exists>t. parse_legacy_token_account_v1 (ac_data account) = Inr t \<and> ta_mint t = mint
          \<and> ta_authority t = fst (pool_v1_vault_authority_address env program_id pool)
          \<and> \<not> ta_has_delegate t \<and> \<not> ta_is_native t \<and> ta_delegated_amount t = 0 \<and> \<not> ta_has_close_authority t)"

lemma deposit_plan_facts:
  assumes "plan_legacy_deposit_transfer_from_identity_v1 env program_id pool identity accounts amount = Inr plan"
  obtains m s a v p where "accounts = [m, s, a, v, p]" "distinct (map ac_key accounts)"
    "dp_mint plan = ac_key m" "dp_source plan = ac_key s" "dp_authority plan = ac_key a" "dp_vault plan = ac_key v"
    "ac_key p = LEGACY_SPL_TOKEN_PROGRAM_ID" "ac_key m = id_asset_mint identity" "ac_is_signer a"
    "vault_account_ok env program_id pool (id_asset_mint identity) v"
    "token_balance s = Some (unat (dp_source_before plan))" "token_balance v = Some (unat (dp_vault_before plan))"
    "unat (dp_source_before plan) = unat (dp_source_after plan) + unat amount"
    "unat (dp_vault_after plan) = unat (dp_vault_before plan) + unat amount"
proof -
  from assms obtain m s a v p where accs: "exact_five_accounts accounts = Inr (m, s, a, v, p)"
    by (auto simp: plan_legacy_deposit_transfer_from_identity_v1_def)
  note five = accs [unfolded five_accounts_iff(1)]
  note run = assms [unfolded plan_legacy_deposit_transfer_from_identity_v1_def accs bindE_simps prod.case Let_def]
  show ?thesis
    using run five that [of m s a v p]
    by (auto simp: token_program_rejected_def
        require_token_owned_account_def vault_account_ok_def token_balance_def checked_sub_eq_Some checked_add_eq_Some
        unat_amount unat_sub word_le_nat_alt)
qed

lemma withdrawal_plan_facts:
  assumes "plan_legacy_withdrawal_transfer_from_identity_v1 env program_id pool identity accounts destination amount = Inr plan"
  obtains m v d a p where "accounts = [m, v, d, a, p]" "distinct (map ac_key accounts)"
    "wp_mint plan = ac_key m" "wp_vault plan = ac_key v" "wp_destination plan = ac_key d" "wp_authority plan = ac_key a"
    "ac_key p = LEGACY_SPL_TOKEN_PROGRAM_ID" "ac_key m = id_asset_mint identity" "ac_key d = destination"
    "vault_account_ok env program_id pool (id_asset_mint identity) v" "amount \<noteq> 0"
    "token_balance v = Some (unat (wp_vault_before plan))" "token_balance d = Some (unat (wp_destination_before plan))"
    "unat (wp_vault_before plan) = unat (wp_vault_after plan) + unat amount"
    "unat (wp_destination_after plan) = unat (wp_destination_before plan) + unat amount"
proof -
  from assms obtain m v d a p where accs: "exact_five_withdrawal_accounts accounts = Inr (m, v, d, a, p)"
    by (auto simp: plan_legacy_withdrawal_transfer_from_identity_v1_def)
  note five = accs [unfolded five_accounts_iff(2)]
  obtain k b where addr: "pool_v1_vault_authority_address env program_id pool = (k, b)"
    by (cases "pool_v1_vault_authority_address env program_id pool")
  note run = assms [unfolded plan_legacy_withdrawal_transfer_from_identity_v1_def accs addr bindE_simps prod.case Let_def]
  show ?thesis
    using run five that [of m v d a p]
    by (auto simp: token_program_rejected_def addr
        require_token_owned_account_def vault_account_ok_def token_balance_def checked_sub_eq_Some checked_add_eq_Some
        unat_amount unat_sub word_le_nat_alt)
qed

text \<open>After the transfer the re-read balances are the planned ones, so the two accounts moved exactly the amount.\<close>

lemma deposit_delta_facts:
  assumes "validate_exact_deposit_delta_v1 accounts plan = Inr ()"
  obtains m s a v p where "accounts = [m, s, a, v, p]" "ac_key m = dp_mint plan" "ac_key s = dp_source plan"
    "ac_key a = dp_authority plan" "ac_key v = dp_vault plan" "ac_key p = LEGACY_SPL_TOKEN_PROGRAM_ID"
    "token_balance s = Some (unat (dp_source_after plan))" "token_balance v = Some (unat (dp_vault_after plan))"
proof -
  from assms obtain m s a v p where accs: "exact_five_accounts accounts = Inr (m, s, a, v, p)"
    by (auto simp: validate_exact_deposit_delta_v1_def)
  show ?thesis
    using assms [unfolded validate_exact_deposit_delta_v1_def accs bindE_simps prod.case] accs [unfolded five_accounts_iff(1)]
      that [of m s a v p]
    by (auto simp: token_balance_def)
qed

lemma withdrawal_delta_facts:
  assumes "validate_exact_withdrawal_delta_v1 accounts plan = Inr ()"
  obtains m v d a p where "accounts = [m, v, d, a, p]" "ac_key m = wp_mint plan" "ac_key v = wp_vault plan"
    "ac_key d = wp_destination plan" "ac_key a = wp_authority plan" "ac_key p = LEGACY_SPL_TOKEN_PROGRAM_ID"
    "token_balance v = Some (unat (wp_vault_after plan))" "token_balance d = Some (unat (wp_destination_after plan))"
proof -
  from assms obtain m v d a p where accs: "exact_five_withdrawal_accounts accounts = Inr (m, v, d, a, p)"
    by (auto simp: validate_exact_withdrawal_delta_v1_def)
  show ?thesis
    using assms [unfolded validate_exact_withdrawal_delta_v1_def accs bindE_simps prod.case] accs [unfolded five_accounts_iff(2)]
      that [of m v d a p]
    by (auto simp: token_balance_def)
qed

end
