(* ===== verification/VerifierDispatch.thy ===== *)
theory VerifierDispatch
  imports VerifierSelection DispatchFormats Vault
begin

text \<open>
  The call of the selected verifier, \<open>programs/aspis-pool/src/verifier_dispatch.rs\<close>: the claim read off the proof
  account, the plan that fixes the request and the only result that answers it, and the read-only call. The call
  is a parameter: from the instruction and the two accounts to the return data left after it, or its error; the
  accounts are read-only, so they stay as they are.
\<close>

definition PROOF_LENGTH_OFFSET :: nat where [layout_defs]: "PROOF_LENGTH_OFFSET = 4"
definition PROOF_AUTHORITY_OFFSET :: nat where [layout_defs]: "PROOF_AUTHORITY_OFFSET = 8"

record verifier_dispatch_claim =
  vc_verifier_program :: bytes
  vc_proof_account :: bytes
  vc_proof_body_digest :: bytes
  vc_proof_body_length :: u32

definition proof_header_rejected :: "bytes \<Rightarrow> bool" where
  "proof_header_rejected data \<longleftrightarrow> length data < POOL_V1_VERIFIER_PROOF_ACCOUNT_HEADER_BYTES
     \<or> seg 0 4 data \<noteq> POOL_V1_VERIFIER_PROOF_ACCOUNT_MAGIC
     \<or> (\<exists>byte \<in> set (seg PROOF_AUTHORITY_OFFSET POOL_V1_VERIFIER_PROOF_ACCOUNT_HEADER_BYTES data). byte \<noteq> 0)"

definition derive_verifier_dispatch_claim_v1 :: "account \<Rightarrow> account \<Rightarrow> hash_fn \<Rightarrow> program_error + verifier_dispatch_claim" where
  "derive_verifier_dispatch_claim_v1 verifier_program_account proof_account hash =
     (let data = ac_data proof_account
      in if proof_header_rejected data then pool_fail InvalidVerifierProofAccount
         else let proof_body_length = from_le (seg PROOF_LENGTH_OFFSET PROOF_AUTHORITY_OFFSET data)
         in if proof_body_length = 0 then pool_fail VerifierProofBindingMismatch
         else let body_end = POOL_V1_VERIFIER_PROOF_ACCOUNT_HEADER_BYTES + unat proof_body_length
         in if length data < body_end then pool_fail VerifierProofBindingMismatch
         else let proof_body = seg POOL_V1_VERIFIER_PROOF_ACCOUNT_HEADER_BYTES body_end data
         in Inr \<lparr> vc_verifier_program = ac_key verifier_program_account, vc_proof_account = ac_key proof_account,
                   vc_proof_body_digest = verifier_proof_body_digest_v1 proof_body hash,
                   vc_proof_body_length = proof_body_length \<rparr>)"

record planned_verifier_dispatch =
  pv_envelope :: anchor_envelope
  pv_registry_generation :: u64
  pv_request_binding :: dispatch_binding
  pv_request_bytes :: bytes
  pv_expected_result :: dispatch_result
  pv_expected_result_bytes :: bytes

definition supported_verifier_loader :: "solana \<Rightarrow> bytes \<Rightarrow> bool" where
  "supported_verifier_loader env owner \<longleftrightarrow>
     owner = bpf_loader_id env \<or> owner = bpf_loader_upgradeable_id env \<or> owner = loader_v4_id env"

definition require_selected_verifier_program_account :: "solana \<Rightarrow> account \<Rightarrow> bytes \<Rightarrow> program_error + unit" where
  "require_selected_verifier_program_account env account selected_program =
     (if ac_key account \<noteq> selected_program \<or> \<not> ac_executable account \<or> ac_is_signer account \<or> ac_is_writable account
         \<or> \<not> supported_verifier_loader env (ac_owner account)
      then pool_fail InvalidVerifierProgramAccount else Inr ())"

definition authenticate_proof_account_body_v1 ::
  "account \<Rightarrow> bytes \<Rightarrow> bytes \<Rightarrow> verifier_dispatch_claim \<Rightarrow> hash_fn \<Rightarrow> program_error + unit" where
  "authenticate_proof_account_body_v1 account selected_program pool claim hash =
     (if ac_key account \<noteq> vc_proof_account claim \<or> ac_key account = selected_program \<or> ac_key account = pool
         \<or> ac_owner account \<noteq> selected_program \<or> ac_executable account \<or> ac_is_signer account \<or> ac_is_writable account
      then pool_fail InvalidVerifierProofAccount
      else let data = ac_data account
      in if proof_header_rejected data then pool_fail InvalidVerifierProofAccount
      else let declared_length = from_le (seg PROOF_LENGTH_OFFSET (PROOF_LENGTH_OFFSET + 4) data)
      in if declared_length = 0 \<or> declared_length \<noteq> vc_proof_body_length claim then pool_fail VerifierProofBindingMismatch
      else let body_end = POOL_V1_VERIFIER_PROOF_ACCOUNT_HEADER_BYTES + unat declared_length
      in if length data < body_end then pool_fail VerifierProofBindingMismatch
      else let body = seg POOL_V1_VERIFIER_PROOF_ACCOUNT_HEADER_BYTES body_end data
      in if verifier_proof_body_digest_v1 body hash \<noteq> vc_proof_body_digest claim then pool_fail VerifierProofBindingMismatch
      else Inr ())"

definition plan_authenticated_verifier_dispatch_v1 ::
  "solana \<Rightarrow> bytes \<Rightarrow> bytes \<Rightarrow> verifier_policy \<Rightarrow> account list \<Rightarrow> account \<Rightarrow> account \<Rightarrow> bytes \<Rightarrow> bytes
     \<Rightarrow> verifier_dispatch_claim \<Rightarrow> u64 \<Rightarrow> hash_fn \<Rightarrow> program_error + planned_verifier_dispatch" where
  "plan_authenticated_verifier_dispatch_v1 env pool expected_deployment_domain policy registry_accounts
       verifier_program_account proof_account encoded_envelope statement_payload claim current_slot hash =
     bindE (map_err (\<lambda>_. pool_error InvalidVerifierDispatchEnvelope) (decode_historical_anchor_envelope_v1 encoded_envelope)) (\<lambda>envelope.
     if ae_pool envelope \<noteq> pool \<or> ae_deployment_domain envelope \<noteq> expected_deployment_domain
     then pool_fail VerifierDispatchIdentityMismatch
     else let selected_program = vc_verifier_program claim
     in bindE (authenticate_verifier_selection_v1 env pool policy registry_accounts
         \<lparr> vs_verifier_program = vc_verifier_program claim, vs_profile_binding = ae_verifier_profile envelope,
            vs_release_binding = ae_verifier_release envelope, vs_statement_version = POOL_V1_HISTORICAL_ANCHOR_VERSION \<rparr>
         current_slot) (\<lambda>authenticated_selection.
     bindE (require_selected_verifier_program_account env verifier_program_account selected_program) (\<lambda>_.
     if \<not> matches_verifier_owner authenticated_selection (ac_owner verifier_program_account)
     then pool_fail InvalidVerifierProgramAccount
     else bindE (authenticate_proof_account_body_v1 proof_account selected_program pool claim hash) (\<lambda>_.
     if \<not> selection_matches authenticated_selection (ae_pool envelope) (vc_verifier_program claim)
          (ae_verifier_profile envelope) (ae_verifier_release envelope) POOL_V1_HISTORICAL_ANCHOR_VERSION
     then pool_fail VerifierDispatchIdentityMismatch
     else bindE (map_err (\<lambda>_. pool_error VerifierDispatchIdentityMismatch)
         (verifier_dispatch_binding_from_envelope_v1 (vc_verifier_program claim) envelope statement_payload
           (vc_proof_account claim) (vc_proof_body_digest claim) (vc_proof_body_length claim) hash)) (\<lambda>binding.
     let request = \<lparr> dq_binding = binding, dq_statement_payload = statement_payload \<rparr>
     in bindE (map_err (\<lambda>_. pool_error VerifierDispatchIdentityMismatch)
         (encode_verifier_dispatch_request_v1 request hash)) (\<lambda>request_bytes.
     let expected_result = \<lparr> ds_success_code = POOL_V1_VERIFIER_DISPATCH_SUCCESS_CODE, ds_binding = binding \<rparr>
     in bindE (map_err (\<lambda>_. pool_error VerifierDispatchIdentityMismatch)
         (encode_verifier_dispatch_result_v1 expected_result)) (\<lambda>expected_result_bytes.
     Inr \<lparr> pv_envelope = envelope, pv_registry_generation = as_registry_generation authenticated_selection,
            pv_request_binding = binding, pv_request_bytes = request_bytes, pv_expected_result = expected_result,
            pv_expected_result_bytes = expected_result_bytes \<rparr>)))))))"

definition authenticate_verifier_return_data_v1 :: "planned_verifier_dispatch \<Rightarrow> bytes \<Rightarrow> bytes \<Rightarrow> program_error + unit" where
  "authenticate_verifier_return_data_v1 expected returned_program_id returned_data =
     (let selected_program = vb_verifier_program (pv_request_binding expected)
      in if returned_program_id \<noteq> selected_program then pool_fail InvalidVerifierReturnProgram
      else if length returned_data \<noteq> POOL_V1_VERIFIER_DISPATCH_RESULT_BYTES then pool_fail InvalidVerifierReturnData
      else bindE (map_err (\<lambda>_. pool_error InvalidVerifierReturnData) (decode_verifier_dispatch_result_v1 returned_data)) (\<lambda>returned.
      if returned \<noteq> pv_expected_result expected \<or> returned_data \<noteq> pv_expected_result_bytes expected
      then pool_fail VerifierResultBindingMismatch else Inr ()))"

definition require_exact_readonly_cpi_accounts_v1 ::
  "solana \<Rightarrow> planned_verifier_dispatch \<Rightarrow> account \<Rightarrow> account \<Rightarrow> program_error + bytes" where
  "require_exact_readonly_cpi_accounts_v1 env plan verifier_program_account proof_account =
     (let selected_program = vb_verifier_program (pv_request_binding plan)
      in bindE (require_selected_verifier_program_account env verifier_program_account selected_program) (\<lambda>_.
      if ac_key proof_account \<noteq> vb_proof_account (pv_request_binding plan) \<or> ac_owner proof_account \<noteq> selected_program
         \<or> ac_executable proof_account \<or> ac_is_signer proof_account \<or> ac_is_writable proof_account
         \<or> ds_binding (pv_expected_result plan) \<noteq> pv_request_binding plan
      then pool_fail InvalidVerifierProofAccount else Inr selected_program))"

type_synonym verifier_call = "instruction \<Rightarrow> account \<times> account \<Rightarrow> program_error + (bytes \<times> bytes) option"

definition invoke_freshly_planned_verifier_v1 ::
  "solana \<Rightarrow> verifier_call \<Rightarrow> planned_verifier_dispatch \<Rightarrow> account \<Rightarrow> account \<Rightarrow> program_error + planned_verifier_dispatch" where
  "invoke_freshly_planned_verifier_v1 env invoke plan verifier_program_account proof_account =
     bindE (require_exact_readonly_cpi_accounts_v1 env plan verifier_program_account proof_account) (\<lambda>selected_program.
     let instruction = \<lparr> ix_program_id = selected_program, ix_accounts = [meta_new_readonly (ac_key proof_account) False],
           ix_data = pv_request_bytes plan \<rparr>
     in bindE (invoke instruction (proof_account, verifier_program_account)) (\<lambda>return_data.
     bindE (ok_or (pool_error MissingVerifierReturnData) return_data) (\<lambda>returned.
     bindE (authenticate_verifier_return_data_v1 plan (fst returned) (snd returned)) (\<lambda>_.
     Inr plan))))"

definition dispatch_authenticated_verifier_readonly_v1 ::
  "solana \<Rightarrow> verifier_call \<Rightarrow> bytes \<Rightarrow> bytes \<Rightarrow> verifier_policy \<Rightarrow> account list \<Rightarrow> account \<Rightarrow> account \<Rightarrow> bytes \<Rightarrow> bytes
     \<Rightarrow> verifier_dispatch_claim \<Rightarrow> u64 \<Rightarrow> hash_fn \<Rightarrow> program_error + planned_verifier_dispatch" where
  "dispatch_authenticated_verifier_readonly_v1 env invoke pool expected_deployment_domain policy registry_accounts
       verifier_program_account proof_account encoded_envelope statement_payload claim current_slot hash =
     bindE (plan_authenticated_verifier_dispatch_v1 env pool expected_deployment_domain policy registry_accounts
         verifier_program_account proof_account encoded_envelope statement_payload claim current_slot hash) (\<lambda>plan.
     invoke_freshly_planned_verifier_v1 env invoke plan verifier_program_account proof_account)"

section \<open>What an answered call means\<close>

text \<open>
  The verifier program has answered the exact request with the success result of its binding: the binding carries
  the envelope, the digest of the statement bytes and of the proof body.
\<close>

definition verified :: "verifier_call \<Rightarrow> hash_fn \<Rightarrow> anchor_envelope \<Rightarrow> bytes \<Rightarrow> account \<Rightarrow> account \<Rightarrow> bool" where
  "verified invoke hash e payload program proof \<longleftrightarrow> (\<exists>binding request result.
     verifier_dispatch_binding_from_envelope_v1 (ac_key program) e payload (ac_key proof)
       (hash [take (unat (from_le (seg 4 8 (ac_data proof)) :: u32)) (drop 40 (ac_data proof))]) (from_le (seg 4 8 (ac_data proof))) hash = Inr binding
     \<and> encode_verifier_dispatch_request_v1 \<lparr> dq_binding = binding, dq_statement_payload = payload \<rparr> hash = Inr request
     \<and> encode_verifier_dispatch_result_v1 \<lparr> ds_success_code = POOL_V1_VERIFIER_DISPATCH_SUCCESS_CODE, ds_binding = binding \<rparr> = Inr result
     \<and> invoke \<lparr> ix_program_id = ac_key program, ix_accounts = [meta_new_readonly (ac_key proof) False], ix_data = request \<rparr> (proof, program)
         = Inr (Some (ac_key program, result)))"

lemma dispatch_facts:
  assumes run: "dispatch_authenticated_verifier_readonly_v1 env invoke pool domain policy registry program proof envelope_bytes payload claim slot hash = Inr plan"
    and claim: "derive_verifier_dispatch_claim_v1 program proof hash = Inr claim"
    and dec: "decode_historical_anchor_envelope_v1 envelope_bytes = Inr e"
  shows "verified invoke hash e payload program proof" "ac_owner proof = ac_key program" "ac_executable program"
    "\<exists>selection. authenticate_verifier_selection_v1 env pool policy registry \<lparr> vs_verifier_program = ac_key program,
       vs_profile_binding = ae_verifier_profile e, vs_release_binding = ae_verifier_release e, vs_statement_version = 1 \<rparr> slot = Inr selection
       \<and> as_registry_generation selection = pv_registry_generation plan"
    "ae_pool e = pool" "ae_deployment_domain e = domain"
proof -
  let ?len = "from_le (seg 4 8 (ac_data proof)) :: u32"
  from claim have c: "vc_verifier_program claim = ac_key program" "vc_proof_account claim = ac_key proof" "vc_proof_body_length claim = ?len"
      "vc_proof_body_digest claim = hash [take (unat ?len) (drop 40 (ac_data proof))]"
    by (auto simp: derive_verifier_dispatch_claim_v1_def Let_def layout_defs verifier_proof_body_digest_v1_def seg_def split: if_splits)
  from run obtain p where plan: "plan_authenticated_verifier_dispatch_v1 env pool domain policy registry program proof envelope_bytes payload claim slot hash = Inr p"
    and inv: "invoke_freshly_planned_verifier_v1 env invoke p program proof = Inr plan"
    by (auto simp: dispatch_authenticated_verifier_readonly_v1_def)
  from inv obtain returned where "p = plan" and cpi: "require_exact_readonly_cpi_accounts_v1 env plan program proof = Inr (vb_verifier_program (pv_request_binding plan))"
      "invoke \<lparr> ix_program_id = vb_verifier_program (pv_request_binding plan), ix_accounts = [meta_new_readonly (ac_key proof) False],
         ix_data = pv_request_bytes plan \<rparr> (proof, program) = Inr (Some returned)"
      "authenticate_verifier_return_data_v1 plan (fst returned) (snd returned) = Inr ()"
    by (auto simp: invoke_freshly_planned_verifier_v1_def Let_def ok_or_def require_exact_readonly_cpi_accounts_v1_def split: option.splits if_splits)
  from plan [unfolded plan_authenticated_verifier_dispatch_v1_def dec map_err_simps bindE_simps c Let_def] \<open>p = plan\<close>
  obtain selection binding where e: "ae_pool e = pool" "ae_deployment_domain e = domain"
    and sel: "authenticate_verifier_selection_v1 env pool policy registry \<lparr> vs_verifier_program = ac_key program,
       vs_profile_binding = ae_verifier_profile e, vs_release_binding = ae_verifier_release e,
       vs_statement_version = POOL_V1_HISTORICAL_ANCHOR_VERSION \<rparr> slot = Inr selection"
    and program: "require_selected_verifier_program_account env program (ac_key program) = Inr ()"
    and body: "authenticate_proof_account_body_v1 proof (ac_key program) pool claim hash = Inr ()"
    and bind: "verifier_dispatch_binding_from_envelope_v1 (ac_key program) e payload (ac_key proof)
       (hash [take (unat ?len) (drop 40 (ac_data proof))]) ?len hash = Inr binding"
    and req: "encode_verifier_dispatch_request_v1 \<lparr> dq_binding = binding, dq_statement_payload = payload \<rparr> hash = Inr (pv_request_bytes plan)"
    and res: "encode_verifier_dispatch_result_v1 \<lparr> ds_success_code = POOL_V1_VERIFIER_DISPATCH_SUCCESS_CODE, ds_binding = binding \<rparr>
       = Inr (pv_expected_result_bytes plan)"
    and fields: "pv_request_binding plan = binding" "pv_registry_generation plan = as_registry_generation selection"
    by (auto split: if_splits)
  have prog: "vb_verifier_program binding = ac_key program" by (rule binding_from_envelope(7) [OF bind])
  have "fst returned = ac_key program" "snd returned = pv_expected_result_bytes plan"
    using cpi(3) by (auto simp: authenticate_verifier_return_data_v1_def Let_def fields(1) prog split: if_splits)
  then have "returned = (ac_key program, pv_expected_result_bytes plan)" by (cases returned) simp
  with cpi(2) bind req res show "verified invoke hash e payload program proof"
    unfolding verified_def fields(1) prog by blast
  show "ac_owner proof = ac_key program" "ac_executable program"
    using body program by (auto simp: authenticate_proof_account_body_v1_def require_selected_verifier_program_account_def split: if_splits)
  show "\<exists>selection. authenticate_verifier_selection_v1 env pool policy registry \<lparr> vs_verifier_program = ac_key program,
       vs_profile_binding = ae_verifier_profile e, vs_release_binding = ae_verifier_release e, vs_statement_version = 1 \<rparr> slot = Inr selection
       \<and> as_registry_generation selection = pv_registry_generation plan"
    using sel fields(2) by (simp add: POOL_V1_HISTORICAL_ANCHOR_VERSION_def)
  show "ae_pool e = pool" "ae_deployment_domain e = domain" by (rule e)+
qed

end
