(* ===== verification/Spend.thy ===== *)
theory Spend
  imports IncrementalMerkle
begin

text \<open>
  The spend relation of \<open>crates/aspis-statement/src/spend.rs\<close>, evaluated without a proof: key, nullifier and note
  derivations, the authentication path, and the evaluator in its two forms, with direct range checks and with
  10-bit limbs. The evaluator is shown to decide the relation over natural numbers, and the two forms to accept the
  same spends.
\<close>

section \<open>Constants and data\<close>

definition RANGE_LIMB_BITS :: nat where "RANGE_LIMB_BITS = 10"
definition VALUE_LIMIT :: u32 where "VALUE_LIMIT = push_bit 30 1"
definition RANGE_LIMB_LIMIT :: u16 where "RANGE_LIMB_LIMIT = push_bit RANGE_LIMB_BITS 1"
definition RANGE_LIMBS_PER_VALUE :: nat where "RANGE_LIMBS_PER_VALUE = 3"

record merkle_path =
  mp_siblings :: "digest list"
  mp_index :: u32

record spend_public =
  sp_anchor :: digest
  sp_nullifier :: digest
  sp_output_commitment :: digest
  sp_asset_id :: m31
  sp_fee :: u32

record spend_witness =
  sw_nullifier_key :: digest
  sw_input_salt :: digest
  sw_output_salt :: digest
  sw_output_owner_key :: digest
  sw_input_asset_id :: m31
  sw_value :: u32
  sw_value_out :: u32
  sw_merkle_path :: merkle_path

record range_lookup_witness =
  rl_input_value_limbs :: "u16 list"
  rl_output_value_limbs :: "u16 list"

record evaluation_context =
  ec_merkle_depth :: nat
  ec_spent_nullifiers :: "digest list"

datatype spend_error =
  MerkleDepthMismatch | MerkleIndexOutOfRange | AssetMismatch | InputValueOutOfRange | OutputValueOutOfRange
  | FeeOutOfRange | BalanceMismatch | AnchorMismatch | NullifierMismatch | OutputCommitmentMismatch
  | NullifierAlreadySpent | RangeLookupLimbOutOfRange | RangeLookupReconstructionMismatch

section \<open>Derivations\<close>

type_synonym field_hash = "m31 \<Rightarrow> m31 list \<Rightarrow> digest"

definition decompose_10bit_limbs :: "u32 \<Rightarrow> u16 list" where
  "decompose_10bit_limbs value =
     (let mask = ucast RANGE_LIMB_LIMIT - 1
      in map (\<lambda>index. ucast (drop_bit (index * RANGE_LIMB_BITS) value AND mask)) [0..<RANGE_LIMBS_PER_VALUE])"

definition from_spend :: "spend_witness \<Rightarrow> range_lookup_witness" where
  "from_spend witness = \<lparr> rl_input_value_limbs = decompose_10bit_limbs (sw_value witness),
     rl_output_value_limbs = decompose_10bit_limbs (sw_value_out witness) \<rparr>"

definition verify_10bit_range_lookup :: "u32 \<Rightarrow> u16 list \<Rightarrow> spend_error + unit" where
  "verify_10bit_range_lookup value limbs =
     (if \<exists>limb \<in> set limbs. RANGE_LIMB_LIMIT \<le> limb then Inl RangeLookupLimbOutOfRange
      else let reconstructed = fold (\<lambda>(index, limb) acc. acc + push_bit (index * RANGE_LIMB_BITS) (ucast limb)) (enumerate 0 limbs) 0
           in if reconstructed \<noteq> value then Inl RangeLookupReconstructionMismatch else Inr ())"

definition derive_owner_key_with :: "digest \<Rightarrow> field_hash \<Rightarrow> digest" where
  "derive_owner_key_with nullifier_key hash = hash DOMAIN_OWNER_KEY nullifier_key"

definition derive_nullifier_with :: "digest \<Rightarrow> digest \<Rightarrow> field_hash \<Rightarrow> digest" where
  "derive_nullifier_with nullifier_key salt hash = hash DOMAIN_NULLIFIER (nullifier_key @ salt)"

definition derive_owner_key :: "digest \<Rightarrow> digest" where
  "derive_owner_key nullifier_key = derive_owner_key_with nullifier_key hash_fields"

definition derive_nullifier :: "digest \<Rightarrow> digest \<Rightarrow> digest" where
  "derive_nullifier nullifier_key salt = derive_nullifier_with nullifier_key salt hash_fields"

definition note_commitment_with :: "digest \<Rightarrow> u32 \<Rightarrow> m31 \<Rightarrow> digest \<Rightarrow> field_hash \<Rightarrow> digest" where
  "note_commitment_with owner_key value asset_id salt hash =
     hash DOMAIN_NOTE (owner_key @ [M31 value] @ [asset_id] @ salt)"

definition note_commitment :: "digest \<Rightarrow> u32 \<Rightarrow> m31 \<Rightarrow> digest \<Rightarrow> digest" where
  "note_commitment owner_key value asset_id salt = note_commitment_with owner_key value asset_id salt hash_fields"

definition output_commitment_with_domain :: "m31 \<Rightarrow> digest \<Rightarrow> u32 \<Rightarrow> m31 \<Rightarrow> digest \<Rightarrow> field_hash \<Rightarrow> digest" where
  "output_commitment_with_domain domain owner_key value asset_id salt hash =
     hash domain (owner_key @ [M31 value] @ [asset_id] @ salt)"

definition output_commitment_with :: "digest \<Rightarrow> u32 \<Rightarrow> m31 \<Rightarrow> digest \<Rightarrow> field_hash \<Rightarrow> digest" where
  "output_commitment_with owner_key value asset_id salt hash =
     output_commitment_with_domain DOMAIN_NOTE owner_key value asset_id salt hash"

definition output_commitment :: "digest \<Rightarrow> u32 \<Rightarrow> m31 \<Rightarrow> digest \<Rightarrow> digest" where
  "output_commitment owner_key value asset_id salt = output_commitment_with owner_key value asset_id salt hash_fields"

definition merkle_parent_with :: "digest \<Rightarrow> digest \<Rightarrow> field_hash \<Rightarrow> digest" where
  "merkle_parent_with left right hash = hash DOMAIN_MERKLE_NODE (left @ right)"

text \<open>A 32-bit shift by more than 31 places takes the amount modulo 32, as release builds do; debug builds stop there.\<close>

definition merkle_root_with :: "digest \<Rightarrow> merkle_path \<Rightarrow> field_hash \<Rightarrow> spend_error + digest" where
  "merkle_root_with leaf path hash =
     (if length (mp_siblings path) < 32 \<and> drop_bit (length (mp_siblings path)) (mp_index path) \<noteq> 0 then Inl MerkleIndexOutOfRange
      else Inr (fold (\<lambda>(level, sibling) current.
             if drop_bit (level mod 32) (mp_index path) AND 1 = 0 then merkle_parent_with current sibling hash
             else merkle_parent_with sibling current hash)
           (enumerate 0 (mp_siblings path)) leaf))"

definition merkle_path_root :: "digest \<Rightarrow> merkle_path \<Rightarrow> spend_error + digest" where
  "merkle_path_root leaf path = merkle_root_with leaf path hash_fields"

text \<open>The names of the pool: its notes and nullifiers are those of the spend relation.\<close>

definition pool_v1_note_commitment :: "digest \<Rightarrow> u32 \<Rightarrow> m31 \<Rightarrow> digest \<Rightarrow> digest" where
  "pool_v1_note_commitment owner_key value asset_id salt = note_commitment owner_key value asset_id salt"

definition pool_v1_nullifier :: "digest \<Rightarrow> digest \<Rightarrow> digest" where
  "pool_v1_nullifier nullifier_key salt = derive_nullifier nullifier_key salt"

section \<open>The evaluator\<close>

definition validate_shape_and_asset :: "spend_public \<Rightarrow> spend_witness \<Rightarrow> evaluation_context \<Rightarrow> spend_error + unit" where
  "validate_shape_and_asset public w context =
     (if length (mp_siblings (sw_merkle_path w)) \<noteq> ec_merkle_depth context then Inl MerkleDepthMismatch
      else if ec_merkle_depth context < 32 \<and> drop_bit (ec_merkle_depth context) (mp_index (sw_merkle_path w)) \<noteq> 0
      then Inl MerkleIndexOutOfRange
      else if sw_input_asset_id w \<noteq> sp_asset_id public then Inl AssetMismatch
      else Inr ())"

definition evaluate_spend_after_value_checks_with ::
  "spend_public \<Rightarrow> spend_witness \<Rightarrow> evaluation_context \<Rightarrow> field_hash \<Rightarrow> spend_error + unit" where
  "evaluate_spend_after_value_checks_with public w context hash =
     (if VALUE_LIMIT \<le> sp_fee public then Inl FeeOutOfRange
      else if checked_add (sw_value_out w) (sp_fee public) \<noteq> Some (sw_value w) then Inl BalanceMismatch
      else let owner_key = derive_owner_key_with (sw_nullifier_key w) hash;
               note = note_commitment_with owner_key (sw_value w) (sw_input_asset_id w) (sw_input_salt w) hash
      in bindE (merkle_root_with note (sw_merkle_path w) hash) (\<lambda>root.
         if root \<noteq> sp_anchor public then Inl AnchorMismatch
         else if derive_nullifier_with (sw_nullifier_key w) (sw_input_salt w) hash \<noteq> sp_nullifier public then Inl NullifierMismatch
         else if output_commitment_with (sw_output_owner_key w) (sw_value_out w) (sp_asset_id public) (sw_output_salt w) hash
                 \<noteq> sp_output_commitment public
         then Inl OutputCommitmentMismatch
         else if \<exists>spent \<in> set (ec_spent_nullifiers context). spent = sp_nullifier public then Inl NullifierAlreadySpent
         else Inr ()))"

definition evaluate_spend_after_value_checks :: "spend_public \<Rightarrow> spend_witness \<Rightarrow> evaluation_context \<Rightarrow> spend_error + unit" where
  "evaluate_spend_after_value_checks public w context = evaluate_spend_after_value_checks_with public w context hash_fields"

definition evaluate_spend :: "spend_public \<Rightarrow> spend_witness \<Rightarrow> evaluation_context \<Rightarrow> spend_error + unit" where
  "evaluate_spend public w context =
     bindE (validate_shape_and_asset public w context) (\<lambda>_.
     if VALUE_LIMIT \<le> sw_value w then Inl InputValueOutOfRange
     else if VALUE_LIMIT \<le> sw_value_out w then Inl OutputValueOutOfRange
     else evaluate_spend_after_value_checks public w context)"

definition evaluate_spend_with_range_lookup_and_hasher ::
  "spend_public \<Rightarrow> spend_witness \<Rightarrow> range_lookup_witness \<Rightarrow> evaluation_context \<Rightarrow> field_hash \<Rightarrow> spend_error + unit" where
  "evaluate_spend_with_range_lookup_and_hasher public w range_witness context hash =
     bindE (validate_shape_and_asset public w context) (\<lambda>_.
     bindE (verify_10bit_range_lookup (sw_value w) (rl_input_value_limbs range_witness)) (\<lambda>_.
     bindE (verify_10bit_range_lookup (sw_value_out w) (rl_output_value_limbs range_witness)) (\<lambda>_.
     evaluate_spend_after_value_checks_with public w context hash)))"

definition evaluate_spend_with_range_lookup ::
  "spend_public \<Rightarrow> spend_witness \<Rightarrow> range_lookup_witness \<Rightarrow> evaluation_context \<Rightarrow> spend_error + unit" where
  "evaluate_spend_with_range_lookup public w range_witness context =
     bindE (validate_shape_and_asset public w context) (\<lambda>_.
     bindE (verify_10bit_range_lookup (sw_value w) (rl_input_value_limbs range_witness)) (\<lambda>_.
     bindE (verify_10bit_range_lookup (sw_value_out w) (rl_output_value_limbs range_witness)) (\<lambda>_.
     evaluate_spend_after_value_checks public w context)))"

section \<open>Range limbs\<close>

lemma limb_limit: "unat RANGE_LIMB_LIMIT = 1024" "unat VALUE_LIMIT = 2 ^ 30"
  by (simp_all add: RANGE_LIMB_LIMIT_def RANGE_LIMB_BITS_def VALUE_LIMIT_def push_bit_eq_mult)

lemma unat_limb:
  "unat (ucast (drop_bit k v AND (ucast RANGE_LIMB_LIMIT - 1)) :: u16) = unat (v :: u32) div 2 ^ k mod 1024"
proof -
  have "(ucast RANGE_LIMB_LIMIT - 1 :: u32) = mask 10"
    by (simp add: RANGE_LIMB_LIMIT_def RANGE_LIMB_BITS_def push_bit_eq_mult mask_eq_decr_exp)
  then have "unat (drop_bit k v AND (ucast RANGE_LIMB_LIMIT - 1)) = unat v div 2 ^ k mod 1024"
    by (simp flip: take_bit_eq_mask add: unsigned_take_bit_eq unat_drop_bit_eq) (simp add: take_bit_eq_mod drop_bit_eq_div)
  then show ?thesis by (simp add: unsigned_ucast_eq take_bit_eq_mod)
qed

lemma unat_decompose:
  "map unat (decompose_10bit_limbs v) = [unat v mod 1024, unat v div 1024 mod 1024, unat v div 1048576 mod 1024]"
  by (simp add: decompose_10bit_limbs_def RANGE_LIMBS_PER_VALUE_def RANGE_LIMB_BITS_def upt_rec Let_def unat_limb unat_limb [where k = 0, simplified]
      unsigned_drop_bit_eq drop_bit_eq_div unat_div_distrib)

lemma limbs_sum:
  assumes "a < 1024" "b < 1024" "c < 1024" "unat x = a" "unat y = b" "unat z = c"
  shows "unat (fold (\<lambda>(index, limb) acc. acc + push_bit (index * RANGE_LIMB_BITS) (ucast limb)) (enumerate 0 [x, y, z]) (0 :: u32))
    = a + 1024 * b + 1048576 * (c :: nat)"
proof -
  have "unat (ucast x :: u32) = a" "unat (ucast y :: u32) = b" "unat (ucast z :: u32) = c"
    using assms by (simp_all add: unsigned_ucast_eq take_bit_eq_mod)
  moreover have "a + 1024 * b + 1048576 * c < 2 ^ 32" using assms(1-3) by simp
  ultimately show ?thesis
    using assms(1-3) by (simp add: RANGE_LIMB_BITS_def push_bit_eq_mult unat_word_ariths)
qed

lemma three_digits:
  fixes a b c n :: nat
  shows "a < 1024 \<and> b < 1024 \<and> c < 1024 \<and> a + 1024 * b + 1048576 * c = n
    \<longleftrightarrow> n < 2 ^ 30 \<and> a = n mod 1024 \<and> b = n div 1024 mod 1024 \<and> c = n div 1048576 mod 1024" (is "?L \<longleftrightarrow> ?R")
proof -
  have twice: "n div 1048576 = n div 1024 div 1024" by (simp flip: div_mult2_eq)
  show ?thesis
  proof
    assume L: ?L
    define m where "m = b + 1024 * c"
    from L have "n = 1024 * m + a" by (simp add: m_def)
    with L have "n mod 1024 = a" "n div 1024 = m" by simp_all
    with L show ?R by (simp add: twice m_def)
  next
    assume R: ?R
    then have top: "n div 1048576 < 1024" by (simp add: less_mult_imp_div_less)
    with R have c: "c = n div 1048576" by simp
    have "1024 * (n div 1024) + n mod 1024 = n" "1024 * (n div 1048576) + n div 1024 mod 1024 = n div 1024"
      unfolding twice by (rule mult_div_mod_eq)+
    with R top c have "a + 1024 * b + 1048576 * c = n" by linarith
    with R top c show ?L by simp
  qed
qed

text \<open>The limb check accepts exactly the decomposition of a value in range.\<close>

lemma range_lookup_eq:
  assumes "length limbs = 3"
  shows "verify_10bit_range_lookup v limbs = Inr () \<longleftrightarrow> v < VALUE_LIMIT \<and> limbs = decompose_10bit_limbs v"
proof -
  obtain x y z where limbs: "limbs = [x, y, z]" using assms by (auto simp: length_Suc_conv numeral_3_eq_3)
  have inj: "inj (unat :: u16 \<Rightarrow> nat)" by (rule injI) (simp add: word_unat_eq_iff)
  let ?a = "unat x" and ?b = "unat y" and ?c = "unat z" and ?n = "unat v"
  have small: "(\<exists>limb \<in> set limbs. RANGE_LIMB_LIMIT \<le> limb) \<longleftrightarrow> \<not> (?a < 1024 \<and> ?b < 1024 \<and> ?c < 1024)"
    by (auto simp: limbs word_le_nat_alt limb_limit not_less)
  have dec: "limbs = decompose_10bit_limbs v \<longleftrightarrow> ?a = ?n mod 1024 \<and> ?b = ?n div 1024 mod 1024 \<and> ?c = ?n div 1048576 mod 1024"
    using inj_map_eq_map [OF inj, of limbs "decompose_10bit_limbs v"] unfolding unat_decompose by (simp add: limbs)
  have sum: "unat (fold (\<lambda>(index, limb) acc. acc + push_bit (index * RANGE_LIMB_BITS) (ucast limb)) (enumerate 0 limbs) (0 :: u32))
      = ?a + 1024 * ?b + 1048576 * ?c" if "?a < 1024" "?b < 1024" "?c < 1024"
    using that limbs_sum [of ?a ?b ?c x y z] limbs by simp
  have digits: "?a < 1024 \<and> ?b < 1024 \<and> ?c < 1024 \<and> ?a + 1024 * ?b + 1048576 * ?c = ?n
      \<longleftrightarrow> ?n < 2 ^ 30 \<and> ?a = ?n mod 1024 \<and> ?b = ?n div 1024 mod 1024 \<and> ?c = ?n div 1048576 mod 1024"
    by (rule three_digits)
  show ?thesis
    using sum digits unfolding verify_10bit_range_lookup_def small dec
    by (auto simp: Let_def word_unat_eq_iff word_less_nat_alt limb_limit)
qed

section \<open>The relation\<close>

definition spend_relation :: "spend_public \<Rightarrow> spend_witness \<Rightarrow> evaluation_context \<Rightarrow> bool" where
  "spend_relation public w context \<longleftrightarrow>
     length (mp_siblings (sw_merkle_path w)) = ec_merkle_depth context
     \<and> merkle_path_root (note_commitment (derive_owner_key (sw_nullifier_key w)) (sw_value w) (sp_asset_id public) (sw_input_salt w))
         (sw_merkle_path w) = Inr (sp_anchor public)
     \<and> sw_input_asset_id w = sp_asset_id public
     \<and> unat (sw_value w) = unat (sw_value_out w) + unat (sp_fee public) \<and> unat (sw_value w) < 2 ^ 30
     \<and> derive_nullifier (sw_nullifier_key w) (sw_input_salt w) = sp_nullifier public
     \<and> output_commitment (sw_output_owner_key w) (sw_value_out w) (sp_asset_id public) (sw_output_salt w) = sp_output_commitment public
     \<and> sp_nullifier public \<notin> set (ec_spent_nullifiers context)"

lemma balance_eq:
  fixes v v_out fee :: u32
  shows "v < VALUE_LIMIT \<and> v_out < VALUE_LIMIT \<and> fee < VALUE_LIMIT \<and> checked_add v_out fee = Some v
     \<longleftrightarrow> unat v = unat v_out + unat fee \<and> unat v < 2 ^ 30"
  by (auto simp: word_less_nat_alt limb_limit checked_add_eq_Some word_unat_eq_iff)

lemma path_root_eq: "merkle_path_root leaf path = Inr root \<Longrightarrow> length (mp_siblings path) < 32 \<Longrightarrow> drop_bit (length (mp_siblings path)) (mp_index path) = 0"
  by (auto simp: merkle_path_root_def merkle_root_with_def split: if_splits)

lemma evaluate_spend_eq: "evaluate_spend public w context = Inr () \<longleftrightarrow> spend_relation public w context"
proof -
  have "evaluate_spend public w context = Inr () \<longleftrightarrow>
      (sw_value w < VALUE_LIMIT \<and> sw_value_out w < VALUE_LIMIT \<and> sp_fee public < VALUE_LIMIT
        \<and> checked_add (sw_value_out w) (sp_fee public) = Some (sw_value w))
    \<and> length (mp_siblings (sw_merkle_path w)) = ec_merkle_depth context
    \<and> merkle_path_root (note_commitment (derive_owner_key (sw_nullifier_key w)) (sw_value w) (sp_asset_id public) (sw_input_salt w))
        (sw_merkle_path w) = Inr (sp_anchor public)
    \<and> sw_input_asset_id w = sp_asset_id public
    \<and> derive_nullifier (sw_nullifier_key w) (sw_input_salt w) = sp_nullifier public
    \<and> output_commitment (sw_output_owner_key w) (sw_value_out w) (sp_asset_id public) (sw_output_salt w) = sp_output_commitment public
    \<and> sp_nullifier public \<notin> set (ec_spent_nullifiers context)"
    using path_root_eq [of _ "sw_merkle_path w"]
    by (auto simp: evaluate_spend_def validate_shape_and_asset_def evaluate_spend_after_value_checks_def
        evaluate_spend_after_value_checks_with_def Let_def derive_owner_key_def derive_nullifier_def note_commitment_def
        output_commitment_def merkle_path_root_def not_le split: if_splits)
  then show ?thesis unfolding balance_eq spend_relation_def by blast
qed

lemma range_lookup_evaluation_eq:
  assumes "length (rl_input_value_limbs r) = 3" "length (rl_output_value_limbs r) = 3"
  shows "evaluate_spend_with_range_lookup public w r context = Inr () \<longleftrightarrow> evaluate_spend public w context = Inr () \<and> r = from_spend w"
  using assms
  by (cases r) (auto simp: evaluate_spend_with_range_lookup_def evaluate_spend_def range_lookup_eq from_spend_def not_le)

lemma hasher_evaluation_eq:
  "evaluate_spend_with_range_lookup_and_hasher public w r context hash_fields = evaluate_spend_with_range_lookup public w r context"
  by (simp add: evaluate_spend_with_range_lookup_and_hasher_def evaluate_spend_with_range_lookup_def evaluate_spend_after_value_checks_def)

end
