(* ===== verification/DepositFormats.thy ===== *)
theory DepositFormats
  imports Spend SpendFormats
begin

text \<open>
  The wire formats of a deposit: the fixed receipt of \<open>crates/aspis-statement/src/pool_v1/deposit.rs\<close>, and the
  instruction and return data of \<open>programs/aspis-pool/src/deposit_transport.rs\<close>, both a fixed part followed by an
  opaque payload whose length the fixed part declares.
\<close>

section \<open>The receipt\<close>

definition POOL_V1_DEPOSIT_RECEIPT_MAGIC :: bytes where [layout_defs]: "POOL_V1_DEPOSIT_RECEIPT_MAGIC = [0x41, 0x53, 0x50, 0x44]"
definition POOL_V1_DEPOSIT_RECEIPT_VERSION :: u8 where [layout_defs]: "POOL_V1_DEPOSIT_RECEIPT_VERSION = 1"
definition POOL_V1_DEPOSIT_RECEIPT_BYTES :: nat where [layout_defs]: "POOL_V1_DEPOSIT_RECEIPT_BYTES = 224"
definition POOL_V1_ENCRYPTED_NOTE_PAYLOAD_MAX_BYTES :: nat where [layout_defs]: "POOL_V1_ENCRYPTED_NOTE_PAYLOAD_MAX_BYTES = 512"
definition POOL_V1_DEPOSIT_RETURN_MAX_BYTES :: nat where [layout_defs]:
  "POOL_V1_DEPOSIT_RETURN_MAX_BYTES = POOL_V1_DEPOSIT_RECEIPT_BYTES + POOL_V1_ENCRYPTED_NOTE_PAYLOAD_MAX_BYTES"
definition RECEIPT_POOL_OFFSET :: nat where [layout_defs]: "RECEIPT_POOL_OFFSET = 8"
definition RECEIPT_ASSET_MINT_OFFSET :: nat where [layout_defs]: "RECEIPT_ASSET_MINT_OFFSET = 40"
definition RECEIPT_SOURCE_TOKEN_OFFSET :: nat where [layout_defs]: "RECEIPT_SOURCE_TOKEN_OFFSET = 72"
definition RECEIPT_VAULT_TOKEN_OFFSET :: nat where [layout_defs]: "RECEIPT_VAULT_TOKEN_OFFSET = 104"
definition RECEIPT_AMOUNT_OFFSET :: nat where [layout_defs]: "RECEIPT_AMOUNT_OFFSET = 136"
definition RECEIPT_PAYLOAD_LENGTH_OFFSET :: nat where [layout_defs]: "RECEIPT_PAYLOAD_LENGTH_OFFSET = 140"
definition RECEIPT_NOTE_OFFSET :: nat where [layout_defs]: "RECEIPT_NOTE_OFFSET = 144"
definition RECEIPT_LEAF_INDEX_OFFSET :: nat where [layout_defs]: "RECEIPT_LEAF_INDEX_OFFSET = 176"
definition RECEIPT_ROOT_SEQUENCE_OFFSET :: nat where [layout_defs]: "RECEIPT_ROOT_SEQUENCE_OFFSET = 184"
definition RECEIPT_ROOT_OFFSET :: nat where [layout_defs]: "RECEIPT_ROOT_OFFSET = 192"

datatype deposit_format_error =
  DWrongLength | DWrongMagic | DWrongVersion | DNonZeroReserved | DInvalidIdentity | DInvalidAmount
  | DInvalidPayloadLength | DNonCanonicalDigest | DInvalidSequence

record deposit_receipt =
  dr_pool :: bytes
  dr_asset_mint :: bytes
  dr_source_token_account :: bytes
  dr_vault_token_account :: bytes
  dr_amount :: u32
  dr_encrypted_note_payload_bytes :: u16
  dr_note_commitment :: digest
  dr_leaf_index :: u64
  dr_root_sequence :: u64
  dr_root :: digest

record deposit_event =
  de_receipt :: deposit_receipt
  de_encrypted_note_payload :: bytes

definition validate_deposit_receipt_v1 :: "deposit_receipt \<Rightarrow> deposit_format_error + unit" where
  "validate_deposit_receipt_v1 receipt =
     (if dr_pool receipt = zeros 32 \<or> dr_asset_mint receipt = zeros 32 \<or> dr_source_token_account receipt = zeros 32
         \<or> dr_vault_token_account receipt = zeros 32 \<or> dr_source_token_account receipt = dr_vault_token_account receipt
      then Inl DInvalidIdentity
      else if dr_amount receipt = 0 \<or> VALUE_LIMIT \<le> dr_amount receipt then Inl DInvalidAmount
      else if POOL_V1_ENCRYPTED_NOTE_PAYLOAD_MAX_BYTES < unat (dr_encrypted_note_payload_bytes receipt) then Inl DInvalidPayloadLength
      else if \<not> canonical_digest (dr_note_commitment receipt) \<or> \<not> canonical_digest (dr_root receipt) then Inl DNonCanonicalDigest
      else if checked_add (dr_leaf_index receipt) 1 \<noteq> Some (dr_root_sequence receipt) then Inl DInvalidSequence
      else Inr ())"

definition validate_deposit_event_v1 :: "deposit_event \<Rightarrow> deposit_format_error + unit" where
  "validate_deposit_event_v1 event =
     bindE (validate_deposit_receipt_v1 (de_receipt event)) (\<lambda>_.
     if length (de_encrypted_note_payload event) \<noteq> unat (dr_encrypted_note_payload_bytes (de_receipt event))
     then Inl DInvalidPayloadLength else Inr ())"

definition deposit_receipt_image :: "deposit_receipt \<Rightarrow> bytes" where
  "deposit_receipt_image receipt =
     (let output = zeros POOL_V1_DEPOSIT_RECEIPT_BYTES;
          output = put 0 POOL_V1_DEPOSIT_RECEIPT_MAGIC output;
          output = output[4 := POOL_V1_DEPOSIT_RECEIPT_VERSION];
          output = put RECEIPT_POOL_OFFSET (dr_pool receipt) output;
          output = put RECEIPT_ASSET_MINT_OFFSET (dr_asset_mint receipt) output;
          output = put RECEIPT_SOURCE_TOKEN_OFFSET (dr_source_token_account receipt) output;
          output = put RECEIPT_VAULT_TOKEN_OFFSET (dr_vault_token_account receipt) output;
          output = put RECEIPT_AMOUNT_OFFSET (to_le 4 (dr_amount receipt)) output;
          output = put RECEIPT_PAYLOAD_LENGTH_OFFSET (to_le 2 (dr_encrypted_note_payload_bytes receipt)) output;
          output = put RECEIPT_NOTE_OFFSET (encode_digest_canonical (dr_note_commitment receipt)) output;
          output = put RECEIPT_LEAF_INDEX_OFFSET (to_le 8 (dr_leaf_index receipt)) output;
          output = put RECEIPT_ROOT_SEQUENCE_OFFSET (to_le 8 (dr_root_sequence receipt)) output
      in put RECEIPT_ROOT_OFFSET (encode_digest_canonical (dr_root receipt)) output)"

definition encode_deposit_receipt_v1 :: "deposit_receipt \<Rightarrow> deposit_format_error + bytes" where
  "encode_deposit_receipt_v1 receipt = bindE (validate_deposit_receipt_v1 receipt) (\<lambda>_. Inr (deposit_receipt_image receipt))"

definition decode_deposit_receipt_v1 :: "bytes \<Rightarrow> deposit_format_error + deposit_receipt" where
  "decode_deposit_receipt_v1 bytes =
     (if length bytes \<noteq> POOL_V1_DEPOSIT_RECEIPT_BYTES then Inl DWrongLength
      else if seg 0 4 bytes \<noteq> POOL_V1_DEPOSIT_RECEIPT_MAGIC then Inl DWrongMagic
      else if bytes ! 4 \<noteq> POOL_V1_DEPOSIT_RECEIPT_VERSION then Inl DWrongVersion
      else if seg 5 8 bytes \<noteq> zeros 3 \<or> seg 142 144 bytes \<noteq> zeros 2 then Inl DNonZeroReserved
      else bindE (map_err (\<lambda>_. DNonCanonicalDigest)
                   (decode_digest_canonical (seg RECEIPT_NOTE_OFFSET RECEIPT_LEAF_INDEX_OFFSET bytes))) (\<lambda>note_commitment.
      bindE (map_err (\<lambda>_. DNonCanonicalDigest) (decode_digest_canonical (drop RECEIPT_ROOT_OFFSET bytes))) (\<lambda>root.
      let receipt = \<lparr> dr_pool = seg RECEIPT_POOL_OFFSET RECEIPT_ASSET_MINT_OFFSET bytes,
            dr_asset_mint = seg RECEIPT_ASSET_MINT_OFFSET RECEIPT_SOURCE_TOKEN_OFFSET bytes,
            dr_source_token_account = seg RECEIPT_SOURCE_TOKEN_OFFSET RECEIPT_VAULT_TOKEN_OFFSET bytes,
            dr_vault_token_account = seg RECEIPT_VAULT_TOKEN_OFFSET RECEIPT_AMOUNT_OFFSET bytes,
            dr_amount = from_le (seg RECEIPT_AMOUNT_OFFSET RECEIPT_PAYLOAD_LENGTH_OFFSET bytes),
            dr_encrypted_note_payload_bytes = from_le (seg RECEIPT_PAYLOAD_LENGTH_OFFSET 142 bytes),
            dr_note_commitment = note_commitment,
            dr_leaf_index = from_le (seg RECEIPT_LEAF_INDEX_OFFSET RECEIPT_ROOT_SEQUENCE_OFFSET bytes),
            dr_root_sequence = from_le (seg RECEIPT_ROOT_SEQUENCE_OFFSET RECEIPT_ROOT_OFFSET bytes),
            dr_root = root \<rparr>
      in bindE (validate_deposit_receipt_v1 receipt) (\<lambda>_. Inr receipt))))"

definition receipt_ok :: "deposit_receipt \<Rightarrow> bool" where
  "receipt_ok r \<longleftrightarrow> length (dr_pool r) = 32 \<and> length (dr_asset_mint r) = 32 \<and> length (dr_source_token_account r) = 32
     \<and> length (dr_vault_token_account r) = 32 \<and> length (dr_note_commitment r) = 8 \<and> length (dr_root r) = 8"

lemma receipt_image_fields:
  assumes "receipt_ok r"
  shows "length (deposit_receipt_image r) = 224"
    "seg 0 4 (deposit_receipt_image r) = POOL_V1_DEPOSIT_RECEIPT_MAGIC"
    "deposit_receipt_image r ! 4 = POOL_V1_DEPOSIT_RECEIPT_VERSION"
    "seg 5 8 (deposit_receipt_image r) = zeros 3"
    "seg 8 40 (deposit_receipt_image r) = dr_pool r"
    "seg 40 72 (deposit_receipt_image r) = dr_asset_mint r"
    "seg 72 104 (deposit_receipt_image r) = dr_source_token_account r"
    "seg 104 136 (deposit_receipt_image r) = dr_vault_token_account r"
    "seg 136 140 (deposit_receipt_image r) = to_le 4 (dr_amount r)"
    "seg 140 142 (deposit_receipt_image r) = to_le 2 (dr_encrypted_note_payload_bytes r)"
    "seg 142 144 (deposit_receipt_image r) = zeros 2"
    "seg 144 176 (deposit_receipt_image r) = encode_digest_canonical (dr_note_commitment r)"
    "seg 176 184 (deposit_receipt_image r) = to_le 8 (dr_leaf_index r)"
    "seg 184 192 (deposit_receipt_image r) = to_le 8 (dr_root_sequence r)"
    "seg 192 224 (deposit_receipt_image r) = encode_digest_canonical (dr_root r)"
  using assms by (simp_all add: deposit_receipt_image_def receipt_ok_def Let_def layout_defs image_simps)

interpretation receipt_codec: image_codec encode_deposit_receipt_v1 decode_deposit_receipt_v1 receipt_ok POOL_V1_DEPOSIT_RECEIPT_BYTES
proof (rule image_codecI [where check = validate_deposit_receipt_v1 and img = deposit_receipt_image
      and cs = "[4, 5, 8, 40, 72, 104, 136, 140, 142, 144, 176, 184, 192, 224]"])
  fix r assume ok: "receipt_ok r"
  note fields = receipt_image_fields [OF ok]
  show "length (deposit_receipt_image r) = POOL_V1_DEPOSIT_RECEIPT_BYTES" using fields(1) by (simp add: layout_defs)
  assume check: "validate_deposit_receipt_v1 r = Inr ()"
  then have "digest_ok (dr_note_commitment r)" "digest_ok (dr_root r)"
    using ok by (simp_all add: validate_deposit_receipt_v1_def receipt_ok_def canonical_digest_iff)
  with check fields show "decode_deposit_receipt_v1 (deposit_receipt_image r) = Inr r"
    unfolding decode_deposit_receipt_v1_def layout_defs drop_eq_seg [OF fields(1)] Let_def by (cases r) (simp add: layout_defs)
next
  fix b r assume dec: "decode_deposit_receipt_v1 b = Inr r"
  then show "length b = POOL_V1_DEPOSIT_RECEIPT_BYTES \<and> receipt_ok r \<and> validate_deposit_receipt_v1 r = Inr ()"
    by (auto simp: decode_deposit_receipt_v1_def receipt_ok_def Let_def layout_defs decode_digest_eq_Inr digest_ok_def)
  assume len: "length b = POOL_V1_DEPOSIT_RECEIPT_BYTES" and ok: "receipt_ok r"
  have "length b = 224" using len by (simp add: layout_defs)
  with dec have "seg 0 4 b = POOL_V1_DEPOSIT_RECEIPT_MAGIC" "b ! 4 = POOL_V1_DEPOSIT_RECEIPT_VERSION" "seg 5 8 b = zeros 3"
    "seg 142 144 b = zeros 2" "dr_pool r = seg 8 40 b" "dr_asset_mint r = seg 40 72 b" "dr_source_token_account r = seg 72 104 b"
    "dr_vault_token_account r = seg 104 136 b" "dr_amount r = from_le (seg 136 140 b)"
    "dr_encrypted_note_payload_bytes r = from_le (seg 140 142 b)" "dr_leaf_index r = from_le (seg 176 184 b)"
    "dr_root_sequence r = from_le (seg 184 192 b)" "encode_digest_canonical (dr_note_commitment r) = seg 144 176 b"
    "encode_digest_canonical (dr_root r) = seg 192 224 b"
    by (auto simp: decode_deposit_receipt_v1_def Let_def layout_defs decode_digest_eq_Inr drop_eq_seg [of _ 224])
  with len show "agree_on [0, 4, 5, 8, 40, 72, 104, 136, 140, 142, 144, 176, 184, 192, 224] (deposit_receipt_image r) b"
    using receipt_image_fields [OF ok] by (simp add: seg_one layout_defs)
qed (simp_all add: layout_defs encode_deposit_receipt_v1_def)

section \<open>The instruction\<close>

definition POOL_V1_DEPOSIT_INSTRUCTION_MAGIC :: bytes where [layout_defs]: "POOL_V1_DEPOSIT_INSTRUCTION_MAGIC = [0x41, 0x53, 0x44, 0x49]"
definition POOL_V1_DEPOSIT_INSTRUCTION_VERSION :: u8 where [layout_defs]: "POOL_V1_DEPOSIT_INSTRUCTION_VERSION = 1"
definition POOL_V1_DEPOSIT_INSTRUCTION_HEADER_BYTES :: nat where [layout_defs]: "POOL_V1_DEPOSIT_INSTRUCTION_HEADER_BYTES = 80"
definition POOL_V1_DEPOSIT_INSTRUCTION_MAX_BYTES :: nat where [layout_defs]:
  "POOL_V1_DEPOSIT_INSTRUCTION_MAX_BYTES = POOL_V1_DEPOSIT_INSTRUCTION_HEADER_BYTES + POOL_V1_ENCRYPTED_NOTE_PAYLOAD_MAX_BYTES"
definition INSTRUCTION_OWNER_KEY_OFFSET :: nat where [layout_defs]: "INSTRUCTION_OWNER_KEY_OFFSET = 8"
definition INSTRUCTION_AMOUNT_OFFSET :: nat where [layout_defs]: "INSTRUCTION_AMOUNT_OFFSET = 40"
definition INSTRUCTION_SALT_OFFSET :: nat where [layout_defs]: "INSTRUCTION_SALT_OFFSET = 48"
definition INSTRUCTION_PAYLOAD_OFFSET :: nat where [layout_defs]: "INSTRUCTION_PAYLOAD_OFFSET = POOL_V1_DEPOSIT_INSTRUCTION_HEADER_BYTES"

datatype deposit_instruction_format_error =
  IWrongLength | IWrongMagic | IWrongVersion | INonZeroReserved | IInvalidAmount | IInvalidPayloadLength | INonCanonicalDigest

record deposit_request =
  rq_owner_key :: digest
  rq_amount :: u32
  rq_salt :: digest
  rq_encrypted_note_payload :: bytes

text \<open>The fixed-capacity buffers of the code are the bytes up to their length, which is all that is serialized.\<close>

definition deposit_instruction_image :: "deposit_request \<Rightarrow> bytes" where
  "deposit_instruction_image request =
     (let length = INSTRUCTION_PAYLOAD_OFFSET + length (rq_encrypted_note_payload request);
          bytes = zeros POOL_V1_DEPOSIT_INSTRUCTION_MAX_BYTES;
          bytes = put 0 POOL_V1_DEPOSIT_INSTRUCTION_MAGIC bytes;
          bytes = bytes[4 := POOL_V1_DEPOSIT_INSTRUCTION_VERSION];
          bytes = put 6 (to_le 2 (of_nat (List.length (rq_encrypted_note_payload request)) :: u16)) bytes;
          bytes = put INSTRUCTION_OWNER_KEY_OFFSET (encode_digest_canonical (rq_owner_key request)) bytes;
          bytes = put INSTRUCTION_AMOUNT_OFFSET (to_le 4 (rq_amount request)) bytes;
          bytes = put INSTRUCTION_SALT_OFFSET (encode_digest_canonical (rq_salt request)) bytes;
          bytes = put INSTRUCTION_PAYLOAD_OFFSET (rq_encrypted_note_payload request) bytes
      in take length bytes)"

definition encode_deposit_instruction_v1 :: "deposit_request \<Rightarrow> deposit_instruction_format_error + bytes" where
  "encode_deposit_instruction_v1 request =
     (if rq_amount request = 0 \<or> VALUE_LIMIT \<le> rq_amount request then Inl IInvalidAmount
      else if POOL_V1_ENCRYPTED_NOTE_PAYLOAD_MAX_BYTES < length (rq_encrypted_note_payload request) then Inl IInvalidPayloadLength
      else if \<not> canonical_digest (rq_owner_key request) \<or> \<not> canonical_digest (rq_salt request) then Inl INonCanonicalDigest
      else Inr (deposit_instruction_image request))"

definition decode_deposit_instruction_with_magic_v1 :: "bytes \<Rightarrow> bytes \<Rightarrow> deposit_instruction_format_error + deposit_request" where
  "decode_deposit_instruction_with_magic_v1 bytes expected_magic =
     (if length bytes < POOL_V1_DEPOSIT_INSTRUCTION_HEADER_BYTES \<or> POOL_V1_DEPOSIT_INSTRUCTION_MAX_BYTES < length bytes then Inl IWrongLength
      else if seg 0 4 bytes \<noteq> expected_magic then Inl IWrongMagic
      else if bytes ! 4 \<noteq> POOL_V1_DEPOSIT_INSTRUCTION_VERSION then Inl IWrongVersion
      else if bytes ! 5 \<noteq> 0 \<or> seg 44 48 bytes \<noteq> zeros 4 then Inl INonZeroReserved
      else let declared_payload_length = unat (from_le (seg 6 8 bytes) :: u16)
      in if POOL_V1_ENCRYPTED_NOTE_PAYLOAD_MAX_BYTES < declared_payload_length then Inl IInvalidPayloadLength
      else if length bytes \<noteq> INSTRUCTION_PAYLOAD_OFFSET + declared_payload_length then Inl IWrongLength
      else bindE (map_err (\<lambda>_. INonCanonicalDigest)
                   (decode_digest_canonical (seg INSTRUCTION_OWNER_KEY_OFFSET INSTRUCTION_AMOUNT_OFFSET bytes))) (\<lambda>owner_key.
      bindE (map_err (\<lambda>_. INonCanonicalDigest)
              (decode_digest_canonical (seg INSTRUCTION_SALT_OFFSET INSTRUCTION_PAYLOAD_OFFSET bytes))) (\<lambda>salt.
      let amount = from_le (seg INSTRUCTION_AMOUNT_OFFSET 44 bytes)
      in if amount = 0 \<or> VALUE_LIMIT \<le> amount then Inl IInvalidAmount
         else Inr \<lparr> rq_owner_key = owner_key, rq_amount = amount, rq_salt = salt,
                     rq_encrypted_note_payload = drop INSTRUCTION_PAYLOAD_OFFSET bytes \<rparr>)))"

definition decode_deposit_instruction_v1 :: "bytes \<Rightarrow> deposit_instruction_format_error + deposit_request" where
  "decode_deposit_instruction_v1 bytes = decode_deposit_instruction_with_magic_v1 bytes POOL_V1_DEPOSIT_INSTRUCTION_MAGIC"

definition encode_deposit_event_return_data_v1 :: "deposit_event \<Rightarrow> deposit_format_error + bytes" where
  "encode_deposit_event_return_data_v1 event =
     bindE (validate_deposit_event_v1 event) (\<lambda>_.
     bindE (encode_deposit_receipt_v1 (de_receipt event)) (\<lambda>receipt.
     let length = POOL_V1_DEPOSIT_RECEIPT_BYTES + length (de_encrypted_note_payload event);
         bytes = zeros POOL_V1_DEPOSIT_RETURN_MAX_BYTES;
         bytes = put 0 receipt bytes;
         bytes = put POOL_V1_DEPOSIT_RECEIPT_BYTES (de_encrypted_note_payload event) bytes
     in Inr (take length bytes)))"

section \<open>The wires are canonical\<close>

definition request_ok :: "deposit_request \<Rightarrow> bool" where
  "request_ok r \<longleftrightarrow> length (rq_owner_key r) = 8 \<and> length (rq_salt r) = 8"

lemma seg_take [image_simps]: "b \<le> n \<Longrightarrow> seg a b (take n xs) = seg a b xs"
  by (simp add: seg_def drop_take min_def)

lemma drop_take_put: "a \<le> length xs \<Longrightarrow> drop a (take (a + length ys) (put a ys xs)) = ys"
  by (simp add: put_def drop_take)

lemma instruction_image_fields:
  assumes "request_ok r" "length (rq_encrypted_note_payload r) \<le> 512"
  shows "length (deposit_instruction_image r) = 80 + length (rq_encrypted_note_payload r)"
    "seg 0 4 (deposit_instruction_image r) = POOL_V1_DEPOSIT_INSTRUCTION_MAGIC"
    "deposit_instruction_image r ! 4 = POOL_V1_DEPOSIT_INSTRUCTION_VERSION"
    "deposit_instruction_image r ! 5 = 0"
    "seg 6 8 (deposit_instruction_image r) = to_le 2 (of_nat (length (rq_encrypted_note_payload r)) :: u16)"
    "seg 8 40 (deposit_instruction_image r) = encode_digest_canonical (rq_owner_key r)"
    "seg 40 44 (deposit_instruction_image r) = to_le 4 (rq_amount r)"
    "seg 44 48 (deposit_instruction_image r) = zeros 4"
    "seg 48 80 (deposit_instruction_image r) = encode_digest_canonical (rq_salt r)"
    "drop 80 (deposit_instruction_image r) = rq_encrypted_note_payload r"
proof -
  show "drop 80 (deposit_instruction_image r) = rq_encrypted_note_payload r"
    unfolding deposit_instruction_image_def Let_def layout_defs using assms
    by (intro drop_take_put) (simp add: request_ok_def)
qed (use assms in \<open>simp_all add: deposit_instruction_image_def request_ok_def Let_def layout_defs image_simps\<close>)

interpretation instruction_codec: canonical_codec encode_deposit_instruction_v1 decode_deposit_instruction_v1 request_ok
proof unfold_locales
  fix r b assume ok: "request_ok r" and "encode_deposit_instruction_v1 r = Inr b"
  then have b: "b = deposit_instruction_image r" and bounds: "rq_amount r \<noteq> 0" "rq_amount r < VALUE_LIMIT"
      "length (rq_encrypted_note_payload r) \<le> 512" "digest_ok (rq_owner_key r)" "digest_ok (rq_salt r)"
    by (auto simp: encode_deposit_instruction_v1_def layout_defs request_ok_def canonical_digest_iff not_le split: if_splits)
  have "unat (of_nat (length (rq_encrypted_note_payload r)) :: u16) = length (rq_encrypted_note_payload r)"
    using bounds(3) unfolding unat_of_nat by simp
  then show "decode_deposit_instruction_v1 b = Inr r"
    using bounds instruction_image_fields [OF ok bounds(3)]
    by (cases r) (simp add: b decode_deposit_instruction_v1_def decode_deposit_instruction_with_magic_v1_def Let_def layout_defs not_le)
next
  fix b r assume dec: "decode_deposit_instruction_v1 b = Inr r"
  let ?n = "length (rq_encrypted_note_payload r)"
  from dec have len: "80 \<le> length b" "length b \<le> 592"
    by (auto simp: decode_deposit_instruction_v1_def decode_deposit_instruction_with_magic_v1_def layout_defs)
  with dec show ok: "request_ok r"
    by (auto simp: decode_deposit_instruction_v1_def decode_deposit_instruction_with_magic_v1_def Let_def layout_defs
        request_ok_def decode_digest_eq_Inr digest_ok_def)
  have fields: "seg 0 4 b = POOL_V1_DEPOSIT_INSTRUCTION_MAGIC" "b ! 4 = POOL_V1_DEPOSIT_INSTRUCTION_VERSION" "b ! 5 = 0"
      "seg 44 48 b = zeros 4" "length b = 80 + unat (from_le (seg 6 8 b) :: u16)" "?n = length b - 80"
      "encode_digest_canonical (rq_owner_key r) = seg 8 40 b" "encode_digest_canonical (rq_salt r) = seg 48 80 b"
      "rq_amount r = from_le (seg 40 44 b)" "rq_encrypted_note_payload r = drop 80 b"
    and valid: "rq_amount r \<noteq> 0" "rq_amount r < VALUE_LIMIT" "digest_ok (rq_owner_key r)" "digest_ok (rq_salt r)"
    using dec len
    by (auto simp: decode_deposit_instruction_v1_def decode_deposit_instruction_with_magic_v1_def Let_def layout_defs
        decode_digest_eq_Inr not_le)
  have n: "?n \<le> 512" using fields(6) len by simp
  have size: "seg 6 8 b = to_le 2 (of_nat ?n :: u16)" using fields(5,6) len by simp
  note image = instruction_image_fields [OF ok n]
  have lb: "length b = 80 + ?n" using fields(6) len by simp
  have pay: "seg 80 (80 + ?n) (deposit_instruction_image r) = seg 80 (80 + ?n) b"
    using image(10) fields(10) unfolding drop_eq_seg [OF image(1)] drop_eq_seg [OF lb] by (rule trans)
  have "deposit_instruction_image r = b"
  proof (rule agree_on_eq [where cs = "[4, 5, 6, 8, 40, 44, 48, 80, 80 + ?n]"])
    show "agree_on [0, 4, 5, 6, 8, 40, 44, 48, 80, 80 + ?n] (deposit_instruction_image r) b"
      using fields(1-4,7-9) size len image pay by (simp add: seg_one layout_defs)
  qed (use image(1) lb in simp_all)
  then show "encode_deposit_instruction_v1 r = Inr b"
    using valid n ok by (simp add: encode_deposit_instruction_v1_def layout_defs request_ok_def canonical_digest_iff not_le)
qed

text \<open>The return data is the receipt followed by the payload, and determines both.\<close>

lemma event_return_data_eq:
  assumes "receipt_ok (de_receipt event)"
  shows "encode_deposit_event_return_data_v1 event = Inr b \<longleftrightarrow>
    validate_deposit_event_v1 event = Inr () \<and> b = deposit_receipt_image (de_receipt event) @ de_encrypted_note_payload event"
proof -
  let ?r = "deposit_receipt_image (de_receipt event)" and ?p = "de_encrypted_note_payload event"
  have len: "length ?r = 224" by (rule receipt_image_fields [OF assms])
  have "take (224 + length ?p) (put 224 ?p (put 0 ?r (zeros 736))) = ?r @ ?p" if "length ?p \<le> 512"
    using that len by (simp add: put_def)
  then show ?thesis
    by (auto simp: encode_deposit_event_return_data_v1_def encode_deposit_receipt_v1_def validate_deposit_event_v1_def
        validate_deposit_receipt_v1_def layout_defs Let_def split: if_splits)
qed

end
