(* ===== verification/PoolInstruction.thy ===== *)
theory PoolInstruction
  imports PoolState DepositFormats
begin

text \<open>
  The top-level wires of the pool program, \<open>programs/aspis-pool/src/instruction.rs\<close>: initialization, the two spends
  (an anchor envelope followed by a statement that repeats its fields) and the receipts. The contract \<open>spend_wire\<close>
  says what a statement codec must promise for the spend around it to be canonical; both spends, each under the
  plain and the pair magic, are instances.
\<close>

section \<open>Layout\<close>

definition POOL_V1_INITIALIZE_INSTRUCTION_MAGIC :: bytes where [layout_defs]: "POOL_V1_INITIALIZE_INSTRUCTION_MAGIC = [0x41, 0x53, 0x49, 0x4E]"
definition POOL_V1_PRIVATE_TRANSFER_INSTRUCTION_MAGIC :: bytes where [layout_defs]: "POOL_V1_PRIVATE_TRANSFER_INSTRUCTION_MAGIC = [0x41, 0x53, 0x50, 0x54]"
definition POOL_V1_PAIR_PRIVATE_TRANSFER_INSTRUCTION_MAGIC :: bytes where [layout_defs]: "POOL_V1_PAIR_PRIVATE_TRANSFER_INSTRUCTION_MAGIC = [0x41, 0x53, 0x4A, 0x50]"
definition POOL_V1_PAIR_WITHDRAWAL_INSTRUCTION_MAGIC :: bytes where [layout_defs]: "POOL_V1_PAIR_WITHDRAWAL_INSTRUCTION_MAGIC = [0x41, 0x53, 0x4A, 0x57]"
definition POOL_V1_WITHDRAWAL_INSTRUCTION_MAGIC :: bytes where [layout_defs]: "POOL_V1_WITHDRAWAL_INSTRUCTION_MAGIC = [0x41, 0x53, 0x57, 0x44]"
definition POOL_V1_INSTRUCTION_VERSION :: u8 where [layout_defs]: "POOL_V1_INSTRUCTION_VERSION = 1"
definition POOL_V1_INITIALIZE_INSTRUCTION_BYTES :: nat where [layout_defs]: "POOL_V1_INITIALIZE_INSTRUCTION_BYTES = 184"
definition POOL_V1_TRANSITION_STATEMENT_BYTES :: nat where [layout_defs]: "POOL_V1_TRANSITION_STATEMENT_BYTES = 216"
definition POOL_V1_SPEND_INSTRUCTION_BYTES :: nat where [layout_defs]:
  "POOL_V1_SPEND_INSTRUCTION_BYTES = 8 + POOL_V1_HISTORICAL_ANCHOR_ENVELOPE_BYTES + POOL_V1_TRANSITION_STATEMENT_BYTES"
definition POOL_V1_PRIVATE_TRANSFER_STATEMENT_MAGIC :: bytes where [layout_defs]: "POOL_V1_PRIVATE_TRANSFER_STATEMENT_MAGIC = [0x41, 0x53, 0x43, 0x50]"
definition POOL_V1_WITHDRAWAL_STATEMENT_MAGIC :: bytes where [layout_defs]: "POOL_V1_WITHDRAWAL_STATEMENT_MAGIC = [0x41, 0x53, 0x57, 0x50]"
definition POOL_V1_TRANSITION_STATEMENT_VERSION :: u8 where [layout_defs]: "POOL_V1_TRANSITION_STATEMENT_VERSION = 1"
definition POOL_V1_INITIALIZATION_RECEIPT_MAGIC :: bytes where [layout_defs]: "POOL_V1_INITIALIZATION_RECEIPT_MAGIC = [0x41, 0x53, 0x49, 0x52]"
definition POOL_V1_INITIALIZATION_RECEIPT_BYTES :: nat where [layout_defs]: "POOL_V1_INITIALIZATION_RECEIPT_BYTES = 104"
definition POOL_V1_TRANSITION_RECEIPT_MAGIC :: bytes where [layout_defs]: "POOL_V1_TRANSITION_RECEIPT_MAGIC = [0x41, 0x53, 0x54, 0x52]"
definition POOL_V1_TRANSITION_RECEIPT_BYTES :: nat where [layout_defs]: "POOL_V1_TRANSITION_RECEIPT_BYTES = 200"
definition INITIALIZE_MINT_OFFSET :: nat where [layout_defs]: "INITIALIZE_MINT_OFFSET = 8"
definition INITIALIZE_ASSET_ID_OFFSET :: nat where [layout_defs]: "INITIALIZE_ASSET_ID_OFFSET = 40"
definition INITIALIZE_DOMAIN_OFFSET :: nat where [layout_defs]: "INITIALIZE_DOMAIN_OFFSET = 48"
definition INITIALIZE_POLICY_OFFSET :: nat where [layout_defs]: "INITIALIZE_POLICY_OFFSET = 80"
definition SPEND_ENVELOPE_OFFSET :: nat where [layout_defs]: "SPEND_ENVELOPE_OFFSET = 8"
definition SPEND_STATEMENT_OFFSET :: nat where [layout_defs]:
  "SPEND_STATEMENT_OFFSET = SPEND_ENVELOPE_OFFSET + POOL_V1_HISTORICAL_ANCHOR_ENVELOPE_BYTES"
definition STATEMENT_POOL_OFFSET :: nat where [layout_defs]: "STATEMENT_POOL_OFFSET = 8"
definition STATEMENT_DOMAIN_OFFSET :: nat where [layout_defs]: "STATEMENT_DOMAIN_OFFSET = 40"
definition STATEMENT_SEQUENCE_OFFSET :: nat where [layout_defs]: "STATEMENT_SEQUENCE_OFFSET = 72"
definition STATEMENT_ROOT_OFFSET :: nat where [layout_defs]: "STATEMENT_ROOT_OFFSET = 80"
definition STATEMENT_NULLIFIER_OFFSET :: nat where [layout_defs]: "STATEMENT_NULLIFIER_OFFSET = 112"
definition STATEMENT_ASSET_ID_OFFSET :: nat where [layout_defs]: "STATEMENT_ASSET_ID_OFFSET = 144"
definition STATEMENT_FIRST_OUTPUT_OFFSET :: nat where [layout_defs]: "STATEMENT_FIRST_OUTPUT_OFFSET = 152"
definition STATEMENT_SECOND_OUTPUT_OFFSET :: nat where [layout_defs]: "STATEMENT_SECOND_OUTPUT_OFFSET = 184"

datatype pool_instruction_format_error =
  PWrongLength | PWrongMagic | PWrongVersion | PWrongTransitionKind | PWrongDigestEncoding | PNonZeroReserved
  | PInvalidEnvelope | PEnvelopeStatementMismatch | PInvalidPolicy | PNonCanonicalField | PInvalidWithdrawalAmount
  | PInvalidDestination | PInvalidDeposit

record transfer_statement =
  ts_pool :: bytes
  ts_deployment_domain :: bytes
  ts_anchor_sequence :: u64
  ts_anchor_root :: digest
  ts_nullifier :: digest
  ts_asset_id :: m31
  ts_recipient_commitment :: digest
  ts_change_commitment :: digest

record withdrawal_statement =
  ws_pool :: bytes
  ws_deployment_domain :: bytes
  ws_anchor_sequence :: u64
  ws_anchor_root :: digest
  ws_nullifier :: digest
  ws_asset_id :: m31
  ws_amount :: u32
  ws_destination_token_account :: bytes
  ws_change_commitment :: digest

record private_transfer_instruction =
  pt_envelope :: anchor_envelope
  pt_statement :: transfer_statement
  pt_statement_payload :: bytes

record withdrawal_instruction =
  wi_envelope :: anchor_envelope
  wi_statement :: withdrawal_statement
  wi_statement_payload :: bytes

record statement_common =
  sm_pool :: bytes
  sm_deployment_domain :: bytes
  sm_anchor_sequence :: u64
  sm_anchor_root :: digest
  sm_nullifier :: digest
  sm_asset_id :: m31

record transition_receipt =
  tr_transition_kind :: transition_kind
  tr_pool :: bytes
  tr_nullifier :: digest
  tr_first_output :: digest
  tr_second_output_or_destination :: bytes
  tr_withdrawal_amount :: u32
  tr_first_leaf_index :: u64
  tr_second_leaf_index :: u64
  tr_root_sequence :: u64
  tr_root :: digest

section \<open>Shared parts\<close>

definition require_exact_header :: "bytes \<Rightarrow> bytes \<Rightarrow> transition_kind \<Rightarrow> pool_instruction_format_error + unit" where
  "require_exact_header bytes expected_magic expected_kind =
     (if seg 0 4 bytes \<noteq> expected_magic then Inl PWrongMagic
      else if bytes ! 4 \<noteq> POOL_V1_INSTRUCTION_VERSION then Inl PWrongVersion
      else if bytes ! 5 \<noteq> transition_kind_byte expected_kind then Inl PWrongTransitionKind
      else if bytes ! 6 \<noteq> POOL_V1_DIGEST_ENCODING_VERSION then Inl PWrongDigestEncoding
      else if bytes ! 7 \<noteq> 0 then Inl PNonZeroReserved
      else Inr ())"

definition decode_statement_common ::
  "bytes \<Rightarrow> bytes \<Rightarrow> transition_kind \<Rightarrow> pool_instruction_format_error + statement_common" where
  "decode_statement_common bytes expected_magic expected_kind =
     (if length bytes \<noteq> POOL_V1_TRANSITION_STATEMENT_BYTES then Inl PWrongLength
      else if seg 0 4 bytes \<noteq> expected_magic then Inl PWrongMagic
      else if bytes ! 4 \<noteq> POOL_V1_TRANSITION_STATEMENT_VERSION then Inl PWrongVersion
      else if bytes ! 5 \<noteq> transition_kind_byte expected_kind then Inl PWrongTransitionKind
      else if bytes ! 6 \<noteq> POOL_V1_DIGEST_ENCODING_VERSION then Inl PWrongDigestEncoding
      else if bytes ! 7 \<noteq> 0 then Inl PNonZeroReserved
      else let raw_asset_id = from_le (seg STATEMENT_ASSET_ID_OFFSET (STATEMENT_ASSET_ID_OFFSET + 4) bytes)
      in if M31_P \<le> raw_asset_id then Inl PNonCanonicalField
      else bindE (map_err (\<lambda>_. PNonCanonicalField)
                   (decode_digest_canonical (seg STATEMENT_ROOT_OFFSET STATEMENT_NULLIFIER_OFFSET bytes))) (\<lambda>anchor_root.
      bindE (map_err (\<lambda>_. PNonCanonicalField)
              (decode_digest_canonical (seg STATEMENT_NULLIFIER_OFFSET STATEMENT_ASSET_ID_OFFSET bytes))) (\<lambda>nullifier.
      Inr \<lparr> sm_pool = seg STATEMENT_POOL_OFFSET STATEMENT_DOMAIN_OFFSET bytes,
             sm_deployment_domain = seg STATEMENT_DOMAIN_OFFSET STATEMENT_SEQUENCE_OFFSET bytes,
             sm_anchor_sequence = from_le (seg STATEMENT_SEQUENCE_OFFSET STATEMENT_ROOT_OFFSET bytes),
             sm_anchor_root = anchor_root, sm_nullifier = nullifier, sm_asset_id = M31 raw_asset_id \<rparr>)))"

definition require_envelope_statement_match ::
  "anchor_envelope \<Rightarrow> transition_kind \<Rightarrow> bytes \<Rightarrow> bytes \<Rightarrow> u64 \<Rightarrow> digest \<Rightarrow> digest \<Rightarrow> pool_instruction_format_error + unit" where
  "require_envelope_statement_match envelope expected_kind pool deployment_domain anchor_sequence anchor_root nullifier =
     (if ae_transition_kind envelope \<noteq> expected_kind \<or> ae_pool envelope \<noteq> pool
         \<or> ae_deployment_domain envelope \<noteq> deployment_domain \<or> ae_anchor_sequence envelope \<noteq> anchor_sequence
         \<or> ae_anchor_root envelope \<noteq> anchor_root \<or> ae_nullifier envelope \<noteq> nullifier
      then Inl PEnvelopeStatementMismatch else Inr ())"

definition encode_statement_common ::
  "bytes \<Rightarrow> bytes \<Rightarrow> transition_kind \<Rightarrow> statement_common \<Rightarrow> pool_instruction_format_error + bytes" where
  "encode_statement_common bytes magic kind common =
     (if M31_P \<le> limb (sm_asset_id common) \<or> \<not> canonical_digest (sm_anchor_root common)
         \<or> \<not> canonical_digest (sm_nullifier common)
      then Inl PNonCanonicalField
      else let bytes = put 0 magic bytes;
               bytes = bytes[4 := POOL_V1_TRANSITION_STATEMENT_VERSION];
               bytes = bytes[5 := transition_kind_byte kind];
               bytes = bytes[6 := POOL_V1_DIGEST_ENCODING_VERSION];
               bytes = put STATEMENT_POOL_OFFSET (sm_pool common) bytes;
               bytes = put STATEMENT_DOMAIN_OFFSET (sm_deployment_domain common) bytes;
               bytes = put STATEMENT_SEQUENCE_OFFSET (to_le 8 (sm_anchor_sequence common)) bytes;
               bytes = put STATEMENT_ROOT_OFFSET (encode_digest_canonical (sm_anchor_root common)) bytes;
               bytes = put STATEMENT_NULLIFIER_OFFSET (encode_digest_canonical (sm_nullifier common)) bytes
           in Inr (put STATEMENT_ASSET_ID_OFFSET (m31_to_le_bytes (sm_asset_id common)) bytes))"

definition spend_instruction_image :: "bytes \<Rightarrow> transition_kind \<Rightarrow> bytes \<Rightarrow> bytes \<Rightarrow> bytes" where
  "spend_instruction_image magic kind envelope_bytes statement_bytes =
     (let bytes = zeros POOL_V1_SPEND_INSTRUCTION_BYTES;
          bytes = put 0 magic bytes;
          bytes = bytes[4 := POOL_V1_INSTRUCTION_VERSION];
          bytes = bytes[5 := transition_kind_byte kind];
          bytes = bytes[6 := POOL_V1_DIGEST_ENCODING_VERSION];
          bytes = put SPEND_ENVELOPE_OFFSET envelope_bytes bytes
      in put SPEND_STATEMENT_OFFSET statement_bytes bytes)"

section \<open>Initialization\<close>

definition initialize_instruction_image :: "pool_initialization \<Rightarrow> bytes \<Rightarrow> bytes" where
  "initialize_instruction_image initialization policy =
     (let bytes = zeros POOL_V1_INITIALIZE_INSTRUCTION_BYTES;
          bytes = put 0 POOL_V1_INITIALIZE_INSTRUCTION_MAGIC bytes;
          bytes = bytes[4 := POOL_V1_INSTRUCTION_VERSION];
          bytes = put INITIALIZE_MINT_OFFSET (pi_asset_mint initialization) bytes;
          bytes = put INITIALIZE_ASSET_ID_OFFSET (m31_to_le_bytes (pi_asset_id initialization)) bytes;
          bytes = put INITIALIZE_DOMAIN_OFFSET (pi_deployment_domain initialization) bytes
      in put INITIALIZE_POLICY_OFFSET policy bytes)"

definition encode_initialize_instruction_v1 :: "pool_initialization \<Rightarrow> pool_instruction_format_error + bytes" where
  "encode_initialize_instruction_v1 initialization =
     (if pi_token_program initialization \<noteq> LEGACY_SPL_TOKEN_PROGRAM_ID \<or> M31_P \<le> limb (pi_asset_id initialization)
      then Inl PNonCanonicalField
      else bindE (map_err (\<lambda>_. PInvalidPolicy) (encode_verifier_policy_v1 (pi_verifier_policy initialization))) (\<lambda>policy.
      Inr (initialize_instruction_image initialization policy)))"

definition decode_initialize_instruction_v1 :: "bytes \<Rightarrow> pool_instruction_format_error + pool_initialization" where
  "decode_initialize_instruction_v1 bytes =
     (if length bytes \<noteq> POOL_V1_INITIALIZE_INSTRUCTION_BYTES then Inl PWrongLength
      else if seg 0 4 bytes \<noteq> POOL_V1_INITIALIZE_INSTRUCTION_MAGIC then Inl PWrongMagic
      else if bytes ! 4 \<noteq> POOL_V1_INSTRUCTION_VERSION then Inl PWrongVersion
      else if seg 5 8 bytes \<noteq> zeros 3 \<or> seg 44 48 bytes \<noteq> zeros 4 then Inl PNonZeroReserved
      else let raw_asset_id = from_le (seg 40 44 bytes)
      in if M31_P \<le> raw_asset_id then Inl PNonCanonicalField
      else bindE (map_err (\<lambda>_. PInvalidPolicy) (decode_verifier_policy_v1 (drop INITIALIZE_POLICY_OFFSET bytes))) (\<lambda>verifier_policy.
      Inr \<lparr> pi_asset_mint = seg INITIALIZE_MINT_OFFSET INITIALIZE_ASSET_ID_OFFSET bytes,
             pi_token_program = LEGACY_SPL_TOKEN_PROGRAM_ID, pi_asset_id = M31 raw_asset_id,
             pi_deployment_domain = seg INITIALIZE_DOMAIN_OFFSET INITIALIZE_POLICY_OFFSET bytes,
             pi_verifier_policy = verifier_policy \<rparr>))"

section \<open>Private transfer\<close>

definition transfer_common :: "transfer_statement \<Rightarrow> statement_common" where
  "transfer_common statement =
     \<lparr> sm_pool = ts_pool statement, sm_deployment_domain = ts_deployment_domain statement,
       sm_anchor_sequence = ts_anchor_sequence statement, sm_anchor_root = ts_anchor_root statement,
       sm_nullifier = ts_nullifier statement, sm_asset_id = ts_asset_id statement \<rparr>"

definition encode_transfer_statement :: "transfer_statement \<Rightarrow> pool_instruction_format_error + bytes" where
  "encode_transfer_statement statement =
     bindE (encode_statement_common (zeros POOL_V1_TRANSITION_STATEMENT_BYTES) POOL_V1_PRIVATE_TRANSFER_STATEMENT_MAGIC
         PrivateTransfer (transfer_common statement)) (\<lambda>statement_bytes.
     let statement_bytes = put 148 (zeros 4) statement_bytes;
         statement_bytes = put STATEMENT_FIRST_OUTPUT_OFFSET (encode_digest_canonical (ts_recipient_commitment statement)) statement_bytes
     in Inr (put STATEMENT_SECOND_OUTPUT_OFFSET (encode_digest_canonical (ts_change_commitment statement)) statement_bytes))"

definition encode_private_transfer_instruction_v1 ::
  "anchor_envelope \<Rightarrow> transfer_statement \<Rightarrow> pool_instruction_format_error + bytes" where
  "encode_private_transfer_instruction_v1 envelope statement =
     bindE (require_envelope_statement_match envelope PrivateTransfer (ts_pool statement) (ts_deployment_domain statement)
         (ts_anchor_sequence statement) (ts_anchor_root statement) (ts_nullifier statement)) (\<lambda>_.
     if \<not> canonical_digest (ts_recipient_commitment statement) \<or> \<not> canonical_digest (ts_change_commitment statement)
     then Inl PNonCanonicalField
     else bindE (map_err (\<lambda>_. PInvalidEnvelope) (encode_historical_anchor_envelope_v1 envelope)) (\<lambda>envelope_bytes.
     bindE (encode_transfer_statement statement) (\<lambda>statement_bytes.
     Inr (spend_instruction_image POOL_V1_PRIVATE_TRANSFER_INSTRUCTION_MAGIC PrivateTransfer envelope_bytes statement_bytes))))"

definition encode_pair_private_transfer_instruction_v1 ::
  "anchor_envelope \<Rightarrow> transfer_statement \<Rightarrow> pool_instruction_format_error + bytes" where
  "encode_pair_private_transfer_instruction_v1 envelope statement =
     bindE (encode_private_transfer_instruction_v1 envelope statement) (\<lambda>bytes.
     Inr (put 0 POOL_V1_PAIR_PRIVATE_TRANSFER_INSTRUCTION_MAGIC bytes))"

definition decode_transfer_statement :: "bytes \<Rightarrow> pool_instruction_format_error + transfer_statement" where
  "decode_transfer_statement payload =
     bindE (decode_statement_common payload POOL_V1_PRIVATE_TRANSFER_STATEMENT_MAGIC PrivateTransfer) (\<lambda>common.
     if seg 148 152 payload \<noteq> zeros 4 then Inl PNonZeroReserved
     else bindE (map_err (\<lambda>_. PNonCanonicalField)
                  (decode_digest_canonical (seg STATEMENT_FIRST_OUTPUT_OFFSET STATEMENT_SECOND_OUTPUT_OFFSET payload))) (\<lambda>recipient_commitment.
     bindE (map_err (\<lambda>_. PNonCanonicalField)
             (decode_digest_canonical (drop STATEMENT_SECOND_OUTPUT_OFFSET payload))) (\<lambda>change_commitment.
     Inr \<lparr> ts_pool = sm_pool common, ts_deployment_domain = sm_deployment_domain common,
            ts_anchor_sequence = sm_anchor_sequence common, ts_anchor_root = sm_anchor_root common,
            ts_nullifier = sm_nullifier common, ts_asset_id = sm_asset_id common,
            ts_recipient_commitment = recipient_commitment, ts_change_commitment = change_commitment \<rparr>)))"

definition decode_private_transfer_with_magic_v1 ::
  "bytes \<Rightarrow> bytes \<Rightarrow> pool_instruction_format_error + private_transfer_instruction" where
  "decode_private_transfer_with_magic_v1 bytes magic =
     (if length bytes \<noteq> POOL_V1_SPEND_INSTRUCTION_BYTES then Inl PWrongLength
      else bindE (require_exact_header bytes magic PrivateTransfer) (\<lambda>_.
      bindE (map_err (\<lambda>_. PInvalidEnvelope)
              (decode_historical_anchor_envelope_v1 (seg SPEND_ENVELOPE_OFFSET SPEND_STATEMENT_OFFSET bytes))) (\<lambda>envelope.
      let payload = drop SPEND_STATEMENT_OFFSET bytes
      in bindE (decode_transfer_statement payload) (\<lambda>statement.
      bindE (require_envelope_statement_match envelope PrivateTransfer (ts_pool statement) (ts_deployment_domain statement)
          (ts_anchor_sequence statement) (ts_anchor_root statement) (ts_nullifier statement)) (\<lambda>_.
      Inr \<lparr> pt_envelope = envelope, pt_statement = statement, pt_statement_payload = payload \<rparr>)))))"

definition decode_private_transfer_instruction_v1 :: "bytes \<Rightarrow> pool_instruction_format_error + private_transfer_instruction" where
  "decode_private_transfer_instruction_v1 bytes =
     decode_private_transfer_with_magic_v1 bytes POOL_V1_PRIVATE_TRANSFER_INSTRUCTION_MAGIC"

definition decode_pair_private_transfer_instruction_v1 :: "bytes \<Rightarrow> pool_instruction_format_error + private_transfer_instruction" where
  "decode_pair_private_transfer_instruction_v1 bytes =
     decode_private_transfer_with_magic_v1 bytes POOL_V1_PAIR_PRIVATE_TRANSFER_INSTRUCTION_MAGIC"

section \<open>Withdrawal\<close>

definition withdrawal_common :: "withdrawal_statement \<Rightarrow> statement_common" where
  "withdrawal_common statement =
     \<lparr> sm_pool = ws_pool statement, sm_deployment_domain = ws_deployment_domain statement,
       sm_anchor_sequence = ws_anchor_sequence statement, sm_anchor_root = ws_anchor_root statement,
       sm_nullifier = ws_nullifier statement, sm_asset_id = ws_asset_id statement \<rparr>"

definition encode_withdrawal_statement :: "withdrawal_statement \<Rightarrow> pool_instruction_format_error + bytes" where
  "encode_withdrawal_statement statement =
     bindE (encode_statement_common (zeros POOL_V1_TRANSITION_STATEMENT_BYTES) POOL_V1_WITHDRAWAL_STATEMENT_MAGIC
         Withdrawal (withdrawal_common statement)) (\<lambda>statement_bytes.
     let statement_bytes = put 148 (to_le 4 (ws_amount statement)) statement_bytes;
         statement_bytes = put STATEMENT_FIRST_OUTPUT_OFFSET (ws_destination_token_account statement) statement_bytes
     in Inr (put STATEMENT_SECOND_OUTPUT_OFFSET (encode_digest_canonical (ws_change_commitment statement)) statement_bytes))"

definition encode_withdrawal_instruction_v1 ::
  "anchor_envelope \<Rightarrow> withdrawal_statement \<Rightarrow> pool_instruction_format_error + bytes" where
  "encode_withdrawal_instruction_v1 envelope statement =
     bindE (require_envelope_statement_match envelope Withdrawal (ws_pool statement) (ws_deployment_domain statement)
         (ws_anchor_sequence statement) (ws_anchor_root statement) (ws_nullifier statement)) (\<lambda>_.
     if ws_amount statement = 0 \<or> VALUE_LIMIT \<le> ws_amount statement then Inl PInvalidWithdrawalAmount
     else if ws_destination_token_account statement = zeros 32 then Inl PInvalidDestination
     else if \<not> canonical_digest (ws_change_commitment statement) then Inl PNonCanonicalField
     else bindE (map_err (\<lambda>_. PInvalidEnvelope) (encode_historical_anchor_envelope_v1 envelope)) (\<lambda>envelope_bytes.
     bindE (encode_withdrawal_statement statement) (\<lambda>statement_bytes.
     Inr (spend_instruction_image POOL_V1_WITHDRAWAL_INSTRUCTION_MAGIC Withdrawal envelope_bytes statement_bytes))))"

definition encode_pair_withdrawal_instruction_v1 ::
  "anchor_envelope \<Rightarrow> withdrawal_statement \<Rightarrow> pool_instruction_format_error + bytes" where
  "encode_pair_withdrawal_instruction_v1 envelope statement =
     bindE (encode_withdrawal_instruction_v1 envelope statement) (\<lambda>bytes.
     Inr (put 0 POOL_V1_PAIR_WITHDRAWAL_INSTRUCTION_MAGIC bytes))"

definition decode_withdrawal_statement :: "bytes \<Rightarrow> pool_instruction_format_error + withdrawal_statement" where
  "decode_withdrawal_statement payload =
     bindE (decode_statement_common payload POOL_V1_WITHDRAWAL_STATEMENT_MAGIC Withdrawal) (\<lambda>common.
     let amount = from_le (seg 148 152 payload)
     in if amount = 0 \<or> VALUE_LIMIT \<le> amount then Inl PInvalidWithdrawalAmount
     else let destination_token_account = seg STATEMENT_FIRST_OUTPUT_OFFSET STATEMENT_SECOND_OUTPUT_OFFSET payload
     in if destination_token_account = zeros 32 then Inl PInvalidDestination
     else bindE (map_err (\<lambda>_. PNonCanonicalField)
                  (decode_digest_canonical (drop STATEMENT_SECOND_OUTPUT_OFFSET payload))) (\<lambda>change_commitment.
     Inr \<lparr> ws_pool = sm_pool common, ws_deployment_domain = sm_deployment_domain common,
            ws_anchor_sequence = sm_anchor_sequence common, ws_anchor_root = sm_anchor_root common,
            ws_nullifier = sm_nullifier common, ws_asset_id = sm_asset_id common, ws_amount = amount,
            ws_destination_token_account = destination_token_account, ws_change_commitment = change_commitment \<rparr>))"

definition decode_withdrawal_with_magic_v1 ::
  "bytes \<Rightarrow> bytes \<Rightarrow> pool_instruction_format_error + withdrawal_instruction" where
  "decode_withdrawal_with_magic_v1 bytes magic =
     (if length bytes \<noteq> POOL_V1_SPEND_INSTRUCTION_BYTES then Inl PWrongLength
      else bindE (require_exact_header bytes magic Withdrawal) (\<lambda>_.
      bindE (map_err (\<lambda>_. PInvalidEnvelope)
              (decode_historical_anchor_envelope_v1 (seg SPEND_ENVELOPE_OFFSET SPEND_STATEMENT_OFFSET bytes))) (\<lambda>envelope.
      let payload = drop SPEND_STATEMENT_OFFSET bytes
      in bindE (decode_withdrawal_statement payload) (\<lambda>statement.
      bindE (require_envelope_statement_match envelope Withdrawal (ws_pool statement) (ws_deployment_domain statement)
          (ws_anchor_sequence statement) (ws_anchor_root statement) (ws_nullifier statement)) (\<lambda>_.
      Inr \<lparr> wi_envelope = envelope, wi_statement = statement, wi_statement_payload = payload \<rparr>)))))"

definition decode_withdrawal_instruction_v1 :: "bytes \<Rightarrow> pool_instruction_format_error + withdrawal_instruction" where
  "decode_withdrawal_instruction_v1 bytes = decode_withdrawal_with_magic_v1 bytes POOL_V1_WITHDRAWAL_INSTRUCTION_MAGIC"

definition decode_pair_withdrawal_instruction_v1 :: "bytes \<Rightarrow> pool_instruction_format_error + withdrawal_instruction" where
  "decode_pair_withdrawal_instruction_v1 bytes = decode_withdrawal_with_magic_v1 bytes POOL_V1_PAIR_WITHDRAWAL_INSTRUCTION_MAGIC"

section \<open>Deposits and receipts\<close>

definition decode_deposit_top_level_v1 :: "bytes \<Rightarrow> pool_instruction_format_error + deposit_request" where
  "decode_deposit_top_level_v1 bytes = map_err (\<lambda>_. PInvalidDeposit) (decode_deposit_instruction_v1 bytes)"

definition encode_initialization_receipt_v1 :: "bytes \<Rightarrow> bytes \<Rightarrow> bytes \<Rightarrow> bytes" where
  "encode_initialization_receipt_v1 pool root_page_zero vault_token_account =
     (let bytes = zeros POOL_V1_INITIALIZATION_RECEIPT_BYTES;
          bytes = put 0 POOL_V1_INITIALIZATION_RECEIPT_MAGIC bytes;
          bytes = bytes[4 := POOL_V1_INSTRUCTION_VERSION];
          bytes = put 8 pool bytes;
          bytes = put 40 root_page_zero bytes
      in put 72 vault_token_account bytes)"

definition saturating_add :: "u64 \<Rightarrow> u64 \<Rightarrow> u64" where
  "saturating_add a b = (case checked_add a b of Some c \<Rightarrow> c | None \<Rightarrow> - 1)"

definition transition_receipt_image :: "transition_receipt \<Rightarrow> u8 \<Rightarrow> bytes" where
  "transition_receipt_image receipt output_count =
     (let bytes = zeros POOL_V1_TRANSITION_RECEIPT_BYTES;
          bytes = put 0 POOL_V1_TRANSITION_RECEIPT_MAGIC bytes;
          bytes = bytes[4 := POOL_V1_INSTRUCTION_VERSION];
          bytes = bytes[5 := transition_kind_byte (tr_transition_kind receipt)];
          bytes = bytes[6 := output_count];
          bytes = bytes[7 := POOL_V1_DIGEST_ENCODING_VERSION];
          bytes = put 8 (tr_pool receipt) bytes;
          bytes = put 40 (encode_digest_canonical (tr_nullifier receipt)) bytes;
          bytes = put 72 (encode_digest_canonical (tr_first_output receipt)) bytes;
          bytes = put 104 (tr_second_output_or_destination receipt) bytes;
          bytes = put 136 (to_le 4 (tr_withdrawal_amount receipt)) bytes;
          bytes = put 144 (to_le 8 (tr_first_leaf_index receipt)) bytes;
          bytes = put 152 (to_le 8 (tr_second_leaf_index receipt)) bytes;
          bytes = put 160 (to_le 8 (tr_root_sequence receipt)) bytes
      in put 168 (encode_digest_canonical (tr_root receipt)) bytes)"

definition encode_transition_receipt_v1 :: "transition_receipt \<Rightarrow> pool_instruction_format_error + bytes" where
  "encode_transition_receipt_v1 receipt =
     (if \<not> canonical_digest (tr_nullifier receipt) \<or> \<not> canonical_digest (tr_first_output receipt)
         \<or> \<not> canonical_digest (tr_root receipt)
      then Inl PNonCanonicalField
      else bindE (case tr_transition_kind receipt of
          PrivateTransfer \<Rightarrow>
            bindE (map_err (\<lambda>_. PNonCanonicalField) (decode_digest_canonical (tr_second_output_or_destination receipt))) (\<lambda>_.
            if tr_withdrawal_amount receipt \<noteq> 0
               \<or> tr_second_leaf_index receipt \<noteq> saturating_add (tr_first_leaf_index receipt) 1
            then Inl PNonCanonicalField else Inr 2)
        | Withdrawal \<Rightarrow>
            if tr_withdrawal_amount receipt = 0 \<or> VALUE_LIMIT \<le> tr_withdrawal_amount receipt
               \<or> tr_second_output_or_destination receipt = zeros 32 \<or> tr_second_leaf_index receipt \<noteq> 0
            then Inl PInvalidWithdrawalAmount else Inr 1) (\<lambda>output_count.
      Inr (transition_receipt_image receipt output_count)))"

section \<open>Spends are canonical\<close>

lemma spend_image_fields:
  assumes "length magic = 4" "length e = 208" "length t = 216"
  shows "length (spend_instruction_image magic kind e t) = 432"
    "seg 0 4 (spend_instruction_image magic kind e t) = magic"
    "spend_instruction_image magic kind e t ! 4 = POOL_V1_INSTRUCTION_VERSION"
    "spend_instruction_image magic kind e t ! 5 = transition_kind_byte kind"
    "spend_instruction_image magic kind e t ! 6 = POOL_V1_DIGEST_ENCODING_VERSION"
    "spend_instruction_image magic kind e t ! 7 = 0"
    "seg 8 216 (spend_instruction_image magic kind e t) = e"
    "seg 216 432 (spend_instruction_image magic kind e t) = t"
  using assms by (simp_all add: spend_instruction_image_def Let_def layout_defs image_simps)

lemma spend_image_magic:
  assumes "length magic = 4" "length magic' = 4" "length e = 208" "length t = 216"
  shows "put 0 magic' (spend_instruction_image magic kind e t) = spend_instruction_image magic' kind e t"
proof (rule agree_on_eq [where cs = "[4, 5, 6, 7, 8, 216, 432]"])
  show "agree_on [0, 4, 5, 6, 7, 8, 216, 432] (put 0 magic' (spend_instruction_image magic kind e t)) (spend_instruction_image magic' kind e t)"
    using assms spend_image_fields [OF assms(1,3,4)] spend_image_fields [OF assms(2,3,4)]
    by (simp add: seg_one image_simps)
qed (use assms spend_image_fields(1) [OF assms(1,3,4)] spend_image_fields(1) [OF assms(2,3,4)] in simp_all)

text \<open>
  What a statement codec promises the spend around it: under its own check, the encoder and the decoder are inverse
  and the image has the fixed size.
\<close>

locale spend_wire =
  fixes kind :: transition_kind
    and common_of :: "'s \<Rightarrow> statement_common"
    and check :: "'s \<Rightarrow> pool_instruction_format_error + unit"
    and enc_st :: "'s \<Rightarrow> pool_instruction_format_error + bytes"
    and dec_st :: "bytes \<Rightarrow> pool_instruction_format_error + 's"
    and st_ok :: "'s \<Rightarrow> bool"
  assumes st_dec_enc: "st_ok s \<Longrightarrow> check s = Inr () \<Longrightarrow> enc_st s = Inr t \<Longrightarrow> dec_st t = Inr s"
    and st_enc_dec: "dec_st t = Inr s \<Longrightarrow> check s = Inr () \<and> enc_st s = Inr t \<and> st_ok s"
    and st_length: "dec_st t = Inr s \<Longrightarrow> length t = 216"
begin

abbreviation matches :: "anchor_envelope \<Rightarrow> 's \<Rightarrow> pool_instruction_format_error + unit" where
  "matches e s \<equiv> require_envelope_statement_match e kind (sm_pool (common_of s)) (sm_deployment_domain (common_of s))
     (sm_anchor_sequence (common_of s)) (sm_anchor_root (common_of s)) (sm_nullifier (common_of s))"

abbreviation enc :: "bytes \<Rightarrow> anchor_envelope \<times> 's \<times> bytes \<Rightarrow> pool_instruction_format_error + bytes" where
  "enc magic i \<equiv> (case i of (e, s, _) \<Rightarrow> bindE (matches e s) (\<lambda>_. bindE (check s) (\<lambda>_.
     bindE (map_err (\<lambda>_. PInvalidEnvelope) (encode_historical_anchor_envelope_v1 e)) (\<lambda>eb.
     bindE (enc_st s) (\<lambda>t. Inr (spend_instruction_image magic kind eb t))))))"

abbreviation dec :: "bytes \<Rightarrow> bytes \<Rightarrow> pool_instruction_format_error + (anchor_envelope \<times> 's \<times> bytes)" where
  "dec magic b \<equiv> (if length b \<noteq> POOL_V1_SPEND_INSTRUCTION_BYTES then Inl PWrongLength
     else bindE (require_exact_header b magic kind) (\<lambda>_.
     bindE (map_err (\<lambda>_. PInvalidEnvelope) (decode_historical_anchor_envelope_v1 (seg 8 216 b))) (\<lambda>e.
     bindE (dec_st (drop 216 b)) (\<lambda>s. bindE (matches e s) (\<lambda>_. Inr (e, s, drop 216 b))))))"

lemma spend_codec:
  assumes "length magic = 4"
  shows "image_codec (enc magic) (dec magic) (\<lambda>(e, s, t). envelope_ok e \<and> st_ok s \<and> enc_st s = Inr t) 432"
proof unfold_locales
  fix i :: "anchor_envelope \<times> 's \<times> bytes" and b
  obtain e s t where i: "i = (e, s, t)" by (cases i)
  show "dec magic b = Inr i" if ok: "case i of (e, s, t) \<Rightarrow> envelope_ok e \<and> st_ok s \<and> enc_st s = Inr t" and "enc magic i = Inr b"
  proof -
    from that obtain eb where e: "matches e s = Inr ()" "check s = Inr ()" "encode_historical_anchor_envelope_v1 e = Inr eb"
        "b = spend_instruction_image magic kind eb t" "envelope_ok e" "st_ok s" "enc_st s = Inr t"
      by (auto simp: i)
    have st: "dec_st t = Inr s" using e st_dec_enc by blast
    have len: "length eb = 208" "length t = 216"
      using envelope_codec.length_enc [OF e(5,3)] st_length [OF st] by (simp_all add: layout_defs)
    note fields = spend_image_fields [OF assms len, of kind]
    show ?thesis
      using e fields st envelope_codec.dec_enc [OF e(5,3)]
      by (simp add: i require_exact_header_def layout_defs drop_eq_seg [of _ 432])
  qed
  assume run: "dec magic b = Inr i"
  then have len: "length b = 432" by (auto simp: layout_defs split: if_splits)
  from run have head: "require_exact_header b magic kind = Inr ()" and e: "decode_historical_anchor_envelope_v1 (seg 8 216 b) = Inr e"
    and s: "dec_st (drop 216 b) = Inr s" and m: "matches e s = Inr ()" and t: "t = drop 216 b"
    by (auto simp: i split: if_splits)
  note st = st_enc_dec [OF s]
  show "case i of (e, s, t) \<Rightarrow> envelope_ok e \<and> st_ok s \<and> enc_st s = Inr t"
    using st envelope_codec.wf_dec [OF e] by (simp add: i t)
  show "length b = 432" by (rule len)
  have lens: "length (seg 8 216 b) = 208" "length (drop 216 b) = 216" using len by simp_all
  have "spend_instruction_image magic kind (seg 8 216 b) (drop 216 b) = b"
  proof (rule agree_on_eq [where cs = "[4, 5, 6, 7, 8, 216, 432]"])
    show "agree_on [0, 4, 5, 6, 7, 8, 216, 432] (spend_instruction_image magic kind (seg 8 216 b) (drop 216 b)) b"
      using spend_image_fields [OF assms lens, of kind] head len
      by (auto simp: require_exact_header_def seg_one drop_eq_seg [of _ 432] split: if_splits)
  qed (use spend_image_fields(1) [OF assms lens] len in simp_all)
  then show "enc magic i = Inr b"
    using m st envelope_codec.enc_dec [OF e] by (simp add: i)
qed

lemma spend_accepts:
  assumes "length magic = 4"
  shows "dec magic b = Inr (e, s, t) \<longleftrightarrow> envelope_ok e \<and> st_ok s \<and> enc_st s = Inr t \<and> enc magic (e, s, t) = Inr b"
proof
  note codec = image_codec.axioms(1) [OF spend_codec [OF assms]]
  show "envelope_ok e \<and> st_ok s \<and> enc_st s = Inr t \<and> enc magic (e, s, t) = Inr b" if "dec magic b = Inr (e, s, t)"
    using canonical_codec.wf_dec [OF codec that] canonical_codec.enc_dec [OF codec that] by (simp only: prod.case simp_thms)
  show "dec magic b = Inr (e, s, t)" if r: "envelope_ok e \<and> st_ok s \<and> enc_st s = Inr t \<and> enc magic (e, s, t) = Inr b"
    by (rule canonical_codec.dec_enc [OF codec _ r [THEN conjunct2, THEN conjunct2, THEN conjunct2]]) (unfold prod.case, use r in blast)
qed

lemma pair_magic:
  assumes "length magic = 4" "length magic' = 4" "envelope_ok e" "st_ok s"
  shows "bindE (enc magic (e, s, t)) (\<lambda>b. Inr (put 0 magic' b)) = enc magic' (e, s, t)"
proof (cases "\<exists>b. enc magic (e, s, t) = Inr b")
  case True
  then obtain eb u where e: "matches e s = Inr ()" "check s = Inr ()" "encode_historical_anchor_envelope_v1 e = Inr eb" "enc_st s = Inr u"
    by auto
  have "length eb = 208" "length u = 216"
    using envelope_codec.length_enc [OF assms(3) e(3)] st_length [OF st_dec_enc [OF assms(4) e(2,4)]] by (simp_all add: layout_defs)
  with e assms show ?thesis by (simp add: spend_image_magic)
next
  case False
  then show ?thesis
    by (cases "matches e s"; cases "check s"; cases "encode_historical_anchor_envelope_v1 e"; cases "enc_st s") simp_all
qed

end

section \<open>Statements\<close>

definition common_ok :: "statement_common \<Rightarrow> bool" where
  "common_ok c \<longleftrightarrow> length (sm_pool c) = 32 \<and> length (sm_deployment_domain c) = 32 \<and> length (sm_anchor_root c) = 8
     \<and> length (sm_nullifier c) = 8"

definition common_canonical :: "statement_common \<Rightarrow> bool" where
  "common_canonical c \<longleftrightarrow> canon (sm_asset_id c) \<and> canonical_digest (sm_anchor_root c) \<and> canonical_digest (sm_nullifier c)"

definition statement_image :: "bytes \<Rightarrow> transition_kind \<Rightarrow> statement_common \<Rightarrow> bytes \<Rightarrow> bytes \<Rightarrow> bytes \<Rightarrow> bytes" where
  "statement_image magic kind c amount first second =
     put 184 second (put 152 first (put 148 amount (put 144 (m31_to_le_bytes (sm_asset_id c))
       (put 112 (encode_digest_canonical (sm_nullifier c)) (put 80 (encode_digest_canonical (sm_anchor_root c))
       (put 72 (to_le 8 (sm_anchor_sequence c)) (put 40 (sm_deployment_domain c) (put 8 (sm_pool c)
       (((put 0 magic (zeros 216))[4 := 1, 5 := transition_kind_byte kind])[6 := POOL_V1_DIGEST_ENCODING_VERSION])))))))))"

lemma encode_common_eq:
  "bindE (encode_statement_common (zeros POOL_V1_TRANSITION_STATEMENT_BYTES) magic kind c) (\<lambda>b.
     Inr (put 184 second (put 152 first (put 148 amount b)))) = Inr t \<longleftrightarrow>
   common_canonical c \<and> t = statement_image magic kind c amount first second"
  by (auto simp: encode_statement_common_def statement_image_def common_canonical_def canon_def Let_def layout_defs not_le)

lemma statement_image_fields:
  assumes "length magic = 4" "common_ok c" "length amount = 4" "length first = 32" "length second = 32"
  shows "length (statement_image magic kind c amount first second) = 216"
    "seg 0 4 (statement_image magic kind c amount first second) = magic"
    "statement_image magic kind c amount first second ! 4 = 1"
    "statement_image magic kind c amount first second ! 5 = transition_kind_byte kind"
    "statement_image magic kind c amount first second ! 6 = POOL_V1_DIGEST_ENCODING_VERSION"
    "statement_image magic kind c amount first second ! 7 = 0"
    "seg 8 40 (statement_image magic kind c amount first second) = sm_pool c"
    "seg 40 72 (statement_image magic kind c amount first second) = sm_deployment_domain c"
    "seg 72 80 (statement_image magic kind c amount first second) = to_le 8 (sm_anchor_sequence c)"
    "seg 80 112 (statement_image magic kind c amount first second) = encode_digest_canonical (sm_anchor_root c)"
    "seg 112 144 (statement_image magic kind c amount first second) = encode_digest_canonical (sm_nullifier c)"
    "seg 144 148 (statement_image magic kind c amount first second) = m31_to_le_bytes (sm_asset_id c)"
    "seg 148 152 (statement_image magic kind c amount first second) = amount"
    "seg 152 184 (statement_image magic kind c amount first second) = first"
    "seg 184 216 (statement_image magic kind c amount first second) = second"
  using assms by (simp_all add: statement_image_def common_ok_def m31_to_le_bytes_def image_simps)

lemma decode_common_eq:
  assumes "length magic = 4"
  shows "decode_statement_common t magic kind = Inr c \<longleftrightarrow> common_ok c \<and> common_canonical c \<and> length t = 216
    \<and> statement_image magic kind c (seg 148 152 t) (seg 152 184 t) (seg 184 216 t) = t"
proof
  assume dec: "decode_statement_common t magic kind = Inr c"
  then have len: "length t = 216" by (auto simp: decode_statement_common_def layout_defs split: if_splits)
  from dec len have ok: "common_ok c" "common_canonical c"
    by (auto simp: decode_statement_common_def Let_def layout_defs common_ok_def common_canonical_def canon_def
        decode_digest_eq_Inr digest_ok_def canonical_digest_iff not_le split: if_splits)
  have lens: "length (seg 148 152 t) = 4" "length (seg 152 184 t) = 32" "length (seg 184 216 t) = 32" using len by simp_all
  note fields = statement_image_fields [OF assms ok(1) lens, of kind]
  have "statement_image magic kind c (seg 148 152 t) (seg 152 184 t) (seg 184 216 t) = t"
  proof (rule agree_on_eq [where cs = "[4, 5, 6, 7, 8, 40, 72, 80, 112, 144, 148, 152, 184, 216]"])
    show "agree_on [0, 4, 5, 6, 7, 8, 40, 72, 80, 112, 144, 148, 152, 184, 216]
        (statement_image magic kind c (seg 148 152 t) (seg 152 184 t) (seg 184 216 t)) t"
      using dec len fields
      by (auto simp: decode_statement_common_def Let_def layout_defs seg_one decode_digest_eq_Inr m31_to_le_bytes_def split: if_splits)
  qed (use fields len in simp_all)
  with ok len show "common_ok c \<and> common_canonical c \<and> length t = 216
    \<and> statement_image magic kind c (seg 148 152 t) (seg 152 184 t) (seg 184 216 t) = t" by blast
next
  assume c: "common_ok c \<and> common_canonical c \<and> length t = 216
    \<and> statement_image magic kind c (seg 148 152 t) (seg 152 184 t) (seg 184 216 t) = t"
  then have "digest_ok (sm_anchor_root c)" "digest_ok (sm_nullifier c)"
    using canonical_digest_iff by (auto simp: common_ok_def common_canonical_def)
  with c statement_image_fields [OF assms, of c "seg 148 152 t" "seg 152 184 t" "seg 184 216 t" kind]
  show "decode_statement_common t magic kind = Inr c"
    by (cases c) (simp add: decode_statement_common_def Let_def layout_defs common_canonical_def canon_def m31_to_le_bytes_def not_le)
qed

lemma image_decodes_common:
  assumes "length magic = 4" "common_ok c" "common_canonical c" "length amount = 4" "length first = 32" "length second = 32"
  shows "decode_statement_common (statement_image magic kind c amount first second) magic kind = Inr c"
  using assms statement_image_fields [OF assms(1,2,4-6), of kind] by (simp add: decode_common_eq)

definition transfer_ok :: "transfer_statement \<Rightarrow> bool" where
  "transfer_ok s \<longleftrightarrow> common_ok (transfer_common s) \<and> length (ts_recipient_commitment s) = 8 \<and> length (ts_change_commitment s) = 8"

definition withdrawal_ok :: "withdrawal_statement \<Rightarrow> bool" where
  "withdrawal_ok s \<longleftrightarrow> common_ok (withdrawal_common s) \<and> length (ws_destination_token_account s) = 32
     \<and> length (ws_change_commitment s) = 8"

definition transfer_check :: "transfer_statement \<Rightarrow> pool_instruction_format_error + unit" where
  "transfer_check s = (if \<not> canonical_digest (ts_recipient_commitment s) \<or> \<not> canonical_digest (ts_change_commitment s)
     then Inl PNonCanonicalField else Inr ())"

definition withdrawal_check :: "withdrawal_statement \<Rightarrow> pool_instruction_format_error + unit" where
  "withdrawal_check s = (if ws_amount s = 0 \<or> VALUE_LIMIT \<le> ws_amount s then Inl PInvalidWithdrawalAmount
     else if ws_destination_token_account s = zeros 32 then Inl PInvalidDestination
     else if \<not> canonical_digest (ws_change_commitment s) then Inl PNonCanonicalField else Inr ())"

lemma encode_transfer_eq:
  "encode_transfer_statement s = Inr t \<longleftrightarrow> common_canonical (transfer_common s)
     \<and> t = statement_image POOL_V1_PRIVATE_TRANSFER_STATEMENT_MAGIC PrivateTransfer (transfer_common s) (zeros 4)
         (encode_digest_canonical (ts_recipient_commitment s)) (encode_digest_canonical (ts_change_commitment s))"
  using encode_common_eq [of POOL_V1_PRIVATE_TRANSFER_STATEMENT_MAGIC PrivateTransfer "transfer_common s"]
  by (simp add: encode_transfer_statement_def Let_def layout_defs)

lemma encode_withdrawal_eq:
  "encode_withdrawal_statement s = Inr t \<longleftrightarrow> common_canonical (withdrawal_common s)
     \<and> t = statement_image POOL_V1_WITHDRAWAL_STATEMENT_MAGIC Withdrawal (withdrawal_common s) (to_le 4 (ws_amount s))
         (ws_destination_token_account s) (encode_digest_canonical (ws_change_commitment s))"
  using encode_common_eq [of POOL_V1_WITHDRAWAL_STATEMENT_MAGIC Withdrawal "withdrawal_common s"]
  by (simp add: encode_withdrawal_statement_def Let_def layout_defs)

interpretation transfer_wire: spend_wire PrivateTransfer transfer_common transfer_check encode_transfer_statement
  decode_transfer_statement transfer_ok
proof unfold_locales
  fix s t
  show "decode_transfer_statement t = Inr s" if ok: "transfer_ok s" and "transfer_check s = Inr ()" "encode_transfer_statement s = Inr t"
  proof -
    from that have d: "digest_ok (ts_recipient_commitment s)" "digest_ok (ts_change_commitment s)"
      by (auto simp: transfer_check_def transfer_ok_def canonical_digest_iff split: if_splits)
    from that have can: "common_canonical (transfer_common s)" by (simp add: encode_transfer_eq)
    let ?c = "transfer_common s" and ?m = POOL_V1_PRIVATE_TRANSFER_STATEMENT_MAGIC
      and ?r = "encode_digest_canonical (ts_recipient_commitment s)" and ?g = "encode_digest_canonical (ts_change_commitment s)"
    have m: "length ?m = 4" "common_ok ?c" "length (zeros 4) = 4" "length ?r = 32" "length ?g = 32"
      using ok by (simp_all add: layout_defs transfer_ok_def)
    from that have t: "t = statement_image ?m PrivateTransfer ?c (zeros 4) ?r ?g" by (simp add: encode_transfer_eq)
    show ?thesis
      using image_decodes_common [OF m(1,2) can m(3-5), of PrivateTransfer] statement_image_fields(1,13-15) [OF m, of PrivateTransfer] d
      by (cases s) (simp add: decode_transfer_statement_def t layout_defs drop_eq_seg [of _ 216], simp add: transfer_common_def)
  qed
  assume dec: "decode_transfer_statement t = Inr s"
  then obtain c where c: "decode_statement_common t POOL_V1_PRIVATE_TRANSFER_STATEMENT_MAGIC PrivateTransfer = Inr c"
    by (auto simp: decode_transfer_statement_def)
  then have ok: "common_ok c" "common_canonical c" "length t = 216"
      "statement_image POOL_V1_PRIVATE_TRANSFER_STATEMENT_MAGIC PrivateTransfer c (seg 148 152 t) (seg 152 184 t) (seg 184 216 t) = t"
    using decode_common_eq [of POOL_V1_PRIVATE_TRANSFER_STATEMENT_MAGIC t PrivateTransfer c] by (auto simp: layout_defs)
  have s: "transfer_common s = c" "seg 148 152 t = zeros 4" "digest_ok (ts_recipient_commitment s)" "digest_ok (ts_change_commitment s)"
      "encode_digest_canonical (ts_recipient_commitment s) = seg 152 184 t" "encode_digest_canonical (ts_change_commitment s) = seg 184 216 t"
    using dec c ok(3) by (auto simp: decode_transfer_statement_def layout_defs decode_digest_eq_Inr drop_eq_seg [of _ 216]
        transfer_common_def split: if_splits)
  show "transfer_check s = Inr () \<and> encode_transfer_statement s = Inr t \<and> transfer_ok s"
    using s ok by (simp add: transfer_check_def encode_transfer_eq transfer_ok_def canonical_digest_iff digest_ok_def)
  show "length t = 216" by (rule ok(3))
qed

interpretation withdrawal_wire: spend_wire Withdrawal withdrawal_common withdrawal_check encode_withdrawal_statement
  decode_withdrawal_statement withdrawal_ok
proof unfold_locales
  fix s t
  show "decode_withdrawal_statement t = Inr s" if ok: "withdrawal_ok s" and "withdrawal_check s = Inr ()" "encode_withdrawal_statement s = Inr t"
  proof -
    from that have d: "digest_ok (ws_change_commitment s)" "ws_amount s \<noteq> 0" "ws_amount s < VALUE_LIMIT"
        "ws_destination_token_account s \<noteq> zeros 32"
      by (auto simp: withdrawal_check_def withdrawal_ok_def canonical_digest_iff not_le split: if_splits)
    from that have can: "common_canonical (withdrawal_common s)" by (simp add: encode_withdrawal_eq)
    let ?c = "withdrawal_common s" and ?m = POOL_V1_WITHDRAWAL_STATEMENT_MAGIC
      and ?a = "to_le 4 (ws_amount s)" and ?d = "ws_destination_token_account s" and ?g = "encode_digest_canonical (ws_change_commitment s)"
    have m: "length ?m = 4" "common_ok ?c" "length ?a = 4" "length ?d = 32" "length ?g = 32"
      using ok by (simp_all add: layout_defs withdrawal_ok_def)
    from that have t: "t = statement_image ?m Withdrawal ?c ?a ?d ?g" by (simp add: encode_withdrawal_eq)
    show ?thesis
      using image_decodes_common [OF m(1,2) can m(3-5), of Withdrawal] statement_image_fields(1,13-15) [OF m, of Withdrawal] d
      by (cases s) (simp add: decode_withdrawal_statement_def t layout_defs drop_eq_seg [of _ 216] not_le, simp add: withdrawal_common_def)
  qed
  assume dec: "decode_withdrawal_statement t = Inr s"
  then obtain c where c: "decode_statement_common t POOL_V1_WITHDRAWAL_STATEMENT_MAGIC Withdrawal = Inr c"
    by (auto simp: decode_withdrawal_statement_def)
  then have ok: "common_ok c" "common_canonical c" "length t = 216"
      "statement_image POOL_V1_WITHDRAWAL_STATEMENT_MAGIC Withdrawal c (seg 148 152 t) (seg 152 184 t) (seg 184 216 t) = t"
    using decode_common_eq [of POOL_V1_WITHDRAWAL_STATEMENT_MAGIC t Withdrawal c] by (auto simp: layout_defs)
  have s: "withdrawal_common s = c" "ws_amount s = from_le (seg 148 152 t)" "ws_amount s \<noteq> 0" "ws_amount s < VALUE_LIMIT"
      "ws_destination_token_account s = seg 152 184 t" "ws_destination_token_account s \<noteq> zeros 32"
      "digest_ok (ws_change_commitment s)" "encode_digest_canonical (ws_change_commitment s) = seg 184 216 t"
    using dec c ok(3) by (auto simp: decode_withdrawal_statement_def Let_def layout_defs decode_digest_eq_Inr drop_eq_seg [of _ 216]
        withdrawal_common_def not_le split: if_splits)
  show "withdrawal_check s = Inr () \<and> encode_withdrawal_statement s = Inr t \<and> withdrawal_ok s"
    using s ok by (simp add: withdrawal_check_def encode_withdrawal_eq withdrawal_ok_def canonical_digest_iff digest_ok_def not_le)
  show "length t = 216" by (rule ok(3))
qed

section \<open>The wires of the program\<close>

lemma transfer_decode_eq:
  "decode_private_transfer_with_magic_v1 b magic = Inr i \<longleftrightarrow>
     transfer_wire.dec magic b = Inr (pt_envelope i, pt_statement i, pt_statement_payload i)"
  by (cases i) (auto simp: decode_private_transfer_with_magic_v1_def Let_def layout_defs transfer_common_def)

lemma transfer_encode_eq:
  "encode_private_transfer_instruction_v1 e s = transfer_wire.enc POOL_V1_PRIVATE_TRANSFER_INSTRUCTION_MAGIC (e, s, t)"
  by (simp add: encode_private_transfer_instruction_v1_def transfer_check_def transfer_common_def)

lemma withdrawal_decode_eq:
  "decode_withdrawal_with_magic_v1 b magic = Inr i \<longleftrightarrow>
     withdrawal_wire.dec magic b = Inr (wi_envelope i, wi_statement i, wi_statement_payload i)"
  by (cases i) (auto simp: decode_withdrawal_with_magic_v1_def Let_def layout_defs withdrawal_common_def)

lemma withdrawal_encode_eq:
  "encode_withdrawal_instruction_v1 e s = withdrawal_wire.enc POOL_V1_WITHDRAWAL_INSTRUCTION_MAGIC (e, s, t)"
  by (simp add: encode_withdrawal_instruction_v1_def withdrawal_check_def withdrawal_common_def)

text \<open>The payload handed to the verifier is the encoding of the decoded statement.\<close>

definition transfer_instruction_ok :: "private_transfer_instruction \<Rightarrow> bool" where
  "transfer_instruction_ok i \<longleftrightarrow> envelope_ok (pt_envelope i) \<and> transfer_ok (pt_statement i)
     \<and> encode_transfer_statement (pt_statement i) = Inr (pt_statement_payload i)"

definition withdrawal_instruction_ok :: "withdrawal_instruction \<Rightarrow> bool" where
  "withdrawal_instruction_ok i \<longleftrightarrow> envelope_ok (wi_envelope i) \<and> withdrawal_ok (wi_statement i)
     \<and> encode_withdrawal_statement (wi_statement i) = Inr (wi_statement_payload i)"

lemma magic_lengths:
  "length POOL_V1_PRIVATE_TRANSFER_INSTRUCTION_MAGIC = 4" "length POOL_V1_PAIR_PRIVATE_TRANSFER_INSTRUCTION_MAGIC = 4"
  "length POOL_V1_WITHDRAWAL_INSTRUCTION_MAGIC = 4" "length POOL_V1_PAIR_WITHDRAWAL_INSTRUCTION_MAGIC = 4"
  by (simp_all add: layout_defs)

lemma transfer_instruction_eq:
  "decode_private_transfer_instruction_v1 b = Inr i \<longleftrightarrow> transfer_instruction_ok i
     \<and> encode_private_transfer_instruction_v1 (pt_envelope i) (pt_statement i) = Inr b"
  "decode_pair_private_transfer_instruction_v1 b = Inr i \<longleftrightarrow> transfer_instruction_ok i
     \<and> encode_pair_private_transfer_instruction_v1 (pt_envelope i) (pt_statement i) = Inr b"
proof -
  show "decode_private_transfer_instruction_v1 b = Inr i \<longleftrightarrow> transfer_instruction_ok i
     \<and> encode_private_transfer_instruction_v1 (pt_envelope i) (pt_statement i) = Inr b"
    unfolding decode_private_transfer_instruction_v1_def transfer_decode_eq transfer_wire.spend_accepts [OF magic_lengths(1)]
      transfer_encode_eq [of _ _ "pt_statement_payload i"] transfer_instruction_ok_def by (simp only: conj_assoc)
  show "decode_pair_private_transfer_instruction_v1 b = Inr i \<longleftrightarrow> transfer_instruction_ok i
     \<and> encode_pair_private_transfer_instruction_v1 (pt_envelope i) (pt_statement i) = Inr b"
  proof -
    have eq: "encode_pair_private_transfer_instruction_v1 (pt_envelope i) (pt_statement i)
        = transfer_wire.enc POOL_V1_PAIR_PRIVATE_TRANSFER_INSTRUCTION_MAGIC (pt_envelope i, pt_statement i, pt_statement_payload i)"
      if "transfer_instruction_ok i"
      using that unfolding encode_pair_private_transfer_instruction_v1_def transfer_encode_eq [of _ _ "pt_statement_payload i"] transfer_instruction_ok_def
      by (intro transfer_wire.pair_magic [OF magic_lengths(1,2)]) simp_all
    have "decode_pair_private_transfer_instruction_v1 b = Inr i \<longleftrightarrow> transfer_instruction_ok i
        \<and> transfer_wire.enc POOL_V1_PAIR_PRIVATE_TRANSFER_INSTRUCTION_MAGIC (pt_envelope i, pt_statement i, pt_statement_payload i) = Inr b"
      unfolding decode_pair_private_transfer_instruction_v1_def transfer_decode_eq transfer_wire.spend_accepts [OF magic_lengths(2)] transfer_instruction_ok_def
      by (simp only: conj_assoc)
    also have "\<dots> \<longleftrightarrow> transfer_instruction_ok i \<and> encode_pair_private_transfer_instruction_v1 (pt_envelope i) (pt_statement i) = Inr b"
      by (rule conj_cong [OF refl]) (simp only: eq)
    finally show ?thesis .
  qed
qed

lemma withdrawal_instruction_eq:
  "decode_withdrawal_instruction_v1 b = Inr i \<longleftrightarrow> withdrawal_instruction_ok i
     \<and> encode_withdrawal_instruction_v1 (wi_envelope i) (wi_statement i) = Inr b"
  "decode_pair_withdrawal_instruction_v1 b = Inr i \<longleftrightarrow> withdrawal_instruction_ok i
     \<and> encode_pair_withdrawal_instruction_v1 (wi_envelope i) (wi_statement i) = Inr b"
proof -
  show "decode_withdrawal_instruction_v1 b = Inr i \<longleftrightarrow> withdrawal_instruction_ok i
     \<and> encode_withdrawal_instruction_v1 (wi_envelope i) (wi_statement i) = Inr b"
    unfolding decode_withdrawal_instruction_v1_def withdrawal_decode_eq withdrawal_wire.spend_accepts [OF magic_lengths(3)]
      withdrawal_encode_eq [of _ _ "wi_statement_payload i"] withdrawal_instruction_ok_def by (simp only: conj_assoc)
  show "decode_pair_withdrawal_instruction_v1 b = Inr i \<longleftrightarrow> withdrawal_instruction_ok i
     \<and> encode_pair_withdrawal_instruction_v1 (wi_envelope i) (wi_statement i) = Inr b"
  proof -
    have eq: "encode_pair_withdrawal_instruction_v1 (wi_envelope i) (wi_statement i)
        = withdrawal_wire.enc POOL_V1_PAIR_WITHDRAWAL_INSTRUCTION_MAGIC (wi_envelope i, wi_statement i, wi_statement_payload i)"
      if "withdrawal_instruction_ok i"
      using that unfolding encode_pair_withdrawal_instruction_v1_def withdrawal_encode_eq [of _ _ "wi_statement_payload i"] withdrawal_instruction_ok_def
      by (intro withdrawal_wire.pair_magic [OF magic_lengths(3,4)]) simp_all
    have "decode_pair_withdrawal_instruction_v1 b = Inr i \<longleftrightarrow> withdrawal_instruction_ok i
        \<and> withdrawal_wire.enc POOL_V1_PAIR_WITHDRAWAL_INSTRUCTION_MAGIC (wi_envelope i, wi_statement i, wi_statement_payload i) = Inr b"
      unfolding decode_pair_withdrawal_instruction_v1_def withdrawal_decode_eq withdrawal_wire.spend_accepts [OF magic_lengths(4)] withdrawal_instruction_ok_def
      by (simp only: conj_assoc)
    also have "\<dots> \<longleftrightarrow> withdrawal_instruction_ok i \<and> encode_pair_withdrawal_instruction_v1 (wi_envelope i) (wi_statement i) = Inr b"
      by (rule conj_cong [OF refl]) (simp only: eq)
    finally show ?thesis .
  qed
qed

interpretation initialize_codec: image_codec encode_initialize_instruction_v1 decode_initialize_instruction_v1
  initialization_ok POOL_V1_INITIALIZE_INSTRUCTION_BYTES
proof (rule image_codecI [where img = "\<lambda>i. initialize_instruction_image i (verifier_policy_v1_image (pi_verifier_policy i))"
      and check = "\<lambda>i. if pi_token_program i \<noteq> LEGACY_SPL_TOKEN_PROGRAM_ID \<or> M31_P \<le> limb (pi_asset_id i) then Inl PNonCanonicalField
        else bindE (map_err (\<lambda>_. PInvalidPolicy) (validate_verifier_policy_v1 (pi_verifier_policy i))) (\<lambda>_. Inr ())"
      and cs = "[4, 5, 8, 40, 44, 48, 80, 184]"])
  fix i
  let ?img = "initialize_instruction_image i (verifier_policy_v1_image (pi_verifier_policy i))"
  let ?check = "if pi_token_program i \<noteq> LEGACY_SPL_TOKEN_PROGRAM_ID \<or> M31_P \<le> limb (pi_asset_id i) then Inl PNonCanonicalField
        else bindE (map_err (\<lambda>_. PInvalidPolicy) (validate_verifier_policy_v1 (pi_verifier_policy i))) (\<lambda>_. Inr ())"
  show "encode_initialize_instruction_v1 i = bindE ?check (\<lambda>_. Inr ?img)"
    by (cases "validate_verifier_policy_v1 (pi_verifier_policy i)")
      (simp_all add: encode_initialize_instruction_v1_def encode_verifier_policy_v1_def)
  assume ok: "initialization_ok i"
  then have pol: "length (verifier_policy_v1_image (pi_verifier_policy i)) = 104"
    by (simp add: initialization_ok_def policy_ok_def verifier_policy_v1_image_def Let_def layout_defs)
  show "length ?img = POOL_V1_INITIALIZE_INSTRUCTION_BYTES"
    using ok pol by (simp add: initialize_instruction_image_def initialization_ok_def Let_def layout_defs m31_to_le_bytes_def)
  assume "?check = Inr ()"
  then have "decode_verifier_policy_v1 (verifier_policy_v1_image (pi_verifier_policy i)) = Inr (pi_verifier_policy i)"
      "pi_token_program i = LEGACY_SPL_TOKEN_PROGRAM_ID" "limb (pi_asset_id i) < M31_P"
    using ok policy_codec.dec_enc [of "pi_verifier_policy i"]
    by (auto simp: initialization_ok_def encode_verifier_policy_v1_def not_le split: if_splits)
  then show "decode_initialize_instruction_v1 ?img = Inr i"
    using ok pol by (cases i) (simp add: decode_initialize_instruction_v1_def initialize_instruction_image_def initialization_ok_def
        Let_def layout_defs m31_to_le_bytes_def image_simps not_le drop_eq_seg [of _ 184])
next
  fix b i assume dec: "decode_initialize_instruction_v1 b = Inr i"
  then have pol: "decode_verifier_policy_v1 (drop 80 b) = Inr (pi_verifier_policy i)" and len: "length b = 184"
    by (auto simp: decode_initialize_instruction_v1_def Let_def layout_defs split: if_splits)
  then have enc: "validate_verifier_policy_v1 (pi_verifier_policy i) = Inr ()" "verifier_policy_v1_image (pi_verifier_policy i) = drop 80 b"
      "policy_ok (pi_verifier_policy i)"
    using policy_codec.enc_dec policy_codec.wf_dec by (auto simp: encode_verifier_policy_v1_def)
  show "length b = POOL_V1_INITIALIZE_INSTRUCTION_BYTES \<and> initialization_ok i
      \<and> (if pi_token_program i \<noteq> LEGACY_SPL_TOKEN_PROGRAM_ID \<or> M31_P \<le> limb (pi_asset_id i) then Inl PNonCanonicalField
        else bindE (map_err (\<lambda>_. PInvalidPolicy) (validate_verifier_policy_v1 (pi_verifier_policy i))) (\<lambda>_. Inr ())) = Inr ()"
    using dec enc len by (auto simp: decode_initialize_instruction_v1_def initialization_ok_def Let_def layout_defs split: if_splits)
  assume "initialization_ok i"
  show "agree_on [0, 4, 5, 8, 40, 44, 48, 80, 184] (initialize_instruction_image i (verifier_policy_v1_image (pi_verifier_policy i))) b"
    using dec enc len by (auto simp: decode_initialize_instruction_v1_def initialize_instruction_image_def Let_def layout_defs
        image_simps seg_one m31_to_le_bytes_def drop_eq_seg [of _ 184] split: if_splits)
qed (simp_all add: layout_defs)

end
