(* ===== verification/PoolAppend.thy ===== *)
theory PoolAppend
  imports TransitionCorrect
begin

text \<open>
  The append of the pool program seen from its accounts. \<open>state_holds\<close> and \<open>page_holds\<close> say what the state account and the current
  page hold for a list of leaves; every entry point of \<open>transition.rs\<close>, whatever evidence it starts from, has the one
  outcome \<open>append_outcome\<close> on such accounts, and the accounts it leaves hold the extended list.
\<close>

section \<open>Accounts that hold a list of leaves\<close>

definition state_holds :: "account \<Rightarrow> pool_state \<Rightarrow> digest list \<Rightarrow> bool" where
  "state_holds account s leaves \<longleftrightarrow> pool_represents s leaves \<and> id_pool (ps_identity s) = ac_key account
     \<and> ac_data account = write_encoding_prevalidated s"

definition page_holds :: "bytes \<Rightarrow> digest list \<Rightarrow> nat \<Rightarrow> account \<Rightarrow> bool" where
  "page_holds pool leaves p account \<longleftrightarrow> ac_data account = history_page pool leaves p"

lemma state_holds_facts:
  assumes "state_holds account s leaves"
  shows "pool_represents s leaves" "length (ac_key account) = 32" "length (ac_data account) = POOL_V1_STATE_ACCOUNT_BYTES"
    "state_decode (ac_data account) (ac_key account) = Inr s"
    "decode_from_program_invariant (ac_data account) (ac_key account) = Inr s"
    "decode_with_validated_tree (ac_data account) (ac_key account) = Inr (s, \<lparr> vt_inner = ps_tree s, vt_empty = POOL_V1_EMPTY_ROOTS \<rparr>)"
proof -
  from assms have rep: "pool_represents s leaves" and key: "ac_key account = id_pool (ps_identity s)"
    and data: "ac_data account = write_encoding_prevalidated s" by (simp_all add: state_holds_def)
  note dec = represents_decodes [OF rep]
  show "pool_represents s leaves" by (rule rep)
  show "length (ac_key account) = 32" using rep key by (simp add: pool_represents_def identity_ok_def)
  show "length (ac_data account) = POOL_V1_STATE_ACCOUNT_BYTES"
    unfolding data state_bytes_eq using represents_state_ok [OF rep] by (rule state_image_fields)
  show "state_decode (ac_data account) (ac_key account) = Inr s" "decode_from_program_invariant (ac_data account) (ac_key account) = Inr s"
    unfolding data key by (rule dec)+
  have "validate_with_empty_roots (ps_tree s) POOL_V1_EMPTY_ROOTS = Inr ()"
    using rep validate_tree_of [of leaves] by (simp add: pool_represents_def pinned_empty_roots)
  then show "decode_with_validated_tree (ac_data account) (ac_key account) = Inr (s, \<lparr> vt_inner = ps_tree s, vt_empty = POOL_V1_EMPTY_ROOTS \<rparr>)"
    unfolding decode_with_validated_tree_eq using rep represents_state_ok [OF rep] key data by (simp add: pool_represents_def)
qed

lemma appended_holds:
  assumes "state_holds account s leaves" "list_all digest_ok new" "length leaves + length new \<le> 2 ^ 20"
  shows "state_holds (appended_pool account s (leaves @ new)) (s\<lparr> ps_tree := tree_of (leaves @ new) \<rparr>) (leaves @ new)"
  using assms represents_next [of s leaves new] by (simp add: state_holds_def appended_pool_def)

section \<open>The token of either decoder\<close>

lemma decoded_source:
  assumes holds: "state_holds account s leaves"
    and dec: "decode_account env program_id account = Inr c \<or> decode_account_from_program_invariant env program_id account = Inr c"
  shows "cp_state c = s" "source_sound (Canonical c)" "source_state (Canonical c) = s"
    "require_same_writable_account c program_id account = Inr ()"
    "ac_key account = fst (pool_v1_state_address env program_id (id_asset_mint (ps_identity s)))"
    "require_program_account account program_id True = Inr ()" "\<not> ac_is_signer account"
  using dec state_holds_facts(5,6) [OF holds] holds
  by (auto simp: decode_account_def decode_account_from_program_invariant_def require_same_writable_account_def
      source_sound_def source_state_def state_holds_def split: if_splits)

section \<open>The outcome\<close>

definition append_outcome ::
  "solana \<Rightarrow> bytes \<Rightarrow> account \<Rightarrow> account \<Rightarrow> account option \<Rightarrow> pool_state \<Rightarrow> digest list \<Rightarrow> authorized_append \<Rightarrow> program_error + unit
     \<Rightarrow> program_error + (account \<times> account \<times> account option) \<times> authorized_append_receipt" where
  "append_outcome env program_id pool_account current next_account s leaves request before_persist =
    (let n = length leaves; k = length (new_leaves request); p = n div 256; after = leaves @ new_leaves request
     in if n = 2 ^ 20 then pool_fail PoolTreeFull
        else if 2 ^ 20 < n + k then pool_fail InsufficientTreeCapacity
        else if ac_is_writable current \<noteq> ((n + 1) div 256 = p) then Inl InvalidAccountData
        else bindE (plan_next_page env program_id pool_account current next_account (of_nat p) ((n + k) div 256 - p)) (\<lambda>_.
          if ac_key pool_account = ac_key current then Inl InvalidAccountData
          else bindE before_persist (\<lambda>_.
            Inr ((appended_pool pool_account s after, with_history_page (ac_key pool_account) after p current,
                  map_option (with_history_page (ac_key pool_account) after (p + 1)) next_account),
                 append_receipt leaves request))))"

lemma checked_append_outcome:
  assumes holds: "state_holds pool_account s leaves"
    and page: "page_holds (ac_key pool_account) leaves (length leaves div 256) current"
    and src: "source_sound source" "source_state source = s" and new: "list_all digest_ok (new_leaves request)"
  shows "apply_authorized_append_after_checked_state_v1 env program_id pool_account current next_account source None request before_persist
    = bindE (require_program_owned current program_id) (\<lambda>_.
      bindE (require_root_page_address env program_id (ac_key pool_account) (of_nat (length leaves div 256)) current) (\<lambda>_.
      append_outcome env program_id pool_account current next_account s leaves request before_persist))"
proof -
  note facts = state_holds_facts [OF holds]
  note data = page [unfolded page_holds_def]
  note history = current_history_eq [OF facts(1,2) data, of env program_id]
  show ?thesis
  proof (cases "validate_current_history env program_id pool_account current s")
    case (Inl e)
    then have "apply_authorized_append_after_checked_state_v1 env program_id pool_account current next_account source None request before_persist = Inl e"
      by (simp add: apply_authorized_append_after_checked_state_v1_def src(2) Let_def)
    with Inl history show ?thesis
      by (cases "require_program_owned current program_id";
          cases "require_root_page_address env program_id (ac_key pool_account) (of_nat (length leaves div 256)) current") simp_all
  next
    case (Inr h)
    have ok: "require_program_owned current program_id = Inr ()"
        "require_root_page_address env program_id (ac_key pool_account) (of_nat (length leaves div 256)) current = Inr ()"
        "h = history_header (ac_key pool_account) leaves (length leaves div 256)" using history [symmetric] unfolding Inr by auto
    show ?thesis
      using Inr ok apply_append_eq [OF facts(1,2,3) data src new, where evidence = None and env = env and program_id = program_id]
      by (simp add: append_outcome_def)
  qed
qed

text \<open>The account list of an append, with the next page exactly when one is supplied.\<close>

definition append_accounts :: "account \<Rightarrow> account \<Rightarrow> account option \<Rightarrow> account list" where
  "append_accounts pool_account current next_account =
     pool_account # current # (case next_account of None \<Rightarrow> [] | Some a \<Rightarrow> [a])"

lemma split_accounts_eq:
  "split_append_accounts accounts = Inr (p, c, n) \<longleftrightarrow> accounts = append_accounts p c n"
  by (auto simp: split_append_accounts_def append_accounts_def split: list.splits option.splits)

lemma split_append_accounts [simp]: "split_append_accounts (append_accounts p c n) = Inr (p, c, n)"
  by (simp add: split_accounts_eq)

definition leaves_ok :: "authorized_append \<Rightarrow> bool" where
  "leaves_ok request \<longleftrightarrow> list_all (\<lambda>d. length d = 8) (new_leaves request)"

lemma validate_leaves_iff:
  "leaves_ok request \<Longrightarrow> validate_leaves request = Inr u \<longleftrightarrow> list_all digest_ok (new_leaves request)"
  by (cases request)
    (auto simp: leaves_ok_def validate_leaves_def new_leaves_def digest_is_canonical_def digest_ok_def canon_def list_all_iff)

lemma standalone_append_outcome:
  assumes holds: "state_holds pool_account s leaves"
    and page: "page_holds (ac_key pool_account) leaves (length leaves div 256) current" and ok: "leaves_ok request"
    and account: "require_program_account pool_account program_id True = Inr ()"
    and address: "ac_key pool_account = fst (pool_v1_state_address env program_id (id_asset_mint (ps_identity s)))"
  shows "apply_authorized_append_after_v1 env program_id (append_accounts pool_account current next_account) request before_persist
    = bindE (validate_leaves request) (\<lambda>_.
      bindE (require_program_owned current program_id) (\<lambda>_.
      bindE (require_root_page_address env program_id (ac_key pool_account) (of_nat (length leaves div 256)) current) (\<lambda>_.
      append_outcome env program_id pool_account current next_account s leaves request before_persist)))"
proof (cases "validate_leaves request")
  case (Inr u)
  then have new: "list_all digest_ok (new_leaves request)" using ok validate_leaves_iff by blast
  show ?thesis
    using Inr account address state_holds_facts(4) [OF holds]
      checked_append_outcome [OF holds page _ _ new, of "Standalone s"]
    by (simp add: apply_authorized_append_after_v1_def source_sound_def source_state_def)
qed (simp add: apply_authorized_append_after_v1_def account)

lemma prevalidated_append_outcome:
  assumes holds: "state_holds pool_account s leaves"
    and page: "page_holds (ac_key pool_account) leaves (length leaves div 256) current" and ok: "leaves_ok request"
    and dec: "decode_account env program_id pool_account = Inr c \<or> decode_account_from_program_invariant env program_id pool_account = Inr c"
  shows "apply_authorized_append_after_prevalidated_v1 env program_id (append_accounts pool_account current next_account) c request before_persist
    = apply_authorized_append_after_v1 env program_id (append_accounts pool_account current next_account) request before_persist"
proof -
  note src = decoded_source [OF holds dec]
  show ?thesis
  proof (cases "validate_leaves request")
    case (Inr u)
    then have new: "list_all digest_ok (new_leaves request)" using ok validate_leaves_iff by blast
    show ?thesis
      unfolding standalone_append_outcome [OF holds page ok src(6,5)]
      using Inr src checked_append_outcome [OF holds page src(2,3) new]
      by (simp add: apply_authorized_append_after_prevalidated_v1_def)
  qed (simp add: apply_authorized_append_after_prevalidated_v1_def apply_authorized_append_after_v1_def src)
qed

end
