(* ===== verification/Deposit.thy ===== *)
theory Deposit
  imports PoolAppend DepositFormats Vault
begin

text \<open>
  Vault-backed deposits, \<open>programs/aspis-pool/src/deposit.rs\<close> and the transport of
  \<open>programs/aspis-pool/src/deposit_transport.rs\<close>: one token transfer into the vault, checked before and after, and
  one leaf that commits to the amount. The token program's transfer is a parameter: from the instruction and the
  five accounts it is given to the accounts as it leaves them, or an error. A handler returns the state accounts,
  the token accounts and the event.
\<close>

section \<open>The deposit kernel\<close>

type_synonym token_transfer = "instruction \<Rightarrow> five_accounts \<Rightarrow> program_error + five_accounts"

type_synonym deposit_result = "((account \<times> account \<times> account option) \<times> account list) \<times> deposit_event"

definition validate_request :: "deposit_request \<Rightarrow> program_error + unit" where
  "validate_request request =
     (if rq_amount request = 0 \<or> VALUE_LIMIT \<le> rq_amount request then pool_fail InvalidDepositAmount
      else if POOL_V1_ENCRYPTED_NOTE_PAYLOAD_MAX_BYTES < length (rq_encrypted_note_payload request)
      then pool_fail InvalidEncryptedNotePayload
      else if \<not> digest_is_canonical (rq_owner_key request) \<or> \<not> digest_is_canonical (rq_salt request)
      then pool_fail NonCanonicalLeaf
      else Inr ())"

definition load_pool_state_for_deposit :: "solana \<Rightarrow> bytes \<Rightarrow> account list \<Rightarrow> program_error + pool_state" where
  "load_pool_state_for_deposit env program_id state_accounts = (case state_accounts of
     [] \<Rightarrow> Inl NotEnoughAccountKeys
   | pool_account # _ \<Rightarrow>
       bindE (require_program_account pool_account program_id True) (\<lambda>_.
       bindE (state_decode (ac_data pool_account) (ac_key pool_account)) (\<lambda>state.
       if ac_key pool_account \<noteq> fst (pool_v1_state_address env program_id (id_asset_mint (ps_identity state)))
       then pool_fail InvalidPoolStateAddress else Inr state)))"

definition require_disjoint_account_groups :: "account list \<Rightarrow> account list \<Rightarrow> program_error + unit" where
  "require_disjoint_account_groups state_accounts token_accounts =
     (if \<exists>state_account \<in> set state_accounts. \<exists>token_account \<in> set token_accounts. ac_key state_account = ac_key token_account
      then Inl InvalidArgument else Inr ())"

record prepared_deposit =
  pd_transfer_plan :: deposit_transfer_plan
  pd_transfer_infos :: five_accounts
  pd_note_commitment :: digest

definition prepare_deposit_after_state_validation_v1 ::
  "solana \<Rightarrow> bytes \<Rightarrow> pool_state \<Rightarrow> account list \<Rightarrow> deposit_request \<Rightarrow> program_error + prepared_deposit" where
  "prepare_deposit_after_state_validation_v1 env program_id state token_accounts request =
     (let pool = id_pool (ps_identity state)
      in bindE (plan_legacy_deposit_transfer_v1 env program_id pool state token_accounts (rq_amount request)) (\<lambda>transfer_plan.
         let note_commitment = pool_v1_note_commitment (rq_owner_key request) (rq_amount request)
               (id_asset_id (ps_identity state)) (rq_salt request)
         in bindE (exact_transfer_account_infos_v1 token_accounts) (\<lambda>transfer_infos.
         Inr \<lparr> pd_transfer_plan = transfer_plan, pd_transfer_infos = transfer_infos, pd_note_commitment = note_commitment \<rparr>)))"

definition finish_deposit_event_v1 ::
  "pool_state \<Rightarrow> deposit_request \<Rightarrow> prepared_deposit \<Rightarrow> authorized_append_receipt \<Rightarrow> deposit_event" where
  "finish_deposit_event_v1 state request prepared appended =
     \<lparr> de_receipt = \<lparr> dr_pool = id_pool (ps_identity state), dr_asset_mint = id_asset_mint (ps_identity state),
          dr_source_token_account = dp_source (pd_transfer_plan prepared),
          dr_vault_token_account = dp_vault (pd_transfer_plan prepared), dr_amount = rq_amount request,
          dr_encrypted_note_payload_bytes = of_nat (length (rq_encrypted_note_payload request)),
          dr_note_commitment = pd_note_commitment prepared, dr_leaf_index = ao_leaf_index (ar_first appended),
          dr_root_sequence = ao_leaf_index (ar_first appended) + 1, dr_root = ao_root (ar_first appended) \<rparr>,
       de_encrypted_note_payload = rq_encrypted_note_payload request \<rparr>"

text \<open>
  The closure run before the first pool write: the transfer, then the check of both balances. The infos it is
  given are the token accounts in the order of the transfer, so what it leaves is read back in the caller's order.
\<close>

definition transfer_and_check :: "token_transfer \<Rightarrow> prepared_deposit \<Rightarrow> program_error + account list" where
  "transfer_and_check transfer prepared =
     bindE (transfer (dp_instruction (pd_transfer_plan prepared)) (pd_transfer_infos prepared))
       (\<lambda>(source, mint, vault, authority, token_program).
     let token_accounts = [mint, source, authority, vault, token_program]
     in bindE (validate_exact_deposit_delta_v1 token_accounts (pd_transfer_plan prepared)) (\<lambda>_. Inr token_accounts))"

definition apply_vault_backed_deposit_with_transfer_v1 ::
  "solana \<Rightarrow> bytes \<Rightarrow> account list \<Rightarrow> account list \<Rightarrow> deposit_request \<Rightarrow> token_transfer \<Rightarrow> program_error + deposit_result" where
  "apply_vault_backed_deposit_with_transfer_v1 env program_id state_accounts token_accounts request transfer =
     bindE (validate_request request) (\<lambda>_.
     bindE (require_disjoint_account_groups state_accounts token_accounts) (\<lambda>_.
     bindE (load_pool_state_for_deposit env program_id state_accounts) (\<lambda>state.
     bindE (prepare_deposit_after_state_validation_v1 env program_id state token_accounts request) (\<lambda>prepared.
     let before_persist = transfer_and_check transfer prepared
     in bindE (apply_authorized_append_after_v1 env program_id state_accounts (AuthorizedOne (pd_note_commitment prepared))
             (bindE before_persist (\<lambda>_. Inr ()))) (\<lambda>(state_accounts, appended).
     bindE before_persist (\<lambda>token_accounts.
     Inr ((state_accounts, token_accounts), finish_deposit_event_v1 state request prepared appended)))))))"

definition apply_prevalidated_vault_backed_deposit_with_transfer_v1 ::
  "solana \<Rightarrow> bytes \<Rightarrow> account list \<Rightarrow> account list \<Rightarrow> canonical_pool_state \<Rightarrow> deposit_request \<Rightarrow> token_transfer
     \<Rightarrow> program_error + deposit_result" where
  "apply_prevalidated_vault_backed_deposit_with_transfer_v1 env program_id state_accounts token_accounts state request transfer =
     bindE (validate_request request) (\<lambda>_.
     bindE (require_disjoint_account_groups state_accounts token_accounts) (\<lambda>_.
     bindE (case state_accounts of [] \<Rightarrow> Inl NotEnoughAccountKeys | pool_account # _ \<Rightarrow> Inr pool_account) (\<lambda>pool_account.
     bindE (require_same_writable_account state program_id pool_account) (\<lambda>_.
     bindE (prepare_deposit_after_state_validation_v1 env program_id (cp_state state) token_accounts request) (\<lambda>prepared.
     let before_persist = transfer_and_check transfer prepared
     in bindE (apply_authorized_append_after_prevalidated_v1 env program_id state_accounts state
             (AuthorizedOne (pd_note_commitment prepared)) (bindE before_persist (\<lambda>_. Inr ()))) (\<lambda>(state_accounts, appended).
     bindE before_persist (\<lambda>token_accounts.
     Inr ((state_accounts, token_accounts), finish_deposit_event_v1 (cp_state state) request prepared appended))))))))"

section \<open>The transport\<close>

text \<open>The return data is set after the deposit has succeeded, so it is part of the result.\<close>

definition execute_and_emit_deposit_v1 :: "program_error + deposit_result \<Rightarrow> program_error + deposit_result \<times> bytes" where
  "execute_and_emit_deposit_v1 execute =
     bindE execute (\<lambda>(accounts, event).
     bindE (map_err (\<lambda>_. InvalidInstructionData) (encode_deposit_event_return_data_v1 event)) (\<lambda>return_data.
     Inr ((accounts, event), return_data)))"

definition process_vault_backed_deposit_instruction_v1 ::
  "solana \<Rightarrow> token_transfer \<Rightarrow> bytes \<Rightarrow> account list \<Rightarrow> account list \<Rightarrow> bytes \<Rightarrow> program_error + deposit_result \<times> bytes" where
  "process_vault_backed_deposit_instruction_v1 env invoke program_id state_accounts token_accounts instruction_data =
     bindE (map_err (\<lambda>_. InvalidInstructionData) (decode_deposit_instruction_v1 instruction_data)) (\<lambda>request.
     execute_and_emit_deposit_v1
       (apply_vault_backed_deposit_with_transfer_v1 env program_id state_accounts token_accounts request invoke))"

definition process_prevalidated_vault_backed_deposit_v1 ::
  "solana \<Rightarrow> token_transfer \<Rightarrow> bytes \<Rightarrow> account list \<Rightarrow> account list \<Rightarrow> canonical_pool_state \<Rightarrow> deposit_request
     \<Rightarrow> program_error + deposit_result \<times> bytes" where
  "process_prevalidated_vault_backed_deposit_v1 env invoke program_id state_accounts token_accounts state request =
     execute_and_emit_deposit_v1
       (apply_prevalidated_vault_backed_deposit_with_transfer_v1 env program_id state_accounts token_accounts state request invoke)"

section \<open>Notes\<close>

lemma note_commitment_ok:
  assumes "digest_ok owner" "digest_ok salt" "canon asset" "value < VALUE_LIMIT"
  shows "digest_ok (pool_v1_note_commitment owner value asset salt)"
proof -
  have "canon (M31 value)" using assms(4) by (simp add: canon_def M31_P_def word_less_nat_alt limb_limit)
  moreover have "canon DOMAIN_NOTE" by (simp add: canon_def M31_P_def DOMAIN_NOTE_def)
  ultimately show ?thesis
    using assms hash_fields_eq(2,3) [of DOMAIN_NOTE "owner @ [M31 value] @ [asset] @ salt"]
    by (simp add: pool_v1_note_commitment_def note_commitment_def note_commitment_with_def digest_ok_def)
qed

section \<open>What a deposit does\<close>

text \<open>The source loses and the vault gains exactly the amount; no account of the transfer is exchanged for another.\<close>

definition deposit_moves :: "account list \<Rightarrow> account list \<Rightarrow> nat \<Rightarrow> bool" where
  "deposit_moves before after amount \<longleftrightarrow> length before = 5 \<and> map ac_key after = map ac_key before
     \<and> (\<exists>source vault. token_balance (before ! 1) = Some (source + amount) \<and> token_balance (after ! 1) = Some source
          \<and> token_balance (before ! 3) = Some vault \<and> token_balance (after ! 3) = Some (vault + amount))"

lemma transfer_moves:
  assumes prep: "prepare_deposit_after_state_validation_v1 env program_id state tokens request = Inr prepared"
    and run: "transfer_and_check transfer prepared = Inr tokens'"
  shows "deposit_moves tokens tokens' (unat (rq_amount request))"
    "vault_account_ok env program_id (id_pool (ps_identity state)) (id_asset_mint (ps_identity state)) (tokens ! 3)"
    "dp_vault (pd_transfer_plan prepared) = ac_key (tokens ! 3)" "dp_source (pd_transfer_plan prepared) = ac_key (tokens ! 1)"
proof -
  from prep obtain plan where plan: "plan_legacy_deposit_transfer_from_identity_v1 env program_id (id_pool (ps_identity state))
        (ps_identity state) tokens (rq_amount request) = Inr plan" "pd_transfer_plan prepared = plan"
    by (auto simp: prepare_deposit_after_state_validation_v1_def plan_legacy_deposit_transfer_v1_def Let_def)
  from run plan(2) have delta: "validate_exact_deposit_delta_v1 tokens' plan = Inr ()"
    by (auto simp: transfer_and_check_def Let_def)
  obtain m s a v p where before: "tokens = [m, s, a, v, p]" "dp_mint plan = ac_key m" "dp_source plan = ac_key s"
      "dp_authority plan = ac_key a" "dp_vault plan = ac_key v" "ac_key p = LEGACY_SPL_TOKEN_PROGRAM_ID"
      "vault_account_ok env program_id (id_pool (ps_identity state)) (id_asset_mint (ps_identity state)) v"
      "token_balance s = Some (unat (dp_source_before plan))" "token_balance v = Some (unat (dp_vault_before plan))"
      "unat (dp_source_before plan) = unat (dp_source_after plan) + unat (rq_amount request)"
      "unat (dp_vault_after plan) = unat (dp_vault_before plan) + unat (rq_amount request)"
    by (rule deposit_plan_facts [OF plan(1)])
  obtain m' s' a' v' p' where after: "tokens' = [m', s', a', v', p']" "ac_key m' = dp_mint plan" "ac_key s' = dp_source plan"
      "ac_key a' = dp_authority plan" "ac_key v' = dp_vault plan" "ac_key p' = LEGACY_SPL_TOKEN_PROGRAM_ID"
      "token_balance s' = Some (unat (dp_source_after plan))" "token_balance v' = Some (unat (dp_vault_after plan))"
    by (rule deposit_delta_facts [OF delta])
  show "deposit_moves tokens tokens' (unat (rq_amount request))"
    using before after by (simp add: deposit_moves_def)
  show "vault_account_ok env program_id (id_pool (ps_identity state)) (id_asset_mint (ps_identity state)) (tokens ! 3)"
    "dp_vault (pd_transfer_plan prepared) = ac_key (tokens ! 3)" "dp_source (pd_transfer_plan prepared) = ac_key (tokens ! 1)"
    using before plan(2) by simp_all
qed

definition deposit_note :: "pool_state \<Rightarrow> deposit_request \<Rightarrow> digest" where
  "deposit_note s request =
     pool_v1_note_commitment (rq_owner_key request) (rq_amount request) (id_asset_id (ps_identity s)) (rq_salt request)"

definition deposit_event_of :: "pool_state \<Rightarrow> digest list \<Rightarrow> account list \<Rightarrow> deposit_request \<Rightarrow> deposit_event" where
  "deposit_event_of s leaves tokens request =
     \<lparr> de_receipt = \<lparr> dr_pool = id_pool (ps_identity s), dr_asset_mint = id_asset_mint (ps_identity s),
          dr_source_token_account = ac_key (tokens ! 1), dr_vault_token_account = ac_key (tokens ! 3),
          dr_amount = rq_amount request, dr_encrypted_note_payload_bytes = of_nat (length (rq_encrypted_note_payload request)),
          dr_note_commitment = deposit_note s request, dr_leaf_index = of_nat (length leaves),
          dr_root_sequence = of_nat (length leaves + 1),
          dr_root = root_after (leaves @ [deposit_note s request]) (length leaves + 1) \<rparr>,
       de_encrypted_note_payload = rq_encrypted_note_payload request \<rparr>"

lemma deposit_correct:
  assumes holds: "state_holds pool_account s leaves"
    and page: "page_holds (ac_key pool_account) leaves (length leaves div 256) current" and ok: "request_ok request"
    and run: "apply_vault_backed_deposit_with_transfer_v1 env program_id (append_accounts pool_account current next_account)
      tokens request transfer = Inr ((accounts', tokens'), event)"
  shows "accounts' = (appended_pool pool_account s (leaves @ [deposit_note s request]),
      with_history_page (ac_key pool_account) (leaves @ [deposit_note s request]) (length leaves div 256) current,
      map_option (with_history_page (ac_key pool_account) (leaves @ [deposit_note s request]) (length leaves div 256 + 1)) next_account)"
    "deposit_moves tokens tokens' (unat (rq_amount request))"
    "vault_account_ok env program_id (ac_key pool_account) (id_asset_mint (ps_identity s)) (tokens ! 3)"
    "event = deposit_event_of s leaves tokens request"
    "0 < unat (rq_amount request)" "unat (rq_amount request) < 2 ^ 30" "length leaves < 2 ^ 20" "digest_ok (deposit_note s request)"
proof -
  note facts = state_holds_facts [OF holds]
  have accounts: "append_accounts pool_account current next_account = pool_account # current # (case next_account of None \<Rightarrow> [] | Some a \<Rightarrow> [a])"
    by (simp add: append_accounts_def)
  have key: "id_pool (ps_identity s) = ac_key pool_account" using holds by (simp add: state_holds_def)
  from run obtain prepared receipt where valid: "validate_request request = Inr ()"
    and account: "require_program_account pool_account program_id True = Inr ()"
    and address: "ac_key pool_account = fst (pool_v1_state_address env program_id (id_asset_mint (ps_identity s)))"
    and prep: "prepare_deposit_after_state_validation_v1 env program_id s tokens request = Inr prepared"
    and appended: "apply_authorized_append_after_v1 env program_id (append_accounts pool_account current next_account)
        (AuthorizedOne (pd_note_commitment prepared)) (bindE (transfer_and_check transfer prepared) (\<lambda>_. Inr ()))
      = Inr (accounts', receipt)"
    and moved: "transfer_and_check transfer prepared = Inr tokens'"
    and event: "event = finish_deposit_event_v1 s request prepared receipt"
    using facts(4)
    by (auto simp: apply_vault_backed_deposit_with_transfer_v1_def load_pool_state_for_deposit_def Let_def append_accounts_def
        split: if_splits)
  have commitment: "pd_note_commitment prepared = deposit_note s request"
    using prep by (auto simp: prepare_deposit_after_state_validation_v1_def deposit_note_def Let_def)
  from valid show amount: "0 < unat (rq_amount request)" "unat (rq_amount request) < 2 ^ 30"
    by (auto simp: validate_request_def word_le_nat_alt limb_limit unat_gt_0 not_le split: if_splits)
  have "digest_ok (rq_owner_key request)" "digest_ok (rq_salt request)"
    using valid ok by (auto simp: validate_request_def request_ok_def digest_is_canonical_iff split: if_splits)
  then show leaf: "digest_ok (deposit_note s request)"
    unfolding deposit_note_def using facts(1) amount(2)
    by (intro note_commitment_ok) (auto simp: pool_represents_def identity_ok_def word_less_nat_alt limb_limit)
  have leaves_ok: "leaves_ok (AuthorizedOne (deposit_note s request))" using leaf by (simp add: leaves_ok_def new_leaves_def digest_ok_def)
  from appended [unfolded commitment standalone_append_outcome [OF holds page leaves_ok account address]]
  show "accounts' = (appended_pool pool_account s (leaves @ [deposit_note s request]),
      with_history_page (ac_key pool_account) (leaves @ [deposit_note s request]) (length leaves div 256) current,
      map_option (with_history_page (ac_key pool_account) (leaves @ [deposit_note s request]) (length leaves div 256 + 1)) next_account)"
    and room: "length leaves < 2 ^ 20"
    using facts(1) by (auto simp: append_outcome_def Let_def new_leaves_def pool_represents_def split: if_splits)
  have receipt_eq: "receipt = append_receipt leaves (AuthorizedOne (deposit_note s request))"
    using appended [unfolded commitment standalone_append_outcome [OF holds page leaves_ok account address]]
    by (auto simp: append_outcome_def Let_def new_leaves_def split: if_splits)
  show "deposit_moves tokens tokens' (unat (rq_amount request))"
    "vault_account_ok env program_id (ac_key pool_account) (id_asset_mint (ps_identity s)) (tokens ! 3)"
    using transfer_moves(1,2) [OF prep moved] by (simp_all add: key)
  show "event = deposit_event_of s leaves tokens request"
    using event transfer_moves(3,4) [OF prep moved] room
    by (simp add: finish_deposit_event_v1_def deposit_event_of_def receipt_eq append_receipt_def receipt_of_def root_after_def commitment)
qed

text \<open>The path that carries the decoded state is the standalone path.\<close>

lemma prevalidated_deposit_eq:
  assumes holds: "state_holds pool_account s leaves"
    and page: "page_holds (ac_key pool_account) leaves (length leaves div 256) current" and ok: "request_ok request"
    and dec: "decode_account env program_id pool_account = Inr c \<or> decode_account_from_program_invariant env program_id pool_account = Inr c"
  shows "apply_prevalidated_vault_backed_deposit_with_transfer_v1 env program_id (append_accounts pool_account current next_account)
      tokens c request transfer
    = apply_vault_backed_deposit_with_transfer_v1 env program_id (append_accounts pool_account current next_account) tokens request transfer"
proof -
  note src = decoded_source [OF holds dec]
  note facts = state_holds_facts [OF holds]
  have load: "load_pool_state_for_deposit env program_id (append_accounts pool_account current next_account) = Inr s"
    using src facts(4) by (simp add: load_pool_state_for_deposit_def append_accounts_def)
  have appends: "apply_authorized_append_after_prevalidated_v1 env program_id (append_accounts pool_account current next_account) c
        (AuthorizedOne (pd_note_commitment prepared)) before
      = apply_authorized_append_after_v1 env program_id (append_accounts pool_account current next_account)
        (AuthorizedOne (pd_note_commitment prepared)) before"
    if "validate_request request = Inr ()" "prepare_deposit_after_state_validation_v1 env program_id s tokens request = Inr prepared"
    for prepared before
  proof -
    have "length (pd_note_commitment prepared) = 8"
      using that by (auto simp: prepare_deposit_after_state_validation_v1_def Let_def pool_v1_note_commitment_def
          note_commitment_def note_commitment_with_def hash_fields_def hash_fields_with_trace_def DIGEST_ELEMS_def split: prod.splits)
    then have "leaves_ok (AuthorizedOne (pd_note_commitment prepared))" by (simp add: leaves_ok_def new_leaves_def)
    then show ?thesis by (rule prevalidated_append_outcome [OF holds page _ dec])
  qed
  have head: "(case append_accounts pool_account current next_account of [] \<Rightarrow> Inl NotEnoughAccountKeys | a # _ \<Rightarrow> Inr a) = Inr pool_account"
    by (simp add: append_accounts_def)
  show ?thesis
  proof (cases "validate_request request")
    case (Inr u)
    show ?thesis
    proof (cases "prepare_deposit_after_state_validation_v1 env program_id s tokens request")
      case (Inr prepared)
      with \<open>validate_request request = Inr u\<close> show ?thesis
        unfolding apply_prevalidated_vault_backed_deposit_with_transfer_v1_def apply_vault_backed_deposit_with_transfer_v1_def
          head load bindE_simps src(1,4) Let_def
        by (simp add: appends)
    qed (simp add: apply_prevalidated_vault_backed_deposit_with_transfer_v1_def apply_vault_backed_deposit_with_transfer_v1_def
        head load src Let_def)
  qed (simp add: apply_prevalidated_vault_backed_deposit_with_transfer_v1_def apply_vault_backed_deposit_with_transfer_v1_def)
qed

end
