(* ===== verification/PoolProcessor.thy ===== *)
theory PoolProcessor
  imports PoolAnchor VerifierDispatch PoolInstruction Deposit
begin

text \<open>
  The V1 handlers of the pool program, \<open>programs/aspis-pool/src/processor.rs\<close>: initialization, deposit, private
  transfer and withdrawal over the account list of the call. The calls to the system program are those of the record
  \<open>solana\<close>; the calls to the token program and to the verifier are the record \<open>pool_runtime\<close>. A handler returns the
  account list as it leaves it and the return data. The accounts a handler names twice are one entry of the list,
  so what one call changes the next one sees.
\<close>

section \<open>The runtime\<close>

record pool_runtime =
  rt_transfer :: token_transfer
  rt_transfer_signed :: "instruction \<Rightarrow> five_accounts \<Rightarrow> bytes list list \<Rightarrow> program_error + five_accounts"
  rt_initialize_account :: "instruction \<Rightarrow> infos \<Rightarrow> program_error + infos"
  rt_verify :: verifier_call

datatype pool_fresh_pda_preparation = PoolCreateOrAllocateSystemOwned | PoolProgramOwnedZeroed

datatype vault_preparation = VaultCreateAndInitialize | VaultInitializedEmpty

definition SPL_TOKEN_INITIALIZE_ACCOUNT3_DISCRIMINANT :: u8 where "SPL_TOKEN_INITIALIZE_ACCOUNT3_DISCRIMINANT = 18"

definition solana_sha256 :: "solana \<Rightarrow> hash_fn" where
  "solana_sha256 env inputs = sha256 env (concat inputs)"

definition supported_program_loader :: "solana \<Rightarrow> bytes \<Rightarrow> bool" where
  "supported_program_loader env owner \<longleftrightarrow>
     owner = bpf_loader_id env \<or> owner = bpf_loader_upgradeable_id env \<or> owner = loader_v4_id env"

fun pool_require_unique_accounts :: "account list \<Rightarrow> program_error + unit" where
  "pool_require_unique_accounts [] = Inr ()"
| "pool_require_unique_accounts (left # accounts) =
     (if \<exists>right \<in> set accounts. ac_key left = ac_key right then Inl InvalidArgument
      else pool_require_unique_accounts accounts)"

definition pool_require_payer_and_system_program :: "solana \<Rightarrow> account \<Rightarrow> account \<Rightarrow> program_error + unit" where
  "pool_require_payer_and_system_program env payer system_program_account =
     (if \<not> ac_is_signer payer \<or> \<not> ac_is_writable payer \<or> ac_executable payer \<or> ac_owner payer \<noteq> system_program_id env
      then pool_fail PoolInvalidPayer
      else if ac_key system_program_account \<noteq> system_program_id env
        \<or> ac_owner system_program_account \<noteq> native_loader_id env \<or> \<not> ac_executable system_program_account
        \<or> ac_is_signer system_program_account \<or> ac_is_writable system_program_account
      then pool_fail PoolInvalidSystemProgram else Inr ())"

section \<open>Fresh accounts\<close>

definition pool_plan_fresh_program_pda ::
  "solana \<Rightarrow> account \<Rightarrow> bytes \<Rightarrow> bytes \<Rightarrow> nat \<Rightarrow> program_error + pool_fresh_pda_preparation" where
  "pool_plan_fresh_program_pda env account program_id expected_address exact_bytes =
     (if ac_key account \<noteq> expected_address \<or> ac_executable account \<or> ac_is_signer account \<or> \<not> ac_is_writable account
      then pool_fail PoolInvalidFreshAccount
      else if ac_owner account = program_id
      then if length (ac_data account) \<noteq> exact_bytes \<or> (\<exists>byte \<in> set (ac_data account). byte \<noteq> 0)
           then pool_fail PoolInvalidFreshAccount else Inr PoolProgramOwnedZeroed
      else if ac_owner account = system_program_id env \<and> ac_data account = []
      then Inr PoolCreateOrAllocateSystemOwned
      else pool_fail PoolInvalidFreshAccount)"

definition create_or_allocate_pda_with_rent ::
  "solana \<Rightarrow> account \<Rightarrow> account \<Rightarrow> account \<Rightarrow> nat \<Rightarrow> bytes \<Rightarrow> bytes list \<Rightarrow> (nat \<Rightarrow> u64) \<Rightarrow> program_error + infos" where
  "create_or_allocate_pda_with_rent env payer account system_program_account exact_bytes owner signer_seeds minimum_balance =
     bindE (pool_require_payer_and_system_program env payer system_program_account) (\<lambda>_.
     if ac_owner account \<noteq> system_program_id env \<or> ac_data account \<noteq> [] then pool_fail PoolInvalidFreshAccount
     else let required_lamports = max (minimum_balance exact_bytes) 1;
              infos = (payer, account, system_program_account);
              signer_seed_sets = [signer_seeds]
     in if ac_lamports account = 0
        then cpi_invoke_signed env
               (CreateAccount (ac_key payer) (ac_key account) required_lamports (of_nat exact_bytes) owner)
               infos signer_seed_sets
        else let deficit = saturating_sub required_lamports (ac_lamports account)
             in bindE (if deficit \<noteq> 0 then cpi_invoke env (Transfer (ac_key payer) (ac_key account) deficit) infos
                       else Inr infos) (\<lambda>infos.
                bindE (cpi_invoke_signed env (Allocate (ac_key account) (of_nat exact_bytes)) infos signer_seed_sets) (\<lambda>infos.
                cpi_invoke_signed env (Assign (ac_key account) owner) infos signer_seed_sets)))"

definition pool_create_or_allocate_pda ::
  "solana \<Rightarrow> account \<Rightarrow> account \<Rightarrow> account \<Rightarrow> nat \<Rightarrow> bytes \<Rightarrow> bytes list \<Rightarrow> program_error + infos" where
  "pool_create_or_allocate_pda env payer account system_program_account exact_bytes owner signer_seeds =
     bindE (rent_get env) (\<lambda>rent.
     create_or_allocate_pda_with_rent env payer account system_program_account exact_bytes owner signer_seeds rent)"

definition create_program_pda_if_needed ::
  "solana \<Rightarrow> bytes \<Rightarrow> account \<Rightarrow> account \<Rightarrow> account \<Rightarrow> nat \<Rightarrow> pool_fresh_pda_preparation \<Rightarrow> bytes list \<Rightarrow> program_error + infos" where
  "create_program_pda_if_needed env program_id payer account system_program_account exact_bytes preparation signer_seeds =
     (if preparation = PoolCreateOrAllocateSystemOwned
      then pool_create_or_allocate_pda env payer account system_program_account exact_bytes program_id signer_seeds
      else Inr (payer, account, system_program_account))"

section \<open>The vault account\<close>

definition require_token_program_account :: "solana \<Rightarrow> account \<Rightarrow> program_error + unit" where
  "require_token_program_account env account =
     (if ac_key account \<noteq> LEGACY_SPL_TOKEN_PROGRAM_ID \<or> \<not> ac_executable account \<or> ac_is_signer account
         \<or> ac_is_writable account \<or> \<not> supported_program_loader env (ac_owner account)
      then pool_fail InvalidTokenProgram else Inr ())"

definition require_initialized_empty_vault :: "solana \<Rightarrow> bytes \<Rightarrow> bytes \<Rightarrow> bytes \<Rightarrow> account \<Rightarrow> program_error + unit" where
  "require_initialized_empty_vault env program_id pool mint vault =
     (if ac_key vault \<noteq> fst (pool_v1_vault_token_account_address env program_id pool)
         \<or> ac_owner vault \<noteq> LEGACY_SPL_TOKEN_PROGRAM_ID \<or> ac_executable vault \<or> ac_is_signer vault \<or> \<not> ac_is_writable vault
      then pool_fail InvalidVaultTokenAddress
      else bindE (parse_legacy_token_account_v1 (ac_data vault)) (\<lambda>parsed.
      if ta_mint parsed \<noteq> mint \<or> ta_authority parsed \<noteq> fst (pool_v1_vault_authority_address env program_id pool)
         \<or> ta_amount parsed \<noteq> 0 \<or> ta_has_delegate parsed \<or> ta_is_native parsed \<or> ta_delegated_amount parsed \<noteq> 0
         \<or> ta_has_close_authority parsed
      then pool_fail UnsupportedTokenConfiguration else Inr ()))"

definition plan_vault_initialization :: "solana \<Rightarrow> bytes \<Rightarrow> bytes \<Rightarrow> bytes \<Rightarrow> account \<Rightarrow> program_error + vault_preparation" where
  "plan_vault_initialization env program_id pool mint vault =
     (if ac_key vault \<noteq> fst (pool_v1_vault_token_account_address env program_id pool)
         \<or> ac_executable vault \<or> ac_is_signer vault \<or> \<not> ac_is_writable vault
      then pool_fail InvalidVaultTokenAddress
      else if ac_owner vault = system_program_id env \<and> ac_data vault = [] then Inr VaultCreateAndInitialize
      else bindE (require_initialized_empty_vault env program_id pool mint vault) (\<lambda>_. Inr VaultInitializedEmpty))"

text \<open>The mint, the vault, the token program, the payer and the system program after the calls.\<close>

definition initialize_vault_account ::
  "solana \<Rightarrow> pool_runtime \<Rightarrow> bytes \<Rightarrow> bytes \<Rightarrow> account \<Rightarrow> account \<Rightarrow> account \<Rightarrow> account \<Rightarrow> account \<Rightarrow> vault_preparation
     \<Rightarrow> program_error + five_accounts" where
  "initialize_vault_account env runtime program_id pool mint vault token_program payer system_program_account preparation =
     (if preparation = VaultInitializedEmpty then Inr (mint, vault, token_program, payer, system_program_account)
      else let (_, bump) = pool_v1_vault_token_account_address env program_id pool;
               seeds = [POOL_V1_VAULT_TOKEN_ACCOUNT_SEED, pool, [bump]]
      in bindE (pool_create_or_allocate_pda env payer vault system_program_account LEGACY_SPL_TOKEN_ACCOUNT_BYTES
             LEGACY_SPL_TOKEN_PROGRAM_ID seeds) (\<lambda>(payer, vault, system_program_account).
      let authority = fst (pool_v1_vault_authority_address env program_id pool);
          data = [SPL_TOKEN_INITIALIZE_ACCOUNT3_DISCRIMINANT] @ authority;
          instruction = \<lparr> ix_program_id = LEGACY_SPL_TOKEN_PROGRAM_ID,
            ix_accounts = [meta_new (ac_key vault) False, meta_new_readonly (ac_key mint) False], ix_data = data \<rparr>
      in bindE (rt_initialize_account runtime instruction (vault, mint, token_program)) (\<lambda>(vault, mint, token_program).
      bindE (require_initialized_empty_vault env program_id pool (ac_key mint) vault) (\<lambda>_.
      Inr (mint, vault, token_program, payer, system_program_account)))))"

section \<open>Initialization\<close>

definition instruction_error :: "pool_instruction_format_error + 'a \<Rightarrow> program_error + 'a" where
  "instruction_error result = map_err (\<lambda>_. InvalidInstructionData) result"

definition exact_account_list :: "nat \<Rightarrow> account list \<Rightarrow> program_error + unit" where
  "exact_account_list expected accounts =
     (if length accounts = expected then Inr ()
      else Inl (if length accounts < expected then NotEnoughAccountKeys else InvalidArgument))"

definition process_initialize_with_runtime_v1 ::
  "solana \<Rightarrow> pool_runtime \<Rightarrow> bytes \<Rightarrow> account list \<Rightarrow> bytes \<Rightarrow> program_error + account list \<times> bytes" where
  "process_initialize_with_runtime_v1 env runtime program_id accounts instruction_data =
     bindE (instruction_error (decode_initialize_instruction_v1 instruction_data)) (\<lambda>initialization. (case accounts of
     [payer, pool, page_zero, mint, vault, token_program, system_program_account] \<Rightarrow>
       bindE (pool_require_unique_accounts accounts) (\<lambda>_.
       bindE (pool_require_payer_and_system_program env payer system_program_account) (\<lambda>_.
       bindE (require_token_program_account env token_program) (\<lambda>_.
       let mint_key = pi_asset_mint initialization
       in if ac_key mint \<noteq> mint_key \<or> ac_owner mint \<noteq> LEGACY_SPL_TOKEN_PROGRAM_ID \<or> ac_executable mint
             \<or> ac_is_signer mint \<or> ac_is_writable mint
       then pool_fail InvalidMint
       else bindE (parse_legacy_mint_v1 (ac_data mint)) (\<lambda>_.
       let (expected_pool, pool_bump) = pool_v1_state_address env program_id mint_key
       in bindE (pool_plan_fresh_program_pda env pool program_id expected_pool POOL_V1_STATE_ACCOUNT_BYTES) (\<lambda>pool_preparation.
       let (expected_page, page_bump) = pool_v1_root_page_address env program_id (ac_key pool) 0
       in bindE (pool_plan_fresh_program_pda env page_zero program_id expected_page POOL_V1_ROOT_HISTORY_PAGE_ACCOUNT_BYTES) (\<lambda>page_preparation.
       bindE (plan_vault_initialization env program_id (ac_key pool) mint_key vault) (\<lambda>vault_preparation.
       bindE (bindE (pool_genesis (ac_key pool) initialization) validate_encoding) (\<lambda>_.
       let pool_seeds = [POOL_V1_STATE_SEED, mint_key, [pool_bump]];
           page_seeds = [POOL_V1_ROOT_HISTORY_PAGE_SEED, ac_key pool, to_le 8 (0 :: u64), [page_bump]]
       in bindE (create_program_pda_if_needed env program_id payer pool system_program_account POOL_V1_STATE_ACCOUNT_BYTES
              pool_preparation pool_seeds) (\<lambda>(payer, pool, system_program_account).
       bindE (create_program_pda_if_needed env program_id payer page_zero system_program_account
              POOL_V1_ROOT_HISTORY_PAGE_ACCOUNT_BYTES page_preparation page_seeds) (\<lambda>(payer, page_zero, system_program_account).
       bindE (initialize_vault_account env runtime program_id (ac_key pool) mint vault token_program payer
              system_program_account vault_preparation) (\<lambda>(mint, vault, token_program, payer, system_program_account).
       bindE (initialize_pool_accounts_v1 env program_id [pool, page_zero] initialization) (\<lambda>state_accounts.
       let receipt = encode_initialization_receipt_v1 (ac_key pool) (ac_key page_zero) (ac_key vault)
       in Inr ([payer, state_accounts ! 0, state_accounts ! 1, mint, vault, token_program, system_program_account], receipt)))))))))))))
   | _ \<Rightarrow> Inl (if length accounts < 7 then NotEnoughAccountKeys else InvalidArgument)))"

section \<open>Deposit\<close>

definition deposit_rolls_to_next_page :: "pool_state \<Rightarrow> program_error + bool" where
  "deposit_rolls_to_next_page state =
     (let current_sequence = current_root_sequence state
      in bindE (ok_or (pool_error ArithmeticOverflow) (checked_add current_sequence 1)) (\<lambda>next_sequence.
      Inr (loc_page_number (root_history_location next_sequence) \<noteq> loc_page_number (root_history_location current_sequence))))"

definition process_deposit_with_runtime_v1 ::
  "solana \<Rightarrow> pool_runtime \<Rightarrow> bytes \<Rightarrow> account list \<Rightarrow> bytes \<Rightarrow> program_error + account list \<times> bytes" where
  "process_deposit_with_runtime_v1 env runtime program_id accounts instruction_data =
     bindE (instruction_error (decode_deposit_top_level_v1 instruction_data)) (\<lambda>request.
     bindE (case accounts of [] \<Rightarrow> Inl NotEnoughAccountKeys | pool # _ \<Rightarrow> Inr pool) (\<lambda>pool.
     bindE (decode_account env program_id pool) (\<lambda>state.
     bindE (deposit_rolls_to_next_page (cp_state state)) (\<lambda>rollover.
     if \<not> rollover
     then (case accounts of
       [pool, current_page, mint, source, source_authority, vault, token_program] \<Rightarrow>
         bindE (pool_require_unique_accounts accounts) (\<lambda>_.
         bindE (require_token_program_account env token_program) (\<lambda>_.
         bindE (process_prevalidated_vault_backed_deposit_v1 env (rt_transfer runtime) program_id [pool, current_page]
             [mint, source, source_authority, vault, token_program] state request)
           (\<lambda>((((pool, current_page, _), token_accounts), _), return_data).
         Inr ([pool, current_page] @ token_accounts, return_data))))
     | _ \<Rightarrow> Inl (if length accounts < 7 then NotEnoughAccountKeys else InvalidArgument))
     else (case accounts of
       [pool, current_page, next_page, mint, source, source_authority, vault, token_program, payer, system_program_account] \<Rightarrow>
         bindE (pool_require_unique_accounts accounts) (\<lambda>_.
         bindE (pool_require_payer_and_system_program env payer system_program_account) (\<lambda>_.
         bindE (require_token_program_account env token_program) (\<lambda>_.
         if ac_is_signer current_page \<or> ac_is_writable current_page then Inl InvalidAccountData
         else bindE (validate_current_history env program_id pool current_page (cp_state state)) (\<lambda>_.
         let token_accounts = [mint, source, source_authority, vault, token_program]
         in bindE (plan_legacy_deposit_transfer_v1 env program_id (ac_key pool) (cp_state state) token_accounts (rq_amount request)) (\<lambda>_.
         let next_page_number = loc_page_number (root_history_location (current_root_sequence (cp_state state) + 1));
             (expected_next, next_bump) = pool_v1_root_page_address env program_id (ac_key pool) next_page_number
         in bindE (pool_plan_fresh_program_pda env next_page program_id expected_next POOL_V1_ROOT_HISTORY_PAGE_ACCOUNT_BYTES) (\<lambda>preparation.
         let seeds = [POOL_V1_ROOT_HISTORY_PAGE_SEED, ac_key pool, to_le 8 next_page_number, [next_bump]]
         in bindE (create_program_pda_if_needed env program_id payer next_page system_program_account
                POOL_V1_ROOT_HISTORY_PAGE_ACCOUNT_BYTES preparation seeds) (\<lambda>(payer, next_page, system_program_account).
         bindE (validate_new_page_account env program_id (ac_key pool) next_page_number next_page) (\<lambda>_.
         bindE (process_prevalidated_vault_backed_deposit_v1 env (rt_transfer runtime) program_id [pool, current_page, next_page]
             token_accounts state request) (\<lambda>((((pool, current_page, next_page), token_accounts), _), return_data).
         Inr ([pool, current_page] @ (case next_page of Some a \<Rightarrow> [a] | None \<Rightarrow> []) @ token_accounts
              @ [payer, system_program_account], return_data))))))))))
     | _ \<Rightarrow> Inl (if length accounts < 10 then NotEnoughAccountKeys else InvalidArgument))))))"

section \<open>The pages of a spend\<close>

record spend_page_layout =
  sl_anchor_index :: nat
  sl_current_index :: nat
  sl_next_index :: "nat option"
  sl_suffix_start :: nat
  sl_next_page_number :: "u64 option"
  sl_next_page_bump :: "u8 option"

definition account_get :: "account list \<Rightarrow> nat \<Rightarrow> program_error + account" where
  "account_get accounts index = (if index < length accounts then Inr (accounts ! index) else Inl NotEnoughAccountKeys)"

definition require_spend_capacity :: "pool_state \<Rightarrow> u64 \<Rightarrow> program_error + unit" where
  "require_spend_capacity state spend_count =
     bindE (ok_or (pool_error ArithmeticOverflow) (checked_add (current_root_sequence state) spend_count)) (\<lambda>next_sequence.
     if POOL_V1_LEAF_CAPACITY \<le> current_root_sequence state then pool_fail PoolTreeFull
     else if POOL_V1_LEAF_CAPACITY < next_sequence then pool_fail InsufficientTreeCapacity
     else Inr ())"

definition plan_spend_page_layout_v1 ::
  "solana \<Rightarrow> bytes \<Rightarrow> account list \<Rightarrow> pool_state \<Rightarrow> u64 \<Rightarrow> u64 \<Rightarrow> program_error + spend_page_layout" where
  "plan_spend_page_layout_v1 env program_id accounts state anchor_sequence spend_count =
     bindE (require_spend_capacity state spend_count) (\<lambda>_.
     bindE (account_get accounts 0) (\<lambda>pool.
     let anchor_number = loc_page_number (root_history_location anchor_sequence);
         current_number = loc_page_number (root_history_location (current_root_sequence state));
         first_number = loc_page_number (root_history_location (current_root_sequence state + 1));
         last_number = loc_page_number (root_history_location (current_root_sequence state + spend_count))
     in if current_number < anchor_number \<or> first_number < current_number \<or> saturating_add current_number 1 < last_number
     then pool_fail StateHistoryMismatch
     else
     let anchor_key = fst (pool_v1_root_page_address env program_id (ac_key pool) anchor_number);
         current_key = fst (pool_v1_root_page_address env program_id (ac_key pool) current_number);
         anchor_index = 1
     in bindE (account_get accounts anchor_index) (\<lambda>anchor_account.
     if ac_key anchor_account \<noteq> anchor_key then pool_fail InvalidRootPageAddress
     else bindE (if anchor_key = current_key then Inr (anchor_index, 2)
                 else bindE (account_get accounts 2) (\<lambda>current.
                      if ac_key current \<noteq> current_key then pool_fail InvalidRootPageAddress else Inr (2, 3)))
       (\<lambda>(current_index, cursor).
     let current_writable = (first_number = current_number)
     in bindE (require_program_account (accounts ! current_index) program_id current_writable) (\<lambda>_.
     if ac_is_signer (accounts ! current_index) then Inl InvalidAccountData
     else bindE (if current_index \<noteq> anchor_index
                 then bindE (require_program_account anchor_account program_id False) (\<lambda>_.
                      if ac_is_signer anchor_account then Inl InvalidAccountData else Inr ())
                 else Inr ()) (\<lambda>_.
     bindE (if current_number < last_number
            then bindE (account_get accounts cursor) (\<lambda>next_account.
                 let (expected, bump) = pool_v1_root_page_address env program_id (ac_key pool) last_number
                 in if ac_key next_account \<noteq> expected then pool_fail InvalidRootPageAddress
                    else Inr (Some cursor, Some last_number, Some bump, cursor + 1))
            else Inr (None, None, None, cursor)) (\<lambda>(next_index, next_page_number, next_page_bump, cursor).
     Inr \<lparr> sl_anchor_index = anchor_index, sl_current_index = current_index, sl_next_index = next_index,
            sl_suffix_start = cursor, sl_next_page_number = next_page_number, sl_next_page_bump = next_page_bump \<rparr>)))))))"

definition validate_spend_binding_v1 ::
  "account \<Rightarrow> pool_state \<Rightarrow> transition_kind \<Rightarrow> transition_kind \<Rightarrow> bytes \<Rightarrow> bytes \<Rightarrow> m31 \<Rightarrow> program_error + unit" where
  "validate_spend_binding_v1 pool state transition_kind envelope_kind statement_pool statement_domain statement_asset_id =
     (if envelope_kind \<noteq> transition_kind \<or> statement_pool \<noteq> ac_key pool
         \<or> statement_domain \<noteq> id_deployment_domain (ps_identity state) \<or> statement_asset_id \<noteq> id_asset_id (ps_identity state)
      then pool_fail VerifierDispatchIdentityMismatch else Inr ())"

definition plan_marker_from_envelope_v1 ::
  "solana \<Rightarrow> bytes \<Rightarrow> account \<Rightarrow> anchor_envelope \<Rightarrow> program_error + planned_nullifier_marker" where
  "plan_marker_from_envelope_v1 env program_id marker_account envelope =
     plan_nullifier_marker_consumption_v1 env program_id marker_account (from_historical_anchor envelope)"

text \<open>The fresh page checked before the verifier is called.\<close>

definition check_fresh_next_page :: "solana \<Rightarrow> bytes \<Rightarrow> account list \<Rightarrow> spend_page_layout \<Rightarrow> program_error + unit" where
  "check_fresh_next_page env program_id accounts layout = (case sl_next_index layout of
     None \<Rightarrow> Inr ()
   | Some next_index \<Rightarrow>
       bindE (ok_or (pool_error StateHistoryMismatch) (sl_next_page_number layout)) (\<lambda>page_number.
       let expected = fst (pool_v1_root_page_address env program_id (ac_key (accounts ! 0)) page_number)
       in bindE (pool_plan_fresh_program_pda env (accounts ! next_index) program_id expected
              POOL_V1_ROOT_HISTORY_PAGE_ACCOUNT_BYTES) (\<lambda>_. Inr ())))"

text \<open>The payer and the system program are given by their positions; the result is the account list after the calls.\<close>

definition create_next_root_page_if_needed ::
  "solana \<Rightarrow> bytes \<Rightarrow> account list \<Rightarrow> spend_page_layout \<Rightarrow> nat \<Rightarrow> nat \<Rightarrow> program_error + account list" where
  "create_next_root_page_if_needed env program_id accounts layout payer system_program_account = (case sl_next_index layout of
     None \<Rightarrow> Inr accounts
   | Some next_index \<Rightarrow>
       let next_page = accounts ! next_index
       in bindE (ok_or (pool_error StateHistoryMismatch) (sl_next_page_number layout)) (\<lambda>page_number.
       bindE (ok_or (pool_error StateHistoryMismatch) (sl_next_page_bump layout)) (\<lambda>bump.
       let expected = fst (pool_v1_root_page_address env program_id (ac_key (accounts ! 0)) page_number)
       in bindE (pool_plan_fresh_program_pda env next_page program_id expected POOL_V1_ROOT_HISTORY_PAGE_ACCOUNT_BYTES) (\<lambda>preparation.
       let seeds = [POOL_V1_ROOT_HISTORY_PAGE_SEED, ac_key (accounts ! 0), to_le 8 page_number, [bump]]
       in bindE (create_program_pda_if_needed env program_id (accounts ! payer) next_page (accounts ! system_program_account)
              POOL_V1_ROOT_HISTORY_PAGE_ACCOUNT_BYTES preparation seeds) (\<lambda>(payer_info, next_page, system_info).
       bindE (validate_new_page_account env program_id (ac_key (accounts ! 0)) page_number next_page) (\<lambda>_.
       Inr (accounts[payer := payer_info, next_index := next_page, system_program_account := system_info])))))))"

definition state_accounts_for_append_v1 :: "account list \<Rightarrow> spend_page_layout \<Rightarrow> account list" where
  "state_accounts_for_append_v1 accounts layout =
     [accounts ! 0, accounts ! sl_current_index layout]
     @ (case sl_next_index layout of None \<Rightarrow> [] | Some next_index \<Rightarrow> [accounts ! next_index])"

text \<open>The written accounts of an append, back at their positions.\<close>

definition put_state_accounts ::
  "spend_page_layout \<Rightarrow> account \<times> account \<times> account option \<Rightarrow> account list \<Rightarrow> account list" where
  "put_state_accounts layout written accounts = (case written of (pool, current, next_account) \<Rightarrow>
     let accounts = accounts[0 := pool, sl_current_index layout := current]
     in case (sl_next_index layout, next_account) of
          (Some next_index, Some a) \<Rightarrow> accounts[next_index := a]
        | _ \<Rightarrow> accounts)"

section \<open>The nullifier marker of a spend\<close>

definition create_marker_account ::
  "solana \<Rightarrow> bytes \<Rightarrow> bytes \<Rightarrow> account \<Rightarrow> account \<Rightarrow> account \<Rightarrow> planned_nullifier_marker \<Rightarrow> program_error + infos" where
  "create_marker_account env program_id pool marker_account payer system_program_account planned =
     (if pl_preparation planned = MarkerCreateOrAllocateSystemOwned
      then let nullifier_bytes = canonical_nullifier_encoding (pl_marker planned);
               seeds = [POOL_V1_NULLIFIER_MARKER_SEED, pool, nullifier_bytes, [pl_address_bump planned]]
           in pool_create_or_allocate_pda env payer marker_account system_program_account
                POOL_V1_NULLIFIER_MARKER_ACCOUNT_BYTES program_id seeds
      else Inr (payer, marker_account, system_program_account))"

definition create_and_write_marker_v1 ::
  "solana \<Rightarrow> bytes \<Rightarrow> bytes \<Rightarrow> account \<Rightarrow> account \<Rightarrow> account \<Rightarrow> planned_nullifier_marker \<Rightarrow> program_error + infos" where
  "create_and_write_marker_v1 env program_id pool marker_account payer system_program_account planned =
     bindE (create_marker_account env program_id pool marker_account payer system_program_account planned)
       (\<lambda>(payer, marker_account, system_program_account).
     bindE (plan_nullifier_marker_consumption_v1 env program_id marker_account (pl_marker planned)) (\<lambda>ready.
     if pl_preparation ready \<noteq> MarkerPopulateProgramOwnedZeroed \<or> pl_encoded_marker ready \<noteq> pl_encoded_marker planned
     then pool_fail InvalidNullifierMarkerAccount
     else Inr (payer, marker_account\<lparr> ac_data := pl_encoded_marker planned \<rparr>, system_program_account)))"

section \<open>Private transfer\<close>

type_synonym verify_call =
  "bytes \<Rightarrow> bytes \<Rightarrow> bytes \<Rightarrow> pool_state \<Rightarrow> account list \<Rightarrow> account \<Rightarrow> account \<Rightarrow> verifier_dispatch_claim \<Rightarrow> u64
     \<Rightarrow> program_error + unit"

definition transfer_authorization :: "transition_kind \<Rightarrow> anchor_envelope \<Rightarrow> anchor_authorization" where
  "transfer_authorization kind envelope = \<lparr> aa_transition_kind = kind, aa_verifier_profile = ae_verifier_profile envelope,
     aa_verifier_release = ae_verifier_release envelope \<rparr>"

definition consume_marker ::
  "solana \<Rightarrow> bytes \<Rightarrow> bytes \<Rightarrow> anchor_envelope \<Rightarrow> planned_nullifier_marker \<Rightarrow> account \<Rightarrow> account \<Rightarrow> account \<Rightarrow> program_error + infos" where
  "consume_marker env program_id pool envelope planned_marker marker payer system_program_account =
     bindE (plan_marker_from_envelope_v1 env program_id marker envelope) (\<lambda>replanned.
     if replanned \<noteq> planned_marker then pool_fail InvalidNullifierMarkerAccount
     else create_and_write_marker_v1 env program_id pool marker payer system_program_account replanned)"

definition process_private_transfer_with_runtime_v1 ::
  "solana \<Rightarrow> verify_call \<Rightarrow> hash_fn \<Rightarrow> bytes \<Rightarrow> account list \<Rightarrow> bytes \<Rightarrow> u64 \<Rightarrow> program_error + account list \<times> bytes" where
  "process_private_transfer_with_runtime_v1 env verify hash program_id accounts instruction_data current_slot =
     bindE (instruction_error (decode_private_transfer_instruction_v1 instruction_data)) (\<lambda>decoded.
     let envelope = pt_envelope decoded; statement = pt_statement decoded
     in bindE (account_get accounts 0) (\<lambda>pool.
     bindE (decode_account env program_id pool) (\<lambda>state.
     bindE (validate_spend_binding_v1 pool (cp_state state) PrivateTransfer (ae_transition_kind envelope)
         (ts_pool statement) (ts_deployment_domain statement) (ts_asset_id statement)) (\<lambda>_.
     bindE (plan_spend_page_layout_v1 env program_id accounts (cp_state state) (ae_anchor_sequence envelope) 2) (\<lambda>layout.
     let start = sl_suffix_start layout
     in bindE (exact_account_list (start + 7) accounts) (\<lambda>_.
     bindE (pool_require_unique_accounts accounts) (\<lambda>_.
     let marker = accounts ! start; payer = accounts ! (start + 1); system_program_account = accounts ! (start + 2);
         registry_accounts = [accounts ! (start + 3), accounts ! (start + 4)];
         verifier_program = accounts ! (start + 5); proof_account = accounts ! (start + 6)
     in bindE (pool_require_payer_and_system_program env payer system_program_account) (\<lambda>_.
     bindE (map_err (\<lambda>_. pool_error InvalidHistoricalAnchorEnvelope) (encode_historical_anchor_envelope_v1 envelope)) (\<lambda>encoded_envelope.
     bindE (authenticate_historical_anchor_after_prevalidated_state_v1 env program_id pool (accounts ! sl_anchor_index layout)
         encoded_envelope (transfer_authorization PrivateTransfer envelope) state) (\<lambda>authenticated_anchor.
     bindE (validate_current_history_after_prevalidated_anchor_v1 env program_id pool (accounts ! sl_current_index layout)
         state authenticated_anchor) (\<lambda>current_history.
     bindE (plan_marker_from_envelope_v1 env program_id marker envelope) (\<lambda>planned_marker.
     bindE (check_fresh_next_page env program_id accounts layout) (\<lambda>_.
     bindE (derive_verifier_dispatch_claim_v1 verifier_program proof_account hash) (\<lambda>claim.
     bindE (verify (ac_key pool) encoded_envelope (pt_statement_payload decoded) (cp_state state) registry_accounts
         verifier_program proof_account claim current_slot) (\<lambda>_.
     bindE (create_next_root_page_if_needed env program_id accounts layout (start + 1) (start + 2)) (\<lambda>accounts.
     let before_persist = consume_marker env program_id (ac_key pool) envelope planned_marker (accounts ! start)
           (accounts ! (start + 1)) (accounts ! (start + 2))
     in bindE (apply_authorized_append_after_prevalidated_history_v1 env program_id (state_accounts_for_append_v1 accounts layout)
         state current_history (AuthorizedTwo (ts_recipient_commitment statement) (ts_change_commitment statement))
         (bindE before_persist (\<lambda>_. Inr ()))) (\<lambda>(written, receipts).
     bindE before_persist (\<lambda>(payer, marker, system_program_account).
     let accounts = (put_state_accounts layout written accounts)[start := marker, start + 1 := payer, start + 2 := system_program_account]
     in bindE (ok_or InvalidAccountData (ar_second receipts)) (\<lambda>second.
     bindE (instruction_error (encode_transition_receipt_v1 \<lparr> tr_transition_kind = PrivateTransfer, tr_pool = ac_key pool,
         tr_nullifier = ts_nullifier statement, tr_first_output = ts_recipient_commitment statement,
         tr_second_output_or_destination = encode_digest_canonical (ts_change_commitment statement), tr_withdrawal_amount = 0,
         tr_first_leaf_index = ao_leaf_index (ar_first receipts), tr_second_leaf_index = ao_leaf_index second,
         tr_root_sequence = ao_leaf_index second + 1, tr_root = ao_root second \<rparr>)) (\<lambda>receipt.
     Inr (accounts, receipt)))))))))))))))))))))"

section \<open>Withdrawal\<close>

text \<open>
  The closure of a withdrawal: the marker account is made, the vault pays, and only then is the marker written. It
  returns the payer, the marker, the system program and the token accounts in the caller's order.
\<close>

definition pay_and_consume_marker ::
  "solana \<Rightarrow> pool_runtime \<Rightarrow> bytes \<Rightarrow> bytes \<Rightarrow> anchor_envelope \<Rightarrow> planned_nullifier_marker \<Rightarrow> withdrawal_transfer_plan \<Rightarrow> five_accounts
     \<Rightarrow> account \<Rightarrow> account \<Rightarrow> account \<Rightarrow> program_error + infos \<times> account list" where
  "pay_and_consume_marker env runtime program_id pool envelope planned_marker withdrawal_plan transfer_infos
       marker payer system_program_account =
     bindE (plan_marker_from_envelope_v1 env program_id marker envelope) (\<lambda>replanned.
     if replanned \<noteq> planned_marker then pool_fail InvalidNullifierMarkerAccount
     else bindE (create_marker_account env program_id pool marker payer system_program_account replanned)
       (\<lambda>(payer, marker, system_program_account).
     let authority_seeds = [POOL_V1_VAULT_AUTHORITY_SEED, pool, [wp_authority_bump withdrawal_plan]]
     in bindE (rt_transfer_signed runtime (wp_instruction withdrawal_plan) transfer_infos [authority_seeds])
       (\<lambda>(vault, mint, destination, vault_authority, token_program).
     let token_accounts = [mint, vault, destination, vault_authority, token_program]
     in bindE (validate_exact_withdrawal_delta_v1 token_accounts withdrawal_plan) (\<lambda>_.
     bindE (plan_marker_from_envelope_v1 env program_id marker envelope) (\<lambda>ready.
     if pl_preparation ready \<noteq> MarkerPopulateProgramOwnedZeroed \<or> pl_encoded_marker ready \<noteq> pl_encoded_marker replanned
     then pool_fail InvalidNullifierMarkerAccount
     else Inr ((payer, marker\<lparr> ac_data := pl_encoded_marker ready \<rparr>, system_program_account), token_accounts))))))"

definition process_withdrawal_with_runtime_v1 ::
  "solana \<Rightarrow> pool_runtime \<Rightarrow> verify_call \<Rightarrow> hash_fn \<Rightarrow> bytes \<Rightarrow> account list \<Rightarrow> bytes \<Rightarrow> u64 \<Rightarrow> program_error + account list \<times> bytes" where
  "process_withdrawal_with_runtime_v1 env runtime verify hash program_id accounts instruction_data current_slot =
     bindE (instruction_error (decode_withdrawal_instruction_v1 instruction_data)) (\<lambda>decoded.
     let envelope = wi_envelope decoded; statement = wi_statement decoded
     in bindE (account_get accounts 0) (\<lambda>pool.
     bindE (decode_account env program_id pool) (\<lambda>state.
     bindE (validate_spend_binding_v1 pool (cp_state state) Withdrawal (ae_transition_kind envelope)
         (ws_pool statement) (ws_deployment_domain statement) (ws_asset_id statement)) (\<lambda>_.
     bindE (plan_spend_page_layout_v1 env program_id accounts (cp_state state) (ae_anchor_sequence envelope) 1) (\<lambda>layout.
     let start = sl_suffix_start layout
     in bindE (exact_account_list (start + 7 + 5) accounts) (\<lambda>_.
     bindE (pool_require_unique_accounts accounts) (\<lambda>_.
     let marker = accounts ! start; payer = accounts ! (start + 1); system_program_account = accounts ! (start + 2);
         registry_accounts = [accounts ! (start + 3), accounts ! (start + 4)];
         verifier_program = accounts ! (start + 5); proof_account = accounts ! (start + 6);
         token_accounts = seg (start + 7) (start + 12) accounts
     in bindE (pool_require_payer_and_system_program env payer system_program_account) (\<lambda>_.
     bindE (require_token_program_account env (token_accounts ! 4)) (\<lambda>_.
     bindE (map_err (\<lambda>_. pool_error InvalidHistoricalAnchorEnvelope) (encode_historical_anchor_envelope_v1 envelope)) (\<lambda>encoded_envelope.
     bindE (authenticate_historical_anchor_v1 env program_id pool (accounts ! sl_anchor_index layout) encoded_envelope
         (transfer_authorization Withdrawal envelope)) (\<lambda>_.
     bindE (validate_current_history env program_id pool (accounts ! sl_current_index layout) (cp_state state)) (\<lambda>_.
     bindE (plan_marker_from_envelope_v1 env program_id marker envelope) (\<lambda>planned_marker.
     bindE (check_fresh_next_page env program_id accounts layout) (\<lambda>_.
     bindE (plan_legacy_withdrawal_transfer_v1 env program_id (ac_key pool) (cp_state state) token_accounts
         (ws_destination_token_account statement) (ws_amount statement)) (\<lambda>withdrawal_plan.
     bindE (exact_withdrawal_transfer_account_infos_v1 token_accounts) (\<lambda>transfer_infos.
     bindE (derive_verifier_dispatch_claim_v1 verifier_program proof_account hash) (\<lambda>claim.
     bindE (verify (ac_key pool) encoded_envelope (wi_statement_payload decoded) (cp_state state) registry_accounts
         verifier_program proof_account claim current_slot) (\<lambda>_.
     bindE (create_next_root_page_if_needed env program_id accounts layout (start + 1) (start + 2)) (\<lambda>accounts.
     let before_persist = pay_and_consume_marker env runtime program_id (ac_key pool) envelope planned_marker withdrawal_plan
           transfer_infos (accounts ! start) (accounts ! (start + 1)) (accounts ! (start + 2))
     in bindE (apply_authorized_append_after_v1 env program_id (state_accounts_for_append_v1 accounts layout)
         (AuthorizedOne (ws_change_commitment statement)) (bindE before_persist (\<lambda>_. Inr ()))) (\<lambda>(written, receipts).
     bindE before_persist (\<lambda>((payer, marker, system_program_account), token_accounts).
     let accounts = put (start + 7) token_accounts
           ((put_state_accounts layout written accounts)[start := marker, start + 1 := payer, start + 2 := system_program_account])
     in bindE (instruction_error (encode_transition_receipt_v1 \<lparr> tr_transition_kind = Withdrawal, tr_pool = ac_key pool,
         tr_nullifier = ws_nullifier statement, tr_first_output = ws_change_commitment statement,
         tr_second_output_or_destination = ws_destination_token_account statement,
         tr_withdrawal_amount = ws_amount statement, tr_first_leaf_index = ao_leaf_index (ar_first receipts),
         tr_second_leaf_index = 0, tr_root_sequence = ao_leaf_index (ar_first receipts) + 1,
         tr_root = ao_root (ar_first receipts) \<rparr>)) (\<lambda>receipt.
     Inr (accounts, receipt)))))))))))))))))))))))"

definition dispatch_selected_verifier_v1 :: "solana \<Rightarrow> pool_runtime \<Rightarrow> verify_call" where
  "dispatch_selected_verifier_v1 env runtime pool encoded_envelope statement_payload state registry_accounts verifier_program
       proof_account claim current_slot =
     bindE (dispatch_authenticated_verifier_readonly_v1 env (rt_verify runtime) pool (id_deployment_domain (ps_identity state))
         (ps_verifier_policy state) registry_accounts verifier_program proof_account encoded_envelope statement_payload claim
         current_slot (solana_sha256 env)) (\<lambda>_. Inr ())"

end
