(* ===== verification/SpendCorrect.thy ===== *)
theory SpendCorrect
  imports PoolProcessor
begin

text \<open>
  What a successful private transfer or withdrawal has done, from the handlers of \<open>processor.rs\<close>: the anchor is a
  retained root, the selected verifier has answered the exact request, the nullifier marker was absent and is written, and
  the tree and its pages hold the outputs.
\<close>

section \<open>The accounts of a call\<close>

lemma account_get_iff [simp]: "account_get accounts i = Inr a \<longleftrightarrow> i < length accounts \<and> a = accounts ! i"
  by (auto simp: account_get_def)

lemma exact_account_list_iff [simp]: "exact_account_list n accounts = Inr u \<longleftrightarrow> length accounts = n"
  by (auto simp: exact_account_list_def)

lemma pool_unique_iff [simp]: "pool_require_unique_accounts accounts = Inr u \<longleftrightarrow> distinct (map ac_key accounts)"
  by (induction accounts) auto

lemma instruction_error_iff [simp]: "instruction_error r = Inr x \<longleftrightarrow> r = Inr x"
  by (cases r) (simp_all add: instruction_error_def)

lemma pool_payer_iff [simp]:
  "pool_require_payer_and_system_program env payer sys = Inr u \<longleftrightarrow>
     ac_is_signer payer \<and> ac_is_writable payer \<and> \<not> ac_executable payer \<and> ac_owner payer = system_program_id env
     \<and> ac_key sys = system_program_id env \<and> ac_owner sys = native_loader_id env \<and> ac_executable sys
     \<and> \<not> ac_is_signer sys \<and> \<not> ac_is_writable sys"
  by (auto simp: pool_require_payer_and_system_program_def)

lemma new_page_iff [simp]:
  "validate_new_page_account env pid pool number a = Inr u \<longleftrightarrow>
     ac_owner a = pid \<and> \<not> ac_executable a \<and> ac_is_writable a \<and> ac_key a = fst (pool_v1_root_page_address env pid pool number)
     \<and> ac_data a = zeros POOL_V1_ROOT_HISTORY_PAGE_ACCOUNT_BYTES"
  by (auto simp: validate_new_page_account_def require_program_account_def require_root_page_address_def zeros_iff
      split: if_splits)

lemmas handler_simps = bindE_eq_Inr instruction_error_iff account_get_iff exact_account_list_iff pool_unique_iff ok_or_eq_Inr
  map_err_eq_Inr split_paired_Ex prod.case sum.inject prod.inject

section \<open>Fresh accounts\<close>

text \<open>
  What the runtime guarantees of a call into another program: accounts keep their keys, an account of the calling
  program is not written, and an account that becomes one of it is blank.
\<close>

definition kept :: "bytes \<Rightarrow> account \<Rightarrow> account \<Rightarrow> bool" where
  "kept pid a a' \<longleftrightarrow> ac_key a' = ac_key a
     \<and> (ac_owner a = pid \<longrightarrow> ac_owner a' = pid \<and> ac_executable a' = ac_executable a \<and> ac_data a' = ac_data a)
     \<and> (ac_owner a \<noteq> pid \<longrightarrow> ac_owner a' = pid \<longrightarrow> (\<forall>b \<in> set (ac_data a'). b = 0))"

lemma kept_refl [simp]: "kept pid a a"
  by (simp add: kept_def)

lemma kept_trans: "kept pid a b \<Longrightarrow> kept pid b c \<Longrightarrow> kept pid a c"
  by (auto simp: kept_def)

lemma kept_key: "kept pid a a' \<Longrightarrow> ac_key a' = ac_key a"
  by (simp add: kept_def)

definition infos_kept :: "bytes \<Rightarrow> infos \<Rightarrow> infos \<Rightarrow> bool" where
  "infos_kept pid i i' \<longleftrightarrow> (case i of (p, a, s) \<Rightarrow> case i' of (p', a', s') \<Rightarrow> kept pid p p' \<and> kept pid a a' \<and> kept pid s s')"

lemma infos_kept_simp [simp]: "infos_kept pid (p, a, s) (p', a', s') \<longleftrightarrow> kept pid p p' \<and> kept pid a a' \<and> kept pid s s'"
  by (simp add: infos_kept_def)

lemma infos_kept_trans: "infos_kept pid i j \<Longrightarrow> infos_kept pid j k \<Longrightarrow> infos_kept pid i k"
  by (cases i; cases j; cases k) (auto intro: kept_trans)

definition system_calls_ok :: "solana \<Rightarrow> bytes \<Rightarrow> bool" where
  "system_calls_ok env pid \<longleftrightarrow>
     (\<forall>c i i'. cpi_invoke env c i = Inr i' \<longrightarrow> infos_kept pid i i')
   \<and> (\<forall>c i seeds i'. cpi_invoke_signed env c i seeds = Inr i' \<longrightarrow> infos_kept pid i i')"

definition five_kept :: "bytes \<Rightarrow> five_accounts \<Rightarrow> five_accounts \<Rightarrow> bool" where
  "five_kept pid i i' \<longleftrightarrow> (case i of (a, b, c, d, e) \<Rightarrow> case i' of (a', b', c', d', e') \<Rightarrow>
     kept pid a a' \<and> kept pid b b' \<and> kept pid c c' \<and> kept pid d d' \<and> kept pid e e')"

definition token_calls_ok :: "pool_runtime \<Rightarrow> bytes \<Rightarrow> bool" where
  "token_calls_ok runtime pid \<longleftrightarrow>
     (\<forall>ix i i'. rt_transfer runtime ix i = Inr i' \<longrightarrow> five_kept pid i i')
   \<and> (\<forall>ix i seeds i'. rt_transfer_signed runtime ix i seeds = Inr i' \<longrightarrow> five_kept pid i i')
   \<and> (\<forall>ix i i'. rt_initialize_account runtime ix i = Inr i' \<longrightarrow> infos_kept pid i i')"

lemma pool_create_kept:
  assumes "pool_create_or_allocate_pda env payer a sys n owner seeds = Inr i" "system_calls_ok env pid"
  shows "infos_kept pid (payer, a, sys) i"
proof -
  have cpi: "cpi_invoke env c j = Inr j' \<Longrightarrow> infos_kept pid j j'"
      "cpi_invoke_signed env c j ss = Inr j' \<Longrightarrow> infos_kept pid j j'" for c j ss j'
    using assms(2) unfolding system_calls_ok_def by blast+
  from assms(1) obtain rent where "create_or_allocate_pda_with_rent env payer a sys n owner seeds rent = Inr i"
    by (auto simp: pool_create_or_allocate_pda_def)
  then show ?thesis
    unfolding create_or_allocate_pda_with_rent_def Let_def
    by (cases i) (auto split: if_splits dest!: cpi, (meson kept_trans)+)
qed

lemma pool_fresh_facts:
  assumes "pool_plan_fresh_program_pda env a pid addr n = Inr prep"
  shows "ac_key a = addr" "ac_owner a = pid \<Longrightarrow> ac_data a = zeros n"
    "prep = PoolProgramOwnedZeroed \<longleftrightarrow> ac_owner a = pid" "ac_owner a \<noteq> pid \<Longrightarrow> ac_owner a = system_program_id env \<and> ac_data a = []"
  using assms by (auto simp: pool_plan_fresh_program_pda_def zeros_iff split: if_splits)

lemma fresh_preparation_cases: "(p \<noteq> PoolCreateOrAllocateSystemOwned) = (p = PoolProgramOwnedZeroed)"
  by (cases p) simp_all

lemma created_program_pda:
  assumes "create_program_pda_if_needed env pid payer a sys n prep seeds = Inr (payer', a', sys')"
    "system_calls_ok env pid"
  shows "kept pid payer payer'" "kept pid a a'" "kept pid sys sys'"
  using assms(1) pool_create_kept [OF _ assms(2), of payer a sys n pid seeds "(payer', a', sys')"]
  by (auto simp: create_program_pda_if_needed_def split: if_splits)

section \<open>The pages of a spend\<close>

abbreviation page_address :: "solana \<Rightarrow> bytes \<Rightarrow> bytes \<Rightarrow> nat \<Rightarrow> bytes" where
  "page_address env pid pool p \<equiv> fst (pool_v1_root_page_address env pid pool (of_nat p))"

text \<open>
  The layout: the anchor page, the current page when it is another one, the next page exactly when the
  outputs reach it, and the suffix after them.
\<close>

definition layout_ok :: "spend_page_layout \<Rightarrow> bool" where
  "layout_ok layout \<longleftrightarrow> sl_anchor_index layout = 1 \<and> (sl_current_index layout = 1 \<or> sl_current_index layout = 2)
     \<and> (sl_next_index layout = None \<and> sl_suffix_start layout = sl_current_index layout + 1
        \<or> sl_next_index layout = Some (sl_current_index layout + 1) \<and> sl_suffix_start layout = sl_current_index layout + 2)"

lemma spend_capacity:
  assumes "require_spend_capacity s k = Inr u" "pool_represents s leaves"
  shows "length leaves + unat k \<le> 2 ^ 20"
  using assms(1) represents_sequence(1) [OF assms(2)] capacity_eq
  by (auto simp: require_spend_capacity_def ok_or_def checked_add_eq_Some word_le_nat_alt word_less_nat_alt split: option.splits if_splits)

lemma page_sequence:
  assumes "pool_represents s leaves" "length leaves + unat k \<le> 2 ^ 20"
  shows "loc_page_number (root_history_location (current_root_sequence s + k)) = of_nat ((length leaves + unat k) div 256)"
proof -
  have "unat (current_root_sequence s + k) = length leaves + unat k"
    using assms by (subst unat_word_ariths) (simp add: represents_sequence(1))
  then show ?thesis by (simp add: seq_page del: loc_page_number_location)
qed

lemma page_numbers_less:
  assumes "a \<le> 2 ^ 20" "b \<le> 2 ^ 20"
  shows "(of_nat a :: u64) < of_nat b \<longleftrightarrow> a < b" "(of_nat a :: u64) = of_nat b \<longleftrightarrow> a = b"
proof -
  have "unat (of_nat a :: u64) = a" "unat (of_nat b :: u64) = b" using assms unfolding unat_of_nat by simp_all
  then show "(of_nat a :: u64) < of_nat b \<longleftrightarrow> a < b" "(of_nat a :: u64) = of_nat b \<longleftrightarrow> a = b"
    by (simp_all add: word_less_nat_alt word_unat_eq_iff)
qed

lemma spend_layout_ok: "plan_spend_page_layout_v1 env pid accounts s q k = Inr layout \<Longrightarrow> layout_ok layout"
  by (auto simp: plan_spend_page_layout_v1_def layout_ok_def Let_def split: if_splits prod.splits)

lemma spend_layout_facts:
  assumes run: "plan_spend_page_layout_v1 env pid accounts s q k = Inr layout" and rep: "pool_represents s leaves"
    and k: "unat k = 1 \<or> unat k = 2"
  shows "layout_ok layout" "length leaves + unat k \<le> 2 ^ 20"
    "ac_key (accounts ! 1) = page_address env pid (ac_key (accounts ! 0)) (unat q div 256)"
    "ac_key (accounts ! sl_current_index layout) = page_address env pid (ac_key (accounts ! 0)) (length leaves div 256)"
    "ac_owner (accounts ! 1) = pid" "ac_owner (accounts ! sl_current_index layout) = pid"
    "sl_next_index layout = None \<longleftrightarrow> (length leaves + unat k) div 256 = length leaves div 256"
    "sl_next_index layout \<noteq> None \<Longrightarrow> sl_next_page_number layout = Some (of_nat (length leaves div 256 + 1))"
proof -
  let ?n = "length leaves" and ?m = "(length leaves + unat k) div 256" and ?p = "length leaves div 256"
  from run have "\<exists>u. require_spend_capacity s k = Inr u" by (auto simp: plan_spend_page_layout_v1_def)
  then show room: "?n + unat k \<le> 2 ^ 20" using spend_capacity rep by blast
  have k1: "?n + unat (1 :: u64) \<le> 2 ^ 20" using room k by auto
  have m: "?m \<le> 2 ^ 20" "?p \<le> 2 ^ 20" using room k by (auto intro: le_trans [OF div_le_dividend])
  have next_page: "?m = ?p \<or> ?m = ?p + 1" using k by auto
  have seqs: "loc_page_number (root_history_location (current_root_sequence s + k)) = of_nat ?m"
    "loc_page_number (root_history_location (current_root_sequence s)) = of_nat ?p"
    using page_sequence [OF rep room] page_sequence [OF rep, of 0] room by simp_all
  note less = page_numbers_less(1) [OF m(2,1)]
  note run' = run [unfolded plan_spend_page_layout_v1_def Let_def seqs less]
  show "layout_ok layout"
    "ac_key (accounts ! 1) = page_address env pid (ac_key (accounts ! 0)) (unat q div 256)"
    "ac_key (accounts ! sl_current_index layout) = page_address env pid (ac_key (accounts ! 0)) ?p"
    "ac_owner (accounts ! 1) = pid" "ac_owner (accounts ! sl_current_index layout) = pid"
    "sl_next_index layout = None \<longleftrightarrow> ?m = ?p"
    "sl_next_index layout \<noteq> None \<Longrightarrow> sl_next_page_number layout = Some (of_nat (?p + 1))"
    using run' next_page
    by (auto simp: layout_ok_def require_program_account_def seq_page simp del: loc_page_number_location split: if_splits prod.splits)
qed

lemma state_accounts_eq:
  assumes "layout_ok layout"
  shows "state_accounts_for_append_v1 accounts layout
    = append_accounts (accounts ! 0) (accounts ! sl_current_index layout) (map_option (nth accounts) (sl_next_index layout))"
  by (simp add: state_accounts_for_append_v1_def append_accounts_def split: option.split)

text \<open>The list after the next page has been made: only the payer, the system program and that page may differ.\<close>

lemma created_next_page:
  assumes run: "create_next_root_page_if_needed env pid accounts layout (start + 1) (start + 2) = Inr accounts1"
    and layout: "layout_ok layout" "start = sl_suffix_start layout" "start + 2 < length accounts" and calls: "system_calls_ok env pid"
  shows "length accounts1 = length accounts" "\<And>i. i < length accounts \<Longrightarrow> kept pid (accounts ! i) (accounts1 ! i)"
    "\<And>i. i \<noteq> start + 1 \<Longrightarrow> i \<noteq> start + 2 \<Longrightarrow> sl_next_index layout \<noteq> Some i \<Longrightarrow> accounts1 ! i = accounts ! i"
    "\<And>i. sl_next_index layout = Some i \<Longrightarrow> ac_owner (accounts ! i) = pid \<Longrightarrow> ac_data (accounts ! i) = zeros POOL_V1_ROOT_HISTORY_PAGE_ACCOUNT_BYTES"
    "\<And>i. sl_next_index layout = Some i \<Longrightarrow> ac_owner (accounts1 ! i) = pid \<and> \<not> ac_executable (accounts1 ! i)"
    "\<And>i m. sl_next_index layout = Some i \<Longrightarrow> sl_next_page_number layout = Some m \<Longrightarrow>
       ac_key (accounts ! i) = fst (pool_v1_root_page_address env pid (ac_key (accounts ! 0)) m)"
proof -
  have "length accounts1 = length accounts \<and> (\<forall>i < length accounts. kept pid (accounts ! i) (accounts1 ! i))
     \<and> (\<forall>i. i \<noteq> start + 1 \<longrightarrow> i \<noteq> start + 2 \<longrightarrow> sl_next_index layout \<noteq> Some i \<longrightarrow> accounts1 ! i = accounts ! i)
     \<and> (\<forall>i. sl_next_index layout = Some i \<longrightarrow> (ac_owner (accounts ! i) = pid \<longrightarrow> ac_data (accounts ! i) = zeros POOL_V1_ROOT_HISTORY_PAGE_ACCOUNT_BYTES)
         \<and> ac_owner (accounts1 ! i) = pid \<and> \<not> ac_executable (accounts1 ! i)
         \<and> (\<forall>m. sl_next_page_number layout = Some m \<longrightarrow>
              ac_key (accounts ! i) = fst (pool_v1_root_page_address env pid (ac_key (accounts ! 0)) m)))"
  proof (cases "sl_next_index layout")
    case None
    with run show ?thesis by (simp add: create_next_root_page_if_needed_def)
  next
    case (Some j)
    with layout have j: "j < start" "j < length accounts" by (auto simp: layout_ok_def)
    from run Some obtain number bump prep payer' page' sys' where number: "sl_next_page_number layout = Some number"
      and fresh: "pool_plan_fresh_program_pda env (accounts ! j) pid
          (fst (pool_v1_root_page_address env pid (ac_key (accounts ! 0)) number)) POOL_V1_ROOT_HISTORY_PAGE_ACCOUNT_BYTES = Inr prep"
      and made: "create_program_pda_if_needed env pid (accounts ! (start + 1)) (accounts ! j) (accounts ! (start + 2))
          POOL_V1_ROOT_HISTORY_PAGE_ACCOUNT_BYTES prep
          [POOL_V1_ROOT_HISTORY_PAGE_SEED, ac_key (accounts ! 0), to_le 8 number, [bump]] = Inr (payer', page', sys')"
      and page: "ac_owner page' = pid" "\<not> ac_executable page'"
      and accounts1: "accounts1 = accounts[start + 1 := payer', j := page', start + 2 := sys']"
      by (auto simp: create_next_root_page_if_needed_def Let_def)
    show ?thesis
      using Some j layout page number pool_fresh_facts(1,2) [OF fresh] created_program_pda [OF made calls]
      by (auto simp: accounts1 nth_list_update)
  qed
  then show "length accounts1 = length accounts" "\<And>i. i < length accounts \<Longrightarrow> kept pid (accounts ! i) (accounts1 ! i)"
    "\<And>i. i \<noteq> start + 1 \<Longrightarrow> i \<noteq> start + 2 \<Longrightarrow> sl_next_index layout \<noteq> Some i \<Longrightarrow> accounts1 ! i = accounts ! i"
    "\<And>i. sl_next_index layout = Some i \<Longrightarrow> ac_owner (accounts ! i) = pid \<Longrightarrow> ac_data (accounts ! i) = zeros POOL_V1_ROOT_HISTORY_PAGE_ACCOUNT_BYTES"
    "\<And>i. sl_next_index layout = Some i \<Longrightarrow> ac_owner (accounts1 ! i) = pid \<and> \<not> ac_executable (accounts1 ! i)"
    "\<And>i m. sl_next_index layout = Some i \<Longrightarrow> sl_next_page_number layout = Some m \<Longrightarrow>
       ac_key (accounts ! i) = fst (pool_v1_root_page_address env pid (ac_key (accounts ! 0)) m)"
    by blast+
qed

section \<open>The nullifier marker\<close>

definition marker_address :: "solana \<Rightarrow> bytes \<Rightarrow> bytes \<Rightarrow> digest \<Rightarrow> bytes" where
  "marker_address env pid pool nullifier =
     fst (find_program_address env [POOL_V1_NULLIFIER_MARKER_SEED, pool, encode_digest_canonical nullifier] pid)"

text \<open>The account of the envelope's nullifier held no marker before and holds the envelope's marker after.\<close>

definition marker_taken :: "solana \<Rightarrow> bytes \<Rightarrow> anchor_envelope \<Rightarrow> account \<Rightarrow> account \<Rightarrow> bool" where
  "marker_taken env pid e before after \<longleftrightarrow> ac_key before = marker_address env pid (ae_pool e) (ae_nullifier e)
     \<and> ac_key after = ac_key before \<and> (ac_owner before = pid \<longrightarrow> ac_data before = zeros POOL_V1_NULLIFIER_MARKER_ACCOUNT_BYTES)
     \<and> ac_owner after = pid \<and> \<not> ac_executable after \<and> decode_pool_v1_nullifier_marker (ac_data after) = Inr (from_historical_anchor e)"

lemma marker_plan_facts:
  assumes "plan_marker_from_envelope_v1 env pid a e = Inr p"
  shows "ac_key a = marker_address env pid (ae_pool e) (ae_nullifier e)" "pl_marker p = from_historical_anchor e"
    "encode_pool_v1_nullifier_marker (from_historical_anchor e) = Inr (pl_encoded_marker p)"
    "ac_owner a = pid \<Longrightarrow> ac_data a = zeros POOL_V1_NULLIFIER_MARKER_ACCOUNT_BYTES" "\<not> ac_executable a"
    "pl_preparation p = MarkerPopulateProgramOwnedZeroed \<longleftrightarrow> ac_owner a = pid"
proof -
  note run = assms [unfolded plan_marker_from_envelope_v1_def]
  note facts = planned_marker [OF run]
  show "ac_key a = marker_address env pid (ae_pool e) (ae_nullifier e)" "pl_marker p = from_historical_anchor e"
    "encode_pool_v1_nullifier_marker (from_historical_anchor e) = Inr (pl_encoded_marker p)"
    "ac_owner a = pid \<Longrightarrow> ac_data a = zeros POOL_V1_NULLIFIER_MARKER_ACCOUNT_BYTES"
    using facts by (simp_all add: marker_address_def from_historical_anchor_def canonical_nullifier_encoding_def layout_defs)
  show "\<not> ac_executable a" "pl_preparation p = MarkerPopulateProgramOwnedZeroed \<longleftrightarrow> ac_owner a = pid"
    using run by (auto simp: plan_nullifier_marker_consumption_v1_def Let_def split: if_splits prod.splits)
qed

lemma created_marker_kept:
  assumes "create_marker_account env pid pool a payer sys p = Inr (payer', a', sys')" "system_calls_ok env pid"
  shows "kept pid payer payer'" "kept pid sys sys'"
  using assms(1) pool_create_kept [OF _ assms(2), of payer a sys _ pid _ "(payer', a', sys')"]
  by (auto simp: create_marker_account_def Let_def split: if_splits)

lemma marker_written:
  assumes e: "envelope_ok e" and before: "plan_marker_from_envelope_v1 env pid a e = Inr p"
    and ready: "plan_marker_from_envelope_v1 env pid a' e = Inr r" "pl_preparation r = MarkerPopulateProgramOwnedZeroed"
    and b: "b = pl_encoded_marker p"
  shows "marker_taken env pid e a (a'\<lparr> ac_data := b \<rparr>)"
proof -
  note f = marker_plan_facts [OF before] and r = marker_plan_facts [OF ready(1)]
  have "marker_ok (from_historical_anchor e)"
    using e by (simp add: marker_ok_def envelope_ok_def from_historical_anchor_def)
  then have "decode_pool_v1_nullifier_marker b = Inr (from_historical_anchor e)"
    using f(3) b marker_codec.dec_enc by simp
  then show ?thesis using f r ready(2) by (simp add: marker_taken_def)
qed

lemma consumed_marker:
  assumes run: "consume_marker env pid pool e planned a payer sys = Inr (payer', a', sys')"
    and e: "envelope_ok e" and calls: "system_calls_ok env pid"
  shows "marker_taken env pid e a a'" "kept pid payer payer'" "kept pid sys sys'"
proof -
  from run obtain p a1 r where p: "plan_marker_from_envelope_v1 env pid a e = Inr p"
    and made: "create_marker_account env pid pool a payer sys p = Inr (payer', a1, sys')"
    and r: "plan_nullifier_marker_consumption_v1 env pid a1 (pl_marker p) = Inr r"
      "pl_preparation r = MarkerPopulateProgramOwnedZeroed" "a' = a1\<lparr> ac_data := pl_encoded_marker p \<rparr>"
    by (auto simp: consume_marker_def create_and_write_marker_v1_def split: if_splits)
  have "plan_marker_from_envelope_v1 env pid a1 e = Inr r"
    using r(1) marker_plan_facts(2) [OF p] by (simp add: plan_marker_from_envelope_v1_def)
  then show "marker_taken env pid e a a'" unfolding r(3) using r(2) by (rule marker_written [OF e p _ _ refl])
  show "kept pid payer payer'" "kept pid sys sys'" using created_marker_kept [OF made calls] by simp_all
qed

section \<open>The payment of a withdrawal\<close>

text \<open>The vault loses and the destination gains exactly the amount.\<close>

definition withdrawal_moves :: "account list \<Rightarrow> account list \<Rightarrow> nat \<Rightarrow> bool" where
  "withdrawal_moves before after amount \<longleftrightarrow> length before = 5 \<and> map ac_key after = map ac_key before
     \<and> (\<exists>vault destination. token_balance (before ! 1) = Some (vault + amount) \<and> token_balance (after ! 1) = Some vault
          \<and> token_balance (before ! 2) = Some destination \<and> token_balance (after ! 2) = Some (destination + amount))"

lemma paid_and_consumed:
  assumes run: "pay_and_consume_marker env runtime pid pool e planned plan infos a payer sys = Inr ((payer', a', sys'), tokens')"
    and plan: "plan_legacy_withdrawal_transfer_v1 env pid pool s tokens destination amount = Inr plan"
    and infos: "exact_withdrawal_transfer_account_infos_v1 tokens = Inr infos"
    and e: "envelope_ok e" and calls: "system_calls_ok env pid" "token_calls_ok runtime pid"
  shows "marker_taken env pid e a a'" "kept pid payer payer'" "kept pid sys sys'"
    "withdrawal_moves tokens tokens' (unat amount)" "vault_account_ok env pid pool (id_asset_mint (ps_identity s)) (tokens ! 1)"
    "ac_key (tokens ! 2) = destination" "list_all2 (kept pid) tokens tokens'"
proof -
  from run obtain p a1 r mint vault dest authority program where p: "plan_marker_from_envelope_v1 env pid a e = Inr p"
    and made: "create_marker_account env pid pool a payer sys p = Inr (payer', a1, sys')"
    and paid: "rt_transfer_signed runtime (wp_instruction plan) infos [[POOL_V1_VAULT_AUTHORITY_SEED, pool, [wp_authority_bump plan]]]
        = Inr (vault, mint, dest, authority, program)" "tokens' = [mint, vault, dest, authority, program]"
    and delta: "validate_exact_withdrawal_delta_v1 tokens' plan = Inr ()"
    and r: "plan_marker_from_envelope_v1 env pid a1 e = Inr r" "pl_preparation r = MarkerPopulateProgramOwnedZeroed"
      "pl_encoded_marker r = pl_encoded_marker p" "a' = a1\<lparr> ac_data := pl_encoded_marker r \<rparr>"
    by (auto simp: pay_and_consume_marker_def Let_def split: if_splits)
  show "marker_taken env pid e a a'" unfolding r(4) by (rule marker_written [OF e p r(1-3)])
  show "kept pid payer payer'" "kept pid sys sys'" using created_marker_kept [OF made calls(1)] by simp_all
  have "five_kept pid infos (vault, mint, dest, authority, program)" using calls(2) paid(1) unfolding token_calls_ok_def by blast
  then show "list_all2 (kept pid) tokens tokens'"
    using infos by (auto simp: exact_withdrawal_transfer_account_infos_v1_def five_accounts_iff five_kept_def paid(2))
  obtain m v d au tp where before: "tokens = [m, v, d, au, tp]" "wp_mint plan = ac_key m" "wp_vault plan = ac_key v"
      "wp_destination plan = ac_key d" "wp_authority plan = ac_key au" "ac_key tp = LEGACY_SPL_TOKEN_PROGRAM_ID" "ac_key d = destination"
      "vault_account_ok env pid pool (id_asset_mint (ps_identity s)) v"
      "token_balance v = Some (unat (wp_vault_before plan))" "token_balance d = Some (unat (wp_destination_before plan))"
      "unat (wp_vault_before plan) = unat (wp_vault_after plan) + unat amount"
      "unat (wp_destination_after plan) = unat (wp_destination_before plan) + unat amount"
    by (rule withdrawal_plan_facts [OF plan [unfolded plan_legacy_withdrawal_transfer_v1_def]])
  obtain m' v' d' au' tp' where after: "tokens' = [m', v', d', au', tp']" "ac_key m' = wp_mint plan" "ac_key v' = wp_vault plan"
      "ac_key d' = wp_destination plan" "ac_key au' = wp_authority plan" "ac_key tp' = LEGACY_SPL_TOKEN_PROGRAM_ID"
      "token_balance v' = Some (unat (wp_vault_after plan))" "token_balance d' = Some (unat (wp_destination_after plan))"
    by (rule withdrawal_delta_facts [OF delta])
  show "withdrawal_moves tokens tokens' (unat amount)" using before after by (simp add: withdrawal_moves_def)
  show "vault_account_ok env pid pool (id_asset_mint (ps_identity s)) (tokens ! 1)" "ac_key (tokens ! 2) = destination"
    using before by simp_all
qed

section \<open>The append of a spend\<close>

text \<open>The append that reuses the page evidence of the anchor is the standalone append.\<close>

lemma anchored_append_eq:
  assumes holds: "state_holds pool_account s leaves"
    and page: "page_holds (ac_key pool_account) leaves (length leaves div 256) current" and ok: "leaves_ok request"
    and dec: "decode_account env pid pool_account = Inr c"
    and header: "\<exists>q. pv_header anchor = history_header (ac_key pool_account) leaves q \<and> q \<le> 2 ^ 20"
    and evidence: "validate_current_history_after_prevalidated_anchor_v1 env pid pool_account current c anchor = Inr h"
  shows "apply_authorized_append_after_prevalidated_history_v1 env pid (append_accounts pool_account current next_account) c h request before_persist
    = apply_authorized_append_after_v1 env pid (append_accounts pool_account current next_account) request before_persist"
proof -
  note src = decoded_source [OF holds disjI1 [OF dec]] and facts = state_holds_facts [OF holds]
  note data = page [unfolded page_holds_def]
  note reused = reused_history_eq [OF facts(1,2) src(1) data header evidence]
  have current: "require_program_owned current pid = Inr ()"
      "require_root_page_address env pid (ac_key pool_account) (of_nat (length leaves div 256)) current = Inr ()"
    using reused(1) unfolding current_history_eq [OF facts(1,2) data] by auto
  show ?thesis
  proof (cases "validate_leaves request")
    case (Inr u)
    then have new: "list_all digest_ok (new_leaves request)" using ok validate_leaves_iff by blast
    have matches: "(case Some h of None \<Rightarrow> validate_current_history env pid pool_account current s
        | Some e \<Rightarrow> history_require_matches env e pid pool_account current s)
        = Inr (history_header (ac_key pool_account) leaves (length leaves div 256))"
      using reused(2,3) by simp
    show ?thesis
      unfolding standalone_append_outcome [OF holds page ok src(6,5)]
      using Inr src current apply_append_eq [OF facts(1,2,3) data src(2,3) new matches]
      by (simp add: apply_authorized_append_after_prevalidated_history_v1_def append_outcome_def)
  qed (simp add: apply_authorized_append_after_prevalidated_history_v1_def apply_authorized_append_after_v1_def src)
qed

lemma append_success:
  assumes holds: "state_holds pool_account s leaves"
    and page: "page_holds (ac_key pool_account) leaves (length leaves div 256) current" and ok: "leaves_ok request"
    and account: "require_program_account pool_account pid True = Inr ()"
    and address: "ac_key pool_account = fst (pool_v1_state_address env pid (id_asset_mint (ps_identity s)))"
    and run: "apply_authorized_append_after_v1 env pid (append_accounts pool_account current next_account) request before_persist
      = Inr (written, receipts)"
  shows "written = (appended_pool pool_account s (leaves @ new_leaves request),
      with_history_page (ac_key pool_account) (leaves @ new_leaves request) (length leaves div 256) current,
      map_option (with_history_page (ac_key pool_account) (leaves @ new_leaves request) (length leaves div 256 + 1)) next_account)"
    "receipts = append_receipt leaves request" "list_all digest_ok (new_leaves request)"
    "length leaves + length (new_leaves request) \<le> 2 ^ 20" "before_persist = Inr ()"
proof -
  note run' = run [unfolded standalone_append_outcome [OF holds page ok account address]]
  then show "list_all digest_ok (new_leaves request)" using validate_leaves_iff [OF ok] by auto
  show "written = (appended_pool pool_account s (leaves @ new_leaves request),
      with_history_page (ac_key pool_account) (leaves @ new_leaves request) (length leaves div 256) current,
      map_option (with_history_page (ac_key pool_account) (leaves @ new_leaves request) (length leaves div 256 + 1)) next_account)"
    "receipts = append_receipt leaves request" "length leaves + length (new_leaves request) \<le> 2 ^ 20" "before_persist = Inr ()"
    using run' by (auto simp: append_outcome_def Let_def not_less split: if_splits)
qed

section \<open>Private transfers\<close>

text \<open>Every page of the pool among the accounts of the call holds the roots of the leaves.\<close>

definition pages_hold :: "solana \<Rightarrow> bytes \<Rightarrow> bytes \<Rightarrow> digest list \<Rightarrow> account list \<Rightarrow> bool" where
  "pages_hold env pid pool leaves accounts \<longleftrightarrow> (\<forall>a \<in> set accounts. \<forall>p \<le> length leaves div 256.
     ac_key a = page_address env pid pool p \<longrightarrow> ac_owner a = pid \<longrightarrow> page_holds pool leaves p a)"

text \<open>
  The new leaves are in the tree and their roots in the pages: the pool account is the first, the current page at
  \<open>c\<close>, the next page at \<open>n\<close> exactly when the roots reach it, and it was blank.
\<close>

definition outputs_appended ::
  "solana \<Rightarrow> bytes \<Rightarrow> pool_state \<Rightarrow> digest list \<Rightarrow> digest list \<Rightarrow> nat \<Rightarrow> nat option \<Rightarrow> account list \<Rightarrow> account list \<Rightarrow> bool" where
  "outputs_appended env pid s leaves new c n accounts accounts' \<longleftrightarrow>
     (let pool = ac_key (accounts ! 0); p = length leaves div 256; after = leaves @ new
      in length leaves + length new \<le> 2 ^ 20 \<and> list_all digest_ok new
       \<and> accounts' ! 0 = appended_pool (accounts ! 0) s after
       \<and> ac_key (accounts ! c) = page_address env pid pool p \<and> ac_owner (accounts ! c) = pid
       \<and> accounts' ! c = with_history_page pool after p (accounts ! c)
       \<and> (n = None \<longleftrightarrow> (length leaves + length new) div 256 = p)
       \<and> (\<forall>i. n = Some i \<longrightarrow> ac_key (accounts ! i) = page_address env pid pool (p + 1)
            \<and> (ac_owner (accounts ! i) = pid \<longrightarrow> ac_data (accounts ! i) = zeros POOL_V1_ROOT_HISTORY_PAGE_ACCOUNT_BYTES)
            \<and> ac_owner (accounts' ! i) = pid \<and> \<not> ac_executable (accounts' ! i)
            \<and> ac_data (accounts' ! i) = history_page pool after (p + 1)))"

definition anchor_retained :: "digest list \<Rightarrow> anchor_envelope \<Rightarrow> bool" where
  "anchor_retained leaves e \<longleftrightarrow> unat (ae_anchor_sequence e) \<le> length leaves
     \<and> ae_anchor_root e = root_after leaves (unat (ae_anchor_sequence e))"

lemma put_state_accounts_nth:
  assumes "layout_ok layout" "sl_suffix_start layout < length accounts"
  shows "put_state_accounts layout (p, c, n) accounts ! 0 = p"
    "put_state_accounts layout (p, c, n) accounts ! sl_current_index layout = c"
    "sl_next_index layout = Some i \<Longrightarrow> n = Some a \<Longrightarrow> put_state_accounts layout (p, c, n) accounts ! i = a"
    "j \<noteq> 0 \<Longrightarrow> j \<noteq> sl_current_index layout \<Longrightarrow> sl_next_index layout \<noteq> Some j \<Longrightarrow>
       put_state_accounts layout (p, c, n) accounts ! j = accounts ! j"
    "length (put_state_accounts layout (p, c, n) accounts) = length accounts"
proof -
  from assms(2) have "0 < length accounts" by auto
  with assms show "put_state_accounts layout (p, c, n) accounts ! 0 = p"
    "put_state_accounts layout (p, c, n) accounts ! sl_current_index layout = c"
    "sl_next_index layout = Some i \<Longrightarrow> n = Some a \<Longrightarrow> put_state_accounts layout (p, c, n) accounts ! i = a"
    "j \<noteq> 0 \<Longrightarrow> j \<noteq> sl_current_index layout \<Longrightarrow> sl_next_index layout \<noteq> Some j \<Longrightarrow>
       put_state_accounts layout (p, c, n) accounts ! j = accounts ! j"
    "length (put_state_accounts layout (p, c, n) accounts) = length accounts"
    by (auto simp: put_state_accounts_def layout_ok_def nth_list_update Let_def split: option.split)
qed

text \<open>The writes of a spend, from the list in which its next page exists.\<close>

lemma spend_committed:
  assumes layout: "plan_spend_page_layout_v1 env pid accounts s q k = Inr layout" "unat k = length (new_leaves request)"
    and start: "sl_suffix_start layout + 2 < length accounts"
    and holds: "state_holds (accounts ! 0) s leaves" and dec: "decode_account env pid (accounts ! 0) = Inr c"
    and pages: "pages_hold env pid (ac_key (accounts ! 0)) leaves accounts" and calls: "system_calls_ok env pid"
    and made: "create_next_root_page_if_needed env pid accounts layout (sl_suffix_start layout + 1) (sl_suffix_start layout + 2) = Inr accounts1"
    and ok: "leaves_ok request"
    and run: "apply_authorized_append_after_v1 env pid (state_accounts_for_append_v1 accounts1 layout) request before_persist = Inr (written, receipts)"
    and after: "\<And>i. i < sl_suffix_start layout \<Longrightarrow> accounts' ! i = put_state_accounts layout written accounts1 ! i"
  shows "outputs_appended env pid s leaves (new_leaves request) (sl_current_index layout) (sl_next_index layout) accounts accounts'"
    "receipts = append_receipt leaves request"
    "\<And>j. j < sl_suffix_start layout \<Longrightarrow> j \<noteq> 0 \<Longrightarrow> j \<noteq> sl_current_index layout \<Longrightarrow> sl_next_index layout \<noteq> Some j \<Longrightarrow> accounts' ! j = accounts ! j"
    "\<And>i. i < sl_suffix_start layout \<Longrightarrow> ac_key (accounts' ! i) = ac_key (accounts ! i)"
proof -
  let ?start = "sl_suffix_start layout" and ?c = "sl_current_index layout" and ?p = "length leaves div 256"
  let ?after = "leaves @ new_leaves request" and ?pool = "ac_key (accounts ! 0)"
  note src = decoded_source [OF holds disjI1 [OF dec]] and rep = state_holds_facts(1) [OF holds]
  have k: "unat k = 1 \<or> unat k = 2" using layout(2) length_new_leaves [of request] by auto
  note plan = spend_layout_facts [OF layout(1) rep k]
  note created = created_next_page [OF made plan(1) refl start calls]
  have len: "length accounts1 = length accounts" by (rule created(1))
  have pos: "0 < ?c" "?c < ?start" "?c < length accounts" "sl_next_index layout = Some i \<Longrightarrow> i < ?start \<and> i \<noteq> 0 \<and> i \<noteq> ?c" for i
    using plan(1) start by (auto simp: layout_ok_def)
  have same: "accounts1 ! 0 = accounts ! 0" "accounts1 ! ?c = accounts ! ?c" using created(3) [of 0] created(3) [of ?c] pos by auto
  have key1: "ac_key (accounts1 ! i) = ac_key (accounts ! i)" if "i < length accounts" for i
    using kept_key [OF created(2) [OF that]] .
  have page: "page_holds ?pool leaves ?p (accounts ! ?c)"
    using pages plan(4,6) pos(3) by (auto simp: pages_hold_def)
  note accs = state_accounts_eq [OF plan(1), of accounts1, unfolded same]
  note appended = append_success [OF holds page ok src(6,5) run [unfolded accs]]
  have puts: "accounts' ! 0 = appended_pool (accounts ! 0) s ?after" "accounts' ! ?c = with_history_page ?pool ?after ?p (accounts ! ?c)"
    "sl_next_index layout = Some i \<Longrightarrow> accounts' ! i = with_history_page ?pool ?after (?p + 1) (accounts1 ! i)" for i
    using after pos start len put_state_accounts_nth(1-3) [OF plan(1), of accounts1] by (auto simp: appended(1))
  show frame: "accounts' ! j = accounts ! j"
    if "j < ?start" "j \<noteq> 0" "j \<noteq> ?c" "sl_next_index layout \<noteq> Some j" for j
    using that after put_state_accounts_nth(4) [OF plan(1), of accounts1] start len created(3) by (simp add: appended(1))
  show "receipts = append_receipt leaves request" by (rule appended(2))
  have next_page: "ac_key (accounts ! i) = page_address env pid ?pool (?p + 1)" if "sl_next_index layout = Some i" for i
    using created(6) [OF that] plan(8) that by simp
  show "outputs_appended env pid s leaves (new_leaves request) ?c (sl_next_index layout) accounts accounts'"
    unfolding outputs_appended_def Let_def
    using appended(3,4) puts plan(4,6,7) [unfolded layout(2)] created(4,5) next_page
    by (auto simp: with_history_page_def)
  show "ac_key (accounts' ! i) = ac_key (accounts ! i)" if "i < ?start" for i
    using frame [OF that] puts key1 [of i] that start
    by (cases "i = 0 \<or> i = ?c \<or> sl_next_index layout = Some i") (auto simp: appended_pool_def with_history_page_def)
qed

lemma transfer_run:
  assumes run: "process_private_transfer_with_runtime_v1 env verify hash pid accounts data slot = Inr (accounts', receipt)"
  obtains i c layout encoded anchor history planned claim accounts1 written receipts payer' marker' sys' second where
    "decode_private_transfer_instruction_v1 data = Inr i" "accounts \<noteq> []"
    "decode_account env pid (accounts ! 0) = Inr c"
    "validate_spend_binding_v1 (accounts ! 0) (cp_state c) PrivateTransfer (ae_transition_kind (pt_envelope i)) (ts_pool (pt_statement i))
       (ts_deployment_domain (pt_statement i)) (ts_asset_id (pt_statement i)) = Inr ()"
    "plan_spend_page_layout_v1 env pid accounts (cp_state c) (ae_anchor_sequence (pt_envelope i)) 2 = Inr layout"
    "length accounts = sl_suffix_start layout + 7" "distinct (map ac_key accounts)"
    "pool_require_payer_and_system_program env (accounts ! (sl_suffix_start layout + 1)) (accounts ! (sl_suffix_start layout + 2)) = Inr ()"
    "encode_historical_anchor_envelope_v1 (pt_envelope i) = Inr encoded"
    "authenticate_historical_anchor_after_prevalidated_state_v1 env pid (accounts ! 0) (accounts ! sl_anchor_index layout) encoded
       (transfer_authorization PrivateTransfer (pt_envelope i)) c = Inr anchor"
    "validate_current_history_after_prevalidated_anchor_v1 env pid (accounts ! 0) (accounts ! sl_current_index layout) c anchor = Inr history"
    "derive_verifier_dispatch_claim_v1 (accounts ! (sl_suffix_start layout + 5)) (accounts ! (sl_suffix_start layout + 6)) hash = Inr claim"
    "verify (ac_key (accounts ! 0)) encoded (pt_statement_payload i) (cp_state c)
       [accounts ! (sl_suffix_start layout + 3), accounts ! (sl_suffix_start layout + 4)] (accounts ! (sl_suffix_start layout + 5))
       (accounts ! (sl_suffix_start layout + 6)) claim slot = Inr ()"
    "create_next_root_page_if_needed env pid accounts layout (sl_suffix_start layout + 1) (sl_suffix_start layout + 2) = Inr accounts1"
    "consume_marker env pid (ac_key (accounts ! 0)) (pt_envelope i) planned (accounts1 ! sl_suffix_start layout)
       (accounts1 ! (sl_suffix_start layout + 1)) (accounts1 ! (sl_suffix_start layout + 2)) = Inr (payer', marker', sys')"
    "apply_authorized_append_after_prevalidated_history_v1 env pid (state_accounts_for_append_v1 accounts1 layout) c history
       (AuthorizedTwo (ts_recipient_commitment (pt_statement i)) (ts_change_commitment (pt_statement i)))
       (bindE (consume_marker env pid (ac_key (accounts ! 0)) (pt_envelope i) planned (accounts1 ! sl_suffix_start layout)
         (accounts1 ! (sl_suffix_start layout + 1)) (accounts1 ! (sl_suffix_start layout + 2))) (\<lambda>_. Inr ())) = Inr (written, receipts)"
    "accounts' = (put_state_accounts layout written accounts1)[sl_suffix_start layout := marker', sl_suffix_start layout + 1 := payer',
       sl_suffix_start layout + 2 := sys']"
    "ar_second receipts = Some second"
    "encode_transition_receipt_v1 \<lparr> tr_transition_kind = PrivateTransfer, tr_pool = ac_key (accounts ! 0),
         tr_nullifier = ts_nullifier (pt_statement i), tr_first_output = ts_recipient_commitment (pt_statement i),
         tr_second_output_or_destination = encode_digest_canonical (ts_change_commitment (pt_statement i)), tr_withdrawal_amount = 0,
         tr_first_leaf_index = ao_leaf_index (ar_first receipts), tr_second_leaf_index = ao_leaf_index second,
         tr_root_sequence = ao_leaf_index second + 1, tr_root = ao_root second \<rparr> = Inr receipt"
  using run unfolding process_private_transfer_with_runtime_v1_def
  by (simp only: Let_def handler_simps) (clarify, rule that, (assumption | rule refl)+)

lemma spend_anchor:
  assumes run: "authenticate_historical_anchor_against_state_v1 env pid (accounts ! 0) (accounts ! 1) encoded expected s = Inr anchor"
    and e: "envelope_ok e" "encode_historical_anchor_envelope_v1 e = Inr encoded"
    and holds: "state_holds (accounts ! 0) s leaves" and pages: "pages_hold env pid (ac_key (accounts ! 0)) leaves accounts"
    and page: "ac_key (accounts ! 1) = page_address env pid (ac_key (accounts ! 0)) (unat (ae_anchor_sequence e) div 256)"
      "ac_owner (accounts ! 1) = pid" "1 < length accounts"
  shows "anchor_retained leaves e" "decode_historical_anchor_envelope_v1 encoded = Inr e"
    "\<exists>q. pv_header anchor = history_header (ac_key (accounts ! 0)) leaves q \<and> q \<le> 2 ^ 20"
proof -
  note facts = state_holds_facts [OF holds]
  show dec: "decode_historical_anchor_envelope_v1 encoded = Inr e" using e by (rule envelope_codec.dec_enc)
  have "page_account_current (ac_key (accounts ! 0)) leaves (ae_anchor_sequence e) (accounts ! 1)"
    unfolding page_account_current_def
    using pages page by (auto simp: pages_hold_def page_holds_def div_le_mono)
  then obtain e' where *: "decode_historical_anchor_envelope_v1 encoded = Inr e'" "unat (ae_anchor_sequence e') \<le> length leaves"
      "ae_anchor_root e' = root_after leaves (unat (ae_anchor_sequence e'))"
      "pv_header anchor = history_header (ac_key (accounts ! 0)) leaves (unat (ae_anchor_sequence e') div 256)"
    using authenticated_anchor_retained [OF facts(1,2) _ run] dec by (metis sum.inject(2))
  with dec show "anchor_retained leaves e" by (simp add: anchor_retained_def)
  have "unat (ae_anchor_sequence e') div 256 \<le> 2 ^ 20"
    using *(2) facts(1) by (auto simp: pool_represents_def intro: le_trans [OF div_le_dividend])
  with *(4) show "\<exists>q. pv_header anchor = history_header (ac_key (accounts ! 0)) leaves q \<and> q \<le> 2 ^ 20" by blast
qed

text \<open>
  The effect of either spend on the accounts it shares with the other: the anchor is a retained root, the marker is
  taken, the outputs are appended, and no other account changes but the payer and the system program.
\<close>

definition spend_effect ::
  "solana \<Rightarrow> bytes \<Rightarrow> pool_state \<Rightarrow> digest list \<Rightarrow> anchor_envelope \<Rightarrow> digest list \<Rightarrow> spend_page_layout \<Rightarrow> account list \<Rightarrow> account list \<Rightarrow> bool" where
  "spend_effect env pid s leaves e new layout accounts accounts' \<longleftrightarrow>
     (let start = sl_suffix_start layout; c = sl_current_index layout
      in layout_ok layout \<and> start + 7 \<le> length accounts \<and> distinct (map ac_key accounts)
       \<and> anchor_retained leaves e
       \<and> marker_taken env pid e (accounts ! start) (accounts' ! start)
       \<and> outputs_appended env pid s leaves new c (sl_next_index layout) accounts accounts'
       \<and> kept pid (accounts ! (start + 1)) (accounts' ! (start + 1)) \<and> kept pid (accounts ! (start + 2)) (accounts' ! (start + 2))
       \<and> (\<forall>j < start + 7. ac_key (accounts' ! j) = ac_key (accounts ! j))
       \<and> (\<forall>j < start + 7. j \<notin> {0, c, start, start + 1, start + 2} \<longrightarrow> sl_next_index layout \<noteq> Some j \<longrightarrow> accounts' ! j = accounts ! j))"

lemma spend_effectI:
  assumes layout: "plan_spend_page_layout_v1 env pid accounts s q k = Inr layout" "unat k = length (new_leaves request)"
    and len: "sl_suffix_start layout + 7 \<le> length accounts" and dist: "distinct (map ac_key accounts)"
    and holds: "state_holds (accounts ! 0) s leaves" and dec: "decode_account env pid (accounts ! 0) = Inr c"
    and pages: "pages_hold env pid (ac_key (accounts ! 0)) leaves accounts" and calls: "system_calls_ok env pid"
    and made: "create_next_root_page_if_needed env pid accounts layout (sl_suffix_start layout + 1) (sl_suffix_start layout + 2) = Inr accounts1"
    and ok: "leaves_ok request" and anchor: "anchor_retained leaves e"
    and run: "apply_authorized_append_after_v1 env pid (state_accounts_for_append_v1 accounts1 layout) request before_persist = Inr (written, receipts)"
    and marker: "marker_taken env pid e (accounts1 ! sl_suffix_start layout) marker'"
      "kept pid (accounts1 ! (sl_suffix_start layout + 1)) payer'" "kept pid (accounts1 ! (sl_suffix_start layout + 2)) sys'"
    and after: "\<And>j. j < sl_suffix_start layout + 7 \<Longrightarrow> accounts' ! j =
      ((put_state_accounts layout written accounts1)[sl_suffix_start layout := marker', sl_suffix_start layout + 1 := payer',
        sl_suffix_start layout + 2 := sys']) ! j"
  shows "spend_effect env pid s leaves e (new_leaves request) layout accounts accounts'" "receipts = append_receipt leaves request"
proof -
  let ?start = "sl_suffix_start layout" and ?c = "sl_current_index layout"
  have start: "?start + 2 < length accounts" using len by simp
  have k: "unat k = 1 \<or> unat k = 2" using layout(2) length_new_leaves [of request] by auto
  note plan = spend_layout_facts [OF layout(1) state_holds_facts(1) [OF holds] k]
  note created = created_next_page [OF made plan(1) refl start calls]
  have len1: "length accounts1 = length accounts" by (rule created(1))
  obtain p' c' n' where written: "written = (p', c', n')" by (cases written)
  note put = put_state_accounts_nth [OF plan(1), where accounts = accounts1 and p = p' and c = c' and n = n', folded written]
  have pos: "0 < ?start" "?c < ?start" "\<And>i. sl_next_index layout = Some i \<Longrightarrow> i < ?start" using plan(1) by (auto simp: layout_ok_def)
  have suffix: "accounts' ! ?start = marker'" "accounts' ! (?start + 1) = payer'" "accounts' ! (?start + 2) = sys'"
    using after len len1 put(5) by simp_all
  have rest: "accounts' ! j = accounts ! j" if "?start + 3 \<le> j" "j < ?start + 7" for j
    using that after [OF that(2)] put(4) [of j] pos len len1 created(3) [of j] by fastforce
  note committed = spend_committed [OF layout start holds dec pages calls made ok run, of accounts']
  have low: "accounts' ! i = put_state_accounts layout written accounts1 ! i" if "i < ?start" for i using after [of i] that by simp
  show "receipts = append_receipt leaves request" using committed(2) low by blast
  have marker1: "accounts1 ! ?start = accounts ! ?start" using created(3) [of ?start] pos(3) [of ?start] by auto
  have others: "kept pid (accounts ! (?start + 1)) (accounts' ! (?start + 1))" "kept pid (accounts ! (?start + 2)) (accounts' ! (?start + 2))"
    unfolding suffix using created(2) [of "?start + 1"] created(2) [of "?start + 2"] marker(2,3) start by (auto intro: kept_trans)
  have keys: "ac_key (accounts' ! j) = ac_key (accounts ! j)" if "j < ?start + 7" for j
  proof -
    consider "j < ?start" | "j = ?start" | "j = ?start + 1" | "j = ?start + 2" | "?start + 3 \<le> j" by linarith
    then show ?thesis
      using committed(4) [of j] low suffix marker1 marker(1) rest [OF _ that] kept_key [OF others(1)] kept_key [OF others(2)]
      by cases (auto simp: marker_taken_def)
  qed
  have frame: "accounts' ! j = accounts ! j"
    if "j < ?start + 7" "j \<notin> {0, ?c, ?start, ?start + 1, ?start + 2}" "sl_next_index layout \<noteq> Some j" for j
    using committed(3) [of j] low rest [of j] that by (cases "j < ?start") auto
  show "spend_effect env pid s leaves e (new_leaves request) layout accounts accounts'"
    unfolding spend_effect_def Let_def
    using plan(1) len dist anchor marker(1) marker1 suffix(1) committed(1) low others keys frame by auto
qed

text \<open>The call the verifier has answered, for the accounts at the end of the suffix.\<close>

definition spend_verified ::
  "verify_call \<Rightarrow> hash_fn \<Rightarrow> pool_state \<Rightarrow> anchor_envelope \<Rightarrow> bytes \<Rightarrow> spend_page_layout \<Rightarrow> account list \<Rightarrow> u64 \<Rightarrow> bool" where
  "spend_verified verify hash s e payload layout accounts slot \<longleftrightarrow>
     (let start = sl_suffix_start layout; program = accounts ! (start + 5); proof_account = accounts ! (start + 6)
      in \<exists>encoded claim. decode_historical_anchor_envelope_v1 encoded = Inr e
         \<and> derive_verifier_dispatch_claim_v1 program proof_account hash = Inr claim
         \<and> verify (ac_key (accounts ! 0)) encoded payload s [accounts ! (start + 3), accounts ! (start + 4)] program proof_account claim slot
             = Inr ())"

text \<open>The receipt of a spend names the positions of its outputs and the root after them.\<close>

definition spend_receipt ::
  "transition_kind \<Rightarrow> bytes \<Rightarrow> digest \<Rightarrow> digest \<Rightarrow> bytes \<Rightarrow> u32 \<Rightarrow> digest list \<Rightarrow> digest list \<Rightarrow> transition_receipt" where
  "spend_receipt kind pool nullifier first second amount leaves new =
     \<lparr> tr_transition_kind = kind, tr_pool = pool, tr_nullifier = nullifier, tr_first_output = first,
       tr_second_output_or_destination = second, tr_withdrawal_amount = amount, tr_first_leaf_index = of_nat (length leaves),
       tr_second_leaf_index = (if length new = 2 then of_nat (length leaves + 1) else 0),
       tr_root_sequence = of_nat (length leaves + length new), tr_root = root_after (leaves @ new) (length leaves + length new) \<rparr>"

lemma transfer_correct:
  assumes run: "process_private_transfer_with_runtime_v1 env verify hash pid accounts data slot = Inr (accounts', receipt)"
    and holds: "state_holds (accounts ! 0) s leaves" and pages: "pages_hold env pid (ac_key (accounts ! 0)) leaves accounts"
    and calls: "system_calls_ok env pid"
  shows "\<exists>i layout. decode_private_transfer_instruction_v1 data = Inr i
    \<and> spend_effect env pid s leaves (pt_envelope i) [ts_recipient_commitment (pt_statement i), ts_change_commitment (pt_statement i)]
        layout accounts accounts'
    \<and> length accounts = sl_suffix_start layout + 7 \<and> length accounts' = length accounts
    \<and> ts_asset_id (pt_statement i) = id_asset_id (ps_identity s)
    \<and> spend_verified verify hash s (pt_envelope i) (pt_statement_payload i) layout accounts slot
    \<and> encode_transition_receipt_v1 (spend_receipt PrivateTransfer (ac_key (accounts ! 0)) (ts_nullifier (pt_statement i))
        (ts_recipient_commitment (pt_statement i)) (encode_digest_canonical (ts_change_commitment (pt_statement i))) 0 leaves
        [ts_recipient_commitment (pt_statement i), ts_change_commitment (pt_statement i)]) = Inr receipt"
  using run
proof (rule transfer_run)
  fix i :: private_transfer_instruction and layout :: spend_page_layout and c encoded anchor history planned claim accounts1 written receipts payer' marker' sys' second
  let ?start = "sl_suffix_start layout" and ?e = "pt_envelope i"
  let ?request = "AuthorizedTwo (ts_recipient_commitment (pt_statement i)) (ts_change_commitment (pt_statement i))"
  assume i: "decode_private_transfer_instruction_v1 data = Inr i" and dec: "decode_account env pid (accounts ! 0) = Inr c"
    and bind: "validate_spend_binding_v1 (accounts ! 0) (cp_state c) PrivateTransfer (ae_transition_kind ?e) (ts_pool (pt_statement i))
       (ts_deployment_domain (pt_statement i)) (ts_asset_id (pt_statement i)) = Inr ()"
    and layout: "plan_spend_page_layout_v1 env pid accounts (cp_state c) (ae_anchor_sequence ?e) 2 = Inr layout"
    and len: "length accounts = ?start + 7" and dist: "distinct (map ac_key accounts)"
    and payer: "pool_require_payer_and_system_program env (accounts ! (?start + 1)) (accounts ! (?start + 2)) = Inr ()"
    and encoded: "encode_historical_anchor_envelope_v1 ?e = Inr encoded"
    and anchor: "authenticate_historical_anchor_after_prevalidated_state_v1 env pid (accounts ! 0) (accounts ! sl_anchor_index layout)
       encoded (transfer_authorization PrivateTransfer ?e) c = Inr anchor"
    and history: "validate_current_history_after_prevalidated_anchor_v1 env pid (accounts ! 0) (accounts ! sl_current_index layout) c anchor
       = Inr history"
    and claim: "derive_verifier_dispatch_claim_v1 (accounts ! (?start + 5)) (accounts ! (?start + 6)) hash = Inr claim"
    and verify: "verify (ac_key (accounts ! 0)) encoded (pt_statement_payload i) (cp_state c)
       [accounts ! (?start + 3), accounts ! (?start + 4)] (accounts ! (?start + 5)) (accounts ! (?start + 6)) claim slot = Inr ()"
    and made: "create_next_root_page_if_needed env pid accounts layout (?start + 1) (?start + 2) = Inr accounts1"
    and marker: "consume_marker env pid (ac_key (accounts ! 0)) ?e planned (accounts1 ! ?start) (accounts1 ! (?start + 1))
       (accounts1 ! (?start + 2)) = Inr (payer', marker', sys')"
    and appends: "apply_authorized_append_after_prevalidated_history_v1 env pid (state_accounts_for_append_v1 accounts1 layout) c history
       ?request (bindE (consume_marker env pid (ac_key (accounts ! 0)) ?e planned (accounts1 ! ?start) (accounts1 ! (?start + 1))
         (accounts1 ! (?start + 2))) (\<lambda>_. Inr ())) = Inr (written, receipts)"
    and accounts': "accounts' = (put_state_accounts layout written accounts1)[?start := marker', ?start + 1 := payer', ?start + 2 := sys']"
    and receipt: "ar_second receipts = Some second" "encode_transition_receipt_v1 \<lparr> tr_transition_kind = PrivateTransfer, tr_pool = ac_key (accounts ! 0),
         tr_nullifier = ts_nullifier (pt_statement i), tr_first_output = ts_recipient_commitment (pt_statement i),
         tr_second_output_or_destination = encode_digest_canonical (ts_change_commitment (pt_statement i)), tr_withdrawal_amount = 0,
         tr_first_leaf_index = ao_leaf_index (ar_first receipts), tr_second_leaf_index = ao_leaf_index second,
         tr_root_sequence = ao_leaf_index second + 1, tr_root = ao_root second \<rparr> = Inr receipt"
  note src = decoded_source [OF holds disjI1 [OF dec]] and rep = state_holds_facts(1) [OF holds]
  note layout = layout [unfolded src(1)]
  note plan = spend_layout_facts [OF layout rep, simplified]
  have ok: "envelope_ok ?e" "leaves_ok ?request"
    using i unfolding transfer_instruction_eq by (auto simp: transfer_instruction_ok_def transfer_ok_def leaves_ok_def new_leaves_def)
  have one: "sl_anchor_index layout = 1" "1 < length accounts" "?start + 2 < length accounts" "sl_current_index layout < ?start"
      "sl_next_index layout \<noteq> Some 0" "sl_next_index layout \<noteq> Some (sl_current_index layout)" "sl_current_index layout < length accounts"
    using plan(1) len by (auto simp: layout_ok_def)
  note anchored = spend_anchor [OF anchor [unfolded authenticate_historical_anchor_after_prevalidated_state_v1_def src(1) one(1) src(4) bindE_simps]
      ok(1) encoded holds pages plan(3,5) [folded One_nat_def] one(2)]
  note created = created_next_page [OF made plan(1) refl one(3) calls]
  have same: "accounts1 ! 0 = accounts ! 0" "accounts1 ! sl_current_index layout = accounts ! sl_current_index layout"
    using created(3) [of 0] created(3) [of "sl_current_index layout"] one by auto
  have page: "page_holds (ac_key (accounts ! 0)) leaves (length leaves div 256) (accounts ! sl_current_index layout)"
    using pages plan(4,6) one(7) by (auto simp: pages_hold_def)
  note consumed = consumed_marker [OF marker ok(1) calls]
  have appended: "apply_authorized_append_after_v1 env pid (state_accounts_for_append_v1 accounts1 layout) ?request (Inr ()) = Inr (written, receipts)"
    using appends unfolding state_accounts_eq [OF plan(1)] same marker bindE_simps anchored_append_eq [OF holds page ok(2) dec anchored(3) history] .
  note effect = spend_effectI [OF layout _ _ dist holds dec pages calls made ok(2) anchored(1) appended consumed, of accounts']
  have "length accounts' = length accounts"
    using put_state_accounts_nth(5) [OF plan(1), of accounts1] created(1) one(3) unfolding accounts'
    by (cases written) simp
  moreover have "encode_transition_receipt_v1 (spend_receipt PrivateTransfer (ac_key (accounts ! 0)) (ts_nullifier (pt_statement i))
      (ts_recipient_commitment (pt_statement i)) (encode_digest_canonical (ts_change_commitment (pt_statement i))) 0 leaves
      (new_leaves ?request)) = Inr receipt"
    using receipt effect(2) len accounts'
    by (auto simp: spend_receipt_def append_receipt_def receipt_of_def root_after_def new_leaves_def algebra_simps)
  ultimately show ?thesis
    using i effect(1) len accounts' anchored(2) claim verify bind
    by (auto simp: src(1) new_leaves_def spend_verified_def Let_def validate_spend_binding_v1_def split: if_splits)
qed

section \<open>Withdrawals\<close>

lemma withdrawal_run:
  assumes run: "process_withdrawal_with_runtime_v1 env runtime verify hash pid accounts data slot = Inr (accounts', receipt)"
  obtains i c layout encoded anchor header planned plan infos claim accounts1 written receipts payer' marker' sys' tokens' where
    "decode_withdrawal_instruction_v1 data = Inr i" "accounts \<noteq> []" "decode_account env pid (accounts ! 0) = Inr c"
    "validate_spend_binding_v1 (accounts ! 0) (cp_state c) Withdrawal (ae_transition_kind (wi_envelope i)) (ws_pool (wi_statement i))
       (ws_deployment_domain (wi_statement i)) (ws_asset_id (wi_statement i)) = Inr ()"
    "plan_spend_page_layout_v1 env pid accounts (cp_state c) (ae_anchor_sequence (wi_envelope i)) 1 = Inr layout"
    "length accounts = sl_suffix_start layout + 7 + 5" "distinct (map ac_key accounts)"
    "pool_require_payer_and_system_program env (accounts ! (sl_suffix_start layout + 1)) (accounts ! (sl_suffix_start layout + 2)) = Inr ()"
    "encode_historical_anchor_envelope_v1 (wi_envelope i) = Inr encoded"
    "authenticate_historical_anchor_v1 env pid (accounts ! 0) (accounts ! sl_anchor_index layout) encoded
       (transfer_authorization Withdrawal (wi_envelope i)) = Inr anchor"
    "validate_current_history env pid (accounts ! 0) (accounts ! sl_current_index layout) (cp_state c) = Inr header"
    "plan_legacy_withdrawal_transfer_v1 env pid (ac_key (accounts ! 0)) (cp_state c)
       (seg (sl_suffix_start layout + 7) (sl_suffix_start layout + 12) accounts) (ws_destination_token_account (wi_statement i))
       (ws_amount (wi_statement i)) = Inr plan"
    "exact_withdrawal_transfer_account_infos_v1 (seg (sl_suffix_start layout + 7) (sl_suffix_start layout + 12) accounts) = Inr infos"
    "derive_verifier_dispatch_claim_v1 (accounts ! (sl_suffix_start layout + 5)) (accounts ! (sl_suffix_start layout + 6)) hash = Inr claim"
    "verify (ac_key (accounts ! 0)) encoded (wi_statement_payload i) (cp_state c)
       [accounts ! (sl_suffix_start layout + 3), accounts ! (sl_suffix_start layout + 4)] (accounts ! (sl_suffix_start layout + 5))
       (accounts ! (sl_suffix_start layout + 6)) claim slot = Inr ()"
    "create_next_root_page_if_needed env pid accounts layout (sl_suffix_start layout + 1) (sl_suffix_start layout + 2) = Inr accounts1"
    "pay_and_consume_marker env runtime pid (ac_key (accounts ! 0)) (wi_envelope i) planned plan infos (accounts1 ! sl_suffix_start layout)
       (accounts1 ! (sl_suffix_start layout + 1)) (accounts1 ! (sl_suffix_start layout + 2)) = Inr ((payer', marker', sys'), tokens')"
    "apply_authorized_append_after_v1 env pid (state_accounts_for_append_v1 accounts1 layout)
       (AuthorizedOne (ws_change_commitment (wi_statement i)))
       (bindE (pay_and_consume_marker env runtime pid (ac_key (accounts ! 0)) (wi_envelope i) planned plan infos
         (accounts1 ! sl_suffix_start layout) (accounts1 ! (sl_suffix_start layout + 1)) (accounts1 ! (sl_suffix_start layout + 2)))
         (\<lambda>_. Inr ())) = Inr (written, receipts)"
    "accounts' = put (sl_suffix_start layout + 7) tokens' ((put_state_accounts layout written accounts1)[sl_suffix_start layout := marker',
       sl_suffix_start layout + 1 := payer', sl_suffix_start layout + 2 := sys'])"
    "encode_transition_receipt_v1 \<lparr> tr_transition_kind = Withdrawal, tr_pool = ac_key (accounts ! 0),
         tr_nullifier = ws_nullifier (wi_statement i), tr_first_output = ws_change_commitment (wi_statement i),
         tr_second_output_or_destination = ws_destination_token_account (wi_statement i),
         tr_withdrawal_amount = ws_amount (wi_statement i), tr_first_leaf_index = ao_leaf_index (ar_first receipts),
         tr_second_leaf_index = 0, tr_root_sequence = ao_leaf_index (ar_first receipts) + 1,
         tr_root = ao_root (ar_first receipts) \<rparr> = Inr receipt"
  using run unfolding process_withdrawal_with_runtime_v1_def
  by (simp only: Let_def handler_simps) (clarify, rule that, (assumption | rule refl)+)

lemma withdrawal_correct:
  assumes run: "process_withdrawal_with_runtime_v1 env runtime verify hash pid accounts data slot = Inr (accounts', receipt)"
    and holds: "state_holds (accounts ! 0) s leaves" and pages: "pages_hold env pid (ac_key (accounts ! 0)) leaves accounts"
    and calls: "system_calls_ok env pid" "token_calls_ok runtime pid"
  shows "\<exists>i layout. decode_withdrawal_instruction_v1 data = Inr i
    \<and> spend_effect env pid s leaves (wi_envelope i) [ws_change_commitment (wi_statement i)] layout accounts accounts'
    \<and> length accounts = sl_suffix_start layout + 12 \<and> length accounts' = length accounts
    \<and> ws_asset_id (wi_statement i) = id_asset_id (ps_identity s)
    \<and> spend_verified verify hash s (wi_envelope i) (wi_statement_payload i) layout accounts slot
    \<and> withdrawal_moves (drop (sl_suffix_start layout + 7) accounts) (drop (sl_suffix_start layout + 7) accounts')
        (unat (ws_amount (wi_statement i)))
    \<and> list_all2 (kept pid) (drop (sl_suffix_start layout + 7) accounts) (drop (sl_suffix_start layout + 7) accounts')
    \<and> vault_account_ok env pid (ac_key (accounts ! 0)) (id_asset_mint (ps_identity s)) (accounts ! (sl_suffix_start layout + 8))
    \<and> ac_key (accounts ! (sl_suffix_start layout + 9)) = ws_destination_token_account (wi_statement i)
    \<and> encode_transition_receipt_v1 (spend_receipt Withdrawal (ac_key (accounts ! 0)) (ws_nullifier (wi_statement i))
        (ws_change_commitment (wi_statement i)) (ws_destination_token_account (wi_statement i)) (ws_amount (wi_statement i)) leaves
        [ws_change_commitment (wi_statement i)]) = Inr receipt"
  using run
proof (rule withdrawal_run)
  fix i :: withdrawal_instruction and layout :: spend_page_layout
    and c encoded anchor header planned plan infos claim accounts1 written receipts payer' marker' sys' tokens'
  let ?start = "sl_suffix_start layout" and ?e = "wi_envelope i" and ?request = "AuthorizedOne (ws_change_commitment (wi_statement i))"
  let ?final = "(put_state_accounts layout written accounts1)[?start := marker', ?start + 1 := payer', ?start + 2 := sys']"
  assume i: "decode_withdrawal_instruction_v1 data = Inr i" and dec: "decode_account env pid (accounts ! 0) = Inr c"
    and bind: "validate_spend_binding_v1 (accounts ! 0) (cp_state c) Withdrawal (ae_transition_kind ?e) (ws_pool (wi_statement i))
       (ws_deployment_domain (wi_statement i)) (ws_asset_id (wi_statement i)) = Inr ()"
    and layout: "plan_spend_page_layout_v1 env pid accounts (cp_state c) (ae_anchor_sequence ?e) 1 = Inr layout"
    and len: "length accounts = ?start + 7 + 5" and dist: "distinct (map ac_key accounts)"
    and payer: "pool_require_payer_and_system_program env (accounts ! (?start + 1)) (accounts ! (?start + 2)) = Inr ()"
    and encoded: "encode_historical_anchor_envelope_v1 ?e = Inr encoded"
    and anchor: "authenticate_historical_anchor_v1 env pid (accounts ! 0) (accounts ! sl_anchor_index layout) encoded
       (transfer_authorization Withdrawal ?e) = Inr anchor"
    and plan: "plan_legacy_withdrawal_transfer_v1 env pid (ac_key (accounts ! 0)) (cp_state c) (seg (?start + 7) (?start + 12) accounts)
       (ws_destination_token_account (wi_statement i)) (ws_amount (wi_statement i)) = Inr plan"
    and infos: "exact_withdrawal_transfer_account_infos_v1 (seg (?start + 7) (?start + 12) accounts) = Inr infos"
    and claim: "derive_verifier_dispatch_claim_v1 (accounts ! (?start + 5)) (accounts ! (?start + 6)) hash = Inr claim"
    and verify: "verify (ac_key (accounts ! 0)) encoded (wi_statement_payload i) (cp_state c)
       [accounts ! (?start + 3), accounts ! (?start + 4)] (accounts ! (?start + 5)) (accounts ! (?start + 6)) claim slot = Inr ()"
    and made: "create_next_root_page_if_needed env pid accounts layout (?start + 1) (?start + 2) = Inr accounts1"
    and paid: "pay_and_consume_marker env runtime pid (ac_key (accounts ! 0)) ?e planned plan infos (accounts1 ! ?start)
       (accounts1 ! (?start + 1)) (accounts1 ! (?start + 2)) = Inr ((payer', marker', sys'), tokens')"
    and appends: "apply_authorized_append_after_v1 env pid (state_accounts_for_append_v1 accounts1 layout) ?request
       (bindE (pay_and_consume_marker env runtime pid (ac_key (accounts ! 0)) ?e planned plan infos (accounts1 ! ?start)
         (accounts1 ! (?start + 1)) (accounts1 ! (?start + 2))) (\<lambda>_. Inr ())) = Inr (written, receipts)"
    and accounts': "accounts' = put (?start + 7) tokens' ?final"
    and receipt: "encode_transition_receipt_v1 \<lparr> tr_transition_kind = Withdrawal, tr_pool = ac_key (accounts ! 0),
         tr_nullifier = ws_nullifier (wi_statement i), tr_first_output = ws_change_commitment (wi_statement i),
         tr_second_output_or_destination = ws_destination_token_account (wi_statement i),
         tr_withdrawal_amount = ws_amount (wi_statement i), tr_first_leaf_index = ao_leaf_index (ar_first receipts),
         tr_second_leaf_index = 0, tr_root_sequence = ao_leaf_index (ar_first receipts) + 1,
         tr_root = ao_root (ar_first receipts) \<rparr> = Inr receipt"
  note src = decoded_source [OF holds disjI1 [OF dec]] and rep = state_holds_facts(1) [OF holds]
  note layout = layout [unfolded src(1)]
  note facts = spend_layout_facts [OF layout rep, simplified]
  have ok: "envelope_ok ?e" "leaves_ok ?request"
    using i unfolding withdrawal_instruction_eq by (auto simp: withdrawal_instruction_ok_def withdrawal_ok_def leaves_ok_def new_leaves_def)
  have one: "sl_anchor_index layout = 1" "1 < length accounts" "?start + 2 < length accounts"
    using facts(1) len by (auto simp: layout_ok_def)
  from anchor obtain p where anchor': "authenticate_historical_anchor_against_state_v1 env pid (accounts ! 0) (accounts ! 1) encoded
      (transfer_authorization Withdrawal ?e) s = Inr p"
    using state_holds_facts(4) [OF holds] by (auto simp: authenticate_historical_anchor_v1_def load_canonical_pool_state_def one(1) split: if_splits)
  note anchored = spend_anchor [OF anchor' ok(1) encoded holds pages facts(3,5) [folded One_nat_def] one(2)]
  note moved = paid_and_consumed [OF paid plan infos ok(1) calls]
  have tokens: "seg (?start + 7) (?start + 12) accounts = drop (?start + 7) accounts" using len by (simp add: seg_def)
  have "length accounts1 = length accounts" by (rule created_next_page(1) [OF made facts(1) refl one(3) calls(1)])
  then have length_final: "length ?final = ?start + 12"
    using put_state_accounts_nth(5) [OF facts(1), of accounts1] one(3) len by (cases written) simp
  have five: "length tokens' = 5" using moved(4) by (auto simp: withdrawal_moves_def dest: map_eq_imp_length_eq)
  have low: "accounts' ! j = ?final ! j" if "j < ?start + 7" for j
    unfolding accounts' put_def using that length_final by (simp add: nth_append)
  have high: "drop (?start + 7) accounts' = tokens'" unfolding accounts' put_def using length_final five by simp
  note effect = spend_effectI [OF layout _ _ dist holds dec pages calls(1) made ok(2) anchored(1)
      appends [unfolded paid bindE_simps] moved(1-3) low]
  have "length accounts' = length accounts" unfolding accounts' put_def using length_final five len by simp
  moreover have "encode_transition_receipt_v1 (spend_receipt Withdrawal (ac_key (accounts ! 0)) (ws_nullifier (wi_statement i))
      (ws_change_commitment (wi_statement i)) (ws_destination_token_account (wi_statement i)) (ws_amount (wi_statement i)) leaves
      (new_leaves ?request)) = Inr receipt"
    using receipt effect(2) len
    by (simp add: spend_receipt_def append_receipt_def receipt_of_def root_after_def new_leaves_def algebra_simps)
  ultimately show ?thesis
    using i effect(1) len anchored(2) claim verify bind moved(4-7) [unfolded tokens] high
    by (intro exI [of _ i] exI [of _ layout]) (auto simp: add.commute [of _ "sl_suffix_start layout"] src(1) new_leaves_def spend_verified_def Let_def validate_spend_binding_v1_def split: if_splits)
qed

section \<open>The verifier of a spend\<close>

text \<open>
  With the dispatch of the program as the call, the verifier program the registry selects for the envelope's
  profile and release has answered the exact request with success.
\<close>

definition spend_authorized ::
  "solana \<Rightarrow> pool_runtime \<Rightarrow> pool_state \<Rightarrow> u64 \<Rightarrow> account list \<Rightarrow> anchor_envelope \<Rightarrow> bytes \<Rightarrow> account \<Rightarrow> account \<Rightarrow> bool" where
  "spend_authorized env runtime s slot registry e payload program proof_account \<longleftrightarrow>
     verified (rt_verify runtime) (solana_sha256 env) e payload program proof_account
   \<and> ac_owner proof_account = ac_key program \<and> ac_executable program
   \<and> ae_pool e = id_pool (ps_identity s) \<and> ae_deployment_domain e = id_deployment_domain (ps_identity s)
   \<and> (\<exists>selection. authenticate_verifier_selection_v1 env (id_pool (ps_identity s)) (ps_verifier_policy s) registry
        \<lparr> vs_verifier_program = ac_key program, vs_profile_binding = ae_verifier_profile e,
          vs_release_binding = ae_verifier_release e, vs_statement_version = 1 \<rparr> slot = Inr selection)"

lemma spend_verified_authorized:
  assumes "spend_verified (dispatch_selected_verifier_v1 env runtime) (solana_sha256 env) s e payload layout accounts slot"
    and "id_pool (ps_identity s) = ac_key (accounts ! 0)"
  shows "spend_authorized env runtime s slot [accounts ! (sl_suffix_start layout + 3), accounts ! (sl_suffix_start layout + 4)] e payload
    (accounts ! (sl_suffix_start layout + 5)) (accounts ! (sl_suffix_start layout + 6))"
proof -
  from assms(1) obtain encoded claim plan where dec: "decode_historical_anchor_envelope_v1 encoded = Inr e"
    and claim: "derive_verifier_dispatch_claim_v1 (accounts ! (sl_suffix_start layout + 5)) (accounts ! (sl_suffix_start layout + 6))
        (solana_sha256 env) = Inr claim"
    and run: "dispatch_authenticated_verifier_readonly_v1 env (rt_verify runtime) (ac_key (accounts ! 0))
        (id_deployment_domain (ps_identity s)) (ps_verifier_policy s)
        [accounts ! (sl_suffix_start layout + 3), accounts ! (sl_suffix_start layout + 4)] (accounts ! (sl_suffix_start layout + 5))
        (accounts ! (sl_suffix_start layout + 6)) encoded payload claim slot (solana_sha256 env) = Inr plan"
    by (auto simp: spend_verified_def Let_def dispatch_selected_verifier_v1_def)
  show ?thesis
    using dispatch_facts [OF run claim dec] assms(2) by (auto simp: spend_authorized_def)
qed

end
