(* ===== verification/PoolHandlers.thy ===== *)
theory PoolHandlers
  imports SpendCorrect
begin

text \<open>
  One contract for the handlers of the pool program that append: which accounts they write and what the accounts hold
  afterwards. Deposits, private transfers and withdrawals meet it; initialization has its own.
\<close>

section \<open>Calls that append\<close>

text \<open>
  The accounts of a call that appends \<open>new\<close>: the pool is the first, the current page is at \<open>c\<close>, the next page
  at \<open>n\<close>, markers at \<open>M\<close>. Every other account is kept.
\<close>

definition pool_append ::
  "solana \<Rightarrow> bytes \<Rightarrow> pool_state \<Rightarrow> digest list \<Rightarrow> digest list \<Rightarrow> nat \<Rightarrow> nat option \<Rightarrow> nat set \<Rightarrow> account list \<Rightarrow> account list \<Rightarrow> bool" where
  "pool_append env pid s leaves new c n M accs accs' \<longleftrightarrow>
     distinct (map ac_key accs) \<and> map ac_key accs' = map ac_key accs
   \<and> 0 < c \<and> c < length accs \<and> (\<forall>i. n = Some i \<longrightarrow> 0 < i \<and> i < length accs \<and> i \<noteq> c)
   \<and> outputs_appended env pid s leaves new c n accs accs'
   \<and> (\<forall>j < length accs. j \<notin> {0, c} \<union> set_option n \<union> M \<longrightarrow> kept pid (accs ! j) (accs' ! j))
   \<and> (\<forall>j \<in> M. 0 < j \<and> j < length accs \<and> j \<noteq> c \<and> n \<noteq> Some j
        \<and> (ac_owner (accs ! j) = pid \<longrightarrow> (\<forall>b \<in> set (ac_data (accs ! j)). b = 0)) \<and> ac_owner (accs' ! j) = pid
        \<and> is_ok (decode_pool_v1_nullifier_marker (ac_data (accs' ! j))))"

lemma keys_eqI: "length ys = length xs \<Longrightarrow> (\<And>i. i < length xs \<Longrightarrow> f (ys ! i) = f (xs ! i)) \<Longrightarrow> map f ys = map f xs"
  by (simp add: list_eq_iff_nth_eq)

lemma spend_appends:
  assumes effect: "spend_effect env pid s leaves e new layout accs accs'" and len: "length accs' = length accs"
    and tokens: "list_all2 (kept pid) (drop (sl_suffix_start layout + 7) accs) (drop (sl_suffix_start layout + 7) accs')"
  shows "pool_append env pid s leaves new (sl_current_index layout) (sl_next_index layout) {sl_suffix_start layout} accs accs'"
proof -
  let ?start = "sl_suffix_start layout" and ?c = "sl_current_index layout" and ?n = "sl_next_index layout"
  from effect have layout: "layout_ok layout" "?start + 7 \<le> length accs" "distinct (map ac_key accs)"
    and marker: "marker_taken env pid e (accs ! ?start) (accs' ! ?start)"
    and out: "outputs_appended env pid s leaves new ?c ?n accs accs'"
    and payer: "kept pid (accs ! (?start + 1)) (accs' ! (?start + 1))" "kept pid (accs ! (?start + 2)) (accs' ! (?start + 2))"
    and keys: "\<And>j. j < ?start + 7 \<Longrightarrow> ac_key (accs' ! j) = ac_key (accs ! j)"
    and frame: "\<And>j. j < ?start + 7 \<Longrightarrow> j \<notin> {0, ?c, ?start, ?start + 1, ?start + 2} \<Longrightarrow> ?n \<noteq> Some j \<Longrightarrow> accs' ! j = accs ! j"
    by (auto simp: spend_effect_def Let_def)
  have late: "kept pid (accs ! j) (accs' ! j)" if "?start + 7 \<le> j" "j < length accs" for j
    using list_all2_nthD2 [OF tokens, of "j - (?start + 7)"] that len by simp
  have "kept pid (accs ! j) (accs' ! j)" if "j < length accs" "j \<notin> {0, ?c} \<union> set_option ?n \<union> {?start}" for j
  proof (cases "j < ?start + 7")
    case True
    with that frame [of j] payer show ?thesis by (cases "j = ?start + 1 \<or> j = ?start + 2") auto
  qed (use that late in simp)
  moreover have "map ac_key accs' = map ac_key accs"
    using keys kept_key [OF late] len by (intro keys_eqI) (metis not_le)+
  ultimately show ?thesis
    using layout marker out by (auto simp: pool_append_def layout_ok_def marker_taken_def is_ok_def zeros_iff)
qed

section \<open>Deposits\<close>

lemma deposit_current_page:
  assumes "apply_prevalidated_vault_backed_deposit_with_transfer_v1 env pid (append_accounts P C N) tokens c request transfer = Inr r"
    and "pool_represents (cp_state c) leaves"
  shows "ac_owner C = pid" "ac_key C = page_address env pid (ac_key P) (length leaves div 256)" "validate_request request = Inr ()"
  using assms(1) represents_sequence(1) [OF assms(2)]
  by (auto simp: apply_prevalidated_vault_backed_deposit_with_transfer_v1_def apply_authorized_append_after_prevalidated_v1_def
      apply_authorized_append_after_checked_state_v1_def source_state_def validate_current_history_def require_program_owned_def
      require_root_page_address_def seq_page Let_def simp del: loc_page_number_location split: if_splits)

lemma deposit_tokens_kept:
  assumes prep: "prepare_deposit_after_state_validation_v1 env pid s tokens request = Inr prepared"
    and run: "transfer_and_check (rt_transfer runtime) prepared = Inr tokens'" and calls: "token_calls_ok runtime pid"
  shows "list_all2 (kept pid) tokens tokens'"
proof -
  from run obtain source mint vault authority program where
      paid: "rt_transfer runtime (dp_instruction (pd_transfer_plan prepared)) (pd_transfer_infos prepared) = Inr (source, mint, vault, authority, program)"
    and tokens': "tokens' = [mint, source, authority, vault, program]"
    by (auto simp: transfer_and_check_def Let_def)
  from prep have "exact_transfer_account_infos_v1 tokens = Inr (pd_transfer_infos prepared)"
    by (auto simp: prepare_deposit_after_state_validation_v1_def Let_def)
  moreover have "five_kept pid (pd_transfer_infos prepared) (source, mint, vault, authority, program)"
    using calls paid unfolding token_calls_ok_def by blast
  ultimately show ?thesis by (auto simp: exact_transfer_account_infos_v1_def five_accounts_iff five_kept_def tokens')
qed

lemma deposit_core:
  assumes run: "process_prevalidated_vault_backed_deposit_v1 env (rt_transfer runtime) pid (append_accounts P C N) tokens c request
      = Inr (((written, tokens'), event), out)"
    and dec: "decode_account env pid P = Inr c" and holds: "state_holds P s leaves" and ok: "request_ok request"
    and pages: "pages_hold env pid (ac_key P) leaves accounts" "C \<in> set accounts" and calls: "token_calls_ok runtime pid"
  shows "written = (appended_pool P s (leaves @ [deposit_note s request]),
      with_history_page (ac_key P) (leaves @ [deposit_note s request]) (length leaves div 256) C,
      map_option (with_history_page (ac_key P) (leaves @ [deposit_note s request]) (length leaves div 256 + 1)) N)"
    "deposit_moves tokens tokens' (unat (rq_amount request))" "list_all2 (kept pid) tokens tokens'"
    "vault_account_ok env pid (ac_key P) (id_asset_mint (ps_identity s)) (tokens ! 3)"
    "encode_deposit_event_return_data_v1 (deposit_event_of s leaves tokens request) = Inr out"
    "length leaves < 2 ^ 20" "digest_ok (deposit_note s request)"
    "ac_owner C = pid" "ac_key C = page_address env pid (ac_key P) (length leaves div 256)"
proof -
  note src = decoded_source [OF holds disjI1 [OF dec]]
  from run have core: "apply_prevalidated_vault_backed_deposit_with_transfer_v1 env pid (append_accounts P C N) tokens c request
      (rt_transfer runtime) = Inr ((written, tokens'), event)" and out: "encode_deposit_event_return_data_v1 event = Inr out"
    by (auto simp: process_prevalidated_vault_backed_deposit_v1_def execute_and_emit_deposit_v1_def)
  have rep: "pool_represents (cp_state c) leaves" using state_holds_facts(1) [OF holds] src(1) by simp
  note current = deposit_current_page [OF core rep]
  then show "ac_owner C = pid" "ac_key C = page_address env pid (ac_key P) (length leaves div 256)" by simp_all
  have page: "page_holds (ac_key P) leaves (length leaves div 256) C"
    using pages current(1,2) by (auto simp: pages_hold_def)
  note run' = core [unfolded prevalidated_deposit_eq [OF holds page ok disjI1 [OF dec]]]
  note facts = deposit_correct [OF holds page ok run']
  show "written = (appended_pool P s (leaves @ [deposit_note s request]),
      with_history_page (ac_key P) (leaves @ [deposit_note s request]) (length leaves div 256) C,
      map_option (with_history_page (ac_key P) (leaves @ [deposit_note s request]) (length leaves div 256 + 1)) N)"
    "deposit_moves tokens tokens' (unat (rq_amount request))"
    "vault_account_ok env pid (ac_key P) (id_asset_mint (ps_identity s)) (tokens ! 3)"
    "length leaves < 2 ^ 20" "digest_ok (deposit_note s request)"
    using facts by simp_all
  show "encode_deposit_event_return_data_v1 (deposit_event_of s leaves tokens request) = Inr out" using facts(4) out by simp
  from core obtain prepared where "prepare_deposit_after_state_validation_v1 env pid (cp_state c) tokens request = Inr prepared"
      "transfer_and_check (rt_transfer runtime) prepared = Inr tokens'"
    by (auto simp: apply_prevalidated_vault_backed_deposit_with_transfer_v1_def Let_def)
  then show "list_all2 (kept pid) tokens tokens'" using calls by (rule deposit_tokens_kept)
qed

lemma rolls_iff:
  assumes "deposit_rolls_to_next_page s = Inr r" "pool_represents s leaves" "length leaves < 2 ^ 20"
  shows "r \<longleftrightarrow> (length leaves + 1) div 256 \<noteq> length leaves div 256"
proof -
  have pages: "loc_page_number (root_history_location (current_root_sequence s + 1)) = of_nat ((length leaves + 1) div 256)"
      "loc_page_number (root_history_location (current_root_sequence s)) = of_nat (length leaves div 256)"
    using page_sequence [OF assms(2), of 1] page_sequence [OF assms(2), of 0] assms(3) by simp_all
  have "(length leaves + 1) div 256 \<le> 2 ^ 20" "length leaves div 256 \<le> 2 ^ 20"
    using assms(3) by (auto intro: le_trans [OF div_le_dividend])
  then show ?thesis
    using assms(1) page_numbers_less(2)
    by (auto simp: deposit_rolls_to_next_page_def Let_def ok_or_def checked_add_def pages simp del: loc_page_number_location
        split: option.splits if_splits)
qed

text \<open>The token accounts of a deposit follow its pages.\<close>

definition deposit_tokens :: "nat option \<Rightarrow> account list \<Rightarrow> account list" where
  "deposit_tokens n accounts = take 5 (drop (if n = None then 2 else 3) accounts)"

lemma five_kept_list:
  "list_all2 (kept pid) [a, b, c, d, e] tokens \<longleftrightarrow> (\<exists>a' b' c' d' e'. tokens = [a', b', c', d', e']
     \<and> kept pid a a' \<and> kept pid b b' \<and> kept pid c c' \<and> kept pid d d' \<and> kept pid e e')"
  by (auto simp: list_all2_Cons1)

lemma deposit_without_rollover:
  assumes run: "process_prevalidated_vault_backed_deposit_v1 env (rt_transfer runtime) pid [P, C] tokens c request
      = Inr ((((P', C', N'), tokens'), event), out)"
    and tokens: "tokens = [m, so, au, v, tp]" and accounts: "accounts = [P, C] @ tokens" "distinct (map ac_key accounts)"
    and dec: "decode_account env pid P = Inr c" and holds: "state_holds P s leaves" and ok: "request_ok request"
    and rolls: "deposit_rolls_to_next_page s = Inr False"
    and pages: "pages_hold env pid (ac_key P) leaves accounts" and calls: "token_calls_ok runtime pid"
  shows "pool_append env pid s leaves [deposit_note s request] 1 None {} accounts ([P', C'] @ tokens')"
proof -
  have pair: "append_accounts P C None = [P, C]" by (simp add: append_accounts_def)
  note core = deposit_core [OF run [folded pair] dec holds ok pages _ calls]
  have C: "C \<in> set accounts" using accounts by simp
  obtain m' so' au' v' tp' where t': "tokens' = [m', so', au', v', tp']" "kept pid m m'" "kept pid so so'" "kept pid au au'"
      "kept pid v v'" "kept pid tp tp'"
    using core(3) [OF C] unfolding tokens five_kept_list by blast
  have kept: "j < 7 \<Longrightarrow> j \<notin> {0, 1} \<Longrightarrow> kept pid (([P, C] @ tokens) ! j) (([P', C'] @ tokens') ! j)" for j
    using t' by (auto simp: tokens less_Suc_eq numeral_eq_Suc)
  note written = core(1) [OF C, simplified]
  have "map ac_key ([P', C'] @ tokens') = map ac_key accounts"
    using written t' by (simp add: accounts tokens appended_pool_def with_history_page_def kept_key)
  then show ?thesis
    unfolding pool_append_def outputs_appended_def Let_def
    using accounts(2) written core(6-9) [OF C] rolls_iff [OF rolls state_holds_facts(1) [OF holds]] kept
    by (simp add: accounts(1) tokens)
qed

lemma deposit_with_rollover:
  assumes run: "process_prevalidated_vault_backed_deposit_v1 env (rt_transfer runtime) pid [P, C, N1] tokens c request
      = Inr ((((P', C', Some N'), tokens'), event), out)"
    and tokens: "tokens = [m, so, au, v, tp]" and accounts: "accounts = [P, C, N] @ tokens @ [payer, sys]" "distinct (map ac_key accounts)"
    and fresh: "pool_plan_fresh_program_pda env N pid (page_address env pid (ac_key P) (length leaves div 256 + 1))
      POOL_V1_ROOT_HISTORY_PAGE_ACCOUNT_BYTES = Inr prep"
    and new: "validate_new_page_account env pid (ac_key P) (of_nat (length leaves div 256 + 1)) N1 = Inr ()"
    and others: "kept pid N N1" "kept pid payer payer'" "kept pid sys sys'"
    and dec: "decode_account env pid P = Inr c" and holds: "state_holds P s leaves" and ok: "request_ok request"
    and rolls: "deposit_rolls_to_next_page s = Inr True"
    and pages: "pages_hold env pid (ac_key P) leaves accounts" and calls: "token_calls_ok runtime pid"
  shows "pool_append env pid s leaves [deposit_note s request] 1 (Some 2) {} accounts ([P', C', N'] @ tokens' @ [payer', sys'])"
proof -
  have triple: "append_accounts P C (Some N1) = [P, C, N1]" by (simp add: append_accounts_def)
  note core = deposit_core [OF run [folded triple] dec holds ok pages _ calls]
  have C: "C \<in> set accounts" using accounts by simp
  obtain m' so' au' v' tp' where t': "tokens' = [m', so', au', v', tp']" "kept pid m m'" "kept pid so so'" "kept pid au au'"
      "kept pid v v'" "kept pid tp tp'"
    using core(3) [OF C] unfolding tokens five_kept_list by blast
  have kept: "j < 10 \<Longrightarrow> j \<notin> {0, 1, 2} \<Longrightarrow> kept pid (accounts ! j) (([P', C', N'] @ tokens' @ [payer', sys']) ! j)" for j
    using t' others by (auto simp: accounts tokens less_Suc_eq numeral_eq_Suc)
  note written = core(1) [OF C, simplified]
  have "map ac_key ([P', C', N'] @ tokens' @ [payer', sys']) = map ac_key accounts"
    using written t' others by (simp add: accounts tokens appended_pool_def with_history_page_def kept_key)
  then show ?thesis
    unfolding pool_append_def outputs_appended_def Let_def
    using accounts(2) written core(6-9) [OF C] rolls_iff [OF rolls state_holds_facts(1) [OF holds]] kept new pool_fresh_facts(1,2) [OF fresh]
    by (simp add: accounts(1) tokens with_history_page_def)
qed

lemma decoded_deposit_ok: "decode_deposit_top_level_v1 data = Inr request \<Longrightarrow> request_ok request"
  unfolding decode_deposit_top_level_v1_def by (simp add: instruction_codec.wf_dec)

lemma deposit_run:
  assumes "process_deposit_with_runtime_v1 env runtime pid accounts data = Inr (accounts', out)"
  obtains (same_page) request c P C m so au v tp P' C' N' tokens' event where
    "decode_deposit_top_level_v1 data = Inr request" "decode_account env pid P = Inr c"
    "deposit_rolls_to_next_page (cp_state c) = Inr False" "accounts = [P, C] @ [m, so, au, v, tp]" "distinct (map ac_key accounts)"
    "process_prevalidated_vault_backed_deposit_v1 env (rt_transfer runtime) pid [P, C] [m, so, au, v, tp] c request
      = Inr ((((P', C', N'), tokens'), event), out)" "accounts' = [P', C'] @ tokens'"
  | (next_page) request c P C N m so au v tp payer sys number prep bump payer' N1 sys' P' C' N' tokens' event where
    "decode_deposit_top_level_v1 data = Inr request" "decode_account env pid P = Inr c"
    "deposit_rolls_to_next_page (cp_state c) = Inr True" "accounts = [P, C, N] @ [m, so, au, v, tp] @ [payer, sys]" "distinct (map ac_key accounts)"
    "number = loc_page_number (root_history_location (current_root_sequence (cp_state c) + 1))"
    "pool_plan_fresh_program_pda env N pid (fst (pool_v1_root_page_address env pid (ac_key P) number))
      POOL_V1_ROOT_HISTORY_PAGE_ACCOUNT_BYTES = Inr prep"
    "create_program_pda_if_needed env pid payer N sys POOL_V1_ROOT_HISTORY_PAGE_ACCOUNT_BYTES prep
      [POOL_V1_ROOT_HISTORY_PAGE_SEED, ac_key P, to_le 8 number, [bump]] = Inr (payer', N1, sys')"
    "validate_new_page_account env pid (ac_key P) number N1 = Inr ()"
    "process_prevalidated_vault_backed_deposit_v1 env (rt_transfer runtime) pid [P, C, N1] [m, so, au, v, tp] c request
      = Inr ((((P', C', N'), tokens'), event), out)"
    "accounts' = [P', C'] @ (case N' of Some a \<Rightarrow> [a] | None \<Rightarrow> []) @ tokens' @ [payer', sys']"
proof -
  from assms obtain request P rest c r where head: "decode_deposit_top_level_v1 data = Inr request" "accounts = P # rest"
      "decode_account env pid P = Inr c" "deposit_rolls_to_next_page (cp_state c) = Inr r"
    by (auto simp: process_deposit_with_runtime_v1_def split: list.splits)
  note run = assms [unfolded process_deposit_with_runtime_v1_def head(1) instruction_error_def map_err_simps bindE_simps head(2) list.case head(3,4)]
  show thesis
  proof (cases r)
    case False
    with run head that(1) show thesis
      by (auto simp: Let_def split: list.splits)
  next
    case True
    with run head that(2) show thesis
      by (auto simp: Let_def simp del: new_page_iff split: list.splits prod.splits if_splits)
  qed
qed

lemma deposit_handler:
  assumes run: "process_deposit_with_runtime_v1 env runtime pid accounts data = Inr (accounts', out)"
    and holds: "state_holds (accounts ! 0) s leaves" and pages: "pages_hold env pid (ac_key (accounts ! 0)) leaves accounts"
    and calls: "system_calls_ok env pid" "token_calls_ok runtime pid"
  shows "\<exists>request n. decode_deposit_top_level_v1 data = Inr request
    \<and> pool_append env pid s leaves [deposit_note s request] 1 n {} accounts accounts'
    \<and> deposit_moves (deposit_tokens n accounts) (deposit_tokens n accounts') (unat (rq_amount request))
    \<and> vault_account_ok env pid (ac_key (accounts ! 0)) (id_asset_mint (ps_identity s)) (deposit_tokens n accounts ! 3)
    \<and> encode_deposit_event_return_data_v1 (deposit_event_of s leaves (deposit_tokens n accounts) request) = Inr out"
  using run
proof (cases rule: deposit_run)
  case (same_page request c P C m so au v tp P' C' N' tokens' event)
  note ok = decoded_deposit_ok [OF same_page(1)]
  have holds: "state_holds P s leaves" and pages: "pages_hold env pid (ac_key P) leaves accounts"
    using holds pages same_page(4) by simp_all
  note src = decoded_source [OF holds disjI1 [OF same_page(2)]]
  have pair: "append_accounts P C None = [P, C]" by (simp add: append_accounts_def)
  have C: "C \<in> set accounts" using same_page(4) by simp
  note core = deposit_core [OF same_page(6) [folded pair] same_page(2) holds ok pages C calls(2)]
  note appends = deposit_without_rollover [OF same_page(6) refl same_page(4,5,2) holds ok same_page(3) [unfolded src(1)] pages calls(2)]
  have "length tokens' = 5" using core(2) by (auto simp: deposit_moves_def dest: map_eq_imp_length_eq)
  then show ?thesis
    using same_page(1,4,7) core(2,4,5) appends
    by (intro exI [of _ request] exI [of _ None]) (simp add: deposit_tokens_def numeral_eq_Suc)
next
  case (next_page request c P C N m so au v tp payer sys number prep bump payer' N1 sys' P' C' N' tokens' event)
  note ok = decoded_deposit_ok [OF next_page(1)]
  have holds: "state_holds P s leaves" and pages: "pages_hold env pid (ac_key P) leaves accounts"
    using holds pages next_page(4) by simp_all
  note src = decoded_source [OF holds disjI1 [OF next_page(2)]]
  have triple: "append_accounts P C (Some N1) = [P, C, N1]" by (simp add: append_accounts_def)
  have C: "C \<in> set accounts" using next_page(4) by simp
  note core = deposit_core [OF next_page(10) [folded triple] next_page(2) holds ok pages C calls(2)]
  obtain N2 where N': "N' = Some N2" using core(1) by auto
  have rolls: "(length leaves + 1) div 256 = length leaves div 256 + 1"
    using rolls_iff [OF next_page(3) [unfolded src(1)] state_holds_facts(1) [OF holds] core(6)] by auto
  have number: "number = of_nat (length leaves div 256 + 1)"
    using page_sequence [OF state_holds_facts(1) [OF holds], of 1] core(6) rolls next_page(6) src(1)
    by (simp del: loc_page_number_location)
  note made = created_program_pda [OF next_page(8) calls(1)]
  note appends = deposit_with_rollover [OF next_page(10) [unfolded N'] refl next_page(4,5,7,9) [unfolded number] made(2,1,3) next_page(2) holds ok
      next_page(3) [unfolded src(1)] pages calls(2)]
  have "length tokens' = 5" using core(2) by (auto simp: deposit_moves_def dest: map_eq_imp_length_eq)
  then show ?thesis
    using next_page(1,4,11) core(2,4,5) appends
    by (intro exI [of _ request] exI [of _ "Some 2"]) (simp add: deposit_tokens_def N' numeral_eq_Suc)
qed

section \<open>Initialization\<close>

lemma vault_initialized_kept:
  assumes run: "initialize_vault_account env runtime pid pool mint vault tp payer sys prep = Inr (mint', vault', tp', payer', sys')"
    and calls: "system_calls_ok env pid" "token_calls_ok runtime pid"
  shows "kept pid mint mint'" "kept pid vault vault'" "kept pid tp tp'" "kept pid payer payer'" "kept pid sys sys'"
proof -
  obtain k b where addr: "pool_v1_vault_token_account_address env pid pool = (k, b)"
    by (cases "pool_v1_vault_token_account_address env pid pool")
  have init: "rt_initialize_account runtime ix i = Inr i' \<Longrightarrow> infos_kept pid i i'" for ix i i'
    using calls(2) unfolding token_calls_ok_def by blast
  have "kept pid mint mint' \<and> kept pid vault vault' \<and> kept pid tp tp' \<and> kept pid payer payer' \<and> kept pid sys sys'"
    using run by (auto simp: initialize_vault_account_def addr Let_def split: if_splits
        dest!: init pool_create_kept [OF _ calls(1)] intro: kept_trans)
  then show "kept pid mint mint'" "kept pid vault vault'" "kept pid tp tp'" "kept pid payer payer'" "kept pid sys sys'" by simp_all
qed

definition pool_created :: "solana \<Rightarrow> bytes \<Rightarrow> pool_initialization \<Rightarrow> pool_state \<Rightarrow> account list \<Rightarrow> account list \<Rightarrow> bool" where
  "pool_created env pid init s accs accs' \<longleftrightarrow>
     distinct (map ac_key accs) \<and> map ac_key accs' = map ac_key accs \<and> length accs = 7
   \<and> state_holds (accs' ! 1) s [] \<and> id_asset_mint (ps_identity s) = pi_asset_mint init \<and> id_asset_id (ps_identity s) = pi_asset_id init
   \<and> id_deployment_domain (ps_identity s) = pi_deployment_domain init \<and> ps_verifier_policy s = pi_verifier_policy init
   \<and> ac_key (accs ! 1) = fst (pool_v1_state_address env pid (pi_asset_mint init))
   \<and> ac_key (accs ! 2) = page_address env pid (ac_key (accs ! 1)) 0
   \<and> page_holds (ac_key (accs ! 1)) [] 0 (accs' ! 2)
   \<and> (\<forall>j \<in> {1, 2}. (ac_owner (accs ! j) = pid \<longrightarrow> (\<forall>b \<in> set (ac_data (accs ! j)). b = 0))
        \<and> ac_owner (accs' ! j) = pid \<and> \<not> ac_executable (accs' ! j))
   \<and> (\<forall>j < 7. j \<notin> {1, 2} \<longrightarrow> kept pid (accs ! j) (accs' ! j))"

lemma empty_vault_facts:
  assumes "require_initialized_empty_vault env pid pool mint vault = Inr u"
  shows "vault_account_ok env pid pool mint vault" "token_balance vault = Some 0"
  using assms by (auto simp: require_initialized_empty_vault_def vault_account_ok_def token_balance_def split: if_splits)

lemma vault_initialized_empty:
  assumes run: "initialize_vault_account env runtime pid pool mint vault tp payer sys prep = Inr (mint', vault', tp', payer', sys')"
    and plan: "plan_vault_initialization env pid pool (ac_key mint) vault = Inr prep" and calls: "token_calls_ok runtime pid"
  shows "vault_account_ok env pid pool (ac_key mint) vault'" "token_balance vault' = Some 0"
proof -
  have init: "rt_initialize_account runtime ix i = Inr i' \<Longrightarrow> infos_kept pid i i'" for ix i i'
    using calls unfolding token_calls_ok_def by blast
  have "\<exists>u. require_initialized_empty_vault env pid pool (ac_key mint) vault' = Inr u"
    using run plan by (auto simp: initialize_vault_account_def plan_vault_initialization_def Let_def kept_key
        split: if_splits prod.splits dest!: init)
  then show "vault_account_ok env pid pool (ac_key mint) vault'" "token_balance vault' = Some 0"
    using empty_vault_facts by blast+
qed

lemma initialize_run:
  assumes "process_initialize_with_runtime_v1 env runtime pid accounts data = Inr (accounts', out)"
  obtains init payer pool page mint vault tp sys pp gp vp pb gb payer1 pool1 sys1 payer2 page1 sys2 mint' vault' tp' payer' sys' state where
    "decode_initialize_instruction_v1 data = Inr init" "accounts = [payer, pool, page, mint, vault, tp, sys]" "distinct (map ac_key accounts)"
    "ac_key mint = pi_asset_mint init"
    "pool_plan_fresh_program_pda env pool pid (fst (pool_v1_state_address env pid (pi_asset_mint init))) POOL_V1_STATE_ACCOUNT_BYTES = Inr pp"
    "pool_plan_fresh_program_pda env page pid (fst (pool_v1_root_page_address env pid (ac_key pool) 0)) POOL_V1_ROOT_HISTORY_PAGE_ACCOUNT_BYTES = Inr gp"
    "plan_vault_initialization env pid (ac_key pool) (pi_asset_mint init) vault = Inr vp"
    "create_program_pda_if_needed env pid payer pool sys POOL_V1_STATE_ACCOUNT_BYTES pp [POOL_V1_STATE_SEED, pi_asset_mint init, [pb]]
       = Inr (payer1, pool1, sys1)"
    "create_program_pda_if_needed env pid payer1 page sys1 POOL_V1_ROOT_HISTORY_PAGE_ACCOUNT_BYTES gp
       [POOL_V1_ROOT_HISTORY_PAGE_SEED, ac_key pool, to_le 8 (0 :: u64), [gb]] = Inr (payer2, page1, sys2)"
    "initialize_vault_account env runtime pid (ac_key pool1) mint vault tp payer2 sys2 vp = Inr (mint', vault', tp', payer', sys')"
    "initialize_pool_accounts_v1 env pid [pool1, page1] init = Inr state"
    "accounts' = [payer', state ! 0, state ! 1, mint', vault', tp', sys']"
    "out = encode_initialization_receipt_v1 (ac_key pool1) (ac_key page1) (ac_key vault')"
proof -
  from assms obtain init where dec: "decode_initialize_instruction_v1 data = Inr init"
    by (auto simp only: process_initialize_with_runtime_v1_def bindE_eq_Inr instruction_error_iff)
  have "\<exists>payer pool page mint vault tp sys. accounts = [payer, pool, page, mint, vault, tp, sys]"
    using assms unfolding process_initialize_with_runtime_v1_def dec instruction_error_def map_err_simps bindE_simps
    by (simp only: split: list.split_asm) simp_all
  with dec obtain payer pool page mint vault tp sys where head: "decode_initialize_instruction_v1 data = Inr init"
      "accounts = [payer, pool, page, mint, vault, tp, sys]" by blast
  obtain a pb where a: "pool_v1_state_address env pid (pi_asset_mint init) = (a, pb)" by (cases "pool_v1_state_address env pid (pi_asset_mint init)")
  obtain b gb where b: "pool_v1_root_page_address env pid (ac_key pool) 0 = (b, gb)" by (cases "pool_v1_root_page_address env pid (ac_key pool) 0")
  note run = assms [unfolded process_initialize_with_runtime_v1_def head(1) instruction_error_def map_err_simps bindE_simps head(2) list.case Let_def a b prod.case]
  show thesis
    using run head a b that [of init payer pool page mint vault tp sys]
    by (auto split: if_splits)
qed

lemma initialize_handler:
  assumes run: "process_initialize_with_runtime_v1 env runtime pid accounts data = Inr (accounts', out)"
    and keys: "\<forall>a \<in> set accounts. length (ac_key a) = 32" and calls: "system_calls_ok env pid" "token_calls_ok runtime pid"
  shows "\<exists>init s. decode_initialize_instruction_v1 data = Inr init \<and> pool_created env pid init s accounts accounts'
    \<and> vault_account_ok env pid (ac_key (accounts ! 1)) (pi_asset_mint init) (accounts' ! 4) \<and> token_balance (accounts' ! 4) = Some 0
    \<and> out = encode_initialization_receipt_v1 (ac_key (accounts ! 1)) (ac_key (accounts ! 2)) (ac_key (accounts ! 4))"
  using run
proof (rule initialize_run)
  fix init :: pool_initialization and payer pool page mint vault tp sys pp gp vp pb gb payer1 pool1 sys1 payer2 page1 sys2 mint' vault' tp' payer' sys' state
  assume init: "decode_initialize_instruction_v1 data = Inr init"
    and accounts: "accounts = [payer, pool, page, mint, vault, tp, sys]" "distinct (map ac_key accounts)" and mint: "ac_key mint = pi_asset_mint init"
    and fresh: "pool_plan_fresh_program_pda env pool pid (fst (pool_v1_state_address env pid (pi_asset_mint init))) POOL_V1_STATE_ACCOUNT_BYTES = Inr pp"
      "pool_plan_fresh_program_pda env page pid (fst (pool_v1_root_page_address env pid (ac_key pool) 0)) POOL_V1_ROOT_HISTORY_PAGE_ACCOUNT_BYTES = Inr gp"
    and vault: "plan_vault_initialization env pid (ac_key pool) (pi_asset_mint init) vault = Inr vp"
    and made: "create_program_pda_if_needed env pid payer pool sys POOL_V1_STATE_ACCOUNT_BYTES pp [POOL_V1_STATE_SEED, pi_asset_mint init, [pb]]
       = Inr (payer1, pool1, sys1)"
      "create_program_pda_if_needed env pid payer1 page sys1 POOL_V1_ROOT_HISTORY_PAGE_ACCOUNT_BYTES gp
       [POOL_V1_ROOT_HISTORY_PAGE_SEED, ac_key pool, to_le 8 (0 :: u64), [gb]] = Inr (payer2, page1, sys2)"
    and init_vault: "initialize_vault_account env runtime pid (ac_key pool1) mint vault tp payer2 sys2 vp = Inr (mint', vault', tp', payer', sys')"
    and state: "initialize_pool_accounts_v1 env pid [pool1, page1] init = Inr state"
    and accounts': "accounts' = [payer', state ! 0, state ! 1, mint', vault', tp', sys']"
    and out: "out = encode_initialization_receipt_v1 (ac_key pool1) (ac_key page1) (ac_key vault')"
  note first = created_program_pda [OF made(1) calls(1)] and second = created_program_pda [OF made(2) calls(1)]
  note v = vault_initialized_kept [OF init_vault calls]
  have k: "ac_key pool1 = ac_key pool" "ac_key page1 = ac_key page" using first second kept_key by blast+
  note vault' = vault_initialized_empty [OF init_vault _ calls(2), unfolded k mint, OF vault]
  have "initialization_ok init" using init by (rule initialize_codec.wf_dec)
  moreover have "\<forall>a \<in> set [pool1, page1]. length (ac_key a) = 32" using keys accounts(1) k by simp
  ultimately obtain s where s: "pool_represents s []" "id_pool (ps_identity s) = ac_key pool1" "id_asset_mint (ps_identity s) = pi_asset_mint init"
      "ps_verifier_policy s = pi_verifier_policy init" "ac_owner pool1 = pid" "ac_owner page1 = pid" "\<not> ac_executable pool1" "\<not> ac_executable page1"
      "state = [appended_pool pool1 s [], with_history_page (ac_key pool1) [] 0 page1]"
      "id_asset_id (ps_identity s) = pi_asset_id init" "id_deployment_domain (ps_identity s) = pi_deployment_domain init"
    using state by (elim initialize_eq) auto
  have same: "s\<lparr> ps_tree := tree_of [] \<rparr> = s" using s(1) by (cases s) (simp add: pool_represents_def)
  have holds: "state_holds (appended_pool pool1 s []) s []"
    unfolding state_holds_def appended_pool_def same using s(1,2) by simp
  have zero: "ac_owner pool = pid \<Longrightarrow> \<forall>b \<in> set (ac_data pool). b = 0" "ac_owner page = pid \<Longrightarrow> \<forall>b \<in> set (ac_data page). b = 0"
    using pool_fresh_facts(2) [OF fresh(1)] pool_fresh_facts(2) [OF fresh(2)] by (auto simp: zeros_iff)
  have kept: "j < 7 \<Longrightarrow> j \<notin> {1, 2} \<Longrightarrow> kept pid (accounts ! j) (accounts' ! j)" for j
    using kept_trans [OF kept_trans [OF first(1) second(1)] v(4)] kept_trans [OF kept_trans [OF first(3) second(3)] v(5)] v
    by (auto simp: accounts(1) accounts' less_Suc_eq numeral_eq_Suc)
  have "map ac_key accounts' = map ac_key accounts"
    using kept_key [OF kept [of 0]] kept_key [OF kept [of 3]] kept_key [OF kept [of 4]] kept_key [OF kept [of 5]] kept_key [OF kept [of 6]] k
    by (simp add: accounts(1) accounts' s(9) appended_pool_def with_history_page_def numeral_eq_Suc)
  then have "pool_created env pid init s accounts accounts'"
    unfolding pool_created_def using accounts(2) holds s pool_fresh_facts(1) [OF fresh(1)] pool_fresh_facts(1) [OF fresh(2)] zero kept k
    by (simp add: accounts(1) accounts' page_holds_def with_history_page_def appended_pool_def)
  then show ?thesis
    using init vault' out k kept_key [OF v(2)] by (intro exI [of _ init] exI [of _ s]) (simp add: accounts(1) accounts')
qed

end
