(* ===== verification/PoolLedger.thy ===== *)
theory PoolLedger
  imports PoolHandlers
begin

text \<open>
  The pool program on a ledger. A step is a successful call of one of the V1 handlers on any accounts of the ledger
  with any flags, or a transaction of other programs. Every pool account on the ledger represents a list of leaves
  whose roots its pages hold; a step extends the list of at most one pool, and a nullifier marker stays.
\<close>

section \<open>Pools on the ledger\<close>

definition blank :: "account \<Rightarrow> bool" where
  "blank a \<longleftrightarrow> (\<forall>b \<in> set (ac_data a). b = 0)"

definition pool_at :: "solana \<Rightarrow> bytes \<Rightarrow> ledger \<Rightarrow> bytes \<Rightarrow> pool_state \<Rightarrow> digest list \<Rightarrow> bool" where
  "pool_at env pid L k s leaves \<longleftrightarrow>
     (\<exists>a. L k = Some a \<and> ac_owner a = pid \<and> state_holds (a\<lparr> ac_key := k \<rparr>) s leaves)
   \<and> (\<forall>p \<le> length leaves div 256. \<exists>b. L (page_address env pid k p) = Some b \<and> ac_owner b = pid \<and> ac_data b = history_page k leaves p)"

lemma pool_at_page:
  "pool_at env pid L k s leaves \<Longrightarrow> p \<le> length leaves div 256 \<Longrightarrow>
     \<exists>b. L (page_address env pid k p) = Some b \<and> ac_owner b = pid \<and> ac_data b = history_page k leaves p"
  by (simp add: pool_at_def)

text \<open>A state account, as the handlers recognise one.\<close>

definition state_account :: "bytes \<Rightarrow> account \<Rightarrow> bool" where
  "state_account k a \<longleftrightarrow> is_ok (decode_with_validated_tree (ac_data a) k)"

definition ledger_ok :: "solana \<Rightarrow> bytes \<Rightarrow> ledger \<Rightarrow> bool" where
  "ledger_ok env pid L \<longleftrightarrow> (\<forall>k a. L k = Some a \<longrightarrow> ac_owner a = pid \<longrightarrow> state_account k a \<longrightarrow> (\<exists>s leaves. pool_at env pid L k s leaves))"

section \<open>The three kinds of account\<close>

lemma magic_not_blank:
  assumes "seg 0 4 (ac_data a) = [x, y, z, w]" "x \<noteq> 0" "4 \<le> length (ac_data a)"
  shows "\<not> blank a"
proof -
  have "ac_data a ! 0 = x" using arg_cong [OF assms(1), of "\<lambda>xs. xs ! 0"] assms(3) by (simp add: nth_seg)
  moreover have "ac_data a ! 0 \<in> set (ac_data a)" using assms(3) by (intro nth_mem) linarith
  ultimately show ?thesis using assms(2) unfolding blank_def by blast
qed

lemma magic_byte: "(0x41 :: u8) \<noteq> 0"
  by simp

lemma state_account_data:
  assumes "state_account k a"
  shows "length (ac_data a) = 1000" "\<not> blank a"
proof -
  from assms show len: "length (ac_data a) = 1000"
    by (auto simp: state_account_def is_ok_def decode_with_validated_tree_def state_header_rejected_def layout_defs Let_def split: sum.splits if_splits)
  have "seg 0 4 (ac_data a) = POOL_V1_STATE_ACCOUNT_MAGIC"
    using assms by (auto simp: state_account_def is_ok_def decode_with_validated_tree_def state_header_rejected_def layout_defs Let_def split: sum.splits if_splits)
  then show "\<not> blank a" using len by - (rule magic_not_blank [OF _ magic_byte], simp_all add: layout_defs)
qed

lemma marker_data:
  assumes "is_ok (decode_pool_v1_nullifier_marker (ac_data a))"
  shows "length (ac_data a) = 208" "\<not> blank a"
proof -
  from assms obtain m where m: "decode_pool_v1_nullifier_marker (ac_data a) = Inr m" by (auto simp: is_ok_iff)
  then show "length (ac_data a) = 208" using marker_codec.length_dec [OF m] by (simp add: layout_defs)
  show "\<not> blank a" using marker_not_zero [OF m] by (auto simp: blank_def)
qed

lemma history_page_data:
  assumes "ac_data a = history_page k leaves p" "pool_represents s leaves" "length k = 32" "p \<le> 2 ^ 20"
  shows "length (ac_data a) = 8256" "\<not> blank a" "seg 8 40 (ac_data a) = k" "seg 40 48 (ac_data a) = to_le 8 (of_nat p :: u64)"
proof -
  have ok: "page_ok (history_header k leaves p) (history_roots leaves p)"
    using assms by (intro history_page_ok) (auto simp: pool_represents_def)
  note f = page_image_fields [OF ok]
  show len: "length (ac_data a) = 8256" using ok by (simp add: assms(1) history_page_def)
  show "seg 8 40 (ac_data a) = k" "seg 40 48 (ac_data a) = to_le 8 (of_nat p :: u64)"
    unfolding assms(1) history_page_def f(6,7) by (simp_all add: history_header_def)
  have "seg 0 4 (ac_data a) = POOL_V1_ROOT_HISTORY_PAGE_MAGIC" unfolding assms(1) history_page_def by (rule f(1))
  then show "\<not> blank a" using len by - (rule magic_not_blank [OF _ magic_byte], simp_all add: layout_defs)
qed

lemma length_history_page:
  assumes "pool_represents s leaves" "length k = 32" "p \<le> 2 ^ 20"
  shows "length (history_page k leaves p) = 8256"
  using history_page_ok [of leaves k p] assms by (simp add: pool_represents_def history_page_def)

section \<open>A call on the ledger\<close>

text \<open>The accounts of a call are accounts of the ledger, under any flags.\<close>

definition accounts_of :: "ledger \<Rightarrow> account list \<Rightarrow> bool" where
  "accounts_of L accs \<longleftrightarrow> (\<exists>metas. list_all2 (\<lambda>m a. account_info L m = Some a) metas accs)"

lemma accounts_of_nth:
  assumes "accounts_of L accs" "j < length accs"
  shows "\<exists>b. L (ac_key (accs ! j)) = Some b \<and> ac_owner b = ac_owner (accs ! j) \<and> ac_data b = ac_data (accs ! j)"
  using assms by (auto simp: accounts_of_def list_all2_conv_all_nth dest!: account_info_stored)

lemma accounts_of_tl: "accounts_of L accs \<Longrightarrow> accounts_of L (tl accs)"
  unfolding accounts_of_def by (cases accs) (auto simp: list_all2_Cons2)

text \<open>Away from the positions a call writes, accounts of the program stay and none appears but blank ones.\<close>

lemma call_frame:
  assumes view: "accounts_of L accs" and keys: "distinct (map ac_key accs)" "map ac_key accs' = map ac_key accs"
    and others: "\<And>j. j < length accs \<Longrightarrow> j \<notin> W \<Longrightarrow> kept pid (accs ! j) (accs' ! j)"
    and x: "\<And>j. j < length accs \<Longrightarrow> j \<in> W \<Longrightarrow> x \<noteq> ac_key (accs ! j)"
  shows "L x = Some b \<Longrightarrow> ac_owner b = pid \<Longrightarrow> \<exists>b'. write_back L accs' x = Some b' \<and> ac_owner b' = pid \<and> ac_data b' = ac_data b"
    "write_back L accs' x = Some b' \<Longrightarrow> ac_owner b' = pid \<Longrightarrow> \<not> blank b' \<Longrightarrow> \<exists>b. L x = Some b \<and> ac_owner b = pid \<and> ac_data b = ac_data b'"
proof -
  have len: "length accs' = length accs" using keys(2) by (metis length_map)
  have key: "ac_key (accs' ! j) = ac_key (accs ! j)" if "j < length accs" for j
    using arg_cong [OF keys(2), of "\<lambda>xs. xs ! j"] that len by simp
  consider (outside) "write_back L accs' x = L x" | (inside) j where "j < length accs" "x = ac_key (accs ! j)" "write_back L accs' x = Some (accs' ! j)"
  proof (cases "x \<in> ac_key ` set accs'")
    case True
    then obtain j where "j < length accs" "x = ac_key (accs' ! j)" by (auto simp: in_set_conv_nth len)
    moreover from this have "write_back L accs' x = Some (accs' ! j)" using write_back_at [of accs' j L] keys len by simp
    ultimately show thesis using inside key by simp
  qed (use outside in \<open>simp add: write_back_other\<close>)
  note cases = this
  have inside: "kept pid (accs ! j) (accs' ! j)" if "j < length accs" "x = ac_key (accs ! j)" for j using others x that by blast
  show "\<exists>b'. write_back L accs' x = Some b' \<and> ac_owner b' = pid \<and> ac_data b' = ac_data b" if "L x = Some b" "ac_owner b = pid"
    using cases
  proof cases
    case (inside j)
    then obtain b0 where "L x = Some b0" "ac_owner b0 = ac_owner (accs ! j)" "ac_data b0 = ac_data (accs ! j)" using accounts_of_nth [OF view] by blast
    with inside that others x show ?thesis by (fastforce simp: kept_def)
  qed (use that in simp)
  show "\<exists>b. L x = Some b \<and> ac_owner b = pid \<and> ac_data b = ac_data b'"
    if "write_back L accs' x = Some b'" "ac_owner b' = pid" "\<not> blank b'"
    using cases
  proof cases
    case (inside j)
    then obtain b0 where "L x = Some b0" "ac_owner b0 = ac_owner (accs ! j)" "ac_data b0 = ac_data (accs ! j)" using accounts_of_nth [OF view] by blast
    with inside that others x show ?thesis by (fastforce simp: kept_def blank_def)
  qed (metis that)
qed

lemma written_at:
  assumes "distinct (map ac_key accs)" "map ac_key accs' = map ac_key accs" "j < length accs"
  shows "write_back L accs' (ac_key (accs ! j)) = Some (accs' ! j)"
proof -
  have len: "length accs' = length accs" using assms(2) by (metis length_map)
  have "ac_key (accs' ! j) = ac_key (accs ! j)" using arg_cong [OF assms(2), of "\<lambda>xs. xs ! j"] assms(3) len by simp
  then show ?thesis using write_back_at [of accs' j L] assms len by simp
qed

lemma state_holds_cong: "ac_key a = ac_key b \<Longrightarrow> ac_data a = ac_data b \<Longrightarrow> state_holds a s leaves = state_holds b s leaves"
  by (simp add: state_holds_def)

lemma pool_at_view:
  assumes at: "pool_at env pid L (ac_key (accs ! 0)) s leaves" and view: "accounts_of L accs" "accs \<noteq> []"
  shows "state_holds (accs ! 0) s leaves" "pages_hold env pid (ac_key (accs ! 0)) leaves accs"
proof -
  obtain b where b: "L (ac_key (accs ! 0)) = Some b" "ac_data b = ac_data (accs ! 0)" using accounts_of_nth [OF view(1), of 0] view(2) by auto
  from at b(1) have "state_holds (b\<lparr> ac_key := ac_key (accs ! 0) \<rparr>) s leaves" by (auto simp: pool_at_def)
  then show "state_holds (accs ! 0) s leaves" using state_holds_cong [of "b\<lparr> ac_key := ac_key (accs ! 0) \<rparr>" "accs ! 0"] b(2) by simp
  show "pages_hold env pid (ac_key (accs ! 0)) leaves accs"
    unfolding pages_hold_def page_holds_def
  proof (intro ballI allI impI)
    fix a p assume "a \<in> set accs" "p \<le> length leaves div 256" "ac_key a = page_address env pid (ac_key (accs ! 0)) p"
    then show "ac_data a = history_page (ac_key (accs ! 0)) leaves p"
      using at accounts_of_nth [OF view(1)] by (fastforce simp: pool_at_def in_set_conv_nth)
  qed
qed

lemma append_ledger:
  fixes L L' :: ledger and k :: bytes
  assumes view: "accounts_of L accs" and call: "pool_append env pid s leaves new c n M accs accs'" "length new \<le> 256"
    and at: "pool_at env pid L k s leaves" and k: "k = ac_key (accs ! 0)" and L': "L' = write_back L accs'"
  shows "pool_at env pid L' k (s\<lparr> ps_tree := tree_of (leaves @ new) \<rparr>) (leaves @ new)"
    "\<And>x b. L x = Some b \<Longrightarrow> ac_owner b = pid \<Longrightarrow> \<not> blank b \<Longrightarrow> x \<noteq> k \<Longrightarrow> x \<noteq> page_address env pid k (length leaves div 256) \<Longrightarrow>
       \<exists>b'. L' x = Some b' \<and> ac_owner b' = pid \<and> ac_data b' = ac_data b"
    "\<And>x b'. L' x = Some b' \<Longrightarrow> ac_owner b' = pid \<Longrightarrow> state_account x b' \<Longrightarrow> x \<noteq> k \<Longrightarrow>
       \<exists>b. L x = Some b \<and> ac_owner b = pid \<and> ac_data b = ac_data b'"
proof -
  let ?p = "length leaves div 256" and ?W = "{0, c} \<union> set_option n \<union> M" and ?after = "leaves @ new"
  from call have keys: "distinct (map ac_key accs)" "map ac_key accs' = map ac_key accs" and c: "0 < c" "c < length accs"
    and n: "\<And>i. n = Some i \<Longrightarrow> 0 < i \<and> i < length accs \<and> i \<noteq> c" and out: "outputs_appended env pid s leaves new c n accs accs'"
    and others: "\<And>j. j < length accs \<Longrightarrow> j \<notin> ?W \<Longrightarrow> kept pid (accs ! j) (accs' ! j)"
    and M: "\<And>j. j \<in> M \<Longrightarrow> j < length accs \<and> (ac_owner (accs ! j) = pid \<longrightarrow> (\<forall>b \<in> set (ac_data (accs ! j)). b = 0))
        \<and> length (ac_data (accs' ! j)) = 208"
    by (auto simp: pool_append_def dest!: marker_data(1))
  have ne: "accs \<noteq> []" using c by auto
  note holds = pool_at_view [OF at [unfolded k] view ne] and facts = state_holds_facts [OF pool_at_view(1) [OF at [unfolded k] view ne]]
  have k32: "length k = 32" using facts(2) k by simp
  from out [unfolded outputs_appended_def Let_def, folded k] have room: "length leaves + length new \<le> 2 ^ 20" and new: "list_all digest_ok new"
    and P': "accs' ! 0 = appended_pool (accs ! 0) s ?after" and C: "ac_key (accs ! c) = page_address env pid k ?p" "ac_owner (accs ! c) = pid"
      "accs' ! c = with_history_page k ?after ?p (accs ! c)"
    and n_iff: "n = None \<longleftrightarrow> (length leaves + length new) div 256 = ?p"
    and N: "\<And>i. n = Some i \<Longrightarrow> ac_key (accs ! i) = page_address env pid k (?p + 1)
        \<and> (ac_owner (accs ! i) = pid \<longrightarrow> ac_data (accs ! i) = zeros POOL_V1_ROOT_HISTORY_PAGE_ACCOUNT_BYTES)
        \<and> ac_owner (accs' ! i) = pid \<and> ac_data (accs' ! i) = history_page k ?after (?p + 1)"
    by auto
  have rep': "pool_represents (s\<lparr> ps_tree := tree_of ?after \<rparr>) ?after" using facts(1) new room by (rule represents_next)
  have p: "?p + 1 \<le> 2 ^ 20" using div_le_mono [of "length leaves" "2 ^ 20" 256] room by simp
  show keep: "\<exists>b'. L' x = Some b' \<and> ac_owner b' = pid \<and> ac_data b' = ac_data b"
    if "L x = Some b" "ac_owner b = pid" "\<not> blank b" "x \<noteq> k" "x \<noteq> page_address env pid k ?p" for x b
    unfolding L'
  proof (rule call_frame(1) [OF view keys others _ that(1,2)])
    fix j assume j: "j < length accs" "j \<in> ?W"
    show "x \<noteq> ac_key (accs ! j)"
    proof
      assume "x = ac_key (accs ! j)"
      moreover from this that(1) j(1) have "ac_owner (accs ! j) = pid" "ac_data (accs ! j) = ac_data b"
        using accounts_of_nth [OF view j(1)] that(2) by auto
      ultimately show False using j(2) that(3-5) k C(1) N M by (auto simp: blank_def zeros_iff)
    qed
  qed
  show "\<exists>b. L x = Some b \<and> ac_owner b = pid \<and> ac_data b = ac_data b'"
    if "L' x = Some b'" "ac_owner b' = pid" "state_account x b'" "x \<noteq> k" for x b'
  proof (rule call_frame(2) [OF view keys others _ that(1) [unfolded L'] that(2) state_account_data(2) [OF that(3)]])
    fix j assume j: "j < length accs" "j \<in> ?W"
    show "x \<noteq> ac_key (accs ! j)"
    proof
      assume "x = ac_key (accs ! j)"
      then have "b' = accs' ! j" using written_at [OF keys j(1), of L] that(1) L' by simp
      then have "length (ac_data (accs' ! j)) = 1000" using state_account_data(1) [OF that(3)] by simp
      moreover have "length (history_page k ?after ?p) = 8256" "length (history_page k ?after (?p + 1)) = 8256"
        using length_history_page [OF rep' k32] p by auto
      ultimately show False using j(2) that(4) \<open>x = _\<close> k C(3) N M by (fastforce simp: with_history_page_def)
    qed
  qed
  have state: "L' k = Some (accs' ! 0)" using written_at [OF keys, of 0 L] ne k L' by simp
  have current: "L' (page_address env pid k ?p) = Some (accs' ! c)" using written_at [OF keys c(2), of L] C(1) L' by simp
  have "\<exists>b. L' (page_address env pid k q) = Some b \<and> ac_owner b = pid \<and> ac_data b = history_page k ?after q"
    if q: "q \<le> length ?after div 256" for q
  proof -
    have "length ?after div 256 \<le> ?p + 1" using call(2) by simp
    with q consider "q < ?p" | "q = ?p" | "q = ?p + 1" "length ?after div 256 \<noteq> ?p" by linarith
    then show ?thesis
    proof cases
      case 1
      let ?x = "page_address env pid k q"
      obtain b where b: "L ?x = Some b" "ac_owner b = pid" "ac_data b = history_page k leaves q"
        using pool_at_page [OF at, of q] 1 by auto
      note page = history_page_data [OF b(3) facts(1) k32] 
      have small: "q \<le> 2 ^ 20" "?p \<le> 2 ^ 20" using 1 p by simp_all
      obtain a0 where a0: "L k = Some a0" "ac_data a0 = ac_data (accs ! 0)" using accounts_of_nth [OF view, of 0] ne k by auto
      obtain bp where bp: "L (page_address env pid k ?p) = Some bp" "ac_data bp = history_page k leaves ?p"
        using pool_at_page [OF at order_refl] by blast
      have "?x \<noteq> k" using a0 b(1) page(1) [OF small(1)] facts(3) by (auto simp: layout_defs)
      moreover have "?x \<noteq> page_address env pid k ?p"
      proof
        assume "?x = page_address env pid k ?p"
        with b(1) bp(1) have "b = bp" by simp
        with page(4) [OF small(1)] history_page_data(4) [OF bp(2) facts(1) k32 small(2)] have "to_le 8 (of_nat q :: u64) = to_le 8 (of_nat ?p :: u64)" by simp
        then have "(of_nat q :: u64) = of_nat ?p" by (metis from_le_u64)
        with 1 page_numbers_less(2) [OF small] show False by simp
      qed
      moreover have "history_page k ?after q = history_page k leaves q"
        using 1 div_times_less_eq_dividend [of "length leaves" 256] by (intro history_page_old) linarith
      ultimately show ?thesis using keep [OF b(1,2) page(2) [OF small(1)]] b(3) by auto
    next
      case 2
      with current C(2,3) show ?thesis by (simp add: with_history_page_def)
    next
      case 3
      then obtain i where i: "n = Some i" using n_iff by auto
      then show ?thesis using 3(1) N [OF i] written_at [OF keys, of i L] n [OF i] L' by auto
    qed
  qed
  moreover have "state_holds ((accs' ! 0)\<lparr> ac_key := k \<rparr>) (s\<lparr> ps_tree := tree_of ?after \<rparr>) ?after"
    using rep' holds(1) k by (simp add: P' state_holds_def appended_pool_def)
  moreover have "ac_owner (accs' ! 0) = pid" using at accounts_of_nth [OF view, of 0] ne k by (auto simp: P' appended_pool_def pool_at_def)
  ultimately show "pool_at env pid L' k (s\<lparr> ps_tree := tree_of ?after \<rparr>) ?after"
    unfolding pool_at_def using state by blast
qed

lemma created_ledger:
  fixes L L' :: ledger
  assumes view: "accounts_of L accs" and call: "pool_created env pid init s accs accs'" and L': "L' = write_back L accs'"
  shows "pool_at env pid L' (ac_key (accs ! 1)) s []"
    "\<And>x b. L x = Some b \<Longrightarrow> ac_owner b = pid \<Longrightarrow> \<not> blank b \<Longrightarrow> \<exists>b'. L' x = Some b' \<and> ac_owner b' = pid \<and> ac_data b' = ac_data b"
    "\<And>x b'. L' x = Some b' \<Longrightarrow> ac_owner b' = pid \<Longrightarrow> state_account x b' \<Longrightarrow> x \<noteq> ac_key (accs ! 1) \<Longrightarrow>
       \<exists>b. L x = Some b \<and> ac_owner b = pid \<and> ac_data b = ac_data b'"
proof -
  from call have keys: "distinct (map ac_key accs)" "map ac_key accs' = map ac_key accs" and len: "length accs = 7"
    and state: "state_holds (accs' ! 1) s []" and page: "ac_data (accs' ! 2) = history_page (ac_key (accs ! 1)) [] 0"
      "ac_key (accs ! 2) = page_address env pid (ac_key (accs ! 1)) 0"
    and fresh: "\<And>j. j \<in> {1, 2} \<Longrightarrow> (ac_owner (accs ! j) = pid \<longrightarrow> blank (accs ! j)) \<and> ac_owner (accs' ! j) = pid"
    and others: "\<And>j. j < length accs \<Longrightarrow> j \<notin> {1, 2} \<Longrightarrow> kept pid (accs ! j) (accs' ! j)"
    by (auto simp: pool_created_def page_holds_def blank_def)
  note facts = state_holds_facts [OF state]
  have key: "ac_key (accs' ! 1) = ac_key (accs ! 1)" using arg_cong [OF keys(2), of "\<lambda>xs. xs ! 1"] len arg_cong [OF keys(2), of length] by simp
  have at: "L' (ac_key (accs ! j)) = Some (accs' ! j)" if "j < 7" for j using written_at [OF keys, of j L] that len L' by simp
  show "pool_at env pid L' (ac_key (accs ! 1)) s []"
    using at [of 1] at [of 2] state fresh [of 1] fresh [of 2] key page
    by (simp add: pool_at_def state_holds_def)
  show "\<exists>b'. L' x = Some b' \<and> ac_owner b' = pid \<and> ac_data b' = ac_data b" if "L x = Some b" "ac_owner b = pid" "\<not> blank b" for x b
    unfolding L'
  proof (rule call_frame(1) [OF view keys others _ that(1,2)])
    fix j assume j: "j < length accs" "j \<in> {1, 2}"
    show "x \<noteq> ac_key (accs ! j)"
      using accounts_of_nth [OF view j(1)] that fresh [OF j(2)] by (auto simp: blank_def)
  qed
  show "\<exists>b. L x = Some b \<and> ac_owner b = pid \<and> ac_data b = ac_data b'"
    if "L' x = Some b'" "ac_owner b' = pid" "state_account x b'" "x \<noteq> ac_key (accs ! 1)" for x b'
  proof (rule call_frame(2) [OF view keys others _ that(1) [unfolded L'] that(2) state_account_data(2) [OF that(3)]])
    fix j assume j: "j < length accs" "j \<in> {1, 2}"
    have "length (ac_data (accs' ! 2)) = 8256"
      unfolding page(1) using length_history_page [OF facts(1), of "ac_key (accs ! 1)" 0] facts(2) key by simp
    then show "x \<noteq> ac_key (accs ! j)"
      using at [of j] j that(1,4) state_account_data(1) [OF that(3)] len by auto
  qed
qed

lemma pool_kept:
  fixes L L' :: ledger
  assumes at: "pool_at env pid L k s leaves"
    and keep: "\<And>x b. L x = Some b \<Longrightarrow> ac_owner b = pid \<Longrightarrow> \<not> blank b \<Longrightarrow> x \<notin> X \<Longrightarrow> \<exists>b'. L' x = Some b' \<and> ac_owner b' = pid \<and> ac_data b' = ac_data b"
    and X: "k \<notin> X" "\<And>p. p \<le> length leaves div 256 \<Longrightarrow> page_address env pid k p \<notin> X"
  shows "pool_at env pid L' k s leaves"
proof -
  from at obtain a where a: "L k = Some a" "ac_owner a = pid" "state_holds (a\<lparr> ac_key := k \<rparr>) s leaves" by (auto simp: pool_at_def)
  note facts = state_holds_facts [OF a(3), simplified]
  have "state_account k a" using facts(6) by (simp add: state_account_def is_ok_def)
  then obtain a' where a': "L' k = Some a'" "ac_owner a' = pid" "ac_data a' = ac_data a"
    using keep [OF a(1,2) state_account_data(2) X(1)] by blast
  have "state_holds (a'\<lparr> ac_key := k \<rparr>) s leaves" using a(3) a'(3) state_holds_cong [of "a'\<lparr> ac_key := k \<rparr>" "a\<lparr> ac_key := k \<rparr>"] by simp
  moreover have "\<exists>b. L' (page_address env pid k p) = Some b \<and> ac_owner b = pid \<and> ac_data b = history_page k leaves p"
    if p: "p \<le> length leaves div 256" for p
  proof -
    obtain b where b: "L (page_address env pid k p) = Some b" "ac_owner b = pid" "ac_data b = history_page k leaves p"
      using pool_at_page [OF at p] by blast
    have "length leaves \<le> 2 ^ 20" using facts(1) by (simp add: pool_represents_def)
    with p have "p \<le> 2 ^ 20" using div_le_dividend [of "length leaves" 256] by linarith
    then show ?thesis using keep [OF b(1,2) history_page_data(2) [OF b(3) facts(1,2)] X(2) [OF p]] b(3) by auto
  qed
  ultimately show ?thesis unfolding pool_at_def using a' by blast
qed

section \<open>Steps\<close>

inductive pool_call :: "solana \<Rightarrow> pool_runtime \<Rightarrow> bytes \<Rightarrow> account list \<Rightarrow> account list \<Rightarrow> bool" for env runtime pid where
  initialize: "pool_call env runtime pid accs accs'"
    if "process_initialize_with_runtime_v1 env runtime pid accs data = Inr (accs', out)"
| deposit: "pool_call env runtime pid accs accs'"
    if "process_deposit_with_runtime_v1 env runtime pid accs data = Inr (accs', out)"
| transfer: "pool_call env runtime pid accs accs'"
    if "process_private_transfer_with_runtime_v1 env (dispatch_selected_verifier_v1 env runtime) (solana_sha256 env) pid accs data slot
      = Inr (accs', out)"
| withdrawal: "pool_call env runtime pid accs accs'"
    if "process_withdrawal_with_runtime_v1 env runtime (dispatch_selected_verifier_v1 env runtime) (solana_sha256 env) pid accs data slot
      = Inr (accs', out)"

inductive_cases pool_call_elim: "pool_call env runtime pid accs accs'"

inductive pool_step :: "solana \<Rightarrow> pool_runtime \<Rightarrow> bytes \<Rightarrow> ledger \<Rightarrow> ledger \<Rightarrow> bool" for env runtime pid where
  call: "pool_step env runtime pid L (write_back L accs')"
    if "accounts_of L accs" "\<forall>a \<in> set accs. length (ac_key a) = 32" "pool_call env runtime pid accs accs'"
| other_programs: "pool_step env runtime pid L L'"
    if "\<And>x b. L x = Some b \<Longrightarrow> ac_owner b = pid \<Longrightarrow> \<exists>b'. L' x = Some b' \<and> ac_owner b' = pid \<and> ac_data b' = ac_data b"
      "\<And>x b'. L' x = Some b' \<Longrightarrow> ac_owner b' = pid \<Longrightarrow> \<not> blank b' \<Longrightarrow> \<exists>b. L x = Some b \<and> ac_owner b = pid \<and> ac_data b = ac_data b'"

lemma decoded_pool:
  assumes "decode_account env pid (accs ! 0) = Inr c" "accounts_of L accs" "accs \<noteq> []" "ledger_ok env pid L"
  shows "\<exists>s leaves. pool_at env pid L (ac_key (accs ! 0)) s leaves"
proof -
  obtain b where b: "L (ac_key (accs ! 0)) = Some b" "ac_owner b = ac_owner (accs ! 0)" "ac_data b = ac_data (accs ! 0)"
    using accounts_of_nth [OF assms(2), of 0] assms(3) by auto
  have "ac_owner (accs ! 0) = pid" "is_ok (decode_with_validated_tree (ac_data (accs ! 0)) (ac_key (accs ! 0)))"
    using assms(1) by (auto simp: decode_account_def require_program_account_def is_ok_def split: if_splits)
  then show ?thesis using assms(4) b by (auto simp: ledger_ok_def state_account_def)
qed

text \<open>What a call of a handler is for the pool it works on.\<close>

lemma pool_call_cases:
  assumes run: "pool_call env runtime pid accs accs'" and view: "accounts_of L accs" "\<forall>a \<in> set accs. length (ac_key a) = 32"
    and ok: "ledger_ok env pid L" and calls: "system_calls_ok env pid" "token_calls_ok runtime pid"
  obtains (created) init s where "pool_created env pid init s accs accs'"
  | (appended) "\<exists>s leaves. pool_at env pid L (ac_key (accs ! 0)) s leaves"
      "\<And>s leaves. pool_at env pid L (ac_key (accs ! 0)) s leaves \<Longrightarrow>
        \<exists>new c n M. pool_append env pid s leaves new c n M accs accs' \<and> length new \<le> 256"
  using run
proof (cases rule: pool_call.cases)
  case (initialize data out)
  then show thesis using initialize_handler [OF _ view(2) calls] created by blast
next
  case (deposit data out)
  then have dec: "\<exists>c. decode_account env pid (accs ! 0) = Inr c" and ne: "accs \<noteq> []" by (auto elim: deposit_run)
  have "\<exists>new c n M. pool_append env pid s leaves new c n M accs accs' \<and> length new \<le> 256"
    if at: "pool_at env pid L (ac_key (accs ! 0)) s leaves" for s leaves
  proof -
    obtain request n where "pool_append env pid s leaves [deposit_note s request] 1 n {} accs accs'"
      using deposit_handler [OF deposit pool_at_view [OF at view(1) ne] calls] by blast
    then show ?thesis by (intro exI [of _ "[deposit_note s request]"]) auto
  qed
  then show thesis using appended decoded_pool dec view(1) ne ok by blast
next
  case (transfer data slot out)
  then have dec: "\<exists>c. decode_account env pid (accs ! 0) = Inr c" and ne: "accs \<noteq> []" by (auto elim: transfer_run)
  have "\<exists>new c n M. pool_append env pid s leaves new c n M accs accs' \<and> length new \<le> 256"
    if at: "pool_at env pid L (ac_key (accs ! 0)) s leaves" for s leaves
  proof -
    obtain i :: private_transfer_instruction and layout where effect: "spend_effect env pid s leaves (pt_envelope i)
          [ts_recipient_commitment (pt_statement i), ts_change_commitment (pt_statement i)] layout accs accs'"
        "length accs = sl_suffix_start layout + 7" "length accs' = length accs"
      using transfer_correct [OF transfer pool_at_view [OF at view(1) ne] calls(1)] by blast
    then show ?thesis using spend_appends [OF effect(1,3)]
      by (intro exI [of _ "[ts_recipient_commitment (pt_statement i), ts_change_commitment (pt_statement i)]"]) auto
  qed
  then show thesis using appended decoded_pool dec view(1) ne ok by blast
next
  case (withdrawal data slot out)
  then have dec: "\<exists>c. decode_account env pid (accs ! 0) = Inr c" and ne: "accs \<noteq> []" by (auto elim: withdrawal_run)
  have "\<exists>new c n M. pool_append env pid s leaves new c n M accs accs' \<and> length new \<le> 256"
    if at: "pool_at env pid L (ac_key (accs ! 0)) s leaves" for s leaves
  proof -
    obtain i :: withdrawal_instruction and layout where effect: "spend_effect env pid s leaves (wi_envelope i)
          [ws_change_commitment (wi_statement i)] layout accs accs'" "length accs' = length accs"
        "list_all2 (kept pid) (drop (sl_suffix_start layout + 7) accs) (drop (sl_suffix_start layout + 7) accs')"
      using withdrawal_correct [OF withdrawal pool_at_view [OF at view(1) ne] calls] by blast
    then show ?thesis using spend_appends [OF effect] by (intro exI [of _ "[ws_change_commitment (wi_statement i)]"]) auto
  qed
  then show thesis using appended decoded_pool dec view(1) ne ok by blast
qed

section \<open>Runs\<close>

definition pool_evolves :: "pool_state \<times> digest list \<Rightarrow> pool_state \<times> digest list \<Rightarrow> bool" where
  "pool_evolves x y \<longleftrightarrow> (case x of (s, leaves) \<Rightarrow> case y of (s', leaves') \<Rightarrow>
     \<exists>new. leaves' = leaves @ new \<and> s' = s\<lparr> ps_tree := tree_of leaves' \<rparr>)"

lemma pool_at_tree: "pool_at env pid L k s leaves \<Longrightarrow> ps_tree s = tree_of leaves"
  by (auto simp: pool_at_def state_holds_def pool_represents_def)

lemma pool_evolves_refl: "ps_tree s = tree_of leaves \<Longrightarrow> pool_evolves (s, leaves) (s, leaves)"
  by (cases s) (simp add: pool_evolves_def)

lemma pool_evolves_trans: "pool_evolves x y \<Longrightarrow> pool_evolves y z \<Longrightarrow> pool_evolves x z"
  by (auto simp: pool_evolves_def split: prod.splits)

lemma pool_at_state_account:
  assumes "pool_at env pid L k s leaves"
  obtains a where "L k = Some a" "ac_owner a = pid" "state_account k a" "length k = 32" "pool_represents s leaves"
proof -
  from assms obtain a where a: "L k = Some a" "ac_owner a = pid" "state_holds (a\<lparr> ac_key := k \<rparr>) s leaves" by (auto simp: pool_at_def)
  note facts = state_holds_facts [OF a(3), simplified]
  show thesis using that a facts by (simp add: state_account_def is_ok_def)
qed

text \<open>No other pool shares the state account or the current page of the pool that is written.\<close>

lemma pools_apart:
  fixes L :: ledger
  assumes "pool_at env pid L k s leaves" "pool_at env pid L k' s' leaves'" "k' \<noteq> k"
  shows "k' \<notin> {k, page_address env pid k (length leaves div 256)}"
    "q \<le> length leaves' div 256 \<Longrightarrow> page_address env pid k' q \<notin> {k, page_address env pid k (length leaves div 256)}"
proof -
  let ?p = "length leaves div 256"
  obtain a where a: "L k = Some a" "state_account k a" "length k = 32" "pool_represents s leaves" using pool_at_state_account [OF assms(1)] by metis
  obtain a' where a': "L k' = Some a'" "state_account k' a'" "length k' = 32" "pool_represents s' leaves'" using pool_at_state_account [OF assms(2)] by metis
  obtain b where b: "L (page_address env pid k ?p) = Some b" "ac_data b = history_page k leaves ?p" using pool_at_page [OF assms(1) order_refl] by blast
  have small: "length leaves div 256 \<le> 2 ^ 20" "q \<le> length leaves' div 256 \<Longrightarrow> q \<le> 2 ^ 20" for q
    using a(4) a'(4) div_le_dividend [of "length leaves" 256] div_le_dividend [of "length leaves'" 256] unfolding pool_represents_def by linarith+
  note page = history_page_data [OF b(2) a(4,3) small(1)]
  show "k' \<notin> {k, page_address env pid k ?p}" using assms(3) a'(1,2) b(1) page(1) state_account_data(1) [OF a'(2)] by auto
  show "page_address env pid k' q \<notin> {k, page_address env pid k ?p}" if q: "q \<le> length leaves' div 256"
  proof -
    obtain b' where b': "L (page_address env pid k' q) = Some b'" "ac_data b' = history_page k' leaves' q" using pool_at_page [OF assms(2) q] by blast
    note page' = history_page_data [OF b'(2) a'(4,3) small(2) [OF q]]
    show ?thesis using assms(3) a(1) b b'(1) page(3) page'(1,3) state_account_data(1) [OF a(2)] by auto
  qed
qed

lemma append_step:
  fixes L L' :: ledger
  assumes view: "accounts_of L accs" and ok: "ledger_ok env pid L" and L': "L' = write_back L accs'"
    and pool: "\<exists>s leaves. pool_at env pid L (ac_key (accs ! 0)) s leaves"
    and appends: "\<And>s leaves. pool_at env pid L (ac_key (accs ! 0)) s leaves \<Longrightarrow>
        \<exists>new c n M. pool_append env pid s leaves new c n M accs accs' \<and> length new \<le> 256"
  shows "ledger_ok env pid L'"
    "pool_at env pid L k s leaves \<Longrightarrow> \<exists>s' leaves'. pool_at env pid L' k s' leaves' \<and> pool_evolves (s, leaves) (s', leaves')"
    "L x = Some b \<Longrightarrow> ac_owner b = pid \<Longrightarrow> is_ok (decode_pool_v1_nullifier_marker (ac_data b)) \<Longrightarrow>
       \<exists>b'. L' x = Some b' \<and> ac_owner b' = pid \<and> ac_data b' = ac_data b"
proof -
  let ?k = "ac_key (accs ! 0)"
  obtain s0 leaves0 where at0: "pool_at env pid L ?k s0 leaves0" using pool by blast
  then obtain new0 c0 n0 M0 where call0: "pool_append env pid s0 leaves0 new0 c0 n0 M0 accs accs'" "length new0 \<le> 256" using appends by blast
  note written = append_ledger [OF view call0 at0 refl L']
  let ?X = "{?k, page_address env pid ?k (length leaves0 div 256)}"
  have keep: "\<exists>b'. L' x = Some b' \<and> ac_owner b' = pid \<and> ac_data b' = ac_data b"
    if "L x = Some b" "ac_owner b = pid" "\<not> blank b" "x \<notin> ?X" for x b using written(2) that by blast
  have other: "pool_at env pid L' k s leaves" if "pool_at env pid L k s leaves" "k \<noteq> ?k" for k s leaves
    by (rule pool_kept [OF that(1) keep, of ?X]) (use pools_apart [OF at0 that] in auto)
  show evolves: "\<exists>s' leaves'. pool_at env pid L' k s' leaves' \<and> pool_evolves (s, leaves) (s', leaves')"
    if at: "pool_at env pid L k s leaves" for k s leaves
  proof (cases "k = ?k")
    case True
    with at appends obtain new c n M where "pool_append env pid s leaves new c n M accs accs'" "length new \<le> 256" by blast
    from append_ledger(1) [OF view this at True L'] show ?thesis by (auto simp: pool_evolves_def)
  next
    case False
    from other [OF at this] pool_evolves_refl [OF pool_at_tree [OF at]] show ?thesis by blast
  qed
  show "ledger_ok env pid L'"
    unfolding ledger_ok_def
  proof (intro allI impI)
    fix x b' assume b': "L' x = Some b'" "ac_owner b' = pid" "state_account x b'"
    show "\<exists>s leaves. pool_at env pid L' x s leaves"
    proof (cases "x = ?k")
      case False
      with written(3) [OF b'] obtain b where b: "L x = Some b" "ac_owner b = pid" "ac_data b = ac_data b'" by blast
      then have "state_account x b" using b'(3) by (simp add: state_account_def)
      with b ok obtain s leaves where "pool_at env pid L x s leaves" unfolding ledger_ok_def by blast
      then show ?thesis using evolves by blast
    qed (use written(1) in blast)
  qed
  show "\<exists>b'. L' x = Some b' \<and> ac_owner b' = pid \<and> ac_data b' = ac_data b"
    if b: "L x = Some b" "ac_owner b = pid" "is_ok (decode_pool_v1_nullifier_marker (ac_data b))"
  proof (rule keep [OF b(1,2) marker_data(2) [OF b(3)]])
    obtain a where a: "L ?k = Some a" "state_account ?k a" "length ?k = 32" "pool_represents s0 leaves0" using pool_at_state_account [OF at0] by metis
    obtain c where c: "L (page_address env pid ?k (length leaves0 div 256)) = Some c" "ac_data c = history_page ?k leaves0 (length leaves0 div 256)"
      using pool_at_page [OF at0 order_refl] by blast
    have "length leaves0 div 256 \<le> 2 ^ 20" using a(4) div_le_dividend [of "length leaves0" 256] unfolding pool_represents_def by linarith
    then show "x \<notin> ?X"
      using b(1) a(1) c(1) marker_data(1) [OF b(3)] state_account_data(1) [OF a(2)] history_page_data(1) [OF c(2) a(4,3)] by auto
  qed
qed

lemma plain_step:
  fixes L L' :: ledger
  assumes ok: "ledger_ok env pid L"
    and keep: "\<forall>x b. L x = Some b \<longrightarrow> ac_owner b = pid \<longrightarrow> \<not> blank b \<longrightarrow> (\<exists>b'. L' x = Some b' \<and> ac_owner b' = pid \<and> ac_data b' = ac_data b)"
    and old: "\<forall>x b'. L' x = Some b' \<longrightarrow> ac_owner b' = pid \<longrightarrow> state_account x b' \<longrightarrow>
      (\<exists>b. L x = Some b \<and> ac_owner b = pid \<and> ac_data b = ac_data b') \<or> (\<exists>s leaves. pool_at env pid L' x s leaves)"
  shows "ledger_ok env pid L'"
    "pool_at env pid L k s leaves \<Longrightarrow> \<exists>s' leaves'. pool_at env pid L' k s' leaves' \<and> pool_evolves (s, leaves) (s', leaves')"
    "L x = Some b \<Longrightarrow> ac_owner b = pid \<Longrightarrow> is_ok (decode_pool_v1_nullifier_marker (ac_data b)) \<Longrightarrow>
       \<exists>b'. L' x = Some b' \<and> ac_owner b' = pid \<and> ac_data b' = ac_data b"
proof -
  have same: "pool_at env pid L' k s leaves" if "pool_at env pid L k s leaves" for k s leaves
    by (rule pool_kept [OF that, of "{}"]) (use keep in auto)
  show "\<exists>s' leaves'. pool_at env pid L' k s' leaves' \<and> pool_evolves (s, leaves) (s', leaves')" if "pool_at env pid L k s leaves"
    using same [OF that] pool_evolves_refl [OF pool_at_tree [OF that]] by blast
  show "ledger_ok env pid L'"
    unfolding ledger_ok_def
  proof (intro allI impI)
    fix x b' assume b': "L' x = Some b'" "ac_owner b' = pid" "state_account x b'"
    with old have "(\<exists>b. L x = Some b \<and> ac_owner b = pid \<and> ac_data b = ac_data b') \<or> (\<exists>s leaves. pool_at env pid L' x s leaves)" by blast
    then show "\<exists>s leaves. pool_at env pid L' x s leaves"
    proof
      assume "\<exists>b. L x = Some b \<and> ac_owner b = pid \<and> ac_data b = ac_data b'"
      then obtain b where b: "L x = Some b" "ac_owner b = pid" "ac_data b = ac_data b'" by blast
      then have "state_account x b" using b'(3) by (simp add: state_account_def)
      with b ok obtain s leaves where "pool_at env pid L x s leaves" unfolding ledger_ok_def by blast
      then show ?thesis using same by blast
    qed
  qed
  show "\<exists>b'. L' x = Some b' \<and> ac_owner b' = pid \<and> ac_data b' = ac_data b"
    if "L x = Some b" "ac_owner b = pid" "is_ok (decode_pool_v1_nullifier_marker (ac_data b))"
    using keep that marker_data(2) by blast
qed

lemma step_facts:
  fixes L L' :: ledger
  assumes step: "pool_step env runtime pid L L'" and ok: "ledger_ok env pid L" and calls: "system_calls_ok env pid" "token_calls_ok runtime pid"
  shows "ledger_ok env pid L'"
    "pool_at env pid L k s leaves \<Longrightarrow> \<exists>s' leaves'. pool_at env pid L' k s' leaves' \<and> pool_evolves (s, leaves) (s', leaves')"
    "L x = Some b \<Longrightarrow> ac_owner b = pid \<Longrightarrow> is_ok (decode_pool_v1_nullifier_marker (ac_data b)) \<Longrightarrow>
       \<exists>b'. L' x = Some b' \<and> ac_owner b' = pid \<and> ac_data b' = ac_data b"
proof -
  have facts: "ledger_ok env pid L' \<and> (\<forall>k s leaves. pool_at env pid L k s leaves \<longrightarrow>
      (\<exists>s' leaves'. pool_at env pid L' k s' leaves' \<and> pool_evolves (s, leaves) (s', leaves')))
    \<and> (\<forall>x b. L x = Some b \<longrightarrow> ac_owner b = pid \<longrightarrow> is_ok (decode_pool_v1_nullifier_marker (ac_data b)) \<longrightarrow>
       (\<exists>b'. L' x = Some b' \<and> ac_owner b' = pid \<and> ac_data b' = ac_data b))"
    using step
  proof cases
    case (call accs accs')
    from call(4,2,3) ok calls show ?thesis
    proof (cases rule: pool_call_cases)
      case (created init s)
      note c = created_ledger [OF call(2) created call(1)]
      have keep: "\<forall>x b. L x = Some b \<longrightarrow> ac_owner b = pid \<longrightarrow> \<not> blank b \<longrightarrow> (\<exists>b'. L' x = Some b' \<and> ac_owner b' = pid \<and> ac_data b' = ac_data b)"
        and old: "\<forall>x b'. L' x = Some b' \<longrightarrow> ac_owner b' = pid \<longrightarrow> state_account x b' \<longrightarrow>
          (\<exists>b. L x = Some b \<and> ac_owner b = pid \<and> ac_data b = ac_data b') \<or> (\<exists>s leaves. pool_at env pid L' x s leaves)"
        using c by blast+
      show ?thesis using plain_step [OF ok keep old] by blast
    next
      case appended
      show ?thesis using append_step [OF call(2) ok call(1) appended] by blast
    qed
  next
    case other_programs
    have keep: "\<forall>x b. L x = Some b \<longrightarrow> ac_owner b = pid \<longrightarrow> \<not> blank b \<longrightarrow> (\<exists>b'. L' x = Some b' \<and> ac_owner b' = pid \<and> ac_data b' = ac_data b)"
      and old: "\<forall>x b'. L' x = Some b' \<longrightarrow> ac_owner b' = pid \<longrightarrow> state_account x b' \<longrightarrow>
          (\<exists>b. L x = Some b \<and> ac_owner b = pid \<and> ac_data b = ac_data b') \<or> (\<exists>s leaves. pool_at env pid L' x s leaves)"
      using other_programs state_account_data(2) by blast+
    show ?thesis using plain_step [OF ok keep old] by blast
  qed
  then show "ledger_ok env pid L'"
    "pool_at env pid L k s leaves \<Longrightarrow> \<exists>s' leaves'. pool_at env pid L' k s' leaves' \<and> pool_evolves (s, leaves) (s', leaves')"
    "L x = Some b \<Longrightarrow> ac_owner b = pid \<Longrightarrow> is_ok (decode_pool_v1_nullifier_marker (ac_data b)) \<Longrightarrow>
       \<exists>b'. L' x = Some b' \<and> ac_owner b' = pid \<and> ac_data b' = ac_data b"
    by blast+
qed

text \<open>A step in a world whose calls behave, from a ledger in order.\<close>

definition checked_step :: "solana \<Rightarrow> pool_runtime \<Rightarrow> bytes \<Rightarrow> ledger \<Rightarrow> ledger \<Rightarrow> bool" where
  "checked_step env runtime pid L L' \<longleftrightarrow> pool_step env runtime pid L L' \<and> ledger_ok env pid L \<and> system_calls_ok env pid \<and> token_calls_ok runtime pid"

definition marker_item :: "bytes \<Rightarrow> ledger \<Rightarrow> bytes \<Rightarrow> nullifier_marker option" where
  "marker_item pid L x = Option.bind (L x) (\<lambda>b. if ac_owner b = pid
     then (case decode_pool_v1_nullifier_marker (ac_data b) of Inr m \<Rightarrow> Some m | Inl _ \<Rightarrow> None) else None)"

lemma marker_item_iff:
  "marker_item pid L x = Some m \<longleftrightarrow> (\<exists>b. L x = Some b \<and> ac_owner b = pid \<and> decode_pool_v1_nullifier_marker (ac_data b) = Inr m)"
  by (cases "L x") (auto simp: marker_item_def split: sum.splits if_splits)

interpretation markers: tracked_store "checked_step env runtime pid" "marker_item pid" "(=)" for env runtime pid
proof unfold_locales
  fix L L' x m assume step: "checked_step env runtime pid L L'" and "marker_item pid L x = Some m"
  then obtain b where b: "L x = Some b" "ac_owner b = pid" "decode_pool_v1_nullifier_marker (ac_data b) = Inr m" by (auto simp: marker_item_iff)
  then obtain b' where "L' x = Some b'" "ac_owner b' = pid" "ac_data b' = ac_data b"
    using step_facts(3) [of env runtime pid L L' x b] step by (auto simp: checked_step_def is_ok_def)
  with b(3) show "\<exists>m'. marker_item pid L' x = Some m' \<and> m = m'" by (auto simp: marker_item_iff)
qed simp_all

lemma run_checked:
  assumes "(pool_step env runtime pid)\<^sup>*\<^sup>* L L'" "ledger_ok env pid L" "system_calls_ok env pid" "token_calls_ok runtime pid"
  shows "(checked_step env runtime pid)\<^sup>*\<^sup>* L L' \<and> ledger_ok env pid L'"
  using assms(1)
proof (induction rule: rtranclp_induct)
  case (step M N)
  then have "checked_step env runtime pid M N" "ledger_ok env pid N" using step_facts(1) assms(3,4) by (auto simp: checked_step_def)
  with step show ?case by (meson rtranclp.rtrancl_into_rtrancl)
qed (simp add: assms(2))

lemma run_pool:
  assumes "(pool_step env runtime pid)\<^sup>*\<^sup>* L L'" "ledger_ok env pid L" "system_calls_ok env pid" "token_calls_ok runtime pid"
    "pool_at env pid L k s leaves"
  shows "\<exists>s' leaves'. pool_at env pid L' k s' leaves' \<and> pool_evolves (s, leaves) (s', leaves')"
  using assms(1)
proof (induction rule: rtranclp_induct)
  case base
  then show ?case using assms(5) pool_evolves_refl [OF pool_at_tree [OF assms(5)]] by blast
next
  case (step M N)
  then obtain s1 leaves1 where one: "pool_at env pid M k s1 leaves1" "pool_evolves (s, leaves) (s1, leaves1)" by blast
  have "ledger_ok env pid M" using run_checked [OF step(1) assms(2-4)] by blast
  with step_facts(2) [OF step(2) _ assms(3,4) one(1)] one(2) show ?case using pool_evolves_trans by blast
qed

lemma empty_ledger_ok:
  assumes "\<And>x b. L x = Some b \<Longrightarrow> ac_owner b = pid \<Longrightarrow> blank b"
  shows "ledger_ok env pid L"
  using assms state_account_data(2) by (fastforce simp: ledger_ok_def)

section \<open>A nullifier is spent once\<close>

inductive spend_call :: "solana \<Rightarrow> pool_runtime \<Rightarrow> bytes \<Rightarrow> account list \<Rightarrow> anchor_envelope \<Rightarrow> account list \<Rightarrow> bool" for env runtime pid where
  transfer: "spend_call env runtime pid accs (pt_envelope i) accs'"
    if "process_private_transfer_with_runtime_v1 env (dispatch_selected_verifier_v1 env runtime) (solana_sha256 env) pid accs data slot
      = Inr (accs', out)" "decode_private_transfer_instruction_v1 data = Inr i"
| withdrawal: "spend_call env runtime pid accs (wi_envelope i) accs'"
    if "process_withdrawal_with_runtime_v1 env runtime (dispatch_selected_verifier_v1 env runtime) (solana_sha256 env) pid accs data slot
      = Inr (accs', out)" "decode_withdrawal_instruction_v1 data = Inr i"

lemma spend_call_is_call: "spend_call env runtime pid accs e accs' \<Longrightarrow> pool_call env runtime pid accs accs'"
  by (induction rule: spend_call.induct) (auto intro: pool_call.intros)

lemma spend_call_effect:
  assumes "spend_call env runtime pid accs e accs'" "accounts_of L accs" "ledger_ok env pid L" "system_calls_ok env pid" "token_calls_ok runtime pid"
  shows "\<exists>s leaves new layout. pool_at env pid L (ac_key (accs ! 0)) s leaves \<and> spend_effect env pid s leaves e new layout accs accs'
    \<and> map ac_key accs' = map ac_key accs"
  using assms(1)
proof cases
  case (transfer data slot out i)
  then have dec: "\<exists>c. decode_account env pid (accs ! 0) = Inr c" and ne: "accs \<noteq> []" by (auto elim: transfer_run)
  then obtain s leaves where at: "pool_at env pid L (ac_key (accs ! 0)) s leaves" using decoded_pool assms(2,3) by blast
  obtain layout where effect: "spend_effect env pid s leaves e [ts_recipient_commitment (pt_statement i), ts_change_commitment (pt_statement i)]
        layout accs accs'" "length accs = sl_suffix_start layout + 7" "length accs' = length accs"
    using transfer_correct [OF transfer(2) pool_at_view [OF at assms(2) ne] assms(4)] transfer(1,3) by auto
  then show ?thesis using at spend_appends [OF effect(1,3)] by (auto simp: pool_append_def)
next
  case (withdrawal data slot out i)
  then have dec: "\<exists>c. decode_account env pid (accs ! 0) = Inr c" and ne: "accs \<noteq> []" by (auto elim: withdrawal_run)
  then obtain s leaves where at: "pool_at env pid L (ac_key (accs ! 0)) s leaves" using decoded_pool assms(2,3) by blast
  obtain layout where effect: "spend_effect env pid s leaves e [ws_change_commitment (wi_statement i)] layout accs accs'"
      "length accs' = length accs" "list_all2 (kept pid) (drop (sl_suffix_start layout + 7) accs) (drop (sl_suffix_start layout + 7) accs')"
    using withdrawal_correct [OF withdrawal(2) pool_at_view [OF at assms(2) ne] assms(4,5)] withdrawal(1,3) by auto
  then show ?thesis using at spend_appends [OF effect] by (auto simp: pool_append_def)
qed

lemma spend_takes_marker:
  assumes "spend_call env runtime pid accs e accs'" "accounts_of L accs" "ledger_ok env pid L" "system_calls_ok env pid" "token_calls_ok runtime pid"
  shows "marker_item pid L (marker_address env pid (ae_pool e) (ae_nullifier e)) = None"
    "marker_item pid (write_back L accs') (marker_address env pid (ae_pool e) (ae_nullifier e)) = Some (from_historical_anchor e)"
proof -
  obtain s leaves new layout where effect: "spend_effect env pid s leaves e new layout accs accs'" and keys: "map ac_key accs' = map ac_key accs"
    using spend_call_effect [OF assms] by blast
  let ?start = "sl_suffix_start layout" and ?x = "marker_address env pid (ae_pool e) (ae_nullifier e)"
  from effect have taken: "marker_taken env pid e (accs ! ?start) (accs' ! ?start)" and pos: "?start < length accs" and dist: "distinct (map ac_key accs)"
    by (auto simp: spend_effect_def Let_def)
  obtain b where b: "L ?x = Some b" "ac_owner b = ac_owner (accs ! ?start)" "ac_data b = ac_data (accs ! ?start)"
    using accounts_of_nth [OF assms(2) pos] taken by (auto simp: marker_taken_def)
  show "marker_item pid L ?x = None"
  proof (rule ccontr)
    assume "marker_item pid L ?x \<noteq> None"
    then obtain m where "decode_pool_v1_nullifier_marker (ac_data b) = Inr m" "ac_owner b = pid" using b(1) by (auto simp: marker_item_iff)
    then show False using marker_not_zero [of "ac_data b" m] taken b by (auto simp: marker_taken_def zeros_iff)
  qed
  show "marker_item pid (write_back L accs') ?x = Some (from_historical_anchor e)"
    using written_at [OF dist keys pos, of L] taken by (auto simp: marker_item_iff marker_taken_def)
qed

lemma nullifier_once:
  assumes first: "spend_call env runtime pid accs e accs'" "accounts_of L accs" "\<forall>a \<in> set accs. length (ac_key a) = 32"
    and run: "(pool_step env runtime pid)\<^sup>*\<^sup>* (write_back L accs') M" and second: "spend_call env runtime pid accs2 e2 accs2'" "accounts_of M accs2"
    and ok: "ledger_ok env pid L" and calls: "system_calls_ok env pid" "token_calls_ok runtime pid"
  shows "\<not> (ae_pool e2 = ae_pool e \<and> ae_nullifier e2 = ae_nullifier e)"
proof
  let ?x = "marker_address env pid (ae_pool e) (ae_nullifier e)"
  assume same: "ae_pool e2 = ae_pool e \<and> ae_nullifier e2 = ae_nullifier e"
  have "pool_step env runtime pid L (write_back L accs')" using first spend_call_is_call by (blast intro: pool_step.call)
  then have ok1: "ledger_ok env pid (write_back L accs')" using step_facts(1) ok calls by blast
  note checked = run_checked [OF run ok1 calls]
  have "marker_item pid M ?x = Some (from_historical_anchor e)"
    using markers.final_item [OF conjunct1 [OF checked] spend_takes_marker(2) [OF first(1,2) ok calls]] by blast
  moreover have "marker_item pid M ?x = None" using spend_takes_marker(1) [OF second conjunct2 [OF checked] calls] same by simp
  ultimately show False by simp
qed

end
