(* ===== verification/PoolService.thy ===== *)
theory PoolService
  imports PoolLedger
begin

text \<open>
  Calls the pool answers. A spend whose accounts are as the pool left them, whose anchor is a retained root of the current
  page and whose nullifier is unused succeeds once the verifier accepts it, and so does the deposit of a holder of
  the tokens. The example at the end is a pool in which such calls exist.
\<close>

section \<open>Accounts of an in-page spend\<close>

definition program_account :: "bytes \<Rightarrow> account \<Rightarrow> bool" where
  "program_account pid a \<longleftrightarrow> ac_owner a = pid \<and> ac_is_writable a \<and> \<not> ac_executable a \<and> \<not> ac_is_signer a"

text \<open>
  Pool, current page, marker, payer and system program of a spend of \<open>k\<close> outputs that stay in the current page, with the anchor in
  that page too.
\<close>

definition spend_ready :: "solana \<Rightarrow> bytes \<Rightarrow> pool_state \<Rightarrow> digest list \<Rightarrow> anchor_envelope \<Rightarrow> nat \<Rightarrow> account list \<Rightarrow> bool" where
  "spend_ready env pid s leaves e k accounts \<longleftrightarrow> 4 < length accounts \<and> distinct (map ac_key accounts)
     \<and> program_account pid (accounts ! 0) \<and> state_holds (accounts ! 0) s leaves
     \<and> ac_key (accounts ! 0) = fst (pool_v1_state_address env pid (id_asset_mint (ps_identity s)))
     \<and> program_account pid (accounts ! 1) \<and> page_holds (ac_key (accounts ! 0)) leaves (length leaves div 256) (accounts ! 1)
     \<and> ac_key (accounts ! 1) = page_address env pid (ac_key (accounts ! 0)) (length leaves div 256)
     \<and> program_account pid (accounts ! 2) \<and> ac_data (accounts ! 2) = zeros POOL_V1_NULLIFIER_MARKER_ACCOUNT_BYTES
     \<and> ac_key (accounts ! 2) = marker_address env pid (ae_pool e) (ae_nullifier e)
     \<and> pool_require_payer_and_system_program env (accounts ! 3) (accounts ! 4) = Inr ()
     \<and> envelope_ok e \<and> is_ok (encode_historical_anchor_envelope_v1 e)
     \<and> ae_pool e = ac_key (accounts ! 0) \<and> ae_deployment_domain e = id_deployment_domain (ps_identity s)
     \<and> anchor_retained leaves e \<and> unat (ae_anchor_sequence e) div 256 = length leaves div 256
     \<and> length leaves + k \<le> 2 ^ 20 \<and> (length leaves + k) div 256 = length leaves div 256"

definition canonical_state :: "bytes \<Rightarrow> account \<Rightarrow> pool_state \<Rightarrow> canonical_pool_state" where
  "canonical_state pid a s = \<lparr> cp_program_id = pid, cp_pool = ac_key a, cp_state = s,
     cp_tree_evidence = Reconstructed \<lparr> vt_inner = ps_tree s, vt_empty = POOL_V1_EMPTY_ROOTS \<rparr> \<rparr>"

definition in_page_layout :: spend_page_layout where
  "in_page_layout = \<lparr> sl_anchor_index = 1, sl_current_index = 1, sl_next_index = None, sl_suffix_start = 2,
     sl_next_page_number = None, sl_next_page_bump = None \<rparr>"

lemma ready_decodes:
  assumes "spend_ready env pid s leaves e k accounts"
  shows "decode_account env pid (accounts ! 0) = Inr (canonical_state pid (accounts ! 0) s)"
proof -
  from assms have holds: "state_holds (accounts ! 0) s leaves" and acc: "program_account pid (accounts ! 0)"
    and key: "ac_key (accounts ! 0) = fst (pool_v1_state_address env pid (id_asset_mint (ps_identity s)))"
    by (auto simp: spend_ready_def)
  from acc show ?thesis
    by (simp add: decode_account_def program_account_def require_program_account_def state_holds_facts(6) [OF holds] canonical_state_def
        key [symmetric])
qed

lemma saturating_add_ge: "\<not> saturating_add a b < a"
proof (cases "checked_add a b")
  case None
  then show ?thesis by (simp add: saturating_add_def not_less)
next
  case (Some c)
  then show ?thesis using Some [unfolded checked_add_eq_Some] by (simp add: saturating_add_def word_less_nat_alt)
qed

lemma ready_layout:
  assumes ready: "spend_ready env pid s leaves e k accounts" and k: "0 < k" "k \<le> 2"
  shows "plan_spend_page_layout_v1 env pid accounts s (ae_anchor_sequence e) (of_nat k) = Inr in_page_layout"
proof -
  from ready have holds: "state_holds (accounts ! 0) s leaves" and q: "unat (ae_anchor_sequence e) div 256 = length leaves div 256"
    and n: "length leaves + k \<le> 2 ^ 20" "(length leaves + k) div 256 = length leaves div 256"
    by (auto simp: spend_ready_def)
  note rep = state_holds_facts(1) [OF holds]
  have uk: "unat (of_nat k :: u64) = k" using k by (simp add: unat_of_nat)
  have pages: "loc_page_number (root_history_location (ae_anchor_sequence e)) = of_nat (length leaves div 256)"
      "loc_page_number (root_history_location (current_root_sequence s)) = of_nat (length leaves div 256)"
      "loc_page_number (root_history_location (current_root_sequence s + of_nat k)) = of_nat (length leaves div 256)"
    using q represents_sequence(1) [OF rep] page_sequence [OF rep, of "of_nat k"] n uk
    by (simp_all add: seq_page del: loc_page_number_location)
  have "length leaves div 256 \<le> (length leaves + 1) div 256" "(length leaves + 1) div 256 \<le> (length leaves + k) div 256"
    using k(1) by (simp_all only: div_le_mono le_add1 add_left_mono Suc_leI One_nat_def)
  then have one: "(length leaves + 1) div 256 = length leaves div 256" using n(2) by linarith
  then have first: "loc_page_number (root_history_location (current_root_sequence s + 1)) = of_nat (length leaves div 256)"
    using page_sequence [OF rep, of 1] n(1) k(1) by (simp del: loc_page_number_location)
  have cap: "require_spend_capacity s (of_nat k) = Inr ()"
    using n(1) k(1) uk represents_sequence(1) [OF rep] capacity_eq
    by (auto simp: require_spend_capacity_def ok_or_def checked_add_def word_le_nat_alt word_less_nat_alt unat_word_ariths Let_def
        split: option.splits)
  show ?thesis
    using ready cap pages first
    by (auto simp: plan_spend_page_layout_v1_def spend_ready_def program_account_def require_program_account_def in_page_layout_def
        account_get_def Let_def saturating_add_ge simp del: loc_page_number_location)
qed

lemma ready_anchor:
  assumes ready: "spend_ready env pid s leaves e k accounts" and enc: "encode_historical_anchor_envelope_v1 e = Inr encoded"
    and kind: "ae_transition_kind e = kind"
  shows "authenticate_historical_anchor_against_state_v1 env pid (accounts ! 0) (accounts ! 1) encoded (transfer_authorization kind e) s
    = Inr \<lparr> pv_authenticated = anchor_of e, pv_history_page = ac_key (accounts ! 1),
        pv_header = history_header (ac_key (accounts ! 0)) leaves (length leaves div 256) \<rparr>"
proof -
  from ready have holds: "state_holds (accounts ! 0) s leaves" and page: "page_holds (ac_key (accounts ! 0)) leaves (length leaves div 256) (accounts ! 1)"
    and e: "envelope_ok e" "anchor_retained leaves e" "unat (ae_anchor_sequence e) div 256 = length leaves div 256"
    by (auto simp: spend_ready_def)
  note facts = state_holds_facts [OF holds]
  have dec: "decode_historical_anchor_envelope_v1 encoded = Inr e" using e(1) enc by (rule envelope_codec.dec_enc)
  have data: "page_account_current (ac_key (accounts ! 0)) leaves (ae_anchor_sequence e) (accounts ! 1)"
    using page e(3) by (simp add: page_account_current_def page_holds_def)
  have future: "\<not> current_root_sequence s < ae_anchor_sequence e"
    using e(2) represents_sequence(1) [OF facts(1)] by (simp add: anchor_retained_def word_less_nat_alt)
  show ?thesis
    unfolding authenticate_anchor_eq [OF facts(1,2) dec data]
    using ready future kind
    by (simp add: spend_ready_def bind_envelope_to_state_and_selection_def transfer_authorization_def Let_def program_account_def
        require_program_owned_def require_history_page_privileges_def require_root_page_address_def anchor_retained_def state_holds_def)
qed

lemma ready_history:
  assumes ready: "spend_ready env pid s leaves e k accounts"
  shows "is_ok (validate_current_history_after_prevalidated_anchor_v1 env pid (accounts ! 0) (accounts ! 1)
      (canonical_state pid (accounts ! 0) s) \<lparr> pv_authenticated = anchor_of e, pv_history_page = ac_key (accounts ! 1),
        pv_header = history_header (ac_key (accounts ! 0)) leaves (length leaves div 256) \<rparr>)"
    "validate_current_history env pid (accounts ! 0) (accounts ! 1) s = Inr (history_header (ac_key (accounts ! 0)) leaves (length leaves div 256))"
proof -
  from ready have holds: "state_holds (accounts ! 0) s leaves" and page: "page_holds (ac_key (accounts ! 0)) leaves (length leaves div 256) (accounts ! 1)"
    and e: "anchor_retained leaves e" by (auto simp: spend_ready_def)
  note facts = state_holds_facts [OF holds]
  show full: "validate_current_history env pid (accounts ! 0) (accounts ! 1) s = Inr (history_header (ac_key (accounts ! 0)) leaves (length leaves div 256))"
    unfolding current_history_eq [OF facts(1,2) page [unfolded page_holds_def]]
    using ready by (simp add: spend_ready_def program_account_def require_program_owned_def require_root_page_address_def)
  show "is_ok (validate_current_history_after_prevalidated_anchor_v1 env pid (accounts ! 0) (accounts ! 1)
      (canonical_state pid (accounts ! 0) s) \<lparr> pv_authenticated = anchor_of e, pv_history_page = ac_key (accounts ! 1),
        pv_header = history_header (ac_key (accounts ! 0)) leaves (length leaves div 256) \<rparr>)"
  proof -
    let ?h = "history_header (ac_key (accounts ! 0)) leaves (length leaves div 256)"
    from full have "reuse_anchor_page env pid (accounts ! 0) (accounts ! 1) s \<lparr> pv_authenticated = anchor_of e,
        pv_history_page = ac_key (accounts ! 1), pv_header = ?h \<rparr> = Inr ?h"
      by (auto simp: validate_current_history_def reuse_anchor_page_def Let_def history_header_def simp del: loc_page_number_location split: if_splits)
    moreover have "require_same_writable_account (canonical_state pid (accounts ! 0) s) pid (accounts ! 0) = Inr ()"
      by (rule decoded_source(4) [OF holds disjI1 [OF ready_decodes [OF ready]]])
    moreover have "\<not> current_root_sequence s < ae_anchor_sequence e"
      using e represents_sequence(1) [OF facts(1)] by (simp add: anchor_retained_def word_less_nat_alt)
    moreover have "ae_pool e = ac_key (accounts ! 0)" "id_pool (ps_identity s) = ac_key (accounts ! 0)"
      using ready by (auto simp: spend_ready_def state_holds_def)
    ultimately show ?thesis
      using full by (simp add: validate_current_history_after_prevalidated_anchor_v1_def Let_def anchor_of_def is_ok_def canonical_state_def
          del: loc_page_number_location)
  qed
qed

text \<open>The marker, which the program owns already, is written by the closure of either spend.\<close>

definition zeroed_marker_plan :: "solana \<Rightarrow> bytes \<Rightarrow> anchor_envelope \<Rightarrow> planned_nullifier_marker" where
  "zeroed_marker_plan env pid e = \<lparr> pl_preparation = MarkerPopulateProgramOwnedZeroed,
     pl_address_bump = snd (find_program_address env [POOL_V1_NULLIFIER_MARKER_SEED, ae_pool e, encode_digest_canonical (ae_nullifier e)] pid),
     pl_marker = from_historical_anchor e, pl_encoded_marker = nullifier_marker_image (from_historical_anchor e) \<rparr>"

lemma ready_marker:
  assumes ready: "spend_ready env pid s leaves e k accounts"
  shows "plan_marker_from_envelope_v1 env pid (accounts ! 2) e = Inr (zeroed_marker_plan env pid e)"
proof -
  from ready obtain encoded where enc: "encode_historical_anchor_envelope_v1 e = Inr encoded" and e: "envelope_ok e" by (auto simp: spend_ready_def is_ok_iff)
  then have dec: "decode_historical_anchor_envelope_v1 encoded = Inr e" by (rule envelope_codec.dec_enc [rotated])
  have "digest_ok (ae_nullifier e)"
    using e enc by (auto simp: encode_historical_anchor_envelope_v1_def validate_historical_anchor_envelope_v1_def envelope_ok_def
        canonical_digest_iff split: if_splits)
  then have canonical: "decode_digest_canonical (encode_digest_canonical (ae_nullifier e)) = Inr (ae_nullifier e)" by simp
  have "distinct (map ac_key accounts)" "2 < length accounts" "0 < length accounts" using ready by (auto simp: spend_ready_def)
  then have "ac_key (accounts ! 2) \<noteq> ac_key (accounts ! 0)"
    using nth_eq_iff_index_eq [of "map ac_key accounts" 2 0] by (simp only: length_map nth_map)
  moreover have "nm_pool (from_historical_anchor e) = ae_pool e" "nm_nullifier (from_historical_anchor e) = ae_nullifier e"
    by (simp_all add: from_historical_anchor_def)
  ultimately show ?thesis
    using ready canonical
    unfolding plan_marker_from_envelope_v1_def plan_nullifier_marker_consumption_v1_def pool_v1_nullifier_marker_address_def Let_def
    by (simp add: marker_from_anchor(2) [OF dec] spend_ready_def program_account_def marker_address_def zeroed_marker_plan_def
        canonical_nullifier_encoding_def zeros_def layout_defs split: prod.split)
qed

lemma ready_consumes:
  assumes "spend_ready env pid s leaves e k accounts"
  shows "consume_marker env pid (ac_key (accounts ! 0)) e (zeroed_marker_plan env pid e) (accounts ! 2) (accounts ! 3) (accounts ! 4)
    = Inr (accounts ! 3, (accounts ! 2)\<lparr> ac_data := nullifier_marker_image (from_historical_anchor e) \<rparr>, accounts ! 4)"
  using ready_marker [OF assms, unfolded plan_marker_from_envelope_v1_def]
  by (simp add: consume_marker_def plan_marker_from_envelope_v1_def create_and_write_marker_v1_def create_marker_account_def)
    (simp add: zeroed_marker_plan_def)

text \<open>An append of \<open>k\<close> leaves that stays in the current page.\<close>

definition append_ready :: "solana \<Rightarrow> bytes \<Rightarrow> pool_state \<Rightarrow> digest list \<Rightarrow> nat \<Rightarrow> account \<Rightarrow> account \<Rightarrow> bool" where
  "append_ready env pid s leaves k P C \<longleftrightarrow> program_account pid P \<and> state_holds P s leaves
     \<and> ac_key P = fst (pool_v1_state_address env pid (id_asset_mint (ps_identity s)))
     \<and> program_account pid C \<and> page_holds (ac_key P) leaves (length leaves div 256) C
     \<and> ac_key C = page_address env pid (ac_key P) (length leaves div 256) \<and> ac_key P \<noteq> ac_key C
     \<and> length leaves + k \<le> 2 ^ 20 \<and> (length leaves + k) div 256 = length leaves div 256"

lemma in_page_append:
  assumes ready: "append_ready env pid s leaves k P C" and new: "list_all digest_ok (new_leaves request)" "length (new_leaves request) = k"
  shows "apply_authorized_append_after_v1 env pid (append_accounts P C None) request (Inr ())
    = Inr ((appended_pool P s (leaves @ new_leaves request),
        with_history_page (ac_key P) (leaves @ new_leaves request) (length leaves div 256) C, None), append_receipt leaves request)"
proof -
  from ready have holds: "state_holds P s leaves" and page: "page_holds (ac_key P) leaves (length leaves div 256) C"
    and key: "ac_key P = fst (pool_v1_state_address env pid (id_asset_mint (ps_identity s)))"
    and acc: "require_program_account P pid True = Inr ()" and keys: "ac_key P \<noteq> ac_key C"
    and n: "length leaves + k \<le> 2 ^ 20" "(length leaves + k) div 256 = length leaves div 256"
    by (auto simp: append_ready_def program_account_def require_program_account_def)
  have ok: "leaves_ok request" using new(1) by (auto simp: leaves_ok_def list_all_iff digest_ok_def)
  have k: "0 < k" using new(2) by (cases request) (auto simp: new_leaves_def)
  have "length leaves div 256 \<le> (length leaves + 1) div 256" "(length leaves + 1) div 256 \<le> (length leaves + k) div 256"
    using k by (simp_all only: div_le_mono le_add1 add_left_mono Suc_leI One_nat_def)
  then have one: "(length leaves + 1) div 256 = length leaves div 256" using n(2) by linarith
  have page_ok: "require_program_owned C pid = Inr ()"
      "require_root_page_address env pid (ac_key P) (of_nat (length leaves div 256)) C = Inr ()" "ac_is_writable C"
    using ready by (auto simp: append_ready_def program_account_def require_program_owned_def require_root_page_address_def)
  have valid: "validate_leaves request = Inr ()" using validate_leaves_iff [OF ok] new(1) by blast
  show ?thesis
    unfolding standalone_append_outcome [OF holds page ok acc key] append_outcome_def Let_def
    using valid page_ok one n k keys new(2) by (simp add: plan_next_page_def)
qed

lemma ready_appends:
  assumes ready: "spend_ready env pid s leaves e k accounts"
  shows "append_ready env pid s leaves k (accounts ! 0) (accounts ! 1)"
proof -
  have "distinct (map ac_key accounts)" "1 < length accounts" "0 < length accounts" using ready by (auto simp: spend_ready_def)
  then have "ac_key (accounts ! 0) \<noteq> ac_key (accounts ! 1)"
    using nth_eq_iff_index_eq [of "map ac_key accounts" 0 1] by (simp only: length_map nth_map)
  with ready show ?thesis by (auto simp: spend_ready_def append_ready_def)
qed

lemmas ready_append = in_page_append [OF ready_appends]

section \<open>Accepted transfers\<close>

lemma decoded_transfer_facts:
  assumes "decode_private_transfer_instruction_v1 data = Inr i"
  shows "ae_transition_kind (pt_envelope i) = PrivateTransfer" "ts_pool (pt_statement i) = ae_pool (pt_envelope i)"
    "ts_deployment_domain (pt_statement i) = ae_deployment_domain (pt_envelope i)" "ts_nullifier (pt_statement i) = ae_nullifier (pt_envelope i)"
    "digest_ok (ts_recipient_commitment (pt_statement i))" "digest_ok (ts_change_commitment (pt_statement i))"
    "digest_ok (ts_nullifier (pt_statement i))"
  using assms unfolding transfer_instruction_eq
  by (auto simp: encode_private_transfer_instruction_v1_def require_envelope_statement_match_def transfer_instruction_ok_def transfer_ok_def
      encode_historical_anchor_envelope_v1_def validate_historical_anchor_envelope_v1_def envelope_ok_def canonical_digest_iff split: if_splits)

lemma transfer_receipt_encodes:
  assumes "list_all digest_ok leaves" "digest_ok a" "digest_ok b" "digest_ok nullifier" "length leaves + 2 \<le> 2 ^ 20"
  shows "is_ok (encode_transition_receipt_v1 \<lparr> tr_transition_kind = PrivateTransfer, tr_pool = pool, tr_nullifier = nullifier, tr_first_output = a,
      tr_second_output_or_destination = encode_digest_canonical b, tr_withdrawal_amount = 0,
      tr_first_leaf_index = ao_leaf_index (receipt_of (leaves @ [a])), tr_second_leaf_index = ao_leaf_index (receipt_of (leaves @ [a, b])),
      tr_root_sequence = ao_leaf_index (receipt_of (leaves @ [a, b])) + 1, tr_root = ao_root (receipt_of (leaves @ [a, b])) \<rparr>)"
proof -
  have "digest_ok (root_after (leaves @ [a, b]) (length leaves + 2))" using assms by (intro digest_ok_root_after) simp
  then have "digest_ok (subtree_root 20 (leaves @ [a, b]))" by (simp add: root_after_def)
  moreover have "checked_add (of_nat (length leaves) :: u64) (of_nat 1) = Some (of_nat (length leaves + 1))"
    using assms(5) by (intro checked_add_of_nat) simp
  moreover have "digest_ok d \<Longrightarrow> canonical_digest d" for d by (simp add: canonical_digest_iff digest_ok_def)
  ultimately show ?thesis
    using assms(2-4) by (simp add: encode_transition_receipt_v1_def is_ok_def receipt_of_def saturating_add_def)
qed

lemma transfer_accepted:
  assumes i: "decode_private_transfer_instruction_v1 data = Inr i" and ready: "spend_ready env pid s leaves (pt_envelope i) 2 accounts"
    and len: "length accounts = 9" and asset: "ts_asset_id (pt_statement i) = id_asset_id (ps_identity s)"
    and encoded: "encode_historical_anchor_envelope_v1 (pt_envelope i) = Inr encoded"
    and claim: "derive_verifier_dispatch_claim_v1 (accounts ! 7) (accounts ! 8) hash = Inr claim"
    and verify: "verify (ac_key (accounts ! 0)) encoded (pt_statement_payload i) s [accounts ! 5, accounts ! 6] (accounts ! 7) (accounts ! 8)
      claim slot = Inr ()"
  shows "\<exists>accounts' receipt. process_private_transfer_with_runtime_v1 env verify hash pid accounts data slot = Inr (accounts', receipt)"
proof -
  let ?e = "pt_envelope i" and ?c = "canonical_state pid (accounts ! 0) s"
  let ?request = "AuthorizedTwo (ts_recipient_commitment (pt_statement i)) (ts_change_commitment (pt_statement i))"
  note wire = decoded_transfer_facts [OF i]
  from ready have holds: "state_holds (accounts ! 0) s leaves" and page: "page_holds (ac_key (accounts ! 0)) leaves (length leaves div 256) (accounts ! 1)"
    and dist: "distinct (map ac_key accounts)" and payer: "pool_require_payer_and_system_program env (accounts ! 3) (accounts ! 4) = Inr ()"
    and n: "length leaves + 2 \<le> 2 ^ 20" and e: "ae_pool ?e = ac_key (accounts ! 0)" "ae_deployment_domain ?e = id_deployment_domain (ps_identity s)"
    by (auto simp: spend_ready_def)
  note facts = state_holds_facts [OF holds] and dec = ready_decodes [OF ready]
  note src = decoded_source [OF holds disjI1 [OF dec]]
  have layout: "plan_spend_page_layout_v1 env pid accounts s (ae_anchor_sequence ?e) 2 = Inr in_page_layout"
    using ready_layout [OF ready] by simp
  have bind: "validate_spend_binding_v1 (accounts ! 0) s PrivateTransfer (ae_transition_kind ?e) (ts_pool (pt_statement i))
      (ts_deployment_domain (pt_statement i)) (ts_asset_id (pt_statement i)) = Inr ()"
    using wire e asset by (simp add: validate_spend_binding_v1_def)
  have anchor: "authenticate_historical_anchor_after_prevalidated_state_v1 env pid (accounts ! 0) (accounts ! 1) encoded
      (transfer_authorization PrivateTransfer ?e) ?c = Inr \<lparr> pv_authenticated = anchor_of ?e, pv_history_page = ac_key (accounts ! 1),
        pv_header = history_header (ac_key (accounts ! 0)) leaves (length leaves div 256) \<rparr>" (is "_ = Inr ?anchor")
    using ready_anchor [OF ready encoded wire(1)] src by (simp add: authenticate_historical_anchor_after_prevalidated_state_v1_def)
  obtain h where h: "validate_current_history_after_prevalidated_anchor_v1 env pid (accounts ! 0) (accounts ! 1) ?c ?anchor = Inr h"
    using ready_history(1) [OF ready] by (auto simp: is_ok_iff)
  have new: "list_all digest_ok (new_leaves ?request)" "length (new_leaves ?request) = 2" "leaves_ok ?request"
    using wire(5,6) by (simp_all add: new_leaves_def leaves_ok_def digest_ok_def)
  have "length leaves div 256 \<le> 2 ^ 20" using n by (intro le_trans [OF div_le_dividend]) simp
  then have header: "\<exists>q. pv_header ?anchor = history_header (ac_key (accounts ! 0)) leaves q \<and> q \<le> 2 ^ 20" by auto
  note append = ready_append [OF ready new(1,2), folded anchored_append_eq [OF holds page new(3) dec header h]]
  have leaves: "list_all digest_ok leaves" using facts(1) by (simp add: pool_represents_def)
  obtain receipt where receipt: "encode_transition_receipt_v1 \<lparr> tr_transition_kind = PrivateTransfer, tr_pool = ac_key (accounts ! 0),
      tr_nullifier = ts_nullifier (pt_statement i), tr_first_output = ts_recipient_commitment (pt_statement i),
      tr_second_output_or_destination = encode_digest_canonical (ts_change_commitment (pt_statement i)), tr_withdrawal_amount = 0,
      tr_first_leaf_index = ao_leaf_index (ar_first (append_receipt leaves ?request)),
      tr_second_leaf_index = ao_leaf_index (receipt_of (leaves @ [ts_recipient_commitment (pt_statement i), ts_change_commitment (pt_statement i)])),
      tr_root_sequence = ao_leaf_index (receipt_of (leaves @ [ts_recipient_commitment (pt_statement i), ts_change_commitment (pt_statement i)])) + 1,
      tr_root = ao_root (receipt_of (leaves @ [ts_recipient_commitment (pt_statement i), ts_change_commitment (pt_statement i)])) \<rparr> = Inr receipt"
    using transfer_receipt_encodes [OF leaves wire(5,6,7) n] by (auto simp: is_ok_iff append_receipt_def)
  have accounts: "accounts \<noteq> []" using len by auto
  have second: "ar_second (append_receipt leaves ?request)
      = Some (receipt_of (leaves @ [ts_recipient_commitment (pt_statement i), ts_change_commitment (pt_statement i)]))"
    by (simp add: append_receipt_def)
  have st: "state_accounts_for_append_v1 accounts in_page_layout = append_accounts (accounts ! 0) (accounts ! 1) None"
    by (simp add: state_accounts_for_append_v1_def in_page_layout_def append_accounts_def)
  have lay: "sl_suffix_start in_page_layout = 2" "sl_anchor_index in_page_layout = 1" "sl_current_index in_page_layout = 1"
      "check_fresh_next_page env pid accounts in_page_layout = Inr ()"
      "create_next_root_page_if_needed env pid accounts in_page_layout p q = Inr accounts" for p q
    by (simp_all add: in_page_layout_def check_fresh_next_page_def create_next_root_page_if_needed_def)
  have fifth: "cp_state ?c = s" by (rule src(1))
  show ?thesis
    unfolding process_private_transfer_with_runtime_v1_def Let_def i instruction_error_def map_err_simps bindE_simps
    using accounts dec bind layout lay len dist payer encoded anchor h ready_marker [OF ready] claim verify append
      ready_consumes [OF ready] second receipt st fifth
    by (simp add: account_get_def exact_account_list_def map_err_def ok_or_def)
qed

section \<open>Answered verifier calls\<close>

lemma authenticated_selection_matches:
  assumes "authenticate_verifier_selection_v1 env pool policy accounts selection slot = Inr sel"
  shows "selection_matches sel pool (vs_verifier_program selection) (vs_profile_binding selection) (vs_release_binding selection)
    (vs_statement_version selection)"
  using assms unfolding authenticate_verifier_selection_v1_def authenticate_verifier_selection_v2_def account_pair_iff Let_def
  by (auto simp: selection_matches_def account_pair_iff split: if_splits)

definition readonly_program :: "solana \<Rightarrow> account \<Rightarrow> bool" where
  "readonly_program env a \<longleftrightarrow> ac_executable a \<and> \<not> ac_is_signer a \<and> \<not> ac_is_writable a \<and> supported_verifier_loader env (ac_owner a)"

definition readonly_proof :: "account \<Rightarrow> account \<Rightarrow> bool" where
  "readonly_proof program a \<longleftrightarrow> ac_owner a = ac_key program \<and> ac_key a \<noteq> ac_key program
     \<and> \<not> ac_executable a \<and> \<not> ac_is_signer a \<and> \<not> ac_is_writable a"

lemma dispatch_accepted:
  assumes dec: "decode_historical_anchor_envelope_v1 encoded = Inr e"
    and e: "ae_pool e = pool" "ae_deployment_domain e = id_deployment_domain (ps_identity s)"
    and sel: "authenticate_verifier_selection_v1 env pool (ps_verifier_policy s) registry
        \<lparr> vs_verifier_program = ac_key program, vs_profile_binding = ae_verifier_profile e,
          vs_release_binding = ae_verifier_release e, vs_statement_version = 1 \<rparr> slot = Inr sel" "matches_verifier_owner sel (ac_owner program)"
    and accs: "readonly_program env program" "readonly_proof program proof_account" "ac_key proof_account \<noteq> pool"
    and claim: "derive_verifier_dispatch_claim_v1 program proof_account (solana_sha256 env) = Inr claim"
    and answer: "verified (rt_verify runtime) (solana_sha256 env) e payload program proof_account"
    and widths: "\<forall>b. length (sha256 env b) = 32" "length (ac_key program) = 32" "length (ac_key proof_account) = 32"
  shows "dispatch_selected_verifier_v1 env runtime pool encoded payload s registry program proof_account claim slot = Inr ()"
proof -
  let ?len = "from_le (seg 4 8 (ac_data proof_account)) :: u32" and ?hash = "solana_sha256 env"
  from claim have c: "vc_verifier_program claim = ac_key program" "vc_proof_account claim = ac_key proof_account" "vc_proof_body_length claim = ?len"
      "vc_proof_body_digest claim = ?hash [take (unat ?len) (drop 40 (ac_data proof_account))]"
    and header: "\<not> proof_header_rejected (ac_data proof_account)" "?len \<noteq> 0" "40 + unat ?len \<le> length (ac_data proof_account)"
    by (auto simp: derive_verifier_dispatch_claim_v1_def Let_def layout_defs verifier_proof_body_digest_v1_def seg_def split: if_splits)
  from answer obtain binding request result where
      b: "verifier_dispatch_binding_from_envelope_v1 (ac_key program) e payload (ac_key proof_account)
        (?hash [take (unat ?len) (drop 40 (ac_data proof_account))]) ?len ?hash = Inr binding"
    and req: "encode_verifier_dispatch_request_v1 \<lparr> dq_binding = binding, dq_statement_payload = payload \<rparr> ?hash = Inr request"
    and res: "encode_verifier_dispatch_result_v1 \<lparr> ds_success_code = POOL_V1_VERIFIER_DISPATCH_SUCCESS_CODE, ds_binding = binding \<rparr> = Inr result"
    and inv: "rt_verify runtime \<lparr> ix_program_id = ac_key program, ix_accounts = [meta_new_readonly (ac_key proof_account) False], ix_data = request \<rparr>
        (proof_account, program) = Inr (Some (ac_key program, result))"
    unfolding verified_def by blast
  have body: "authenticate_proof_account_body_v1 proof_account (ac_key program) pool claim ?hash = Inr ()"
    using accs header c by (simp add: authenticate_proof_account_body_v1_def readonly_proof_def Let_def layout_defs verifier_proof_body_digest_v1_def seg_def)
  have prog: "require_selected_verifier_program_account env program (ac_key program) = Inr ()"
    using accs(1) by (simp add: require_selected_verifier_program_account_def readonly_program_def)
  have fields: "vb_verifier_program binding = ac_key program" "vb_proof_account binding = ac_key proof_account"
    using b by (auto simp: verifier_dispatch_binding_from_envelope_v1_def Let_def split: if_splits)
  have "binding_ok binding"
    using b widths envelope_codec.wf_dec [OF dec]
    by (auto simp: binding_ok_def verifier_dispatch_binding_from_envelope_v1_def Let_def verifier_statement_payload_digest_v1_def
        historical_anchor_envelope_digest_v1_def solana_sha256_def envelope_ok_def split: if_splits)
  then have answer: "decode_verifier_dispatch_result_v1 result = Inr \<lparr> ds_success_code = POOL_V1_VERIFIER_DISPATCH_SUCCESS_CODE, ds_binding = binding \<rparr>"
    using res by (intro result_codec.dec_enc) simp_all
  show ?thesis
    using accs fields prog sel(2) inv answer result_codec.length_dec [OF answer] authenticated_selection_matches [OF sel(1)]
    by (simp add: dispatch_selected_verifier_v1_def dispatch_authenticated_verifier_readonly_v1_def plan_authenticated_verifier_dispatch_v1_def
        dec e c Let_def sel(1) body b req res invoke_freshly_planned_verifier_v1_def require_exact_readonly_cpi_accounts_v1_def
        authenticate_verifier_return_data_v1_def readonly_proof_def POOL_V1_HISTORICAL_ANCHOR_VERSION_def)
qed

text \<open>What the answer of the selected verifier rests on: the release is live, the two accounts are read only, and the verifier accepts.\<close>

definition dispatch_ready ::
  "solana \<Rightarrow> pool_runtime \<Rightarrow> pool_state \<Rightarrow> bytes \<Rightarrow> u64 \<Rightarrow> account list \<Rightarrow> anchor_envelope \<Rightarrow> bytes \<Rightarrow> account \<Rightarrow> account \<Rightarrow> bool" where
  "dispatch_ready env runtime s pool slot registry e payload program proof_account \<longleftrightarrow>
     (\<exists>sel. authenticate_verifier_selection_v1 env pool (ps_verifier_policy s) registry
        \<lparr> vs_verifier_program = ac_key program, vs_profile_binding = ae_verifier_profile e,
          vs_release_binding = ae_verifier_release e, vs_statement_version = 1 \<rparr> slot = Inr sel \<and> matches_verifier_owner sel (ac_owner program))
   \<and> readonly_program env program \<and> readonly_proof program proof_account \<and> ac_key proof_account \<noteq> pool
   \<and> is_ok (derive_verifier_dispatch_claim_v1 program proof_account (solana_sha256 env))
   \<and> verified (rt_verify runtime) (solana_sha256 env) e payload program proof_account
   \<and> (\<forall>b. length (sha256 env b) = 32) \<and> length (ac_key program) = 32 \<and> length (ac_key proof_account) = 32"

lemma dispatch_enabled:
  assumes "dispatch_ready env runtime s pool slot registry e payload program proof_account"
    and "envelope_ok e" "encode_historical_anchor_envelope_v1 e = Inr encoded"
    and "ae_pool e = pool" "ae_deployment_domain e = id_deployment_domain (ps_identity s)"
  obtains claim where "derive_verifier_dispatch_claim_v1 program proof_account (solana_sha256 env) = Inr claim"
    "dispatch_selected_verifier_v1 env runtime pool encoded payload s registry program proof_account claim slot = Inr ()"
proof -
  obtain claim where claim: "derive_verifier_dispatch_claim_v1 program proof_account (solana_sha256 env) = Inr claim"
    using assms(1) by (auto simp: dispatch_ready_def is_ok_iff)
  have "dispatch_selected_verifier_v1 env runtime pool encoded payload s registry program proof_account claim slot = Inr ()"
    using assms(1) envelope_codec.dec_enc [OF assms(2,3)] assms(4,5) claim
    unfolding dispatch_ready_def by (blast intro: dispatch_accepted)
  with claim show thesis by (rule that)
qed

section \<open>Accepted withdrawals\<close>

lemma decoded_withdrawal_facts:
  assumes "decode_withdrawal_instruction_v1 data = Inr i"
  shows "ae_transition_kind (wi_envelope i) = Withdrawal" "ws_pool (wi_statement i) = ae_pool (wi_envelope i)"
    "ws_deployment_domain (wi_statement i) = ae_deployment_domain (wi_envelope i)" "digest_ok (ws_change_commitment (wi_statement i))"
    "digest_ok (ws_nullifier (wi_statement i))" "ws_amount (wi_statement i) \<noteq> 0" "ws_amount (wi_statement i) < VALUE_LIMIT"
    "ws_destination_token_account (wi_statement i) \<noteq> zeros 32"
  using assms unfolding withdrawal_instruction_eq
  by (auto simp: encode_withdrawal_instruction_v1_def require_envelope_statement_match_def withdrawal_instruction_ok_def withdrawal_ok_def
      encode_historical_anchor_envelope_v1_def validate_historical_anchor_envelope_v1_def envelope_ok_def canonical_digest_iff not_le split: if_splits)

lemma withdrawal_receipt_encodes:
  assumes "list_all digest_ok leaves" "digest_ok a" "digest_ok nullifier" "amount \<noteq> 0" "amount < VALUE_LIMIT" "destination \<noteq> zeros 32"
  shows "is_ok (encode_transition_receipt_v1 \<lparr> tr_transition_kind = Withdrawal, tr_pool = pool, tr_nullifier = nullifier, tr_first_output = a,
      tr_second_output_or_destination = destination, tr_withdrawal_amount = amount,
      tr_first_leaf_index = ao_leaf_index (receipt_of (leaves @ [a])), tr_second_leaf_index = 0,
      tr_root_sequence = ao_leaf_index (receipt_of (leaves @ [a])) + 1, tr_root = ao_root (receipt_of (leaves @ [a])) \<rparr>)"
proof -
  have "digest_ok (root_after (leaves @ [a]) (length leaves + 1))" using assms by (intro digest_ok_root_after) simp
  then have "digest_ok (subtree_root 20 (leaves @ [a]))" by (simp add: root_after_def)
  moreover have "digest_ok d \<Longrightarrow> canonical_digest d" for d by (simp add: canonical_digest_iff digest_ok_def)
  ultimately show ?thesis
    using assms(2-6) by (simp add: encode_transition_receipt_v1_def is_ok_def receipt_of_def not_le)
qed

lemma ready_loads:
  assumes "spend_ready env pid s leaves e k accounts"
  shows "load_canonical_pool_state env pid (accounts ! 0) = Inr s"
proof -
  from assms have holds: "state_holds (accounts ! 0) s leaves" and acc: "program_account pid (accounts ! 0)"
    and key: "ac_key (accounts ! 0) = fst (pool_v1_state_address env pid (id_asset_mint (ps_identity s)))"
    by (auto simp: spend_ready_def)
  from acc show ?thesis
    by (simp add: load_canonical_pool_state_def program_account_def require_program_owned_def state_holds_facts(4) [OF holds] key [symmetric])
qed

lemma withdrawal_accepted:
  assumes i: "decode_withdrawal_instruction_v1 data = Inr i" and ready: "spend_ready env pid s leaves (wi_envelope i) 1 accounts"
    and len: "length accounts = 14" and asset: "ws_asset_id (wi_statement i) = id_asset_id (ps_identity s)"
    and encoded: "encode_historical_anchor_envelope_v1 (wi_envelope i) = Inr encoded"
    and claim: "derive_verifier_dispatch_claim_v1 (accounts ! 7) (accounts ! 8) hash = Inr claim"
    and verify: "verify (ac_key (accounts ! 0)) encoded (wi_statement_payload i) s [accounts ! 5, accounts ! 6] (accounts ! 7) (accounts ! 8)
      claim slot = Inr ()"
    and token: "require_token_program_account env (accounts ! 13) = Inr ()"
    and plan: "plan_legacy_withdrawal_transfer_v1 env pid (ac_key (accounts ! 0)) s (drop 9 accounts)
      (ws_destination_token_account (wi_statement i)) (ws_amount (wi_statement i)) = Inr plan"
    and pays: "rt_transfer_signed runtime (wp_instruction plan) (accounts ! 10, accounts ! 9, accounts ! 11, accounts ! 12, accounts ! 13)
      [[POOL_V1_VAULT_AUTHORITY_SEED, ac_key (accounts ! 0), [wp_authority_bump plan]]] = Inr (v, m, d, a, p)"
      "validate_exact_withdrawal_delta_v1 [m, v, d, a, p] plan = Inr ()"
  shows "\<exists>accounts' receipt. process_withdrawal_with_runtime_v1 env runtime verify hash pid accounts data slot = Inr (accounts', receipt)"
proof -
  let ?e = "wi_envelope i" and ?request = "AuthorizedOne (ws_change_commitment (wi_statement i))"
  note wire = decoded_withdrawal_facts [OF i]
  from ready have holds: "state_holds (accounts ! 0) s leaves" and dist: "distinct (map ac_key accounts)"
    and payer: "pool_require_payer_and_system_program env (accounts ! 3) (accounts ! 4) = Inr ()"
    and e: "ae_pool ?e = ac_key (accounts ! 0)" "ae_deployment_domain ?e = id_deployment_domain (ps_identity s)"
    by (auto simp: spend_ready_def)
  note facts = state_holds_facts [OF holds] and dec = ready_decodes [OF ready]
  have fifth: "cp_state (canonical_state pid (accounts ! 0) s) = s" by (rule decoded_source(1) [OF holds disjI1 [OF dec]])
  have layout: "plan_spend_page_layout_v1 env pid accounts s (ae_anchor_sequence ?e) 1 = Inr in_page_layout"
    using ready_layout [OF ready] by simp
  have bind: "validate_spend_binding_v1 (accounts ! 0) s Withdrawal (ae_transition_kind ?e) (ws_pool (wi_statement i))
      (ws_deployment_domain (wi_statement i)) (ws_asset_id (wi_statement i)) = Inr ()"
    using wire e asset by (simp add: validate_spend_binding_v1_def)
  obtain anchor where anchor: "authenticate_historical_anchor_v1 env pid (accounts ! 0) (accounts ! 1) encoded (transfer_authorization Withdrawal ?e) = Inr anchor"
    using ready_anchor [OF ready encoded wire(1)] ready_loads [OF ready] by (simp add: authenticate_historical_anchor_v1_def)
  have new: "list_all digest_ok (new_leaves ?request)" "length (new_leaves ?request) = 1" using wire(4) by (simp_all add: new_leaves_def)
  have leaves: "list_all digest_ok leaves" using facts(1) by (simp add: pool_represents_def)
  obtain receipt where receipt: "encode_transition_receipt_v1 \<lparr> tr_transition_kind = Withdrawal, tr_pool = ac_key (accounts ! 0),
      tr_nullifier = ws_nullifier (wi_statement i), tr_first_output = ws_change_commitment (wi_statement i),
      tr_second_output_or_destination = ws_destination_token_account (wi_statement i), tr_withdrawal_amount = ws_amount (wi_statement i),
      tr_first_leaf_index = ao_leaf_index (ar_first (append_receipt leaves ?request)), tr_second_leaf_index = 0,
      tr_root_sequence = ao_leaf_index (ar_first (append_receipt leaves ?request)) + 1,
      tr_root = ao_root (ar_first (append_receipt leaves ?request)) \<rparr> = Inr receipt"
    using withdrawal_receipt_encodes [OF leaves wire(4,5,6,7,8)] by (auto simp: is_ok_iff append_receipt_def)
  have tokens: "seg 9 14 accounts = drop 9 accounts" "drop 9 accounts = [accounts ! 9, accounts ! 10, accounts ! 11, accounts ! 12, accounts ! 13]"
    using len by (auto simp: seg_def list_eq_iff_nth_eq nth_Cons' numeral_eq_Suc less_Suc_eq)
  have infos: "exact_withdrawal_transfer_account_infos_v1 (drop 9 accounts)
      = Inr (accounts ! 10, accounts ! 9, accounts ! 11, accounts ! 12, accounts ! 13)"
    using dist distinct_drop [of "map ac_key accounts" 9] unfolding exact_withdrawal_transfer_account_infos_v1_def drop_map tokens(2)
    by (simp add: exact_five_withdrawal_accounts_def)
  have paid: "pay_and_consume_marker env runtime pid (ac_key (accounts ! 0)) ?e (zeroed_marker_plan env pid ?e) plan
      (accounts ! 10, accounts ! 9, accounts ! 11, accounts ! 12, accounts ! 13) (accounts ! 2) (accounts ! 3) (accounts ! 4)
    = Inr ((accounts ! 3, (accounts ! 2)\<lparr> ac_data := nullifier_marker_image (from_historical_anchor ?e) \<rparr>, accounts ! 4), [m, v, d, a, p])"
    using ready_marker [OF ready] pays
    by (simp add: pay_and_consume_marker_def create_marker_account_def Let_def) (simp add: zeroed_marker_plan_def)
  have st: "state_accounts_for_append_v1 accounts in_page_layout = append_accounts (accounts ! 0) (accounts ! 1) None"
    by (simp add: state_accounts_for_append_v1_def in_page_layout_def append_accounts_def)
  have lay: "sl_suffix_start in_page_layout = 2" "sl_anchor_index in_page_layout = 1" "sl_current_index in_page_layout = 1"
      "check_fresh_next_page env pid accounts in_page_layout = Inr ()"
      "create_next_root_page_if_needed env pid accounts in_page_layout p q = Inr accounts" for p q
    by (simp_all add: in_page_layout_def check_fresh_next_page_def create_next_root_page_if_needed_def)
  have accounts: "accounts \<noteq> []" using len by auto
  show ?thesis
    unfolding process_withdrawal_with_runtime_v1_def Let_def i instruction_error_def map_err_simps bindE_simps
    using accounts dec bind layout lay len dist payer encoded anchor ready_history(2) [OF ready] ready_marker [OF ready] claim verify
      ready_append [OF ready new] paid receipt st fifth token plan infos
    by (simp add: account_get_def exact_account_list_def map_err_def tokens(1))
qed

section \<open>Accepted deposits\<close>

lemma decoded_deposit_facts:
  assumes "decode_deposit_top_level_v1 data = Inr request"
  shows "validate_request request = Inr ()" "digest_ok (rq_owner_key request)" "digest_ok (rq_salt request)" "rq_amount request \<noteq> 0"
    "rq_amount request < VALUE_LIMIT" "length (rq_encrypted_note_payload request) \<le> POOL_V1_ENCRYPTED_NOTE_PAYLOAD_MAX_BYTES"
proof -
  have "decode_deposit_instruction_v1 data = Inr request" using assms by (simp add: decode_deposit_top_level_v1_def)
  then have ok: "request_ok request" and enc: "encode_deposit_instruction_v1 request = Inr data"
    using instruction_codec.wf_dec instruction_codec.enc_dec by auto
  show "digest_ok (rq_owner_key request)" "digest_ok (rq_salt request)" "rq_amount request \<noteq> 0"
    "rq_amount request < VALUE_LIMIT" "length (rq_encrypted_note_payload request) \<le> POOL_V1_ENCRYPTED_NOTE_PAYLOAD_MAX_BYTES"
    using ok enc by (auto simp: encode_deposit_instruction_v1_def request_ok_def canonical_digest_iff not_le not_less split: if_splits)
  then show "validate_request request = Inr ()"
    using ok by (simp add: validate_request_def request_ok_def digest_is_canonical_iff not_le not_less)
qed

lemma deposit_accepted:
  assumes data: "decode_deposit_top_level_v1 data = Inr request" and ready: "append_ready env pid s leaves 1 P C"
    and dist: "distinct (map ac_key [P, C, m, so, au, v, tp])" and token: "require_token_program_account env tp = Inr ()"
    and plan: "plan_legacy_deposit_transfer_v1 env pid (ac_key P) s [m, so, au, v, tp] (rq_amount request) = Inr plan"
    and moves: "rt_transfer runtime (dp_instruction plan) (so, m, v, au, tp) = Inr (so', m', v', au', tp')"
      "validate_exact_deposit_delta_v1 [m', so', au', v', tp'] plan = Inr ()"
    and named: "ac_key P \<noteq> zeros 32" "id_asset_mint (ps_identity s) \<noteq> zeros 32" "ac_key so \<noteq> zeros 32" "ac_key v \<noteq> zeros 32"
  shows "\<exists>accounts' out. process_deposit_with_runtime_v1 env runtime pid [P, C, m, so, au, v, tp] data = Inr (accounts', out)"
proof -
  note req = decoded_deposit_facts [OF data]
  from ready have holds: "state_holds P s leaves" and page: "page_holds (ac_key P) leaves (length leaves div 256) C" and acc: "program_account pid P"
    and key: "ac_key P = fst (pool_v1_state_address env pid (id_asset_mint (ps_identity s)))"
    and n: "length leaves + 1 \<le> 2 ^ 20" "(length leaves + 1) div 256 = length leaves div 256"
    by (auto simp: append_ready_def)
  note facts = state_holds_facts [OF holds]
  have dec: "decode_account env pid P = Inr (canonical_state pid P s)"
    using acc by (simp add: decode_account_def program_account_def require_program_account_def facts(6) canonical_state_def key [symmetric])
  note src = decoded_source [OF holds disjI1 [OF dec]]
  have rolls: "deposit_rolls_to_next_page s = Inr False"
  proof -
    have "is_ok (deposit_rolls_to_next_page s)"
      using represents_sequence(1) [OF facts(1)] n(1) by (simp add: deposit_rolls_to_next_page_def Let_def ok_or_def checked_add_def is_ok_def)
    then show ?thesis using rolls_iff [OF _ facts(1)] n by (auto simp: is_ok_iff)
  qed
  have pool: "id_pool (ps_identity s) = ac_key P" and asset: "canon (id_asset_id (ps_identity s))" and leaves: "list_all digest_ok leaves"
    using holds by (auto simp: state_holds_def pool_represents_def identity_ok_def)
  have note_ok: "digest_ok (deposit_note s request)"
    unfolding deposit_note_def using req asset by (intro note_commitment_ok) auto
  have infos: "exact_transfer_account_infos_v1 [m, so, au, v, tp] = Inr (so, m, v, au, tp)"
    using dist by (simp add: exact_transfer_account_infos_v1_def exact_five_accounts_def)
  let ?prepared = "\<lparr> pd_transfer_plan = plan, pd_transfer_infos = (so, m, v, au, tp), pd_note_commitment = deposit_note s request \<rparr>"
  have prep: "prepare_deposit_after_state_validation_v1 env pid s [m, so, au, v, tp] request = Inr ?prepared"
    using plan infos by (simp add: prepare_deposit_after_state_validation_v1_def pool Let_def deposit_note_def)
  have moved: "transfer_and_check (rt_transfer runtime) ?prepared = Inr [m', so', au', v', tp']"
    using moves by (simp add: transfer_and_check_def)
  have new: "list_all digest_ok (new_leaves (AuthorizedOne (deposit_note s request)))" "length (new_leaves (AuthorizedOne (deposit_note s request))) = 1"
      "leaves_ok (AuthorizedOne (deposit_note s request))"
    using note_ok by (simp_all add: new_leaves_def leaves_ok_def digest_ok_def)
  note append = in_page_append [OF ready new(1,2), folded prevalidated_append_outcome [OF holds page new(3) disjI1 [OF dec]]]
  have ids: "dp_source plan = ac_key so" "dp_vault plan = ac_key v"
    using deposit_plan_facts [OF plan [unfolded plan_legacy_deposit_transfer_v1_def]] by auto
  have "digest_ok (root_after (leaves @ [deposit_note s request]) (length leaves + 1))"
    using leaves note_ok by (intro digest_ok_root_after) simp
  then have root: "digest_ok (subtree_root 20 (leaves @ [deposit_note s request]))" by (simp add: root_after_def)
  let ?event = "finish_deposit_event_v1 s request ?prepared (append_receipt leaves (AuthorizedOne (deposit_note s request)))"
  have "unat (of_nat (length (rq_encrypted_note_payload request)) :: u16) = length (rq_encrypted_note_payload request)"
    using req(6) by (simp add: unat_of_nat layout_defs)
  then have "validate_deposit_event_v1 ?event = Inr ()"
    using named dist req root note_ok ids pool n(1) checked_add_of_nat [of "length leaves" 1]
    by (simp add: validate_deposit_event_v1_def validate_deposit_receipt_v1_def finish_deposit_event_v1_def append_receipt_def receipt_of_def
        canonical_digest_iff digest_ok_def not_le not_less algebra_simps)
  then obtain out where out: "encode_deposit_event_return_data_v1 ?event = Inr out"
    by (auto simp: encode_deposit_event_return_data_v1_def validate_deposit_event_v1_def encode_deposit_receipt_v1_def Let_def split: if_splits)
  have apart: "require_disjoint_account_groups [P, C] [m, so, au, v, tp] = Inr ()"
    using dist by (auto simp: require_disjoint_account_groups_def)
  have pair: "append_accounts P C None = [P, C]" by (simp add: append_accounts_def)
  show ?thesis
    unfolding process_deposit_with_runtime_v1_def data instruction_error_def map_err_simps bindE_simps
    using dec rolls dist token src req(1) apart prep moved append out
    by (simp add: process_prevalidated_vault_backed_deposit_v1_def execute_and_emit_deposit_v1_def pair
        apply_prevalidated_vault_backed_deposit_with_transfer_v1_def Let_def)
qed

section \<open>The release a spend was authorised by\<close>

definition live_release :: "solana \<Rightarrow> pool_state \<Rightarrow> u64 \<Rightarrow> account list \<Rightarrow> anchor_envelope \<Rightarrow> account \<Rightarrow> bool" where
  "live_release env s slot registry e program \<longleftrightarrow> (\<exists>ra ea g en. registry = [ra, ea]
     \<and> registry_view env (vp_registry_program (ps_verifier_policy s)) ra = Some g
     \<and> entry_view env (vp_registry_program (ps_verifier_policy s)) ea = Some en
     \<and> g_pool g = id_pool (ps_identity s) \<and> g_policy g = vp_policy_binding (ps_verifier_policy s) \<and> \<not> g_paused g
     \<and> belongs en g \<and> live_at en (unat slot) \<and> ge_program en = ac_key program \<and> ge_release en = ae_verifier_release e)"

lemma authorized_release:
  assumes "spend_authorized env runtime s slot registry e payload program proof_account"
  shows "live_release env s slot registry e program"
proof -
  from assms obtain sel where sel: "authenticate_verifier_selection_v1 env (id_pool (ps_identity s)) (ps_verifier_policy s) registry
        \<lparr> vs_verifier_program = ac_key program, vs_profile_binding = ae_verifier_profile e,
          vs_release_binding = ae_verifier_release e, vs_statement_version = 1 \<rparr> slot = Inr sel"
    by (auto simp: spend_authorized_def)
  show ?thesis
    by (rule authenticated_selection_views [OF sel]) (auto simp: live_release_def selects_def)
qed

end
