(* ===== verification/RegistryService.thy ===== *)
theory RegistryService
  imports RegistryLedger
begin

text \<open>
  When the registry program answers: a governed registry accepts pause changes from its authority, a frozen registry
  refuses every command with one error, and a small runtime and ledger on which the statements of the development
  are evaluated.
\<close>

section \<open>Enabled calls\<close>

lemma pause_bits_valid:
  assumes "f AND NOT POOL_V1_VERIFIER_REGISTRY_FLAGS_MASK = 0"
  shows "(f OR POOL_V1_VERIFIER_REGISTRY_FLAG_PAUSED) AND NOT POOL_V1_VERIFIER_REGISTRY_FLAGS_MASK = 0"
    "(f AND NOT POOL_V1_VERIFIER_REGISTRY_FLAG_PAUSED) AND NOT POOL_V1_VERIFIER_REGISTRY_FLAGS_MASK = 0"
  using assms by (auto simp: bit_eq_iff POOL_V1_VERIFIER_REGISTRY_FLAGS_MASK_def bit_simps)

definition set_paused_v1 :: "bool \<Rightarrow> verifier_registry_v1 \<Rightarrow> verifier_registry_v1" where
  "set_paused_v1 p r = r \<lparr> r1_generation := r1_generation r + 1,
     r1_flags := (if p then r1_flags r OR POOL_V1_VERIFIER_REGISTRY_FLAG_PAUSED else r1_flags r AND NOT POOL_V1_VERIFIER_REGISTRY_FLAG_PAUSED) \<rparr>"

definition set_paused_v2 :: "bool \<Rightarrow> verifier_registry_v2 \<Rightarrow> verifier_registry_v2" where
  "set_paused_v2 p r = r \<lparr> r2_generation := r2_generation r + 1,
     r2_flags := (if p then r2_flags r OR POOL_V1_VERIFIER_REGISTRY_FLAG_PAUSED else r2_flags r AND NOT POOL_V1_VERIFIER_REGISTRY_FLAG_PAUSED) \<rparr>"

lemma set_paused_encodes:
  "decode_verifier_registry_v1 b = Inr r \<Longrightarrow> \<exists>c. encode_verifier_registry_v1 (set_paused_v1 p r) = Inr c \<and> length c = length b"
  "decode_verifier_registry_v2 b = Inr s \<Longrightarrow> \<exists>c. encode_verifier_registry_v2 (set_paused_v2 p s) = Inr c \<and> length c = length b"
proof -
  assume dec: "decode_verifier_registry_v1 b = Inr r"
  have "validate_verifier_registry_v1 r = Inr ()"
    using registry_v1_codec.enc_dec [OF dec] by (auto simp: encode_verifier_registry_v1_def)
  then have "validate_verifier_registry_v1 (set_paused_v1 p r) = Inr ()"
    by (auto simp: validate_verifier_registry_v1_def set_paused_v1_def pause_bits_valid flag_simps split: if_splits)
  moreover have "r1_ok (set_paused_v1 p r)" using registry_v1_codec.wf_dec [OF dec] by (simp add: set_paused_v1_def r1_ok_def)
  ultimately show "\<exists>c. encode_verifier_registry_v1 (set_paused_v1 p r) = Inr c \<and> length c = length b"
    using registry_v1_codec.length_enc registry_v1_codec.length_dec [OF dec] by (auto simp: encode_verifier_registry_v1_def)
next
  assume dec: "decode_verifier_registry_v2 b = Inr s"
  have "validate_verifier_registry_v2 s = Inr ()"
    using registry_v2_codec.enc_dec [OF dec] by (auto simp: encode_verifier_registry_v2_def)
  then have "validate_verifier_registry_v2 (set_paused_v2 p s) = Inr ()"
    by (auto simp: validate_verifier_registry_v2_def set_paused_v2_def pause_bits_valid flag_simps split: if_splits)
  moreover have "r2_ok (set_paused_v2 p s)" using registry_v2_codec.wf_dec [OF dec] by (simp add: set_paused_v2_def r2_ok_def)
  ultimately show "\<exists>c. encode_verifier_registry_v2 (set_paused_v2 p s) = Inr c \<and> length c = length b"
    using registry_v2_codec.length_enc registry_v2_codec.length_dec [OF dec] by (auto simp: encode_verifier_registry_v2_def)
qed

lemma pause_change_enabled:
  assumes "load_registry env pid ra = Inr r" "require_authority r au = Inr ()" "ac_key ra \<noteq> ac_key au"
    and "r1_is_paused r \<noteq> p" "Suc (unat (r1_generation r)) < 2 ^ 64"
  shows "\<exists>accs'. process_pause_change env pid [ra, au] (r1_generation r) p = Inr accs'"
proof -
  obtain c where "encode_verifier_registry_v1 (set_paused_v1 p r) = Inr c" "length c = length (ac_data ra)"
    using set_paused_encodes(1) [of "ac_data ra" r p] assms(1) by (auto simp: load_registry_iff)
  then show ?thesis
    using assms by (auto simp: process_pause_change_def guard_iffs Let_def set_paused_v1_def cong: if_cong)
qed

lemma pause_change_v2_enabled:
  assumes "load_registry_v2 env pid ra = Inr r" "require_authority_v2 r au = Inr ()" "ac_key ra \<noteq> ac_key au"
    and "r2_is_paused r \<noteq> p" "Suc (unat (r2_generation r)) < 2 ^ 64"
  shows "\<exists>accs'. process_pause_change_v2 env pid [ra, au] (r2_generation r) p = Inr accs'"
proof -
  obtain c where "encode_verifier_registry_v2 (set_paused_v2 p r) = Inr c" "length c = length (ac_data ra)"
    using set_paused_encodes(2) [of "ac_data ra" r p] assms(1) by (auto simp: load_registry_v2_iff)
  then show ?thesis
    using assms by (auto simp: process_pause_change_v2_def guard_iffs Let_def set_paused_v2_def cong: if_cong)
qed

text \<open>Seen on the view of the account, whichever version it has.\<close>

lemma pause_answer_view:
  assumes "call_refines env pid slot (GSetPaused p) w accs accs'" "registry_view env pid (accs ! 0) = Some g"
  shows "registry_view env pid (accs' ! 0) = Some (next_generation g \<lparr> g_paused := p \<rparr>)"
  using assms by (auto simp: call_refines_def elim!: gov_step_elim)

lemma pause_change_answers:
  assumes "ac_is_signer au" "\<not> ac_is_writable au" "\<not> ac_executable au" "ac_key ra \<noteq> ac_key au"
    and view: "registry_view env pid ra = Some g" and "ac_is_writable ra" "\<not> ac_is_signer ra" "g_paused g \<noteq> p"
    and "governs (ac_key au) g"
  shows "\<exists>accs'. (process_pause_change env pid [ra, au] (of_nat (g_generation g)) p = Inr accs'
      \<or> process_pause_change_v2 env pid [ra, au] (of_nat (g_generation g)) p = Inr accs')
    \<and> registry_view env pid (accs' ! 0) = Some (next_generation g \<lparr> g_paused := p \<rparr>)"
proof -
  have "as_writable ra = ra" using assms(6,7) by (cases ra) (simp add: as_writable_def)
  with view consider (one) r where "load_registry env pid ra = Inr r" "g = abs_r1 r"
    | (two) r where "load_registry_v2 env pid ra = Inr r" "g = abs_r2 r"
    by (auto simp: registry_view_iff)
  then show ?thesis
  proof cases
    case (one r)
    then have "require_authority r au = Inr ()" "r1_is_paused r \<noteq> p" "Suc (unat (r1_generation r)) < 2 ^ 64"
      "of_nat (g_generation g) = r1_generation r"
      using assms by (auto simp: v1.authority_iff governs_def) (simp_all add: abs_r1_def)
    then obtain accs' where run: "process_pause_change env pid [ra, au] (of_nat (g_generation g)) p = Inr accs'"
      using pause_change_enabled [OF one(1), of au p] assms(4) by auto
    from pause_answer_view [OF pause_change_refines [OF run]] run view show ?thesis by auto
  next
    case (two r)
    then have "require_authority_v2 r au = Inr ()" "r2_is_paused r \<noteq> p" "Suc (unat (r2_generation r)) < 2 ^ 64"
      "of_nat (g_generation g) = r2_generation r"
      using assms by (auto simp: v2.authority_iff governs_def) (simp_all add: abs_r2_def)
    then obtain accs' where run: "process_pause_change_v2 env pid [ra, au] (of_nat (g_generation g)) p = Inr accs'"
      using pause_change_v2_enabled [OF two(1), of au p] assms(4) by auto
    from pause_answer_view [OF pause_change_v2_refines [OF run]] run view show ?thesis by auto
  qed
qed

section \<open>Refusals\<close>

lemma distinct_unique: "distinct (map ac_key accs) \<Longrightarrow> require_unique_accounts accs = Inr ()"
  by (simp add: require_unique_accounts_iff)

lemma frozen_authority: "r1_is_immutable r \<Longrightarrow> require_authority r au = fail RegistryFrozen"
    "r2_is_immutable s \<Longrightarrow> require_authority_v2 s au = fail RegistryFrozen"
  by (simp_all add: require_authority_def require_authority_v2_def)

lemma bind_fail [simp]: "bindE (fail e) f = fail e"
  by (simp add: fail_def)

lemma frozen_refuses:
  assumes "load_registry env pid ra = Inr r" "r1_is_immutable r"
  shows "distinct (map ac_key [ra, au]) \<Longrightarrow> process_pause_change env pid [ra, au] w p = fail RegistryFrozen"
    and "distinct (map ac_key [ra, au]) \<Longrightarrow> process_freeze env pid [ra, au] w = fail RegistryFrozen"
    and "distinct (map ac_key [ra, ea, au]) \<Longrightarrow> process_activate env pid [ra, ea, au] w slot = fail RegistryFrozen"
    and "distinct (map ac_key [ra, ea, pa, au]) \<Longrightarrow> process_retire env pid [ra, ea, pa, au] w slot = fail RegistryFrozen"
    and "distinct (map ac_key [ra, ea, au, payer, sys])
      \<Longrightarrow> process_schedule env pid [ra, ea, au, payer, sys] w v pb rb sv act slot = fail RegistryFrozen"
  unfolding process_pause_change_def process_freeze_def process_activate_def process_retire_def process_schedule_def list.case
  by (simp_all only: distinct_unique assms(1) frozen_authority(1) [OF assms(2)] bindE_simps bind_fail)

lemma frozen_refuses_v2:
  assumes "load_registry_v2 env pid ra = Inr r" "r2_is_immutable r"
  shows "distinct (map ac_key [ra, au]) \<Longrightarrow> process_pause_change_v2 env pid [ra, au] w p = fail RegistryFrozen"
    and "distinct (map ac_key [ra, au]) \<Longrightarrow> process_freeze_v2 env pid [ra, au] w = fail RegistryFrozen"
    and "distinct (map ac_key [ra, ea, au]) \<Longrightarrow> process_activate_v2 env pid [ra, ea, au] w slot = fail RegistryFrozen"
    and "distinct (map ac_key [ra, ea, pa, au]) \<Longrightarrow> process_retire_v2 env pid [ra, ea, pa, au] w slot = fail RegistryFrozen"
    and "distinct (map ac_key [ra, ea, au, payer, sys, va, da])
      \<Longrightarrow> process_schedule_v2 env pid [ra, ea, au, payer, sys, va, da] w v pb rb sv act h slot = fail RegistryFrozen"
  unfolding process_pause_change_v2_def process_freeze_v2_def process_activate_v2_def process_retire_v2_def process_schedule_v2_def list.case
  by (simp_all only: distinct_unique assms(1) frozen_authority(2) [OF assms(2)] bindE_simps bind_fail)

section \<open>A small runtime\<close>

text \<open>
  A runtime with constant addresses and a system program that creates accounts, and a registry of version 1 under
  it: enough to run the handlers on concrete accounts.
\<close>

definition example_env :: solana where
  "example_env = \<lparr> find_program_address = (\<lambda>seeds program. (replicate 32 (of_nat (length seeds)), 255)),
     sha256 = (\<lambda>b. replicate 32 9),
     loader_deserialize = (\<lambda>b. Some (if length b = 36 then LoaderProgram (replicate 32 1) else LoaderProgramData 0 None)),
     size_of_program = 36, size_of_programdata_metadata = 45, rent_get = Inr (\<lambda>n. 1000), clock_get = Inr 50,
     system_program_id = replicate 32 100, native_loader_id = replicate 32 101, bpf_loader_id = replicate 32 103,
     bpf_loader_upgradeable_id = replicate 32 102, loader_v4_id = replicate 32 104,
     cpi_invoke = (\<lambda>c i. Inr i),
     cpi_invoke_signed = (\<lambda>c (p, a, s) seeds. Inr (case c of
        CreateAccount from to lamports space owner \<Rightarrow> (p, a \<lparr> ac_owner := owner, ac_data := zeros (unat space), ac_lamports := lamports \<rparr>, s)
      | _ \<Rightarrow> (p, a, s))) \<rparr>"

definition example_program :: bytes where "example_program = replicate 32 99"

definition example_registry :: "u8 \<Rightarrow> u64 \<Rightarrow> bytes \<Rightarrow> verifier_registry_v1" where
  "example_registry flags generation authority = \<lparr> r1_flags = flags, r1_pool = replicate 32 11, r1_authority = authority,
     r1_policy_binding = replicate 32 13, r1_generation = generation, r1_minimum_activation_delay_slots = 5 \<rparr>"

definition example_account :: "verifier_registry_v1 \<Rightarrow> account" where
  "example_account r = \<lparr> ac_key = replicate 32 2, ac_is_signer = False, ac_is_writable = True, ac_executable = False,
     ac_owner = example_program, ac_lamports = 1000, ac_data = verifier_registry_v1_image r \<rparr>"

definition example_authority :: account where
  "example_authority = \<lparr> ac_key = replicate 32 12, ac_is_signer = True, ac_is_writable = False, ac_executable = False,
     ac_owner = replicate 32 100, ac_lamports = 0, ac_data = [] \<rparr>"

lemma example_runtime: "runtime_ok example_env example_program"
  by (auto simp: runtime_ok_def example_env_def example_program_def infos_keys_def split: prod.splits system_instruction.splits)

lemma example_load:
  assumes "validate_verifier_registry_v1 (example_registry f g k) = Inr ()" "length k = 32"
  shows "load_registry example_env example_program (example_account (example_registry f g k)) = Inr (example_registry f g k)"
proof -
  have "r1_ok (example_registry f g k)" using assms(2) by (simp add: r1_ok_def example_registry_def)
  moreover have "encode_verifier_registry_v1 (example_registry f g k) = Inr (verifier_registry_v1_image (example_registry f g k))"
    using assms(1) by (simp add: encode_verifier_registry_v1_def)
  ultimately have "decode_verifier_registry_v1 (verifier_registry_v1_image (example_registry f g k)) = Inr (example_registry f g k)"
    by (rule registry_v1_codec.dec_enc)
  then show ?thesis
    by (simp add: load_registry_iff example_account_def pool_v1_verifier_registry_address_def example_env_def)
qed

lemma example_valid:
  "validate_verifier_registry_v1 (example_registry 0 g (replicate 32 12)) = Inr ()"
  "validate_verifier_registry_v1 (example_registry 2 g (zeros 32)) = Inr ()"
  by (simp_all add: validate_verifier_registry_v1_def example_registry_def required_binding_is_zero_def zeros_def
      r1_is_immutable_def POOL_V1_VERIFIER_REGISTRY_FLAGS_MASK_def POOL_V1_VERIFIER_REGISTRY_FLAG_PAUSED_def
      POOL_V1_VERIFIER_REGISTRY_FLAG_IMMUTABLE_def)

lemma example_pause:
  "\<exists>accs'. process_pause_change example_env example_program
     [example_account (example_registry 0 0 (replicate 32 12)), example_authority] 0 True = Inr accs'"
proof -
  have r: "r1_generation (example_registry 0 0 (replicate 32 12)) = 0" by (simp add: example_registry_def)
  show ?thesis
    using pause_change_enabled [OF example_load [OF example_valid(1) [of 0]], of example_authority True]
    by (simp add: r) (simp add: example_registry_def example_authority_def example_account_def require_authority_def
        r1_is_immutable_def r1_is_paused_def)
qed

definition example_plain :: "bytes \<Rightarrow> bool \<Rightarrow> bool \<Rightarrow> bool \<Rightarrow> bytes \<Rightarrow> bytes \<Rightarrow> account" where
  "example_plain k s w x ow d = \<lparr> ac_key = k, ac_is_signer = s, ac_is_writable = w, ac_executable = x, ac_owner = ow, ac_lamports = 0, ac_data = d \<rparr>"

lemma example_plain_data [simp]: "ac_data (example_plain k s w x ow d) = d"
  by (simp add: example_plain_def)

definition example_registry_v2 :: "u8 \<Rightarrow> bytes \<Rightarrow> u64 \<Rightarrow> verifier_registry_v2" where
  "example_registry_v2 f k g = \<lparr> r2_flags = f, r2_pool = replicate 32 11, r2_authority = k, r2_policy_binding = replicate 32 13,
  r2_generation = g, r2_minimum_activation_delay_slots = 5, r2_registry_program = example_program, r2_loader_program = replicate 32 102,
  r2_programdata_address = replicate 32 1, r2_executable_hash = replicate 32 9 \<rparr>"

definition example_args :: schedule_args where
  "example_args = \<lparr> sc_expected_generation = 0, sc_verifier_program = replicate 32 15, sc_profile_binding = replicate 32 16,
     sc_release_binding = replicate 32 17, sc_statement_version = 1, sc_activation_slot = 100 \<rparr>"

lemma example_load_v2:
  assumes "encode_verifier_registry_v2 (example_registry_v2 f k g) = Inr b" "length k = 32"
  shows "load_registry_v2 example_env example_program (example_plain (replicate 32 2) False True False example_program b)
    = Inr (example_registry_v2 f k g)"
proof -
  have "r2_ok (example_registry_v2 f k g)" using assms(2) by (simp add: r2_ok_def example_registry_v2_def example_program_def)
  from registry_v2_codec.dec_enc [OF this assms(1)] show ?thesis
    by (simp add: load_registry_v2_iff example_plain_def pool_v1_verifier_registry_v2_address_def example_env_def example_registry_v2_def)
qed

lemma example_encode_v2:
  "encode_verifier_registry_v2 (example_registry_v2 0 (replicate 32 12) g)
     = Inr (verifier_registry_v2_image (example_registry_v2 0 (replicate 32 12) g))"
  "encode_verifier_registry_v2 (example_registry_v2 2 (zeros 32) g) = Inr (verifier_registry_v2_image (example_registry_v2 2 (zeros 32) g))"
  by (simp_all add: encode_verifier_registry_v2_def validate_verifier_registry_v2_def example_registry_v2_def
      required_binding_is_zero_def zeros_def example_program_def r2_is_immutable_def POOL_V1_VERIFIER_REGISTRY_FLAGS_MASK_def
      POOL_V1_VERIFIER_REGISTRY_FLAG_PAUSED_def POOL_V1_VERIFIER_REGISTRY_FLAG_IMMUTABLE_def)

abbreviation governed_example :: "u64 \<Rightarrow> verifier_registry_v2" where
  "governed_example \<equiv> example_registry_v2 0 (replicate 32 12)"

definition example_schedule_accounts :: "account list" where
  "example_schedule_accounts = 
   [example_plain (replicate 32 2) False True False example_program (verifier_registry_v2_image (governed_example 0)),
    example_plain (replicate 32 4) False True False (replicate 32 100) [], example_authority,
    example_plain (replicate 32 14) True True False (replicate 32 100) [],
    example_plain (replicate 32 100) False False True (replicate 32 101) [],
    example_plain (replicate 32 15) False False True (replicate 32 102) (zeros 36),
    example_plain (replicate 32 1) False False False (replicate 32 102) (zeros 46)]"

lemma example_schedule:
  "\<exists>accs'. process_schedule_v2 example_env example_program example_schedule_accounts
   (sc_expected_generation example_args) (sc_verifier_program example_args) (sc_profile_binding example_args)
   (sc_release_binding example_args) (sc_statement_version example_args) (sc_activation_slot example_args) (replicate 32 9) 50 = Inr accs'"
proof -
  let ?d = "\<lparr> dp_programdata_address = replicate 32 1, dp_executable_hash = replicate 32 (9::u8) \<rparr>"
  let ?e = "scheduled_entry_v2 example_env example_args (governed_example 0) ?d"
  have auth: "require_authority_v2 (governed_example 0) example_authority = Inr ()" "require_generation_v2 (governed_example 0) 0 = Inr ()"
    by (simp_all add: require_authority_v2_def require_generation_v2_def example_registry_v2_def example_authority_def r2_is_immutable_def)
  have dep: "authenticate_immutable_loader_v3_deployment_v2 example_env (sc_verifier_program example_args)
     (example_plain (replicate 32 15) False False True (replicate 32 102) (zeros 36))
     (example_plain (replicate 32 1) False False False (replicate 32 102) (zeros 46)) = Inr ?d"
    by (simp add: authenticate_immutable_loader_v3_deployment_v2_def linked_programdata_def executable_hash_of_def example_env_def
      example_plain_def example_args_def zeros_def)
  have inc: "incremented_registry_v2 (governed_example 0) = Inr (governed_example 1)"
    by (simp add: guard_iffs example_registry_v2_def)
  have e: "e2_ok ?e" 
     "encode_verifier_registry_entry_v2 ?e = 
       Inr (verifier_registry_entry_v2_image ?e)"
    by (simp_all add: e2_ok_def scheduled_entry_v2_def example_args_def example_registry_v2_def example_env_def encode_verifier_registry_entry_v2_def
      validate_verifier_registry_entry_v2_def required_binding_is_zero_def zeros_def e2_has_no_retirement_slot_def)
  have prep: "prepare_fresh_pda example_env (example_plain (replicate 32 14) True True False (replicate 32 100) [])
      (example_plain (replicate 32 4) False True False (replicate 32 100) [])
      (example_plain (replicate 32 100) False False True (replicate 32 101) []) POOL_V1_VERIFIER_ENTRY_V2_BYTES example_program
      (pool_v1_verifier_entry_v2_address example_env example_program pool p r) seeds
    = Inr (example_plain (replicate 32 14) True True False (replicate 32 100) [],
        example_plain (replicate 32 4) False True False example_program (zeros 320) \<lparr> ac_lamports := 1000 \<rparr>,
        example_plain (replicate 32 100) False False True (replicate 32 101) [])" for pool p r seeds
    by (simp add: prepare_fresh_pda_def plan_fresh_program_pda_def create_or_allocate_pda_def require_zero_program_account_def
        pool_v1_verifier_entry_v2_address_def example_env_def example_plain_def example_program_def layout_defs zeros_def)
  have payer: "require_payer_and_system_program example_env (example_plain (replicate 32 14) True True False (replicate 32 100) [])
      (example_plain (replicate 32 100) False False True (replicate 32 101) []) = Inr ()"
    by (simp add: require_payer_and_system_program_def example_env_def example_plain_def)
  have unique: "require_unique_accounts example_schedule_accounts = Inr ()"
    by (simp add: example_schedule_accounts_def example_plain_def example_authority_def)
  have delay: "checked_add 50 (r2_minimum_activation_delay_slots (governed_example 0)) = Some 55"
    by (simp add: checked_add_def example_registry_v2_def)
  have args: "sc_expected_generation example_args = 0" "\<not> sc_activation_slot example_args < 55"
    by (simp_all add: example_args_def)
  have ok: "r2_ok (governed_example g)" for g by (simp add: r2_ok_def example_registry_v2_def example_program_def)
  have len: "length (verifier_registry_v2_image (governed_example g)) = 256"
    "length (verifier_registry_entry_v2_image ?e) = 320" for g
    using registry_v2_codec.length_dec [OF registry_v2_codec.dec_enc [OF ok example_encode_v2(1)]] entry_v2_image_fields(1) [OF e(1)] by (simp_all add: layout_defs)
  note entry = e(2) [unfolded scheduled_entry_v2_def immutable_deployment.select_convs]
    and width = len(2) [unfolded scheduled_entry_v2_def immutable_deployment.select_convs]
  show ?thesis
    using unique unfolding process_schedule_v2_def example_schedule_accounts_def list.case
    by (simp add: example_load_v2 [OF example_encode_v2(1)] auth dep inc prep payer delay args image_iffs entry example_encode_v2(1) commit_iffs len(1) width
      del: require_unique_accounts.simps)
qed
definition example_fresh_accounts :: "account list" where
  "example_fresh_accounts =
   [example_plain (replicate 32 2) False True False (replicate 32 100) [], example_authority,
    example_plain (replicate 32 14) True True False (replicate 32 100) [],
    example_plain (replicate 32 100) False False True (replicate 32 101) []]"

lemma example_initialize:
  "is_ok (process_initialize example_env example_program example_fresh_accounts (replicate 32 11) (replicate 32 13) 5)"
  by code_simp

text \<open>A ledger with a registry, a pending entry and the authority's account, and one call on it.\<close>

definition example_entry :: verifier_registry_entry_v1 where
  "example_entry = \<lparr> e1_status = Pending, e1_statement_version = 1, e1_pool = replicate 32 11, e1_verifier_program = replicate 32 15,
     e1_profile_binding = replicate 32 16, e1_release_binding = replicate 32 17, e1_activation_slot = 100,
     e1_retirement_slot = POOL_V1_VERIFIER_ENTRY_NO_RETIREMENT_SLOT, e1_policy_binding = replicate 32 13 \<rparr>"

definition example_ledger :: ledger where
  "example_ledger = map_of [(replicate 32 2, example_account (example_registry 0 0 (replicate 32 12))),
     (replicate 32 12, example_authority),
     (replicate 32 4, example_plain (replicate 32 4) False True False example_program (verifier_registry_entry_v1_image example_entry))]"

lemma example_registry_at:
  "registry_at example_env example_program example_ledger (replicate 32 2) = Some (abs_r1 (example_registry 0 0 (replicate 32 12)))"
proof -
  have "example_account r \<lparr> ac_key := replicate 32 2 \<rparr> = example_account r" for r by (simp add: example_account_def)
  then show ?thesis
    using load_registry_view(1) [OF example_load [OF example_valid(1)]] by (simp add: registry_at_def example_ledger_def)
qed

lemma example_entry_at:
  "entry_at example_env example_program example_ledger (replicate 32 4) = Some (abs_e1 example_entry)"
proof -
  have "encode_verifier_registry_entry_v1 example_entry = Inr (verifier_registry_entry_v1_image example_entry)"
    by (simp add: encode_verifier_registry_entry_v1_def validate_verifier_registry_entry_v1_def example_entry_def
        required_binding_is_zero_def zeros_def e1_has_no_retirement_slot_def)
  moreover have "e1_ok example_entry" by (simp add: e1_ok_def example_entry_def)
  ultimately have "decode_verifier_registry_entry_v1 (verifier_registry_entry_v1_image example_entry) = Inr example_entry"
    by (metis entry_v1_codec.dec_enc)
  then have "load_entry example_env example_program
      (example_plain (replicate 32 4) False True False example_program (verifier_registry_entry_v1_image example_entry)) True
    = Inr example_entry"
    by (simp add: load_entry_iff example_plain_def pool_v1_verifier_entry_address_def example_env_def)
  from load_entry_view(1) [OF this] show ?thesis
    by (simp add: entry_at_def example_ledger_def example_plain_def replicate_eq_replicate)
qed

lemma example_step: "\<exists>L'. ledger_step example_env example_program example_ledger L'"
proof -
  let ?ra = "example_account (example_registry 0 0 (replicate 32 12))"
  obtain accs' where run: "process_pause_change example_env example_program [?ra, example_authority] 0 True = Inr accs'"
    using example_pause by blast
  obtain data where data: "wire (V1 (Pause1 0)) = Inr data"
    by (simp add: wire_def wire_v1_def encode_simple_mutation_v1_def encode_simple_mutation_def Let_def)
  have "decode_registry_instruction data = Inr (V1 (Pause1 0))"
    by (rule instruction.dec_enc [OF _ data]) (simp add: instruction_ok_def instruction_ok_v1_def)
  with run have call: "process_instruction (example_env \<lparr> clock_get := Inr 50 \<rparr>) example_program [?ra, example_authority] data = Inr accs'"
    by (simp add: process_instruction_def requires_clock_def v1_requires_clock_def process_decoded_instruction_any_def
        process_decoded_instruction_def) (simp add: example_env_def)
  have infos: "list_all2 (\<lambda>m a. account_info example_ledger m = Some a)
      [(replicate 32 2, False, True), (replicate 32 12, True, False)] [?ra, example_authority]"
    by (simp add: account_info_def example_ledger_def example_account_def example_authority_def replicate_eq_replicate)
  have "ledger_step example_env example_program example_ledger (write_back example_ledger accs')"
    by (rule ledger_step.call [OF example_runtime infos _ call]) simp
  then show ?thesis by blast
qed

end
