(* ===== verification/PoolExample.thy ===== *)
theory PoolExample
  imports PoolService RegistryService
begin

text \<open>
  A pool with a few notes, its registry and its accounts, on which the conditions of the theorems about the pool
  program hold. Derived addresses depend on the length of the seeds only; the verifier accepts every well-formed
  request and answers with the result the request asks for.
\<close>

section \<open>The runtime\<close>

definition pool_env :: solana where
  "pool_env = example_env\<lparr> find_program_address := (\<lambda>seeds program. (replicate 32 (of_nat (length (concat seeds))), 255)),
     cpi_invoke_signed := (\<lambda>c (payer, a, sys) seeds. case c of
        CreateAccount from to lamports space owner \<Rightarrow>
          if ac_owner a \<noteq> replicate 32 100 then Inl InvalidArgument
          else Inr (payer, a \<lparr> ac_owner := owner, ac_data := zeros (unat space), ac_lamports := lamports \<rparr>, sys)
      | _ \<Rightarrow> Inr (payer, a, sys)) \<rparr>"

definition pool_program :: bytes where "pool_program = replicate 32 200"

definition accepting_verifier :: verifier_call where
  "accepting_verifier ix infos = (case decode_verifier_dispatch_request_v1 (ix_data ix) (solana_sha256 pool_env) of
     Inl _ \<Rightarrow> Inl InvalidInstructionData
   | Inr q \<Rightarrow> (case encode_verifier_dispatch_result_v1 \<lparr> ds_success_code = POOL_V1_VERIFIER_DISPATCH_SUCCESS_CODE, ds_binding = dq_binding q \<rparr> of
       Inl _ \<Rightarrow> Inl InvalidInstructionData | Inr r \<Rightarrow> Inr (Some (ix_program_id ix, r))))"

definition set_amount :: "u64 \<Rightarrow> account \<Rightarrow> account" where
  "set_amount n a = a\<lparr> ac_data := put 64 (to_le 8 n) (ac_data a) \<rparr>"

definition amount_of :: "account \<Rightarrow> u64" where
  "amount_of a = from_le (seg 64 72 (ac_data a))"

text \<open>The token program's checked transfer, from the first account to the third.\<close>

definition token_move :: "instruction \<Rightarrow> five_accounts \<Rightarrow> five_accounts" where
  "token_move ix accounts = (case accounts of (source, mint, destination, authority, token_program) \<Rightarrow>
     let amount = from_le (seg 1 9 (ix_data ix))
     in (set_amount (amount_of source - amount) source, mint, set_amount (amount_of destination + amount) destination, authority, token_program))"

definition pool_example_runtime :: pool_runtime where
  "pool_example_runtime = \<lparr> rt_transfer = (\<lambda>ix i. case i of (a, _, b, _, _) \<Rightarrow>
       if ac_owner a = pool_program \<or> ac_owner b = pool_program then Inl InvalidArgument else Inr (token_move ix i)),
     rt_transfer_signed = (\<lambda>ix i seeds. case i of (a, _, b, _, _) \<Rightarrow>
       if ac_owner a = pool_program \<or> ac_owner b = pool_program then Inl InvalidArgument else Inr (token_move ix i)),
     rt_initialize_account = (\<lambda>ix i. Inr i), rt_verify = accepting_verifier \<rparr>"

lemma pool_env_simps [simp]:
  "find_program_address pool_env seeds program = (replicate 32 (of_nat (length (concat seeds))), 255)" "sha256 pool_env b = replicate 32 9"
  "system_program_id pool_env = replicate 32 100" "native_loader_id pool_env = replicate 32 101"
  "bpf_loader_id pool_env = replicate 32 103" "length pool_program = 32"
  by (simp_all add: pool_env_def example_env_def pool_program_def)

lemma pool_env_calls: "system_calls_ok pool_env pool_program"
  by (auto simp: system_calls_ok_def pool_env_def example_env_def kept_def zeros_def pool_program_def
      replicate_eq_replicate split: system_instruction.splits if_splits)

lemma example_token_calls: "token_calls_ok pool_example_runtime pool_program"
  by (auto simp: token_calls_ok_def pool_example_runtime_def five_kept_def token_move_def Let_def set_amount_def kept_def split: prod.splits if_splits)

section \<open>The accounts\<close>

definition pool_key :: bytes where "pool_key = replicate 32 51"

definition mint_key :: bytes where "mint_key = replicate 32 9"

text \<open>The pool after a list of notes that fits its first page.\<close>

definition few :: "digest list \<Rightarrow> bool" where
  "few leaves \<longleftrightarrow> list_all digest_ok leaves \<and> length leaves \<le> 200"

definition example_state :: "digest list \<Rightarrow> pool_state" where
  "example_state leaves = \<lparr> ps_identity = \<lparr> id_pool = pool_key, id_asset_mint = mint_key, id_token_program = LEGACY_SPL_TOKEN_PROGRAM_ID,
       id_asset_id = M31 7, id_deployment_domain = replicate 32 20 \<rparr>,
     ps_verifier_policy = \<lparr> vp_flags = 0, vp_registry_program = replicate 32 50, vp_registry_authority = replicate 32 12,
       vp_policy_binding = replicate 32 13 \<rparr>, ps_tree = tree_of leaves \<rparr>"

definition example_pool :: "digest list \<Rightarrow> account" where
  "example_pool leaves = example_plain pool_key False True False pool_program (write_encoding_prevalidated (example_state leaves))"

definition example_page :: "digest list \<Rightarrow> account" where
  "example_page leaves = example_plain (replicate 32 63) False True False pool_program (history_page pool_key leaves 0)"

abbreviation first_state :: pool_state where "first_state \<equiv> example_state []"
abbreviation first_pool :: account where "first_pool \<equiv> example_pool []"
abbreviation first_page :: account where "first_page \<equiv> example_page []"

lemma few_Nil [simp]: "few []"
  by (simp add: few_def)

definition free_marker :: account where
  "free_marker = example_plain (replicate 32 87) False True False pool_program (zeros 208)"

definition example_payer :: account where
  "example_payer = example_plain (replicate 32 6) True True False (replicate 32 100) []"

definition example_system :: account where
  "example_system = example_plain (replicate 32 100) False False True (replicate 32 101) []"

definition pool_registry :: verifier_registry_v1 where
  "pool_registry = \<lparr> r1_flags = 0, r1_pool = pool_key, r1_authority = replicate 32 12, r1_policy_binding = replicate 32 13,
     r1_generation = 0, r1_minimum_activation_delay_slots = 5 \<rparr>"

definition pool_entry :: verifier_registry_entry_v1 where
  "pool_entry = \<lparr> e1_status = Active, e1_statement_version = 1, e1_pool = pool_key, e1_verifier_program = replicate 32 7,
     e1_profile_binding = replicate 32 16, e1_release_binding = replicate 32 17, e1_activation_slot = 10,
     e1_retirement_slot = POOL_V1_VERIFIER_ENTRY_NO_RETIREMENT_SLOT, e1_policy_binding = replicate 32 13 \<rparr>"

definition registry_accounts :: "account list" where
  "registry_accounts = [example_plain (replicate 32 58) False False False (replicate 32 50) (verifier_registry_v1_image pool_registry),
     example_plain (replicate 32 119) False False False (replicate 32 50) (verifier_registry_entry_v1_image pool_entry)]"

definition verifier_account :: account where
  "verifier_account = example_plain (replicate 32 7) False False True (replicate 32 103) []"

definition proof_account :: account where
  "proof_account = example_plain (replicate 32 8) False False False (replicate 32 7)
     (POOL_V1_VERIFIER_PROOF_ACCOUNT_MAGIC @ to_le 4 (1 :: u32) @ zeros 32 @ [7])"

definition spend_envelope :: "digest list \<Rightarrow> transition_kind \<Rightarrow> digest \<Rightarrow> anchor_envelope" where
  "spend_envelope leaves kind nullifier = \<lparr> ae_transition_kind = kind, ae_pool = pool_key, ae_deployment_domain = replicate 32 20,
     ae_anchor_sequence = of_nat (length leaves), ae_anchor_root = root_after leaves (length leaves), ae_nullifier = nullifier,
     ae_verifier_profile = replicate 32 16, ae_verifier_release = replicate 32 17 \<rparr>"

text \<open>The derived addresses.\<close>

lemma example_addresses:
  "fst (pool_v1_state_address pool_env program mint_key) = pool_key"
  "fst (pool_v1_root_page_address pool_env program pool_key n) = replicate 32 63"
  "digest_ok nullifier \<Longrightarrow> marker_address pool_env program pool_key nullifier = replicate 32 87"
  "fst (pool_v1_verifier_registry_address pool_env program pool_key) = replicate 32 58"
  "length profile = 32 \<Longrightarrow> length release = 32 \<Longrightarrow> fst (pool_v1_verifier_entry_address pool_env program pool_key profile release) = replicate 32 119"
  "pool_v1_vault_token_account_address pool_env program pool_key = (replicate 32 57, 255)"
  "pool_v1_vault_authority_address pool_env program pool_key = (replicate 32 61, 255)"
  by (simp_all add: pool_v1_state_address_def pool_v1_root_page_address_def marker_address_def pool_v1_verifier_registry_address_def
      pool_v1_verifier_entry_address_def pool_v1_vault_token_account_address_def pool_v1_vault_authority_address_def mint_key_def pool_key_def
      POOL_V1_STATE_SEED_def POOL_V1_ROOT_HISTORY_PAGE_SEED_def POOL_V1_NULLIFIER_MARKER_SEED_def POOL_V1_VERIFIER_REGISTRY_SEED_def
      POOL_V1_VERIFIER_ENTRY_SEED_def POOL_V1_VAULT_TOKEN_ACCOUNT_SEED_def POOL_V1_VAULT_AUTHORITY_SEED_def digest_ok_def)

lemma example_state_holds: "few leaves \<Longrightarrow> state_holds (example_pool leaves) (example_state leaves) leaves"
  by (simp add: few_def state_holds_def pool_represents_def example_pool_def example_plain_def example_state_def identity_ok_def policy_ok_def
      pool_key_def mint_key_def LEGACY_SPL_TOKEN_PROGRAM_ID_def canon_def M31_P_def validate_verifier_policy_v1_def zeros_def)

lemmas first_holds = example_state_holds [OF few_Nil]

lemma root_ok: "few leaves \<Longrightarrow> digest_ok (root_after leaves n)"
  by (rule digest_ok_root_after) (simp add: few_def)

lemma few_length: "few leaves \<Longrightarrow> unat (of_nat (length leaves) :: u64) = length leaves"
  by (simp add: few_def unat_of_nat)

lemma first_envelope_ok:
  assumes "digest_ok nullifier" "few leaves"
  shows "envelope_ok (spend_envelope leaves kind nullifier)"
    "encode_historical_anchor_envelope_v1 (spend_envelope leaves kind nullifier) = Inr (anchor_envelope_image (spend_envelope leaves kind nullifier))"
  using assms root_ok [OF assms(2), of "length leaves"] few_length [OF assms(2)]
  by (simp_all add: envelope_ok_def spend_envelope_def pool_key_def digest_ok_def encode_historical_anchor_envelope_v1_def
      validate_historical_anchor_envelope_v1_def canonical_digest_iff zeros_def capacity_eq few_def word_less_nat_alt)

section \<open>A transfer\<close>

definition example_digest :: "u32 \<Rightarrow> digest" where
  "example_digest n = replicate 8 (M31 n)"

lemma example_digest_ok [simp]: "n < 2147483647 \<Longrightarrow> digest_ok (example_digest n)"
  by (simp add: digest_ok_def example_digest_def canon_def M31_P_def list_all_iff word_less_nat_alt)

definition transfer_statement_of :: "digest list \<Rightarrow> digest \<Rightarrow> digest \<Rightarrow> digest \<Rightarrow> transfer_statement" where
  "transfer_statement_of leaves nullifier recipient change = \<lparr> ts_pool = pool_key, ts_deployment_domain = replicate 32 20,
     ts_anchor_sequence = of_nat (length leaves), ts_anchor_root = root_after leaves (length leaves), ts_nullifier = nullifier, ts_asset_id = M31 7,
     ts_recipient_commitment = recipient, ts_change_commitment = change \<rparr>"

definition spend_accounts :: "digest list \<Rightarrow> account list" where
  "spend_accounts leaves = [example_pool leaves, example_page leaves, free_marker, example_payer, example_system] @ registry_accounts
     @ [verifier_account, proof_account]"

abbreviation transfer_accounts :: "account list" where "transfer_accounts \<equiv> spend_accounts []"

lemma transfer_wire_exists:
  assumes "digest_ok nullifier" "few leaves" "digest_ok recipient" "digest_ok change"
  shows "\<exists>data i. decode_private_transfer_instruction_v1 data = Inr i \<and> pt_envelope i = spend_envelope leaves PrivateTransfer nullifier
    \<and> pt_statement i = transfer_statement_of leaves nullifier recipient change"
proof -
  note root = root_ok [OF assms(2), of "length leaves"]
  obtain payload where payload: "encode_transfer_statement (transfer_statement_of leaves nullifier recipient change) = Inr payload"
    unfolding encode_transfer_eq using assms root
    by (auto simp: common_canonical_def transfer_common_def transfer_statement_of_def canon_def M31_P_def canonical_digest_iff digest_ok_def)
  let ?i = "\<lparr> pt_envelope = spend_envelope leaves PrivateTransfer nullifier, pt_statement = transfer_statement_of leaves nullifier recipient change,
    pt_statement_payload = payload \<rparr>"
  have "transfer_instruction_ok ?i"
    using assms payload first_envelope_ok [OF assms(1,2)] root
    by (simp add: transfer_instruction_ok_def transfer_ok_def common_ok_def transfer_common_def transfer_statement_of_def pool_key_def digest_ok_def)
  moreover obtain data where "encode_private_transfer_instruction_v1 (pt_envelope ?i) (pt_statement ?i) = Inr data"
    using payload first_envelope_ok(2) [OF assms(1,2), of PrivateTransfer] assms(3,4)
    by (auto simp: encode_private_transfer_instruction_v1_def require_envelope_statement_match_def spend_envelope_def [of _ PrivateTransfer]
        transfer_statement_of_def canonical_digest_iff digest_ok_def)
  ultimately show ?thesis unfolding transfer_instruction_eq by (intro exI [of _ data] exI [of _ ?i]) simp
qed

lemma example_spend_ready:
  assumes "digest_ok nullifier" "few leaves" "distinct (map ac_key (spend_accounts leaves @ more_accounts))" "k \<le> 2"
  shows "spend_ready pool_env pool_program (example_state leaves) leaves (spend_envelope leaves kind nullifier) k (spend_accounts leaves @ more_accounts)"
proof -
  let ?accs = "spend_accounts leaves @ more_accounts" and ?e = "spend_envelope leaves kind nullifier"
  have accs: "?accs ! 0 = example_pool leaves" "?accs ! 1 = example_page leaves" "?accs ! 2 = free_marker" "?accs ! 3 = example_payer"
      "?accs ! 4 = example_system" "4 < length ?accs"
    by (simp_all add: spend_accounts_def)
  have e: "ae_pool ?e = pool_key" "ae_nullifier ?e = nullifier"
      "ae_deployment_domain ?e = id_deployment_domain (ps_identity (example_state leaves))"
      "unat (ae_anchor_sequence ?e) = length leaves" "ae_anchor_root ?e = root_after leaves (length leaves)"
      "id_asset_mint (ps_identity (example_state leaves)) = mint_key"
    using few_length [OF assms(2)] by (simp_all add: spend_envelope_def example_state_def)
  have page: "length leaves div 256 = 0" "(length leaves + k) div 256 = 0" "length leaves + k \<le> 2 ^ 20"
    using assms(2,4) by (simp_all add: few_def)
  show ?thesis
    using example_state_holds [OF assms(2)] first_envelope_ok [OF assms(1,2), of kind] assms(3,4) example_addresses(1,2) [of pool_program]
      example_addresses(3) [OF assms(1), of pool_program] accs(6) page(3)
    unfolding spend_ready_def accs e anchor_retained_def page(1,2)
    by (simp add: program_account_def page_holds_def example_pool_def example_page_def free_marker_def example_payer_def example_system_def
        example_plain_def layout_defs)
qed

lemma transfer_ready:
  assumes "digest_ok nullifier" "few leaves"
  shows "spend_ready pool_env pool_program (example_state leaves) leaves (spend_envelope leaves PrivateTransfer nullifier) 2 (spend_accounts leaves)"
  using example_spend_ready [OF assms, of "[]" 2]
  by (simp add: spend_accounts_def registry_accounts_def example_pool_def example_page_def free_marker_def example_payer_def
      example_system_def verifier_account_def proof_account_def example_plain_def pool_key_def)

section \<open>The verifier's answer\<close>

lemma example_registry_decodes:
  "decode_verifier_registry_v1 (verifier_registry_v1_image pool_registry) = Inr pool_registry"
  "decode_verifier_registry_entry_v1 (verifier_registry_entry_v1_image pool_entry) = Inr pool_entry"
  by (rule registry_v1_codec.dec_enc entry_v1_codec.dec_enc;
      simp add: r1_ok_def e1_ok_def pool_registry_def pool_entry_def pool_key_def encode_verifier_registry_v1_def encode_verifier_registry_entry_v1_def
        validate_verifier_registry_v1_def validate_verifier_registry_entry_v1_def required_binding_is_zero_def r1_is_immutable_def zeros_def
        POOL_V1_VERIFIER_REGISTRY_FLAGS_MASK_def POOL_V1_VERIFIER_REGISTRY_FLAG_PAUSED_def POOL_V1_VERIFIER_REGISTRY_FLAG_IMMUTABLE_def
        e1_has_no_retirement_slot_def)+

lemma example_selection:
  "\<exists>sel. authenticate_verifier_selection_v1 pool_env pool_key (ps_verifier_policy (example_state leaves)) registry_accounts
     \<lparr> vs_verifier_program = ac_key verifier_account, vs_profile_binding = replicate 32 16, vs_release_binding = replicate 32 17,
       vs_statement_version = 1 \<rparr> 50 = Inr sel \<and> as_expected_verifier_loader sel = None"
  by (simp add: authenticate_verifier_selection_v1_def example_state_def validate_verifier_policy_v1_def zeros_def registry_accounts_def
      require_readonly_registry_account_def example_plain_def Let_def example_addresses example_registry_decodes verifier_account_def)
    (simp add: pool_registry_def pool_entry_def r1_is_immutable_def r1_is_paused_def POOL_V1_VERIFIER_REGISTRY_FLAG_PAUSED_def
      POOL_V1_VERIFIER_REGISTRY_FLAG_IMMUTABLE_def)

lemma example_claim:
  "derive_verifier_dispatch_claim_v1 verifier_account proof_account hash = Inr \<lparr> vc_verifier_program = replicate 32 7,
     vc_proof_account = replicate 32 8, vc_proof_body_digest = hash [[7]], vc_proof_body_length = 1 \<rparr>"
  by (simp add: derive_verifier_dispatch_claim_v1_def proof_header_rejected_def proof_account_def verifier_account_def example_plain_def
      layout_defs Let_def seg_def zeros_def verifier_proof_body_digest_v1_def)

lemma example_verified:
  assumes "envelope_ok e" "is_ok (encode_historical_anchor_envelope_v1 e)" "payload \<noteq> []" "length payload \<le> POOL_V1_VERIFIER_STATEMENT_PAYLOAD_MAX_BYTES"
  shows "verified accepting_verifier (solana_sha256 pool_env) e payload verifier_account proof_account"
proof -
  let ?hash = "solana_sha256 pool_env"
  have data: "from_le (seg 4 8 (ac_data proof_account)) = (1 :: u32)" "drop 40 (ac_data proof_account) = [7]"
    by (simp_all add: proof_account_def seg_def layout_defs zeros_def)
  have len: "unat (of_nat (length payload) :: u32) = length payload"
    using assms(4) by (simp add: unat_of_nat layout_defs POOL_V1_VERIFIER_STATEMENT_PAYLOAD_MAX_BYTES_def)
  have e: "validate_historical_anchor_envelope_v1 e = Inr ()" using assms(2) by (auto simp: encode_historical_anchor_envelope_v1_def is_ok_iff)
  obtain b where b: "verifier_dispatch_binding_from_envelope_v1 (ac_key verifier_account) e payload (ac_key proof_account) (?hash [[7]]) 1 ?hash = Inr b"
    using assms(3,4) e len
    by (auto simp: verifier_dispatch_binding_from_envelope_v1_def verifier_statement_payload_digest_v1_def historical_anchor_envelope_digest_v1_def
        encode_historical_anchor_envelope_v1_def validate_verifier_dispatch_binding_v1_def validate_historical_anchor_envelope_v1_def
        verifier_account_def proof_account_def example_plain_def zeros_def word_unat_eq_iff Let_def split: if_splits)
  note facts = binding_from_envelope [OF b]
  have ok: "binding_ok b" and payload: "vb_statement_payload_length b = of_nat (length payload)" "vb_statement_version b = 1"
      "vb_profile_binding b = ae_verifier_profile e" "vb_release_binding b = ae_verifier_release e"
    using b assms(1)
    by (auto simp: binding_ok_def verifier_dispatch_binding_from_envelope_v1_def Let_def verifier_statement_payload_digest_v1_def
        historical_anchor_envelope_digest_v1_def solana_sha256_def envelope_ok_def verifier_account_def proof_account_def example_plain_def
        POOL_V1_HISTORICAL_ANCHOR_VERSION_def split: if_splits)
  obtain request where request: "encode_verifier_dispatch_request_v1 \<lparr> dq_binding = b, dq_statement_payload = payload \<rparr> ?hash = Inr request"
    using facts(11,12) payload assms(4) len
    by (auto simp: encode_verifier_dispatch_request_v1_def Let_def POOL_V1_VERIFIER_DISPATCH_REQUEST_MAX_BYTES_def
        POOL_V1_VERIFIER_DISPATCH_BINDING_PREFIX_BYTES_def POOL_V1_VERIFIER_STATEMENT_PAYLOAD_MAX_BYTES_def)
  then have dec: "decode_verifier_dispatch_request_v1 request ?hash = Inr \<lparr> dq_binding = b, dq_statement_payload = payload \<rparr>"
    using ok by (intro request_wire.dec_enc) (simp_all add: dispatch_request_ok_def)
  obtain result where result: "encode_verifier_dispatch_result_v1 \<lparr> ds_success_code = POOL_V1_VERIFIER_DISPATCH_SUCCESS_CODE, ds_binding = b \<rparr> = Inr result"
    using facts(12) by (auto simp: encode_verifier_dispatch_result_v1_def Let_def)
  show ?thesis
    unfolding verified_def data using b request result dec by (auto simp: accepting_verifier_def)
qed

lemma example_dispatch_ready:
  assumes "digest_ok nullifier" "few leaves" "payload \<noteq> []" "length payload \<le> POOL_V1_VERIFIER_STATEMENT_PAYLOAD_MAX_BYTES"
  shows "dispatch_ready pool_env pool_example_runtime (example_state leaves) pool_key 50 registry_accounts (spend_envelope leaves kind nullifier) payload
    verifier_account proof_account"
proof -
  let ?e = "spend_envelope leaves kind nullifier"
  note e = first_envelope_ok [OF assms(1,2), of kind]
  have sel: "\<exists>sel. authenticate_verifier_selection_v1 pool_env pool_key (ps_verifier_policy (example_state leaves)) registry_accounts
     \<lparr> vs_verifier_program = ac_key verifier_account, vs_profile_binding = ae_verifier_profile ?e, vs_release_binding = ae_verifier_release ?e,
       vs_statement_version = 1 \<rparr> 50 = Inr sel \<and> matches_verifier_owner sel (ac_owner verifier_account)"
    using example_selection [of leaves] by (auto simp: spend_envelope_def matches_verifier_owner_def)
  have "verified (rt_verify pool_example_runtime) (solana_sha256 pool_env) ?e payload verifier_account proof_account"
    using example_verified [OF e(1) _ assms(3,4)] e(2) by (simp add: pool_example_runtime_def is_ok_def)
  with sel show ?thesis
    unfolding dispatch_ready_def
    by (simp add: example_claim) (simp add: readonly_program_def readonly_proof_def verifier_account_def proof_account_def example_plain_def
      supported_verifier_loader_def pool_key_def)
qed

lemma example_dispatch:
  assumes "digest_ok nullifier" "few leaves" "payload \<noteq> []" "length payload \<le> POOL_V1_VERIFIER_STATEMENT_PAYLOAD_MAX_BYTES"
    and claim: "derive_verifier_dispatch_claim_v1 verifier_account proof_account (solana_sha256 pool_env) = Inr claim"
  shows "dispatch_selected_verifier_v1 pool_env pool_example_runtime pool_key (anchor_envelope_image (spend_envelope leaves kind nullifier)) payload
    (example_state leaves) registry_accounts verifier_account proof_account claim 50 = Inr ()"
proof -
  have "ae_pool (spend_envelope leaves kind nullifier) = pool_key"
      "ae_deployment_domain (spend_envelope leaves kind nullifier) = id_deployment_domain (ps_identity (example_state leaves))"
    by (simp_all add: spend_envelope_def example_state_def)
  then show ?thesis
    using dispatch_enabled [OF example_dispatch_ready [OF assms(1-4)] first_envelope_ok [OF assms(1,2), of kind]] claim by auto
qed

lemma spend_payload_length:
  "decode_private_transfer_instruction_v1 data = Inr i \<Longrightarrow> length (pt_statement_payload i) = 216"
  "decode_withdrawal_instruction_v1 data = Inr j \<Longrightarrow> length (wi_statement_payload j) = 216"
  unfolding transfer_instruction_eq withdrawal_instruction_eq transfer_instruction_ok_def withdrawal_instruction_ok_def encode_transfer_eq
    encode_withdrawal_eq
  by (auto simp: transfer_ok_def withdrawal_ok_def layout_defs intro!: statement_image_fields(1))

lemma example_transfer:
  assumes "digest_ok nullifier" "few leaves" "digest_ok recipient" "digest_ok change"
  shows "\<exists>data i accs' receipt. decode_private_transfer_instruction_v1 data = Inr i \<and> pt_envelope i = spend_envelope leaves PrivateTransfer nullifier
    \<and> pt_statement i = transfer_statement_of leaves nullifier recipient change
    \<and> process_private_transfer_with_runtime_v1 pool_env (dispatch_selected_verifier_v1 pool_env pool_example_runtime) (solana_sha256 pool_env)
        pool_program (spend_accounts leaves) data 50 = Inr (accs', receipt)"
proof -
  obtain data i where i: "decode_private_transfer_instruction_v1 data = Inr i" "pt_envelope i = spend_envelope leaves PrivateTransfer nullifier"
      "pt_statement i = transfer_statement_of leaves nullifier recipient change"
    using transfer_wire_exists [OF assms] by blast
  have payload: "pt_statement_payload i \<noteq> []" "length (pt_statement_payload i) \<le> POOL_V1_VERIFIER_STATEMENT_PAYLOAD_MAX_BYTES"
    using spend_payload_length(1) [OF i(1)] by (auto simp: POOL_V1_VERIFIER_STATEMENT_PAYLOAD_MAX_BYTES_def)
  have accs: "length (spend_accounts leaves) = 9" "spend_accounts leaves ! 0 = example_pool leaves" "spend_accounts leaves ! 7 = verifier_account"
      "spend_accounts leaves ! 8 = proof_account" "[spend_accounts leaves ! 5, spend_accounts leaves ! 6] = registry_accounts"
      "ac_key (example_pool leaves) = pool_key"
    by (simp_all add: spend_accounts_def registry_accounts_def example_pool_def example_plain_def)
  have enc: "encode_historical_anchor_envelope_v1 (pt_envelope i) = Inr (anchor_envelope_image (spend_envelope leaves PrivateTransfer nullifier))"
    unfolding i(2) by (rule first_envelope_ok(2) [OF assms(1,2)])
  have "\<exists>accs' receipt. process_private_transfer_with_runtime_v1 pool_env (dispatch_selected_verifier_v1 pool_env pool_example_runtime)
      (solana_sha256 pool_env) pool_program (spend_accounts leaves) data 50 = Inr (accs', receipt)"
  proof (rule transfer_accepted [OF i(1) transfer_ready [OF assms(1,2), folded i(2)] accs(1) _ enc])
    show "ts_asset_id (pt_statement i) = id_asset_id (ps_identity (example_state leaves))" by (simp add: i(3) transfer_statement_of_def example_state_def)
    show claim: "derive_verifier_dispatch_claim_v1 (spend_accounts leaves ! 7) (spend_accounts leaves ! 8) (solana_sha256 pool_env)
        = Inr \<lparr> vc_verifier_program = replicate 32 7,
        vc_proof_account = replicate 32 8, vc_proof_body_digest = solana_sha256 pool_env [[7]], vc_proof_body_length = 1 \<rparr>"
      unfolding accs by (rule example_claim)
    show "dispatch_selected_verifier_v1 pool_env pool_example_runtime (ac_key (spend_accounts leaves ! 0))
        (anchor_envelope_image (spend_envelope leaves PrivateTransfer nullifier)) (pt_statement_payload i) (example_state leaves)
        [spend_accounts leaves ! 5, spend_accounts leaves ! 6] (spend_accounts leaves ! 7) (spend_accounts leaves ! 8)
        \<lparr> vc_verifier_program = replicate 32 7,
        vc_proof_account = replicate 32 8, vc_proof_body_digest = solana_sha256 pool_env [[7]], vc_proof_body_length = 1 \<rparr> 50 = Inr ()"
      unfolding accs using example_dispatch [OF assms(1,2) payload claim [unfolded accs]] by blast
  qed
  with i show ?thesis by blast
qed

section \<open>Token accounts\<close>

definition token_data :: "bytes \<Rightarrow> bytes \<Rightarrow> u64 \<Rightarrow> bytes" where
  "token_data mint authority amount = mint @ authority @ to_le 8 amount @ zeros 36 @ [1] @ zeros 12 @ zeros 8 @ zeros 36"

definition mint_data :: bytes where
  "mint_data = zeros 36 @ to_le 8 (1000 :: u64) @ [6, 1] @ zeros 36"

lemma from_le_zeros: "from_le (replicate n 0) = 0"
  by (induction n) simp_all

lemma parse_token_data:
  assumes "length mint = 32" "length authority = 32"
  shows "parse_legacy_token_account_v1 (token_data mint authority amount) = Inr \<lparr> ta_mint = mint, ta_authority = authority, ta_amount = amount,
     ta_has_delegate = False, ta_is_native = False, ta_delegated_amount = 0, ta_has_close_authority = False \<rparr>"
  using assms
  by (simp add: parse_legacy_token_account_v1_def token_data_def parse_coption_pubkey_def parse_coption_u64_def token_array_def require_zero_def
      seg_def layout_defs zeros_def nth_append from_le_zeros)

lemma parse_mint_data: "parse_legacy_mint_v1 mint_data = Inr \<lparr> lm_supply = 1000, lm_decimals = 6 \<rparr>"
  by (simp add: parse_legacy_mint_v1_def mint_data_def parse_coption_pubkey_def token_array_def require_zero_def
      seg_def layout_defs zeros_def nth_append from_le_zeros)

lemma set_amount_data:
  assumes "length mint = 32" "length authority = 32"
  shows "put 64 (to_le 8 n) (token_data mint authority amount) = token_data mint authority n"
    "seg 64 72 (token_data mint authority amount) = to_le 8 amount"
  using assms by (simp_all add: put_def token_data_def seg_def zeros_def)

definition token_account :: "bytes \<Rightarrow> bytes \<Rightarrow> u64 \<Rightarrow> account" where
  "token_account k authority amount = example_plain k False True False LEGACY_SPL_TOKEN_PROGRAM_ID (token_data mint_key authority amount)"

definition mint_account :: account where
  "mint_account = example_plain mint_key False False False LEGACY_SPL_TOKEN_PROGRAM_ID mint_data"

definition token_program_account :: account where
  "token_program_account = example_plain LEGACY_SPL_TOKEN_PROGRAM_ID False False True (replicate 32 103) []"

definition vault_authority :: account where
  "vault_authority = example_plain (replicate 32 61) False False False (replicate 32 100) []"

definition owner_account :: account where
  "owner_account = example_plain (replicate 32 11) True False False (replicate 32 100) []"

lemma token_program_ok: "require_token_program_account pool_env token_program_account = Inr ()"
  by (simp add: require_token_program_account_def token_program_account_def example_plain_def supported_program_loader_def)

lemmas example_accounts = example_pool_def example_page_def free_marker_def example_payer_def example_system_def registry_accounts_def
  verifier_account_def proof_account_def token_account_def mint_account_def token_program_account_def vault_authority_def owner_account_def
  example_plain_def

lemma token_program_differs:
  "LEGACY_SPL_TOKEN_PROGRAM_ID \<noteq> replicate 32 n" "replicate 32 n \<noteq> LEGACY_SPL_TOKEN_PROGRAM_ID" "LEGACY_SPL_TOKEN_PROGRAM_ID \<noteq> pool_program"
proof -
  have differ: "LEGACY_SPL_TOKEN_PROGRAM_ID ! 0 \<noteq> LEGACY_SPL_TOKEN_PROGRAM_ID ! 1" by (simp add: LEGACY_SPL_TOKEN_PROGRAM_ID_def)
  show other: "LEGACY_SPL_TOKEN_PROGRAM_ID \<noteq> replicate 32 n" for n
  proof
    assume "LEGACY_SPL_TOKEN_PROGRAM_ID = replicate 32 n"
    from arg_cong [OF this, of "\<lambda>xs. xs ! 0"] arg_cong [OF this, of "\<lambda>xs. xs ! 1"] differ show False by simp
  qed
  then show "replicate 32 n \<noteq> LEGACY_SPL_TOKEN_PROGRAM_ID" "LEGACY_SPL_TOKEN_PROGRAM_ID \<noteq> pool_program"
    unfolding pool_program_def by metis+
qed

section \<open>A withdrawal\<close>

definition withdrawal_tokens :: "account list" where
  "withdrawal_tokens = [mint_account, token_account (replicate 32 57) (replicate 32 61) 100, token_account (replicate 32 12) (replicate 32 14) 0,
     vault_authority, token_program_account]"

definition withdraw_accounts :: "digest list \<Rightarrow> account list" where
  "withdraw_accounts leaves = spend_accounts leaves @ withdrawal_tokens"

abbreviation withdrawal_accounts :: "account list" where "withdrawal_accounts \<equiv> withdraw_accounts []"

definition withdrawal_statement_of :: "digest list \<Rightarrow> digest \<Rightarrow> digest \<Rightarrow> withdrawal_statement" where
  "withdrawal_statement_of leaves nullifier change = \<lparr> ws_pool = pool_key, ws_deployment_domain = replicate 32 20,
     ws_anchor_sequence = of_nat (length leaves), ws_anchor_root = root_after leaves (length leaves), ws_nullifier = nullifier, ws_asset_id = M31 7,
     ws_amount = 40, ws_destination_token_account = replicate 32 12, ws_change_commitment = change \<rparr>"

lemma withdrawal_wire_exists:
  assumes "digest_ok nullifier" "few leaves" "digest_ok change"
  shows "\<exists>data i. decode_withdrawal_instruction_v1 data = Inr i \<and> wi_envelope i = spend_envelope leaves Withdrawal nullifier
    \<and> wi_statement i = withdrawal_statement_of leaves nullifier change"
proof -
  note root = root_ok [OF assms(2), of "length leaves"]
  obtain payload where payload: "encode_withdrawal_statement (withdrawal_statement_of leaves nullifier change) = Inr payload"
    unfolding encode_withdrawal_eq using assms root
    by (auto simp: common_canonical_def withdrawal_common_def withdrawal_statement_of_def canon_def M31_P_def canonical_digest_iff digest_ok_def)
  let ?i = "\<lparr> wi_envelope = spend_envelope leaves Withdrawal nullifier, wi_statement = withdrawal_statement_of leaves nullifier change,
    wi_statement_payload = payload \<rparr>"
  have "withdrawal_instruction_ok ?i"
    using assms payload first_envelope_ok [OF assms(1,2)] root
    by (simp add: withdrawal_instruction_ok_def withdrawal_ok_def common_ok_def withdrawal_common_def withdrawal_statement_of_def pool_key_def digest_ok_def)
  moreover obtain data where "encode_withdrawal_instruction_v1 (wi_envelope ?i) (wi_statement ?i) = Inr data"
    using payload first_envelope_ok(2) [OF assms(1,2), of Withdrawal] assms(3)
    by (auto simp: encode_withdrawal_instruction_v1_def require_envelope_statement_match_def spend_envelope_def [of _ Withdrawal]
        withdrawal_statement_of_def canonical_digest_iff digest_ok_def VALUE_LIMIT_def zeros_def)
  ultimately show ?thesis unfolding withdrawal_instruction_eq by (intro exI [of _ data] exI [of _ ?i]) simp
qed

lemma withdrawal_ready:
  assumes "digest_ok nullifier" "few leaves"
  shows "spend_ready pool_env pool_program (example_state leaves) leaves (spend_envelope leaves Withdrawal nullifier) 1 (withdraw_accounts leaves)"
proof -
  have "distinct (map ac_key (withdraw_accounts leaves))"
    using token_program_differs by (simp add: withdraw_accounts_def withdrawal_tokens_def spend_accounts_def example_accounts mint_key_def pool_key_def)
  then show ?thesis unfolding withdraw_accounts_def by (intro example_spend_ready assms) simp_all
qed

lemma withdrawal_plan:
  "\<exists>plan. plan_legacy_withdrawal_transfer_v1 pool_env pool_program pool_key (example_state leaves) withdrawal_tokens (replicate 32 12) 40 = Inr plan
    \<and> seg 1 9 (ix_data (wp_instruction plan)) = to_le 8 (40 :: u64) \<and> wp_mint plan = mint_key \<and> wp_vault plan = replicate 32 57
    \<and> wp_destination plan = replicate 32 12 \<and> wp_authority plan = replicate 32 61 \<and> wp_vault_after plan = 60 \<and> wp_destination_after plan = 40"
  using token_program_differs
  by (simp add: plan_legacy_withdrawal_transfer_v1_def plan_legacy_withdrawal_transfer_from_identity_v1_def withdrawal_tokens_def
      exact_five_withdrawal_accounts_def example_state_def token_program_rejected_def require_token_owned_account_def example_accounts
      parse_mint_data parse_token_data mint_key_def [THEN arg_cong, of length] Let_def example_addresses checked_sub_def checked_add_def ok_or_def transfer_checked_data_def seg_def)
    (simp add: mint_key_def)

lemma example_withdrawal:
  assumes "digest_ok nullifier" "few leaves" "digest_ok change"
  shows "\<exists>data i accs' receipt. decode_withdrawal_instruction_v1 data = Inr i \<and> wi_envelope i = spend_envelope leaves Withdrawal nullifier
    \<and> wi_statement i = withdrawal_statement_of leaves nullifier change
    \<and> process_withdrawal_with_runtime_v1 pool_env pool_example_runtime (dispatch_selected_verifier_v1 pool_env pool_example_runtime)
        (solana_sha256 pool_env) pool_program (withdraw_accounts leaves) data 50 = Inr (accs', receipt)"
proof -
  obtain data i where i: "decode_withdrawal_instruction_v1 data = Inr i" "wi_envelope i = spend_envelope leaves Withdrawal nullifier"
      "wi_statement i = withdrawal_statement_of leaves nullifier change"
    using withdrawal_wire_exists [OF assms] by blast
  have payload: "wi_statement_payload i \<noteq> []" "length (wi_statement_payload i) \<le> POOL_V1_VERIFIER_STATEMENT_PAYLOAD_MAX_BYTES"
    using spend_payload_length(2) [OF i(1)] by (auto simp: POOL_V1_VERIFIER_STATEMENT_PAYLOAD_MAX_BYTES_def)
  have accs: "length (withdraw_accounts leaves) = 14" "withdraw_accounts leaves ! 0 = example_pool leaves" "withdraw_accounts leaves ! 7 = verifier_account"
      "withdraw_accounts leaves ! 8 = proof_account" "[withdraw_accounts leaves ! 5, withdraw_accounts leaves ! 6] = registry_accounts"
      "withdraw_accounts leaves ! 9 = mint_account" "withdraw_accounts leaves ! 10 = token_account (replicate 32 57) (replicate 32 61) 100"
      "withdraw_accounts leaves ! 11 = token_account (replicate 32 12) (replicate 32 14) 0" "withdraw_accounts leaves ! 12 = vault_authority"
      "withdraw_accounts leaves ! 13 = token_program_account" "drop 9 (withdraw_accounts leaves) = withdrawal_tokens" "ac_key (example_pool leaves) = pool_key"
    by (simp_all add: withdraw_accounts_def withdrawal_tokens_def spend_accounts_def registry_accounts_def example_pool_def example_plain_def)
  have enc: "encode_historical_anchor_envelope_v1 (wi_envelope i) = Inr (anchor_envelope_image (spend_envelope leaves Withdrawal nullifier))"
    unfolding i(2) by (rule first_envelope_ok(2) [OF assms(1,2)])
  obtain plan where plan: "plan_legacy_withdrawal_transfer_v1 pool_env pool_program pool_key (example_state leaves) withdrawal_tokens (replicate 32 12) 40 = Inr plan"
    and ix: "seg 1 9 (ix_data (wp_instruction plan)) = to_le 8 (40 :: u64)"
    and after: "wp_mint plan = mint_key" "wp_vault plan = replicate 32 57" "wp_destination plan = replicate 32 12" "wp_authority plan = replicate 32 61"
      "wp_vault_after plan = 60" "wp_destination_after plan = 40"
    using withdrawal_plan by blast
  have mint: "length mint_key = 32" by (simp add: mint_key_def)
  let ?v = "token_account (replicate 32 57) (replicate 32 61) 60" and ?d = "token_account (replicate 32 12) (replicate 32 14) 40"
  have moved: "rt_transfer_signed pool_example_runtime (wp_instruction plan) (token_account (replicate 32 57) (replicate 32 61) 100, mint_account,
      token_account (replicate 32 12) (replicate 32 14) 0, vault_authority, token_program_account) seeds
      = Inr (?v, mint_account, ?d, vault_authority, token_program_account)" for seeds
    using token_program_differs(3)
    by (simp add: pool_example_runtime_def token_move_def ix [unfolded One_nat_def] Let_def amount_of_def set_amount_def token_account_def example_plain_def set_amount_data mint)
  have delta: "validate_exact_withdrawal_delta_v1 [mint_account, ?v, ?d, vault_authority, token_program_account] plan = Inr ()"
    using token_program_differs(2)
    by (simp add: validate_exact_withdrawal_delta_v1_def exact_five_withdrawal_accounts_def mint_account_def token_account_def vault_authority_def
        token_program_account_def example_plain_def parse_token_data mint after) (simp add: mint_key_def)
  have "\<exists>accs' receipt. process_withdrawal_with_runtime_v1 pool_env pool_example_runtime (dispatch_selected_verifier_v1 pool_env pool_example_runtime)
      (solana_sha256 pool_env) pool_program (withdraw_accounts leaves) data 50 = Inr (accs', receipt)"
  proof (rule withdrawal_accepted [OF i(1) withdrawal_ready [OF assms(1,2), folded i(2)] accs(1) _ enc, where plan = plan and v = ?v and m = mint_account
        and d = ?d and a = vault_authority and p = token_program_account])
    show "ws_asset_id (wi_statement i) = id_asset_id (ps_identity (example_state leaves))" by (simp add: i(3) withdrawal_statement_of_def example_state_def)
    show claim: "derive_verifier_dispatch_claim_v1 (withdraw_accounts leaves ! 7) (withdraw_accounts leaves ! 8) (solana_sha256 pool_env) = Inr \<lparr> vc_verifier_program = replicate 32 7,
        vc_proof_account = replicate 32 8, vc_proof_body_digest = solana_sha256 pool_env [[7]], vc_proof_body_length = 1 \<rparr>"
      unfolding accs by (rule example_claim)
    show "dispatch_selected_verifier_v1 pool_env pool_example_runtime (ac_key (withdraw_accounts leaves ! 0))
        (anchor_envelope_image (spend_envelope leaves Withdrawal nullifier)) (wi_statement_payload i) (example_state leaves)
        [withdraw_accounts leaves ! 5, withdraw_accounts leaves ! 6] (withdraw_accounts leaves ! 7) (withdraw_accounts leaves ! 8) \<lparr> vc_verifier_program = replicate 32 7,
        vc_proof_account = replicate 32 8, vc_proof_body_digest = solana_sha256 pool_env [[7]], vc_proof_body_length = 1 \<rparr> 50 = Inr ()"
      unfolding accs using example_dispatch [OF assms(1,2) payload claim [unfolded accs]] by blast
    show "plan_legacy_withdrawal_transfer_v1 pool_env pool_program (ac_key (withdraw_accounts leaves ! 0)) (example_state leaves) (drop 9 (withdraw_accounts leaves))
        (ws_destination_token_account (wi_statement i)) (ws_amount (wi_statement i)) = Inr plan"
      unfolding accs i(3) using plan by (simp add: withdrawal_statement_of_def)
  qed (simp_all only: accs token_program_ok moved delta)
  with i show ?thesis by blast
qed

section \<open>A deposit\<close>

definition deposit_accounts :: "account list" where
  "deposit_accounts = [first_pool, first_page, mint_account, token_account (replicate 32 10) (replicate 32 11) 70, owner_account,
     token_account (replicate 32 57) (replicate 32 61) 100, token_program_account]"

definition example_request :: deposit_request where
  "example_request = \<lparr> rq_owner_key = derive_owner_key (example_digest 1), rq_amount = 70, rq_salt = example_digest 2, rq_encrypted_note_payload = [1, 2, 3] \<rparr>"

lemma owner_key_ok: "digest_ok nullifier_key \<Longrightarrow> digest_ok (derive_owner_key nullifier_key)"
  using hash_fields_eq(2,3) [of DOMAIN_OWNER_KEY nullifier_key]
  by (simp add: derive_owner_key_def derive_owner_key_with_def digest_ok_def DOMAIN_OWNER_KEY_def canon_def M31_P_def)

lemma example_deposit:
  "\<exists>data accs' out. decode_deposit_top_level_v1 data = Inr example_request
    \<and> process_deposit_with_runtime_v1 pool_env pool_example_runtime pool_program deposit_accounts data = Inr (accs', out)"
proof -
  have key: "digest_ok (derive_owner_key (example_digest 1))" by (rule owner_key_ok) simp
  have ok: "request_ok example_request" using key by (simp add: request_ok_def example_request_def digest_ok_def example_digest_def)
  obtain data where "encode_deposit_instruction_v1 example_request = Inr data"
    using key example_digest_ok [of 2]
    by (auto simp: encode_deposit_instruction_v1_def example_request_def VALUE_LIMIT_def layout_defs canonical_digest_iff digest_ok_def)
  with ok have data: "decode_deposit_top_level_v1 data = Inr example_request"
    using instruction_codec.dec_enc by (simp add: decode_deposit_top_level_v1_def)
  have mint: "length mint_key = 32" by (simp add: mint_key_def)
  let ?so = "token_account (replicate 32 10) (replicate 32 11)" and ?v = "token_account (replicate 32 57) (replicate 32 61)"
  have ready: "append_ready pool_env pool_program first_state [] 1 first_pool first_page"
    using first_holds example_addresses(1,2)
    by (simp add: append_ready_def program_account_def page_holds_def example_pool_def example_page_def example_plain_def)
      (simp add: example_state_def example_addresses pool_key_def)
  have dist: "distinct (map ac_key deposit_accounts)"
    using token_program_differs by (simp add: deposit_accounts_def example_accounts mint_key_def pool_key_def)
  obtain plan where plan: "plan_legacy_deposit_transfer_v1 pool_env pool_program pool_key first_state
      [mint_account, ?so 70, owner_account, ?v 100, token_program_account] 70 = Inr plan"
    and ix: "seg 1 9 (ix_data (dp_instruction plan)) = to_le 8 (70 :: u64)"
    and after: "dp_mint plan = mint_key" "dp_source plan = replicate 32 10" "dp_vault plan = replicate 32 57" "dp_authority plan = replicate 32 11"
      "dp_source_after plan = 0" "dp_vault_after plan = 170"
    using token_program_differs dist
    by (simp add: plan_legacy_deposit_transfer_v1_def plan_legacy_deposit_transfer_from_identity_v1_def deposit_accounts_def
        exact_five_accounts_def example_state_def token_program_rejected_def require_token_owned_account_def example_accounts
        parse_mint_data parse_token_data mint Let_def example_addresses checked_sub_def checked_add_def ok_or_def transfer_checked_data_def seg_def)
  have moved: "rt_transfer pool_example_runtime (dp_instruction plan) (?so 70, mint_account, ?v 100, owner_account, token_program_account)
      = Inr (?so 0, mint_account, ?v 170, owner_account, token_program_account)"
    using token_program_differs(3)
    by (simp add: pool_example_runtime_def token_move_def ix [unfolded One_nat_def] Let_def amount_of_def set_amount_def token_account_def example_plain_def set_amount_data mint)
  have delta: "validate_exact_deposit_delta_v1 [mint_account, ?so 0, owner_account, ?v 170, token_program_account] plan = Inr ()"
    using token_program_differs(2)
    by (simp add: validate_exact_deposit_delta_v1_def exact_five_accounts_def mint_account_def token_account_def owner_account_def
        token_program_account_def example_plain_def parse_token_data mint after) (simp add: mint_key_def)
  have amount: "rq_amount example_request = 70" and at: "ac_key first_pool = pool_key" by (simp_all add: example_request_def example_pool_def example_plain_def)
  have "\<exists>accs' out. process_deposit_with_runtime_v1 pool_env pool_example_runtime pool_program deposit_accounts data = Inr (accs', out)"
    unfolding deposit_accounts_def
    by (rule deposit_accepted [OF data ready dist [unfolded deposit_accounts_def] token_program_ok plan [folded amount at] moved delta])
      (simp_all add: example_pool_def token_account_def example_plain_def pool_key_def example_state_def mint_key_def zeros_def)
  with data show ?thesis by blast
qed

section \<open>An initialization\<close>

definition example_initialization :: "bytes \<Rightarrow> pool_initialization" where
  "example_initialization domain = \<lparr> pi_asset_mint = mint_key, pi_token_program = LEGACY_SPL_TOKEN_PROGRAM_ID, pi_asset_id = M31 7,
     pi_deployment_domain = domain, pi_verifier_policy = ps_verifier_policy first_state \<rparr>"

text \<open>The pool account is made by the call; the page and the vault exist already.\<close>

definition fresh_accounts :: "account list" where
  "fresh_accounts = [example_payer, example_plain pool_key False True False (replicate 32 100) [],
     example_plain (replicate 32 63) False True False pool_program (zeros POOL_V1_ROOT_HISTORY_PAGE_ACCOUNT_BYTES),
     mint_account, token_account (replicate 32 57) (replicate 32 61) 0, token_program_account, example_system]"

lemma example_policy: "validate_verifier_policy_v1 (ps_verifier_policy first_state) = Inr ()"
  by (simp add: example_state_def validate_verifier_policy_v1_def zeros_def)

lemma example_genesis:
  "\<exists>g. pool_genesis pool_key (example_initialization domain) = Inr g \<and> validate_encoding g = Inr ()"
  using example_policy
  by (auto simp: pool_genesis_def example_initialization_def M31_P_def validate_encoding_def Let_def in_set_enumerate_eq)

lemma example_creates:
  "pool_create_or_allocate_pda pool_env example_payer (example_plain pool_key False True False (replicate 32 100) []) example_system n pool_program seeds
   = Inr (example_payer, (example_plain pool_key False True False pool_program (zeros (unat (of_nat n :: u64))))\<lparr> ac_lamports := 1000 \<rparr>, example_system)"
  by (simp add: pool_create_or_allocate_pda_def create_or_allocate_pda_with_rent_def pool_env_def example_env_def example_payer_def example_system_def
      example_plain_def Let_def)

lemma example_initialize_pool:
  assumes "length domain = 32"
  shows "\<exists>data accs' out. decode_initialize_instruction_v1 data = Inr (example_initialization domain)
    \<and> process_initialize_with_runtime_v1 pool_env pool_example_runtime pool_program fresh_accounts data = Inr (accs', out)"
proof -
  have "initialization_ok (example_initialization domain)"
    using assms by (simp add: initialization_ok_def example_initialization_def mint_key_def example_state_def policy_ok_def)
  moreover obtain data where "encode_initialize_instruction_v1 (example_initialization domain) = Inr data"
    using example_policy by (auto simp: encode_initialize_instruction_v1_def encode_verifier_policy_v1_def example_initialization_def M31_P_def)
  ultimately have data: "decode_initialize_instruction_v1 data = Inr (example_initialization domain)" by (rule initialize_codec.dec_enc)
  have dist: "distinct (map ac_key fresh_accounts)"
    using token_program_differs by (simp add: fresh_accounts_def example_accounts mint_key_def pool_key_def)
  obtain g where g: "pool_genesis pool_key (example_initialization domain) = Inr g" "validate_encoding g = Inr ()" using example_genesis by blast
  have mint: "pi_asset_mint (example_initialization domain) = mint_key" "length mint_key = 32" by (simp_all add: example_initialization_def mint_key_def)
  have state: "pool_v1_state_address pool_env pool_program mint_key = (pool_key, 255)"
      "pool_v1_root_page_address pool_env pool_program pool_key 0 = (replicate 32 63, 255)"
    using example_addresses(1,2) [of pool_program] by (simp_all add: pool_v1_state_address_def pool_v1_root_page_address_def)
  let ?pool = "example_plain pool_key False True False (replicate 32 100) []"
  let ?page = "example_plain (replicate 32 63) False True False pool_program (zeros POOL_V1_ROOT_HISTORY_PAGE_ACCOUNT_BYTES)"
  let ?made = "(example_plain pool_key False True False pool_program (zeros 1000))\<lparr> ac_lamports := 1000 \<rparr>"
  let ?vault = "token_account (replicate 32 57) (replicate 32 61) 0"
  have other: "pool_program \<noteq> replicate 32 100" "pool_key \<noteq> replicate 32 63" by (simp_all add: pool_program_def pool_key_def)
  have bytes: "POOL_V1_STATE_ACCOUNT_BYTES = 1000" "unat (of_nat 1000 :: u64) = 1000" by (simp_all add: layout_defs)
  have keys: "ac_key ?pool = pool_key" "ac_key mint_account = mint_key" "ac_key (example_plain pool_key False True False pool_program d) = pool_key" for d by (simp_all add: mint_account_def example_plain_def)
  have plans: "pool_plan_fresh_program_pda pool_env ?pool pool_program pool_key POOL_V1_STATE_ACCOUNT_BYTES = Inr PoolCreateOrAllocateSystemOwned"
      "pool_plan_fresh_program_pda pool_env ?page pool_program (replicate 32 63) POOL_V1_ROOT_HISTORY_PAGE_ACCOUNT_BYTES = Inr PoolProgramOwnedZeroed"
    using other by (auto simp: pool_plan_fresh_program_pda_def example_plain_def zeros_def)
  have vault: "plan_vault_initialization pool_env pool_program pool_key mint_key ?vault = Inr VaultInitializedEmpty"
    using token_program_differs
    by (simp add: plan_vault_initialization_def require_initialized_empty_vault_def example_addresses token_account_def example_plain_def parse_token_data mint)
  have pay: "pool_require_payer_and_system_program pool_env example_payer example_system = Inr ()"
    by (simp add: example_payer_def example_system_def example_plain_def)
  have init: "\<exists>a b. initialize_pool_accounts_v1 pool_env pool_program [?made, ?page] (example_initialization domain) = Inr [a, b]"
    using g other by (simp add: initialize_pool_accounts_v1_def require_program_account_def mint state example_plain_def bytes zeros_def)
  then obtain a b where init: "initialize_pool_accounts_v1 pool_env pool_program [?made, ?page] (example_initialization domain) = Inr [a, b]" by blast
  have mint_ok: "ac_owner mint_account = LEGACY_SPL_TOKEN_PROGRAM_ID" "\<not> ac_executable mint_account" "\<not> ac_is_signer mint_account"
      "\<not> ac_is_writable mint_account" "parse_legacy_mint_v1 (ac_data mint_account) = Inr \<lparr> lm_supply = 1000, lm_decimals = 6 \<rparr>"
    by (simp_all add: mint_account_def example_plain_def parse_mint_data)
  have unique: "pool_require_unique_accounts fresh_accounts = Inr ()" using dist by simp
  have made: "pool_create_or_allocate_pda pool_env example_payer ?pool example_system POOL_V1_STATE_ACCOUNT_BYTES pool_program seeds
      = Inr (example_payer, ?made, example_system)" for seeds
    unfolding bytes example_creates bytes(2) ..
  show ?thesis
    using data unique [unfolded fresh_accounts_def] token_program_ok g pay plans vault init mint_ok
    by (intro exI [of _ data])
      (simp add: process_initialize_with_runtime_v1_def fresh_accounts_def instruction_error_def mint keys state create_program_pda_if_needed_def made
        initialize_vault_account_def Let_def)
qed

section \<open>The ledger\<close>

definition listed :: "account list \<Rightarrow> ledger" where
  "listed accs = map_of (map (\<lambda>a. (ac_key a, a)) accs)"

lemma listed_at: "distinct (map ac_key accs) \<Longrightarrow> a \<in> set accs \<Longrightarrow> listed accs (ac_key a) = Some a"
  by (auto simp: listed_def comp_def intro!: map_of_is_SomeI)

lemma listed_member: "listed accs x = Some a \<Longrightarrow> a \<in> set accs \<and> x = ac_key a"
  by (auto simp: listed_def dest!: map_of_SomeD)

lemma listed_view: "distinct (map ac_key accs) \<Longrightarrow> accounts_of (listed accs) accs"
proof -
  assume dist: "distinct (map ac_key accs)"
  have "list_all2 (\<lambda>m a. account_info (listed accs) m = Some a) (map (\<lambda>a. (ac_key a, ac_is_signer a, ac_is_writable a)) accs) accs"
    using listed_at [OF dist] by (simp add: list_all2_conv_all_nth account_info_def)
  then show ?thesis unfolding accounts_of_def by blast
qed

abbreviation spend_ledger :: ledger where
  "spend_ledger \<equiv> listed transfer_accounts"

lemma transfer_keys: "distinct (map ac_key transfer_accounts)" "\<forall>a \<in> set transfer_accounts. length (ac_key a) = 32"
  by (simp_all add: spend_accounts_def example_accounts pool_key_def)

lemmas spend_ledger_at = listed_at [OF transfer_keys(1)]
  and spend_ledger_view = listed_view [OF transfer_keys(1)]

lemma example_pool_at: "pool_at pool_env pool_program spend_ledger pool_key first_state []"
proof -
  have "first_pool \<in> set transfer_accounts" "first_page \<in> set transfer_accounts" by (simp_all add: spend_accounts_def)
  from this [THEN spend_ledger_at] show ?thesis
    using first_holds by (simp add: pool_at_def example_addresses example_pool_def example_page_def example_plain_def)
qed

lemma example_ledger_ok: "ledger_ok pool_env pool_program spend_ledger"
  unfolding ledger_ok_def
proof (intro allI impI)
  fix k a assume "spend_ledger k = Some a" "ac_owner a = pool_program" "state_account k a"
  then have "a \<in> set transfer_accounts" "k = ac_key a" "length (ac_data a) = 1000"
    using state_account_data(1) listed_member by blast+
  with \<open>ac_owner a = pool_program\<close> have "k = pool_key"
    using length_history_page [OF state_holds_facts(1) [OF first_holds], of pool_key 0]
    by (auto simp: spend_accounts_def example_accounts pool_program_def layout_defs pool_key_def)
  with example_pool_at show "\<exists>s leaves. pool_at pool_env pool_program spend_ledger k s leaves" by blast
qed

lemma written_view: "distinct (map ac_key accs) \<Longrightarrow> accounts_of (write_back L accs) accs"
proof -
  assume dist: "distinct (map ac_key accs)"
  have "list_all2 (\<lambda>m a. account_info (write_back L accs) m = Some a) (map (\<lambda>a. (ac_key a, ac_is_signer a, ac_is_writable a)) accs) accs"
    using written_at [OF dist refl] by (simp add: list_all2_conv_all_nth account_info_def)
  then show ?thesis unfolding accounts_of_def by blast
qed

text \<open>The accounts of each example call hold the first state of the pool and its first page.\<close>

lemma example_pages:
  assumes "few leaves" "\<forall>a \<in> set accounts. ac_key a = replicate 32 63 \<longrightarrow> a = example_page leaves"
  shows "pages_hold pool_env pool_program pool_key leaves accounts"
  using assms by (auto simp: few_def pages_hold_def page_holds_def example_addresses example_page_def example_plain_def)

lemma example_holds:
  assumes "few leaves" "accounts \<in> {spend_accounts leaves, withdraw_accounts leaves}"
  shows "state_holds (accounts ! 0) (example_state leaves) leaves" "pages_hold pool_env pool_program (ac_key (accounts ! 0)) leaves accounts"
proof -
  have head: "accounts ! 0 = example_pool leaves" "ac_key (example_pool leaves) = pool_key"
    using assms(2) by (auto simp: withdraw_accounts_def spend_accounts_def example_pool_def example_plain_def)
  then show "state_holds (accounts ! 0) (example_state leaves) leaves" using example_state_holds [OF assms(1)] by simp
  show "pages_hold pool_env pool_program (ac_key (accounts ! 0)) leaves accounts"
    unfolding head using assms token_program_differs
    by (intro example_pages) (auto simp: withdraw_accounts_def withdrawal_tokens_def spend_accounts_def example_accounts pool_key_def mint_key_def)
qed

lemma deposit_holds:
  "state_holds (deposit_accounts ! 0) first_state []" "pages_hold pool_env pool_program (ac_key (deposit_accounts ! 0)) [] deposit_accounts"
proof -
  have head: "deposit_accounts ! 0 = first_pool" "ac_key first_pool = pool_key"
    by (simp_all add: deposit_accounts_def example_pool_def example_plain_def)
  then show "state_holds (deposit_accounts ! 0) first_state []" using first_holds by simp
  show "pages_hold pool_env pool_program (ac_key (deposit_accounts ! 0)) [] deposit_accounts"
    unfolding head using token_program_differs by (intro example_pages) (auto simp: deposit_accounts_def example_accounts pool_key_def mint_key_def)
qed

text \<open>No spend of a pool with the all-zero deployment domain succeeds, since an envelope must name a nonzero domain.\<close>

lemma zero_domain_refused:
  assumes holds: "state_holds (accs ! 0) s leaves" and zero: "id_deployment_domain (ps_identity s) = zeros 32"
  shows "\<not> spend_call env runtime pid accs e accs'"
proof
  assume "spend_call env runtime pid accs e accs'"
  then show False
  proof cases
    case (transfer data slot out i)
    from transfer(2) show False
    proof (rule transfer_run)
      fix j :: private_transfer_instruction and c encoded
      assume j: "decode_private_transfer_instruction_v1 data = Inr j" "decode_account env pid (accs ! 0) = Inr c"
        "validate_spend_binding_v1 (accs ! 0) (cp_state c) PrivateTransfer (ae_transition_kind (pt_envelope j)) (ts_pool (pt_statement j))
           (ts_deployment_domain (pt_statement j)) (ts_asset_id (pt_statement j)) = Inr ()"
        "encode_historical_anchor_envelope_v1 (pt_envelope j) = Inr encoded"
      show False
        using j(3,4) decoded_transfer_facts(3) [OF j(1)] zero decoded_source(1) [OF holds disjI1 [OF j(2)]]
        by (auto simp: validate_spend_binding_v1_def encode_historical_anchor_envelope_v1_def validate_historical_anchor_envelope_v1_def split: if_splits)
    qed
  next
    case (withdrawal data slot out i)
    from withdrawal(2) show False
    proof (rule withdrawal_run)
      fix j :: withdrawal_instruction and c encoded
      assume j: "decode_withdrawal_instruction_v1 data = Inr j" "decode_account env pid (accs ! 0) = Inr c"
        "validate_spend_binding_v1 (accs ! 0) (cp_state c) Withdrawal (ae_transition_kind (wi_envelope j)) (ws_pool (wi_statement j))
           (ws_deployment_domain (wi_statement j)) (ws_asset_id (wi_statement j)) = Inr ()"
        "encode_historical_anchor_envelope_v1 (wi_envelope j) = Inr encoded"
      show False
        using j(3,4) decoded_withdrawal_facts(3) [OF j(1)] zero decoded_source(1) [OF holds disjI1 [OF j(2)]]
        by (auto simp: validate_spend_binding_v1_def encode_historical_anchor_envelope_v1_def validate_historical_anchor_envelope_v1_def split: if_splits)
    qed
  qed
qed

lemma created_run:
  assumes "process_initialize_with_runtime_v1 env runtime pid accounts data = Inr (accounts', out)" "decode_initialize_instruction_v1 data = Inr init"
    and "accounts_of L accounts" "\<forall>a \<in> set accounts. length (ac_key a) = 32"
    and "ledger_ok env pid L" "system_calls_ok env pid" "token_calls_ok runtime pid"
    and "(pool_step env runtime pid)\<^sup>*\<^sup>* (write_back L accounts') M"
  shows "\<exists>s leaves. pool_at env pid M (ac_key (accounts ! 1)) s leaves \<and> id_deployment_domain (ps_identity s) = pi_deployment_domain init"
proof -
  obtain s where created: "pool_created env pid init s accounts accounts'"
    using initialize_handler [OF assms(1,4,6,7)] assms(2) by auto
  have step: "pool_step env runtime pid L (write_back L accounts')"
    using assms(1,3,4) by (intro pool_step.call pool_call.initialize)
  have ok: "ledger_ok env pid (write_back L accounts')"
    using run_checked [OF r_into_rtranclp [of "pool_step env runtime pid", OF step] assms(5-7)] by blast
  obtain s' leaves where "pool_at env pid M (ac_key (accounts ! 1)) s' leaves" "pool_evolves (s, []) (s', leaves)"
    using run_pool [OF assms(8) ok assms(6,7) created_ledger(1) [OF assms(3) created refl]] by blast
  then show ?thesis using created by (auto simp: pool_evolves_def pool_created_def)
qed

lemma zero_domain_locks:
  assumes "process_initialize_with_runtime_v1 env runtime pid accounts data = Inr (accounts', out)" "decode_initialize_instruction_v1 data = Inr init"
    and "pi_deployment_domain init = zeros 32" "accounts_of L accounts" "\<forall>a \<in> set accounts. length (ac_key a) = 32"
    and "ledger_ok env pid L" "system_calls_ok env pid" "token_calls_ok runtime pid"
    and "(pool_step env runtime pid)\<^sup>*\<^sup>* (write_back L accounts') M" "accounts_of M accs" "accs \<noteq> []" "ac_key (accs ! 0) = ac_key (accounts ! 1)"
  shows "\<not> spend_call env runtime pid accs e accs'"
proof -
  obtain s leaves where "pool_at env pid M (ac_key (accs ! 0)) s leaves" "id_deployment_domain (ps_identity s) = zeros 32"
    using created_run [OF assms(1,2,4-9)] assms(3,12) by auto
  with pool_at_view(1) [OF this(1) assms(10,11)] show ?thesis by (intro zero_domain_refused)
qed

lemma fresh_keys: "distinct (map ac_key fresh_accounts)" "\<forall>a \<in> set fresh_accounts. length (ac_key a) = 32"
  using token_program_differs by (simp_all add: fresh_accounts_def example_accounts mint_key_def pool_key_def LEGACY_SPL_TOKEN_PROGRAM_ID_def)

lemma fresh_ledger_ok: "ledger_ok pool_env pool_program (listed fresh_accounts)"
proof (rule empty_ledger_ok)
  fix x b assume b: "listed fresh_accounts x = Some b" "ac_owner b = pool_program"
  from this(2) listed_member [OF b(1)] show "blank b"
    using token_program_differs(3) by (auto simp: fresh_accounts_def example_accounts pool_program_def blank_def zeros_def)
qed

end
