(* ===== verification/PaymentRelation.thy ===== *)
theory PaymentRelation
  imports PoolInstruction Deposit
begin

text \<open>
  The payment relations of \<open>crates/aspis-statement/src/pool_v1/payment_relation.rs\<close>: what the proof behind a private transfer or
  a withdrawal states. A public statement with its 216-byte wire, a private witness with an authentication path, and the
  evaluators that decide the relation without a proof. The statement a spend instruction of the pool carries is shown to be the
  statement of the relation; the evaluators decide a relation over natural numbers in which value is conserved; and paths
  are related to the note tree: every leaf has one, and an accepted path ends at the leaf of its index or exhibits a collision.
\<close>

section \<open>Layout and data\<close>

definition POOL_V1_PAYMENT_STATEMENT_BYTES :: nat where [layout_defs]: "POOL_V1_PAYMENT_STATEMENT_BYTES = 216"
definition POOL_V1_PAYMENT_STATEMENT_VERSION :: u8 where [layout_defs]: "POOL_V1_PAYMENT_STATEMENT_VERSION = 1"
definition POOL_V1_CANONICAL_FEE :: u32 where [layout_defs]: "POOL_V1_CANONICAL_FEE = 0"
definition PAYMENT_POOL_OFFSET :: nat where [layout_defs]: "PAYMENT_POOL_OFFSET = 8"
definition DEPLOYMENT_DOMAIN_OFFSET :: nat where [layout_defs]: "DEPLOYMENT_DOMAIN_OFFSET = 40"
definition ANCHOR_SEQUENCE_OFFSET :: nat where [layout_defs]: "ANCHOR_SEQUENCE_OFFSET = 72"
definition ANCHOR_ROOT_OFFSET :: nat where [layout_defs]: "ANCHOR_ROOT_OFFSET = 80"
definition PAYMENT_NULLIFIER_OFFSET :: nat where [layout_defs]: "PAYMENT_NULLIFIER_OFFSET = 112"
definition ASSET_ID_OFFSET :: nat where [layout_defs]: "ASSET_ID_OFFSET = 144"
definition AMOUNT_OR_RESERVED_OFFSET :: nat where [layout_defs]: "AMOUNT_OR_RESERVED_OFFSET = 148"
definition FIRST_OUTPUT_OR_DESTINATION_OFFSET :: nat where [layout_defs]: "FIRST_OUTPUT_OR_DESTINATION_OFFSET = 152"
definition SECOND_OUTPUT_OFFSET :: nat where [layout_defs]: "SECOND_OUTPUT_OFFSET = 184"

record private_transfer_public =
  tp_pool :: bytes
  tp_deployment_domain :: bytes
  tp_anchor_sequence :: u64
  tp_anchor_root :: digest
  tp_nullifier :: digest
  tp_asset_id :: m31
  tp_recipient_commitment :: digest
  tp_change_commitment :: digest

record withdrawal_public =
  wq_pool :: bytes
  wq_deployment_domain :: bytes
  wq_anchor_sequence :: u64
  wq_anchor_root :: digest
  wq_nullifier :: digest
  wq_asset_id :: m31
  wq_amount :: u32
  wq_destination_token_account :: bytes
  wq_change_commitment :: digest

record membership_witness =
  mw_siblings :: "digest list"
  mw_index :: u32

record input_note_witness =
  iw_nullifier_key :: digest
  iw_salt :: digest
  iw_value :: u32
  iw_membership :: membership_witness

record output_note_witness =
  ow_owner_key :: digest
  ow_salt :: digest
  ow_value :: u32

record private_transfer_witness =
  tw_input :: input_note_witness
  tw_recipient :: output_note_witness
  tw_change :: output_note_witness

record withdrawal_witness =
  dw_input :: input_note_witness
  dw_change :: output_note_witness

record payment_runtime_binding =
  rb_pool :: bytes
  rb_deployment_domain :: bytes
  rb_anchor_sequence :: u64
  rb_anchor_root :: digest
  rb_asset_id :: m31

record payment_relation_context =
  px_runtime_binding :: payment_runtime_binding
  px_spent_nullifiers :: "digest list"

datatype payment_statement_format_error =
  SWrongLength | SWrongMagic | SWrongVersion | SWrongTransitionKind | SWrongDigestEncoding | SNonZeroReserved
  | SZeroRequiredBinding | SInvalidAnchorSequence | SNonCanonicalDigest | SNonCanonicalAssetId | SInvalidWithdrawalAmount
  | SInvalidDestination | SInvalidEnvelope | SEnvelopeMismatch

datatype payment_relation_error =
  InvalidStatement payment_statement_format_error | NonCanonicalWitnessDigest | PathIndexOutOfRange | PaymentInputValueOutOfRange
  | RecipientValueOutOfRange | ChangeValueOutOfRange | ConservationOverflow | ConservationMismatch | PaymentAnchorMismatch
  | PaymentNullifierMismatch | RecipientCommitmentMismatch | ChangeCommitmentMismatch | PaymentNullifierAlreadySpent
  | PoolBindingMismatch | DeploymentDomainMismatch | AnchorSequenceBindingMismatch | AnchorRootBindingMismatch | AssetBindingMismatch

record common_public =
  cc_pool :: bytes
  cc_deployment_domain :: bytes
  cc_anchor_sequence :: u64
  cc_anchor_root :: digest
  cc_nullifier :: digest
  cc_asset_id :: m31

section \<open>Statements\<close>

definition validate_common :: "common_public \<Rightarrow> payment_statement_format_error + unit" where
  "validate_common common =
     (if cc_pool common = zeros 32 \<or> cc_deployment_domain common = zeros 32 then Inl SZeroRequiredBinding
      else if POOL_V1_LEAF_CAPACITY < cc_anchor_sequence common then Inl SInvalidAnchorSequence
      else if \<not> canonical_digest (cc_anchor_root common) \<or> \<not> canonical_digest (cc_nullifier common) then Inl SNonCanonicalDigest
      else if M31_P \<le> limb (cc_asset_id common) then Inl SNonCanonicalAssetId
      else Inr ())"

definition transfer_public_common :: "private_transfer_public \<Rightarrow> common_public" where
  "transfer_public_common public =
     \<lparr> cc_pool = tp_pool public, cc_deployment_domain = tp_deployment_domain public, cc_anchor_sequence = tp_anchor_sequence public,
       cc_anchor_root = tp_anchor_root public, cc_nullifier = tp_nullifier public, cc_asset_id = tp_asset_id public \<rparr>"

definition withdrawal_public_common :: "withdrawal_public \<Rightarrow> common_public" where
  "withdrawal_public_common public =
     \<lparr> cc_pool = wq_pool public, cc_deployment_domain = wq_deployment_domain public, cc_anchor_sequence = wq_anchor_sequence public,
       cc_anchor_root = wq_anchor_root public, cc_nullifier = wq_nullifier public, cc_asset_id = wq_asset_id public \<rparr>"

definition validate_pool_v1_private_transfer_public_v1 :: "private_transfer_public \<Rightarrow> payment_statement_format_error + unit" where
  "validate_pool_v1_private_transfer_public_v1 public =
     bindE (validate_common (transfer_public_common public)) (\<lambda>_.
     if \<not> canonical_digest (tp_recipient_commitment public) \<or> \<not> canonical_digest (tp_change_commitment public)
     then Inl SNonCanonicalDigest else Inr ())"

definition validate_pool_v1_withdrawal_public_v1 :: "withdrawal_public \<Rightarrow> payment_statement_format_error + unit" where
  "validate_pool_v1_withdrawal_public_v1 public =
     bindE (validate_common (withdrawal_public_common public)) (\<lambda>_.
     if wq_amount public = 0 \<or> VALUE_LIMIT \<le> wq_amount public then Inl SInvalidWithdrawalAmount
     else if wq_destination_token_account public = zeros 32 then Inl SInvalidDestination
     else if \<not> canonical_digest (wq_change_commitment public) then Inl SNonCanonicalDigest else Inr ())"

definition encode_common :: "bytes \<Rightarrow> bytes \<Rightarrow> transition_kind \<Rightarrow> common_public \<Rightarrow> bytes" where
  "encode_common output magic kind common =
     (let output = put 0 magic output;
          output = output[4 := POOL_V1_PAYMENT_STATEMENT_VERSION];
          output = output[5 := transition_kind_byte kind];
          output = output[6 := POOL_V1_DIGEST_ENCODING_VERSION];
          output = put PAYMENT_POOL_OFFSET (cc_pool common) output;
          output = put DEPLOYMENT_DOMAIN_OFFSET (cc_deployment_domain common) output;
          output = put ANCHOR_SEQUENCE_OFFSET (to_le 8 (cc_anchor_sequence common)) output;
          output = put ANCHOR_ROOT_OFFSET (encode_digest_canonical (cc_anchor_root common)) output;
          output = put PAYMENT_NULLIFIER_OFFSET (encode_digest_canonical (cc_nullifier common)) output
      in put ASSET_ID_OFFSET (m31_to_le_bytes (cc_asset_id common)) output)"

definition encode_pool_v1_private_transfer_public_v1 :: "private_transfer_public \<Rightarrow> payment_statement_format_error + bytes" where
  "encode_pool_v1_private_transfer_public_v1 public =
     bindE (validate_pool_v1_private_transfer_public_v1 public) (\<lambda>_.
     let output = encode_common (zeros POOL_V1_PAYMENT_STATEMENT_BYTES) POOL_V1_PRIVATE_TRANSFER_STATEMENT_MAGIC PrivateTransfer
           (transfer_public_common public);
         output = put FIRST_OUTPUT_OR_DESTINATION_OFFSET (encode_digest_canonical (tp_recipient_commitment public)) output
     in Inr (put SECOND_OUTPUT_OFFSET (encode_digest_canonical (tp_change_commitment public)) output))"

definition encode_pool_v1_withdrawal_public_v1 :: "withdrawal_public \<Rightarrow> payment_statement_format_error + bytes" where
  "encode_pool_v1_withdrawal_public_v1 public =
     bindE (validate_pool_v1_withdrawal_public_v1 public) (\<lambda>_.
     let output = encode_common (zeros POOL_V1_PAYMENT_STATEMENT_BYTES) POOL_V1_WITHDRAWAL_STATEMENT_MAGIC Withdrawal
           (withdrawal_public_common public);
         output = put AMOUNT_OR_RESERVED_OFFSET (to_le 4 (wq_amount public)) output;
         output = put FIRST_OUTPUT_OR_DESTINATION_OFFSET (wq_destination_token_account public) output
     in Inr (put SECOND_OUTPUT_OFFSET (encode_digest_canonical (wq_change_commitment public)) output))"

definition payment_require_header :: "bytes \<Rightarrow> bytes \<Rightarrow> transition_kind \<Rightarrow> payment_statement_format_error + unit" where
  "payment_require_header bytes magic kind =
     (if seg 0 4 bytes \<noteq> magic then Inl SWrongMagic
      else if bytes ! 4 \<noteq> POOL_V1_PAYMENT_STATEMENT_VERSION then Inl SWrongVersion
      else if bytes ! 5 \<noteq> transition_kind_byte kind then Inl SWrongTransitionKind
      else if bytes ! 6 \<noteq> POOL_V1_DIGEST_ENCODING_VERSION then Inl SWrongDigestEncoding
      else if bytes ! 7 \<noteq> 0 then Inl SNonZeroReserved
      else Inr ())"

definition decode_common :: "bytes \<Rightarrow> payment_statement_format_error + common_public" where
  "decode_common bytes =
     (let asset = from_le (seg ASSET_ID_OFFSET AMOUNT_OR_RESERVED_OFFSET bytes)
      in if M31_P \<le> asset then Inl SNonCanonicalAssetId
      else bindE (map_err (\<lambda>_. SNonCanonicalDigest)
              (decode_digest_canonical (seg ANCHOR_ROOT_OFFSET PAYMENT_NULLIFIER_OFFSET bytes))) (\<lambda>anchor_root.
      bindE (map_err (\<lambda>_. SNonCanonicalDigest)
              (decode_digest_canonical (seg PAYMENT_NULLIFIER_OFFSET ASSET_ID_OFFSET bytes))) (\<lambda>nullifier.
      let common = \<lparr> cc_pool = seg PAYMENT_POOL_OFFSET DEPLOYMENT_DOMAIN_OFFSET bytes,
            cc_deployment_domain = seg DEPLOYMENT_DOMAIN_OFFSET ANCHOR_SEQUENCE_OFFSET bytes,
            cc_anchor_sequence = from_le (seg ANCHOR_SEQUENCE_OFFSET ANCHOR_ROOT_OFFSET bytes),
            cc_anchor_root = anchor_root, cc_nullifier = nullifier, cc_asset_id = M31 asset \<rparr>
      in bindE (validate_common common) (\<lambda>_. Inr common))))"

definition decode_pool_v1_private_transfer_public_v1 :: "bytes \<Rightarrow> payment_statement_format_error + private_transfer_public" where
  "decode_pool_v1_private_transfer_public_v1 bytes =
     (if length bytes \<noteq> POOL_V1_PAYMENT_STATEMENT_BYTES then Inl SWrongLength
      else bindE (payment_require_header bytes POOL_V1_PRIVATE_TRANSFER_STATEMENT_MAGIC PrivateTransfer) (\<lambda>_.
      if seg AMOUNT_OR_RESERVED_OFFSET FIRST_OUTPUT_OR_DESTINATION_OFFSET bytes \<noteq> to_le 4 POOL_V1_CANONICAL_FEE then Inl SNonZeroReserved
      else bindE (decode_common bytes) (\<lambda>common.
      bindE (map_err (\<lambda>_. SNonCanonicalDigest)
              (decode_digest_canonical (seg FIRST_OUTPUT_OR_DESTINATION_OFFSET SECOND_OUTPUT_OFFSET bytes))) (\<lambda>recipient_commitment.
      bindE (map_err (\<lambda>_. SNonCanonicalDigest) (decode_digest_canonical (drop SECOND_OUTPUT_OFFSET bytes))) (\<lambda>change_commitment.
      let public = \<lparr> tp_pool = cc_pool common, tp_deployment_domain = cc_deployment_domain common,
            tp_anchor_sequence = cc_anchor_sequence common, tp_anchor_root = cc_anchor_root common,
            tp_nullifier = cc_nullifier common, tp_asset_id = cc_asset_id common,
            tp_recipient_commitment = recipient_commitment, tp_change_commitment = change_commitment \<rparr>
      in bindE (validate_pool_v1_private_transfer_public_v1 public) (\<lambda>_. Inr public))))))"

definition decode_pool_v1_withdrawal_public_v1 :: "bytes \<Rightarrow> payment_statement_format_error + withdrawal_public" where
  "decode_pool_v1_withdrawal_public_v1 bytes =
     (if length bytes \<noteq> POOL_V1_PAYMENT_STATEMENT_BYTES then Inl SWrongLength
      else bindE (payment_require_header bytes POOL_V1_WITHDRAWAL_STATEMENT_MAGIC Withdrawal) (\<lambda>_.
      bindE (decode_common bytes) (\<lambda>common.
      bindE (map_err (\<lambda>_. SNonCanonicalDigest) (decode_digest_canonical (drop SECOND_OUTPUT_OFFSET bytes))) (\<lambda>change_commitment.
      let public = \<lparr> wq_pool = cc_pool common, wq_deployment_domain = cc_deployment_domain common,
            wq_anchor_sequence = cc_anchor_sequence common, wq_anchor_root = cc_anchor_root common,
            wq_nullifier = cc_nullifier common, wq_asset_id = cc_asset_id common,
            wq_amount = from_le (seg AMOUNT_OR_RESERVED_OFFSET FIRST_OUTPUT_OR_DESTINATION_OFFSET bytes),
            wq_destination_token_account = seg FIRST_OUTPUT_OR_DESTINATION_OFFSET SECOND_OUTPUT_OFFSET bytes,
            wq_change_commitment = change_commitment \<rparr>
      in bindE (validate_pool_v1_withdrawal_public_v1 public) (\<lambda>_. Inr public)))))"

definition validate_envelope_common :: "anchor_envelope \<Rightarrow> transition_kind \<Rightarrow> common_public \<Rightarrow> payment_statement_format_error + unit" where
  "validate_envelope_common envelope kind common =
     bindE (map_err (\<lambda>_. SInvalidEnvelope) (validate_historical_anchor_envelope_v1 envelope)) (\<lambda>_.
     if ae_transition_kind envelope \<noteq> kind \<or> ae_pool envelope \<noteq> cc_pool common
        \<or> ae_deployment_domain envelope \<noteq> cc_deployment_domain common \<or> ae_anchor_sequence envelope \<noteq> cc_anchor_sequence common
        \<or> ae_anchor_root envelope \<noteq> cc_anchor_root common \<or> ae_nullifier envelope \<noteq> cc_nullifier common
     then Inl SEnvelopeMismatch else Inr ())"

definition validate_pool_v1_private_transfer_envelope_binding_v1 ::
  "anchor_envelope \<Rightarrow> private_transfer_public \<Rightarrow> payment_statement_format_error + unit" where
  "validate_pool_v1_private_transfer_envelope_binding_v1 envelope public =
     bindE (validate_pool_v1_private_transfer_public_v1 public) (\<lambda>_.
     validate_envelope_common envelope PrivateTransfer (transfer_public_common public))"

definition validate_pool_v1_withdrawal_envelope_binding_v1 ::
  "anchor_envelope \<Rightarrow> withdrawal_public \<Rightarrow> payment_statement_format_error + unit" where
  "validate_pool_v1_withdrawal_envelope_binding_v1 envelope public =
     bindE (validate_pool_v1_withdrawal_public_v1 public) (\<lambda>_.
     validate_envelope_common envelope Withdrawal (withdrawal_public_common public))"

section \<open>Evaluation\<close>

definition witness_digest_is_canonical :: "input_note_witness \<Rightarrow> bool" where
  "witness_digest_is_canonical input \<longleftrightarrow> canonical_digest (iw_nullifier_key input) \<and> canonical_digest (iw_salt input)
     \<and> list_all canonical_digest (mw_siblings (iw_membership input))"

definition output_witness_is_canonical :: "output_note_witness \<Rightarrow> bool" where
  "output_witness_is_canonical output_note \<longleftrightarrow> canonical_digest (ow_owner_key output_note) \<and> canonical_digest (ow_salt output_note)"

definition pool_v1_membership_root_v1 :: "digest \<Rightarrow> membership_witness \<Rightarrow> payment_relation_error + digest" where
  "pool_v1_membership_root_v1 leaf membership =
     (if POOL_V1_LEAF_CAPACITY \<le> ucast (mw_index membership) then Inl PathIndexOutOfRange
      else Inr (fold (\<lambda>(level, sibling) current.
             if drop_bit level (mw_index membership) AND 1 = 0 then pool_v1_tree_parent current sibling
             else pool_v1_tree_parent sibling current)
           (enumerate 0 (mw_siblings membership)) leaf))"

definition validate_input_and_path :: "input_note_witness \<Rightarrow> payment_relation_error + unit" where
  "validate_input_and_path input =
     (if \<not> witness_digest_is_canonical input then Inl NonCanonicalWitnessDigest
      else if POOL_V1_LEAF_CAPACITY \<le> ucast (mw_index (iw_membership input)) then Inl PathIndexOutOfRange
      else if VALUE_LIMIT \<le> iw_value input then Inl PaymentInputValueOutOfRange
      else Inr ())"

definition validate_common_relation ::
  "common_public \<Rightarrow> input_note_witness \<Rightarrow> payment_relation_context \<Rightarrow> payment_relation_error + unit" where
  "validate_common_relation common input context =
     (let binding = px_runtime_binding context
      in if cc_pool common \<noteq> rb_pool binding then Inl PoolBindingMismatch
      else if cc_deployment_domain common \<noteq> rb_deployment_domain binding then Inl DeploymentDomainMismatch
      else if cc_anchor_sequence common \<noteq> rb_anchor_sequence binding then Inl AnchorSequenceBindingMismatch
      else if cc_anchor_root common \<noteq> rb_anchor_root binding then Inl AnchorRootBindingMismatch
      else if cc_asset_id common \<noteq> rb_asset_id binding then Inl AssetBindingMismatch
      else let owner_key = derive_owner_key (iw_nullifier_key input);
               leaf = pool_v1_note_commitment owner_key (iw_value input) (cc_asset_id common) (iw_salt input)
      in bindE (pool_v1_membership_root_v1 leaf (iw_membership input)) (\<lambda>root.
         if root \<noteq> cc_anchor_root common then Inl PaymentAnchorMismatch
         else if pool_v1_nullifier (iw_nullifier_key input) (iw_salt input) \<noteq> cc_nullifier common then Inl PaymentNullifierMismatch
         else if \<exists>spent \<in> set (px_spent_nullifiers context). spent = cc_nullifier common then Inl PaymentNullifierAlreadySpent
         else Inr ()))"

definition evaluate_pool_v1_private_transfer_v1 ::
  "private_transfer_public \<Rightarrow> private_transfer_witness \<Rightarrow> payment_relation_context \<Rightarrow> payment_relation_error + unit" where
  "evaluate_pool_v1_private_transfer_v1 public w context =
     bindE (map_err InvalidStatement (validate_pool_v1_private_transfer_public_v1 public)) (\<lambda>_.
     if \<not> output_witness_is_canonical (tw_recipient w) \<or> \<not> output_witness_is_canonical (tw_change w)
     then Inl NonCanonicalWitnessDigest
     else bindE (ok_or ConservationOverflow (checked_add (ow_value (tw_recipient w)) (ow_value (tw_change w)))) (\<lambda>outputs.
     bindE (validate_input_and_path (tw_input w)) (\<lambda>_.
     if VALUE_LIMIT \<le> ow_value (tw_recipient w) then Inl RecipientValueOutOfRange
     else if VALUE_LIMIT \<le> ow_value (tw_change w) then Inl ChangeValueOutOfRange
     else if outputs \<noteq> iw_value (tw_input w) then Inl ConservationMismatch
     else bindE (validate_common_relation (transfer_public_common public) (tw_input w) context) (\<lambda>_.
     if pool_v1_note_commitment (ow_owner_key (tw_recipient w)) (ow_value (tw_recipient w)) (tp_asset_id public) (ow_salt (tw_recipient w))
        \<noteq> tp_recipient_commitment public
     then Inl RecipientCommitmentMismatch
     else if pool_v1_note_commitment (ow_owner_key (tw_change w)) (ow_value (tw_change w)) (tp_asset_id public) (ow_salt (tw_change w))
        \<noteq> tp_change_commitment public
     then Inl ChangeCommitmentMismatch
     else Inr ()))))"

definition evaluate_pool_v1_withdrawal_v1 ::
  "withdrawal_public \<Rightarrow> withdrawal_witness \<Rightarrow> payment_relation_context \<Rightarrow> payment_relation_error + unit" where
  "evaluate_pool_v1_withdrawal_v1 public w context =
     bindE (map_err InvalidStatement (validate_pool_v1_withdrawal_public_v1 public)) (\<lambda>_.
     if \<not> output_witness_is_canonical (dw_change w) then Inl NonCanonicalWitnessDigest
     else bindE (ok_or ConservationOverflow (checked_add (ow_value (dw_change w)) (wq_amount public))) (\<lambda>accounted.
     bindE (validate_input_and_path (dw_input w)) (\<lambda>_.
     if VALUE_LIMIT \<le> ow_value (dw_change w) then Inl ChangeValueOutOfRange
     else if accounted \<noteq> iw_value (dw_input w) then Inl ConservationMismatch
     else bindE (validate_common_relation (withdrawal_public_common public) (dw_input w) context) (\<lambda>_.
     if pool_v1_note_commitment (ow_owner_key (dw_change w)) (ow_value (dw_change w)) (wq_asset_id public) (ow_salt (dw_change w))
        \<noteq> wq_change_commitment public
     then Inl ChangeCommitmentMismatch
     else Inr ()))))"
section \<open>The statement of a spend is the statement of the relation\<close>

definition transfer_public_of :: "transfer_statement \<Rightarrow> private_transfer_public" where
  "transfer_public_of s = \<lparr> tp_pool = ts_pool s, tp_deployment_domain = ts_deployment_domain s, tp_anchor_sequence = ts_anchor_sequence s,
     tp_anchor_root = ts_anchor_root s, tp_nullifier = ts_nullifier s, tp_asset_id = ts_asset_id s,
     tp_recipient_commitment = ts_recipient_commitment s, tp_change_commitment = ts_change_commitment s \<rparr>"

definition transfer_statement_from :: "private_transfer_public \<Rightarrow> transfer_statement" where
  "transfer_statement_from p = \<lparr> ts_pool = tp_pool p, ts_deployment_domain = tp_deployment_domain p, ts_anchor_sequence = tp_anchor_sequence p,
     ts_anchor_root = tp_anchor_root p, ts_nullifier = tp_nullifier p, ts_asset_id = tp_asset_id p,
     ts_recipient_commitment = tp_recipient_commitment p, ts_change_commitment = tp_change_commitment p \<rparr>"

definition withdrawal_public_of :: "withdrawal_statement \<Rightarrow> withdrawal_public" where
  "withdrawal_public_of s = \<lparr> wq_pool = ws_pool s, wq_deployment_domain = ws_deployment_domain s, wq_anchor_sequence = ws_anchor_sequence s,
     wq_anchor_root = ws_anchor_root s, wq_nullifier = ws_nullifier s, wq_asset_id = ws_asset_id s, wq_amount = ws_amount s,
     wq_destination_token_account = ws_destination_token_account s, wq_change_commitment = ws_change_commitment s \<rparr>"

definition withdrawal_statement_from :: "withdrawal_public \<Rightarrow> withdrawal_statement" where
  "withdrawal_statement_from p = \<lparr> ws_pool = wq_pool p, ws_deployment_domain = wq_deployment_domain p, ws_anchor_sequence = wq_anchor_sequence p,
     ws_anchor_root = wq_anchor_root p, ws_nullifier = wq_nullifier p, ws_asset_id = wq_asset_id p, ws_amount = wq_amount p,
     ws_destination_token_account = wq_destination_token_account p, ws_change_commitment = wq_change_commitment p \<rparr>"

lemma public_from [simp]:
  "transfer_public_of (transfer_statement_from p) = p" "transfer_statement_from (transfer_public_of s) = s"
  "withdrawal_public_of (withdrawal_statement_from q) = q" "withdrawal_statement_from (withdrawal_public_of t) = t"
  by (simp_all add: transfer_public_of_def transfer_statement_from_def withdrawal_public_of_def withdrawal_statement_from_def)

lemma public_common:
  "transfer_public_common (transfer_public_of s) = \<lparr> cc_pool = ts_pool s, cc_deployment_domain = ts_deployment_domain s,
     cc_anchor_sequence = ts_anchor_sequence s, cc_anchor_root = ts_anchor_root s, cc_nullifier = ts_nullifier s, cc_asset_id = ts_asset_id s \<rparr>"
  "withdrawal_public_common (withdrawal_public_of t) = \<lparr> cc_pool = ws_pool t, cc_deployment_domain = ws_deployment_domain t,
     cc_anchor_sequence = ws_anchor_sequence t, cc_anchor_root = ws_anchor_root t, cc_nullifier = ws_nullifier t, cc_asset_id = ws_asset_id t \<rparr>"
  by (simp_all add: transfer_public_common_def transfer_public_of_def withdrawal_public_common_def withdrawal_public_of_def)

lemma fee_bytes: "to_le 4 POOL_V1_CANONICAL_FEE = zeros 4"
  using to_le_u32 [of "zeros 4"] by (simp add: POOL_V1_CANONICAL_FEE_def zeros_def numeral_eq_Suc)

text \<open>Both decoders read the same fields at the same places; that of the relation adds its validation.\<close>

lemma decode_transfer_public_eq:
  "decode_pool_v1_private_transfer_public_v1 b = Inr (transfer_public_of s) \<longleftrightarrow>
     decode_transfer_statement b = Inr s \<and> validate_pool_v1_private_transfer_public_v1 (transfer_public_of s) = Inr ()"
  by (cases s) (auto simp: decode_pool_v1_private_transfer_public_v1_def decode_transfer_statement_def decode_statement_common_def
      payment_require_header_def decode_common_def fee_bytes [unfolded layout_defs] layout_defs Let_def transfer_public_of_def
      transfer_public_common_def validate_pool_v1_private_transfer_public_v1_def split: if_splits)

lemma decode_withdrawal_public_eq:
  "decode_pool_v1_withdrawal_public_v1 b = Inr (withdrawal_public_of s) \<longleftrightarrow>
     decode_withdrawal_statement b = Inr s \<and> validate_pool_v1_withdrawal_public_v1 (withdrawal_public_of s) = Inr ()"
  by (cases s) (auto simp: decode_pool_v1_withdrawal_public_v1_def decode_withdrawal_statement_def decode_statement_common_def
      payment_require_header_def decode_common_def layout_defs Let_def withdrawal_public_of_def withdrawal_public_common_def
      validate_pool_v1_withdrawal_public_v1_def split: if_splits)


section \<open>Statements are canonical\<close>

lemma put_seg: "a + n \<le> length xs \<Longrightarrow> put a (seg a (a + n) xs) xs = xs"
  by (simp add: put_def seg_def drop_take flip: take_add append_assoc)

lemma encode_transfer_public_eq:
  assumes "transfer_ok s"
  shows "encode_pool_v1_private_transfer_public_v1 (transfer_public_of s) = Inr b \<longleftrightarrow>
     validate_pool_v1_private_transfer_public_v1 (transfer_public_of s) = Inr () \<and> encode_transfer_statement s = Inr b"
proof -
  let ?e = "encode_common (zeros POOL_V1_PAYMENT_STATEMENT_BYTES) POOL_V1_PRIVATE_TRANSFER_STATEMENT_MAGIC PrivateTransfer
    (transfer_public_common (transfer_public_of s))"
  have len: "length ?e = 216" and fee: "seg 148 152 ?e = zeros 4"
    using assms by (simp_all add: encode_common_def Let_def layout_defs image_simps public_common transfer_ok_def common_ok_def transfer_common_def
        m31_to_le_bytes_def)
  have image: "put 148 (zeros 4) ?e = ?e" using put_seg [of 148 4 ?e] len fee by simp
  have common: "encode_statement_common (zeros POOL_V1_TRANSITION_STATEMENT_BYTES) POOL_V1_PRIVATE_TRANSFER_STATEMENT_MAGIC PrivateTransfer
      (transfer_common s) = Inr ?e" if "validate_pool_v1_private_transfer_public_v1 (transfer_public_of s) = Inr ()"
    using that by (auto simp: encode_statement_common_def encode_common_def Let_def layout_defs public_common transfer_common_def
        validate_pool_v1_private_transfer_public_v1_def validate_common_def split: if_splits)
  show ?thesis
    using common image
    by (auto simp: encode_pool_v1_private_transfer_public_v1_def encode_transfer_statement_def layout_defs transfer_public_of_def Let_def)
qed

lemma encode_withdrawal_public_eq:
  "encode_pool_v1_withdrawal_public_v1 (withdrawal_public_of s) = Inr b \<longleftrightarrow>
     validate_pool_v1_withdrawal_public_v1 (withdrawal_public_of s) = Inr () \<and> encode_withdrawal_statement s = Inr b"
proof -
  let ?e = "encode_common (zeros POOL_V1_PAYMENT_STATEMENT_BYTES) POOL_V1_WITHDRAWAL_STATEMENT_MAGIC Withdrawal
    (withdrawal_public_common (withdrawal_public_of s))"
  have common: "encode_statement_common (zeros POOL_V1_TRANSITION_STATEMENT_BYTES) POOL_V1_WITHDRAWAL_STATEMENT_MAGIC Withdrawal
      (withdrawal_common s) = Inr ?e" if "validate_pool_v1_withdrawal_public_v1 (withdrawal_public_of s) = Inr ()"
    using that by (auto simp: encode_statement_common_def encode_common_def Let_def layout_defs public_common withdrawal_common_def
        validate_pool_v1_withdrawal_public_v1_def validate_common_def split: if_splits)
  then show ?thesis
    by (auto simp: encode_pool_v1_withdrawal_public_v1_def encode_withdrawal_statement_def layout_defs withdrawal_public_of_def Let_def)
qed

lemma validated_checks:
  "validate_pool_v1_private_transfer_public_v1 (transfer_public_of s) = Inr () \<Longrightarrow> transfer_check s = Inr ()"
  "validate_pool_v1_withdrawal_public_v1 (withdrawal_public_of t) = Inr () \<Longrightarrow> withdrawal_check t = Inr ()"
  by (auto simp: validate_pool_v1_private_transfer_public_v1_def validate_pool_v1_withdrawal_public_v1_def transfer_check_def withdrawal_check_def
      transfer_public_of_def withdrawal_public_of_def split: if_splits)

interpretation transfer_public_codec: image_codec encode_pool_v1_private_transfer_public_v1 decode_pool_v1_private_transfer_public_v1
  "\<lambda>p. transfer_ok (transfer_statement_from p)" POOL_V1_PAYMENT_STATEMENT_BYTES
proof unfold_locales
  fix p b
  note dec = decode_transfer_public_eq [of b "transfer_statement_from p", simplified]
  note facts = transfer_wire.st_enc_dec [of b "transfer_statement_from p"]
  show "decode_pool_v1_private_transfer_public_v1 b = Inr p"
    if "transfer_ok (transfer_statement_from p)" "encode_pool_v1_private_transfer_public_v1 p = Inr b"
    using that encode_transfer_public_eq [of "transfer_statement_from p" b] validated_checks(1) [of "transfer_statement_from p"]
      transfer_wire.st_dec_enc dec by simp
  assume run: "decode_pool_v1_private_transfer_public_v1 b = Inr p"
  then show "transfer_ok (transfer_statement_from p)" using facts dec by blast
  then show "encode_pool_v1_private_transfer_public_v1 p = Inr b"
    using encode_transfer_public_eq [of "transfer_statement_from p" b] run facts dec by simp
  show "length b = POOL_V1_PAYMENT_STATEMENT_BYTES"
    using run dec transfer_wire.st_length by (simp add: POOL_V1_PAYMENT_STATEMENT_BYTES_def)
qed

interpretation withdrawal_public_codec: image_codec encode_pool_v1_withdrawal_public_v1 decode_pool_v1_withdrawal_public_v1
  "\<lambda>p. withdrawal_ok (withdrawal_statement_from p)" POOL_V1_PAYMENT_STATEMENT_BYTES
proof unfold_locales
  fix p b
  note dec = decode_withdrawal_public_eq [of b "withdrawal_statement_from p", simplified]
  note facts = withdrawal_wire.st_enc_dec [of b "withdrawal_statement_from p"]
  note enc = encode_withdrawal_public_eq [of "withdrawal_statement_from p" b, simplified]
  show "decode_pool_v1_withdrawal_public_v1 b = Inr p"
    if "withdrawal_ok (withdrawal_statement_from p)" "encode_pool_v1_withdrawal_public_v1 p = Inr b"
    using that enc validated_checks(2) [of "withdrawal_statement_from p"] withdrawal_wire.st_dec_enc dec by simp
  assume run: "decode_pool_v1_withdrawal_public_v1 b = Inr p"
  then show "withdrawal_ok (withdrawal_statement_from p)" using facts dec by blast
  show "encode_pool_v1_withdrawal_public_v1 p = Inr b" using run enc facts dec by blast
  show "length b = POOL_V1_PAYMENT_STATEMENT_BYTES"
    using run dec withdrawal_wire.st_length by (simp add: POOL_V1_PAYMENT_STATEMENT_BYTES_def)
qed

text \<open>The payload a decoded spend hands to the verifier is the statement of the relation, bound to the envelope.\<close>

lemma transfer_payload_statement:
  assumes "decode_private_transfer_instruction_v1 data = Inr i"
  shows "decode_pool_v1_private_transfer_public_v1 (pt_statement_payload i) = Inr (transfer_public_of (pt_statement i))"
    "validate_pool_v1_private_transfer_envelope_binding_v1 (pt_envelope i) (transfer_public_of (pt_statement i)) = Inr ()"
proof -
  have i: "decode_transfer_statement (pt_statement_payload i) = Inr (pt_statement i)" "ae_transition_kind (pt_envelope i) = PrivateTransfer"
      "require_envelope_statement_match (pt_envelope i) PrivateTransfer (ts_pool (pt_statement i)) (ts_deployment_domain (pt_statement i))
          (ts_anchor_sequence (pt_statement i)) (ts_anchor_root (pt_statement i)) (ts_nullifier (pt_statement i)) = Inr ()"
      "\<exists>b. decode_historical_anchor_envelope_v1 b = Inr (pt_envelope i)"
    using assms by (auto simp: decode_private_transfer_instruction_v1_def decode_private_transfer_with_magic_v1_def Let_def
        require_envelope_statement_match_def split: if_splits)
  from i(4) have env: "validate_historical_anchor_envelope_v1 (pt_envelope i) = Inr ()"
    by (auto dest!: envelope_codec.enc_dec simp: encode_historical_anchor_envelope_v1_def)
  have valid: "validate_pool_v1_private_transfer_public_v1 (transfer_public_of (pt_statement i)) = Inr ()"
    using env i(3) transfer_wire.st_enc_dec [OF i(1)]
    by (auto simp: validate_pool_v1_private_transfer_public_v1_def validate_common_def public_common transfer_check_def encode_transfer_eq
        common_canonical_def transfer_common_def canon_def require_envelope_statement_match_def validate_historical_anchor_envelope_v1_def
        transfer_public_of_def transfer_public_common_def split: if_splits)
  with i show "decode_pool_v1_private_transfer_public_v1 (pt_statement_payload i) = Inr (transfer_public_of (pt_statement i))"
    by (simp add: decode_transfer_public_eq)
  show "validate_pool_v1_private_transfer_envelope_binding_v1 (pt_envelope i) (transfer_public_of (pt_statement i)) = Inr ()"
    using valid env i(3) by (auto simp: validate_pool_v1_private_transfer_envelope_binding_v1_def validate_envelope_common_def public_common
        require_envelope_statement_match_def split: if_splits)
qed

lemma withdrawal_payload_statement:
  assumes "decode_withdrawal_instruction_v1 data = Inr i"
  shows "decode_pool_v1_withdrawal_public_v1 (wi_statement_payload i) = Inr (withdrawal_public_of (wi_statement i))"
    "validate_pool_v1_withdrawal_envelope_binding_v1 (wi_envelope i) (withdrawal_public_of (wi_statement i)) = Inr ()"
proof -
  have i: "decode_withdrawal_statement (wi_statement_payload i) = Inr (wi_statement i)" "ae_transition_kind (wi_envelope i) = Withdrawal"
      "require_envelope_statement_match (wi_envelope i) Withdrawal (ws_pool (wi_statement i)) (ws_deployment_domain (wi_statement i))
          (ws_anchor_sequence (wi_statement i)) (ws_anchor_root (wi_statement i)) (ws_nullifier (wi_statement i)) = Inr ()"
      "\<exists>b. decode_historical_anchor_envelope_v1 b = Inr (wi_envelope i)"
    using assms by (auto simp: decode_withdrawal_instruction_v1_def decode_withdrawal_with_magic_v1_def Let_def
        require_envelope_statement_match_def split: if_splits)
  from i(4) have env: "validate_historical_anchor_envelope_v1 (wi_envelope i) = Inr ()"
    by (auto dest!: envelope_codec.enc_dec simp: encode_historical_anchor_envelope_v1_def)
  have valid: "validate_pool_v1_withdrawal_public_v1 (withdrawal_public_of (wi_statement i)) = Inr ()"
    using env i(3) withdrawal_wire.st_enc_dec [OF i(1)]
    by (auto simp: validate_pool_v1_withdrawal_public_v1_def validate_common_def public_common withdrawal_check_def encode_withdrawal_eq
        common_canonical_def withdrawal_common_def canon_def require_envelope_statement_match_def validate_historical_anchor_envelope_v1_def
        withdrawal_public_of_def withdrawal_public_common_def split: if_splits)
  with i show "decode_pool_v1_withdrawal_public_v1 (wi_statement_payload i) = Inr (withdrawal_public_of (wi_statement i))"
    by (simp add: decode_withdrawal_public_eq)
  show "validate_pool_v1_withdrawal_envelope_binding_v1 (wi_envelope i) (withdrawal_public_of (wi_statement i)) = Inr ()"
    using valid env i(3) by (auto simp: validate_pool_v1_withdrawal_envelope_binding_v1_def validate_envelope_common_def public_common
        require_envelope_statement_match_def split: if_splits)
qed

section \<open>Authentication paths\<close>

text \<open>The root a path leads to, over any node hash: bit \<open>level\<close> of the index says on which side the path stands.\<close>

fun path_root :: "('d \<Rightarrow> 'd \<Rightarrow> 'd) \<Rightarrow> nat \<Rightarrow> 'd list \<Rightarrow> 'd \<Rightarrow> 'd" where
  "path_root parent i [] x = x"
| "path_root parent i (s # ss) x = path_root parent (i div 2) ss (if even i then parent x s else parent s x)"

lemma path_root_snoc:
  "path_root parent i (ss @ [s]) x =
     (if even (i div 2 ^ length ss) then parent (path_root parent i ss x) s else parent s (path_root parent i ss x))"
  by (induction ss arbitrary: i x) (simp_all add: div_mult2_eq)

lemma path_root_mod: "path_root parent (i mod 2 ^ length ss) ss x = path_root parent i ss x"
proof (induction ss arbitrary: i x)
  case (Cons s ss)
  have "i mod 2 ^ length (s # ss) div 2 = i div 2 mod 2 ^ length ss" "even (i mod 2 ^ length (s # ss)) = even i"
    by (simp_all add: mod_mult2_eq flip: mod_2_eq_odd)
  then show ?case using Cons.IH [of "i div 2"] by simp
qed simp

lemma fold_path_root:
  fixes w :: u32
  assumes "n + length ss \<le> 32"
  shows "fold (\<lambda>(level, s) x. if drop_bit level w AND 1 = 0 then parent x s else parent s x) (enumerate n ss) x
    = path_root parent (unat w div 2 ^ n) ss x"
  using assms
proof (induction ss arbitrary: n x)
  case (Cons s ss)
  have "drop_bit n w AND 1 = 0 \<longleftrightarrow> even (unat w div 2 ^ n)"
  proof -
    have "drop_bit n w AND 1 = 0 \<longleftrightarrow> \<not> bit w n" by (simp add: and_one_eq bit_iff_odd_drop_bit flip: even_iff_mod_2_eq_zero)
    also have "\<dots> \<longleftrightarrow> \<not> bit (unat w) n" using bit_imp_le_length [of w n] by (auto simp: bit_unsigned_iff)
    finally show ?thesis by (simp add: bit_iff_odd)
  qed
  moreover have "unat w div 2 ^ Suc n = unat w div 2 ^ n div 2" by (simp add: mult.commute flip: div_mult2_eq)
  ultimately show ?case using Cons.IH [of "Suc n"] Cons.prems by simp
qed simp

lemma index_range: "POOL_V1_LEAF_CAPACITY \<le> ucast i \<longleftrightarrow> \<not> unat (i :: u32) < 2 ^ 20"
  using unsigned_less [of i, where ?'a = nat] by (simp add: word_le_nat_alt capacity_eq unsigned_ucast_eq take_bit_nat_eq_self not_less)

lemma value_range: "VALUE_LIMIT \<le> v \<longleftrightarrow> \<not> unat v < 2 ^ 30"
  by (simp add: word_le_nat_alt limb_limit not_less)

lemma membership_root_eq:
  assumes "length (mw_siblings m) = 20"
  shows "pool_v1_membership_root_v1 leaf m =
    (if unat (mw_index m) < 2 ^ 20 then Inr (path_root pool_v1_tree_parent (unat (mw_index m)) (mw_siblings m) leaf) else Inl PathIndexOutOfRange)"
  using fold_path_root [of 0 "mw_siblings m" "mw_index m" pool_v1_tree_parent leaf] assms
  by (simp add: pool_v1_membership_root_v1_def index_range)

text \<open>The siblings of a leaf of the full tree, and the leaf at an index: the empty leaf past the end of the list.\<close>

fun siblings_of :: "nat \<Rightarrow> nat \<Rightarrow> digest list \<Rightarrow> digest list" where
  "siblings_of 0 i leaves = []"
| "siblings_of (Suc d) i leaves =
     (if i < 2 ^ d then siblings_of d i (take (2 ^ d) leaves) @ [subtree_root d (drop (2 ^ d) leaves)]
      else siblings_of d (i - 2 ^ d) (drop (2 ^ d) leaves) @ [subtree_root d (take (2 ^ d) leaves)])"

definition leaf_at :: "digest list \<Rightarrow> nat \<Rightarrow> digest" where
  "leaf_at leaves i = (if i < length leaves then leaves ! i else ZERO_DIGEST)"

lemma length_siblings_of [simp]: "length (siblings_of d i leaves) = d"
  by (induction d arbitrary: i leaves) simp_all

lemma path_to_root: "i < 2 ^ d \<Longrightarrow> path_root pool_v1_tree_parent i (siblings_of d i leaves) (leaf_at leaves i) = subtree_root d leaves"
proof (induction d arbitrary: i leaves)
  case 0
  then show ?case by (cases leaves) (simp_all add: leaf_at_def)
next
  case (Suc d)
  show ?case
  proof (cases "i < 2 ^ d")
    case True
    then have "leaf_at (take (2 ^ d) leaves) i = leaf_at leaves i" by (simp add: leaf_at_def)
    then show ?thesis using Suc.IH [OF True, of "take (2 ^ d) leaves"] True by (simp add: path_root_snoc)
  next
    case False
    then have low: "i - 2 ^ d < 2 ^ d" using Suc.prems by simp
    have bits: "i mod 2 ^ d = i - 2 ^ d" "i div 2 ^ d = 1"
      using False low by (simp_all add: mod_if div_if [of i] le_mod_geq not_less)
    have leaf: "leaf_at (drop (2 ^ d) leaves) (i - 2 ^ d) = leaf_at leaves i" using False by (auto simp: leaf_at_def)
    have "path_root pool_v1_tree_parent i (siblings_of d (i - 2 ^ d) (drop (2 ^ d) leaves)) (leaf_at leaves i)
        = subtree_root d (drop (2 ^ d) leaves)"
      using Suc.IH [OF low, of "drop (2 ^ d) leaves"] path_root_mod [of pool_v1_tree_parent i "siblings_of d (i - 2 ^ d) (drop (2 ^ d) leaves)"]
      by (simp add: leaf bits)
    then show ?thesis using False bits by (simp add: path_root_snoc)
  qed
qed

text \<open>Two paths of one index that lead to one root from different leaves meet in a collision, which the walk finds.\<close>

fun path_collision :: "('d \<Rightarrow> 'd \<Rightarrow> 'd) \<Rightarrow> nat \<Rightarrow> 'd list \<Rightarrow> 'd \<Rightarrow> 'd list \<Rightarrow> 'd \<Rightarrow> (('d \<times> 'd) \<times> ('d \<times> 'd)) option" where
  "path_collision parent i (s # ss) x (t # ts) y =
     (let (a, b) = (if even i then (x, s) else (s, x)); (c, e) = (if even i then (y, t) else (t, y))
      in if (a, b) \<noteq> (c, e) \<and> parent a b = parent c e then Some ((a, b), (c, e))
         else path_collision parent (i div 2) ss (parent a b) ts (parent c e))"
| "path_collision parent i _ x _ y = None"

lemma path_collision_found:
  assumes "path_root parent i ss x = path_root parent i ts y" "length ss = length ts" "x \<noteq> y"
  shows "\<exists>a b c e. path_collision parent i ss x ts y = Some ((a, b), (c, e)) \<and> (a, b) \<noteq> (c, e) \<and> parent a b = parent c e"
  using assms
proof (induction parent i ss x ts y rule: path_collision.induct)
  case (1 parent i s ss x t ts y)
  show ?case
  proof (cases "(if even i then parent x s else parent s x) = (if even i then parent y t else parent t y)")
    case True
    then show ?thesis using "1.prems"(3) by (auto split: if_splits)
  next
    case False
    then show ?thesis using "1.IH" "1.prems" by (cases "even i") simp_all
  qed
qed simp_all

section \<open>The relations\<close>

text \<open>What both payments say of the note they consume: it is under the anchor at the index, its nullifier is derived from it and fresh.\<close>

definition witness_shaped :: "input_note_witness \<Rightarrow> bool" where
  "witness_shaped input \<longleftrightarrow> length (mw_siblings (iw_membership input)) = POOL_V1_TREE_DEPTH"

definition input_consumed :: "common_public \<Rightarrow> input_note_witness \<Rightarrow> payment_relation_context \<Rightarrow> bool" where
  "input_consumed common input context \<longleftrightarrow>
     px_runtime_binding context = \<lparr> rb_pool = cc_pool common, rb_deployment_domain = cc_deployment_domain common,
       rb_anchor_sequence = cc_anchor_sequence common, rb_anchor_root = cc_anchor_root common, rb_asset_id = cc_asset_id common \<rparr>
   \<and> witness_digest_is_canonical input \<and> unat (mw_index (iw_membership input)) < 2 ^ 20
   \<and> path_root pool_v1_tree_parent (unat (mw_index (iw_membership input))) (mw_siblings (iw_membership input))
       (pool_v1_note_commitment (derive_owner_key (iw_nullifier_key input)) (iw_value input) (cc_asset_id common) (iw_salt input))
     = cc_anchor_root common
   \<and> cc_nullifier common = pool_v1_nullifier (iw_nullifier_key input) (iw_salt input)
   \<and> cc_nullifier common \<notin> set (px_spent_nullifiers context)"

definition note_created :: "output_note_witness \<Rightarrow> m31 \<Rightarrow> digest \<Rightarrow> bool" where
  "note_created output_note asset commitment \<longleftrightarrow> output_witness_is_canonical output_note
     \<and> commitment = pool_v1_note_commitment (ow_owner_key output_note) (ow_value output_note) asset (ow_salt output_note)"

definition transfer_relation :: "private_transfer_public \<Rightarrow> private_transfer_witness \<Rightarrow> payment_relation_context \<Rightarrow> bool" where
  "transfer_relation public w context \<longleftrightarrow>
     validate_pool_v1_private_transfer_public_v1 public = Inr ()
   \<and> input_consumed (transfer_public_common public) (tw_input w) context
   \<and> note_created (tw_recipient w) (tp_asset_id public) (tp_recipient_commitment public)
   \<and> note_created (tw_change w) (tp_asset_id public) (tp_change_commitment public)
   \<and> unat (iw_value (tw_input w)) = unat (ow_value (tw_recipient w)) + unat (ow_value (tw_change w)) \<and> unat (iw_value (tw_input w)) < 2 ^ 30"

definition withdrawal_relation :: "withdrawal_public \<Rightarrow> withdrawal_witness \<Rightarrow> payment_relation_context \<Rightarrow> bool" where
  "withdrawal_relation public w context \<longleftrightarrow>
     validate_pool_v1_withdrawal_public_v1 public = Inr ()
   \<and> input_consumed (withdrawal_public_common public) (dw_input w) context
   \<and> note_created (dw_change w) (wq_asset_id public) (wq_change_commitment public)
   \<and> unat (iw_value (dw_input w)) = unat (ow_value (dw_change w)) + unat (wq_amount public) \<and> unat (iw_value (dw_input w)) < 2 ^ 30"

lemma input_checks_eq:
  assumes "witness_shaped input"
  shows "validate_input_and_path input = Inr () \<and> validate_common_relation common input context = Inr ()
    \<longleftrightarrow> input_consumed common input context \<and> unat (iw_value input) < 2 ^ 30"
proof -
  have "length (mw_siblings (iw_membership input)) = 20" using assms by (simp add: witness_shaped_def depth_eq)
  from membership_root_eq [OF this] show ?thesis
    by (cases "px_runtime_binding context")
      (auto simp: validate_input_and_path_def validate_common_relation_def input_consumed_def index_range value_range Let_def split: if_splits)
qed

lemma evaluate_transfer_eq:
  assumes "witness_shaped (tw_input w)"
  shows "evaluate_pool_v1_private_transfer_v1 public w context = Inr () \<longleftrightarrow> transfer_relation public w context"
proof -
  let ?r = "ow_value (tw_recipient w)" and ?c = "ow_value (tw_change w)" and ?v = "iw_value (tw_input w)"
  have "evaluate_pool_v1_private_transfer_v1 public w context = Inr () \<longleftrightarrow>
      validate_pool_v1_private_transfer_public_v1 public = Inr ()
    \<and> note_created (tw_recipient w) (tp_asset_id public) (tp_recipient_commitment public)
    \<and> note_created (tw_change w) (tp_asset_id public) (tp_change_commitment public)
    \<and> checked_add ?r ?c = Some ?v \<and> ?r < VALUE_LIMIT \<and> ?c < VALUE_LIMIT
    \<and> validate_input_and_path (tw_input w) = Inr () \<and> validate_common_relation (transfer_public_common public) (tw_input w) context = Inr ()"
    by (auto simp: evaluate_pool_v1_private_transfer_v1_def note_created_def ok_or_def not_le split: if_splits option.splits)
  also have "\<dots> \<longleftrightarrow> transfer_relation public w context"
    unfolding input_checks_eq [OF assms] transfer_relation_def
    by (auto simp: word_less_nat_alt limb_limit checked_add_eq_Some word_unat_eq_iff)
  finally show ?thesis .
qed

lemma evaluate_withdrawal_eq:
  assumes "witness_shaped (dw_input w)"
  shows "evaluate_pool_v1_withdrawal_v1 public w context = Inr () \<longleftrightarrow> withdrawal_relation public w context"
proof -
  let ?c = "ow_value (dw_change w)" and ?v = "iw_value (dw_input w)"
  have "evaluate_pool_v1_withdrawal_v1 public w context = Inr () \<longleftrightarrow>
      validate_pool_v1_withdrawal_public_v1 public = Inr ()
    \<and> note_created (dw_change w) (wq_asset_id public) (wq_change_commitment public)
    \<and> checked_add ?c (wq_amount public) = Some ?v \<and> ?c < VALUE_LIMIT
    \<and> validate_input_and_path (dw_input w) = Inr () \<and> validate_common_relation (withdrawal_public_common public) (dw_input w) context = Inr ()"
    by (auto simp: evaluate_pool_v1_withdrawal_v1_def note_created_def ok_or_def not_le split: if_splits option.splits)
  also have "\<dots> \<longleftrightarrow> withdrawal_relation public w context"
    unfolding input_checks_eq [OF assms] withdrawal_relation_def
    by (auto simp: word_less_nat_alt limb_limit checked_add_eq_Some word_unat_eq_iff)
  finally show ?thesis .
qed

text \<open>The consumed note is a leaf of the tree whose root is the anchor, or the path and the tree collide.\<close>

lemma consumed_leaf:
  assumes "input_consumed common input context" "witness_shaped input" "cc_anchor_root common = subtree_root 20 leaves"
  defines "i \<equiv> unat (mw_index (iw_membership input))"
    and "leaf \<equiv> pool_v1_note_commitment (derive_owner_key (iw_nullifier_key input)) (iw_value input) (cc_asset_id common) (iw_salt input)"
  shows "leaf_at leaves i = leaf \<or> (\<exists>a b c e. path_collision pool_v1_tree_parent i (mw_siblings (iw_membership input)) leaf
      (siblings_of 20 i leaves) (leaf_at leaves i) = Some ((a, b), (c, e))
    \<and> (a, b) \<noteq> (c, e) \<and> pool_v1_tree_parent a b = pool_v1_tree_parent c e)"
proof -
  have i: "i < 2 ^ 20" using assms(1) by (simp add: input_consumed_def i_def)
  have "path_root pool_v1_tree_parent i (mw_siblings (iw_membership input)) leaf
      = path_root pool_v1_tree_parent i (siblings_of 20 i leaves) (leaf_at leaves i)"
    unfolding path_to_root [OF i] using assms(1,3) by (simp add: input_consumed_def i_def leaf_def)
  then show ?thesis
    using path_collision_found [of pool_v1_tree_parent i "mw_siblings (iw_membership input)" leaf "siblings_of 20 i leaves" "leaf_at leaves i"] assms(2)
    by (auto simp: witness_shaped_def depth_eq)
qed

section \<open>Every note of the tree can be spent\<close>

text \<open>The witness the owner of a leaf has, and the statement it proves.\<close>

definition honest_input :: "digest \<Rightarrow> digest \<Rightarrow> u32 \<Rightarrow> digest list \<Rightarrow> nat \<Rightarrow> input_note_witness" where
  "honest_input key salt v leaves k = \<lparr> iw_nullifier_key = key, iw_salt = salt, iw_value = v,
     iw_membership = \<lparr> mw_siblings = siblings_of 20 k leaves, mw_index = of_nat k \<rparr> \<rparr>"

definition note_of :: "m31 \<Rightarrow> output_note_witness \<Rightarrow> digest" where
  "note_of asset out = pool_v1_note_commitment (ow_owner_key out) (ow_value out) asset (ow_salt out)"

definition honest_transfer ::
  "pool_identity \<Rightarrow> digest list \<Rightarrow> digest \<Rightarrow> digest \<Rightarrow> output_note_witness \<Rightarrow> output_note_witness \<Rightarrow> private_transfer_public" where
  "honest_transfer identity leaves key salt recipient change =
     \<lparr> tp_pool = id_pool identity, tp_deployment_domain = id_deployment_domain identity, tp_anchor_sequence = of_nat (length leaves),
       tp_anchor_root = subtree_root 20 leaves, tp_nullifier = pool_v1_nullifier key salt, tp_asset_id = id_asset_id identity,
       tp_recipient_commitment = note_of (id_asset_id identity) recipient, tp_change_commitment = note_of (id_asset_id identity) change \<rparr>"

definition honest_withdrawal ::
  "pool_identity \<Rightarrow> digest list \<Rightarrow> digest \<Rightarrow> digest \<Rightarrow> u32 \<Rightarrow> bytes \<Rightarrow> output_note_witness \<Rightarrow> withdrawal_public" where
  "honest_withdrawal identity leaves key salt amount destination change =
     \<lparr> wq_pool = id_pool identity, wq_deployment_domain = id_deployment_domain identity, wq_anchor_sequence = of_nat (length leaves),
       wq_anchor_root = subtree_root 20 leaves, wq_nullifier = pool_v1_nullifier key salt, wq_asset_id = id_asset_id identity,
       wq_amount = amount, wq_destination_token_account = destination, wq_change_commitment = note_of (id_asset_id identity) change \<rparr>"

definition authenticated_context :: "pool_identity \<Rightarrow> digest list \<Rightarrow> digest list \<Rightarrow> payment_relation_context" where
  "authenticated_context identity leaves spent =
     \<lparr> px_runtime_binding = \<lparr> rb_pool = id_pool identity, rb_deployment_domain = id_deployment_domain identity,
         rb_anchor_sequence = of_nat (length leaves), rb_anchor_root = subtree_root 20 leaves, rb_asset_id = id_asset_id identity \<rparr>,
       px_spent_nullifiers = spent \<rparr>"

definition output_ok :: "output_note_witness \<Rightarrow> bool" where
  "output_ok out \<longleftrightarrow> digest_ok (ow_owner_key out) \<and> digest_ok (ow_salt out) \<and> unat (ow_value out) < 2 ^ 30"

lemma siblings_ok: "list_all digest_ok leaves \<Longrightarrow> list_all digest_ok (siblings_of d i leaves)"
proof (induction d arbitrary: i leaves)
  case (Suc d)
  then have "list_all digest_ok (take (2 ^ d) leaves)" "list_all digest_ok (drop (2 ^ d) leaves)"
    by (auto simp: list_all_iff dest: in_set_takeD in_set_dropD)
  with Suc.IH show ?case by (simp add: digest_ok_subtree)
qed simp

lemma canonical_of_ok: "digest_ok d \<Longrightarrow> canonical_digest d"
  using canonical_digest_iff by (auto simp: digest_ok_def)

lemma nullifier_ok: "digest_ok key \<Longrightarrow> digest_ok salt \<Longrightarrow> digest_ok (pool_v1_nullifier key salt)"
  using hash_fields_eq(2,3) [of DOMAIN_NULLIFIER "key @ salt"]
  by (simp add: pool_v1_nullifier_def derive_nullifier_def derive_nullifier_with_def digest_ok_def DOMAIN_NULLIFIER_def canon_def M31_P_def)

lemma created_note:
  assumes "output_ok out" "canon asset"
  shows "note_created out asset (note_of asset out)" "canonical_digest (note_of asset out)"
  using assms note_commitment_ok [of "ow_owner_key out" "ow_salt out" asset "ow_value out"]
  by (simp_all add: note_created_def note_of_def output_witness_is_canonical_def output_ok_def canonical_of_ok word_less_nat_alt limb_limit)

lemma honest_consumed:
  assumes leaf: "k < length leaves" "leaves ! k = pool_v1_note_commitment (derive_owner_key key) v (id_asset_id identity) salt"
    and leaves: "length leaves \<le> 2 ^ 20" "list_all digest_ok leaves" and owner: "digest_ok key" "digest_ok salt"
    and fresh: "pool_v1_nullifier key salt \<notin> set spent"
  shows "witness_shaped (honest_input key salt v leaves k)"
    "input_consumed \<lparr> cc_pool = id_pool identity, cc_deployment_domain = id_deployment_domain identity,
       cc_anchor_sequence = of_nat (length leaves), cc_anchor_root = subtree_root 20 leaves, cc_nullifier = pool_v1_nullifier key salt,
       cc_asset_id = id_asset_id identity \<rparr> (honest_input key salt v leaves k) (authenticated_context identity leaves spent)"
proof -
  have k: "k < 2 ^ 20" "unat (of_nat k :: u32) = k" using leaf(1) leaves(1) by (simp_all add: unat_of_nat)
  have at: "leaf_at leaves k = pool_v1_note_commitment (derive_owner_key key) v (id_asset_id identity) salt" using leaf by (simp add: leaf_at_def)
  show "witness_shaped (honest_input key salt v leaves k)" by (simp add: witness_shaped_def honest_input_def depth_eq)
  show "input_consumed \<lparr> cc_pool = id_pool identity, cc_deployment_domain = id_deployment_domain identity,
       cc_anchor_sequence = of_nat (length leaves), cc_anchor_root = subtree_root 20 leaves, cc_nullifier = pool_v1_nullifier key salt,
       cc_asset_id = id_asset_id identity \<rparr> (honest_input key salt v leaves k) (authenticated_context identity leaves spent)"
    using path_to_root [OF k(1), of leaves] siblings_ok [OF leaves(2), of 20 k] owner fresh k
    by (simp add: input_consumed_def authenticated_context_def honest_input_def at witness_digest_is_canonical_def canonical_of_ok list_all_iff)
qed

lemma honest_common:
  assumes "length leaves \<le> 2 ^ 20" "list_all digest_ok leaves" "digest_ok key" "digest_ok salt"
    and "id_pool identity \<noteq> zeros 32" "id_deployment_domain identity \<noteq> zeros 32" "canon (id_asset_id identity)"
  shows "validate_common \<lparr> cc_pool = id_pool identity, cc_deployment_domain = id_deployment_domain identity,
       cc_anchor_sequence = of_nat (length leaves), cc_anchor_root = subtree_root 20 leaves, cc_nullifier = pool_v1_nullifier key salt,
       cc_asset_id = id_asset_id identity \<rparr> = Inr ()"
  using assms digest_ok_subtree [OF assms(2), of 20] nullifier_ok [OF assms(3,4)]
  by (simp add: validate_common_def canonical_of_ok canon_def word_less_nat_alt word_le_nat_alt M31_P_def capacity_eq unat_of_nat)

lemma honest_transfer_accepted:
  assumes leaf: "k < length leaves" "leaves ! k = pool_v1_note_commitment (derive_owner_key key) v (id_asset_id identity) salt"
    and leaves: "length leaves \<le> 2 ^ 20" "list_all digest_ok leaves" and owner: "digest_ok key" "digest_ok salt"
    and fresh: "pool_v1_nullifier key salt \<notin> set spent"
    and pool: "id_pool identity \<noteq> zeros 32" "id_deployment_domain identity \<noteq> zeros 32" "canon (id_asset_id identity)"
    and out: "output_ok recipient" "output_ok change" "unat v = unat (ow_value recipient) + unat (ow_value change)" "unat v < 2 ^ 30"
  shows "evaluate_pool_v1_private_transfer_v1 (honest_transfer identity leaves key salt recipient change)
      \<lparr> tw_input = honest_input key salt v leaves k, tw_recipient = recipient, tw_change = change \<rparr>
      (authenticated_context identity leaves spent) = Inr ()"
  using honest_consumed [OF leaf leaves owner fresh] honest_common [OF leaves owner pool] created_note [OF out(1) pool(3)]
    created_note [OF out(2) pool(3)] out(3,4)
  by (simp add: evaluate_transfer_eq transfer_relation_def validate_pool_v1_private_transfer_public_v1_def transfer_public_common_def
      honest_transfer_def) (simp add: honest_input_def)

lemma honest_withdrawal_accepted:
  assumes leaf: "k < length leaves" "leaves ! k = pool_v1_note_commitment (derive_owner_key key) v (id_asset_id identity) salt"
    and leaves: "length leaves \<le> 2 ^ 20" "list_all digest_ok leaves" and owner: "digest_ok key" "digest_ok salt"
    and fresh: "pool_v1_nullifier key salt \<notin> set spent"
    and pool: "id_pool identity \<noteq> zeros 32" "id_deployment_domain identity \<noteq> zeros 32" "canon (id_asset_id identity)"
    and out: "output_ok change" "unat v = unat (ow_value change) + unat amount" "unat v < 2 ^ 30" "amount \<noteq> 0" "destination \<noteq> zeros 32"
  shows "evaluate_pool_v1_withdrawal_v1 (honest_withdrawal identity leaves key salt amount destination change)
      \<lparr> dw_input = honest_input key salt v leaves k, dw_change = change \<rparr> (authenticated_context identity leaves spent) = Inr ()"
  using honest_consumed [OF leaf leaves owner fresh] honest_common [OF leaves owner pool] created_note [OF out(1) pool(3)] out(2-)
  by (simp add: evaluate_withdrawal_eq withdrawal_relation_def validate_pool_v1_withdrawal_public_v1_def withdrawal_public_common_def
      honest_withdrawal_def value_range) (simp add: honest_input_def)

end
