(* ===== verification/NoteLife.thy ===== *)
theory NoteLife
  imports PoolExample PaymentRelation
begin

text \<open>
  The life of a note, across the pool program and the payment relation. A deposit creates a note its owner can spend: the owner has a
  witness for the relation against the root the pool then has. A transfer or withdrawal whose statement the relation accepts consumes a
  leaf of the pool and creates notes, and pays out an amount, of the same total value.
\<close>

section \<open>Deposited notes\<close>

lemma deposited_note:
  assumes run: "process_deposit_with_runtime_v1 env runtime pid accounts data = Inr (accounts', out)"
    and holds: "state_holds (accounts ! 0) s leaves" "pages_hold env pid (ac_key (accounts ! 0)) leaves accounts"
    and calls: "system_calls_ok env pid" "token_calls_ok runtime pid" and data: "decode_deposit_top_level_v1 data = Inr request"
  shows "state_holds (accounts' ! 0) (s\<lparr> ps_tree := tree_of (leaves @ [deposit_note s request]) \<rparr>) (leaves @ [deposit_note s request])"
    "ac_key (accounts ! 0) \<noteq> zeros 32"
proof -
  from deposit_handler [OF run holds calls] data obtain n where
      new: "outputs_appended env pid s leaves [deposit_note s request] 1 n accounts accounts'"
      and event: "encode_deposit_event_return_data_v1 (deposit_event_of s leaves (deposit_tokens n accounts) request) = Inr out"
    by (auto simp: pool_append_def)
  show "state_holds (accounts' ! 0) (s\<lparr> ps_tree := tree_of (leaves @ [deposit_note s request]) \<rparr>) (leaves @ [deposit_note s request])"
    using new holds(1) appended_holds [of "accounts ! 0" s leaves "[deposit_note s request]"] by (simp add: outputs_appended_def Let_def)
  show "ac_key (accounts ! 0) \<noteq> zeros 32"
    using event holds(1) by (auto simp: encode_deposit_event_return_data_v1_def encode_deposit_receipt_v1_def validate_deposit_receipt_v1_def
        deposit_event_of_def state_holds_def split: if_splits)
qed

lemma deposited_note_spendable:
  assumes run: "process_deposit_with_runtime_v1 env runtime pid accounts data = Inr (accounts', out)"
    and holds: "state_holds (accounts ! 0) s leaves" "pages_hold env pid (ac_key (accounts ! 0)) leaves accounts"
    and calls: "system_calls_ok env pid" "token_calls_ok runtime pid" and data: "decode_deposit_top_level_v1 data = Inr request"
    and owner: "rq_owner_key request = derive_owner_key key" "digest_ok key" "pool_v1_nullifier key (rq_salt request) \<notin> set spent"
    and outs: "output_ok recipient" "output_ok change" "unat (rq_amount request) = unat (ow_value recipient) + unat (ow_value change)"
    and domain: "id_deployment_domain (ps_identity s) \<noteq> zeros 32"
  defines "after \<equiv> leaves @ [deposit_note s request]"
  shows "state_holds (accounts' ! 0) (s\<lparr> ps_tree := tree_of after \<rparr>) after
    \<and> evaluate_pool_v1_private_transfer_v1 (honest_transfer (ps_identity s) after key (rq_salt request) recipient change)
        \<lparr> tw_input = honest_input key (rq_salt request) (rq_amount request) after (length leaves), tw_recipient = recipient, tw_change = change \<rparr>
        (authenticated_context (ps_identity s) after spent) = Inr ()"
proof
  note new = deposited_note [OF run holds calls data]
  show held: "state_holds (accounts' ! 0) (s\<lparr> ps_tree := tree_of after \<rparr>) after" unfolding after_def by (rule new)
  from state_holds_facts(1) [OF this] have leaves: "length after \<le> 2 ^ 20" "list_all digest_ok after"
      "canon (id_asset_id (ps_identity s))" "id_pool (ps_identity s) \<noteq> zeros 32"
    using new(2) holds(1) by (auto simp: pool_represents_def identity_ok_def state_holds_def)
  note request = decoded_deposit_facts [OF data]
  have "unat (rq_amount request) < 2 ^ 30" using request(5) by (simp add: word_less_nat_alt limb_limit)
  moreover have "length leaves < length after" "after ! length leaves
      = pool_v1_note_commitment (derive_owner_key key) (rq_amount request) (id_asset_id (ps_identity s)) (rq_salt request)"
    by (simp_all add: after_def deposit_note_def owner(1))
  ultimately show "evaluate_pool_v1_private_transfer_v1 (honest_transfer (ps_identity s) after key (rq_salt request) recipient change)
        \<lparr> tw_input = honest_input key (rq_salt request) (rq_amount request) after (length leaves), tw_recipient = recipient, tw_change = change \<rparr>
        (authenticated_context (ps_identity s) after spent) = Inr ()"
    using leaves owner(2,3) request(3) outs domain by (intro honest_transfer_accepted)
qed

section \<open>Spent notes\<close>

text \<open>The note an accepted witness consumes is a leaf of the pool under the anchor, or the path collides with the tree.\<close>

definition spends_leaf :: "digest list \<Rightarrow> nat \<Rightarrow> m31 \<Rightarrow> input_note_witness \<Rightarrow> bool" where
  "spends_leaf leaves q asset input \<longleftrightarrow>
     (let i = unat (mw_index (iw_membership input));
          leaf = pool_v1_note_commitment (derive_owner_key (iw_nullifier_key input)) (iw_value input) asset (iw_salt input)
      in leaf_at (take q leaves) i = leaf
       \<or> (\<exists>a b c e. path_collision pool_v1_tree_parent i (mw_siblings (iw_membership input)) leaf
            (siblings_of 20 i (take q leaves)) (leaf_at (take q leaves) i) = Some ((a, b), (c, e))
          \<and> (a, b) \<noteq> (c, e) \<and> pool_v1_tree_parent a b = pool_v1_tree_parent c e))"

lemma consumed_spends_leaf:
  assumes "input_consumed common input context" "witness_shaped input" "cc_anchor_root common = root_after leaves q"
  shows "spends_leaf leaves q (cc_asset_id common) input"
  using consumed_leaf [OF assms(1,2), of "take q leaves"] assms(3) by (simp add: spends_leaf_def root_after_def Let_def)

lemma transfer_conserves:
  assumes run: "process_private_transfer_with_runtime_v1 env verify hash pid accounts data slot = Inr (accounts', receipt)"
    and holds: "state_holds (accounts ! 0) s leaves" "pages_hold env pid (ac_key (accounts ! 0)) leaves accounts" "system_calls_ok env pid"
    and i: "decode_private_transfer_instruction_v1 data = Inr i"
    and true: "evaluate_pool_v1_private_transfer_v1 (transfer_public_of (pt_statement i)) w context = Inr ()" "witness_shaped (tw_input w)"
  shows "spends_leaf leaves (unat (ae_anchor_sequence (pt_envelope i))) (id_asset_id (ps_identity s)) (tw_input w)
    \<and> ae_nullifier (pt_envelope i) = pool_v1_nullifier (iw_nullifier_key (tw_input w)) (iw_salt (tw_input w))
    \<and> (let after = leaves @ [note_of (id_asset_id (ps_identity s)) (tw_recipient w), note_of (id_asset_id (ps_identity s)) (tw_change w)]
       in state_holds (accounts' ! 0) (s\<lparr> ps_tree := tree_of after \<rparr>) after)
    \<and> unat (iw_value (tw_input w)) = unat (ow_value (tw_recipient w)) + unat (ow_value (tw_change w))"
proof -
  from transfer_correct [OF run holds] i obtain layout where
      effect: "spend_effect env pid s leaves (pt_envelope i) [ts_recipient_commitment (pt_statement i), ts_change_commitment (pt_statement i)]
        layout accounts accounts'" and asset: "ts_asset_id (pt_statement i) = id_asset_id (ps_identity s)"
    by auto
  have bound: "ts_nullifier (pt_statement i) = ae_nullifier (pt_envelope i)" "ts_anchor_root (pt_statement i) = ae_anchor_root (pt_envelope i)"
    using transfer_payload_statement(2) [OF i]
    by (auto simp: validate_pool_v1_private_transfer_envelope_binding_v1_def validate_envelope_common_def public_common split: if_splits)
  from true have rel: "transfer_relation (transfer_public_of (pt_statement i)) w context" by (simp add: evaluate_transfer_eq)
  have anchor: "ae_anchor_root (pt_envelope i) = root_after leaves (unat (ae_anchor_sequence (pt_envelope i)))"
    using effect by (auto simp: spend_effect_def Let_def anchor_retained_def)
  have "spends_leaf leaves (unat (ae_anchor_sequence (pt_envelope i))) (ts_asset_id (pt_statement i)) (tw_input w)"
    using consumed_spends_leaf [OF _ true(2)] rel bound(2) anchor by (force simp: transfer_relation_def public_common)
  moreover have "state_holds (accounts' ! 0) (s\<lparr> ps_tree := tree_of (leaves @ [ts_recipient_commitment (pt_statement i), ts_change_commitment (pt_statement i)]) \<rparr>)
      (leaves @ [ts_recipient_commitment (pt_statement i), ts_change_commitment (pt_statement i)])"
    using effect holds(1) appended_holds [of "accounts ! 0" s leaves "[ts_recipient_commitment (pt_statement i), ts_change_commitment (pt_statement i)]"]
    by (simp add: spend_effect_def outputs_appended_def Let_def)
  ultimately show ?thesis
    using rel bound(1) asset by (simp add: transfer_relation_def input_consumed_def note_created_def note_of_def public_common transfer_public_of_def
        transfer_public_common_def Let_def)
qed

lemma withdrawal_conserves:
  assumes run: "process_withdrawal_with_runtime_v1 env runtime verify hash pid accounts data slot = Inr (accounts', receipt)"
    and holds: "state_holds (accounts ! 0) s leaves" "pages_hold env pid (ac_key (accounts ! 0)) leaves accounts" "system_calls_ok env pid"
      "token_calls_ok runtime pid"
    and i: "decode_withdrawal_instruction_v1 data = Inr i"
    and true: "evaluate_pool_v1_withdrawal_v1 (withdrawal_public_of (wi_statement i)) w context = Inr ()" "witness_shaped (dw_input w)"
  shows "spends_leaf leaves (unat (ae_anchor_sequence (wi_envelope i))) (id_asset_id (ps_identity s)) (dw_input w)
    \<and> ae_nullifier (wi_envelope i) = pool_v1_nullifier (iw_nullifier_key (dw_input w)) (iw_salt (dw_input w))
    \<and> (let after = leaves @ [note_of (id_asset_id (ps_identity s)) (dw_change w)]
       in state_holds (accounts' ! 0) (s\<lparr> ps_tree := tree_of after \<rparr>) after)
    \<and> (\<exists>k amount. withdrawal_moves (drop k accounts) (drop k accounts') amount
        \<and> vault_account_ok env pid (ac_key (accounts ! 0)) (id_asset_mint (ps_identity s)) (accounts ! (k + 1))
        \<and> unat (iw_value (dw_input w)) = unat (ow_value (dw_change w)) + amount)"
proof -
  from withdrawal_correct [OF run holds] i obtain layout where
      effect: "spend_effect env pid s leaves (wi_envelope i) [ws_change_commitment (wi_statement i)] layout accounts accounts'"
      and asset: "ws_asset_id (wi_statement i) = id_asset_id (ps_identity s)"
      and moves: "withdrawal_moves (drop (sl_suffix_start layout + 7) accounts) (drop (sl_suffix_start layout + 7) accounts')
        (unat (ws_amount (wi_statement i)))"
      and vault: "vault_account_ok env pid (ac_key (accounts ! 0)) (id_asset_mint (ps_identity s)) (accounts ! (sl_suffix_start layout + 8))"
    by auto
  have bound: "ws_nullifier (wi_statement i) = ae_nullifier (wi_envelope i)" "ws_anchor_root (wi_statement i) = ae_anchor_root (wi_envelope i)"
    using withdrawal_payload_statement(2) [OF i]
    by (auto simp: validate_pool_v1_withdrawal_envelope_binding_v1_def validate_envelope_common_def public_common split: if_splits)
  from true have rel: "withdrawal_relation (withdrawal_public_of (wi_statement i)) w context" by (simp add: evaluate_withdrawal_eq)
  have anchor: "ae_anchor_root (wi_envelope i) = root_after leaves (unat (ae_anchor_sequence (wi_envelope i)))"
    using effect by (auto simp: spend_effect_def Let_def anchor_retained_def)
  have leaf: "spends_leaf leaves (unat (ae_anchor_sequence (wi_envelope i))) (ws_asset_id (wi_statement i)) (dw_input w)"
    using consumed_spends_leaf [OF _ true(2)] rel bound(2) anchor by (force simp: withdrawal_relation_def public_common)
  have held: "state_holds (accounts' ! 0) (s\<lparr> ps_tree := tree_of (leaves @ [ws_change_commitment (wi_statement i)]) \<rparr>)
      (leaves @ [ws_change_commitment (wi_statement i)])"
    using effect holds(1) appended_holds [of "accounts ! 0" s leaves "[ws_change_commitment (wi_statement i)]"]
    by (simp add: spend_effect_def outputs_appended_def Let_def)
  have "unat (iw_value (dw_input w)) = unat (ow_value (dw_change w)) + unat (ws_amount (wi_statement i))"
    using rel by (simp add: withdrawal_relation_def withdrawal_public_of_def)
  then have "\<exists>k amount. withdrawal_moves (drop k accounts) (drop k accounts') amount
        \<and> vault_account_ok env pid (ac_key (accounts ! 0)) (id_asset_mint (ps_identity s)) (accounts ! (k + 1))
        \<and> unat (iw_value (dw_input w)) = unat (ow_value (dw_change w)) + amount"
  proof (intro exI conjI)
    show "withdrawal_moves (drop (sl_suffix_start layout + 7) accounts) (drop (sl_suffix_start layout + 7) accounts') (unat (ws_amount (wi_statement i)))"
      by (rule moves)
    show "vault_account_ok env pid (ac_key (accounts ! 0)) (id_asset_mint (ps_identity s)) (accounts ! (sl_suffix_start layout + 7 + 1))"
      using vault by (simp add: add.commute)
  qed
  with leaf held show ?thesis
    using rel bound(1) asset
    by (simp add: withdrawal_relation_def input_consumed_def note_created_def note_of_def public_common withdrawal_public_of_def
        withdrawal_public_common_def Let_def)
qed

section \<open>A note to spend\<close>

definition example_output :: "u32 \<Rightarrow> output_note_witness" where
  "example_output v = \<lparr> ow_owner_key = example_digest 3, ow_salt = example_digest 4, ow_value = v \<rparr>"

lemma example_output_value [simp]: "ow_value (example_output v) = v"
  by (simp add: example_output_def)

definition example_leaf :: digest where
  "example_leaf = pool_v1_note_commitment (derive_owner_key (example_digest 1)) 70 (M31 7) (example_digest 2)"

abbreviation example_nullifier :: digest where
  "example_nullifier \<equiv> pool_v1_nullifier (example_digest 1) (example_digest 2)"

lemma example_asset: "canon (M31 7)"
  by (simp add: canon_def M31_P_def)

lemma example_output_ok: "unat v < 2 ^ 30 \<Longrightarrow> output_ok (example_output v)"
  by (simp add: output_ok_def example_output_def)

lemma example_leaf_few: "few [example_leaf]"
  using note_commitment_ok [OF owner_key_ok [of "example_digest 1"] _ example_asset, of "example_digest 2" 70]
  by (simp add: few_def example_leaf_def word_less_nat_alt limb_limit)

lemma example_note_ok: "unat v < 2 ^ 30 \<Longrightarrow> digest_ok (note_of (M31 7) (example_output v))"
  using note_commitment_ok [of "example_digest 3" "example_digest 4" "M31 7" v] example_asset
  by (simp add: note_of_def example_output_def word_less_nat_alt limb_limit)

abbreviation example_input :: input_note_witness where
  "example_input \<equiv> honest_input (example_digest 1) (example_digest 2) 70 [example_leaf] 0"

lemma example_identity:
  "id_pool (ps_identity (example_state leaves)) = pool_key" "id_deployment_domain (ps_identity (example_state leaves)) = replicate 32 20"
  "id_asset_id (ps_identity (example_state leaves)) = M31 7"
  by (simp_all add: example_state_def)

lemma example_spend_facts:
  "0 < length [example_leaf]" "length [example_leaf] \<le> 2 ^ 20" "list_all digest_ok [example_leaf]" "digest_ok (example_digest 1)" "digest_ok (example_digest 2)"
  "[example_leaf] ! 0 = pool_v1_note_commitment (derive_owner_key (example_digest 1)) 70 (id_asset_id (ps_identity (example_state leaves))) (example_digest 2)"
  "id_pool (ps_identity (example_state leaves)) \<noteq> zeros 32" "id_deployment_domain (ps_identity (example_state leaves)) \<noteq> zeros 32"
  "canon (id_asset_id (ps_identity (example_state leaves)))"
  using example_leaf_few example_asset by (simp_all add: few_def example_identity pool_key_def zeros_def) (simp add: example_leaf_def)

lemma example_transfer_true:
  "evaluate_pool_v1_private_transfer_v1
     (transfer_public_of (transfer_statement_of [example_leaf] example_nullifier (note_of (M31 7) (example_output 50)) (note_of (M31 7) (example_output 20))))
     \<lparr> tw_input = example_input, tw_recipient = example_output 50, tw_change = example_output 20 \<rparr>
     (authenticated_context (ps_identity (example_state [example_leaf])) [example_leaf] []) = Inr ()"
proof -
  have "transfer_public_of (transfer_statement_of [example_leaf] example_nullifier (note_of (M31 7) (example_output 50)) (note_of (M31 7) (example_output 20)))
      = honest_transfer (ps_identity (example_state [example_leaf])) [example_leaf] (example_digest 1) (example_digest 2) (example_output 50) (example_output 20)"
    by (simp add: honest_transfer_def transfer_public_of_def transfer_statement_of_def example_identity root_after_def)
  with honest_transfer_accepted [OF example_spend_facts(1,6,2-5) _ example_spend_facts(7-9), where spent = "[]"]
  show ?thesis by (simp add: example_output_ok)
qed

lemma example_withdrawal_true:
  "evaluate_pool_v1_withdrawal_v1 (withdrawal_public_of (withdrawal_statement_of [example_leaf] example_nullifier (note_of (M31 7) (example_output 30))))
     \<lparr> dw_input = example_input, dw_change = example_output 30 \<rparr>
     (authenticated_context (ps_identity (example_state [example_leaf])) [example_leaf] []) = Inr ()"
proof -
  have "withdrawal_public_of (withdrawal_statement_of [example_leaf] example_nullifier (note_of (M31 7) (example_output 30)))
      = honest_withdrawal (ps_identity (example_state [example_leaf])) [example_leaf] (example_digest 1) (example_digest 2) 40 (replicate 32 12)
        (example_output 30)"
    by (simp add: honest_withdrawal_def withdrawal_public_of_def withdrawal_statement_of_def example_identity root_after_def)
  with honest_withdrawal_accepted [OF example_spend_facts(1,6,2-5) _ example_spend_facts(7-9), where spent = "[]"]
  show ?thesis by (simp add: example_output_ok zeros_def)
qed

end
