(* ===== verification/Spec2Isabelle.thy ===== *)
theory Spec2Isabelle
  imports FieldDots NoteLife
begin

text \<open>
  A verification of Aspis, a shielded payment pool on Solana: the pool program with its deposits, private transfers and
  withdrawals, the registry program that governs which verifier the pool accepts, and under both the note tree, the root
  history, the wire formats, the hash and the field arithmetic.

  \<^bold>\<open>Parts of the program.\<close> Notes are leaves of an append-only Merkle tree of depth 20 over Poseidon2. The pool account
  keeps the tree (\<^verbatim>\<open>incremental_merkle.rs\<close>) and its history pages retain every root, 256 to a page
  (\<^verbatim>\<open>root_history.rs\<close>), so that a spend may refer to an earlier root. A spend carries an envelope that names the pool, the
  anchor, the nullifier and a verifier release; the pool (\<^verbatim>\<open>programs/aspis-pool\<close>) authenticates the anchor, asks the
  verifier program of that release, takes the nullifier marker and appends the outputs. What the verifier is asked about is the payment relation
  (\<^verbatim>\<open>payment_relation.rs\<close>): a note under the anchor, its nullifier, and outputs of the same value. Releases are listed in accounts of a separate
  governance program (\<^verbatim>\<open>programs/aspis-registry\<close>) that the pool reads. Proofs are over the Mersenne-31
  field and its quartic extension (\<^verbatim>\<open>field.rs\<close>).

  \<^bold>\<open>Theories of the foundations.\<close>
  \<^item> \<open>Prelude\<close>: machine integers, results with early return, little-endian words, byte images, and the contracts
    \<open>canonical_codec\<close> and \<open>image_codec\<close> of a wire format.
  \<^item> \<open>PrimeField\<close>: the prime field of \<open>2^31 - 1\<close> elements, its complex and quartic extensions as HOL types.
  \<^item> \<open>Field\<close>, \<open>FieldKernels\<close>, \<open>FieldDots\<close>: \<^verbatim>\<open>crates/aspis-core/src/field.rs\<close> on words: reductions, arithmetic of M31, CM31
    and QM31, inversion, batch inversion, prepared multipliers, polynomial evaluation and the dot-product kernels.
    Every operation is shown to compute in \<open>PrimeField\<close> what its name says, with no intermediate word wrapping.
  \<^item> \<open>Poseidon2\<close>, \<open>PoseidonEval\<close>: \<^verbatim>\<open>crates/aspis-statement/src/poseidon2.rs\<close>: the permutation in its plain, optimised and traced
    forms, the trace evaluator, the sponge and the tree nodes, against a specification over the integers, and how the kernel evaluates it.
  \<^item> \<open>Spend\<close>: \<^verbatim>\<open>spend.rs\<close>, the relation of a single-output spend, by value and by ten-bit limbs.
  \<^item> \<open>PaymentRelation\<close>: \<^verbatim>\<open>pool_v1/payment_relation.rs\<close>, the public statements of transfers and withdrawals and their evaluators: they decide the
    relations over natural numbers, agree with the payloads of the instruction wires, and accept the honest witness of a leaf; a membership path is
    one of the full tree or exhibits a collision.
  \<^item> \<open>Formats\<close>, \<open>SpendFormats\<close>, \<open>DepositFormats\<close>, \<open>DispatchFormats\<close>: digests, pool identities and verifier policies; envelopes and nullifier
    markers; deposits; requests to a verifier and its results (\<^verbatim>\<open>crates/aspis-statement/src/pool_v1\<close>).
  \<^item> \<open>RootHistory\<close>: \<^verbatim>\<open>pool_v1/root_history.rs\<close>, pages edited in place in account bytes and pages as host values.
  \<^item> \<open>IncrementalMerkle\<close>, \<open>EmptyRoots\<close>: \<^verbatim>\<open>pool_v1/incremental_merkle.rs\<close>, the frontier tree, against the root of the full tree, and the
    pinned tables of empty roots.
  \<^item> \<open>Runtime\<close>, \<open>Ledger\<close>: accounts, the calls of the runtime that both programs make, and a ledger of accounts with the contract
    \<open>tracked_store\<close> of what its transactions keep.

  \<^bold>\<open>Theories of the registry program.\<close>
  \<^item> \<open>VerifierRegistry\<close>, \<open>RegistryInstruction\<close>: the account images and instruction wires of the registry.
  \<^item> \<open>RegistryProcessor\<close>: \<^verbatim>\<open>programs/aspis-registry/src/processor.rs\<close>, every handler over a list of accounts.
  \<^item> \<open>RegistryGovernance\<close>, \<open>RegistryLedger\<close>, \<open>RegistryService\<close>: the abstract governance machine, the refinement,
    runs of a ledger, enabled calls and refusals.

  \<^bold>\<open>Theories of the pool program.\<close> Each models the file of \<^verbatim>\<open>programs/aspis-pool/src\<close> it is named after.
  \<^item> \<open>PoolState\<close>, \<open>PoolHistory\<close>, \<open>PoolTransition\<close>, \<open>PoolAnchor\<close>: the state account and its decoders, the pages, initialization and
    the authorized append of one or two leaves, the authentication of an anchor and the plan of a nullifier marker. \<open>TransitionCorrect\<close> and \<open>PoolAppend\<close> show
    that every entry point, whatever evidence it starts from, turns the accounts of a leaf list into those of the longer list.
  \<^item> \<open>VerifierSelection\<close>, \<open>VerifierDispatch\<close>: the check of a release against the registry accounts, which is shown to read what the registry program
    maintains, and the call of the selected verifier with the authentication of its answer.
  \<^item> \<open>Vault\<close>, \<open>Deposit\<close>, \<open>PoolInstruction\<close>: token accounts and transfers, deposits, and the instruction wires.
  \<^item> \<open>PoolProcessor\<close>: \<^verbatim>\<open>processor.rs\<close>, the handlers of initialization, deposit, private transfer and withdrawal.
  \<^item> \<open>SpendCorrect\<close>, \<open>PoolHandlers\<close>: what each handler has done when it succeeds. \<open>PoolLedger\<close>: runs of a ledger on which
    pools are called and other programs act. \<open>PoolService\<close>: calls that succeed. \<open>PoolExample\<close>: a concrete pool, registry, verifier and token
    program on which every handler is run; it also shows that a pool created with the all-zero deployment domain takes deposits and never releases one.
  \<^item> \<open>NoteLife\<close>: the pool program and the payment relation together: deposited notes can be spent, spends conserve value.

  \<^bold>\<open>How code corresponds to definitions.\<close> A Rust struct is a record, an enum a datatype, \<^verbatim>\<open>Result<T, E>\<close> a sum
  with the error on the left, \<^verbatim>\<open>?\<close> is \<open>bindE\<close>. Integers keep their width; byte arrays are lists whose lengths are
  the \<open>_ok\<close> predicates. Loops are folds or structural recursions, so every operation is total and nothing needs fuel. A program handler
  takes the accounts of the call and returns them as it leaves them; an error returns no accounts, as the runtime
  reverts the transaction. Accounts written through a reference are put back in the list at their positions. Borrow failures of account
  data cannot occur after the distinctness check and are not modelled.

  \<^bold>\<open>Interfaces.\<close> \<open>canonical_codec\<close> and \<open>image_codec\<close> are interpreted for every layout and wire; the public statements included; \<open>spend_wire\<close> for transfers and
  withdrawals; \<open>sequenced_page\<close> for account and host pages; \<open>append_log\<close> for the checked tree, the sealed tree and the append that trusts
  the program's own state; \<open>montgomery\<close> for both batch inversions; \<open>registry_version\<close> for both versions of the registry program;
  \<open>tracked_store\<close> for registries, entries and nullifier markers on the ledger.

  \<^bold>\<open>Parameters.\<close> Address derivation, SHA-256, loader-state decoding, rent, clock and cross-program calls are the record \<open>solana\<close>; the
  token program and the verifier program are the record \<open>pool_runtime\<close>. \<open>runtime_ok\<close>, \<open>system_calls_ok\<close> and \<open>token_calls_ok\<close> state what the
  theorems rely on of them: hashes and derived addresses of 32 bytes, and that a call of another program
  keeps the keys of the accounts and changes no account the calling program owns. What the verifier's answer is worth is outside this development: the properties say for which
  statement, proof and release it was given. Hash collisions are never assumed away: a membership path that is not one of the tree returns a collision, and
  two nullifiers are told apart by the markers at their addresses.

  \<^bold>\<open>Properties.\<close> C1 to C10 are about the pool program, C11 to C16 about payments, C17 to C19 about the note tree, C20 and C21 about retained roots, C22 to C28 about the
  registry program, C29 to C32 about wire formats, C33 to C35 about Poseidon2 and C36 to C39 about the field.

  \<^bold>\<open>Not modelled.\<close> Of the pool program, the two-phase prepared settlement and the pair and forest pools, with the opcodes of the
  dispatch that lead to them. The verifier program and the argument system under it (FRI, sumcheck, transcript, one-fold verifiers), the constraint systems
  with their generated tables, the prover, the wallet and relayer (files and network) and the workspace tools.
\<close>

section \<open>The pool program\<close>

text \<open>
  C1. No note is spent twice. After a transfer or a withdrawal that consumed a nullifier, and any further initializations, deposits, transfers and
  withdrawals of the pool program and transactions of other programs, no transfer or withdrawal of that nullifier in that pool succeeds, on any accounts.
\<close>

theorem no_double_spend:
  assumes "spend_call env runtime pid accs e accs'" "accounts_of L accs" "\<forall>a \<in> set accs. length (ac_key a) = 32"
    and "(pool_step env runtime pid)\<^sup>*\<^sup>* (write_back L accs') M" "accounts_of M accs2"
    and "ledger_ok env pid L" "system_calls_ok env pid" "token_calls_ok runtime pid"
  shows "\<not> (spend_call env runtime pid accs2 e2 accs2' \<and> ae_pool e2 = ae_pool e \<and> ae_nullifier e2 = ae_nullifier e)"
  using nullifier_once [OF assms(1-4) _ assms(5-8)] by blast

theorem no_double_spend_witness:
  "\<exists>accs'. spend_call pool_env pool_example_runtime pool_program transfer_accounts (spend_envelope [] PrivateTransfer (example_digest 5)) accs'
    \<and> \<not> spend_call pool_env pool_example_runtime pool_program accs' (spend_envelope [] Withdrawal (example_digest 5)) transfer_accounts"
proof -
  let ?e = "spend_envelope [] PrivateTransfer (example_digest 5)"
  obtain data i accs' receipt where i: "decode_private_transfer_instruction_v1 data = Inr i" "pt_envelope i = ?e"
    and run: "process_private_transfer_with_runtime_v1 pool_env (dispatch_selected_verifier_v1 pool_env pool_example_runtime) (solana_sha256 pool_env)
        pool_program transfer_accounts data 50 = Inr (accs', receipt)"
    using example_transfer [of "example_digest 5" "[]" "example_digest 3" "example_digest 4"] by auto
  have call: "spend_call pool_env pool_example_runtime pool_program transfer_accounts ?e accs'"
    using spend_call.transfer [OF run i(1)] i(2) by simp
  then have "map ac_key accs' = map ac_key transfer_accounts"
    using spend_call_effect [OF call spend_ledger_view example_ledger_ok pool_env_calls example_token_calls] by blast
  then have view: "accounts_of (write_back spend_ledger accs') accs'" using transfer_keys(1) by (intro written_view) simp
  show ?thesis
    using call no_double_spend [OF call spend_ledger_view transfer_keys(2) rtranclp.rtrancl_refl view example_ledger_ok pool_env_calls
        example_token_calls, of "spend_envelope [] Withdrawal (example_digest 5)" transfer_accounts]
    by (auto simp: spend_envelope_def)
qed

text \<open>
  C2. Along any run of initializations, deposits, transfers, withdrawals and transactions of other programs a pool only grows: its leaves stay a prefix of the later leaves, its account and its history pages
  represent exactly the later list, and its identity and verifier policy never change.
\<close>

theorem pool_along_runs:
  assumes "(pool_step env runtime pid)\<^sup>*\<^sup>* L L'" "ledger_ok env pid L" "system_calls_ok env pid" "token_calls_ok runtime pid"
    and "pool_at env pid L k s leaves"
  shows "\<exists>s' new. pool_at env pid L' k s' (leaves @ new) \<and> ps_identity s' = ps_identity s \<and> ps_verifier_policy s' = ps_verifier_policy s
    \<and> ledger_ok env pid L'"
proof -
  obtain s' leaves' where "pool_at env pid L' k s' leaves'" "pool_evolves (s, leaves) (s', leaves')" using run_pool [OF assms] by blast
  then show ?thesis using run_checked [OF assms(1-4)] by (auto simp: pool_evolves_def)
qed

theorem pool_along_runs_witness:
  "\<exists>L' s' new. pool_step pool_env pool_example_runtime pool_program spend_ledger L' \<and> pool_at pool_env pool_program L' pool_key s' ([] @ new)
    \<and> ps_identity s' = ps_identity first_state"
proof -
  obtain accs' where "pool_call pool_env pool_example_runtime pool_program transfer_accounts accs'"
    using example_transfer [of "example_digest 5" "[]" "example_digest 3" "example_digest 4"] by (auto intro: pool_call.transfer)
  then have step: "pool_step pool_env pool_example_runtime pool_program spend_ledger (write_back spend_ledger accs')"
    using spend_ledger_view transfer_keys(2) by (intro pool_step.call)
  from pool_along_runs [OF r_into_rtranclp [of "pool_step pool_env pool_example_runtime pool_program", OF step] example_ledger_ok pool_env_calls
      example_token_calls example_pool_at]
  show ?thesis using step by blast
qed

text \<open>
  C3. A private transfer that succeeds has done exactly this: its anchor is a root the pool had, its nullifier marker did not exist and now
  does, the two outputs are the next leaves with their roots in the history pages, no other account of the program
  changed, the receipt names the leaves, and a live release of the pool's registry has answered for the exact statement and proof.
\<close>

theorem private_transfer_correct:
  assumes "process_private_transfer_with_runtime_v1 env (dispatch_selected_verifier_v1 env runtime) (solana_sha256 env) pid accounts data slot
      = Inr (accounts', receipt)"
    and "state_holds (accounts ! 0) s leaves" "pages_hold env pid (ac_key (accounts ! 0)) leaves accounts" "system_calls_ok env pid"
  shows "\<exists>i layout. decode_private_transfer_instruction_v1 data = Inr i
    \<and> spend_effect env pid s leaves (pt_envelope i) [ts_recipient_commitment (pt_statement i), ts_change_commitment (pt_statement i)]
        layout accounts accounts' \<and> length accounts = sl_suffix_start layout + 7 \<and> length accounts' = length accounts
    \<and> ts_asset_id (pt_statement i) = id_asset_id (ps_identity s)
    \<and> spend_authorized env runtime s slot [accounts ! (sl_suffix_start layout + 3), accounts ! (sl_suffix_start layout + 4)] (pt_envelope i)
        (pt_statement_payload i) (accounts ! (sl_suffix_start layout + 5)) (accounts ! (sl_suffix_start layout + 6))
    \<and> live_release env s slot [accounts ! (sl_suffix_start layout + 3), accounts ! (sl_suffix_start layout + 4)] (pt_envelope i)
        (accounts ! (sl_suffix_start layout + 5))
    \<and> encode_transition_receipt_v1 (spend_receipt PrivateTransfer (ac_key (accounts ! 0)) (ts_nullifier (pt_statement i))
        (ts_recipient_commitment (pt_statement i)) (encode_digest_canonical (ts_change_commitment (pt_statement i))) 0 leaves
        [ts_recipient_commitment (pt_statement i), ts_change_commitment (pt_statement i)]) = Inr receipt"
proof -
  have pool: "id_pool (ps_identity s) = ac_key (accounts ! 0)" using assms(2) by (simp add: state_holds_def)
  from transfer_correct [OF assms] show ?thesis
    by (elim exE conjE) (intro exI conjI, assumption+,
      (rule spend_verified_authorized [OF _ pool], assumption),
      (rule authorized_release [OF spend_verified_authorized [OF _ pool]], assumption), assumption)
qed

theorem private_transfer_correct_witness:
  "\<exists>data accounts' receipt i layout. process_private_transfer_with_runtime_v1 pool_env (dispatch_selected_verifier_v1 pool_env pool_example_runtime)
      (solana_sha256 pool_env) pool_program transfer_accounts data 50 = Inr (accounts', receipt)
    \<and> decode_private_transfer_instruction_v1 data = Inr i \<and> ae_nullifier (pt_envelope i) = example_digest 5
    \<and> spend_effect pool_env pool_program first_state [] (pt_envelope i)
        [ts_recipient_commitment (pt_statement i), ts_change_commitment (pt_statement i)] layout transfer_accounts accounts'"
proof -
  obtain data i accounts' receipt where i: "decode_private_transfer_instruction_v1 data = Inr i"
      "pt_envelope i = spend_envelope [] PrivateTransfer (example_digest 5)"
    and run: "process_private_transfer_with_runtime_v1 pool_env (dispatch_selected_verifier_v1 pool_env pool_example_runtime) (solana_sha256 pool_env)
        pool_program transfer_accounts data 50 = Inr (accounts', receipt)"
    using example_transfer [of "example_digest 5" "[]" "example_digest 3" "example_digest 4"] by auto
  note view = example_holds [of "[]" transfer_accounts, simplified]
  obtain j layout where "decode_private_transfer_instruction_v1 data = Inr j" "spend_effect pool_env pool_program first_state [] (pt_envelope j)
      [ts_recipient_commitment (pt_statement j), ts_change_commitment (pt_statement j)] layout transfer_accounts accounts'"
    using private_transfer_correct [OF run view pool_env_calls] by blast
  moreover have "ae_nullifier (pt_envelope i) = example_digest 5" unfolding i(2) by (simp add: spend_envelope_def)
  ultimately show ?thesis using run i(1) by auto
qed

text \<open>
  C4. A withdrawal that succeeds has the same effect with the change note as its single new leaf, and it pays: the vault of the pool
  loses exactly the amount of the statement and the named destination gains it, with no other account of the program changed.
\<close>

theorem withdrawal_pays_once:
  assumes "process_withdrawal_with_runtime_v1 env runtime (dispatch_selected_verifier_v1 env runtime) (solana_sha256 env) pid accounts data slot
      = Inr (accounts', receipt)"
    and "state_holds (accounts ! 0) s leaves" "pages_hold env pid (ac_key (accounts ! 0)) leaves accounts"
    and "system_calls_ok env pid" "token_calls_ok runtime pid"
  shows "\<exists>i layout. decode_withdrawal_instruction_v1 data = Inr i
    \<and> spend_effect env pid s leaves (wi_envelope i) [ws_change_commitment (wi_statement i)] layout accounts accounts'
    \<and> length accounts = sl_suffix_start layout + 12 \<and> length accounts' = length accounts
    \<and> ws_asset_id (wi_statement i) = id_asset_id (ps_identity s)
    \<and> spend_authorized env runtime s slot [accounts ! (sl_suffix_start layout + 3), accounts ! (sl_suffix_start layout + 4)] (wi_envelope i)
        (wi_statement_payload i) (accounts ! (sl_suffix_start layout + 5)) (accounts ! (sl_suffix_start layout + 6))
    \<and> live_release env s slot [accounts ! (sl_suffix_start layout + 3), accounts ! (sl_suffix_start layout + 4)] (wi_envelope i)
        (accounts ! (sl_suffix_start layout + 5))
    \<and> withdrawal_moves (drop (sl_suffix_start layout + 7) accounts) (drop (sl_suffix_start layout + 7) accounts')
        (unat (ws_amount (wi_statement i)))
    \<and> list_all2 (kept pid) (drop (sl_suffix_start layout + 7) accounts) (drop (sl_suffix_start layout + 7) accounts')
    \<and> vault_account_ok env pid (ac_key (accounts ! 0)) (id_asset_mint (ps_identity s)) (accounts ! (sl_suffix_start layout + 8))
    \<and> ac_key (accounts ! (sl_suffix_start layout + 9)) = ws_destination_token_account (wi_statement i)
    \<and> encode_transition_receipt_v1 (spend_receipt Withdrawal (ac_key (accounts ! 0)) (ws_nullifier (wi_statement i))
        (ws_change_commitment (wi_statement i)) (ws_destination_token_account (wi_statement i)) (ws_amount (wi_statement i)) leaves
        [ws_change_commitment (wi_statement i)]) = Inr receipt"
proof -
  have pool: "id_pool (ps_identity s) = ac_key (accounts ! 0)" using assms(2) by (simp add: state_holds_def)
  from withdrawal_correct [OF assms] show ?thesis
    by (elim exE conjE) (intro exI conjI, assumption+,
      (rule spend_verified_authorized [OF _ pool], assumption),
      (rule authorized_release [OF spend_verified_authorized [OF _ pool]], assumption), assumption+)
qed

theorem withdrawal_pays_once_witness:
  "\<exists>data accounts' receipt i (layout :: spend_page_layout). process_withdrawal_with_runtime_v1 pool_env pool_example_runtime
      (dispatch_selected_verifier_v1 pool_env pool_example_runtime) (solana_sha256 pool_env) pool_program withdrawal_accounts data 50 = Inr (accounts', receipt)
    \<and> decode_withdrawal_instruction_v1 data = Inr i \<and> ae_nullifier (wi_envelope i) = example_digest 5
    \<and> withdrawal_moves (drop (sl_suffix_start layout + 7) withdrawal_accounts) (drop (sl_suffix_start layout + 7) accounts')
        (unat (ws_amount (wi_statement i)))"
proof -
  obtain data i accounts' receipt where i: "decode_withdrawal_instruction_v1 data = Inr i"
      "wi_envelope i = spend_envelope [] Withdrawal (example_digest 5)"
    and run: "process_withdrawal_with_runtime_v1 pool_env pool_example_runtime (dispatch_selected_verifier_v1 pool_env pool_example_runtime)
        (solana_sha256 pool_env) pool_program withdrawal_accounts data 50 = Inr (accounts', receipt)"
    using example_withdrawal [of "example_digest 5" "[]" "example_digest 4"] by auto
  note view = example_holds [of "[]" withdrawal_accounts, simplified]
  obtain j and layout :: spend_page_layout where "decode_withdrawal_instruction_v1 data = Inr j" "withdrawal_moves (drop (sl_suffix_start layout + 7) withdrawal_accounts)
      (drop (sl_suffix_start layout + 7) accounts') (unat (ws_amount (wi_statement j)))"
    using withdrawal_pays_once [OF run view pool_env_calls example_token_calls] by blast
  moreover have "ae_nullifier (wi_envelope i) = example_digest 5" unfolding i(2) by (simp add: spend_envelope_def)
  ultimately show ?thesis using run i(1) by auto
qed

text \<open>
  C5. A deposit that succeeds has appended the commitment of exactly the amount the vault received, for the owner key and salt of the
  request and the asset of the pool, as the next leaf, and returned the event of that deposit.
\<close>

theorem deposit_credits_note:
  assumes "process_deposit_with_runtime_v1 env runtime pid accounts data = Inr (accounts', out)"
    and "state_holds (accounts ! 0) s leaves" "pages_hold env pid (ac_key (accounts ! 0)) leaves accounts"
    and "system_calls_ok env pid" "token_calls_ok runtime pid"
  shows "\<exists>request n. decode_deposit_top_level_v1 data = Inr request
    \<and> pool_append env pid s leaves [deposit_note s request] 1 n {} accounts accounts'
    \<and> deposit_moves (deposit_tokens n accounts) (deposit_tokens n accounts') (unat (rq_amount request))
    \<and> vault_account_ok env pid (ac_key (accounts ! 0)) (id_asset_mint (ps_identity s)) (deposit_tokens n accounts ! 3)
    \<and> encode_deposit_event_return_data_v1 (deposit_event_of s leaves (deposit_tokens n accounts) request) = Inr out"
  by (rule deposit_handler [OF assms])

theorem deposit_credits_note_witness:
  "\<exists>data accounts' out n. process_deposit_with_runtime_v1 pool_env pool_example_runtime pool_program deposit_accounts data = Inr (accounts', out)
    \<and> pool_append pool_env pool_program first_state [] [deposit_note first_state example_request] 1 n {} deposit_accounts accounts'
    \<and> deposit_moves (deposit_tokens n deposit_accounts) (deposit_tokens n accounts') 70"
proof -
  obtain data accounts' out where data: "decode_deposit_top_level_v1 data = Inr example_request"
    and run: "process_deposit_with_runtime_v1 pool_env pool_example_runtime pool_program deposit_accounts data = Inr (accounts', out)"
    using example_deposit by blast
  note view = deposit_holds
  have amount: "unat (rq_amount example_request) = 70" by (simp add: example_request_def)
  have "\<exists>n. pool_append pool_env pool_program first_state [] [deposit_note first_state example_request] 1 n {} deposit_accounts accounts'
      \<and> deposit_moves (deposit_tokens n deposit_accounts) (deposit_tokens n accounts') (unat (rq_amount example_request))"
    using deposit_credits_note [OF run view pool_env_calls example_token_calls] data by auto
  with run show ?thesis unfolding amount by blast
qed

text \<open>
  C6. An initialization that succeeds creates the empty pool of the named mint and policy at its derived addresses, with its first history page
  and an empty vault, on accounts that held no data of the program.
\<close>

theorem pool_initialised:
  assumes "process_initialize_with_runtime_v1 env runtime pid accounts data = Inr (accounts', out)"
    and "\<forall>a \<in> set accounts. length (ac_key a) = 32" "system_calls_ok env pid" "token_calls_ok runtime pid"
  shows "\<exists>init s. decode_initialize_instruction_v1 data = Inr init \<and> pool_created env pid init s accounts accounts'
    \<and> vault_account_ok env pid (ac_key (accounts ! 1)) (pi_asset_mint init) (accounts' ! 4) \<and> token_balance (accounts' ! 4) = Some 0
    \<and> out = encode_initialization_receipt_v1 (ac_key (accounts ! 1)) (ac_key (accounts ! 2)) (ac_key (accounts ! 4))"
  by (rule initialize_handler [OF assms])

theorem pool_initialised_witness:
  "\<exists>data accounts' out s. process_initialize_with_runtime_v1 pool_env pool_example_runtime pool_program fresh_accounts data = Inr (accounts', out)
    \<and> pool_created pool_env pool_program (example_initialization (replicate 32 20)) s fresh_accounts accounts'"
proof -
  obtain data accounts' out where data: "decode_initialize_instruction_v1 data = Inr (example_initialization (replicate 32 20))"
    and run: "process_initialize_with_runtime_v1 pool_env pool_example_runtime pool_program fresh_accounts data = Inr (accounts', out)"
    using example_initialize_pool [of "replicate 32 20"] by auto
  have "\<forall>a \<in> set fresh_accounts. length (ac_key a) = 32"
    by (simp add: fresh_accounts_def example_accounts pool_key_def mint_key_def LEGACY_SPL_TOKEN_PROGRAM_ID_def)
  from pool_initialised [OF run this pool_env_calls example_token_calls] data run show ?thesis by auto
qed

text \<open>
  C7. An honest spend goes through: with the pool account, its current page, a free marker account and the payer in place, an anchor in the
  current page, room for both outputs in it, and a live release of the pool's registry that answers for the statement, the transfer succeeds.
\<close>

theorem authorised_transfer_accepted:
  assumes "decode_private_transfer_instruction_v1 data = Inr i" "spend_ready env pid s leaves (pt_envelope i) 2 accounts" "length accounts = 9"
    and "ts_asset_id (pt_statement i) = id_asset_id (ps_identity s)"
    and "dispatch_ready env runtime s (ac_key (accounts ! 0)) slot [accounts ! 5, accounts ! 6] (pt_envelope i) (pt_statement_payload i)
      (accounts ! 7) (accounts ! 8)"
  shows "\<exists>accounts' receipt. process_private_transfer_with_runtime_v1 env (dispatch_selected_verifier_v1 env runtime) (solana_sha256 env) pid
      accounts data slot = Inr (accounts', receipt)"
proof -
  obtain encoded where e: "envelope_ok (pt_envelope i)" "encode_historical_anchor_envelope_v1 (pt_envelope i) = Inr encoded"
      "ae_pool (pt_envelope i) = ac_key (accounts ! 0)" "ae_deployment_domain (pt_envelope i) = id_deployment_domain (ps_identity s)"
    using assms(2) by (auto simp: spend_ready_def is_ok_iff)
  show ?thesis by (rule dispatch_enabled [OF assms(5) e]) (rule transfer_accepted [OF assms(1-4) e(2)])
qed

theorem authorised_transfer_accepted_witness:
  "\<exists>data accounts' receipt. process_private_transfer_with_runtime_v1 pool_env (dispatch_selected_verifier_v1 pool_env pool_example_runtime)
      (solana_sha256 pool_env) pool_program transfer_accounts data 50 = Inr (accounts', receipt)"
proof -
  have ok: "digest_ok (example_digest 5)" by simp
  obtain data i where i: "decode_private_transfer_instruction_v1 data = Inr i" "pt_envelope i = spend_envelope [] PrivateTransfer (example_digest 5)"
      "pt_statement i = transfer_statement_of [] (example_digest 5) (example_digest 3) (example_digest 4)"
    using transfer_wire_exists [OF ok few_Nil, of "example_digest 3" "example_digest 4"] by auto
  have payload: "pt_statement_payload i \<noteq> []" "length (pt_statement_payload i) \<le> POOL_V1_VERIFIER_STATEMENT_PAYLOAD_MAX_BYTES"
    using spend_payload_length(1) [OF i(1)] by (auto simp: POOL_V1_VERIFIER_STATEMENT_PAYLOAD_MAX_BYTES_def)
  have accs: "length transfer_accounts = 9" "ac_key (transfer_accounts ! 0) = pool_key" "transfer_accounts ! 7 = verifier_account"
      "transfer_accounts ! 8 = proof_account" "[transfer_accounts ! 5, transfer_accounts ! 6] = registry_accounts"
    by (simp_all add: spend_accounts_def registry_accounts_def example_pool_def example_plain_def)
  have "ts_asset_id (pt_statement i) = id_asset_id (ps_identity first_state)" by (simp add: i(3) transfer_statement_of_def example_state_def)
  from authorised_transfer_accepted [OF i(1) transfer_ready [OF ok few_Nil, folded i(2)] accs(1) this, unfolded accs, folded accs(5),
      of pool_example_runtime 50] example_dispatch_ready [OF ok few_Nil payload, of PrivateTransfer, folded i(2) accs(5)]
  show ?thesis by blast
qed

text \<open>
  C8. A pool created with the all-zero deployment domain locks what it holds: the initialization is accepted, and after any run of calls that follows it, no transfer or
  withdrawal of that pool succeeds, on any accounts.
\<close>

theorem zero_domain_pool_locked:
  assumes "process_initialize_with_runtime_v1 env runtime pid accounts data = Inr (accounts', out)" "decode_initialize_instruction_v1 data = Inr init"
    and "pi_deployment_domain init = zeros 32" "accounts_of L accounts" "\<forall>a \<in> set accounts. length (ac_key a) = 32"
    and "ledger_ok env pid L" "system_calls_ok env pid" "token_calls_ok runtime pid"
    and "(pool_step env runtime pid)\<^sup>*\<^sup>* (write_back L accounts') M" "accounts_of M accs" "accs \<noteq> []" "ac_key (accs ! 0) = ac_key (accounts ! 1)"
  shows "\<not> spend_call env runtime pid accs e accs'"
  by (rule zero_domain_locks [OF assms])

theorem zero_domain_pool_locked_witness:
  "\<exists>data init accounts' out. decode_initialize_instruction_v1 data = Inr init \<and> pi_deployment_domain init = zeros 32
    \<and> process_initialize_with_runtime_v1 pool_env pool_example_runtime pool_program fresh_accounts data = Inr (accounts', out)
    \<and> (\<forall>e accs'. \<not> spend_call pool_env pool_example_runtime pool_program (tl accounts') e accs')"
proof -
  obtain data accounts' out where data: "decode_initialize_instruction_v1 data = Inr (example_initialization (zeros 32))"
    and run: "process_initialize_with_runtime_v1 pool_env pool_example_runtime pool_program fresh_accounts data = Inr (accounts', out)"
    using example_initialize_pool [of "zeros 32"] by auto
  have zero: "pi_deployment_domain (example_initialization (zeros 32)) = zeros 32" by (simp add: example_initialization_def)
  obtain s where "pool_created pool_env pool_program (example_initialization (zeros 32)) s fresh_accounts accounts'"
    using initialize_handler [OF run fresh_keys(2) pool_env_calls example_token_calls] data by auto
  then have keys: "map ac_key accounts' = map ac_key fresh_accounts" "length fresh_accounts = 7" by (simp_all add: pool_created_def)
  then have view: "accounts_of (write_back (listed fresh_accounts) accounts') (tl accounts')"
    by (intro accounts_of_tl written_view) (simp add: fresh_keys(1))
  have len: "length accounts' = 7" using arg_cong [OF keys(1), of length] keys(2) by simp
  then have ends: "tl accounts' \<noteq> []" "ac_key (tl accounts' ! 0) = ac_key (fresh_accounts ! 1)"
    using arg_cong [OF keys(1), of "\<lambda>xs. xs ! 1"] keys(2) by (auto simp: nth_tl simp flip: length_greater_0_conv)
  have "\<forall>e accs'. \<not> spend_call pool_env pool_example_runtime pool_program (tl accounts') e accs'"
    using zero_domain_pool_locked [OF run data zero listed_view [OF fresh_keys(1)] fresh_keys(2) fresh_ledger_ok pool_env_calls example_token_calls
      rtranclp.rtrancl_refl view ends] by blast
  with data zero run show ?thesis by blast
qed

text \<open>
  C9. The tables of empty subtree roots compiled into the pool are the computed roots: level by level for single
  leaves and for leaf pairs.
\<close>

theorem empty_roots_pinned:
  "POOL_V1_EMPTY_ROOTS = pool_v1_empty_roots
   \<and> POOL_V1_PAIR_EMPTY_ROOTS = map (\<lambda>level. subtree_root (level + 1) []) [0..<21]"
proof
  show "POOL_V1_PAIR_EMPTY_ROOTS = map (\<lambda>level. subtree_root (level + 1) []) [0..<21]"
    by (rule nth_equalityI) (simp_all add: pinned_shape(2) pair_empty_roots del: upt_Suc subtree_root.simps)
qed (rule pinned_empty_roots)

text \<open>
  C10. The pool state account has exactly one accepted image per valid state, and the decoder that trusts the program's
  own writes accepts what the full decoder accepts up to one relation: that the stored root is the root of the
  stored frontier.
\<close>

theorem pool_state_decoders:
  "(state_decode b pool = Inr s \<longleftrightarrow> state_ok s \<and> id_pool (ps_identity s) = pool \<and> state_encode s = Inr b)
   \<and> (state_decode b pool = Inr s \<longleftrightarrow> decode_from_program_invariant b pool = Inr s \<and> root_relation (ps_tree s))"
  by (rule conjI [OF _ decode_omits_root_relation]) (auto simp: state_decode_eq state_encode_def)

section \<open>Payments\<close>

text \<open>
  C11. A deposited note can be spent. After a deposit to an owner key, in a pool with a deployment domain, the pool account holds the tree with the note as its last
  leaf, and the owner of the key has a witness with which the payment relation accepts a transfer of the whole amount to any two outputs, against the root the pool then has.
\<close>

theorem deposited_note_can_be_spent:
  assumes "process_deposit_with_runtime_v1 env runtime pid accounts data = Inr (accounts', out)"
    and "state_holds (accounts ! 0) s leaves" "pages_hold env pid (ac_key (accounts ! 0)) leaves accounts"
    and "system_calls_ok env pid" "token_calls_ok runtime pid" "decode_deposit_top_level_v1 data = Inr request"
    and "rq_owner_key request = derive_owner_key key" "digest_ok key" "pool_v1_nullifier key (rq_salt request) \<notin> set spent"
    and "output_ok recipient" "output_ok change" "unat (rq_amount request) = unat (ow_value recipient) + unat (ow_value change)"
    and "id_deployment_domain (ps_identity s) \<noteq> zeros 32"
  shows "let after = leaves @ [deposit_note s request]
    in state_holds (accounts' ! 0) (s\<lparr> ps_tree := tree_of after \<rparr>) after
     \<and> evaluate_pool_v1_private_transfer_v1 (honest_transfer (ps_identity s) after key (rq_salt request) recipient change)
        \<lparr> tw_input = honest_input key (rq_salt request) (rq_amount request) after (length leaves), tw_recipient = recipient, tw_change = change \<rparr>
        (authenticated_context (ps_identity s) after spent) = Inr ()"
  unfolding Let_def by (rule deposited_note_spendable [OF assms])

theorem deposited_note_can_be_spent_witness:
  "\<exists>data accounts' out. process_deposit_with_runtime_v1 pool_env pool_example_runtime pool_program deposit_accounts data = Inr (accounts', out)
    \<and> evaluate_pool_v1_private_transfer_v1
        (honest_transfer (ps_identity first_state) [deposit_note first_state example_request] (example_digest 1) (rq_salt example_request)
          (example_output 50) (example_output 20))
        \<lparr> tw_input = honest_input (example_digest 1) (rq_salt example_request) (rq_amount example_request) [deposit_note first_state example_request] 0,
          tw_recipient = example_output 50, tw_change = example_output 20 \<rparr>
        (authenticated_context (ps_identity first_state) [deposit_note first_state example_request] []) = Inr ()"
proof -
  obtain data accounts' out where data: "decode_deposit_top_level_v1 data = Inr example_request"
    and run: "process_deposit_with_runtime_v1 pool_env pool_example_runtime pool_program deposit_accounts data = Inr (accounts', out)"
    using example_deposit by blast
  have "rq_owner_key example_request = derive_owner_key (example_digest 1)" "unat (rq_amount example_request) = 70"
      "id_deployment_domain (ps_identity first_state) \<noteq> zeros 32"
    by (simp_all add: example_request_def example_identity zeros_def)
  with deposited_note_can_be_spent [OF run deposit_holds pool_env_calls example_token_calls data, of "example_digest 1" "[]" "example_output 50" "example_output 20"]
    run show ?thesis by (auto simp: example_output_ok Let_def)
qed

text \<open>
  C12. Private transfers conserve value. When a transfer succeeds and its statement holds, by the payment relation and some witness, the witness consumes a note that is a leaf of the
  pool under the anchor (or its path collides with the tree), the nullifier taken is that of the note, the two new leaves of the pool are the notes of the witness, and their values add up to its value.
\<close>

theorem transfer_conserves_value:
  assumes "process_private_transfer_with_runtime_v1 env verify hash pid accounts data slot = Inr (accounts', receipt)"
    and "state_holds (accounts ! 0) s leaves" "pages_hold env pid (ac_key (accounts ! 0)) leaves accounts" "system_calls_ok env pid"
    and "decode_private_transfer_instruction_v1 data = Inr i"
    and "evaluate_pool_v1_private_transfer_v1 (transfer_public_of (pt_statement i)) w context = Inr ()" "witness_shaped (tw_input w)"
  shows "spends_leaf leaves (unat (ae_anchor_sequence (pt_envelope i))) (id_asset_id (ps_identity s)) (tw_input w)
    \<and> ae_nullifier (pt_envelope i) = pool_v1_nullifier (iw_nullifier_key (tw_input w)) (iw_salt (tw_input w))
    \<and> (let after = leaves @ [note_of (id_asset_id (ps_identity s)) (tw_recipient w), note_of (id_asset_id (ps_identity s)) (tw_change w)]
       in state_holds (accounts' ! 0) (s\<lparr> ps_tree := tree_of after \<rparr>) after)
    \<and> unat (iw_value (tw_input w)) = unat (ow_value (tw_recipient w)) + unat (ow_value (tw_change w))"
  by (rule transfer_conserves [OF assms])

theorem transfer_conserves_value_witness:
  "\<exists>data accounts' receipt i. process_private_transfer_with_runtime_v1 pool_env (dispatch_selected_verifier_v1 pool_env pool_example_runtime)
      (solana_sha256 pool_env) pool_program (spend_accounts [example_leaf]) data 50 = Inr (accounts', receipt)
    \<and> decode_private_transfer_instruction_v1 data = Inr i
    \<and> spends_leaf [example_leaf] (unat (ae_anchor_sequence (pt_envelope i))) (M31 7) example_input"
proof -
  obtain data i accounts' receipt where i: "decode_private_transfer_instruction_v1 data = Inr i"
      "pt_statement i = transfer_statement_of [example_leaf] example_nullifier (note_of (M31 7) (example_output 50)) (note_of (M31 7) (example_output 20))"
    and run: "process_private_transfer_with_runtime_v1 pool_env (dispatch_selected_verifier_v1 pool_env pool_example_runtime) (solana_sha256 pool_env)
        pool_program (spend_accounts [example_leaf]) data 50 = Inr (accounts', receipt)"
    using example_transfer [OF nullifier_ok [OF example_spend_facts(4,5)] example_leaf_few example_note_ok [of 50] example_note_ok [of 20]] by auto
  note view = example_holds [of "[example_leaf]" "spend_accounts [example_leaf]", OF example_leaf_few, simplified]
  have shaped: "witness_shaped example_input" by (simp add: witness_shaped_def honest_input_def depth_eq)
  from transfer_conserves_value [OF run view pool_env_calls i(1) example_transfer_true [folded i(2)]] shaped run i(1)
  show ?thesis by (auto simp: example_identity)
qed

text \<open>
  C13. Withdrawals conserve value. When a withdrawal succeeds and its statement holds by the payment relation, the note it consumes is a leaf of the pool under the anchor (or its path
  collides with the tree), and its value is that of the new change note plus exactly the amount the vault paid out.
\<close>

theorem withdrawal_conserves_value:
  assumes "process_withdrawal_with_runtime_v1 env runtime verify hash pid accounts data slot = Inr (accounts', receipt)"
    and "state_holds (accounts ! 0) s leaves" "pages_hold env pid (ac_key (accounts ! 0)) leaves accounts" "system_calls_ok env pid" "token_calls_ok runtime pid"
    and "decode_withdrawal_instruction_v1 data = Inr i"
    and "evaluate_pool_v1_withdrawal_v1 (withdrawal_public_of (wi_statement i)) w context = Inr ()" "witness_shaped (dw_input w)"
  shows "spends_leaf leaves (unat (ae_anchor_sequence (wi_envelope i))) (id_asset_id (ps_identity s)) (dw_input w)
    \<and> ae_nullifier (wi_envelope i) = pool_v1_nullifier (iw_nullifier_key (dw_input w)) (iw_salt (dw_input w))
    \<and> (let after = leaves @ [note_of (id_asset_id (ps_identity s)) (dw_change w)]
       in state_holds (accounts' ! 0) (s\<lparr> ps_tree := tree_of after \<rparr>) after)
    \<and> (\<exists>k amount. withdrawal_moves (drop k accounts) (drop k accounts') amount
        \<and> vault_account_ok env pid (ac_key (accounts ! 0)) (id_asset_mint (ps_identity s)) (accounts ! (k + 1))
        \<and> unat (iw_value (dw_input w)) = unat (ow_value (dw_change w)) + amount)"
  by (rule withdrawal_conserves [OF assms])

theorem withdrawal_conserves_value_witness:
  "\<exists>data accounts' receipt k amount. process_withdrawal_with_runtime_v1 pool_env pool_example_runtime
      (dispatch_selected_verifier_v1 pool_env pool_example_runtime) (solana_sha256 pool_env) pool_program (withdraw_accounts [example_leaf]) data 50
        = Inr (accounts', receipt)
    \<and> withdrawal_moves (drop k (withdraw_accounts [example_leaf])) (drop k accounts') amount \<and> 70 = 30 + amount"
proof -
  obtain data i accounts' receipt where i: "decode_withdrawal_instruction_v1 data = Inr i"
      "wi_statement i = withdrawal_statement_of [example_leaf] example_nullifier (note_of (M31 7) (example_output 30))"
    and run: "process_withdrawal_with_runtime_v1 pool_env pool_example_runtime (dispatch_selected_verifier_v1 pool_env pool_example_runtime)
        (solana_sha256 pool_env) pool_program (withdraw_accounts [example_leaf]) data 50 = Inr (accounts', receipt)"
    using example_withdrawal [OF nullifier_ok [OF example_spend_facts(4,5)] example_leaf_few example_note_ok [of 30]] by auto
  note view = example_holds [of "[example_leaf]" "withdraw_accounts [example_leaf]", OF example_leaf_few, simplified]
  have shaped: "witness_shaped example_input" by (simp add: witness_shaped_def honest_input_def depth_eq)
  have amounts: "unat (iw_value example_input) = 70" "unat (ow_value (example_output 30)) = 30" by (simp_all add: honest_input_def)
  obtain k amount where "withdrawal_moves (drop k (withdraw_accounts [example_leaf])) (drop k accounts') amount" "70 = 30 + amount"
    using withdrawal_conserves_value [OF run view pool_env_calls example_token_calls i(1) example_withdrawal_true [folded i(2)]] shaped amounts by auto
  with run show ?thesis by blast
qed

text \<open>
  C14. The statement a spend instruction carries is the statement of the payment relation: the payload of a decoded transfer or withdrawal, which is what the verifier is asked about, decodes
  under the relation to the same fields and is bound to the envelope of the instruction.
\<close>

theorem spend_statements_agree:
  assumes "decode_private_transfer_instruction_v1 data = Inr i" "decode_withdrawal_instruction_v1 data' = Inr j"
  shows "decode_pool_v1_private_transfer_public_v1 (pt_statement_payload i) = Inr (transfer_public_of (pt_statement i))
    \<and> validate_pool_v1_private_transfer_envelope_binding_v1 (pt_envelope i) (transfer_public_of (pt_statement i)) = Inr ()
    \<and> decode_pool_v1_withdrawal_public_v1 (wi_statement_payload j) = Inr (withdrawal_public_of (wi_statement j))
    \<and> validate_pool_v1_withdrawal_envelope_binding_v1 (wi_envelope j) (withdrawal_public_of (wi_statement j)) = Inr ()"
  using transfer_payload_statement [OF assms(1)] withdrawal_payload_statement [OF assms(2)] by simp

theorem spend_statements_agree_witness:
  "\<exists>data i. decode_private_transfer_instruction_v1 data = Inr i
    \<and> decode_pool_v1_private_transfer_public_v1 (pt_statement_payload i) = Inr (transfer_public_of (pt_statement i))"
proof -
  obtain data i where i: "decode_private_transfer_instruction_v1 data = Inr i"
    using transfer_wire_exists [of "example_digest 5" "[]" "example_digest 3" "example_digest 4"] by auto
  obtain data' j where j: "decode_withdrawal_instruction_v1 data' = Inr j"
    using withdrawal_wire_exists [of "example_digest 5" "[]" "example_digest 4"] by auto
  from spend_statements_agree [OF i j] i show ?thesis by blast
qed

text \<open>
  C15. The payment evaluators decide the payment relations over natural numbers: a canonical statement bound to the authenticated pool, a note of the asset under the anchor at an index of the
  tree with its derived nullifier unspent, canonical output notes, and no value made or lost.
\<close>

theorem payment_relation_exact:
  assumes "witness_shaped (tw_input w)" "witness_shaped (dw_input v)"
  shows "(evaluate_pool_v1_private_transfer_v1 public w context = Inr () \<longleftrightarrow> transfer_relation public w context)
    \<and> (evaluate_pool_v1_withdrawal_v1 withdrawn v context = Inr () \<longleftrightarrow> withdrawal_relation withdrawn v context)"
  using evaluate_transfer_eq [OF assms(1)] evaluate_withdrawal_eq [OF assms(2)] by simp

theorem payment_relation_exact_witness:
  "transfer_relation
     (transfer_public_of (transfer_statement_of [example_leaf] example_nullifier (note_of (M31 7) (example_output 50)) (note_of (M31 7) (example_output 20))))
     \<lparr> tw_input = example_input, tw_recipient = example_output 50, tw_change = example_output 20 \<rparr>
     (authenticated_context (ps_identity (example_state [example_leaf])) [example_leaf] [])"
  using payment_relation_exact [of "\<lparr> tw_input = example_input, tw_recipient = example_output 50, tw_change = example_output 20 \<rparr>"
      "\<lparr> dw_input = example_input, dw_change = example_output 30 \<rparr>"] example_transfer_true
  by (simp add: witness_shaped_def honest_input_def depth_eq)

text \<open>
  C16. The spend evaluator accepts exactly the spend relation: a note of the asset under the anchor, its nullifier not
  spent, and a balanced output below the value limit. The evaluator that works on ten-bit limbs accepts exactly
  the same spends, with the limbs of the values and no others.
\<close>

theorem spend_evaluators_exact:
  assumes "length (rl_input_value_limbs r) = 3" "length (rl_output_value_limbs r) = 3"
  shows "(evaluate_spend public w context = Inr () \<longleftrightarrow> spend_relation public w context)
    \<and> (evaluate_spend_with_range_lookup public w r context = Inr () \<longleftrightarrow> spend_relation public w context \<and> r = from_spend w)"
  using evaluate_spend_eq range_lookup_evaluation_eq [OF assms] by simp

theorem spend_evaluators_exact_witness:
  "let w = \<lparr> sw_nullifier_key = ZERO_DIGEST, sw_input_salt = ZERO_DIGEST, sw_output_salt = ZERO_DIGEST,
        sw_output_owner_key = ZERO_DIGEST, sw_input_asset_id = M31 7, sw_value = 1073741823, sw_value_out = 1073741820,
        sw_merkle_path = \<lparr> mp_siblings = [], mp_index = 0 \<rparr> \<rparr>;
       public = \<lparr> sp_anchor = note_commitment (derive_owner_key ZERO_DIGEST) 1073741823 (M31 7) ZERO_DIGEST,
        sp_nullifier = derive_nullifier ZERO_DIGEST ZERO_DIGEST,
        sp_output_commitment = output_commitment ZERO_DIGEST 1073741820 (M31 7) ZERO_DIGEST, sp_asset_id = M31 7, sp_fee = 3 \<rparr>
   in evaluate_spend_with_range_lookup public w (from_spend w) \<lparr> ec_merkle_depth = 0, ec_spent_nullifiers = [] \<rparr> = Inr ()"
  unfolding Let_def
  by (subst spend_evaluators_exact [THEN conjunct2])
    (simp_all add: from_spend_def decompose_10bit_limbs_def RANGE_LIMBS_PER_VALUE_def spend_relation_def
      merkle_path_root_def merkle_root_with_def)

section \<open>The note tree\<close>

text \<open>
  C17. Appending a leaf to the tree that represents a list of leaves gives the tree that represents the extended
  list, with the receipt of the new leaf; a tree with \<open>2^20\<close> leaves refuses. So, from the empty tree, appending any list of leaves one by one reaches
  the tree whose root is the root of the full binary tree over the list, as long as the list fits, and the tree-full error otherwise.
\<close>

theorem tree_append_one_refines:
  assumes "length leaves \<le> 2 ^ 20"
  shows "tree_append_one (tree_of leaves) leaf =
      (if length leaves = 2 ^ 20 then Inl TreeFull else Inr (tree_of (leaves @ [leaf]), receipt_of (leaves @ [leaf])))
    \<and> append_all tree_append_one tree_empty new = (if length new \<le> 2 ^ 20 then Inr (tree_of new) else Inl TreeFull)"
  using tree_append_one_eq [OF assms] checked_tree.append_all_eq [of "[]" new] by (simp add: tree_empty_eq)

theorem tree_append_one_refines_witness:
  "tree_append_one (tree_of [ZERO_DIGEST]) ZERO_DIGEST
     = Inr (tree_of [ZERO_DIGEST, ZERO_DIGEST], receipt_of [ZERO_DIGEST, ZERO_DIGEST])"
  using tree_append_one_refines [of "[ZERO_DIGEST]" ZERO_DIGEST] by simp

text \<open>
  C18. A two-leaf append is atomic: with room for both leaves it is the two single appends in order, with both
  receipts; otherwise nothing is appended and the error is the capacity error.
\<close>

theorem tree_append_two_atomic:
  assumes "length leaves \<le> 2 ^ 20"
  shows "tree_append_two (tree_of leaves) a b =
    (if 2 ^ 20 < length leaves + 2 then Inl InsufficientCapacity
     else Inr (tree_of (leaves @ [a, b]),
               \<lparr> at_first = receipt_of (leaves @ [a]), at_second = receipt_of (leaves @ [a, b]) \<rparr>))"
  using assms by (rule tree_append_two_eq)

theorem tree_append_two_atomic_witness:
  "tree_append_two (tree_of (replicate (2 ^ 20 - 1) ZERO_DIGEST)) ZERO_DIGEST ZERO_DIGEST = Inl InsufficientCapacity"
  using tree_append_two_atomic [of "replicate (2 ^ 20 - 1) ZERO_DIGEST" ZERO_DIGEST ZERO_DIGEST] by simp

text \<open>
  C19. The sealed append keeps the complete invariant: from a tree that passes validation, an append that succeeds
  returns a tree that passes validation, although it never recomputes the source root.
\<close>

theorem sealed_append_keeps_validity:
  assumes "validate_with_empty_roots (vt_inner v) pool_v1_empty_roots = Inr ()"
    and "vt_empty v = pool_v1_empty_roots" and "length (frontier (vt_inner v)) = 20"
    and "validated_append_one v leaf = Inr (v', receipt)"
  shows "validate_with_empty_roots (vt_inner v') pool_v1_empty_roots = Inr () \<and> vt_empty v' = pool_v1_empty_roots"
  using validated_append_one_valid [OF assms] by simp

theorem sealed_append_keeps_validity_witness:
  "validate_with_empty_roots (vt_inner (sealed [ZERO_DIGEST])) pool_v1_empty_roots = Inr ()"
proof -
  have "validate_with_empty_roots (vt_inner (sealed [])) pool_v1_empty_roots = Inr ()"
    "vt_empty (sealed []) = pool_v1_empty_roots" "length (frontier (vt_inner (sealed []))) = 20"
    using validate_tree_of [of "[]"] by (simp_all add: sealed_def tree_of_def frontier_of_def depth_eq)
  moreover have "validated_append_one (sealed []) ZERO_DIGEST = Inr (sealed [ZERO_DIGEST], receipt_of [ZERO_DIGEST])"
    using validated_append_one_sealed [of "[]" ZERO_DIGEST] by simp
  ultimately show ?thesis using sealed_append_keeps_validity [of "sealed []" ZERO_DIGEST] by blast
qed

section \<open>Retained roots\<close>

text \<open>
  C20. The history of an account page is append-only. An append succeeds only at the next sequence of a page that is not full; the page
  stays valid, the root is what a lookup of its sequence then returns, every earlier sequence returns what it did, and the appended sequence is
  refused from then on.
\<close>

theorem history_append_lookup:
  assumes "page_valid b" "digest_ok r" "append_root_history_page_bytes_v1 b q r = Inr (b', l)"
  shows "page_valid b' \<and> l = root_history_location q \<and> page_lookup b' q = Some r \<and> page_lookup b q = None
    \<and> unat q = unat (page_number b) * 256 + length (page_contents b) \<and> length (page_contents b) < 256
    \<and> (\<forall>k x. page_lookup b k = Some x \<longrightarrow> page_lookup b' k = Some x)
    \<and> (\<forall>y. digest_ok y \<longrightarrow> (\<nexists>b'' m. append_root_history_page_bytes_v1 b' q y = Inr (b'', m)))"
proof -
  have "length (page_contents b) < 256 \<and> unat q = unat (page_number b) * 256 + length (page_contents b)"
    using account_page.append_iff [OF assms(1,2), of q] assms(3) by auto
  then show ?thesis
    using account_page.append_result [OF assms] account_page.lookup_appended [OF assms] account_page.append_fresh [OF assms]
      account_page.lookup_retained [OF assms] account_page.no_second_append [OF assms]
    by simp
qed

theorem history_append_lookup_witness:
  "\<exists>b b' l. page_valid b \<and> append_root_history_page_bytes_v1 b 0 ZERO_DIGEST = Inr (b', l) \<and> page_lookup b' 0 = Some ZERO_DIGEST"
proof -
  let ?h = "\<lparr> hd_pool = replicate 32 1, hd_page_number = 0, hd_first_sequence = 0, hd_filled = 0 \<rparr>"
  have ok: "page_ok ?h []" by (simp add: page_ok_def)
  obtain b' l where app: "append_root_history_page_bytes_v1 (page_image ?h []) 0 ZERO_DIGEST = Inr (b', l)"
    using append_page_eq [OF ok digest_ok_zero, of 0] by simp
  show ?thesis
    using history_append_lookup [OF page_image_view(1) [OF ok] digest_ok_zero app] page_image_view(1) [OF ok] app by blast
qed

text \<open>
  C21. The in-place account operation simulates the host page operation: on the image of a host page it returns the
  image of the page after the host push, and the same error whenever the host push fails.
\<close>

theorem history_bytes_simulate_host:
  assumes "pg_ok p" "digest_ok r" "page_encode p = Inr b"
  shows "append_root_history_page_bytes_v1 b q r =
    bindE (page_push p q r) (\<lambda>(p', l). bindE (page_encode p') (\<lambda>b'. Inr (b', l)))"
  using assms by (rule page_push_bytes)

theorem history_bytes_simulate_host_witness:
  "\<exists>p b. page_encode p = Inr b \<and> append_root_history_page_bytes_v1 b 0 ZERO_DIGEST =
     bindE (page_push p 0 ZERO_DIGEST) (\<lambda>(p', l). bindE (page_encode p') (\<lambda>b'. Inr (b', l)))"
proof -
  let ?h = "\<lparr> hd_pool = replicate 32 1, hd_page_number = 0, hd_first_sequence = 0, hd_filled = 0 \<rparr>"
  have ok: "page_ok ?h []" by (simp add: page_ok_def)
  then have "pg_ok (page_value ?h [])" by (auto simp: pg_ok_iff)
  from history_bytes_simulate_host [OF this digest_ok_zero page_encode_value [OF ok]] page_encode_value [OF ok]
  show ?thesis by blast
qed

section \<open>The registry program\<close>

text \<open>
  C22. Every successful governance call, of either version, is a step of the abstract machine between the views of
  the accounts before and after: signed by the recorded authority of a registry that is not frozen, at the
  generation the call names, changing the registry and the entries of the command and nothing else the program owns.
\<close>

theorem registry_program_refines:
  assumes "process_decoded_instruction_any env pid accs i slot = Inr accs'" "command_of i = Some (cmd, w)"
    and "instruction_ok i" "runtime_ok env pid"
  shows "call_refines env pid (unat slot) cmd w accs accs'"
  using assms by (rule decoded_instruction_refines)

theorem registry_program_refines_witness:
  "\<exists>accs'. process_decoded_instruction_any example_env example_program
      [example_account (example_registry 0 0 (replicate 32 12)), example_authority] (V1 (Pause1 0)) 0 = Inr accs'
    \<and> call_refines example_env example_program 0 (GSetPaused True) 0
      [example_account (example_registry 0 0 (replicate 32 12)), example_authority] accs'"
proof -
  let ?accs = "[example_account (example_registry 0 0 (replicate 32 12)), example_authority]"
  obtain accs' where run: "process_decoded_instruction_any example_env example_program ?accs (V1 (Pause1 0)) 0 = Inr accs'"
    using example_pause by (auto simp: process_decoded_instruction_any_def process_decoded_instruction_def)
  have "call_refines example_env example_program (unat (0::u64)) (GSetPaused True) 0 ?accs accs'"
    by (rule registry_program_refines [OF run _ _ example_runtime])
      (simp_all add: command_of_def command_v1_def instruction_ok_def instruction_ok_v1_def)
  with run show ?thesis by auto
qed

text \<open>
  C23. An initialisation, of either version, creates the registry of generation zero, not paused, governed by the
  signer, on an account that held none, and changes nothing else the program owns.
\<close>

theorem registry_initialised:
  assumes "process_initialize env pid accs (in_pool a) (in_policy_binding a) (in_minimum_activation_delay_slots a) = Inr accs'
      \<or> process_initialize_v2 env pid accs (in_pool a) (in_policy_binding a) (in_minimum_activation_delay_slots a) h = Inr accs'"
    and "initialize_ok a" "runtime_ok env pid" "length (ac_key (accs ! 1)) = 32"
  shows "initial_call env pid a accs accs'"
  using assms initialize_initial initialize_v2_initial by blast

theorem registry_initialised_witness:
  "\<exists>accs'. initial_call example_env example_program
     \<lparr> in_pool = replicate 32 11, in_policy_binding = replicate 32 13, in_minimum_activation_delay_slots = 5 \<rparr>
     example_fresh_accounts accs'"
proof -
  let ?a = "\<lparr> in_pool = replicate 32 11, in_policy_binding = replicate 32 13, in_minimum_activation_delay_slots = 5 \<rparr> :: initialize_args"
  obtain accs' where "process_initialize example_env example_program example_fresh_accounts (in_pool ?a) (in_policy_binding ?a)
      (in_minimum_activation_delay_slots ?a) = Inr accs'"
    using example_initialize by (auto simp: is_ok_iff)
  then have "initial_call example_env example_program ?a example_fresh_accounts accs'"
    by (intro registry_initialised disjI1 example_runtime)
      (simp_all add: initialize_ok_def example_fresh_accounts_def example_authority_def)
  then show ?thesis ..
qed

text \<open>
  C24. Along any run of the ledger a registry keeps its pool, policy, delay and deployment and its generation never
  falls; an equal generation means an unchanged registry, and a frozen registry never changes again.
\<close>

theorem registry_along_runs:
  assumes "(ledger_step env pid)\<^sup>*\<^sup>* L L'" "registry_at env pid L k = Some g"
  shows "\<exists>g'. registry_at env pid L' k = Some g' \<and> g_pool g' = g_pool g \<and> g_policy g' = g_policy g \<and> g_delay g' = g_delay g
    \<and> g_deployment g' = g_deployment g \<and> g_generation g \<le> g_generation g'
    \<and> (g_generation g' = g_generation g \<longrightarrow> g' = g) \<and> (g_authority g = None \<longrightarrow> g' = g)"
proof -
  obtain g' where g': "registry_at env pid L' k = Some g'" "registry_evolves g g'"
    using registries.run_evolves [OF assms] by blast
  then show ?thesis
    using same_generation_same_registry [OF g'(2)] frozen_final [OF _ g'(2)] by (auto simp: registry_evolves_def)
qed

theorem registry_along_runs_witness:
  "\<exists>L' g'. ledger_step example_env example_program example_ledger L'
    \<and> registry_at example_env example_program L' (replicate 32 2) = Some g' \<and> g_delay g' = 5"
proof -
  obtain L' where step: "ledger_step example_env example_program example_ledger L'" using example_step by blast
  from registry_along_runs [OF r_into_rtranclp [of "ledger_step example_env example_program", OF step] example_registry_at]
  show ?thesis using step by (auto simp: abs_r1_def example_registry_def)
qed

text \<open>
  C25. Along any run of the ledger a release entry is unchanged, or was pending and has only become active, or was pending or active and has become retired, at
  a slot after its activation. Nothing else of it changes: no entry is paused or revived, and a retired entry is final.
\<close>

theorem entry_along_runs:
  assumes "(ledger_step env pid)\<^sup>*\<^sup>* L L'" "entry_at env pid L k = Some e"
  shows "\<exists>e'. entry_at env pid L' k = Some e' \<and> (e' = e
    \<or> ge_status e = Pending \<and> ge_retirement e = None \<and> e' = e \<lparr> ge_status := Active \<rparr>
    \<or> ge_status e \<in> {Pending, Active} \<and> ge_retirement e = None
      \<and> (\<exists>slot. ge_activation e < slot \<and> e' = e \<lparr> ge_status := Retired, ge_retirement := retirement_mark slot \<rparr>))"
  using entries.run_evolves [OF assms] by (simp only: entry_evolves_def)

theorem entry_along_runs_witness:
  "\<exists>L' e'. ledger_step example_env example_program example_ledger L' \<and> entry_at example_env example_program L' (replicate 32 4) = Some e'
    \<and> ge_activation e' = 100 \<and> ge_status e' \<noteq> Paused \<and> (ge_status e' = Active \<longrightarrow> ge_retirement e' = None)"
proof -
  let ?e = "abs_e1 example_entry"
  have e: "ge_activation ?e = 100" "ge_status ?e = Pending" by (simp_all add: abs_e1_def example_entry_def)
  obtain L' where step: "ledger_step example_env example_program example_ledger L'" using example_step by blast
  from entry_along_runs [OF r_into_rtranclp [of "ledger_step example_env example_program", OF step] example_entry_at] e
  show ?thesis using step by fastforce
qed

text \<open>
  C26. A release scheduled under version 2 is a program whose loader accounts are linked and whose upgrade authority
  is gone, with the payload hash the call names; it waits out the registry's delay, which never wraps around.
\<close>

theorem scheduled_release_immutable:
  assumes "process_schedule_v2 env pid accs (sc_expected_generation a) (sc_verifier_program a) (sc_profile_binding a)
      (sc_release_binding a) (sc_statement_version a) (sc_activation_slot a) h slot = Inr accs'"
    and "schedule_ok a" "runtime_ok env pid"
  shows "\<exists>d g e. immutable_payload env (sc_verifier_program a) (accs ! 5) (accs ! 6) d \<and> dp_executable_hash d = h
    \<and> registry_view env pid (accs ! 0) = Some g \<and> entry_view env pid (accs' ! 1) = Some e
    \<and> ge_status e = Pending \<and> ge_deployment e = [bpf_loader_upgradeable_id env, dp_programdata_address d, h]
    \<and> ge_activation e = unat (sc_activation_slot a) \<and> unat slot + g_delay g \<le> ge_activation e"
  using assms
proof (rule schedule_v2_result)
  fix r d assume "load_registry_v2 env pid (accs ! 0) = Inr r" "immutable_payload env (sc_verifier_program a) (accs ! 5) (accs ! 6) d"
    "dp_executable_hash d = h" "entry_view env pid (accs' ! 1) = Some (abs_e2 (scheduled_entry_v2 env a r d))"
    "unat slot + g_delay (abs_r2 r) \<le> unat (sc_activation_slot a)"
  then show ?thesis
    using load_registry_view(2) [of env pid "accs ! 0" r]
    by (intro exI [of _ d] exI [of _ "abs_r2 r"] exI [of _ "abs_e2 (scheduled_entry_v2 env a r d)"])
      (simp add: scheduled_entry_v2_def abs_e2_def)
qed

theorem scheduled_release_immutable_witness:
  "\<exists>d. immutable_payload example_env (replicate 32 15) (example_schedule_accounts ! 5) (example_schedule_accounts ! 6) d
     \<and> dp_executable_hash d = replicate 32 9"
proof -
  obtain accs' where "process_schedule_v2 example_env example_program example_schedule_accounts
     (sc_expected_generation example_args) (sc_verifier_program example_args) (sc_profile_binding example_args)
     (sc_release_binding example_args) (sc_statement_version example_args) (sc_activation_slot example_args) (replicate 32 9) 50 = Inr accs'"
    using example_schedule by blast
  from scheduled_release_immutable [OF this _ example_runtime] show ?thesis
    by (auto simp: schedule_ok_def example_args_def)
qed

text \<open>C27. A frozen registry refuses every command of its version with the same error, whatever the other arguments.\<close>

theorem frozen_registry_refuses:
  assumes "load_registry env pid ra = Inr r" "r1_is_immutable r" "load_registry_v2 env pid rb = Inr s" "r2_is_immutable s"
    and "distinct (map ac_key [ra, ea, pa, au, payer, sys, va, da])" "distinct (map ac_key [rb, ea, pa, au, payer, sys, va, da])"
  shows "process_pause_change env pid [ra, au] w p = fail RegistryFrozen
    \<and> process_freeze env pid [ra, au] w = fail RegistryFrozen
    \<and> process_activate env pid [ra, ea, au] w slot = fail RegistryFrozen
    \<and> process_retire env pid [ra, ea, pa, au] w slot = fail RegistryFrozen
    \<and> process_schedule env pid [ra, ea, au, payer, sys] w v pb rlb sv act slot = fail RegistryFrozen
    \<and> process_pause_change_v2 env pid [rb, au] w p = fail RegistryFrozen
    \<and> process_freeze_v2 env pid [rb, au] w = fail RegistryFrozen
    \<and> process_activate_v2 env pid [rb, ea, au] w slot = fail RegistryFrozen
    \<and> process_retire_v2 env pid [rb, ea, pa, au] w slot = fail RegistryFrozen
    \<and> process_schedule_v2 env pid [rb, ea, au, payer, sys, va, da] w v pb rlb sv act h slot = fail RegistryFrozen"
  using assms(5,6) by (intro conjI frozen_refuses [OF assms(1,2)] frozen_refuses_v2 [OF assms(3,4)]) auto

theorem frozen_registry_refuses_witness:
  "process_freeze example_env example_program [example_account (example_registry 2 7 (zeros 32)), example_authority] 7 = fail RegistryFrozen"
proof -
  let ?x = "\<lambda>n. example_plain (replicate 32 n) False True False [] []"
  have "r1_is_immutable (example_registry 2 7 (zeros 32))" "r2_is_immutable (example_registry_v2 2 (zeros 32) 7)"
    by (simp_all add: r1_is_immutable_def r2_is_immutable_def example_registry_def example_registry_v2_def
        POOL_V1_VERIFIER_REGISTRY_FLAG_IMMUTABLE_def)
  from frozen_registry_refuses [OF example_load [OF example_valid(2)] this(1) example_load_v2 [OF example_encode_v2(2)] this(2),
      of "?x 20" "?x 21" example_authority "?x 22" "?x 23" "?x 24" "?x 25"]
  show ?thesis by (simp add: example_account_def example_plain_def example_authority_def)
qed

text \<open>
  C28. The authority of a registry that is not frozen can always change its pause state, in either version, until the
  generation counter is exhausted.
\<close>

theorem authority_can_pause:
  assumes "ac_is_signer au" "\<not> ac_is_writable au" "\<not> ac_executable au" "ac_key ra \<noteq> ac_key au"
    and "registry_view env pid ra = Some g" "ac_is_writable ra" "\<not> ac_is_signer ra" "g_paused g \<noteq> p"
    and "governs (ac_key au) g"
  shows "\<exists>accs'. (process_pause_change env pid [ra, au] (of_nat (g_generation g)) p = Inr accs'
      \<or> process_pause_change_v2 env pid [ra, au] (of_nat (g_generation g)) p = Inr accs')
    \<and> registry_view env pid (accs' ! 0) = Some (next_generation g \<lparr> g_paused := p \<rparr>)"
  using assms by (rule pause_change_answers)

theorem authority_can_pause_witness:
  "\<exists>accs'. registry_view example_env example_program (accs' ! 0)
     = Some (next_generation (abs_r1 (example_registry 0 0 (replicate 32 12))) \<lparr> g_paused := True \<rparr>)"
  using authority_can_pause [of example_authority "example_account (example_registry 0 0 (replicate 32 12))" example_env
      example_program "abs_r1 (example_registry 0 0 (replicate 32 12))" True]
    load_registry_view(1) [OF example_load [OF example_valid(1)]]
  by (auto simp: example_authority_def example_account_def governs_def abs_r1_def example_registry_def flag_simps)

section \<open>Wire formats\<close>

text \<open>
  C29. A digest has exactly one accepted 32-byte encoding, that of a canonical digest, and pool identities and verifier policies have
  exactly one accepted image each.
\<close>

theorem pool_format_codecs:
  assumes "identity_ok i" "policy_ok p" "length e = 32"
  shows "(decode_digest_canonical e = Inr d \<longleftrightarrow> digest_ok d \<and> encode_digest_canonical d = e)
    \<and> (decode_pool_identity_v1 b = Inr i \<longleftrightarrow> encode_pool_identity_v1 i = b)
    \<and> (decode_verifier_policy_v1 c = Inr p \<longleftrightarrow> encode_verifier_policy_v1 p = Inr c)"
  using identity_codec.accepts_iff [OF assms(1), of b] policy_codec.accepts_iff [OF assms(2), of c] decode_digest_eq_Inr [OF assms(3), of d] by simp

theorem pool_format_codecs_witness:
  "let i = \<lparr> id_pool = replicate 32 1, id_asset_mint = replicate 32 2, id_token_program = replicate 32 3,
        id_asset_id = M31 7, id_deployment_domain = replicate 32 4 \<rparr>;
       p = \<lparr> vp_flags = 0, vp_registry_program = replicate 32 1, vp_registry_authority = replicate 32 2,
        vp_policy_binding = replicate 32 3 \<rparr>
   in decode_digest_canonical (zeros 32) = Inr ZERO_DIGEST
      \<and> decode_pool_identity_v1 (encode_pool_identity_v1 i) = Inr i
      \<and> (decode_verifier_policy_v1 (verifier_policy_v1_image p) = Inr p \<longleftrightarrow> encode_verifier_policy_v1 p = Inr (verifier_policy_v1_image p))"
proof -
  have "identity_ok \<lparr> id_pool = replicate 32 1, id_asset_mint = replicate 32 2, id_token_program = replicate 32 3,
        id_asset_id = M31 7, id_deployment_domain = replicate 32 4 \<rparr>"
    "policy_ok \<lparr> vp_flags = 0, vp_registry_program = replicate 32 1, vp_registry_authority = replicate 32 2,
        vp_policy_binding = replicate 32 3 \<rparr>"
    by (simp_all add: identity_ok_def policy_ok_def canon_def M31_P_def)
  note exact = pool_format_codecs [OF this]
  have zero: "decode_digest_canonical (zeros 32) = Inr ZERO_DIGEST" using exact [of "zeros 32" ZERO_DIGEST] by simp
  have "length (zeros 32) = 32" by simp
  from exact [OF this] zero show ?thesis by (simp only: Let_def simp_thms)
qed

text \<open>
  C30. The accounts of the pool have exactly one image per value. The 688-byte tree decoder accepts exactly what the encoder writes for a valid tree; the page
  validator accepts exactly the image of a header and of as many canonical roots as it counts, every other slot being zero.
\<close>

theorem account_images_exact:
  assumes "tree_ok t"
  shows "(tree_decode b = Inr t \<longleftrightarrow> tree_encode t = Inr b)
    \<and> (validate_root_history_page_bytes_v1 page = Inr h \<longleftrightarrow> (\<exists>roots. page_ok h roots \<and> page = page_image h roots))"
  using tree_codec.accepts_iff [OF assms, of b] validate_page_eq_Inr [of page h] by simp

theorem account_images_exact_witness:
  "\<exists>b. tree_encode (tree_of []) = Inr b \<and> tree_decode b = Inr (tree_of [])"
proof -
  have node: "digest_ok (merkle_node_compress_v3 l r)" if "digest_ok l" "digest_ok r" for l r
    using merkle_node_compress_v3_val(2,3) [of l r] that by (simp add: digest_ok_def)
  have "digest_ok (subtree_root d [])" for d
    by (induction d) (simp_all add: pool_v1_tree_parent_def node)
  then have ok: "tree_ok (tree_of [])"
    by (simp add: tree_ok_def tree_of_def frontier_of_def depth_eq list_all_iff block_start_def del: subtree_root.simps)
  moreover have "tree_encode (tree_of []) = Inr (tree_image (tree_of []))"
    using validate_tree_of [of "[]"] by (simp add: tree_encode_eq tree_validate_def)
  ultimately show ?thesis using account_images_exact [OF ok] by blast
qed

text \<open>
  C31. The formats of the registry program: registry and entry accounts of both versions have exactly one accepted image each, and the instruction
  decoder accepts exactly the wires the encoders of both versions produce.
\<close>

theorem registry_formats_exact:
  assumes "r1_ok r" "e1_ok e" "r2_ok s" "e2_ok f"
  shows "(decode_verifier_registry_v1 b = Inr r \<longleftrightarrow> encode_verifier_registry_v1 r = Inr b)
    \<and> (decode_verifier_registry_entry_v1 b = Inr e \<longleftrightarrow> encode_verifier_registry_entry_v1 e = Inr b)
    \<and> (decode_verifier_registry_v2 b = Inr s \<longleftrightarrow> encode_verifier_registry_v2 s = Inr b)
    \<and> (decode_verifier_registry_entry_v2 b = Inr f \<longleftrightarrow> encode_verifier_registry_entry_v2 f = Inr b)
    \<and> (decode_registry_instruction b = Inr i \<longleftrightarrow> instruction_ok i \<and> wire i = Inr b)"
  using registry_v1_codec.accepts_iff [OF assms(1)] entry_v1_codec.accepts_iff [OF assms(2)]
    registry_v2_codec.accepts_iff [OF assms(3)] entry_v2_codec.accepts_iff [OF assms(4)] decode_registry_instruction_eq by simp

theorem registry_formats_exact_witness:
  "let r = \<lparr> r1_flags = 0, r1_pool = replicate 32 1, r1_authority = replicate 32 2, r1_policy_binding = replicate 32 3,
        r1_generation = 4, r1_minimum_activation_delay_slots = 5 \<rparr>
   in \<exists>b. encode_verifier_registry_v1 r = Inr b \<and> decode_verifier_registry_v1 b = Inr r"
proof -
  let ?r = "\<lparr> r1_flags = 0, r1_pool = replicate 32 1, r1_authority = replicate 32 2, r1_policy_binding = replicate 32 3,
        r1_generation = 4, r1_minimum_activation_delay_slots = 5 \<rparr>"
  let ?e = "\<lparr> e1_status = Active, e1_statement_version = 1, e1_pool = replicate 32 1, e1_verifier_program = replicate 32 2,
        e1_profile_binding = replicate 32 3, e1_release_binding = replicate 32 4, e1_activation_slot = 10,
        e1_retirement_slot = 20, e1_policy_binding = replicate 32 5 \<rparr>"
  let ?s = "\<lparr> r2_flags = 0, r2_pool = replicate 32 1, r2_authority = replicate 32 2, r2_policy_binding = replicate 32 3,
        r2_generation = 4, r2_minimum_activation_delay_slots = 5, r2_registry_program = replicate 32 6,
        r2_loader_program = replicate 32 7, r2_programdata_address = replicate 32 8, r2_executable_hash = replicate 32 9 \<rparr>"
  let ?f = "\<lparr> e2_status = Active, e2_statement_version = 1, e2_pool = replicate 32 1, e2_verifier_program = replicate 32 2,
        e2_profile_binding = replicate 32 3, e2_release_binding = replicate 32 4, e2_loader_program = replicate 32 5,
        e2_programdata_address = replicate 32 6, e2_executable_hash = replicate 32 7,
        e2_expected_upgrade_authority = zeros 32, e2_activation_slot = 10, e2_retirement_slot = 20,
        e2_policy_binding = replicate 32 8 \<rparr>"
  have "r1_ok ?r" "e1_ok ?e" "r2_ok ?s" "e2_ok ?f" by (simp_all add: r1_ok_def e1_ok_def r2_ok_def e2_ok_def)
  moreover have "encode_verifier_registry_v1 ?r = Inr (verifier_registry_v1_image ?r)"
    by (simp add: encode_verifier_registry_v1_def validate_verifier_registry_v1_def required_binding_is_zero_def
        zeros_def r1_is_immutable_def)
  ultimately show ?thesis using registry_formats_exact [of ?r ?e ?s ?f] by (auto simp: Let_def)
qed

text \<open>
  C32. The wires of the pool program: the decoders of transfers, withdrawals, deposits and initializations, and of the deposit receipt, accept exactly what the
  encoders write.
\<close>

theorem pool_wires_exact:
  "(decode_private_transfer_instruction_v1 b = Inr t \<longleftrightarrow> transfer_instruction_ok t
      \<and> encode_private_transfer_instruction_v1 (pt_envelope t) (pt_statement t) = Inr b)
   \<and> (decode_pair_private_transfer_instruction_v1 b = Inr t \<longleftrightarrow> transfer_instruction_ok t
      \<and> encode_pair_private_transfer_instruction_v1 (pt_envelope t) (pt_statement t) = Inr b)
   \<and> (decode_withdrawal_instruction_v1 b = Inr w \<longleftrightarrow> withdrawal_instruction_ok w
      \<and> encode_withdrawal_instruction_v1 (wi_envelope w) (wi_statement w) = Inr b)
   \<and> (decode_pair_withdrawal_instruction_v1 b = Inr w \<longleftrightarrow> withdrawal_instruction_ok w
      \<and> encode_pair_withdrawal_instruction_v1 (wi_envelope w) (wi_statement w) = Inr b)
   \<and> (decode_initialize_instruction_v1 b = Inr init \<longleftrightarrow> initialization_ok init \<and> encode_initialize_instruction_v1 init = Inr b)
   \<and> (decode_deposit_instruction_v1 b = Inr request \<longleftrightarrow> request_ok request \<and> encode_deposit_instruction_v1 request = Inr b)
   \<and> (decode_deposit_receipt_v1 b = Inr receipt \<longleftrightarrow> receipt_ok receipt \<and> encode_deposit_receipt_v1 receipt = Inr b)"
  using transfer_instruction_eq withdrawal_instruction_eq initialize_codec.accepts_iff initialize_codec.wf_dec
    instruction_codec.accepts_iff instruction_codec.wf_dec receipt_codec.accepts_iff receipt_codec.wf_dec by blast

section \<open>Poseidon2\<close>

text \<open>
  C33. The permutation: on canonical states the optimised form, with its lazily reduced linear layers, computes the same state as the plain one, canonical again,
  and both refine the textbook permutation over the integers modulo \<open>2^31 - 1\<close>. The witness is the published known-answer vector of width 16.
\<close>

theorem permutation_correct:
  assumes "canon16 s"
  shows "permute_optimized s = permute s \<and> canon16 (permute s) \<and> map ival (permute s) = permute_spec (map ival s)"
  using permute_optimized_eq [OF assms] permute_canon [OF assms] permute_ival [OF assms] by simp

theorem permutation_correct_witness:
  "map ival (permute (map (\<lambda>i. M31 (of_nat i)) [0..<16])) = [0x0b2c803a, 0x5b1ee4d1, 0x49c6b1e3, 0x2cdc280c, 0x310a60c8, 0x530a729e, 0x4e61bcb4, 0x2e84d3c3,
      0x58709c08, 0x7e82ac42, 0x2162bcef, 0x6d153ab6, 0x742cf0e3, 0x2f21632d, 0x61adce1e, 0x1973d6f1]"
proof -
  let ?s = "map (\<lambda>i. M31 (of_nat i)) [0..<16]"
  have s: "?s = map M31 [0, 1, 2, 3, 4, 5, 6, 7, 8, 9, 10, 11, 12, 13, 14, 15]"
    by (simp add: upt_rec)
  have "canon16 ?s" unfolding s by (simp add: canon16_def canon_def M31_P_def)
  moreover have "map ival ?s = [0, 1, 2, 3, 4, 5, 6, 7, 8, 9, 10, 11, 12, 13, 14, 15]"
    unfolding s by (simp add: ival_def)
  moreover have "permute_spec [0, 1, 2, 3, 4, 5, 6, 7, 8, 9, 10, 11, 12, 13, 14, 15] = [0x0b2c803a, 0x5b1ee4d1, 0x49c6b1e3, 0x2cdc280c, 0x310a60c8, 0x530a729e, 0x4e61bcb4, 0x2e84d3c3,
      0x58709c08, 0x7e82ac42, 0x2162bcef, 0x6d153ab6, 0x742cf0e3, 0x2f21632d, 0x61adce1e, 0x1973d6f1]"
    by code_simp
  ultimately show ?thesis using permutation_correct [of ?s] by simp
qed

text \<open>
  C34. The instrumented permutation emits exactly 22 rounds that chain from the input to the output, and every
  adjacent pair of rounds is reproduced by the round evaluator that the proof trace uses.
\<close>

theorem trace_replays:
  assumes "permute_optimized_with_trace s = (out, trace)" "row < 11"
  shows "out = permute_optimized s \<and> map tr_round trace = map of_nat [0..<22]
    \<and> map tr_input trace @ [out] = s # map tr_output trace
    \<and> evaluate_trace_round_pair (tr_input (trace ! (2 * row))) row
        = Some (tr_output (trace ! (2 * row)), tr_output (trace ! (2 * row + 1)))"
  using permute_trace_chain [OF assms(1)] trace_row_replay [OF assms] by simp

theorem trace_replays_witness:
  "fst (permute_optimized_with_trace (replicate 16 M31_ZERO)) = permute_optimized (replicate 16 M31_ZERO)
   \<and> map tr_round (snd (permute_optimized_with_trace (replicate 16 M31_ZERO))) = map of_nat [0..<22]"
  using trace_replays [OF prod.collapse [symmetric], of 10 "replicate 16 M31_ZERO"] by simp

text \<open>
  C35. The hashes, against a specification over the integers that shares nothing with the code's state layout or absorption: the sponge over any
  input of fewer than \<open>2^31 - 1\<close> elements starts from the domain and the length in the first two capacity lanes, adds each block of eight to the
  rate and applies the permutation once per started block, at least once; the owner-key, nullifier and note hashes are that sponge under their own
  domains; a tree node is one permutation of the two child digests with the version tweak added to the last lane. All digests have eight canonical
  elements. The witness reproduces the repository's known-answer vectors of a two-block sponge and of the node.
\<close>

theorem hashes_correct:
  assumes "canon domain" "list_all canon input" "length input < 2147483647" "digest_ok left" "digest_ok right"
  shows "map ival (hash_fields domain input) = sponge_spec (ival domain) (map ival input) \<and> digest_ok (hash_fields domain input)
    \<and> map ival (hash_owner_key input) = sponge_spec 0x41530001 (map ival input)
    \<and> map ival (hash_nullifier input) = sponge_spec 0x41530002 (map ival input)
    \<and> map ival (hash_note_commitment input) = sponge_spec 0x41530003 (map ival input)
    \<and> map ival (merkle_node_compress_v3 left right) = node_spec (map ival left) (map ival right)
    \<and> digest_ok (merkle_node_compress_v3 left right)"
proof -
  have "canon DOMAIN_OWNER_KEY" "canon DOMAIN_NULLIFIER" "canon DOMAIN_NOTE"
    by (simp_all add: DOMAIN_OWNER_KEY_def DOMAIN_NULLIFIER_def DOMAIN_NOTE_def canon_M31 M31_P_def)
  note typed = this [THEN hash_fields_ival, OF assms(2,3)]
  moreover have "ival DOMAIN_OWNER_KEY = 0x41530001" "ival DOMAIN_NULLIFIER = 0x41530002" "ival DOMAIN_NOTE = 0x41530003"
    by (simp_all add: DOMAIN_OWNER_KEY_def DOMAIN_NULLIFIER_def DOMAIN_NOTE_def ival_def)
  ultimately show ?thesis
    using hash_fields_ival [OF assms(1-3)] hash_fields_eq(2,3) [OF assms(1-3)] node_compress_ival [of left right]
      merkle_node_compress_v3_val(2,3) [of left right] assms(4,5)
    by (simp add: digest_ok_def hash_owner_key_def hash_nullifier_def hash_note_commitment_def)
qed

theorem hashes_correct_witness:
  "map ival (hash_fields (M31 0x12345678) (map M31 [1, 2, 3, 4, 5, 6, 7, 8, 9]))
   = [1863531102, 1912681246, 1160547479, 466862115, 1158724711, 1610526762, 1425390262, 1741061033]
   \<and> map ival (merkle_node_compress_v3 (map M31 [100, 117, 134, 151, 168, 185, 202, 219])
     (map M31 [700, 719, 738, 757, 776, 795, 814, 833]))
   = [1586466362, 2103727270, 1374732293, 1933136693, 1396290158, 1930786489, 128900489, 1701436969]"
proof -
  let ?in = "map M31 [1, 2, 3, 4, 5, 6, 7, 8, 9]"
  let ?l = "map M31 [100, 117, 134, 151, 168, 185, 202, 219]"
  let ?r = "map M31 [700, 719, 738, 757, 776, 795, 814, 833]"
  have "sponge_spec 0x12345678 [1, 2, 3, 4, 5, 6, 7, 8, 9]
      = [1863531102, 1912681246, 1160547479, 466862115, 1158724711, 1610526762, 1425390262, 1741061033]"
    by code_simp
  moreover have "node_spec [100, 117, 134, 151, 168, 185, 202, 219] [700, 719, 738, 757, 776, 795, 814, 833]
      = [1586466362, 2103727270, 1374732293, 1933136693, 1396290158, 1930786489, 128900489, 1701436969]"
    by code_simp
  moreover have "digest_ok ?l" "digest_ok ?r" "canon (M31 0x12345678)" "list_all canon ?in"
    by (simp_all add: digest_ok_def canon_def M31_P_def)
  moreover have "map ival ?l = [100, 117, 134, 151, 168, 185, 202, 219]" "map ival ?r = [700, 719, 738, 757, 776, 795, 814, 833]"
    "map ival ?in = [1, 2, 3, 4, 5, 6, 7, 8, 9]" "ival (M31 0x12345678) = 0x12345678"
    by (simp_all add: ival_def)
  ultimately show ?thesis using hashes_correct [of "M31 0x12345678" ?in ?l ?r] by (simp del: list.map)
qed

section \<open>Field arithmetic\<close>

lemma batch_inverse_values:
  assumes "length out = length vs" "list_all (\<lambda>v. canon v \<and> v \<noteq> M31_ZERO) vs"
  shows "\<exists>r. m31_batch_inverse vs out = Some r \<and> length r = length vs
    \<and> (\<forall>i < length vs. m31_inv (vs ! i) = Some (r ! i))"
proof -
  have vs: "canon (vs ! i)" "vs ! i \<noteq> M31_ZERO" if "i < length vs" for i
    using assms(2) that by (simp_all add: list_all_length)
  then have nz: "gval (vs ! i) \<noteq> 0" if "i < length vs" for i
    using that gval_inject [of "vs ! i" M31_ZERO] by simp
  have "list_all canon vs" using vs by (simp add: list_all_length)
  from m31_batch_inverse_with_val [OF assms(1) this nz inverts_m31_inv]
  obtain r where r: "m31_batch_inverse vs out = Some r" "length r = length vs"
    "\<forall>i<length vs. canon (r ! i) \<and> gval (r ! i) = inverse (gval (vs ! i))"
    by (auto simp: m31_batch_inverse_def)
  have "m31_inv (vs ! i) = Some (r ! i)" if i: "i < length vs" for i
  proof -
    obtain y where y: "m31_inv (vs ! i) = Some y" using m31_inv_Some vs i by blast
    then have "canon y" "gval y = gval (r ! i)" using m31_inv_val [OF vs(1) [OF i] y] r(3) i by simp_all
    then show ?thesis using y r(3) i gval_inject [of y "r ! i"] by simp
  qed
  with r show ?thesis by blast
qed

text \<open>
  C36. The reductions are exact: for every 64-bit and every 128-bit word the result is the canonical residue modulo
  \<open>2^31 - 1\<close>.
\<close>

theorem reductions_exact:
  "unat (limb (m31_reduce_u64 w)) = unat w mod 2147483647 \<and> unat (limb (m31_reduce_u128 v)) = unat v mod 2147483647"
  using unat_reduce_u64 [of w] unat_reduce_u128 [of v] by (simp add: m31_reduce_u64_def)

text \<open>
  C37. Inversion: every canonical nonzero element of the base field, and of the quartic extension, has a canonical
  inverse that multiplies to one; zero has none. The batch, with one field inversion for the whole list, returns the same inverses.
\<close>

theorem inverses_correct:
  assumes "canon x" "qcanon z" "length out = length vs" "list_all (\<lambda>v. canon v \<and> v \<noteq> M31_ZERO) vs"
  shows "(if x = M31_ZERO then m31_inv x = None
      else \<exists>y. m31_inv x = Some y \<and> canon y \<and> m31_mul x y = M31_ONE)
    \<and> (if qm31_is_zero z then qm31_try_inv z = Some None
      else \<exists>y. qm31_try_inv z = Some (Some y) \<and> qcanon y \<and> qm31_mul z y = QM31_ONE)
    \<and> (\<exists>r. m31_batch_inverse vs out = Some r \<and> length r = length vs
      \<and> (\<forall>i < length vs. m31_inv (vs ! i) = Some (r ! i)))"
  using m31_inv_correct [OF assms(1)] qm31_inv_correct [OF assms(2)] batch_inverse_values [OF assms(3,4)] by simp

theorem inverses_correct_witness:
  "(\<exists>y. m31_inv (M31 5) = Some y \<and> canon y \<and> m31_mul (M31 5) y = M31_ONE)
   \<and> (\<exists>y. qm31_try_inv QM31_ONE = Some (Some y) \<and> qcanon y \<and> qm31_mul QM31_ONE y = QM31_ONE)
   \<and> (\<exists>r. m31_batch_inverse [M31 2, M31 3] [M31 0, M31 0] = Some r \<and> length r = 2
      \<and> (\<forall>i < 2. m31_inv ([M31 2, M31 3] ! i) = Some (r ! i)))"
  using inverses_correct [of "M31 5" QM31_ONE "[M31 0, M31 0]" "[M31 2, M31 3]"]
  by (simp add: canon_def M31_P_def M31_ZERO_def qm31_is_zero_val flip: numeral_2_eq_2)

text \<open>
  C38. The evaluation kernels of the quartic field: the radix-8 evaluation of a degree-72 polynomial equals Horner's rule, and the dot product with
  64-bit accumulators reduced in blocks is the sum of products and equals the 128-bit reference kernel, up to \<open>2^34\<close> columns.
\<close>

theorem evaluation_kernels_correct:
  assumes "length cs = 73" "list_all qcanon cs" "qcanon x"
    and "length ws = length vs" "list_all qcanon ws" "list_all canon vs" "length ws \<le> 17179869184"
  shows "qm31_evaluate_degree72_radix8 cs x = qm31_evaluate_degree72_horner cs x
    \<and> qm31_m31_dot_u128 ws vs = qm31_m31_dot ws vs \<and> (\<exists>z. qm31_m31_dot ws vs = Some z \<and> qcanon z
      \<and> qval z = (\<Sum>k<length ws. qval (ws ! k) * q_of_g (gval (vs ! k))))"
  using radix8_is_horner [OF assms(1-3)] qm31_m31_dot_u128_val [OF assms(4-)] qm31_m31_dot_val [OF assms(4-)] by simp

theorem evaluation_kernels_correct_witness:
  "qm31_evaluate_degree72_radix8 (replicate 73 QM31_ONE) QM31_ONE = qm31_evaluate_degree72_horner (replicate 73 QM31_ONE) QM31_ONE
   \<and> qm31_m31_dot_u128 [QM31_ONE, QM31_ONE] [M31_ONE, M31_ONE] = qm31_m31_dot [QM31_ONE, QM31_ONE] [M31_ONE, M31_ONE]"
  using evaluation_kernels_correct [of "replicate 73 QM31_ONE" QM31_ONE "[QM31_ONE, QM31_ONE]" "[M31_ONE, M31_ONE]"]
  by (simp add: list_all_iff)

text \<open>
  C39. The byte kernels against the documented wire, four slots one after the other and each slot the little-endian images of its columns: on
  canonical weights the kernel over complex columns and the one over base columns (of at most \<open>2^34\<close> columns) refuse a wire exactly when a limb in
  any slot and column is not below \<open>p\<close>, and otherwise return, for each slot, the sum over its columns of weight times value in the quartic field;
  a wire of any other length is refused. The fixed-width kernels are the general one at widths \<open>4b + 1\<close>, \<open>4b\<close> and \<open>4b + 2\<close> and refuse the other widths,
  and both 49-column kernels are the general one at width 49. The witness has two complex columns, and a base wire refused for its last limb.
\<close>

theorem byte_kernels_correct:
  assumes "length crows = 4" "\<forall>row \<in> set crows. length row = n" "prepared_weights_new n ws = Some pw" "list_all qcanon ws"
    and "length rows = 4" "\<forall>row \<in> set rows. length row = m" "length vs = m" "list_all qcanon vs" "m \<le> 17179869184"
  shows "dot_result (\<forall>row \<in> set crows. \<forall>v \<in> set row. fst v < M31_P \<and> snd v < M31_P)
      (\<lambda>slot. \<Sum>k<n. qval (ws ! k) * q_of_c (cval (cm31_pair (crows ! slot ! k))))
      (qm31_cm31_dot4_prepared_bytes n pw (slot_major cm31_wire crows))
    \<and> dot_result (\<forall>row \<in> set rows. \<forall>v \<in> set row. v < M31_P)
      (\<lambda>slot. \<Sum>k<m. qval (vs ! k) * q_of_g (gval (M31 (rows ! slot ! k))))
      (qm31_m31_dot4_prepared_bytes m vs (slot_major (to_le 4) rows))
    \<and> (length b \<noteq> 4 * n * 8 \<longrightarrow> qm31_cm31_dot4_prepared_bytes n pw b = None)
    \<and> (length b \<noteq> 4 * m * 4 \<longrightarrow> qm31_m31_dot4_prepared_bytes m vs b = None)
    \<and> qm31_m31_dot4_prepared_limbs_4b1_bytes j w b = (if j mod 4 = 1 then qm31_m31_dot4_prepared_limbs_bytes j w b else None)
    \<and> qm31_m31_dot4_prepared_limbs_4b_bytes j w b
      = (if j \<noteq> 0 \<and> j mod 4 = 0 then qm31_m31_dot4_prepared_limbs_bytes j w b else None)
    \<and> qm31_m31_dot4_prepared_limbs_4b2_bytes j w b = (if j mod 4 = 2 then qm31_m31_dot4_prepared_limbs_bytes j w b else None)
    \<and> qm31_m31_dot4_prepared_limbs49_bytes w b = qm31_m31_dot4_prepared_limbs_bytes 49 w b
    \<and> qm31_m31_dot4_prepared_limbs49_bytes_two_rows w b = qm31_m31_dot4_prepared_limbs_bytes 49 w b"
proof (intro conjI impI)
  show "qm31_cm31_dot4_prepared_bytes n pw b = None" if "length b \<noteq> 4 * n * 8"
    using that by (simp add: qm31_cm31_dot4_prepared_bytes_def)
  show "qm31_m31_dot4_prepared_bytes m vs b = None" if "length b \<noteq> 4 * m * 4"
    using that by (simp add: qm31_m31_dot4_prepared_bytes_def qm31_m31_dot4_prepared_limbs_bytes_def)
qed (rule cm31_bytes_val [OF assms(1-4)] m31_bytes_val [OF assms(5-9)] limbs_4b1_eq limbs_4b_eq limbs_4b2_eq limbs49_eq trans [OF limbs49_two_rows_eq limbs49_eq])+

theorem byte_kernels_correct_witness:
  "(\<exists>pw zs. prepared_weights_new 2 [QM31_ZERO, QM31_ONE] = Some pw
      \<and> qm31_cm31_dot4_prepared_bytes 2 pw (concat (map (to_le 4) [1 :: u32, 2, 3, 4, 5, 6, 7, 8, 9, 10, 11, 12, 13, 14, 15, 16])) = Some zs
      \<and> map qval zs = map (\<lambda>v. q_of_c (cval (cm31_pair v))) [(3, 4), (7, 8), (11, 12), (15, 16)])
   \<and> qm31_m31_dot4_prepared_bytes 1 [QM31_ONE] (concat (map (to_le 4) [1 :: u32, 2, 3, 0x7FFFFFFF])) = None"
proof -
  let ?crows = "[[(1, 2), (3, 4)], [(5, 6), (7, 8)], [(9, 10), (11, 12)], [(13, 14), (15, 16)]] :: (u32 \<times> u32) list list"
  let ?rows = "[[1], [2], [3], [0x7FFFFFFF]] :: u32 list list"
  obtain pw where pw: "prepared_weights_new 2 [QM31_ZERO, QM31_ONE] = Some pw" by (simp add: prepared_weights_new_def)
  have wires: "slot_major cm31_wire ?crows = concat (map (to_le 4) [1 :: u32, 2, 3, 4, 5, 6, 7, 8, 9, 10, 11, 12, 13, 14, 15, 16])"
    "slot_major (to_le 4) ?rows = concat (map (to_le 4) [1 :: u32, 2, 3, 0x7FFFFFFF])"
    by (simp_all add: slot_major_def cm31_wire_def)
  have "dot_result True (\<lambda>slot. \<Sum>k<2. qval ([QM31_ZERO, QM31_ONE] ! k) * q_of_c (cval (cm31_pair (?crows ! slot ! k))))
      (qm31_cm31_dot4_prepared_bytes 2 pw (slot_major cm31_wire ?crows))"
    using byte_kernels_correct [THEN conjunct1, of ?crows 2 "[QM31_ZERO, QM31_ONE]" pw ?rows 1 "[QM31_ONE]"] pw by (simp add: M31_P_def)
  then obtain zs where zs: "qm31_cm31_dot4_prepared_bytes 2 pw (slot_major cm31_wire ?crows) = Some zs" "length zs = 4"
      "\<And>slot. slot < 4 \<Longrightarrow> qval (zs ! slot) = (\<Sum>k<2. qval ([QM31_ZERO, QM31_ONE] ! k) * q_of_c (cval (cm31_pair (?crows ! slot ! k))))"
    by (auto simp: dot_result_def split: option.splits)
  have "dot_result False (\<lambda>slot. \<Sum>k<1. qval ([QM31_ONE] ! k) * q_of_g (gval (M31 (?rows ! slot ! k))))
      (qm31_m31_dot4_prepared_bytes 1 [QM31_ONE] (slot_major (to_le 4) ?rows))"
    using byte_kernels_correct [THEN conjunct2, THEN conjunct1, of ?crows 2 "[QM31_ZERO, QM31_ONE]" pw ?rows 1 "[QM31_ONE]"] pw
    by (simp add: M31_P_def)
  then have none: "qm31_m31_dot4_prepared_bytes 1 [QM31_ONE] (slot_major (to_le 4) ?rows) = None"
    by (simp add: dot_result_def split: option.splits)
  have "map qval zs = map (\<lambda>v. q_of_c (cval (cm31_pair v))) [(3, 4), (7, 8), (11, 12), (15, 16)]"
    using zs(2) zs(3) [of 0] zs(3) [of 1] zs(3) [of 2] zs(3) [of 3] by (auto simp: length_Suc_conv numeral_eq_Suc)
  with pw zs(1) none show ?thesis unfolding wires by blast
qed

end
